(* ===== verification/Prelude.thy ===== *)
theory Prelude
  imports Main "HOL-Library.Product_Lexorder" "HOL-Library.List_Lexorder"
    "HOL-Library.Char_ord" "HOL-Library.Option_ord" "HOL-Library.Code_Target_Nat"
begin

text \<open>
  Shared vocabulary of the development: results that may fail, the row operations that the
  SQL statements of the program perform on a table, a small JSON type, and the interfaces
  (locales) that several components implement.

  A table is the list of its rows in insertion order. \<open>update_where\<close>, \<open>delete_where\<close>
  and \<open>count_where\<close> are \<^verbatim>\<open>UPDATE .. WHERE\<close>, \<^verbatim>\<open>DELETE .. WHERE\<close> and
  \<^verbatim>\<open>SELECT count(*) .. WHERE\<close>; \<open>find\<close> is \<^verbatim>\<open>SELECT .. WHERE\<close> read as
  \<^verbatim>\<open>rows[0]\<close>.
\<close>

section \<open>Collections of rules\<close>

named_theorems res_simps \<open>inversion of successful and failed results\<close>
named_theorems table_simps \<open>how the row operations act on a table\<close>

section \<open>Results that may fail\<close>

text \<open>
  \<open>HarborError status code\<close> is the exception class of \<^verbatim>\<open>packages/policy/src/index.ts\<close>
  (its message text is not modelled); \<open>Crash\<close> is any other exception: a plain
  \<^verbatim>\<open>Error\<close>, a \<^verbatim>\<open>TypeError\<close> or a constraint violation reported by the database.
\<close>

datatype failure = HarborError nat string | Crash string

type_synonym 'a res = "failure + 'a"

definition andThen :: "'e + 'a \<Rightarrow> ('a \<Rightarrow> 'e + 'b) \<Rightarrow> 'e + 'b" where
  "andThen m k = (case m of Inl e \<Rightarrow> Inl e | Inr x \<Rightarrow> k x)"

lemma andThen_Inl [simp]: "andThen (Inl e) k = Inl e"
  by (simp add: andThen_def)

lemma andThen_Inr [simp]: "andThen (Inr x) k = k x"
  by (simp add: andThen_def)

lemma andThen_eq_Inr [res_simps]:
  "andThen m k = Inr y \<longleftrightarrow> (\<exists>x. m = Inr x \<and> k x = Inr y)"
  by (cases m) auto

lemma andThen_eq_Inl [res_simps]:
  "andThen m k = Inl e \<longleftrightarrow> m = Inl e \<or> (\<exists>x. m = Inr x \<and> k x = Inl e)"
  by (cases m) auto

lemma andThen_cong [fundef_cong]:
  "m = m' \<Longrightarrow> (\<And>x. m' = Inr x \<Longrightarrow> k x = k' x) \<Longrightarrow> andThen m k = andThen m' k'"
  by (cases m') auto

lemma if_Inl_eq_Inr [res_simps]: "(if b then Inl e else m) = Inr y \<longleftrightarrow> \<not> b \<and> m = Inr y"
  by auto

lemma if_Inl_else_eq_Inr [res_simps]: "(if b then m else Inl e) = Inr y \<longleftrightarrow> b \<and> m = Inr y"
  by auto

text \<open>\<open>rows[0]\<close> where the program goes on to read a field of it.\<close>

definition first_row :: "failure \<Rightarrow> 'r option \<Rightarrow> 'r res" where
  "first_row e r = (case r of None \<Rightarrow> Inl e | Some x \<Rightarrow> Inr x)"

lemma first_row_simps [simp]:
  "first_row e None = Inl e" "first_row e (Some x) = Inr x"
  by (simp_all add: first_row_def)

lemma first_row_eq_Inr [res_simps]: "first_row e r = Inr x \<longleftrightarrow> r = Some x"
  by (cases r) auto

lemma first_row_eq_Inl [res_simps]: "first_row e r = Inl e' \<longleftrightarrow> r = None \<and> e' = e"
  by (cases r) auto

text \<open>An optional value that is present and satisfies \<open>P\<close>.\<close>

definition some_holds :: "('a \<Rightarrow> bool) \<Rightarrow> 'a option \<Rightarrow> bool" where
  "some_holds P x = (case x of None \<Rightarrow> False | Some y \<Rightarrow> P y)"

lemma some_holds_iff [simp]: "some_holds P x \<longleftrightarrow> (\<exists>y. x = Some y \<and> P y)"
  by (cases x) (simp_all add: some_holds_def)

definition succeeds :: "'e + 'a \<Rightarrow> bool" where
  "succeeds m \<longleftrightarrow> (case m of Inl _ \<Rightarrow> False | Inr _ \<Rightarrow> True)"

lemma succeeds_simps [simp]: "succeeds (Inr x)" "\<not> succeeds (Inl e)"
  by (simp_all add: succeeds_def)

lemma succeedsE: "succeeds m \<Longrightarrow> (\<And>x. m = Inr x \<Longrightarrow> P) \<Longrightarrow> P"
  by (cases m) auto

section \<open>Tables\<close>

definition update_where :: "('r \<Rightarrow> bool) \<Rightarrow> ('r \<Rightarrow> 'r) \<Rightarrow> 'r list \<Rightarrow> 'r list" where
  "update_where P f rows = map (\<lambda>r. if P r then f r else r) rows"

definition delete_where :: "('r \<Rightarrow> bool) \<Rightarrow> 'r list \<Rightarrow> 'r list" where
  "delete_where P rows = filter (\<lambda>r. \<not> P r) rows"

definition count_where :: "('r \<Rightarrow> bool) \<Rightarrow> 'r list \<Rightarrow> nat" where
  "count_where P rows = length (filter P rows)"

definition exists_row :: "('r \<Rightarrow> bool) \<Rightarrow> 'r list \<Rightarrow> bool" where
  "exists_row P rows \<longleftrightarrow> list_ex P rows"

lemma update_where_simps [simp]:
  "update_where P f [] = []"
  "update_where P f (r # rs) = (if P r then f r else r) # update_where P f rs"
  by (simp_all add: update_where_def)

lemma update_where_append [simp]:
  "update_where P f (xs @ ys) = update_where P f xs @ update_where P f ys"
  by (simp add: update_where_def)

lemma length_update_where [simp]: "length (update_where P f rows) = length rows"
  by (simp add: update_where_def)

lemma set_update_where [table_simps]:
  "set (update_where P f rows) = (\<lambda>r. if P r then f r else r) ` set rows"
  by (simp add: update_where_def)

lemma set_delete_where [table_simps]: "set (delete_where P rows) = {r \<in> set rows. \<not> P r}"
  by (auto simp: delete_where_def)

lemma delete_where_simps [simp]:
  "delete_where P [] = []"
  "delete_where P (r # rs) = (if P r then delete_where P rs else r # delete_where P rs)"
  by (simp_all add: delete_where_def)

lemma count_where_simps [simp]:
  "count_where P [] = 0"
  "count_where P (r # rs) = (if P r then Suc (count_where P rs) else count_where P rs)"
  by (simp_all add: count_where_def)

lemma count_where_append [simp]:
  "count_where P (xs @ ys) = count_where P xs + count_where P ys"
  by (simp add: count_where_def)

lemma exists_row_iff [simp]: "exists_row P rows \<longleftrightarrow> (\<exists>r \<in> set rows. P r)"
  by (simp add: exists_row_def list_ex_iff)

lemma count_where_le_length: "count_where P rows \<le> length rows"
  by (simp add: count_where_def)

lemma count_where_0_iff: "count_where P rows = 0 \<longleftrightarrow> (\<forall>r \<in> set rows. \<not> P r)"
  by (induction rows) auto

lemma count_where_mono: "(\<And>r. r \<in> set rows \<Longrightarrow> P r \<Longrightarrow> Q r) \<Longrightarrow> count_where P rows \<le> count_where Q rows"
  by (induction rows) (auto simp: le_SucI)

lemma count_where_delete_le: "count_where P (delete_where Q rows) \<le> count_where P rows"
  by (induction rows) auto

lemma count_where_update_le:
  assumes "\<And>r. r \<in> set rows \<Longrightarrow> P (if Q r then f r else r) \<Longrightarrow> P r"
  shows "count_where P (update_where Q f rows) \<le> count_where P rows"
  using assms by (induction rows) (auto split: if_splits intro: le_SucI)

lemma count_where_update_eq:
  assumes "\<And>r. r \<in> set rows \<Longrightarrow> Q r \<Longrightarrow> P (f r) = P r"
  shows "count_where P (update_where Q f rows) = count_where P rows"
  using assms by (induction rows) (auto split: if_splits)

lemma map_update_where_key:
  "(\<And>r. r \<in> set rows \<Longrightarrow> P r \<Longrightarrow> key (f r) = key r) \<Longrightarrow> map key (update_where P f rows) = map key rows"
  by (induction rows) auto

lemma distinct_delete_where: "distinct (map key rows) \<Longrightarrow> distinct (map key (delete_where P rows))"
  by (simp add: delete_where_def distinct_map_filter)

lemma update_where_none: "(\<And>r. r \<in> set rows \<Longrightarrow> \<not> P r) \<Longrightarrow> update_where P f rows = rows"
  by (induction rows) auto

lemma find_Some_in: "find P rows = Some r \<Longrightarrow> r \<in> set rows \<and> P r"
  by (auto simp: find_Some_iff)

lemma find_update_where_key:
  assumes "\<And>r. key (f r) = key r"
  shows "find (\<lambda>r. key r = k) (update_where P f rows) =
    map_option (\<lambda>r. if P r then f r else r) (find (\<lambda>r. key r = k) rows)"
  using assms by (induction rows) auto

lemma find_append [simp]:
  "find P (xs @ ys) = (case find P xs of None \<Rightarrow> find P ys | Some r \<Rightarrow> Some r)"
  by (induction xs) auto

lemma find_map_option: "find P (map f xs) = map_option f (find (P \<circ> f) xs)"
  by (induction xs) auto

lemma find_distinct:
  "distinct (map key rows) \<Longrightarrow> r \<in> set rows \<Longrightarrow> find (\<lambda>x. key x = key r) rows = Some r"
  by (induction rows) (auto simp: image_iff)

lemma distinct_keyD:
  "distinct (map key rows) \<Longrightarrow> r \<in> set rows \<Longrightarrow> r' \<in> set rows \<Longrightarrow> key r = key r' \<Longrightarrow> r = r'"
  by (auto simp: distinct_map inj_on_def)

lemma find_is_Some: "r \<in> set rows \<Longrightarrow> P r \<Longrightarrow> \<exists>x. find P rows = Some x"
  by (induction rows) auto

lemma find_is_None: "find P rows = None \<longleftrightarrow> (\<forall>r \<in> set rows. \<not> P r)"
  by (induction rows) auto

lemma count_where_less:
  assumes "\<And>r. r \<in> set rows \<Longrightarrow> Q r \<Longrightarrow> P r" and "r \<in> set rows" "P r" "\<not> Q r"
  shows "count_where Q rows < count_where P rows"
  using assms
proof (induction rows)
  case (Cons x xs)
  have le: "count_where Q xs \<le> count_where P xs" using Cons.prems(1) by (intro count_where_mono) auto
  show ?case
  proof (cases "x = r")
    case True then show ?thesis using le Cons.prems by simp
  next
    case False
    then have "count_where Q xs < count_where P xs" using Cons.prems by (intro Cons.IH) auto
    then show ?thesis using Cons.prems(1)[of x] by auto
  qed
qed simp

lemma insort_key_map: "insort_key k (f x) (map f xs) = map f (insort_key (k \<circ> f) x xs)"
  by (induction xs) auto

lemma sort_key_map: "sort_key k (map f xs) = map f (sort_key (k \<circ> f) xs)"
  by (induction xs) (auto simp: insort_key_map comp_def)

lemma filter_update_where:
  "(\<And>r. P (f r) = P r) \<Longrightarrow> filter P (update_where Q f rows) = update_where Q f (filter P rows)"
  by (induction rows) auto

lemma bex_update_where:
  "(\<And>r. P (f r) = P r) \<Longrightarrow> (\<exists>r \<in> set (update_where Q f rows). P r) = (\<exists>r \<in> set rows. P r)"
  by (induction rows) auto

section \<open>JSON values\<close>

datatype json = JNull | JBool bool | JNum int | JStr string
  | JArr "json list" | JObj "(string \<times> json) list"

text \<open>\<^verbatim>\<open>data->>'field'\<close> where the field holds a text.\<close>

fun json_text :: "string \<Rightarrow> json \<Rightarrow> string option" where
  "json_text k (JObj kvs) = (case map_of kvs k of Some (JStr s) \<Rightarrow> Some s | _ \<Rightarrow> None)"
| "json_text k _ = None"

fun json_field :: "string \<Rightarrow> json \<Rightarrow> json" where
  "json_field k (JObj kvs) = (case map_of kvs k of Some v \<Rightarrow> v | None \<Rightarrow> JNull)"
| "json_field k _ = JNull"

section \<open>Strings\<close>

definition starts_with :: "string \<Rightarrow> string \<Rightarrow> bool" where
  "starts_with p s \<longleftrightarrow> take (length p) s = p"

lemma starts_with_append [simp]: "starts_with p (p @ s)"
  by (simp add: starts_with_def)

definition is_digit :: "char \<Rightarrow> bool" where
  "is_digit c \<longleftrightarrow> (CHR ''0'' \<le> c \<and> c \<le> CHR ''9'')"

definition is_hex_lower :: "char \<Rightarrow> bool" where
  "is_hex_lower c \<longleftrightarrow> is_digit c \<or> (CHR ''a'' \<le> c \<and> c \<le> CHR ''f'')"

fun split_on :: "char \<Rightarrow> string \<Rightarrow> string list" where
  "split_on d [] = [[]]"
| "split_on d (c # cs) =
     (if c = d then [] # split_on d cs
      else (case split_on d cs of [] \<Rightarrow> [[c]] | w # ws \<Rightarrow> (c # w) # ws))"

lemma split_on_nonempty [simp]: "split_on d s \<noteq> []"
  by (induction s) (auto split: list.splits)

lemma split_on_no_sep: "d \<notin> set s \<Longrightarrow> split_on d s = [s]"
  by (induction s) auto

lemma split_on_join: "d \<notin> set s \<Longrightarrow> split_on d (s @ d # t) = s # split_on d t"
  by (induction s) auto

text \<open>White space as \<^verbatim>\<open>String.prototype.trim\<close> removes it (ASCII only).\<close>

definition is_space :: "char \<Rightarrow> bool" where
  "is_space c \<longleftrightarrow> of_char c \<in> {9, 10, 11, 12, 13, 32 :: nat}"

definition trim :: "string \<Rightarrow> string" where
  "trim s = rev (dropWhile is_space (rev (dropWhile is_space s)))"

section \<open>Interfaces: requests served one after another\<close>

text \<open>
  A component's writing operation \<open>op\<close> takes a request and a state and either refuses, leaving
  the state as it was (the transaction rolls back), or returns the next state. \<open>serve\<close> runs a
  list of requests.
\<close>

fun serve :: "('a \<Rightarrow> 's \<Rightarrow> 'e + 's) \<Rightarrow> 'a list \<Rightarrow> 's \<Rightarrow> 's" where
  "serve op [] s = s"
| "serve op (x # xs) s = serve op xs (case op x s of Inl _ \<Rightarrow> s | Inr s' \<Rightarrow> s')"

lemma serve_append: "serve op (xs @ ys) s = serve op ys (serve op xs s)"
  by (induction xs arbitrary: s) auto

locale invariant_ops =
  fixes op :: "'a \<Rightarrow> 's \<Rightarrow> 'e + 's" and inv :: "'s \<Rightarrow> bool"
  assumes op_keeps: "op x s = Inr s' \<Longrightarrow> inv s \<Longrightarrow> inv s'"
begin

lemma serve_keeps: "inv s \<Longrightarrow> inv (serve op xs s)"
  by (induction xs arbitrary: s) (auto intro: op_keeps split: sum.splits)

lemma serve_prefix_keeps: "inv s \<Longrightarrow> inv (serve op (take n xs) s)"
  by (rule serve_keeps)

end

text \<open>Operations that keep an invariant and move a state along a preorder.\<close>

locale evolving_ops = invariant_ops op inv
  for op :: "'a \<Rightarrow> 's \<Rightarrow> 'e + 's" and inv :: "'s \<Rightarrow> bool" +
  fixes moves :: "'s \<Rightarrow> 's \<Rightarrow> bool"
  assumes op_moves: "op x s = Inr s' \<Longrightarrow> inv s \<Longrightarrow> moves s s'"
    and moves_refl: "moves s s"
    and moves_trans: "moves s t \<Longrightarrow> moves t u \<Longrightarrow> moves s u"
begin

lemma serve_moves: "inv s \<Longrightarrow> moves s (serve op xs s)"
proof (induction xs arbitrary: s)
  case Nil
  then show ?case by (simp add: moves_refl)
next
  case (Cons x xs)
  show ?case
  proof (cases "op x s")
    case (Inl f)
    then show ?thesis using Cons by simp
  next
    case (Inr t)
    then show ?thesis using Cons.IH [OF op_keeps [OF Inr Cons.prems]] op_moves [OF Inr Cons.prems]
      by (auto intro: moves_trans)
  qed
qed

end

text \<open>Operations that admit a row only below a quota.\<close>

locale bounded_ops =
  fixes op :: "'a \<Rightarrow> 's \<Rightarrow> 'e + 's" and size_of :: "'s \<Rightarrow> nat" and limit :: nat
  assumes op_bound: "op x s = Inr s' \<Longrightarrow> size_of s' \<le> max limit (size_of s)"

sublocale bounded_ops \<subseteq> invariant_ops op "\<lambda>s. size_of s \<le> limit"
  by unfold_locales (metis max.absorb1 op_bound)

context bounded_ops
begin

lemma serve_bounded: "size_of s \<le> limit \<Longrightarrow> size_of (serve op xs s) \<le> limit"
  by (rule serve_keeps)

end

text \<open>Operations on a table that neither change a row's key nor add a key twice.\<close>

locale keyed_ops =
  fixes op :: "'a \<Rightarrow> 's \<Rightarrow> 'e + 's" and table :: "'s \<Rightarrow> 'r list" and key :: "'r \<Rightarrow> 'k"
  assumes op_distinct: "op x s = Inr s' \<Longrightarrow> distinct (map key (table s)) \<Longrightarrow> distinct (map key (table s'))"

sublocale keyed_ops \<subseteq> keyed: invariant_ops op "\<lambda>s. distinct (map key (table s))"
  by unfold_locales (rule op_distinct)

context keyed_ops
begin

lemma serve_lookup:
  assumes "distinct (map key (table s))" and "r \<in> set (table (serve op xs s))"
  shows "find (\<lambda>x. key x = key r) (table (serve op xs s)) = Some r"
  using keyed.serve_keeps [OF assms(1)] assms(2) by (rule find_distinct)

end

end
