(* ===== verification/Database.thy ===== *)
theory Database
  imports Prelude
begin

text \<open>
  The data model: one record per PostgreSQL table the modelled code reads or writes
  (\<^verbatim>\<open>packages/storage/src/migrations\<close>), the record \<open>db\<close> of all tables, and the
  record \<open>env\<close> of what a request reads from its surroundings (configuration, clock, hash
  function, file system answers).

  Column \<open>c\<close> of table \<open>t\<close> is the field \<open><prefix>_c\<close>; a nullable column is an
  \<open>option\<close>; an enumerated text column is a datatype; \<^verbatim>\<open>timestamptz\<close> is an \<open>int\<close>
  number of milliseconds. Columns that no modelled statement reads are left out. A \<open>string\<close>
  is a list of bytes, so \<open>length\<close> is \<^verbatim>\<open>octet_length\<close> and \<^verbatim>\<open>Buffer.byteLength\<close>.
\<close>

type_synonym uuid = string
type_synonym time = int

section \<open>Enumerations\<close>

datatype profile = ReadOnly | WorkspaceWrite

datatype scope = Read | Execute | Approve | CancelTurns | SchedulesRead | SchedulesManage
  | FilesRead | FilesWrite | GitRead | GitWrite | TerminalRead | TerminalControl
  | TerminalTerminate | PreviewsRead | PreviewsManage

datatype op_kind = TurnOp | CancelOp

datatype op_state = Queued | Dispatching | Running | WaitingApproval | WaitingInput
  | Succeeded | Failed | Interrupted | Uncertain

datatype session_state = Idle | SessionIn op_state

datatype ws_kind = LocalWs | WorktreeWs | CopyWs

datatype ws_state = WsCreating | WsRemoving | WsReady | WsUnavailable | WsFailed | WsArchived | WsRemoved

datatype writer_kind = ConversationWriter | FileWriter | TerminalWriter | PreviewWriter | ExtensionWriter

datatype storage_action = StorageCreate | StorageRemove

datatype storage_state = StQueued | StDispatching | StCompleted | StFailed

datatype runtime_state = RtStarting | RtActive | RtWaitingApproval | RtWaitingInput | RtIdle
  | RtProtected | RtRetiring | RtUnknown

datatype recovery_state = RecQueued | RecFencing | RecReady | RecFailed | RecConsumed

datatype role = UserRole | AssistantRole | SystemRole | ToolRole

datatype msg_status = MsgComplete | MsgStreaming | MsgRecovered

datatype attachment_state = AttUploading | AttStaged | AttAttached | AttDeleted | AttExpired

datatype file_state = FileQueued | FileDispatching | FileSucceeded | FileFailed | FileUncertain

datatype file_kind = FileSave | FileStage | FileUnstage | FileCommit

datatype terminal_state = TermQueued | TermDispatching | TermRunning | TermShellExited | TermRetiring
  | TermTerminated | TermInterrupted | TermFailed | TermUncertain

datatype preview_state = PvCreated | PvQueued | PvStarting | PvReady | PvStopping | PvStopped
  | PvExited | PvFailed | PvUncertain

datatype schedule_state = Enabled | Paused | Attention | Completed

datatype occ_kind = Recurring | Manual | Range

datatype occ_state = Accepted | PreparingWorkspace | QueuedTurn | OccRunning | OccAttention
  | OccSucceeded | OccFailed | Cancelled | Skipped | OccUncertain

datatype title_source = TitlePending | TitleAutomatic | TitleManual

section \<open>Schedule values kept as JSON columns\<close>

datatype rule = Once string string | Cron string string
  \<comment> \<open>\<open>Once local timezone\<close>, \<open>Cron expression timezone\<close>\<close>

fun rule_timezone :: "rule \<Rightarrow> string" where
  "rule_timezone (Once l tz) = tz"
| "rule_timezone (Cron e tz) = tz"

fun set_timezone :: "string \<Rightarrow> rule \<Rightarrow> rule" where
  "set_timezone tz (Once l _) = Once l tz"
| "set_timezone tz (Cron e _) = Cron e tz"

datatype ws_mode = Standalone | Existing
datatype source_policy = Committed | Snapshot
datatype missed_policy = SkipMissed | CatchUp

record schedule_config =
  cf_rule :: rule
  cf_mode :: ws_mode
  cf_source_workspace :: "uuid option"
  cf_source_policy :: "source_policy option"
  cf_session :: "uuid option"
  cf_base_revision :: "string option"
  cf_model :: string
  cf_effort :: string
  cf_profile :: profile
  cf_missed :: missed_policy

record minute =
  mn_local :: string
  mn_instant :: time
  mn_offset :: string
  mn_timezone :: string

record batch =
  bt_range_from :: "time option"
  bt_through :: time
  bt_next :: "time option"
  bt_minutes :: "minute list"
  bt_excluded :: "string list"

datatype occ_snapshot =
    AdmittedMinute nat "string option" minute          \<comment> \<open>config revision, source revision, minute\<close>
  | AdmittedManual nat "string option" time string     \<comment> \<open>config revision, source revision, instant, timezone\<close>
  | SkippedMinute minute
  | SkippedRange time time "string list"

section \<open>Rows\<close>

record project_row =
  pj_id :: uuid
  pj_root_id :: uuid
  pj_relative_path :: string
  pj_archived_at :: "time option"

record workspace_row =
  ws_id :: uuid
  ws_project :: uuid
  ws_name :: string
  ws_kind :: ws_kind
  ws_state :: ws_state
  ws_relative_path :: "string option"
  ws_canonical_path :: "string option"
  ws_device :: "string option"
  ws_inode :: "string option"
  ws_common :: "(string \<times> string \<times> string) option"
  ws_base_revision :: "string option"
  ws_source_dirty :: bool
  ws_snapshot_hash :: "string option"
  ws_source_workspace :: "uuid option"
  ws_writer_session :: "uuid option"
  ws_writer_generation :: "nat option"
  ws_writer_kind :: "writer_kind option"
  ws_writer_owner :: "uuid option"
  ws_writer_epoch :: nat
  ws_failure_code :: "string option"

record storage_row =
  so_id :: uuid
  so_workspace :: uuid
  so_project :: uuid
  so_action :: storage_action
  so_command :: json
  so_actor :: string
  so_state :: storage_state
  so_result :: "json option"
  so_failure_code :: "string option"
  so_created_at :: time
  so_updated_at :: time

record session_row =
  se_id :: uuid
  se_project :: uuid
  se_workspace :: uuid
  se_title :: string
  se_title_source :: title_source
  se_state :: session_state
  se_model :: string
  se_effort :: string
  se_profile :: profile
  se_generation :: nat
  se_sequence :: nat
  se_replay_floor :: nat
  se_history_ceiling :: nat
  se_metadata_revision :: nat
  se_archived :: bool
  se_native_thread :: "string option"
  se_background_until :: "time option"
  se_background_stop :: bool
  se_updated_at :: time

record operation_row =
  op_id :: uuid
  op_session :: uuid
  op_kind :: op_kind
  op_state :: op_state
  op_payload :: json
  op_actor :: string
  op_control_attempts :: nat
  op_acknowledged_at :: "time option"
  op_native_turn :: "string option"
  op_generation :: "nat option"
  op_queue_reason :: "string option"
  op_created_at :: time
  op_updated_at :: time

record recovery_row =
  rc_id :: uuid
  rc_session :: uuid
  rc_actor :: string
  rc_expected_generation :: nat
  rc_fence_generation :: "nat option"
  rc_state :: recovery_state
  rc_attempts :: nat
  rc_report :: json
  rc_uncertain :: "uuid list"
  rc_continued :: "uuid option"
  rc_created_at :: time
  rc_updated_at :: time

record message_row =
  ms_id :: uuid
  ms_session :: uuid
  ms_operation :: "uuid option"
  ms_native_item :: "string option"
  ms_role :: role
  ms_text :: string
  ms_status :: msg_status

record event_row =
  ev_session :: uuid
  ev_sequence :: nat
  ev_type :: string
  ev_data :: json
  ev_created_at :: time

record approval_row =
  ap_id :: uuid
  ap_session :: uuid
  ap_operation :: uuid
  ap_generation :: nat
  ap_request :: string
  ap_kind :: string
  ap_scope :: json
  ap_deadline :: time
  ap_state :: string
  ap_answer :: "json option"
  ap_actor :: "string option"

record attachment_row =
  at_id :: uuid
  at_session :: uuid
  at_state :: attachment_state
  at_size :: nat
  at_media_type :: "string option"
  at_digest :: "string option"
  at_content :: "string option"
  at_operation :: "uuid option"
  at_created_at :: time
  at_expires_at :: time

record draft_row =
  dr_session :: uuid
  dr_text :: string
  dr_attachments :: "uuid list"
  dr_revision :: nat
  dr_updated_at :: time

record runtime_row =
  cr_session :: uuid
  cr_workspace :: uuid
  cr_generation :: nat
  cr_state :: runtime_state
  cr_last_activity :: time
  cr_idle_until :: "time option"
  cr_profile :: profile
  cr_credential :: string
  cr_identity :: "string option"

record model_capability =
  mc_model :: string
  mc_efforts :: "string list"
  mc_modalities :: "string list"

record browser_row =
  br_hash :: string
  br_csrf :: string
  br_last_seen :: time
  br_expires_at :: time
  br_revoked :: bool
  br_pin :: string

record token_row =
  tk_id :: uuid
  tk_verifier :: string
  tk_pin :: string
  tk_instance :: string
  tk_scopes :: "scope list"
  tk_projects :: "uuid list"
  tk_profile :: profile
  tk_expires_at :: time
  tk_revoked :: bool
  tk_last_used_at :: "time option"

record login_row =
  lg_hash :: string
  lg_verifier :: string
  lg_nonce :: string
  lg_expires_at :: time

record intent_row =
  in_actor :: string
  in_route :: string
  in_key :: string
  in_request_hash :: string
  in_result :: json
  in_control_target :: "string option"
  in_created_at :: time

record file_operation_row =
  fo_id :: uuid
  fo_workspace :: uuid
  fo_project :: uuid
  fo_kind :: file_kind
  fo_state :: file_state
  fo_acknowledged_at :: "time option"

record terminal_row =
  te_id :: uuid
  te_project :: uuid
  te_workspace :: uuid
  te_actor :: string
  te_profile :: profile
  te_generation :: nat
  te_state :: terminal_state
  te_created_at :: time
  te_deadline :: time
  te_retired :: bool
  te_writer_epoch :: "nat option"
  te_failure_code :: "string option"
  te_exit_code :: "int option"
  te_controller_actor :: "string option"
  te_controller_id :: "uuid option"
  te_controller_epoch :: nat
  te_controller_until :: "time option"
  te_input_sequence :: nat
  te_input_uncertain :: bool
  te_input_window :: "time option"
  te_input_bytes :: nat
  te_input_frame_window :: "time option"
  te_input_frames :: nat
  te_resize_sequence :: nat
  te_resize_cols :: nat
  te_resize_rows :: nat
  te_resize_pending :: bool
  te_resize_window :: "time option"
  te_resize_count :: nat
  te_heartbeat_at :: "time option"
  te_output_sequence :: nat
  te_output_floor :: nat
  te_output_lost :: bool
  te_control_window :: "time option"
  te_control_count :: nat
  te_termination_attempts :: nat
  te_restored_from :: "string option"

datatype input_state = InAccepted | InDispatching | InDelivered | InDenied | InUncertain

record terminal_input_row =
  ti_terminal :: uuid
  ti_epoch :: nat
  ti_sequence :: nat
  ti_actor :: string
  ti_controller_id :: uuid
  ti_hash :: string
  ti_bytes :: "string option"
  ti_state :: input_state
  ti_failure_code :: "string option"

record terminal_output_row =
  to_terminal :: uuid
  to_sequence :: nat
  to_bytes :: string
  to_created_at :: time

record preview_row =
  pv_id :: uuid
  pv_project :: uuid
  pv_workspace :: uuid
  pv_port :: nat
  pv_hostname :: string
  pv_profile :: profile
  pv_generation :: nat
  pv_state :: preview_state
  pv_retired :: bool
  pv_runner_id :: "string option"
  pv_relay_id :: "string option"
  pv_command_count :: nat
  pv_retirement_ack :: "uuid option"

record preview_stop_row =
  ps_id :: uuid
  ps_preview :: uuid
  ps_generation :: nat
  ps_created_at :: time

record preview_opening_row =
  po_id :: uuid
  po_preview :: uuid
  po_revoked :: bool

record preview_grant_row =
  pg_id :: uuid
  pg_preview :: uuid
  pg_generation :: nat
  pg_actor :: string
  pg_hash :: string
  pg_expires_at :: time
  pg_revoked :: bool

record schedule_row =
  sc_id :: uuid
  sc_project :: uuid
  sc_title :: string
  sc_config_revision :: nat
  sc_rule_revision :: nat
  sc_grant_epoch :: nat
  sc_state :: schedule_state
  sc_reason :: "string option"
  sc_cursor_at :: time
  sc_next_due_at :: "time option"
  sc_last_observed_at :: "time option"
  sc_last_planned_at :: "time option"
  sc_time_fingerprint :: string
  sc_catch_up :: "batch option"
  sc_last_pruned :: "(time \<times> string \<times> nat) option"
  sc_active_grant :: "uuid option"
  sc_updated_at :: time

record version_row =
  sv_schedule :: uuid
  sv_revision :: nat
  sv_rule_revision :: nat
  sv_config :: schedule_config
  sv_prompt :: string
  sv_prompt_hash :: string

record grant_row =
  gr_id :: uuid
  gr_schedule :: uuid
  gr_config_revision :: nat
  gr_epoch :: nat
  gr_pin :: string
  gr_instance :: string
  gr_source_pat :: "uuid option"
  gr_expires_at :: time
  gr_revoked :: bool
  gr_one_shot :: bool
  gr_created_at :: time

record occurrence_row =
  oc_id :: uuid
  oc_schedule :: uuid
  oc_config_revision :: nat
  oc_rule_revision :: nat
  oc_grant :: "uuid option"
  oc_kind :: occ_kind
  oc_local_minute :: "string option"
  oc_intended_at :: time
  oc_snapshot :: occ_snapshot
  oc_prompt :: "string option"
  oc_state :: occ_state
  oc_reason :: "string option"
  oc_workspace :: uuid
  oc_session :: uuid
  oc_turn :: uuid
  oc_storage_operation :: uuid
  oc_cancel_operation :: uuid
  oc_acknowledged_at :: "time option"
  oc_started_at :: "time option"
  oc_ended_at :: "time option"
  oc_updated_at :: time

record command_row =
  cm_schedule :: uuid
  cm_slot :: string
  cm_actor :: string
  cm_grant_epoch :: "nat option"
  cm_occurrence :: "uuid option"
  cm_key :: string
  cm_request_hash :: string
  cm_result :: json
  cm_retry_until :: time

section \<open>The database\<close>

record db =
  meta_identity_pin :: string
  meta_emergency :: bool
  meta_generation :: nat
  dep_maintenance :: bool
  dep_activation_required :: bool
  runtime_generation_seq :: nat
  capabilities :: "(model_capability list \<times> time) option"
  browser_sessions :: "browser_row list"
  api_tokens :: "token_row list"
  intents :: "intent_row list"
  projects :: "project_row list"
  workspaces :: "workspace_row list"
  storage_operations :: "storage_row list"
  sessions :: "session_row list"
  operations :: "operation_row list"
  session_recoveries :: "recovery_row list"
  messages :: "message_row list"
  events :: "event_row list"
  approvals :: "approval_row list"
  login_states :: "login_row list"
  audits :: "time list"
  attachments :: "attachment_row list"
  conversation_drafts :: "draft_row list"
  conversation_runtimes :: "runtime_row list"
  file_operations :: "file_operation_row list"
  terminals :: "terminal_row list"
  terminal_input :: "terminal_input_row list"
  terminal_output :: "terminal_output_row list"
  previews :: "preview_row list"
  preview_stops :: "preview_stop_row list"
  preview_openings :: "preview_opening_row list"
  preview_grants :: "preview_grant_row list"
  schedules :: "schedule_row list"
  schedule_versions :: "version_row list"
  schedule_grants :: "grant_row list"
  schedule_occurrences :: "occurrence_row list"
  schedule_commands :: "command_row list"
  queue_jobs :: "(uuid \<times> nat) list"

definition empty_db :: db where
  "empty_db = \<lparr> meta_identity_pin = [], meta_emergency = False, meta_generation = 0, dep_maintenance = False,
     dep_activation_required = False, runtime_generation_seq = 0, capabilities = None,
     browser_sessions = [], api_tokens = [], intents = [], projects = [], workspaces = [],
     storage_operations = [], sessions = [], operations = [], session_recoveries = [],
     messages = [], events = [], approvals = [], login_states = [], audits = [], attachments = [], conversation_drafts = [],
     conversation_runtimes = [], file_operations = [], terminals = [], terminal_input = [],
     terminal_output = [], previews = [], preview_stops = [], preview_openings = [],
     preview_grants = [], schedules = [], schedule_versions = [], schedule_grants = [],
     schedule_occurrences = [], schedule_commands = [], queue_jobs = [] \<rparr>"

section \<open>Surroundings of a request\<close>

text \<open>
  \<open>now\<close> is the transaction's reading of \<^verbatim>\<open>clock_timestamp()\<close> (and of
  \<^verbatim>\<open>Date.now()\<close>), \<open>scheduler_now\<close> the answer of \<^verbatim>\<open>schedulerNow\<close>;
  \<open>hash\<close> is \<^verbatim>\<open>digest\<close> (SHA-256, from \<^verbatim>\<open>node:crypto\<close>). The
  \<open>fs_\<close> and \<open>storage_\<close> fields are the answers of the file system and of the storage
  helper, \<open>None\<close> or \<open>False\<close> where the call throws; \<open>conversation_title\<close> is the SQL
  function \<^verbatim>\<open>harbor_conversation_title\<close> of migration 017 and \<open>valid_uuid\<close> the check
  \<^verbatim>\<open>z.uuid()\<close>. The other fields are the
  configuration \<^verbatim>\<open>c\<close> that the program passes around and the environment variables it
  reads.
\<close>

record inspection =
  is_git :: bool
  is_dirty :: bool
  is_head :: "string option"
  is_snapshot_hash :: "string option"

text \<open>
  The calendar and time zone data base (\<^verbatim>\<open>Temporal\<close> and \<^verbatim>\<open>Intl\<close>), a
  library the program calls. A date is the number of its day. \<open>cal_zone\<close> is the canonical name
  of a zone, \<open>None\<close> for an unknown one; \<open>cal_parse\<close> reads a local date and time, \<open>None\<close>
  where it does not exist in the calendar; \<open>cal_weekday\<close> is \<^verbatim>\<open>dayOfWeek\<close> (1 to 7);
  \<open>cal_plus_5_years\<close> adds five years to a date; \<open>cal_date zone t\<close> is the local date at instant
  \<open>t\<close>; \<open>cal_instant zone d h m\<close> is \<^verbatim>\<open>toZonedDateTime\<close> with disambiguation
  \<^verbatim>\<open>earlier\<close>: the instant, the wall clock time it really has, and the offset;
  \<open>cal_show\<close> prints a local minute; \<open>cal_late dates conversions\<close> tells whether more than two
  seconds have passed when the evaluator has made that many steps.
\<close>

record calendar =
  cal_zone :: "string \<Rightarrow> string option"
  cal_parse :: "string \<Rightarrow> (int \<times> nat \<times> nat) option"
  cal_month :: "int \<Rightarrow> nat"
  cal_day :: "int \<Rightarrow> nat"
  cal_weekday :: "int \<Rightarrow> nat"
  cal_plus_5_years :: "int \<Rightarrow> int"
  cal_date :: "string \<Rightarrow> time \<Rightarrow> int"
  cal_instant :: "string \<Rightarrow> int \<Rightarrow> nat \<Rightarrow> nat \<Rightarrow> time \<times> (int \<times> nat \<times> nat) \<times> string"
  cal_show :: "int \<Rightarrow> nat \<Rightarrow> nat \<Rightarrow> string"
  cal_late :: "nat \<Rightarrow> nat \<Rightarrow> bool"

record env =
  now :: time
  scheduler_now :: time
  hash :: "string \<Rightarrow> string"
  oidc_issuer :: string
  owner_subject :: string
  idle_seconds :: int
  permission_ceiling :: "profile option"
  allowed_models :: "string list"
  max_queued :: nat
  max_sessions :: nat
  max_active :: nat
  max_runtimes :: nat
  instance_id :: string
  time_fingerprint :: string
  storage_socket :: bool
  personal_mode :: bool
  project_roots :: "(uuid \<times> string) list"
  fs_realpath :: "string \<Rightarrow> string option"
  fs_identity :: "string \<Rightarrow> (string \<times> string) option"
  storage_validate :: "uuid \<Rightarrow> string \<Rightarrow> workspace_row \<Rightarrow> bool"
  storage_inspect :: "uuid \<Rightarrow> workspace_row \<Rightarrow> inspection option"
  conversation_title :: "string \<Rightarrow> string option"
  valid_uuid :: "string \<Rightarrow> bool"
  calendar_of :: calendar

end
