(* ===== verification/Samples.thy ===== *)
theory Samples
  imports Database
begin

text \<open>
  A small concrete instance of the database and of its surroundings. The witnesses of the
  development evaluate the model on it: one project \<open>p\<close> with the ready workspace \<open>w\<close>, the
  conversation \<open>s\<close> in it, one queued turn \<open>t\<close>, a browser session \<open>b\<close> and an API
  token \<open>k\<close>. The environment's \<open>hash\<close> stands for SHA-256 and is injective here; its calendar
  has one zone and months of 31 days. \<open>schedule_db\<close> adds the enabled schedule \<open>c\<close>, its version, its
  active grant and an accepted occurrence; \<open>terminal_db\<close> a running terminal.
\<close>

definition demo_calendar :: calendar where
  "demo_calendar = \<lparr> cal_zone = (\<lambda>z. Some z), cal_parse = (\<lambda>_. Some (1, 12, 0)),
     cal_month = (\<lambda>d. nat (d div 31 mod 12) + 1), cal_day = (\<lambda>d. nat (d mod 31) + 1),
     cal_weekday = (\<lambda>d. nat (d mod 7) + 1), cal_plus_5_years = (\<lambda>d. d + 1826),
     cal_date = (\<lambda>_ t. t div 86400000),
     cal_instant = (\<lambda>_ d h m. (d * 86400000 + int h * 3600000 + int m * 60000, (d, h mod 24, m mod 60), ''+00:00'')),
     cal_show = (\<lambda>d h m. [char_of (nat d), char_of h, char_of m]), cal_late = (\<lambda>_ _. False) \<rparr>"

definition demo_env :: env where
  "demo_env = \<lparr> now = 1000000, scheduler_now = 1000000, hash = (\<lambda>s. CHR ''#'' # s),
     oidc_issuer = ''i'', owner_subject = ''o'', idle_seconds = 3600,
     permission_ceiling = Some WorkspaceWrite, allowed_models = [''m''], max_queued = 8,
     max_sessions = 4, max_active = 2, max_runtimes = 4, instance_id = ''n'', time_fingerprint = ''f'', storage_socket = False,
     personal_mode = False, project_roots = [(''r'', ''/r'')], fs_realpath = (\<lambda>x. Some x),
     fs_identity = (\<lambda>_. Some (''1'', ''2'')), storage_validate = (\<lambda>_ _ _. True),
     storage_inspect = (\<lambda>_ _. Some \<lparr> is_git = True, is_dirty = False, is_head = None, is_snapshot_hash = None \<rparr>),
     conversation_title = (\<lambda>s. Some (take 80 s)), valid_uuid = (\<lambda>s. s \<noteq> []), calendar_of = demo_calendar \<rparr>"

definition demo_pin :: string where
  "demo_pin = ''#i'' @ [CHR 0x00] @ ''o''"

definition demo_project :: project_row where
  "demo_project = \<lparr> pj_id = ''p'', pj_root_id = ''r'', pj_relative_path = ''w'', pj_archived_at = None \<rparr>"

definition demo_workspace :: workspace_row where
  "demo_workspace = \<lparr> ws_id = ''w'', ws_project = ''p'', ws_name = ''W'', ws_kind = LocalWs, ws_state = WsReady,
     ws_relative_path = Some ''w'', ws_canonical_path = Some ''/r/w'', ws_device = Some ''1'', ws_inode = Some ''2'',
     ws_common = None, ws_base_revision = None, ws_source_dirty = False, ws_snapshot_hash = None,
     ws_source_workspace = None, ws_writer_session = None, ws_writer_generation = None,
     ws_writer_kind = None, ws_writer_owner = None, ws_writer_epoch = 0, ws_failure_code = None \<rparr>"

definition demo_session :: session_row where
  "demo_session = \<lparr> se_id = ''s'', se_project = ''p'', se_workspace = ''w'', se_title = ''T'',
     se_title_source = TitlePending, se_state = Idle, se_model = ''m'', se_effort = ''e'',
     se_profile = WorkspaceWrite, se_generation = 1, se_sequence = 0, se_replay_floor = 0,
     se_history_ceiling = 500, se_metadata_revision = 0, se_archived = False, se_native_thread = None,
     se_background_until = None, se_background_stop = False, se_updated_at = 0 \<rparr>"

definition demo_turn :: operation_row where
  "demo_turn = \<lparr> op_id = ''t'', op_session = ''s'', op_kind = TurnOp, op_state = Queued,
     op_payload = JObj [], op_actor = ''b'', op_control_attempts = 1, op_acknowledged_at = None,
     op_native_turn = None, op_generation = None, op_queue_reason = None, op_created_at = 0, op_updated_at = 0 \<rparr>"

definition demo_browser :: browser_row where
  "demo_browser = \<lparr> br_hash = ''b'', br_csrf = ''c'', br_last_seen = 999999, br_expires_at = 2000000,
     br_revoked = False, br_pin = demo_pin \<rparr>"

definition demo_token :: token_row where
  "demo_token = \<lparr> tk_id = ''k'', tk_verifier = ''v'', tk_pin = demo_pin, tk_instance = ''n'',
     tk_scopes = [Read, Execute], tk_projects = [''p''], tk_profile = ReadOnly,
     tk_expires_at = 2000000, tk_revoked = False, tk_last_used_at = None \<rparr>"

definition demo_db :: db where
  "demo_db = empty_db\<lparr> meta_identity_pin := demo_pin, projects := [demo_project],
     workspaces := [demo_workspace], sessions := [demo_session], operations := [demo_turn],
     browser_sessions := [demo_browser], api_tokens := [demo_token],
     capabilities := Some ([\<lparr> mc_model = ''m'', mc_efforts = [''e''], mc_modalities = [''text'', ''image''] \<rparr>], 999999) \<rparr>"

definition demo_gid :: uuid where
  "demo_gid = replicate 36 CHR ''a''"

definition demo_oid :: uuid where
  "demo_oid = replicate 36 CHR ''b''"

definition demo_config :: schedule_config where
  "demo_config = \<lparr> cf_rule = Cron ''0 * * * *'' ''UTC'', cf_mode = Standalone, cf_source_workspace = Some ''w'',
     cf_source_policy = Some Committed, cf_session = None, cf_base_revision = None, cf_model = ''m'',
     cf_effort = ''e'', cf_profile = WorkspaceWrite, cf_missed = SkipMissed \<rparr>"

definition demo_schedule :: schedule_row where
  "demo_schedule = \<lparr> sc_id = ''c'', sc_project = ''p'', sc_title = ''S'', sc_config_revision = 1,
     sc_rule_revision = 1, sc_grant_epoch = 1, sc_state = Enabled, sc_reason = None, sc_cursor_at = 0,
     sc_next_due_at = Some 3600000, sc_last_observed_at = None, sc_last_planned_at = None,
     sc_time_fingerprint = ''f'', sc_catch_up = None, sc_last_pruned = None,
     sc_active_grant = Some demo_gid, sc_updated_at = 0 \<rparr>"

definition demo_version :: version_row where
  "demo_version = \<lparr> sv_schedule = ''c'', sv_revision = 1, sv_rule_revision = 1, sv_config = demo_config,
     sv_prompt = ''x'', sv_prompt_hash = ''#x'' \<rparr>"

definition demo_grant :: grant_row where
  "demo_grant = \<lparr> gr_id = demo_gid, gr_schedule = ''c'', gr_config_revision = 1, gr_epoch = 1, gr_pin = demo_pin,
     gr_instance = ''n'', gr_source_pat = None, gr_expires_at = 90000000, gr_revoked = False,
     gr_one_shot = False, gr_created_at = 0 \<rparr>"

definition demo_minute :: minute where
  "demo_minute = \<lparr> mn_local = ''l'', mn_instant = 0, mn_offset = ''+00:00'', mn_timezone = ''UTC'' \<rparr>"

definition demo_occurrence :: occurrence_row where
  "demo_occurrence = \<lparr> oc_id = demo_oid, oc_schedule = ''c'', oc_config_revision = 1, oc_rule_revision = 1,
     oc_grant = Some demo_gid, oc_kind = Recurring, oc_local_minute = Some ''l'', oc_intended_at = 0,
     oc_snapshot = AdmittedMinute 1 None demo_minute, oc_prompt = Some ''x'', oc_state = Accepted, oc_reason = None,
     oc_workspace = ''w2'', oc_session = ''s2'', oc_turn = ''t2'', oc_storage_operation = ''o2'',
     oc_cancel_operation = ''x2'', oc_acknowledged_at = None, oc_started_at = None, oc_ended_at = None,
     oc_updated_at = 0 \<rparr>"

definition schedule_db :: db where
  "schedule_db = demo_db\<lparr> schedules := [demo_schedule], schedule_versions := [demo_version],
     schedule_grants := [demo_grant], schedule_occurrences := [demo_occurrence] \<rparr>"

text \<open>\<open>terminal_db\<close> adds the running terminal \<open>v\<close>, which the browser session controls as \<open>u\<close>.\<close>

definition demo_terminal :: terminal_row where
  "demo_terminal = \<lparr> te_id = ''v'', te_project = ''p'', te_workspace = ''w'', te_actor = ''b'',
     te_profile = WorkspaceWrite, te_generation = 1, te_state = TermRunning, te_created_at = 0,
     te_deadline = 86400000, te_retired = False, te_writer_epoch = Some 1, te_failure_code = None,
     te_exit_code = None, te_controller_actor = Some ''b'', te_controller_id = Some ''u'',
     te_controller_epoch = 1, te_controller_until = Some 1010000, te_input_sequence = 0,
     te_input_uncertain = False, te_input_window = None, te_input_bytes = 0, te_input_frame_window = None,
     te_input_frames = 0, te_resize_sequence = 0, te_resize_cols = 80, te_resize_rows = 24,
     te_resize_pending = False, te_resize_window = None, te_resize_count = 0, te_heartbeat_at = None,
     te_output_sequence = 0, te_output_floor = 0, te_output_lost = False, te_control_window = None,
     te_control_count = 0, te_termination_attempts = 0, te_restored_from = None \<rparr>"

definition terminal_db :: db where
  "terminal_db = demo_db\<lparr> workspaces := [demo_workspace\<lparr> ws_writer_kind := Some TerminalWriter,
       ws_writer_owner := Some ''v'', ws_writer_epoch := 1 \<rparr>], runtime_generation_seq := 1,
     terminals := [demo_terminal] \<rparr>"

lemmas demo_defs = demo_env_def demo_calendar_def demo_pin_def demo_project_def demo_workspace_def demo_session_def
  demo_turn_def demo_browser_def demo_token_def demo_db_def empty_db_def
  demo_gid_def demo_oid_def demo_config_def demo_schedule_def demo_version_def demo_grant_def demo_minute_def
  demo_occurrence_def schedule_db_def demo_terminal_def terminal_db_def

end
