(* ===== verification/Policy.thy ===== *)
theory Policy
  imports Samples
begin

text \<open>
  Who may do what: permission profiles and idempotency keys
  (\<^verbatim>\<open>packages/policy/src/index.ts\<close>), the model catalogue
  (\<^verbatim>\<open>models.ts\<close>), deployment admission (\<^verbatim>\<open>packages/storage/src/deployment.ts\<close>),
  browser sessions and API tokens (\<^verbatim>\<open>authority.ts\<close>) and the rotation of the owner
  identity (\<^verbatim>\<open>bindIdentity\<close> of \<^verbatim>\<open>packages/storage/src/index.ts\<close>). Schedule grants, the
  third kind of authority, are in \<open>Schedule_Authority\<close>.
\<close>

section \<open>Permission profiles\<close>

instantiation profile :: linorder
begin

definition less_eq_profile :: "profile \<Rightarrow> profile \<Rightarrow> bool" where
  "less_eq_profile a b \<longleftrightarrow> a = ReadOnly \<or> b = WorkspaceWrite"

definition less_profile :: "profile \<Rightarrow> profile \<Rightarrow> bool" where
  "less_profile a b \<longleftrightarrow> a = ReadOnly \<and> b = WorkspaceWrite"

instance
proof
  fix x y z :: profile
  show "x < y \<longleftrightarrow> x \<le> y \<and> \<not> y \<le> x"
    by (cases x; cases y) (simp_all add: less_eq_profile_def less_profile_def)
  show "x \<le> x" by (cases x) (simp_all add: less_eq_profile_def)
  show "x \<le> y \<Longrightarrow> y \<le> z \<Longrightarrow> x \<le> z"
    by (cases x; cases y; cases z) (simp_all add: less_eq_profile_def)
  show "x \<le> y \<Longrightarrow> y \<le> x \<Longrightarrow> x = y"
    by (cases x; cases y) (simp_all add: less_eq_profile_def)
  show "x \<le> y \<or> y \<le> x"
    by (cases x; cases y) (simp_all add: less_eq_profile_def)
qed

end

definition authorizePermission :: "profile \<Rightarrow> profile \<Rightarrow> unit res" where
  "authorizePermission requested ceiling =
     (if requested = WorkspaceWrite \<and> ceiling = ReadOnly
      then Inl (HarborError 403 ''PERMISSION_CEILING'') else Inr ())"

lemma authorizePermission_iff [res_simps]:
  "authorizePermission r c = Inr u \<longleftrightarrow> r \<le> c"
  by (cases r; cases c) (simp_all add: authorizePermission_def less_eq_profile_def)

lemma authorizePermission_eq_Inl [res_simps]:
  "authorizePermission r c = Inl e \<longleftrightarrow> c < r \<and> e = HarborError 403 ''PERMISSION_CEILING''"
  by (cases r; cases c) (auto simp: authorizePermission_def less_profile_def)

definition requireOrigin :: "string option \<Rightarrow> string \<Rightarrow> unit res" where
  "requireOrigin origin expected =
     (if origin \<noteq> Some expected then Inl (HarborError 403 ''ORIGIN_DENIED'') else Inr ())"

section \<open>Idempotency keys\<close>

definition digit_value :: "char \<Rightarrow> nat" where
  "digit_value c = of_char c - 48"

definition digits_value :: "string \<Rightarrow> nat" where
  "digits_value s = foldl (\<lambda>n c. 10 * n + digit_value c) 0 s"

definition is_key_char :: "char \<Rightarrow> bool" where
  "is_key_char c \<longleftrightarrow> is_hex_lower c \<or> (CHR ''A'' \<le> c \<and> c \<le> CHR ''F'') \<or> c = CHR ''-''"

text \<open>\<^verbatim>\<open>/^\d{13}:[0-9a-f-]{36}$/i\<close>\<close>

definition key_format :: "string \<Rightarrow> bool" where
  "key_format k \<longleftrightarrow> length k = 50 \<and> list_all is_digit (take 13 k) \<and> k ! 13 = CHR '':'' \<and>
     list_all is_key_char (drop 14 k)"

definition key_ms :: "string \<Rightarrow> int" where
  "key_ms k = int (digits_value (hd (split_on (CHR '':'') k)))"

definition RETRY_WINDOW_MS :: int where
  "RETRY_WINDOW_MS = 24 * 60 * 60 * 1000"

definition checkKey :: "json \<Rightarrow> time \<Rightarrow> string res" where
  "checkKey key t = (case key of
       JStr k \<Rightarrow>
         if \<not> key_format k then Inl (HarborError 400 ''INVALID_IDEMPOTENCY_KEY'')
         else let age = t - key_ms k in
           if age < -300000 \<or> age > RETRY_WINDOW_MS then Inl (HarborError 409 ''EXPIRED_INTENT'')
           else Inr k
     | _ \<Rightarrow> Inl (HarborError 400 ''INVALID_IDEMPOTENCY_KEY''))"

lemma checkKey_eq_Inr [res_simps]:
  "checkKey key t = Inr k \<longleftrightarrow>
     key = JStr k \<and> key_format k \<and> t - RETRY_WINDOW_MS \<le> key_ms k \<and> key_ms k \<le> t + 300000"
  by (auto simp: checkKey_def Let_def split: json.splits)

section \<open>Model catalogue\<close>

definition discovered :: "env \<Rightarrow> db \<Rightarrow> model_capability list" where
  "discovered e d = (case capabilities d of
       Some (models, updated_at) \<Rightarrow> if updated_at > now e - 3600000 then models else []
     | None \<Rightarrow> [])"

definition effectiveSettings :: "env \<Rightarrow> db \<Rightarrow> string \<Rightarrow> string \<Rightarrow> unit res" where
  "effectiveSettings e d model effort =
     (let selected = find (\<lambda>m. mc_model m = model) (discovered e d) in
      if model \<notin> set (allowed_models e) \<or> selected = None
      then Inl (HarborError 403 ''MODEL_DENIED'')
      else if \<not> some_holds (\<lambda>m. effort \<in> set (mc_efforts m)) selected
      then Inl (HarborError 403 ''EFFORT_DENIED'')
      else Inr ())"

lemma effectiveSettings_eq_Inr [res_simps]:
  "effectiveSettings e d model effort = Inr u \<longleftrightarrow>
     model \<in> set (allowed_models e) \<and>
     (\<exists>m. find (\<lambda>m. mc_model m = model) (discovered e d) = Some m \<and> effort \<in> set (mc_efforts m))"
  by (auto simp: effectiveSettings_def Let_def)

section \<open>Deployment admission\<close>

definition deploymentAdmission :: "db \<Rightarrow> bool \<Rightarrow> unit res" where
  "deploymentAdmission d control =
     (if dep_activation_required d \<or> (dep_maintenance d \<and> \<not> control)
      then Inl (HarborError 503 ''MAINTENANCE'') else Inr ())"

lemma deploymentAdmission_eq_Inr [res_simps]:
  "deploymentAdmission d control = Inr u \<longleftrightarrow>
     \<not> dep_activation_required d \<and> (dep_maintenance d \<longrightarrow> control)"
  by (auto simp: deploymentAdmission_def)

section \<open>Browser sessions and API tokens\<close>

datatype authority_kind = BrowserAuthority | TokenAuthority | ScheduleAuthority

record authority =
  au_kind :: authority_kind
  au_hash :: string
  au_csrf :: string
  au_projects :: "uuid list option"
  au_scopes :: "scope list option"
  au_profile :: "profile option"
  au_token :: "uuid option"

datatype internal_kind = WorkspaceWork | TurnWork

record need =
  nd_project :: "uuid option"
  nd_scope :: "scope option"
  nd_profile :: "profile option"
  nd_internal :: "(internal_kind \<times> uuid) option"

definition no_need :: need where
  "no_need = \<lparr> nd_project = None, nd_scope = None, nd_profile = None, nd_internal = None \<rparr>"

text \<open>\<^verbatim>\<open>digest(c.HARBOR_OIDC_ISSUER + "\0" + c.HARBOR_OWNER_SUBJECT)\<close>\<close>

definition identity_pin :: "env \<Rightarrow> string" where
  "identity_pin e = hash e (oidc_issuer e @ [CHR 0x00] @ owner_subject e)"

definition browser_live :: "env \<Rightarrow> db \<Rightarrow> browser_row \<Rightarrow> bool" where
  "browser_live e d b \<longleftrightarrow> \<not> br_revoked b \<and> br_expires_at b > now e \<and>
     br_last_seen b > now e - idle_seconds e * 1000 \<and> br_pin b = identity_pin e \<and>
     meta_identity_pin d = identity_pin e"

definition browser_authority :: "env \<Rightarrow> db \<Rightarrow> string \<Rightarrow> authority res" where
  "browser_authority e d actor =
     (case find (\<lambda>b. br_hash b = actor \<and> browser_live e d b) (browser_sessions d) of
        None \<Rightarrow> Inl (HarborError 401 ''AUTH_EXPIRED'')
      | Some b \<Rightarrow> Inr \<lparr> au_kind = BrowserAuthority, au_hash = actor, au_csrf = br_csrf b,
          au_projects = None, au_scopes = None, au_profile = None, au_token = None \<rparr>)"

definition token_live :: "env \<Rightarrow> db \<Rightarrow> token_row \<Rightarrow> bool" where
  "token_live e d t \<longleftrightarrow> \<not> tk_revoked t \<and> tk_expires_at t > now e \<and> tk_pin t = identity_pin e \<and>
     tk_instance t = instance_id e \<and> meta_identity_pin d = identity_pin e"

definition token_authority :: "env \<Rightarrow> db \<Rightarrow> string \<Rightarrow> need \<Rightarrow> authority res" where
  "token_authority e d actor n =
     (case find (\<lambda>t. tk_id t = drop 4 actor \<and> token_live e d t) (api_tokens d) of
        None \<Rightarrow> Inl (HarborError 401 ''TOKEN_INVALID'')
      | Some t \<Rightarrow>
          if some_holds (\<lambda>s. s \<notin> set (tk_scopes t)) (nd_scope n)
          then Inl (HarborError 403 ''SCOPE_DENIED'')
          else if some_holds (\<lambda>p. p \<notin> set (tk_projects t)) (nd_project n)
          then Inl (HarborError 403 ''PROJECT_DENIED'')
          else andThen (case nd_profile n of None \<Rightarrow> Inr ()
                        | Some p \<Rightarrow> authorizePermission p (tk_profile t)) (\<lambda>_.
            Inr \<lparr> au_kind = TokenAuthority, au_hash = actor, au_csrf = [],
              au_projects = Some (tk_projects t), au_scopes = Some (tk_scopes t),
              au_profile = Some (tk_profile t), au_token = Some (tk_id t) \<rparr>))"

text \<open>\<^verbatim>\<open>requireAuthority\<close> for an actor that is not a schedule grant.\<close>

definition direct_authority :: "env \<Rightarrow> db \<Rightarrow> string \<Rightarrow> need \<Rightarrow> authority res" where
  "direct_authority e d actor n =
     (if \<not> starts_with ''pat:'' actor then browser_authority e d actor
      else token_authority e d actor n)"

lemma browser_authority_Inr:
  "browser_authority e d actor = Inr a \<Longrightarrow>
     \<exists>b \<in> set (browser_sessions d). br_hash b = actor \<and> browser_live e d b \<and> a =
       \<lparr> au_kind = BrowserAuthority, au_hash = actor, au_csrf = br_csrf b,
          au_projects = None, au_scopes = None, au_profile = None, au_token = None \<rparr>"
  by (auto simp: browser_authority_def split: option.splits dest!: find_Some_in)

lemma token_authority_Inr:
  assumes "token_authority e d actor n = Inr a"
  shows "\<exists>t \<in> set (api_tokens d). tk_id t = drop 4 actor \<and> token_live e d t \<and>
     (\<forall>s. nd_scope n = Some s \<longrightarrow> s \<in> set (tk_scopes t)) \<and>
     (\<forall>p. nd_project n = Some p \<longrightarrow> p \<in> set (tk_projects t)) \<and>
     (\<forall>p. nd_profile n = Some p \<longrightarrow> p \<le> tk_profile t) \<and> au_kind a = TokenAuthority \<and>
     au_token a = Some (tk_id t) \<and> au_scopes a = Some (tk_scopes t) \<and>
     au_projects a = Some (tk_projects t)"
  using assms
  by (auto simp: token_authority_def res_simps split: option.splits dest!: find_Some_in)

lemma direct_authority_pinned:
  "direct_authority e d actor n = Inr a \<Longrightarrow> meta_identity_pin d = identity_pin e"
  by (auto simp: direct_authority_def browser_live_def token_live_def split: if_splits
      dest!: browser_authority_Inr token_authority_Inr)

lemma direct_authority_kind: "direct_authority e d actor n = Inr a \<Longrightarrow> au_kind a \<noteq> ScheduleAuthority"
  by (auto simp: direct_authority_def split: if_splits dest!: browser_authority_Inr token_authority_Inr)

lemma direct_authority_weaken:
  assumes "direct_authority e d actor n = Inr a"
  shows "direct_authority e d actor no_need = Inr a"
  using assms
  by (auto simp: direct_authority_def token_authority_def no_need_def res_simps
      split: option.splits if_splits)

section \<open>Authentication of a request\<close>

definition authenticateBrowser :: "env \<Rightarrow> db \<Rightarrow> string \<Rightarrow> (authority \<times> db) res" where
  "authenticateBrowser e d h =
     andThen (direct_authority e d h no_need) (\<lambda>a.
       Inr (a, d\<lparr>browser_sessions :=
         update_where (\<lambda>b. br_hash b = h) (\<lambda>b. b\<lparr>br_last_seen := now e\<rparr>) (browser_sessions d)\<rparr>))"

definition is_token_char :: "char \<Rightarrow> bool" where
  "is_token_char c \<longleftrightarrow> is_digit c \<or> (CHR ''A'' \<le> c \<and> c \<le> CHR ''Z'') \<or>
     (CHR ''a'' \<le> c \<and> c \<le> CHR ''z'') \<or> c = CHR ''_'' \<or> c = CHR ''-''"

text \<open>\<^verbatim>\<open>/^Bearer hbr_[A-Za-z0-9_-]{43}$/\<close>\<close>

definition bearer_format :: "string \<Rightarrow> bool" where
  "bearer_format h \<longleftrightarrow> starts_with ''Bearer hbr_'' h \<and> length h = 54 \<and> list_all is_token_char (drop 11 h)"

definition authenticateBearer :: "env \<Rightarrow> db \<Rightarrow> string \<Rightarrow> (authority \<times> db) res" where
  "authenticateBearer e d header =
     (if \<not> bearer_format header then Inl (HarborError 401 ''TOKEN_INVALID'')
      else andThen (first_row (HarborError 401 ''TOKEN_INVALID'')
             (find (\<lambda>t. tk_verifier t = hash e (drop 7 header)) (api_tokens d))) (\<lambda>row.
        andThen (direct_authority e d (''pat:'' @ tk_id row) no_need) (\<lambda>a.
          Inr (a, d\<lparr>api_tokens := update_where (\<lambda>t. tk_id t = tk_id row)
            (\<lambda>t. t\<lparr>tk_last_used_at := Some (now e)\<rparr>) (api_tokens d)\<rparr>))))"

section \<open>Rotation of the owner identity\<close>

definition bindIdentity :: "env \<Rightarrow> string \<Rightarrow> db \<Rightarrow> db" where
  "bindIdentity e pin d = d
     \<lparr> browser_sessions := update_where (\<lambda>b. br_pin b \<noteq> pin) (\<lambda>b. b\<lparr>br_revoked := True\<rparr>) (browser_sessions d),
       api_tokens := update_where (\<lambda>t. tk_pin t \<noteq> pin \<or> tk_instance t \<noteq> instance_id e)
         (\<lambda>t. t\<lparr>tk_revoked := True\<rparr>) (api_tokens d),
       meta_identity_pin := pin \<rparr>"

text \<open>
  A credential bound to another identity never becomes valid again: not under the old
  configuration (the pin of the instance no longer matches), not under the new one (the row is
  revoked), and not when the old identity is bound again later (a revoked row stays revoked).
  \<open>rebind\<close> is a sequence of such rotations, each by a process with its own configuration.
\<close>

fun rebind :: "(env \<times> string) list \<Rightarrow> db \<Rightarrow> db" where
  "rebind [] d = d"
| "rebind ((e, pin) # xs) d = rebind xs (bindIdentity e pin d)"

lemma rebind_browser:
  "b \<in> set (browser_sessions (rebind xs d)) \<Longrightarrow> \<not> br_revoked b \<Longrightarrow>
   b \<in> set (browser_sessions d) \<and> (\<forall>x \<in> set xs. br_pin b = snd x)"
  by (induction xs d rule: rebind.induct) (force simp: bindIdentity_def set_update_where split: if_splits)+

lemma rebind_token:
  "t \<in> set (api_tokens (rebind xs d)) \<Longrightarrow> \<not> tk_revoked t \<Longrightarrow>
   t \<in> set (api_tokens d) \<and> (\<forall>x \<in> set xs. tk_pin t = snd x \<and> tk_instance t = instance_id (fst x))"
  by (induction xs d rule: rebind.induct) (force simp: bindIdentity_def set_update_where split: if_splits)+

section \<open>Properties\<close>

text \<open>C11: A rotation of the owner identity kills the credentials of the previous owner for good. Whatever identities are bound after it, the old one included, and under whatever configuration a request is served, a credential that was there at the rotation authenticates only if it was issued for the identity \<open>pin\<close> that was then bound, was not revoked, and no later rotation bound another identity; an API token also has to belong to the instance of every rotation.\<close>

theorem bindIdentity_revokes:
  assumes "direct_authority e' (rebind later (bindIdentity e pin d)) actor n = Inr a"
  shows "identity_pin e' = pin \<and> (\<forall>x \<in> set later. snd x = pin) \<and>
    ((\<exists>b \<in> set (browser_sessions d). br_hash b = actor \<and> br_pin b = pin \<and> \<not> br_revoked b) \<or>
     (\<exists>t \<in> set (api_tokens d). starts_with ''pat:'' actor \<and> tk_id t = drop 4 actor \<and> tk_pin t = pin \<and>
        (\<forall>x \<in> insert (e, pin) (set later). tk_instance t = instance_id (fst x)) \<and> \<not> tk_revoked t))"
proof (cases "starts_with ''pat:'' actor")
  case True
  with assms have "token_authority e' (rebind ((e, pin) # later) d) actor n = Inr a" by (simp add: direct_authority_def)
  then obtain t where t: "t \<in> set (api_tokens (rebind ((e, pin) # later) d))" "tk_id t = drop 4 actor"
      "tk_pin t = identity_pin e'" "\<not> tk_revoked t"
    by (auto simp: token_live_def dest: token_authority_Inr)
  then show ?thesis using rebind_token [OF t(1,4)] True by (intro conjI disjI2 bexI [of _ t]) auto
next
  case False
  with assms have "browser_authority e' (rebind ((e, pin) # later) d) actor = Inr a" by (simp add: direct_authority_def)
  then obtain b where b: "b \<in> set (browser_sessions (rebind ((e, pin) # later) d))" "br_hash b = actor"
      "br_pin b = identity_pin e'" "\<not> br_revoked b"
    by (auto simp: browser_live_def dest: browser_authority_Inr)
  then show ?thesis using rebind_browser [OF b(1,4)] by (intro conjI disjI1 bexI [of _ b]) auto
qed

theorem bindIdentity_revokes_witness:
  "\<exists>b \<in> set (browser_sessions demo_db). br_hash b = ''b'' \<and> br_pin b = identity_pin demo_env"
proof -
  let ?pin = "identity_pin demo_env"
  have "succeeds (direct_authority demo_env (rebind [(demo_env, ?pin)] (bindIdentity demo_env ?pin demo_db)) ''b'' no_need)"
    by code_simp
  then obtain a where "direct_authority demo_env (rebind [(demo_env, ?pin)] (bindIdentity demo_env ?pin demo_db)) ''b'' no_need = Inr a"
    by (rule succeedsE)
  from bindIdentity_revokes [OF this] show ?thesis by (auto simp: starts_with_def)
qed

text \<open>An API token never exceeds what its owner wrote on it: whenever a request by token is
  authorised, the token is not revoked, not expired and bound to this server and owner, the scope
  and the project asked for are listed on it, and the permission profile asked for is at most the
  token's.\<close>

theorem token_never_exceeds:
  assumes "direct_authority e d (''pat:'' @ i) n = Inr a"
  shows "\<exists>t \<in> set (api_tokens d). tk_id t = i \<and> \<not> tk_revoked t \<and> now e < tk_expires_at t \<and>
    tk_pin t = identity_pin e \<and> tk_instance t = instance_id e \<and> meta_identity_pin d = identity_pin e \<and>
    (case nd_scope n of None \<Rightarrow> True | Some s \<Rightarrow> s \<in> set (tk_scopes t)) \<and>
    (case nd_project n of None \<Rightarrow> True | Some p \<Rightarrow> p \<in> set (tk_projects t)) \<and>
    (case nd_profile n of None \<Rightarrow> True | Some p \<Rightarrow> p \<le> tk_profile t)"
proof -
  from assms have tok: "token_authority e d (''pat:'' @ i) n = Inr a" by (simp add: direct_authority_def starts_with_def)
  from token_authority_Inr [OF tok] show ?thesis by (force simp: token_live_def split: option.splits)
qed

theorem token_never_exceeds_witness:
  "\<exists>t \<in> set (api_tokens demo_db). tk_id t = ''k'' \<and> Execute \<in> set (tk_scopes t) \<and> ''p'' \<in> set (tk_projects t)"
proof -
  let ?n = "\<lparr> nd_project = Some ''p'', nd_scope = Some Execute, nd_profile = Some ReadOnly, nd_internal = None \<rparr>"
  have "succeeds (direct_authority demo_env demo_db (''pat:'' @ ''k'') ?n)" by code_simp
  then obtain a where "direct_authority demo_env demo_db (''pat:'' @ ''k'') ?n = Inr a" by (rule succeedsE)
  from token_never_exceeds [OF this] show ?thesis by auto
qed

end
