(* ===== verification/Schedule_Time.thy ===== *)
theory Schedule_Time
  imports Policy
begin

text \<open>
  When a schedule runs: \<^verbatim>\<open>packages/schedules/src/time.ts\<close>. Cron expressions are
  parsed here; calendar and time zones are the record \<open>calendar\<close> of the environment. The lemmas
  say what a parsed field contains, and that the bounded evaluators return exactly the first
  (\<open>nextMinutes\<close>) and the last (\<open>recentMinutes\<close>) matching minutes of the window.
\<close>

definition rule_invalid :: "'a res" where
  "rule_invalid = Inl (HarborError 400 ''SCHEDULE_RULE'')"

lemma rule_invalid_neq [simp]: "rule_invalid \<noteq> Inr x" "Inr x \<noteq> rule_invalid"
  by (simp_all add: rule_invalid_def)

definition evaluation_limit :: "'a res" where
  "evaluation_limit = Inl (HarborError 422 ''SCHEDULE_EVALUATION_LIMIT'')"

lemma evaluation_limit_neq [simp]: "evaluation_limit \<noteq> Inr x" "Inr x \<noteq> evaluation_limit"
  by (simp_all add: evaluation_limit_def)

section \<open>Cron fields\<close>

definition is_number :: "string \<Rightarrow> bool" where
  "is_number s \<longleftrightarrow> s \<noteq> [] \<and> list_all is_digit s"

text \<open>
  \<^verbatim>\<open>/^(\*|\d+(?:-\d+)?)(?:\/(\d+))?$/\<close>: the base is \<open>None\<close> for a star and
  otherwise a number with an optional second one; the step is optional.
\<close>

type_synonym cron_term = "(nat \<times> nat option) option \<times> nat option"

definition parse_base :: "string \<Rightarrow> (nat \<times> nat option) option option" where
  "parse_base b =
     (if b = ''*'' then Some None
      else case split_on (CHR ''-'') b of
        [x] \<Rightarrow> if is_number x then Some (Some (digits_value x, None)) else None
      | [x, y] \<Rightarrow> if is_number x \<and> is_number y then Some (Some (digits_value x, Some (digits_value y))) else None
      | _ \<Rightarrow> None)"

definition parse_term :: "string \<Rightarrow> cron_term option" where
  "parse_term t =
     (case split_on (CHR ''/'') t of
        [b] \<Rightarrow> map_option (\<lambda>x. (x, None)) (parse_base b)
      | [b, s] \<Rightarrow> if is_number s then map_option (\<lambda>x. (x, Some (digits_value s))) (parse_base b) else None
      | _ \<Rightarrow> None)"

text \<open>First value, last value and step of a term, checked against the field's bounds.\<close>

definition term_range :: "nat \<Rightarrow> nat \<Rightarrow> cron_term \<Rightarrow> (nat \<times> nat \<times> nat) res" where
  "term_range lo hi t = (case t of (base, step) \<Rightarrow>
     let st = (case step of None \<Rightarrow> 1 | Some n \<Rightarrow> n) in
     if st < 1 \<or> st > hi - lo + 1 then rule_invalid
     else (case base of
       None \<Rightarrow> Inr (lo, hi, st)
     | Some (a, b) \<Rightarrow>
         let z = (case b of Some y \<Rightarrow> y | None \<Rightarrow> if step = None then a else hi)
         in if a < lo \<or> z > hi \<or> a > z then rule_invalid else Inr (a, z, st)))"

text \<open>\<^verbatim>\<open>for (value = start; value <= end; value += step)\<close>\<close>

definition stepped :: "nat \<times> nat \<times> nat \<Rightarrow> nat list" where
  "stepped r = (case r of (a, z, st) \<Rightarrow> map (\<lambda>k. a + k * st) [0..<(z - a) div st + 1])"

record cron_field =
  fl_values :: "nat list"
  fl_restricted :: bool

fun term_values :: "nat \<Rightarrow> nat \<Rightarrow> string list \<Rightarrow> nat list res" where
  "term_values lo hi [] = Inr []"
| "term_values lo hi (t # ts) =
     (case parse_term t of
        None \<Rightarrow> rule_invalid
      | Some x \<Rightarrow> andThen (term_range lo hi x) (\<lambda>r.
          andThen (term_values lo hi ts) (\<lambda>vs. Inr (stepped r @ vs))))"

definition cron_field_of :: "string \<Rightarrow> nat \<Rightarrow> nat \<Rightarrow> bool \<Rightarrow> cron_field res" where
  "cron_field_of raw lo hi sunday =
     andThen (term_values lo hi (split_on (CHR '','') raw)) (\<lambda>vs.
       Inr \<lparr> fl_values = sort (remdups (map (\<lambda>v. if sunday \<and> v = 7 then 0 else v) vs)),
         fl_restricted = (CHR ''*'' \<notin> set raw) \<rparr>)"

subsection \<open>What a field contains\<close>

text \<open>The meaning of one term: the value is reached from the first one in whole steps.\<close>

definition in_term :: "nat \<Rightarrow> nat \<Rightarrow> cron_term \<Rightarrow> nat \<Rightarrow> bool" where
  "in_term lo hi t v = (case t of (base, step) \<Rightarrow>
     let st = (case step of None \<Rightarrow> 1 | Some n \<Rightarrow> n);
         a = (case base of None \<Rightarrow> lo | Some (x, _) \<Rightarrow> x);
         z = (case base of None \<Rightarrow> hi | Some (x, Some y) \<Rightarrow> y
              | Some (x, None) \<Rightarrow> if step = None then x else hi)
     in a \<le> v \<and> v \<le> z \<and> (v - a) mod st = 0)"

definition term_matches :: "nat \<Rightarrow> nat \<Rightarrow> string \<Rightarrow> nat \<Rightarrow> bool" where
  "term_matches lo hi s v = (case parse_term s of None \<Rightarrow> False | Some x \<Rightarrow> in_term lo hi x v)"

lemma in_stepped:
  assumes st: "st > 0" and v: "a \<le> v" "v \<le> z" "(v - a) mod st = 0"
  shows "v \<in> set (stepped (a, z, st))"
proof -
  have eq: "v = a + ((v - a) div st) * st" using v st by (auto simp: mod_0_imp_dvd)
  have "(v - a) div st \<le> (z - a) div st" using v by (intro div_le_mono) simp
  then have "(v - a) div st \<in> set [0..<(z - a) div st + 1]"
    unfolding set_upt atLeastLessThan_iff Suc_eq_plus1 [symmetric] less_Suc_eq_le by blast
  then show ?thesis unfolding stepped_def prod.case set_map using eq by (rule rev_image_eqI)
qed

lemma stepped_in:
  assumes "a \<le> z" and "v \<in> set (stepped (a, z, st))"
  shows "a \<le> v \<and> v \<le> z \<and> (v - a) mod st = 0"
proof -
  from assms(2) obtain k where k: "v = a + k * st" and "k \<in> set [0..<(z - a) div st + 1]"
    unfolding stepped_def prod.case set_map by (rule imageE)
  then have "k \<le> (z - a) div st"
    unfolding set_upt atLeastLessThan_iff Suc_eq_plus1 [symmetric] less_Suc_eq_le by blast
  then have "k * st \<le> (z - a) div st * st" by (rule mult_le_mono1)
  also have "\<dots> \<le> z - a" by (rule div_times_less_eq_dividend)
  finally show ?thesis using k assms(1) by simp
qed

lemma set_stepped:
  assumes "st > 0" and "a \<le> z"
  shows "set (stepped (a, z, st)) = {v. a \<le> v \<and> v \<le> z \<and> (v - a) mod st = 0}"
proof (intro set_eqI iffI)
  fix v assume "v \<in> set (stepped (a, z, st))"
  from stepped_in [OF assms(2) this] show "v \<in> {v. a \<le> v \<and> v \<le> z \<and> (v - a) mod st = 0}" by (rule CollectI)
next
  fix v assume "v \<in> {v. a \<le> v \<and> v \<le> z \<and> (v - a) mod st = 0}"
  then have "a \<le> v" "v \<le> z" "(v - a) mod st = 0" by blast+
  then show "v \<in> set (stepped (a, z, st))" by (rule in_stepped [OF assms(1)])
qed

lemma term_range_Inr:
  assumes "term_range lo hi t = Inr (a, z, st)" and "lo \<le> hi"
  shows "0 < st \<and> lo \<le> a \<and> a \<le> z \<and> z \<le> hi \<and> (\<forall>v. in_term lo hi t v \<longleftrightarrow> a \<le> v \<and> v \<le> z \<and> (v - a) mod st = 0)"
  using assms
  by (cases t) (auto simp: term_range_def in_term_def Let_def split: option.splits if_splits)

lemma set_term_values:
  assumes "term_values lo hi ts = Inr vs" and "lo \<le> hi"
  shows "set vs = {v. \<exists>t \<in> set ts. term_matches lo hi t v} \<and> set vs \<subseteq> {lo..hi} \<and> (ts \<noteq> [] \<longrightarrow> vs \<noteq> [])"
  using assms(1)
proof (induction ts arbitrary: vs)
  case (Cons t ts)
  then obtain x a z st us where x: "parse_term t = Some x" "term_range lo hi x = Inr (a, z, st)"
    and us: "term_values lo hi ts = Inr us" "vs = stepped (a, z, st) @ us"
    by (auto simp: res_simps split: option.splits)
  note r = term_range_Inr [OF x(2) assms(2)]
  then have s: "set (stepped (a, z, st)) = {v. term_matches lo hi t v}"
    using set_stepped [of st a z] x(1) by (auto simp: term_matches_def)
  have sub: "set (stepped (a, z, st)) \<subseteq> {lo..hi}" using r set_stepped [of st a z] by auto
  have ne: "stepped (a, z, st) \<noteq> []" by (simp add: stepped_def)
  note ih = Cons.IH [OF us(1)]
  have "set vs = {v. \<exists>u \<in> set (t # ts). term_matches lo hi u v}" using s ih us(2) by auto
  moreover have "set us \<subseteq> {lo..hi}" using ih by blast
  then have "set vs \<subseteq> {lo..hi}" using sub unfolding us(2) set_append by blast
  ultimately show ?case using ne us(2) by simp
qed simp

lemma cron_field_Inr:
  assumes "cron_field_of raw lo hi sunday = Inr f" and "lo \<le> hi"
  shows "sorted (fl_values f)" "distinct (fl_values f)" "fl_values f \<noteq> []"
    "\<And>v. v \<in> set (fl_values f) \<Longrightarrow> v \<le> hi \<and> (lo \<le> v \<or> sunday \<and> v = 0) \<and> (sunday \<longrightarrow> v \<noteq> 7)"
    "set (fl_values f) = (\<lambda>v. if sunday \<and> v = 7 then 0 else v) `
      {v. \<exists>t \<in> set (split_on (CHR '','') raw). term_matches lo hi t v}"
proof -
  from assms obtain vs where vs: "term_values lo hi (split_on (CHR '','') raw) = Inr vs"
    and f: "fl_values f = sort (remdups (map (\<lambda>v. if sunday \<and> v = 7 then 0 else v) vs))"
    by (auto simp: cron_field_of_def res_simps)
  note s = set_term_values [OF vs assms(2)]
  have "vs \<noteq> []" using s by simp
  then have "set (fl_values f) \<noteq> {}" unfolding f by (cases vs) auto
  then show "fl_values f \<noteq> []" by auto
  show "v \<le> hi \<and> (lo \<le> v \<or> sunday \<and> v = 0) \<and> (sunday \<longrightarrow> v \<noteq> 7)" if "v \<in> set (fl_values f)" for v
  proof -
    from that obtain u where "u \<in> set vs" "v = (if sunday \<and> u = 7 then 0 else u)" unfolding f by auto
    then show ?thesis using s by (auto split: if_splits)
  qed
  have img: "set (fl_values f) = (\<lambda>v. if sunday \<and> v = 7 then 0 else v) ` set vs" unfolding f by simp
  have vset: "set vs = {v. \<exists>t \<in> set (split_on CHR '','' raw). term_matches lo hi t v}" using s by blast
  show "sorted (fl_values f)" "distinct (fl_values f)" unfolding f by simp_all
  show "set (fl_values f) = (\<lambda>v. if sunday \<and> v = 7 then 0 else v) `
      {v. \<exists>t \<in> set (split_on (CHR '','') raw). term_matches lo hi t v}" using img unfolding vset .
qed

text \<open>White space separated words, as \<^verbatim>\<open>split(/\s+/)\<close> of a trimmed text (ASCII).\<close>

fun words_acc :: "string \<Rightarrow> string \<Rightarrow> string list" where
  "words_acc [] w = (if w = [] then [] else [w])"
| "words_acc (c # cs) w =
     (if is_space c then (if w = [] then words_acc cs [] else w # words_acc cs [])
      else words_acc cs (w @ [c]))"

record cron =
  cr_minute :: cron_field
  cr_hour :: cron_field
  cr_day :: cron_field
  cr_month :: cron_field
  cr_weekday :: cron_field

fun cron_fields :: "string list \<Rightarrow> cron res" where
  "cron_fields [mi, h, d, mo, w] =
     andThen (cron_field_of mi 0 59 False) (\<lambda>fmi.
     andThen (cron_field_of h 0 23 False) (\<lambda>fh.
     andThen (cron_field_of d 1 31 False) (\<lambda>fd.
     andThen (cron_field_of mo 1 12 False) (\<lambda>fmo.
     andThen (cron_field_of w 0 7 True) (\<lambda>fw.
       Inr \<lparr> cr_minute = fmi, cr_hour = fh, cr_day = fd, cr_month = fmo, cr_weekday = fw \<rparr>)))))"
| "cron_fields _ = rule_invalid"

lemma cron_fields_Inr:
  "cron_fields ws = Inr c \<Longrightarrow> \<exists>mi h d mo w. ws = [mi, h, d, mo, w] \<and>
     cron_field_of mi 0 59 False = Inr (cr_minute c) \<and> cron_field_of h 0 23 False = Inr (cr_hour c) \<and>
     cron_field_of d 1 31 False = Inr (cr_day c) \<and> cron_field_of mo 1 12 False = Inr (cr_month c) \<and>
     cron_field_of w 0 7 True = Inr (cr_weekday c)"
  by (induction ws rule: cron_fields.induct) (auto simp: res_simps simp del: One_nat_def)

definition parseCron :: "string \<Rightarrow> cron res" where
  "parseCron expr = (if length expr > 200 then rule_invalid else cron_fields (words_acc (trim expr) []))"

lemma parseCron_fields:
  assumes "parseCron expr = Inr c"
  obtains mi h d mo w where "words_acc (trim expr) [] = [mi, h, d, mo, w]"
    "cron_field_of mi 0 59 False = Inr (cr_minute c)" "cron_field_of h 0 23 False = Inr (cr_hour c)"
    "cron_field_of d 1 31 False = Inr (cr_day c)" "cron_field_of mo 1 12 False = Inr (cr_month c)"
    "cron_field_of w 0 7 True = Inr (cr_weekday c)"
proof -
  from assms have "cron_fields (words_acc (trim expr) []) = Inr c" by (simp add: parseCron_def split: if_split_asm)
  from cron_fields_Inr [OF this] show thesis using that by blast
qed

definition field_ok :: "nat \<Rightarrow> nat \<Rightarrow> cron_field \<Rightarrow> bool" where
  "field_ok lo hi f \<longleftrightarrow> sorted (fl_values f) \<and> distinct (fl_values f) \<and> fl_values f \<noteq> [] \<and> set (fl_values f) \<subseteq> {lo..hi}"

lemma cron_field_ok: "cron_field_of raw lo hi False = Inr f \<Longrightarrow> lo \<le> hi \<Longrightarrow> field_ok lo hi f"
  unfolding field_ok_def using cron_field_Inr(1-4) [of raw lo hi False f] by auto

lemma cron_weekday_ok:
  assumes "cron_field_of raw 0 7 True = Inr f" shows "field_ok 0 6 f"
proof -
  note c = cron_field_Inr(1-4) [OF assms]
  have "v \<le> 6" if "v \<in> set (fl_values f)" for v
  proof -
    from c(4) [OF _ that] have "v \<le> 7" "v \<noteq> 7" by simp_all
    then show ?thesis by linarith
  qed
  then show ?thesis unfolding field_ok_def using c(1-3) by auto
qed

lemma parseCron_ranges:
  assumes "parseCron expr = Inr c"
  shows "field_ok 0 59 (cr_minute c)" "field_ok 0 23 (cr_hour c)" "field_ok 1 31 (cr_day c)"
    "field_ok 1 12 (cr_month c)" "field_ok 0 6 (cr_weekday c)"
proof -
  from assms obtain mi h d mo w where f: "cron_field_of mi 0 59 False = Inr (cr_minute c)"
    "cron_field_of h 0 23 False = Inr (cr_hour c)" "cron_field_of d 1 31 False = Inr (cr_day c)"
    "cron_field_of mo 1 12 False = Inr (cr_month c)" "cron_field_of w 0 7 True = Inr (cr_weekday c)"
    by (rule parseCron_fields)
  show "field_ok 0 59 (cr_minute c)" by (rule cron_field_ok [OF f(1)]) simp
  show "field_ok 0 23 (cr_hour c)" by (rule cron_field_ok [OF f(2)]) simp
  show "field_ok 1 31 (cr_day c)" by (rule cron_field_ok [OF f(3)]) simp
  show "field_ok 1 12 (cr_month c)" by (rule cron_field_ok [OF f(4)]) simp
  show "field_ok 0 6 (cr_weekday c)" by (rule cron_weekday_ok [OF f(5)])
qed

section \<open>Local minutes\<close>

definition zone_start :: "char \<Rightarrow> bool" where
  "zone_start c \<longleftrightarrow> (CHR ''A'' \<le> c \<and> c \<le> CHR ''Z'') \<or> (CHR ''a'' \<le> c \<and> c \<le> CHR ''z'') \<or> c = CHR ''_''"

definition zone_char :: "char \<Rightarrow> bool" where
  "zone_char c \<longleftrightarrow> zone_start c \<or> is_digit c \<or> c = CHR ''+'' \<or> c = CHR ''-'' \<or> c = CHR ''/''"

definition canonicalTimezone :: "calendar \<Rightarrow> string \<Rightarrow> string res" where
  "canonicalTimezone cal z =
     (if length z > 100 \<or> z = [] \<or> \<not> zone_start (hd z) \<or> \<not> list_all zone_char z then rule_invalid
      else case cal_zone cal z of None \<Rightarrow> rule_invalid | Some c \<Rightarrow> Inr c)"

text \<open>\<open>None\<close> where the local minute falls into a gap of the zone.\<close>

definition mapMinute :: "calendar \<Rightarrow> string \<Rightarrow> int \<Rightarrow> nat \<Rightarrow> nat \<Rightarrow> minute option" where
  "mapMinute cal zone date h m =
     (case cal_instant cal zone date h m of (t, wall, offset) \<Rightarrow>
        if wall \<noteq> (date, h, m) then None
        else Some \<lparr> mn_local = cal_show cal date h m, mn_instant = t, mn_offset = offset, mn_timezone = zone \<rparr>)"

text \<open>\<^verbatim>\<open>/^\d{4}-\d{2}-\d{2}T\d{2}:\d{2}$/\<close>\<close>

definition local_format :: "string \<Rightarrow> bool" where
  "local_format s \<longleftrightarrow> length s = 16 \<and> s ! 4 = CHR ''-'' \<and> s ! 7 = CHR ''-'' \<and> s ! 10 = CHR ''T'' \<and> s ! 13 = CHR '':'' \<and>
     list_all is_digit (take 4 s @ take 2 (drop 5 s) @ take 2 (drop 8 s) @ take 2 (drop 11 s) @ drop 14 s)"

definition resolveOneTime :: "calendar \<Rightarrow> string \<Rightarrow> string \<Rightarrow> time \<Rightarrow> minute res" where
  "resolveOneTime cal local zone after =
     andThen (canonicalTimezone cal zone) (\<lambda>tz.
     if \<not> local_format local then rule_invalid
     else case cal_parse cal local of
       None \<Rightarrow> rule_invalid
     | Some (date, h, m) \<Rightarrow>
         (case mapMinute cal tz date h m of
            None \<Rightarrow> rule_invalid
          | Some r \<Rightarrow>
              if mn_instant r \<le> after then rule_invalid
              else if date > cal_plus_5_years cal (cal_date cal tz after) then rule_invalid
              else Inr r))"

section \<open>Evaluating a rule\<close>

definition day_matches :: "calendar \<Rightarrow> cron \<Rightarrow> int \<Rightarrow> bool" where
  "day_matches cal c date \<longleftrightarrow>
     (let dom = cal_day cal date \<in> set (fl_values (cr_day c));
          dow = cal_weekday cal date mod 7 \<in> set (fl_values (cr_weekday c))
      in cal_month cal date \<in> set (fl_values (cr_month c)) \<and>
         (if fl_restricted (cr_day c) \<and> fl_restricted (cr_weekday c) then dom \<or> dow else dom \<and> dow))"

definition day_times :: "cron \<Rightarrow> (nat \<times> nat) list" where
  "day_times c = concat (map (\<lambda>h. map (Pair h) (fl_values (cr_minute c))) (fl_values (cr_hour c)))"

text \<open>\<open>spent dates conversions\<close>: the evaluation budget is exhausted.\<close>

definition spent :: "calendar \<Rightarrow> nat \<Rightarrow> nat \<Rightarrow> bool" where
  "spent cal dates conversions \<longleftrightarrow> dates > 2000 \<or> conversions > 4096 \<or> cal_late cal dates conversions"

fun day_candidates ::
  "calendar \<Rightarrow> string \<Rightarrow> int \<Rightarrow> (time \<Rightarrow> bool) \<Rightarrow> (nat \<Rightarrow> bool) \<Rightarrow> (nat \<times> nat) list \<Rightarrow> nat \<Rightarrow>
     (minute list \<times> nat) res" where
  "day_candidates cal tz date wanted stop [] n = Inr ([], n)"
| "day_candidates cal tz date wanted stop ((h, m) # ts) n =
     (if stop (Suc n) then evaluation_limit
      else andThen (day_candidates cal tz date wanted stop ts (Suc n)) (\<lambda>(ms, k).
        Inr (case mapMinute cal tz date h m of
            Some x \<Rightarrow> if wanted (mn_instant x) then x # ms else ms
          | None \<Rightarrow> ms, k)))"

text \<open>
  The loop of \<^verbatim>\<open>nextMinutes\<close>: budget checks after every 32nd date and every 64th
  conversion, and as soon as a limit is passed inside a date.
\<close>

definition next_stop :: "calendar \<Rightarrow> nat \<Rightarrow> nat \<Rightarrow> bool" where
  "next_stop cal dates n \<longleftrightarrow> (n > 4096 \<or> cal_late cal dates n \<or> n mod 64 = 0) \<and> spent cal dates n"

function next_loop ::
  "calendar \<Rightarrow> string \<Rightarrow> cron \<Rightarrow> time \<Rightarrow> nat \<Rightarrow> int \<Rightarrow> int \<Rightarrow> nat \<Rightarrow> nat \<Rightarrow> minute list \<Rightarrow> minute list res" where
  "next_loop cal tz c after limit horizon date dates n results =
     (if date > horizon then (if results = [] then rule_invalid else Inr results)
      else if Suc dates mod 32 = 0 \<and> spent cal (Suc dates) n then evaluation_limit
      else if day_matches cal c date then
        andThen (day_candidates cal tz date (\<lambda>t. t > after) (next_stop cal (Suc dates)) (day_times c) n) (\<lambda>(ms, k).
          let results' = results @ take (limit - length results) (sort_key mn_instant ms)
          in if length results' \<ge> limit then Inr results'
             else next_loop cal tz c after limit horizon (date + 1) (Suc dates) k results')
      else next_loop cal tz c after limit horizon (date + 1) (Suc dates) n results)"
  by auto
termination
  by (relation "measure (\<lambda>(cal, tz, c, after, limit, horizon, date, dates, n, results). nat (horizon - date + 1))") auto

declare next_loop.simps [simp del]

definition nextMinutes :: "calendar \<Rightarrow> rule \<Rightarrow> time \<Rightarrow> nat \<Rightarrow> minute list res" where
  "nextMinutes cal r after limit =
     (if limit < 1 \<or> limit > 128 then Inl (Crash ''Internal schedule preview limit'')
      else case r of
        Once local tz \<Rightarrow> andThen (resolveOneTime cal local tz after) (\<lambda>m. Inr [m])
      | Cron expr zone \<Rightarrow>
          andThen (canonicalTimezone cal zone) (\<lambda>tz.
          andThen (parseCron expr) (\<lambda>c.
            let d0 = cal_date cal tz after
            in next_loop cal tz c after limit (cal_plus_5_years cal d0) d0 0 0 [])))"

text \<open>The loop of \<^verbatim>\<open>recentMinutes\<close>, from the last date back to the first.\<close>

definition recent_stop :: "calendar \<Rightarrow> nat \<Rightarrow> nat \<Rightarrow> bool" where
  "recent_stop cal dates n \<longleftrightarrow> n > 4096 \<or> cal_late cal dates n"

function recent_loop ::
  "calendar \<Rightarrow> string \<Rightarrow> cron \<Rightarrow> time \<Rightarrow> time \<Rightarrow> nat \<Rightarrow> int \<Rightarrow> int \<Rightarrow> nat \<Rightarrow> nat \<Rightarrow> minute list \<Rightarrow> minute list res" where
  "recent_loop cal tz c after through limit first date dates n results =
     (if date < first then Inr results
      else if Suc dates > 4 then evaluation_limit
      else if day_matches cal c date then
        andThen (day_candidates cal tz date (\<lambda>t. after < t \<and> t \<le> through) (recent_stop cal (Suc dates)) (day_times c) n) (\<lambda>(ms, k).
          let results' = results @ take (limit - length results) (sort_key (\<lambda>m. - mn_instant m) ms)
          in if length results' = limit then Inr results'
             else recent_loop cal tz c after through limit first (date - 1) (Suc dates) k results')
      else recent_loop cal tz c after through limit first (date - 1) (Suc dates) n results)"
  by auto
termination
  by (relation "measure (\<lambda>(cal, tz, c, after, through, limit, first, date, dates, n, results). nat (date - first + 1))") auto

declare recent_loop.simps [simp del]

definition recentMinutes :: "calendar \<Rightarrow> rule \<Rightarrow> time \<Rightarrow> time \<Rightarrow> nat \<Rightarrow> minute list res" where
  "recentMinutes cal r after through limit =
     (if limit < 1 \<or> limit > 3 then Inl (Crash ''Internal catch-up limit'')
      else if after \<ge> through then Inr []
      else if through - after > 86400000 then Inl (Crash ''Internal catch-up window'')
      else case r of
        Once local zone \<Rightarrow>
          andThen (canonicalTimezone cal zone) (\<lambda>tz.
          case cal_parse cal local of
            None \<Rightarrow> Inl (Crash ''RangeError'')
          | Some (date, h, m) \<Rightarrow>
              Inr (case mapMinute cal tz date h m of
                  Some x \<Rightarrow> if after < mn_instant x \<and> mn_instant x \<le> through then [x] else []
                | None \<Rightarrow> []))
      | Cron expr zone \<Rightarrow>
          andThen (canonicalTimezone cal zone) (\<lambda>tz.
          andThen (parseCron expr) (\<lambda>c.
          andThen (recent_loop cal tz c after through limit (cal_date cal tz after) (cal_date cal tz through) 0 0 []) (\<lambda>ms.
            Inr (sort_key mn_instant ms)))))"

section \<open>The evaluators find exactly the first and the last matching minutes\<close>

definition day_minutes :: "calendar \<Rightarrow> string \<Rightarrow> cron \<Rightarrow> (time \<Rightarrow> bool) \<Rightarrow> int \<Rightarrow> minute list" where
  "day_minutes cal tz c wanted date =
     (if day_matches cal c date
      then filter (\<lambda>x. wanted (mn_instant x)) (List.map_filter (\<lambda>(h, m). mapMinute cal tz date h m) (day_times c))
      else [])"

lemma day_candidates_Inr:
  "day_candidates cal tz date wanted stop ts n = Inr (ms, k) \<Longrightarrow>
     ms = filter (\<lambda>x. wanted (mn_instant x)) (List.map_filter (\<lambda>(h, m). mapMinute cal tz date h m) ts) \<and> k = n + length ts"
proof (induction ts arbitrary: n ms)
  case (Cons t ts)
  obtain h m where t: "t = (h, m)" by (cases t)
  from Cons.prems obtain ms' where r: "day_candidates cal tz date wanted stop ts (Suc n) = Inr (ms', k)"
    and ms: "ms = (case mapMinute cal tz date h m of
            Some x \<Rightarrow> if wanted (mn_instant x) then x # ms' else ms' | None \<Rightarrow> ms')"
    by (auto simp: t res_simps split: if_splits)
  show ?case using Cons.IH [OF r] ms by (auto simp: t map_filter_simps split: option.splits)
qed (simp add: map_filter_simps)

lemma next_loop_Inr:
  "next_loop cal tz c after limit horizon date dates n results = Inr ms \<Longrightarrow> length results < limit \<Longrightarrow>
     ms \<noteq> [] \<and> ms = take limit (results @ concat (map (\<lambda>d. sort_key mn_instant (day_minutes cal tz c (\<lambda>t. t > after) d)) [date..horizon]))"
proof (induction cal tz c after limit horizon date dates n results rule: next_loop.induct)
  case (1 cal tz c after limit horizon date dates n results)
  let ?f = "\<lambda>d. sort_key mn_instant (day_minutes cal tz c (\<lambda>t. t > after) d)"
  note eq = "1.prems"(1) [unfolded next_loop.simps [of cal tz c after limit horizon date dates n results]]
  show ?case
  proof (cases "date > horizon")
    case True then show ?thesis using eq "1.prems"(2) by (auto split: if_splits)
  next
    case False
    then have up: "[date..horizon] = date # [date + 1..horizon]" by (simp add: upto.simps)
    have ok: "\<not> (Suc dates mod 32 = 0 \<and> spent cal (Suc dates) n)" using eq False by (auto split: if_splits)
    show ?thesis
    proof (cases "day_matches cal c date")
      case m: False
      then have r: "next_loop cal tz c after limit horizon (date + 1) (Suc dates) n results = Inr ms" using eq False ok by simp
      have "?f date = []" using m by (simp add: day_minutes_def)
      then have "concat (map ?f [date..horizon]) = concat (map ?f [date + 1..horizon])" unfolding up by simp
      then show ?thesis using "1.IH"(2) [OF False ok m r "1.prems"(2)] by argo
    next
      case True
      with eq False ok obtain cs k where c: "day_candidates cal tz date (\<lambda>t. t > after) (next_stop cal (Suc dates)) (day_times c) n = Inr (cs, k)"
        and r: "(let results' = results @ take (limit - length results) (sort_key mn_instant cs)
          in if length results' \<ge> limit then Inr results'
             else next_loop cal tz c after limit horizon (date + 1) (Suc dates) k results') = Inr ms"
        by (auto simp: res_simps)
      have f: "?f date = sort_key mn_instant cs" using day_candidates_Inr [OF c] True by (simp add: day_minutes_def)
      let ?r = "results @ take (limit - length results) (sort_key mn_instant cs)"
      show ?thesis
      proof (cases "length ?r \<ge> limit")
        case full: True
        then have "ms = ?r" using r unfolding Let_def if_P [OF full] by simp
        moreover have "concat (map ?f [date..horizon]) = sort_key mn_instant cs @ concat (map ?f [date + 1..horizon])"
          unfolding up using f by simp
        moreover have "limit \<le> length ms" using full \<open>ms = ?r\<close> by blast
        then have "ms \<noteq> []" using "1.prems"(2) by auto
        ultimately show ?thesis using full "1.prems"(2) by auto
      next
        case part: False
        then have whole: "take (limit - length results) (sort_key mn_instant cs) = sort_key mn_instant cs" by simp
        then have r': "next_loop cal tz c after limit horizon (date + 1) (Suc dates) k ?r = Inr ms"
          using r part by (simp add: Let_def)
        have "length ?r < limit" using part by simp
        note ih = "1.IH"(1) [OF False ok True c refl refl part r' this]
        have "results @ concat (map ?f [date..horizon]) = ?r @ concat (map ?f [date + 1..horizon])"
          unfolding up whole using f by simp
        then show ?thesis using ih by argo
      qed
    qed
  qed
qed

lemma recent_loop_Inr:
  "recent_loop cal tz c after through limit first date dates n results = Inr ms \<Longrightarrow> length results < limit \<Longrightarrow>
     ms = take limit (results @ concat (map (\<lambda>d. sort_key (\<lambda>m. - mn_instant m)
       (day_minutes cal tz c (\<lambda>t. after < t \<and> t \<le> through) d)) (rev [first..date])))"
proof (induction cal tz c after through limit first date dates n results rule: recent_loop.induct)
  case (1 cal tz c after through limit first date dates n results)
  let ?f = "\<lambda>d. sort_key (\<lambda>m. - mn_instant m) (day_minutes cal tz c (\<lambda>t. after < t \<and> t \<le> through) d)"
  note eq = "1.prems"(1) [unfolded recent_loop.simps [of cal tz c after through limit first date dates n results]]
  show ?case
  proof (cases "date < first")
    case True then show ?thesis using eq "1.prems"(2) by simp
  next
    case False
    then have up: "rev [first..date] = date # rev [first..date - 1]" by (simp add: upto_rec2)
    have ok: "\<not> Suc dates > 4" using eq False by (auto split: if_splits)
    show ?thesis
    proof (cases "day_matches cal c date")
      case m: False
      then have r: "recent_loop cal tz c after through limit first (date - 1) (Suc dates) n results = Inr ms" using eq False ok by simp
      have "?f date = []" using m by (simp add: day_minutes_def)
      then have "concat (map ?f (rev [first..date])) = concat (map ?f (rev [first..date - 1]))" unfolding up by simp
      then show ?thesis using "1.IH"(2) [OF False ok m r "1.prems"(2)] by argo
    next
      case True
      with eq False ok obtain cs k where c: "day_candidates cal tz date (\<lambda>t. after < t \<and> t \<le> through) (recent_stop cal (Suc dates)) (day_times c) n = Inr (cs, k)"
        and r: "(let results' = results @ take (limit - length results) (sort_key (\<lambda>m. - mn_instant m) cs)
          in if length results' = limit then Inr results'
             else recent_loop cal tz c after through limit first (date - 1) (Suc dates) k results') = Inr ms"
        by (auto simp: res_simps)
      have f: "?f date = sort_key (\<lambda>m. - mn_instant m) cs" using day_candidates_Inr [OF c] True by (simp add: day_minutes_def)
      let ?r = "results @ take (limit - length results) (sort_key (\<lambda>m. - mn_instant m) cs)"
      have up': "concat (map ?f (rev [first..date])) = sort_key (\<lambda>m. - mn_instant m) cs @ concat (map ?f (rev [first..date - 1]))"
        unfolding up using f by simp
      show ?thesis
      proof (cases "length ?r = limit")
        case full: True
        then have "ms = ?r" using r by (simp add: Let_def)
        then show ?thesis using full "1.prems"(2) up' by auto
      next
        case part: False
        then have len: "length ?r < limit" using "1.prems"(2) by simp
        then have whole: "take (limit - length results) (sort_key (\<lambda>m. - mn_instant m) cs) = sort_key (\<lambda>m. - mn_instant m) cs" by simp
        have r': "recent_loop cal tz c after through limit first (date - 1) (Suc dates) k ?r = Inr ms"
          using r part by (simp add: Let_def)
        note ih = "1.IH"(1) [OF False ok True c refl refl part r' len]
        have "results @ concat (map ?f (rev [first..date])) = ?r @ concat (map ?f (rev [first..date - 1]))"
          unfolding up' whole by simp
        then show ?thesis using ih by argo
      qed
    qed
  qed
qed

text \<open>
  Local days follow each other in time: a property of the time zone data base that the sorting by
  date relies on.
\<close>

definition days_in_order :: "calendar \<Rightarrow> string \<Rightarrow> bool" where
  "days_in_order cal tz \<longleftrightarrow> (\<forall>d d' h m h' m' x x'. d < d' \<longrightarrow> mapMinute cal tz d h m = Some x \<longrightarrow>
     mapMinute cal tz d' h' m' = Some x' \<longrightarrow> mn_instant x < mn_instant x')"

definition due_minute :: "calendar \<Rightarrow> string \<Rightarrow> cron \<Rightarrow> int \<Rightarrow> minute \<Rightarrow> bool" where
  "due_minute cal tz c d x \<longleftrightarrow> day_matches cal c d \<and>
     (\<exists>h \<in> set (fl_values (cr_hour c)). \<exists>m \<in> set (fl_values (cr_minute c)). mapMinute cal tz d h m = Some x)"

lemma set_map_filter_Some: "x \<in> set (List.map_filter f xs) \<longleftrightarrow> (\<exists>y \<in> set xs. f y = Some x)"
  by (induction xs) (auto simp: map_filter_simps split: option.splits)

lemma day_minutes_iff:
  "x \<in> set (day_minutes cal tz c wanted d) \<longleftrightarrow> due_minute cal tz c d x \<and> wanted (mn_instant x)"
  by (auto simp: day_minutes_def due_minute_def set_map_filter_Some day_times_def)

lemma sorted_wrt_concat:
  assumes "\<And>d. d \<in> set ds \<Longrightarrow> sorted_wrt R (f d)"
    and "sorted_wrt (\<lambda>d d'. \<forall>x \<in> set (f d). \<forall>y \<in> set (f d'). R x y) ds"
  shows "sorted_wrt R (concat (map f ds))"
  using assms by (induction ds) (auto simp: sorted_wrt_append)

lemma take_minimal:
  assumes "sorted_wrt R xs" and "y \<in> set xs" and "y \<notin> set (take n xs)"
  shows "length (take n xs) = n \<and> (\<forall>x \<in> set (take n xs). R x y)"
proof -
  have split: "xs = take n xs @ drop n xs" by simp
  have y: "y \<in> set (drop n xs)" using assms(2,3) split by (metis Un_iff set_append)
  then have "n < length xs" by (cases "n < length xs") auto
  moreover have "\<forall>x \<in> set (take n xs). R x y"
    using assms(1) y by (subst (asm) split) (auto simp: sorted_wrt_append simp del: append_take_drop_id)
  ultimately show ?thesis by simp
qed

lemma days_sorted_up:
  assumes "days_in_order cal tz"
  shows "sorted_wrt (\<lambda>x y. mn_instant x \<le> mn_instant y)
    (concat (map (\<lambda>d. sort_key mn_instant (day_minutes cal tz c wanted d)) [a..b]))"
proof (rule sorted_wrt_concat)
  show "sorted_wrt (\<lambda>x y. mn_instant x \<le> mn_instant y) (sort_key mn_instant (day_minutes cal tz c wanted d))" for d
    using sorted_sort_key [of mn_instant] by (simp add: sorted_wrt_map [symmetric] del: sorted_sort_key)
  show "sorted_wrt (\<lambda>d d'. \<forall>x \<in> set (sort_key mn_instant (day_minutes cal tz c wanted d)).
      \<forall>y \<in> set (sort_key mn_instant (day_minutes cal tz c wanted d')). mn_instant x \<le> mn_instant y) [a..b]"
    using assms by (intro sorted_wrt_mono_rel [OF _ sorted_wrt_upto])
      (auto simp: day_minutes_iff due_minute_def days_in_order_def intro!: less_imp_le)
qed

lemma days_sorted_down:
  assumes "days_in_order cal tz"
  shows "sorted_wrt (\<lambda>x y. mn_instant x \<ge> mn_instant y)
    (concat (map (\<lambda>d. sort_key (\<lambda>m. - mn_instant m) (day_minutes cal tz c wanted d)) (rev [a..b])))"
proof (rule sorted_wrt_concat)
  have "sorted_wrt (\<lambda>x y. - mn_instant x \<le> - mn_instant y) (sort_key (\<lambda>m. - mn_instant m) (day_minutes cal tz c wanted d))" for d
    using sorted_sort_key [of "\<lambda>m. - mn_instant m"] by (simp only: sorted_wrt_map)
  then show "sorted_wrt (\<lambda>x y. mn_instant x \<ge> mn_instant y) (sort_key (\<lambda>m. - mn_instant m) (day_minutes cal tz c wanted d))" for d
    by simp
  have "sorted_wrt (\<lambda>d' d. \<forall>x \<in> set (day_minutes cal tz c wanted d). \<forall>y \<in> set (day_minutes cal tz c wanted d').
      mn_instant x \<ge> mn_instant y) [a..b]"
    using assms by (intro sorted_wrt_mono_rel [OF _ sorted_wrt_upto])
      (auto simp: day_minutes_iff due_minute_def days_in_order_def intro!: less_imp_le)
  then show "sorted_wrt (\<lambda>d d'. \<forall>x \<in> set (sort_key (\<lambda>m. - mn_instant m) (day_minutes cal tz c wanted d)).
      \<forall>y \<in> set (sort_key (\<lambda>m. - mn_instant m) (day_minutes cal tz c wanted d')). mn_instant x \<ge> mn_instant y) (rev [a..b])"
    by (simp add: sorted_wrt_rev)
qed

section \<open>Properties\<close>

text \<open>A cron field means what its text says: the values of an accepted field are exactly
  those that one of its comma separated terms (a star, a number, a range, each with an optional
  step) reaches from its first value in whole steps within the field's bounds, with 7 read as 0 for
  weekdays; they are listed in ascending order without repetition, never empty and never outside
  the bounds.\<close>

theorem cron_field_exact:
  assumes "cron_field_of raw lo hi sunday = Inr f" and "lo \<le> hi"
  shows "set (fl_values f) = (\<lambda>v. if sunday \<and> v = 7 then 0 else v) `
      {v. \<exists>t \<in> set (split_on (CHR '','') raw). term_matches lo hi t v} \<and>
    sorted (fl_values f) \<and> distinct (fl_values f) \<and> fl_values f \<noteq> [] \<and>
    (\<forall>v \<in> set (fl_values f). v \<le> hi \<and> (lo \<le> v \<or> sunday \<and> v = 0))"
  using cron_field_Inr [OF assms] by blast

theorem cron_field_exact_witness:
  "\<exists>f. cron_field_of ''1-9/4,30'' 0 59 False = Inr f \<and> fl_values f = [1, 5, 9, 30] \<and> sorted (fl_values f) \<and> distinct (fl_values f)"
proof -
  have "case cron_field_of ''1-9/4,30'' 0 59 False of Inl _ \<Rightarrow> False | Inr f \<Rightarrow> fl_values f = [1, 5, 9, 30]" by code_simp
  then obtain f where f: "cron_field_of ''1-9/4,30'' 0 59 False = Inr f" "fl_values f = [1, 5, 9, 30]"
    by (auto split: sum.splits)
  from cron_field_exact [OF f(1)] f show ?thesis by auto
qed

text \<open>C40: The next minutes of a cron rule are the first ones: they are in order of time, all after
  the cursor, all real minutes of the zone that match the expression, and no matching minute between
  the cursor's date and five years later was skipped for a later one. (Local days of a zone follow
  each other in time.)\<close>

theorem next_minutes_first:
  assumes "nextMinutes cal (Cron expr zone) after limit = Inr ms"
    and "canonicalTimezone cal zone = Inr tz" and "parseCron expr = Inr c" and "days_in_order cal tz"
  shows "ms \<noteq> [] \<and> length ms \<le> limit \<and> sorted (map mn_instant ms) \<and>
    (\<forall>x \<in> set ms. after < mn_instant x \<and> (\<exists>d. due_minute cal tz c d x)) \<and>
    (\<forall>d \<in> {cal_date cal tz after..cal_plus_5_years cal (cal_date cal tz after)}. \<forall>y.
       due_minute cal tz c d y \<and> after < mn_instant y \<and> y \<notin> set ms \<longrightarrow>
       length ms = limit \<and> (\<forall>x \<in> set ms. mn_instant x \<le> mn_instant y))"
proof -
  let ?a = "cal_date cal tz after" and ?b = "cal_plus_5_years cal (cal_date cal tz after)"
  let ?L = "concat (map (\<lambda>d. sort_key mn_instant (day_minutes cal tz c (\<lambda>t. t > after) d)) [?a..?b])"
  have loop: "next_loop cal tz c after limit ?b ?a 0 0 [] = Inr ms" and limit: "0 < limit"
    using assms(1-3) by (auto simp: nextMinutes_def Let_def split: if_splits)
  have ms: "ms \<noteq> []" "ms = take limit ?L" using next_loop_Inr [OF loop] limit by auto
  have sorted: "sorted_wrt (\<lambda>x y. mn_instant x \<le> mn_instant y) ?L" by (rule days_sorted_up [OF assms(4)])
  have elem: "x \<in> set ?L \<longleftrightarrow> (\<exists>d \<in> {?a..?b}. due_minute cal tz c d x \<and> after < mn_instant x)" for x
    by (simp add: day_minutes_iff)
  have "sorted_wrt (\<lambda>x y. mn_instant x \<le> mn_instant y) ms" unfolding ms(2) by (rule sorted_wrt_take [OF sorted])
  then have "sorted (map mn_instant ms)" by (simp add: sorted_wrt_map)
  moreover have "\<forall>x \<in> set ms. after < mn_instant x \<and> (\<exists>d. due_minute cal tz c d x)"
    using elem set_take_subset [of limit ?L] unfolding ms(2) by blast
  moreover have "length ms = limit \<and> (\<forall>x \<in> set ms. mn_instant x \<le> mn_instant y)"
    if "d \<in> {?a..?b}" "due_minute cal tz c d y" "after < mn_instant y" "y \<notin> set ms" for d y
    using take_minimal [OF sorted] elem that unfolding ms(2) by blast
  ultimately show ?thesis using ms by auto
qed

lemma demo_days_in_order: "days_in_order demo_calendar tz"
proof -
  have "d * 86400000 + int h * 3600000 + int m * 60000 < d' * 86400000 + int h' * 3600000 + int m' * 60000"
    if "d < d'" "h mod 24 = h" "m mod 60 = m" for d d' :: int and h m h' m' :: nat
  proof -
    have "h < 24" "m < 60" using that(2,3) by (metis mod_less_divisor zero_less_numeral)+
    then show ?thesis using that(1) by linarith
  qed
  then show ?thesis
    by (auto simp: days_in_order_def mapMinute_def demo_calendar_def split: if_splits)
qed

theorem next_minutes_first_witness:
  "\<exists>ms. nextMinutes demo_calendar (Cron ''0 12 * * *'' ''UTC'') 0 3 = Inr ms \<and> map mn_instant ms = [43200000, 129600000, 216000000] \<and>
     sorted (map mn_instant ms)"
proof -
  have ok: "case nextMinutes demo_calendar (Cron ''0 12 * * *'' ''UTC'') 0 3 of
      Inl _ \<Rightarrow> False | Inr ms \<Rightarrow> map mn_instant ms = [43200000, 129600000, 216000000]" by code_simp
  then obtain ms where ms: "nextMinutes demo_calendar (Cron ''0 12 * * *'' ''UTC'') 0 3 = Inr ms"
    "map mn_instant ms = [43200000, 129600000, 216000000]" by (auto split: sum.splits)
  have "case canonicalTimezone demo_calendar ''UTC'' of Inl _ \<Rightarrow> False | Inr z \<Rightarrow> z = ''UTC''" by code_simp
  then have z: "canonicalTimezone demo_calendar ''UTC'' = Inr ''UTC''" by (auto split: sum.splits)
  have "succeeds (parseCron ''0 12 * * *'')" by code_simp
  then obtain c where c: "parseCron ''0 12 * * *'' = Inr c" by (rule succeedsE)
  from next_minutes_first [OF ms(1) z c demo_days_in_order] ms show ?thesis by (intro exI [of _ ms]) simp
qed

text \<open>The catch-up minutes are the last ones: they are in order of time, all inside the
  window, all real matching minutes, and every matching minute of the window that is left out is
  older than all of them, and left out only because the limit is reached.\<close>

theorem recent_minutes_last:
  assumes "recentMinutes cal (Cron expr zone) after through limit = Inr ms" and "after < through"
    and "canonicalTimezone cal zone = Inr tz" and "parseCron expr = Inr c" and "days_in_order cal tz"
  shows "length ms \<le> limit \<and> sorted (map mn_instant ms) \<and>
    (\<forall>x \<in> set ms. after < mn_instant x \<and> mn_instant x \<le> through \<and> (\<exists>d. due_minute cal tz c d x)) \<and>
    (\<forall>d \<in> {cal_date cal tz after..cal_date cal tz through}. \<forall>y.
       due_minute cal tz c d y \<and> after < mn_instant y \<and> mn_instant y \<le> through \<and> y \<notin> set ms \<longrightarrow>
       length ms = limit \<and> (\<forall>x \<in> set ms. mn_instant y \<le> mn_instant x))"
proof -
  let ?a = "cal_date cal tz after" and ?b = "cal_date cal tz through"
  let ?L = "concat (map (\<lambda>d. sort_key (\<lambda>m. - mn_instant m) (day_minutes cal tz c (\<lambda>t. after < t \<and> t \<le> through) d)) (rev [?a..?b]))"
  obtain rs where loop: "recent_loop cal tz c after through limit ?a ?b 0 0 [] = Inr rs"
    and ms: "ms = sort_key mn_instant rs" and limit: "0 < limit"
    using assms(1-4) by (auto simp: recentMinutes_def res_simps split: if_splits)
  have rs: "rs = take limit ?L" using recent_loop_Inr [OF loop] limit by auto
  have sorted: "sorted_wrt (\<lambda>x y. mn_instant x \<ge> mn_instant y) ?L" by (rule days_sorted_down [OF assms(5)])
  have elem: "x \<in> set ?L \<longleftrightarrow> (\<exists>d \<in> {?a..?b}. due_minute cal tz c d x \<and> after < mn_instant x \<and> mn_instant x \<le> through)" for x
    by (simp add: day_minutes_iff)
  have set: "set ms = set (take limit ?L)" "length ms = length (take limit ?L)" using ms rs by simp_all
  have "\<forall>x \<in> set ms. after < mn_instant x \<and> mn_instant x \<le> through \<and> (\<exists>d. due_minute cal tz c d x)"
    using elem set_take_subset [of limit ?L] unfolding set(1) by blast
  moreover have "length ms = limit \<and> (\<forall>x \<in> set ms. mn_instant y \<le> mn_instant x)"
    if "d \<in> {?a..?b}" "due_minute cal tz c d y" "after < mn_instant y" "mn_instant y \<le> through" "y \<notin> set ms" for d y
    using take_minimal [OF sorted] elem that unfolding set by blast
  moreover have "length ms \<le> limit" unfolding set(2) by simp
  moreover have "sorted (map mn_instant ms)" unfolding ms by simp
  ultimately show ?thesis by blast
qed

theorem recent_minutes_last_witness:
  "\<exists>ms. recentMinutes demo_calendar (Cron ''0 */6 * * *'' ''UTC'') 1000 86400000 3 = Inr ms \<and>
     map mn_instant ms = [43200000, 64800000, 86400000] \<and> length ms \<le> 3"
proof -
  have ok: "case recentMinutes demo_calendar (Cron ''0 */6 * * *'' ''UTC'') 1000 86400000 3 of
      Inl _ \<Rightarrow> False | Inr ms \<Rightarrow> map mn_instant ms = [43200000, 64800000, 86400000]" by code_simp
  then obtain ms where ms: "recentMinutes demo_calendar (Cron ''0 */6 * * *'' ''UTC'') 1000 86400000 3 = Inr ms"
    "map mn_instant ms = [43200000, 64800000, 86400000]" by (auto split: sum.splits)
  have "case canonicalTimezone demo_calendar ''UTC'' of Inl _ \<Rightarrow> False | Inr z \<Rightarrow> z = ''UTC''" by code_simp
  then have z: "canonicalTimezone demo_calendar ''UTC'' = Inr ''UTC''" by (auto split: sum.splits)
  have "succeeds (parseCron ''0 */6 * * *'')" by code_simp
  then obtain c where c: "parseCron ''0 */6 * * *'' = Inr c" by (rule succeedsE)
  from recent_minutes_last [OF ms(1) _ z c demo_days_in_order] ms show ?thesis by (intro exI [of _ ms]) simp
qed

end
