(* ===== verification/Schedule_Authority.thy ===== *)
theory Schedule_Authority
  imports Schedule_Time
begin

text \<open>
  What a schedule may do on its own: \<^verbatim>\<open>packages/schedules/src/authority.ts\<close> and the
  full resolver \<^verbatim>\<open>requireAuthority\<close> of
  \<^verbatim>\<open>packages/policy/src/authority.ts\<close>, which sends actors of the form
  \<^verbatim>\<open>schedule:<grant>:<occurrence>\<close> here. An execution grant authorises one
  operation of one occurrence, as long as the grant, its source token, the schedule and the server
  all still agree.
\<close>

section \<open>Actors\<close>

definition scheduleActor :: "uuid \<Rightarrow> uuid \<Rightarrow> string" where
  "scheduleActor g oid = ''schedule:'' @ g @ '':'' @ oid"

definition actor_id_char :: "char \<Rightarrow> bool" where
  "actor_id_char c \<longleftrightarrow> is_hex_lower c \<or> c = CHR ''-''"

definition actor_id :: "string \<Rightarrow> bool" where
  "actor_id i \<longleftrightarrow> length i = 36 \<and> list_all actor_id_char i"

text \<open>\<^verbatim>\<open>/^schedule:([a-f0-9-]{36}):([a-f0-9-]{36})$/\<close>\<close>

definition actor_parts :: "string \<Rightarrow> (uuid \<times> uuid) option" where
  "actor_parts a =
     (let g = take 36 (drop 9 a); i = drop 46 a in
      if starts_with ''schedule:'' a \<and> length a = 82 \<and> a ! 45 = CHR '':'' \<and> actor_id g \<and> actor_id i
      then Some (g, i) else None)"

lemma actor_parts_scheduleActor: "actor_id g \<Longrightarrow> actor_id i \<Longrightarrow> actor_parts (scheduleActor g i) = Some (g, i)"
  by (simp add: actor_parts_def scheduleActor_def actor_id_def starts_with_def nth_append)

lemma actor_parts_unique:
  assumes "actor_parts (scheduleActor g i) = Some (g', i')"
  shows "g' = g \<and> i' = i"
proof -
  let ?t = "g @ CHR '':'' # i"
  have a: "drop 9 (scheduleActor g i) = ?t" "drop 46 (scheduleActor g i) = drop 37 ?t"
    by (simp_all add: scheduleActor_def)
  from assms a have g: "actor_id g'" "g' = take 36 ?t" and i: "actor_id i'" "i' = drop 37 ?t"
    by (auto simp: actor_parts_def Let_def split: if_split_asm)
  have no: "actor_id x \<Longrightarrow> CHR '':'' \<notin> set x" for x
    by (auto simp: actor_id_def list_all_iff actor_id_char_def is_hex_lower_def is_digit_def less_eq_char_def)
  have "\<not> length g < 36"
  proof
    assume "length g < 36"
    then have "take 36 ?t = g @ CHR '':'' # take (35 - length g) i" by (simp add: take_Cons')
    then have "CHR '':'' \<in> set (take 36 ?t)" by (simp only: set_append) simp
    then show False using no [OF g(1)] unfolding g(2) by (rule notE [rotated])
  qed
  moreover have "\<not> 36 < length g"
  proof
    assume "36 < length g"
    then have "drop 37 ?t = drop 37 g @ CHR '':'' # i" by (simp add: Suc_le_eq)
    then have "CHR '':'' \<in> set (drop 37 ?t)" by (simp only: set_append) simp
    then show False using no [OF i(1)] unfolding i(2) by (rule notE [rotated])
  qed
  ultimately have "length g = 36" by simp
  with g i show ?thesis by (simp add: take_Cons' drop_Cons')
qed

section \<open>The grant and what it is joined with\<close>

definition schedule_denied :: "'a res" where
  "schedule_denied = Inl (HarborError 401 ''SCHEDULE_GRANT'')"

lemma schedule_denied_neq [simp]: "schedule_denied \<noteq> Inr x" "Inr x \<noteq> schedule_denied"
  by (simp_all add: schedule_denied_def)

definition schedule_find :: "uuid \<Rightarrow> db \<Rightarrow> schedule_row option" where
  "schedule_find i d = find (\<lambda>s. sc_id s = i) (schedules d)"

definition grant_find :: "uuid \<Rightarrow> db \<Rightarrow> grant_row option" where
  "grant_find i d = find (\<lambda>g. gr_id g = i) (schedule_grants d)"

definition occurrence_find :: "uuid \<Rightarrow> db \<Rightarrow> occurrence_row option" where
  "occurrence_find i d = find (\<lambda>r. oc_id r = i) (schedule_occurrences d)"

definition version_find :: "uuid \<Rightarrow> nat \<Rightarrow> db \<Rightarrow> version_row option" where
  "version_find i n d = find (\<lambda>v. sv_schedule v = i \<and> sv_revision v = n) (schedule_versions d)"

lemma schedule_rows_find:
  "schedule_find i d = Some s \<Longrightarrow> s \<in> set (schedules d) \<and> sc_id s = i"
  "grant_find i d = Some g \<Longrightarrow> g \<in> set (schedule_grants d) \<and> gr_id g = i"
  "occurrence_find i d = Some r \<Longrightarrow> r \<in> set (schedule_occurrences d) \<and> oc_id r = i"
  "version_find i n d = Some v \<Longrightarrow> v \<in> set (schedule_versions d) \<and> sv_schedule v = i \<and> sv_revision v = n"
  by (auto simp: schedule_find_def grant_find_def occurrence_find_def version_find_def dest: find_Some_in)

definition source_token_ok :: "env \<Rightarrow> db \<Rightarrow> grant_row \<Rightarrow> uuid \<Rightarrow> bool" where
  "source_token_ok e d g proj \<longleftrightarrow> (case gr_source_pat g of None \<Rightarrow> True
     | Some p \<Rightarrow> exists_row (\<lambda>t. tk_id t = p \<and> \<not> tk_revoked t \<and> now e < tk_expires_at t \<and>
          tk_pin t = identity_pin e \<and> tk_instance t = instance_id e \<and>
          Execute \<in> set (tk_scopes t) \<and> SchedulesManage \<in> set (tk_scopes t) \<and> proj \<in> set (tk_projects t)) (api_tokens d))"

definition grant_usable :: "env \<Rightarrow> db \<Rightarrow> grant_row \<Rightarrow> schedule_row \<Rightarrow> occurrence_row \<Rightarrow> bool" where
  "grant_usable e d g s r \<longleftrightarrow> gr_config_revision g = oc_config_revision r \<and> \<not> gr_revoked g \<and>
     now e < gr_expires_at g \<and> gr_pin g = identity_pin e \<and> gr_instance g = instance_id e \<and>
     meta_identity_pin d = identity_pin e \<and> \<not> meta_emergency d \<and>
     exists_row (\<lambda>p. pj_id p = sc_project s \<and> pj_archived_at p = None) (projects d) \<and>
     source_token_ok e d g (sc_project s) \<and>
     oc_state r \<in> {Accepted, PreparingWorkspace, QueuedTurn, OccRunning}"

type_synonym grant_join = "grant_row \<times> schedule_row \<times> occurrence_row \<times> version_row"

definition grant_join :: "env \<Rightarrow> db \<Rightarrow> uuid \<Rightarrow> uuid \<Rightarrow> grant_join option" where
  "grant_join e d gid oid =
     (case grant_find gid d of None \<Rightarrow> None | Some g \<Rightarrow>
      (case schedule_find (gr_schedule g) d of None \<Rightarrow> None | Some s \<Rightarrow>
       (case occurrence_find oid d of None \<Rightarrow> None | Some r \<Rightarrow>
        (case version_find (oc_schedule r) (oc_config_revision r) d of None \<Rightarrow> None | Some v \<Rightarrow>
           if oc_grant r = Some gid \<and> grant_usable e d g s r then Some (g, s, r, v) else None))))"

fun snapshot_revision :: "occ_snapshot \<Rightarrow> nat option" where
  "snapshot_revision (AdmittedMinute n _ _) = Some n"
| "snapshot_revision (AdmittedManual n _ _ _) = Some n"
| "snapshot_revision _ = None"

definition internal_profile :: "internal_kind \<Rightarrow> profile option \<Rightarrow> profile option" where
  "internal_profile k p = (case k of WorkspaceWork \<Rightarrow> Some WorkspaceWrite | TurnWork \<Rightarrow> p)"

definition schedule_live :: "schedule_row \<Rightarrow> grant_row \<Rightarrow> occurrence_row \<Rightarrow> bool" where
  "schedule_live s g r \<longleftrightarrow> (if gr_one_shot g then oc_kind r = Manual
     else sc_state s = Enabled \<and> sc_active_grant s = Some (gr_id g))"

text \<open>The checks made on the joined row, in the code's order: \<open>grant_verdict\<close> is their tail.\<close>

definition grant_verdict :: "need \<Rightarrow> internal_kind \<Rightarrow> uuid \<Rightarrow> string \<Rightarrow> schedule_row \<Rightarrow> occurrence_row \<Rightarrow>
    version_row \<Rightarrow> profile \<Rightarrow> authority res" where
  "grant_verdict n kind target actor s r v ceiling =
     andThen (authorizePermission (case kind of WorkspaceWork \<Rightarrow> WorkspaceWrite
         | TurnWork \<Rightarrow> cf_profile (sv_config v)) ceiling) (\<lambda>_.
       if (case kind of WorkspaceWork \<Rightarrow> oc_storage_operation r | TurnWork \<Rightarrow> oc_turn r) \<noteq> target
       then schedule_denied
       else if kind = WorkspaceWork \<and> cf_mode (sv_config v) \<noteq> Standalone then schedule_denied
       else if nd_profile n \<noteq> None \<and> nd_profile n \<noteq> Some (cf_profile (sv_config v)) then schedule_denied
       else andThen (case nd_profile n of None \<Rightarrow> Inr ()
                     | Some p \<Rightarrow> authorizePermission p (cf_profile (sv_config v))) (\<lambda>_.
         Inr \<lparr> au_kind = ScheduleAuthority, au_hash = actor, au_csrf = [],
           au_projects = Some [sc_project s], au_scopes = Some [Execute],
           au_profile = Some (cf_profile (sv_config v)), au_token = None \<rparr>))"

definition check_grant :: "env \<Rightarrow> need \<Rightarrow> internal_kind \<Rightarrow> uuid \<Rightarrow> string \<Rightarrow> grant_join \<Rightarrow> authority res" where
  "check_grant e n kind target actor j = (case j of (g, s, r, v) \<Rightarrow>
     if nd_project n \<noteq> Some (sc_project s) \<or> snapshot_revision (oc_snapshot r) \<noteq> Some (oc_config_revision r) \<or>
        sv_prompt_hash v \<noteq> hash e (case oc_prompt r of None \<Rightarrow> [] | Some p \<Rightarrow> p) then schedule_denied
     else if \<not> schedule_live s g r then schedule_denied
     else (case permission_ceiling e of
         None \<Rightarrow> schedule_denied
       | Some ceiling \<Rightarrow>
           if sc_time_fingerprint s \<noteq> time_fingerprint e then schedule_denied
           else grant_verdict n kind target actor s r v ceiling))"

definition requireScheduleAuthority ::
  "env \<Rightarrow> db \<Rightarrow> string \<Rightarrow> need \<Rightarrow> (string \<Rightarrow> need \<Rightarrow> authority res) \<Rightarrow> authority res" where
  "requireScheduleAuthority e d actor n sourceAuthority =
     (case (actor_parts actor, nd_internal n) of
        (Some (gid, oid), Some (kind, target)) \<Rightarrow>
          if nd_scope n \<noteq> Some Execute then schedule_denied
          else (case grant_find gid d of
              None \<Rightarrow> schedule_denied
            | Some g \<Rightarrow>
                andThen (case gr_source_pat g of None \<Rightarrow> Inr None
                  | Some p \<Rightarrow> andThen (sourceAuthority (''pat:'' @ p) \<lparr> nd_project = nd_project n, nd_scope = Some Execute,
                        nd_profile = internal_profile kind (nd_profile n), nd_internal = None \<rparr>) (\<lambda>a. Inr (Some a))) (\<lambda>source.
                if some_holds (\<lambda>a. \<not> some_holds (\<lambda>ss. SchedulesManage \<in> set ss) (au_scopes a)) source
                then schedule_denied
                else andThen (deploymentAdmission d False) (\<lambda>_.
                  case grant_join e d gid oid of
                    None \<Rightarrow> schedule_denied
                  | Some j \<Rightarrow> check_grant e n kind target actor j)))
      | _ \<Rightarrow> schedule_denied)"

definition requireAuthority :: "env \<Rightarrow> db \<Rightarrow> string \<Rightarrow> need \<Rightarrow> authority res" where
  "requireAuthority e d actor n =
     (if starts_with ''schedule:'' actor
      then requireScheduleAuthority e d actor n (direct_authority e d)
      else direct_authority e d actor n)"

text \<open>
  The code passes itself as the source resolver; the source is always a token, so one step of the
  recursion is enough.
\<close>

lemma requireScheduleAuthority_source:
  assumes "\<And>p. src (''pat:'' @ p) = src' (''pat:'' @ p)"
  shows "requireScheduleAuthority e d actor n src = requireScheduleAuthority e d actor n src'"
  by (simp only: requireScheduleAuthority_def assms)

lemma requireAuthority_pat: "requireAuthority e d (''pat:'' @ p) = direct_authority e d (''pat:'' @ p)"
  by (intro ext) (simp add: requireAuthority_def starts_with_def)

lemma requireAuthority_rec:
  "requireAuthority e d actor n =
     (if starts_with ''schedule:'' actor
      then requireScheduleAuthority e d actor n (requireAuthority e d)
      else direct_authority e d actor n)"
  unfolding requireAuthority_def [of e d actor]
  by (simp only: requireScheduleAuthority_source [of "requireAuthority e d" "direct_authority e d", OF requireAuthority_pat])

section \<open>What an authorised schedule actor may rely on\<close>

lemma grant_join_Some:
  assumes "grant_join e d gid oid = Some (g, s, r, v)"
  shows "grant_find gid d = Some g" "schedule_find (gr_schedule g) d = Some s" "occurrence_find oid d = Some r"
    "version_find (oc_schedule r) (oc_config_revision r) d = Some v" "oc_grant r = Some gid" "grant_usable e d g s r"
  using assms by (auto simp: grant_join_def split: option.splits if_splits)

lemma if_denied:
  "(if c then schedule_denied else m) = Inr a \<Longrightarrow> m = Inr a"
  "(if c then schedule_denied else m) = Inr a \<Longrightarrow> \<not> c"
  by (simp_all split: if_split_asm)

lemma authorizePermission_self: "authorizePermission p p = Inr ()"
  by (simp add: authorizePermission_iff)

lemma grant_verdict_Inr:
  assumes "grant_verdict n kind target actor s r v ceiling = Inr a"
  shows "target = (case kind of WorkspaceWork \<Rightarrow> oc_storage_operation r | TurnWork \<Rightarrow> oc_turn r) \<and>
    (kind = WorkspaceWork \<longrightarrow> cf_mode (sv_config v) = Standalone) \<and>
    (nd_profile n = None \<or> nd_profile n = Some (cf_profile (sv_config v))) \<and>
    (case kind of WorkspaceWork \<Rightarrow> WorkspaceWrite | TurnWork \<Rightarrow> cf_profile (sv_config v)) \<le> ceiling \<and>
    a = \<lparr> au_kind = ScheduleAuthority, au_hash = actor, au_csrf = [],
           au_projects = Some [sc_project s], au_scopes = Some [Execute],
           au_profile = Some (cf_profile (sv_config v)), au_token = None \<rparr>"
proof -
  from assms have p: "(case kind of WorkspaceWork \<Rightarrow> WorkspaceWrite | TurnWork \<Rightarrow> cf_profile (sv_config v)) \<le> ceiling"
    unfolding grant_verdict_def andThen_eq_Inr authorizePermission_iff by blast
  from assms show ?thesis
    unfolding grant_verdict_def andThen_eq_Inr using p
    by (auto simp: authorizePermission_self split: if_split_asm)
qed

lemma check_grant_Inr:
  assumes "check_grant e n kind target actor (g, s, r, v) = Inr a"
  shows "nd_project n = Some (sc_project s)" "snapshot_revision (oc_snapshot r) = Some (oc_config_revision r)"
    "sv_prompt_hash v = hash e (case oc_prompt r of None \<Rightarrow> [] | Some p \<Rightarrow> p)" "schedule_live s g r"
    "sc_time_fingerprint s = time_fingerprint e"
    "target = (case kind of WorkspaceWork \<Rightarrow> oc_storage_operation r | TurnWork \<Rightarrow> oc_turn r)"
    "kind = WorkspaceWork \<Longrightarrow> cf_mode (sv_config v) = Standalone"
    "nd_profile n = None \<or> nd_profile n = Some (cf_profile (sv_config v))"
    "\<exists>ceiling. permission_ceiling e = Some ceiling \<and>
       (case kind of WorkspaceWork \<Rightarrow> WorkspaceWrite | TurnWork \<Rightarrow> cf_profile (sv_config v)) \<le> ceiling"
    "au_projects a = Some [sc_project s]" "au_scopes a = Some [Execute]" "au_profile a = Some (cf_profile (sv_config v))"
proof -
  note k = assms [unfolded check_grant_def prod.case]
  show p: "nd_project n = Some (sc_project s)" "snapshot_revision (oc_snapshot r) = Some (oc_config_revision r)"
    "sv_prompt_hash v = hash e (case oc_prompt r of None \<Rightarrow> [] | Some p \<Rightarrow> p)"
    using if_denied(2) [OF k] by simp_all
  from k have k1: "(if \<not> schedule_live s g r then schedule_denied else
      case permission_ceiling e of None \<Rightarrow> schedule_denied
      | Some ceiling \<Rightarrow> if sc_time_fingerprint s \<noteq> time_fingerprint e then schedule_denied
           else grant_verdict n kind target actor s r v ceiling) = Inr a"
    by (rule if_denied(1))
  from if_denied(2) [OF k1] show "schedule_live s g r" by simp
  from k1 have k2: "(case permission_ceiling e of None \<Rightarrow> schedule_denied
      | Some ceiling \<Rightarrow> if sc_time_fingerprint s \<noteq> time_fingerprint e then schedule_denied
           else grant_verdict n kind target actor s r v ceiling) = Inr a" by (rule if_denied(1))
  then obtain ceiling where c: "permission_ceiling e = Some ceiling" by (cases "permission_ceiling e") auto
  from k2 c show "sc_time_fingerprint s = time_fingerprint e" by (auto split: if_split_asm)
  from k2 c have k3: "grant_verdict n kind target actor s r v ceiling = Inr a" by (auto split: if_split_asm)
  note w = grant_verdict_Inr [OF k3]
  show "target = (case kind of WorkspaceWork \<Rightarrow> oc_storage_operation r | TurnWork \<Rightarrow> oc_turn r)"
    "kind = WorkspaceWork \<Longrightarrow> cf_mode (sv_config v) = Standalone"
    "nd_profile n = None \<or> nd_profile n = Some (cf_profile (sv_config v))"
    using w by blast+
  have "a = \<lparr> au_kind = ScheduleAuthority, au_hash = actor, au_csrf = [],
      au_projects = Some [sc_project s], au_scopes = Some [Execute],
      au_profile = Some (cf_profile (sv_config v)), au_token = None \<rparr>"
    using w by blast
  then show "au_projects a = Some [sc_project s]" "au_scopes a = Some [Execute]"
    "au_profile a = Some (cf_profile (sv_config v))" by simp_all
  show "\<exists>ceiling. permission_ceiling e = Some ceiling \<and>
       (case kind of WorkspaceWork \<Rightarrow> WorkspaceWrite | TurnWork \<Rightarrow> cf_profile (sv_config v)) \<le> ceiling"
    using c w by blast
qed

lemma requireScheduleAuthority_Inr:
  assumes "requireScheduleAuthority e d actor n src = Inr a"
  obtains gid oid kind target g s r v where "actor_parts actor = Some (gid, oid)" "nd_internal n = Some (kind, target)"
    "nd_scope n = Some Execute" "grant_join e d gid oid = Some (g, s, r, v)"
    "check_grant e n kind target actor (g, s, r, v) = Inr a" "deploymentAdmission d False = Inr ()"
proof -
  from assms obtain gid oid where p: "actor_parts actor = Some (gid, oid)"
    by (auto simp: requireScheduleAuthority_def split: option.splits)
  from assms p obtain kind target where i: "nd_internal n = Some (kind, target)"
    by (auto simp: requireScheduleAuthority_def split: option.splits)
  note k = assms [unfolded requireScheduleAuthority_def p i prod.case option.case]
  from k have sc: "nd_scope n = Some Execute" by (auto split: if_split_asm)
  from k obtain g where g: "grant_find gid d = Some g" by (auto split: if_split_asm option.split_asm)
  from k [unfolded g option.case] obtain j where "deploymentAdmission d False = Inr ()" "grant_join e d gid oid = Some j"
    "check_grant e n kind target actor j = Inr a"
    by (auto simp: andThen_eq_Inr split: if_split_asm option.split_asm)
  moreover obtain g' s r v where "j = (g', s, r, v)" by (cases j)
  ultimately show thesis using that p i sc by blast
qed

lemma requireAuthority_schedule:
  assumes "requireAuthority e d (scheduleActor gid oid) n = Inr a"
  obtains kind target g s r v where "nd_internal n = Some (kind, target)" "nd_scope n = Some Execute"
    "grant_join e d gid oid = Some (g, s, r, v)" "check_grant e n kind target (scheduleActor gid oid) (g, s, r, v) = Inr a"
    "deploymentAdmission d False = Inr ()"
proof -
  have sw: "starts_with ''schedule:'' (scheduleActor gid oid)" by (simp add: scheduleActor_def starts_with_def)
  with assms have r: "requireScheduleAuthority e d (scheduleActor gid oid) n (direct_authority e d) = Inr a"
    by (simp add: requireAuthority_def)
  then show thesis
  proof (rule requireScheduleAuthority_Inr)
    fix g' o' kind target g s r v
    assume p: "actor_parts (scheduleActor gid oid) = Some (g', o')" and rest: "nd_internal n = Some (kind, target)"
      "nd_scope n = Some Execute" "grant_join e d g' o' = Some (g, s, r, v)"
      "check_grant e n kind target (scheduleActor gid oid) (g, s, r, v) = Inr a" "deploymentAdmission d False = Inr ()"
    from p have "g' = gid \<and> o' = oid" by (rule actor_parts_unique)
    with rest show thesis using that by blast
  qed
qed

text \<open>C25: An actor that names a grant and an occurrence is authorised only inside an internal operation
  that carries its target, and only while everything behind the grant still stands: the occurrence
  belongs to the grant and is in an active state, the target is the operation or turn fixed at
  admission, the grant is unrevoked, unexpired and bound to this instance and identity, the server
  is neither stopped nor in maintenance, the schedule is enabled with this grant as the active one
  (or the grant is the one shot of a manual run), the time zone data are those of activation, the
  prompt still has the hash of its version, and a source token, if any, is still valid and still
  covers schedules in this project. The authority obtained is limited to that project, to execution
  and to the version's profile, which lies below the current ceiling when a turn is run.\<close>

theorem schedule_authority_sound:
  assumes "requireAuthority e d (scheduleActor gid oid) n = Inr a"
  shows "\<exists>kind target g s r v. nd_internal n = Some (kind, target) \<and> nd_scope n = Some Execute \<and>
    g \<in> set (schedule_grants d) \<and> gr_id g = gid \<and> s \<in> set (schedules d) \<and> sc_id s = gr_schedule g \<and>
    r \<in> set (schedule_occurrences d) \<and> oc_id r = oid \<and> oc_grant r = Some gid \<and>
    v \<in> set (schedule_versions d) \<and> sv_schedule v = oc_schedule r \<and> sv_revision v = gr_config_revision g \<and>
    target = (case kind of WorkspaceWork \<Rightarrow> oc_storage_operation r | TurnWork \<Rightarrow> oc_turn r) \<and>
    oc_state r \<in> {Accepted, PreparingWorkspace, QueuedTurn, OccRunning} \<and>
    \<not> gr_revoked g \<and> now e < gr_expires_at g \<and> gr_instance g = instance_id e \<and>
    gr_pin g = identity_pin e \<and> meta_identity_pin d = identity_pin e \<and>
    \<not> meta_emergency d \<and> \<not> dep_maintenance d \<and>
    (if gr_one_shot g then oc_kind r = Manual
     else sc_state s = Enabled \<and> sc_active_grant s = Some gid) \<and>
    sc_time_fingerprint s = time_fingerprint e \<and>
    sv_prompt_hash v = hash e (case oc_prompt r of None \<Rightarrow> [] | Some p \<Rightarrow> p) \<and>
    source_token_ok e d g (sc_project s) \<and>
    au_projects a = Some [sc_project s] \<and> au_scopes a = Some [Execute] \<and>
    au_profile a = Some (cf_profile (sv_config v)) \<and>
    (kind = TurnWork \<longrightarrow> some_holds (\<lambda>c. cf_profile (sv_config v) \<le> c) (permission_ceiling e))"
  using assms
proof (rule requireAuthority_schedule)
  fix kind target g s r v
  assume n: "nd_internal n = Some (kind, target)" "nd_scope n = Some Execute"
    and j: "grant_join e d gid oid = Some (g, s, r, v)"
    and c: "check_grant e n kind target (scheduleActor gid oid) (g, s, r, v) = Inr a"
    and m: "deploymentAdmission d False = Inr ()"
  note J = grant_join_Some [OF j] and C = check_grant_Inr [OF c]
  have R: "g \<in> set (schedule_grants d)" "gr_id g = gid" "s \<in> set (schedules d)" "sc_id s = gr_schedule g"
    "r \<in> set (schedule_occurrences d)" "oc_id r = oid"
    "v \<in> set (schedule_versions d)" "sv_schedule v = oc_schedule r" "sv_revision v = oc_config_revision r"
    using J(1) [THEN schedule_rows_find(2)] J(2) [THEN schedule_rows_find(1)] J(3) [THEN schedule_rows_find(3)]
      J(4) [THEN schedule_rows_find(4)] by blast+
  have U: "\<not> gr_revoked g" "now e < gr_expires_at g" "gr_pin g = identity_pin e" "gr_instance g = instance_id e"
    "meta_identity_pin d = identity_pin e" "\<not> meta_emergency d" "source_token_ok e d g (sc_project s)"
    "oc_state r \<in> {Accepted, PreparingWorkspace, QueuedTurn, OccRunning}" "gr_config_revision g = oc_config_revision r"
    using J(6) unfolding grant_usable_def by blast+
  have m': "\<not> dep_maintenance d" using m by (simp add: deploymentAdmission_eq_Inr)
  have l: "if gr_one_shot g then oc_kind r = Manual else sc_state s = Enabled \<and> sc_active_grant s = Some gid"
    using C(4) R(2) by (simp add: schedule_live_def)
  have rev: "sv_revision v = gr_config_revision g" using R(9) U(9) by simp
  have p: "kind = TurnWork \<longrightarrow> some_holds (\<lambda>c. cf_profile (sv_config v) \<le> c) (permission_ceiling e)"
    using C(9) by auto
  show ?thesis
    by (intro exI [of _ kind] exI [of _ target] exI [of _ g] exI [of _ s] exI [of _ r] exI [of _ v] conjI;
      fact n R J(5) rev C(6) U m' l C(5) C(3) C(10-12) p)
qed

definition demo_turn_need :: need where
  "demo_turn_need = \<lparr> nd_project = Some ''p'', nd_scope = Some Execute, nd_profile = Some WorkspaceWrite,
     nd_internal = Some (TurnWork, ''t2'') \<rparr>"

theorem schedule_authority_sound_witness:
  "\<exists>g. g \<in> set (schedule_grants schedule_db) \<and> gr_id g = demo_gid \<and> \<not> gr_revoked g"
proof -
  have "succeeds (requireAuthority demo_env schedule_db (scheduleActor demo_gid demo_oid) demo_turn_need)"
    by code_simp
  then obtain a where "requireAuthority demo_env schedule_db (scheduleActor demo_gid demo_oid) demo_turn_need = Inr a"
    by (rule succeedsE)
  from schedule_authority_sound [OF this] show ?thesis by (elim exE conjE) (intro exI conjI)
qed

end
