(* ===== verification/Schedule_Capacity.thy ===== *)
theory Schedule_Capacity
  imports Schedule_Authority
begin

text \<open>
  Bounded schedule history: \<^verbatim>\<open>packages/schedules/src/capacity.ts\<close>. Settled occurrences
  make room for new ones, one row at a time, and each row that goes is counted in its schedule's
  \<^verbatim>\<open>last_pruned\<close>. Where a statement has a \<^verbatim>\<open>LIMIT\<close> and no
  \<^verbatim>\<open>ORDER BY\<close> the model takes the rows in insertion order.
\<close>

section \<open>Settled occurrences\<close>

definition occ_unresolved :: "occurrence_row \<Rightarrow> bool" where
  "occ_unresolved r \<longleftrightarrow> oc_state r \<in> {Accepted, PreparingWorkspace, QueuedTurn, OccRunning, OccAttention} \<or>
     (oc_state r = OccUncertain \<and> oc_acknowledged_at r = None)"

definition occ_settled :: "db \<Rightarrow> occurrence_row \<Rightarrow> bool" where
  "occ_settled d r \<longleftrightarrow> \<not> exists_row (\<lambda>c. cm_occurrence c = Some (oc_id r)) (schedule_commands d) \<and>
     (oc_state r \<in> {OccSucceeded, OccFailed, Cancelled, Skipped} \<or>
      (oc_state r = OccUncertain \<and> oc_acknowledged_at r \<noteq> None))"

lemma settled_resolved: "occ_settled d r \<Longrightarrow> \<not> occ_unresolved r"
  by (auto simp: occ_settled_def occ_unresolved_def)

definition own_history :: "uuid \<Rightarrow> db \<Rightarrow> nat" where
  "own_history sid d = count_where (\<lambda>r. oc_schedule r = sid) (schedule_occurrences d)"

definition all_history :: "db \<Rightarrow> nat" where
  "all_history d = length (schedule_occurrences d)"

definition history_quota :: "'a res" where
  "history_quota = Inl (HarborError 429 ''SCHEDULE_HISTORY_QUOTA'')"

lemma history_quota_neq [simp]: "history_quota \<noteq> Inr x" "Inr x \<noteq> history_quota"
  by (simp_all add: history_quota_def)

section \<open>Removing one occurrence\<close>

definition pruned_count :: "schedule_row \<Rightarrow> nat" where
  "pruned_count s = (case sc_last_pruned s of None \<Rightarrow> 0 | Some (_, _, n) \<Rightarrow> n)"

definition drop_occurrence :: "string \<Rightarrow> occurrence_row \<Rightarrow> db \<Rightarrow> db" where
  "drop_occurrence reason r d = d\<lparr>
     schedules := update_where (\<lambda>s. sc_id s = oc_schedule r)
       (\<lambda>s. s\<lparr>sc_last_pruned := Some (oc_intended_at r, reason, pruned_count s + 1)\<rparr>) (schedules d),
     schedule_occurrences := delete_where (\<lambda>x. oc_id x = oc_id r) (schedule_occurrences d)\<rparr>"

definition remove_commands :: "command_row list \<Rightarrow> db \<Rightarrow> db" where
  "remove_commands rows d = d\<lparr>schedule_commands :=
     delete_where (\<lambda>c. exists_row (\<lambda>x. cm_schedule x = cm_schedule c \<and> cm_slot x = cm_slot c) rows) (schedule_commands d)\<rparr>"

definition expired_commands :: "env \<Rightarrow> uuid \<Rightarrow> db \<Rightarrow> command_row list" where
  "expired_commands e sid d =
     take 128 (filter (\<lambda>c. cm_schedule c = sid \<and> cm_retry_until c < now e) (schedule_commands d))"

definition oldest_settled :: "uuid option \<Rightarrow> db \<Rightarrow> occurrence_row option" where
  "oldest_settled sid d =
     (case sort_key (\<lambda>r. (oc_intended_at r, oc_id r))
        (filter (\<lambda>r. occ_settled d r \<and> (sid = None \<or> sid = Some (oc_schedule r))) (schedule_occurrences d)) of
        [] \<Rightarrow> None | r # _ \<Rightarrow> Some r)"

text \<open>The loop of \<^verbatim>\<open>occurrenceCapacity\<close> with \<open>n\<close> attempts left, and the check after it.\<close>

fun capacity_rounds :: "nat \<Rightarrow> uuid \<Rightarrow> db \<Rightarrow> db res" where
  "capacity_rounds 0 sid d = (if all_history d \<ge> 8192 \<or> own_history sid d \<ge> 256 then history_quota else Inr d)"
| "capacity_rounds (Suc n) sid d =
     (if \<not> own_history sid d \<ge> 256 \<and> \<not> all_history d \<ge> 8192 then Inr d
      else (case oldest_settled (if own_history sid d \<ge> 256 then Some sid else None) d of
          None \<Rightarrow> history_quota
        | Some r \<Rightarrow> capacity_rounds n sid (drop_occurrence ''capacity'' r d)))"

definition occurrenceCapacity :: "env \<Rightarrow> uuid \<Rightarrow> db \<Rightarrow> db res" where
  "occurrenceCapacity e sid d = capacity_rounds 2 sid (remove_commands (expired_commands e sid d) d)"

definition NINETY_DAYS :: int where "NINETY_DAYS = 90 * 86400000"

definition aged_occurrences :: "env \<Rightarrow> db \<Rightarrow> occurrence_row list" where
  "aged_occurrences e d = take 256 (sort_key oc_ended_at (filter (\<lambda>r. occ_settled d r \<and>
     some_holds (\<lambda>t. t < now e - NINETY_DAYS) (oc_ended_at r)) (schedule_occurrences d)))"

definition stale_commands :: "env \<Rightarrow> db \<Rightarrow> command_row list" where
  "stale_commands e d = take 512 (sort_key (\<lambda>c. (cm_retry_until c, cm_schedule c, cm_slot c))
     (filter (\<lambda>c. cm_retry_until c < now e) (schedule_commands d)))"

definition pruneScheduleHistory :: "env \<Rightarrow> db \<Rightarrow> db res" where
  "pruneScheduleHistory e d = andThen (deploymentAdmission d True) (\<lambda>_.
     let d1 = remove_commands (stale_commands e d) d in
     Inr (fold (drop_occurrence ''age'') (aged_occurrences e d1) d1))"

section \<open>What a removal does\<close>

definition history_keys :: "db \<Rightarrow> bool" where
  "history_keys d \<longleftrightarrow> distinct (map oc_id (schedule_occurrences d)) \<and> distinct (map sc_id (schedules d)) \<and>
     (\<forall>r \<in> set (schedule_occurrences d). \<exists>s \<in> set (schedules d). sc_id s = oc_schedule r)"

text \<open>Rows that refer to an occurrence: the foreign key of \<^verbatim>\<open>schedule_commands\<close>.\<close>

definition receipts_kept :: "db \<Rightarrow> bool" where
  "receipts_kept d \<longleftrightarrow> (\<forall>c \<in> set (schedule_commands d). \<forall>i. cm_occurrence c = Some i \<longrightarrow>
     (\<exists>r \<in> set (schedule_occurrences d). oc_id r = i))"

definition pruned_total :: "uuid \<Rightarrow> db \<Rightarrow> nat" where
  "pruned_total sid d = (case schedule_find sid d of None \<Rightarrow> 0 | Some s \<Rightarrow> pruned_count s)"

lemma drop_occurrence_simps [simp]:
  "schedule_commands (drop_occurrence w r d) = schedule_commands d"
  "schedule_occurrences (drop_occurrence w r d) = delete_where (\<lambda>x. oc_id x = oc_id r) (schedule_occurrences d)"
  by (simp_all add: drop_occurrence_def)

lemma remove_commands_simps [simp]:
  "schedule_occurrences (remove_commands cs d) = schedule_occurrences d"
  "schedules (remove_commands cs d) = schedules d"
  by (simp_all add: remove_commands_def)

lemma occ_settled_drop [simp]: "occ_settled (drop_occurrence w r d) = occ_settled d"
  by (intro ext) (simp add: occ_settled_def)

lemma count_where_delete_key:
  assumes "distinct (map key rows)" "r \<in> set rows"
  shows "count_where P rows = count_where P (delete_where (\<lambda>x. key x = key r) rows) + (if P r then 1 else 0)"
  using assms
proof (induction rows)
  case (Cons x xs)
  show ?case
  proof (cases "x = r")
    case True
    then have "\<And>y. y \<in> set xs \<Longrightarrow> key y \<noteq> key r" using Cons.prems by (auto simp: image_iff)
    then have "delete_where (\<lambda>y. key y = key r) xs = xs" by (auto simp: delete_where_def)
    then show ?thesis using True by simp
  next
    case False
    then have r: "r \<in> set xs" using Cons.prems by simp
    then have "key x \<noteq> key r" using Cons.prems by (auto simp: image_iff)
    then show ?thesis using Cons.IH Cons.prems r by simp
  qed
qed simp

lemma drop_schedules:
  "map sc_id (schedules (drop_occurrence w r d)) = map sc_id (schedules d)"
  by (simp add: drop_occurrence_def map_update_where_key)

lemma drop_history_keys: "history_keys d \<Longrightarrow> history_keys (drop_occurrence w r d)"
proof -
  assume k: "history_keys d"
  have "sc_id ` set (schedules (drop_occurrence w r d)) = sc_id ` set (schedules d)"
    using drop_schedules [of w r d] by (metis list.set_map)
  then show ?thesis using k unfolding history_keys_def drop_schedules
    by (auto simp: table_simps distinct_delete_where) (metis image_iff)
qed

lemma drop_history_account:
  assumes "history_keys d" "r \<in> set (schedule_occurrences d)"
  shows "pruned_total sid (drop_occurrence w r d) + own_history sid (drop_occurrence w r d) =
    pruned_total sid d + own_history sid d"
proof -
  have own: "own_history sid d = own_history sid (drop_occurrence w r d) + (if oc_schedule r = sid then 1 else 0)"
    using count_where_delete_key [of oc_id "schedule_occurrences d" r "\<lambda>r. oc_schedule r = sid"] assms
    by (simp add: own_history_def history_keys_def)
  have find: "schedule_find sid (drop_occurrence w r d) = map_option (\<lambda>s. if sc_id s = oc_schedule r
      then s\<lparr>sc_last_pruned := Some (oc_intended_at r, w, Suc (pruned_count s))\<rparr> else s) (schedule_find sid d)"
    unfolding schedule_find_def drop_occurrence_def by (simp add: find_update_where_key)
  show ?thesis
  proof (cases "oc_schedule r = sid")
    case True
    then have "\<exists>s. schedule_find sid d = Some s"
      using assms find_is_Some [of _ "schedules d" "\<lambda>s. sc_id s = sid"] by (auto simp: history_keys_def schedule_find_def)
    then obtain s where s: "schedule_find sid d = Some s" by blast
    then have "sc_id s = sid" by (simp add: schedule_rows_find(1))
    with s find own True show ?thesis by (simp add: pruned_total_def pruned_count_def)
  next
    case False
    then have "pruned_total sid (drop_occurrence w r d) = pruned_total sid d"
      using find schedule_rows_find(1) by (fastforce simp: pruned_total_def split: option.splits)
    with own False show ?thesis by simp
  qed
qed

text \<open>What a series of removals of settled occurrences keeps.\<close>

definition only_settled_gone :: "db \<Rightarrow> db \<Rightarrow> bool" where
  "only_settled_gone d d' \<longleftrightarrow>
     set (schedule_occurrences d') \<subseteq> set (schedule_occurrences d) \<and>
     (\<forall>r \<in> set (schedule_occurrences d). r \<notin> set (schedule_occurrences d') \<longrightarrow> occ_settled d r)"

lemma drop_only_settled:
  assumes "history_keys d" "r \<in> set (schedule_occurrences d)" "occ_settled d r"
  shows "only_settled_gone d (drop_occurrence w r d)"
  unfolding only_settled_gone_def
proof (intro conjI subsetI ballI impI)
  fix x assume "x \<in> set (schedule_occurrences (drop_occurrence w r d))"
  then show "x \<in> set (schedule_occurrences d)" by (simp add: set_delete_where)
next
  fix x assume x: "x \<in> set (schedule_occurrences d)" "x \<notin> set (schedule_occurrences (drop_occurrence w r d))"
  then have "oc_id x = oc_id r" by (simp add: set_delete_where)
  then have "x = r" using assms(1,2) x(1) distinct_keyD unfolding history_keys_def by metis
  then show "occ_settled d x" using assms(3) by simp
qed

lemma only_settled_trans:
  assumes "only_settled_gone d d'" "only_settled_gone d' d''" "occ_settled d' = occ_settled d"
  shows "only_settled_gone d d''"
  unfolding only_settled_gone_def
proof (intro conjI ballI impI)
  show "set (schedule_occurrences d'') \<subseteq> set (schedule_occurrences d)"
    using assms(1,2) unfolding only_settled_gone_def by (blast dest: subset_trans)
  fix r assume r: "r \<in> set (schedule_occurrences d)" "r \<notin> set (schedule_occurrences d'')"
  show "occ_settled d r"
  proof (cases "r \<in> set (schedule_occurrences d')")
    case True
    with r(2) assms(2) have "occ_settled d' r" unfolding only_settled_gone_def by blast
    then show ?thesis unfolding assms(3) .
  next
    case False
    with r(1) assms(1) show ?thesis unfolding only_settled_gone_def by blast
  qed
qed

lemma drop_receipts:
  "receipts_kept d \<Longrightarrow> occ_settled d r \<Longrightarrow> receipts_kept (drop_occurrence w r d)"
  unfolding receipts_kept_def drop_occurrence_simps
proof (intro ballI allI impI)
  fix c i
  assume k: "\<forall>c \<in> set (schedule_commands d). \<forall>i. cm_occurrence c = Some i \<longrightarrow>
      (\<exists>r \<in> set (schedule_occurrences d). oc_id r = i)"
    and s: "occ_settled d r" and c: "c \<in> set (schedule_commands d)" "cm_occurrence c = Some i"
  from k c obtain x where "x \<in> set (schedule_occurrences d)" "oc_id x = i" by blast
  moreover have "i \<noteq> oc_id r" using s c by (auto simp: occ_settled_def)
  ultimately show "\<exists>x \<in> set (delete_where (\<lambda>x. oc_id x = oc_id r) (schedule_occurrences d)). oc_id x = i"
    by (auto simp: set_delete_where)
qed

lemma oldest_settled_in:
  assumes "oldest_settled sid d = Some r"
  shows "r \<in> set (schedule_occurrences d)" "occ_settled d r" "sid = None \<or> sid = Some (oc_schedule r)"
proof -
  let ?P = "\<lambda>r. occ_settled d r \<and> (sid = None \<or> sid = Some (oc_schedule r))"
  from assms have "r \<in> set (sort_key (\<lambda>r. (oc_intended_at r, oc_id r)) (filter ?P (schedule_occurrences d)))"
    by (cases "sort_key (\<lambda>r. (oc_intended_at r, oc_id r)) (filter ?P (schedule_occurrences d))")
      (auto simp: oldest_settled_def)
  then have "r \<in> set (schedule_occurrences d) \<and> ?P r" by simp
  then show "r \<in> set (schedule_occurrences d)" "occ_settled d r" "sid = None \<or> sid = Some (oc_schedule r)" by blast+
qed

lemma capacity_rounds_room:
  "capacity_rounds n sid d = Inr d' \<Longrightarrow> own_history sid d' < 256 \<and> all_history d' < 8192"
  by (induction n sid d rule: capacity_rounds.induct) (auto split: if_split_asm option.splits)

lemma capacity_rounds_safe:
  assumes "capacity_rounds n sid d = Inr d'" "history_keys d" "receipts_kept d"
  shows "history_keys d' \<and> receipts_kept d' \<and> only_settled_gone d d' \<and>
    (\<forall>i. pruned_total i d' + own_history i d' = pruned_total i d + own_history i d) \<and>
    all_history d \<le> all_history d' + n"
  using assms
proof (induction n sid d rule: capacity_rounds.induct)
  case (1 sid d)
  then show ?case by (auto simp: only_settled_gone_def split: if_split_asm)
next
  case (2 n sid d)
  show ?case
  proof (cases "\<not> own_history sid d \<ge> 256 \<and> \<not> all_history d \<ge> 8192")
    case True
    with "2.prems" have "d' = d" by simp
    with "2.prems" show ?thesis by (simp add: only_settled_gone_def)
  next
    case False
    define w where "w = (if own_history sid d \<ge> 256 then Some sid else None)"
    from "2.prems" False obtain r where r: "oldest_settled w d = Some r"
      and c: "capacity_rounds n sid (drop_occurrence ''capacity'' r d) = Inr d'"
      unfolding w_def by (auto simp only: capacity_rounds.simps if_False history_quota_neq split: option.splits)
    note i = oldest_settled_in [OF r]
    have IH: "history_keys d' \<and> receipts_kept d' \<and> only_settled_gone (drop_occurrence ''capacity'' r d) d' \<and>
      (\<forall>i. pruned_total i d' + own_history i d' =
        pruned_total i (drop_occurrence ''capacity'' r d) + own_history i (drop_occurrence ''capacity'' r d)) \<and>
      all_history (drop_occurrence ''capacity'' r d) \<le> all_history d' + n"
      using "2.IH" [OF False, folded w_def, OF r c] drop_history_keys "2.prems"(2,3) drop_receipts i(2) by blast
    have "all_history d \<le> all_history (drop_occurrence ''capacity'' r d) + 1"
      using count_where_delete_key [of oc_id "schedule_occurrences d" r "\<lambda>_. True"] "2.prems"(2) i(1)
      by (simp add: all_history_def count_where_def history_keys_def)
    moreover have "only_settled_gone d d'"
      using only_settled_trans [OF drop_only_settled [OF "2.prems"(2) i(1,2)] _ occ_settled_drop] IH by blast
    ultimately show ?thesis using IH drop_history_account [OF "2.prems"(2) i(1)] by simp
  qed
qed

text \<open>The rows that stay, stay in order.\<close>

lemma capacity_rounds_filter:
  "capacity_rounds n sid d = Inr d' \<Longrightarrow> \<exists>P. schedule_occurrences d' = filter P (schedule_occurrences d)"
proof (induction n sid d rule: capacity_rounds.induct)
  case (1 sid d)
  then have "d' = d" by (simp split: if_split_asm)
  then show ?case by (intro exI [of _ "\<lambda>_. True"]) simp
next
  case (2 n sid d)
  show ?case
  proof (cases "\<not> own_history sid d \<ge> 256 \<and> \<not> all_history d \<ge> 8192")
    case True
    with "2.prems" have "d' = d" by simp
    then show ?thesis by (intro exI [of _ "\<lambda>_. True"]) simp
  next
    case False
    with "2.prems" obtain r where r: "oldest_settled (if own_history sid d \<ge> 256 then Some sid else None) d = Some r"
      and c: "capacity_rounds n sid (drop_occurrence ''capacity'' r d) = Inr d'"
      by (auto simp only: capacity_rounds.simps if_False history_quota_neq split: option.splits)
    obtain P where "schedule_occurrences d' = filter P (filter (\<lambda>x. \<not> oc_id x = oc_id r) (schedule_occurrences d))"
      using "2.IH" [OF False r c] by (auto simp: delete_where_def)
    then show ?thesis by (intro exI [of _ "\<lambda>x. \<not> oc_id x = oc_id r \<and> P x"]) (simp add: conj_commute)
  qed
qed

lemma occurrenceCapacity_filter:
  "occurrenceCapacity e sid d = Inr d' \<Longrightarrow> \<exists>P. schedule_occurrences d' = filter P (schedule_occurrences d)"
  using capacity_rounds_filter [of 2 sid "remove_commands (expired_commands e sid d) d"]
  by (simp add: occurrenceCapacity_def)

lemma fold_drop_filter:
  "\<exists>P. schedule_occurrences (fold (drop_occurrence w) rows d) = filter P (schedule_occurrences d)"
proof (induction rows arbitrary: d)
  case Nil
  show ?case by (intro exI [of _ "\<lambda>_. True"]) simp
next
  case (Cons r rows)
  obtain P where "schedule_occurrences (fold (drop_occurrence w) rows (drop_occurrence w r d)) =
      filter P (filter (\<lambda>x. \<not> oc_id x = oc_id r) (schedule_occurrences d))"
    using Cons [of "drop_occurrence w r d"] by (auto simp: delete_where_def)
  then show ?case by (intro exI [of _ "\<lambda>x. \<not> oc_id x = oc_id r \<and> P x"]) (simp add: conj_commute)
qed

lemma count_where_filter_le: "count_where Q (filter P xs) \<le> count_where Q xs"
  by (induction xs) auto

text \<open>A removal writes \<^verbatim>\<open>last_pruned\<close> of one schedule and leaves the other tables alone.\<close>

definition prune_frame :: "db \<Rightarrow> db" where
  "prune_frame d = d\<lparr>schedules := map (\<lambda>s. s\<lparr>sc_last_pruned := None\<rparr>) (schedules d),
     schedule_occurrences := [], schedule_commands := []\<rparr>"

lemma drop_occurrence_frame: "prune_frame (drop_occurrence w r d) = prune_frame d"
  by (simp add: prune_frame_def drop_occurrence_def update_where_def)

lemma remove_commands_frame: "prune_frame (remove_commands cs d) = prune_frame d"
  by (simp add: prune_frame_def remove_commands_def)

lemma capacity_rounds_frame: "capacity_rounds n sid d = Inr d' \<Longrightarrow> prune_frame d' = prune_frame d"
proof (induction n sid d rule: capacity_rounds.induct)
  case (1 sid d)
  then show ?case by (simp split: if_split_asm)
next
  case (2 n sid d)
  show ?case
  proof (cases "\<not> own_history sid d \<ge> 256 \<and> \<not> all_history d \<ge> 8192")
    case True
    with "2.prems" show ?thesis by simp
  next
    case False
    with "2.prems" obtain r where r: "oldest_settled (if own_history sid d \<ge> 256 then Some sid else None) d = Some r"
      and c: "capacity_rounds n sid (drop_occurrence ''capacity'' r d) = Inr d'"
      by (auto simp only: capacity_rounds.simps if_False history_quota_neq split: option.splits)
    show ?thesis using "2.IH" [OF False r c] by (simp only: drop_occurrence_frame)
  qed
qed

lemma occurrenceCapacity_frame: "occurrenceCapacity e sid d = Inr d' \<Longrightarrow> prune_frame d' = prune_frame d"
  unfolding occurrenceCapacity_def by (drule capacity_rounds_frame) (simp only: remove_commands_frame)

lemma fold_drop_frame: "prune_frame (fold (drop_occurrence w) rows d) = prune_frame d"
  by (induction rows arbitrary: d) (simp_all add: drop_occurrence_frame)

lemma pruneScheduleHistory_frame: "pruneScheduleHistory e d = Inr d' \<Longrightarrow> prune_frame d' = prune_frame d"
  by (auto simp: pruneScheduleHistory_def andThen_eq_Inr Let_def fold_drop_frame remove_commands_frame)

section \<open>The interface of a history\<close>

text \<open>
  Operations that thin out a history: they drop settled occurrences only, keep the receipts that
  point at them, and account for what they drop.
\<close>

locale thinning =
  fixes op :: "'a \<Rightarrow> db \<Rightarrow> failure + db"
  assumes op_thins: "op x d = Inr d' \<Longrightarrow> history_keys d \<Longrightarrow> receipts_kept d \<Longrightarrow>
    history_keys d' \<and> receipts_kept d' \<and>
    (\<forall>r \<in> set (schedule_occurrences d). occ_unresolved r \<longrightarrow> r \<in> set (schedule_occurrences d')) \<and>
    (\<forall>i. pruned_total i d' + own_history i d' = pruned_total i d + own_history i d)"
begin

lemma serve_thins:
  assumes "history_keys d" "receipts_kept d"
  shows "history_keys (serve op xs d) \<and> receipts_kept (serve op xs d) \<and>
    (\<forall>r \<in> set (schedule_occurrences d). occ_unresolved r \<longrightarrow> r \<in> set (schedule_occurrences (serve op xs d))) \<and>
    (\<forall>i. pruned_total i (serve op xs d) + own_history i (serve op xs d) = pruned_total i d + own_history i d)"
  using assms
proof (induction xs arbitrary: d)
  case Nil
  then show ?case by simp
next
  case (Cons x xs)
  show ?case
  proof (cases "op x d")
    case (Inl f)
    with Cons show ?thesis by simp
  next
    case (Inr d')
    note t = op_thins [OF Inr Cons.prems]
    with Cons.IH [of d'] Inr show ?thesis by simp
  qed
qed

end

lemma remove_commands_keeps:
  "history_keys d \<Longrightarrow> history_keys (remove_commands cs d)"
  "receipts_kept d \<Longrightarrow> receipts_kept (remove_commands cs d)"
  "pruned_total i (remove_commands cs d) = pruned_total i d"
  "own_history i (remove_commands cs d) = own_history i d"
  "all_history (remove_commands cs d) = all_history d"
  by (auto simp: history_keys_def receipts_kept_def remove_commands_def pruned_total_def schedule_find_def
    own_history_def all_history_def table_simps)

lemma only_settled_unresolved:
  assumes "only_settled_gone d d'" "r \<in> set (schedule_occurrences d)" "occ_unresolved r"
  shows "r \<in> set (schedule_occurrences d')"
  using assms settled_resolved unfolding only_settled_gone_def by blast

lemma occurrenceCapacity_safe:
  assumes "occurrenceCapacity e sid d = Inr d'" "history_keys d" "receipts_kept d"
  shows "history_keys d'" "receipts_kept d'"
    "\<And>r. r \<in> set (schedule_occurrences d) \<Longrightarrow> occ_unresolved r \<Longrightarrow> r \<in> set (schedule_occurrences d')"
    "\<And>i. pruned_total i d' + own_history i d' = pruned_total i d + own_history i d"
    "all_history d \<le> all_history d' + 2"
    "set (schedule_occurrences d') \<subseteq> set (schedule_occurrences d)"
proof -
  note c = capacity_rounds_safe [OF assms(1) [unfolded occurrenceCapacity_def]
      remove_commands_keeps(1) [OF assms(2)] remove_commands_keeps(2) [OF assms(3)]]
  show "history_keys d'" "receipts_kept d'" "\<And>i. pruned_total i d' + own_history i d' = pruned_total i d + own_history i d"
    "all_history d \<le> all_history d' + 2"
    using c by (simp_all add: remove_commands_keeps)
  show "set (schedule_occurrences d') \<subseteq> set (schedule_occurrences d)" using c by (simp add: only_settled_gone_def)
  show "\<And>r. r \<in> set (schedule_occurrences d) \<Longrightarrow> occ_unresolved r \<Longrightarrow> r \<in> set (schedule_occurrences d')"
    using c only_settled_unresolved by (metis remove_commands_simps(1))
qed

lemma fold_drop_safe:
  assumes "history_keys d" "receipts_kept d" "distinct (map oc_id rows)"
    "\<And>r. r \<in> set rows \<Longrightarrow> r \<in> set (schedule_occurrences d) \<and> occ_settled d r"
  shows "history_keys (fold (drop_occurrence w) rows d) \<and> receipts_kept (fold (drop_occurrence w) rows d) \<and>
    set (schedule_occurrences (fold (drop_occurrence w) rows d)) = set (schedule_occurrences d) - set rows \<and>
    (\<forall>i. pruned_total i (fold (drop_occurrence w) rows d) + own_history i (fold (drop_occurrence w) rows d) =
      pruned_total i d + own_history i d)"
  using assms
proof (induction rows arbitrary: d)
  case Nil
  then show ?case by simp
next
  case (Cons r rows)
  let ?d = "drop_occurrence w r d"
  have r: "r \<in> set (schedule_occurrences d)" "occ_settled d r" using Cons.prems(4) by auto
  have occ: "set (schedule_occurrences ?d) = set (schedule_occurrences d) - {r}"
    using Cons.prems(1) r(1) unfolding history_keys_def by (auto simp: set_delete_where dest: distinct_keyD)
  have ne: "r \<notin> set rows" using Cons.prems(3) by auto
  have "history_keys ?d" "receipts_kept ?d" using Cons.prems(1,2) r(2) drop_history_keys drop_receipts by blast+
  moreover have "\<And>x. x \<in> set rows \<Longrightarrow> x \<in> set (schedule_occurrences ?d) \<and> occ_settled ?d x"
    using Cons.prems(4) occ ne by (metis DiffI list.set_intros(2) occ_settled_drop singletonD)
  ultimately show ?case using Cons.IH [of ?d] Cons.prems(3) occ drop_history_account [OF Cons.prems(1) r(1)] by auto
qed

lemma aged_occurrences_in:
  assumes "r \<in> set (aged_occurrences e d)"
  shows "r \<in> set (schedule_occurrences d)" "occ_settled d r" "\<exists>t. oc_ended_at r = Some t \<and> t < now e - NINETY_DAYS"
  using in_set_takeD [OF assms [unfolded aged_occurrences_def]] by auto

lemma aged_occurrences_distinct:
  assumes "history_keys d"
  shows "distinct (map oc_id (aged_occurrences e d))"
proof -
  have "distinct (map oc_id (filter (\<lambda>r. occ_settled d r \<and>
     some_holds (\<lambda>t. t < now e - NINETY_DAYS) (oc_ended_at r)) (schedule_occurrences d)))"
    using assms by (intro distinct_map_filter) (simp add: history_keys_def)
  then have "distinct (map oc_id (sort_key oc_ended_at (filter (\<lambda>r. occ_settled d r \<and>
     some_holds (\<lambda>t. t < now e - NINETY_DAYS) (oc_ended_at r)) (schedule_occurrences d))))"
    by (simp add: distinct_map)
  then show ?thesis unfolding aged_occurrences_def take_map [symmetric] by (rule distinct_take)
qed

lemma pruneScheduleHistory_safe:
  assumes "pruneScheduleHistory e d = Inr d'" "history_keys d" "receipts_kept d"
  shows "history_keys d'" "receipts_kept d'"
    "\<And>r. r \<in> set (schedule_occurrences d) \<Longrightarrow> r \<notin> set (schedule_occurrences d') \<Longrightarrow>
      \<not> occ_unresolved r \<and> (\<exists>t. oc_ended_at r = Some t \<and> t < now e - NINETY_DAYS)"
    "\<And>i. pruned_total i d' + own_history i d' = pruned_total i d + own_history i d"
proof -
  define d1 where "d1 = remove_commands (stale_commands e d) d"
  have d': "d' = fold (drop_occurrence ''age'') (aged_occurrences e d1) d1"
    using assms(1) by (auto simp: pruneScheduleHistory_def andThen_eq_Inr Let_def d1_def)
  have k: "history_keys d1" "receipts_kept d1" using assms(2,3) by (simp_all add: d1_def remove_commands_keeps)
  have o: "schedule_occurrences d1 = schedule_occurrences d" by (simp add: d1_def)
  note f = fold_drop_safe [OF k aged_occurrences_distinct [OF k(1)], of e "''age''", folded d'] 
  have f': "history_keys d' \<and> receipts_kept d' \<and>
    set (schedule_occurrences d') = set (schedule_occurrences d1) - set (aged_occurrences e d1) \<and>
    (\<forall>i. pruned_total i d' + own_history i d' = pruned_total i d1 + own_history i d1)"
    by (rule f) (use aged_occurrences_in in blast)
  show "history_keys d'" "receipts_kept d'" using f' by blast+
  show "\<And>i. pruned_total i d' + own_history i d' = pruned_total i d + own_history i d"
    using f' by (simp add: d1_def remove_commands_keeps)
  show "\<not> occ_unresolved r \<and> (\<exists>t. oc_ended_at r = Some t \<and> t < now e - NINETY_DAYS)"
    if "r \<in> set (schedule_occurrences d)" "r \<notin> set (schedule_occurrences d')" for r
  proof -
    from f' have eq: "set (schedule_occurrences d') = set (schedule_occurrences d) - set (aged_occurrences e d1)"
      unfolding o by (elim conjE)
    from that have a: "r \<in> set (aged_occurrences e d1)" unfolding eq by simp
    from aged_occurrences_in(2) [OF a] aged_occurrences_in(3) [OF a] show ?thesis by (intro conjI settled_resolved)
  qed
qed

datatype thin_request = MakeRoom uuid | PruneAged

fun thin_op :: "env \<Rightarrow> thin_request \<Rightarrow> db \<Rightarrow> db res" where
  "thin_op e (MakeRoom sid) d = occurrenceCapacity e sid d"
| "thin_op e PruneAged d = pruneScheduleHistory e d"

interpretation history: thinning "thin_op e" for e
proof
  fix x d d'
  assume o: "thin_op e x d = Inr d'" and k: "history_keys d" "receipts_kept d"
  show "history_keys d' \<and> receipts_kept d' \<and>
    (\<forall>r \<in> set (schedule_occurrences d). occ_unresolved r \<longrightarrow> r \<in> set (schedule_occurrences d')) \<and>
    (\<forall>i. pruned_total i d' + own_history i d' = pruned_total i d + own_history i d)"
  proof (cases x)
    case (MakeRoom sid)
    with o have "occurrenceCapacity e sid d = Inr d'" by simp
    note s = occurrenceCapacity_safe [OF this k]
    show ?thesis by (intro conjI ballI impI allI s)
  next
    case PruneAged
    with o have "pruneScheduleHistory e d = Inr d'" by simp
    note s = pruneScheduleHistory_safe [OF this k]
    have "r \<in> set (schedule_occurrences d')" if "r \<in> set (schedule_occurrences d)" "occ_unresolved r" for r
      using s(3) [of r] that by argo
    with s(1,2,4) show ?thesis by simp
  qed
qed

section \<open>Properties\<close>

text \<open>When the capacity check lets an admission go on, there is room for it: the schedule keeps
  fewer than 256 occurrences and the server fewer than 8192. To get there it dropped at most two
  occurrences, each of them settled and not referred to by a retained control receipt, and every
  unresolved occurrence is still there.\<close>

theorem capacity_makes_room:
  assumes "occurrenceCapacity e sid d = Inr d'" "history_keys d" "receipts_kept d"
  shows "own_history sid d' < 256 \<and> all_history d' < 8192 \<and> all_history d \<le> all_history d' + 2 \<and>
    set (schedule_occurrences d') \<subseteq> set (schedule_occurrences d) \<and> receipts_kept d' \<and>
    (\<forall>r \<in> set (schedule_occurrences d). occ_unresolved r \<longrightarrow> r \<in> set (schedule_occurrences d'))"
  using capacity_rounds_room [OF assms(1) [unfolded occurrenceCapacity_def]] occurrenceCapacity_safe [OF assms] by blast

theorem capacity_makes_room_witness:
  "\<exists>d'. occurrenceCapacity demo_env ''c'' schedule_db = Inr d' \<and> own_history ''c'' d' < 256 \<and>
     (\<exists>r \<in> set (schedule_occurrences d'). oc_id r = demo_oid)"
proof -
  have "succeeds (occurrenceCapacity demo_env ''c'' schedule_db)" by code_simp
  then obtain d' where d': "occurrenceCapacity demo_env ''c'' schedule_db = Inr d'" by (rule succeedsE)
  have "history_keys schedule_db" "receipts_kept schedule_db"
    by (simp_all add: history_keys_def receipts_kept_def demo_defs)
  note r = capacity_makes_room [OF d' this]
  have "demo_occurrence \<in> set (schedule_occurrences schedule_db)" "occ_unresolved demo_occurrence"
    "oc_id demo_occurrence = demo_oid"
    by (simp_all add: demo_defs occ_unresolved_def)
  with r d' show ?thesis by blast
qed

text \<open>History is thinned without losing count. Whatever sequence of capacity checks and ageing runs
  is made, for every schedule the number of occurrences it still has plus the number recorded as
  pruned stays the same, no unresolved occurrence ever goes, and every retained receipt still finds
  its occurrence.\<close>

theorem history_accounted:
  assumes "history_keys d" "receipts_kept d"
  shows "pruned_total sid (serve (thin_op e) xs d) + own_history sid (serve (thin_op e) xs d) =
      pruned_total sid d + own_history sid d \<and>
    receipts_kept (serve (thin_op e) xs d) \<and>
    (\<forall>r \<in> set (schedule_occurrences d). occ_unresolved r \<longrightarrow> r \<in> set (schedule_occurrences (serve (thin_op e) xs d)))"
  using history.serve_thins [OF assms, of e xs] by blast

definition aged_db :: db where
  "aged_db = schedule_db\<lparr>schedule_occurrences := [demo_occurrence\<lparr>oc_state := OccSucceeded, oc_ended_at := Some (-8000000000)\<rparr>]\<rparr>"

theorem history_accounted_witness:
  "pruned_total ''c'' (serve (thin_op demo_env) [PruneAged] aged_db) = 1"
proof -
  have "history_keys aged_db" "receipts_kept aged_db"
    by (simp_all add: history_keys_def receipts_kept_def aged_db_def demo_defs)
  note h = history_accounted [OF this, of "''c''" demo_env "[PruneAged]"]
  have "pruned_total ''c'' aged_db + own_history ''c'' aged_db = 1" by code_simp
  moreover have "own_history ''c'' (serve (thin_op demo_env) [PruneAged] aged_db) = 0" by code_simp
  ultimately show ?thesis using h by linarith
qed

end
