(* ===== verification/Storage.thy ===== *)
theory Storage
  imports Policy
begin

text \<open>
  Conversations and their operations, from \<^verbatim>\<open>packages/storage/src\<close>: the lock order over
  project, workspace and session (\<^verbatim>\<open>session-lock.ts\<close>), the event log and its bounded
  replay (\<^verbatim>\<open>index.ts\<close>, \<^verbatim>\<open>replay.ts\<close>), the cached session state, the history
  capacity that reserves a slot for every control (\<^verbatim>\<open>capacity.ts\<close>), turn cancellation
  (\<^verbatim>\<open>cancellation.ts\<close>), the state of conversation runtimes
  (\<^verbatim>\<open>conversation-runtimes.ts\<close>) and periodic maintenance.
\<close>

section \<open>Transactions\<close>

text \<open>\<^verbatim>\<open>BEGIN\<close>, the body, \<^verbatim>\<open>COMMIT\<close>; an exception rolls back and is rethrown.\<close>

definition transaction :: "(db \<Rightarrow> ('a \<times> db) res) \<Rightarrow> db \<Rightarrow> 'a res \<times> db" where
  "transaction f d = (case f d of Inl e \<Rightarrow> (Inl e, d) | Inr (r, d') \<Rightarrow> (Inr r, d'))"

lemma transaction_simps [simp]:
  "f d = Inl e \<Longrightarrow> transaction f d = (Inl e, d)"
  "f d = Inr (r, d') \<Longrightarrow> transaction f d = (Inr r, d')"
  by (simp_all add: transaction_def)

section \<open>Locks on a conversation and its parents\<close>

datatype lock = ProjectLock uuid | WorkspaceLock uuid | SessionLock uuid

type_synonym binding = "uuid \<times> uuid \<times> uuid" \<comment> \<open>session, project, workspace\<close>

definition session_bindings :: "uuid list \<Rightarrow> db \<Rightarrow> binding list" where
  "session_bindings ids d =
     map (\<lambda>s. (se_id s, se_project s, se_workspace s))
       (sort_key se_id (filter (\<lambda>s. se_id s \<in> set ids) (sessions d)))"

text \<open>
  \<open>before\<close> is the database when the function is entered, \<open>after\<close> the one it sees once the row
  locks are granted: another transaction may have committed in between. The result is the list of
  locks in the order they are taken.
\<close>

definition lockSessionResources :: "db \<Rightarrow> db \<Rightarrow> uuid list \<Rightarrow> lock list res" where
  "lockSessionResources before after ids =
     (let selected = sort (remdups ids) in
      if selected = [] then Inr []
      else let bs = session_bindings selected before in
        if length bs \<noteq> length selected then Inl (HarborError 404 ''NOT_FOUND'')
        else let ps = sort (remdups (map (fst \<circ> snd) bs));
                 ws = sort (remdups (map (snd \<circ> snd) bs));
                 parents = map (\<lambda>w. (ws_id w, ws_project w))
                   (sort_key ws_id (filter (\<lambda>w. ws_id w \<in> set ws) (workspaces after)));
                 bs' = session_bindings selected after in
          if \<exists>(s, p, w) \<in> set bs. map_of parents w \<noteq> Some p
          then Inl (Crash ''Conversation resource binding changed'')
          else if length bs' \<noteq> length bs \<or> bs' \<noteq> bs
          then Inl (Crash ''Conversation resource binding changed'')
          else Inr (map ProjectLock ps @ map WorkspaceLock ws @ map SessionLock selected))"

definition lockSessionResource :: "db \<Rightarrow> uuid \<Rightarrow> unit res" where
  "lockSessionResource d i = andThen (lockSessionResources d d [i]) (\<lambda>_. Inr ())"

text \<open>Locks are totally ordered: projects, then workspaces, then sessions, each by id.\<close>

fun lock_rank :: "lock \<Rightarrow> nat \<times> uuid" where
  "lock_rank (ProjectLock i) = (0, i)"
| "lock_rank (WorkspaceLock i) = (1, i)"
| "lock_rank (SessionLock i) = (2, i)"

lemma lockSessionResources_Inr:
  assumes "lockSessionResources before after ids = Inr ls"
  shows "sorted (map lock_rank ls) \<and> distinct ls"
proof -
  have sorted_rank: "sorted (map lock_rank (map ProjectLock ps @ map WorkspaceLock ws @ map SessionLock ss))"
    if "sorted ps" "sorted ws" "sorted ss" for ps ws ss
    using that by (auto simp: sorted_append sorted_map less_eq_prod_def comp_def)
  show ?thesis
    using assms
    by (auto simp: lockSessionResources_def Let_def distinct_map inj_on_def
        intro!: sorted_rank split: if_splits)
qed

lemma lockSessionResources_stable:
  assumes "lockSessionResources before after ids = Inr ls" and "i \<in> set ids"
    and "s \<in> set (sessions after)" and "se_id s = i"
  shows "\<exists>s0 \<in> set (sessions before). se_id s0 = i \<and> se_project s0 = se_project s \<and>
    se_workspace s0 = se_workspace s"
proof -
  let ?sel = "sort (remdups ids)"
  have "set ?sel \<noteq> {}" using assms(2) by auto
  then have "?sel \<noteq> []" by (metis set_empty)
  then have eq: "session_bindings ?sel after = session_bindings ?sel before"
    using assms(1) by (auto simp: lockSessionResources_def Let_def split: if_splits)
  have "(i, se_project s, se_workspace s) \<in> set (session_bindings ?sel after)"
    using assms(2-4) by (auto simp: session_bindings_def)
  with eq show ?thesis by (auto simp: session_bindings_def)
qed

section \<open>The event log\<close>

definition session_find :: "uuid \<Rightarrow> db \<Rightarrow> session_row option" where
  "session_find i d = find (\<lambda>s. se_id s = i) (sessions d)"

definition update_session :: "uuid \<Rightarrow> (session_row \<Rightarrow> session_row) \<Rightarrow> db \<Rightarrow> db" where
  "update_session i f d = d\<lparr>sessions := update_where (\<lambda>s. se_id s = i) f (sessions d)\<rparr>"

definition REPLAY_LIMIT :: nat where "REPLAY_LIMIT = 2000"

definition replay_expired :: "time \<Rightarrow> session_row \<Rightarrow> event_row \<Rightarrow> bool" where
  "replay_expired at s v \<longleftrightarrow> ev_session v = se_id s \<and>
     (ev_sequence v + REPLAY_LIMIT \<le> se_sequence s \<or> ev_created_at v < at - 7 * 86400000)"

definition pruneReplay :: "time \<Rightarrow> uuid \<Rightarrow> db \<Rightarrow> (nat \<times> nat) option \<times> db" where
  "pruneReplay at i d =
     (case session_find i d of
        None \<Rightarrow> (None, d)
      | Some s \<Rightarrow>
          let removed = filter (replay_expired at s) (events d);
              floor = foldr max (map ev_sequence removed) (se_replay_floor s)
          in (Some (se_sequence s, floor),
              update_session i (\<lambda>s. s\<lparr>se_replay_floor := floor\<rparr>)
                (d\<lparr>events := delete_where (replay_expired at s) (events d)\<rparr>)))"

definition event :: "env \<Rightarrow> uuid \<Rightarrow> string \<Rightarrow> json \<Rightarrow> db \<Rightarrow> (nat \<times> db) res" where
  "event e i type data d =
     andThen (first_row (Crash ''TypeError'') (session_find i d)) (\<lambda>s.
       let seq = Suc (se_sequence s) in
       if \<exists>v \<in> set (events d). ev_session v = i \<and> ev_sequence v = seq
       then Inl (Crash ''events_pkey'')
       else Inr (seq, snd (pruneReplay (now e) i
         (update_session i (\<lambda>s. s\<lparr>se_sequence := seq, se_updated_at := now e\<rparr>)
           (d\<lparr>events := events d @ [\<lparr> ev_session = i, ev_sequence = seq, ev_type = type,
               ev_data = data, ev_created_at = now e \<rparr>]\<rparr>)))))"

subsection \<open>Events are never lost above the replay floor\<close>

definition event_seqs :: "uuid \<Rightarrow> db \<Rightarrow> nat set" where
  "event_seqs i d = ev_sequence ` {v \<in> set (events d). ev_session v = i}"

definition replay_ok :: "db \<Rightarrow> bool" where
  "replay_ok d \<longleftrightarrow> distinct (map se_id (sessions d)) \<and>
     distinct (map (\<lambda>v. (ev_session v, ev_sequence v)) (events d)) \<and>
     (\<forall>s \<in> set (sessions d). se_replay_floor s \<le> se_sequence s \<and>
        event_seqs (se_id s) d \<subseteq> {..se_sequence s} \<and>
        {se_replay_floor s<..se_sequence s} \<subseteq> event_seqs (se_id s) d)"

lemma session_find_Some:
  "session_find i d = Some s \<Longrightarrow> s \<in> set (sessions d) \<and> se_id s = i"
  by (auto simp: session_find_def dest: find_Some_in)

lemma session_find_update [simp]:
  assumes "\<And>s. se_id (f s) = se_id s"
  shows "session_find j (update_session i f d) =
    map_option (\<lambda>s. if se_id s = i then f s else s) (session_find j d)"
  using assms by (simp add: session_find_def update_session_def find_update_where_key)

lemma session_find_events [simp]: "session_find i (d\<lparr>events := x\<rparr>) = session_find i d"
  by (simp add: session_find_def)

lemma update_session_events [simp]: "events (update_session i f d) = events d"
  by (simp add: update_session_def)

lemma sessions_update_session [simp]:
  "sessions (update_session i f d) = update_where (\<lambda>s. se_id s = i) f (sessions d)"
  by (simp add: update_session_def)

lemma event_seqs_append:
  "event_seqs j (d\<lparr>events := events d @ [v]\<rparr>) =
    (if ev_session v = j then insert (ev_sequence v) (event_seqs j d) else event_seqs j d)"
proof -
  have "{x \<in> set (events d @ [v]). ev_session x = j} =
    (if ev_session v = j then insert v {x \<in> set (events d). ev_session x = j}
     else {x \<in> set (events d). ev_session x = j})" by auto
  then show ?thesis by (simp add: event_seqs_def)
qed

lemma event_seqs_update_session [simp]: "event_seqs j (update_session i f d) = event_seqs j d"
  by (simp add: event_seqs_def)

lemma in_event_seqs: "v \<in> set (events d) \<Longrightarrow> ev_sequence v \<in> event_seqs (ev_session v) d"
  by (simp add: event_seqs_def)

lemma replay_ok_session_eq:
  assumes "replay_ok d" and "session_find i d = Some s" and "t \<in> set (sessions d)" and "se_id t = i"
  shows "t = s"
proof -
  have "distinct (map se_id (sessions d))" using assms(1) by (simp add: replay_ok_def)
  moreover have "s \<in> set (sessions d)" "se_id s = i" using session_find_Some [OF assms(2)] by auto
  ultimately show ?thesis using assms(3,4) by (auto intro: distinct_keyD)
qed

lemma foldr_max_ge: "(n::nat) \<le> foldr max ns n" "m \<in> set ns \<Longrightarrow> m \<le> foldr max ns n"
  by (induction ns) auto

lemma foldr_max_le: "n \<le> b \<Longrightarrow> (\<And>m. m \<in> set ns \<Longrightarrow> m \<le> b) \<Longrightarrow> foldr max ns n \<le> (b::nat)"
  by (induction ns) auto

lemma pruneReplay_replay_ok:
  assumes "replay_ok d" shows "replay_ok (snd (pruneReplay at i d))"
proof (cases "session_find i d")
  case None then show ?thesis using assms by (simp add: pruneReplay_def)
next
  case (Some s)
  then have s: "s \<in> set (sessions d)" "se_id s = i" by (auto dest: session_find_Some)
  let ?rem = "filter (replay_expired at s) (events d)"
  let ?fl = "foldr max (map ev_sequence ?rem) (se_replay_floor s)"
  let ?d' = "snd (pruneReplay at i d)"
  have d': "?d' = update_session i (\<lambda>s. s\<lparr>se_replay_floor := ?fl\<rparr>)
      (d\<lparr>events := delete_where (replay_expired at s) (events d)\<rparr>)"
    using Some by (simp add: pruneReplay_def Let_def)
  have evs: "set (events ?d') = {v \<in> set (events d). \<not> replay_expired at s v}"
    by (simp add: d' set_delete_where)
  have same: "t = s" if "t \<in> set (sessions d)" "se_id t = i" for t
    using replay_ok_session_eq [OF assms Some that] .
  have bound: "?fl \<le> se_sequence s"
  proof (rule foldr_max_le)
    show "se_replay_floor s \<le> se_sequence s" using assms s(1) unfolding replay_ok_def by blast
    fix m assume "m \<in> set (map ev_sequence ?rem)"
    then have "m \<in> event_seqs (se_id s) d" by (auto simp: replay_expired_def event_seqs_def)
    then show "m \<le> se_sequence s" using assms s(1) unfolding replay_ok_def by blast
  qed
  have kept: "{?fl<..se_sequence s} \<subseteq> event_seqs i ?d'"
  proof
    fix q assume q: "q \<in> {?fl<..se_sequence s}"
    then have "q \<in> {se_replay_floor s<..se_sequence s}"
      using foldr_max_ge(1)[of "se_replay_floor s"] by (auto intro: le_less_trans)
    then have "q \<in> event_seqs i d" using assms s unfolding replay_ok_def by blast
    then obtain v where v: "v \<in> set (events d)" "ev_session v = i" "ev_sequence v = q"
      by (auto simp: event_seqs_def)
    have "\<not> replay_expired at s v"
    proof
      assume "replay_expired at s v"
      then have "q \<le> ?fl" using v by (intro foldr_max_ge(2)) auto
      then show False using q by simp
    qed
    then show "q \<in> event_seqs i ?d'" using v by (auto simp: event_seqs_def evs)
  qed
  have other: "event_seqs j ?d' = event_seqs j d" if "j \<noteq> i" for j
    using that s by (auto simp: event_seqs_def evs replay_expired_def)
  have sub: "event_seqs j ?d' \<subseteq> event_seqs j d" for j by (auto simp: event_seqs_def evs)
  show ?thesis unfolding replay_ok_def
  proof (intro conjI ballI)
    show "distinct (map se_id (sessions ?d'))"
      using assms by (simp add: d' map_update_where_key replay_ok_def)
    show "distinct (map (\<lambda>v. (ev_session v, ev_sequence v)) (events ?d'))"
      using assms by (simp add: d' distinct_delete_where replay_ok_def)
    fix t assume "t \<in> set (sessions ?d')"
    then obtain t0 where t0: "t0 \<in> set (sessions d)"
      and t: "t = (if se_id t0 = i then t0\<lparr>se_replay_floor := ?fl\<rparr> else t0)"
      by (auto simp: d' set_update_where)
    have "se_replay_floor t \<le> se_sequence t \<and> event_seqs (se_id t) ?d' \<subseteq> {..se_sequence t} \<and>
        {se_replay_floor t<..se_sequence t} \<subseteq> event_seqs (se_id t) ?d'"
    proof (cases "se_id t0 = i")
      case True
      then have "t0 = s" using same t0 by simp
      moreover have "event_seqs i d \<subseteq> {..se_sequence s}" using assms s unfolding replay_ok_def by blast
      ultimately show ?thesis using t True bound kept sub[of i] s by auto
    next
      case False
      then show ?thesis using t t0 assms other[OF False] unfolding replay_ok_def by auto
    qed
    then show "se_replay_floor t \<le> se_sequence t" "event_seqs (se_id t) ?d' \<subseteq> {..se_sequence t}"
      "{se_replay_floor t<..se_sequence t} \<subseteq> event_seqs (se_id t) ?d'" by auto
  qed
qed

text \<open>Appending one event keeps the log well formed; the new event survives its own pruning.\<close>

definition append_event :: "env \<Rightarrow> uuid \<Rightarrow> string \<Rightarrow> json \<Rightarrow> session_row \<Rightarrow> db \<Rightarrow> db" where
  "append_event e i type data s d =
     update_session i (\<lambda>s. s\<lparr>se_sequence := Suc (se_sequence s), se_updated_at := now e\<rparr>)
       (d\<lparr>events := events d @ [\<lparr> ev_session = i, ev_sequence = Suc (se_sequence s), ev_type = type,
           ev_data = data, ev_created_at = now e \<rparr>]\<rparr>)"

lemma replay_ok_session_unique:
  "replay_ok d \<Longrightarrow> s \<in> set (sessions d) \<Longrightarrow> session_find (se_id s) d = Some s"
  unfolding replay_ok_def session_find_def by (blast intro: find_distinct)

lemma replay_ok_fresh:
  "replay_ok d \<Longrightarrow> session_find i d = Some s \<Longrightarrow> Suc (se_sequence s) \<notin> event_seqs i d"
  unfolding replay_ok_def by (fastforce dest: session_find_Some)

lemma append_event_replay_ok:
  assumes ok: "replay_ok d" and s: "session_find i d = Some s"
  shows "replay_ok (append_event e i type data s d)"
proof -
  let ?d' = "append_event e i type data s d"
  have si: "s \<in> set (sessions d)" "se_id s = i" using s by (auto dest: session_find_Some)
  have same: "t = s" if "t \<in> set (sessions d)" "se_id t = i" for t
    using replay_ok_session_eq [OF ok s that] .
  have seqs: "event_seqs j ?d' = (if j = i then insert (Suc (se_sequence s)) (event_seqs j d) else event_seqs j d)" for j
    by (simp add: append_event_def event_seqs_append)
  have fresh: "(i, Suc (se_sequence s)) \<notin> (\<lambda>v. (ev_session v, ev_sequence v)) ` set (events d)"
    using replay_ok_fresh [OF ok s] by (force simp: event_seqs_def)
  show ?thesis unfolding replay_ok_def
  proof (intro conjI ballI)
    show "distinct (map se_id (sessions ?d'))"
      using ok by (simp add: append_event_def map_update_where_key replay_ok_def)
    show "distinct (map (\<lambda>v. (ev_session v, ev_sequence v)) (events ?d'))"
      using ok fresh by (simp add: append_event_def replay_ok_def)
    fix t assume "t \<in> set (sessions ?d')"
    then obtain t0 where t0: "t0 \<in> set (sessions d)"
      and t: "t = (if se_id t0 = i then t0\<lparr>se_sequence := Suc (se_sequence t0), se_updated_at := now e\<rparr> else t0)"
      by (auto simp: append_event_def set_update_where)
    have b: "se_replay_floor t0 \<le> se_sequence t0" "event_seqs (se_id t0) d \<subseteq> {..se_sequence t0}"
      "{se_replay_floor t0<..se_sequence t0} \<subseteq> event_seqs (se_id t0) d"
      using ok t0 unfolding replay_ok_def by auto
    show "se_replay_floor t \<le> se_sequence t" using b t by auto
    show "event_seqs (se_id t) ?d' \<subseteq> {..se_sequence t}"
      using b(2) t t0 same[of t0] by (auto simp: seqs)
    show "{se_replay_floor t<..se_sequence t} \<subseteq> event_seqs (se_id t) ?d'"
    proof (cases "se_id t0 = i")
      case True
      have "{se_replay_floor t0<..Suc (se_sequence t0)} \<subseteq> insert (Suc (se_sequence t0)) {se_replay_floor t0<..se_sequence t0}"
        by auto
      then show ?thesis using True b(3) t t0 same[of t0] by (auto simp: seqs)
    qed (use b(3) t in \<open>simp add: seqs\<close>)
  qed
qed

lemma event_eq:
  assumes "replay_ok d" and "session_find i d = Some s"
  shows "event e i type data d =
    Inr (Suc (se_sequence s), snd (pruneReplay (now e) i (append_event e i type data s d)))"
proof -
  have "\<not> (\<exists>v \<in> set (events d). ev_session v = i \<and> ev_sequence v = Suc (se_sequence s))"
    using replay_ok_fresh [OF assms] by (metis in_event_seqs)
  moreover have "update_session i (\<lambda>t. t\<lparr>se_sequence := Suc (se_sequence s), se_updated_at := now e\<rparr>) d' =
      update_session i (\<lambda>s. s\<lparr>se_sequence := Suc (se_sequence s), se_updated_at := now e\<rparr>) d'"
    if "sessions d' = sessions d" for d' :: db
  proof -
    have "t = s" if "t \<in> set (sessions d)" "se_id t = i" for t
      using replay_ok_session_eq [OF assms that] .
    then show ?thesis using that by (simp add: update_session_def update_where_def)
  qed
  ultimately show ?thesis using assms(2) by (simp add: event_def append_event_def Let_def)
qed

lemma event_replay_ok:
  assumes "replay_ok d" and "event e i type data d = Inr (q, d')"
  shows "replay_ok d'"
proof -
  from assms(2) obtain s where s: "session_find i d = Some s" by (auto simp: event_def res_simps)
  show ?thesis using assms event_eq [OF assms(1) s] append_event_replay_ok [OF assms(1) s]
    by (auto intro: pruneReplay_replay_ok)
qed

lemma pruneReplay_frame: "\<exists>evs ses. snd (pruneReplay at i d) = d\<lparr>events := evs, sessions := ses\<rparr>"
proof (cases "session_find i d")
  case None
  then have "snd (pruneReplay at i d) = d\<lparr>events := events d, sessions := sessions d\<rparr>"
    by (simp add: pruneReplay_def)
  then show ?thesis by blast
qed (auto simp: pruneReplay_def Let_def update_session_def)

lemma event_frame:
  assumes "event e i type data d = Inr (q, d')"
  shows "\<exists>evs ses. d' = d\<lparr>events := evs, sessions := ses\<rparr>"
proof -
  from assms obtain d1 where d': "d' = snd (pruneReplay (now e) i d1)"
    and "\<exists>evs ses. d1 = d\<lparr>events := evs, sessions := ses\<rparr>"
    by (auto simp: event_def update_session_def Let_def res_simps split: if_splits)
  then obtain evs ses where d1: "d1 = d\<lparr>events := evs, sessions := ses\<rparr>" by blast
  obtain evs' ses' where "snd (pruneReplay (now e) i d1) = d1\<lparr>events := evs', sessions := ses'\<rparr>"
    using pruneReplay_frame by blast
  then show ?thesis using d' d1 by auto
qed

text \<open>What a session keeps when events are appended or pruned.\<close>

definition session_core :: "session_row \<Rightarrow> session_row" where
  "session_core s = s\<lparr>se_sequence := 0, se_replay_floor := 0, se_updated_at := 0\<rparr>"

lemma pruneReplay_cores: "map session_core (sessions (snd (pruneReplay at i d))) = map session_core (sessions d)"
  by (auto simp: pruneReplay_def Let_def session_core_def update_where_def split: option.splits)

lemma event_cores:
  assumes "event e i type data d = Inr (q, d')"
  shows "map session_core (sessions d') = map session_core (sessions d)"
proof -
  from assms obtain d1 where d': "d' = snd (pruneReplay (now e) i d1)"
    and d1: "map session_core (sessions d1) = map session_core (sessions d)"
    by (auto simp: event_def Let_def res_simps session_core_def update_where_def)
  show ?thesis unfolding d' pruneReplay_cores d1 ..
qed

lemma session_bindings_cores:
  assumes "map session_core (sessions d') = map session_core (sessions d)"
  shows "session_bindings ids d' = session_bindings ids d"
proof -
  have "session_bindings ids x = map (\<lambda>s. (se_id s, se_project s, se_workspace s))
      (sort_key se_id (filter (\<lambda>s. se_id s \<in> set ids) (map session_core (sessions x))))" for x :: db
    by (simp add: session_bindings_def filter_map sort_key_map comp_def session_core_def)
  then show ?thesis using assms by simp
qed

lemma lockSessionResource_cong:
  assumes "map session_core (sessions d') = map session_core (sessions d)" and "workspaces d' = workspaces d"
  shows "lockSessionResource d' i = lockSessionResource d i"
  unfolding lockSessionResource_def lockSessionResources_def session_bindings_cores [OF assms(1)] assms(2) ..

lemma session_find_cores:
  assumes "map session_core (sessions d') = map session_core (sessions d)"
  shows "map_option session_core (session_find i d') = map_option session_core (session_find i d)"
proof -
  have "map_option session_core (session_find i x) = find (\<lambda>s. se_id s = i) (map session_core (sessions x))" for x :: db
    by (simp add: session_find_def find_map_option comp_def session_core_def)
  then show ?thesis using assms by simp
qed

lemma lockSessionResource_session:
  assumes "lockSessionResource d i = Inr u"
  shows "\<exists>s. session_find i d = Some s"
proof -
  have "length (session_bindings [i] d) = 1"
    using assms by (auto simp: lockSessionResource_def lockSessionResources_def res_simps Let_def split: if_splits)
  then have "filter (\<lambda>s. se_id s = i) (sessions d) \<noteq> []" by (auto simp: session_bindings_def)
  then show ?thesis by (auto simp: session_find_def filter_empty_conv intro: find_is_Some)
qed

text \<open>At most \<^verbatim>\<open>REPLAY_LIMIT\<close> events of a conversation are kept after each append.\<close>

lemma event_window:
  assumes "replay_ok d" and "event e i type data d = Inr (q, d')"
  shows "event_seqs i d' \<subseteq> {Suc q - REPLAY_LIMIT..q} \<and> card (event_seqs i d') \<le> REPLAY_LIMIT"
proof -
  from assms(2) obtain s where s: "session_find i d = Some s" by (auto simp: event_def res_simps)
  let ?a = "append_event e i type data s d"
  have q: "q = Suc (se_sequence s)" and d': "d' = snd (pruneReplay (now e) i ?a)"
    using assms event_eq [OF assms(1) s] by auto
  have sa: "session_find i ?a = Some (s\<lparr>se_sequence := q, se_updated_at := now e\<rparr>)"
    using s session_find_Some [OF s] q by (simp add: append_event_def)
  have ok: "replay_ok ?a" by (rule append_event_replay_ok [OF assms(1) s])
  have up: "event_seqs i ?a \<subseteq> {..q}"
    using ok session_find_Some [OF sa] unfolding replay_ok_def by fastforce
  have "event_seqs i d' \<subseteq> {Suc q - REPLAY_LIMIT..q}"
  proof
    fix n assume "n \<in> event_seqs i d'"
    then obtain v where v: "v \<in> set (events ?a)" "ev_session v = i" "ev_sequence v = n"
      "\<not> replay_expired (now e) (s\<lparr>se_sequence := q, se_updated_at := now e\<rparr>) v"
      using sa by (auto simp: event_seqs_def d' pruneReplay_def Let_def set_delete_where)
    have "n \<in> event_seqs i ?a" using v in_event_seqs by blast
    then show "n \<in> {Suc q - REPLAY_LIMIT..q}"
      using up v session_find_Some [OF s] by (auto simp: replay_expired_def)
  qed
  moreover have "card {Suc q - REPLAY_LIMIT..q} \<le> REPLAY_LIMIT" by simp
  ultimately show ?thesis by (meson card_mono finite_atLeastAtMost order_trans)
qed

section \<open>Cached session state\<close>

definition active_state :: "op_state \<Rightarrow> bool" where
  "active_state s \<longleftrightarrow> s \<in> {Queued, Dispatching, Running, WaitingApproval, WaitingInput}"

definition dispatched_state :: "op_state \<Rightarrow> bool" where
  "dispatched_state s \<longleftrightarrow> s \<in> {Running, WaitingApproval, WaitingInput, Dispatching}"

text \<open>Turns of a session that still count, newest first.\<close>

definition turn_states :: "uuid \<Rightarrow> db \<Rightarrow> op_state list" where
  "turn_states i d = map op_state (rev (sort_key (\<lambda>x. (op_created_at x, op_id x))
     (filter (\<lambda>x. op_session x = i \<and> op_kind x = TurnOp \<and>
        \<not> (op_state x = Uncertain \<and> op_acknowledged_at x \<noteq> None)) (operations d))))"

definition derived_state :: "op_state list \<Rightarrow> session_state" where
  "derived_state rows =
     (if Uncertain \<in> set rows then SessionIn Uncertain
      else case find dispatched_state rows of
        Some s \<Rightarrow> SessionIn s
      | None \<Rightarrow> if Queued \<in> set rows then SessionIn Queued
          else (case rows of [] \<Rightarrow> Idle | s # _ \<Rightarrow> SessionIn s))"

definition deriveSessionState :: "uuid \<Rightarrow> db \<Rightarrow> session_state \<times> db" where
  "deriveSessionState i d =
     (let st = derived_state (turn_states i d)
      in (st, update_session i (\<lambda>s. s\<lparr>se_state := st\<rparr>) d))"

text \<open>
  The cached state tells the truth about work in progress: it is \<open>Uncertain\<close> exactly when a
  turn has an unacknowledged uncertain outcome, and otherwise active exactly when a turn is.
\<close>

lemma derived_state_uncertain:
  "derived_state rows = SessionIn Uncertain \<longleftrightarrow> Uncertain \<in> set rows"
  by (auto simp: derived_state_def dispatched_state_def find_is_None split: option.splits list.splits
      dest: find_Some_in)

lemma derived_state_active:
  assumes "Uncertain \<notin> set rows"
  shows "(\<exists>s. derived_state rows = SessionIn s \<and> active_state s) \<longleftrightarrow> (\<exists>s \<in> set rows. active_state s)"
proof (cases "find dispatched_state rows")
  case (Some s)
  then have "s \<in> set rows" "dispatched_state s" by (auto dest: find_Some_in)
  then show ?thesis using Some assms
    by (auto simp: derived_state_def dispatched_state_def active_state_def)
next
  case None
  then have none: "\<forall>s \<in> set rows. \<not> dispatched_state s" by (simp add: find_is_None)
  have act: "active_state s \<longleftrightarrow> s = Queued \<or> dispatched_state s" for s
    by (auto simp: active_state_def dispatched_state_def)
  show ?thesis
  proof (cases "Queued \<in> set rows")
    case True then show ?thesis using None assms by (auto simp: derived_state_def act)
  next
    case False then show ?thesis using None none assms
      by (auto simp: derived_state_def act split: list.splits)
  qed
qed

lemma turn_states_set:
  "set (turn_states i d) = op_state ` {x \<in> set (operations d). op_session x = i \<and> op_kind x = TurnOp \<and>
     \<not> (op_state x = Uncertain \<and> op_acknowledged_at x \<noteq> None)}"
  by (simp add: turn_states_def)

section \<open>History capacity\<close>

datatype capacity_kind = TurnSlot | RecoverySlot | CancelSlot

definition cancels :: "uuid \<Rightarrow> uuid \<Rightarrow> operation_row \<Rightarrow> bool" where
  "cancels i t c \<longleftrightarrow> op_session c = i \<and> op_kind c = CancelOp \<and>
     json_text ''operationId'' (op_payload c) = Some t"

definition reserves_slot :: "uuid \<Rightarrow> operation_row list \<Rightarrow> operation_row \<Rightarrow> bool" where
  "reserves_slot i ops t \<longleftrightarrow> op_session t = i \<and> op_kind t = TurnOp \<and> active_state (op_state t) \<and>
     \<not> exists_row (cancels i (op_id t)) ops"

definition retained :: "uuid \<Rightarrow> db \<Rightarrow> nat" where
  "retained i d = count_where (\<lambda>x. op_session x = i) (operations d) +
     count_where (\<lambda>r. rc_session r = i) (session_recoveries d)"

definition reserved :: "uuid \<Rightarrow> db \<Rightarrow> nat" where
  "reserved i d = count_where (reserves_slot i (operations d)) (operations d)"

definition ceiling_of :: "uuid \<Rightarrow> db \<Rightarrow> nat" where
  "ceiling_of i d = (case session_find i d of None \<Rightarrow> 0 | Some s \<Rightarrow> se_history_ceiling s)"

definition capacity :: "uuid \<Rightarrow> capacity_kind \<Rightarrow> db \<Rightarrow> unit res" where
  "capacity i kind d =
     (if (kind = TurnSlot \<and> retained i d \<ge> 400) \<or>
         retained i d + (if kind = TurnSlot then 2 else 1) +
         (reserved i d - (if kind = CancelSlot then 1 else 0)) +
         (if kind = RecoverySlot then 0 else 1) > ceiling_of i d
      then Inl (HarborError 429 ''HISTORY_QUOTA'') else Inr ())"

section \<open>Cancelling a turn\<close>

definition insert_operation :: "operation_row \<Rightarrow> db \<Rightarrow> db res" where
  "insert_operation r d =
     (if op_id r \<in> op_id ` set (operations d) then Inl (Crash ''operations_pkey'')
      else Inr (d\<lparr>operations := operations d @ [r]\<rparr>))"

definition new_operation :: "env \<Rightarrow> uuid \<Rightarrow> uuid \<Rightarrow> op_kind \<Rightarrow> json \<Rightarrow> string \<Rightarrow> operation_row" where
  "new_operation e i s k payload actor =
     \<lparr> op_id = i, op_session = s, op_kind = k, op_state = Queued, op_payload = payload,
       op_actor = actor, op_control_attempts = 1, op_acknowledged_at = None,
       op_native_turn = None, op_generation = None, op_queue_reason = None, op_created_at = now e, op_updated_at = now e \<rparr>"

lemma new_operation_simps [simp]:
  "op_id (new_operation e i s k p a) = i" "op_session (new_operation e i s k p a) = s"
  "op_kind (new_operation e i s k p a) = k" "op_payload (new_operation e i s k p a) = p"
  "op_state (new_operation e i s k p a) = Queued" "op_acknowledged_at (new_operation e i s k p a) = None"
  by (simp_all add: new_operation_def)

definition cancel_row :: "env \<Rightarrow> uuid \<Rightarrow> operation_row \<Rightarrow> string \<Rightarrow> operation_row" where
  "cancel_row e i t actor =
     new_operation e i (op_session t) CancelOp (JObj [(''operationId'', JStr (op_id t))]) actor"

definition retry_cancel :: "env \<Rightarrow> string \<Rightarrow> operation_row \<Rightarrow> operation_row" where
  "retry_cancel e actor x = x\<lparr>op_state := Queued, op_actor := actor,
     op_control_attempts := op_control_attempts x + 1, op_updated_at := now e\<rparr>"

text \<open>
  \<open>fresh\<close> is \<^verbatim>\<open>options.operationId ?? randomUUID()\<close>; the result is the cancel operation's
  id and state.
\<close>

definition requestTurnCancellation ::
  "env \<Rightarrow> uuid \<Rightarrow> string \<Rightarrow> uuid \<Rightarrow> (db \<Rightarrow> unit res) \<Rightarrow> db \<Rightarrow> ((uuid \<times> op_state) \<times> db) res" where
  "requestTurnCancellation e turn actor fresh authorize d =
     andThen (first_row (HarborError 404 ''NOT_FOUND'') (find (\<lambda>x. op_id x = turn) (operations d))) (\<lambda>t.
     andThen (lockSessionResource d (op_session t)) (\<lambda>_.
     if op_kind t \<noteq> TurnOp then Inl (HarborError 404 ''NOT_FOUND'')
     else if \<not> active_state (op_state t) then Inl (HarborError 409 ''TURN_TERMINAL'')
     else andThen (authorize d) (\<lambda>_.
       case find (cancels (op_session t) (op_id t)) (operations d) of
         Some p \<Rightarrow>
           if op_state p \<noteq> Failed then Inr ((op_id p, op_state p), d)
           else if op_control_attempts p \<ge> 3 then Inl (HarborError 429 ''CONTROL_ATTEMPTS'')
           else Inr ((op_id p, Queued), d\<lparr>operations := update_where (\<lambda>x. op_id x = op_id p)
             (retry_cancel e actor) (operations d)\<rparr>)
       | None \<Rightarrow>
           andThen (capacity (op_session t) CancelSlot d) (\<lambda>_.
           andThen (insert_operation (cancel_row e fresh t actor) d) (\<lambda>d1.
           andThen (event e (op_session t) ''cancel.requested''
               (JObj [(''operationId'', JStr (op_id t))]) d1) (\<lambda>(_, d2).
           Inr ((fresh, Queued), d2)))))))"

lemma cancel_row_simps [simp]:
  "op_id (cancel_row e i t a) = i" "op_session (cancel_row e i t a) = op_session t"
  "op_kind (cancel_row e i t a) = CancelOp" "op_state (cancel_row e i t a) = Queued"
  by (simp_all add: cancel_row_def)

lemma cancels_cancel_row [simp]:
  "cancels s i (cancel_row e f t actor) \<longleftrightarrow> s = op_session t \<and> i = op_id t"
  by (auto simp: cancels_def cancel_row_def)

lemma retry_cancel_simps [simp]:
  "op_id (retry_cancel e a x) = op_id x" "op_session (retry_cancel e a x) = op_session x"
  "op_kind (retry_cancel e a x) = op_kind x" "op_state (retry_cancel e a x) = Queued"
  by (simp_all add: retry_cancel_def)

lemma cancels_retry_cancel [simp]: "cancels s i (retry_cancel e actor x) = cancels s i x"
  by (simp add: cancels_def retry_cancel_def)

lemma requestTurnCancellation_Inr:
  assumes "requestTurnCancellation e turn actor fresh authorize d = Inr (r, d')"
  obtains t where "t \<in> set (operations d)" "op_id t = turn" "op_kind t = TurnOp"
    "active_state (op_state t)" "lockSessionResource d (op_session t) = Inr ()" "authorize d = Inr ()"
    "find (\<lambda>x. op_id x = turn) (operations d) = Some t"
proof -
  from assms obtain t where t: "find (\<lambda>x. op_id x = turn) (operations d) = Some t"
    by (auto simp: requestTurnCancellation_def res_simps)
  show thesis
    using assms t find_Some_in [OF t]
    by (intro that [of t]) (auto simp: requestTurnCancellation_def res_simps)
qed

lemma requestTurnCancellation_cases:
  assumes "requestTurnCancellation e turn actor fresh authorize d = Inr (r, d')"
    and "find (\<lambda>x. op_id x = turn) (operations d) = Some t"
  obtains
    (pending) p where "find (cancels (op_session t) (op_id t)) (operations d) = Some p"
      "op_state p \<noteq> Failed" "r = (op_id p, op_state p)" "d' = d"
  | (retry) p where "find (cancels (op_session t) (op_id t)) (operations d) = Some p"
      "op_state p = Failed" "op_control_attempts p < 3" "r = (op_id p, Queued)"
      "d' = d\<lparr>operations := update_where (\<lambda>x. op_id x = op_id p) (retry_cancel e actor) (operations d)\<rparr>"
  | (first) q where "find (cancels (op_session t) (op_id t)) (operations d) = None"
      "r = (fresh, Queued)" "capacity (op_session t) CancelSlot d = Inr ()"
      "fresh \<notin> op_id ` set (operations d)"
      "event e (op_session t) ''cancel.requested'' (JObj [(''operationId'', JStr (op_id t))])
         (d\<lparr>operations := operations d @ [cancel_row e fresh t actor]\<rparr>) = Inr (q, d')"
proof (cases "find (cancels (op_session t) (op_id t)) (operations d)")
  case None
  then obtain q where "r = (fresh, Queued)" "capacity (op_session t) CancelSlot d = Inr ()"
      "fresh \<notin> op_id ` set (operations d)"
      "event e (op_session t) ''cancel.requested'' (JObj [(''operationId'', JStr (op_id t))])
         (d\<lparr>operations := operations d @ [cancel_row e fresh t actor]\<rparr>) = Inr (q, d')"
    using assms by (auto simp: requestTurnCancellation_def insert_operation_def res_simps)
  with None show thesis by (rule first)
next
  case (Some p)
  show thesis
    using assms Some
    by (cases "op_state p = Failed")
      (auto simp: requestTurnCancellation_def res_simps split: if_splits intro: pending retry)
qed

definition slots_kept :: "uuid \<Rightarrow> db \<Rightarrow> bool" where
  "slots_kept i d \<longleftrightarrow> retained i d + reserved i d < ceiling_of i d"

lemma capacity_cancel_reserved:
  assumes "slots_kept i d" and "t \<in> set (operations d)" and "op_session t = i"
    and "op_kind t = TurnOp" and "active_state (op_state t)"
    and "find (cancels i (op_id t)) (operations d) = None"
  shows "capacity i CancelSlot d = Inr ()"
proof -
  have "reserves_slot i (operations d) t" using assms by (auto simp: reserves_slot_def find_is_None)
  then have "reserved i d \<noteq> 0" using assms(2) by (auto simp: reserved_def count_where_0_iff)
  then show ?thesis using assms(1) by (simp add: capacity_def slots_kept_def)
qed

lemma reserved_append_cancel:
  assumes "t \<in> set (operations d)" "op_session t = i" "op_kind t = TurnOp" "active_state (op_state t)"
    and "find (cancels i (op_id t)) (operations d) = None"
    and "cancels i (op_id t) c"
  shows "reserved i (d\<lparr>operations := operations d @ [c]\<rparr>) < reserved i d"
proof -
  let ?ops = "operations d @ [c]"
  have "\<not> reserves_slot i ?ops c" using assms(6) by (simp add: reserves_slot_def cancels_def)
  then have "reserved i (d\<lparr>operations := ?ops\<rparr>) = count_where (reserves_slot i ?ops) (operations d)"
    by (simp add: reserved_def)
  also have "\<dots> < count_where (reserves_slot i (operations d)) (operations d)"
    using assms by (intro count_where_less [of _ _ _ t]) (auto simp: reserves_slot_def find_is_None)
  finally show ?thesis by (simp add: reserved_def)
qed

lemma ceiling_of_cores:
  assumes "map session_core (sessions d') = map session_core (sessions d)"
  shows "ceiling_of i d' = ceiling_of i d"
proof -
  have "ceiling_of i x = (case map_option session_core (session_find i x) of None \<Rightarrow> 0 | Some s \<Rightarrow> se_history_ceiling s)" for x :: db
    by (simp add: ceiling_of_def session_core_def split: option.splits)
  then show ?thesis by (simp only: session_find_cores [OF assms])
qed

lemma event_keeps_counts:
  assumes "event e i type data d = Inr (q, d')"
  shows "retained j d' = retained j d" "reserved j d' = reserved j d" "ceiling_of j d' = ceiling_of j d"
proof -
  obtain evs ses where "d' = d\<lparr>events := evs, sessions := ses\<rparr>" using event_frame [OF assms] by blast
  then show "retained j d' = retained j d" "reserved j d' = reserved j d" by (simp_all add: retained_def reserved_def)
  show "ceiling_of j d' = ceiling_of j d" by (rule ceiling_of_cores [OF event_cores [OF assms]])
qed

lemma append_cancel_row_slots:
  assumes "t \<in> set (operations d)" "op_kind t = TurnOp" "active_state (op_state t)"
    and "find (cancels (op_session t) (op_id t)) (operations d) = None" and "slots_kept i d"
  shows "slots_kept i (d\<lparr>operations := operations d @ [cancel_row e f t actor]\<rparr>)"
proof (cases "op_session t = i")
  case True
  then have "reserved i (d\<lparr>operations := operations d @ [cancel_row e f t actor]\<rparr>) < reserved i d"
    using assms by (intro reserved_append_cancel) auto
  then show ?thesis using assms(5) True
    by (simp add: slots_kept_def retained_def ceiling_of_def session_find_def)
next
  case False
  then have "reserves_slot i (operations d @ [cancel_row e f t actor]) = reserves_slot i (operations d)"
    by (intro ext) (simp add: reserves_slot_def)
  then show ?thesis using assms(5) False
    by (simp add: slots_kept_def retained_def reserved_def ceiling_of_def session_find_def)
      (simp add: reserves_slot_def)
qed

lemma retry_cancel_slots:
  assumes "slots_kept i d" and "p \<in> set (operations d)" and "op_kind p = CancelOp"
    and "distinct (map op_id (operations d))"
  shows "slots_kept i (d\<lparr>operations := update_where (\<lambda>x. op_id x = op_id p) (retry_cancel e actor) (operations d)\<rparr>)"
proof -
  let ?ops = "update_where (\<lambda>x. op_id x = op_id p) (retry_cancel e actor) (operations d)"
  have same: "x = p" if "x \<in> set (operations d)" "op_id x = op_id p" for x
    using distinct_keyD [OF assms(4) that(1) assms(2) that(2)] .
  have ex: "exists_row (cancels i k) ?ops = exists_row (cancels i k) (operations d)" for k
    by (simp add: bex_update_where)
  have eq: "reserves_slot i ?ops = reserves_slot i (operations d)"
    by (intro ext) (simp only: reserves_slot_def ex)
  have "count_where (reserves_slot i (operations d)) ?ops = count_where (reserves_slot i (operations d)) (operations d)"
  proof (rule count_where_update_eq)
    fix r assume "r \<in> set (operations d)" "op_id r = op_id p"
    then have "r = p" by (rule same)
    then show "reserves_slot i (operations d) (retry_cancel e actor r) = reserves_slot i (operations d) r"
      using assms(3) by (simp add: reserves_slot_def)
  qed
  moreover have "count_where (\<lambda>x. op_session x = i) ?ops = count_where (\<lambda>x. op_session x = i) (operations d)"
    by (rule count_where_update_eq) simp
  ultimately show ?thesis using assms(1)
    by (simp add: slots_kept_def retained_def reserved_def ceiling_of_def session_find_def eq)
qed

text \<open>A cancellation keeps a slot for every turn that is still running.\<close>

lemma requestTurnCancellation_slots:
  assumes req: "requestTurnCancellation e turn actor fresh authorize d = Inr (r, d')"
    and slots: "slots_kept i d" and ids: "distinct (map op_id (operations d))"
  shows "slots_kept i d'"
proof -
  from req obtain t where t: "t \<in> set (operations d)" "op_kind t = TurnOp" "active_state (op_state t)"
    "find (\<lambda>x. op_id x = turn) (operations d) = Some t" by (rule requestTurnCancellation_Inr)
  from req t(4) show ?thesis
  proof (cases rule: requestTurnCancellation_cases)
    case (pending p) then show ?thesis using slots by simp
  next
    case (retry p)
    then show ?thesis using slots ids by (auto intro!: retry_cancel_slots simp: cancels_def dest!: find_Some_in)
  next
    case (first q)
    have "slots_kept i (d\<lparr>operations := operations d @ [cancel_row e fresh t actor]\<rparr>)"
      using append_cancel_row_slots [OF t(1-3) first(1) slots] .
    then show ?thesis using event_keeps_counts [OF first(5)] by (simp add: slots_kept_def)
  qed
qed

text \<open>Asking again while the stop is pending returns the same operation and changes nothing.\<close>

lemma requestTurnCancellation_again:
  assumes req: "requestTurnCancellation e turn actor fresh authorize d = Inr ((i, Queued), d')"
    and auth: "authorize' d' = Inr ()" and ids: "distinct (map op_id (operations d))"
  shows "requestTurnCancellation e' turn actor' fresh' authorize' d' = Inr ((i, Queued), d')"
proof -
  from req obtain t where t: "t \<in> set (operations d)" "op_kind t = TurnOp" "active_state (op_state t)"
    "op_id t = turn" "lockSessionResource d (op_session t) = Inr ()"
    and ft: "find (\<lambda>x. op_id x = turn) (operations d) = Some t" by (rule requestTurnCancellation_Inr)
  have again: ?thesis
    if "find (\<lambda>x. op_id x = turn) (operations d') = Some t"
      and "find (cancels (op_session t) turn) (operations d') = Some p" and "op_id p = i" "op_state p = Queued"
      and "lockSessionResource d' (op_session t) = Inr ()" for p
    using that t auth by (simp add: requestTurnCancellation_def)
  from req ft show ?thesis
  proof (cases rule: requestTurnCancellation_cases)
    case (pending p) then show ?thesis using t ft by (intro again [of p]) auto
  next
    case (retry p)
    have p: "p \<in> set (operations d)" "op_kind p = CancelOp" using retry(1) by (auto simp: cancels_def dest!: find_Some_in)
    have np: "op_id t \<noteq> op_id p" using t p distinct_keyD [OF ids t(1) p(1)] by auto
    have "find (\<lambda>x. op_id x = turn) (operations d') = Some t"
      using retry(5) ft np t(4) by (simp add: find_update_where_key [where key = op_id] retry_cancel_def)
    moreover have "find (cancels (op_session t) turn) (operations d') = Some (retry_cancel e actor p)"
    proof -
      have "find (cancels (op_session t) turn) (update_where (\<lambda>x. op_id x = op_id p) (retry_cancel e actor) xs) =
        map_option (\<lambda>x. if op_id x = op_id p then retry_cancel e actor x else x) (find (cancels (op_session t) turn) xs)" for xs
        by (induction xs) auto
      then show ?thesis using retry t(4) by simp
    qed
    moreover have "lockSessionResource d' (op_session t) = Inr ()"
      using t(5) retry(5) lockSessionResource_cong [of d' d] by simp
    ultimately show ?thesis using retry by (intro again [of "retry_cancel e actor p"]) (auto simp: retry_cancel_def)
  next
    case (first q)
    obtain evs ses where d': "d' = d\<lparr>operations := operations d @ [cancel_row e fresh t actor], events := evs, sessions := ses\<rparr>"
      using event_frame [OF first(5)] by auto
    have "lockSessionResource d' (op_session t) = Inr ()"
      using t(5) event_cores [OF first(5)] lockSessionResource_cong [of d' d] d' by simp
    then show ?thesis using first ft t d' by (intro again [of "cancel_row e fresh t actor"]) auto
  qed
qed

section \<open>Conversation runtimes\<close>

text \<open>\<^verbatim>\<open>queueReason\<close>: why a queued operation is not dispatched yet.\<close>

definition queueReason :: "env \<Rightarrow> uuid \<Rightarrow> uuid \<Rightarrow> string \<Rightarrow> db \<Rightarrow> db res" where
  "queueReason e opid sess reason d =
     andThen (lockSessionResource d sess) (\<lambda>_.
     let hit = (\<lambda>x. op_id x = opid \<and> op_state x = Queued \<and> op_queue_reason x \<noteq> Some reason);
         d1 = d\<lparr>operations := update_where hit (\<lambda>x. x\<lparr>op_queue_reason := Some reason\<rparr>) (operations d)\<rparr>
     in if exists_row hit (operations d)
        then andThen (event e sess ''operation.queued''
               (JObj [(''operationId'', JStr opid), (''queueReason'', JStr reason)]) d1) (\<lambda>(_, d2). Inr d2)
        else Inr d1)"

fun runtime_state_text :: "runtime_state \<Rightarrow> string" where
  "runtime_state_text RtStarting = ''starting''"
| "runtime_state_text RtActive = ''active''"
| "runtime_state_text RtWaitingApproval = ''waiting_approval''"
| "runtime_state_text RtWaitingInput = ''waiting_input''"
| "runtime_state_text RtIdle = ''idle''"
| "runtime_state_text RtProtected = ''protected''"
| "runtime_state_text RtRetiring = ''retiring''"
| "runtime_state_text RtUnknown = ''unknown''"

definition IDLE_MS :: int where "IDLE_MS = 30 * 60000"

definition enter_runtime_state :: "env \<Rightarrow> runtime_state \<Rightarrow> bool \<Rightarrow> runtime_row \<Rightarrow> runtime_row" where
  "enter_runtime_state e st activity r = r
     \<lparr> cr_state := st,
       cr_last_activity := (if activity then now e else cr_last_activity r),
       cr_idle_until := (if st = RtIdle
          then Some (if activity then now e + IDLE_MS
                     else case cr_idle_until r of Some t \<Rightarrow> t | None \<Rightarrow> cr_last_activity r + IDLE_MS)
          else None) \<rparr>"

definition runtimeState :: "env \<Rightarrow> uuid \<Rightarrow> nat \<Rightarrow> runtime_state \<Rightarrow> bool \<Rightarrow> db \<Rightarrow> db res" where
  "runtimeState e sess gen st activity d =
     andThen (lockSessionResource d sess) (\<lambda>_.
     let hit = (\<lambda>r. cr_session r = sess \<and> cr_generation r = gen \<and> (cr_state r \<noteq> st \<or> activity));
         d1 = d\<lparr>conversation_runtimes :=
           update_where hit (enter_runtime_state e st activity) (conversation_runtimes d)\<rparr>
     in if exists_row hit (conversation_runtimes d)
        then andThen (event e sess ''runtime.changed''
               (JObj [(''generation'', JNum (int gen)), (''state'', JStr (runtime_state_text st))]) d1)
               (\<lambda>(_, d2). Inr d2)
        else Inr d1)"

definition repair_eligible :: "uuid \<Rightarrow> nat \<Rightarrow> db \<Rightarrow> session_row \<Rightarrow> bool" where
  "repair_eligible i gen d s \<longleftrightarrow> se_id s = i \<and> se_generation s = gen \<and> se_state s = SessionIn Uncertain \<and>
     se_background_until s = None \<and> \<not> se_background_stop s \<and>
     (\<exists>w \<in> set (workspaces d). ws_id w = se_workspace s \<and> ws_writer_owner w = None \<and>
        ws_writer_kind w = None \<and> ws_writer_session w = None \<and> ws_writer_generation w = None) \<and>
     \<not> exists_row (\<lambda>r. cr_session r = i) (conversation_runtimes d) \<and>
     \<not> exists_row (\<lambda>x. op_session x = i \<and> (active_state (op_state x) \<or>
          op_state x = Uncertain \<and> op_acknowledged_at x = None)) (operations d) \<and>
     \<not> exists_row (\<lambda>a. ap_session a = i \<and> ap_state a \<in> {''pending'', ''answering''}) (approvals d) \<and>
     \<not> exists_row (\<lambda>r. rc_session r = i \<and> rc_state r \<in> {RecQueued, RecFencing, RecReady}) (session_recoveries d)"

definition repairReleasedPersonalSession ::
  "uuid \<Rightarrow> nat \<Rightarrow> db \<Rightarrow> (session_state option \<times> db) res" where
  "repairReleasedPersonalSession i gen d =
     andThen (lockSessionResource d i) (\<lambda>_.
       if exists_row (repair_eligible i gen d) (sessions d)
       then (case deriveSessionState i d of (st, d') \<Rightarrow> Inr (Some st, d'))
       else Inr (None, d))"

section \<open>Ordinary request history and maintenance\<close>

definition unsettled :: "op_state \<Rightarrow> bool" where
  "unsettled s \<longleftrightarrow> active_state s \<or> s = Uncertain"

definition admitOrdinaryIntent :: "string \<Rightarrow> db \<Rightarrow> unit res" where
  "admitOrdinaryIntent owner d =
     (if count_where (\<lambda>i. in_actor i = owner \<and> in_control_target i = None) (intents d) \<ge> 10000
      then Inl (HarborError 429 ''INTENT_QUOTA'') else Inr ())"

definition intent_expired :: "time \<Rightarrow> db \<Rightarrow> intent_row \<Rightarrow> bool" where
  "intent_expired at d i \<longleftrightarrow> in_created_at i < at - 86400000 \<and> key_ms (in_key i) < at - 86400000 \<and>
     \<not> exists_row (\<lambda>x. Some (op_id x) = json_text ''id'' (json_field ''operation'' (in_result i)) \<and>
        unsettled (op_state x)) (operations d)"

definition browser_expired :: "time \<Rightarrow> db \<Rightarrow> browser_row \<Rightarrow> bool" where
  "browser_expired at d b \<longleftrightarrow> br_expires_at b < at - 86400000 \<and>
     \<not> exists_row (\<lambda>x. op_actor x = br_hash b \<and> unsettled (op_state x)) (operations d)"

definition prune_all :: "time \<Rightarrow> db \<Rightarrow> db" where
  "prune_all at d = fold (\<lambda>s d. snd (pruneReplay at (se_id s) d)) (sessions d) d"

definition maintain :: "time \<Rightarrow> db \<Rightarrow> db" where
  "maintain at d0 = (let d = prune_all at d0 in d
     \<lparr> intents := delete_where (intent_expired at d) (intents d),
       login_states := delete_where (\<lambda>l. lg_expires_at l < at) (login_states d),
       browser_sessions := delete_where (browser_expired at d) (browser_sessions d),
       audits := delete_where (\<lambda>t. t < at - 30 * 86400000) (audits d) \<rparr>)"

text \<open>
  Maintenance forgets no credential or receipt that unsettled work still needs, and keeps the
  event log complete above its floor.
\<close>

lemma prune_all_frame: "\<exists>evs ses. prune_all at d = d\<lparr>events := evs, sessions := ses\<rparr>"
proof -
  have "\<exists>evs ses. fold (\<lambda>s d. snd (pruneReplay at (se_id s) d)) ss d' = d'\<lparr>events := evs, sessions := ses\<rparr>" for ss d'
  proof (induction ss arbitrary: d')
    case Nil
    have "d' = d'\<lparr>events := events d', sessions := sessions d'\<rparr>" by simp
    then show ?case by (metis fold_simps(1))
  next
    case (Cons s ss)
    obtain evs ses where p: "snd (pruneReplay at (se_id s) d') = d'\<lparr>events := evs, sessions := ses\<rparr>"
      using pruneReplay_frame by blast
    obtain evs' ses' where "fold (\<lambda>s d. snd (pruneReplay at (se_id s) d)) ss (d'\<lparr>events := evs, sessions := ses\<rparr>) =
        (d'\<lparr>events := evs, sessions := ses\<rparr>)\<lparr>events := evs', sessions := ses'\<rparr>" using Cons.IH by blast
    then show ?case using p by auto
  qed
  then show ?thesis by (simp add: prune_all_def)
qed

lemma prune_all_replay_ok: "replay_ok d \<Longrightarrow> replay_ok (prune_all at d)"
proof -
  have "replay_ok d' \<Longrightarrow> replay_ok (fold (\<lambda>s d. snd (pruneReplay at (se_id s) d)) ss d')" for ss d'
    by (induction ss arbitrary: d') (auto intro: pruneReplay_replay_ok)
  then show "replay_ok d \<Longrightarrow> ?thesis" by (simp add: prune_all_def)
qed

lemma maintain_replay_ok:
  assumes "replay_ok d" shows "replay_ok (maintain at d)"
  using prune_all_replay_ok [OF assms] by (simp add: maintain_def Let_def replay_ok_def event_seqs_def)

lemma maintain_keeps_actor:
  assumes "b \<in> set (browser_sessions d)" and "x \<in> set (operations d)"
    and "op_actor x = br_hash b" and "unsettled (op_state x)"
  shows "b \<in> set (browser_sessions (maintain at d))"
proof -
  obtain evs ses where "prune_all at d = d\<lparr>events := evs, sessions := ses\<rparr>" using prune_all_frame by blast
  then show ?thesis using assms by (auto simp: maintain_def Let_def set_delete_where browser_expired_def)
qed

section \<open>Properties\<close>

type_synonym event_request = "uuid \<times> string \<times> json"

definition event_op :: "env \<Rightarrow> event_request \<Rightarrow> db \<Rightarrow> db res" where
  "event_op e r d = (case r of (i, ty, data) \<Rightarrow> andThen (event e i ty data d) (\<lambda>(_, d'). Inr d'))"

interpretation event_log: invariant_ops "event_op e" replay_ok for e
  by unfold_locales (auto simp: event_op_def res_simps intro: event_replay_ok split: prod.splits)

lemma append_event_in:
  assumes "session_find i d = Some s"
  shows "\<exists>v \<in> set (events (snd (pruneReplay (now e) i (append_event e i ty data s d)))).
    ev_session v = i \<and> ev_sequence v = Suc (se_sequence s) \<and> ev_type v = ty \<and> ev_data v = data"
proof -
  let ?a = "append_event e i ty data s d"
  let ?v = "\<lparr> ev_session = i, ev_sequence = Suc (se_sequence s), ev_type = ty, ev_data = data, ev_created_at = now e \<rparr>"
  have sa: "session_find i ?a = Some (s\<lparr>se_sequence := Suc (se_sequence s), se_updated_at := now e\<rparr>)"
    using assms session_find_Some [OF assms] by (simp add: append_event_def)
  have "?v \<in> set (events ?a)" by (simp add: append_event_def)
  then have "?v \<in> set (events (snd (pruneReplay (now e) i ?a)))"
    using sa by (simp add: pruneReplay_def Let_def set_delete_where replay_expired_def REPLAY_LIMIT_def)
  then show ?thesis by (intro bexI [of _ ?v]) simp_all
qed

text \<open>Appending an event to an existing conversation always succeeds: it takes the next
  sequence number, is in the log afterwards, the log stays complete above the replay floor, and at
  most 2000 events of the conversation are kept.\<close>

theorem event_appends:
  assumes "replay_ok d" and "session_find i d = Some s"
  shows "\<exists>d'. event e i ty data d = Inr (Suc (se_sequence s), d') \<and> replay_ok d' \<and>
    (\<exists>v \<in> set (events d'). ev_session v = i \<and> ev_sequence v = Suc (se_sequence s) \<and> ev_type v = ty \<and> ev_data v = data) \<and>
    card (event_seqs i d') \<le> 2000"
proof -
  let ?d' = "snd (pruneReplay (now e) i (append_event e i ty data s d))"
  have ev: "event e i ty data d = Inr (Suc (se_sequence s), ?d')" using assms by (rule event_eq)
  show ?thesis
  proof (intro exI conjI)
    show "event e i ty data d = Inr (Suc (se_sequence s), ?d')" by (rule ev)
    show "replay_ok ?d'" using assms(1) ev by (rule event_replay_ok)
    show "card (event_seqs i ?d') \<le> 2000" using event_window [OF assms(1) ev] by (simp add: REPLAY_LIMIT_def)
  qed (rule append_event_in [OF assms(2)])
qed

theorem event_appends_witness:
  "\<exists>d'. event demo_env ''s'' ''x'' JNull demo_db = Inr (1, d') \<and> replay_ok d'"
proof -
  have "replay_ok demo_db" by (simp add: replay_ok_def event_seqs_def demo_defs)
  moreover have "session_find ''s'' demo_db = Some demo_session" by (simp add: session_find_def demo_defs)
  ultimately show ?thesis
    using event_appends [of demo_db "''s''" demo_session demo_env "''x''" JNull] by (simp add: demo_session_def) blast
qed

text \<open>The event log never loses an event between the replay floor and the newest sequence
  number, whatever events are appended to whatever conversations: a client that resumes from any
  sequence at or above the floor misses nothing.\<close>

theorem event_log_complete:
  assumes "replay_ok d" and "s \<in> set (sessions (serve (event_op e) reqs d))"
    and "se_replay_floor s < q" and "q \<le> se_sequence s"
  shows "\<exists>v \<in> set (events (serve (event_op e) reqs d)). ev_session v = se_id s \<and> ev_sequence v = q"
proof -
  have "replay_ok (serve (event_op e) reqs d)" using assms(1) by (rule event_log.serve_keeps)
  then have "q \<in> event_seqs (se_id s) (serve (event_op e) reqs d)"
    using assms(2-4) unfolding replay_ok_def by (meson greaterThanAtMost_iff subsetD)
  then show ?thesis by (auto simp: event_seqs_def)
qed

theorem event_log_complete_witness:
  "\<exists>v \<in> set (events (serve (event_op demo_env) [(''s'', ''x'', JNull), (''s'', ''y'', JNull)] demo_db)).
     ev_session v = ''s'' \<and> ev_sequence v = 2"
proof -
  let ?d = "serve (event_op demo_env) [(''s'', ''x'', JNull), (''s'', ''y'', JNull)] demo_db"
  have ok: "replay_ok demo_db" by (simp add: replay_ok_def event_seqs_def demo_defs)
  have "list_ex (\<lambda>s. se_id s = ''s'' \<and> se_replay_floor s = 0 \<and> se_sequence s = 2) (sessions ?d)" by code_simp
  then obtain s where s: "s \<in> set (sessions ?d)" "se_id s = ''s''" "se_replay_floor s = 0" "se_sequence s = 2"
    by (auto simp: list_ex_iff)
  show ?thesis using event_log_complete [OF ok s(1), of 2] s(2-4) by simp
qed

text \<open>C39: A running turn can always be stopped: while the conversation keeps its reserved slots,
  asking to cancel an active turn is accepted, also when the history is otherwise full, unless the
  caller is not authorised, the stop was already tried three times, or the fresh id is taken.\<close>

theorem cancel_always_available:
  assumes "replay_ok d" and "slots_kept (op_session t) d" and "find (\<lambda>x. op_id x = turn) (operations d) = Some t"
    and "op_kind t = TurnOp" and "active_state (op_state t)" and "lockSessionResource d (op_session t) = Inr ()"
    and "authorize d = Inr ()" and "fresh \<notin> op_id ` set (operations d)"
    and "\<And>c. c \<in> set (operations d) \<Longrightarrow> cancels (op_session t) turn c \<Longrightarrow> op_control_attempts c < 3"
  shows "\<exists>r d'. requestTurnCancellation e turn actor fresh authorize d = Inr (r, d')"
proof -
  have t: "t \<in> set (operations d)" "op_id t = turn" using find_Some_in [OF assms(3)] by auto
  show ?thesis
  proof (cases "find (cancels (op_session t) turn) (operations d)")
    case (Some p)
    then have "op_control_attempts p < 3" using assms(9) find_Some_in [OF Some] by auto
    then show ?thesis using assms t Some by (simp add: requestTurnCancellation_def)
  next
    case None
    let ?d = "d\<lparr>operations := operations d @ [cancel_row e fresh t actor]\<rparr>"
    have cap: "capacity (op_session t) CancelSlot d = Inr ()"
      using capacity_cancel_reserved [OF assms(2) t(1) refl assms(4,5)] None t(2) by simp
    obtain s where "session_find (op_session t) d = Some s" using lockSessionResource_session [OF assms(6)] by blast
    then have "session_find (op_session t) ?d = Some s" by (simp add: session_find_def)
    moreover have "replay_ok ?d" using assms(1) by (simp add: replay_ok_def event_seqs_def)
    ultimately obtain q d' where "event e (op_session t) ''cancel.requested'' (JObj [(''operationId'', JStr turn)]) ?d = Inr (q, d')"
      using event_eq by blast
    then show ?thesis using assms t None cap by (simp add: requestTurnCancellation_def insert_operation_def)
  qed
qed

definition full_db :: db where
  "full_db = demo_db\<lparr>sessions := [demo_session\<lparr>se_history_ceiling := 3\<rparr>]\<rparr>"

theorem cancel_always_available_witness:
  "\<exists>r d'. requestTurnCancellation demo_env ''t'' ''b'' ''c'' (\<lambda>_. Inr ()) full_db = Inr (r, d')"
proof (rule cancel_always_available)
  show "replay_ok full_db" by (simp add: replay_ok_def event_seqs_def full_db_def demo_defs)
  show "slots_kept (op_session demo_turn) full_db" by code_simp
  show "find (\<lambda>x. op_id x = ''t'') (operations full_db) = Some demo_turn" by (simp add: full_db_def demo_defs)
  show "lockSessionResource full_db (op_session demo_turn) = Inr ()" by code_simp
qed (simp_all add: full_db_def demo_defs active_state_def cancels_def)

text \<open>Cancelling is idempotent: while a stop is pending, asking again, by anyone who is
  authorised, answers with the same operation and changes nothing.\<close>

theorem cancel_idempotent:
  assumes "requestTurnCancellation e turn actor fresh authorize d = Inr ((i, Queued), d')"
    and "authorize' d' = Inr ()" and "distinct (map op_id (operations d))"
  shows "requestTurnCancellation e' turn actor' fresh' authorize' d' = Inr ((i, Queued), d')"
  using assms by (rule requestTurnCancellation_again)

theorem cancel_idempotent_witness:
  "\<exists>d'. requestTurnCancellation demo_env ''t'' ''b'' ''c'' (\<lambda>_. Inr ()) demo_db = Inr ((''c'', Queued), d') \<and>
     requestTurnCancellation demo_env ''t'' ''b'' ''z'' (\<lambda>_. Inr ()) d' = Inr ((''c'', Queued), d')"
proof -
  have "case requestTurnCancellation demo_env ''t'' ''b'' ''c'' (\<lambda>_. Inr ()) demo_db of
      Inl _ \<Rightarrow> False | Inr (r, _) \<Rightarrow> r = (''c'', Queued)" by code_simp
  then obtain d' where d': "requestTurnCancellation demo_env ''t'' ''b'' ''c'' (\<lambda>_. Inr ()) demo_db = Inr ((''c'', Queued), d')"
    by (auto split: sum.splits prod.splits)
  have "distinct (map op_id (operations demo_db))" by (simp add: demo_defs)
  from cancel_idempotent [OF d' refl this, of demo_env "''b''" "''z''"] d' show ?thesis by blast
qed

text \<open>The locks that any operation takes on conversations and their parents are acquired in
  one global order, without repetition, projects before workspaces before conversations, so two
  operations cannot wait for each other in a cycle; and the bindings of the conversations are those
  read before the locks were granted.\<close>

theorem locks_ordered:
  assumes "lockSessionResources before after ids = Inr ls"
  shows "sorted (map lock_rank ls) \<and> distinct ls \<and> {i. SessionLock i \<in> set ls} = set ids \<and>
    (\<forall>s \<in> set (sessions after). se_id s \<in> set ids \<longrightarrow>
       (\<exists>s0 \<in> set (sessions before). se_id s0 = se_id s \<and> se_project s0 = se_project s \<and> se_workspace s0 = se_workspace s))"
proof -
  have "{i. SessionLock i \<in> set ls} = set ids"
  proof (cases "ids = []")
    case True then show ?thesis using assms by (simp add: lockSessionResources_def)
  next
    case False
    then have "sort (remdups ids) \<noteq> []" by (metis set_empty set_remdups set_sort)
    then obtain ps ws where "ls = map ProjectLock ps @ map WorkspaceLock ws @ map SessionLock (sort (remdups ids))"
      using assms by (auto simp: lockSessionResources_def Let_def split: if_splits)
    then show ?thesis by auto
  qed
  then show ?thesis
    using lockSessionResources_Inr [OF assms] lockSessionResources_stable [OF assms] by blast
qed

theorem locks_ordered_witness:
  "sorted (map lock_rank [ProjectLock ''p'', WorkspaceLock ''w'', SessionLock ''s''])"
proof -
  have "lockSessionResources demo_db demo_db [''s'', ''s''] = Inr [ProjectLock ''p'', WorkspaceLock ''w'', SessionLock ''s'']"
    by code_simp
  from locks_ordered [OF this] show ?thesis by blast
qed

text \<open>The cached state of a conversation tells the truth: it is uncertain exactly when some
  turn has an unacknowledged uncertain outcome, and otherwise it is an active state exactly when
  some turn is active.\<close>

theorem session_state_truthful:
  "(fst (deriveSessionState i d) = SessionIn Uncertain \<longleftrightarrow>
      (\<exists>x \<in> set (operations d). op_session x = i \<and> op_kind x = TurnOp \<and> op_state x = Uncertain \<and> op_acknowledged_at x = None)) \<and>
   (fst (deriveSessionState i d) = SessionIn Uncertain \<or>
     (case fst (deriveSessionState i d) of Idle \<Rightarrow> False | SessionIn st \<Rightarrow> active_state st) =
      (\<exists>x \<in> set (operations d). op_session x = i \<and> op_kind x = TurnOp \<and> active_state (op_state x)))"
proof -
  let ?rows = "turn_states i d"
  have unc: "Uncertain \<in> set ?rows \<longleftrightarrow> (\<exists>x \<in> set (operations d). op_session x = i \<and> op_kind x = TurnOp \<and> op_state x = Uncertain \<and> op_acknowledged_at x = None)"
    by (auto simp: turn_states_set image_iff)
  have act: "(\<exists>s \<in> set ?rows. active_state s) \<longleftrightarrow> (\<exists>x \<in> set (operations d). op_session x = i \<and> op_kind x = TurnOp \<and> active_state (op_state x))"
    by (auto simp: turn_states_set active_state_def)
  have "(\<exists>s. x = SessionIn s \<and> active_state s) = (case x of Idle \<Rightarrow> False | SessionIn st \<Rightarrow> active_state st)" for x
    by (cases x) auto
  then show ?thesis
    using derived_state_uncertain [of ?rows] derived_state_active [of ?rows] unc act
    by (auto simp: deriveSessionState_def Let_def)
qed

text \<open>Maintenance keeps the event log complete above the floor and never deletes the
  browser session that unsettled work still names as its actor.\<close>

theorem maintenance_safe:
  assumes "replay_ok d"
  shows "replay_ok (maintain at d) \<and>
    (\<forall>b \<in> set (browser_sessions d). \<forall>x \<in> set (operations d). op_actor x = br_hash b \<and> unsettled (op_state x) \<longrightarrow>
       b \<in> set (browser_sessions (maintain at d)))"
  using assms maintain_replay_ok maintain_keeps_actor by blast

theorem maintenance_safe_witness:
  "demo_browser \<in> set (browser_sessions (maintain 999999999 demo_db))"
proof -
  have "replay_ok demo_db" by (simp add: replay_ok_def event_seqs_def demo_defs)
  from maintenance_safe [OF this, of 999999999] show ?thesis
    by (auto simp: unsettled_def active_state_def demo_db_def demo_turn_def demo_browser_def)
qed

end
