(* ===== verification/Workspaces.thy ===== *)
theory Workspaces
  imports Storage
begin

text \<open>
  Workspaces and who may write them: \<^verbatim>\<open>packages/workspaces/src/service.ts\<close> and
  \<^verbatim>\<open>create.ts\<close>, the reservation of a workspace for a conversation
  (\<^verbatim>\<open>apps/supervisor/src/workspace-admission.ts\<close>,
  \<^verbatim>\<open>workspace-recovery.ts\<close>) and the trigger that keeps the writer columns consistent
  (\<^verbatim>\<open>synchronize_workspace_writer\<close> of migration 014 and
  \<^verbatim>\<open>harbor_conversation_runtime_exclusion\<close> of migration 019).
\<close>

section \<open>The writer trigger\<close>

definition sync_writer :: "workspace_row \<Rightarrow> workspace_row \<Rightarrow> nat \<Rightarrow> (workspace_row \<times> nat) res" where
  "sync_writer old new seq =
     andThen (case ws_writer_session new of
         Some s \<Rightarrow>
           if ws_writer_kind new \<noteq> None \<and> ws_writer_kind new \<noteq> Some ConversationWriter
           then Inl (Crash ''workspace owner conflict'')
           else Inr (new\<lparr>ws_writer_kind := Some ConversationWriter, ws_writer_owner := Some s\<rparr>)
       | None \<Rightarrow> Inr (if ws_writer_kind new = Some ConversationWriter
           then new\<lparr>ws_writer_kind := None, ws_writer_owner := None\<rparr> else new)) (\<lambda>w.
     andThen (if ws_writer_owner w = None then Inr (w\<lparr>ws_writer_epoch := ws_writer_epoch old\<rparr>, seq)
         else if ws_writer_owner w \<noteq> ws_writer_owner old \<or> ws_writer_kind w \<noteq> ws_writer_kind old
         then Inr (w\<lparr>ws_writer_epoch := Suc seq\<rparr>, Suc seq)
         else if ws_writer_epoch w < ws_writer_epoch old
         then Inl (Crash ''workspace reservation epoch regression'')
         else Inr (w, seq)) (\<lambda>(w', seq').
     if (ws_writer_kind w' = None) \<noteq> (ws_writer_owner w' = None)
     then Inl (Crash ''workspace owner incomplete'')
     else Inr (w', seq')))"

definition runtime_exclusion :: "runtime_row list \<Rightarrow> workspace_row \<Rightarrow> unit res" where
  "runtime_exclusion rts w =
     (if ws_writer_owner w \<noteq> None \<and> exists_row (\<lambda>r. cr_workspace r = ws_id w) rts
      then Inl (Crash ''workspace has unconfirmed conversation runtimes'') else Inr ())"

fun sync_rows :: "(workspace_row \<Rightarrow> bool) \<Rightarrow> (workspace_row \<Rightarrow> workspace_row) \<Rightarrow> runtime_row list \<Rightarrow>
    workspace_row list \<Rightarrow> nat \<Rightarrow> (workspace_row list \<times> nat) res" where
  "sync_rows P f rts [] seq = Inr ([], seq)"
| "sync_rows P f rts (w # ws) seq =
     (if P w then
        andThen (sync_writer w (f w) seq) (\<lambda>(w', seq1).
        andThen (runtime_exclusion rts w') (\<lambda>_.
        andThen (sync_rows P f rts ws seq1) (\<lambda>(ws', seq2). Inr (w' # ws', seq2))))
      else andThen (sync_rows P f rts ws seq) (\<lambda>(ws', seq1). Inr (w # ws', seq1)))"

text \<open>\<^verbatim>\<open>UPDATE workspaces SET .. WHERE ..\<close>\<close>

definition update_workspaces ::
  "(workspace_row \<Rightarrow> bool) \<Rightarrow> (workspace_row \<Rightarrow> workspace_row) \<Rightarrow> db \<Rightarrow> db res" where
  "update_workspaces P f d =
     andThen (sync_rows P f (conversation_runtimes d) (workspaces d) (runtime_generation_seq d)) (\<lambda>(ws, seq).
       Inr (d\<lparr>workspaces := ws, runtime_generation_seq := seq\<rparr>))"

section \<open>Selecting and verifying a workspace\<close>

type_synonym selected = "workspace_row \<times> project_row"

definition selectedWorkspace :: "db \<Rightarrow> uuid \<Rightarrow> selected res" where
  "selectedWorkspace d i =
     first_row (HarborError 404 ''NOT_FOUND'')
       (case find (\<lambda>w. ws_id w = i) (workspaces d) of
          None \<Rightarrow> None
        | Some w \<Rightarrow> (case find (\<lambda>p. pj_id p = ws_project w) (projects d) of
            None \<Rightarrow> None | Some p \<Rightarrow> Some (w, p)))"

definition verified_path :: "env \<Rightarrow> selected \<Rightarrow> string option" where
  "verified_path e sel = (case sel of (w, p) \<Rightarrow>
     (case ws_canonical_path w of
        None \<Rightarrow> None
      | Some cp \<Rightarrow>
          if storage_socket e then
            (case find (\<lambda>(rid, path). starts_with (path @ ''/'') cp \<and>
                    (pj_root_id p = [] \<or> rid = pj_root_id p)) (project_roots e) of
               None \<Rightarrow> None
             | Some (rid, path) \<Rightarrow>
                 if storage_validate e rid (drop (length path + 1) cp) w then Some cp else None)
          else if cp = [] \<or> fs_realpath e cp \<noteq> Some cp then None
          else (case fs_identity e cp of
              None \<Rightarrow> None
            | Some (dev, ino) \<Rightarrow>
                if ws_device w = Some dev \<and> ws_inode w = Some ino then Some cp else None)))"

definition verifyWorkspace :: "env \<Rightarrow> selected \<Rightarrow> string res" where
  "verifyWorkspace e sel = first_row (HarborError 409 ''WORKSPACE_UNAVAILABLE'') (verified_path e sel)"

definition sessionWorkspace :: "db \<Rightarrow> uuid \<Rightarrow> selected res" where
  "sessionWorkspace d sess =
     andThen (first_row (HarborError 404 ''NOT_FOUND'') (session_find sess d)) (\<lambda>s.
       selectedWorkspace d (se_workspace s))"

lemma selectedWorkspace_Inr:
  "selectedWorkspace d i = Inr (w, p) \<Longrightarrow>
     w \<in> set (workspaces d) \<and> ws_id w = i \<and> p \<in> set (projects d) \<and> pj_id p = ws_project w \<and>
     find (\<lambda>w. ws_id w = i) (workspaces d) = Some w"
  by (auto simp: selectedWorkspace_def res_simps split: option.splits dest!: find_Some_in)

section \<open>Inspecting a workspace\<close>

record inspected =
  ix_available :: bool
  ix_git :: "bool option"
  ix_dirty :: "bool option"
  ix_head :: "string option"
  ix_snapshot :: "string option"

definition not_available :: inspected where
  "not_available = \<lparr> ix_available = False, ix_git = Some False, ix_dirty = Some False,
     ix_head = None, ix_snapshot = None \<rparr>"

text \<open>In the personal profile Git is not inspected: \<^verbatim>\<open>git: null, dirty: null\<close>.\<close>

definition inspect_result :: "env \<Rightarrow> selected \<Rightarrow> inspected option" where
  "inspect_result e sel =
     (if verified_path e sel = None then None
      else if personal_mode e
      then Some \<lparr> ix_available = True, ix_git = None, ix_dirty = None, ix_head = None, ix_snapshot = None \<rparr>
      else map_option (\<lambda>r. \<lparr> ix_available = True, ix_git = Some (is_git r), ix_dirty = Some (is_dirty r),
             ix_head = is_head r, ix_snapshot = is_snapshot_hash r \<rparr>)
           (storage_inspect e (pj_root_id (snd sel)) (fst sel)))"

definition inspectWorkspace :: "env \<Rightarrow> selected \<Rightarrow> db \<Rightarrow> (inspected \<times> workspace_row \<times> db) res" where
  "inspectWorkspace e sel d = (let w = fst sel in
     if ws_state w = WsRemoved then Inr (not_available, w, d)
     else case inspect_result e sel of
       Some r \<Rightarrow>
         let r' = r\<lparr>ix_dirty := (if ws_kind w = CopyWs
               then Some (\<not> some_holds (\<lambda>h. ws_snapshot_hash w = Some h) (ix_snapshot r)) else ix_dirty r)\<rparr>
         in if ws_state w = WsUnavailable
            then andThen (update_workspaces (\<lambda>x. ws_id x = ws_id w \<and> ws_state x = WsUnavailable)
                   (\<lambda>x. x\<lparr>ws_state := WsReady, ws_failure_code := None\<rparr>) d) (\<lambda>d'.
                 Inr (r', w\<lparr>ws_state := WsReady, ws_failure_code := None\<rparr>, d'))
            else Inr (r', w, d)
     | None \<Rightarrow>
         if ws_state w \<in> {WsReady, WsUnavailable}
         then andThen (update_workspaces (\<lambda>x. ws_id x = ws_id w \<and> ws_state x \<in> {WsReady, WsUnavailable})
                (\<lambda>x. x\<lparr>ws_state := WsUnavailable, ws_failure_code := Some ''WORKSPACE_UNAVAILABLE''\<rparr>) d) (\<lambda>d'.
              Inr (not_available, w\<lparr>ws_state := WsUnavailable,
                ws_failure_code := Some ''WORKSPACE_UNAVAILABLE''\<rparr>, d'))
         else Inr (not_available, w, d))"

section \<open>Idleness\<close>

definition storage_pending :: "uuid \<Rightarrow> db \<Rightarrow> bool" where
  "storage_pending proj d \<longleftrightarrow>
     exists_row (\<lambda>o'. so_project o' = proj \<and> so_state o' \<in> {StQueued, StDispatching}) (storage_operations d)"

text \<open>\<open>member\<close>: the workspace itself, or any workspace of its project.\<close>

definition workspace_member :: "bool \<Rightarrow> workspace_row \<Rightarrow> workspace_row \<Rightarrow> bool" where
  "workspace_member whole w x \<longleftrightarrow> (if whole then ws_project x = ws_project w else ws_id x = ws_id w)"

definition workspace_busy :: "bool \<Rightarrow> workspace_row \<Rightarrow> db \<Rightarrow> bool" where
  "workspace_busy whole w d \<longleftrightarrow>
     exists_row (\<lambda>x. workspace_member whole w x \<and> ws_writer_owner x \<noteq> None) (workspaces d) \<or>
     exists_row (\<lambda>r. exists_row (\<lambda>x. ws_id x = cr_workspace r \<and> workspace_member whole w x) (workspaces d))
       (conversation_runtimes d) \<or>
     exists_row (\<lambda>x. active_state (op_state x) \<and> exists_row (\<lambda>s. se_id s = op_session x \<and>
         (if whole then se_project s = ws_project w else se_workspace s = ws_id w)) (sessions d)) (operations d) \<or>
     exists_row (\<lambda>f. (if whole then fo_project f = ws_project w else fo_workspace f = ws_id w) \<and>
         fo_state f \<in> {FileQueued, FileDispatching}) (file_operations d) \<or>
     exists_row (\<lambda>t. (if whole then te_project t = ws_project w else te_workspace t = ws_id w) \<and>
         te_state t = TermQueued) (terminals d) \<or>
     exists_row (\<lambda>p. (if whole then pv_project p = ws_project w else pv_workspace p = ws_id w) \<and>
         (\<not> pv_retired p \<or> pv_state p = PvQueued)) (previews d)"

definition requireWorkspaceIdle :: "db \<Rightarrow> workspace_row \<Rightarrow> bool \<Rightarrow> unit res" where
  "requireWorkspaceIdle d w whole =
     (if storage_pending (ws_project w) d then Inl (HarborError 409 ''WORKSPACE_BUSY'')
      else if workspace_busy whole w d then Inl (HarborError 409 ''WORKSPACE_BUSY'')
      else Inr ())"

lemma requireWorkspaceIdle_iff [res_simps]:
  "requireWorkspaceIdle d w whole = Inr u \<longleftrightarrow> \<not> storage_pending (ws_project w) d \<and> \<not> workspace_busy whole w d"
  by (auto simp: requireWorkspaceIdle_def)

section \<open>Creating a workspace\<close>

datatype create_kind = CreateWorktree | CreateCopy
datatype dirty_policy = ExcludeDirty | SnapshotDirty

record create_input =
  ci_name :: string
  ci_kind :: create_kind
  ci_source :: uuid
  ci_revision :: "string option"
  ci_dirty :: dirty_policy

definition is_revision :: "string \<Rightarrow> bool" where
  "is_revision r \<longleftrightarrow> (length r = 40 \<or> length r = 64) \<and> list_all is_hex_lower r"

text \<open>\<^verbatim>\<open>createWorkspaceSchema.parse\<close>: the name is trimmed, 1 to 100 long.\<close>

definition parse_create :: "create_input \<Rightarrow> create_input res" where
  "parse_create b = (let n = trim (ci_name b) in
     if n = [] \<or> length n > 100 \<or> some_holds (\<lambda>r. \<not> is_revision r) (ci_revision b)
     then Inl (Crash ''ZodError'') else Inr (b\<lparr>ci_name := n\<rparr>))"

definition kind_of_create :: "create_kind \<Rightarrow> ws_kind" where
  "kind_of_create k = (case k of CreateWorktree \<Rightarrow> WorktreeWs | CreateCopy \<Rightarrow> CopyWs)"

definition new_workspace :: "uuid \<Rightarrow> uuid \<Rightarrow> string \<Rightarrow> ws_kind \<Rightarrow> uuid \<Rightarrow> workspace_row" where
  "new_workspace i proj name k src = \<lparr> ws_id = i, ws_project = proj, ws_name = name, ws_kind = k,
     ws_state = WsCreating, ws_relative_path = None, ws_canonical_path = None, ws_device = None,
     ws_inode = None, ws_common = None, ws_base_revision = None, ws_source_dirty = False,
     ws_snapshot_hash = None, ws_source_workspace = Some src, ws_writer_session = None,
     ws_writer_generation = None, ws_writer_kind = None, ws_writer_owner = None,
     ws_writer_epoch = 0, ws_failure_code = None \<rparr>"

definition option_json :: "string option \<Rightarrow> json" where
  "option_json x = (case x of None \<Rightarrow> JNull | Some s \<Rightarrow> JStr s)"

definition create_command :: "uuid \<Rightarrow> uuid \<Rightarrow> selected \<Rightarrow> create_input \<Rightarrow> inspected \<Rightarrow> json" where
  "create_command opid i sel b ix = JObj
     [(''action'', JStr ''workspaceCreate''), (''operationId'', JStr opid),
      (''rootId'', JStr (pj_root_id (snd sel))), (''relativePath'', JStr (pj_relative_path (snd sel))),
      (''workspaceId'', JStr i),
      (''kind'', JStr (case ci_kind b of CreateWorktree \<Rightarrow> ''worktree'' | CreateCopy \<Rightarrow> ''copy'')),
      (''source'', JObj [(''relativePath'', option_json (ws_relative_path (fst sel))),
         (''device'', option_json (ws_device (fst sel))), (''inode'', option_json (ws_inode (fst sel)))]),
      (''revision'', option_json (case ci_revision b of Some r \<Rightarrow> Some r | None \<Rightarrow> ix_head ix)),
      (''sourceSnapshot'', option_json (ix_snapshot ix))]"

definition counts_toward_quota :: "uuid \<Rightarrow> workspace_row \<Rightarrow> bool" where
  "counts_toward_quota proj w \<longleftrightarrow> ws_project w = proj \<and> ws_state w \<noteq> WsRemoved \<and>
     (ws_canonical_path w \<noteq> None \<or> ws_state w = WsCreating)"

definition source_policy_denied :: "create_input \<Rightarrow> inspected \<Rightarrow> bool" where
  "source_policy_denied b ix \<longleftrightarrow>
     (ci_kind b = CreateWorktree \<and> (ix_git ix \<noteq> Some True \<or> ci_dirty b \<noteq> ExcludeDirty)) \<or>
     (ci_kind b = CreateCopy \<and> (ix_git ix = Some True \<or> ci_dirty b \<noteq> SnapshotDirty))"

definition insert_storage :: "storage_row \<Rightarrow> db \<Rightarrow> db res" where
  "insert_storage r d =
     (if so_id r \<in> so_id ` set (storage_operations d) then Inl (Crash ''workspace_storage_operations_pkey'')
      else if so_state r \<in> {StQueued, StDispatching} \<and> storage_pending (so_project r) d
      then Inl (Crash ''workspace_storage_pending'')
      else Inr (d\<lparr>storage_operations := storage_operations d @ [r]\<rparr>))"

text \<open>
  \<open>i\<close> and \<open>opid\<close> are \<^verbatim>\<open>options.workspaceId ?? randomUUID()\<close> and
  \<^verbatim>\<open>options.operationId ?? randomUUID()\<close>.
\<close>

definition createWorkspace ::
  "env \<Rightarrow> uuid \<Rightarrow> create_input \<Rightarrow> string \<Rightarrow> uuid \<Rightarrow> uuid \<Rightarrow> (db \<Rightarrow> selected \<Rightarrow> unit res) \<Rightarrow>
     db \<Rightarrow> (selected \<times> db) res" where
  "createWorkspace e projectId input actor i opid authorize d =
     andThen (parse_create input) (\<lambda>b.
     andThen (case permission_ceiling e of None \<Rightarrow> Inr () | Some c \<Rightarrow> authorizePermission WorkspaceWrite c) (\<lambda>_.
     andThen (selectedWorkspace d (ci_source b)) (\<lambda>sel.
     andThen (authorize d sel) (\<lambda>_.
     if ws_project (fst sel) \<noteq> projectId then Inl (HarborError 403 ''PROJECT_DENIED'')
     else if pj_archived_at (snd sel) \<noteq> None \<or> ws_state (fst sel) \<noteq> WsReady
     then Inl (HarborError 409 ''WORKSPACE_UNAVAILABLE'')
     else andThen (requireWorkspaceIdle d (fst sel) True) (\<lambda>_.
     if count_where (counts_toward_quota (ws_project (fst sel))) (workspaces d) \<ge> 16
     then Inl (HarborError 429 ''WORKSPACE_QUOTA'')
     else andThen (inspectWorkspace e sel d) (\<lambda>(ix, _, d1).
     if \<not> ix_available ix then Inl (HarborError 409 ''WORKSPACE_UNAVAILABLE'')
     else if source_policy_denied b ix then Inl (HarborError 400 ''SOURCE_POLICY'')
     else andThen (authorize d1 sel) (\<lambda>_.
     if i \<in> ws_id ` set (workspaces d1) then Inl (Crash ''workspaces_pkey'')
     else let d2 = d1\<lparr>workspaces := workspaces d1 @
            [new_workspace i (ws_project (fst sel)) (ci_name b) (kind_of_create (ci_kind b)) (ws_id (fst sel))]\<rparr>
     in if count_where (\<lambda>o'. so_project o' = ws_project (fst sel)) (storage_operations d2) \<ge> 112
     then Inl (HarborError 429 ''WORKSPACE_HISTORY_QUOTA'')
     else andThen (insert_storage \<lparr> so_id = opid, so_workspace = i, so_project = ws_project (fst sel),
            so_action = StorageCreate, so_command = create_command opid i sel b ix, so_actor = actor,
            so_state = StQueued, so_result = None, so_failure_code = None,
            so_created_at = now e, so_updated_at = now e \<rparr> d2) (\<lambda>d3.
     andThen (selectedWorkspace d3 i) (\<lambda>v. Inr (v, d3))))))))))"

section \<open>Reserving a workspace for a conversation\<close>

definition file_effects_open :: "uuid \<Rightarrow> db \<Rightarrow> bool" where
  "file_effects_open proj d \<longleftrightarrow> exists_row (\<lambda>f. fo_project f = proj \<and>
     fo_kind f \<in> {FileStage, FileUnstage, FileCommit} \<and> fo_state f \<in> {FileDispatching, FileUncertain} \<and>
     fo_acknowledged_at f = None) (file_operations d)"

definition claimWorkspace :: "env \<Rightarrow> uuid \<Rightarrow> uuid \<Rightarrow> nat \<Rightarrow> bool \<Rightarrow> bool \<Rightarrow> db \<Rightarrow> (bool \<times> db) res" where
  "claimWorkspace e wid sess gen continuing sharedPersonal d =
     andThen (selectedWorkspace d wid) (\<lambda>sel. let w = fst sel in
     if ws_state w \<noteq> WsReady \<or> pj_archived_at (snd sel) \<noteq> None
     then Inl (Crash ''Workspace unavailable or archived'')
     else andThen (verifyWorkspace e sel) (\<lambda>_.
     if file_effects_open (ws_project w) d then Inr (False, d)
     else if (ws_writer_owner w \<noteq> None \<and>
          \<not> (continuing \<and> ws_writer_kind w = Some ConversationWriter \<and>
             ws_writer_session w = Some sess \<and> ws_writer_generation w = Some gen)) \<or>
        storage_pending (ws_project w) d then Inr (False, d)
     else if sharedPersonal then Inr (True, d)
     else if exists_row (\<lambda>r. cr_workspace r = wid) (conversation_runtimes d) then Inr (False, d)
     else andThen (update_workspaces (\<lambda>x. ws_id x = wid)
            (\<lambda>x. x\<lparr>ws_writer_session := Some sess, ws_writer_generation := Some gen\<rparr>) d) (\<lambda>d'.
          Inr (True, d'))))"

definition turn_unsettled :: "operation_row \<Rightarrow> bool" where
  "turn_unsettled x \<longleftrightarrow> op_kind x = TurnOp \<and> (dispatched_state (op_state x) \<or>
     op_state x = Uncertain \<and> op_acknowledged_at x = None)"

definition releaseWorkspace :: "uuid \<Rightarrow> nat \<Rightarrow> db \<Rightarrow> db res" where
  "releaseWorkspace sess gen d =
     (case session_find sess d of
        None \<Rightarrow> Inr d
      | Some s \<Rightarrow> andThen (selectedWorkspace d (se_workspace s)) (\<lambda>_.
          if exists_row (\<lambda>x. op_session x = sess \<and> turn_unsettled x) (operations d) then Inr d
          else update_workspaces (\<lambda>x. ws_id x = se_workspace s \<and> ws_writer_kind x = Some ConversationWriter \<and>
                 ws_writer_session x = Some sess \<and> ws_writer_generation x = Some gen)
               (\<lambda>x. x\<lparr>ws_writer_session := None, ws_writer_generation := None\<rparr>) d))"

definition releaseRecoveredWorkspace :: "env \<Rightarrow> uuid \<Rightarrow> uuid \<Rightarrow> nat \<Rightarrow> db \<Rightarrow> db res" where
  "releaseRecoveredWorkspace e wid sess gen d =
     andThen (selectedWorkspace d wid) (\<lambda>sel. let w = fst sel in
     if ws_writer_kind w \<noteq> Some ConversationWriter \<or> ws_writer_session w \<noteq> Some sess \<or>
        ws_writer_generation w \<noteq> Some gen then Inl (Crash ''RESERVATION_CHANGED'')
     else if exists_row (\<lambda>x. op_session x = sess \<and> op_kind x = TurnOp \<and> dispatched_state (op_state x)) (operations d)
     then Inl (Crash ''WORKSPACE_ACTIVE'')
     else update_workspaces (\<lambda>x. ws_id x = ws_id w)
            (\<lambda>x. x\<lparr>ws_writer_session := None, ws_writer_generation := None\<rparr>)
            (d\<lparr>operations := update_where (\<lambda>x. op_session x = sess \<and> op_state x = Queued)
               (\<lambda>x. x\<lparr>op_state := Failed, op_updated_at := now e\<rparr>) (operations d)\<rparr>))"

section \<open>Exclusive writers\<close>

text \<open>What the trigger and the table's CHECK constraints guarantee of every written row.\<close>

definition writer_ok :: "workspace_row \<Rightarrow> bool" where
  "writer_ok w \<longleftrightarrow> (ws_writer_kind w = None) = (ws_writer_owner w = None) \<and>
     (ws_writer_kind w = Some ConversationWriter) = (ws_writer_session w \<noteq> None) \<and>
     (ws_writer_session w \<noteq> None \<longrightarrow> ws_writer_owner w = ws_writer_session w)"

lemma sync_writer_ok: "sync_writer old new seq = Inr (w, seq') \<Longrightarrow> writer_ok w"
  by (auto simp: sync_writer_def writer_ok_def res_simps split: option.splits if_splits)

lemma sync_writer_epoch:
  assumes "sync_writer old new seq = Inr (w, seq')" and "ws_writer_epoch new = ws_writer_epoch old"
  shows "seq \<le> seq' \<and>
    (if ws_writer_owner w \<noteq> None \<and> (ws_writer_owner w \<noteq> ws_writer_owner old \<or> ws_writer_kind w \<noteq> ws_writer_kind old)
     then ws_writer_epoch w = Suc seq \<and> seq' = Suc seq else ws_writer_epoch w = ws_writer_epoch old \<and> seq' = seq)"
  using assms by (auto simp: sync_writer_def res_simps split: option.splits if_splits)

lemma sync_writer_fields:
  assumes "sync_writer old new seq = Inr (w, seq')"
  shows "ws_id w = ws_id new \<and> ws_project w = ws_project new \<and> ws_state w = ws_state new \<and>
    ws_canonical_path w = ws_canonical_path new \<and> ws_writer_session w = ws_writer_session new \<and>
    ws_writer_generation w = ws_writer_generation new"
  using assms by (auto simp: sync_writer_def res_simps split: option.splits if_splits)

text \<open>Every row of an update is either untouched or the trigger's answer for that row.\<close>

lemma sync_rows_nth:
  assumes "sync_rows P f rts ws seq = Inr (ws', seq')"
  shows "length ws' = length ws \<and> seq \<le> seq' \<and>
    (\<forall>k < length ws. if P (ws ! k)
       then (\<exists>s s'. seq \<le> s \<and> s' \<le> seq' \<and> sync_writer (ws ! k) (f (ws ! k)) s = Inr (ws' ! k, s') \<and>
               runtime_exclusion rts (ws' ! k) = Inr ())
       else ws' ! k = ws ! k)"
  using assms
proof (induction ws arbitrary: ws' seq)
  case (Cons w ws)
  have mono: "sync_writer w x s = Inr (y, s') \<Longrightarrow> s \<le> s'" for x s y s'
    by (auto simp: sync_writer_def res_simps split: option.splits if_splits)
  show ?case
  proof (cases "P w")
    case True
    then obtain w1 s1 ws1 where r: "sync_writer w (f w) seq = Inr (w1, s1)" "runtime_exclusion rts w1 = Inr ()"
      "sync_rows P f rts ws s1 = Inr (ws1, seq')" "ws' = w1 # ws1"
      using Cons.prems by (auto simp: res_simps)
    have ih: "length ws1 = length ws \<and> s1 \<le> seq' \<and>
      (\<forall>k < length ws. if P (ws ! k)
       then (\<exists>s s'. s1 \<le> s \<and> s' \<le> seq' \<and> sync_writer (ws ! k) (f (ws ! k)) s = Inr (ws1 ! k, s') \<and>
               runtime_exclusion rts (ws1 ! k) = Inr ()) else ws1 ! k = ws ! k)" by (rule Cons.IH [OF r(3)])
    have "seq \<le> s1" using mono [OF r(1)] .
    then show ?thesis using ih r True
      by (auto simp: nth_Cons split: nat.splits if_splits) (meson order_trans order_refl)+
  next
    case False
    then obtain ws1 where "sync_rows P f rts ws seq = Inr (ws1, seq')" "ws' = w # ws1"
      using Cons.prems by (auto simp: res_simps)
    then show ?thesis using Cons.IH [of seq ws1] False by (auto simp: nth_Cons split: nat.splits)
  qed
qed simp

lemma update_workspaces_frame:
  assumes "update_workspaces P f d = Inr d'"
  shows "\<exists>ws q. d' = d\<lparr>workspaces := ws, runtime_generation_seq := q\<rparr>"
  using assms by (auto simp: update_workspaces_def res_simps)

lemma update_workspaces_row:
  assumes "update_workspaces P f d = Inr d'" and "w' \<in> set (workspaces d')"
  obtains (kept) "w' \<in> set (workspaces d)" "\<not> P w'"
  | (written) w s s' where "w \<in> set (workspaces d)" "P w" "sync_writer w (f w) s = Inr (w', s')"
      "runtime_generation_seq d \<le> s" "s' \<le> runtime_generation_seq d'"
      "runtime_exclusion (conversation_runtimes d) w' = Inr ()"
proof -
  from assms(1) obtain ws q where r: "sync_rows P f (conversation_runtimes d) (workspaces d) (runtime_generation_seq d) = Inr (ws, q)"
    and d': "d' = d\<lparr>workspaces := ws, runtime_generation_seq := q\<rparr>"
    by (auto simp: update_workspaces_def res_simps)
  obtain k where k: "k < length ws" "w' = ws ! k" using assms(2) d' by (auto simp: in_set_conv_nth)
  note n = sync_rows_nth [OF r]
  then have len: "length ws = length (workspaces d)" by simp
  show thesis
  proof (cases "P (workspaces d ! k)")
    case True
    then obtain s s' where "runtime_generation_seq d \<le> s" "s' \<le> q"
      "sync_writer (workspaces d ! k) (f (workspaces d ! k)) s = Inr (ws ! k, s')"
      "runtime_exclusion (conversation_runtimes d) (ws ! k) = Inr ()"
      using n k len by metis
    then show thesis using True k len d' by (intro written [of "workspaces d ! k" s s']) auto
  next
    case False
    then have "ws ! k = workspaces d ! k" using n k by auto
    then show thesis using False k len by (intro kept) auto
  qed
qed

lemma update_workspaces_map:
  assumes "update_workspaces P f d = Inr d'"
    and "\<And>w w' s s'. P w \<Longrightarrow> sync_writer w (f w) s = Inr (w', s') \<Longrightarrow> g w' = g w"
  shows "map g (workspaces d') = map g (workspaces d)"
proof -
  from assms(1) obtain ws q where r: "sync_rows P f (conversation_runtimes d) (workspaces d) (runtime_generation_seq d) = Inr (ws, q)"
    and d': "d' = d\<lparr>workspaces := ws, runtime_generation_seq := q\<rparr>"
    by (auto simp: update_workspaces_def res_simps)
  note n = sync_rows_nth [OF r]
  have "map g ws = map g (workspaces d)"
  proof (rule nth_equalityI)
    show "length (map g ws) = length (map g (workspaces d))" using n by simp
    fix k assume "k < length (map g ws)"
    then show "map g ws ! k = map g (workspaces d) ! k"
      using n assms(2) by (cases "P (workspaces d ! k)") fastforce+
  qed
  then show ?thesis using d' by simp
qed

lemma update_workspaces_ok:
  assumes "update_workspaces P f d = Inr d'" and "\<forall>w \<in> set (workspaces d). writer_ok w"
  shows "\<forall>w \<in> set (workspaces d'). writer_ok w"
  using assms(2) by (auto elim!: update_workspaces_row [OF assms(1)] intro: sync_writer_ok)

text \<open>
  Reservation epochs are fencing tokens: they never exceed the sequence, so a row whose owner
  changes carries an epoch above every epoch issued before.
\<close>

definition epochs_ok :: "db \<Rightarrow> bool" where
  "epochs_ok d \<longleftrightarrow> (\<forall>w \<in> set (workspaces d). ws_writer_epoch w \<le> runtime_generation_seq d)"

lemma update_workspaces_seq:
  "update_workspaces P f d = Inr d' \<Longrightarrow> runtime_generation_seq d \<le> runtime_generation_seq d'"
  by (auto simp: update_workspaces_def res_simps dest: sync_rows_nth)

lemma update_workspaces_epochs:
  assumes "update_workspaces P f d = Inr d'" and "epochs_ok d"
    and "\<And>w. ws_writer_epoch (f w) = ws_writer_epoch w"
  shows "epochs_ok d'"
  unfolding epochs_ok_def
proof
  fix w' assume "w' \<in> set (workspaces d')"
  with assms(1) show "ws_writer_epoch w' \<le> runtime_generation_seq d'"
  proof (cases rule: update_workspaces_row)
    case kept then show ?thesis using assms(2) update_workspaces_seq [OF assms(1)] by (force simp: epochs_ok_def)
  next
    case (written w s s')
    then have "ws_writer_epoch w \<le> runtime_generation_seq d" using assms(2) by (simp add: epochs_ok_def)
    then show ?thesis
      using written sync_writer_epoch [OF written(3) assms(3)] update_workspaces_seq [OF assms(1)] by (auto split: if_splits)
  qed
qed

lemma update_workspaces_fenced:
  assumes "update_workspaces P f d = Inr d'" and "\<And>w. ws_writer_epoch (f w) = ws_writer_epoch w"
    and "w' \<in> set (workspaces d')" and "w' \<notin> set (workspaces d)" and "ws_writer_owner w' \<noteq> None"
    and "\<And>w. w \<in> set (workspaces d) \<Longrightarrow> P w \<Longrightarrow> ws_writer_owner w = None"
  shows "runtime_generation_seq d < ws_writer_epoch w'"
  using assms(1,3)
proof (cases rule: update_workspaces_row)
  case kept then show ?thesis using assms(4) by simp
next
  case (written w s s')
  then have "ws_writer_owner w = None" using assms(6) by auto
  then show ?thesis using sync_writer_epoch [OF written(3) assms(2)] assms(5) written(4) by auto
qed

lemma update_workspaces_ids:
  assumes "update_workspaces P f d = Inr d'" and "\<And>w. ws_id (f w) = ws_id w"
  shows "map ws_id (workspaces d') = map ws_id (workspaces d)"
  using assms(1) by (rule update_workspaces_map) (use assms(2) in \<open>auto dest!: sync_writer_fields\<close>)

lemma claimWorkspace_True:
  assumes "claimWorkspace e wid sess gen cont False d = Inr (True, d')"
  obtains w p where "selectedWorkspace d wid = Inr (w, p)" "ws_state w = WsReady" "pj_archived_at p = None"
    "verifyWorkspace e (w, p) = Inr (the (ws_canonical_path w))"
    "\<not> file_effects_open (ws_project w) d" "\<not> storage_pending (ws_project w) d"
    "\<not> exists_row (\<lambda>r. cr_workspace r = wid) (conversation_runtimes d)"
    "ws_writer_owner w \<noteq> None \<Longrightarrow> cont \<and> ws_writer_kind w = Some ConversationWriter \<and>
       ws_writer_session w = Some sess \<and> ws_writer_generation w = Some gen"
    "update_workspaces (\<lambda>x. ws_id x = wid)
       (\<lambda>x. x\<lparr>ws_writer_session := Some sess, ws_writer_generation := Some gen\<rparr>) d = Inr d'"
proof -
  obtain w p where sel: "selectedWorkspace d wid = Inr (w, p)"
    using assms by (auto simp: claimWorkspace_def res_simps)
  have path: "verifyWorkspace e (w, p) = Inr (the (ws_canonical_path w))" if "verifyWorkspace e (w, p) = Inr x" for x
    using that by (auto simp: verifyWorkspace_def verified_path_def res_simps split: option.splits if_splits)
  from assms sel show thesis
    by (intro that [OF sel]) (auto simp: claimWorkspace_def res_simps Let_def split: if_splits intro: path)
qed

lemma claimWorkspace_row:
  assumes "claimWorkspace e wid sess gen cont False d = Inr (True, d')" and "w' \<in> set (workspaces d')" and "ws_id w' = wid"
  shows "ws_writer_kind w' = Some ConversationWriter \<and> ws_writer_owner w' = Some sess \<and>
    ws_writer_session w' = Some sess \<and> ws_writer_generation w' = Some gen"
proof -
  have up: "update_workspaces (\<lambda>x. ws_id x = wid)
       (\<lambda>x. x\<lparr>ws_writer_session := Some sess, ws_writer_generation := Some gen\<rparr>) d = Inr d'"
    using assms(1) by (rule claimWorkspace_True)
  from up assms(2) show ?thesis
  proof (cases rule: update_workspaces_row)
    case kept then show ?thesis using assms(3) by simp
  next
    case (written w s s')
    then show ?thesis using sync_writer_fields [OF written(3)] sync_writer_ok [OF written(3)] by (auto simp: writer_ok_def)
  qed
qed

text \<open>While the reservation stands, only its own holder can claim the workspace again.\<close>

lemma claimWorkspace_excludes:
  assumes "claimWorkspace e wid sess gen cont False d = Inr (True, d')"
    and "claimWorkspace e' wid sess' gen' cont' shared d' = Inr (True, d'')"
  shows "cont' \<and> sess' = sess \<and> gen' = gen"
proof -
  obtain w p where sel: "selectedWorkspace d' wid = Inr (w, p)"
    using assms(2) by (auto simp: claimWorkspace_def res_simps)
  then have "w \<in> set (workspaces d')" "ws_id w = wid" by (auto dest: selectedWorkspace_Inr)
  then have "ws_writer_owner w = Some sess" "ws_writer_session w = Some sess" "ws_writer_generation w = Some gen"
    using claimWorkspace_row [OF assms(1)] by auto
  then show ?thesis using assms(2) sel
    by (auto simp: claimWorkspace_def res_simps Let_def split: if_splits)
qed

lemma claimWorkspace_fenced:
  assumes "claimWorkspace e wid sess gen cont False d = Inr (True, d')" and "epochs_ok d"
    and "distinct (map ws_id (workspaces d))" and "w \<in> set (workspaces d)" "ws_id w = wid" "ws_writer_owner w = None"
    and "w' \<in> set (workspaces d')" "ws_id w' = wid"
  shows "\<forall>v \<in> set (workspaces d). ws_writer_epoch v < ws_writer_epoch w'"
proof -
  have up: "update_workspaces (\<lambda>x. ws_id x = wid)
       (\<lambda>x. x\<lparr>ws_writer_session := Some sess, ws_writer_generation := Some gen\<rparr>) d = Inr d'"
    using assms(1) by (rule claimWorkspace_True)
  have owner: "ws_writer_owner w' \<noteq> None" using claimWorkspace_row [OF assms(1,7,8)] by simp
  have only: "v = w" if "v \<in> set (workspaces d)" "ws_id v = wid" for v
    using distinct_keyD [OF assms(3) that(1) assms(4)] that(2) assms(5) by simp
  have "w' \<notin> set (workspaces d)" using only [of w'] owner assms(6,8) by auto
  then have "runtime_generation_seq d < ws_writer_epoch w'"
    using owner only assms(6) by (intro update_workspaces_fenced [OF up _ assms(7)]) auto
  then show ?thesis using assms(2) by (auto simp: epochs_ok_def)
qed

text \<open>A release frees exactly the reservation it names, and never one with unsettled turns.\<close>

lemma releaseWorkspace_unsettled:
  assumes "releaseWorkspace sess gen d = Inr d'" and "x \<in> set (operations d)" "op_session x = sess" "turn_unsettled x"
  shows "d' = d"
  using assms by (auto simp: releaseWorkspace_def res_simps split: option.splits if_splits)

lemma releaseWorkspace_others:
  assumes "releaseWorkspace sess gen d = Inr d'" and "w \<in> set (workspaces d)"
    and "\<not> (ws_writer_session w = Some sess \<and> ws_writer_generation w = Some gen)"
    and "distinct (map ws_id (workspaces d))"
  shows "w \<in> set (workspaces d')"
proof -
  have "w \<in> set (workspaces d')"
    if up: "update_workspaces (\<lambda>x. ws_id x = i \<and> ws_writer_kind x = Some ConversationWriter \<and>
        ws_writer_session x = Some sess \<and> ws_writer_generation x = Some gen)
        (\<lambda>x. x\<lparr>ws_writer_session := None, ws_writer_generation := None\<rparr>) d = Inr d'" for i
  proof -
    obtain w' where w': "w' \<in> set (workspaces d')" "ws_id w' = ws_id w"
    proof -
      have "map ws_id (workspaces d') = map ws_id (workspaces d)" using up by (rule update_workspaces_ids) simp
      then have "ws_id w \<in> ws_id ` set (workspaces d')" using assms(2) by (metis image_eqI list.set_map)
      then show thesis by (auto intro: that)
    qed
    from up w'(1) show ?thesis
    proof (cases rule: update_workspaces_row)
      case kept then show ?thesis using distinct_keyD [OF assms(4) _ assms(2)] w' by auto
    next
      case (written v s s')
      then have "v = w" using distinct_keyD [OF assms(4) _ assms(2)] w' sync_writer_fields [OF written(3)] by auto
      then show ?thesis using written(2) assms(3) by simp
    qed
  qed
  then show ?thesis using assms(1,2)
    by (auto simp: releaseWorkspace_def res_simps split: option.splits if_splits)
qed

section \<open>Quotas on workspaces\<close>

lemma inspectWorkspace_frame:
  assumes "inspectWorkspace e sel d = Inr (ix, w, d')"
  shows "storage_operations d' = storage_operations d \<and> projects d' = projects d \<and>
    map ws_id (workspaces d') = map ws_id (workspaces d) \<and>
    count_where (counts_toward_quota p) (workspaces d') = count_where (counts_toward_quota p) (workspaces d)"
proof -
  have *: "storage_operations d' = storage_operations d \<and> projects d' = projects d \<and>
    map ws_id (workspaces d') = map ws_id (workspaces d) \<and>
    count_where (counts_toward_quota p) (workspaces d') = count_where (counts_toward_quota p) (workspaces d)"
    if up: "update_workspaces P (\<lambda>x. x\<lparr>ws_state := st, ws_failure_code := c\<rparr>) d = Inr d'"
      and S: "\<And>x. P x \<Longrightarrow> ws_state x \<in> {WsReady, WsUnavailable}" "st \<in> {WsReady, WsUnavailable}" for P st c
  proof -
    have "map (counts_toward_quota p) (workspaces d') = map (counts_toward_quota p) (workspaces d)"
      using up by (rule update_workspaces_map) (use S in \<open>fastforce dest!: sync_writer_fields S(1) simp: counts_toward_quota_def\<close>)
    then have "count_where (\<lambda>b. b) (map (counts_toward_quota p) (workspaces d')) =
      count_where (\<lambda>b. b) (map (counts_toward_quota p) (workspaces d))" by simp
    then have "count_where (counts_toward_quota p) (workspaces d') = count_where (counts_toward_quota p) (workspaces d)"
      by (simp add: count_where_def filter_map comp_def)
    then show ?thesis using up update_workspaces_ids [OF up] update_workspaces_frame [OF up] by fastforce
  qed
  show ?thesis using assms
    by (auto simp: inspectWorkspace_def Let_def res_simps split: if_splits option.splits
        dest!: *)
qed

lemma createWorkspace_Inr:
  assumes "createWorkspace e p input actor i opid auth d = Inr (v, d')"
  obtains b sel ix w d1 cmd where "parse_create input = Inr b" "selectedWorkspace d (ci_source b) = Inr sel"
    "ws_project (fst sel) = p" "auth d sel = Inr ()" "auth d1 sel = Inr ()"
    "requireWorkspaceIdle d (fst sel) True = Inr ()" "count_where (counts_toward_quota p) (workspaces d) < 16"
    "inspectWorkspace e sel d = Inr (ix, w, d1)" "ix_available ix" "\<not> source_policy_denied b ix"
    "i \<notin> ws_id ` set (workspaces d1)" "count_where (\<lambda>o'. so_project o' = p) (storage_operations d1) < 112"
    "d' = d1\<lparr>workspaces := workspaces d1 @ [new_workspace i p (ci_name b) (kind_of_create (ci_kind b)) (ws_id (fst sel))],
       storage_operations := storage_operations d1 @ [\<lparr> so_id = opid, so_workspace = i, so_project = p,
            so_action = StorageCreate, so_command = cmd, so_actor = actor,
            so_state = StQueued, so_result = None, so_failure_code = None,
            so_created_at = now e, so_updated_at = now e \<rparr>]\<rparr>"
    "\<not> storage_pending p d1" "opid \<notin> so_id ` set (storage_operations d1)"
proof -
  from assms obtain b where b: "parse_create input = Inr b" by (auto simp: createWorkspace_def res_simps)
  from assms b obtain sel where sel: "selectedWorkspace d (ci_source b) = Inr sel"
    by (auto simp: createWorkspace_def res_simps)
  from assms b sel obtain ix w d1 where ix: "inspectWorkspace e sel d = Inr (ix, w, d1)"
    by (auto simp: createWorkspace_def res_simps split: if_splits)
  show thesis
    using assms b sel ix
    by (intro that [OF b sel _ _ _ _ _ ix, of "create_command opid i sel b ix"])
      (auto simp: createWorkspace_def Let_def res_simps insert_storage_def storage_pending_def split: if_splits)
qed

lemma counts_new_workspace [simp]: "counts_toward_quota q (new_workspace i p n k s) \<longleftrightarrow> q = p"
  by (auto simp: counts_toward_quota_def new_workspace_def)

lemma ws_id_new_workspace [simp]: "ws_id (new_workspace i p n k s) = i"
  by (simp add: new_workspace_def)

type_synonym create_request = "env \<times> uuid \<times> create_input \<times> string \<times> uuid \<times> uuid \<times> (db \<Rightarrow> selected \<Rightarrow> unit res)"

definition create_op :: "create_request \<Rightarrow> db \<Rightarrow> db res" where
  "create_op r d = (case r of (e, p, input, actor, i, opid, auth) \<Rightarrow>
     andThen (createWorkspace e p input actor i opid auth d) (\<lambda>(_, d'). Inr d'))"

definition storage_single :: "db \<Rightarrow> bool" where
  "storage_single d \<longleftrightarrow> (\<forall>p. count_where (\<lambda>o'. so_project o' = p \<and> so_state o' \<in> {StQueued, StDispatching}) (storage_operations d) \<le> 1)"

lemma create_op_quota:
  "create_op r d = Inr d' \<Longrightarrow>
    count_where (counts_toward_quota q) (workspaces d') \<le> max 16 (count_where (counts_toward_quota q) (workspaces d))"
  by (cases r) (auto simp: create_op_def res_simps elim!: createWorkspace_Inr dest!: inspectWorkspace_frame [where p = q])

lemma create_op_history:
  "create_op r d = Inr d' \<Longrightarrow>
    count_where (\<lambda>o'. so_project o' = q) (storage_operations d') \<le> max 112 (count_where (\<lambda>o'. so_project o' = q) (storage_operations d))"
  by (cases r) (auto simp: create_op_def res_simps elim!: createWorkspace_Inr dest!: inspectWorkspace_frame [where p = q])

lemma create_op_single: "create_op r d = Inr d' \<Longrightarrow> storage_single d \<Longrightarrow> storage_single d'"
proof -
  assume op: "create_op r d = Inr d'" and ok: "storage_single d"
  from op obtain e p input actor i opid auth v where "createWorkspace e p input actor i opid auth d = Inr (v, d')"
    by (cases r) (auto simp: create_op_def res_simps)
  then show "storage_single d'"
  proof (rule createWorkspace_Inr)
    fix b sel ix w d1 cmd
    assume ins: "inspectWorkspace e sel d = Inr (ix, w, d1)" and none: "\<not> storage_pending p d1"
      and d': "d' = d1\<lparr>workspaces := workspaces d1 @ [new_workspace i p (ci_name b) (kind_of_create (ci_kind b)) (ws_id (fst sel))],
       storage_operations := storage_operations d1 @ [\<lparr> so_id = opid, so_workspace = i, so_project = p,
            so_action = StorageCreate, so_command = cmd, so_actor = actor,
            so_state = StQueued, so_result = None, so_failure_code = None,
            so_created_at = now e, so_updated_at = now e \<rparr>]\<rparr>"
    have "count_where (\<lambda>o'. so_project o' = p \<and> so_state o' \<in> {StQueued, StDispatching}) (storage_operations d1) = 0"
      using none by (auto simp: storage_pending_def count_where_0_iff)
    then show "storage_single d'"
      using ok d' inspectWorkspace_frame [OF ins, of p] by (simp add: storage_single_def)
  qed
qed

interpretation workspace_quota: bounded_ops create_op "\<lambda>d. count_where (counts_toward_quota q) (workspaces d)" 16 for q
  by unfold_locales (rule create_op_quota)

interpretation storage_history: bounded_ops create_op "\<lambda>d. count_where (\<lambda>o'. so_project o' = q) (storage_operations d)" 112 for q
  by unfold_locales (rule create_op_history)

interpretation storage_exclusive: invariant_ops create_op storage_single
  by unfold_locales (rule create_op_single)

section \<open>Properties\<close>

text \<open>C38: Once a conversation has claimed a workspace for itself, the workspace carries exactly
  that reservation and no other claim on it succeeds, whatever conversation, generation, mode or
  moment; only the holder, continuing its own generation, may claim it again.\<close>

theorem workspace_claim_exclusive:
  assumes "claimWorkspace e wid sess gen cont False d = Inr (True, d')"
  shows "(\<forall>w \<in> set (workspaces d'). ws_id w = wid \<longrightarrow> ws_writer_kind w = Some ConversationWriter \<and>
      ws_writer_session w = Some sess \<and> ws_writer_generation w = Some gen) \<and>
    (claimWorkspace e' wid sess' gen' cont' shared d' = Inr (True, d'') \<longrightarrow> cont' \<and> sess' = sess \<and> gen' = gen)"
  using claimWorkspace_row [OF assms] claimWorkspace_excludes [OF assms] by blast

theorem workspace_claim_exclusive_witness:
  "\<exists>d'. claimWorkspace demo_env ''w'' ''s'' 1 False False demo_db = Inr (True, d') \<and>
     claimWorkspace demo_env ''w'' ''z'' 1 False True d' \<noteq> Inr (True, d')"
proof -
  have "case claimWorkspace demo_env ''w'' ''s'' 1 False False demo_db of Inl _ \<Rightarrow> False | Inr (b, _) \<Rightarrow> b" by code_simp
  then obtain d' where d': "claimWorkspace demo_env ''w'' ''s'' 1 False False demo_db = Inr (True, d')"
    by (auto split: sum.splits)
  from workspace_claim_exclusive [OF this, of demo_env "''z''" 1 False True d'] d' show ?thesis by auto
qed

text \<open>Reservation epochs are fencing tokens: when a free workspace is claimed, the epoch it
  receives is above the epoch of every workspace row before the claim, so no earlier holder of any
  workspace can be mistaken for the new one; and epochs never run ahead of the sequence.\<close>

theorem workspace_claim_fenced:
  assumes "claimWorkspace e wid sess gen cont False d = Inr (True, d')" and "epochs_ok d"
    and "distinct (map ws_id (workspaces d))"
    and "w \<in> set (workspaces d)" and "ws_id w = wid" and "ws_writer_owner w = None"
  shows "epochs_ok d' \<and> (\<forall>w' \<in> set (workspaces d'). ws_id w' = wid \<longrightarrow>
     (\<forall>v \<in> set (workspaces d). ws_writer_epoch v < ws_writer_epoch w'))"
proof -
  have up: "update_workspaces (\<lambda>x. ws_id x = wid)
       (\<lambda>x. x\<lparr>ws_writer_session := Some sess, ws_writer_generation := Some gen\<rparr>) d = Inr d'"
    using assms(1) by (rule claimWorkspace_True)
  have "epochs_ok d'" using update_workspaces_epochs [OF up assms(2)] by simp
  then show ?thesis using claimWorkspace_fenced [OF assms] by blast
qed

theorem workspace_claim_fenced_witness:
  "\<exists>d'. claimWorkspace demo_env ''w'' ''s'' 1 False False demo_db = Inr (True, d') \<and>
     (\<forall>w' \<in> set (workspaces d'). ws_id w' = ''w'' \<longrightarrow> 0 < ws_writer_epoch w')"
proof -
  have "case claimWorkspace demo_env ''w'' ''s'' 1 False False demo_db of Inl _ \<Rightarrow> False | Inr (b, _) \<Rightarrow> b" by code_simp
  then obtain d' where d': "claimWorkspace demo_env ''w'' ''s'' 1 False False demo_db = Inr (True, d')"
    by (auto split: sum.splits)
  have "epochs_ok demo_db" "distinct (map ws_id (workspaces demo_db))" "demo_workspace \<in> set (workspaces demo_db)"
    "ws_id demo_workspace = ''w''" "ws_writer_owner demo_workspace = None" "ws_writer_epoch demo_workspace = 0"
    by (simp_all add: epochs_ok_def demo_defs)
  with workspace_claim_fenced [OF d', of demo_workspace] d' show ?thesis by fastforce
qed

text \<open>Releasing a conversation's reservation is a compare-and-set: every workspace that is
  not reserved by exactly this conversation and generation is left as it was, and while the
  conversation has a turn that is still running or unresolved, nothing is released at all.\<close>

theorem workspace_release_exact:
  assumes "releaseWorkspace sess gen d = Inr d'" and "distinct (map ws_id (workspaces d))"
  shows "(\<forall>w \<in> set (workspaces d). ws_writer_session w \<noteq> Some sess \<or> ws_writer_generation w \<noteq> Some gen \<longrightarrow> w \<in> set (workspaces d')) \<and>
    ((\<exists>x \<in> set (operations d). op_session x = sess \<and> turn_unsettled x) \<longrightarrow> d' = d)"
  using releaseWorkspace_others [OF assms(1) _ _ assms(2)] releaseWorkspace_unsettled [OF assms(1)] by blast

theorem workspace_release_exact_witness:
  "\<exists>d'. releaseWorkspace ''s'' 1 demo_db = Inr d' \<and> demo_workspace \<in> set (workspaces d')"
proof -
  have "succeeds (releaseWorkspace ''s'' 1 demo_db)" by code_simp
  then obtain d' where d': "releaseWorkspace ''s'' 1 demo_db = Inr d'" by (rule succeedsE)
  have "distinct (map ws_id (workspaces demo_db))" by (simp add: demo_defs)
  from workspace_release_exact [OF d' this] d' show ?thesis by (auto simp: demo_db_def demo_workspace_def)
qed

text \<open>Whatever workspaces are requested, in whatever order: a project never has more than
  16 workspaces, never more than 112 recorded storage operations, and never two storage operations
  in flight.\<close>

theorem workspace_quotas:
  assumes "count_where (counts_toward_quota p) (workspaces d) \<le> 16"
    and "count_where (\<lambda>x. so_project x = p) (storage_operations d) \<le> 112" and "storage_single d"
  shows "count_where (counts_toward_quota p) (workspaces (serve create_op reqs d)) \<le> 16 \<and>
    count_where (\<lambda>x. so_project x = p) (storage_operations (serve create_op reqs d)) \<le> 112 \<and>
    storage_single (serve create_op reqs d)"
  using workspace_quota.serve_bounded [OF assms(1)] storage_history.serve_bounded [OF assms(2)]
    storage_exclusive.serve_keeps [OF assms(3)] by blast

definition demo_create :: "uuid \<Rightarrow> create_request" where
  "demo_create i = (demo_env, ''p'', \<lparr> ci_name = ''N'', ci_kind = CreateWorktree, ci_source = ''w'',
     ci_revision = None, ci_dirty = ExcludeDirty \<rparr>, ''b'', i, ''o'' @ i, \<lambda>_ _. Inr ())"

definition idle_db :: db where
  "idle_db = demo_db\<lparr>operations := []\<rparr>"

theorem workspace_quotas_witness:
  "length (workspaces (serve create_op [demo_create ''1'', demo_create ''2''] idle_db)) = 2 \<and>
   storage_single (serve create_op [demo_create ''1'', demo_create ''2''] idle_db)"
proof -
  have "storage_single idle_db" by (simp add: storage_single_def idle_db_def demo_defs)
  moreover have "count_where (counts_toward_quota ''p'') (workspaces idle_db) \<le> 16"
    "count_where (\<lambda>x. so_project x = ''p'') (storage_operations idle_db) \<le> 112" by code_simp+
  moreover have "length (workspaces (serve create_op [demo_create ''1'', demo_create ''2''] idle_db)) = 2" by code_simp
  ultimately show ?thesis using workspace_quotas [of "''p''" idle_db] by blast
qed

end
