(* ===== verification/Schedule_Admission.thy ===== *)
theory Schedule_Admission
  imports Schedule_Capacity Workspaces
begin

text \<open>
  Creating a schedule and admitting its occurrences: \<^verbatim>\<open>admission.ts\<close>,
  \<^verbatim>\<open>schema.ts\<close>, \<^verbatim>\<open>targets.ts\<close> and
  \<^verbatim>\<open>queue.ts\<close> of \<^verbatim>\<open>packages/schedules/src\<close>. Fresh identifiers
  (\<^verbatim>\<open>randomUUID\<close>) are arguments; the unique indexes of migration
  \<^verbatim>\<open>schedules\<close> are the \<open>Crash\<close> branches of \<open>insert_occurrence\<close>.
\<close>

section \<open>The schema of a schedule\<close>

record schedule_input =
  si_title :: string
  si_project :: uuid
  si_prompt :: string
  si_config :: schedule_config
  si_days :: nat

definition reasoning_effort :: "string \<Rightarrow> bool" where
  "reasoning_effort x \<longleftrightarrow> x \<in> {''low'', ''medium'', ''high'', ''xhigh'', ''max''}"

fun rule_shape :: "rule \<Rightarrow> bool" where
  "rule_shape (Once local tz) \<longleftrightarrow> length local \<le> 16 \<and> length tz \<le> 100"
| "rule_shape (Cron expr tz) \<longleftrightarrow> expr \<noteq> [] \<and> length expr \<le> 200 \<and> length tz \<le> 100"

definition config_shape :: "schedule_config \<Rightarrow> bool" where
  "config_shape c \<longleftrightarrow> (case cf_mode c of
       Standalone \<Rightarrow> cf_source_workspace c \<noteq> None \<and> cf_source_policy c \<noteq> None \<and>
         \<not> (cf_source_policy c = Some Snapshot \<and> cf_base_revision c \<noteq> None) \<and> cf_session c = None
     | Existing \<Rightarrow> cf_session c \<noteq> None \<and> cf_source_workspace c = None \<and> cf_source_policy c = None \<and>
         cf_base_revision c = None)"

definition config_valid :: "env \<Rightarrow> schedule_config \<Rightarrow> bool" where
  "config_valid e c \<longleftrightarrow> rule_shape (cf_rule c) \<and>
     (case cf_source_workspace c of None \<Rightarrow> True | Some i \<Rightarrow> valid_uuid e i) \<and>
     (case cf_session c of None \<Rightarrow> True | Some i \<Rightarrow> valid_uuid e i) \<and>
     (case cf_base_revision c of None \<Rightarrow> True | Some r \<Rightarrow> is_revision r) \<and>
     cf_model c \<noteq> [] \<and> length (cf_model c) \<le> 100 \<and> reasoning_effort (cf_effort c) \<and> config_shape c"

definition parse_schedule :: "env \<Rightarrow> schedule_input \<Rightarrow> schedule_input res" where
  "parse_schedule e i = (let t = trim (si_title i); p = trim (si_prompt i) in
     if length (si_title i) > 160 \<or> t = [] \<or> \<not> valid_uuid e (si_project i) \<or>
        length (si_prompt i) > 32768 \<or> p = [] \<or> \<not> config_valid e (si_config i) \<or>
        si_days i < 1 \<or> si_days i > 90
     then Inl (Crash ''ZodError'') else Inr (i\<lparr>si_title := t, si_prompt := p\<rparr>))"

lemma parse_schedule_Inr:
  "parse_schedule e i = Inr b \<Longrightarrow> config_valid e (si_config b) \<and> 1 \<le> si_days b \<and> si_days b \<le> 90 \<and>
     b = i\<lparr>si_title := trim (si_title i), si_prompt := trim (si_prompt i)\<rparr>"
  by (auto simp: parse_schedule_def Let_def split: if_split_asm)

section \<open>The target workspace\<close>

definition target_unavailable :: "'a res" where
  "target_unavailable = Inl (HarborError 409 ''WORKSPACE_UNAVAILABLE'')"

lemma target_unavailable_neq [simp]: "target_unavailable \<noteq> Inr x" "Inr x \<noteq> target_unavailable"
  by (simp_all add: target_unavailable_def)

definition optional_workspace :: "(uuid \<Rightarrow> selected res) \<Rightarrow> uuid option \<Rightarrow> selected res" where
  "optional_workspace look i = (case i of None \<Rightarrow> Inl (HarborError 404 ''NOT_FOUND'') | Some x \<Rightarrow> look x)"

definition scheduleTarget :: "env \<Rightarrow> uuid \<Rightarrow> schedule_config \<Rightarrow> db \<Rightarrow> (selected \<times> db) res" where
  "scheduleTarget e proj c d =
     andThen (case cf_mode c of
         Standalone \<Rightarrow> optional_workspace (selectedWorkspace d) (cf_source_workspace c)
       | Existing \<Rightarrow> optional_workspace (sessionWorkspace d) (cf_session c)) (\<lambda>sel.
     if ws_project (fst sel) \<noteq> proj \<or> pj_archived_at (snd sel) \<noteq> None \<or> ws_state (fst sel) \<noteq> WsReady
     then target_unavailable
     else if cf_mode c = Standalone
     then andThen (inspectWorkspace e sel d) (\<lambda>(ix, _, d1).
       if \<not> ix_available ix then target_unavailable
       else if ix_git ix \<noteq> Some (cf_source_policy c = Some Committed) then Inl (HarborError 409 ''SOURCE_POLICY'')
       else Inr (sel, d1))
     else Inr (sel, d))"

text \<open>Inspecting a workspace may change its availability and nothing else.\<close>

definition ws_only :: "db \<Rightarrow> db \<Rightarrow> bool" where
  "ws_only d d' \<longleftrightarrow> (\<exists>ws q. d' = d\<lparr>workspaces := ws, runtime_generation_seq := q\<rparr>)"

lemma ws_only_refl [simp]: "ws_only d d"
  unfolding ws_only_def by (intro exI [of _ "workspaces d"] exI [of _ "runtime_generation_seq d"]) simp

lemma ws_onlyD:
  assumes "ws_only d d'"
  shows "schedules d' = schedules d" "schedule_versions d' = schedule_versions d"
    "schedule_grants d' = schedule_grants d" "schedule_occurrences d' = schedule_occurrences d"
    "schedule_commands d' = schedule_commands d" "queue_jobs d' = queue_jobs d" "api_tokens d' = api_tokens d"
  using assms by (auto simp: ws_only_def)

lemma inspectWorkspace_ws_only: "inspectWorkspace e sel d = Inr (ix, w, d') \<Longrightarrow> ws_only d d'"
  unfolding inspectWorkspace_def Let_def
  by (auto simp: andThen_eq_Inr ws_only_def dest: update_workspaces_frame split: if_split_asm option.split_asm
      intro: ws_only_refl [unfolded ws_only_def])

lemma scheduleTarget_ws_only: "scheduleTarget e p c d = Inr (sel, d') \<Longrightarrow> ws_only d d'"
  by (auto simp: scheduleTarget_def andThen_eq_Inr dest: inspectWorkspace_ws_only split: if_split_asm)

section \<open>Creating a schedule\<close>

definition manage_profile :: "schedule_config \<Rightarrow> profile" where
  "manage_profile c = (case cf_mode c of Standalone \<Rightarrow> WorkspaceWrite | Existing \<Rightarrow> cf_profile c)"

definition manage_need :: "scope \<Rightarrow> uuid \<Rightarrow> schedule_config \<Rightarrow> need" where
  "manage_need sc proj c = \<lparr> nd_project = Some proj, nd_scope = Some sc, nd_profile = Some (manage_profile c),
     nd_internal = None \<rparr>"

definition within_ceiling :: "env \<Rightarrow> profile \<Rightarrow> unit res" where
  "within_ceiling e p = (case permission_ceiling e of None \<Rightarrow> Inr () | Some c \<Rightarrow> authorizePermission p c)"

definition schedule_quota_full :: "uuid \<Rightarrow> db \<Rightarrow> bool" where
  "schedule_quota_full proj d \<longleftrightarrow> length (schedules d) \<ge> 256 \<or>
     count_where (\<lambda>s. sc_project s = proj) (schedules d) \<ge> 64 \<or>
     count_where (\<lambda>s. sc_state s = Enabled) (schedules d) \<ge> 64 \<or>
     count_where (\<lambda>s. sc_project s = proj \<and> sc_state s = Enabled) (schedules d) \<ge> 16"

definition grant_expiry :: "env \<Rightarrow> uuid option \<Rightarrow> nat \<Rightarrow> db \<Rightarrow> time" where
  "grant_expiry e tok days d = (let t = now e + int days * 86400000 in
     case tok of None \<Rightarrow> t
     | Some i \<Rightarrow> (case find (\<lambda>k. tk_id k = i) (api_tokens d) of None \<Rightarrow> t | Some k \<Rightarrow> min t (tk_expires_at k)))"

text \<open>The refusals before the quota check, and the authority that is found.\<close>

definition create_checks :: "env \<Rightarrow> string \<Rightarrow> schedule_input \<Rightarrow> db \<Rightarrow> authority res" where
  "create_checks e actor b d =
     (if meta_emergency d then Inl (HarborError 409 ''EMERGENCY_STOPPED'')
      else andThen (requireAuthority e d actor (manage_need SchedulesManage (si_project b) (si_config b))) (\<lambda>a.
      andThen (deploymentAdmission d False) (\<lambda>_.
      andThen (requireAuthority e d actor (manage_need Execute (si_project b) (si_config b))) (\<lambda>_.
      if au_kind a = ScheduleAuthority then Inl (HarborError 403 ''SCHEDULE_AUTHORITY'')
      else andThen (within_ceiling e (manage_profile (si_config b))) (\<lambda>_.
      andThen (effectiveSettings e d (cf_model (si_config b)) (cf_effort (si_config b))) (\<lambda>_.
      if \<not> exists_row (\<lambda>p. pj_id p = si_project b \<and> pj_archived_at p = None) (projects d)
      then Inl (HarborError 409 ''PROJECT_UNAVAILABLE'')
      else if schedule_quota_full (si_project b) d then Inl (HarborError 429 ''SCHEDULE_QUOTA'')
      else Inr a))))))"

definition new_schedule :: "env \<Rightarrow> uuid \<Rightarrow> uuid \<Rightarrow> schedule_input \<Rightarrow> minute \<Rightarrow> schedule_row" where
  "new_schedule e sid gid b m = \<lparr> sc_id = sid, sc_project = si_project b, sc_title = si_title b,
     sc_config_revision = 1, sc_rule_revision = 1, sc_grant_epoch = 1, sc_state = Enabled, sc_reason = None,
     sc_cursor_at = scheduler_now e, sc_next_due_at = Some (mn_instant m), sc_last_observed_at = None,
     sc_last_planned_at = None, sc_time_fingerprint = time_fingerprint e, sc_catch_up = None,
     sc_last_pruned = None, sc_active_grant = Some gid, sc_updated_at = now e \<rparr>"

definition new_version :: "env \<Rightarrow> uuid \<Rightarrow> nat \<Rightarrow> nat \<Rightarrow> schedule_config \<Rightarrow> string \<Rightarrow> version_row" where
  "new_version e sid n k c prompt = \<lparr> sv_schedule = sid, sv_revision = n, sv_rule_revision = k,
     sv_config = c, sv_prompt = prompt, sv_prompt_hash = hash e prompt \<rparr>"

definition new_grant :: "env \<Rightarrow> uuid \<Rightarrow> uuid \<Rightarrow> nat \<Rightarrow> nat \<Rightarrow> uuid option \<Rightarrow> nat \<Rightarrow> bool \<Rightarrow> db \<Rightarrow> grant_row" where
  "new_grant e gid sid n epoch tok days one d = \<lparr> gr_id = gid, gr_schedule = sid, gr_config_revision = n,
     gr_epoch = epoch, gr_pin = identity_pin e, gr_instance = instance_id e, gr_source_pat = tok,
     gr_expires_at = grant_expiry e tok days d, gr_revoked = False, gr_one_shot = one, gr_created_at = now e \<rparr>"

definition createActivatedSchedule ::
  "env \<Rightarrow> string \<Rightarrow> schedule_input \<Rightarrow> uuid \<Rightarrow> uuid \<Rightarrow> db \<Rightarrow> ((uuid \<times> uuid \<times> nat \<times> minute list) \<times> db) res" where
  "createActivatedSchedule e actor input sid gid d =
     andThen (parse_schedule e input) (\<lambda>b.
     andThen (create_checks e actor b d) (\<lambda>a.
     andThen (scheduleTarget e (si_project b) (si_config b) d) (\<lambda>(_, d1).
     andThen (nextMinutes (calendar_of e) (cf_rule (si_config b)) (scheduler_now e) 8) (\<lambda>preview.
     case preview of [] \<Rightarrow> Inl (Crash ''TypeError'')
     | m # _ \<Rightarrow>
       let c = (si_config b)\<lparr>cf_rule := set_timezone (mn_timezone m) (cf_rule (si_config b))\<rparr> in
       andThen (requireAuthority e d1 actor (manage_need SchedulesManage (si_project b) (si_config b))) (\<lambda>_.
       andThen (requireAuthority e d1 actor (manage_need Execute (si_project b) (si_config b))) (\<lambda>_.
       if sid \<in> sc_id ` set (schedules d1) then Inl (Crash ''schedules_pkey'')
       else if gid \<in> gr_id ` set (schedule_grants d1) then Inl (Crash ''schedule_grants_pkey'')
       else Inr ((sid, gid, 1, preview),
         d1\<lparr>schedules := schedules d1 @ [new_schedule e sid gid b m],
            schedule_versions := schedule_versions d1 @ [new_version e sid 1 1 c (si_prompt b)],
            schedule_grants := schedule_grants d1 @ [new_grant e gid sid 1 1 (au_token a) (si_days b) False d1]\<rparr>)))))))"

section \<open>Inserting an occurrence\<close>

definition enqueueOccurrence :: "uuid \<Rightarrow> nat \<Rightarrow> db \<Rightarrow> db res" where
  "enqueueOccurrence i epoch d =
     (if i \<in> fst ` set (queue_jobs d) then Inl (Crash ''Schedule occurrence queue identity conflict'')
      else Inr (d\<lparr>queue_jobs := queue_jobs d @ [(i, epoch)]\<rparr>))"

definition insert_occurrence :: "occurrence_row \<Rightarrow> db \<Rightarrow> db res" where
  "insert_occurrence r d =
     (if exists_row (\<lambda>x. oc_id x = oc_id r) (schedule_occurrences d) then Inl (Crash ''schedule_occurrences_pkey'')
      else if exists_row (\<lambda>x. oc_turn x = oc_turn r \<or> oc_storage_operation x = oc_storage_operation r \<or>
          oc_cancel_operation x = oc_cancel_operation r) (schedule_occurrences d)
      then Inl (Crash ''schedule_occurrences_key'')
      else if oc_kind r = Recurring \<and> oc_local_minute r \<noteq> None \<and>
          exists_row (\<lambda>x. oc_kind x = Recurring \<and> oc_schedule x = oc_schedule r \<and>
            oc_rule_revision x = oc_rule_revision r \<and> oc_local_minute x = oc_local_minute r) (schedule_occurrences d)
      then Inl (Crash ''schedule_recurring_identity'')
      else if occ_unresolved r \<and> exists_row (\<lambda>x. oc_schedule x = oc_schedule r \<and> occ_unresolved x) (schedule_occurrences d)
      then Inl (Crash ''schedule_one_active'')
      else Inr (d\<lparr>schedule_occurrences := schedule_occurrences d @ [r]\<rparr>))"

text \<open>The fresh identifiers of one occurrence.\<close>

record occ_ids =
  oi_id :: uuid
  oi_turn :: uuid
  oi_storage :: uuid
  oi_session :: uuid
  oi_workspace :: uuid
  oi_cancel :: uuid

definition occurrence_place :: "occ_ids \<Rightarrow> schedule_row \<Rightarrow> schedule_config \<Rightarrow> db \<Rightarrow> (uuid \<times> uuid) res" where
  "occurrence_place ids s c d = (case cf_mode c of
       Standalone \<Rightarrow> Inr (oi_session ids, oi_workspace ids)
     | Existing \<Rightarrow> (case cf_session c of
           None \<Rightarrow> Inl (HarborError 409 ''SCHEDULE_TARGET'')
         | Some i \<Rightarrow> (case find (\<lambda>x. se_id x = i \<and> se_project x = sc_project s) (sessions d) of
               None \<Rightarrow> Inl (HarborError 409 ''SCHEDULE_TARGET'')
             | Some x \<Rightarrow> Inr (i, se_workspace x))))"

definition source_revision :: "schedule_config \<Rightarrow> inspected \<Rightarrow> string option res" where
  "source_revision c ix =
     (if ix_git ix = Some True
      then (case (case cf_base_revision c of Some r \<Rightarrow> Some r | None \<Rightarrow> ix_head ix) of
          None \<Rightarrow> target_unavailable
        | Some r \<Rightarrow> if is_revision r then Inr (Some r) else target_unavailable)
      else Inr None)"

definition occurrence_source :: "env \<Rightarrow> schedule_row \<Rightarrow> schedule_config \<Rightarrow> db \<Rightarrow> (string option \<times> db) res" where
  "occurrence_source e s c d = (case cf_mode c of
       Existing \<Rightarrow> Inr (None, d)
     | Standalone \<Rightarrow>
         andThen (optional_workspace (selectedWorkspace d) (cf_source_workspace c)) (\<lambda>sel.
         if ws_project (fst sel) \<noteq> sc_project s \<or> pj_archived_at (snd sel) \<noteq> None \<or> ws_state (fst sel) \<noteq> WsReady
         then target_unavailable
         else andThen (requireWorkspaceIdle d (fst sel) True) (\<lambda>_.
         andThen (inspectWorkspace e sel d) (\<lambda>(ix, _, d1).
         if \<not> ix_available ix then target_unavailable
         else if ix_git ix \<noteq> Some (cf_source_policy c = Some Committed) then Inl (HarborError 409 ''SOURCE_POLICY'')
         else andThen (source_revision c ix) (\<lambda>r. Inr (r, d1))))))"

definition new_occurrence ::
  "env \<Rightarrow> occ_ids \<Rightarrow> schedule_row \<Rightarrow> schedule_config \<Rightarrow> string \<Rightarrow> occ_kind \<Rightarrow> time \<Rightarrow> minute option \<Rightarrow>
     string option \<Rightarrow> uuid \<times> uuid \<Rightarrow> occurrence_row" where
  "new_occurrence e ids s c prompt kind intended m src place = \<lparr> oc_id = oi_id ids, oc_schedule = sc_id s,
     oc_config_revision = sc_config_revision s, oc_rule_revision = sc_rule_revision s, oc_grant = sc_active_grant s,
     oc_kind = kind, oc_local_minute = map_option mn_local m, oc_intended_at = intended,
     oc_snapshot = (case m of Some x \<Rightarrow> AdmittedMinute (sc_config_revision s) src x
       | None \<Rightarrow> AdmittedManual (sc_config_revision s) src intended (rule_timezone (cf_rule c))),
     oc_prompt = Some prompt, oc_state = Accepted, oc_reason = None, oc_workspace = snd place,
     oc_session = fst place, oc_turn = oi_turn ids, oc_storage_operation = oi_storage ids,
     oc_cancel_operation = oi_cancel ids, oc_acknowledged_at = None, oc_started_at = None,
     oc_ended_at = None, oc_updated_at = now e \<rparr>"

definition occurrence_need :: "occ_ids \<Rightarrow> schedule_row \<Rightarrow> schedule_config \<Rightarrow> need" where
  "occurrence_need ids s c = \<lparr> nd_project = Some (sc_project s), nd_scope = Some Execute,
     nd_profile = Some (cf_profile c), nd_internal = Some (case cf_mode c of
       Standalone \<Rightarrow> (WorkspaceWork, oi_storage ids) | Existing \<Rightarrow> (TurnWork, oi_turn ids)) \<rparr>"

definition occurrence_actor :: "schedule_row \<Rightarrow> uuid \<Rightarrow> string" where
  "occurrence_actor s i = scheduleActor (case sc_active_grant s of None \<Rightarrow> ''null'' | Some g \<Rightarrow> g) i"

text \<open>
  \<open>s\<close>, \<open>c\<close> and \<open>prompt\<close> are the code's \<^verbatim>\<open>row\<close>: the schedule's row, its
  configuration and its prompt. The two branches of the code on the workspace mode are
  \<open>occurrence_place\<close> and \<open>occurrence_source\<close>.
\<close>

definition insertOccurrence ::
  "env \<Rightarrow> schedule_row \<Rightarrow> schedule_config \<Rightarrow> string \<Rightarrow> occ_kind \<Rightarrow> time \<Rightarrow> minute option \<Rightarrow> occ_ids \<Rightarrow> db \<Rightarrow>
     (uuid \<times> db) res" where
  "insertOccurrence e s c prompt kind intended m ids d =
     andThen (occurrence_place ids s c d) (\<lambda>place.
     andThen (occurrence_source e s c d) (\<lambda>(src, d1).
     andThen (insert_occurrence (new_occurrence e ids s c prompt kind intended m src place) d1) (\<lambda>d2.
     andThen (requireAuthority e d2 (occurrence_actor s (oi_id ids)) (occurrence_need ids s c)) (\<lambda>_.
     andThen (first_row (Crash ''TypeError'')
         (find (\<lambda>g. Some (gr_id g) = sc_active_grant s) (schedule_grants d2))) (\<lambda>g.
     andThen (enqueueOccurrence (oi_id ids) (gr_epoch g) d2) (\<lambda>d3. Inr (oi_id ids, d3)))))))"

section \<open>Admitting a recurring occurrence\<close>

text \<open>What the planner saw when it chose the minute.\<close>

record expectation =
  ex_config_revision :: nat
  ex_rule_revision :: nat
  ex_grant :: "uuid option"
  ex_batch :: batch

definition recurring_find :: "uuid \<Rightarrow> nat option \<Rightarrow> string \<Rightarrow> db \<Rightarrow> occurrence_row option" where
  "recurring_find sid k lm d = find (\<lambda>r. oc_schedule r = sid \<and> oc_kind r = Recurring \<and>
     oc_local_minute r = Some lm \<and> k = Some (oc_rule_revision r)) (schedule_occurrences d)"

definition expectation_met :: "expectation \<Rightarrow> schedule_row \<Rightarrow> bool" where
  "expectation_met x s \<longleftrightarrow> sc_config_revision s = ex_config_revision x \<and> sc_rule_revision s = ex_rule_revision x \<and>
     ex_grant x \<noteq> None \<and> sc_active_grant s = ex_grant x \<and> sc_catch_up s = Some (ex_batch x)"

definition unresolved_total :: "db \<Rightarrow> nat" where
  "unresolved_total d = count_where occ_unresolved (schedule_occurrences d)"

definition unresolved_of :: "uuid \<Rightarrow> db \<Rightarrow> nat" where
  "unresolved_of sid d = count_where (\<lambda>r. oc_schedule r = sid \<and> occ_unresolved r) (schedule_occurrences d)"

definition update_schedule :: "uuid \<Rightarrow> (schedule_row \<Rightarrow> schedule_row) \<Rightarrow> db \<Rightarrow> db" where
  "update_schedule sid f d = d\<lparr>schedules := update_where (\<lambda>s. sc_id s = sid) f (schedules d)\<rparr>"

text \<open>The refusals between the row lock and the insertion.\<close>

definition admission_checks :: "env \<Rightarrow> schedule_row \<Rightarrow> uuid option \<Rightarrow> minute \<Rightarrow> expectation option \<Rightarrow> db \<Rightarrow> unit res" where
  "admission_checks e s hint m expected d =
     (if (case expected of None \<Rightarrow> False | Some x \<Rightarrow> \<not> expectation_met x s) \<or> sc_state s \<noteq> Enabled \<or>
         mn_instant m \<le> sc_cursor_at s \<or> sc_active_grant s \<noteq> hint
      then Inl (HarborError 409 ''SCHEDULE_CHANGED'')
      else if mn_instant m > scheduler_now e then Inl (HarborError 409 ''SCHEDULE_NOT_DUE'')
      else if unresolved_total d \<ge> 256 then Inl (HarborError 429 ''SCHEDULE_ACTIVE_QUOTA'')
      else if unresolved_of (sc_id s) d > 0 then Inl (HarborError 409 ''SCHEDULE_OVERLAP'')
      else Inr ())"

text \<open>From the global admission lock on; \<open>hint\<close> is the grant read before it.\<close>

definition admit_locked ::
  "env \<Rightarrow> uuid \<Rightarrow> minute \<Rightarrow> time option \<Rightarrow> expectation option \<Rightarrow> uuid option \<Rightarrow> occ_ids \<Rightarrow> db \<Rightarrow> ((uuid \<times> bool) \<times> db) res" where
  "admit_locked e sid m next expected hint ids d =
     (case schedule_find sid d of None \<Rightarrow> Inl (Crash ''TypeError'') | Some s \<Rightarrow>
      (case version_find sid (sc_config_revision s) d of None \<Rightarrow> Inl (Crash ''TypeError'') | Some v \<Rightarrow>
       (case recurring_find sid (Some (case expected of None \<Rightarrow> sc_rule_revision s | Some x \<Rightarrow> ex_rule_revision x)) (mn_local m) d of
          Some r \<Rightarrow> Inr ((oc_id r, True), d)
        | None \<Rightarrow>
            andThen (admission_checks e s hint m expected d) (\<lambda>_.
            andThen (occurrenceCapacity e sid d) (\<lambda>d1.
            if all_history d1 \<ge> 8192 \<or> own_history sid d1 \<ge> 256 then history_quota
            else andThen (insertOccurrence e s (sv_config v) (sv_prompt v) Recurring (mn_instant m) (Some m) ids d1) (\<lambda>(i, d2).
            Inr ((i, False), update_schedule sid (\<lambda>s. s\<lparr>sc_cursor_at := mn_instant m, sc_next_due_at := next,
              sc_last_observed_at := Some (scheduler_now e), sc_updated_at := now e\<rparr>) d2)))))))"

definition admitRecurringOccurrence ::
  "env \<Rightarrow> uuid \<Rightarrow> minute \<Rightarrow> time option \<Rightarrow> expectation option \<Rightarrow> occ_ids \<Rightarrow> db \<Rightarrow> ((uuid \<times> bool) \<times> db) res" where
  "admitRecurringOccurrence e sid m next expected ids d =
     (case recurring_find sid (case expected of Some x \<Rightarrow> Some (ex_rule_revision x)
          | None \<Rightarrow> map_option sc_rule_revision (schedule_find sid d)) (mn_local m) d of
        Some r \<Rightarrow> Inr ((oc_id r, True), d)
      | None \<Rightarrow> (case schedule_find sid d of
            None \<Rightarrow> Inl (HarborError 409 ''SCHEDULE_PAUSED'')
          | Some hint \<Rightarrow> (case sc_active_grant hint of
                None \<Rightarrow> Inl (HarborError 409 ''SCHEDULE_PAUSED'')
              | Some gid \<Rightarrow>
                  andThen (first_row (Crash ''TypeError'') (grant_find gid d)) (\<lambda>g.
                  andThen (case gr_source_pat g of None \<Rightarrow> Inr ()
                    | Some p \<Rightarrow> andThen (requireAuthority e d (''pat:'' @ p) (no_need\<lparr>nd_scope := Some SchedulesManage\<rparr>)) (\<lambda>_. Inr ())) (\<lambda>_.
                  andThen (deploymentAdmission d False) (\<lambda>_.
                  admit_locked e sid m next expected (Some gid) ids d))))))"

section \<open>What an insertion does\<close>

lemma new_occurrence_simps [simp]:
  "oc_id (new_occurrence e ids s c p k t m src pl) = oi_id ids"
  "oc_schedule (new_occurrence e ids s c p k t m src pl) = sc_id s"
  "oc_config_revision (new_occurrence e ids s c p k t m src pl) = sc_config_revision s"
  "oc_rule_revision (new_occurrence e ids s c p k t m src pl) = sc_rule_revision s"
  "oc_kind (new_occurrence e ids s c p k t m src pl) = k"
  "oc_local_minute (new_occurrence e ids s c p k t m src pl) = map_option mn_local m"
  "oc_state (new_occurrence e ids s c p k t m src pl) = Accepted"
  "oc_grant (new_occurrence e ids s c p k t m src pl) = sc_active_grant s"
  "oc_intended_at (new_occurrence e ids s c p k t m src pl) = t"
  "oc_prompt (new_occurrence e ids s c p k t m src pl) = Some p"
  "oc_turn (new_occurrence e ids s c p k t m src pl) = oi_turn ids"
  "oc_storage_operation (new_occurrence e ids s c p k t m src pl) = oi_storage ids"
  "occ_unresolved (new_occurrence e ids s c p k t m src pl)"
  by (simp_all add: new_occurrence_def occ_unresolved_def)

lemma occurrence_source_ws_only:
  assumes "occurrence_source e s c d = Inr (src, d1)"
  shows "ws_only d d1"
proof (cases "cf_mode c")
  case Existing
  with assms show ?thesis by (simp add: occurrence_source_def)
next
  case Standalone
  with assms obtain sel ix w where "inspectWorkspace e sel d = Inr (ix, w, d1)"
    by (auto simp: occurrence_source_def andThen_eq_Inr split: if_split_asm)
  then show ?thesis by (rule inspectWorkspace_ws_only)
qed

lemma insert_occurrence_Inr:
  assumes "insert_occurrence r d = Inr d'"
  shows "d' = d\<lparr>schedule_occurrences := schedule_occurrences d @ [r]\<rparr>"
    "\<And>x. x \<in> set (schedule_occurrences d) \<Longrightarrow> oc_id x \<noteq> oc_id r"
    "\<And>x. x \<in> set (schedule_occurrences d) \<Longrightarrow> oc_schedule x = oc_schedule r \<Longrightarrow> occ_unresolved r \<Longrightarrow> \<not> occ_unresolved x"
    "\<And>x. x \<in> set (schedule_occurrences d) \<Longrightarrow> oc_kind r = Recurring \<Longrightarrow> oc_kind x = Recurring \<Longrightarrow>
       oc_schedule x = oc_schedule r \<Longrightarrow> oc_rule_revision x = oc_rule_revision r \<Longrightarrow>
       oc_local_minute r \<noteq> None \<Longrightarrow> oc_local_minute x \<noteq> oc_local_minute r"
  using assms by (auto simp: insert_occurrence_def split: if_split_asm)

definition inserted :: "db \<Rightarrow> occurrence_row \<Rightarrow> nat \<Rightarrow> db \<Rightarrow> db" where
  "inserted d r epoch d1 = d1\<lparr>schedule_occurrences := schedule_occurrences d @ [r],
     queue_jobs := queue_jobs d @ [(oc_id r, epoch)]\<rparr>"

lemma inserted_simps [simp]:
  "schedule_occurrences (inserted d r n d1) = schedule_occurrences d @ [r]"
  "queue_jobs (inserted d r n d1) = queue_jobs d @ [(oc_id r, n)]"
  "schedules (inserted d r n d1) = schedules d1" "schedule_versions (inserted d r n d1) = schedule_versions d1"
  "schedule_grants (inserted d r n d1) = schedule_grants d1" "schedule_commands (inserted d r n d1) = schedule_commands d1"
  by (simp_all add: inserted_def)

lemma insertOccurrence_Inr:
  assumes "insertOccurrence e s c prompt kind t m ids d = Inr (i, d')"
  obtains d1 src place g a where "i = oi_id ids" "ws_only d d1"
    "d' = inserted d (new_occurrence e ids s c prompt kind t m src place) (gr_epoch g) d1"
    "insert_occurrence (new_occurrence e ids s c prompt kind t m src place) d1 =
       Inr (d1\<lparr>schedule_occurrences := schedule_occurrences d @ [new_occurrence e ids s c prompt kind t m src place]\<rparr>)"
    "requireAuthority e (d1\<lparr>schedule_occurrences := schedule_occurrences d @ [new_occurrence e ids s c prompt kind t m src place]\<rparr>)
       (occurrence_actor s (oi_id ids)) (occurrence_need ids s c) = Inr a"
    "g \<in> set (schedule_grants d)" "Some (gr_id g) = sc_active_grant s"
proof -
  from assms obtain place src d1 d2 a g d3 where place: "occurrence_place ids s c d = Inr place"
    and src: "occurrence_source e s c d = Inr (src, d1)"
    and ins: "insert_occurrence (new_occurrence e ids s c prompt kind t m src place) d1 = Inr d2"
    and auth: "requireAuthority e d2 (occurrence_actor s (oi_id ids)) (occurrence_need ids s c) = Inr a"
    and g: "find (\<lambda>g. Some (gr_id g) = sc_active_grant s) (schedule_grants d2) = Some g"
    and q: "enqueueOccurrence (oi_id ids) (gr_epoch g) d2 = Inr d3" and r: "i = oi_id ids" "d' = d3"
    by (auto simp: insertOccurrence_def andThen_eq_Inr first_row_eq_Inr)
  note w = occurrence_source_ws_only [OF src]
  note d2 = insert_occurrence_Inr(1) [OF ins] 
  have d2': "d2 = d1\<lparr>schedule_occurrences := schedule_occurrences d @ [new_occurrence e ids s c prompt kind t m src place]\<rparr>"
    using d2 ws_onlyD(4) [OF w] by simp
  have d3: "d3 = d2\<lparr>queue_jobs := queue_jobs d2 @ [(oi_id ids, gr_epoch g)]\<rparr>"
    using q by (simp add: enqueueOccurrence_def split: if_split_asm)
  have "schedule_grants d2 = schedule_grants d" using d2' ws_onlyD(3) [OF w] by simp
  then have "g \<in> set (schedule_grants d)" "Some (gr_id g) = sc_active_grant s" using find_Some_in [OF g] by simp_all
  moreover have "d' = inserted d (new_occurrence e ids s c prompt kind t m src place) (gr_epoch g) d1"
    using r d3 d2' ws_onlyD(6) [OF w] by (simp add: inserted_def)
  ultimately show thesis using that r(1) w ins auth d2' by blast
qed

section \<open>What an admission does\<close>

lemma update_schedule_simps [simp]:
  "schedule_occurrences (update_schedule i f d) = schedule_occurrences d"
  "schedule_versions (update_schedule i f d) = schedule_versions d"
  "schedule_grants (update_schedule i f d) = schedule_grants d"
  "schedule_commands (update_schedule i f d) = schedule_commands d"
  "queue_jobs (update_schedule i f d) = queue_jobs d"
  "schedules (update_schedule i f d) = update_where (\<lambda>s. sc_id s = i) f (schedules d)"
  by (simp_all add: update_schedule_def)

lemma admission_checks_Inr:
  assumes "admission_checks e s hint m expected d = Inr u"
  shows "sc_state s = Enabled" "sc_cursor_at s < mn_instant m" "sc_active_grant s = hint"
    "mn_instant m \<le> scheduler_now e" "unresolved_total d < 256" "unresolved_of (sc_id s) d = 0"
    "\<And>x. expected = Some x \<Longrightarrow> expectation_met x s"
  using assms by (auto simp: admission_checks_def split: if_split_asm)

definition moved :: "env \<Rightarrow> minute \<Rightarrow> time option \<Rightarrow> schedule_row \<Rightarrow> schedule_row" where
  "moved e m next s = s\<lparr>sc_cursor_at := mn_instant m, sc_next_due_at := next,
     sc_last_observed_at := Some (scheduler_now e), sc_updated_at := now e\<rparr>"

lemma admit_locked_new:
  assumes "admit_locked e sid m next expected hint ids d = Inr ((i, False), d')"
  obtains s :: schedule_row and v :: version_row and d1 d2 where "schedule_find sid d = Some s" "version_find sid (sc_config_revision s) d = Some v"
    "admission_checks e s hint m expected d = Inr ()" "occurrenceCapacity e sid d = Inr d1"
    "all_history d1 < 8192" "own_history sid d1 < 256"
    "insertOccurrence e s (sv_config v) (sv_prompt v) Recurring (mn_instant m) (Some m) ids d1 = Inr (i, d2)"
    "d' = update_schedule sid (moved e m next) d2"
proof -
  from assms obtain s where s: "schedule_find sid d = Some s" by (auto simp: admit_locked_def split: option.splits)
  from assms s obtain v where v: "version_find sid (sc_config_revision s) d = Some v"
    by (auto simp: admit_locked_def split: option.splits)
  note k = assms [unfolded admit_locked_def s v option.case]
  have "recurring_find sid (Some (case expected of None \<Rightarrow> sc_rule_revision s | Some x \<Rightarrow> ex_rule_revision x)) (mn_local m) d = None"
    using k by (auto split: option.split_asm)
  note k1 = k [unfolded this option.case]
  have mv: "(\<lambda>s. s\<lparr>sc_cursor_at := mn_instant m, sc_next_due_at := next,
     sc_last_observed_at := Some (scheduler_now e), sc_updated_at := now e\<rparr>) = moved e m next"
    by (simp add: fun_eq_iff moved_def)
  from k1 obtain d1 where c: "admission_checks e s hint m expected d = Inr ()" "occurrenceCapacity e sid d = Inr d1"
    and r: "\<not> (all_history d1 \<ge> 8192 \<or> own_history sid d1 \<ge> 256)"
    and ins: "andThen (insertOccurrence e s (sv_config v) (sv_prompt v) Recurring (mn_instant m) (Some m) ids d1)
       (\<lambda>(i, d2). Inr ((i, False), update_schedule sid (moved e m next) d2)) = Inr ((i, False), d')"
    unfolding mv by (auto simp: andThen_eq_Inr split: if_split_asm)
  from ins obtain d2 where "insertOccurrence e s (sv_config v) (sv_prompt v) Recurring (mn_instant m) (Some m) ids d1 = Inr (i, d2)"
    "d' = update_schedule sid (moved e m next) d2"
    by (auto simp: andThen_eq_Inr)
  then show thesis using that [OF s v c] r by simp
qed

lemma admitRecurringOccurrence_new:
  assumes "admitRecurringOccurrence e sid m next expected ids d = Inr ((i, False), d')"
  obtains hint gid where "schedule_find sid d = Some hint" "sc_active_grant hint = Some gid"
    "admit_locked e sid m next expected (Some gid) ids d = Inr ((i, False), d')"
    "recurring_find sid (case expected of Some x \<Rightarrow> Some (ex_rule_revision x)
          | None \<Rightarrow> map_option sc_rule_revision (schedule_find sid d)) (mn_local m) d = None"
proof -
  let ?f = "recurring_find sid (case expected of Some x \<Rightarrow> Some (ex_rule_revision x)
          | None \<Rightarrow> map_option sc_rule_revision (schedule_find sid d)) (mn_local m) d"
  have f: "?f = None" using assms by (auto simp: admitRecurringOccurrence_def split: option.split_asm)
  note k = assms [unfolded admitRecurringOccurrence_def f option.case]
  from k obtain hint where h: "schedule_find sid d = Some hint" by (auto split: option.split_asm)
  from k [unfolded h option.case] obtain gid where g: "sc_active_grant hint = Some gid"
    by (auto split: option.split_asm)
  from k [unfolded h g option.case] have "admit_locked e sid m next expected (Some gid) ids d = Inr ((i, False), d')"
    by (auto simp: andThen_eq_Inr)
  with that h g f show thesis by blast
qed

lemma prune_frameD:
  assumes "prune_frame d' = prune_frame d"
  shows "schedule_versions d' = schedule_versions d" "schedule_grants d' = schedule_grants d"
    "queue_jobs d' = queue_jobs d" "api_tokens d' = api_tokens d" "operations d' = operations d"
    "map (\<lambda>s. s\<lparr>sc_last_pruned := None\<rparr>) (schedules d') = map (\<lambda>s. s\<lparr>sc_last_pruned := None\<rparr>) (schedules d)"
  using arg_cong [OF assms, of schedule_versions] arg_cong [OF assms, of schedule_grants]
    arg_cong [OF assms, of queue_jobs] arg_cong [OF assms, of api_tokens] arg_cong [OF assms, of operations]
    arg_cong [OF assms, of schedules]
  by (simp_all add: prune_frame_def)

lemma schedule_actor_grant:
  assumes "requireAuthority e d (scheduleActor gid oid) n = Inr a"
  shows "\<exists>g \<in> set (schedule_grants d). gr_id g = gid \<and> \<not> gr_revoked g \<and> now e < gr_expires_at g"
  using assms
proof (rule requireAuthority_schedule)
  fix kind target g s r v
  assume "grant_join e d gid oid = Some (g, s, r, v)"
  note j = grant_join_Some [OF this]
  show ?thesis using schedule_rows_find(2) [OF j(1)] j(6) unfolding grant_usable_def by blast
qed

lemma filter_counts_le:
  assumes "schedule_occurrences d1 = filter P (schedule_occurrences d)"
  shows "unresolved_total d1 \<le> unresolved_total d" "unresolved_of sid d1 \<le> unresolved_of sid d"
  using count_where_filter_le [of _ P "schedule_occurrences d"] assms by (simp_all add: unresolved_total_def unresolved_of_def)

lemma schedule_find_moved:
  "schedule_find sid (update_schedule sid (moved e m next) d) = map_option (moved e m next) (schedule_find sid d)"
proof -
  have "schedule_find sid (update_schedule sid (moved e m next) d) =
      map_option (\<lambda>s. if sc_id s = sid then moved e m next s else s) (schedule_find sid d)"
    unfolding schedule_find_def update_schedule_simps by (rule find_update_where_key) (simp add: moved_def)
  then show ?thesis using schedule_rows_find(1) by (cases "schedule_find sid d") auto
qed

lemma map_find_cong:
  assumes "map f xs = map f ys" "\<And>x y. f x = f y \<Longrightarrow> P x = P y" "\<And>x y. f x = f y \<Longrightarrow> g x = g y"
  shows "map_option g (find P xs) = map_option g (find P ys)"
  using assms(1)
proof (induction xs arbitrary: ys)
  case (Cons x xs)
  then obtain y ys' where y: "ys = y # ys'" "f x = f y" "map f xs = map f ys'" by (cases ys) auto
  then show ?case using Cons.IH [OF y(3)] assms(2) [OF y(2)] assms(3) [OF y(2)] by auto
qed simp

lemma prune_frame_find:
  assumes "prune_frame d' = prune_frame d"
  shows "map_option (\<lambda>s. s\<lparr>sc_last_pruned := None\<rparr>) (schedule_find i d') =
    map_option (\<lambda>s. s\<lparr>sc_last_pruned := None\<rparr>) (schedule_find i d)"
  unfolding schedule_find_def
  by (rule map_find_cong [OF prune_frameD(6) [OF assms]]) (auto dest: arg_cong [where f = sc_id])

lemma admission_rows:
  assumes "admitRecurringOccurrence e sid m next expected ids d = Inr ((i, False), d')"
  obtains s :: schedule_row and v :: version_row and d1 d3 src place n where "schedule_find sid d = Some s" "sc_state s = Enabled" "sc_cursor_at s < mn_instant m"
    "mn_instant m \<le> scheduler_now e" "unresolved_total d < 256" "unresolved_of sid d = 0"
    "\<forall>x. expected = Some x \<longrightarrow> expectation_met x s"
    "occurrenceCapacity e sid d = Inr d1" "all_history d1 < 8192" "own_history sid d1 < 256"
    "i = oi_id ids" "ws_only d1 d3"
    "d' = update_schedule sid (moved e m next)
       (inserted d1 (new_occurrence e ids s (sv_config v) (sv_prompt v) Recurring (mn_instant m) (Some m) src place) n d3)"
    "insert_occurrence (new_occurrence e ids s (sv_config v) (sv_prompt v) Recurring (mn_instant m) (Some m) src place) d3 =
       Inr (d3\<lparr>schedule_occurrences := schedule_occurrences d1 @ [new_occurrence e ids s (sv_config v) (sv_prompt v) Recurring (mn_instant m) (Some m) src place]\<rparr>)"
    "\<exists>g \<in> set (schedule_grants d). sc_active_grant s = Some (gr_id g) \<and> \<not> gr_revoked g \<and> now e < gr_expires_at g"
  using assms
proof (rule admitRecurringOccurrence_new)
  fix hint gid
  assume h: "schedule_find sid d = Some hint" "sc_active_grant hint = Some gid"
    and l: "admit_locked e sid m next expected (Some gid) ids d = Inr ((i, False), d')"
  from l show thesis
  proof (rule admit_locked_new)
    fix s :: schedule_row and v :: version_row and d1 d2
    assume s: "schedule_find sid d = Some s" and c: "admission_checks e s (Some gid) m expected d = Inr ()"
      and cap: "occurrenceCapacity e sid d = Inr d1" "all_history d1 < 8192" "own_history sid d1 < 256"
      and ins: "insertOccurrence e s (sv_config v) (sv_prompt v) Recurring (mn_instant m) (Some m) ids d1 = Inr (i, d2)"
      and d': "d' = update_schedule sid (moved e m next) d2"
    note C = admission_checks_Inr [OF c]
    have sid: "sc_id s = sid" using schedule_rows_find(1) [OF s] by simp
    from ins show thesis
    proof (rule insertOccurrence_Inr)
      fix d3 src place and g :: grant_row and a
      assume i: "i = oi_id ids" and w: "ws_only d1 d3"
        and d2: "d2 = inserted d1 (new_occurrence e ids s (sv_config v) (sv_prompt v) Recurring (mn_instant m) (Some m) src place) (gr_epoch g) d3"
        and io: "insert_occurrence (new_occurrence e ids s (sv_config v) (sv_prompt v) Recurring (mn_instant m) (Some m) src place) d3 =
          Inr (d3\<lparr>schedule_occurrences := schedule_occurrences d1 @ [new_occurrence e ids s (sv_config v) (sv_prompt v) Recurring (mn_instant m) (Some m) src place]\<rparr>)"
        and a: "requireAuthority e (d3\<lparr>schedule_occurrences := schedule_occurrences d1 @ [new_occurrence e ids s (sv_config v) (sv_prompt v) Recurring (mn_instant m) (Some m) src place]\<rparr>)
          (occurrence_actor s (oi_id ids)) (occurrence_need ids s (sv_config v)) = Inr a"
      have "schedule_grants d3 = schedule_grants d"
        using ws_onlyD(3) [OF w] prune_frameD(2) [OF occurrenceCapacity_frame [OF cap(1)]] by simp
      moreover have "occurrence_actor s (oi_id ids) = scheduleActor gid (oi_id ids)" using C(3) by (simp add: occurrence_actor_def)
      ultimately have "\<exists>g \<in> set (schedule_grants d). gr_id g = gid \<and> \<not> gr_revoked g \<and> now e < gr_expires_at g"
        using schedule_actor_grant [OF a [unfolded \<open>occurrence_actor s (oi_id ids) = scheduleActor gid (oi_id ids)\<close>]] by simp
      then have "\<exists>g \<in> set (schedule_grants d). sc_active_grant s = Some (gr_id g) \<and> \<not> gr_revoked g \<and> now e < gr_expires_at g"
        using C(3) by auto
      moreover have C7: "\<forall>x. expected = Some x \<longrightarrow> expectation_met x s" using C(7) by blast
      ultimately show thesis
        using that [OF s C(1,2,4,5) C(6) [unfolded sid] C7 cap i w d' [unfolded d2] io] by blast
    qed
  qed
qed

lemma recurring_find_append:
  "recurring_find sid k lm (d\<lparr>schedule_occurrences := xs @ [r]\<rparr>) =
    (case recurring_find sid k lm (d\<lparr>schedule_occurrences := xs\<rparr>) of
       None \<Rightarrow> (if oc_schedule r = sid \<and> oc_kind r = Recurring \<and> oc_local_minute r = Some lm \<and> k = Some (oc_rule_revision r)
          then Some r else None)
     | Some x \<Rightarrow> Some x)"
  by (auto simp: recurring_find_def split: option.split)

lemma recurring_find_cong:
  "schedule_occurrences d' = schedule_occurrences d \<Longrightarrow> recurring_find sid k lm d' = recurring_find sid k lm d"
  by (simp add: recurring_find_def)

lemma recurring_find_filter:
  assumes "recurring_find sid k lm d = None"
  shows "recurring_find sid k lm (d1\<lparr>schedule_occurrences := filter P (schedule_occurrences d)\<rparr>) = None"
  using assms by (auto simp: recurring_find_def find_is_None)

lemma moved_cursor:
  "\<forall>s \<in> set (schedules (update_schedule sid (moved e m next) d)). sc_id s = sid \<longrightarrow> sc_cursor_at s = mn_instant m"
proof (intro ballI impI)
  fix s assume s: "s \<in> set (schedules (update_schedule sid (moved e m next) d))" "sc_id s = sid"
  then obtain x where x: "s = (if sc_id x = sid then moved e m next x else x)"
    unfolding update_schedule_simps set_update_where by blast
  show "sc_cursor_at s = mn_instant m"
  proof (cases "sc_id x = sid")
    case True
    then show ?thesis by (simp add: x moved_def)
  next
    case False
    then show ?thesis using s(2) by (simp add: x)
  qed
qed

section \<open>Properties\<close>

definition due_minute_demo :: minute where
  "due_minute_demo = \<lparr> mn_local = ''m'', mn_instant = 60000, mn_offset = ''+00:00'', mn_timezone = ''UTC'' \<rparr>"

definition demo_ids :: occ_ids where
  "demo_ids = \<lparr> oi_id = replicate 36 CHR ''d'', oi_turn = ''T'', oi_storage = ''O'', oi_session = ''S'',
     oi_workspace = ''V'', oi_cancel = ''X'' \<rparr>"

definition admit_db :: db where
  "admit_db = schedule_db\<lparr>operations := [], schedule_occurrences := [],
     schedule_versions := [demo_version\<lparr>sv_config := demo_config\<lparr>cf_base_revision := Some (replicate 40 CHR ''0'')\<rparr>\<rparr>]\<rparr>"

lemma admit_demo:
  "case admitRecurringOccurrence demo_env ''c'' due_minute_demo (Some 5) None demo_ids admit_db of
     Inl _ \<Rightarrow> False | Inr (r, d') \<Rightarrow> r = (oi_id demo_ids, False)"
  by code_simp

text \<open>C26: An occurrence is admitted only when it is due and nothing stands in its way. The schedule was
  enabled and the minute lies after its cursor and not in the future; the active grant is unrevoked
  and unexpired; no other occurrence of the schedule is unresolved and the bounds of 256 unresolved
  occurrences on the server, 256 occurrences per schedule and 8192 in all hold afterwards. The new
  occurrence is in the accepted state under that grant, its wakeup is queued in the same
  transaction, and the cursor has moved to the minute.\<close>

theorem admission_sound:
  assumes "admitRecurringOccurrence e sid m next expected ids d = Inr ((i, False), d')"
  shows "\<exists>s \<in> set (schedules d). \<exists>r \<in> set (schedule_occurrences d'). \<exists>g \<in> set (schedule_grants d).
    sc_id s = sid \<and> sc_state s = Enabled \<and> sc_cursor_at s < mn_instant m \<and> mn_instant m \<le> scheduler_now e \<and>
    sc_active_grant s = Some (gr_id g) \<and> \<not> gr_revoked g \<and> now e < gr_expires_at g \<and>
    oc_id r = i \<and> oc_schedule r = sid \<and> oc_kind r = Recurring \<and> oc_local_minute r = Some (mn_local m) \<and>
    oc_state r = Accepted \<and> oc_grant r = Some (gr_id g) \<and> i \<in> fst ` set (queue_jobs d') \<and>
    unresolved_of sid d' = 1 \<and> unresolved_total d' \<le> 256 \<and> own_history sid d' \<le> 256 \<and> all_history d' \<le> 8192 \<and>
    (\<forall>s' \<in> set (schedules d'). sc_id s' = sid \<longrightarrow> sc_cursor_at s' = mn_instant m)"
  using assms
proof (rule admission_rows)
  fix s :: schedule_row and v :: version_row and d1 d3 src place n
  let ?r = "new_occurrence e ids s (sv_config v) (sv_prompt v) Recurring (mn_instant m) (Some m) src place"
  assume s: "schedule_find sid d = Some s" and c: "sc_state s = Enabled" "sc_cursor_at s < mn_instant m"
      "mn_instant m \<le> scheduler_now e" "unresolved_total d < 256" "unresolved_of sid d = 0"
    and cap: "occurrenceCapacity e sid d = Inr d1" "all_history d1 < 8192" "own_history sid d1 < 256"
    and i: "i = oi_id ids"
    and d': "d' = update_schedule sid (moved e m next) (inserted d1 ?r n d3)"
    and g: "\<exists>g \<in> set (schedule_grants d). sc_active_grant s = Some (gr_id g) \<and> \<not> gr_revoked g \<and> now e < gr_expires_at g"
  have S: "s \<in> set (schedules d)" "sc_id s = sid" using schedule_rows_find(1) [OF s] by simp_all
  obtain P where P: "schedule_occurrences d1 = filter P (schedule_occurrences d)"
    using occurrenceCapacity_filter [OF cap(1)] by blast
  note u = filter_counts_le [OF P]
  have occ: "schedule_occurrences d' = schedule_occurrences d1 @ [?r]" using d' by simp
  have e1: "unresolved_of sid d' = unresolved_of sid d1 + 1" and e2: "unresolved_total d' = unresolved_total d1 + 1"
    and e3: "own_history sid d' = own_history sid d1 + 1" and e4: "all_history d' = all_history d1 + 1"
    by (simp_all add: unresolved_of_def unresolved_total_def own_history_def all_history_def occ S(2))
  have n: "unresolved_of sid d' = 1" using u(2) [of sid] c(5) unfolding e1 by simp
  have n2: "unresolved_total d' \<le> 256" using u(1) c(4) unfolding e2 by simp
  have n3: "own_history sid d' \<le> 256" using cap(3) unfolding e3 by simp
  have n4: "all_history d' \<le> 8192" using cap(2) unfolding e4 by simp
  have cur: "\<forall>s' \<in> set (schedules d'). sc_id s' = sid \<longrightarrow> sc_cursor_at s' = mn_instant m"
    unfolding d' by (rule moved_cursor)
  obtain g where g: "g \<in> set (schedule_grants d)" "sc_active_grant s = Some (gr_id g)" "\<not> gr_revoked g" "now e < gr_expires_at g"
    using g by blast
  have q: "i \<in> fst ` set (queue_jobs d')" by (simp add: d' i)
  show ?thesis
    by (rule bexI [OF _ S(1)], rule bexI [of _ ?r], rule bexI [OF _ g(1)])
      (simp_all add: S(2) c(1-3) g(2-4) i n n2 n3 n4 cur occ q [unfolded i])
qed

theorem admission_sound_witness:
  "\<exists>d'. unresolved_of ''c'' d' = 1 \<and> oi_id demo_ids \<in> fst ` set (queue_jobs d') \<and>
     admitRecurringOccurrence demo_env ''c'' due_minute_demo (Some 5) None demo_ids admit_db = Inr ((oi_id demo_ids, False), d')"
proof -
  obtain d' where "admitRecurringOccurrence demo_env ''c'' due_minute_demo (Some 5) None demo_ids admit_db = Inr ((oi_id demo_ids, False), d')"
    using admit_demo by (auto split: sum.splits prod.splits)
  with admission_sound [OF this] show ?thesis by blast
qed

end
