(* ===== verification/Schedule_Management.thy ===== *)
theory Schedule_Management
  imports Schedule_Admission
begin

text \<open>
  The owner's operations on a schedule: \<^verbatim>\<open>packages/schedules/src/management.ts\<close>
  (pause, edit, activate, run now, emergency pause). The row \<open>s\<close> that the operations take is the
  one the command handler read under the row lock.
\<close>

section \<open>Pausing\<close>

definition expectedRevision :: "schedule_row \<Rightarrow> nat \<Rightarrow> unit res" where
  "expectedRevision s n = (if sc_config_revision s \<noteq> n then Inl (HarborError 409 ''SCHEDULE_REVISION'') else Inr ())"

lemma expectedRevision_eq_Inr [res_simps]: "expectedRevision s n = Inr u \<longleftrightarrow> sc_config_revision s = n"
  by (simp add: expectedRevision_def)

definition revoke_grants :: "(grant_row \<Rightarrow> bool) \<Rightarrow> db \<Rightarrow> db" where
  "revoke_grants P d = d\<lparr>schedule_grants := update_where P (\<lambda>g. g\<lparr>gr_revoked := True\<rparr>) (schedule_grants d)\<rparr>"

definition stop_schedule :: "env \<Rightarrow> string \<Rightarrow> schedule_row \<Rightarrow> schedule_row" where
  "stop_schedule e why s = s\<lparr>sc_state := Paused, sc_reason := Some why, sc_catch_up := None, sc_updated_at := now e\<rparr>"

type_synonym schedule_answer = "uuid \<times> nat \<times> schedule_state"

definition pauseSchedule :: "env \<Rightarrow> schedule_row \<Rightarrow> nat \<Rightarrow> db \<Rightarrow> (schedule_answer \<times> db) res" where
  "pauseSchedule e s n d =
     andThen (expectedRevision s n) (\<lambda>_.
       Inr ((sc_id s, sc_config_revision s, Paused),
         revoke_grants (\<lambda>g. gr_schedule g = sc_id s) (update_schedule (sc_id s) (stop_schedule e ''OWNER_PAUSED'') d)))"

definition emergencyPauseSchedules :: "env \<Rightarrow> db \<Rightarrow> db" where
  "emergencyPauseSchedules e d =
     revoke_grants (\<lambda>g. \<not> gr_revoked g) (d\<lparr>schedules := map (stop_schedule e ''EMERGENCY_STOP'') (schedules d)\<rparr>)"

section \<open>Editing\<close>

text \<open>The authority asked for before and after the target is looked up.\<close>

definition manage_authority :: "env \<Rightarrow> db \<Rightarrow> string \<Rightarrow> uuid \<Rightarrow> schedule_config \<Rightarrow> authority res" where
  "manage_authority e d actor proj c =
     andThen (requireAuthority e d actor (manage_need SchedulesManage proj c)) (\<lambda>a.
     andThen (requireAuthority e d actor (manage_need Execute proj c)) (\<lambda>_. Inr a))"

definition version_unreferenced :: "schedule_row \<Rightarrow> db \<Rightarrow> version_row \<Rightarrow> bool" where
  "version_unreferenced s d v \<longleftrightarrow> sv_schedule v = sc_id s \<and> sv_revision v \<noteq> sc_config_revision s \<and>
     \<not> exists_row (\<lambda>g. gr_schedule g = sv_schedule v \<and> gr_config_revision g = sv_revision v) (schedule_grants d) \<and>
     \<not> exists_row (\<lambda>r. oc_schedule r = sv_schedule v \<and> oc_config_revision r = sv_revision v) (schedule_occurrences d)"

definition trim_versions :: "schedule_row \<Rightarrow> db \<Rightarrow> db" where
  "trim_versions s d = (case sort_key sv_revision (filter (version_unreferenced s d) (schedule_versions d)) of
       [] \<Rightarrow> d
     | v # _ \<Rightarrow> d\<lparr>schedule_versions :=
         delete_where (\<lambda>x. sv_schedule x = sv_schedule v \<and> sv_revision x = sv_revision v) (schedule_versions d)\<rparr>)"

definition version_count :: "uuid \<Rightarrow> db \<Rightarrow> nat" where
  "version_count sid d = count_where (\<lambda>v. sv_schedule v = sid) (schedule_versions d)"

definition edited :: "env \<Rightarrow> string \<Rightarrow> nat \<Rightarrow> nat \<Rightarrow> schedule_row \<Rightarrow> schedule_row" where
  "edited e title next ru s = s\<lparr>sc_title := title, sc_config_revision := next, sc_rule_revision := ru,
     sc_state := Paused, sc_reason := Some ''CONFIGURATION_CHANGED'', sc_catch_up := None,
     sc_active_grant := None, sc_updated_at := now e\<rparr>"

definition edit_commit :: "env \<Rightarrow> schedule_row \<Rightarrow> schedule_input \<Rightarrow> db \<Rightarrow> (schedule_answer \<times> db) res" where
  "edit_commit e s b d =
     (let old = version_find (sc_id s) (sc_config_revision s) d; d1 = trim_versions s d in
      if version_count (sc_id s) d1 \<ge> 32 then Inl (HarborError 429 ''SCHEDULE_VERSION_QUOTA'')
      else andThen (first_row (Crash ''TypeError'') old) (\<lambda>v.
        let ru = sc_rule_revision s + (if cf_rule (sv_config v) = cf_rule (si_config b) then 0 else 1);
            next = sc_config_revision s + 1
        in if exists_row (\<lambda>x. sv_schedule x = sc_id s \<and> sv_revision x = next) (schedule_versions d1)
           then Inl (Crash ''schedule_versions_pkey'')
           else Inr ((sc_id s, next, Paused),
             update_schedule (sc_id s) (edited e (si_title b) next ru)
              (revoke_grants (\<lambda>g. gr_schedule g = sc_id s)
               (d1\<lparr>schedule_versions := schedule_versions d1 @ [new_version e (sc_id s) next ru (si_config b) (si_prompt b)]\<rparr>)))))"

definition editSchedule :: "env \<Rightarrow> schedule_row \<Rightarrow> nat \<Rightarrow> schedule_input \<Rightarrow> string \<Rightarrow> db \<Rightarrow> (schedule_answer \<times> db) res" where
  "editSchedule e s n input actor d =
     andThen (expectedRevision s n) (\<lambda>_.
     andThen (parse_schedule e input) (\<lambda>b.
     if si_project b \<noteq> sc_project s then Inl (HarborError 409 ''SCHEDULE_PROJECT'')
     else andThen (manage_authority e d actor (sc_project s) (si_config b)) (\<lambda>_.
     andThen (within_ceiling e (manage_profile (si_config b))) (\<lambda>_.
     andThen (effectiveSettings e d (cf_model (si_config b)) (cf_effort (si_config b))) (\<lambda>_.
     andThen (scheduleTarget e (sc_project s) (si_config b) d) (\<lambda>(_, d1).
     andThen (manage_authority e d1 actor (sc_project s) (si_config b)) (\<lambda>_.
     edit_commit e s b d1)))))))"

section \<open>Activating\<close>

definition grant_unreferenced :: "env \<Rightarrow> schedule_row \<Rightarrow> db \<Rightarrow> grant_row \<Rightarrow> bool" where
  "grant_unreferenced e s d g \<longleftrightarrow> gr_schedule g = sc_id s \<and> Some (gr_id g) \<noteq> sc_active_grant s \<and>
     (gr_revoked g \<or> gr_expires_at g < now e) \<and>
     \<not> exists_row (\<lambda>r. oc_grant r = Some (gr_id g)) (schedule_occurrences d) \<and>
     \<not> exists_row (\<lambda>c. cm_schedule c = gr_schedule g \<and> cm_grant_epoch c = Some (gr_epoch g)) (schedule_commands d)"

definition trim_grants :: "env \<Rightarrow> schedule_row \<Rightarrow> db \<Rightarrow> db" where
  "trim_grants e s d = (case sort_key gr_epoch (filter (grant_unreferenced e s d) (schedule_grants d)) of
       [] \<Rightarrow> d
     | g # _ \<Rightarrow> d\<lparr>schedule_grants := delete_where (\<lambda>x. gr_id x = gr_id g) (schedule_grants d)\<rparr>)"

definition grant_count :: "uuid \<Rightarrow> db \<Rightarrow> nat" where
  "grant_count sid d = count_where (\<lambda>g. gr_schedule g = sid) (schedule_grants d)"

definition enabled_full :: "uuid \<Rightarrow> db \<Rightarrow> bool" where
  "enabled_full proj d \<longleftrightarrow> count_where (\<lambda>s. sc_state s = Enabled) (schedules d) \<ge> 64 \<or>
     count_where (\<lambda>s. sc_project s = proj \<and> sc_state s = Enabled) (schedules d) \<ge> 16"

definition insert_grant :: "grant_row \<Rightarrow> db \<Rightarrow> db res" where
  "insert_grant g d =
     (if gr_id g \<in> gr_id ` set (schedule_grants d) then Inl (Crash ''schedule_grants_pkey'')
      else if exists_row (\<lambda>x. gr_schedule x = gr_schedule g \<and> gr_epoch x = gr_epoch g) (schedule_grants d)
      then Inl (Crash ''schedule_grants_epoch'')
      else Inr (d\<lparr>schedule_grants := schedule_grants d @ [g]\<rparr>))"

definition activated :: "env \<Rightarrow> nat \<Rightarrow> uuid \<Rightarrow> time \<Rightarrow> schedule_row \<Rightarrow> schedule_row" where
  "activated e epoch gid due s = s\<lparr>sc_grant_epoch := epoch, sc_active_grant := Some gid, sc_state := Enabled,
     sc_reason := None, sc_cursor_at := max (sc_cursor_at s) (scheduler_now e), sc_next_due_at := Some due,
     sc_catch_up := None, sc_last_observed_at := Some (scheduler_now e),
     sc_time_fingerprint := time_fingerprint e, sc_updated_at := now e\<rparr>"

text \<open>The refusals of an activation before the retained grants are trimmed.\<close>

definition activation_checks :: "env \<Rightarrow> schedule_row \<Rightarrow> string \<Rightarrow> nat \<Rightarrow> nat \<Rightarrow> db \<Rightarrow> (authority \<times> schedule_config \<times> db) res" where
  "activation_checks e s actor n days d =
     andThen (expectedRevision s n) (\<lambda>_.
     if meta_emergency d then Inl (HarborError 409 ''EMERGENCY_STOPPED'')
     else if days < 1 \<or> days > 90 then Inl (HarborError 400 ''SCHEDULE_EXPIRY'')
     else andThen (first_row (Crash ''TypeError'') (version_find (sc_id s) (sc_config_revision s) d)) (\<lambda>v.
     andThen (manage_authority e d actor (sc_project s) (sv_config v)) (\<lambda>a.
     if au_kind a = ScheduleAuthority then Inl (HarborError 403 ''SCHEDULE_AUTHORITY'')
     else andThen (within_ceiling e (manage_profile (sv_config v))) (\<lambda>_.
     andThen (effectiveSettings e d (cf_model (sv_config v)) (cf_effort (sv_config v))) (\<lambda>_.
     andThen (scheduleTarget e (sc_project s) (sv_config v) d) (\<lambda>(_, d1).
     Inr (a, sv_config v, d1)))))))"

definition activation_commit ::
  "env \<Rightarrow> schedule_row \<Rightarrow> authority \<Rightarrow> nat \<Rightarrow> bool \<Rightarrow> uuid \<Rightarrow> minute list \<Rightarrow> db \<Rightarrow> ((uuid \<times> nat \<times> minute list) \<times> db) res" where
  "activation_commit e s a days one gid preview d =
     (let epoch = sc_grant_epoch s + 1;
          d1 = (if one then d else revoke_grants (\<lambda>g. gr_schedule g = sc_id s \<and> \<not> gr_one_shot g) d)
      in andThen (insert_grant (new_grant e gid (sc_id s) (sc_config_revision s) epoch (au_token a) days one d1) d1) (\<lambda>d2.
         if one then Inr ((gid, epoch, preview), update_schedule (sc_id s) (\<lambda>x. x\<lparr>sc_grant_epoch := epoch\<rparr>) d2)
         else (case preview of [] \<Rightarrow> Inl (Crash ''TypeError'')
           | m # _ \<Rightarrow> Inr ((gid, epoch, preview), update_schedule (sc_id s) (activated e epoch gid (mn_instant m)) d2))))"

definition activateSchedule ::
  "env \<Rightarrow> schedule_row \<Rightarrow> string \<Rightarrow> nat \<Rightarrow> nat \<Rightarrow> bool \<Rightarrow> uuid \<Rightarrow> db \<Rightarrow> ((uuid \<times> nat \<times> minute list) \<times> db) res" where
  "activateSchedule e s actor n days one gid d =
     andThen (activation_checks e s actor n days d) (\<lambda>(a, c, d1). let d2 = trim_grants e s d1 in
     if grant_count (sc_id s) d2 \<ge> 32 then Inl (HarborError 429 ''SCHEDULE_GRANT_QUOTA'')
     else if \<not> one \<and> sc_state s \<noteq> Enabled \<and> enabled_full (sc_project s) d2 then Inl (HarborError 429 ''SCHEDULE_QUOTA'')
     else andThen (if one then Inr [] else nextMinutes (calendar_of e) (cf_rule c) (scheduler_now e) 8) (\<lambda>preview.
     andThen (manage_authority e d2 actor (sc_project s) c) (\<lambda>_.
     activation_commit e s a days one gid preview d2)))"

section \<open>Running now\<close>

definition run_now_checks :: "env \<Rightarrow> schedule_row \<Rightarrow> nat \<Rightarrow> db \<Rightarrow> unit res" where
  "run_now_checks e s n d =
     andThen (expectedRevision s n) (\<lambda>_.
     if unresolved_of (sc_id s) d > 0 then Inl (HarborError 409 ''SCHEDULE_OVERLAP'')
     else if unresolved_total d \<ge> 256 then Inl (HarborError 429 ''SCHEDULE_ACTIVE_QUOTA'')
     else if count_where (\<lambda>g. gr_schedule g = sc_id s \<and> gr_one_shot g \<and> gr_created_at g > now e - 3600000) (schedule_grants d) \<ge> 10
     then Inl (HarborError 429 ''SCHEDULE_RUN_RATE'')
     else Inr ())"

definition runScheduleNow ::
  "env \<Rightarrow> schedule_row \<Rightarrow> string \<Rightarrow> nat \<Rightarrow> uuid \<Rightarrow> occ_ids \<Rightarrow> db \<Rightarrow> ((uuid \<times> schedule_answer) \<times> db) res" where
  "runScheduleNow e s actor n gid ids d =
     andThen (run_now_checks e s n d) (\<lambda>_.
     andThen (occurrenceCapacity e (sc_id s) d) (\<lambda>d1.
     andThen (activateSchedule e s actor n 1 True gid d1) (\<lambda>(_, d2).
     andThen (first_row (Crash ''TypeError'') (version_find (sc_id s) (sc_config_revision s) d2)) (\<lambda>v.
     andThen (insertOccurrence e (s\<lparr>sc_active_grant := Some gid\<rparr>) (sv_config v) (sv_prompt v) Manual (scheduler_now e) None ids d2) (\<lambda>(i, d3).
     Inr ((i, (sc_id s, sc_config_revision s, sc_state s)), d3))))))"

end
