(* ===== verification/Schedule_Planner.thy ===== *)
theory Schedule_Planner
  imports Schedule_Management
begin

text \<open>
  The planner, \<^verbatim>\<open>packages/schedules/src/planner.ts\<close>: \<open>planSchedule\<close> reads a
  schedule (\<open>hint\<close>) outside any transaction and then runs at most three transactions, each of
  which checks what it relies on again. \<open>fence\<close> is the caller's check that this worker still
  holds its lease. A transaction that throws leaves the database as it was, and the planner's
  result is an error or nothing.
\<close>

section \<open>The transactions\<close>

definition plan_stale :: "env \<Rightarrow> schedule_row \<Rightarrow> bool" where
  "plan_stale e h \<longleftrightarrow> sc_time_fingerprint h \<noteq> time_fingerprint e \<or>
     scheduler_now e < (case sc_last_observed_at h of Some t \<Rightarrow> t | None \<Rightarrow> sc_cursor_at h)"

text \<open>\<^verbatim>\<open>UPDATE schedules SET state='attention' .. WHERE id AND state='enabled' AND
  config_revision AND grant_epoch\<close>\<close>

definition attention :: "string \<Rightarrow> schedule_row \<Rightarrow> schedule_row" where
  "attention why s = s\<lparr>sc_state := Attention, sc_reason := Some why\<rparr>"

definition attention_at :: "env \<Rightarrow> string \<Rightarrow> schedule_row \<Rightarrow> schedule_row" where
  "attention_at e why s = (attention why s)\<lparr>sc_updated_at := now e\<rparr>"

definition mark_attention :: "schedule_row \<Rightarrow> (schedule_row \<Rightarrow> schedule_row) \<Rightarrow> db \<Rightarrow> db" where
  "mark_attention h f d = d\<lparr>schedules := update_where (\<lambda>s. sc_id s = sc_id h \<and> sc_state s = Enabled \<and>
       sc_config_revision s = sc_config_revision h \<and> sc_grant_epoch s = sc_grant_epoch h) f (schedules d)\<rparr>"

definition attention_tx ::
  "(db \<Rightarrow> unit res) \<Rightarrow> schedule_row \<Rightarrow> (schedule_row \<Rightarrow> schedule_row) \<Rightarrow> db \<Rightarrow> (unit \<times> db) res" where
  "attention_tx fence h f d =
     andThen (deploymentAdmission d True) (\<lambda>_. let d1 = mark_attention h f d in
     andThen (fence d1) (\<lambda>_. Inr ((), d1)))"

text \<open>The batch that the planner chooses from the rule, the cursor and the clock.\<close>

definition missed_minutes :: "env \<Rightarrow> schedule_row \<Rightarrow> schedule_config \<Rightarrow> minute list res" where
  "missed_minutes e h c = (case cf_missed c of
       CatchUp \<Rightarrow> recentMinutes (calendar_of e) (cf_rule c) (max (sc_cursor_at h) (scheduler_now e - 86400000)) (scheduler_now e) 3
     | SkipMissed \<Rightarrow> Inr [])"

definition next_due :: "env \<Rightarrow> rule \<Rightarrow> time option res" where
  "next_due e r = (case r of
       Once _ _ \<Rightarrow> Inr None
     | Cron _ _ \<Rightarrow> andThen (nextMinutes (calendar_of e) r (scheduler_now e) 1) (\<lambda>ms.
         case ms of [] \<Rightarrow> Inl (Crash ''TypeError'') | m # _ \<Rightarrow> Inr (Some (mn_instant m))))"

definition new_batch :: "env \<Rightarrow> schedule_row \<Rightarrow> schedule_config \<Rightarrow> batch res" where
  "new_batch e h c =
     andThen (nextMinutes (calendar_of e) (cf_rule c) (sc_cursor_at h) 1) (\<lambda>dues.
     case dues of [] \<Rightarrow> Inl (Crash ''TypeError'') | due # _ \<Rightarrow>
     let late = scheduler_now e - mn_instant due > 60000 in
     andThen (if \<not> late then Inr [due] else missed_minutes e h c) (\<lambda>ms.
     andThen (next_due e (cf_rule c)) (\<lambda>next.
     Inr \<lparr> bt_range_from = (if late then Some (sc_cursor_at h) else None), bt_through = scheduler_now e,
       bt_next = next, bt_minutes = ms, bt_excluded = map mn_local ms \<rparr>)))"

definition save_where :: "schedule_row \<Rightarrow> schedule_row \<Rightarrow> bool" where
  "save_where h s \<longleftrightarrow> sc_id s = sc_id h \<and> sc_state s = Enabled \<and> sc_config_revision s = sc_config_revision h \<and>
     sc_grant_epoch s = sc_grant_epoch h \<and> sc_cursor_at s = sc_cursor_at h \<and> sc_catch_up s = None"

definition save_tx :: "env \<Rightarrow> (db \<Rightarrow> unit res) \<Rightarrow> schedule_row \<Rightarrow> batch \<Rightarrow> db \<Rightarrow> (bool \<times> db) res" where
  "save_tx e fence h b d =
     andThen (deploymentAdmission d True) (\<lambda>_.
     let d1 = d\<lparr>schedules := update_where (save_where h)
           (\<lambda>s. s\<lparr>sc_catch_up := Some b, sc_last_observed_at := Some (scheduler_now e)\<rparr>) (schedules d)\<rparr>
     in andThen (fence d1) (\<lambda>_. Inr (exists_row (save_where h) (schedules d), d1)))"

definition consume :: "uuid \<Rightarrow> batch \<Rightarrow> db \<Rightarrow> db" where
  "consume sid b d = d\<lparr>schedules := update_where (\<lambda>s. sc_id s = sid \<and> sc_catch_up s = Some b)
     (\<lambda>s. s\<lparr>sc_catch_up := Some (b\<lparr>bt_minutes := tl (bt_minutes b)\<rparr>)\<rparr>) (schedules d)\<rparr>"

definition plan_expectation :: "schedule_row \<Rightarrow> batch \<Rightarrow> expectation" where
  "plan_expectation h b = \<lparr> ex_config_revision = sc_config_revision h, ex_rule_revision = sc_rule_revision h,
     ex_grant = sc_active_grant h, ex_batch = b \<rparr>"

definition admit_tx ::
  "env \<Rightarrow> (db \<Rightarrow> unit res) \<Rightarrow> schedule_row \<Rightarrow> batch \<Rightarrow> minute \<Rightarrow> occ_ids \<Rightarrow> db \<Rightarrow> (unit \<times> db) res" where
  "admit_tx e fence h b m ids d =
     andThen (admitRecurringOccurrence e (sc_id h) m (bt_next b) (Some (plan_expectation h b)) ids d) (\<lambda>(_, d1).
     let d2 = consume (sc_id h) b d1 in
     andThen (fence d2) (\<lambda>_. Inr ((), d2)))"

definition skipped_row :: "env \<Rightarrow> occ_ids \<Rightarrow> schedule_row \<Rightarrow> occ_kind \<Rightarrow> string option \<Rightarrow> time \<Rightarrow> occ_snapshot \<Rightarrow> string \<Rightarrow> occurrence_row" where
  "skipped_row e ids s kind lm at snap why = \<lparr> oc_id = oi_id ids, oc_schedule = sc_id s,
     oc_config_revision = sc_config_revision s, oc_rule_revision = sc_rule_revision s, oc_grant = None,
     oc_kind = kind, oc_local_minute = lm, oc_intended_at = at, oc_snapshot = snap, oc_prompt = None,
     oc_state = Skipped, oc_reason = Some why, oc_workspace = oi_workspace ids, oc_session = oi_session ids,
     oc_turn = oi_turn ids, oc_storage_operation = oi_storage ids, oc_cancel_operation = oi_cancel ids,
     oc_acknowledged_at = None, oc_started_at = None, oc_ended_at = Some (now e), oc_updated_at = now e \<rparr>"

text \<open>\<^verbatim>\<open>occurrenceCapacity\<close> and the count that follows it.\<close>

definition history_room :: "env \<Rightarrow> uuid \<Rightarrow> db \<Rightarrow> db res" where
  "history_room e sid d = andThen (occurrenceCapacity e sid d) (\<lambda>d1.
     if all_history d1 \<ge> 8192 \<or> own_history sid d1 \<ge> 256 then history_quota else Inr d1)"

definition skip_tx ::
  "env \<Rightarrow> (db \<Rightarrow> unit res) \<Rightarrow> uuid \<Rightarrow> batch \<Rightarrow> minute \<Rightarrow> occ_ids \<Rightarrow> db \<Rightarrow> (unit \<times> db) res" where
  "skip_tx e fence sid b m ids d =
     andThen (deploymentAdmission d True) (\<lambda>_.
     case find (\<lambda>s. sc_id s = sid \<and> sc_state s = Enabled \<and> sc_catch_up s = Some b) (schedules d) of
       None \<Rightarrow> Inr ((), d)
     | Some cur \<Rightarrow>
         andThen (history_room e sid d) (\<lambda>d1.
         andThen (if recurring_find sid (Some (sc_rule_revision cur)) (mn_local m) d1 \<noteq> None then Inr d1
             else insert_occurrence (skipped_row e ids cur Recurring (Some (mn_local m)) (mn_instant m) (SkippedMinute m) ''OVERLAP'') d1) (\<lambda>d2.
         andThen (fence d2) (\<lambda>_.
         Inr ((), update_schedule sid (\<lambda>s. s\<lparr>sc_cursor_at := mn_instant m,
           sc_catch_up := Some (b\<lparr>bt_minutes := tl (bt_minutes b)\<rparr>)\<rparr>) d2)))))"

definition finished :: "env \<Rightarrow> batch \<Rightarrow> bool \<Rightarrow> schedule_row \<Rightarrow> schedule_row" where
  "finished e b busy s = s\<lparr>sc_cursor_at := max (sc_cursor_at s) (bt_through b), sc_next_due_at := bt_next b,
     sc_catch_up := None, sc_state := (if bt_next b = None \<and> \<not> busy then Completed else sc_state s),
     sc_updated_at := now e\<rparr>"

definition finish_tx :: "env \<Rightarrow> (db \<Rightarrow> unit res) \<Rightarrow> uuid \<Rightarrow> batch \<Rightarrow> occ_ids \<Rightarrow> db \<Rightarrow> (unit \<times> db) res" where
  "finish_tx e fence sid b ids d =
     andThen (deploymentAdmission d True) (\<lambda>_.
     case find (\<lambda>s. sc_id s = sid \<and> sc_catch_up s = Some b) (schedules d) of
       None \<Rightarrow> Inr ((), d)
     | Some cur \<Rightarrow>
         if sc_state cur \<noteq> Enabled then Inr ((), d)
         else andThen (case bt_range_from b of
             None \<Rightarrow> Inr d
           | Some from \<Rightarrow> andThen (history_room e sid d) (\<lambda>d1.
               insert_occurrence (skipped_row e ids cur Range None (bt_through b)
                 (SkippedRange from (bt_through b) (bt_excluded b)) ''MISSED_RANGE'') d1)) (\<lambda>d2.
         andThen (fence d2) (\<lambda>_.
         Inr ((), update_schedule sid (finished e b (unresolved_of sid d2 > 0)) d2))))"

section \<open>The planner\<close>

definition plan_batch ::
  "env \<Rightarrow> (db \<Rightarrow> unit res) \<Rightarrow> schedule_row \<Rightarrow> batch \<Rightarrow> occ_ids \<Rightarrow> db \<Rightarrow> unit res \<times> db" where
  "plan_batch e fence h b ids d = (case bt_minutes b of
       [] \<Rightarrow> transaction (finish_tx e fence (sc_id h) b ids) d
     | m # _ \<Rightarrow> (case transaction (admit_tx e fence h b m ids) d of
           (Inr _, d1) \<Rightarrow> (Inr (), d1)
         | (Inl (Crash w), d1) \<Rightarrow> (Inl (Crash w), d1)
         | (Inl (HarborError n code), d1) \<Rightarrow>
             if code \<in> {''SCHEDULE_OVERLAP'', ''WORKSPACE_BUSY''} \<and> bt_range_from b = None
             then transaction (skip_tx e fence (sc_id h) b m ids) d1
             else if code \<notin> {''SCHEDULE_OVERLAP'', ''WORKSPACE_BUSY'', ''SCHEDULE_CHANGED'', ''SCHEDULE_PAUSED''}
             then transaction (attention_tx fence h (attention code)) d1
             else (Inr (), d1)))"

text \<open>The planner after its first read, of the row \<open>h\<close> and its configuration \<open>c\<close>.\<close>

definition plan_hint ::
  "env \<Rightarrow> (db \<Rightarrow> unit res) \<Rightarrow> schedule_row \<Rightarrow> schedule_config \<Rightarrow> occ_ids \<Rightarrow> db \<Rightarrow> unit res \<times> db" where
  "plan_hint e fence h c ids d =
     (if sc_state h \<noteq> Enabled then (Inr (), d)
      else if plan_stale e h
      then transaction (attention_tx fence h (attention_at e
          (if sc_time_fingerprint h \<noteq> time_fingerprint e then ''TIME_ENGINE_CHANGED'' else ''CLOCK_MOVED_BACKWARD''))) d
      else (case sc_catch_up h of
          Some b \<Rightarrow> plan_batch e fence h b ids d
        | None \<Rightarrow>
            if (case sc_next_due_at h of None \<Rightarrow> True | Some t \<Rightarrow> scheduler_now e < t) then (Inr (), d)
            else (case new_batch e h c of
                Inl f \<Rightarrow> (Inl f, d)
              | Inr b \<Rightarrow> (case transaction (save_tx e fence h b) d of
                    (Inl f, d1) \<Rightarrow> (Inl f, d1)
                  | (Inr saved, d1) \<Rightarrow> if saved then plan_batch e fence h b ids d1 else (Inr (), d1)))))"

definition planSchedule :: "env \<Rightarrow> (db \<Rightarrow> unit res) \<Rightarrow> uuid \<Rightarrow> occ_ids \<Rightarrow> db \<Rightarrow> unit res \<times> db" where
  "planSchedule e fence sid ids d =
     (case schedule_find sid d of
        None \<Rightarrow> (Inr (), d)
      | Some h \<Rightarrow> (case version_find sid (sc_config_revision h) d of
            None \<Rightarrow> (Inr (), d)
          | Some v \<Rightarrow> plan_hint e fence h (sv_config v) ids d))"

end
