(* ===== verification/Attachments.thy ===== *)
theory Attachments
  imports Storage
begin

text \<open>
  Files attached to a conversation: the byte level checks of an upload
  (\<^verbatim>\<open>validateMedia\<close>, \<^verbatim>\<open>packages/attachments/src/media.ts\<close>) and the life
  of an attachment row from staging to deletion (\<^verbatim>\<open>packages/attachments/src/store.ts\<close>).
  The image decoder (\<^verbatim>\<open>sharp\<close>) is a parameter.
\<close>

section \<open>Media profiles\<close>

definition ATTACHMENT_fileBytes :: nat where "ATTACHMENT_fileBytes = 10485760"
definition ATTACHMENT_imageBytes :: nat where "ATTACHMENT_imageBytes = 10485760"
definition ATTACHMENT_turnBytes :: nat where "ATTACHMENT_turnBytes = 20971520"

definition byte :: "char \<Rightarrow> nat" where "byte c = of_char c"

definition invalid_media :: "'a res" where
  "invalid_media = Inl (HarborError 400 ''INVALID_MEDIA'')"

text \<open>\<^verbatim>\<open>readUInt32BE\<close> and its inverse.\<close>

definition be32 :: "string \<Rightarrow> nat" where
  "be32 bs = ((byte (bs ! 0) * 256 + byte (bs ! 1)) * 256 + byte (bs ! 2)) * 256 + byte (bs ! 3)"

definition enc32 :: "nat \<Rightarrow> string" where
  "enc32 n = [char_of (n div 16777216), char_of (n div 65536), char_of (n div 256), char_of n]"

text \<open>Node's \<^verbatim>\<open>toString("ascii")\<close> clears the top bit of every byte.\<close>

definition ascii :: "string \<Rightarrow> string" where
  "ascii bs = map (\<lambda>c. char_of (byte c mod 128)) bs"

definition animation_tag :: "string \<Rightarrow> bool" where
  "animation_tag t \<longleftrightarrow> t \<in> {''acTL'', ''fcTL'', ''fdAT''}"

text \<open>The chunk loop of \<^verbatim>\<open>validateMedia\<close>; \<open>ended\<close> is its flag.\<close>

function png_chunks :: "string \<Rightarrow> nat \<Rightarrow> bool \<Rightarrow> unit res" where
  "png_chunks bs offset ended =
     (if \<not> offset < length bs then (if ended then Inr () else invalid_media)
      else if offset + 12 > length bs then invalid_media
      else let len = be32 (drop offset bs) in
        if len > length bs - offset - 12 then invalid_media
        else let tag = ascii (take 4 (drop (offset + 4) bs)); next = offset + len + 12 in
          if animation_tag tag then invalid_media
          else if tag = ''IEND'' \<and> (len \<noteq> 0 \<or> next \<noteq> length bs) then invalid_media
          else png_chunks bs next (ended \<or> tag = ''IEND''))"
  by auto
termination by (relation "measure (\<lambda>(bs, offset, ended). length bs - offset)") auto

declare png_chunks.simps [simp del]

definition png_signature :: string where
  "png_signature = map char_of [137, 80, 78, 71, 13, 10, 26, 10 :: nat]"

definition png_profile :: "string \<Rightarrow> unit res" where
  "png_profile bs = (if take 8 bs \<noteq> png_signature then invalid_media else png_chunks bs 8 False)"

fun contains :: "string \<Rightarrow> string \<Rightarrow> bool" where
  "contains p [] \<longleftrightarrow> p = []"
| "contains p (c # cs) \<longleftrightarrow> starts_with p (c # cs) \<or> contains p cs"

text \<open>An index before the start or past the end reads \<^verbatim>\<open>undefined\<close>.\<close>

definition byte_at :: "string \<Rightarrow> int \<Rightarrow> nat option" where
  "byte_at bs i = (if 0 \<le> i \<and> i < int (length bs) then Some (byte (bs ! nat i)) else None)"

definition jpeg_profile :: "string \<Rightarrow> unit res" where
  "jpeg_profile bs =
     (if byte_at bs 0 \<noteq> Some 255 \<or> byte_at bs 1 \<noteq> Some 216 \<or> byte_at bs 2 \<noteq> Some 255 \<or>
         byte_at bs (int (length bs) - 2) \<noteq> Some 255 \<or> byte_at bs (int (length bs) - 1) \<noteq> Some 217 \<or>
         contains (map char_of [0x4d, 0x50, 0x46, 0 :: nat]) bs
      then invalid_media else Inr ())"

definition text_control :: "char \<Rightarrow> bool" where
  "text_control c \<longleftrightarrow> byte c \<le> 8 \<or> byte c = 11 \<or> byte c = 12 \<or> (14 \<le> byte c \<and> byte c \<le> 31)"

text \<open>
  The decoder's report: width, height, pages, format (\<open>None\<close> where the property is
  missing), and its re-encoded output; \<open>None\<close> where it throws or times out.
\<close>

record picture =
  im_width :: "nat option"
  im_height :: "nat option"
  im_pages :: "nat option"
  im_format :: string
  im_output :: string

definition picture_ok :: "string \<Rightarrow> picture \<Rightarrow> bool" where
  "picture_ok type p \<longleftrightarrow>
     (case im_width p of None \<Rightarrow> False | Some w \<Rightarrow> w \<noteq> 0 \<and> w \<le> 8192) \<and>
     (case im_height p of None \<Rightarrow> False | Some h \<Rightarrow> h \<noteq> 0 \<and> h \<le> 8192) \<and>
     (case im_pages p of None \<Rightarrow> True | Some n \<Rightarrow> n = 1) \<and>
     im_format p = (if type = ''image/png'' then ''png'' else ''jpeg'') \<and>
     length (im_output p) \<le> ATTACHMENT_imageBytes"

text \<open>
  \<open>decoders\<close> is the module's counter of images being decoded when the call arrives;
  \<open>utf8\<close> is the fatal \<^verbatim>\<open>TextDecoder\<close> and \<open>sharp\<close> the decoder.
\<close>

definition validateMedia ::
  "(string \<Rightarrow> bool) \<Rightarrow> (string \<Rightarrow> picture option) \<Rightarrow> nat \<Rightarrow> string \<Rightarrow> string \<Rightarrow> string res" where
  "validateMedia utf8 sharp decoders bytes type =
     (if bytes = [] \<or> length bytes > ATTACHMENT_fileBytes then invalid_media
      else if type = ''application/octet-stream'' then Inr bytes
      else if type = ''text/plain'' then
        (if \<not> utf8 bytes \<or> list_ex text_control bytes then invalid_media else Inr bytes)
      else andThen (if type = ''image/png'' then png_profile bytes
                    else if type = ''image/jpeg'' then jpeg_profile bytes else invalid_media) (\<lambda>_.
        if decoders \<ge> 2 then Inl (HarborError 429 ''MEDIA_BUSY'')
        else (case sharp bytes of
            None \<Rightarrow> invalid_media
          | Some p \<Rightarrow> if picture_ok type p then Inr (im_output p) else invalid_media)))"

subsection \<open>The PNG loop accepts exactly well formed chunk streams\<close>

record chunk =
  ck_tag :: string
  ck_data :: string
  ck_crc :: string

definition chunk_bytes :: "chunk \<Rightarrow> string" where
  "chunk_bytes c = enc32 (length (ck_data c)) @ ck_tag c @ ck_data c @ ck_crc c"

definition chunk_ok :: "chunk \<Rightarrow> bool" where
  "chunk_ok c \<longleftrightarrow> length (ck_tag c) = 4 \<and> length (ck_crc c) = 4 \<and> length (ck_data c) < 4294967296 \<and>
     \<not> animation_tag (ascii (ck_tag c))"

definition is_end :: "chunk \<Rightarrow> bool" where
  "is_end c \<longleftrightarrow> ascii (ck_tag c) = ''IEND''"

text \<open>Well formed chunks, none of them an animation chunk, with one empty \<open>IEND\<close>, the last.\<close>

definition png_stream :: "chunk list \<Rightarrow> bool" where
  "png_stream cs \<longleftrightarrow> cs \<noteq> [] \<and> (\<forall>c \<in> set cs. chunk_ok c) \<and> (\<forall>c \<in> set (butlast cs). \<not> is_end c) \<and>
     is_end (last cs) \<and> ck_data (last cs) = []"

lemma byte_less [simp]: "byte c < 256"
  by (simp add: byte_def)

lemma byte_char_of [simp]: "byte (char_of n) = n mod 256"
  by (simp add: byte_def)

lemma char_of_byte [simp]: "char_of (byte c) = c"
  by (simp add: byte_def)

lemma length_enc32 [simp]: "length (enc32 n) = 4"
  by (simp add: enc32_def)

lemma be32_Cons:
  "be32 (a # b # c # d # xs) = ((byte a * 256 + byte b) * 256 + byte c) * 256 + byte d"
  by (simp add: be32_def)

lemma be32_enc32:
  assumes "n < 4294967296" shows "be32 (enc32 n @ xs) = n"
proof -
  have step: "(m div 256) * 256 + m mod 256 = m" for m :: nat by (rule div_mult_mod_eq)
  have "n div 16777216 < 256" using assms by (simp add: less_mult_imp_div_less)
  then have "n div 16777216 mod 256 = n div 65536 div 256" by (simp flip: div_mult2_eq)
  then have "be32 (enc32 n @ xs) =
      ((n div 65536 div 256 * 256 + n div 65536 mod 256) * 256 + n div 256 mod 256) * 256 + n mod 256"
    by (simp only: be32_Cons enc32_def append_Cons byte_char_of)
  also have "\<dots> = (n div 256 div 256 * 256 + n div 256 mod 256) * 256 + n mod 256"
  proof -
    have "n div 65536 = n div 256 div 256" by (simp flip: div_mult2_eq)
    then show ?thesis by (simp only: step)
  qed
  also have "\<dots> = n" by (simp only: step)
  finally show ?thesis .
qed

lemma enc32_be32:
  assumes "4 \<le> length bs" shows "enc32 (be32 bs) = take 4 bs"
proof -
  have "length bs = Suc (Suc (Suc (Suc (length bs - 4))))" using assms by simp
  then obtain a b c d xs where bs: "bs = a # b # c # d # xs"
    by (metis length_Suc_conv)
  have sub: "(x * 256 + byte y) div 256 = x" for x y
    using byte_less [of y] by simp
  have "byte (char_of (x * 256 + byte y)) = byte y" for x y
    by (simp only: byte_char_of mod_mult_self3 mod_less byte_less)
  then have char: "char_of (x * 256 + byte y) = y" for x y by (metis char_of_byte)
  have q: "n div 16777216 = n div 256 div 256 div 256" "n div 65536 = n div 256 div 256" for n :: nat
    by (simp_all flip: div_mult2_eq)
  show ?thesis unfolding bs be32_def enc32_def q by (simp only: nth_Cons_0 nth_Cons_numeral One_nat_def nth_Cons_Suc sub char char_of_byte) (simp add: sub char)
qed

lemma ascii_length [simp]: "length (ascii bs) = length bs"
  by (simp add: ascii_def)

lemma chunk_bytes_length: "chunk_ok c \<Longrightarrow> length (chunk_bytes c) = length (ck_data c) + 12"
  by (simp add: chunk_bytes_def chunk_ok_def)

text \<open>What the loop reads at a chunk boundary, and what it does with it.\<close>

lemma png_chunks_step:
  assumes "drop k bs = chunk_bytes c @ rest" and ok: "chunk_ok c"
  shows "png_chunks bs k ended =
    (if is_end c \<and> (ck_data c \<noteq> [] \<or> rest \<noteq> []) then invalid_media
     else png_chunks bs (k + length (chunk_bytes c)) (ended \<or> is_end c))"
proof -
  have len: "length bs - k = length (chunk_bytes c @ rest)" using assms(1) by (metis length_drop)
  have n: "length (chunk_bytes c) = length (ck_data c) + 12" by (rule chunk_bytes_length [OF ok])
  have b: "be32 (drop k bs) = length (ck_data c)"
    unfolding assms(1) chunk_bytes_def append_assoc using ok by (intro be32_enc32) (simp add: chunk_ok_def)
  have "drop (k + 4) bs = drop 4 (drop k bs)" by (simp add: add.commute)
  then have t: "take 4 (drop (k + 4) bs) = ck_tag c"
    using ok by (simp add: assms(1) chunk_bytes_def chunk_ok_def)
  have bounds: "k < length bs" "\<not> k + 12 > length bs" "\<not> length (ck_data c) > length bs - k - 12"
    using len n by auto
  have "k + length (ck_data c) + 12 = length bs \<longleftrightarrow> rest = []" using len n bounds by (cases rest) auto
  then show ?thesis
    using ok bounds n by (subst png_chunks.simps) (auto simp: b t Let_def is_end_def chunk_ok_def ac_simps)
qed

lemma png_chunks_chunk:
  assumes "png_chunks bs k ended = Inr ()" and "k < length bs"
  obtains c rest where "drop k bs = chunk_bytes c @ rest" "chunk_ok c"
proof -
  let ?d = "drop k bs"
  let ?n = "be32 ?d"
  have len: "12 \<le> length ?d" "?n \<le> length ?d - 12"
    and tag: "\<not> animation_tag (ascii (take 4 (drop (k + 4) bs)))"
    using assms by (auto simp: png_chunks.simps [of bs k] invalid_media_def Let_def split: if_splits)
  let ?c = "\<lparr> ck_tag = take 4 (drop 4 ?d), ck_data = take ?n (drop 8 ?d), ck_crc = take 4 (drop (8 + ?n) ?d) \<rparr>"
  have n: "?n < 4294967296"
  proof -
    have lt: "x < 256 \<Longrightarrow> y < 256 \<Longrightarrow> z < 256 \<Longrightarrow> w < 256 \<Longrightarrow> ((x * 256 + y) * 256 + z) * 256 + w < (4294967296 :: nat)"
      for x y z w by simp
    show ?thesis unfolding be32_def by (rule lt) simp_all
  qed
  have dl: "length (ck_data ?c) = ?n" using len by simp
  have "?d = take 4 ?d @ take 4 (drop 4 ?d) @ take ?n (drop 8 ?d) @ take 4 (drop (8 + ?n) ?d) @ drop (12 + ?n) ?d"
    using append_take_drop_id [of 4 ?d] append_take_drop_id [of 4 "drop 4 ?d"]
      append_take_drop_id [of ?n "drop 8 ?d"] append_take_drop_id [of 4 "drop (8 + ?n) ?d"]
    by (simp add: add.commute add.left_commute)
  then have "?d = chunk_bytes ?c @ drop (12 + ?n) ?d"
    using enc32_be32 [of ?d] len dl by (simp add: chunk_bytes_def)
  moreover have "chunk_ok ?c" using len n tag by (simp add: chunk_ok_def add.commute)
  ultimately show thesis by (rule that)
qed

lemma png_chunks_past [simp]: "length bs \<le> k \<Longrightarrow> png_chunks bs k ended = (if ended then Inr () else invalid_media)"
  by (simp add: png_chunks.simps)

lemma invalid_media_neq [simp]: "invalid_media \<noteq> Inr x" "Inr x \<noteq> invalid_media"
  by (simp_all add: invalid_media_def)

lemma png_chunks_complete:
  "png_stream cs \<Longrightarrow> drop k bs = concat (map chunk_bytes cs) \<Longrightarrow> png_chunks bs k False = Inr ()"
proof (induction cs arbitrary: k)
  case Nil then show ?case by (simp add: png_stream_def)
next
  case (Cons c cs)
  have ok: "chunk_ok c" using Cons.prems(1) by (simp add: png_stream_def)
  have d: "drop k bs = chunk_bytes c @ concat (map chunk_bytes cs)" using Cons.prems(2) by simp
  then have rst: "drop (k + length (chunk_bytes c)) bs = concat (map chunk_bytes cs)"
    by (metis add.commute append_eq_conv_conj drop_drop)
  show ?case
  proof (cases "cs = []")
    case True
    then have "is_end c" "ck_data c = []" using Cons.prems(1) by (auto simp: png_stream_def)
    then show ?thesis using png_chunks_step [OF d ok, of False] rst True by simp
  next
    case False
    then have "\<not> is_end c" "png_stream cs" using Cons.prems(1) by (auto simp: png_stream_def)
    then show ?thesis using png_chunks_step [OF d ok, of False] Cons.IH rst by simp
  qed
qed

lemma png_chunks_sound:
  "png_chunks bs k False = Inr () \<Longrightarrow> \<exists>cs. png_stream cs \<and> drop k bs = concat (map chunk_bytes cs)"
proof (induction "length bs - k" arbitrary: k rule: less_induct)
  case less
  have k: "k < length bs" using less.prems by (cases "k < length bs") auto
  with less.prems obtain c rest where d: "drop k bs = chunk_bytes c @ rest" and ok: "chunk_ok c"
    by (rule png_chunks_chunk)
  have n: "length (chunk_bytes c) = length (ck_data c) + 12" by (rule chunk_bytes_length [OF ok])
  have rst: "drop (k + length (chunk_bytes c)) bs = rest"
    using d by (metis add.commute append_eq_conv_conj drop_drop)
  note step = png_chunks_step [OF d ok, of False]
  show ?case
  proof (cases "is_end c")
    case True
    then have "ck_data c = []" "rest = []" using step less.prems by (auto split: if_splits)
    then have "png_stream [c]" "drop k bs = concat (map chunk_bytes [c])"
      using True ok d by (simp_all add: png_stream_def)
    then show ?thesis by blast
  next
    case False
    then have "png_chunks bs (k + length (chunk_bytes c)) False = Inr ()" using step less.prems by simp
    moreover have "length bs - (k + length (chunk_bytes c)) < length bs - k" using k n by linarith
    ultimately obtain cs where "png_stream cs" "rest = concat (map chunk_bytes cs)"
      using less.hyps rst by metis
    then have "png_stream (c # cs)" "drop k bs = concat (map chunk_bytes (c # cs))"
      using False ok d by (auto simp: png_stream_def)
    then show ?thesis by blast
  qed
qed

lemma png_profile_iff:
  "png_profile bs = Inr () \<longleftrightarrow> (\<exists>cs. png_stream cs \<and> bs = png_signature @ concat (map chunk_bytes cs))"
proof
  assume "png_profile bs = Inr ()"
  then have "take 8 bs = png_signature" "png_chunks bs 8 False = Inr ()"
    by (auto simp: png_profile_def split: if_splits)
  then show "\<exists>cs. png_stream cs \<and> bs = png_signature @ concat (map chunk_bytes cs)"
    using png_chunks_sound by (metis append_take_drop_id)
next
  assume "\<exists>cs. png_stream cs \<and> bs = png_signature @ concat (map chunk_bytes cs)"
  then obtain cs where "png_stream cs" "bs = png_signature @ concat (map chunk_bytes cs)" by blast
  moreover have "length png_signature = 8" by (simp add: png_signature_def)
  ultimately show "png_profile bs = Inr ()" using png_chunks_complete [of cs 8 bs] by (simp add: png_profile_def)
qed

section \<open>Attachment rows\<close>

definition image_type :: "string option \<Rightarrow> bool" where
  "image_type m \<longleftrightarrow> m \<in> {Some ''image/png'', Some ''image/jpeg''}"

definition text_type :: "string option \<Rightarrow> bool" where
  "text_type m \<longleftrightarrow> m \<in> {Some ''text/plain'', Some ''application/octet-stream''}"

definition validateAttachmentModalities :: "env \<Rightarrow> db \<Rightarrow> attachment_row list \<Rightarrow> string \<Rightarrow> unit res" where
  "validateAttachmentModalities e d rows model =
     (let modalities = (case find (\<lambda>m. mc_model m = model) (discovered e d) of
          None \<Rightarrow> [] | Some m \<Rightarrow> mc_modalities m) in
      if list_ex (\<lambda>a. image_type (at_media_type a)) rows \<and> ''image'' \<notin> set modalities
      then Inl (HarborError 403 ''IMAGE_UNSUPPORTED'')
      else if list_ex (\<lambda>a. text_type (at_media_type a)) rows \<and> ''text'' \<notin> set modalities
      then Inl (HarborError 403 ''FILE_UNSUPPORTED'')
      else Inr ())"

definition attachment_usable :: "env \<Rightarrow> uuid \<Rightarrow> attachment_row \<Rightarrow> bool" where
  "attachment_usable e sess a \<longleftrightarrow> at_session a = sess \<and> at_state a = AttStaged \<and> at_expires_at a > now e"

definition clear_draft :: "env \<Rightarrow> draft_row \<Rightarrow> draft_row" where
  "clear_draft e r = r\<lparr>dr_text := [], dr_attachments := [], dr_revision := dr_revision r + 1, dr_updated_at := now e\<rparr>"

definition associateAttachments ::
  "env \<Rightarrow> uuid \<Rightarrow> uuid \<Rightarrow> uuid list \<Rightarrow> string \<Rightarrow> nat option \<Rightarrow> db \<Rightarrow> db res" where
  "associateAttachments e sess opid ids model draftRevision d =
     (if \<not> distinct ids \<or> length ids > 4 then Inl (HarborError 400 ''ATTACHMENT_LIMIT'')
      else let rows = filter (\<lambda>a. at_id a \<in> set ids) (attachments d) in
        if length rows \<noteq> length ids \<or> \<not> list_all (attachment_usable e sess) rows
        then Inl (HarborError 409 ''ATTACHMENT_UNAVAILABLE'')
        else if sum_list (map at_size rows) > ATTACHMENT_turnBytes
        then Inl (HarborError 413 ''ATTACHMENT_LIMIT'')
        else andThen (validateAttachmentModalities e d rows model) (\<lambda>_.
          let d1 = d\<lparr>attachments := update_where (\<lambda>a. at_id a \<in> set ids)
                (\<lambda>a. a\<lparr>at_state := AttAttached, at_operation := Some opid\<rparr>) (attachments d)\<rparr>
          in Inr (case draftRevision of None \<Rightarrow> d1
             | Some v \<Rightarrow> d1\<lparr>conversation_drafts := update_where
                 (\<lambda>r. dr_session r = sess \<and> dr_revision r = v) (clear_draft e) (conversation_drafts d1)\<rparr>)))"

definition operationAttachments :: "env \<Rightarrow> db \<Rightarrow> uuid \<Rightarrow> uuid \<Rightarrow> attachment_row list res" where
  "operationAttachments e d sess opid =
     (let rows = sort_key at_id (filter (\<lambda>a. at_session a = sess \<and> at_operation a = Some opid \<and>
            at_state a = AttAttached) (attachments d)) in
      if list_ex (\<lambda>a. case at_content a of None \<Rightarrow> True | Some c \<Rightarrow> at_digest a \<noteq> Some (hash e c)) rows
      then Inl (HarborError 409 ''ATTACHMENT_INTEGRITY'') else Inr rows)"

definition draft_holds :: "env \<Rightarrow> db \<Rightarrow> attachment_row \<Rightarrow> bool" where
  "draft_holds e d a \<longleftrightarrow> exists_row (\<lambda>r. dr_session r = at_session a \<and> at_id a \<in> set (dr_attachments r) \<and>
     dr_updated_at r > now e - 86400000) (conversation_drafts d)"

definition draft_stale :: "env \<Rightarrow> draft_row \<Rightarrow> bool" where
  "draft_stale e r \<longleftrightarrow> dr_updated_at r < now e - 86400000 \<and> (dr_text r \<noteq> [] \<or> dr_attachments r \<noteq> [])"

definition attachment_overdue :: "env \<Rightarrow> db \<Rightarrow> attachment_row \<Rightarrow> bool" where
  "attachment_overdue e d a \<longleftrightarrow> at_state a \<in> {AttUploading, AttStaged} \<and> at_expires_at a < now e \<and> \<not> draft_holds e d a"

definition attachment_purged :: "env \<Rightarrow> attachment_row \<Rightarrow> bool" where
  "attachment_purged e a \<longleftrightarrow> at_state a \<in> {AttDeleted, AttExpired} \<and> at_created_at a < now e - 2 * 86400000"

definition maintain_session :: "env \<Rightarrow> uuid \<Rightarrow> db \<Rightarrow> db" where
  "maintain_session e i d =
     (let d1 = d\<lparr>conversation_drafts := update_where (\<lambda>r. dr_session r = i \<and> draft_stale e r)
            (\<lambda>r. r\<lparr>dr_text := [], dr_attachments := [], dr_revision := dr_revision r + 1\<rparr>) (conversation_drafts d)\<rparr>;
          d2 = d1\<lparr>attachments := update_where (\<lambda>a. at_session a = i \<and> attachment_overdue e d1 a)
            (\<lambda>a. a\<lparr>at_state := AttExpired, at_content := None\<rparr>) (attachments d1)\<rparr>
      in d2\<lparr>attachments := delete_where (\<lambda>a. at_session a = i \<and> attachment_purged e a) (attachments d2)\<rparr>)"

definition maintenance_candidates :: "env \<Rightarrow> db \<Rightarrow> uuid list" where
  "maintenance_candidates e d = take 100 (remdups
     (map at_session (filter (\<lambda>a. attachment_purged e a \<or> attachment_overdue e d a) (attachments d)) @
      map dr_session (filter (draft_stale e) (conversation_drafts d))))"

text \<open>
  One transaction per candidate; a candidate without its conversation throws and ends the loop,
  keeping what was committed before.
\<close>

fun maintain_candidates :: "env \<Rightarrow> uuid list \<Rightarrow> db \<Rightarrow> unit res \<times> db" where
  "maintain_candidates e [] d = (Inr (), d)"
| "maintain_candidates e (i # is) d =
     (if session_find i d = None then (Inl (HarborError 404 ''NOT_FOUND''), d)
      else maintain_candidates e is (maintain_session e i d))"

definition maintainAttachments :: "env \<Rightarrow> db \<Rightarrow> unit res \<times> db" where
  "maintainAttachments e d = maintain_candidates e (maintenance_candidates e d) d"

lemma maintain_session_keeps:
  assumes "a \<in> set (attachments d)" and "at_state a = AttAttached \<or> at_state a = AttStaged \<and> (at_expires_at a \<ge> now e \<or>
      (\<exists>r \<in> set (conversation_drafts d). dr_session r = at_session a \<and> at_id a \<in> set (dr_attachments r) \<and>
         dr_updated_at r > now e - 86400000))"
  shows "a \<in> set (attachments (maintain_session e i d)) \<and> (\<forall>r \<in> set (conversation_drafts d). dr_updated_at r > now e - 86400000 \<longrightarrow>
      r \<in> set (conversation_drafts (maintain_session e i d)))"
proof -
  let ?d1 = "d\<lparr>conversation_drafts := update_where (\<lambda>r. dr_session r = i \<and> draft_stale e r)
            (\<lambda>r. r\<lparr>dr_text := [], dr_attachments := [], dr_revision := dr_revision r + 1\<rparr>) (conversation_drafts d)\<rparr>"
  have drafts: "r \<in> set (conversation_drafts ?d1)" if "r \<in> set (conversation_drafts d)" "dr_updated_at r > now e - 86400000" for r
    using that by (force simp: set_update_where draft_stale_def)
  have "\<not> attachment_overdue e ?d1 a"
  proof (cases "at_state a = AttAttached \<or> at_expires_at a \<ge> now e")
    case True then show ?thesis by (auto simp: attachment_overdue_def)
  next
    case False
    then obtain r where r: "r \<in> set (conversation_drafts d)" "dr_session r = at_session a" "at_id a \<in> set (dr_attachments r)"
      "dr_updated_at r > now e - 86400000" using assms(2) by auto
    then have "draft_holds e ?d1 a" using drafts [OF r(1,4)] unfolding draft_holds_def by auto
    then show ?thesis by (simp add: attachment_overdue_def)
  qed
  then have "a \<in> set (attachments (maintain_session e i d))"
    using assms by (auto simp: maintain_session_def Let_def set_delete_where set_update_where attachment_purged_def image_iff)
  then show ?thesis using drafts by (simp add: maintain_session_def Let_def)
qed

text \<open>Cleaning never touches a file that a turn owns or a recent draft still names.\<close>

lemma maintain_candidates_keeps:
  assumes "a \<in> set (attachments d)" and "at_state a = AttAttached \<or> at_state a = AttStaged \<and> (at_expires_at a \<ge> now e \<or>
      (\<exists>r \<in> set (conversation_drafts d). dr_session r = at_session a \<and> at_id a \<in> set (dr_attachments r) \<and>
         dr_updated_at r > now e - 86400000))"
  shows "a \<in> set (attachments (snd (maintain_candidates e is d)))"
  using assms
proof (induction "is" arbitrary: d)
  case (Cons i "is")
  show ?case
  proof (cases "session_find i d = None")
    case False
    have "a \<in> set (attachments (maintain_session e i d))" "\<forall>r \<in> set (conversation_drafts d). dr_updated_at r > now e - 86400000 \<longrightarrow>
      r \<in> set (conversation_drafts (maintain_session e i d))"
      using maintain_session_keeps [OF Cons.prems] by auto
    then show ?thesis using False Cons.prems(2) by (auto intro!: Cons.IH)
  qed (use Cons.prems in simp)
qed simp

lemma associateAttachments_Inr:
  assumes "associateAttachments e sess opid ids model dr d = Inr d'"
  shows "distinct ids \<and> length ids \<le> 4 \<and>
    (\<forall>a \<in> set (attachments d). at_id a \<in> set ids \<longrightarrow> attachment_usable e sess a) \<and>
    length (filter (\<lambda>a. at_id a \<in> set ids) (attachments d)) = length ids \<and>
    sum_list (map at_size (filter (\<lambda>a. at_id a \<in> set ids) (attachments d))) \<le> ATTACHMENT_turnBytes \<and>
    attachments d' = update_where (\<lambda>a. at_id a \<in> set ids) (\<lambda>a. a\<lparr>at_state := AttAttached, at_operation := Some opid\<rparr>) (attachments d)"
  using assms
  by (auto simp: associateAttachments_def Let_def res_simps list_all_iff split: if_splits option.splits)

lemma associateAttachments_frame:
  assumes "associateAttachments e sess opid ids model dr d = Inr d'"
  shows "\<exists>as ds. d' = d\<lparr>attachments := as, conversation_drafts := ds\<rparr>"
  using assms
  by (intro exI [of _ "attachments d'"] exI [of _ "conversation_drafts d'"])
    (auto simp: associateAttachments_def Let_def res_simps split: if_splits option.splits)

section \<open>Properties\<close>

text \<open>The PNG check accepts exactly the byte strings that are the PNG signature followed by
  well formed chunks, none of which is an animation chunk, ending with one empty \<open>IEND\<close> chunk and
  nothing after it.\<close>

theorem png_profile_exact:
  "png_profile bs = Inr () \<longleftrightarrow> (\<exists>cs. png_stream cs \<and> bs = png_signature @ concat (map chunk_bytes cs))"
  by (rule png_profile_iff)

text \<open>Attaching files to a turn takes only distinct, staged, unexpired files of the same
  conversation, at most four and at most 20 MiB together, and hands exactly those over to the turn;
  every other file is left alone.\<close>

theorem attachments_associated:
  assumes "associateAttachments e sess opid ids model dr d = Inr d'"
  shows "length ids \<le> 4 \<and> sum_list (map at_size (filter (\<lambda>a. at_id a \<in> set ids) (attachments d))) \<le> 20971520 \<and>
    (\<forall>a \<in> set (attachments d). at_id a \<in> set ids \<longrightarrow> at_session a = sess \<and> at_state a = AttStaged \<and> now e < at_expires_at a) \<and>
    (\<forall>a \<in> set (attachments d). at_id a \<in> set ids \<longrightarrow> a\<lparr>at_state := AttAttached, at_operation := Some opid\<rparr> \<in> set (attachments d')) \<and>
    (\<forall>a \<in> set (attachments d). at_id a \<notin> set ids \<longrightarrow> a \<in> set (attachments d'))"
proof (intro conjI ballI impI)
  note a = associateAttachments_Inr [OF assms]
  let ?f = "\<lambda>a. if at_id a \<in> set ids then a\<lparr>at_state := AttAttached, at_operation := Some opid\<rparr> else a"
  show "length ids \<le> 4" using a by blast
  show "sum_list (map at_size (filter (\<lambda>a. at_id a \<in> set ids) (attachments d))) \<le> 20971520"
    using a by (simp add: ATTACHMENT_turnBytes_def)
  have eq: "set (attachments d') = ?f ` set (attachments d)" using a by (simp add: set_update_where)
  fix x assume x: "x \<in> set (attachments d)"
  then have in': "?f x \<in> set (attachments d')" unfolding eq by (rule imageI)
  show "at_session x = sess" "at_state x = AttStaged" "now e < at_expires_at x" if "at_id x \<in> set ids"
    using a x that by (auto simp: attachment_usable_def)
  show "x\<lparr>at_state := AttAttached, at_operation := Some opid\<rparr> \<in> set (attachments d')" if "at_id x \<in> set ids"
    using in' that by simp
  show "x \<in> set (attachments d')" if "at_id x \<notin> set ids" using in' that by simp
qed

definition demo_file :: attachment_row where
  "demo_file = \<lparr> at_id = ''a'', at_session = ''s'', at_state = AttStaged, at_size = 3, at_media_type = Some ''text/plain'',
     at_digest = Some ''#abc'', at_content = Some ''abc'', at_operation = None, at_created_at = 0, at_expires_at = 2000000 \<rparr>"

theorem attachments_associated_witness:
  "\<exists>d'. associateAttachments demo_env ''s'' ''t'' [''a''] ''m'' None (demo_db\<lparr>attachments := [demo_file]\<rparr>) = Inr d' \<and>
     demo_file\<lparr>at_state := AttAttached, at_operation := Some ''t''\<rparr> \<in> set (attachments d')"
proof -
  let ?d = "demo_db\<lparr>attachments := [demo_file]\<rparr>"
  have "succeeds (associateAttachments demo_env ''s'' ''t'' [''a''] ''m'' None ?d)" by code_simp
  then obtain d' where d': "associateAttachments demo_env ''s'' ''t'' [''a''] ''m'' None ?d = Inr d'" by (rule succeedsE)
  from attachments_associated [OF this] d' show ?thesis by (auto simp: demo_file_def)
qed

text \<open>Cleaning up attachments never removes or empties a file that a turn owns, that has not
  expired, or that a draft edited within the last day still names.\<close>

theorem attachment_cleaning_safe:
  assumes "a \<in> set (attachments d)"
    and "at_state a = AttAttached \<or> at_state a = AttStaged \<and> (now e \<le> at_expires_at a \<or> draft_holds e d a)"
  shows "a \<in> set (attachments (snd (maintainAttachments e d)))"
  unfolding maintainAttachments_def
  by (rule maintain_candidates_keeps) (use assms in \<open>auto simp: draft_holds_def\<close>)

theorem attachment_cleaning_safe_witness:
  "demo_file \<in> set (attachments (snd (maintainAttachments demo_env (demo_db\<lparr>attachments := [demo_file]\<rparr>))))"
  by (rule attachment_cleaning_safe) (simp_all add: demo_file_def demo_env_def)

end
