(* ===== verification/Turns.thy ===== *)
theory Turns
  imports Workspaces Attachments
begin

text \<open>
  Accepting a turn: \<^verbatim>\<open>acceptConversationTurn\<close> of
  \<^verbatim>\<open>packages/storage/src/turns.ts\<close> and the schema it parses
  (\<^verbatim>\<open>turnSchema\<close>, \<^verbatim>\<open>packages/contracts/src/index.ts\<close>). The lemmas
  show that an accepted turn respects every quota, keeps a control slot in reserve for itself and
  for every other running turn, and leaves the rest of the database alone.
\<close>

section \<open>The turn schema\<close>

record turn_input =
  tu_text :: string
  tu_model :: string
  tu_effort :: string
  tu_profile :: profile
  tu_attachments :: "uuid list"
  tu_draft_revision :: "nat option"

definition reasoning_efforts :: "string list" where
  "reasoning_efforts = [''low'', ''medium'', ''high'', ''xhigh'', ''max'']"

text \<open>
  Strings are UTF-8 bytes here, so the byte bound of the refinement implies the bound on
  characters before it.
\<close>

definition parse_turn :: "env \<Rightarrow> turn_input \<Rightarrow> turn_input res" where
  "parse_turn e i = (let t = trim (tu_text i) in
     if length t > 32768 \<or> tu_model i = [] \<or> length (tu_model i) > 100 \<or>
        tu_effort i \<notin> set reasoning_efforts \<or> \<not> list_all (valid_uuid e) (tu_attachments i) \<or>
        length (tu_attachments i) > 4 \<or> (t = [] \<and> tu_attachments i = [])
     then Inl (Crash ''ZodError'') else Inr (i\<lparr>tu_text := t\<rparr>))"

definition profile_text :: "profile \<Rightarrow> string" where
  "profile_text p = (case p of ReadOnly \<Rightarrow> ''read-only'' | WorkspaceWrite \<Rightarrow> ''workspace-write'')"

definition turn_payload :: "turn_input \<Rightarrow> json" where
  "turn_payload b = JObj ([(''text'', JStr (tu_text b)), (''model'', JStr (tu_model b)),
     (''effort'', JStr (tu_effort b)), (''permissionProfile'', JStr (profile_text (tu_profile b))),
     (''attachmentIds'', JArr (map JStr (tu_attachments b)))] @
     (case tu_draft_revision b of None \<Rightarrow> [] | Some n \<Rightarrow> [(''draftRevision'', JNum (int n))]))"

section \<open>Accepting a turn\<close>

definition MESSAGE_BYTES :: nat where "MESSAGE_BYTES = 2097152"

definition history_bytes :: "uuid \<Rightarrow> db \<Rightarrow> nat" where
  "history_bytes i d = sum_list (map (length \<circ> ms_text) (filter (\<lambda>m. ms_session m = i) (messages d)))"

definition history_messages :: "uuid \<Rightarrow> db \<Rightarrow> nat" where
  "history_messages i d = count_where (\<lambda>m. ms_session m = i) (messages d)"

definition active_operations :: "db \<Rightarrow> nat" where
  "active_operations d = count_where (\<lambda>x. active_state (op_state x)) (operations d)"

definition unresolved :: "uuid \<Rightarrow> db \<Rightarrow> bool" where
  "unresolved i d \<longleftrightarrow> exists_row (\<lambda>x. op_session x = i \<and> op_state x = Uncertain \<and> op_acknowledged_at x = None) (operations d)"

text \<open>The refusals between the row lock and the insertion.\<close>

definition turn_admission ::
  "env \<Rightarrow> turn_input \<Rightarrow> selected \<Rightarrow> session_row \<Rightarrow> db \<Rightarrow> unit res" where
  "turn_admission e b sel s d =
     (if se_background_stop s then Inl (HarborError 409 ''BACKGROUND_STOPPING'')
      else if pj_archived_at (snd sel) \<noteq> None \<or> ws_state (fst sel) \<noteq> WsReady
      then Inl (HarborError 409 ''WORKSPACE_UNAVAILABLE'')
      else andThen (verifyWorkspace e sel) (\<lambda>_.
      andThen (capacity (se_id s) TurnSlot d) (\<lambda>_.
      if history_bytes (se_id s) d + length (tu_text b) > MESSAGE_BYTES \<or> history_messages (se_id s) d \<ge> 2000
      then Inl (HarborError 429 ''HISTORY_QUOTA'')
      else if unresolved (se_id s) d then Inl (HarborError 409 ''UNCERTAIN'')
      else if meta_emergency d then Inl (HarborError 409 ''EMERGENCY_STOP'')
      else if active_operations d \<ge> max_queued e then Inl (HarborError 429 ''QUEUE_QUOTA'')
      else Inr ())))"

definition queued_state :: "session_row \<Rightarrow> session_row" where
  "queued_state s = s\<lparr>se_state := (if se_state s \<in> {SessionIn Running, SessionIn WaitingApproval, SessionIn WaitingInput}
     then se_state s else SessionIn Queued)\<rparr>"

definition nameable :: "env \<Rightarrow> string \<Rightarrow> session_row \<Rightarrow> bool" where
  "nameable e text s \<longleftrightarrow> se_title_source s = TitlePending \<and> se_title s = ''New conversation'' \<and>
     conversation_title e text \<noteq> None"

definition name_session :: "env \<Rightarrow> string \<Rightarrow> session_row \<Rightarrow> session_row" where
  "name_session e text s = s\<lparr>se_title := the (conversation_title e text), se_title_source := TitleAutomatic,
     se_metadata_revision := se_metadata_revision s + 1\<rparr>"

text \<open>
  \<open>opid\<close> is \<^verbatim>\<open>options.operationId ?? randomUUID()\<close> and \<open>msgid\<close> the message's fresh id.
\<close>

definition acceptConversationTurn ::
  "env \<Rightarrow> uuid \<Rightarrow> turn_input \<Rightarrow> string \<Rightarrow> uuid \<Rightarrow> uuid \<Rightarrow> (db \<Rightarrow> unit res) \<Rightarrow> db \<Rightarrow> (operation_row \<times> db) res" where
  "acceptConversationTurn e sess input actor opid msgid authorize d =
     andThen (parse_turn e input) (\<lambda>b.
     andThen (case permission_ceiling e of None \<Rightarrow> Inr () | Some c \<Rightarrow> authorizePermission (tu_profile b) c) (\<lambda>_.
     andThen (effectiveSettings e d (tu_model b) (tu_effort b)) (\<lambda>_.
     if tu_model b \<notin> set (allowed_models e) then Inl (HarborError 403 ''MODEL_DENIED'')
     else andThen (sessionWorkspace d sess) (\<lambda>sel.
     andThen (first_row (Crash ''TypeError'') (session_find sess d)) (\<lambda>s.
     andThen (turn_admission e b sel s d) (\<lambda>_.
     andThen (authorize d) (\<lambda>_.
     let row = new_operation e opid sess TurnOp (turn_payload b) actor in
     andThen (insert_operation row d) (\<lambda>d1.
     andThen (associateAttachments e sess opid (tu_attachments b) (tu_model b) (tu_draft_revision b) d1) (\<lambda>d2.
     if msgid \<in> ms_id ` set (messages d2) then Inl (Crash ''messages_pkey'')
     else let d3 = d2\<lparr>messages := messages d2 @ [\<lparr> ms_id = msgid, ms_session = sess, ms_operation = Some opid,
              ms_native_item = None, ms_role = UserRole, ms_text = tu_text b, ms_status = MsgComplete \<rparr>]\<rparr>;
            d4 = update_session sess queued_state d3 in
     andThen (case find (\<lambda>x. se_id x = sess \<and> nameable e (tu_text b) x) (sessions d4) of
         None \<Rightarrow> Inr d4
       | Some x \<Rightarrow> let y = name_session e (tu_text b) x in
           andThen (event e sess ''session.metadata'' (JObj [(''title'', JStr (se_title y)),
               (''archived'', JBool (se_archived s)), (''revision'', JNum (int (se_metadata_revision y)))])
             (update_session sess (\<lambda>x. if nameable e (tu_text b) x then name_session e (tu_text b) x else x) d4))
             (\<lambda>(_, d5). Inr d5)) (\<lambda>d5.
     andThen (event e sess ''operation.queued'' (JObj [(''operationId'', JStr opid)]) d5) (\<lambda>(_, d6).
     Inr (row, d6))))))))))))"

section \<open>What an accepted turn changes\<close>

text \<open>The columns of a conversation that neither events nor an accepted turn touch.\<close>

definition session_fixed :: "session_row \<Rightarrow> session_row" where
  "session_fixed s = s\<lparr>se_sequence := 0, se_replay_floor := 0, se_updated_at := 0, se_state := Idle,
     se_title := [], se_title_source := TitlePending, se_metadata_revision := 0\<rparr>"

lemma session_fixed_simps [simp]:
  "se_id (session_fixed s) = se_id s" "se_history_ceiling (session_fixed s) = se_history_ceiling s"
  "session_fixed (queued_state s) = session_fixed s" "session_fixed (name_session e t s) = session_fixed s"
  by (simp_all add: session_fixed_def queued_state_def name_session_def)

lemma session_fixed_core: "session_fixed (session_core s) = session_fixed s"
  by (simp add: session_fixed_def session_core_def)

lemma event_session_fixed:
  assumes "event e i ty data d = Inr (q, d')"
  shows "map session_fixed (sessions d') = map session_fixed (sessions d)"
  using arg_cong [OF event_cores [OF assms], of "map session_fixed"] by (simp add: session_fixed_core comp_def)

lemma update_session_fixed:
  "(\<And>s. session_fixed (f s) = session_fixed s) \<Longrightarrow> map session_fixed (sessions (update_session i f d)) = map session_fixed (sessions d)"
  by (simp add: map_update_where_key)

lemma ceiling_of_fixed:
  assumes "map session_fixed (sessions d') = map session_fixed (sessions d)"
  shows "ceiling_of i d' = ceiling_of i d"
proof -
  have "ceiling_of i x = (case find (\<lambda>s. se_id s = i) (map session_fixed (sessions x)) of None \<Rightarrow> 0 | Some s \<Rightarrow> se_history_ceiling s)" for x :: db
    by (simp add: ceiling_of_def session_find_def find_map_option comp_def split: option.splits)
  then show ?thesis using assms by simp
qed

text \<open>From the inserted rows on, only conversations and their event log change.\<close>

definition session_frame :: "db \<Rightarrow> db" where
  "session_frame d = d\<lparr>sessions := [], events := []\<rparr>"

lemma event_session_frame: "event e i ty data d = Inr (q, d') \<Longrightarrow> session_frame d' = session_frame d"
  by (auto simp: session_frame_def dest!: event_frame)

lemma update_session_frame [simp]: "session_frame (update_session i f d) = session_frame d"
  by (simp add: session_frame_def update_session_def)

lemma session_frameD:
  assumes "session_frame d' = session_frame d"
  shows "operations d' = operations d" "messages d' = messages d" "session_recoveries d' = session_recoveries d"
    "workspaces d' = workspaces d" "attachments d' = attachments d"
  using arg_cong [OF assms, of operations] arg_cong [OF assms, of messages] arg_cong [OF assms, of session_recoveries]
    arg_cong [OF assms, of workspaces] arg_cong [OF assms, of attachments]
  by (simp_all add: session_frame_def)

lemma update_session_replay_ok:
  assumes "replay_ok d" and "\<And>s. se_id (f s) = se_id s \<and> se_sequence (f s) = se_sequence s \<and> se_replay_floor (f s) = se_replay_floor s"
  shows "replay_ok (update_session i f d)"
proof -
  have "se_replay_floor t \<le> se_sequence t \<and> event_seqs (se_id t) d \<subseteq> {..se_sequence t} \<and>
      {se_replay_floor t<..se_sequence t} \<subseteq> event_seqs (se_id t) d"
    if "t \<in> set (sessions (update_session i f d))" for t
  proof -
    from that obtain t0 where "t0 \<in> set (sessions d)" "se_id t = se_id t0" "se_sequence t = se_sequence t0"
      "se_replay_floor t = se_replay_floor t0" using assms(2) by (auto simp: set_update_where)
    then show ?thesis using assms(1) unfolding replay_ok_def by auto
  qed
  then show ?thesis using assms unfolding replay_ok_def by (simp add: map_update_where_key)
qed

definition accepted_message :: "uuid \<Rightarrow> uuid \<Rightarrow> uuid \<Rightarrow> turn_input \<Rightarrow> message_row" where
  "accepted_message msgid sess opid b = \<lparr> ms_id = msgid, ms_session = sess, ms_operation = Some opid,
     ms_native_item = None, ms_role = UserRole, ms_text = tu_text b, ms_status = MsgComplete \<rparr>"

lemma acceptConversationTurn_Inr:
  assumes "acceptConversationTurn e sess input actor opid msgid authorize d = Inr (row, d')"
  obtains b sel s as ds where "parse_turn e input = Inr b" "session_find sess d = Some s"
    "turn_admission e b sel s d = Inr ()" "authorize d = Inr ()" "opid \<notin> op_id ` set (operations d)"
    "associateAttachments e sess opid (tu_attachments b) (tu_model b) (tu_draft_revision b)
       (d\<lparr>operations := operations d @ [row]\<rparr>) = Inr (d\<lparr>operations := operations d @ [row], attachments := as, conversation_drafts := ds\<rparr>)"
    "row = new_operation e opid sess TurnOp (turn_payload b) actor"
    "session_frame d' = session_frame (d\<lparr>operations := operations d @ [row], attachments := as, conversation_drafts := ds,
       messages := messages d @ [accepted_message msgid sess opid b]\<rparr>)"
    "map session_fixed (sessions d') = map session_fixed (sessions d)" "replay_ok d \<Longrightarrow> replay_ok d'"
proof -
  obtain b where b: "parse_turn e input = Inr b"
    using assms by (auto simp: acceptConversationTurn_def res_simps)
  obtain sel s d2 d4 d5 q where r: "session_find sess d = Some s" "turn_admission e b sel s d = Inr ()" "authorize d = Inr ()"
      "opid \<notin> op_id ` set (operations d)"
      "row = new_operation e opid sess TurnOp (turn_payload b) actor"
      "associateAttachments e sess opid (tu_attachments b) (tu_model b) (tu_draft_revision b)
         (d\<lparr>operations := operations d @ [row]\<rparr>) = Inr d2"
      "d4 = update_session sess queued_state (d2\<lparr>messages := messages d2 @ [accepted_message msgid sess opid b]\<rparr>)"
      "d5 = d4 \<or> (\<exists>ty data q. event e sess ty data
         (update_session sess (\<lambda>x. if nameable e (tu_text b) x then name_session e (tu_text b) x else x) d4) = Inr (q, d5))"
      "event e sess ''operation.queued'' (JObj [(''operationId'', JStr opid)]) d5 = Inr (q, d')"
    using assms b
    by (auto simp: acceptConversationTurn_def accepted_message_def insert_operation_def res_simps Let_def split: option.splits) blast+
  obtain as ds where d2: "d2 = d\<lparr>operations := operations d @ [row], attachments := as, conversation_drafts := ds\<rparr>"
    using associateAttachments_frame [OF r(6)] by auto
  let ?d5 = "update_session sess (\<lambda>x. if nameable e (tu_text b) x then name_session e (tu_text b) x else x) d4"
  have frame: "session_frame d5 = session_frame d4" using r(8) by (auto dest!: event_session_frame)
  have fixed4: "map session_fixed (sessions d4) = map session_fixed (sessions d2)" unfolding r(7)
    by (simp add: map_update_where_key)
  have "map session_fixed (sessions ?d5) = map session_fixed (sessions d4)"
    by (rule update_session_fixed) simp
  then have fixed5: "map session_fixed (sessions d5) = map session_fixed (sessions d4)"
    using r(8) event_session_fixed by metis
  have replay: "replay_ok d'" if "replay_ok d"
  proof -
    have "replay_ok (d2\<lparr>messages := messages d2 @ [accepted_message msgid sess opid b]\<rparr>)"
      using that by (simp add: d2 replay_ok_def event_seqs_def)
    then have d4: "replay_ok d4" unfolding r(7) by (rule update_session_replay_ok) (simp add: queued_state_def)
    then have "replay_ok ?d5" by (rule update_session_replay_ok) (simp add: name_session_def)
    then have "replay_ok d5" using r(8) d4 by (auto dest: event_replay_ok)
    then show ?thesis using r(9) by (rule event_replay_ok)
  qed
  show thesis
  proof (rule that [OF b r(1-4) r(6)[unfolded d2] r(5)])
    show "session_frame d' = session_frame (d\<lparr>operations := operations d @ [row], attachments := as, conversation_drafts := ds,
       messages := messages d @ [accepted_message msgid sess opid b]\<rparr>)"
      using event_session_frame [OF r(9)] frame unfolding r(7) by (simp add: d2)
    show "map session_fixed (sessions d') = map session_fixed (sessions d)"
      using event_session_fixed [OF r(9)] fixed5 fixed4 by (simp add: d2)
  qed (rule replay)
qed

section \<open>Quotas and reserved controls\<close>

lemma turn_admission_Inr [res_simps]:
  "turn_admission e b sel s d = Inr () \<longleftrightarrow> \<not> se_background_stop s \<and> pj_archived_at (snd sel) = None \<and>
     ws_state (fst sel) = WsReady \<and> (\<exists>p. verifyWorkspace e sel = Inr p) \<and> capacity (se_id s) TurnSlot d = Inr () \<and>
     history_bytes (se_id s) d + length (tu_text b) \<le> MESSAGE_BYTES \<and> history_messages (se_id s) d < 2000 \<and>
     \<not> unresolved (se_id s) d \<and> \<not> meta_emergency d \<and> active_operations d < max_queued e"
  by (auto simp: turn_admission_def res_simps)

lemma acceptConversationTurn_bounds:
  assumes "acceptConversationTurn e sess input actor opid msgid authorize d = Inr (row, d')"
  shows "active_operations d' \<le> max_queued e" "history_bytes sess d' \<le> MESSAGE_BYTES"
    "history_messages sess d' \<le> 2000" "\<not> unresolved sess d'" "\<not> meta_emergency d"
proof -
  from assms obtain b sel s as ds where a: "session_find sess d = Some s" "turn_admission e b sel s d = Inr ()"
    "row = new_operation e opid sess TurnOp (turn_payload b) actor"
    "session_frame d' = session_frame (d\<lparr>operations := operations d @ [row], attachments := as, conversation_drafts := ds,
       messages := messages d @ [accepted_message msgid sess opid b]\<rparr>)"
    by (rule acceptConversationTurn_Inr)
  note f = session_frameD [OF a(4)]
  have s: "se_id s = sess" using a(1) by (auto dest: session_find_Some)
  show "active_operations d' \<le> max_queued e" "history_bytes sess d' \<le> MESSAGE_BYTES"
    "history_messages sess d' \<le> 2000" "\<not> unresolved sess d'" "\<not> meta_emergency d"
    using a(2,3) f s
    by (simp_all add: active_operations_def history_bytes_def history_messages_def unresolved_def res_simps
        accepted_message_def active_state_def)
qed

lemma capacity_turn_Inr:
  "capacity i TurnSlot d = Inr u \<longleftrightarrow> retained i d < 400 \<and> retained i d + reserved i d + 3 \<le> ceiling_of i d"
  by (auto simp: capacity_def)

lemma append_turn_reserved:
  assumes "op_kind r = TurnOp"
  shows "count_where (reserves_slot i (xs @ [r])) (xs @ [r]) \<le> count_where (reserves_slot i xs) xs + (if op_session r = i then 1 else 0)"
proof -
  have "reserves_slot i (xs @ [r]) = reserves_slot i xs"
    using assms by (intro ext) (auto simp: reserves_slot_def cancels_def)
  then show ?thesis by (simp add: reserves_slot_def)
qed

lemma acceptConversationTurn_slots:
  assumes "acceptConversationTurn e sess input actor opid msgid authorize d = Inr (row, d')" and "slots_kept i d \<or> i = sess"
  shows "slots_kept i d'"
proof -
  from assms(1) obtain b sel s as ds where a: "session_find sess d = Some s" "turn_admission e b sel s d = Inr ()"
    "row = new_operation e opid sess TurnOp (turn_payload b) actor"
    "session_frame d' = session_frame (d\<lparr>operations := operations d @ [row], attachments := as, conversation_drafts := ds,
       messages := messages d @ [accepted_message msgid sess opid b]\<rparr>)"
    "map session_fixed (sessions d') = map session_fixed (sessions d)"
    by (rule acceptConversationTurn_Inr)
  have s: "se_id s = sess" using a(1) by (auto dest: session_find_Some)
  have "capacity sess TurnSlot d = Inr ()" using a(2) s by (simp add: res_simps)
  then have cap: "retained sess d + reserved sess d + 3 \<le> ceiling_of sess d" by (simp add: capacity_turn_Inr)
  have ops: "operations d' = operations d @ [row]" and recs: "session_recoveries d' = session_recoveries d"
    using session_frameD [OF a(4)] by simp_all
  have row: "op_kind row = TurnOp" "op_session row = sess" using a(3) by simp_all
  have "reserved i d' \<le> reserved i d + (if sess = i then 1 else 0)"
    using append_turn_reserved [OF row(1), of i "operations d"] row(2) by (simp add: reserved_def ops)
  moreover have "retained i d' = retained i d + (if sess = i then 1 else 0)"
    using row(2) by (simp add: retained_def ops recs)
  moreover have "ceiling_of i d' = ceiling_of i d" by (rule ceiling_of_fixed [OF a(5)])
  ultimately show ?thesis using cap assms(2) by (auto simp: slots_kept_def split: if_splits)
qed

text \<open>
  A recovery does not reserve a slot for itself, but the check for a later cancellation adds one
  again: after the recovery that fills the history, the turns still running can no longer be
  stopped through this route.
\<close>

lemma recovery_takes_last_slot:
  assumes "retained i d + reserved i d + 1 = ceiling_of i d" and "rc_session r = i" and "reserved i d > 0"
  shows "capacity i RecoverySlot d = Inr ()" and "slots_kept i d"
    and "capacity i CancelSlot d = Inr ()"
    and "capacity i CancelSlot (d\<lparr>session_recoveries := session_recoveries d @ [r]\<rparr>) = Inl (HarborError 429 ''HISTORY_QUOTA'')"
proof -
  let ?d = "d\<lparr>session_recoveries := session_recoveries d @ [r]\<rparr>"
  have "retained i ?d = retained i d + 1" "reserved i ?d = reserved i d" "ceiling_of i ?d = ceiling_of i d"
    using assms(2) by (simp_all add: retained_def reserved_def ceiling_of_def session_find_def)
  then show "capacity i CancelSlot ?d = Inl (HarborError 429 ''HISTORY_QUOTA'')"
    using assms(1,3) by (simp add: capacity_def)
  show "capacity i RecoverySlot d = Inr ()" "slots_kept i d" "capacity i CancelSlot d = Inr ()"
    using assms by (simp_all add: capacity_def slots_kept_def)
qed

lemma acceptConversationTurn_rows:
  assumes "acceptConversationTurn e sess input actor opid msgid authorize d = Inr (row, d')"
  shows "operations d' = operations d @ [row]" "op_id row \<notin> op_id ` set (operations d)"
    "op_kind row = TurnOp" "op_session row = sess"
    "map session_fixed (sessions d') = map session_fixed (sessions d)" "replay_ok d \<Longrightarrow> replay_ok d'"
  using assms by (auto elim!: acceptConversationTurn_Inr dest!: session_frameD(1))

section \<open>Turns served one after another\<close>

datatype turn_request =
    AcceptTurn uuid turn_input string uuid uuid "db \<Rightarrow> unit res"
  | CancelTurn uuid string uuid "db \<Rightarrow> unit res"

definition turn_op :: "env \<Rightarrow> turn_request \<Rightarrow> db \<Rightarrow> db res" where
  "turn_op e r d = (case r of
       AcceptTurn sess input actor opid msgid auth \<Rightarrow>
         andThen (acceptConversationTurn e sess input actor opid msgid auth d) (\<lambda>(_, d'). Inr d')
     | CancelTurn turn actor fresh auth \<Rightarrow>
         andThen (requestTurnCancellation e turn actor fresh auth d) (\<lambda>(_, d'). Inr d'))"

definition controls_kept :: "db \<Rightarrow> bool" where
  "controls_kept d \<longleftrightarrow> distinct (map op_id (operations d)) \<and> replay_ok d \<and>
     (\<forall>s \<in> set (sessions d). slots_kept (se_id s) d)"

lemma requestTurnCancellation_keeps:
  assumes "requestTurnCancellation e turn actor fresh auth d = Inr (r, d')"
  shows "distinct (map op_id (operations d)) \<Longrightarrow> distinct (map op_id (operations d'))"
    and "replay_ok d \<Longrightarrow> replay_ok d'" and "map session_fixed (sessions d') = map session_fixed (sessions d)"
proof -
  from assms obtain t where t: "find (\<lambda>x. op_id x = turn) (operations d) = Some t" by (rule requestTurnCancellation_Inr)
  show "distinct (map op_id (operations d'))" if "distinct (map op_id (operations d))"
    using assms t
  proof (cases rule: requestTurnCancellation_cases)
    case (first q)
    then have "operations d' = operations d @ [cancel_row e fresh t actor]" by (auto dest!: event_frame)
    then show ?thesis using that first(4) by simp
  qed (use that in \<open>simp_all add: map_update_where_key\<close>)
  show "replay_ok d'" if "replay_ok d"
    using assms t
  proof (cases rule: requestTurnCancellation_cases)
    case (first q)
    have "replay_ok (d\<lparr>operations := operations d @ [cancel_row e fresh t actor]\<rparr>)"
      using that by (simp add: replay_ok_def event_seqs_def)
    then show ?thesis using first(5) by (rule event_replay_ok)
  qed (use that in \<open>simp_all add: replay_ok_def event_seqs_def\<close>)
  show "map session_fixed (sessions d') = map session_fixed (sessions d)"
    using assms t
  proof (cases rule: requestTurnCancellation_cases)
    case (first q) then show ?thesis using event_session_fixed [OF first(5)] by simp
  qed simp_all
qed

lemma session_ids_fixed:
  assumes "map session_fixed (sessions d') = map session_fixed (sessions d)"
  shows "se_id ` set (sessions d') = se_id ` set (sessions d)"
proof -
  have h: "se_id ` set xs = se_id ` set (map session_fixed xs)" for xs
    by (simp add: image_image)
  show ?thesis unfolding h [of "sessions d'"] h [of "sessions d"] assms ..
qed

lemma turn_op_controls:
  assumes "turn_op e r d = Inr d'" and "controls_kept d"
  shows "controls_kept d'"
proof (cases r)
  case (AcceptTurn sess input actor opid msgid auth)
  then obtain row where acc: "acceptConversationTurn e sess input actor opid msgid auth d = Inr (row, d')"
    using assms(1) by (auto simp: turn_op_def res_simps)
  note a = acceptConversationTurn_rows [OF acc]
  have "slots_kept (se_id t) d'" if "t \<in> set (sessions d')" for t
  proof -
    have "se_id t \<in> se_id ` set (sessions d)" using session_ids_fixed [OF a(5)] that by blast
    then show ?thesis using acceptConversationTurn_slots [OF acc] assms(2) by (auto simp: controls_kept_def)
  qed
  then show ?thesis using a(1,2,6) assms(2) by (simp add: controls_kept_def)
next
  case (CancelTurn turn actor fresh auth)
  then obtain x where can: "requestTurnCancellation e turn actor fresh auth d = Inr (x, d')"
    using assms(1) by (auto simp: turn_op_def res_simps)
  note k = requestTurnCancellation_keeps [OF can]
  have "slots_kept (se_id t) d'" if "t \<in> set (sessions d')" for t
  proof -
    have "se_id t \<in> se_id ` set (sessions d)" using session_ids_fixed [OF k(3)] that by blast
    then show ?thesis using requestTurnCancellation_slots [OF can] assms(2) by (auto simp: controls_kept_def)
  qed
  then show ?thesis using k assms(2) by (simp add: controls_kept_def)
qed

interpretation turns: invariant_ops "turn_op e" controls_kept for e
  by unfold_locales (rule turn_op_controls)

interpretation operation_keys: keyed_ops "turn_op e" operations op_id for e
proof unfold_locales
  fix r d d' assume op: "turn_op e r d = Inr d'" and ids: "distinct (map op_id (operations d))"
  show "distinct (map op_id (operations d'))"
  proof (cases r)
    case (AcceptTurn sess input actor opid msgid auth)
    then show ?thesis using op ids
      by (auto simp: turn_op_def res_simps acceptConversationTurn_rows(1,2))
  next
    case (CancelTurn turn actor fresh auth)
    then show ?thesis using op ids by (auto simp: turn_op_def res_simps dest: requestTurnCancellation_keeps(1))
  qed
qed

section \<open>Properties\<close>

text \<open>C27: However turns and cancellations follow each other, every conversation keeps enough
  history to stop every turn that is still running: operation ids stay unique, the event log stays
  complete, and the slots of all running turns fit under the ceiling with one to spare.\<close>

theorem controls_always_kept:
  assumes "distinct (map op_id (operations d))" and "replay_ok d" and "\<forall>s \<in> set (sessions d). slots_kept (se_id s) d"
  shows "distinct (map op_id (operations (serve (turn_op e) reqs d))) \<and> replay_ok (serve (turn_op e) reqs d) \<and>
    (\<forall>s \<in> set (sessions (serve (turn_op e) reqs d)). slots_kept (se_id s) (serve (turn_op e) reqs d))"
  using turns.serve_keeps [of d e reqs] assms by (simp add: controls_kept_def)

definition demo_input :: turn_input where
  "demo_input = \<lparr> tu_text = ''  hi '', tu_model = ''m'', tu_effort = ''low'', tu_profile = WorkspaceWrite,
     tu_attachments = [], tu_draft_revision = None \<rparr>"

definition demo_caps :: "(model_capability list \<times> time) option" where
  "demo_caps = Some ([\<lparr> mc_model = ''m'', mc_efforts = [''low''], mc_modalities = [''text''] \<rparr>], 999999)"

theorem controls_always_kept_witness:
  "length (operations (serve (turn_op demo_env) [AcceptTurn ''s'' demo_input ''b'' ''u'' ''m'' (\<lambda>_. Inr ()),
     CancelTurn ''u'' ''b'' ''x'' (\<lambda>_. Inr ())] (demo_db\<lparr>capabilities := demo_caps\<rparr>))) = 3 \<and>
   distinct (map op_id (operations (serve (turn_op demo_env) [AcceptTurn ''s'' demo_input ''b'' ''u'' ''m'' (\<lambda>_. Inr ()),
     CancelTurn ''u'' ''b'' ''x'' (\<lambda>_. Inr ())] (demo_db\<lparr>capabilities := demo_caps\<rparr>))))"
proof -
  let ?d = "demo_db\<lparr>capabilities := demo_caps\<rparr>"
  have "replay_ok ?d" by (simp add: replay_ok_def event_seqs_def demo_defs)
  moreover have "\<forall>s \<in> set (sessions ?d). slots_kept (se_id s) ?d" "distinct (map op_id (operations ?d))" by code_simp+
  moreover have "length (operations (serve (turn_op demo_env) [AcceptTurn ''s'' demo_input ''b'' ''u'' ''m'' (\<lambda>_. Inr ()),
     CancelTurn ''u'' ''b'' ''x'' (\<lambda>_. Inr ())] ?d)) = 3" by code_simp
  ultimately show ?thesis using controls_always_kept [of ?d demo_env] by blast
qed

text \<open>An accepted turn respects every limit: afterwards at most the configured number of
  operations is active on the server, the conversation holds at most 2 MiB and 2000 messages, it has
  no unresolved uncertain work, the server is not in emergency stop, and the new turn is the only
  operation added.\<close>

theorem accepted_turn_bounded:
  assumes "acceptConversationTurn e sess input actor opid msgid authorize d = Inr (row, d')"
  shows "active_operations d' \<le> max_queued e \<and> history_bytes sess d' \<le> 2097152 \<and> history_messages sess d' \<le> 2000 \<and>
    \<not> unresolved sess d' \<and> \<not> meta_emergency d \<and> operations d' = operations d @ [row] \<and>
    op_kind row = TurnOp \<and> op_state row = Queued \<and> op_session row = sess"
proof -
  have "op_state row = Queued" using assms by (auto elim!: acceptConversationTurn_Inr)
  then show ?thesis
    using acceptConversationTurn_bounds [OF assms] acceptConversationTurn_rows [OF assms] by (simp add: MESSAGE_BYTES_def)
qed

theorem accepted_turn_bounded_witness:
  "\<exists>row d'. acceptConversationTurn demo_env ''s'' demo_input ''b'' ''u'' ''m'' (\<lambda>_. Inr ()) (demo_db\<lparr>capabilities := demo_caps\<rparr>) = Inr (row, d') \<and>
     active_operations d' \<le> 8 \<and> operations d' = [demo_turn, row]"
proof -
  let ?d = "demo_db\<lparr>capabilities := demo_caps\<rparr>"
  have "succeeds (acceptConversationTurn demo_env ''s'' demo_input ''b'' ''u'' ''m'' (\<lambda>_. Inr ()) ?d)" by code_simp
  then obtain r where "acceptConversationTurn demo_env ''s'' demo_input ''b'' ''u'' ''m'' (\<lambda>_. Inr ()) ?d = Inr r" by (rule succeedsE)
  then obtain row d' where a: "acceptConversationTurn demo_env ''s'' demo_input ''b'' ''u'' ''m'' (\<lambda>_. Inr ()) ?d = Inr (row, d')"
    by (cases r) simp
  from accepted_turn_bounded [OF this] a show ?thesis by (auto simp: demo_defs)
qed

text \<open>A recovery can spend the slot that a running turn needs to be stopped. With exactly one
  free slot the recovery is admitted; before it a cancellation of the running turn would have been
  admitted too, after it the cancellation is refused for lack of history, although the refusal
  promises that reserved controls remain available.\<close>

theorem recovery_spends_reserved_slot:
  assumes "retained i d + reserved i d + 1 = ceiling_of i d" and "rc_session r = i" and "reserved i d > 0"
  shows "capacity i RecoverySlot d = Inr () \<and> capacity i CancelSlot d = Inr () \<and>
    capacity i CancelSlot (d\<lparr>session_recoveries := session_recoveries d @ [r]\<rparr>) = Inl (HarborError 429 ''HISTORY_QUOTA'')"
  using recovery_takes_last_slot [OF assms] by blast

definition demo_recovery :: recovery_row where
  "demo_recovery = \<lparr> rc_id = ''r'', rc_session = ''s'', rc_actor = ''b'', rc_expected_generation = 1,
     rc_fence_generation = None, rc_state = RecQueued, rc_attempts = 1, rc_report = JObj [], rc_uncertain = [''t''],
     rc_continued = None, rc_created_at = 0, rc_updated_at = 0 \<rparr>"

theorem recovery_spends_reserved_slot_witness:
  "requestTurnCancellation demo_env ''t'' ''b'' ''c'' (\<lambda>_. Inr ()) (full_db\<lparr>session_recoveries := [demo_recovery]\<rparr>) =
     Inl (HarborError 429 ''HISTORY_QUOTA'') \<and>
   capacity ''s'' CancelSlot (full_db\<lparr>session_recoveries := [demo_recovery]\<rparr>) = Inl (HarborError 429 ''HISTORY_QUOTA'')"
proof -
  have "retained ''s'' full_db + reserved ''s'' full_db + 1 = ceiling_of ''s'' full_db" "reserved ''s'' full_db > 0"
    "rc_session demo_recovery = ''s''" by code_simp+
  from recovery_spends_reserved_slot [OF this(1,3,2)]
  have "capacity ''s'' CancelSlot (full_db\<lparr>session_recoveries := [demo_recovery]\<rparr>) = Inl (HarborError 429 ''HISTORY_QUOTA'')"
    by (simp add: full_db_def demo_defs)
  moreover have "case requestTurnCancellation demo_env ''t'' ''b'' ''c'' (\<lambda>_. Inr ()) (full_db\<lparr>session_recoveries := [demo_recovery]\<rparr>) of
      Inl f \<Rightarrow> f = HarborError 429 ''HISTORY_QUOTA'' | Inr _ \<Rightarrow> False" by code_simp
  ultimately show ?thesis by (auto split: sum.splits)
qed

end
