(* ===== verification/Schedule_Execution.thy ===== *)
theory Schedule_Execution
  imports Schedule_Planner Turns
begin

text \<open>
  Running an admitted occurrence: the two metadata phases of \<^verbatim>\<open>phases.ts\<close>
  (prepare a workspace, queue the turn), the mirror of the turn's outcome
  (\<^verbatim>\<open>settlement.ts\<close>), cancellation (\<^verbatim>\<open>cancel.ts\<close>) and the
  worker's pass over all schedules (\<^verbatim>\<open>worker.ts\<close>), all in
  \<^verbatim>\<open>packages/schedules/src\<close>. One pass of the worker reads one clock here.
\<close>

section \<open>Writing an occurrence\<close>

text \<open>\<^verbatim>\<open>UPDATE schedule_occurrences .. WHERE id\<close>, with the index \<^verbatim>\<open>schedule_one_active\<close>.\<close>

definition update_occurrence :: "uuid \<Rightarrow> (occurrence_row \<Rightarrow> occurrence_row) \<Rightarrow> db \<Rightarrow> db res" where
  "update_occurrence i f d =
     (if exists_row (\<lambda>r. oc_id r = i \<and> occ_unresolved (f r) \<and>
          exists_row (\<lambda>x. oc_id x \<noteq> i \<and> oc_schedule x = oc_schedule r \<and> occ_unresolved x) (schedule_occurrences d))
        (schedule_occurrences d)
      then Inl (Crash ''schedule_one_active'')
      else Inr (d\<lparr>schedule_occurrences := update_where (\<lambda>r. oc_id r = i) f (schedule_occurrences d)\<rparr>))"

definition enter_state :: "env \<Rightarrow> occ_state \<Rightarrow> occurrence_row \<Rightarrow> occurrence_row" where
  "enter_state e st r = r\<lparr>oc_state := st, oc_updated_at := now e\<rparr>"

definition end_occurrence :: "env \<Rightarrow> occ_state \<Rightarrow> string \<Rightarrow> occurrence_row \<Rightarrow> occurrence_row" where
  "end_occurrence e st why r = r\<lparr>oc_state := st, oc_reason := Some why, oc_ended_at := Some (now e), oc_updated_at := now e\<rparr>"

section \<open>Settlement\<close>

fun settled_state :: "op_state \<Rightarrow> occ_state" where
  "settled_state Queued = QueuedTurn"
| "settled_state Dispatching = QueuedTurn"
| "settled_state Running = OccRunning"
| "settled_state WaitingApproval = OccAttention"
| "settled_state WaitingInput = OccAttention"
| "settled_state Succeeded = OccSucceeded"
| "settled_state Failed = OccFailed"
| "settled_state Interrupted = Cancelled"
| "settled_state Uncertain = OccUncertain"

definition terminal_state :: "occ_state \<Rightarrow> bool" where
  "terminal_state s \<longleftrightarrow> s \<in> {OccSucceeded, OccFailed, Cancelled, OccUncertain}"

fun settled_reason :: "op_state \<Rightarrow> string option" where
  "settled_reason WaitingApproval = Some ''APPROVAL_REQUIRED''"
| "settled_reason WaitingInput = Some ''INPUT_REQUIRED''"
| "settled_reason Uncertain = Some ''DELIVERY_UNCERTAIN''"
| "settled_reason Failed = Some ''TURN_FAILED''"
| "settled_reason _ = None"

definition coalesce :: "'a option \<Rightarrow> 'a option \<Rightarrow> 'a option" where
  "coalesce x y = (case x of None \<Rightarrow> y | Some _ \<Rightarrow> x)"

definition mirror :: "env \<Rightarrow> operation_row \<Rightarrow> occurrence_row \<Rightarrow> occurrence_row" where
  "mirror e t r = (let st = settled_state (op_state t) in
     r\<lparr>oc_state := st, oc_reason := settled_reason (op_state t),
       oc_started_at := (if st \<in> {OccRunning, OccAttention} then coalesce (oc_started_at r) (Some (now e)) else oc_started_at r),
       oc_ended_at := (if terminal_state st then coalesce (oc_ended_at r) (Some (now e)) else oc_ended_at r),
       oc_acknowledged_at := coalesce (oc_acknowledged_at r) (op_acknowledged_at t), oc_updated_at := now e\<rparr>)"

definition once_version :: "schedule_row \<Rightarrow> db \<Rightarrow> bool" where
  "once_version s d \<longleftrightarrow> exists_row (\<lambda>v. sv_schedule v = sc_id s \<and> sv_revision v = sc_config_revision s \<and>
     (case cf_rule (sv_config v) of Once _ _ \<Rightarrow> True | Cron _ _ \<Rightarrow> False)) (schedule_versions d)"

definition complete_once :: "env \<Rightarrow> occurrence_row \<Rightarrow> db \<Rightarrow> db" where
  "complete_once e r d = d\<lparr>schedules := update_where (\<lambda>s. sc_id s = oc_schedule r \<and> sc_state s = Enabled \<and>
       sc_config_revision s = oc_config_revision r \<and> oc_grant r \<noteq> None \<and> sc_active_grant s = oc_grant r \<and> once_version s d)
     (\<lambda>s. s\<lparr>sc_state := Completed, sc_reason := None, sc_updated_at := now e\<rparr>) (schedules d)\<rparr>"

definition attend :: "uuid \<Rightarrow> (schedule_row \<Rightarrow> schedule_row) \<Rightarrow> db \<Rightarrow> db" where
  "attend sid f d = d\<lparr>schedules := update_where (\<lambda>s. sc_id s = sid \<and> sc_state s = Enabled) f (schedules d)\<rparr>"

definition settle_one :: "env \<Rightarrow> uuid \<Rightarrow> db \<Rightarrow> (unit \<times> db) res" where
  "settle_one e i d =
     andThen (deploymentAdmission d True) (\<lambda>_.
     case occurrence_find i d of None \<Rightarrow> Inr ((), d) | Some r \<Rightarrow>
     (case find (\<lambda>t. op_id t = oc_turn r) (operations d) of None \<Rightarrow> Inr ((), d) | Some t \<Rightarrow>
       let st = settled_state (op_state t) in
       andThen (update_occurrence i (mirror e t) d) (\<lambda>d1.
       let d2 = (if terminal_state st \<and> st \<noteq> OccUncertain \<and> oc_kind r = Recurring then complete_once e r d1 else d1);
           d3 = (if st = OccUncertain then attend (oc_schedule r) (attention_at e ''DELIVERY_UNCERTAIN'') d2 else d2)
       in Inr ((), d3))))"

fun run_all :: "('r \<Rightarrow> db \<Rightarrow> unit res \<times> db) \<Rightarrow> 'r list \<Rightarrow> db \<Rightarrow> unit res \<times> db" where
  "run_all f [] d = (Inr (), d)"
| "run_all f (r # rs) d = (case f r d of (Inl x, d1) \<Rightarrow> (Inl x, d1) | (Inr _, d1) \<Rightarrow> run_all f rs d1)"

definition settle_candidates :: "db \<Rightarrow> occurrence_row list" where
  "settle_candidates d = take 4 (sort_key oc_updated_at (filter (\<lambda>r. oc_state r \<in> {QueuedTurn, OccRunning, OccAttention, OccUncertain})
     (schedule_occurrences d)))"

definition settleOccurrences :: "env \<Rightarrow> db \<Rightarrow> unit res \<times> db" where
  "settleOccurrences e d = run_all (\<lambda>r. transaction (settle_one e (oc_id r))) (settle_candidates d) d"

section \<open>Cancellation\<close>

definition cancel_need :: "schedule_row \<Rightarrow> need" where
  "cancel_need s = \<lparr> nd_project = Some (sc_project s), nd_scope = Some CancelTurns, nd_profile = None, nd_internal = None \<rparr>"

definition cancel_attempt :: "occurrence_row \<Rightarrow> db \<Rightarrow> nat" where
  "cancel_attempt r d = (case find (cancels (oc_session r) (oc_turn r)) (operations d) of
       Some p \<Rightarrow> if op_state p = Failed then op_control_attempts p + 1 else 1
     | None \<Rightarrow> 1)"

definition cancel_authorize :: "env \<Rightarrow> schedule_row \<Rightarrow> occurrence_row \<Rightarrow> string \<Rightarrow> nat \<Rightarrow> db \<Rightarrow> unit res" where
  "cancel_authorize e s r actor attempt d =
     andThen (requireAuthority e d actor (cancel_need s)) (\<lambda>_.
     if attempt \<noteq> cancel_attempt r d then Inl (HarborError 409 ''CONTROL_ATTEMPT_CHANGED'') else Inr ())"

text \<open>Stopping a preparation that has not been dispatched.\<close>

definition cancel_preparation :: "env \<Rightarrow> occurrence_row \<Rightarrow> db \<Rightarrow> db res" where
  "cancel_preparation e r d =
     (if exists_row (\<lambda>o'. so_id o' = oc_storage_operation r \<and> so_state o' = StQueued) (storage_operations d)
      then update_workspaces (\<lambda>w. ws_id w = oc_workspace r \<and> ws_state w = WsCreating)
        (\<lambda>w. w\<lparr>ws_state := WsFailed, ws_failure_code := Some ''CANCELLED''\<rparr>)
        (d\<lparr>storage_operations := update_where (\<lambda>o'. so_id o' = oc_storage_operation r)
          (\<lambda>o'. o'\<lparr>so_state := StFailed, so_failure_code := Some ''CANCELLED'', so_updated_at := now e\<rparr>) (storage_operations d)\<rparr>)
      else Inr d)"

type_synonym cancel_answer = "uuid \<times> occ_state \<times> (uuid \<times> op_state) option"

definition cancelOccurrence ::
  "env \<Rightarrow> schedule_row \<Rightarrow> uuid \<Rightarrow> string \<Rightarrow> nat \<Rightarrow> db \<Rightarrow> (cancel_answer \<times> db) res" where
  "cancelOccurrence e s i actor attempt d =
     andThen (requireAuthority e d actor (cancel_need s)) (\<lambda>_.
     andThen (first_row (HarborError 404 ''NOT_FOUND'')
       (find (\<lambda>r. oc_id r = i \<and> oc_schedule r = sc_id s) (schedule_occurrences d))) (\<lambda>r.
     if oc_state r \<notin> {Accepted, PreparingWorkspace, QueuedTurn, OccRunning, OccAttention}
     then Inl (HarborError 409 ''OCCURRENCE_TERMINAL'')
     else if exists_row (\<lambda>x. op_id x = oc_turn r) (operations d)
     then andThen (requestTurnCancellation e (oc_turn r) actor (oc_cancel_operation r)
             (cancel_authorize e s r actor attempt) d) (\<lambda>(answer, d1).
          if exists_row (\<lambda>x. oc_id x \<noteq> oc_id r \<and> oc_cancel_operation x = fst answer) (schedule_occurrences d1)
          then Inl (Crash ''schedule_occurrences_cancel_operation_id_key'')
          else Inr ((oc_id r, oc_state r, Some answer),
            d1\<lparr>schedule_occurrences := update_where (\<lambda>x. oc_id x = oc_id r)
              (\<lambda>x. x\<lparr>oc_cancel_operation := fst answer\<rparr>) (schedule_occurrences d1)\<rparr>))
     else andThen (if exists_row (\<lambda>w. ws_id w = oc_workspace r) (workspaces d)
             then andThen (selectedWorkspace d (oc_workspace r)) (\<lambda>_.
                  andThen (requireAuthority e d actor (cancel_need s)) (\<lambda>_. cancel_preparation e r d))
             else Inr d) (\<lambda>d1.
          andThen (requireAuthority e d1 actor (cancel_need s)) (\<lambda>_.
          andThen (update_occurrence (oc_id r) (end_occurrence e Cancelled ''OWNER_CANCELLED'') d1) (\<lambda>d2.
          Inr ((oc_id r, Cancelled, None), d2))))))"

section \<open>The phases of an occurrence\<close>

fun snapshot_source :: "occ_snapshot \<Rightarrow> string option" where
  "snapshot_source (AdmittedMinute _ src _) = src"
| "snapshot_source (AdmittedManual _ src _ _) = src"
| "snapshot_source _ = None"

definition occ_actor :: "occurrence_row \<Rightarrow> string" where
  "occ_actor r = scheduleActor (case oc_grant r of None \<Rightarrow> ''null'' | Some g \<Rightarrow> g) (oc_id r)"

definition phase_authorize :: "env \<Rightarrow> schedule_row \<Rightarrow> occurrence_row \<Rightarrow> schedule_config \<Rightarrow> bool \<Rightarrow> db \<Rightarrow> unit res" where
  "phase_authorize e s r c preparation d =
     andThen (requireAuthority e d (occ_actor r) \<lparr> nd_project = Some (sc_project s), nd_scope = Some Execute,
       nd_profile = (if preparation then None else Some (cf_profile c)),
       nd_internal = Some (if preparation then (WorkspaceWork, oc_storage_operation r) else (TurnWork, oc_turn r)) \<rparr>)
       (\<lambda>_. Inr ())"

definition occurrence_workspace :: "schedule_row \<Rightarrow> occurrence_row \<Rightarrow> bool \<Rightarrow> uuid \<Rightarrow> create_input" where
  "occurrence_workspace s r git src = \<lparr>
     ci_name = take 65 (sc_title s) @ [CHR 0x20, CHR 0xC2, CHR 0xB7, CHR 0x20] @
       (case oc_local_minute r of Some l \<Rightarrow> l | None \<Rightarrow> ''manual''),
     ci_kind = (if git then CreateWorktree else CreateCopy), ci_source = src,
     ci_revision = (if git then snapshot_source (oc_snapshot r) else None),
     ci_dirty = (if git then ExcludeDirty else SnapshotDirty) \<rparr>"

text \<open>The first phase, for a workspace of its own.\<close>

definition prepare_workspace ::
  "env \<Rightarrow> (db \<Rightarrow> unit res) \<Rightarrow> schedule_row \<Rightarrow> occurrence_row \<Rightarrow> schedule_config \<Rightarrow> db \<Rightarrow> (unit \<times> db) res" where
  "prepare_workspace e fence s r c d = (let auth = phase_authorize e s r c True in
     andThen (optional_workspace (selectedWorkspace d) (cf_source_workspace c)) (\<lambda>src.
     andThen (auth d) (\<lambda>_.
     andThen (requireWorkspaceIdle d (fst src) True) (\<lambda>_.
     andThen (inspectWorkspace e src d) (\<lambda>(ix, _, d1).
     if \<not> ix_available ix then target_unavailable
     else if ix_git ix \<noteq> Some (cf_source_policy c = Some Committed) then Inl (HarborError 409 ''SOURCE_POLICY'')
     else if ix_git ix = Some True \<and> \<not> some_holds is_revision (snapshot_source (oc_snapshot r))
     then Inl (HarborError 409 ''SOURCE_REVISION_MISSING'')
     else andThen (createWorkspace e (sc_project s) (occurrence_workspace s r (ix_git ix = Some True) (ws_id (fst src)))
            (occ_actor r) (oc_workspace r) (oc_storage_operation r) (\<lambda>d _. auth d) d1) (\<lambda>(_, d2).
     andThen (auth d2) (\<lambda>_.
     andThen (fence d2) (\<lambda>_.
     andThen (update_occurrence (oc_id r) (enter_state e PreparingWorkspace) d2) (\<lambda>d3. Inr ((), d3))))))))))"

definition new_session :: "schedule_row \<Rightarrow> occurrence_row \<Rightarrow> schedule_config \<Rightarrow> session_row" where
  "new_session s r c = \<lparr> se_id = oc_session r, se_project = sc_project s, se_workspace = oc_workspace r,
     se_title = take 100 (sc_title s), se_title_source = TitlePending, se_state = Idle, se_model = cf_model c,
     se_effort = cf_effort c, se_profile = cf_profile c, se_generation = 0, se_sequence = 0, se_replay_floor = 0,
     se_history_ceiling = 500, se_metadata_revision = 0, se_archived = False, se_native_thread = None,
     se_background_until = None, se_background_stop = False, se_updated_at = 0 \<rparr>"

definition open_session :: "env \<Rightarrow> schedule_row \<Rightarrow> occurrence_row \<Rightarrow> schedule_config \<Rightarrow> db \<Rightarrow> db res" where
  "open_session e s r c d =
     (if cf_mode c = Existing then Inr d
      else if length (sessions d) \<ge> max_sessions e then Inl (HarborError 429 ''SESSION_QUOTA'')
      else if oc_session r \<in> se_id ` set (sessions d) then Inl (Crash ''sessions_pkey'')
      else Inr (d\<lparr>sessions := sessions d @ [(new_session s r c)\<lparr>se_updated_at := now e\<rparr>]\<rparr>))"

text \<open>The second phase; \<open>msgid\<close> is the identifier of the user message.\<close>

definition queue_turn ::
  "env \<Rightarrow> (db \<Rightarrow> unit res) \<Rightarrow> schedule_row \<Rightarrow> occurrence_row \<Rightarrow> schedule_config \<Rightarrow> uuid \<Rightarrow> db \<Rightarrow> (unit \<times> db) res" where
  "queue_turn e fence s r c msgid d = (let auth = phase_authorize e s r c False in
     andThen (selectedWorkspace d (oc_workspace r)) (\<lambda>sel.
     andThen (auth d) (\<lambda>_.
     andThen (requireWorkspaceIdle d (fst sel) False) (\<lambda>_.
     if exists_row (\<lambda>x. op_session x = oc_session r \<and> active_state (op_state x)) (operations d)
     then Inl (HarborError 409 ''SCHEDULE_OVERLAP'')
     else andThen (open_session e s r c d) (\<lambda>d1.
     case oc_prompt r of None \<Rightarrow> Inl (Crash ''ZodError'') | Some prompt \<Rightarrow>
     andThen (acceptConversationTurn e (oc_session r) \<lparr> tu_text = prompt, tu_model = cf_model c, tu_effort = cf_effort c,
         tu_profile = cf_profile c, tu_attachments = [], tu_draft_revision = None \<rparr>
         (occ_actor r) (oc_turn r) msgid auth d1) (\<lambda>(_, d2).
     andThen (auth d2) (\<lambda>_.
     andThen (fence d2) (\<lambda>_.
     andThen (update_occurrence (oc_id r) (enter_state e QueuedTurn) d2) (\<lambda>d3. Inr ((), d3))))))))))"

text \<open>Whether the storage operation of a prepared workspace has completed: \<open>None\<close> is not yet.\<close>

definition storage_ready :: "schedule_config \<Rightarrow> occurrence_row \<Rightarrow> db \<Rightarrow> bool option res" where
  "storage_ready c r d =
     (if cf_mode c = Existing then Inr (Some True)
      else (case find (\<lambda>o'. so_id o' = oc_storage_operation r) (storage_operations d) of
          None \<Rightarrow> Inr None
        | Some o' \<Rightarrow> if so_state o' \<in> {StQueued, StDispatching} then Inr None
            else if so_state o' \<noteq> StCompleted then Inl (HarborError 409 ''WORKSPACE_STORAGE_FAILED'')
            else Inr (Some True)))"

definition advance_phase ::
  "env \<Rightarrow> (db \<Rightarrow> unit res) \<Rightarrow> schedule_row \<Rightarrow> version_row \<Rightarrow> occurrence_row \<Rightarrow> uuid \<Rightarrow> db \<Rightarrow> (unit \<times> db) res" where
  "advance_phase e fence s v r msgid d =
     (let c = sv_config v; preparation = (oc_state r = Accepted \<and> cf_mode c = Standalone) in
      andThen (phase_authorize e s r c preparation d) (\<lambda>_.
      andThen (fence d) (\<lambda>_.
      andThen (effectiveSettings e d (cf_model c) (cf_effort c)) (\<lambda>_.
      if preparation then prepare_workspace e fence s r c d
      else andThen (storage_ready c r d) (\<lambda>ready.
        case ready of None \<Rightarrow> Inr ((), d) | Some _ \<Rightarrow> queue_turn e fence s r c msgid d)))))"

definition advanceOccurrence :: "env \<Rightarrow> (db \<Rightarrow> unit res) \<Rightarrow> uuid \<Rightarrow> uuid \<Rightarrow> db \<Rightarrow> (unit \<times> db) res" where
  "advanceOccurrence e fence i msgid d =
     (case occurrence_find i d of None \<Rightarrow> Inr ((), d) | Some r \<Rightarrow>
      (case schedule_find (oc_schedule r) d of None \<Rightarrow> Inr ((), d) | Some s \<Rightarrow>
       (case version_find (oc_schedule r) (oc_config_revision r) d of None \<Rightarrow> Inr ((), d) | Some v \<Rightarrow>
          if oc_state r \<notin> {Accepted, PreparingWorkspace} then Inr ((), d)
          else advance_phase e fence s v r msgid d)))"

section \<open>The worker\<close>

text \<open>What the worker does with an occurrence whose phase was refused with \<open>code\<close>.\<close>

definition refuse_occurrence :: "env \<Rightarrow> (bool \<Rightarrow> db \<Rightarrow> unit res) \<Rightarrow> string \<Rightarrow> uuid \<Rightarrow> db \<Rightarrow> (unit \<times> db) res" where
  "refuse_occurrence e fence code i d =
     andThen (deploymentAdmission d True) (\<lambda>_.
     andThen (fence True d) (\<lambda>_.
     case occurrence_find i d of None \<Rightarrow> Inr ((), d) | Some r \<Rightarrow>
       if oc_state r \<notin> {Accepted, PreparingWorkspace} then Inr ((), d)
       else if oc_state r = PreparingWorkspace \<and>
          (case find (\<lambda>o'. so_id o' = oc_storage_operation r) (storage_operations d) of
             None \<Rightarrow> True | Some o' \<Rightarrow> so_state o' \<in> {StQueued, StDispatching}) then Inr ((), d)
       else (case schedule_find (oc_schedule r) d of
           None \<Rightarrow> Inl (Crash ''TypeError'')
         | Some s \<Rightarrow>
             let overlap = code \<in> {''WORKSPACE_BUSY'', ''SCHEDULE_OVERLAP''};
                 st = (if overlap then Skipped else if sc_state s = Paused then Cancelled else OccFailed)
             in andThen (update_occurrence i (end_occurrence e st code) d) (\<lambda>d1.
                Inr ((), if overlap then d1 else attend (oc_schedule r) (attention code) d1)))))"

definition advance_or_refuse ::
  "env \<Rightarrow> (bool \<Rightarrow> db \<Rightarrow> unit res) \<Rightarrow> (uuid \<Rightarrow> uuid) \<Rightarrow> occurrence_row \<Rightarrow> db \<Rightarrow> unit res \<times> db" where
  "advance_or_refuse e fence msg r d =
     (case transaction (advanceOccurrence e (fence False) (oc_id r) (msg (oc_id r))) d of
        (Inr _, d1) \<Rightarrow> (Inr (), d1)
      | (Inl (Crash w), d1) \<Rightarrow> (Inl (Crash w), d1)
      | (Inl (HarborError n code), d1) \<Rightarrow> transaction (refuse_occurrence e fence code (oc_id r)) d1)"

definition plan_one ::
  "env \<Rightarrow> (bool \<Rightarrow> db \<Rightarrow> unit res) \<Rightarrow> (uuid \<Rightarrow> occ_ids) \<Rightarrow> schedule_row \<Rightarrow> db \<Rightarrow> unit res \<times> db" where
  "plan_one e fence fresh h d =
     (case transaction (\<lambda>d. andThen (deploymentAdmission d True) (\<lambda>_. andThen (fence False d) (\<lambda>_. Inr ((), d)))) d of
        (Inl f, d1) \<Rightarrow> (Inl f, d1)
      | (Inr _, d1) \<Rightarrow>
          (case (case planSchedule e (fence False) (sc_id h) (fresh (sc_id h)) d1 of
              (Inl (HarborError n code), d2) \<Rightarrow> transaction (attention_tx (fence False) h (attention code)) d2
            | x \<Rightarrow> x) of
             (Inl f, d2) \<Rightarrow> (Inl f, d2)
           | (Inr _, d2) \<Rightarrow> (Inr (), update_schedule (sc_id h) (\<lambda>s. s\<lparr>sc_last_planned_at := Some (now e)\<rparr>) d2)))"

definition plan_candidates :: "db \<Rightarrow> schedule_row list" where
  "plan_candidates d = take 16 (sort_key (\<lambda>s. (sc_last_planned_at s, sc_id s)) (filter (\<lambda>s. sc_state s = Enabled) (schedules d)))"

definition advance_candidates :: "db \<Rightarrow> occurrence_row list" where
  "advance_candidates d = take 4 (sort_key (\<lambda>r. (oc_updated_at r, oc_id r))
     (filter (\<lambda>r. oc_state r \<in> {Accepted, PreparingWorkspace}) (schedule_occurrences d)))"

definition and_also :: "unit res \<times> db \<Rightarrow> (db \<Rightarrow> unit res \<times> db) \<Rightarrow> unit res \<times> db" where
  "and_also m k = (case m of (Inl f, d) \<Rightarrow> (Inl f, d) | (Inr _, d) \<Rightarrow> k d)"

text \<open>\<open>maintained\<close> is the module variable \<^verbatim>\<open>maintainedAt\<close> before the pass.\<close>

definition processSchedules ::
  "env \<Rightarrow> (bool \<Rightarrow> db \<Rightarrow> unit res) \<Rightarrow> (uuid \<Rightarrow> occ_ids) \<Rightarrow> (uuid \<Rightarrow> uuid) \<Rightarrow> time \<Rightarrow> db \<Rightarrow> unit res \<times> db" where
  "processSchedules e fence fresh msg maintained d =
     and_also (settleOccurrences e d) (\<lambda>d1.
     and_also (if now e - maintained > 60000
         then transaction (\<lambda>d. andThen (pruneScheduleHistory e d) (\<lambda>d'. Inr ((), d'))) d1 else (Inr (), d1)) (\<lambda>d2.
     and_also (run_all (plan_one e fence fresh) (plan_candidates d2) d2) (\<lambda>d3.
     run_all (advance_or_refuse e fence msg) (advance_candidates d3) d3)))"

end
