(* ===== verification/Schedule_Commands.thy ===== *)
theory Schedule_Commands
  imports Schedule_Execution
begin

text \<open>
  Management commands and their receipts: \<^verbatim>\<open>packages/schedules/src/commands.ts\<close> and
  the routes of \<^verbatim>\<open>apps/api/src/schedules.ts\<close> that go through it. A command is
  identified by its actor and idempotency key; controls (pause, cancel) have slots of their own, so
  that they are coalesced and never counted against the quota of ordinary commands.
\<close>

section \<open>Slots\<close>

fun digits_acc :: "nat \<Rightarrow> nat \<Rightarrow> string \<Rightarrow> string" where
  "digits_acc 0 n acc = acc"
| "digits_acc (Suc k) n acc = (let acc' = char_of (48 + n mod 10) # acc in
     if n < 10 then acc' else digits_acc k (n div 10) acc')"

text \<open>The decimal text of a number.\<close>

definition nat_text :: "nat \<Rightarrow> string" where
  "nat_text n = digits_acc (Suc n) n []"

datatype control = PauseControl | CancelControl uuid nat

definition ordinary_slot :: "string \<Rightarrow> bool" where
  "ordinary_slot s \<longleftrightarrow> starts_with ''ordinary:'' s"

definition command_slot :: "control option \<Rightarrow> nat \<Rightarrow> uuid \<Rightarrow> string" where
  "command_slot c epoch fresh = (case c of
       None \<Rightarrow> ''ordinary:'' @ fresh
     | Some PauseControl \<Rightarrow> ''pause:'' @ nat_text epoch
     | Some (CancelControl i n) \<Rightarrow> ''cancel:'' @ i @ '':'' @ nat_text n)"

lemma ordinary_command_slot: "ordinary_slot (command_slot c epoch fresh) \<longleftrightarrow> c = None"
  by (auto simp: ordinary_slot_def command_slot_def starts_with_def split: option.splits control.splits)

section \<open>A command\<close>

text \<open>
  \<open>rq_text\<close> is the JSON text of route and body, whose digest identifies the request; the key is a
  header, absent or a text. The action gives the result and the next database; \<open>bytes\<close> is the
  length of a result's JSON text.
\<close>

record command_request =
  rq_actor :: string
  rq_schedule :: uuid
  rq_key :: "string option"
  rq_text :: string
  rq_need :: need
  rq_control :: "control option"

type_synonym command_action = "db \<Rightarrow> schedule_row \<Rightarrow> (json \<times> db) res"

definition key_string :: "string option \<Rightarrow> string" where
  "key_string k = (case k of None \<Rightarrow> ''undefined'' | Some s \<Rightarrow> s)"

definition key_json :: "string option \<Rightarrow> json" where
  "key_json k = (case k of None \<Rightarrow> JNull | Some s \<Rightarrow> JStr s)"

definition receipt_find :: "string \<Rightarrow> string \<Rightarrow> db \<Rightarrow> command_row option" where
  "receipt_find actor key d = find (\<lambda>c. cm_actor c = actor \<and> cm_key c = key) (schedule_commands d)"

definition slot_find :: "uuid \<Rightarrow> string \<Rightarrow> db \<Rightarrow> command_row option" where
  "slot_find sid slot d = find (\<lambda>c. cm_schedule c = sid \<and> cm_slot c = slot) (schedule_commands d)"

definition intent_actor :: "env \<Rightarrow> authority \<Rightarrow> string \<Rightarrow> string" where
  "intent_actor e a actor = (if au_kind a = TokenAuthority then actor else owner_subject e)"

definition insert_command :: "command_row \<Rightarrow> db \<Rightarrow> db res" where
  "insert_command c d =
     (if exists_row (\<lambda>x. cm_schedule x = cm_schedule c \<and> cm_slot x = cm_slot c) (schedule_commands d)
      then Inl (Crash ''schedule_commands_pkey'')
      else if exists_row (\<lambda>x. cm_actor x = cm_actor c \<and> cm_key x = cm_key c) (schedule_commands d)
      then Inl (Crash ''schedule_commands_actor_key'')
      else if cm_grant_epoch c \<noteq> None \<and>
         \<not> exists_row (\<lambda>g. gr_schedule g = cm_schedule c \<and> Some (gr_epoch g) = cm_grant_epoch c) (schedule_grants d)
      then Inl (Crash ''schedule_commands_grant'')
      else if cm_occurrence c \<noteq> None \<and> \<not> exists_row (\<lambda>r. Some (oc_id r) = cm_occurrence c) (schedule_occurrences d)
      then Inl (Crash ''schedule_commands_occurrence'')
      else Inr (d\<lparr>schedule_commands := schedule_commands d @ [c]\<rparr>))"

definition control_target :: "uuid \<Rightarrow> control option \<Rightarrow> db \<Rightarrow> uuid option res" where
  "control_target sid c d = (case c of
       Some (CancelControl i _) \<Rightarrow>
         if exists_row (\<lambda>r. oc_id r = i \<and> oc_schedule r = sid) (schedule_occurrences d) then Inr (Some i)
         else Inl (HarborError 404 ''NOT_FOUND'')
     | _ \<Rightarrow> Inr None)"

definition ordinary_count :: "uuid \<Rightarrow> db \<Rightarrow> nat" where
  "ordinary_count sid d = count_where (\<lambda>c. cm_schedule c = sid \<and> ordinary_slot (cm_slot c)) (schedule_commands d)"

text \<open>From the checked key on: the action and its receipt.\<close>

definition execute_command ::
  "env \<Rightarrow> (json \<Rightarrow> nat) \<Rightarrow> command_request \<Rightarrow> string \<Rightarrow> string \<Rightarrow> uuid \<Rightarrow> schedule_row \<Rightarrow> command_action \<Rightarrow> db \<Rightarrow> (json \<times> db) res" where
  "execute_command e bytes rq who key fresh s action d =
     (let epoch = (if rq_control rq = Some PauseControl then Some (sc_grant_epoch s) else None);
          need = (rq_need rq)\<lparr>nd_project := Some (sc_project s)\<rparr>;
          slot = command_slot (rq_control rq) (sc_grant_epoch s) fresh
      in andThen (control_target (sc_id s) (rq_control rq) d) (\<lambda>target.
         case slot_find (sc_id s) slot d of
           Some c \<Rightarrow> if cm_request_hash c \<noteq> hash e (rq_text rq) then Inl (HarborError 409 ''CONTROL_SETTLED'')
             else Inr (cm_result c, d)
         | None \<Rightarrow>
             if rq_control rq = None \<and> ordinary_count (sc_id s) d \<ge> 128
             then Inl (HarborError 429 ''SCHEDULE_COMMAND_QUOTA'')
             else andThen (requireAuthority e d (rq_actor rq) need) (\<lambda>_.
             andThen (action d s) (\<lambda>(result, d1).
             andThen (requireAuthority e d1 (rq_actor rq) need) (\<lambda>_.
             if bytes result > 8192 then Inl (Crash ''Schedule command result bound exceeded'')
             else andThen (insert_command \<lparr> cm_schedule = sc_id s, cm_slot = slot, cm_actor = who, cm_grant_epoch = epoch,
                 cm_occurrence = target, cm_key = key, cm_request_hash = hash e (rq_text rq), cm_result = result,
                 cm_retry_until = max (now e) (key_ms key) + 86400000 \<rparr> d1) (\<lambda>d2. Inr (result, d2)))))))"

definition scheduleCommand ::
  "env \<Rightarrow> (json \<Rightarrow> nat) \<Rightarrow> command_request \<Rightarrow> uuid \<Rightarrow> command_action \<Rightarrow> db \<Rightarrow> (json \<times> db) res" where
  "scheduleCommand e bytes rq fresh action d =
     andThen (requireAuthority e d (rq_actor rq) (rq_need rq)) (\<lambda>caller.
     andThen (deploymentAdmission d (rq_control rq \<noteq> None)) (\<lambda>_.
     if au_kind caller = ScheduleAuthority then Inl (HarborError 403 ''SCHEDULE_AUTHORITY'')
     else andThen (first_row (HarborError 404 ''NOT_FOUND'') (schedule_find (rq_schedule rq) d)) (\<lambda>s.
     andThen (requireAuthority e d (rq_actor rq) ((rq_need rq)\<lparr>nd_project := Some (sc_project s)\<rparr>)) (\<lambda>_.
     case receipt_find (intent_actor e caller (rq_actor rq)) (key_string (rq_key rq)) d of
       Some old \<Rightarrow>
         if cm_request_hash old \<noteq> hash e (rq_text rq) then Inl (HarborError 409 ''INTENT_CONFLICT'')
         else Inr (cm_result old, d)
     | None \<Rightarrow>
         andThen (checkKey (key_json (rq_key rq)) (now e)) (\<lambda>key.
         execute_command e bytes rq (intent_actor e caller (rq_actor rq)) key fresh s action
           (remove_commands (expired_commands e (sc_id s) d) d))))))"

section \<open>The routes\<close>

fun schedule_state_text :: "schedule_state \<Rightarrow> string" where
  "schedule_state_text Enabled = ''enabled''"
| "schedule_state_text Paused = ''paused''"
| "schedule_state_text Attention = ''attention''"
| "schedule_state_text Completed = ''completed''"

fun occ_state_text :: "occ_state \<Rightarrow> string" where
  "occ_state_text Accepted = ''accepted''"
| "occ_state_text PreparingWorkspace = ''preparing_workspace''"
| "occ_state_text QueuedTurn = ''queued_turn''"
| "occ_state_text OccRunning = ''running''"
| "occ_state_text OccAttention = ''attention''"
| "occ_state_text OccSucceeded = ''succeeded''"
| "occ_state_text OccFailed = ''failed''"
| "occ_state_text Cancelled = ''cancelled''"
| "occ_state_text Skipped = ''skipped''"
| "occ_state_text OccUncertain = ''uncertain''"

definition schedule_json :: "schedule_answer \<Rightarrow> string \<times> json" where
  "schedule_json a = (case a of (i, n, st) \<Rightarrow>
     (''schedule'', JObj [(''id'', JStr i), (''revision'', JNum (int n)), (''state'', JStr (schedule_state_text st))]))"

definition occurrence_json :: "uuid \<Rightarrow> occ_state \<Rightarrow> string \<times> json" where
  "occurrence_json i st = (''occurrence'', JObj [(''id'', JStr i), (''state'', JStr (occ_state_text st))])"

definition minute_json :: "(time \<Rightarrow> string) \<Rightarrow> minute \<Rightarrow> json" where
  "minute_json show_time m = JObj [(''local'', JStr (mn_local m)), (''instant'', JStr (show_time (mn_instant m))),
     (''offset'', JStr (mn_offset m)), (''timezone'', JStr (mn_timezone m))]"

text \<open>The body of a management request, with the fresh identifiers its operation draws.\<close>

datatype management = Pause nat | Edit nat schedule_input | Activate nat nat uuid | RunNow nat uuid occ_ids
  | CancelRun nat uuid

fun management_control :: "management \<Rightarrow> control option" where
  "management_control (Pause _) = Some PauseControl"
| "management_control (CancelRun n i) = Some (CancelControl i n)"
| "management_control _ = None"

text \<open>\<open>op_text\<close> prints the operation in a cancellation's answer, \<open>show_time\<close> an instant.\<close>

fun management_action ::
  "env \<Rightarrow> (time \<Rightarrow> string) \<Rightarrow> ((uuid \<times> op_state) \<Rightarrow> json) \<Rightarrow> string \<Rightarrow> management \<Rightarrow> command_action" where
  "management_action e show_time op_text actor (Pause n) d s =
     andThen (pauseSchedule e s n d) (\<lambda>(a, d'). Inr (JObj [schedule_json a], d'))"
| "management_action e show_time op_text actor (Edit n b) d s =
     andThen (editSchedule e s n b actor d) (\<lambda>(a, d'). Inr (JObj [schedule_json a], d'))"
| "management_action e show_time op_text actor (Activate n days gid) d s =
     andThen (activateSchedule e s actor n days False gid d) (\<lambda>((g, epoch, preview), d').
       Inr (JObj [(''grantId'', JStr g), (''epoch'', JNum (int epoch)), (''preview'', JArr (map (minute_json show_time) preview)),
         schedule_json (sc_id s, sc_config_revision s, Enabled)], d'))"
| "management_action e show_time op_text actor (RunNow n gid ids) d s =
     andThen (runScheduleNow e s actor n gid ids d) (\<lambda>((i, a), d').
       Inr (JObj [occurrence_json i Accepted, schedule_json a], d'))"
| "management_action e show_time op_text actor (CancelRun n i) d s =
     andThen (cancelOccurrence e s i actor n d) (\<lambda>((r, st, answer), d').
       Inr (JObj (occurrence_json r st # (case answer of
           Some x \<Rightarrow> [(''operation'', op_text x)]
         | None \<Rightarrow> [(''message'', JStr ''Turn was not admitted; already accepted workspace preparation may still settle'')])), d'))"

definition manage_route_need :: need where
  "manage_route_need = \<lparr> nd_project = None, nd_scope = Some SchedulesManage, nd_profile = None, nd_internal = None \<rparr>"

definition mutate ::
  "env \<Rightarrow> (json \<Rightarrow> nat) \<Rightarrow> (time \<Rightarrow> string) \<Rightarrow> ((uuid \<times> op_state) \<Rightarrow> json) \<Rightarrow> string \<Rightarrow> uuid \<Rightarrow> string option \<Rightarrow> string \<Rightarrow>
     management \<Rightarrow> uuid \<Rightarrow> db \<Rightarrow> (json \<times> db) res" where
  "mutate e bytes show_time op_text actor sid key text m fresh d =
     scheduleCommand e bytes \<lparr> rq_actor = actor, rq_schedule = sid, rq_key = key, rq_text = text,
       rq_need = manage_route_need, rq_control = management_control m \<rparr> fresh
       (management_action e show_time op_text actor m) d"

end
