(* ===== verification/Schedule_Invariants.thy ===== *)
theory Schedule_Invariants
  imports Schedule_Commands
begin

text \<open>
  What every operation on schedules keeps, whoever runs it and in whatever order: an abstract life
  cycle of a schedule (\<open>life\<close>), which the operations refine, and the consistency of the
  schedule tables (\<open>schedules_ok\<close>, \<open>occurrences_ok\<close>). The operations are shown to be
  \<open>good\<close>, a relation between databases that composes, from the few kinds of statements they are
  made of.
\<close>

section \<open>The life cycle of a schedule\<close>

type_synonym life_state = "schedule_state \<times> nat" \<comment> \<open>state and grant epoch\<close>

inductive life :: "life_state \<Rightarrow> life_state \<Rightarrow> bool" where
  run_once: "life (st, n) (st, Suc n)"
| pause: "life (st, n) (Paused, n)"
| attention: "life (Enabled, n) (Attention, n)"
| complete: "life (Enabled, n) (Completed, n)"
| activate: "life (st, n) (Enabled, Suc n)"

inductive_cases life_elim: "life a b"

abbreviation lives :: "life_state \<Rightarrow> life_state \<Rightarrow> bool" where
  "lives \<equiv> life\<^sup>*\<^sup>*"

lemma life_epoch: "life a b \<Longrightarrow> snd a \<le> snd b"
  by (induction rule: life.induct) auto

lemma lives_epoch: "lives a b \<Longrightarrow> snd a \<le> snd b"
  by (induction rule: rtranclp_induct) (auto dest: life_epoch intro: order_trans)

text \<open>A schedule that is not enabled is enabled again only by an activation, with a new epoch.\<close>

lemma life_enabled: "life a b \<Longrightarrow> fst b = Enabled \<Longrightarrow> fst a = Enabled \<or> snd a < snd b"
  by (induction rule: life.induct) auto

lemma lives_enabled: "lives a b \<Longrightarrow> fst b = Enabled \<Longrightarrow> fst a = Enabled \<or> snd a < snd b"
proof (induction rule: rtranclp_induct)
  case base
  then show ?case by simp
next
  case (step b c)
  then show ?case using life_enabled [OF step(2)] lives_epoch [OF step(1)] life_epoch [OF step(2)] by auto
qed

definition life_of :: "schedule_row \<Rightarrow> life_state" where
  "life_of s = (sc_state s, sc_grant_epoch s)"

definition row_lives :: "schedule_row \<Rightarrow> schedule_row \<Rightarrow> bool" where
  "row_lives s s' \<longleftrightarrow> sc_id s' = sc_id s \<and> sc_project s' = sc_project s \<and> lives (life_of s) (life_of s')"

lemma row_lives_refl [simp]: "row_lives s s"
  by (simp add: row_lives_def)

lemma row_lives_trans: "row_lives a b \<Longrightarrow> row_lives b c \<Longrightarrow> row_lives a c"
  by (auto simp: row_lives_def)

definition rows_evolve :: "db \<Rightarrow> db \<Rightarrow> bool" where
  "rows_evolve d d' \<longleftrightarrow> (\<exists>xs ys. schedules d' = xs @ ys \<and> list_all2 row_lives (schedules d) xs)"

text \<open>A grant either was there before, and stays revoked if it was, or belongs to a later epoch.\<close>

definition grant_follows :: "grant_row \<Rightarrow> grant_row \<Rightarrow> bool" where
  "grant_follows g g' \<longleftrightarrow> gr_id g' = gr_id g \<and> gr_schedule g' = gr_schedule g \<and> gr_epoch g' = gr_epoch g \<and>
     (gr_revoked g \<longrightarrow> gr_revoked g')"

definition new_grant_of :: "db \<Rightarrow> grant_row \<Rightarrow> bool" where
  "new_grant_of d g \<longleftrightarrow> (\<forall>s \<in> set (schedules d). sc_id s = gr_schedule g \<longrightarrow> sc_grant_epoch s < gr_epoch g)"

definition grants_follow :: "db \<Rightarrow> db \<Rightarrow> bool" where
  "grants_follow d d' \<longleftrightarrow>
     (\<forall>g' \<in> set (schedule_grants d'). (\<exists>g \<in> set (schedule_grants d). grant_follows g g') \<or> new_grant_of d g')"

definition evolves :: "db \<Rightarrow> db \<Rightarrow> bool" where
  "evolves d d' \<longleftrightarrow> rows_evolve d d' \<and> grants_follow d d'"

lemma grant_follows_refl [simp]: "grant_follows g g"
  by (simp add: grant_follows_def)

lemma grants_follow_same: "schedule_grants d' = schedule_grants d \<Longrightarrow> grants_follow d d'"
  unfolding grants_follow_def using grant_follows_refl by fastforce

lemma evolves_map:
  "schedules d' = map f (schedules d) \<Longrightarrow> (\<And>s. row_lives s (f s)) \<Longrightarrow> grants_follow d d' \<Longrightarrow> evolves d d'"
  unfolding evolves_def rows_evolve_def
  by (intro conjI exI [of _ "map f (schedules d)"] exI [of _ "[]"]) (simp_all add: list.rel_map list.rel_refl)

lemma evolves_same: "schedules d' = schedules d \<Longrightarrow> schedule_grants d' = schedule_grants d \<Longrightarrow> evolves d d'"
  by (rule evolves_map [where f = "\<lambda>s. s"]) (simp_all add: grants_follow_same)

lemma rows_evolve_trans: "rows_evolve a b \<Longrightarrow> rows_evolve b c \<Longrightarrow> rows_evolve a c"
  unfolding rows_evolve_def
proof (elim exE conjE)
  fix xs ys us vs
  assume b: "schedules b = xs @ ys" "list_all2 row_lives (schedules a) xs"
    and c: "schedules c = us @ vs" "list_all2 row_lives (schedules b) us"
  from c(2) b(1) obtain u1 u2 where u: "us = u1 @ u2" "list_all2 row_lives xs u1"
    by (auto simp: list_all2_append1)
  have "list_all2 row_lives (schedules a) u1"
    by (rule list_all2_trans [OF row_lives_trans b(2) u(2)])
  then show "\<exists>xs ys. schedules c = xs @ ys \<and> list_all2 row_lives (schedules a) xs"
    using c(1) u(1) by (intro exI [of _ u1] exI [of _ "u2 @ vs"]) simp
qed

lemma rows_evolveD:
  assumes "rows_evolve d d'" "s \<in> set (schedules d)"
  obtains s' where "s' \<in> set (schedules d')" "row_lives s s'"
proof -
  from assms(1) obtain xs ys where x: "schedules d' = xs @ ys" "list_all2 row_lives (schedules d) xs"
    unfolding rows_evolve_def by blast
  from assms(2) obtain i where i: "i < length (schedules d)" "schedules d ! i = s" unfolding in_set_conv_nth by blast
  have "xs ! i \<in> set xs" "row_lives s (xs ! i)"
    using i list_all2_lengthD [OF x(2)] list_all2_nthD [OF x(2) i(1)] by simp_all
  then show thesis using that [of "xs ! i"] x(1) by simp
qed

lemma row_lives_epoch: "row_lives s s' \<Longrightarrow> sc_grant_epoch s \<le> sc_grant_epoch s'"
  by (auto simp: row_lives_def life_of_def dest: lives_epoch)

lemma new_grant_of_trans:
  assumes "rows_evolve a b" "new_grant_of b g"
  shows "new_grant_of a g"
  unfolding new_grant_of_def
proof (intro ballI impI)
  fix s assume s: "s \<in> set (schedules a)" "sc_id s = gr_schedule g"
  from assms(1) s(1) obtain s' where s': "s' \<in> set (schedules b)" "row_lives s s'" by (rule rows_evolveD)
  then have "sc_id s' = gr_schedule g" "sc_grant_epoch s \<le> sc_grant_epoch s'"
    using s(2) row_lives_epoch by (simp_all add: row_lives_def)
  moreover have "sc_grant_epoch s' < gr_epoch g" using assms(2) s'(1) calculation(1) unfolding new_grant_of_def by blast
  ultimately show "sc_grant_epoch s < gr_epoch g" by simp
qed

lemma new_grant_of_follows: "grant_follows g g' \<Longrightarrow> new_grant_of d g \<Longrightarrow> new_grant_of d g'"
  by (simp add: grant_follows_def new_grant_of_def)

lemma grant_follows_trans: "grant_follows a b \<Longrightarrow> grant_follows b c \<Longrightarrow> grant_follows a c"
  by (simp add: grant_follows_def)

lemma grants_follow_trans:
  assumes "rows_evolve a b" "grants_follow a b" "grants_follow b c"
  shows "grants_follow a c"
  unfolding grants_follow_def
proof
  fix g assume g: "g \<in> set (schedule_grants c)"
  show "(\<exists>x \<in> set (schedule_grants a). grant_follows x g) \<or> new_grant_of a g"
  proof (cases "new_grant_of b g")
    case True
    then show ?thesis using new_grant_of_trans [OF assms(1)] by simp
  next
    case False
    then obtain y where y: "y \<in> set (schedule_grants b)" "grant_follows y g" using assms(3) g unfolding grants_follow_def by blast
    from y(1) assms(2) have "(\<exists>x \<in> set (schedule_grants a). grant_follows x y) \<or> new_grant_of a y"
      unfolding grants_follow_def by blast
    then show ?thesis using grant_follows_trans [OF _ y(2)] new_grant_of_follows [OF y(2)] by blast
  qed
qed

lemma evolves_trans: "evolves a b \<Longrightarrow> evolves b c \<Longrightarrow> evolves a c"
  unfolding evolves_def using rows_evolve_trans grants_follow_trans by blast

section \<open>Consistency of the schedule tables\<close>

definition grant_backs :: "schedule_row \<Rightarrow> grant_row \<Rightarrow> bool" where
  "grant_backs s g \<longleftrightarrow> sc_active_grant s = Some (gr_id g) \<and> gr_schedule g = sc_id s \<and>
     gr_config_revision g = sc_config_revision s \<and> \<not> gr_revoked g \<and> \<not> gr_one_shot g"

definition schedules_ok :: "db \<Rightarrow> bool" where
  "schedules_ok d \<longleftrightarrow> distinct (map sc_id (schedules d)) \<and> distinct (map gr_id (schedule_grants d)) \<and>
     (\<forall>s \<in> set (schedules d). sc_state s = Enabled \<longrightarrow> (\<exists>g \<in> set (schedule_grants d). grant_backs s g)) \<and>
     (\<forall>g \<in> set (schedule_grants d). \<exists>s \<in> set (schedules d). gr_schedule g = sc_id s \<and> gr_epoch g \<le> sc_grant_epoch s) \<and>
     (\<forall>s \<in> set (schedules d). \<exists>g \<in> set (schedule_grants d). gr_schedule g = sc_id s \<and> gr_epoch g = sc_grant_epoch s)"

definition occurrences_ok :: "db \<Rightarrow> bool" where
  "occurrences_ok d \<longleftrightarrow> history_keys d \<and> receipts_kept d \<and> (\<forall>sid. unresolved_of sid d \<le> 1) \<and>
     (\<forall>sid. own_history sid d \<le> 256) \<and> all_history d \<le> 8192"

definition sys_ok :: "db \<Rightarrow> bool" where
  "sys_ok d \<longleftrightarrow> schedules_ok d \<and> occurrences_ok d"

definition good :: "db \<Rightarrow> db \<Rightarrow> bool" where
  "good d d' \<longleftrightarrow> (sys_ok d \<longrightarrow> sys_ok d' \<and> evolves d d')"

lemma good_trans: "good a b \<Longrightarrow> good b c \<Longrightarrow> good a c"
  by (auto simp: good_def intro: evolves_trans)

section \<open>The kinds of statements\<close>

definition sched_tables :: "db \<Rightarrow> schedule_row list \<times> grant_row list \<times> occurrence_row list \<times> command_row list" where
  "sched_tables d = (schedules d, schedule_grants d, schedule_occurrences d, schedule_commands d)"

lemma sched_tablesD:
  assumes "sched_tables d' = sched_tables d"
  shows "schedules d' = schedules d" "schedule_grants d' = schedule_grants d"
    "schedule_occurrences d' = schedule_occurrences d" "schedule_commands d' = schedule_commands d"
  using assms by (simp_all add: sched_tables_def)

lemma good_tables: "sched_tables d' = sched_tables d \<Longrightarrow> good d d'"
proof -
  assume t: "sched_tables d' = sched_tables d"
  have "sys_ok d' = sys_ok d"
    unfolding sys_ok_def schedules_ok_def occurrences_ok_def history_keys_def receipts_kept_def
      unresolved_of_def own_history_def all_history_def sched_tablesD [OF t] ..
  then show "good d d'" using evolves_same [OF sched_tablesD(1,2) [OF t]] by (simp add: good_def)
qed

lemma good_refl [simp]: "good d d"
  by (rule good_tables) simp

lemma ws_only_tables: "ws_only d d' \<Longrightarrow> sched_tables d' = sched_tables d"
  by (simp add: sched_tables_def ws_onlyD)

text \<open>Writing columns of schedules that leave the grants' columns alone, and never enable.\<close>

definition quiet :: "schedule_row \<Rightarrow> schedule_row \<Rightarrow> bool" where
  "quiet s s' \<longleftrightarrow> sc_id s' = sc_id s \<and> sc_project s' = sc_project s \<and> sc_config_revision s' = sc_config_revision s \<and>
     sc_grant_epoch s' = sc_grant_epoch s \<and> sc_active_grant s' = sc_active_grant s \<and>
     (sc_state s' = sc_state s \<or> sc_state s' = Paused \<or> (sc_state s = Enabled \<and> sc_state s' \<in> {Attention, Completed}))"

lemma quiet_lives: "quiet s s' \<Longrightarrow> row_lives s s'"
  unfolding quiet_def row_lives_def life_of_def
  by (cases s; cases s') (auto intro: life.intros r_into_rtranclp)

lemma good_quiet:
  assumes "schedules d' = map f (schedules d)" "\<And>s. quiet s (f s)"
    and "schedule_grants d' = schedule_grants d" "schedule_occurrences d' = schedule_occurrences d"
      "schedule_commands d' = schedule_commands d"
  shows "good d d'"
proof -
  have f: "sc_id (f s) = sc_id s" "sc_grant_epoch (f s) = sc_grant_epoch s" "sc_active_grant (f s) = sc_active_grant s"
    "sc_config_revision (f s) = sc_config_revision s" "sc_state (f s) = Enabled \<Longrightarrow> sc_state s = Enabled" for s
    using assms(2) [of s] by (auto simp: quiet_def)
  have "grant_backs (f s) g = grant_backs s g" for s g by (simp add: grant_backs_def f)
  then have "schedules_ok d \<Longrightarrow> schedules_ok d'"
    using f(5) unfolding schedules_ok_def assms(1,3) by (simp add: comp_def f)
  moreover have "occurrences_ok d \<Longrightarrow> occurrences_ok d'"
    unfolding occurrences_ok_def history_keys_def receipts_kept_def unresolved_of_def own_history_def all_history_def
      assms(1,4,5)
    by (simp add: comp_def f)
  moreover have "evolves d d'"
    by (rule evolves_map [OF assms(1)]) (use quiet_lives assms(2) grants_follow_same [OF assms(3)] in simp_all)
  ultimately show ?thesis by (simp add: good_def sys_ok_def)
qed

lemma good_quiet_where:
  assumes "\<And>s. P s \<Longrightarrow> quiet s (f s)"
  shows "good d (d\<lparr>schedules := update_where P f (schedules d)\<rparr>)"
proof (rule good_quiet)
  show "schedules (d\<lparr>schedules := update_where P f (schedules d)\<rparr>) = map (\<lambda>s. if P s then f s else s) (schedules d)"
    by (simp add: update_where_def)
  show "quiet s (if P s then f s else s)" for s using assms by (simp add: quiet_def)
qed simp_all

text \<open>Pruning.\<close>

lemma prune_frame_ok:
  assumes "prune_frame d' = prune_frame d" "schedules_ok d"
  shows "schedules_ok d'"
proof -
  let ?k = "\<lambda>s. s\<lparr>sc_last_pruned := None\<rparr>"
  have m: "map ?k (schedules d') = map ?k (schedules d)" and g: "schedule_grants d' = schedule_grants d"
    using prune_frameD [OF assms(1)] by simp_all
  have ids: "map sc_id (schedules d') = map sc_id (schedules d)"
    using arg_cong [OF m, of "map sc_id"] by (simp add: comp_def)
  have ex: "\<exists>s0 \<in> set (schedules d). ?k s0 = ?k s" if "s \<in> set (schedules d')" for s
  proof -
    have "?k s \<in> ?k ` set (schedules d')" using that by blast
    also have "\<dots> = ?k ` set (schedules d)" using arg_cong [OF m, of set] by simp
    finally show ?thesis by auto
  qed
  have ex': "\<exists>s0 \<in> set (schedules d'). ?k s0 = ?k s" if "s \<in> set (schedules d)" for s
  proof -
    have "?k s \<in> ?k ` set (schedules d)" using that by blast
    also have "\<dots> = ?k ` set (schedules d')" using arg_cong [OF m, of set] by simp
    finally show ?thesis by auto
  qed
  have key: "sc_id a = sc_id b" "sc_state a = sc_state b" "sc_grant_epoch a = sc_grant_epoch b"
    "grant_backs a x = grant_backs b x" if "?k a = ?k b" for a b :: schedule_row and x
  proof -
    have c: "sc_active_grant a = sc_active_grant b" "sc_config_revision a = sc_config_revision b"
      using arg_cong [OF that, of sc_active_grant] arg_cong [OF that, of sc_config_revision] by simp_all
    show "sc_id a = sc_id b" "sc_state a = sc_state b" "sc_grant_epoch a = sc_grant_epoch b"
      using arg_cong [OF that, of sc_id] arg_cong [OF that, of sc_state] arg_cong [OF that, of sc_grant_epoch] by simp_all
    then show "grant_backs a x = grant_backs b x" using c by (simp add: grant_backs_def)
  qed
  show ?thesis unfolding schedules_ok_def ids g
  proof (intro conjI ballI impI)
    show "distinct (map sc_id (schedules d))" "distinct (map gr_id (schedule_grants d))"
      using assms(2) by (simp_all add: schedules_ok_def)
    fix s assume s: "s \<in> set (schedules d')"
    then obtain s0 where s0: "s0 \<in> set (schedules d)" "?k s0 = ?k s" using ex by blast
    show "\<exists>g \<in> set (schedule_grants d). gr_schedule g = sc_id s \<and> gr_epoch g = sc_grant_epoch s"
      using assms(2) s0(1) key(1,3) [OF s0(2)] unfolding schedules_ok_def by metis
    assume "sc_state s = Enabled"
    then show "\<exists>g \<in> set (schedule_grants d). grant_backs s g"
      using assms(2) s0(1) key(2,4) [OF s0(2)] unfolding schedules_ok_def by metis
  next
    fix x assume "x \<in> set (schedule_grants d)"
    then obtain s where s: "s \<in> set (schedules d)" "gr_schedule x = sc_id s" "gr_epoch x \<le> sc_grant_epoch s"
      using assms(2) unfolding schedules_ok_def by blast
    from ex' [OF s(1)] obtain s1 where "s1 \<in> set (schedules d')" "?k s1 = ?k s" by blast
    then show "\<exists>s \<in> set (schedules d'). gr_schedule x = sc_id s \<and> gr_epoch x \<le> sc_grant_epoch s"
      using key(1,3) s(2,3) by metis
  qed
qed

lemma map_eq_list_all2: "map f xs = map f ys \<Longrightarrow> list_all2 (\<lambda>a b. f a = f b) xs ys"
proof (induction xs arbitrary: ys)
  case (Cons x xs)
  then show ?case by (cases ys) auto
qed simp

lemma prune_frame_evolves:
  assumes "prune_frame d' = prune_frame d"
  shows "evolves d d'"
  unfolding evolves_def rows_evolve_def
proof (intro exI conjI)
  show "grants_follow d d'" by (rule grants_follow_same [OF prune_frameD(2) [OF assms]])
  let ?k = "\<lambda>s. s\<lparr>sc_last_pruned := None\<rparr>"
  show "schedules d' = schedules d' @ []" by simp
  have "list_all2 (\<lambda>a b. ?k a = ?k b) (schedules d) (schedules d')"
    by (rule map_eq_list_all2 [OF prune_frameD(6) [OF assms, symmetric]])
  then show "list_all2 row_lives (schedules d) (schedules d')"
  proof (rule list_all2_mono)
    fix a b :: schedule_row assume k: "?k a = ?k b"
    show "row_lives a b"
      using arg_cong [OF k, of sc_id] arg_cong [OF k, of sc_project] arg_cong [OF k, of sc_state]
        arg_cong [OF k, of sc_grant_epoch]
      by (simp add: row_lives_def life_of_def)
  qed
qed

lemma filtered_ok:
  assumes "schedule_occurrences d' = filter P (schedule_occurrences d)" "occurrences_ok d" "history_keys d'" "receipts_kept d'"
  shows "occurrences_ok d'"
proof -
  have le: "count_where Q (schedule_occurrences d') \<le> count_where Q (schedule_occurrences d)" for Q
    unfolding assms(1) by (rule count_where_filter_le)
  have l: "all_history d' \<le> all_history d" unfolding all_history_def assms(1) by (rule length_filter_le)
  have o: "\<And>sid. unresolved_of sid d \<le> 1" "\<And>sid. own_history sid d \<le> 256" "all_history d \<le> 8192"
    using assms(2) by (simp_all add: occurrences_ok_def)
  show ?thesis unfolding occurrences_ok_def
  proof (intro conjI allI)
    fix sid
    show "unresolved_of sid d' \<le> 1" using le o(1) [of sid] unfolding unresolved_of_def by (rule order_trans)
    show "own_history sid d' \<le> 256" using le o(2) [of sid] unfolding own_history_def by (rule order_trans)
  qed (use assms(3,4) l o(3) in simp_all)
qed

lemma occurrences_okD: "occurrences_ok d \<Longrightarrow> history_keys d" "occurrences_ok d \<Longrightarrow> receipts_kept d"
  by (simp_all add: occurrences_ok_def)

lemma good_capacity:
  assumes "occurrenceCapacity e sid d = Inr d'"
  shows "good d d'"
proof -
  obtain P where P: "schedule_occurrences d' = filter P (schedule_occurrences d)"
    using occurrenceCapacity_filter [OF assms] by blast
  have "occurrences_ok d \<Longrightarrow> occurrences_ok d'"
    using filtered_ok [OF P] occurrenceCapacity_safe(1,2) [OF assms] occurrences_okD by blast
  then show ?thesis
    using prune_frame_ok prune_frame_evolves occurrenceCapacity_frame [OF assms] by (simp add: good_def sys_ok_def)
qed

lemma good_prune:
  assumes "pruneScheduleHistory e d = Inr d'"
  shows "good d d'"
proof -
  obtain d1 where d1: "d' = fold (drop_occurrence ''age'') (aged_occurrences e d1) d1"
      "schedule_occurrences d1 = schedule_occurrences d"
    using assms by (auto simp: pruneScheduleHistory_def andThen_eq_Inr Let_def)
  obtain P where "schedule_occurrences d' = filter P (schedule_occurrences d)"
    using fold_drop_filter [of "''age''" "aged_occurrences e d1" d1] d1 by auto
  then have "occurrences_ok d \<Longrightarrow> occurrences_ok d'"
    using filtered_ok pruneScheduleHistory_safe(1,2) [OF assms] occurrences_okD by blast
  then show ?thesis
    using prune_frame_ok prune_frame_evolves pruneScheduleHistory_frame [OF assms] by (simp add: good_def sys_ok_def)
qed

lemma good_remove_commands: "good d (remove_commands cs d)"
proof -
  have "schedules_ok (remove_commands cs d) = schedules_ok d" by (simp add: schedules_ok_def remove_commands_def)
  moreover have "occurrences_ok d \<Longrightarrow> occurrences_ok (remove_commands cs d)"
    using remove_commands_keeps by (simp add: occurrences_ok_def unresolved_of_def)
  moreover have "evolves d (remove_commands cs d)" by (rule evolves_same) (simp_all add: remove_commands_def)
  ultimately show ?thesis by (simp add: good_def sys_ok_def)
qed

lemma good_insert_command:
  assumes "insert_command c d = Inr d'"
  shows "good d d'"
proof -
  have d': "d' = d\<lparr>schedule_commands := schedule_commands d @ [c]\<rparr>"
    and fk: "\<And>i. cm_occurrence c = Some i \<Longrightarrow> \<exists>r \<in> set (schedule_occurrences d). oc_id r = i"
    using assms by (auto simp: insert_command_def split: if_split_asm)
  have "schedules_ok d' = schedules_ok d" by (simp add: schedules_ok_def d')
  moreover have "occurrences_ok d \<Longrightarrow> occurrences_ok d'"
    using fk by (auto simp: occurrences_ok_def d' history_keys_def receipts_kept_def unresolved_of_def own_history_def all_history_def)
  moreover have "evolves d d'" by (rule evolves_same) (simp_all add: d')
  ultimately show ?thesis by (simp add: good_def sys_ok_def)
qed

text \<open>Adding an occurrence.\<close>

lemma good_add_occurrence:
  assumes "insert_occurrence r d0 = Inr d1" "schedule_occurrences d0 = schedule_occurrences d"
    and "schedules d' = schedules d" "schedule_grants d' = schedule_grants d" "schedule_commands d' = schedule_commands d"
    and "schedule_occurrences d' = schedule_occurrences d @ [r]"
    and "own_history (oc_schedule r) d < 256" "all_history d < 8192" "oc_schedule r \<in> sc_id ` set (schedules d)"
  shows "good d d'"
proof -
  note i = insert_occurrence_Inr [OF assms(1), unfolded assms(2)]
  have "schedules_ok d' = schedules_ok d" by (simp add: schedules_ok_def assms(3,4))
  moreover have "occurrences_ok d'" if ok: "occurrences_ok d"
  proof -
    have new: "oc_id r \<notin> oc_id ` set (schedule_occurrences d)" using i(2) by (metis imageE)
    have "history_keys d'" using ok assms(9) new unfolding occurrences_ok_def history_keys_def assms(3,6) by auto
    moreover have "receipts_kept d'" using ok unfolding occurrences_ok_def receipts_kept_def assms(5,6) by auto
    moreover have "unresolved_of sid d' \<le> 1" for sid
    proof (cases "oc_schedule r = sid \<and> occ_unresolved r")
      case True
      then have "unresolved_of sid d = 0" using i(3) unfolding unresolved_of_def count_where_0_iff by (metis)
      then show ?thesis using assms(6) by (simp add: unresolved_of_def)
    next
      case False
      then show ?thesis using assms(6) ok by (auto simp: unresolved_of_def occurrences_ok_def)
    qed
    moreover have "own_history sid d' \<le> 256" for sid
    proof (cases "oc_schedule r = sid")
      case True
      then show ?thesis using assms(6,7) by (simp add: own_history_def)
    next
      case False
      then show ?thesis using assms(6) ok by (simp add: own_history_def occurrences_ok_def)
    qed
    moreover have "all_history d' \<le> 8192" using assms(6,8) by (simp add: all_history_def)
    ultimately show ?thesis unfolding occurrences_ok_def by blast
  qed
  ultimately show ?thesis using evolves_same [OF assms(3,4)] by (simp add: good_def sys_ok_def)
qed

lemma count_le_one_iff:
  assumes "distinct (map key rows)"
  shows "count_where P rows \<le> 1 \<longleftrightarrow> (\<forall>x \<in> set rows. \<forall>y \<in> set rows. P x \<longrightarrow> P y \<longrightarrow> x = y)"
proof -
  have "distinct (filter P rows)" using assms by (simp add: distinct_map)
  then have "count_where P rows = card {x \<in> set rows. P x}"
    unfolding count_where_def by (simp add: distinct_card [symmetric])
  then show ?thesis using card_le_Suc0_iff_eq [of "{x \<in> set rows. P x}"] by auto
qed

text \<open>Changing the one row with key \<open>i\<close> keeps at most one unresolved row.\<close>

lemma count_map_one:
  assumes "distinct (map oc_id rows)" "count_where (\<lambda>r. oc_schedule r = sid \<and> occ_unresolved r) rows \<le> 1"
    and "\<And>r. oc_id (f r) = oc_id r \<and> oc_schedule (f r) = oc_schedule r"
    and "\<And>r x. r \<in> set rows \<Longrightarrow> oc_id r = i \<Longrightarrow> occ_unresolved (f r) \<Longrightarrow>
      x \<in> set rows \<Longrightarrow> oc_id x \<noteq> i \<Longrightarrow> oc_schedule x = oc_schedule r \<Longrightarrow> \<not> occ_unresolved x"
  shows "count_where (\<lambda>r. oc_schedule r = sid \<and> occ_unresolved r) (map (\<lambda>r. if oc_id r = i then f r else r) rows) \<le> 1"
  (is "count_where ?Q (map ?g rows) \<le> 1")
proof -
  have id: "oc_id (?g r) = oc_id r" "oc_schedule (?g r) = oc_schedule r" for r using assms(3) by auto
  have "distinct (map oc_id (map ?g rows))" using assms(1) by (simp only: map_map comp_def id)
  moreover have "x' = y'" if x': "x' \<in> set (map ?g rows)" "?Q x'" and y': "y' \<in> set (map ?g rows)" "?Q y'" for x' y'
  proof -
    obtain x y where x: "x \<in> set rows" "x' = ?g x" and y: "y \<in> set rows" "y' = ?g y" using x'(1) y'(1) by auto
    have sx: "oc_schedule x = sid" "oc_schedule y = sid" using x'(2) y'(2) x(2) y(2) id(2) by auto
    consider "oc_id x = i" "oc_id y = i" | "oc_id x = i" "oc_id y \<noteq> i" | "oc_id x \<noteq> i" "oc_id y = i"
      | "oc_id x \<noteq> i" "oc_id y \<noteq> i" by blast
    then show "x' = y'"
    proof cases
      case 1
      then have "x = y" using distinct_keyD [OF assms(1) x(1) y(1)] by simp
      then show ?thesis using x(2) y(2) by simp
    next
      case 2
      then show ?thesis using assms(4) [OF x(1) _ _ y(1)] x'(2) y'(2) x(2) y(2) sx by simp
    next
      case 3
      then show ?thesis using assms(4) [OF y(1) _ _ x(1)] x'(2) y'(2) x(2) y(2) sx by simp
    next
      case 4
      then show ?thesis
        using count_le_one_iff [OF assms(1), of ?Q] assms(2) x'(2) y'(2) x y by simp
    qed
  qed
  ultimately show ?thesis using count_le_one_iff [of oc_id "map ?g rows" ?Q] by blast
qed

lemma receipts_kept_ids:
  "receipts_kept d \<longleftrightarrow> (\<forall>c \<in> set (schedule_commands d). \<forall>i. cm_occurrence c = Some i \<longrightarrow>
     i \<in> set (map oc_id (schedule_occurrences d)))"
  unfolding receipts_kept_def by (simp add: image_iff) metis

text \<open>Writing an occurrence without moving it to another schedule.\<close>

lemma good_update_occurrence:
  assumes "update_occurrence i f d = Inr d'" "\<And>r. oc_id (f r) = oc_id r \<and> oc_schedule (f r) = oc_schedule r"
  shows "good d d'"
proof -
  have d': "d' = d\<lparr>schedule_occurrences := update_where (\<lambda>r. oc_id r = i) f (schedule_occurrences d)\<rparr>"
    and one: "\<And>r x. r \<in> set (schedule_occurrences d) \<Longrightarrow> oc_id r = i \<Longrightarrow> occ_unresolved (f r) \<Longrightarrow>
      x \<in> set (schedule_occurrences d) \<Longrightarrow> oc_id x \<noteq> i \<Longrightarrow> oc_schedule x = oc_schedule r \<Longrightarrow> \<not> occ_unresolved x"
    using assms(1) by (auto simp: update_occurrence_def split: if_split_asm)
  have "schedules_ok d' = schedules_ok d" by (simp add: schedules_ok_def d')
  moreover have "occurrences_ok d'" if ok: "occurrences_ok d"
  proof -
    let ?g = "\<lambda>r. if oc_id r = i then f r else r"
    have occ: "schedule_occurrences d' = map ?g (schedule_occurrences d)" by (simp add: d' update_where_def)
    have g: "oc_id (?g r) = oc_id r" "oc_schedule (?g r) = oc_schedule r" for r using assms(2) by auto
    have set_occ: "set (schedule_occurrences d') = ?g ` set (schedule_occurrences d)" by (simp only: occ set_map)
    have ids: "map oc_id (schedule_occurrences d') = map oc_id (schedule_occurrences d)" by (simp add: occ comp_def g)
    have own: "own_history sid d' = own_history sid d" for sid
      by (simp add: own_history_def occ count_where_def filter_map comp_def g)
    have all: "all_history d' = all_history d" by (simp add: all_history_def occ)
    have fk: "\<exists>s \<in> set (schedules d'). sc_id s = oc_schedule x" if x: "x \<in> set (schedule_occurrences d')" for x
    proof -
      obtain y where y: "y \<in> set (schedule_occurrences d)" "x = ?g y" using x unfolding set_occ by blast
      then have "oc_schedule x = oc_schedule y" using g(2) by simp
      moreover obtain s where "s \<in> set (schedules d)" "sc_id s = oc_schedule y"
        using ok y(1) unfolding occurrences_ok_def history_keys_def by blast
      ultimately show ?thesis by (intro bexI [of _ s]) (simp_all add: d')
    qed
    have "distinct (map sc_id (schedules d'))" using ok by (simp add: occurrences_ok_def history_keys_def d')
    then have "history_keys d'" using ok fk unfolding occurrences_ok_def history_keys_def ids by simp
    moreover have "receipts_kept d'" using ok unfolding occurrences_ok_def receipts_kept_ids ids by (simp add: d')
    moreover have "unresolved_of sid d' \<le> 1" for sid
      unfolding unresolved_of_def occ
    proof (rule count_map_one [OF _ _ assms(2) one])
      show "distinct (map oc_id (schedule_occurrences d))" using ok by (simp add: occurrences_ok_def history_keys_def)
      show "count_where (\<lambda>r. oc_schedule r = sid \<and> occ_unresolved r) (schedule_occurrences d) \<le> 1"
        using ok by (simp add: occurrences_ok_def unresolved_of_def)
    qed
    ultimately show ?thesis using ok own all unfolding occurrences_ok_def by simp
  qed
  moreover have "evolves d d'" by (rule evolves_same) (simp_all add: d')
  ultimately show ?thesis by (simp add: good_def sys_ok_def)
qed

end
