(* ===== verification/Schedule_Lifecycle.thy ===== *)
theory Schedule_Lifecycle
  imports Schedule_Invariants
begin

text \<open>
  The owner's operations on schedules (\<open>Schedule_Management\<close>, creation in
  \<open>Schedule_Admission\<close>) are \<open>good\<close>: they keep the schedule tables consistent and move every
  schedule along its life cycle.
\<close>

section \<open>Pausing and editing\<close>

text \<open>Stopping schedules and revoking grants, in one statement each.\<close>

lemma good_stop:
  assumes "schedules d' = map f (schedules d)" "schedule_grants d' = map h (schedule_grants d)"
    and "schedule_occurrences d' = schedule_occurrences d" "schedule_commands d' = schedule_commands d"
    and f: "\<And>s. sc_id (f s) = sc_id s \<and> sc_project (f s) = sc_project s \<and> sc_grant_epoch (f s) = sc_grant_epoch s \<and>
      (f s = s \<or> sc_state (f s) = Paused)"
    and h: "\<And>g. gr_id (h g) = gr_id g \<and> gr_schedule (h g) = gr_schedule g \<and> gr_epoch (h g) = gr_epoch g \<and>
      (gr_revoked g \<longrightarrow> gr_revoked (h g))"
    and b: "\<And>s g. f s = s \<Longrightarrow> sc_state s = Enabled \<Longrightarrow> grant_backs s g \<Longrightarrow> h g = g"
  shows "good d d'"
proof -
  have fk: "sc_id (f s) = sc_id s" "sc_grant_epoch (f s) = sc_grant_epoch s" for s using f by blast+
  have hk: "gr_id (h g) = gr_id g" "gr_schedule (h g) = gr_schedule g" "gr_epoch (h g) = gr_epoch g" for g using h by blast+
  have en: "f s = s" if "sc_state (f s) = Enabled" for s using f [of s] that by auto
  have "schedules_ok d'" if ok: "schedules_ok d"
    unfolding schedules_ok_def assms(1,2)
  proof (intro conjI ballI impI)
    show "distinct (map sc_id (map f (schedules d)))" "distinct (map gr_id (map h (schedule_grants d)))"
      using ok by (simp_all add: schedules_ok_def comp_def fk hk)
  next
    fix s assume "s \<in> set (map f (schedules d))" and e: "sc_state s = Enabled"
    then obtain x where x: "x \<in> set (schedules d)" "s = f x" by auto
    with e have fx: "f x = x" using en by simp
    then obtain g where g: "g \<in> set (schedule_grants d)" "grant_backs x g"
      using ok x e unfolding schedules_ok_def by auto
    have "h g = g" using b [OF fx _ g(2)] e x(2) fx by simp
    then have "g \<in> set (map h (schedule_grants d))" using g(1) by (metis image_eqI set_map)
    then show "\<exists>g \<in> set (map h (schedule_grants d)). grant_backs s g" using g(2) x(2) fx by auto
  next
    fix g assume "g \<in> set (map h (schedule_grants d))"
    then obtain y where y: "y \<in> set (schedule_grants d)" "g = h y" by auto
    then obtain s where "s \<in> set (schedules d)" "gr_schedule y = sc_id s" "gr_epoch y \<le> sc_grant_epoch s"
      using ok unfolding schedules_ok_def by blast
    then show "\<exists>s \<in> set (map f (schedules d)). gr_schedule g = sc_id s \<and> gr_epoch g \<le> sc_grant_epoch s"
      using y(2) fk hk by auto
  next
    fix s assume "s \<in> set (map f (schedules d))"
    then obtain x where x: "x \<in> set (schedules d)" "s = f x" by auto
    then obtain g where "g \<in> set (schedule_grants d)" "gr_schedule g = sc_id x" "gr_epoch g = sc_grant_epoch x"
      using ok unfolding schedules_ok_def by blast
    then show "\<exists>g \<in> set (map h (schedule_grants d)). gr_schedule g = sc_id s \<and> gr_epoch g = sc_grant_epoch s"
      using x(2) fk hk by auto
  qed
  moreover have "occurrences_ok d \<Longrightarrow> occurrences_ok d'"
    unfolding occurrences_ok_def history_keys_def receipts_kept_def unresolved_of_def own_history_def all_history_def
      assms(1,3,4)
    by (simp add: comp_def fk)
  moreover have "evolves d d'"
  proof (rule evolves_map [OF assms(1)])
    show "row_lives s (f s)" for s
    proof (cases "f s = s")
      case False
      then have "life_of (f s) = (Paused, sc_grant_epoch s)" using f [of s] by (simp add: life_of_def)
      moreover have "lives (sc_state s, sc_grant_epoch s) (Paused, sc_grant_epoch s)"
        by (rule r_into_rtranclp) (rule life.pause)
      ultimately show ?thesis using f [of s] unfolding row_lives_def by (simp add: life_of_def)
    qed simp
    show "grants_follow d d'"
      unfolding grants_follow_def
    proof
      fix g assume "g \<in> set (schedule_grants d')"
      then obtain y where y: "y \<in> set (schedule_grants d)" "g = h y" unfolding assms(2) by auto
      then have "grant_follows y g" using h [of y] by (simp add: grant_follows_def)
      then show "(\<exists>x \<in> set (schedule_grants d). grant_follows x g) \<or> new_grant_of d g" using y(1) by blast
    qed
  qed
  ultimately show ?thesis by (simp add: good_def sys_ok_def)
qed

lemma revoke_grants_simps [simp]:
  "schedules (revoke_grants P d) = schedules d" "schedule_occurrences (revoke_grants P d) = schedule_occurrences d"
  "schedule_commands (revoke_grants P d) = schedule_commands d" "schedule_versions (revoke_grants P d) = schedule_versions d"
  "schedule_grants (revoke_grants P d) = map (\<lambda>g. if P g then g\<lparr>gr_revoked := True\<rparr> else g) (schedule_grants d)"
  by (simp_all add: revoke_grants_def update_where_def)

lemma update_where_map: "update_where P f rows = map (\<lambda>r. if P r then f r else r) rows"
  by (simp add: update_where_def)

lemma good_stop_one:
  assumes "schedules d' = update_where (\<lambda>s. sc_id s = i) f (schedules d)"
    and "schedule_grants d' = map (\<lambda>g. if gr_schedule g = i then g\<lparr>gr_revoked := True\<rparr> else g) (schedule_grants d)"
    and "schedule_occurrences d' = schedule_occurrences d" "schedule_commands d' = schedule_commands d"
    and "\<And>s. sc_id (f s) = sc_id s \<and> sc_project (f s) = sc_project s \<and> sc_grant_epoch (f s) = sc_grant_epoch s \<and> sc_state (f s) = Paused"
  shows "good d d'"
proof (rule good_stop)
  show "schedules d' = map (\<lambda>s. if sc_id s = i then f s else s) (schedules d)" unfolding assms(1) by (rule update_where_map)
  show "schedule_grants d' = map (\<lambda>g. if gr_schedule g = i then g\<lparr>gr_revoked := True\<rparr> else g) (schedule_grants d)"
    by (rule assms(2))
next
  fix s :: schedule_row and g :: grant_row
  let ?f = "\<lambda>s. if sc_id s = i then f s else s"
  assume fs: "?f s = s" and e: "sc_state s = Enabled" and b: "grant_backs s g"
  have "sc_id s \<noteq> i"
  proof
    assume "sc_id s = i"
    then have "f s = s" using fs by simp
    then show False using assms(5) [of s] e by simp
  qed
  then show "(if gr_schedule g = i then g\<lparr>gr_revoked := True\<rparr> else g) = g" using b by (simp add: grant_backs_def)
qed (use assms(3-5) in auto)

lemma pauseSchedule_Inr:
  assumes "pauseSchedule e s n d = Inr (a, d')"
  shows "a = (sc_id s, sc_config_revision s, Paused)" "n = sc_config_revision s"
    "d' = revoke_grants (\<lambda>g. gr_schedule g = sc_id s) (update_schedule (sc_id s) (stop_schedule e ''OWNER_PAUSED'') d)"
  using assms by (auto simp: pauseSchedule_def res_simps)

lemma stop_schedule_simps [simp]:
  "sc_id (stop_schedule e w s) = sc_id s" "sc_project (stop_schedule e w s) = sc_project s"
  "sc_grant_epoch (stop_schedule e w s) = sc_grant_epoch s" "sc_state (stop_schedule e w s) = Paused"
  "sc_active_grant (stop_schedule e w s) = sc_active_grant s"
  by (simp_all add: stop_schedule_def)

lemma good_pause: "pauseSchedule e s n d = Inr (a, d') \<Longrightarrow> good d d'"
  by (drule pauseSchedule_Inr(3), rule good_stop_one [where i = "sc_id s" and f = "stop_schedule e ''OWNER_PAUSED''"]) simp_all

lemma good_emergency: "good d (emergencyPauseSchedules e d)"
proof (rule good_stop)
  show "schedules (emergencyPauseSchedules e d) = map (stop_schedule e ''EMERGENCY_STOP'') (schedules d)"
    by (simp add: emergencyPauseSchedules_def)
  show "schedule_grants (emergencyPauseSchedules e d) =
      map (\<lambda>g. if \<not> gr_revoked g then g\<lparr>gr_revoked := True\<rparr> else g) (schedule_grants d)"
    by (simp add: emergencyPauseSchedules_def)
next
  fix s :: schedule_row and g :: grant_row
  assume same: "stop_schedule e ''EMERGENCY_STOP'' s = s" and en: "sc_state s = Enabled"
  have "sc_state (stop_schedule e ''EMERGENCY_STOP'' s) = sc_state s" by (simp only: same)
  with en show "(if \<not> gr_revoked g then g\<lparr>gr_revoked := True\<rparr> else g) = g" by simp
qed (simp_all add: emergencyPauseSchedules_def)

lemma trim_versions_tables: "sched_tables (trim_versions s d) = sched_tables d"
  by (simp add: trim_versions_def sched_tables_def split: list.split)

lemma sched_tables_versions [simp]: "sched_tables (d\<lparr>schedule_versions := x\<rparr>) = sched_tables d"
  by (simp add: sched_tables_def)

lemma edited_simps [simp]:
  "sc_id (edited e t k r s) = sc_id s" "sc_project (edited e t k r s) = sc_project s"
  "sc_grant_epoch (edited e t k r s) = sc_grant_epoch s" "sc_state (edited e t k r s) = Paused"
  by (simp_all add: edited_def)

lemma edit_commit_Inr:
  assumes "edit_commit e s b d = Inr (a, d')"
  obtains vs k r where "d' = update_schedule (sc_id s) (edited e (si_title b) k r)
    (revoke_grants (\<lambda>g. gr_schedule g = sc_id s) ((trim_versions s d)\<lparr>schedule_versions := vs\<rparr>))"
  using assms by (auto simp: edit_commit_def Let_def andThen_eq_Inr split: if_split_asm)

lemma good_edit_commit:
  assumes "edit_commit e s b d = Inr (a, d')"
  shows "good d d'"
  using assms
proof (rule edit_commit_Inr)
  fix vs k r
  assume d': "d' = update_schedule (sc_id s) (edited e (si_title b) k r)
    (revoke_grants (\<lambda>g. gr_schedule g = sc_id s) ((trim_versions s d)\<lparr>schedule_versions := vs\<rparr>))"
  let ?d = "(trim_versions s d)\<lparr>schedule_versions := vs\<rparr>"
  have "sched_tables ?d = sched_tables d" by (simp add: trim_versions_tables)
  then have "good d ?d" by (rule good_tables)
  moreover have "good ?d d'"
    unfolding d' by (rule good_stop_one [where i = "sc_id s" and f = "edited e (si_title b) k r"]) simp_all
  ultimately show ?thesis by (rule good_trans)
qed

lemma good_ws_only: "ws_only d d' \<Longrightarrow> good d d'"
  by (rule good_tables) (rule ws_only_tables)

lemma editSchedule_Inr:
  assumes "editSchedule e s n b actor d = Inr (a, d')"
  obtains b' d1 where "parse_schedule e b = Inr b'" "ws_only d d1" "edit_commit e s b' d1 = Inr (a, d')"
    "n = sc_config_revision s"
proof -
  from assms obtain b' where b': "parse_schedule e b = Inr b'" and n: "n = sc_config_revision s"
    by (auto simp: editSchedule_def res_simps)
  note k = assms [unfolded editSchedule_def b' andThen_Inr]
  from k obtain sel d1 where t: "scheduleTarget e (sc_project s) (si_config b') d = Inr (sel, d1)"
    and c: "edit_commit e s b' d1 = Inr (a, d')"
    by (auto simp: res_simps)
  with that b' n scheduleTarget_ws_only [OF t] show thesis by blast
qed

lemma good_edit: "editSchedule e s n b actor d = Inr (a, d') \<Longrightarrow> good d d'"
  by (erule editSchedule_Inr) (metis good_trans good_ws_only good_edit_commit)

section \<open>Activating\<close>

text \<open>The row an operation was given agrees with the one in the table, in the columns that matter.\<close>

definition same_grant :: "schedule_row \<Rightarrow> schedule_row \<Rightarrow> bool" where
  "same_grant s x \<longleftrightarrow> sc_id x = sc_id s \<and> sc_project x = sc_project s \<and> sc_config_revision x = sc_config_revision s \<and>
     sc_grant_epoch x = sc_grant_epoch s \<and> sc_active_grant x = sc_active_grant s \<and> sc_state x = sc_state s"

definition current :: "schedule_row \<Rightarrow> db \<Rightarrow> bool" where
  "current s d \<longleftrightarrow> (\<exists>x \<in> set (schedules d). same_grant s x)"

lemma good_activate:
  assumes s: "s \<in> set (schedules d)" "sc_id s = i"
    and d': "schedules d' = update_where (\<lambda>s. sc_id s = i) f (schedules d)"
      "schedule_grants d' = map h (filter Q (schedule_grants d)) @ [g]"
      "schedule_occurrences d' = schedule_occurrences d" "schedule_commands d' = schedule_commands d"
    and f: "sc_id (f s) = i" "sc_grant_epoch (f s) = Suc (sc_grant_epoch s)" "row_lives s (f s)"
    and h: "\<And>y. gr_id (h y) = gr_id y \<and> gr_schedule (h y) = gr_schedule y \<and> gr_epoch (h y) = gr_epoch y \<and>
        (gr_revoked y \<longrightarrow> gr_revoked (h y))"
      "\<And>y. gr_schedule y \<noteq> i \<Longrightarrow> h y = y \<and> Q y"
    and g: "gr_id g \<notin> gr_id ` set (filter Q (schedule_grants d))" "gr_schedule g = i" "gr_epoch g = Suc (sc_grant_epoch s)"
    and b: "grant_backs (f s) g \<or> (sc_state (f s) = Enabled \<longrightarrow> sc_state s = Enabled) \<and>
      (\<forall>y \<in> set (schedule_grants d). grant_backs s y \<longrightarrow> Q y \<and> grant_backs (f s) (h y))"
  shows "good d d'"
proof -
  have hk: "gr_id (h y) = gr_id y" "gr_schedule (h y) = gr_schedule y" "gr_epoch (h y) = gr_epoch y" for y using h by blast+
  have inG: "y \<in> set (schedule_grants d')" if "y \<in> set (schedule_grants d)" "gr_schedule y \<noteq> i" for y
  proof -
    have "Q y" "h y = y" using h(2) [OF that(2)] by simp_all
    moreover from \<open>Q y\<close> have "h y \<in> h ` set (filter Q (schedule_grants d))" using that(1) by simp
    ultimately show ?thesis unfolding d'(2) by simp
  qed
  have gin: "g \<in> set (schedule_grants d')" unfolding d'(2) by simp
  have "sys_ok d' \<and> evolves d d'" if sys: "sys_ok d"
  proof -
    have ok: "schedules_ok d" and occ: "occurrences_ok d" using sys by (simp_all add: sys_ok_def)
    have dist: "distinct (map sc_id (schedules d))" using ok by (simp add: schedules_ok_def)
    have only: "x = s" if "x \<in> set (schedules d)" "sc_id x = i" for x
      using distinct_keyD [OF dist that(1) s(1)] that(2) s(2) by simp
    have rows: "schedules d' = map (\<lambda>x. if x = s then f s else x) (schedules d)"
      unfolding d'(1) update_where_map
    proof (rule map_cong [OF refl])
      fix x assume x: "x \<in> set (schedules d)"
      show "(if sc_id x = i then f x else x) = (if x = s then f s else x)"
        using only [OF x] s(2) by (cases "sc_id x = i") auto
    qed
    have mem: "x \<in> set (schedules d') \<longleftrightarrow> x = f s \<or> (x \<in> set (schedules d) \<and> x \<noteq> s)" for x
      unfolding rows using s(1) by auto
    have ids: "map sc_id (schedules d') = map sc_id (schedules d)"
      unfolding rows by (auto simp: f(1) s(2))
    have "schedules_ok d'"
      unfolding schedules_ok_def
    proof (intro conjI ballI impI)
      show "distinct (map sc_id (schedules d'))" using dist by (simp add: ids)
      have "distinct (map gr_id (filter Q (schedule_grants d)))" using ok unfolding schedules_ok_def
        by (simp add: distinct_map_filter)
      then show "distinct (map gr_id (schedule_grants d'))"
        using g(1) unfolding d'(2) by (simp add: comp_def hk)
    next
      fix x assume x: "x \<in> set (schedules d')" and e: "sc_state x = Enabled"
      show "\<exists>y \<in> set (schedule_grants d'). grant_backs x y"
      proof (cases "x = f s")
        case True
        from b show ?thesis
        proof
          assume "grant_backs (f s) g"
          then show ?thesis using gin True by blast
        next
          assume k: "(sc_state (f s) = Enabled \<longrightarrow> sc_state s = Enabled) \<and>
            (\<forall>y \<in> set (schedule_grants d). grant_backs s y \<longrightarrow> Q y \<and> grant_backs (f s) (h y))"
          then have "sc_state s = Enabled" using e True by simp
          then obtain y where y: "y \<in> set (schedule_grants d)" "grant_backs s y"
            using ok s(1) unfolding schedules_ok_def by blast
          with k have q: "Q y" "grant_backs (f s) (h y)" by simp_all
          then have "h y \<in> set (schedule_grants d')" using y(1) unfolding d'(2) by simp
          then show ?thesis using q(2) True by blast
        qed
      next
        case False
        with x have x': "x \<in> set (schedules d)" "x \<noteq> s" using mem by blast+
        then obtain y where y: "y \<in> set (schedule_grants d)" "grant_backs x y" using ok e unfolding schedules_ok_def by blast
        have "gr_schedule y \<noteq> i" using y(2) x' only by (auto simp: grant_backs_def)
        then show ?thesis using inG y by blast
      qed
    next
      fix y assume "y \<in> set (schedule_grants d')"
      then consider "y = g" | z where "z \<in> set (schedule_grants d)" "y = h z" unfolding d'(2) by auto
      then show "\<exists>x \<in> set (schedules d'). gr_schedule y = sc_id x \<and> gr_epoch y \<le> sc_grant_epoch x"
      proof cases
        case 1
        then show ?thesis using g f mem by (intro bexI [of _ "f s"]) simp_all
      next
        case 2
        then obtain x where x: "x \<in> set (schedules d)" "gr_schedule z = sc_id x" "gr_epoch z \<le> sc_grant_epoch x"
          using ok unfolding schedules_ok_def by blast
        show ?thesis
        proof (cases "x = s")
          case True
          then show ?thesis using x 2 f s mem hk by (intro bexI [of _ "f s"]) simp_all
        next
          case False
          then show ?thesis using x 2 mem hk by (intro bexI [of _ x]) simp_all
        qed
      qed
    next
      fix x assume x: "x \<in> set (schedules d')"
      show "\<exists>y \<in> set (schedule_grants d'). gr_schedule y = sc_id x \<and> gr_epoch y = sc_grant_epoch x"
      proof (cases "x = f s")
        case True
        then show ?thesis using gin g(2,3) f by (intro bexI [of _ g]) simp_all
      next
        case False
        with x have x': "x \<in> set (schedules d)" "x \<noteq> s" using mem by blast+
        then obtain y where "y \<in> set (schedule_grants d)" "gr_schedule y = sc_id x" "gr_epoch y = sc_grant_epoch x"
          using ok unfolding schedules_ok_def by blast
        moreover from this have "gr_schedule y \<noteq> i" using x' only by auto
        ultimately show ?thesis using inG by blast
      qed
    qed
    moreover have "occurrences_ok d'"
    proof -
      have k: "(\<exists>x \<in> set (schedules d'). sc_id x = j) = (\<exists>x \<in> set (schedules d). sc_id x = j)" for j
        using arg_cong [OF ids, of "\<lambda>l. j \<in> set l"] by auto
      show ?thesis
        using occ unfolding occurrences_ok_def history_keys_def receipts_kept_def unresolved_of_def own_history_def
          all_history_def d'(3,4) ids k .
    qed
    moreover have "evolves d d'"
    proof (rule evolves_map [OF rows])
      show "row_lives x (if x = s then f s else x)" for x by (simp add: f(3))
      show "grants_follow d d'"
        unfolding grants_follow_def
      proof
        fix y assume "y \<in> set (schedule_grants d')"
        then consider "y = g" | z where "z \<in> set (schedule_grants d)" "y = h z" unfolding d'(2) by auto
        then show "(\<exists>x \<in> set (schedule_grants d). grant_follows x y) \<or> new_grant_of d y"
        proof cases
          case 1
          then have "new_grant_of d y" using only g(2,3) by (auto simp: new_grant_of_def)
          then show ?thesis ..
        next
          case 2
          then have "grant_follows z y" using h(1) [of z] by (simp add: grant_follows_def)
          then show ?thesis using 2(1) by blast
        qed
      qed
    qed
    ultimately show ?thesis by (simp add: sys_ok_def)
  qed
  then show ?thesis by (simp add: good_def)
qed

text \<open>At most one grant is trimmed: an old one of this schedule, never the active one.\<close>

lemma trim_grants_filter:
  assumes "distinct (map gr_id (schedule_grants d))"
  obtains Q where "trim_grants e s d = d\<lparr>schedule_grants := filter Q (schedule_grants d)\<rparr>"
    "\<forall>y. \<not> Q y \<longrightarrow> gr_schedule y = sc_id s \<and> Some (gr_id y) \<noteq> sc_active_grant s"
proof (cases "sort_key gr_epoch (filter (grant_unreferenced e s d) (schedule_grants d))")
  case Nil
  then show thesis using that [of "\<lambda>_. True"] by (simp add: trim_grants_def)
next
  case (Cons x xs)
  have "x \<in> set (sort_key gr_epoch (filter (grant_unreferenced e s d) (schedule_grants d)))" unfolding Cons by simp
  then have x: "x \<in> set (schedule_grants d)" "gr_schedule x = sc_id s" "Some (gr_id x) \<noteq> sc_active_grant s"
    by (simp_all add: grant_unreferenced_def)
  let ?Q = "\<lambda>y. \<not> (gr_id y = gr_id x \<and> gr_schedule y = sc_id s)"
  have "delete_where (\<lambda>y. gr_id y = gr_id x) (schedule_grants d) = filter ?Q (schedule_grants d)"
    unfolding delete_where_def
    by (rule filter_cong [OF refl]) (use distinct_keyD [OF assms _ x(1)] x(2) in auto)
  then show thesis using that [of ?Q] x(3) Cons by (simp add: trim_grants_def)
qed

lemma insert_grant_Inr:
  assumes "insert_grant g d = Inr d'"
  shows "d' = d\<lparr>schedule_grants := schedule_grants d @ [g]\<rparr>" "gr_id g \<notin> gr_id ` set (schedule_grants d)"
  using assms by (auto simp: insert_grant_def split: if_split_asm)

lemma new_grant_simps [simp]:
  "gr_id (new_grant e gid sid n ep tok days one d) = gid" "gr_schedule (new_grant e gid sid n ep tok days one d) = sid"
  "gr_config_revision (new_grant e gid sid n ep tok days one d) = n" "gr_epoch (new_grant e gid sid n ep tok days one d) = ep"
  "gr_revoked (new_grant e gid sid n ep tok days one d) \<longleftrightarrow> False" "gr_one_shot (new_grant e gid sid n ep tok days one d) = one"
  by (simp_all add: new_grant_def)

lemma activated_simps [simp]:
  "sc_id (activated e ep g t s) = sc_id s" "sc_project (activated e ep g t s) = sc_project s"
  "sc_grant_epoch (activated e ep g t s) = ep" "sc_active_grant (activated e ep g t s) = Some g"
  "sc_state (activated e ep g t s) = Enabled" "sc_config_revision (activated e ep g t s) = sc_config_revision s"
  by (simp_all add: activated_def)

text \<open>What an activation writes: the table of grants and the schedule's own row.\<close>

definition one_shot_revoke :: "bool \<Rightarrow> uuid \<Rightarrow> grant_row \<Rightarrow> grant_row" where
  "one_shot_revoke one i y = (if \<not> one \<and> gr_schedule y = i \<and> \<not> gr_one_shot y then y\<lparr>gr_revoked := True\<rparr> else y)"

lemma one_shot_revoke_keys:
  "gr_id (one_shot_revoke one i y) = gr_id y \<and> gr_schedule (one_shot_revoke one i y) = gr_schedule y \<and>
     gr_epoch (one_shot_revoke one i y) = gr_epoch y \<and> (gr_revoked y \<longrightarrow> gr_revoked (one_shot_revoke one i y))"
  "gr_schedule y \<noteq> i \<Longrightarrow> one_shot_revoke one i y = y"
  "one_shot_revoke True i y = y"
  by (simp_all add: one_shot_revoke_def)

definition bumped :: "env \<Rightarrow> bool \<Rightarrow> nat \<Rightarrow> uuid \<Rightarrow> minute list \<Rightarrow> schedule_row \<Rightarrow> schedule_row" where
  "bumped e one epoch gid preview s =
     (if one then s\<lparr>sc_grant_epoch := epoch\<rparr> else activated e epoch gid (mn_instant (hd preview)) s)"

lemma activation_commit_Inr:
  assumes "activation_commit e s a days one gid preview d = Inr (r, d')"
  obtains g where "gr_id g = gid" "gr_schedule g = sc_id s" "gr_config_revision g = sc_config_revision s"
    "gr_epoch g = sc_grant_epoch s + 1" "\<not> gr_revoked g" "gr_one_shot g = one" "r = (gid, sc_grant_epoch s + 1, preview)"
    "gid \<notin> gr_id ` set (schedule_grants d)"
    "d' = d\<lparr>schedule_grants := map (one_shot_revoke one (sc_id s)) (schedule_grants d) @ [g],
       schedules := update_where (\<lambda>x. sc_id x = sc_id s) (bumped e one (sc_grant_epoch s + 1) gid preview) (schedules d)\<rparr>"
proof -
  let ?d1 = "if one then d else revoke_grants (\<lambda>g. gr_schedule g = sc_id s \<and> \<not> gr_one_shot g) d"
  let ?g = "new_grant e gid (sc_id s) (sc_config_revision s) (sc_grant_epoch s + 1) (au_token a) days one ?d1"
  have G: "schedule_grants ?d1 = map (one_shot_revoke one (sc_id s)) (schedule_grants d)"
    by (cases one) (simp_all add: one_shot_revoke_def [abs_def])
  have D: "?d1 = d\<lparr>schedule_grants := map (one_shot_revoke one (sc_id s)) (schedule_grants d)\<rparr>"
    by (cases one) (simp_all add: one_shot_revoke_def [abs_def] revoke_grants_def update_where_def)
  from assms obtain d2 where i: "insert_grant ?g ?d1 = Inr d2"
    and k: "(if one then Inr ((gid, sc_grant_epoch s + 1, preview), update_schedule (sc_id s) (\<lambda>x. x\<lparr>sc_grant_epoch := sc_grant_epoch s + 1\<rparr>) d2)
         else (case preview of [] \<Rightarrow> Inl (Crash ''TypeError'')
           | m # _ \<Rightarrow> Inr ((gid, sc_grant_epoch s + 1, preview), update_schedule (sc_id s) (activated e (sc_grant_epoch s + 1) gid (mn_instant m)) d2))) = Inr (r, d')"
    unfolding activation_commit_def Let_def andThen_eq_Inr by blast
  have d': "d' = update_schedule (sc_id s) (bumped e one (sc_grant_epoch s + 1) gid preview) d2" and r: "r = (gid, sc_grant_epoch s + 1, preview)"
    using k by (auto simp: bumped_def [abs_def] split: if_split_asm list.split_asm)
  have d2: "d2 = d\<lparr>schedule_grants := map (one_shot_revoke one (sc_id s)) (schedule_grants d) @ [?g]\<rparr>"
    using insert_grant_Inr(1) [OF i] D by simp
  have "gid \<notin> gr_id ` set (schedule_grants ?d1)" using insert_grant_Inr(2) [OF i] by simp
  moreover have "gr_id ` set (schedule_grants ?d1) = gr_id ` set (schedule_grants d)"
    unfolding G by (simp add: image_image one_shot_revoke_keys)
  ultimately have "gid \<notin> gr_id ` set (schedule_grants d)" by simp
  then show thesis
    by (intro that [of ?g]) (simp_all add: r d' d2 update_schedule_def)
qed

lemma goodI: "(sys_ok d \<Longrightarrow> good d d') \<Longrightarrow> good d d'"
  by (auto simp: good_def)

lemma currentE:
  assumes "current s d"
  obtains x :: schedule_row where "x \<in> set (schedules d)" "sc_id x = sc_id s" "sc_config_revision x = sc_config_revision s"
    "sc_grant_epoch x = sc_grant_epoch s" "sc_active_grant x = sc_active_grant s" "sc_state x = sc_state s" "sc_project x = sc_project s"
  using assms by (auto simp: current_def same_grant_def)

lemma life_bump: "row_lives s (s\<lparr>sc_grant_epoch := Suc (sc_grant_epoch s)\<rparr>)"
  unfolding row_lives_def by (simp add: life_of_def r_into_rtranclp life.run_once)

lemma life_activate: "sc_grant_epoch s = n \<Longrightarrow> row_lives s (activated e (Suc n) gid t s)"
  unfolding row_lives_def by (auto simp: life_of_def intro!: r_into_rtranclp life.activate)

lemma good_trim_commit:
  assumes "current s d" "activation_commit e s a days one gid preview (trim_grants e s d) = Inr (r, d')"
  shows "good d d'"
proof (rule goodI)
  assume "sys_ok d"
  then have dist: "distinct (map gr_id (schedule_grants d))" by (simp add: sys_ok_def schedules_ok_def)
  show "good d d'"
  proof (rule trim_grants_filter [OF dist])
    fix Q
    assume t: "trim_grants e s d = d\<lparr>schedule_grants := filter Q (schedule_grants d)\<rparr>"
      and Q: "\<forall>y. \<not> Q y \<longrightarrow> gr_schedule y = sc_id s \<and> Some (gr_id y) \<noteq> sc_active_grant s"
    note A = assms(2) [unfolded t]
    let ?h = "one_shot_revoke one (sc_id s)" and ?f = "bumped e one (sc_grant_epoch s + 1) gid preview"
    from A show "good d d'"
    proof (rule activation_commit_Inr)
      fix g
      assume g: "gr_id g = gid" "gr_schedule g = sc_id s" "gr_config_revision g = sc_config_revision s"
          "gr_epoch g = sc_grant_epoch s + 1" "\<not> gr_revoked g" "gr_one_shot g = one"
        and new: "gid \<notin> gr_id ` set (schedule_grants (d\<lparr>schedule_grants := filter Q (schedule_grants d)\<rparr>))"
        and d': "d' = d\<lparr>schedule_grants := filter Q (schedule_grants d), schedule_grants := map ?h
            (schedule_grants (d\<lparr>schedule_grants := filter Q (schedule_grants d)\<rparr>)) @ [g],
          schedules := update_where (\<lambda>x. sc_id x = sc_id s) ?f
            (schedules (d\<lparr>schedule_grants := filter Q (schedule_grants d)\<rparr>))\<rparr>"
      from assms(1) show "good d d'"
      proof (rule currentE)
        fix x :: schedule_row
        assume x: "x \<in> set (schedules d)" "sc_id x = sc_id s" "sc_config_revision x = sc_config_revision s"
          "sc_grant_epoch x = sc_grant_epoch s" "sc_active_grant x = sc_active_grant s" "sc_state x = sc_state s"
        have b: "grant_backs (?f x) g \<or> (sc_state (?f x) = Enabled \<longrightarrow> sc_state x = Enabled) \<and>
          (\<forall>y \<in> set (schedule_grants d). grant_backs x y \<longrightarrow> Q y \<and> grant_backs (?f x) (?h y))"
        proof (cases one)
          case True
          have "grant_backs (?f x) (?h y)" if "grant_backs x y" for y
            using that True by (simp add: grant_backs_def bumped_def one_shot_revoke_keys(3))
          moreover have "Q y" if "grant_backs x y" for y using that Q x(5) by (auto simp: grant_backs_def)
          moreover have "sc_state (?f x) = sc_state x" using True by (simp add: bumped_def)
          ultimately show ?thesis by simp
        next
          case False
          then have "grant_backs (?f x) g" using g x by (simp add: grant_backs_def bumped_def)
          then show ?thesis ..
        qed
        show "good d d'"
        proof (rule good_activate [OF x(1,2), where f = ?f and h = ?h and Q = Q and g = g])
          show "row_lives x (?f x)" using life_bump [of x] life_activate [OF refl, of x] x(4) by (simp add: bumped_def)
          show "gr_schedule y \<noteq> sc_id s \<Longrightarrow> ?h y = y \<and> Q y" for y using Q one_shot_revoke_keys(2) by blast
          show "gr_id (?h y) = gr_id y \<and> gr_schedule (?h y) = gr_schedule y \<and> gr_epoch (?h y) = gr_epoch y \<and>
              (gr_revoked y \<longrightarrow> gr_revoked (?h y))" for y
            by (rule one_shot_revoke_keys(1))
        qed (use new g x b in \<open>simp_all add: d' bumped_def\<close>)
      qed
    qed
  qed
qed

lemma current_ws_only: "ws_only d d' \<Longrightarrow> current s d \<Longrightarrow> current s d'"
  by (simp add: current_def ws_onlyD)

lemma activation_checks_Inr:
  assumes "activation_checks e s actor n days d = Inr (a, c, d1)"
  shows "ws_only d d1" "n = sc_config_revision s" "\<not> meta_emergency d" "1 \<le> days" "days \<le> 90" "au_kind a \<noteq> ScheduleAuthority"
proof -
  note k = assms [unfolded activation_checks_def res_simps]
  from k obtain cfg sel where t: "scheduleTarget e (sc_project s) cfg d = Inr (sel, d1)" "au_kind a \<noteq> ScheduleAuthority"
    by (elim exE conjE) (auto split: prod.splits)
  from t(1) show "ws_only d d1" by (rule scheduleTarget_ws_only)
  show "au_kind a \<noteq> ScheduleAuthority" by (fact t(2))
  show "n = sc_config_revision s" using k by (elim exE conjE) (rule sym)
  show "\<not> meta_emergency d" using k by (elim exE conjE)
  have "\<not> (days < 1 \<or> days > 90)" using k by (elim exE conjE)
  then show "1 \<le> days" "days \<le> 90" by simp_all
qed

lemma activateSchedule_Inr:
  assumes "activateSchedule e s actor n days one gid d = Inr (r, d')"
  obtains a c d1 preview where "activation_checks e s actor n days d = Inr (a, c, d1)"
    "activation_commit e s a days one gid preview (trim_grants e s d1) = Inr (r, d')"
    "one \<or> nextMinutes (calendar_of e) (cf_rule c) (scheduler_now e) 8 = Inr preview"
proof -
  from assms obtain z where "activation_checks e s actor n days d = Inr z"
    by (auto simp: activateSchedule_def andThen_eq_Inr)
  moreover obtain a c d1 where "z = (a, c, d1)" by (cases z)
  ultimately have k: "activation_checks e s actor n days d = Inr (a, c, d1)" by simp
  from assms [unfolded activateSchedule_def k andThen_Inr prod.case Let_def] obtain preview where
    "activation_commit e s a days one gid preview (trim_grants e s d1) = Inr (r, d')"
    "one \<or> nextMinutes (calendar_of e) (cf_rule c) (scheduler_now e) 8 = Inr preview"
    by (auto simp: res_simps split: if_split_asm)
  with that k show thesis by blast
qed

lemma good_activateSchedule:
  assumes "activateSchedule e s actor n days one gid d = Inr (r, d')" "current s d"
  shows "good d d'"
  using assms(1)
proof (rule activateSchedule_Inr)
  fix a c d1 preview
  assume k: "activation_checks e s actor n days d = Inr (a, c, d1)"
    and c: "activation_commit e s a days one gid preview (trim_grants e s d1) = Inr (r, d')"
  note w = activation_checks_Inr(1) [OF k]
  show "good d d'" by (rule good_trans [OF good_ws_only [OF w] good_trim_commit [OF current_ws_only [OF w assms(2)] c]])
qed

section \<open>Creating a schedule, running it now\<close>

lemma good_new_schedule:
  assumes new: "sc_id s \<notin> sc_id ` set (schedules d)" "gr_id g \<notin> gr_id ` set (schedule_grants d)"
    and g: "grant_backs s g" "gr_epoch g = sc_grant_epoch s"
  shows "good d (d\<lparr>schedules := schedules d @ [s], schedule_versions := vs, schedule_grants := schedule_grants d @ [g]\<rparr>)"
    (is "good d ?d'")
proof -
  have gs: "gr_schedule g = sc_id s" using g(1) by (simp add: grant_backs_def)
  have "schedules_ok ?d'" if ok: "schedules_ok d"
    unfolding schedules_ok_def
  proof (intro conjI ballI impI)
    show "distinct (map sc_id (schedules ?d'))" "distinct (map gr_id (schedule_grants ?d'))"
      using ok new by (simp_all add: schedules_ok_def)
  next
    fix x assume x: "x \<in> set (schedules ?d')" "sc_state x = Enabled"
    show "\<exists>y \<in> set (schedule_grants ?d'). grant_backs x y"
    proof (cases "x = s")
      case False
      then show ?thesis using x ok unfolding schedules_ok_def by auto
    qed (use g in auto)
  next
    fix y assume "y \<in> set (schedule_grants ?d')"
    then consider "y = g" | "y \<in> set (schedule_grants d)" by auto
    then show "\<exists>x \<in> set (schedules ?d'). gr_schedule y = sc_id x \<and> gr_epoch y \<le> sc_grant_epoch x"
    proof cases
      case 1 then show ?thesis using gs g(2) by (intro bexI [of _ s]) simp_all
    next
      case 2 then show ?thesis using ok unfolding schedules_ok_def by auto
    qed
  next
    fix x assume "x \<in> set (schedules ?d')"
    then consider "x = s" | "x \<in> set (schedules d)" by auto
    then show "\<exists>y \<in> set (schedule_grants ?d'). gr_schedule y = sc_id x \<and> gr_epoch y = sc_grant_epoch x"
    proof cases
      case 1 then show ?thesis using gs g(2) by (intro bexI [of _ g]) simp_all
    next
      case 2 then show ?thesis using ok unfolding schedules_ok_def by auto
    qed
  qed
  moreover have "occurrences_ok d \<Longrightarrow> occurrences_ok ?d'"
    using new(1) by (auto simp: occurrences_ok_def history_keys_def receipts_kept_def unresolved_of_def own_history_def all_history_def)
  moreover have "evolves d ?d'"
    unfolding evolves_def rows_evolve_def
  proof (intro conjI exI)
    show "schedules ?d' = schedules d @ [s]" "list_all2 row_lives (schedules d) (schedules d)" by (simp_all add: list.rel_refl)
    have "new_grant_of d g" unfolding new_grant_of_def gs using new(1) by (metis image_eqI)
    then show "grants_follow d ?d'" using grant_follows_refl unfolding grants_follow_def by fastforce
  qed
  ultimately show ?thesis by (simp add: good_def sys_ok_def)
qed

lemma createActivatedSchedule_Inr:
  assumes "createActivatedSchedule e actor input sid gid d = Inr (r, d')"
  obtains b :: schedule_input and a :: authority and d1 and m :: minute and vs where "ws_only d d1" "sid \<notin> sc_id ` set (schedules d1)" "gid \<notin> gr_id ` set (schedule_grants d1)"
    "d' = d1\<lparr>schedules := schedules d1 @ [new_schedule e sid gid b m], schedule_versions := vs,
       schedule_grants := schedule_grants d1 @ [new_grant e gid sid 1 1 (au_token a) (si_days b) False d1]\<rparr>"
proof -
  from assms obtain b where b: "parse_schedule e input = Inr b" by (auto simp: createActivatedSchedule_def andThen_eq_Inr)
  note k1 = assms [unfolded createActivatedSchedule_def b andThen_Inr]
  then obtain a where a: "create_checks e actor b d = Inr a" by (auto simp: andThen_eq_Inr)
  note k2 = k1 [unfolded a andThen_Inr]
  then obtain z where "scheduleTarget e (si_project b) (si_config b) d = Inr z" by (auto simp: andThen_eq_Inr)
  moreover obtain sel d1 where "z = (sel, d1)" by (cases z)
  ultimately have t: "scheduleTarget e (si_project b) (si_config b) d = Inr (sel, d1)" by simp
  note k3 = k2 [unfolded t andThen_Inr prod.case]
  then obtain pv where p: "nextMinutes (calendar_of e) (cf_rule (si_config b)) (scheduler_now e) 8 = Inr pv" by (auto simp: andThen_eq_Inr)
  note k4 = k3 [unfolded p andThen_Inr]
  then obtain m ms where m: "pv = m # ms" by (cases pv) simp_all
  note k5 = k4 [unfolded m list.case Let_def res_simps]
  show thesis
    by (rule that [of d1 a b _ m]) (use k5 scheduleTarget_ws_only [OF t] in \<open>auto\<close>)
qed

lemma good_create:
  assumes "createActivatedSchedule e actor input sid gid d = Inr (r, d')"
  shows "good d d'"
  using assms
proof (rule createActivatedSchedule_Inr)
  fix b :: schedule_input and a :: authority and d1 and m :: minute and vs
  assume w: "ws_only d d1" and new: "sid \<notin> sc_id ` set (schedules d1)" "gid \<notin> gr_id ` set (schedule_grants d1)"
    and d': "d' = d1\<lparr>schedules := schedules d1 @ [new_schedule e sid gid b m], schedule_versions := vs,
       schedule_grants := schedule_grants d1 @ [new_grant e gid sid 1 1 (au_token a) (si_days b) False d1]\<rparr>"
  have "good d1 d'" unfolding d'
    by (rule good_new_schedule) (use new in \<open>simp_all add: new_schedule_def grant_backs_def\<close>)
  then show ?thesis by (rule good_trans [OF good_ws_only [OF w]])
qed

lemma good_insertOccurrence:
  assumes "insertOccurrence e s c p k t m ids d = Inr (i, d')"
    and "own_history (sc_id s) d < 256" "all_history d < 8192" "sc_id s \<in> sc_id ` set (schedules d)"
  shows "good d d'"
  using assms(1)
proof (rule insertOccurrence_Inr)
  fix d1 src place and g :: grant_row
  let ?r = "new_occurrence e ids s c p k t m src place"
  assume w: "ws_only d d1" and d': "d' = inserted d ?r (gr_epoch g) d1"
    and i: "insert_occurrence ?r d1 = Inr (d1\<lparr>schedule_occurrences := schedule_occurrences d @ [?r]\<rparr>)"
  show ?thesis
    by (rule good_add_occurrence [OF i ws_onlyD(4) [OF w]]) (use assms(2-4) ws_onlyD [OF w] in \<open>simp_all add: d'\<close>)
qed

lemma map_eq_mem: "map k xs = map k ys \<Longrightarrow> x \<in> set xs \<Longrightarrow> \<exists>y \<in> set ys. k y = k x"
proof -
  assume m: "map k xs = map k ys" and x: "x \<in> set xs"
  have "k x \<in> k ` set ys" using arg_cong [OF m, of set] x by (metis image_eqI set_map)
  then show ?thesis by auto
qed

lemma current_prune_frame:
  assumes "prune_frame d' = prune_frame d" "current s d"
  shows "current s d'"
  using assms(2)
proof (rule currentE)
  fix x :: schedule_row
  let ?k = "\<lambda>s. s\<lparr>sc_last_pruned := None\<rparr>"
  assume x: "x \<in> set (schedules d)" and a: "sc_id x = sc_id s" "sc_config_revision x = sc_config_revision s"
    "sc_grant_epoch x = sc_grant_epoch s" "sc_active_grant x = sc_active_grant s" "sc_state x = sc_state s" "sc_project x = sc_project s"
  obtain y where y: "y \<in> set (schedules d')" "?k y = ?k x"
    using map_eq_mem [OF prune_frameD(6) [OF assms(1), symmetric] x] by blast
  have "same_grant s y"
    using a arg_cong [OF y(2), of sc_id] arg_cong [OF y(2), of sc_config_revision] arg_cong [OF y(2), of sc_grant_epoch]
      arg_cong [OF y(2), of sc_active_grant] arg_cong [OF y(2), of sc_state] arg_cong [OF y(2), of sc_project]
    by (simp add: same_grant_def)
  then show ?thesis using y(1) unfolding current_def by blast
qed

lemma prune_frame_ids: "prune_frame d' = prune_frame d \<Longrightarrow> map sc_id (schedules d') = map sc_id (schedules d)"
  using arg_cong [OF prune_frameD(6), of d' d "map sc_id"] by (simp add: comp_def)

lemma current_id: "current s d \<Longrightarrow> sc_id s \<in> sc_id ` set (schedules d)"
  by (erule currentE) (metis image_eqI)

lemma activateSchedule_rows:
  assumes "activateSchedule e s actor n days one gid d = Inr (r, d')"
  shows "schedule_occurrences d' = schedule_occurrences d" "map sc_id (schedules d') = map sc_id (schedules d)"
  using assms
proof (atomize (full), rule activateSchedule_Inr)
  fix a c d1 preview
  assume k: "activation_checks e s actor n days d = Inr (a, c, d1)"
    and c: "activation_commit e s a days one gid preview (trim_grants e s d1) = Inr (r, d')"
  have t: "schedule_occurrences (trim_grants e s d1) = schedule_occurrences d" "schedules (trim_grants e s d1) = schedules d"
    using ws_onlyD [OF activation_checks_Inr(1) [OF k]] by (simp_all add: trim_grants_def split: list.split)
  from c show "schedule_occurrences d' = schedule_occurrences d \<and> map sc_id (schedules d') = map sc_id (schedules d)"
    by (rule activation_commit_Inr) (auto simp: t bumped_def intro!: map_update_where_key)
qed

lemma capacity_room:
  assumes "occurrenceCapacity e sid d = Inr d1"
  shows "own_history sid d1 < 256" "all_history d1 < 8192"
  using capacity_rounds_room [OF assms [unfolded occurrenceCapacity_def]] by simp_all

lemma good_runNow:
  assumes "runScheduleNow e s actor n gid ids d = Inr (r, d')" "current s d"
  shows "good d d'"
proof -
  from assms(1) obtain d1 g d2 and v :: version_row and i where c: "occurrenceCapacity e (sc_id s) d = Inr d1"
    and a: "activateSchedule e s actor n 1 True gid d1 = Inr (g, d2)"
    and i: "insertOccurrence e (s\<lparr>sc_active_grant := Some gid\<rparr>) (sv_config v) (sv_prompt v) Manual (scheduler_now e) None ids d2 = Inr (i, d')"
    unfolding runScheduleNow_def andThen_eq_Inr split_paired_Ex prod.case sum.inject prod.inject by blast
  have cur: "current s d1" using current_prune_frame [OF occurrenceCapacity_frame [OF c] assms(2)] .
  note rows = activateSchedule_rows [OF a]
  have "good d2 d'"
  proof (rule good_insertOccurrence [OF i])
    show "own_history (sc_id (s\<lparr>sc_active_grant := Some gid\<rparr>)) d2 < 256" "all_history d2 < 8192"
      using capacity_room [OF c] rows(1) by (simp_all add: own_history_def all_history_def)
    show "sc_id (s\<lparr>sc_active_grant := Some gid\<rparr>) \<in> sc_id ` set (schedules d2)"
      using current_id [OF cur] arg_cong [OF rows(2), of set] by simp
  qed
  then show ?thesis by (rule good_trans [OF good_trans [OF good_capacity [OF c] good_activateSchedule [OF a cur]]])
qed

end
