(* ===== verification/Schedule_Walk.thy ===== *)
theory Schedule_Walk
  imports Schedule_Lifecycle
begin

text \<open>
  How every request on schedules is put together from a few kinds of statements. \<open>schedule_walk\<close>
  is the interface: a relation between databases that composes and that holds across each of these
  statements holds across the planner, the worker and the owner's commands, and so across
  \<open>system_op\<close>, their one entry. \<open>Schedule_System\<close> interprets it on the consistency of the
  tables, \<open>Schedule_History\<close> on what a later request still finds: receipts, minutes and
  cursors.
\<close>

section \<open>Statements that leave the schedule tables alone\<close>

lemma session_frame_tables: "session_frame d' = session_frame d \<Longrightarrow> sched_tables d' = sched_tables d"
proof -
  assume f: "session_frame d' = session_frame d"
  have t: "sched_tables (session_frame x) = sched_tables x" for x by (simp add: session_frame_def sched_tables_def)
  show ?thesis using arg_cong [OF f, of sched_tables] by (simp only: t)
qed

lemma accept_tables:
  assumes "acceptConversationTurn e sess input actor opid msgid auth d = Inr (row, d')"
  shows "sched_tables d' = sched_tables d"
  using assms
proof (rule acceptConversationTurn_Inr)
  fix b :: turn_input and as :: "attachment_row list" and ds :: "draft_row list"
  assume "session_frame d' = session_frame (d\<lparr>operations := operations d @ [row], attachments := as, conversation_drafts := ds,
       messages := messages d @ [accepted_message msgid sess opid b]\<rparr>)"
  note f = session_frame_tables [OF this]
  show ?thesis unfolding f by (simp add: sched_tables_def)
qed

lemma request_cancel_tables:
  assumes "requestTurnCancellation e turn actor fresh auth d = Inr (r, d')"
  shows "sched_tables d' = sched_tables d"
proof -
  from assms obtain t where t: "find (\<lambda>x. op_id x = turn) (operations d) = Some t" by (rule requestTurnCancellation_Inr)
  from assms t show ?thesis
    by (cases rule: requestTurnCancellation_cases) (auto simp: sched_tables_def dest!: event_frame)
qed

lemma create_workspace_tables:
  assumes "createWorkspace e p input actor i opid auth d = Inr (v, d')"
  shows "sched_tables d' = sched_tables d"
  using assms
proof (rule createWorkspace_Inr)
  fix b sel ix w d1 cmd
  assume "inspectWorkspace e sel d = Inr (ix, w, d1)"
    and d': "d' = d1\<lparr>workspaces := workspaces d1 @ [new_workspace i p (ci_name b) (kind_of_create (ci_kind b)) (ws_id (fst sel))],
       storage_operations := storage_operations d1 @ [\<lparr> so_id = opid, so_workspace = i, so_project = p,
            so_action = StorageCreate, so_command = cmd, so_actor = actor,
            so_state = StQueued, so_result = None, so_failure_code = None,
            so_created_at = now e, so_updated_at = now e \<rparr>]\<rparr>"
  then show ?thesis using ws_only_tables [OF inspectWorkspace_ws_only] by (simp add: sched_tables_def)
qed

lemma open_session_tables: "open_session e s r c d = Inr d' \<Longrightarrow> sched_tables d' = sched_tables d"
  by (auto simp: open_session_def sched_tables_def split: if_split_asm)

lemma cancel_preparation_tables: "cancel_preparation e r d = Inr d' \<Longrightarrow> sched_tables d' = sched_tables d"
  unfolding cancel_preparation_def
  by (auto simp: sched_tables_def split: if_split_asm dest!: update_workspaces_frame)

lemma schedule_find_current:
  assumes "schedule_find i d = Some s" "schedules d' = schedules d"
  shows "current s d'"
  using schedule_rows_find(1) [OF assms(1)] assms(2) by (auto simp: current_def same_grant_def)

section \<open>Statements about one schedule or one occurrence\<close>

text \<open>The columns by which an occurrence is found again.\<close>

definition occ_identity :: "occurrence_row \<Rightarrow> uuid \<times> uuid \<times> occ_kind \<times> nat \<times> string option" where
  "occ_identity r = (oc_id r, oc_schedule r, oc_kind r, oc_rule_revision r, oc_local_minute r)"

lemma identity_keys: "occ_identity a = occ_identity b \<Longrightarrow> oc_id a = oc_id b \<and> oc_schedule a = oc_schedule b"
  by (simp add: occ_identity_def)

lemma rewrite_identity [simp]:
  "occ_identity (mirror e t r) = occ_identity r" "occ_identity (enter_state e st r) = occ_identity r"
  "occ_identity (end_occurrence e st w r) = occ_identity r" "occ_identity (r\<lparr>oc_cancel_operation := c\<rparr>) = occ_identity r"
  by (simp_all add: occ_identity_def mirror_def enter_state_def end_occurrence_def Let_def)

text \<open>The minutes of a frozen batch are in order, and none lies before the cursor.\<close>

definition batch_ordered :: "schedule_row \<Rightarrow> bool" where
  "batch_ordered s \<longleftrightarrow> (case sc_catch_up s of None \<Rightarrow> True
     | Some b \<Rightarrow> sorted (sc_cursor_at s # map mn_instant (bt_minutes b)))"

definition advances :: "schedule_row \<Rightarrow> schedule_row \<Rightarrow> bool" where
  "advances s s' \<longleftrightarrow> sc_id s' = sc_id s \<and> sc_cursor_at s \<le> sc_cursor_at s' \<and> (batch_ordered s \<longrightarrow> batch_ordered s')"

lemma advances_kept:
  "sc_id s' = sc_id s \<Longrightarrow> sc_cursor_at s' = sc_cursor_at s \<Longrightarrow> sc_catch_up s' = sc_catch_up s \<Longrightarrow> advances s s'"
  unfolding advances_def batch_ordered_def by (simp only: order_refl simp_thms)

lemma advances_cleared:
  "sc_id s' = sc_id s \<Longrightarrow> sc_cursor_at s \<le> sc_cursor_at s' \<Longrightarrow> sc_catch_up s' = None \<Longrightarrow> advances s s'"
  by (simp add: advances_def batch_ordered_def)

lemma row_steps:
  "sc_state s = Enabled \<Longrightarrow> quiet s (attention w s) \<and> advances s (attention w s)"
  "sc_state s = Enabled \<Longrightarrow> quiet s (attention_at e w s) \<and> advances s (attention_at e w s)"
  "sc_state s = Enabled \<Longrightarrow> quiet s (s\<lparr>sc_state := Completed, sc_reason := None, sc_updated_at := t\<rparr>) \<and>
     advances s (s\<lparr>sc_state := Completed, sc_reason := None, sc_updated_at := t\<rparr>)"
  "quiet s (s\<lparr>sc_last_planned_at := p\<rparr>) \<and> advances s (s\<lparr>sc_last_planned_at := p\<rparr>)"
  by (simp_all add: quiet_def attention_def attention_at_def advances_kept)

section \<open>The requests\<close>

text \<open>
  A request with the surroundings it meets: creation, a management command, the emergency stop, a
  pass of the worker. The database a worker's pass leaves is that of its committed transactions,
  whether or not it ends in an error.
\<close>

datatype system_request =
    CreateRequest env string schedule_input uuid uuid
  | ManageRequest env "json \<Rightarrow> nat" "time \<Rightarrow> string" "uuid \<times> op_state \<Rightarrow> json" string uuid "string option" string management uuid
  | EmergencyRequest env
  | WorkerPass env "bool \<Rightarrow> db \<Rightarrow> unit res" "uuid \<Rightarrow> occ_ids" "uuid \<Rightarrow> uuid" time

fun system_op :: "system_request \<Rightarrow> db \<Rightarrow> db res" where
  "system_op (CreateRequest e actor input sid gid) d =
     andThen (createActivatedSchedule e actor input sid gid d) (\<lambda>(_, d'). Inr d')"
| "system_op (ManageRequest e bytes st ot actor sid key text m fresh) d =
     andThen (mutate e bytes st ot actor sid key text m fresh d) (\<lambda>(_, d'). Inr d')"
| "system_op (EmergencyRequest e) d = Inr (emergencyPauseSchedules e d)"
| "system_op (WorkerPass e fence fresh msg at) d = Inr (snd (processSchedules e fence fresh msg at d))"

fun request_env :: "system_request \<Rightarrow> env" where
  "request_env (CreateRequest e _ _ _ _) = e"
| "request_env (ManageRequest e _ _ _ _ _ _ _ _ _) = e"
| "request_env (EmergencyRequest e) = e"
| "request_env (WorkerPass e _ _ _ _) = e"

section \<open>The interface\<close>

text \<open>
  \<open>timely\<close> says of which surroundings the relation speaks: a statement that removes rows by their
  age is a step of it only at those times. The planner's four transactions and the owner's four
  operations are laws of their own, since what they write depends on more than the row.
\<close>

locale schedule_walk =
  fixes rel :: "db \<Rightarrow> db \<Rightarrow> bool" and timely :: "env \<Rightarrow> bool"
  assumes rel_trans: "rel d d' \<Longrightarrow> rel d' d'' \<Longrightarrow> rel d d''"
    and rel_tables: "sched_tables d' = sched_tables d \<Longrightarrow> rel d d'"
    and rel_row: "(\<And>s. P s \<Longrightarrow> quiet s (f s) \<and> advances s (f s)) \<Longrightarrow> rel d (d\<lparr>schedules := update_where P f (schedules d)\<rparr>)"
    and rel_save: "new_batch e h c = Inr b \<Longrightarrow> save_tx e fence h b d = Inr (saved, d') \<Longrightarrow> rel d d'"
    and rel_admit: "timely e \<Longrightarrow> bt_minutes b = m # ms \<Longrightarrow> admit_tx e fence h b m ids d = Inr (u, d') \<Longrightarrow> rel d d'"
    and rel_skip: "timely e \<Longrightarrow> bt_minutes b = m # ms \<Longrightarrow> skip_tx e fence sid b m ids d = Inr (u, d') \<Longrightarrow> rel d d'"
    and rel_finish: "timely e \<Longrightarrow> finish_tx e fence sid b ids d = Inr (u, d') \<Longrightarrow> rel d d'"
    and rel_rewrite: "update_occurrence i g d = Inr d' \<Longrightarrow> (\<And>r. occ_identity (g r) = occ_identity r) \<Longrightarrow> rel d d'"
    and rel_relabel: "(\<And>r. occ_identity (g r) = occ_identity r \<and> occ_unresolved (g r) = occ_unresolved r) \<Longrightarrow>
      rel d (d\<lparr>schedule_occurrences := update_where Q g (schedule_occurrences d)\<rparr>)"
    and rel_prune: "timely e \<Longrightarrow> pruneScheduleHistory e d = Inr d' \<Longrightarrow> rel d d'"
    and rel_expire: "timely e \<Longrightarrow> rel d (remove_commands (expired_commands e sid d) d)"
    and rel_receipt: "insert_command k d = Inr d' \<Longrightarrow> rel d d'"
    and rel_pause: "pauseSchedule e s n d = Inr (answer, d') \<Longrightarrow> rel d d'"
    and rel_edit: "editSchedule e s n input actor d = Inr (answer, d') \<Longrightarrow> rel d d'"
    and rel_activate: "current s d \<Longrightarrow> activateSchedule e s actor n days one gid d = Inr (issued, d') \<Longrightarrow> rel d d'"
    and rel_run: "timely e \<Longrightarrow> current s d \<Longrightarrow> runScheduleNow e s actor n gid ids d = Inr (started, d') \<Longrightarrow> rel d d'"
    and rel_create: "createActivatedSchedule e actor input sid gid d = Inr (made, d') \<Longrightarrow> rel d d'"
    and rel_emergency: "rel d (emergencyPauseSchedules e d)"
begin

lemma rel_refl [simp]: "rel d d"
  by (rule rel_tables) simp

lemma rel_transaction:
  assumes "\<And>r d'. f d = Inr (r, d') \<Longrightarrow> rel d d'"
  shows "rel d (snd (transaction f d))"
  using assms rel_refl by (auto simp: transaction_def split: sum.split)

text \<open>The planner.\<close>

lemma rel_attention_tx:
  assumes "attention_tx fence h f d = Inr (u, d')" "\<And>s. sc_state s = Enabled \<Longrightarrow> quiet s (f s) \<and> advances s (f s)"
  shows "rel d d'"
proof -
  from assms(1) have d': "d' = mark_attention h f d" by (auto simp: attention_tx_def res_simps Let_def)
  show ?thesis unfolding d' mark_attention_def by (rule rel_row) (use assms(2) in blast)
qed

lemma rel_attend:
  "(\<And>s. sc_state s = Enabled \<Longrightarrow> quiet s (f s) \<and> advances s (f s)) \<Longrightarrow> rel d (attend sid f d)"
  unfolding attend_def by (rule rel_row) blast

lemma rel_plan_batch:
  assumes "timely e"
  shows "rel d (snd (plan_batch e fence h b ids d))"
proof (cases "bt_minutes b")
  case Nil
  then show ?thesis using rel_transaction [of "finish_tx e fence (sc_id h) b ids"] rel_finish [OF assms]
    by (simp add: plan_batch_def)
next
  case (Cons m ms)
  note a = rel_transaction [of "admit_tx e fence h b m ids" d, OF rel_admit [OF assms Cons]]
  obtain r d1 where t: "transaction (admit_tx e fence h b m ids) d = (r, d1)" by (cases "transaction (admit_tx e fence h b m ids) d")
  have g: "rel d d1" using a by (simp add: t)
  have s: "rel d1 (snd (transaction (skip_tx e fence (sc_id h) b m ids) d1))"
    by (rule rel_transaction) (rule rel_skip [OF assms Cons])
  have x: "rel d1 (snd (transaction (attention_tx fence h (attention c)) d1))" for c
    by (rule rel_transaction) (erule rel_attention_tx, rule row_steps(1))
  show ?thesis
    unfolding plan_batch_def Cons list.case t
    using g rel_trans [OF g s] rel_trans [OF g x] by (auto split: sum.split failure.split)
qed

lemma rel_plan_hint:
  assumes "timely e"
  shows "rel d (snd (plan_hint e fence h c ids d))"
proof -
  have a: "rel d (snd (transaction (attention_tx fence h (attention_at e w)) d))" for w
    by (rule rel_transaction) (erule rel_attention_tx, rule row_steps(2))
  have s: "rel d (snd (transaction (save_tx e fence h b) d))" if "new_batch e h c = Inr b" for b
    by (rule rel_transaction) (rule rel_save [OF that])
  have n: "rel d (snd (case transaction (save_tx e fence h b) d of
                    (Inl f, d1) \<Rightarrow> (Inl f, d1)
                  | (Inr saved, d1) \<Rightarrow> if saved then plan_batch e fence h b ids d1 else (Inr (), d1)))" if "new_batch e h c = Inr b" for b
  proof -
    obtain r d1 where t: "transaction (save_tx e fence h b) d = (r, d1)" by (cases "transaction (save_tx e fence h b) d")
    have "rel d d1" using s [OF that] by (simp add: t)
    then show ?thesis using rel_trans rel_plan_batch [OF assms] unfolding t by (auto split: sum.split)
  qed
  show ?thesis
    unfolding plan_hint_def using a n rel_plan_batch [OF assms]
    by (cases "sc_catch_up h"; cases "new_batch e h c") (simp_all del: split_paired_All)
qed

lemma rel_planSchedule: "timely e \<Longrightarrow> rel d (snd (planSchedule e fence sid ids d))"
  unfolding planSchedule_def using rel_plan_hint by (auto split: option.split)

text \<open>The worker.\<close>

lemma rel_settle_one:
  assumes "settle_one e i d = Inr (u, d')"
  shows "rel d d'"
proof (cases "occurrence_find i d")
  case None
  then show ?thesis using assms by (auto simp: settle_one_def res_simps)
next
  case r: (Some r)
  show ?thesis
  proof (cases "find (\<lambda>t. op_id t = oc_turn r) (operations d)")
    case None
    then show ?thesis using assms r by (auto simp: settle_one_def res_simps)
  next
    case (Some t)
    let ?st = "settled_state (op_state t)"
    from assms obtain d1 where u: "update_occurrence i (mirror e t) d = Inr d1"
      and d': "d' = (let d2 = (if terminal_state ?st \<and> ?st \<noteq> OccUncertain \<and> oc_kind r = Recurring then complete_once e r d1 else d1)
        in if ?st = OccUncertain then attend (oc_schedule r) (attention_at e ''DELIVERY_UNCERTAIN'') d2 else d2)"
      unfolding settle_one_def r Some option.case Let_def res_simps sum.inject prod.inject by blast
    have "rel d d1" by (rule rel_rewrite [OF u]) simp
    moreover have c: "rel x (complete_once e r x)" for x
      unfolding complete_once_def by (rule rel_row) (use row_steps(3) in blast)
    moreover have a: "rel x (attend (oc_schedule r) (attention_at e ''DELIVERY_UNCERTAIN'') x)" for x
      by (rule rel_attend) (rule row_steps(2))
    ultimately show ?thesis using rel_trans unfolding d' Let_def by (auto split: if_split)
  qed
qed

lemma rel_run_all:
  assumes "\<And>r d. rel d (snd (f r d))"
  shows "rel d (snd (run_all f rs d))"
proof (induction rs arbitrary: d)
  case (Cons r rs)
  obtain x d1 where f: "f r d = (x, d1)" by (cases "f r d")
  have "rel d d1" using assms [of d r] by (simp add: f)
  then show ?case using rel_trans [OF _ Cons.IH] by (auto simp: f split: sum.split)
qed simp

lemma rel_settleOccurrences: "rel d (snd (settleOccurrences e d))"
  unfolding settleOccurrences_def
  by (rule rel_run_all, rule rel_transaction) (rule rel_settle_one)

lemma rel_prepare_workspace:
  assumes "prepare_workspace e fence s r c d = Inr (u, d')"
  shows "rel d d'"
proof -
  from assms obtain sel ix w d1 and b :: create_input and a v d2 where i: "inspectWorkspace e sel d = Inr (ix, w, d1)"
    and c: "createWorkspace e (sc_project s) b (occ_actor r) (oc_workspace r) (oc_storage_operation r) a d1 = Inr (v, d2)"
    and u: "update_occurrence (oc_id r) (enter_state e PreparingWorkspace) d2 = Inr d'"
    unfolding prepare_workspace_def target_unavailable_def Let_def res_simps split_paired_Ex prod.case sum.inject prod.inject by blast
  show ?thesis
    by (rule rel_trans [OF rel_trans [OF rel_tables [OF ws_only_tables [OF inspectWorkspace_ws_only [OF i]]] rel_tables [OF create_workspace_tables [OF c]]]
        rel_rewrite [OF u rewrite_identity(2)]])
qed

lemma rel_queue_turn:
  assumes "queue_turn e fence s r c msgid d = Inr (u, d')"
  shows "rel d d'"
proof -
  have "oc_prompt r \<noteq> None"
  proof
    assume "oc_prompt r = None"
    then show False using assms unfolding queue_turn_def Let_def by (auto simp: res_simps)
  qed
  then obtain p where p: "oc_prompt r = Some p" by blast
  from assms obtain d1 x d2 and b :: turn_input and a where o: "open_session e s r c d = Inr d1"
    and t: "acceptConversationTurn e (oc_session r) b (occ_actor r) (oc_turn r) msgid a d1 = Inr (x, d2)"
    and u: "update_occurrence (oc_id r) (enter_state e QueuedTurn) d2 = Inr d'"
    unfolding queue_turn_def Let_def p option.case res_simps split_paired_Ex prod.case sum.inject prod.inject by blast
  show ?thesis
    by (rule rel_trans [OF rel_trans [OF rel_tables [OF open_session_tables [OF o]] rel_tables [OF accept_tables [OF t]]]
        rel_rewrite [OF u rewrite_identity(2)]])
qed

lemma rel_advance_phase:
  assumes "advance_phase e fence s v r msgid d = Inr (u, d')"
  shows "rel d d'"
proof -
  from assms consider "prepare_workspace e fence s r (sv_config v) d = Inr (u, d')" | "d' = d"
    | "queue_turn e fence s r (sv_config v) msgid d = Inr (u, d')"
    unfolding advance_phase_def Let_def by (auto simp: res_simps split: if_split_asm option.split_asm)
  then show ?thesis using rel_prepare_workspace rel_queue_turn by cases auto
qed

lemma rel_advanceOccurrence:
  assumes "advanceOccurrence e fence i msgid d = Inr (u, d')"
  shows "rel d d'"
  using assms rel_advance_phase unfolding advanceOccurrence_def by (auto split: option.split_asm if_split_asm)

lemma rel_cancel:
  assumes "cancelOccurrence e s i actor n d = Inr (a, d')"
  shows "rel d d'"
proof -
  from assms obtain r where k: "(if exists_row (\<lambda>x. op_id x = oc_turn r) (operations d)
     then andThen (requestTurnCancellation e (oc_turn r) actor (oc_cancel_operation r)
             (cancel_authorize e s r actor n) d) (\<lambda>(answer, d1).
          if exists_row (\<lambda>x. oc_id x \<noteq> oc_id r \<and> oc_cancel_operation x = fst answer) (schedule_occurrences d1)
          then Inl (Crash ''schedule_occurrences_cancel_operation_id_key'')
          else Inr ((oc_id r, oc_state r, Some answer),
            d1\<lparr>schedule_occurrences := update_where (\<lambda>x. oc_id x = oc_id r)
              (\<lambda>x. x\<lparr>oc_cancel_operation := fst answer\<rparr>) (schedule_occurrences d1)\<rparr>))
     else andThen (if exists_row (\<lambda>w. ws_id w = oc_workspace r) (workspaces d)
             then andThen (selectedWorkspace d (oc_workspace r)) (\<lambda>_.
                  andThen (requireAuthority e d actor (cancel_need s)) (\<lambda>_. cancel_preparation e r d))
             else Inr d) (\<lambda>d1.
          andThen (requireAuthority e d1 actor (cancel_need s)) (\<lambda>_.
          andThen (update_occurrence (oc_id r) (end_occurrence e Cancelled ''OWNER_CANCELLED'') d1) (\<lambda>d2.
          Inr ((oc_id r, Cancelled, None), d2))))) = Inr (a, d')"
    unfolding cancelOccurrence_def andThen_eq_Inr if_Inl_eq_Inr by blast
  show ?thesis
  proof (cases "exists_row (\<lambda>x. op_id x = oc_turn r) (operations d)")
    case True
    from k [unfolded if_P [OF True]] obtain answer d1 where
      c: "requestTurnCancellation e (oc_turn r) actor (oc_cancel_operation r) (cancel_authorize e s r actor n) d = Inr (answer, d1)"
      and d': "d' = d1\<lparr>schedule_occurrences := update_where (\<lambda>x. oc_id x = oc_id r)
              (\<lambda>x. x\<lparr>oc_cancel_operation := fst answer\<rparr>) (schedule_occurrences d1)\<rparr>"
      unfolding res_simps split_paired_Ex prod.case sum.inject prod.inject by (metis)
    have "rel d1 d'" unfolding d' by (rule rel_relabel) (simp add: occ_unresolved_def)
    then show ?thesis using rel_trans rel_tables [OF request_cancel_tables [OF c]] by blast
  next
    case False
    from k [unfolded if_not_P [OF False]] obtain d1 where
      p: "(if exists_row (\<lambda>w. ws_id w = oc_workspace r) (workspaces d)
             then andThen (selectedWorkspace d (oc_workspace r)) (\<lambda>_.
                  andThen (requireAuthority e d actor (cancel_need s)) (\<lambda>_. cancel_preparation e r d))
             else Inr d) = Inr d1"
      and u: "update_occurrence (oc_id r) (end_occurrence e Cancelled ''OWNER_CANCELLED'') d1 = Inr d'"
      unfolding andThen_eq_Inr sum.inject prod.inject by blast
    have "sched_tables d1 = sched_tables d"
      using p cancel_preparation_tables by (auto simp: andThen_eq_Inr split: if_split_asm)
    then have "rel d d1" by (rule rel_tables)
    then show ?thesis using rel_trans rel_rewrite [OF u rewrite_identity(3)] by blast
  qed
qed

lemma rel_refuse:
  assumes "refuse_occurrence e fence code i d = Inr (u, d')"
  shows "rel d d'"
proof -
  have a: "rel x (attend sid (attention code) x)" for x sid
    by (rule rel_attend) (rule row_steps(1))
  from assms consider "d' = d" | st d1 sid where "update_occurrence i (end_occurrence e st code) d = Inr d1"
      "d' = d1 \<or> d' = attend sid (attention code) d1"
    unfolding refuse_occurrence_def Let_def by (auto simp: res_simps split: option.split_asm if_split_asm)
  then show ?thesis
  proof cases
    case (2 st d1 sid)
    then show ?thesis using rel_trans rel_rewrite [OF 2(1) rewrite_identity(3)] a by metis
  qed simp
qed

lemma rel_advance_or_refuse: "rel d (snd (advance_or_refuse e fence msg r d))"
proof -
  obtain x d1 where t: "transaction (advanceOccurrence e (fence False) (oc_id r) (msg (oc_id r))) d = (x, d1)"
    by (cases "transaction (advanceOccurrence e (fence False) (oc_id r) (msg (oc_id r))) d")
  have g: "rel d d1"
    using rel_transaction [of "advanceOccurrence e (fence False) (oc_id r) (msg (oc_id r))" d, OF rel_advanceOccurrence] by (simp add: t)
  have "rel d1 (snd (transaction (refuse_occurrence e fence c (oc_id r)) d1))" for c
    by (rule rel_transaction) (rule rel_refuse)
  then show ?thesis unfolding advance_or_refuse_def t using g rel_trans [OF g] by (auto split: sum.split failure.split)
qed

lemma rel_touch:
  assumes "rel d (snd m)"
  shows "rel d (snd (case m of (Inl f, d2) \<Rightarrow> (Inl f, d2)
    | (Inr _, d2) \<Rightarrow> (Inr (), update_schedule i (\<lambda>s. s\<lparr>sc_last_planned_at := Some t\<rparr>) d2)))"
proof -
  have "rel x (update_schedule i (\<lambda>s. s\<lparr>sc_last_planned_at := Some t\<rparr>) x)" for x
    unfolding update_schedule_def by (rule rel_row) (rule row_steps(4))
  then show ?thesis using assms rel_trans by (cases m) (auto split: sum.split)
qed

lemma rel_plan_one:
  assumes "timely e"
  shows "rel d (snd (plan_one e fence fresh h d))"
proof -
  let ?f = "\<lambda>d. andThen (deploymentAdmission d True) (\<lambda>_. andThen (fence False d) (\<lambda>_. Inr ((), d)))"
  obtain x d1 where t: "transaction ?f d = (x, d1)" by (cases "transaction ?f d")
  have "rel d (snd (transaction ?f d))" by (rule rel_transaction) (auto simp: res_simps)
  then have g: "rel d d1" by (simp add: t)
  obtain y d2 where p: "planSchedule e (fence False) (sc_id h) (fresh (sc_id h)) d1 = (y, d2)"
    by (cases "planSchedule e (fence False) (sc_id h) (fresh (sc_id h)) d1")
  have "rel d1 d2" using rel_planSchedule [OF assms, of d1 "fence False" "sc_id h" "fresh (sc_id h)"] by (simp add: p)
  then have g2: "rel d d2" using g rel_trans by blast
  have a: "rel d2 (snd (transaction (attention_tx (fence False) h (attention c)) d2))" for c
    by (rule rel_transaction) (erule rel_attention_tx, rule row_steps(1))
  have q: "rel d (snd (case (y, d2) of (Inl (HarborError n code), d2) \<Rightarrow>
      transaction (attention_tx (fence False) h (attention code)) d2 | x \<Rightarrow> x))"
    using g2 rel_trans [OF g2 a] by (auto split: sum.split failure.split)
  show ?thesis
  proof (cases x)
    case (Inl f)
    then show ?thesis unfolding plan_one_def t using g by simp
  next
    case (Inr u)
    show ?thesis unfolding plan_one_def t Inr prod.case sum.case p by (rule rel_touch) (use q in simp)
  qed
qed

lemma rel_and_also:
  assumes "rel d (snd m)" "\<And>d1. rel d1 (snd (k d1))"
  shows "rel d (snd (and_also m k))"
  using assms(1) rel_trans [OF assms(1) assms(2)] unfolding and_also_def by (cases m) (auto split: sum.split)

lemma rel_processSchedules:
  assumes "timely e"
  shows "rel d (snd (processSchedules e fence fresh msg at d))"
proof -
  have p: "rel x (snd (transaction (\<lambda>d. andThen (pruneScheduleHistory e d) (\<lambda>d'. Inr ((), d'))) x))" for x
    by (rule rel_transaction) (auto simp: res_simps dest: rel_prune [OF assms])
  show ?thesis
    unfolding processSchedules_def
    by (intro rel_and_also rel_settleOccurrences rel_run_all rel_plan_one [OF assms] rel_advance_or_refuse) (simp add: p)
qed

text \<open>Commands.\<close>

lemma rel_execute_command:
  assumes "execute_command e bytes rq who key fresh s action d = Inr (r, d')"
    and "\<And>r d1. action d s = Inr (r, d1) \<Longrightarrow> rel d d1"
  shows "rel d d'"
proof -
  from assms(1) consider "d' = d" | x d1 c where "action d s = Inr (x, d1)" "insert_command c d1 = Inr d'"
    unfolding execute_command_def Let_def by (auto simp: res_simps split: option.split_asm)
  then show ?thesis
    using assms(2) rel_receipt rel_trans by cases (simp, blast)
qed

lemma rel_scheduleCommand:
  assumes "scheduleCommand e bytes rq fresh action d = Inr (r, d')"
    and "timely e" "\<And>d s r d1. current s d \<Longrightarrow> action d s = Inr (r, d1) \<Longrightarrow> rel d d1"
  shows "rel d d'"
proof -
  from assms(1) consider "d' = d" | s who key where "schedule_find (rq_schedule rq) d = Some s"
      "execute_command e bytes rq who key fresh s action (remove_commands (expired_commands e (sc_id s) d) d) = Inr (r, d')"
    unfolding scheduleCommand_def by (auto simp: res_simps split: option.split_asm)
  then show ?thesis
  proof cases
    case (2 s who key)
    let ?d = "remove_commands (expired_commands e (sc_id s) d) d"
    have "current s ?d" by (rule schedule_find_current [OF 2(1)]) (simp add: remove_commands_def)
    then have "rel ?d d'" by (intro rel_execute_command [OF 2(2)]) (rule assms(3))
    with rel_expire [OF assms(2)] show ?thesis by (rule rel_trans)
  qed simp
qed

lemma rel_management_action:
  assumes "management_action e st ot actor m d s = Inr (r, d')" "current s d" "timely e"
  shows "rel d d'"
proof (cases m)
  case (Pause n)
  then show ?thesis using assms rel_pause by (auto simp: res_simps)
next
  case (Edit n b)
  then show ?thesis using assms rel_edit by (auto simp: res_simps)
next
  case (Activate n days gid)
  then show ?thesis using assms rel_activate by (auto simp: res_simps)
next
  case (RunNow n gid ids)
  then show ?thesis using assms rel_run by (auto simp: res_simps)
next
  case (CancelRun n i)
  then show ?thesis using assms rel_cancel by (auto simp: res_simps)
qed

lemma rel_mutate:
  assumes "mutate e bytes st ot actor sid key body m fresh d = Inr (r, d')" "timely e"
  shows "rel d d'"
  using assms(1) unfolding mutate_def
  by (rule rel_scheduleCommand [OF _ assms(2)]) (rule rel_management_action [OF _ _ assms(2)])

lemma rel_system_op:
  assumes "system_op x d = Inr d'" "timely (request_env x)"
  shows "rel d d'"
proof (cases x)
  case (CreateRequest e actor input sid gid)
  then show ?thesis using assms rel_create by (auto simp: res_simps)
next
  case (ManageRequest e bytes st ot actor sid key body m fresh)
  then show ?thesis using assms rel_mutate by (auto simp: res_simps)
next
  case (EmergencyRequest e)
  then show ?thesis using assms rel_emergency by auto
next
  case (WorkerPass e fence fresh msg at)
  then show ?thesis using assms rel_processSchedules by auto
qed

end

end
