(* ===== verification/Schedule_System.thy ===== *)
theory Schedule_System
  imports Schedule_Walk
begin

text \<open>
  The planner's transactions (\<open>Schedule_Planner\<close>) are \<open>good\<close>, like the owner's operations
  of \<open>Schedule_Lifecycle\<close>; so \<open>good\<close> is a \<open>schedule_walk\<close>. Creations, commands,
  emergency stops and worker passes, in whatever order they arrive, keep the schedule tables
  consistent, and the abstract life cycle describes them.
\<close>

section \<open>The planner\<close>

lemma admit_replay:
  assumes "admitRecurringOccurrence e sid m next x ids d = Inr ((i, True), d')"
  shows "d' = d"
proof -
  have l: "d' = d" if "admit_locked e sid m next y h ids d = Inr ((i, True), d')" for h y
    using that unfolding admit_locked_def by (auto simp: res_simps split: option.split_asm if_split_asm)
  show ?thesis
    using assms unfolding admitRecurringOccurrence_def
    by (auto simp: res_simps split: option.split_asm if_split_asm dest: l)
qed

lemma good_update_schedule: "(\<And>s. quiet s (f s)) \<Longrightarrow> good d (update_schedule i f d)"
  unfolding update_schedule_def by (rule good_quiet_where)

lemma quiet_moved: "quiet s (moved e m next s)"
  by (simp add: quiet_def moved_def)

lemma schedule_find_id: "schedule_find i d = Some s \<Longrightarrow> i \<in> sc_id ` set (schedules d)"
  using schedule_rows_find(1) by blast

lemma good_admit:
  assumes "admitRecurringOccurrence e sid m next x ids d = Inr ((i, b), d')"
  shows "good d d'"
proof (cases b)
  case True
  then show ?thesis using admit_replay assms by (metis good_refl)
next
  case False
  have "admitRecurringOccurrence e sid m next x ids d = Inr ((i, False), d')" using assms False by simp
  then show ?thesis
  proof (rule admission_rows)
    fix s :: schedule_row and v :: version_row and d1 d3 src place n
    let ?r = "new_occurrence e ids s (sv_config v) (sv_prompt v) Recurring (mn_instant m) (Some m) src place"
    assume s: "schedule_find sid d = Some s" and c: "occurrenceCapacity e sid d = Inr d1"
      and room: "all_history d1 < 8192" "own_history sid d1 < 256" and w: "ws_only d1 d3"
      and d': "d' = update_schedule sid (moved e m next) (inserted d1 ?r n d3)"
      and ins: "insert_occurrence ?r d3 = Inr (d3\<lparr>schedule_occurrences := schedule_occurrences d1 @ [?r]\<rparr>)"
    have sid: "sc_id s = sid" using schedule_rows_find(1) [OF s] by simp
    have "sid \<in> sc_id ` set (schedules d1)"
      using schedule_find_id [OF s] arg_cong [OF prune_frame_ids [OF occurrenceCapacity_frame [OF c]], of set] by simp
    then have "good d1 (inserted d1 ?r n d3)"
      by (intro good_add_occurrence [OF ins ws_onlyD(4) [OF w]]) (use room sid ws_onlyD [OF w] in simp_all)
    moreover have "good (inserted d1 ?r n d3) d'" unfolding d' by (rule good_update_schedule) (rule quiet_moved)
    ultimately show ?thesis using good_trans good_capacity [OF c] by blast
  qed
qed

lemma quiet_attention [simp]: "sc_state s = Enabled \<Longrightarrow> quiet s (attention w s)" "sc_state s = Enabled \<Longrightarrow> quiet s (attention_at e w s)"
  by (simp_all add: quiet_def attention_def attention_at_def)

lemma good_save_tx:
  assumes "save_tx e fence h b d = Inr (r, d')"
  shows "good d d'"
proof -
  from assms have d': "d' = d\<lparr>schedules := update_where (save_where h)
      (\<lambda>s. s\<lparr>sc_catch_up := Some b, sc_last_observed_at := Some (scheduler_now e)\<rparr>) (schedules d)\<rparr>"
    by (auto simp: save_tx_def res_simps Let_def)
  show ?thesis unfolding d' by (rule good_quiet_where) (simp add: quiet_def)
qed

lemma good_consume: "good d (consume sid b d)"
  unfolding consume_def by (rule good_quiet_where) (simp add: quiet_def)

lemma good_admit_tx:
  assumes "admit_tx e fence h b m ids d = Inr (u, d')"
  shows "good d d'"
proof -
  from assms obtain i r d1 where a: "admitRecurringOccurrence e (sc_id h) m (bt_next b) (Some (plan_expectation h b)) ids d = Inr ((i, r), d1)"
    and d': "d' = consume (sc_id h) b d1"
    by (auto simp: admit_tx_def res_simps Let_def)
  show ?thesis using good_trans [OF good_admit [OF a] good_consume] by (simp add: d')
qed

lemma history_room_Inr:
  assumes "history_room e sid d = Inr d1"
  shows "good d d1" "own_history sid d1 < 256" "all_history d1 < 8192" "prune_frame d1 = prune_frame d"
proof -
  from assms have c: "occurrenceCapacity e sid d = Inr d1" by (auto simp: history_room_def res_simps split: if_split_asm)
  show "good d d1" "own_history sid d1 < 256" "all_history d1 < 8192" "prune_frame d1 = prune_frame d"
    using good_capacity [OF c] capacity_room [OF c] occurrenceCapacity_frame [OF c] by simp_all
qed

lemma skipped_row_simps [simp]: "oc_schedule (skipped_row e ids s k lm at snap w) = sc_id s"
  by (simp add: skipped_row_def)

lemma good_insert_skipped:
  assumes "history_room e sid d = Inr d1" "insert_occurrence (skipped_row e ids s k lm at snap w) d1 = Inr d2"
    and "s \<in> set (schedules d)" "sc_id s = sid"
  shows "good d d2"
proof -
  note h = history_room_Inr [OF assms(1)] and d2 = insert_occurrence_Inr(1) [OF assms(2)]
  have "sid \<in> sc_id ` set (schedules d1)"
    using assms(3,4) arg_cong [OF prune_frame_ids [OF h(4)], of set] by auto
  then have "good d1 d2"
    by (intro good_add_occurrence [OF assms(2) refl]) (use h(2,3) assms(4) in \<open>simp_all add: d2\<close>)
  with h(1) show ?thesis by (rule good_trans)
qed

lemma good_skip_tx:
  assumes "skip_tx e fence sid b m ids d = Inr (u, d')"
  shows "good d d'"
proof (cases "find (\<lambda>s. sc_id s = sid \<and> sc_state s = Enabled \<and> sc_catch_up s = Some b) (schedules d)")
  case None
  then show ?thesis using assms by (auto simp: skip_tx_def res_simps)
next
  case (Some cur)
  note cur = find_Some_in [OF Some]
  let ?r = "skipped_row e ids cur Recurring (Some (mn_local m)) (mn_instant m) (SkippedMinute m) ''OVERLAP''"
  let ?f = "\<lambda>s. s\<lparr>sc_cursor_at := mn_instant m, sc_catch_up := Some (b\<lparr>bt_minutes := tl (bt_minutes b)\<rparr>)\<rparr>"
  from assms obtain d1 d2 where h: "history_room e sid d = Inr d1"
    and i: "(if recurring_find sid (Some (sc_rule_revision cur)) (mn_local m) d1 \<noteq> None then Inr d1 else insert_occurrence ?r d1) = Inr d2"
    and d': "d' = update_schedule sid ?f d2"
    unfolding skip_tx_def Some option.case res_simps by blast
  have "good d d2"
    using i good_insert_skipped [OF h] history_room_Inr(1) [OF h] cur by (auto split: if_split_asm)
  moreover have "good d2 d'" unfolding d' by (rule good_update_schedule) (simp add: quiet_def)
  ultimately show ?thesis by (rule good_trans)
qed

lemma good_finished:
  assumes "sys_ok d \<Longrightarrow> \<forall>s \<in> set (schedules d). sc_id s = sid \<longrightarrow> sc_state s = Enabled"
  shows "good d (update_schedule sid (finished e b busy) d)"
proof (rule goodI)
  assume "sys_ok d"
  then have en: "\<forall>s \<in> set (schedules d). sc_id s = sid \<longrightarrow> sc_state s = Enabled" by (rule assms)
  have "update_schedule sid (finished e b busy) d =
      d\<lparr>schedules := update_where (\<lambda>s. sc_id s = sid \<and> sc_state s = Enabled) (finished e b busy) (schedules d)\<rparr>"
    unfolding update_schedule_def update_where_def
    by (rule arg_cong [where f = "\<lambda>x. d\<lparr>schedules := x\<rparr>"]) (use en in \<open>auto intro!: map_cong\<close>)
  also have "good d \<dots>"
    by (rule good_quiet_where) (simp add: quiet_def finished_def)
  finally show "good d (update_schedule sid (finished e b busy) d)" .
qed

lemma prune_state:
  assumes "prune_frame d1 = prune_frame d" "s \<in> set (schedules d1)"
  shows "\<exists>y \<in> set (schedules d). sc_id y = sc_id s \<and> sc_state y = sc_state s"
proof -
  let ?k = "\<lambda>s. s\<lparr>sc_last_pruned := None\<rparr>"
  obtain y where y: "y \<in> set (schedules d)" "?k y = ?k s" using map_eq_mem [OF prune_frameD(6) [OF assms(1)] assms(2)] by blast
  have "sc_id y = sc_id s" "sc_state y = sc_state s"
    using arg_cong [OF y(2), of sc_id] arg_cong [OF y(2), of sc_state] by simp_all
  with y(1) show ?thesis by blast
qed

lemma good_finish_tx:
  assumes "finish_tx e fence sid b ids d = Inr (u, d')"
  shows "good d d'"
proof (cases "find (\<lambda>s. sc_id s = sid \<and> sc_catch_up s = Some b) (schedules d)")
  case None
  then show ?thesis using assms by (auto simp: finish_tx_def res_simps)
next
  case (Some cur)
  note cur = find_Some_in [OF Some]
  let ?range = "\<lambda>from. andThen (history_room e sid d) (\<lambda>d1.
      insert_occurrence (skipped_row e ids cur Range None (bt_through b)
        (SkippedRange from (bt_through b) (bt_excluded b)) ''MISSED_RANGE'') d1)"
  show ?thesis
  proof (cases "sc_state cur = Enabled")
    case False
    then show ?thesis using assms unfolding finish_tx_def Some option.case by (auto simp: res_simps)
  next
    case True
    from assms obtain d2 where r: "(case bt_range_from b of None \<Rightarrow> Inr d | Some from \<Rightarrow> ?range from) = Inr d2"
      and d': "d' = update_schedule sid (finished e b (unresolved_of sid d2 > 0)) d2"
      unfolding finish_tx_def Some option.case res_simps using True by (auto simp: res_simps split: if_split_asm)
    have d2: "good d d2 \<and> (\<forall>s \<in> set (schedules d2). \<exists>y \<in> set (schedules d). sc_id y = sc_id s \<and> sc_state y = sc_state s)"
    proof (cases "bt_range_from b")
      case None
      then show ?thesis using r by auto
    next
      case (Some start)
      with r obtain d1 where h: "history_room e sid d = Inr d1"
        and i: "insert_occurrence (skipped_row e ids cur Range None (bt_through b)
          (SkippedRange start (bt_through b) (bt_excluded b)) ''MISSED_RANGE'') d1 = Inr d2"
        by (auto simp: res_simps)
      have "schedules d2 = schedules d1" by (simp add: insert_occurrence_Inr(1) [OF i])
      then show ?thesis
        using good_insert_skipped [OF h i] cur prune_state [OF history_room_Inr(4) [OF h]] by auto
    qed
    show ?thesis
    proof (rule goodI)
      assume "sys_ok d"
      then have dist: "distinct (map sc_id (schedules d))" by (simp add: sys_ok_def schedules_ok_def)
      have "\<forall>s \<in> set (schedules d2). sc_id s = sid \<longrightarrow> sc_state s = Enabled"
      proof (intro ballI impI)
        fix s assume s: "s \<in> set (schedules d2)" "sc_id s = sid"
        then obtain y where y: "y \<in> set (schedules d)" "sc_id y = sid" "sc_state y = sc_state s" using d2 by auto
        have "y = cur" using distinct_keyD [OF dist y(1)] cur y(2) by simp
        then show "sc_state s = Enabled" using True y(3) by simp
      qed
      then have "good d2 d'" unfolding d' by (rule good_finished)
      with d2 show "good d d'" using good_trans by blast
    qed
  qed
qed

section \<open>The worker\<close>

lemma good_relabel:
  assumes "\<And>r. oc_id (f r) = oc_id r \<and> oc_schedule (f r) = oc_schedule r \<and> occ_unresolved (f r) = occ_unresolved r"
  shows "good d (d\<lparr>schedule_occurrences := update_where P f (schedule_occurrences d)\<rparr>)" (is "good d ?d'")
proof -
  let ?g = "\<lambda>r. if P r then f r else r"
  have g: "oc_id (?g r) = oc_id r" "oc_schedule (?g r) = oc_schedule r" "occ_unresolved (?g r) = occ_unresolved r" for r
    using assms by auto
  have occ: "schedule_occurrences ?d' = map ?g (schedule_occurrences d)" by (simp add: update_where_def)
  have ids: "map oc_id (schedule_occurrences ?d') = map oc_id (schedule_occurrences d)" unfolding occ by (simp only: map_map comp_def g)
  have "schedules_ok ?d' = schedules_ok d" by (simp add: schedules_ok_def)
  moreover have "occurrences_ok ?d'" if ok: "occurrences_ok d"
  proof -
    have own: "own_history i ?d' = own_history i d" "unresolved_of i ?d' = unresolved_of i d" for i
      unfolding own_history_def unresolved_of_def occ count_where_def by (simp_all add: filter_map comp_def g)
    have all: "all_history ?d' = all_history d" by (simp add: all_history_def)
    have "history_keys ?d'"
      unfolding history_keys_def
    proof (intro conjI ballI)
      show "distinct (map oc_id (schedule_occurrences ?d'))" using ok unfolding ids by (simp add: occurrences_ok_def history_keys_def)
      show "distinct (map sc_id (schedules ?d'))" using ok by (simp add: occurrences_ok_def history_keys_def)
      fix x assume "x \<in> set (schedule_occurrences ?d')"
      then obtain y where y: "y \<in> set (schedule_occurrences d)" "x = ?g y" unfolding occ set_map by blast
      then have "oc_schedule x = oc_schedule y" by (simp only: g)
      then show "\<exists>s \<in> set (schedules ?d'). sc_id s = oc_schedule x"
        using ok y(1) unfolding occurrences_ok_def history_keys_def by simp
    qed
    moreover have "receipts_kept ?d'" using ok unfolding occurrences_ok_def receipts_kept_ids ids by simp
    ultimately show ?thesis using ok unfolding occurrences_ok_def own all by simp
  qed
  ultimately show ?thesis using evolves_same [of ?d' d] by (simp add: good_def sys_ok_def)
qed

section \<open>Every request\<close>

interpretation good_walk: schedule_walk good "\<lambda>_. True"
proof
  show "good d d' \<Longrightarrow> good d' d'' \<Longrightarrow> good d d''" for d d' d'' by (rule good_trans)
  show "sched_tables d' = sched_tables d \<Longrightarrow> good d d'" for d d' by (rule good_tables)
  show "(\<And>s. P s \<Longrightarrow> quiet s (f s) \<and> advances s (f s)) \<Longrightarrow> good d (d\<lparr>schedules := update_where P f (schedules d)\<rparr>)"
    for P f d by (rule good_quiet_where) blast
  show "update_occurrence i g d = Inr d' \<Longrightarrow> (\<And>r. occ_identity (g r) = occ_identity r) \<Longrightarrow> good d d'" for i g d d'
    by (erule good_update_occurrence) (rule identity_keys)
  show "(\<And>r. occ_identity (g r) = occ_identity r \<and> occ_unresolved (g r) = occ_unresolved r) \<Longrightarrow>
      good d (d\<lparr>schedule_occurrences := update_where Q g (schedule_occurrences d)\<rparr>)" for g d Q
    by (rule good_relabel) (use identity_keys in blast)
qed (rule good_save_tx good_admit_tx good_skip_tx good_finish_tx good_prune good_remove_commands good_insert_command
    good_pause good_edit good_activateSchedule good_runNow good_create good_emergency; assumption)+

lemma good_system_op: "system_op x d = Inr d' \<Longrightarrow> good d d'"
  by (rule good_walk.rel_system_op [OF _ TrueI])

interpretation schedule_system: evolving_ops system_op sys_ok evolves
proof unfold_locales
  show "system_op x s = Inr s' \<Longrightarrow> sys_ok s \<Longrightarrow> sys_ok s'" for x s s' using good_system_op unfolding good_def by blast
  show "system_op x s = Inr s' \<Longrightarrow> sys_ok s \<Longrightarrow> evolves s s'" for x s s' using good_system_op unfolding good_def by blast
  show "evolves s s" for s by (rule evolves_same) simp_all
  show "evolves s t \<Longrightarrow> evolves t u \<Longrightarrow> evolves s u" for s t u by (rule evolves_trans)
qed

section \<open>Properties\<close>

text \<open>The sample server, its owner's request to run the schedule now, and what it leads to.\<close>

definition run_gid :: uuid where
  "run_gid = replicate 36 CHR ''e''"

definition demo_key :: string where
  "demo_key = ''0000001000000:00000000-0000-4000-8000-000000000000''"

definition demo_request :: "management \<Rightarrow> system_request" where
  "demo_request m = ManageRequest demo_env (\<lambda>_. 1) (\<lambda>_. []) (\<lambda>_. JNull) ''b'' ''c'' (Some demo_key) ''body'' m ''f1''"

definition run_need :: need where
  "run_need = \<lparr> nd_project = Some ''p'', nd_scope = Some Execute, nd_profile = Some WorkspaceWrite,
     nd_internal = Some (WorkspaceWork, ''O'') \<rparr>"

lemma demo_sys_ok: "sys_ok admit_db"
  by (simp add: sys_ok_def schedules_ok_def occurrences_ok_def history_keys_def receipts_kept_def unresolved_of_def
      own_history_def all_history_def grant_backs_def admit_db_def demo_defs)

text \<open>C20: Whatever creations, management commands, emergency stops and worker passes are run, in
  whatever order and with whatever outcomes, the schedule tables stay consistent: every enabled
  schedule is backed by its active grant, which is a standing one, unrevoked and of the current
  configuration; no schedule has two unresolved occurrences; no schedule keeps more than 256
  occurrences and the server no more than 8192; every occurrence belongs to a schedule, every
  receipt finds its occurrence, and every schedule has the grant of its latest epoch.\<close>

theorem schedules_stay_consistent:
  assumes "sys_ok d"
  shows "(\<forall>s \<in> set (schedules (serve system_op xs d)). sc_state s = Enabled \<longrightarrow>
      (\<exists>g \<in> set (schedule_grants (serve system_op xs d)). sc_active_grant s = Some (gr_id g) \<and> gr_schedule g = sc_id s \<and>
        gr_config_revision g = sc_config_revision s \<and> \<not> gr_revoked g \<and> \<not> gr_one_shot g)) \<and>
    (\<forall>sid. unresolved_of sid (serve system_op xs d) \<le> 1 \<and> own_history sid (serve system_op xs d) \<le> 256) \<and>
    all_history (serve system_op xs d) \<le> 8192 \<and>
    history_keys (serve system_op xs d) \<and> receipts_kept (serve system_op xs d) \<and>
    (\<forall>s \<in> set (schedules (serve system_op xs d)). \<exists>g \<in> set (schedule_grants (serve system_op xs d)).
      gr_schedule g = sc_id s \<and> gr_epoch g = sc_grant_epoch s)"
proof -
  have "sys_ok (serve system_op xs d)" using assms by (rule schedule_system.serve_keeps)
  then show ?thesis unfolding sys_ok_def schedules_ok_def occurrences_ok_def grant_backs_def by blast
qed

theorem schedules_stay_consistent_witness:
  "unresolved_of ''c'' (serve system_op [demo_request (RunNow 1 run_gid demo_ids), EmergencyRequest demo_env] admit_db) = 1 \<and>
   all_history (serve system_op [demo_request (RunNow 1 run_gid demo_ids), EmergencyRequest demo_env] admit_db) \<le> 8192"
proof
  show "unresolved_of ''c'' (serve system_op [demo_request (RunNow 1 run_gid demo_ids), EmergencyRequest demo_env] admit_db) = 1"
    by code_simp
qed (use schedules_stay_consistent [OF demo_sys_ok] in blast)

text \<open>C21: The life of a schedule, seen as its state and grant epoch, refines the abstract life cycle:
  run-once and activation open a new epoch, pausing is possible everywhere, attention and
  completion only from enabled. So a schedule that was not enabled is enabled later only in a
  later epoch, that is after a fresh activation by its owner.\<close>

theorem schedule_life_refined:
  assumes "sys_ok d" "s \<in> set (schedules d)"
  shows "\<exists>s' \<in> set (schedules (serve system_op xs d)). sc_id s' = sc_id s \<and> sc_project s' = sc_project s \<and>
    life\<^sup>*\<^sup>* (sc_state s, sc_grant_epoch s) (sc_state s', sc_grant_epoch s') \<and>
    (sc_state s' = Enabled \<longrightarrow> sc_state s = Enabled \<or> sc_grant_epoch s < sc_grant_epoch s')"
proof -
  have "rows_evolve d (serve system_op xs d)"
    using schedule_system.serve_moves [OF assms(1)] by (simp add: evolves_def)
  then obtain s' where s': "s' \<in> set (schedules (serve system_op xs d))" "row_lives s s'" using assms(2) by (rule rows_evolveD)
  moreover have "sc_state s' = Enabled \<longrightarrow> sc_state s = Enabled \<or> sc_grant_epoch s < sc_grant_epoch s'"
    using s'(2) lives_enabled [of "life_of s" "life_of s'"] by (simp add: row_lives_def life_of_def)
  ultimately show ?thesis unfolding row_lives_def life_of_def by blast
qed

theorem schedule_life_refined_witness:
  "\<exists>s \<in> set (schedules (serve system_op [EmergencyRequest demo_env] admit_db)). sc_id s = ''c'' \<and>
     life\<^sup>*\<^sup>* (Enabled, 1) (sc_state s, sc_grant_epoch s)"
proof -
  have "demo_schedule \<in> set (schedules admit_db)" by (simp add: admit_db_def schedule_db_def)
  moreover have "sc_id demo_schedule = ''c''" "sc_state demo_schedule = Enabled" "sc_grant_epoch demo_schedule = 1"
    by (simp_all add: demo_schedule_def)
  ultimately show ?thesis using schedule_life_refined [OF demo_sys_ok, of demo_schedule "[EmergencyRequest demo_env]"] by auto
qed

text \<open>What revoking all grants of a schedule means from then on.\<close>

lemma revoked_for_good:
  assumes "sys_ok d" "\<forall>g \<in> set (schedule_grants d). gr_schedule g = sid \<longrightarrow> gr_revoked g"
    and "requireAuthority e (serve system_op xs d) (scheduleActor gid oid) n = Inr a"
  shows "\<exists>g \<in> set (schedule_grants (serve system_op xs d)). gr_id g = gid \<and> \<not> gr_revoked g \<and>
    (gr_schedule g = sid \<longrightarrow> (\<forall>s \<in> set (schedules d). sc_id s = sid \<longrightarrow> sc_grant_epoch s < gr_epoch g))"
proof -
  obtain g where g: "g \<in> set (schedule_grants (serve system_op xs d))" "gr_id g = gid" "\<not> gr_revoked g"
    using schedule_actor_grant [OF assms(3)] by blast
  have "grants_follow d (serve system_op xs d)" using schedule_system.serve_moves [OF assms(1)] by (simp add: evolves_def)
  then have f: "(\<exists>y \<in> set (schedule_grants d). grant_follows y g) \<or> new_grant_of d g"
    using g(1) unfolding grants_follow_def by blast
  have "new_grant_of d g" if "gr_schedule g = sid"
  proof (rule ccontr)
    assume "\<not> new_grant_of d g"
    then obtain y where "y \<in> set (schedule_grants d)" "grant_follows y g" using f by blast
    then show False using assms(2) g(3) that by (auto simp: grant_follows_def)
  qed
  then have "gr_schedule g = sid \<longrightarrow> (\<forall>s \<in> set (schedules d). sc_id s = sid \<longrightarrow> sc_grant_epoch s < gr_epoch g)"
    unfolding new_grant_of_def by auto
  then show ?thesis using g by blast
qed

lemma goodD: "good d d' \<Longrightarrow> sys_ok d \<Longrightarrow> sys_ok d'"
  by (simp add: good_def)

text \<open>C22: Pausing is final for the grants that exist: after a schedule was paused, and whatever requests
  follow, an actor is authorised under one of its grants only if that grant was issued by a later
  activation or run-now request, in a later epoch.\<close>

theorem pause_revokes_for_good:
  assumes "sys_ok d" "s \<in> set (schedules d)" "pauseSchedule e0 s n0 d = Inr (r, d1)"
    and "requireAuthority e (serve system_op xs d1) (scheduleActor gid oid) n = Inr a"
  shows "\<exists>g \<in> set (schedule_grants (serve system_op xs d1)). gr_id g = gid \<and> \<not> gr_revoked g \<and>
    (gr_schedule g = sc_id s \<longrightarrow> sc_grant_epoch s < gr_epoch g)"
proof -
  note p = pauseSchedule_Inr(3) [OF assms(3)]
  have ok: "sys_ok d1" using goodD [OF good_pause [OF assms(3)] assms(1)] .
  have rev: "\<forall>g \<in> set (schedule_grants d1). gr_schedule g = sc_id s \<longrightarrow> gr_revoked g"
    unfolding p by auto
  have "stop_schedule e0 ''OWNER_PAUSED'' s \<in> set (schedules d1)"
    using assms(2) unfolding p by (force simp: update_where_def)
  moreover obtain g where "g \<in> set (schedule_grants (serve system_op xs d1))" "gr_id g = gid" "\<not> gr_revoked g"
    "gr_schedule g = sc_id s \<longrightarrow> (\<forall>x \<in> set (schedules d1). sc_id x = sc_id s \<longrightarrow> sc_grant_epoch x < gr_epoch g)"
    using revoked_for_good [OF ok rev assms(4)] by blast
  ultimately show ?thesis by (metis stop_schedule_simps(1,3))
qed

theorem pause_revokes_for_good_witness:
  "\<exists>d1 g. pauseSchedule demo_env demo_schedule 1 admit_db = Inr ((''c'', 1, Paused), d1) \<and>
     g \<in> set (schedule_grants (serve system_op [demo_request (RunNow 1 run_gid demo_ids)] d1)) \<and>
     gr_id g = run_gid \<and> (gr_schedule g = ''c'' \<longrightarrow> 1 < gr_epoch g)"
proof -
  let ?xs = "[demo_request (RunNow 1 run_gid demo_ids)]"
  have "case pauseSchedule demo_env demo_schedule 1 admit_db of Inl _ \<Rightarrow> False | Inr (r, d1) \<Rightarrow> r = (''c'', 1, Paused) \<and>
      succeeds (requireAuthority demo_env (serve system_op ?xs d1) (scheduleActor run_gid (oi_id demo_ids)) run_need)"
    by code_simp
  moreover obtain d1 where p: "pauseSchedule demo_env demo_schedule 1 admit_db = Inr ((''c'', 1, Paused), d1)"
    by (simp add: pauseSchedule_def expectedRevision_def demo_schedule_def)
  ultimately have "succeeds (requireAuthority demo_env (serve system_op ?xs d1) (scheduleActor run_gid (oi_id demo_ids)) run_need)"
    by (simp only: sum.case prod.case)
  then obtain a where a: "requireAuthority demo_env (serve system_op ?xs d1) (scheduleActor run_gid (oi_id demo_ids)) run_need = Inr a"
    by (rule succeedsE)
  have s: "demo_schedule \<in> set (schedules admit_db)" "sc_id demo_schedule = ''c''" "sc_grant_epoch demo_schedule = 1"
    by (simp_all add: admit_db_def schedule_db_def demo_schedule_def)
  from pause_revokes_for_good [OF demo_sys_ok s(1) p a] show ?thesis using p s(2,3) by auto
qed

text \<open>C23: The emergency stop revokes every grant on the server for good: whatever requests follow, an
  actor is authorised only under a grant of a later epoch than its schedule had at the stop.\<close>

theorem emergency_revokes_for_good:
  assumes "sys_ok d" "requireAuthority e (serve system_op xs (emergencyPauseSchedules e0 d)) (scheduleActor gid oid) n = Inr a"
  shows "(\<forall>s \<in> set (schedules (emergencyPauseSchedules e0 d)). sc_state s = Paused) \<and>
    (\<exists>g \<in> set (schedule_grants (serve system_op xs (emergencyPauseSchedules e0 d))). gr_id g = gid \<and> \<not> gr_revoked g \<and>
      (\<forall>s \<in> set (schedules d). sc_id s = gr_schedule g \<longrightarrow> sc_grant_epoch s < gr_epoch g))"
proof -
  let ?d = "emergencyPauseSchedules e0 d"
  have ok: "sys_ok ?d" using goodD [OF good_emergency assms(1)] .
  have S: "schedules ?d = map (stop_schedule e0 ''EMERGENCY_STOP'') (schedules d)" by (simp add: emergencyPauseSchedules_def)
  have "\<forall>g \<in> set (schedule_grants ?d). gr_revoked g" unfolding emergencyPauseSchedules_def by auto
  then have rev: "\<forall>g \<in> set (schedule_grants ?d). gr_schedule g = sid \<longrightarrow> gr_revoked g" for sid by blast
  have en: "\<exists>g \<in> set (schedule_grants (serve system_op xs ?d)). gr_id g = gid \<and> \<not> gr_revoked g \<and>
    (gr_schedule g = sid \<longrightarrow> (\<forall>s \<in> set (schedules ?d). sc_id s = sid \<longrightarrow> sc_grant_epoch s < gr_epoch g))" for sid
    by (rule revoked_for_good [OF ok rev assms(2)])
  have dist: "distinct (map gr_id (schedule_grants (serve system_op xs ?d)))"
    using schedule_system.serve_keeps [OF ok, of xs] by (simp add: sys_ok_def schedules_ok_def)
  obtain g where g: "g \<in> set (schedule_grants (serve system_op xs ?d))" "gr_id g = gid" "\<not> gr_revoked g"
    using en by blast
  obtain g' where g': "g' \<in> set (schedule_grants (serve system_op xs ?d))" "gr_id g' = gid"
    "gr_schedule g' = gr_schedule g \<longrightarrow> (\<forall>s \<in> set (schedules ?d). sc_id s = gr_schedule g \<longrightarrow> sc_grant_epoch s < gr_epoch g')"
    using en [of "gr_schedule g"] by blast
  have "g' = g" using distinct_keyD [OF dist g'(1) g(1)] g'(2) g(2) by simp
  then have "\<forall>s \<in> set (schedules ?d). sc_id s = gr_schedule g \<longrightarrow> sc_grant_epoch s < gr_epoch g" using g'(3) by simp
  then have "\<forall>s \<in> set (schedules d). sc_id s = gr_schedule g \<longrightarrow> sc_grant_epoch s < gr_epoch g" unfolding S by simp
  then show ?thesis using g unfolding S by auto
qed

theorem emergency_revokes_for_good_witness:
  "\<exists>g. g \<in> set (schedule_grants (serve system_op [demo_request (RunNow 1 run_gid demo_ids)] (emergencyPauseSchedules demo_env admit_db))) \<and>
     gr_id g = run_gid \<and> (\<forall>s \<in> set (schedules admit_db). sc_id s = gr_schedule g \<longrightarrow> sc_grant_epoch s < gr_epoch g)"
proof -
  let ?xs = "[demo_request (RunNow 1 run_gid demo_ids)]"
  have "succeeds (requireAuthority demo_env (serve system_op ?xs (emergencyPauseSchedules demo_env admit_db))
      (scheduleActor run_gid (oi_id demo_ids)) run_need)"
    by code_simp
  then obtain a where "requireAuthority demo_env (serve system_op ?xs (emergencyPauseSchedules demo_env admit_db))
      (scheduleActor run_gid (oi_id demo_ids)) run_need = Inr a"
    by (rule succeedsE)
  from emergency_revokes_for_good [OF demo_sys_ok this] show ?thesis by blast
qed

end
