(* ===== verification/Schedule_Receipts.thy ===== *)
theory Schedule_Receipts
  imports Schedule_System
begin

text \<open>
  Receipts of management commands (\<open>Schedule_Commands\<close>): an ordinary command leaves one under its
  key, and a pause gets through whatever the state of the quotas.
\<close>

section \<open>Authorities\<close>

lemma requireAuthority_kind:
  assumes "requireAuthority e d actor n = Inr a"
  shows "au_kind a = TokenAuthority \<longleftrightarrow> starts_with ''pat:'' actor"
proof (cases "starts_with ''schedule:'' actor")
  case True
  then have s: "requireScheduleAuthority e d actor n (direct_authority e d) = Inr a"
    using assms by (simp add: requireAuthority_def)
  have "au_kind a = ScheduleAuthority"
    using s
  proof (rule requireScheduleAuthority_Inr)
    fix gid oid kind target and g :: grant_row and s :: schedule_row and r :: occurrence_row and v :: version_row
    assume "check_grant e n kind target actor (g, s, r, v) = Inr a"
    then show ?thesis
      unfolding check_grant_def prod.case
      by (auto split: if_split_asm option.split_asm dest!: if_denied(1) grant_verdict_Inr)
  qed
  moreover have "\<not> starts_with ''pat:'' actor"
  proof
    assume p: "starts_with ''pat:'' actor"
    have t: "take 9 actor = ''schedule:''" using True by (simp add: starts_with_def eval_nat_numeral)
    have "take 4 actor = take 4 (take 9 actor)" by (simp only: take_take) simp
    also have "\<dots> = ''sche''" unfolding t by simp
    finally show False using p by (simp add: starts_with_def eval_nat_numeral)
  qed
  ultimately show ?thesis by simp
next
  case False
  then have "direct_authority e d actor n = Inr a" using assms by (simp add: requireAuthority_def)
  then show ?thesis
    by (auto simp: direct_authority_def split: if_split_asm dest!: browser_authority_Inr token_authority_Inr)
qed

text \<open>The tables that decide about a caller who is not a schedule.\<close>

definition caller_tables :: "db \<Rightarrow> string \<times> browser_row list \<times> token_row list" where
  "caller_tables d = (meta_identity_pin d, browser_sessions d, api_tokens d)"

lemma direct_authority_cong:
  assumes "caller_tables d' = caller_tables d"
  shows "direct_authority e d' = direct_authority e d"
proof -
  have c: "meta_identity_pin d' = meta_identity_pin d" "browser_sessions d' = browser_sessions d" "api_tokens d' = api_tokens d"
    using assms by (simp_all add: caller_tables_def)
  have "browser_live e d' = browser_live e d" "token_live e d' = token_live e d"
    by (simp_all add: fun_eq_iff browser_live_def token_live_def c)
  then show ?thesis by (simp add: fun_eq_iff direct_authority_def browser_authority_def token_authority_def c)
qed

lemma requireAuthority_direct:
  "\<not> starts_with ''schedule:'' actor \<Longrightarrow> requireAuthority e d actor = direct_authority e d actor"
  by (simp add: fun_eq_iff requireAuthority_def)

lemma revoked_all: "\<forall>g \<in> set (schedule_grants (revoke_grants (\<lambda>g. gr_schedule g = i) d)). gr_schedule g = i \<longrightarrow> gr_revoked g"
proof (intro ballI impI)
  fix g assume g: "g \<in> set (schedule_grants (revoke_grants (\<lambda>g. gr_schedule g = i) d))" "gr_schedule g = i"
  then obtain y where y: "g = (if gr_schedule y = i then y\<lparr>gr_revoked := True\<rparr> else y)"
    unfolding revoke_grants_simps set_map by blast
  show "gr_revoked g"
  proof (cases "gr_schedule y = i")
    case True
    then show ?thesis unfolding y by simp
  next
    case False
    then show ?thesis using g(2) unfolding y by simp
  qed
qed

section \<open>The receipt of an ordinary command\<close>

lemma insert_command_Inr:
  assumes "insert_command c d = Inr d'"
  shows "d' = d\<lparr>schedule_commands := schedule_commands d @ [c]\<rparr>"
    "\<And>x. x \<in> set (schedule_commands d) \<Longrightarrow> cm_actor x = cm_actor c \<Longrightarrow> cm_key x \<noteq> cm_key c"
  using assms by (auto simp: insert_command_def split: if_split_asm)

lemma execute_ordinary:
  assumes "execute_command e bytes rq who key fresh s action d = Inr (r, d')" "rq_control rq = None"
    and "\<forall>c \<in> set (schedule_commands d). cm_slot c \<noteq> ''ordinary:'' @ fresh"
  obtains c where "receipt_find who key d' = Some c" "cm_result c = r" "cm_request_hash c = hash e (rq_text rq)"
    "cm_retry_until c = max (now e) (key_ms key) + 86400000"
proof -
  have "slot_find (sc_id s) (command_slot None (sc_grant_epoch s) fresh) d = None"
    using assms(3) by (auto simp: slot_find_def find_is_None command_slot_def)
  with assms(1,2) obtain d1 where i: "insert_command \<lparr> cm_schedule = sc_id s, cm_slot = command_slot None (sc_grant_epoch s) fresh,
      cm_actor = who, cm_grant_epoch = None, cm_occurrence = None, cm_key = key,
      cm_request_hash = hash e (rq_text rq), cm_result = r,
      cm_retry_until = max (now e) (key_ms key) + 86400000 \<rparr> d1 = Inr d'"
    unfolding execute_command_def Let_def by (auto simp: res_simps control_target_def split: if_split_asm)
  note I = insert_command_Inr [OF i]
  have "receipt_find who key d1 = None" using I(2) by (auto simp: receipt_find_def find_is_None)
  then have "receipt_find who key d' = Some \<lparr> cm_schedule = sc_id s, cm_slot = command_slot None (sc_grant_epoch s) fresh,
      cm_actor = who, cm_grant_epoch = None, cm_occurrence = None, cm_key = key,
      cm_request_hash = hash e (rq_text rq), cm_result = r, cm_retry_until = max (now e) (key_ms key) + 86400000 \<rparr>"
    unfolding I(1) by (simp add: receipt_find_def)
  then show thesis by (rule that) simp_all
qed

text \<open>The first request under a key leaves its receipt, with the end of its retry window.\<close>

lemma scheduleCommand_receipt:
  assumes "scheduleCommand e bytes rq fresh action d = Inr (r, d')" "rq_control rq = None" "rq_key rq = Some key"
    and "\<forall>c \<in> set (schedule_commands d). cm_slot c \<noteq> ''ordinary:'' @ fresh \<and> cm_key c \<noteq> key"
  obtains a c where "requireAuthority e d (rq_actor rq) (rq_need rq) = Inr a"
    "receipt_find (intent_actor e a (rq_actor rq)) key d' = Some c" "cm_result c = r"
    "cm_request_hash c = hash e (rq_text rq)" "cm_retry_until c = max (now e) (key_ms key) + 86400000"
proof -
  from assms(1) obtain a where a: "requireAuthority e d (rq_actor rq) (rq_need rq) = Inr a"
    by (auto simp: scheduleCommand_def res_simps)
  let ?who = "intent_actor e a (rq_actor rq)"
  have "receipt_find ?who key d = None" using assms(4) by (auto simp: receipt_find_def find_is_None)
  with assms(1,3) a obtain s k where k: "checkKey (JStr key) (now e) = Inr k"
    and x: "execute_command e bytes rq ?who k fresh s action (remove_commands (expired_commands e (sc_id s) d) d) = Inr (r, d')"
    by (auto simp: scheduleCommand_def res_simps key_string_def key_json_def)
  have "k = key" using k by (auto simp: res_simps)
  moreover have "\<forall>c \<in> set (schedule_commands (remove_commands (expired_commands e (sc_id s) d) d)). cm_slot c \<noteq> ''ordinary:'' @ fresh"
    using assms(4) by (simp add: remove_commands_def table_simps)
  ultimately show thesis using execute_ordinary [OF x assms(2)] that [OF a] by metis
qed

section \<open>Properties\<close>

text \<open>A pause always gets through. Whatever the command history and its quota, an owner who may
  manage the schedule, who names its current revision and has not yet paused it in this epoch, has
  the request accepted, even in maintenance: the schedule is paused, every one of its grants is
  revoked, and a receipt is kept under the key.\<close>

theorem pause_accepted:
  assumes "sys_ok d" "schedule_find sid d = Some s" "\<not> starts_with ''schedule:'' actor"
    and "requireAuthority e d actor manage_route_need = Inr a"
    and "requireAuthority e d actor (manage_route_need\<lparr>nd_project := Some (sc_project s)\<rparr>) = Inr a'"
    and "\<not> dep_activation_required d" "checkKey (JStr key) (now e) = Inr key"
    and "receipt_find (intent_actor e a actor) key d = None"
    and "\<forall>c \<in> set (schedule_commands d). cm_schedule c = sid \<longrightarrow> cm_slot c \<noteq> ''pause:'' @ nat_text (sc_grant_epoch s)"
    and "\<forall>j. bytes j \<le> 8192"
  shows "\<exists>d'. mutate e bytes st ot actor sid (Some key) body (Pause (sc_config_revision s)) fresh d =
      Inr (JObj [schedule_json (sid, sc_config_revision s, Paused)], d') \<and>
    (\<forall>x \<in> set (schedules d'). sc_id x = sid \<longrightarrow> sc_state x = Paused) \<and>
    (\<forall>g \<in> set (schedule_grants d'). gr_schedule g = sid \<longrightarrow> gr_revoked g) \<and>
    (\<exists>c. receipt_find (intent_actor e a actor) key d' = Some c)"
proof -
  let ?n = "sc_config_revision s" and ?who = "intent_actor e a actor"
  let ?need = "manage_route_need\<lparr>nd_project := Some (sc_project s)\<rparr>"
  let ?rq = "\<lparr> rq_actor = actor, rq_schedule = sid, rq_key = Some key, rq_text = body,
       rq_need = manage_route_need, rq_control = Some PauseControl \<rparr>"
  let ?action = "management_action e st ot actor (Pause ?n)"
  define d0 where "d0 = remove_commands (expired_commands e (sc_id s) d) d"
  define d1 where "d1 = revoke_grants (\<lambda>g. gr_schedule g = sc_id s) (update_schedule (sc_id s) (stop_schedule e ''OWNER_PAUSED'') d0)"
  define j where "j = JObj [schedule_json (sid, ?n, Paused)]"
  define c where "c = \<lparr> cm_schedule = sc_id s, cm_slot = ''pause:'' @ nat_text (sc_grant_epoch s), cm_actor = ?who,
     cm_grant_epoch = Some (sc_grant_epoch s), cm_occurrence = None, cm_key = key, cm_request_hash = hash e body,
     cm_result = j, cm_retry_until = max (now e) (key_ms key) + 86400000 \<rparr>"
  have sid: "sc_id s = sid" "s \<in> set (schedules d)" using schedule_rows_find(1) [OF assms(2)] by simp_all
  have cmds: "set (schedule_commands d0) \<subseteq> set (schedule_commands d)" by (auto simp: d0_def remove_commands_def table_simps)
  have same: "caller_tables d0 = caller_tables d" "caller_tables d1 = caller_tables d" "dep_activation_required d1 = dep_activation_required d"
    by (simp_all add: d0_def d1_def remove_commands_def caller_tables_def revoke_grants_def update_schedule_def)
  have auth: "requireAuthority e d0 actor ?need = Inr a'" "requireAuthority e d1 actor ?need = Inr a'"
    using assms(5) by (simp_all add: requireAuthority_direct [OF assms(3)] direct_authority_cong [OF same(1)] direct_authority_cong [OF same(2)])
  have kind: "au_kind a \<noteq> ScheduleAuthority"
    using assms(4) direct_authority_kind by (simp add: requireAuthority_direct [OF assms(3)])
  have act: "?action d0 s = Inr (j, d1)"
    by (simp add: pauseSchedule_def expectedRevision_def d1_def j_def sid)
  have slot: "slot_find (sc_id s) (''pause:'' @ nat_text (sc_grant_epoch s)) d0 = None"
    using assms(9) cmds by (auto simp: slot_find_def find_is_None sid)
  have C1: "schedule_commands d1 = schedule_commands d0" by (simp add: d1_def)
  have no_slot: "\<not> exists_row (\<lambda>x. cm_schedule x = cm_schedule c \<and> cm_slot x = cm_slot c) (schedule_commands d1)"
    using assms(9) cmds unfolding C1 c_def by (auto simp: sid)
  have no_key: "\<not> exists_row (\<lambda>x. cm_actor x = cm_actor c \<and> cm_key x = cm_key c) (schedule_commands d1)"
    using assms(8) cmds unfolding C1 c_def by (auto simp: receipt_find_def find_is_None)
  have epoch: "exists_row (\<lambda>g. gr_schedule g = cm_schedule c \<and> Some (gr_epoch g) = cm_grant_epoch c) (schedule_grants d1)"
  proof -
    obtain g where "g \<in> set (schedule_grants d)" "gr_schedule g = sc_id s" "gr_epoch g = sc_grant_epoch s"
      using assms(1) sid(2) unfolding sys_ok_def schedules_ok_def by blast
    moreover from this have "g\<lparr>gr_revoked := True\<rparr> \<in> set (schedule_grants d1)"
      unfolding d1_def revoke_grants_simps set_map
      by (intro image_eqI [of _ _ g]) (simp_all add: d0_def remove_commands_def)
    ultimately show ?thesis unfolding exists_row_iff by (intro bexI [of _ "g\<lparr>gr_revoked := True\<rparr>"]) (simp_all add: c_def)
  qed
  have ins: "insert_command c d1 = Inr (d1\<lparr>schedule_commands := schedule_commands d1 @ [c]\<rparr>)"
    unfolding insert_command_def using no_slot no_key epoch by (simp add: c_def)
  have ex: "execute_command e bytes ?rq ?who key fresh s ?action d0 = Inr (j, d1\<lparr>schedule_commands := schedule_commands d1 @ [c]\<rparr>)"
    unfolding execute_command_def Let_def
    using slot auth act ins assms(10) by (simp add: control_target_def command_slot_def c_def not_less)
  have "mutate e bytes st ot actor sid (Some key) body (Pause ?n) fresh d = Inr (j, d1\<lparr>schedule_commands := schedule_commands d1 @ [c]\<rparr>)"
    using ex assms(2,4-8) kind unfolding mutate_def scheduleCommand_def
    by (simp add: deploymentAdmission_def key_string_def key_json_def d0_def [symmetric])
  moreover have "\<forall>x \<in> set (schedules (d1\<lparr>schedule_commands := schedule_commands d1 @ [c]\<rparr>)). sc_id x = sid \<longrightarrow> sc_state x = Paused"
  proof (intro ballI impI)
    have S: "schedules (d1\<lparr>schedule_commands := z\<rparr>) = schedules d1" for z by simp
    fix x assume x: "x \<in> set (schedules (d1\<lparr>schedule_commands := schedule_commands d1 @ [c]\<rparr>))" "sc_id x = sid"
    have "x \<in> (\<lambda>y. if sc_id y = sid then stop_schedule e ''OWNER_PAUSED'' y else y) ` set (schedules d0)"
      using x(1) unfolding S unfolding d1_def by (simp only: revoke_grants_simps update_schedule_simps set_update_where sid(1))
    then obtain y where y: "x = (if sc_id y = sid then stop_schedule e ''OWNER_PAUSED'' y else y)" by blast
    then show "sc_state x = Paused" using x(2) by (cases "sc_id y = sid") simp_all
  qed
  moreover have "\<forall>g \<in> set (schedule_grants (d1\<lparr>schedule_commands := schedule_commands d1 @ [c]\<rparr>)). gr_schedule g = sid \<longrightarrow> gr_revoked g"
  proof -
    have "schedule_grants (d1\<lparr>schedule_commands := z\<rparr>) = schedule_grants d1" for z by simp
    then show ?thesis using revoked_all unfolding sid(1) [symmetric] d1_def by metis
  qed
  moreover have "receipt_find ?who key (d1\<lparr>schedule_commands := schedule_commands d1 @ [c]\<rparr>) = Some c"
  proof -
    have "receipt_find ?who key d1 = None" using no_key by (auto simp: receipt_find_def find_is_None c_def)
    then show ?thesis by (simp add: receipt_find_def c_def)
  qed
  ultimately show ?thesis unfolding j_def by blast
qed

theorem pause_accepted_witness:
  "\<exists>d'. mutate demo_env (\<lambda>_. 1) (\<lambda>_. []) (\<lambda>_. JNull) ''b'' ''c'' (Some demo_key) ''body'' (Pause 1) ''f1'' admit_db =
      Inr (JObj [schedule_json (''c'', 1, Paused)], d')"
proof -
  have f: "schedule_find ''c'' admit_db = Some demo_schedule" "sc_config_revision demo_schedule = 1"
    by (simp_all add: schedule_find_def admit_db_def demo_defs)
  have "case requireAuthority demo_env admit_db ''b'' manage_route_need of Inl _ \<Rightarrow> False | Inr a \<Rightarrow>
      succeeds (requireAuthority demo_env admit_db ''b'' (manage_route_need\<lparr>nd_project := Some (sc_project demo_schedule)\<rparr>)) \<and>
      receipt_find (intent_actor demo_env a ''b'') demo_key admit_db = None"
    by code_simp
  then obtain a a' where a: "requireAuthority demo_env admit_db ''b'' manage_route_need = Inr a"
    "requireAuthority demo_env admit_db ''b'' (manage_route_need\<lparr>nd_project := Some (sc_project demo_schedule)\<rparr>) = Inr a'"
    "receipt_find (intent_actor demo_env a ''b'') demo_key admit_db = None"
    by (auto split: sum.splits elim!: succeedsE)
  have k: "checkKey (JStr demo_key) (now demo_env) = Inr demo_key" by code_simp
  have x: "\<not> starts_with ''schedule:'' ''b''" "\<not> dep_activation_required admit_db"
    "\<forall>c \<in> set (schedule_commands admit_db). cm_schedule c = ''c'' \<longrightarrow> cm_slot c \<noteq> ''pause:'' @ nat_text (sc_grant_epoch demo_schedule)"
    by (simp_all add: starts_with_def admit_db_def demo_defs)
  have "\<forall>j. (\<lambda>_ :: json. 1 :: nat) j \<le> 8192" by simp
  from pause_accepted [OF demo_sys_ok f(1) x(1) a(1,2) x(2) k a(3) x(3) this, of "\<lambda>_. []" "\<lambda>_. JNull" "''body''" "''f1''"]
  show ?thesis unfolding f(2) by blast
qed

end
