(* ===== verification/Schedule_Outcomes.thy ===== *)
theory Schedule_Outcomes
  imports Schedule_Receipts
begin

text \<open>
  What one step of the planner (\<open>Schedule_Planner\<close>) and one settlement
  (\<open>Schedule_Execution\<close>) bring about.
\<close>

section \<open>The frozen batch\<close>

text \<open>The missed minutes a schedule still has to work through.\<close>

definition batch_of :: "uuid \<Rightarrow> db \<Rightarrow> batch option" where
  "batch_of i d = (case schedule_find i d of None \<Rightarrow> None | Some s \<Rightarrow> sc_catch_up s)"

lemma batch_of_map:
  assumes "map_option sc_catch_up (schedule_find i d') = map_option sc_catch_up (schedule_find i d)"
  shows "batch_of i d' = batch_of i d"
  using assms unfolding batch_of_def by (cases "schedule_find i d"; cases "schedule_find i d'") auto

lemma batch_of_where:
  assumes "\<And>s. sc_id (f s) = sc_id s"
  shows "batch_of i (d\<lparr>schedules := update_where P f (schedules d)\<rparr>) =
    (case schedule_find i d of None \<Rightarrow> None | Some s \<Rightarrow> if P s then sc_catch_up (f s) else sc_catch_up s)"
proof -
  have "schedule_find i (d\<lparr>schedules := update_where P f (schedules d)\<rparr>) =
      map_option (\<lambda>s. if P s then f s else s) (schedule_find i d)"
    unfolding schedule_find_def by simp (rule find_update_where_key [where key = sc_id], rule assms)
  then show ?thesis unfolding batch_of_def by (simp split: option.split)
qed

lemma batch_of_keep:
  assumes "\<And>s. sc_id (f s) = sc_id s \<and> sc_catch_up (f s) = sc_catch_up s"
  shows "batch_of i (d\<lparr>schedules := update_where P f (schedules d)\<rparr>) = batch_of i d"
proof -
  have "sc_id (f s) = sc_id s" for s using assms by blast
  then have w: "batch_of i (d\<lparr>schedules := update_where P f (schedules d)\<rparr>) =
      (case schedule_find i d of None \<Rightarrow> None | Some s \<Rightarrow> if P s then sc_catch_up (f s) else sc_catch_up s)"
    by (rule batch_of_where)
  show ?thesis unfolding w using assms unfolding batch_of_def by (simp split: option.split)
qed

lemma batch_of_frame:
  assumes "prune_frame d' = prune_frame d"
  shows "batch_of i d' = batch_of i d"
proof (rule batch_of_map)
  have "map_option sc_catch_up (map_option (\<lambda>s. s\<lparr>sc_last_pruned := None\<rparr>) x) = map_option sc_catch_up x" for x :: "schedule_row option"
    by (cases x) simp_all
  then show "map_option sc_catch_up (schedule_find i d') = map_option sc_catch_up (schedule_find i d)"
    using arg_cong [OF prune_frame_find [OF assms, of i], of "map_option sc_catch_up"] by simp
qed

lemma batch_of_same: "schedules d' = schedules d \<Longrightarrow> batch_of i d' = batch_of i d"
  by (simp add: batch_of_def schedule_find_def)

lemma batch_of_admit:
  assumes "admitRecurringOccurrence e sid m next x ids d = Inr ((i, b), d')"
  shows "batch_of j d' = batch_of j d"
proof (cases b)
  case True
  then show ?thesis using admit_replay [of e sid m "next" x ids d i d'] assms by simp
next
  case False
  then have "admitRecurringOccurrence e sid m next x ids d = Inr ((i, False), d')" using assms by simp
  then show ?thesis
  proof (rule admission_rows)
    fix s :: schedule_row and v :: version_row and d1 d3 src place n
    assume c: "occurrenceCapacity e sid d = Inr d1" and w: "ws_only d1 d3"
      and d': "d' = update_schedule sid (moved e m next) (inserted d1
        (new_occurrence e ids s (sv_config v) (sv_prompt v) Recurring (mn_instant m) (Some m) src place) n d3)"
    let ?x = "inserted d1 (new_occurrence e ids s (sv_config v) (sv_prompt v) Recurring (mn_instant m) (Some m) src place) n d3"
    have "batch_of j ?x = batch_of j d1" by (rule batch_of_same) (simp only: inserted_simps ws_onlyD(1) [OF w])
    moreover have "batch_of j (update_schedule sid (moved e m next) y) = batch_of j y" for y
      unfolding update_schedule_def by (rule batch_of_keep) (simp add: moved_def)
    ultimately have "batch_of j d' = batch_of j d1" by (simp only: d')
    then show ?thesis using batch_of_frame [OF occurrenceCapacity_frame [OF c]] by simp
  qed
qed

definition next_batch :: "batch \<Rightarrow> batch" where
  "next_batch b = b\<lparr>bt_minutes := tl (bt_minutes b)\<rparr>"

lemma batch_of_Some: "batch_of i d = Some b \<Longrightarrow> \<exists>s. schedule_find i d = Some s \<and> sc_catch_up s = Some b \<and> sc_id s = i"
  unfolding batch_of_def using schedule_rows_find(1) by (auto split: option.split_asm)

lemma batch_of_attention_tx:
  assumes "attention_tx fence h f d = Inr (u, d')" "\<And>s. sc_id (f s) = sc_id s \<and> sc_catch_up (f s) = sc_catch_up s"
  shows "batch_of i d' = batch_of i d"
proof -
  have "d' = mark_attention h f d" using assms(1) by (auto simp: attention_tx_def res_simps Let_def)
  then show ?thesis using batch_of_keep [OF assms(2)] unfolding mark_attention_def by simp
qed

lemma attention_keeps [simp]:
  "sc_id (attention w s) = sc_id s \<and> sc_catch_up (attention w s) = sc_catch_up s"
  "sc_id (attention_at e w s) = sc_id s \<and> sc_catch_up (attention_at e w s) = sc_catch_up s"
  by (simp_all add: attention_def attention_at_def)

lemma batch_of_admit_tx:
  assumes "admit_tx e fence h b m ids d = Inr (u, d')" "batch_of (sc_id h) d = Some b"
  shows "batch_of (sc_id h) d' = Some (next_batch b)"
proof -
  from assms(1) obtain i r d1 where a: "admitRecurringOccurrence e (sc_id h) m (bt_next b) (Some (plan_expectation h b)) ids d = Inr ((i, r), d1)"
    and d': "d' = consume (sc_id h) b d1"
    by (auto simp: admit_tx_def res_simps Let_def)
  have "batch_of (sc_id h) d1 = Some b" using batch_of_admit [OF a] assms(2) by simp
  then obtain s where s: "schedule_find (sc_id h) d1 = Some s" "sc_catch_up s = Some b" "sc_id s = sc_id h"
    using batch_of_Some by blast
  show ?thesis unfolding d' consume_def
    by (subst batch_of_where) (simp_all add: s next_batch_def)
qed

lemma batch_of_skip_tx:
  assumes "skip_tx e fence sid b m ids d = Inr (u, d')" "batch_of sid d = Some b"
  shows "batch_of sid d' \<in> {Some b, Some (next_batch b)}"
proof (cases "find (\<lambda>s. sc_id s = sid \<and> sc_state s = Enabled \<and> sc_catch_up s = Some b) (schedules d)")
  case None
  then show ?thesis using assms by (auto simp: skip_tx_def res_simps)
next
  case (Some cur)
  let ?f = "\<lambda>s. s\<lparr>sc_cursor_at := mn_instant m, sc_catch_up := Some (b\<lparr>bt_minutes := tl (bt_minutes b)\<rparr>)\<rparr>"
  from assms(1) obtain d1 d2 where h: "history_room e sid d = Inr d1"
    and i: "(if recurring_find sid (Some (sc_rule_revision cur)) (mn_local m) d1 \<noteq> None then Inr d1 else
      insert_occurrence (skipped_row e ids cur Recurring (Some (mn_local m)) (mn_instant m) (SkippedMinute m) ''OVERLAP'') d1) = Inr d2"
    and d': "d' = update_schedule sid ?f d2"
    unfolding skip_tx_def Some option.case res_simps by blast
  have "schedules d2 = schedules d1" using i by (auto split: if_split_asm dest!: insert_occurrence_Inr(1))
  then have "batch_of sid d2 = Some b" using batch_of_same batch_of_frame [OF history_room_Inr(4) [OF h]] assms(2) by metis
  then obtain s where s: "schedule_find sid d2 = Some s" "sc_catch_up s = Some b" "sc_id s = sid" using batch_of_Some by blast
  have "batch_of sid d' = Some (next_batch b)"
    unfolding d' update_schedule_def by (subst batch_of_where) (simp_all add: s next_batch_def)
  then show ?thesis by simp
qed

lemma batch_of_finish_tx:
  assumes "finish_tx e fence sid b ids d = Inr (u, d')" "batch_of sid d = Some b"
  shows "batch_of sid d' \<in> {Some b, None}"
proof -
  from assms(1) consider "d' = d" | d2 busy where "d' = update_schedule sid (finished e b busy) d2"
    unfolding finish_tx_def by (auto simp: res_simps split: option.split_asm if_split_asm)
  then show ?thesis
  proof cases
    case (2 d2 busy)
    have "batch_of sid d' = None"
      unfolding 2 update_schedule_def
      by (subst batch_of_where) (auto simp: finished_def split: option.split dest: schedule_rows_find(1))
    then show ?thesis by simp
  qed (use assms(2) in simp)
qed

lemma planSchedule_batch:
  assumes "schedule_find sid d = Some s" "sc_catch_up s = Some b" "batch_of sid d \<in> S"
    and "batch_of sid (snd (plan_batch e fence s b ids d)) \<in> S"
    and "\<And>w. batch_of sid (snd (transaction (attention_tx fence s (attention_at e w)) d)) \<in> S"
  shows "batch_of sid (snd (planSchedule e fence sid ids d)) \<in> S"
  using assms(3-5) unfolding planSchedule_def assms(1) option.case plan_hint_def assms(2)
  by (simp split: option.split)

lemma batch_of_transaction:
  assumes "batch_of i d \<in> S" "\<And>r d'. f d = Inr (r, d') \<Longrightarrow> batch_of i d' \<in> S"
  shows "batch_of i (snd (transaction f d)) \<in> S"
  using assms by (auto simp: transaction_def split: sum.split)

lemma plan_batch_minutes:
  assumes "batch_of (sc_id h) d = Some b" "bt_minutes b = m # ms"
  shows "batch_of (sc_id h) (snd (plan_batch e fence h b ids d)) \<in> {Some b, Some (next_batch b)}"
proof -
  obtain r d1 where t: "transaction (admit_tx e fence h b m ids) d = (r, d1)" by (cases "transaction (admit_tx e fence h b m ids) d")
  have in1: "batch_of (sc_id h) d1 \<in> {Some b, Some (next_batch b)}"
    using batch_of_transaction [of "sc_id h" d "{Some b, Some (next_batch b)}" "admit_tx e fence h b m ids"]
      batch_of_admit_tx assms(1) t by auto
  show ?thesis
  proof (cases r)
    case (Inr u)
    then show ?thesis using in1 by (simp add: plan_batch_def assms(2) t)
  next
    case (Inl x)
    then have "d1 = d" using t by (auto simp: transaction_def split: sum.split_asm)
    then have b1: "batch_of (sc_id h) d1 = Some b" using assms(1) by simp
    have s: "batch_of (sc_id h) (snd (transaction (skip_tx e fence (sc_id h) b m ids) d1)) \<in> {Some b, Some (next_batch b)}"
      by (rule batch_of_transaction) (use b1 batch_of_skip_tx in blast)+
    have a: "batch_of (sc_id h) (snd (transaction (attention_tx fence h (attention c)) d1)) \<in> {Some b, Some (next_batch b)}" for c
      by (rule batch_of_transaction) (use b1 batch_of_attention_tx [OF _ attention_keeps(1)] in auto)
    show ?thesis using s a b1 Inl by (auto simp: plan_batch_def assms(2) t split: failure.split)
  qed
qed

section \<open>Properties\<close>

text \<open>The missed window is decided once. As long as a schedule has a frozen batch of minutes, a run
  of the planner leaves that batch as it is, or takes exactly its first minute off, or, when no
  minute is left, closes it; it never adds or exchanges a minute and never starts another batch
  over it, whatever the clock, the rule or the outcome of an admission.\<close>

theorem batch_only_shrinks:
  assumes "schedule_find sid d = Some s" "sc_catch_up s = Some b"
  shows "batch_of sid (snd (planSchedule e fence sid ids d)) \<in>
    (if bt_minutes b = [] then {Some b, None} else {Some b, Some (b\<lparr>bt_minutes := tl (bt_minutes b)\<rparr>)})"
    (is "_ \<in> ?S")
proof -
  have sid: "sc_id s = sid" using schedule_rows_find(1) [OF assms(1)] by simp
  have b: "batch_of sid d = Some b" using assms by (simp add: batch_of_def)
  have pb: "batch_of sid (snd (plan_batch e fence s b ids d)) \<in> ?S"
  proof (cases "bt_minutes b")
    case Nil
    have "batch_of sid (snd (transaction (finish_tx e fence sid b ids) d)) \<in> {Some b, None}"
      by (rule batch_of_transaction) (use b batch_of_finish_tx in blast)+
    then show ?thesis using Nil sid by (simp add: plan_batch_def)
  next
    case (Cons m ms)
    then show ?thesis using plan_batch_minutes [of s d b m ms] b sid by (simp add: next_batch_def)
  qed
  have a: "batch_of sid (snd (transaction (attention_tx fence s (attention_at e w)) d)) \<in> ?S" for w
    by (rule batch_of_transaction) (use b batch_of_attention_tx [OF _ attention_keeps(2)] in auto)
  have "batch_of sid d \<in> ?S" using b by simp
  then show ?thesis using pb a by (rule planSchedule_batch [OF assms])
qed

definition batch_db :: db where
  "batch_db = admit_db\<lparr>schedules := [demo_schedule\<lparr>sc_catch_up := Some \<lparr> bt_range_from = None, bt_through = 1000000,
     bt_next = Some 3600000, bt_minutes = [due_minute_demo], bt_excluded = [''m''] \<rparr>\<rparr>]\<rparr>"

theorem batch_only_shrinks_witness:
  "map_option bt_minutes (batch_of ''c'' batch_db) = Some [due_minute_demo] \<and>
   map_option bt_minutes (batch_of ''c'' (snd (planSchedule demo_env (\<lambda>_. Inr ()) ''c'' demo_ids batch_db))) = Some [] \<and>
   batch_of ''c'' (snd (planSchedule demo_env (\<lambda>_. Inr ()) ''c'' demo_ids batch_db)) \<noteq> None"
proof (intro conjI)
  let ?b = "\<lparr> bt_range_from = None, bt_through = 1000000, bt_next = Some 3600000, bt_minutes = [due_minute_demo], bt_excluded = [''m''] \<rparr>"
  show m: "map_option bt_minutes (batch_of ''c'' batch_db) = Some [due_minute_demo]" by code_simp
  show "map_option bt_minutes (batch_of ''c'' (snd (planSchedule demo_env (\<lambda>_. Inr ()) ''c'' demo_ids batch_db))) = Some []"
    by code_simp
  have "schedule_find ''c'' batch_db = Some (demo_schedule\<lparr>sc_catch_up := Some ?b\<rparr>)"
    by (simp add: schedule_find_def batch_db_def demo_schedule_def)
  from batch_only_shrinks [OF this, of ?b demo_env "\<lambda>_. Inr ()" demo_ids]
  show "batch_of ''c'' (snd (planSchedule demo_env (\<lambda>_. Inr ()) ''c'' demo_ids batch_db)) \<noteq> None" by auto
qed

section \<open>Choosing the batch\<close>

lemma recentMinutes_window:
  assumes "recentMinutes cal r after through limit = Inr ms"
  shows "length ms \<le> limit" "\<And>x. x \<in> set ms \<Longrightarrow> after < mn_instant x \<and> mn_instant x \<le> through"
proof -
  have "length ms \<le> limit \<and> (\<forall>x \<in> set ms. after < mn_instant x \<and> mn_instant x \<le> through)"
  proof (cases "after \<ge> through")
    case True
    then show ?thesis using assms by (auto simp: recentMinutes_def split: if_split_asm)
  next
    case False
    show ?thesis
    proof (cases r)
      case (Once l z)
      note k = assms [unfolded recentMinutes_def Once rule.case]
      have limit: "\<not> (limit < 1 \<or> limit > 3)" "\<not> through - after > 86400000" using k False by (auto split: if_split_asm)
      note k1 = k [unfolded if_not_P [OF limit(1)] if_not_P [OF False] if_not_P [OF limit(2)]]
      then obtain tz where z: "canonicalTimezone cal z = Inr tz" by (auto simp: res_simps)
      note k2 = k1 [unfolded z andThen_Inr]
      then obtain q where q: "cal_parse cal l = Some q" by (cases "cal_parse cal l") auto
      obtain d h m where dhm: "q = (d, h, m)" by (cases q)
      have "ms = (case mapMinute cal tz d h m of Some x \<Rightarrow> if after < mn_instant x \<and> mn_instant x \<le> through then [x] else [] | None \<Rightarrow> [])"
        using k2 [unfolded q dhm option.case prod.case sum.inject] by simp
      then show ?thesis using limit by (cases "mapMinute cal tz d h m") (auto split: if_split_asm)
    next
      case (Cron expr z)
      with assms False obtain tz c rs where limit: "0 < limit" and ms: "ms = sort_key mn_instant rs"
        and loop: "recent_loop cal tz c after through limit (cal_date cal tz after) (cal_date cal tz through) 0 0 [] = Inr rs"
        by (auto simp: recentMinutes_def res_simps split: if_split_asm)
      let ?L = "concat (map (\<lambda>d. sort_key (\<lambda>m. - mn_instant m) (day_minutes cal tz c (\<lambda>t. after < t \<and> t \<le> through) d))
        (rev [cal_date cal tz after..cal_date cal tz through]))"
      have rs: "rs = take limit ?L" using recent_loop_Inr [OF loop] limit by simp
      have "\<forall>x \<in> set ?L. after < mn_instant x \<and> mn_instant x \<le> through" by (simp add: day_minutes_iff)
      then show ?thesis using set_take_subset [of limit ?L] unfolding ms rs by auto
    qed
  qed
  then show "length ms \<le> limit" "\<And>x. x \<in> set ms \<Longrightarrow> after < mn_instant x \<and> mn_instant x \<le> through" by blast+
qed

lemma new_batch_Inr:
  assumes "new_batch e h c = Inr b"
  obtains due rest where "nextMinutes (calendar_of e) (cf_rule c) (sc_cursor_at h) 1 = Inr (due # rest)"
    "bt_range_from b = (if scheduler_now e - mn_instant due > 60000 then Some (sc_cursor_at h) else None)"
    "bt_through b = scheduler_now e" "bt_excluded b = map mn_local (bt_minutes b)"
    "(if scheduler_now e - mn_instant due > 60000 then missed_minutes e h c else Inr [due]) = Inr (bt_minutes b)"
proof -
  from assms obtain dues where d: "nextMinutes (calendar_of e) (cf_rule c) (sc_cursor_at h) 1 = Inr dues"
    by (auto simp: new_batch_def res_simps)
  note k = assms [unfolded new_batch_def d andThen_Inr]
  then obtain due rest where r: "dues = due # rest" by (cases dues) auto
  show thesis
    by (rule that [OF d [unfolded r]]) (use k in \<open>auto simp: r Let_def res_simps split: if_split_asm\<close>)
qed

text \<open>The batch the planner chooses is small and recent. It holds at most three minutes. When the next due
  minute is at most a minute old the batch is exactly that minute and records no gap; when it is
  older the gap since the cursor is recorded, and the minutes kept are none (missed runs skipped)
  or lie within the last 24 hours, after the cursor and not in the future (catching up).\<close>

theorem new_batch_bounded:
  assumes "new_batch e h c = Inr b"
  shows "length (bt_minutes b) \<le> 3 \<and> bt_through b = scheduler_now e \<and>
    (case bt_range_from b of
       None \<Rightarrow> (\<exists>due. bt_minutes b = [due] \<and> scheduler_now e - 60000 \<le> mn_instant due)
     | Some t \<Rightarrow> t = sc_cursor_at h \<and> (if cf_missed c = SkipMissed then bt_minutes b = []
         else \<forall>x \<in> set (bt_minutes b). sc_cursor_at h < mn_instant x \<and>
           scheduler_now e - 86400000 < mn_instant x \<and> mn_instant x \<le> scheduler_now e))"
  using assms
proof (rule new_batch_Inr)
  fix due rest
  assume f: "bt_range_from b = (if scheduler_now e - mn_instant due > 60000 then Some (sc_cursor_at h) else None)"
    and t: "bt_through b = scheduler_now e"
    and m: "(if scheduler_now e - mn_instant due > 60000 then missed_minutes e h c else Inr [due]) = Inr (bt_minutes b)"
  show ?thesis
  proof (cases "scheduler_now e - mn_instant due > 60000")
    case False
    with m have "[due] = bt_minutes b" by simp
    then show ?thesis using f t False by (simp add: eq_commute [of "[due]"])
  next
    case True
    with m have mm: "missed_minutes e h c = Inr (bt_minutes b)" by simp
    show ?thesis
    proof (cases "cf_missed c")
      case SkipMissed
      then show ?thesis using mm f t True by (simp add: missed_minutes_def)
    next
      case CatchUp
      then have "recentMinutes (calendar_of e) (cf_rule c) (max (sc_cursor_at h) (scheduler_now e - 86400000)) (scheduler_now e) 3 = Inr (bt_minutes b)"
        using mm by (simp add: missed_minutes_def)
      note w = recentMinutes_window [OF this]
      show ?thesis using w f t True CatchUp by auto
    qed
  qed
qed

definition late_env :: env where
  "late_env = demo_env\<lparr>scheduler_now := 10000000\<rparr>"

theorem new_batch_bounded_witness:
  "\<exists>b. new_batch late_env demo_schedule (demo_config\<lparr>cf_missed := CatchUp\<rparr>) = Inr b \<and>
     map mn_instant (bt_minutes b) = [3600000, 7200000] \<and> length (bt_minutes b) \<le> 3"
proof -
  have k: "case new_batch late_env demo_schedule (demo_config\<lparr>cf_missed := CatchUp\<rparr>) of Inl _ \<Rightarrow> False
    | Inr b \<Rightarrow> map mn_instant (bt_minutes b) = [3600000, 7200000]" by code_simp
  then obtain b where b: "new_batch late_env demo_schedule (demo_config\<lparr>cf_missed := CatchUp\<rparr>) = Inr b"
    by (cases "new_batch late_env demo_schedule (demo_config\<lparr>cf_missed := CatchUp\<rparr>)") simp_all
  have "length (bt_minutes b) \<le> 3" using new_batch_bounded [OF b] by (rule conjunct1)
  with k [unfolded b sum.case] b show ?thesis by (intro exI [of _ b] conjI)
qed

section \<open>Settlement\<close>

lemma settle_one_Inr:
  assumes "settle_one e i d = Inr (u, d')" "occurrence_find i d = Some r" "find (\<lambda>t. op_id t = oc_turn r) (operations d) = Some t"
  obtains d1 where "update_occurrence i (mirror e t) d = Inr d1"
    "d' = (let d2 = (if terminal_state (settled_state (op_state t)) \<and> settled_state (op_state t) \<noteq> OccUncertain \<and> oc_kind r = Recurring
          then complete_once e r d1 else d1)
        in if settled_state (op_state t) = OccUncertain then attend (oc_schedule r) (attention_at e ''DELIVERY_UNCERTAIN'') d2 else d2)"
  using assms(1) unfolding settle_one_def assms(2,3) option.case Let_def res_simps sum.inject prod.inject by blast

lemma update_occurrence_Inr:
  "update_occurrence i f d = Inr d' \<Longrightarrow> d' = d\<lparr>schedule_occurrences := update_where (\<lambda>r. oc_id r = i) f (schedule_occurrences d)\<rparr>"
  by (auto simp: update_occurrence_def split: if_split_asm)

lemma settle_one_rows:
  assumes "settle_one e i d = Inr (u, d')" "occurrence_find i d = Some r" "find (\<lambda>t. op_id t = oc_turn r) (operations d) = Some t"
  shows "schedule_occurrences d' = update_where (\<lambda>r. oc_id r = i) (mirror e t) (schedule_occurrences d)"
    "operations d' = operations d" "schedule_grants d' = schedule_grants d"
  using assms
proof (atomize (full), rule settle_one_Inr)
  fix d1
  assume u: "update_occurrence i (mirror e t) d = Inr d1"
    and d': "d' = (let d2 = (if terminal_state (settled_state (op_state t)) \<and> settled_state (op_state t) \<noteq> OccUncertain \<and> oc_kind r = Recurring
          then complete_once e r d1 else d1)
        in if settled_state (op_state t) = OccUncertain then attend (oc_schedule r) (attention_at e ''DELIVERY_UNCERTAIN'') d2 else d2)"
  note d1 = update_occurrence_Inr [OF u]
  show "schedule_occurrences d' = update_where (\<lambda>r. oc_id r = i) (mirror e t) (schedule_occurrences d) \<and>
    operations d' = operations d \<and> schedule_grants d' = schedule_grants d"
  proof -
    have c: "schedule_occurrences (complete_once e r x) = schedule_occurrences x" "operations (complete_once e r x) = operations x"
      "schedule_grants (complete_once e r x) = schedule_grants x" for x by (simp_all add: complete_once_def)
    have a: "schedule_occurrences (attend i f x) = schedule_occurrences x" "operations (attend i f x) = operations x"
      "schedule_grants (attend i f x) = schedule_grants x" for i f x by (simp_all add: attend_def)
    have "schedule_occurrences d' = schedule_occurrences d1" "operations d' = operations d1" "schedule_grants d' = schedule_grants d1"
      unfolding d' Let_def by (simp_all only: a c split: if_split) simp_all
    then show ?thesis by (simp add: d1)
  qed
qed

lemma mirror_id [simp]: "oc_id (mirror e t r) = oc_id r"
  by (simp add: mirror_def Let_def)

lemma mirror_simps [simp]:
  "oc_state (mirror e t r) = settled_state (op_state t)"
  "oc_reason (mirror e t r) = settled_reason (op_state t)"
  "oc_acknowledged_at (mirror e t r) = coalesce (oc_acknowledged_at r) (op_acknowledged_at t)"
  by (simp_all add: mirror_def Let_def)

lemma settled_row:
  assumes "settle_one e i d = Inr (u, d')" "occurrence_find i d = Some r" "find (\<lambda>t. op_id t = oc_turn r) (operations d) = Some t"
  shows "occurrence_find i d' = Some (mirror e t r)"
proof -
  have i: "oc_id r = i" using find_Some_in [OF assms(2) [unfolded occurrence_find_def]] by simp
  have "occurrence_find i d' = map_option (\<lambda>r. if oc_id r = i then mirror e t r else r) (occurrence_find i d)"
    unfolding occurrence_find_def settle_one_rows(1) [OF assms] by (rule find_update_where_key) (rule mirror_id)
  then show ?thesis by (simp add: assms(2) i)
qed

text \<open>The turn stays authoritative. Settling an occurrence gives it the state and the reason that its
  turn's state prescribes, ends it exactly when that state is final, and never clears an
  acknowledgement; it changes neither the turn nor any grant nor any other occurrence.\<close>

theorem settlement_mirrors_turn:
  assumes "settle_one e i d = Inr (u, d')" "occurrence_find i d = Some r" "find (\<lambda>t. op_id t = oc_turn r) (operations d) = Some t"
  shows "\<exists>r'. occurrence_find i d' = Some r' \<and> oc_state r' = settled_state (op_state t) \<and> oc_reason r' = settled_reason (op_state t) \<and>
    (oc_ended_at r' \<noteq> None \<longleftrightarrow> oc_ended_at r \<noteq> None \<or> op_state t \<in> {Succeeded, Failed, Interrupted, Uncertain}) \<and>
    (oc_acknowledged_at r \<noteq> None \<longrightarrow> oc_acknowledged_at r' = oc_acknowledged_at r) \<and>
    operations d' = operations d \<and> schedule_grants d' = schedule_grants d \<and>
    filter (\<lambda>x. oc_id x \<noteq> i) (schedule_occurrences d') = filter (\<lambda>x. oc_id x \<noteq> i) (schedule_occurrences d)"
proof -
  note s = settle_one_rows [OF assms]
  note r = settled_row [OF assms]
  have "oc_ended_at (mirror e t r) \<noteq> None \<longleftrightarrow> oc_ended_at r \<noteq> None \<or> op_state t \<in> {Succeeded, Failed, Interrupted, Uncertain}"
    by (cases "op_state t"; cases "oc_ended_at r") (simp_all add: mirror_def Let_def terminal_state_def coalesce_def)
  moreover have "oc_acknowledged_at r \<noteq> None \<longrightarrow> oc_acknowledged_at (mirror e t r) = oc_acknowledged_at r"
    by (auto simp: coalesce_def)
  moreover have "filter (\<lambda>x. oc_id x \<noteq> i) (update_where (\<lambda>r. oc_id r = i) (mirror e t) rows) = filter (\<lambda>x. oc_id x \<noteq> i) rows" for rows
    by (induction rows) simp_all
  ultimately show ?thesis unfolding s r by (intro exI [of _ "mirror e t r"]) simp
qed

definition settle_db :: db where
  "settle_db = schedule_db\<lparr>operations := [demo_turn\<lparr>op_id := ''t2'', op_state := Uncertain, op_acknowledged_at := Some 7\<rparr>],
     schedule_occurrences := [demo_occurrence\<lparr>oc_state := OccUncertain, oc_acknowledged_at := Some 5\<rparr>]\<rparr>"

lemma settle_demo:
  obtains d' r t where "settle_one demo_env demo_oid settle_db = Inr ((), d')" "occurrence_find demo_oid settle_db = Some r"
    "find (\<lambda>t. op_id t = oc_turn r) (operations settle_db) = Some t" "oc_acknowledged_at r = Some 5"
    "op_state t = Uncertain" "oc_schedule r = ''c''"
proof -
  have "succeeds (settle_one demo_env demo_oid settle_db)" by code_simp
  then obtain z where z: "settle_one demo_env demo_oid settle_db = Inr z" by (rule succeedsE)
  obtain u :: unit and d' where u: "z = (u, d')" by (cases z)
  let ?r = "demo_occurrence\<lparr>oc_state := OccUncertain, oc_acknowledged_at := Some 5\<rparr>"
  let ?t = "demo_turn\<lparr>op_id := ''t2'', op_state := Uncertain, op_acknowledged_at := Some 7\<rparr>"
  show thesis
  proof (rule that [of d' ?r ?t])
    show "settle_one demo_env demo_oid settle_db = Inr ((), d')" using z u by simp
  qed (simp_all add: occurrence_find_def settle_db_def demo_occurrence_def demo_turn_def)
qed

theorem settlement_mirrors_turn_witness:
  "\<exists>d' r. settle_one demo_env demo_oid settle_db = Inr ((), d') \<and> occurrence_find demo_oid d' = Some r \<and>
     oc_state r = OccUncertain \<and> oc_acknowledged_at r = Some 5"
proof -
  obtain d' r t where s: "settle_one demo_env demo_oid settle_db = Inr ((), d')" "occurrence_find demo_oid settle_db = Some r"
    "find (\<lambda>t. op_id t = oc_turn r) (operations settle_db) = Some t" "oc_acknowledged_at r = Some 5" "op_state t = Uncertain"
    by (rule settle_demo)
  from settlement_mirrors_turn [OF s(1-3)] s show ?thesis by auto
qed

text \<open>Settlement does not look at the acknowledgement of an uncertain turn: an enabled schedule whose
  occurrence is uncertain is sent back to attention at every settlement, also when its owner has
  acknowledged the uncertainty and activated the schedule again.\<close>

theorem acknowledged_uncertainty_reattends:
  assumes "settle_one e i d = Inr (u, d')" "occurrence_find i d = Some r" "find (\<lambda>t. op_id t = oc_turn r) (operations d) = Some t"
    and "op_state t = Uncertain" "oc_acknowledged_at r \<noteq> None" "schedule_find (oc_schedule r) d = Some s" "sc_state s = Enabled"
  shows "\<exists>s'. schedule_find (oc_schedule r) d' = Some s' \<and> sc_state s' = Attention \<and> sc_reason s' = Some ''DELIVERY_UNCERTAIN'' \<and>
    (\<exists>r'. occurrence_find i d' = Some r' \<and> oc_acknowledged_at r' \<noteq> None)"
  using assms(1-3)
proof (rule settle_one_Inr)
  fix d1
  assume u: "update_occurrence i (mirror e t) d = Inr d1"
    and d': "d' = (let d2 = (if terminal_state (settled_state (op_state t)) \<and> settled_state (op_state t) \<noteq> OccUncertain \<and> oc_kind r = Recurring
          then complete_once e r d1 else d1)
        in if settled_state (op_state t) = OccUncertain then attend (oc_schedule r) (attention_at e ''DELIVERY_UNCERTAIN'') d2 else d2)"
  note d1 = update_occurrence_Inr [OF u]
  have D: "schedules d' = update_where (\<lambda>s. sc_id s = oc_schedule r \<and> sc_state s = Enabled) (attention_at e ''DELIVERY_UNCERTAIN'') (schedules d)"
    unfolding d' assms(4) Let_def by (simp add: attend_def d1)
  have "sc_id (attention_at e w x) = sc_id x" for w x using attention_keeps(2) by blast
  then have "schedule_find (oc_schedule r) d' = map_option (\<lambda>s. if sc_id s = oc_schedule r \<and> sc_state s = Enabled
      then attention_at e ''DELIVERY_UNCERTAIN'' s else s) (schedule_find (oc_schedule r) d)"
    unfolding schedule_find_def D by (rule find_update_where_key)
  moreover have "sc_id s = oc_schedule r" using schedule_rows_find(1) [OF assms(6)] by simp
  ultimately have "schedule_find (oc_schedule r) d' = Some (attention_at e ''DELIVERY_UNCERTAIN'' s)" using assms(6,7) by simp
  moreover note settled_row [OF assms(1-3)]
  moreover have "oc_acknowledged_at (mirror e t r) \<noteq> None" using assms(5) by (auto simp: coalesce_def)
  ultimately show ?thesis
    by (intro exI [of _ "attention_at e ''DELIVERY_UNCERTAIN'' s"]) (simp add: attention_at_def attention_def)
qed

theorem acknowledged_uncertainty_reattends_witness:
  "\<exists>d' s. settle_one demo_env demo_oid settle_db = Inr ((), d') \<and> schedule_find ''c'' d' = Some s \<and> sc_state s = Attention"
proof -
  obtain d' r t where s: "settle_one demo_env demo_oid settle_db = Inr ((), d')" "occurrence_find demo_oid settle_db = Some r"
    "find (\<lambda>t. op_id t = oc_turn r) (operations settle_db) = Some t" "oc_acknowledged_at r = Some 5"
    "op_state t = Uncertain" "oc_schedule r = ''c''"
    by (rule settle_demo)
  have f: "schedule_find (oc_schedule r) settle_db = Some demo_schedule" "sc_state demo_schedule = Enabled"
    by (simp_all add: s(6) schedule_find_def settle_db_def schedule_db_def demo_schedule_def)
  have "oc_acknowledged_at r \<noteq> None" using s(4) by simp
  from acknowledged_uncertainty_reattends [OF s(1-3,5) this f] s(1,6) show ?thesis by auto
qed

end
