(* ===== verification/Schedule_History.thy ===== *)
theory Schedule_History
  imports Schedule_Outcomes
begin

text \<open>
  What a later request still finds, whatever happened in between: the receipt of a command until
  its retry window closes, the occurrence of a minute while it is kept, and the cursor of a
  schedule, which never goes back. The relation \<open>keeps\<close> says this of one step, for the clocks up
  to a given time; with \<open>good\<close> it is a \<open>schedule_walk\<close>, so it holds across every request.
\<close>

section \<open>What is kept\<close>

definition same_minute :: "occurrence_row \<Rightarrow> occurrence_row \<Rightarrow> bool" where
  "same_minute x y \<longleftrightarrow> oc_kind x = Recurring \<and> oc_kind y = Recurring \<and> oc_schedule x = oc_schedule y \<and>
     oc_rule_revision x = oc_rule_revision y \<and> oc_local_minute x = oc_local_minute y \<and> oc_local_minute x \<noteq> None"

definition minutes_ok :: "db \<Rightarrow> bool" where
  "minutes_ok d \<longleftrightarrow> (\<forall>x \<in> set (schedule_occurrences d). \<forall>y \<in> set (schedule_occurrences d). same_minute x y \<longrightarrow> oc_id x = oc_id y)"

definition slot_key :: "command_row \<Rightarrow> uuid \<times> string" where
  "slot_key c = (cm_schedule c, cm_slot c)"

text \<open>Batches are in order, slots are keys, and a minute has one occurrence.\<close>

definition book_ok :: "db \<Rightarrow> bool" where
  "book_ok d \<longleftrightarrow> (\<forall>s \<in> set (schedules d). batch_ordered s) \<and> distinct (map slot_key (schedule_commands d)) \<and> minutes_ok d"

definition cursors_kept :: "db \<Rightarrow> db \<Rightarrow> bool" where
  "cursors_kept d d' \<longleftrightarrow> (\<forall>s \<in> set (schedules d). \<exists>s' \<in> set (schedules d').
     sc_id s' = sc_id s \<and> sc_cursor_at s \<le> sc_cursor_at s')"

definition receipts_stay :: "time \<Rightarrow> db \<Rightarrow> db \<Rightarrow> bool" where
  "receipts_stay t d d' \<longleftrightarrow> (\<forall>who key c. receipt_find who key d = Some c \<and> t \<le> cm_retry_until c \<longrightarrow>
     receipt_find who key d' = Some c)"

definition keeps :: "time \<Rightarrow> db \<Rightarrow> db \<Rightarrow> bool" where
  "keeps t d d' \<longleftrightarrow> (sys_ok d \<and> book_ok d \<longrightarrow> book_ok d' \<and> cursors_kept d d' \<and> receipts_stay t d d')"

definition faithful :: "time \<Rightarrow> db \<Rightarrow> db \<Rightarrow> bool" where
  "faithful t d d' \<longleftrightarrow> good d d' \<and> keeps t d d'"

lemma cursors_kept_trans: "cursors_kept d d' \<Longrightarrow> cursors_kept d' d'' \<Longrightarrow> cursors_kept d d''"
  unfolding cursors_kept_def by (metis order_trans)

lemma cursors_kept_refl: "cursors_kept d d"
  unfolding cursors_kept_def by blast

lemma receipts_stay_trans: "receipts_stay t d d' \<Longrightarrow> receipts_stay t d' d'' \<Longrightarrow> receipts_stay t d d''"
  unfolding receipts_stay_def by blast

lemma keeps_trans: "good d d' \<Longrightarrow> keeps t d d' \<Longrightarrow> keeps t d' d'' \<Longrightarrow> keeps t d d''"
  unfolding keeps_def good_def using cursors_kept_trans receipts_stay_trans by blast

lemma faithful_trans: "faithful t d d' \<Longrightarrow> faithful t d' d'' \<Longrightarrow> faithful t d d''"
  unfolding faithful_def using good_trans keeps_trans by blast

section \<open>The kinds of statements\<close>

definition rows_advance :: "db \<Rightarrow> db \<Rightarrow> bool" where
  "rows_advance d d' \<longleftrightarrow> (\<forall>s \<in> set (schedules d). \<exists>s' \<in> set (schedules d'). advances s s') \<and>
     (\<forall>s' \<in> set (schedules d'). sc_catch_up s' = None \<or> (\<exists>s \<in> set (schedules d). advances s s'))"

definition minutes_follow :: "db \<Rightarrow> db \<Rightarrow> bool" where
  "minutes_follow d d' \<longleftrightarrow> occ_identity ` set (schedule_occurrences d') \<subseteq> occ_identity ` set (schedule_occurrences d)"

definition receipts_thin :: "time \<Rightarrow> db \<Rightarrow> db \<Rightarrow> bool" where
  "receipts_thin t d d' \<longleftrightarrow> (\<exists>P. schedule_commands d' = filter P (schedule_commands d) \<and>
     (\<forall>c \<in> set (schedule_commands d). t \<le> cm_retry_until c \<longrightarrow> P c))"

lemma same_minute_identity:
  "occ_identity x = occ_identity x' \<Longrightarrow> occ_identity y = occ_identity y' \<Longrightarrow> same_minute x y = same_minute x' y' \<and>
     oc_id x = oc_id x' \<and> oc_id y = oc_id y'"
  by (simp add: occ_identity_def same_minute_def)

lemma minutes_follow_ok:
  assumes "minutes_follow d d'" "minutes_ok d"
  shows "minutes_ok d'"
  unfolding minutes_ok_def
proof (intro ballI impI)
  fix x' y' assume i: "x' \<in> set (schedule_occurrences d')" "y' \<in> set (schedule_occurrences d')" "same_minute x' y'"
  have ex: "\<exists>x \<in> set (schedule_occurrences d). occ_identity x = occ_identity z" if "z \<in> set (schedule_occurrences d')" for z
    using assms(1) that unfolding minutes_follow_def by (metis image_iff image_subset_iff)
  obtain x y where "x \<in> set (schedule_occurrences d)" "y \<in> set (schedule_occurrences d)"
    "occ_identity x = occ_identity x'" "occ_identity y = occ_identity y'"
    using ex [OF i(1)] ex [OF i(2)] by blast
  then show "oc_id x' = oc_id y'"
    using assms(2) i(3) same_minute_identity [of x x' y y'] unfolding minutes_ok_def by metis
qed

lemma find_filter_kept: "find Q xs = Some c \<Longrightarrow> P c \<Longrightarrow> find Q (filter P xs) = Some c"
  by (induction xs) (auto split: if_split_asm)

lemma receipts_thin_stay:
  assumes "receipts_thin t d d'"
  shows "receipts_stay t d d'"
  unfolding receipts_stay_def
proof (intro allI impI)
  fix who key c assume c: "receipt_find who key d = Some c \<and> t \<le> cm_retry_until c"
  obtain P :: "command_row \<Rightarrow> bool" where P: "schedule_commands d' = filter P (schedule_commands d)"
      "\<forall>c \<in> set (schedule_commands d). t \<le> cm_retry_until c \<longrightarrow> P c"
    using assms unfolding receipts_thin_def by blast
  have f: "find (\<lambda>c. cm_actor c = who \<and> cm_key c = key) (schedule_commands d) = Some c"
    using c unfolding receipt_find_def by simp
  then have "P c" using find_Some_in [OF f] P(2) c by blast
  then show "receipt_find who key d' = Some c"
    unfolding receipt_find_def P(1) by (rule find_filter_kept [OF f])
qed

lemma rows_advance_cursors: "rows_advance d d' \<Longrightarrow> cursors_kept d d'"
  unfolding rows_advance_def cursors_kept_def advances_def by blast

lemma keepsI:
  assumes "sys_ok d \<Longrightarrow> book_ok d \<Longrightarrow> rows_advance d d' \<and> minutes_follow d d' \<and> receipts_thin t d d'"
  shows "keeps t d d'"
  unfolding keeps_def
proof (intro impI)
  assume ok: "sys_ok d \<and> book_ok d"
  with assms have k: "rows_advance d d'" "minutes_follow d d'" "receipts_thin t d d'" by blast+
  have "batch_ordered s'" if "s' \<in> set (schedules d')" for s'
  proof (cases "sc_catch_up s'")
    case None
    then show ?thesis by (simp add: batch_ordered_def)
  next
    case (Some b)
    have "sc_catch_up s' = None \<or> (\<exists>s \<in> set (schedules d). advances s s')"
      using k(1) that unfolding rows_advance_def by (elim conjE) (rule bspec)
    with Some have "\<exists>s \<in> set (schedules d). advances s s'" by (elim disjE) simp_all
    then show ?thesis using ok unfolding book_ok_def advances_def by blast
  qed
  moreover have "distinct (map slot_key (schedule_commands d'))"
    using k(3) ok unfolding receipts_thin_def book_ok_def by (auto intro: distinct_map_filter)
  ultimately show "book_ok d' \<and> cursors_kept d d' \<and> receipts_stay t d d'"
    using minutes_follow_ok [OF k(2)] ok rows_advance_cursors [OF k(1)] receipts_thin_stay [OF k(3)]
    unfolding book_ok_def by blast
qed

lemma rows_advance_same: "schedules d' = schedules d \<Longrightarrow> rows_advance d d'"
  unfolding rows_advance_def using advances_kept by auto

lemma minutes_follow_same: "schedule_occurrences d' = schedule_occurrences d \<Longrightarrow> minutes_follow d d'"
  by (simp add: minutes_follow_def)

lemma receipts_thin_same: "schedule_commands d' = schedule_commands d \<Longrightarrow> receipts_thin t d d'"
  unfolding receipts_thin_def by (intro exI [of _ "\<lambda>_. True"]) simp

lemma rows_advance_map:
  assumes "schedules d' = map f (schedules d)" "\<And>s. s \<in> set (schedules d) \<Longrightarrow> advances s (f s)"
  shows "rows_advance d d'"
  unfolding rows_advance_def assms(1) using assms(2) by auto

text \<open>The three ways to write one table and leave the others alone.\<close>

lemma keeps_tables: "sched_tables d' = sched_tables d \<Longrightarrow> keeps t d d'"
  by (rule keepsI) (blast intro: rows_advance_same minutes_follow_same receipts_thin_same dest: sched_tablesD)

lemma keeps_rows:
  assumes "schedules d' = map f (schedules d)" "\<And>s. sys_ok d \<Longrightarrow> book_ok d \<Longrightarrow> s \<in> set (schedules d) \<Longrightarrow> advances s (f s)"
    and "schedule_occurrences d' = schedule_occurrences d" "schedule_commands d' = schedule_commands d"
  shows "keeps t d d'"
  by (rule keepsI) (simp add: rows_advance_map [OF assms(1,2)] minutes_follow_same [OF assms(3)] receipts_thin_same [OF assms(4)])

lemma keeps_where:
  assumes "schedules d' = update_where P f (schedules d)"
    and "\<And>s. sys_ok d \<Longrightarrow> book_ok d \<Longrightarrow> s \<in> set (schedules d) \<Longrightarrow> P s \<Longrightarrow> advances s (f s)"
    and "schedule_occurrences d' = schedule_occurrences d" "schedule_commands d' = schedule_commands d"
  shows "keeps t d d'"
proof (rule keeps_rows [OF _ _ assms(3,4)])
  show "schedules d' = map (\<lambda>s. if P s then f s else s) (schedules d)" using assms(1) by (simp add: update_where_def)
  show "advances s (if P s then f s else s)" if "sys_ok d" "book_ok d" "s \<in> set (schedules d)" for s
    using assms(2) [OF that] advances_kept [of s s] by simp
qed

lemma keeps_identities:
  assumes "schedule_occurrences d' = map g (schedule_occurrences d)" "\<And>r. occ_identity (g r) = occ_identity r"
    and "schedules d' = schedules d" "schedule_commands d' = schedule_commands d"
  shows "keeps t d d'"
proof (rule keepsI, intro conjI)
  show "minutes_follow d d'" unfolding minutes_follow_def assms(1) using assms(2) by auto
qed (simp_all add: rows_advance_same assms(3) receipts_thin_same assms(4))

section \<open>Pruning and inserting\<close>

lemma rows_advance_frame:
  assumes "prune_frame d' = prune_frame d"
  shows "rows_advance d d'"
proof -
  let ?k = "\<lambda>s. s\<lparr>sc_last_pruned := None\<rparr>"
  note m = prune_frameD(6) [OF assms]
  have adv: "advances a b" if "?k a = ?k b" for a b :: schedule_row
    using arg_cong [OF that, of sc_id] arg_cong [OF that, of sc_cursor_at] arg_cong [OF that, of sc_catch_up]
    by (intro advances_kept) simp_all
  show ?thesis
    unfolding rows_advance_def
  proof (intro conjI ballI)
    fix s assume "s \<in> set (schedules d)"
    then show "\<exists>s' \<in> set (schedules d'). advances s s'" using map_eq_mem [OF m [symmetric]] adv by metis
  next
    fix s' assume "s' \<in> set (schedules d')"
    then show "sc_catch_up s' = None \<or> (\<exists>s \<in> set (schedules d). advances s s')" using map_eq_mem [OF m] adv by metis
  qed
qed

lemma minutes_follow_filter: "schedule_occurrences d' = filter P (schedule_occurrences d) \<Longrightarrow> minutes_follow d d'"
  unfolding minutes_follow_def by auto

text \<open>The receipts that go are past their retry window, and the slot picks out the row.\<close>

lemma remove_commands_thin:
  assumes "book_ok d" "set rows \<subseteq> set (schedule_commands d)" "\<And>c. c \<in> set rows \<Longrightarrow> cm_retry_until c < t"
    and "schedule_commands d' = schedule_commands (remove_commands rows d)"
  shows "receipts_thin t d d'"
  unfolding receipts_thin_def
proof (intro exI conjI ballI impI)
  let ?P = "\<lambda>c. \<not> exists_row (\<lambda>x. cm_schedule x = cm_schedule c \<and> cm_slot x = cm_slot c) rows"
  show "schedule_commands d' = filter ?P (schedule_commands d)"
    unfolding assms(4) by (simp add: remove_commands_def delete_where_def)
  fix c assume c: "c \<in> set (schedule_commands d)" "t \<le> cm_retry_until c"
  show "?P c"
  proof
    assume "exists_row (\<lambda>x. cm_schedule x = cm_schedule c \<and> cm_slot x = cm_slot c) rows"
    then obtain x where x: "x \<in> set rows" "slot_key x = slot_key c" by (auto simp: exists_row_iff slot_key_def)
    have "distinct (map slot_key (schedule_commands d))" using assms(1) by (simp add: book_ok_def)
    from distinct_keyD [OF this subsetD [OF assms(2) x(1)] c(1) x(2)] have "x = c" .
    then show False using assms(3) [OF x(1)] c(2) by simp
  qed
qed

lemma expired_commands_old:
  "set (expired_commands e sid d) \<subseteq> set (schedule_commands d)" "c \<in> set (expired_commands e sid d) \<Longrightarrow> cm_retry_until c < now e"
  unfolding expired_commands_def by (auto dest!: in_set_takeD)

lemma stale_commands_old:
  "set (stale_commands e d) \<subseteq> set (schedule_commands d)" "c \<in> set (stale_commands e d) \<Longrightarrow> cm_retry_until c < now e"
  unfolding stale_commands_def by (auto dest!: in_set_takeD)

lemma capacity_rounds_commands: "capacity_rounds n sid d = Inr d' \<Longrightarrow> schedule_commands d' = schedule_commands d"
proof (induction n sid d rule: capacity_rounds.induct)
  case (2 n sid d)
  show ?case
  proof (cases "\<not> own_history sid d \<ge> 256 \<and> \<not> all_history d \<ge> 8192")
    case True
    with "2.prems" show ?thesis by simp
  next
    case False
    with "2.prems" obtain r where r: "oldest_settled (if own_history sid d \<ge> 256 then Some sid else None) d = Some r"
      and c: "capacity_rounds n sid (drop_occurrence ''capacity'' r d) = Inr d'"
      by (auto simp only: capacity_rounds.simps if_False history_quota_neq split: option.splits)
    show ?thesis using "2.IH" [OF False r c] by simp
  qed
qed (simp split: if_split_asm)

lemma faithful_capacity:
  assumes "occurrenceCapacity e sid d = Inr d'" "now e \<le> t"
  shows "faithful t d d'"
  unfolding faithful_def
proof (intro conjI keepsI)
  show "good d d'" by (rule good_capacity [OF assms(1)])
  show "rows_advance d d'" by (rule rows_advance_frame [OF occurrenceCapacity_frame [OF assms(1)]])
  show "minutes_follow d d'" using occurrenceCapacity_filter [OF assms(1)] minutes_follow_filter by blast
  assume "book_ok d"
  then show "receipts_thin t d d'"
    by (rule remove_commands_thin [OF _ expired_commands_old(1) [of e sid d]])
      (use expired_commands_old(2) assms(2) capacity_rounds_commands [OF assms(1) [unfolded occurrenceCapacity_def]] in force)+
qed

lemma fold_drop_commands: "schedule_commands (fold (drop_occurrence w) rows d) = schedule_commands d"
  by (induction rows arbitrary: d) simp_all

lemma faithful_prune:
  assumes "pruneScheduleHistory e d = Inr d'" "now e \<le> t"
  shows "faithful t d d'"
  unfolding faithful_def
proof (intro conjI keepsI)
  define d1 where "d1 = remove_commands (stale_commands e d) d"
  have d': "d' = fold (drop_occurrence ''age'') (aged_occurrences e d1) d1"
    using assms(1) by (auto simp: pruneScheduleHistory_def andThen_eq_Inr Let_def d1_def)
  show "good d d'" by (rule good_prune [OF assms(1)])
  show "rows_advance d d'" by (rule rows_advance_frame [OF pruneScheduleHistory_frame [OF assms(1)]])
  have "schedule_occurrences d1 = schedule_occurrences d" by (simp add: d1_def)
  then show "minutes_follow d d'"
    using fold_drop_filter [of "''age''" "aged_occurrences e d1" d1, folded d'] minutes_follow_filter by metis
  assume "book_ok d"
  then show "receipts_thin t d d'"
    by (rule remove_commands_thin [OF _ stale_commands_old(1) [of e d]])
      (use stale_commands_old(2) assms(2) in \<open>force simp: d' fold_drop_commands d1_def\<close>)+
qed

lemma faithful_expire: "now e \<le> t \<Longrightarrow> faithful t d (remove_commands (expired_commands e sid d) d)"
  unfolding faithful_def
proof (intro conjI keepsI)
  assume t: "now e \<le> t"
  show "good d (remove_commands (expired_commands e sid d) d)" by (rule good_remove_commands)
  show "rows_advance d (remove_commands (expired_commands e sid d) d)" by (rule rows_advance_same) simp
  show "minutes_follow d (remove_commands (expired_commands e sid d) d)" by (rule minutes_follow_same) simp
  assume "book_ok d"
  then show "receipts_thin t d (remove_commands (expired_commands e sid d) d)"
    by (rule remove_commands_thin [OF _ expired_commands_old(1) [of e sid d]]) (use expired_commands_old(2) t in force)+
qed

lemma keeps_insert_command:
  assumes "insert_command c d = Inr d'"
  shows "keeps t d d'"
  unfolding keeps_def
proof (intro impI conjI)
  assume ok: "sys_ok d \<and> book_ok d"
  note i = insert_command_Inr [OF assms]
  have "slot_key c \<notin> slot_key ` set (schedule_commands d)"
    using assms by (auto simp: insert_command_def exists_row_iff slot_key_def split: if_split_asm)
  then show "book_ok d'" using ok unfolding i(1) by (simp add: book_ok_def minutes_ok_def)
  show "cursors_kept d d'" unfolding i(1) cursors_kept_def by auto
  show "receipts_stay t d d'" unfolding i(1) receipts_stay_def receipt_find_def by (auto simp: find_append)
qed

lemma keeps_insert_occurrence:
  assumes "insert_occurrence r d0 = Inr d1" "schedule_occurrences d0 = schedule_occurrences d"
    and "schedule_occurrences d' = schedule_occurrences d @ [r]" "schedules d' = schedules d" "schedule_commands d' = schedule_commands d"
  shows "keeps t d d'"
  unfolding keeps_def
proof (intro impI conjI)
  assume ok: "sys_ok d \<and> book_ok d"
  note i = insert_occurrence_Inr(4) [OF assms(1), unfolded assms(2)]
  have new: "\<not> same_minute x r" "\<not> same_minute r x" if "x \<in> set (schedule_occurrences d)" for x
    unfolding same_minute_def using i [OF that] by metis+
  have "minutes_ok d'"
    using ok new unfolding book_ok_def minutes_ok_def assms(3) by auto
  then show "book_ok d'" using ok unfolding book_ok_def assms(4,5) by simp
  show "cursors_kept d d'" unfolding cursors_kept_def assms(4) by auto
  show "receipts_stay t d d'" unfolding receipts_stay_def receipt_find_def assms(5) by simp
qed

section \<open>The planner\<close>

lemma resolveOneTime_after:
  assumes "resolveOneTime cal l z after = Inr x"
  shows "after < mn_instant x"
proof -
  from assms obtain tz where z: "canonicalTimezone cal z = Inr tz" by (auto simp: resolveOneTime_def res_simps)
  note k1 = assms [unfolded resolveOneTime_def z andThen_Inr]
  then obtain q where q: "cal_parse cal l = Some q" by (cases "cal_parse cal l") (auto split: if_split_asm)
  obtain d h m where dhm: "q = (d, h, m)" by (cases q)
  from k1 [unfolded q dhm option.case prod.case] show ?thesis
    by (cases "mapMinute cal tz d h m") (auto split: if_split_asm)
qed

lemma nextMinutes_after:
  assumes "nextMinutes cal r after 1 = Inr ms" "x \<in> set ms"
  shows "after < mn_instant x"
proof (cases r)
  case (Once l z)
  then show ?thesis using assms resolveOneTime_after by (auto simp: nextMinutes_def res_simps)
next
  case (Cron expr z)
  let ?f = "\<lambda>tz c d. sort_key mn_instant (day_minutes cal tz c (\<lambda>t. t > after) d)"
  from assms(1) Cron obtain tz c a b where
    l: "next_loop cal tz c after 1 b a 0 0 [] = Inr ms"
    by (auto simp: nextMinutes_def res_simps Let_def)
  from next_loop_Inr [OF l] have "set ms \<subseteq> set (concat (map (?f tz c) [a..b]))"
    using set_take_subset by (metis append_Nil length_greater_0_conv list.size(3) zero_less_one)
  then show ?thesis using assms(2) by (auto simp: day_minutes_iff)
qed

lemma recentMinutes_sorted:
  assumes "recentMinutes cal r after through limit = Inr ms"
  shows "sorted (map mn_instant ms)"
proof (cases r)
  case (Once l z)
  show ?thesis
  proof (cases "ms = []")
    case False
    with assms Once obtain tz where z: "canonicalTimezone cal z = Inr tz"
      by (auto simp: recentMinutes_def res_simps split: if_split_asm)
    from assms False have k: "(case cal_parse cal l of None \<Rightarrow> Inl (Crash ''RangeError'') | Some (date, h, m) \<Rightarrow>
        Inr (case mapMinute cal tz date h m of
            Some x \<Rightarrow> if after < mn_instant x \<and> mn_instant x \<le> through then [x] else [] | None \<Rightarrow> [])) = Inr ms"
      by (simp add: recentMinutes_def Once z split: if_split_asm)
    then obtain q where q: "cal_parse cal l = Some q" by (cases "cal_parse cal l") auto
    obtain d h m where dhm: "q = (d, h, m)" by (cases q)
    from k [unfolded q dhm option.case prod.case] show ?thesis
      by (cases "mapMinute cal tz d h m") (auto split: if_split_asm)
  qed simp
next
  case (Cron expr z)
  then show ?thesis using assms
    by (auto simp: recentMinutes_def res_simps split: if_split_asm)
qed

lemma new_batch_ordered:
  assumes "new_batch e h c = Inr b"
  shows "sorted (sc_cursor_at h # map mn_instant (bt_minutes b))"
  using assms
proof (rule new_batch_Inr)
  fix due rest
  assume n: "nextMinutes (calendar_of e) (cf_rule c) (sc_cursor_at h) 1 = Inr (due # rest)"
    and m: "(if scheduler_now e - mn_instant due > 60000 then missed_minutes e h c else Inr [due]) = Inr (bt_minutes b)"
  show ?thesis
  proof (cases "scheduler_now e - mn_instant due > 60000")
    case False
    with m have "bt_minutes b = [due]" by simp
    then show ?thesis using nextMinutes_after [OF n, of due] by simp
  next
    case True
    with m have mm: "missed_minutes e h c = Inr (bt_minutes b)" by simp
    show ?thesis
    proof (cases "cf_missed c")
      case SkipMissed
      then show ?thesis using mm by (simp add: missed_minutes_def)
    next
      case CatchUp
      then have r: "recentMinutes (calendar_of e) (cf_rule c) (max (sc_cursor_at h) (scheduler_now e - 86400000)) (scheduler_now e) 3 = Inr (bt_minutes b)"
        using mm by (simp add: missed_minutes_def)
      have "\<forall>x \<in> set (bt_minutes b). sc_cursor_at h \<le> mn_instant x" using recentMinutes_window(2) [OF r] by fastforce
      then show ?thesis using recentMinutes_sorted [OF r] by simp
    qed
  qed
qed

lemma faithful_save_tx:
  assumes "new_batch e h c = Inr b" "save_tx e fence h b d = Inr (r, d')"
  shows "faithful t d d'"
  unfolding faithful_def
proof
  show "good d d'" by (rule good_save_tx [OF assms(2)])
  let ?f = "\<lambda>s. s\<lparr>sc_catch_up := Some b, sc_last_observed_at := Some (scheduler_now e)\<rparr>"
  from assms(2) have d': "d' = d\<lparr>schedules := update_where (save_where h) ?f (schedules d)\<rparr>"
    by (auto simp: save_tx_def res_simps Let_def)
  show "keeps t d d'"
  proof (rule keeps_where)
    show "schedules d' = update_where (save_where h) ?f (schedules d)" by (simp add: d')
    show "advances s (?f s)" if "save_where h s" for s
      using that new_batch_ordered [OF assms(1)] by (simp add: save_where_def advances_def batch_ordered_def)
  qed (simp_all add: d')
qed

lemma faithful_consume:
  assumes "bt_minutes b = m # ms"
  shows "faithful t d (consume sid b d)"
  unfolding faithful_def
proof
  show "good d (consume sid b d)" by (rule good_consume)
  let ?f = "\<lambda>s. s\<lparr>sc_catch_up := Some (b\<lparr>bt_minutes := tl (bt_minutes b)\<rparr>)\<rparr>"
  show "keeps t d (consume sid b d)"
  proof (rule keeps_where)
    show "schedules (consume sid b d) = update_where (\<lambda>s. sc_id s = sid \<and> sc_catch_up s = Some b) ?f (schedules d)"
      by (simp add: consume_def)
    show "advances s (?f s)" if "sc_id s = sid \<and> sc_catch_up s = Some b" for s
      using that assms by (simp add: advances_def batch_ordered_def)
  qed (simp_all add: consume_def)
qed

text \<open>The row an operation read is still there after pruning.\<close>

lemma found_row:
  assumes "s \<in> set (schedules d)" "sc_id s = sid" "prune_frame d1 = prune_frame d" "schedules d2 = schedules d1" "sys_ok d2"
    and "y \<in> set (schedules d2)" "sc_id y = sid"
  shows "sc_cursor_at y = sc_cursor_at s \<and> sc_catch_up y = sc_catch_up s"
proof -
  have "y \<in> set (schedules d1)" using assms(6) unfolding assms(4) .
  from map_eq_mem [OF prune_frameD(6) [OF assms(3)] this]
  obtain z where z: "z \<in> set (schedules d)" "z\<lparr>sc_last_pruned := None\<rparr> = y\<lparr>sc_last_pruned := None\<rparr>" by blast
  have "distinct (map sc_id (schedules d))"
    using assms(4,5) prune_frame_ids [OF assms(3)] by (simp add: sys_ok_def schedules_ok_def)
  moreover have "sc_id z = sc_id s" using arg_cong [OF z(2), of sc_id] assms(2,7) by simp
  ultimately have "z = s" by (rule distinct_keyD [OF _ z(1) assms(1)])
  then show ?thesis using arg_cong [OF z(2), of sc_cursor_at] arg_cong [OF z(2), of sc_catch_up] by simp
qed

text \<open>The planner admits the first minute of the batch it expects.\<close>

lemma faithful_admit:
  assumes "admitRecurringOccurrence e sid m next (Some x) ids d = Inr ((i, r), d')"
    and "bt_minutes (ex_batch x) = m # ms" "now e \<le> t"
  shows "faithful t d d'"
proof (cases r)
  case True
  with assms(1) have "admitRecurringOccurrence e sid m next (Some x) ids d = Inr ((i, True), d')" by simp
  then have "d' = d" by (rule admit_replay)
  then show ?thesis using keeps_tables [of d d t] by (simp add: faithful_def)
next
  case False
  have "admitRecurringOccurrence e sid m next (Some x) ids d = Inr ((i, False), d')" using assms(1) False by simp
  then show ?thesis
  proof (rule admission_rows)
    fix s :: schedule_row and v :: version_row and d1 d3 src place n
    let ?r = "new_occurrence e ids s (sv_config v) (sv_prompt v) Recurring (mn_instant m) (Some m) src place"
    assume s: "schedule_find sid d = Some s" and cur: "sc_cursor_at s < mn_instant m"
      and ex: "\<forall>y. Some x = Some y \<longrightarrow> expectation_met y s" and c: "occurrenceCapacity e sid d = Inr d1"
      and room: "all_history d1 < 8192" "own_history sid d1 < 256" and w: "ws_only d1 d3"
      and d': "d' = update_schedule sid (moved e m next) (inserted d1 ?r n d3)"
      and ins: "insert_occurrence ?r d3 = Inr (d3\<lparr>schedule_occurrences := schedule_occurrences d1 @ [?r]\<rparr>)"
    have sid: "sc_id s = sid" "s \<in> set (schedules d)" using schedule_rows_find(1) [OF s] by simp_all
    have known: "sid \<in> sc_id ` set (schedules d1)"
      using sid arg_cong [OF prune_frame_ids [OF occurrenceCapacity_frame [OF c]], of set] by auto
    have g: "good d1 (inserted d1 ?r n d3)"
      by (intro good_add_occurrence [OF ins ws_onlyD(4) [OF w]]) (use room sid known ws_onlyD [OF w] in simp_all)
    have k: "keeps t d1 (inserted d1 ?r n d3)"
      by (rule keeps_insert_occurrence [OF ins ws_onlyD(4) [OF w]]) (use ws_onlyD [OF w] in simp_all)
    have f1: "faithful t d (inserted d1 ?r n d3)"
      using faithful_trans [OF faithful_capacity [OF c assms(3)]] g k by (simp add: faithful_def)
    have "faithful t (inserted d1 ?r n d3) d'"
      unfolding faithful_def
    proof
      show "good (inserted d1 ?r n d3) d'" unfolding d' by (rule good_update_schedule) (rule quiet_moved)
      show "keeps t (inserted d1 ?r n d3) d'"
      proof (rule keeps_where)
        show "schedules d' = update_where (\<lambda>s. sc_id s = sid) (moved e m next) (schedules (inserted d1 ?r n d3))"
          by (simp add: d')
        fix y assume "sys_ok (inserted d1 ?r n d3)" "y \<in> set (schedules (inserted d1 ?r n d3))" "sc_id y = sid"
        note y = found_row [OF sid(2,1) occurrenceCapacity_frame [OF c] _ this(1) this(2,3)]
        have "sc_cursor_at y = sc_cursor_at s \<and> sc_catch_up y = Some (ex_batch x)"
          using y ws_onlyD(1) [OF w] ex by (simp add: expectation_met_def)
        then show "advances y (moved e m next y)"
          using cur assms(2) by (simp add: advances_def batch_ordered_def moved_def)
      qed (simp_all add: d')
    qed
    with f1 show ?thesis by (rule faithful_trans)
  qed
qed

lemma faithful_admit_tx:
  assumes "admit_tx e fence h b m ids d = Inr (u, d')" "bt_minutes b = m # ms" "now e \<le> t"
  shows "faithful t d d'"
proof -
  from assms(1) obtain i r d1 where a: "admitRecurringOccurrence e (sc_id h) m (bt_next b) (Some (plan_expectation h b)) ids d = Inr ((i, r), d1)"
    and d': "d' = consume (sc_id h) b d1"
    by (auto simp: admit_tx_def res_simps Let_def)
  have "bt_minutes (ex_batch (plan_expectation h b)) = m # ms" using assms(2) by (simp add: plan_expectation_def)
  from faithful_admit [OF a this assms(3)] show ?thesis unfolding d' by (rule faithful_trans) (rule faithful_consume [OF assms(2)])
qed

lemma faithful_history_room:
  "history_room e sid d = Inr d1 \<Longrightarrow> now e \<le> t \<Longrightarrow> faithful t d d1"
  by (rule faithful_capacity) (auto simp: history_room_def res_simps split: if_split_asm)

lemma faithful_insert_skipped:
  assumes "history_room e sid d = Inr d1" "insert_occurrence (skipped_row e ids s k lm at snap w) d1 = Inr d2"
    and "s \<in> set (schedules d)" "sc_id s = sid" "now e \<le> t"
  shows "faithful t d d2"
proof -
  note d2 = insert_occurrence_Inr(1) [OF assms(2)]
  have "keeps t d1 d2" by (rule keeps_insert_occurrence [OF assms(2) refl]) (simp_all add: d2)
  moreover have f: "faithful t d d1" by (rule faithful_history_room [OF assms(1,5)])
  ultimately have "keeps t d d2" using keeps_trans by (auto simp: faithful_def)
  then show ?thesis using good_insert_skipped [OF assms(1-4)] by (simp add: faithful_def)
qed

lemma faithful_skip_tx:
  assumes "skip_tx e fence sid b m ids d = Inr (u, d')" "bt_minutes b = m # ms" "now e \<le> t"
  shows "faithful t d d'"
proof (cases "find (\<lambda>s. sc_id s = sid \<and> sc_state s = Enabled \<and> sc_catch_up s = Some b) (schedules d)")
  case None
  then have "d' = d" using assms(1) by (auto simp: skip_tx_def res_simps)
  then show ?thesis using keeps_tables [of d d t] by (simp add: faithful_def)
next
  case (Some cur)
  note cur = find_Some_in [OF Some]
  let ?r = "skipped_row e ids cur Recurring (Some (mn_local m)) (mn_instant m) (SkippedMinute m) ''OVERLAP''"
  let ?f = "\<lambda>s. s\<lparr>sc_cursor_at := mn_instant m, sc_catch_up := Some (b\<lparr>bt_minutes := tl (bt_minutes b)\<rparr>)\<rparr>"
  from assms(1) obtain d1 d2 where h: "history_room e sid d = Inr d1"
    and i: "(if recurring_find sid (Some (sc_rule_revision cur)) (mn_local m) d1 \<noteq> None then Inr d1 else insert_occurrence ?r d1) = Inr d2"
    and d': "d' = update_schedule sid ?f d2"
    unfolding skip_tx_def Some option.case res_simps by blast
  have f: "faithful t d d2"
    using i faithful_insert_skipped [OF h] faithful_history_room [OF h] cur assms(3) by (auto split: if_split_asm)
  have same: "schedules d2 = schedules d1"
    using i by (cases "recurring_find sid (Some (sc_rule_revision cur)) (mn_local m) d1") (auto dest: insert_occurrence_Inr(1))
  have "faithful t d2 d'"
    unfolding faithful_def
  proof
    show "good d2 d'" unfolding d' by (rule good_update_schedule) (simp add: quiet_def)
    show "keeps t d2 d'"
    proof (rule keeps_where)
      show "schedules d' = update_where (\<lambda>s. sc_id s = sid) ?f (schedules d2)" by (simp add: d')
      fix y assume k: "sys_ok d2" "book_ok d2" and y: "y \<in> set (schedules d2)" "sc_id y = sid"
      have "sc_catch_up y = Some b" using found_row [OF _ _ history_room_Inr(4) [OF h] same k(1) y, of cur] cur by simp
      then show "advances y (?f y)" using k(2) y(1) assms(2) by (auto simp: book_ok_def advances_def batch_ordered_def)
    qed (simp_all add: d')
  qed
  with f show ?thesis by (rule faithful_trans)
qed

lemma faithful_finish_tx:
  assumes "finish_tx e fence sid b ids d = Inr (u, d')" "now e \<le> t"
  shows "faithful t d d'"
proof (cases "find (\<lambda>s. sc_id s = sid \<and> sc_catch_up s = Some b) (schedules d)")
  case None
  then have "d' = d" using assms(1) by (auto simp: finish_tx_def res_simps)
  then show ?thesis using keeps_tables [of d d t] by (simp add: faithful_def)
next
  case (Some cur)
  note cur = find_Some_in [OF Some]
  let ?range = "\<lambda>from. andThen (history_room e sid d) (\<lambda>d1.
      insert_occurrence (skipped_row e ids cur Range None (bt_through b)
        (SkippedRange from (bt_through b) (bt_excluded b)) ''MISSED_RANGE'') d1)"
  show ?thesis
  proof (cases "sc_state cur = Enabled")
    case False
    then have "d' = d" using assms(1) unfolding finish_tx_def Some option.case by (auto simp: res_simps)
    then show ?thesis using keeps_tables [of d d t] by (simp add: faithful_def)
  next
    case True
    from assms(1) obtain d2 where r: "(case bt_range_from b of None \<Rightarrow> Inr d | Some from \<Rightarrow> ?range from) = Inr d2"
      and d': "d' = update_schedule sid (finished e b (unresolved_of sid d2 > 0)) d2"
      unfolding finish_tx_def Some option.case res_simps using True by (auto simp: res_simps split: if_split_asm)
    have f: "faithful t d d2"
    proof (cases "bt_range_from b")
      case None
      then show ?thesis using r keeps_tables [of d d t] by (simp add: faithful_def)
    next
      case (Some start)
      with r show ?thesis using faithful_insert_skipped cur assms(2) by (auto simp: res_simps)
    qed
    have "keeps t d2 d'"
      by (rule keeps_where [where P = "\<lambda>s. sc_id s = sid" and f = "finished e b (unresolved_of sid d2 > 0)"])
        (simp_all add: d' advances_cleared finished_def)
    then have "keeps t d d'" using f keeps_trans unfolding faithful_def by blast
    then show ?thesis using good_finish_tx [OF assms(1)] by (simp add: faithful_def)
  qed
qed

section \<open>The owner's operations\<close>

lemma faithful_pause: "pauseSchedule e s n d = Inr (a, d') \<Longrightarrow> faithful t d d'"
  unfolding faithful_def
proof
  assume p: "pauseSchedule e s n d = Inr (a, d')"
  show "good d d'" by (rule good_pause [OF p])
  show "keeps t d d'"
    by (rule keeps_where [where P = "\<lambda>x. sc_id x = sc_id s" and f = "stop_schedule e ''OWNER_PAUSED''"])
      (simp_all add: pauseSchedule_Inr(3) [OF p] advances_cleared stop_schedule_def)
qed

lemma faithful_emergency: "faithful t d (emergencyPauseSchedules e d)"
  unfolding faithful_def
proof
  show "good d (emergencyPauseSchedules e d)" by (rule good_emergency)
  show "keeps t d (emergencyPauseSchedules e d)"
    by (rule keeps_rows [where f = "stop_schedule e ''EMERGENCY_STOP''"])
      (simp_all add: emergencyPauseSchedules_def advances_cleared stop_schedule_def)
qed

lemma faithful_edit:
  assumes "editSchedule e s n b actor d = Inr (a, d')"
  shows "faithful t d d'"
  unfolding faithful_def
proof
  show "good d d'" by (rule good_edit [OF assms])
  show "keeps t d d'"
    using assms
  proof (rule editSchedule_Inr)
    fix b' d1
    assume w: "ws_only d d1" and "edit_commit e s b' d1 = Inr (a, d')"
    then show ?thesis
    proof (elim edit_commit_Inr)
      fix vs k r
      assume d': "d' = update_schedule (sc_id s) (edited e (si_title b') k r)
        (revoke_grants (\<lambda>g. gr_schedule g = sc_id s) ((trim_versions s d1)\<lparr>schedule_versions := vs\<rparr>))"
      note tables = sched_tablesD [OF trim_versions_tables [of s d1]]
      show ?thesis
        by (rule keeps_where [where P = "\<lambda>x. sc_id x = sc_id s" and f = "edited e (si_title b') k r"])
          (simp_all add: d' tables ws_onlyD [OF w] advances_cleared edited_def)
    qed
  qed
qed

lemma keeps_activate:
  assumes "activateSchedule e s actor n days one gid d = Inr (r, d')"
  shows "keeps t d d'"
  using assms
proof (rule activateSchedule_Inr)
  fix a c d1 preview
  assume k: "activation_checks e s actor n days d = Inr (a, c, d1)"
    and c: "activation_commit e s a days one gid preview (trim_grants e s d1) = Inr (r, d')"
  let ?d = "trim_grants e s d1"
  have tables: "schedules ?d = schedules d" "schedule_occurrences ?d = schedule_occurrences d" "schedule_commands ?d = schedule_commands d"
    using ws_onlyD [OF activation_checks_Inr(1) [OF k]] by (simp_all add: trim_grants_def split: list.split)
  have adv: "advances x (bumped e one m gid preview x)" for x m
    by (cases one) (simp_all add: bumped_def advances_kept advances_cleared activated_def)
  from c show ?thesis
  proof (rule activation_commit_Inr)
    fix g
    assume d': "d' = ?d\<lparr>schedule_grants := map (one_shot_revoke one (sc_id s)) (schedule_grants ?d) @ [g],
       schedules := update_where (\<lambda>x. sc_id x = sc_id s) (bumped e one (sc_grant_epoch s + 1) gid preview) (schedules ?d)\<rparr>"
    show ?thesis
      by (rule keeps_where [where P = "\<lambda>x. sc_id x = sc_id s" and f = "bumped e one (sc_grant_epoch s + 1) gid preview"])
        (simp_all add: d' tables adv)
  qed
qed

lemma faithful_activate:
  "current s d \<Longrightarrow> activateSchedule e s actor n days one gid d = Inr (r, d') \<Longrightarrow> faithful t d d'"
  unfolding faithful_def by (intro conjI good_activateSchedule keeps_activate)

lemma keeps_insertOccurrence:
  assumes "insertOccurrence e s c p k ti m ids d = Inr (i, d')"
  shows "keeps t d d'"
  using assms
proof (rule insertOccurrence_Inr)
  fix d1 src place and g :: grant_row
  let ?r = "new_occurrence e ids s c p k ti m src place"
  assume w: "ws_only d d1" and d': "d' = inserted d ?r (gr_epoch g) d1"
    and i: "insert_occurrence ?r d1 = Inr (d1\<lparr>schedule_occurrences := schedule_occurrences d @ [?r]\<rparr>)"
  show ?thesis
    by (rule keeps_insert_occurrence [OF i ws_onlyD(4) [OF w]]) (use ws_onlyD [OF w] in \<open>simp_all add: d'\<close>)
qed

lemma faithful_run:
  assumes "now e \<le> t" "current s d" "runScheduleNow e s actor n gid ids d = Inr (r, d')"
  shows "faithful t d d'"
proof -
  from assms(3) obtain d1 g d2 and v :: version_row and i where c: "occurrenceCapacity e (sc_id s) d = Inr d1"
    and a: "activateSchedule e s actor n 1 True gid d1 = Inr (g, d2)"
    and i: "insertOccurrence e (s\<lparr>sc_active_grant := Some gid\<rparr>) (sv_config v) (sv_prompt v) Manual (scheduler_now e) None ids d2 = Inr (i, d')"
    unfolding runScheduleNow_def andThen_eq_Inr split_paired_Ex prod.case sum.inject prod.inject by blast
  have cur: "current s d1" using current_prune_frame [OF occurrenceCapacity_frame [OF c] assms(2)] .
  have "faithful t d d2" by (rule faithful_trans [OF faithful_capacity [OF c assms(1)] faithful_activate [OF cur a]])
  then have "keeps t d d'" using keeps_trans keeps_insertOccurrence [OF i] unfolding faithful_def by blast
  then show ?thesis using good_runNow [OF assms(3,2)] by (simp add: faithful_def)
qed

lemma faithful_create:
  assumes "createActivatedSchedule e actor input sid gid d = Inr (r, d')"
  shows "faithful t d d'"
  unfolding faithful_def
proof
  show "good d d'" by (rule good_create [OF assms])
  show "keeps t d d'"
    using assms
  proof (rule createActivatedSchedule_Inr)
    fix b :: schedule_input and a :: authority and d1 and m :: minute and vs
    assume w: "ws_only d d1" and d': "d' = d1\<lparr>schedules := schedules d1 @ [new_schedule e sid gid b m], schedule_versions := vs,
       schedule_grants := schedule_grants d1 @ [new_grant e gid sid 1 1 (au_token a) (si_days b) False d1]\<rparr>"
    have rows: "schedules d' = schedules d @ [new_schedule e sid gid b m]" using ws_onlyD [OF w] by (simp add: d')
    show ?thesis
    proof (rule keepsI, intro conjI)
      show "rows_advance d d'"
        unfolding rows_advance_def rows using advances_kept by (auto simp: new_schedule_def)
    qed (use ws_onlyD [OF w] in \<open>simp_all add: d' minutes_follow_same receipts_thin_same\<close>)
  qed
qed

section \<open>Every request\<close>

interpretation faithful_walk: schedule_walk "faithful t" "\<lambda>e. now e \<le> t" for t
proof
  show "faithful t d d' \<Longrightarrow> faithful t d' d'' \<Longrightarrow> faithful t d d''" for d d' d'' by (rule faithful_trans)
  show "sched_tables d' = sched_tables d \<Longrightarrow> faithful t d d'" for d d'
    by (simp add: faithful_def good_tables keeps_tables)
  show "faithful t d (d\<lparr>schedules := update_where P f (schedules d)\<rparr>)" if "\<And>s. P s \<Longrightarrow> quiet s (f s) \<and> advances s (f s)" for P f d
    unfolding faithful_def
  proof
    show "good d (d\<lparr>schedules := update_where P f (schedules d)\<rparr>)" by (rule good_quiet_where) (use that in blast)
    show "keeps t d (d\<lparr>schedules := update_where P f (schedules d)\<rparr>)"
      by (rule keeps_where [where P = P and f = f]) (use that in simp_all)
  qed
  show "faithful t d d'" if u: "update_occurrence i g d = Inr d'" and g: "\<And>r. occ_identity (g r) = occ_identity r" for i g d d'
    unfolding faithful_def
  proof
    show "good d d'" by (rule good_update_occurrence [OF u]) (rule identity_keys [OF g])
    have d': "d' = d\<lparr>schedule_occurrences := update_where (\<lambda>r. oc_id r = i) g (schedule_occurrences d)\<rparr>"
      using u by (simp add: update_occurrence_def split: if_split_asm)
    show "keeps t d d'"
      by (rule keeps_identities [where g = "\<lambda>r. if oc_id r = i then g r else r"]) (simp_all add: d' update_where_def g)
  qed
  show "faithful t d (d\<lparr>schedule_occurrences := update_where Q g (schedule_occurrences d)\<rparr>)"
    if g: "\<And>r. occ_identity (g r) = occ_identity r \<and> occ_unresolved (g r) = occ_unresolved r" for g d Q
    unfolding faithful_def
  proof
    show "good d (d\<lparr>schedule_occurrences := update_where Q g (schedule_occurrences d)\<rparr>)"
      by (rule good_relabel) (use g identity_keys in blast)
    show "keeps t d (d\<lparr>schedule_occurrences := update_where Q g (schedule_occurrences d)\<rparr>)"
      by (rule keeps_identities [where g = "\<lambda>r. if Q r then g r else r"]) (simp_all add: update_where_def g)
  qed
  show "insert_command k d = Inr d' \<Longrightarrow> faithful t d d'" for k d d'
    unfolding faithful_def using good_insert_command keeps_insert_command by blast
qed (fact faithful_save_tx faithful_admit_tx faithful_skip_tx faithful_finish_tx faithful_prune faithful_expire
    faithful_pause faithful_edit faithful_activate faithful_run faithful_create faithful_emergency |
   (rule faithful_admit_tx faithful_skip_tx faithful_finish_tx faithful_prune; assumption))+

interpretation schedule_book: evolving_ops system_op "\<lambda>d. sys_ok d \<and> book_ok d" cursors_kept
proof
  fix x d d' assume x: "system_op x d = Inr d'" and ok: "sys_ok d \<and> book_ok d"
  have f: "faithful (now (request_env x)) d d'" by (rule faithful_walk.rel_system_op [OF x order_refl])
  then show "sys_ok d' \<and> book_ok d'" "cursors_kept d d'"
    using ok unfolding faithful_def good_def keeps_def by blast+
next
  show "cursors_kept d d" for d by (rule cursors_kept_refl)
  show "cursors_kept d d' \<Longrightarrow> cursors_kept d' d'' \<Longrightarrow> cursors_kept d d''" for d d' d'' by (rule cursors_kept_trans)
qed

lemma serve_receipts:
  "sys_ok d \<Longrightarrow> book_ok d \<Longrightarrow> \<forall>x \<in> set xs. now (request_env x) \<le> t \<Longrightarrow> receipts_stay t d (serve system_op xs d)"
proof (induction xs arbitrary: d)
  case Nil
  then show ?case by (simp add: receipts_stay_def)
next
  case (Cons x xs)
  show ?case
  proof (cases "system_op x d")
    case (Inl f)
    then show ?thesis using Cons by simp
  next
    case (Inr d')
    have "faithful t d d'" by (rule faithful_walk.rel_system_op [OF Inr]) (use Cons.prems(3) in simp)
    then have k: "sys_ok d'" "book_ok d'" "receipts_stay t d d'"
      using Cons.prems(1,2) unfolding faithful_def good_def keeps_def by blast+
    then have "receipts_stay t d' (serve system_op xs d')" using Cons.IH Cons.prems(3) by simp
    with k(3) show ?thesis using receipts_stay_trans Inr by simp
  qed
qed

section \<open>The minute and its cursor\<close>

lemma admitted_cursor:
  assumes "admitRecurringOccurrence e sid m next x ids d = Inr ((i, False), d1)"
  shows "\<exists>s \<in> set (schedules d1). sc_id s = sid \<and> sc_cursor_at s = mn_instant m"
  using assms
proof (rule admission_rows)
  fix s :: schedule_row and v :: version_row and d' d3 src place n
  let ?r = "new_occurrence e ids s (sv_config v) (sv_prompt v) Recurring (mn_instant m) (Some m) src place"
  assume s: "schedule_find sid d = Some s" and c: "occurrenceCapacity e sid d = Inr d'" and w: "ws_only d' d3"
    and d1: "d1 = update_schedule sid (moved e m next) (inserted d' ?r n d3)"
  have "map sc_id (schedules d1) = map sc_id (schedules d')"
    unfolding d1 update_schedule_simps inserted_simps ws_onlyD(1) [OF w]
    by (rule map_update_where_key) (simp add: moved_def)
  then have "sc_id ` set (schedules d1) = sc_id ` set (schedules d)"
    using prune_frame_ids [OF occurrenceCapacity_frame [OF c]] by (metis list.set_map)
  then have "sid \<in> sc_id ` set (schedules d1)" using schedule_find_id [OF s] by simp
  then show ?thesis using moved_cursor [of sid e m "next" "inserted d' ?r n d3", folded d1] by auto
qed

lemma recurring_find_only:
  assumes "r \<in> set (schedule_occurrences d)" "oc_schedule r = sid" "oc_kind r = Recurring" "oc_local_minute r = Some lm" "oc_rule_revision r = k"
    and "\<And>r'. r' \<in> set (schedule_occurrences d) \<Longrightarrow> oc_schedule r' = sid \<Longrightarrow> oc_kind r' = Recurring \<Longrightarrow>
      oc_local_minute r' = Some lm \<Longrightarrow> oc_rule_revision r' = k \<Longrightarrow> r' = r"
  shows "recurring_find sid (Some k) lm d = Some r"
proof -
  obtain r' where f: "recurring_find sid (Some k) lm d = Some r'"
    using find_is_Some [OF assms(1)] assms(2-5) unfolding recurring_find_def by (metis (mono_tags, lifting))
  have "r' = r" using find_Some_in [OF f [unfolded recurring_find_def]] assms(6) by auto
  then show ?thesis using f by simp
qed

section \<open>Properties\<close>

text \<open>C24: A recurring minute is admitted once. In consistent tables (which every request keeps) the
  planner admits the next minute of its batch. Then, after whatever creations, commands, emergency
  stops and worker passes: asking for that minute or an earlier one of the schedule, under any rule
  and even when the occurrence has been pruned from the bounded history, never admits a second
  occurrence, but is refused or answered as a replay that changes nothing. As long as the occurrence
  is kept, whatever state its run is in, it is the only one of its minute and rule, and asking for
  the minute again is answered with it, as a replay.\<close>

theorem recurring_admitted_once:
  assumes "sys_ok d" "book_ok d"
    and "admitRecurringOccurrence e sid m next (Some x) ids d = Inr ((i, False), d1)" "bt_minutes (ex_batch x) = m # ms"
    and "d2 = serve system_op xs d1"
  shows "(\<forall>e' m' next' x' ids' j again d3. mn_instant m' \<le> mn_instant m \<and>
      admitRecurringOccurrence e' sid m' next' x' ids' d2 = Inr ((j, again), d3) \<longrightarrow> again \<and> d3 = d2) \<and>
    (\<forall>r \<in> set (schedule_occurrences d2). oc_id r = i \<and> oc_schedule r = sid \<and> oc_kind r = Recurring \<and>
      oc_local_minute r = Some (mn_local m) \<and> oc_rule_revision r = ex_rule_revision x \<longrightarrow>
      (\<forall>r' \<in> set (schedule_occurrences d2). same_minute r r' \<longrightarrow> r' = r) \<and>
      (\<forall>e' next' x' ids'. ex_rule_revision x' = ex_rule_revision x \<longrightarrow>
        admitRecurringOccurrence e' sid m next' (Some x') ids' d2 = Inr ((i, True), d2)))"
proof (intro conjI allI impI ballI)
  have f: "faithful (now e) d d1" by (rule faithful_admit [OF assms(3,4) order_refl])
  then have ok1: "sys_ok d1 \<and> book_ok d1" using assms(1,2) unfolding faithful_def good_def keeps_def by blast
  have ok2: "sys_ok d2 \<and> book_ok d2" unfolding assms(5) by (rule schedule_book.serve_keeps [OF ok1])
  have cursors: "cursors_kept d1 d2" unfolding assms(5) by (rule schedule_book.serve_moves [OF ok1])
  {
    fix e' m' next' x' ids' j again d3
    assume a: "mn_instant m' \<le> mn_instant m \<and> admitRecurringOccurrence e' sid m' next' x' ids' d2 = Inr ((j, again), d3)"
    show again
    proof (rule ccontr)
      assume "\<not> again"
      with a have "admitRecurringOccurrence e' sid m' next' x' ids' d2 = Inr ((j, False), d3)" by simp
      then obtain s where s: "schedule_find sid d2 = Some s" "sc_cursor_at s < mn_instant m'" by (rule admission_rows)
      have "\<exists>s1 \<in> set (schedules d1). sc_id s1 = sid \<and> sc_cursor_at s1 = mn_instant m"
        using admitted_cursor [OF assms(3)] .
      then obtain s2 where s2: "s2 \<in> set (schedules d2)" "sc_id s2 = sid" "mn_instant m \<le> sc_cursor_at s2"
        using cursors unfolding cursors_kept_def by fastforce
      have "distinct (map sc_id (schedules d2))" using ok2 by (simp add: sys_ok_def schedules_ok_def)
      from distinct_keyD [OF this s2(1)] have "s2 = s" using schedule_rows_find(1) [OF s(1)] s2(2) by simp
      then show False using a s(2) s2(3) by simp
    qed
    with a have "admitRecurringOccurrence e' sid m' next' x' ids' d2 = Inr ((j, True), d3)" by simp
    then show "d3 = d2" by (rule admit_replay)
  }
  fix r assume r: "r \<in> set (schedule_occurrences d2)" and k: "oc_id r = i \<and> oc_schedule r = sid \<and> oc_kind r = Recurring \<and>
      oc_local_minute r = Some (mn_local m) \<and> oc_rule_revision r = ex_rule_revision x"
  have one: "r' = r" if "r' \<in> set (schedule_occurrences d2)" "same_minute r r'" for r'
  proof -
    have "oc_id r' = oc_id r" using ok2 r that unfolding book_ok_def minutes_ok_def by metis
    moreover have "distinct (map oc_id (schedule_occurrences d2))"
      using ok2 by (simp add: sys_ok_def occurrences_ok_def history_keys_def)
    ultimately show ?thesis using distinct_keyD that(1) r by metis
  qed
  then show "r' = r" if "r' \<in> set (schedule_occurrences d2)" "same_minute r r'" for r' using that .
  have "recurring_find sid (Some (ex_rule_revision x)) (mn_local m) d2 = Some r"
    by (rule recurring_find_only [OF r]) (use k one in \<open>auto simp: same_minute_def\<close>)
  then show "admitRecurringOccurrence e' sid m next' (Some x') ids' d2 = Inr ((i, True), d2)"
    if "ex_rule_revision x' = ex_rule_revision x" for e' next' x' ids'
    using k that by (simp add: admitRecurringOccurrence_def)
qed

definition due_batch :: batch where
  "due_batch = \<lparr> bt_range_from = None, bt_through = 60000, bt_next = Some 3600000, bt_minutes = [due_minute_demo], bt_excluded = [''m''] \<rparr>"

definition due_db :: db where
  "due_db = admit_db\<lparr>schedules := [demo_schedule\<lparr>sc_catch_up := Some due_batch\<rparr>]\<rparr>"

definition other_key :: string where
  "other_key = ''0000001000000:00000000-0000-4000-8000-000000000001''"

text \<open>The owner cancels the run, under a key of its own.\<close>

definition cancel_run :: system_request where
  "cancel_run = ManageRequest demo_env (\<lambda>_. 1) (\<lambda>_. []) (\<lambda>_. JNull) ''b'' ''c'' (Some other_key) ''cancel'' (CancelRun 1 (oi_id demo_ids)) ''f2''"

lemma due_db_ok: "sys_ok due_db" "book_ok due_db" "book_ok admit_db"
  by (simp_all add: book_ok_def minutes_ok_def batch_ordered_def due_db_def due_batch_def due_minute_demo_def sys_ok_def
      schedules_ok_def occurrences_ok_def history_keys_def receipts_kept_def unresolved_of_def own_history_def
      all_history_def grant_backs_def admit_db_def demo_defs)

theorem recurring_admitted_once_witness:
  "\<exists>d1. admitRecurringOccurrence demo_env ''c'' due_minute_demo (Some 5) (Some (plan_expectation demo_schedule due_batch)) demo_ids due_db =
      Inr ((oi_id demo_ids, False), d1) \<and>
    map oc_state (schedule_occurrences (serve system_op [cancel_run] d1)) = [Cancelled] \<and>
    admitRecurringOccurrence late_env ''c'' due_minute_demo None (Some (plan_expectation demo_schedule due_batch)) (demo_ids\<lparr>oi_id := ''z''\<rparr>)
      (serve system_op [cancel_run] d1) = Inr ((oi_id demo_ids, True), serve system_op [cancel_run] d1)"
proof -
  let ?x = "plan_expectation demo_schedule due_batch"
  have k: "case admitRecurringOccurrence demo_env ''c'' due_minute_demo (Some 5) (Some ?x) demo_ids due_db of
      Inl _ \<Rightarrow> False | Inr (r, d1) \<Rightarrow> r = (oi_id demo_ids, False) \<and>
        map (\<lambda>r. (occ_identity r, oc_state r)) (schedule_occurrences (serve system_op [cancel_run] d1)) =
          [((oi_id demo_ids, ''c'', Recurring, 1, Some (mn_local due_minute_demo)), Cancelled)]"
    by code_simp
  then obtain z where z: "admitRecurringOccurrence demo_env ''c'' due_minute_demo (Some 5) (Some ?x) demo_ids due_db = Inr z"
    by (cases "admitRecurringOccurrence demo_env ''c'' due_minute_demo (Some 5) (Some ?x) demo_ids due_db") simp_all
  obtain u d1 where "z = (u, d1)" by (cases z)
  note k [unfolded z this sum.case prod.case]
  with z \<open>z = (u, d1)\<close> have a: "admitRecurringOccurrence demo_env ''c'' due_minute_demo (Some 5) (Some ?x) demo_ids due_db =
      Inr ((oi_id demo_ids, False), d1)"
    and m: "map (\<lambda>r. (occ_identity r, oc_state r)) (schedule_occurrences (serve system_op [cancel_run] d1)) =
      [((oi_id demo_ids, ''c'', Recurring, 1, Some (mn_local due_minute_demo)), Cancelled)]"
    by (simp_all only: simp_thms)
  from m obtain r where r: "schedule_occurrences (serve system_op [cancel_run] d1) = [r]" "oc_state r = Cancelled"
    "occ_identity r = (oi_id demo_ids, ''c'', Recurring, 1, Some (mn_local due_minute_demo))"
    by (auto simp: map_eq_Cons_conv)
  have b: "bt_minutes (ex_batch ?x) = [due_minute_demo]" "ex_rule_revision ?x = 1"
    by (simp_all add: plan_expectation_def due_batch_def demo_schedule_def)
  from recurring_admitted_once [OF due_db_ok(1,2) a b(1) refl, of "[cancel_run]"] r b(2)
  have "admitRecurringOccurrence late_env ''c'' due_minute_demo None (Some ?x) (demo_ids\<lparr>oi_id := ''z''\<rparr>)
      (serve system_op [cancel_run] d1) = Inr ((oi_id demo_ids, True), serve system_op [cancel_run] d1)"
    by (simp add: occ_identity_def)
  with a r show ?thesis by simp
qed

text \<open>C28: An ordinary command runs once. In consistent tables (which every request keeps) a command
  succeeds under a key that was not used before. Then, after whatever creations, other commands,
  emergency stops and worker passes run before its retry window closes, 24 hours after the later of
  its time and the key's: a request by the same actor with the same key, for any schedule and with
  any action, succeeds only if its route and body have the same digest, and then it returns the
  first result and changes nothing.\<close>

theorem command_runs_once:
  assumes "sys_ok d" "book_ok d"
    and "mutate e bytes st ot actor sid (Some key) body action fresh d = Inr (r, d1)" "management_control action = None"
    and "\<forall>c \<in> set (schedule_commands d). cm_slot c \<noteq> ''ordinary:'' @ fresh \<and> cm_key c \<noteq> key"
    and "\<forall>x \<in> set xs. now (request_env x) \<le> max (now e) (key_ms key) + 86400000"
    and "mutate e' bytes' st' ot' actor sid' (Some key) body' action' fresh' (serve system_op xs d1) = Inr (r', d2)"
    and "hash e' = hash e" "owner_subject e' = owner_subject e"
  shows "hash e body' = hash e body \<and> r' = r \<and> d2 = serve system_op xs d1"
proof -
  let ?t = "max (now e) (key_ms key) + 86400000" and ?d = "serve system_op xs d1"
  have "faithful (now e) d d1" by (rule faithful_walk.rel_mutate [OF assms(3) order_refl])
  then have ok: "sys_ok d1" "book_ok d1" using assms(1,2) unfolding faithful_def good_def keeps_def by blast+
  from scheduleCommand_receipt [OF assms(3) [unfolded mutate_def], where key = key] assms(4,5)
  obtain a c where a: "requireAuthority e d actor manage_route_need = Inr a"
    and c: "receipt_find (intent_actor e a actor) key d1 = Some c" "cm_result c = r" "cm_request_hash c = hash e body"
      "cm_retry_until c = ?t"
    by (auto simp: key_string_def)
  have find: "receipt_find (intent_actor e a actor) key ?d = Some c"
    using serve_receipts [OF ok assms(6)] c(1,4) unfolding receipts_stay_def by simp
  from assms(7) obtain a' where a': "requireAuthority e' ?d actor manage_route_need = Inr a'"
    by (auto simp: mutate_def scheduleCommand_def res_simps)
  have "intent_actor e' a' actor = intent_actor e a actor"
    using requireAuthority_kind [OF a] requireAuthority_kind [OF a'] assms(9) by (simp add: intent_actor_def)
  with find have "receipt_find (intent_actor e' a' actor) key ?d = Some c" by simp
  then show ?thesis
    using assms(7) a' c(2,3) assms(8) by (auto simp: mutate_def scheduleCommand_def key_string_def res_simps split: if_split_asm)
qed

theorem command_runs_once_witness:
  "\<exists>r d1. mutate demo_env (\<lambda>_. 1) (\<lambda>_. []) (\<lambda>_. JNull) ''b'' ''c'' (Some demo_key) ''body'' (RunNow 1 run_gid demo_ids) ''f1'' admit_db = Inr (r, d1) \<and>
     map oc_state (schedule_occurrences (serve system_op [cancel_run] d1)) = [Cancelled] \<and>
     mutate (demo_env\<lparr>now := 1000500\<rparr>) (\<lambda>_. 2) (\<lambda>_. []) (\<lambda>_. JNull) ''b'' ''c'' (Some demo_key) ''body'' (RunNow 1 demo_gid demo_ids) ''f3''
       (serve system_op [cancel_run] d1) = Inr (r, serve system_op [cancel_run] d1)"
proof -
  let ?first = "mutate demo_env (\<lambda>_. 1) (\<lambda>_. []) (\<lambda>_. JNull) ''b'' ''c'' (Some demo_key) ''body'' (RunNow 1 run_gid demo_ids) ''f1'' admit_db"
  let ?again = "\<lambda>d1. mutate (demo_env\<lparr>now := 1000500\<rparr>) (\<lambda>_. 2) (\<lambda>_. []) (\<lambda>_. JNull) ''b'' ''c'' (Some demo_key) ''body''
    (RunNow 1 demo_gid demo_ids) ''f3'' (serve system_op [cancel_run] d1)"
  have k: "case ?first of Inl _ \<Rightarrow> False | Inr (r, d1) \<Rightarrow>
      map oc_state (schedule_occurrences (serve system_op [cancel_run] d1)) = [Cancelled] \<and> succeeds (?again d1)"
    by code_simp
  then obtain y where y: "?first = Inr y" by (cases ?first) simp_all
  obtain r d1 where rd: "y = (r, d1)" by (cases y)
  have a: "?first = Inr (r, d1)" "map oc_state (schedule_occurrences (serve system_op [cancel_run] d1)) = [Cancelled]"
    "succeeds (?again d1)"
    using k [unfolded y rd sum.case prod.case] y rd by (simp_all only: simp_thms)
  from a(3) obtain z where "?again d1 = Inr z" by (rule succeedsE)
  moreover obtain r' d2 where "z = (r', d2)" by (cases z)
  ultimately have z: "?again d1 = Inr (r', d2)" by simp
  have fresh: "\<forall>c \<in> set (schedule_commands admit_db). cm_slot c \<noteq> ''ordinary:'' @ ''f1'' \<and> cm_key c \<noteq> demo_key"
    by (simp add: admit_db_def demo_defs)
  have clock: "\<forall>x \<in> set [cancel_run]. now (request_env x) \<le> max (now demo_env) (key_ms demo_key) + 86400000"
    by (simp add: cancel_run_def)
  have "r' = r \<and> d2 = serve system_op [cancel_run] d1"
    using command_runs_once [OF demo_sys_ok due_db_ok(3) a(1) _ fresh clock z] by simp
  with a z show ?thesis by simp
qed

end
