(* ===== verification/Base64.thy ===== *)
theory Base64
  imports Attachments
begin

text \<open>
  Terminal bytes travel as base64: \<^verbatim>\<open>decodeInput\<close> of
  \<^verbatim>\<open>packages/terminals/src/store.ts\<close>, over the encoder and the decoder of the
  standard library (\<^verbatim>\<open>Buffer.toString("base64")\<close>,
  \<^verbatim>\<open>Buffer.from(s, "base64")\<close>). The decoder is lenient: it skips characters outside the
  alphabet, also reads the URL alphabet, and drops an incomplete last byte; where padding occurs
  in the middle it stops. What makes an input canonical is that it is the encoding of what it
  decodes to, and that is what the lemmas establish.
\<close>

section \<open>The alphabet\<close>

definition b64_char :: "nat \<Rightarrow> char" where
  "b64_char n = (if n < 26 then char_of (n + 65) else if n < 52 then char_of (n + 71)
     else if n < 62 then char_of (n - 4) else if n = 62 then CHR ''+'' else CHR ''/'')"

definition is_b64 :: "char \<Rightarrow> bool" where
  "is_b64 c \<longleftrightarrow> (CHR ''A'' \<le> c \<and> c \<le> CHR ''Z'') \<or> (CHR ''a'' \<le> c \<and> c \<le> CHR ''z'') \<or> is_digit c \<or>
     c = CHR ''+'' \<or> c = CHR ''/''"

definition b64_value :: "char \<Rightarrow> nat option" where
  "b64_value c = (let n = byte c in
     if 65 \<le> n \<and> n \<le> 90 then Some (n - 65)
     else if 97 \<le> n \<and> n \<le> 122 then Some (n - 71)
     else if 48 \<le> n \<and> n \<le> 57 then Some (n + 4)
     else if n = 43 \<or> n = 45 then Some 62
     else if n = 47 \<or> n = 95 then Some 63 else None)"

section \<open>Encoder and decoder\<close>

fun b64_encode :: "string \<Rightarrow> string" where
  "b64_encode [] = []"
| "b64_encode [a] = [b64_char (byte a div 4), b64_char (byte a mod 4 * 16), CHR ''='', CHR ''='']"
| "b64_encode [a, b] = [b64_char (byte a div 4), b64_char (byte a mod 4 * 16 + byte b div 16),
     b64_char (byte b mod 16 * 4), CHR ''='']"
| "b64_encode (a # b # c # rest) =
     b64_char (byte a div 4) # b64_char (byte a mod 4 * 16 + byte b div 16) #
     b64_char (byte b mod 16 * 4 + byte c div 64) # b64_char (byte c mod 64) # b64_encode rest"

fun b64_bytes :: "nat list \<Rightarrow> string" where
  "b64_bytes (v # w # x # y # rest) =
     char_of (v * 4 + w div 16) # char_of (w mod 16 * 16 + x div 4) # char_of (x mod 4 * 64 + y) #
     b64_bytes rest"
| "b64_bytes [v, w, x] = [char_of (v * 4 + w div 16), char_of (w mod 16 * 16 + x div 4)]"
| "b64_bytes [v, w] = [char_of (v * 4 + w div 16)]"
| "b64_bytes _ = []"

fun b64_values :: "string \<Rightarrow> nat list" where
  "b64_values [] = []"
| "b64_values (c # cs) =
     (if c = CHR ''='' then []
      else case b64_value c of None \<Rightarrow> b64_values cs | Some v \<Rightarrow> v # b64_values cs)"

definition b64_decode :: "string \<Rightarrow> string" where
  "b64_decode s = b64_bytes (b64_values s)"

section \<open>Input of a terminal\<close>

text \<open>\<^verbatim>\<open>/^(?:[A-Za-z0-9+/]{4})*(?:[A-Za-z0-9+/]{2}==|[A-Za-z0-9+/]{3}=)?$/\<close>\<close>

fun b64_format :: "string \<Rightarrow> bool" where
  "b64_format [] = True"
| "b64_format (p # q # r # s # rest) =
     (if is_b64 p \<and> is_b64 q \<and> is_b64 r \<and> is_b64 s then b64_format rest
      else rest = [] \<and> is_b64 p \<and> is_b64 q \<and> s = CHR ''='' \<and> (is_b64 r \<or> r = CHR ''=''))"
| "b64_format _ = False"

definition decodeInput :: "string \<Rightarrow> string res" where
  "decodeInput data =
     (if \<not> b64_format data then Inl (HarborError 400 ''INVALID_INPUT'')
      else let bytes = b64_decode data in
        if length bytes < 1 \<or> length bytes > 4096 \<or> b64_encode bytes \<noteq> data
        then Inl (HarborError 413 ''INPUT_LIMIT'')
        else Inr bytes)"

section \<open>Lemmas\<close>

lemma b64_alphabet:
  "n < 64 \<Longrightarrow> b64_value (b64_char n) = Some n \<and> is_b64 (b64_char n) \<and> b64_char n \<noteq> CHR ''=''"
proof -
  have "list_all (\<lambda>n. b64_value (b64_char n) = Some n \<and> is_b64 (b64_char n) \<and> b64_char n \<noteq> CHR ''='') [0..<64]"
    by code_simp
  then show "n < 64 \<Longrightarrow> ?thesis" by (simp add: list_all_iff)
qed

lemma b64_bounds [simp]:
  "byte a div 4 < 64" "byte a mod 4 * 16 < 64" "byte a mod 4 * 16 + byte b div 16 < 64"
  "byte b mod 16 * 4 < 64" "byte b mod 16 * 4 + byte c div 64 < 64" "byte c mod 64 < 64"
  using byte_less [of a] byte_less [of b] byte_less [of c]
    mod_less_divisor [of 4 "byte a"] mod_less_divisor [of 16 "byte b"] by linarith+

lemma b64_char_simps [simp]:
  "n < 64 \<Longrightarrow> b64_value (b64_char n) = Some n" "n < 64 \<Longrightarrow> is_b64 (b64_char n)"
  "n < 64 \<Longrightarrow> b64_char n \<noteq> CHR ''=''"
  using b64_alphabet [of n] by simp_all

lemma not_b64_padding [simp]: "\<not> is_b64 (CHR ''='')"
  by code_simp

lemma byte_digits [simp]:
  "byte x div 16 mod 16 = byte x div 16" "byte x div 16 div 16 = 0"
  "byte x div 64 mod 4 = byte x div 64" "byte x div 64 div 4 = 0"
proof -
  have "byte x div 16 < 16" "byte x div 64 < 4" using byte_less [of x] by linarith+
  then show "byte x div 16 mod 16 = byte x div 16" "byte x div 16 div 16 = 0"
    "byte x div 64 mod 4 = byte x div 64" "byte x div 64 div 4 = 0" by simp_all
qed

lemma b64_decode_encode: "b64_decode (b64_encode bs) = bs"
  by (induction bs rule: b64_encode.induct) (simp_all add: b64_decode_def)

lemma b64_format_encode: "b64_format (b64_encode bs)"
  by (induction bs rule: b64_encode.induct) simp_all

lemma length_b64_encode: "length (b64_encode bs) = (length bs + 2) div 3 * 4"
proof (induction bs rule: b64_encode.induct)
  case (4 a b c rest)
  have "(length (a # b # c # rest) + 2) div 3 = Suc ((length rest + 2) div 3)" by simp
  then show ?case using 4 by simp
qed simp_all

lemma b64_encode_inj: "b64_encode xs = b64_encode ys \<Longrightarrow> xs = ys"
  by (metis b64_decode_encode)

lemma decodeInput_Inr [res_simps]:
  "decodeInput data = Inr bytes \<longleftrightarrow> data = b64_encode bytes \<and> bytes \<noteq> [] \<and> length bytes \<le> 4096"
  by (auto simp: decodeInput_def Let_def b64_format_encode b64_decode_encode)

text \<open>C37: Terminal input survives its transport: the decoder of the route accepts exactly the
  canonical encodings of one to 4096 bytes and gives the bytes back, such an encoding is never
  longer than the 5464 characters the request schema allows, and every other text is refused, with
  \<^verbatim>\<open>INVALID_INPUT\<close> when it is not base64 at all and with \<^verbatim>\<open>INPUT_LIMIT\<close>
  when it is empty, too long or not the canonical spelling.\<close>

theorem input_round_trip:
  "(decodeInput data = Inr bytes \<longleftrightarrow>
     data = b64_encode bytes \<and> 0 < length bytes \<and> length bytes \<le> 4096 \<and> length data \<le> 5464) \<and>
   (decodeInput data = Inl f \<longleftrightarrow>
     (\<nexists>bs. data = b64_encode bs \<and> 0 < length bs \<and> length bs \<le> 4096) \<and>
     f = (if b64_format data then HarborError 413 ''INPUT_LIMIT'' else HarborError 400 ''INVALID_INPUT''))"
proof (rule conjI)
  show eq: "decodeInput data = Inr bytes \<longleftrightarrow>
     data = b64_encode bytes \<and> 0 < length bytes \<and> length bytes \<le> 4096 \<and> length data \<le> 5464" for bytes
    by (auto simp: decodeInput_Inr length_b64_encode)
  have inl: "decodeInput data = Inl f \<Longrightarrow>
      f = (if b64_format data then HarborError 413 ''INPUT_LIMIT'' else HarborError 400 ''INVALID_INPUT'')" for f
    by (auto simp: decodeInput_def Let_def split: if_splits)
  show "decodeInput data = Inl f \<longleftrightarrow>
     (\<nexists>bs. data = b64_encode bs \<and> 0 < length bs \<and> length bs \<le> 4096) \<and>
     f = (if b64_format data then HarborError 413 ''INPUT_LIMIT'' else HarborError 400 ''INVALID_INPUT'')"
  proof (cases "decodeInput data")
    case (Inl g)
    have "decodeInput data \<noteq> Inr bs" for bs using Inl by simp
    then have "\<nexists>bs. data = b64_encode bs \<and> 0 < length bs \<and> length bs \<le> 4096"
      by (simp add: decodeInput_Inr)
    then show ?thesis using Inl inl [OF Inl] by auto
  next
    case (Inr bs)
    then have "\<exists>bs. data = b64_encode bs \<and> 0 < length bs \<and> length bs \<le> 4096"
      by (auto simp: decodeInput_Inr)
    then show ?thesis using Inr by simp
  qed
qed

end
