(* ===== verification/Terminals.thy ===== *)
theory Terminals
  imports Base64 Workspaces Schedule_Authority
begin

text \<open>
  Terminals as the API sees them: \<^verbatim>\<open>packages/terminals/src/store.ts\<close>, the request
  schemas of \<^verbatim>\<open>packages/terminals/src/contracts.ts\<close> and the routes of
  \<^verbatim>\<open>apps/api/src/terminals.ts\<close>. One browser tab controls a terminal at a time: taking
  control starts a new epoch, and every frame it sends names terminal generation, epoch and
  controller. Input frames are numbered within an epoch and kept as rows until the supervisor has
  delivered them; output is kept as a window of numbered chunks.
\<close>

section \<open>Rows and their locks\<close>

definition terminal_find :: "uuid \<Rightarrow> db \<Rightarrow> terminal_row option" where
  "terminal_find i d = find (\<lambda>t. te_id t = i) (terminals d)"

definition update_terminal :: "uuid \<Rightarrow> (terminal_row \<Rightarrow> terminal_row) \<Rightarrow> db \<Rightarrow> db" where
  "update_terminal i f d = d\<lparr>terminals := update_where (\<lambda>t. te_id t = i) f (terminals d)\<rparr>"

text \<open>\<open>terminalRow\<close> joins the workspace for its name.\<close>

definition terminalRow :: "db \<Rightarrow> uuid \<Rightarrow> (terminal_row \<times> string) res" where
  "terminalRow d i =
     first_row (HarborError 404 ''NOT_FOUND'')
       (case terminal_find i d of None \<Rightarrow> None
        | Some t \<Rightarrow> map_option (\<lambda>w. (t, ws_name w)) (find (\<lambda>w. ws_id w = te_workspace t) (workspaces d)))"

definition terminal_need :: "terminal_row \<Rightarrow> scope \<Rightarrow> need" where
  "terminal_need t s = \<lparr> nd_project = Some (te_project t), nd_scope = Some s,
     nd_profile = (if s = TerminalControl then Some (te_profile t) else None), nd_internal = None \<rparr>"

definition terminalGrant :: "env \<Rightarrow> db \<Rightarrow> terminal_row \<Rightarrow> string \<Rightarrow> scope \<Rightarrow> authority res" where
  "terminalGrant e d t actor s = requireAuthority e d actor (terminal_need t s)"

definition lockTerminalResource :: "db \<Rightarrow> uuid \<Rightarrow> (terminal_row \<times> string) res" where
  "lockTerminalResource d i =
     andThen (terminalRow d i) (\<lambda>(before, _).
     andThen (selectedWorkspace d (te_workspace before)) (\<lambda>_. terminalRow d i))"

definition lockedTerminal :: "env \<Rightarrow> db \<Rightarrow> uuid \<Rightarrow> string \<Rightarrow> scope \<Rightarrow> (terminal_row \<times> string) res" where
  "lockedTerminal e d i actor s =
     andThen (terminalRow d i) (\<lambda>(before, _).
     andThen (terminalGrant e d before actor s) (\<lambda>_.
     andThen (lockTerminalResource d i) (\<lambda>(t, name).
     andThen (terminalGrant e d t actor s) (\<lambda>_. Inr (t, name)))))"

section \<open>Control\<close>

definition gone :: failure where
  "gone = HarborError 409 ''TERMINAL_STATE''"

record frame =
  fr_generation :: nat
  fr_epoch :: nat
  fr_controller :: uuid

definition names_controller :: "terminal_row \<Rightarrow> string \<Rightarrow> 'a frame_scheme \<Rightarrow> bool" where
  "names_controller t actor b \<longleftrightarrow> te_generation t = fr_generation b \<and> te_controller_epoch t = fr_epoch b \<and>
     te_controller_actor t = Some actor \<and> te_controller_id t = Some (fr_controller b)"

definition controller_live :: "env \<Rightarrow> db \<Rightarrow> uuid \<Rightarrow> bool" where
  "controller_live e d i \<longleftrightarrow> exists_row (\<lambda>t. te_id t = i \<and>
     some_holds (\<lambda>u. u > now e) (te_controller_until t) \<and> te_deadline t > now e) (terminals d)"

definition requireController :: "env \<Rightarrow> db \<Rightarrow> terminal_row \<Rightarrow> string \<Rightarrow> 'a frame_scheme \<Rightarrow> unit res" where
  "requireController e d t actor b =
     (if te_state t \<noteq> TermRunning then Inl gone
      else if \<not> names_controller t actor b then Inl (HarborError 409 ''CONTROLLER_STALE'')
      else if \<not> controller_live e d (te_id t) then Inl (HarborError 409 ''CONTROLLER_EXPIRED'')
      else Inr ())"

definition window_over :: "env \<Rightarrow> int \<Rightarrow> time option \<Rightarrow> bool" where
  "window_over e ms w = (case w of None \<Rightarrow> True | Some t \<Rightarrow> t \<le> now e - ms)"

definition controlRate :: "env \<Rightarrow> uuid \<Rightarrow> db \<Rightarrow> db res" where
  "controlRate e i d =
     (if exists_row (\<lambda>t. te_id t = i \<and>
          (window_over e 1000 (te_control_window t) \<or> te_control_count t < 4)) (terminals d)
      then Inr (d\<lparr>terminals := update_where
        (\<lambda>t. te_id t = i \<and> (window_over e 1000 (te_control_window t) \<or> te_control_count t < 4))
        (\<lambda>t. if window_over e 1000 (te_control_window t)
             then t\<lparr>te_control_count := 1, te_control_window := Some (now e)\<rparr>
             else t\<lparr>te_control_count := te_control_count t + 1\<rparr>) (terminals d)\<rparr>)
      else Inl (HarborError 429 ''CONTROL_RATE_LIMIT''))"

record control_request =
  ct_generation :: nat
  ct_expected_epoch :: nat
  ct_acknowledge :: bool

record control_view =
  cw_controller :: uuid
  cw_epoch :: nat
  cw_until :: "time option"
  cw_generation :: nat
  cw_sequence :: nat

definition controlled_by :: "env \<Rightarrow> string \<Rightarrow> uuid \<Rightarrow> terminal_row \<Rightarrow> terminal_row" where
  "controlled_by e actor controller t = t\<lparr> te_controller_actor := Some actor, te_controller_id := Some controller,
     te_controller_epoch := te_controller_epoch t + 1, te_controller_until := Some (now e + 20000),
     te_input_sequence := 0, te_input_uncertain := False, te_resize_sequence := 0, te_resize_pending := False,
     te_heartbeat_at := None, te_input_frame_window := None, te_input_frames := 0 \<rparr>"

definition acquireControl ::
  "env \<Rightarrow> terminal_row \<Rightarrow> string \<Rightarrow> control_request \<Rightarrow> uuid \<Rightarrow> db \<Rightarrow> (control_view \<times> db) res" where
  "acquireControl e t actor b controller d =
     andThen (deploymentAdmission d False) (\<lambda>_.
     if te_state t \<noteq> TermRunning then Inl gone
     else if te_generation t \<noteq> ct_generation b \<or> te_controller_epoch t \<noteq> ct_expected_epoch b
     then Inl (HarborError 409 ''CONTROLLER_STALE'')
     else if te_input_uncertain t \<and> \<not> ct_acknowledge b then Inl (HarborError 409 ''INPUT_UNCERTAIN'')
     else if \<not> exists_row (\<lambda>x. te_id x = te_id t \<and> te_deadline x > now e) (terminals d) then Inl gone
     else andThen (controlRate e (te_id t) d) (\<lambda>d1.
       let d2 = update_terminal (te_id t) (controlled_by e actor controller) d1 in
       andThen (first_row (Crash ''TypeError'') (terminal_find (te_id t) d2)) (\<lambda>row.
         Inr (\<lparr> cw_controller = controller, cw_epoch = te_controller_epoch row,
                cw_until = te_controller_until row, cw_generation = te_generation t, cw_sequence = 0 \<rparr>, d2))))"

section \<open>Input\<close>

record input_frame = frame +
  fi_sequence :: nat
  fi_data :: string

datatype outcome_state = KeptAs input_state | OutcomeExpired | OutcomeMissing

record input_view =
  iv_epoch :: nat
  iv_sequence :: nat
  iv_state :: outcome_state
  iv_failure :: "string option"

definition inputView :: "terminal_input_row \<Rightarrow> input_view" where
  "inputView r = \<lparr> iv_epoch = ti_epoch r, iv_sequence = ti_sequence r,
     iv_state = KeptAs (ti_state r), iv_failure = ti_failure_code r \<rparr>"

definition input_key :: "terminal_input_row \<Rightarrow> uuid \<times> nat \<times> nat" where
  "input_key r = (ti_terminal r, ti_epoch r, ti_sequence r)"

definition input_find :: "uuid \<Rightarrow> nat \<Rightarrow> nat \<Rightarrow> db \<Rightarrow> terminal_input_row option" where
  "input_find i ep n d = find (\<lambda>r. input_key r = (i, ep, n)) (terminal_input d)"

definition input_hash :: "env \<Rightarrow> string \<Rightarrow> string" where
  "input_hash e bytes = hash e (b64_encode bytes)"

definition inputOutcome :: "env \<Rightarrow> db \<Rightarrow> terminal_row \<Rightarrow> string \<Rightarrow> input_frame \<Rightarrow> input_view res" where
  "inputOutcome e d t actor b =
     andThen (decodeInput (fi_data b)) (\<lambda>bytes.
     case input_find (te_id t) (fr_epoch b) (fi_sequence b) d of
       Some old \<Rightarrow>
         if ti_hash old \<noteq> input_hash e bytes \<or> ti_actor old \<noteq> actor \<or>
            ti_controller_id old \<noteq> fr_controller b \<or> te_generation t \<noteq> fr_generation b
         then Inl (HarborError 409 ''INPUT_CONFLICT'') else Inr (inputView old)
     | None \<Rightarrow>
         if te_generation t \<noteq> fr_generation b then Inl gone
         else Inr \<lparr> iv_epoch = fr_epoch b, iv_sequence = fi_sequence b,
           iv_state = (if fr_epoch b < te_controller_epoch t \<or>
               (fr_epoch b = te_controller_epoch t \<and> fi_sequence b \<le> te_input_sequence t)
             then OutcomeExpired else OutcomeMissing), iv_failure = None \<rparr>)"

definition input_open :: "terminal_input_row \<Rightarrow> bool" where
  "input_open r \<longleftrightarrow> ti_state r \<in> {InAccepted, InDispatching}"

definition pending_input :: "uuid \<Rightarrow> db \<Rightarrow> terminal_input_row list" where
  "pending_input i d = filter (\<lambda>r. ti_terminal r = i \<and> input_open r) (terminal_input d)"

definition pending_bytes :: "uuid \<Rightarrow> db \<Rightarrow> nat" where
  "pending_bytes i d = sum_list (map (\<lambda>r. case ti_bytes r of None \<Rightarrow> 0 | Some b \<Rightarrow> length b) (pending_input i d))"

text \<open>The rate windows as the first \<open>UPDATE\<close> of \<open>acceptInput\<close> leaves them.\<close>

definition input_rate :: "env \<Rightarrow> terminal_row \<Rightarrow> terminal_row" where
  "input_rate e t =
     (let minute = some_holds (\<lambda>w. w > now e - 60000) (te_input_window t);
          second = some_holds (\<lambda>w. w > now e - 1000) (te_input_frame_window t)
      in t\<lparr> te_input_bytes := (if minute then te_input_bytes t else 0),
            te_input_window := (if minute then te_input_window t else Some (now e)),
            te_input_frames := (if second then te_input_frames t else 0),
            te_input_frame_window := (if second then te_input_frame_window t else Some (now e)) \<rparr>)"

definition insert_input :: "terminal_input_row \<Rightarrow> db \<Rightarrow> db res" where
  "insert_input r d =
     (if exists_row (\<lambda>x. input_key x = input_key r) (terminal_input d)
      then Inl (Crash ''duplicate key'')
      else Inr (d\<lparr>terminal_input := terminal_input d @ [r]\<rparr>))"

definition new_input :: "env \<Rightarrow> terminal_row \<Rightarrow> string \<Rightarrow> input_frame \<Rightarrow> string \<Rightarrow> terminal_input_row" where
  "new_input e t actor b bytes = \<lparr> ti_terminal = te_id t, ti_epoch = fr_epoch b, ti_sequence = fi_sequence b,
     ti_actor = actor, ti_controller_id = fr_controller b, ti_hash = input_hash e bytes,
     ti_bytes = Some bytes, ti_state = InAccepted, ti_failure_code = None \<rparr>"

definition admit_input ::
  "env \<Rightarrow> terminal_row \<Rightarrow> string \<Rightarrow> input_frame \<Rightarrow> string \<Rightarrow> db \<Rightarrow> (input_view \<times> db) res" where
  "admit_input e t actor b bytes d =
     (if length (pending_input (te_id t) d) \<ge> 128 \<or> pending_bytes (te_id t) d + length bytes > 65536
      then Inl (HarborError 429 ''INPUT_PENDING_LIMIT'')
      else let d1 = update_terminal (te_id t) (input_rate e) d in
        andThen (first_row (Crash ''TypeError'') (terminal_find (te_id t) d1)) (\<lambda>rate.
        if te_input_bytes rate + length bytes > 262144 \<or> te_input_frames rate \<ge> 20
        then Inl (HarborError 429 ''INPUT_RATE_LIMIT'')
        else let d2 = update_terminal (te_id t) (\<lambda>x. x\<lparr> te_input_sequence := fi_sequence b,
                 te_input_bytes := te_input_bytes x + length bytes,
                 te_input_frames := te_input_frames x + 1 \<rparr>) d1;
               r = new_input e t actor b bytes
             in andThen (insert_input r d2) (\<lambda>d3. Inr (inputView r, d3))))"

definition acceptInput ::
  "env \<Rightarrow> terminal_row \<Rightarrow> string \<Rightarrow> input_frame \<Rightarrow> db \<Rightarrow> (input_view \<times> db) res" where
  "acceptInput e t actor b d =
     andThen (deploymentAdmission d False) (\<lambda>_.
     andThen (inputOutcome e d t actor b) (\<lambda>outcome.
     if iv_state outcome \<noteq> OutcomeMissing \<and> iv_state outcome \<noteq> OutcomeExpired then Inr (outcome, d)
     else andThen (decodeInput (fi_data b)) (\<lambda>bytes.
       andThen (requireController e d t actor b) (\<lambda>_.
       if fi_sequence b \<le> te_input_sequence t then Inl (HarborError 410 ''INPUT_OUTCOME_EXPIRED'')
       else if fi_sequence b \<noteq> te_input_sequence t + 1 then Inl (HarborError 409 ''INPUT_SEQUENCE_GAP'')
       else admit_input e t actor b bytes d))))"

text \<open>\<open>ORDER BY epoch DESC, sequence DESC OFFSET 128\<close> over the settled rows.\<close>

definition settled_input :: "uuid \<Rightarrow> db \<Rightarrow> terminal_input_row list" where
  "settled_input i d = rev (sort_key (\<lambda>r. (ti_epoch r, ti_sequence r))
     (filter (\<lambda>r. ti_terminal r = i \<and> \<not> input_open r) (terminal_input d)))"

definition pruneInput :: "uuid \<Rightarrow> db \<Rightarrow> db" where
  "pruneInput i d = d\<lparr>terminal_input := delete_where (\<lambda>r. ti_terminal r = i \<and>
     (ti_epoch r, ti_sequence r) \<in> (\<lambda>x. (ti_epoch x, ti_sequence x)) ` set (drop 128 (settled_input i d)))
     (terminal_input d)\<rparr>"

section \<open>Size and heartbeat\<close>

record resize_frame = frame +
  fz_sequence :: nat
  fz_cols :: nat
  fz_rows :: nat

definition resize_rate :: "env \<Rightarrow> terminal_row \<Rightarrow> terminal_row" where
  "resize_rate e t =
     (let open' = some_holds (\<lambda>w. w > now e - 1000) (te_resize_window t)
      in t\<lparr> te_resize_count := (if open' then te_resize_count t else 0),
            te_resize_window := (if open' then te_resize_window t else Some (now e)) \<rparr>)"

definition resize :: "env \<Rightarrow> terminal_row \<Rightarrow> string \<Rightarrow> resize_frame \<Rightarrow> db \<Rightarrow> db res" where
  "resize e t actor b d =
     andThen (deploymentAdmission d False) (\<lambda>_.
     andThen (requireController e d t actor b) (\<lambda>_.
     if fz_sequence b < te_resize_sequence t then Inl (HarborError 410 ''RESIZE_EXPIRED'')
     else if fz_sequence b = te_resize_sequence t
     then (if te_resize_cols t \<noteq> fz_cols b \<or> te_resize_rows t \<noteq> fz_rows b
           then Inl (HarborError 409 ''RESIZE_CONFLICT'') else Inr d)
     else let d1 = update_terminal (te_id t) (resize_rate e) d in
       andThen (first_row (Crash ''TypeError'') (terminal_find (te_id t) d1)) (\<lambda>rate.
       if te_resize_count rate \<ge> 4 then Inl (HarborError 429 ''RESIZE_RATE_LIMIT'')
       else Inr (update_terminal (te_id t) (\<lambda>x. x\<lparr> te_resize_sequence := fz_sequence b, te_resize_cols := fz_cols b,
         te_resize_rows := fz_rows b, te_resize_pending := True, te_resize_count := te_resize_count x + 1 \<rparr>) d1))))"

definition beats :: "env \<Rightarrow> terminal_row \<Rightarrow> bool" where
  "beats e t = (case te_heartbeat_at t of None \<Rightarrow> True | Some h \<Rightarrow> h \<le> now e - 5000)"

definition heartbeat :: "env \<Rightarrow> terminal_row \<Rightarrow> string \<Rightarrow> 'a frame_scheme \<Rightarrow> db \<Rightarrow> db res" where
  "heartbeat e t actor b d =
     andThen (deploymentAdmission d False) (\<lambda>_.
     andThen (requireController e d t actor b) (\<lambda>_.
     if \<not> exists_row (\<lambda>x. te_id x = te_id t \<and> beats e x) (terminals d)
     then Inl (HarborError 429 ''HEARTBEAT_RATE_LIMIT'')
     else Inr (d\<lparr>terminals := update_where (\<lambda>x. te_id x = te_id t \<and> beats e x)
       (\<lambda>x. x\<lparr> te_heartbeat_at := Some (now e),
               te_controller_until := Some (min (te_deadline x) (now e + 20000)) \<rparr>) (terminals d)\<rparr>)))"

section \<open>Output\<close>

text \<open>
  \<open>output_of\<close> is the output of a terminal, newest first; \<open>stale_output\<close> are the rows that
  \<open>pruneOutput\<close> deletes: those after the first 256, those with which the newest rows exceed
  two mebibytes, and those a day old. \<open>n\<close> and \<open>tot\<close> are the window functions
  \<^verbatim>\<open>row_number()\<close> and \<^verbatim>\<open>sum(octet_length(bytes))\<close>.
\<close>

definition output_of :: "uuid \<Rightarrow> db \<Rightarrow> terminal_output_row list" where
  "output_of i d = rev (sort_key to_sequence (filter (\<lambda>r. to_terminal r = i) (terminal_output d)))"

fun stale_output :: "time \<Rightarrow> nat \<Rightarrow> nat \<Rightarrow> terminal_output_row list \<Rightarrow> terminal_output_row list" where
  "stale_output t n tot [] = []"
| "stale_output t n tot (r # rs) =
     (let n' = n + 1; tot' = tot + length (to_bytes r) in
      (if n' > 256 \<or> tot' > 2097152 \<or> to_created_at r \<le> t - 86400000 then [r] else []) @
      stale_output t n' tot' rs)"

definition pruneOutput :: "env \<Rightarrow> uuid \<Rightarrow> db \<Rightarrow> db" where
  "pruneOutput e i d =
     (let stale = map to_sequence (stale_output (now e) 0 0 (output_of i d));
          d1 = d\<lparr>terminal_output := delete_where (\<lambda>r. to_terminal r = i \<and> to_sequence r \<in> set stale) (terminal_output d)\<rparr>
      in if stale = [] then d1
         else update_terminal i (\<lambda>t. t\<lparr>te_output_floor := max (te_output_floor t) (Max (set stale))\<rparr>) d1)"

record snapshot =
  sn_generation :: nat
  sn_floor :: nat
  sn_latest :: nat
  sn_gap :: bool
  sn_lost :: bool
  sn_cursor :: nat
  sn_chunks :: "(nat \<times> string) list"

definition output_after :: "uuid \<Rightarrow> nat \<Rightarrow> db \<Rightarrow> terminal_output_row list" where
  "output_after i n d = take 16 (sort_key to_sequence
     (filter (\<lambda>r. to_terminal r = i \<and> to_sequence r > n) (terminal_output d)))"

definition outputSnapshot :: "env \<Rightarrow> terminal_row \<Rightarrow> nat \<Rightarrow> db \<Rightarrow> (snapshot \<times> db) res" where
  "outputSnapshot e t cursor d =
     (let d1 = pruneOutput e (te_id t) d in
      andThen (terminalRow d1 (te_id t)) (\<lambda>(fresh, _).
      let low = te_output_floor fresh; high = te_output_sequence fresh in
      if cursor > high then Inl (HarborError 400 ''CURSOR_INVALID'')
      else let rows = output_after (te_id t) (max cursor low) d1 in
        Inr (\<lparr> sn_generation = te_generation t, sn_floor = low, sn_latest = high, sn_gap = cursor < low,
               sn_lost = te_output_lost fresh,
               sn_cursor = (if rows = [] then max cursor low else to_sequence (last rows)),
               sn_chunks = map (\<lambda>r. (to_sequence r, b64_encode (to_bytes r))) rows \<rparr>, d1)))"

text \<open>At most 256 terminals with a day-old chunk, in the order in which the table lists them.\<close>

definition output_expired :: "env \<Rightarrow> db \<Rightarrow> uuid list" where
  "output_expired e d = take 256 (remdups (map to_terminal
     (filter (\<lambda>r. to_created_at r \<le> now e - 86400000) (terminal_output d))))"

definition maintain_output :: "env \<Rightarrow> uuid \<Rightarrow> db \<Rightarrow> db res" where
  "maintain_output e i d = andThen (lockTerminalResource d i) (\<lambda>_. Inr (pruneOutput e i d))"

text \<open>A transaction that throws ends the loop; those before it have committed.\<close>

fun maintain_each :: "env \<Rightarrow> uuid list \<Rightarrow> db \<Rightarrow> failure option \<times> db" where
  "maintain_each e [] d = (None, d)"
| "maintain_each e (i # is) d = (case maintain_output e i d of
       Inl f \<Rightarrow> (Some f, d) | Inr d' \<Rightarrow> maintain_each e is d')"

definition maintainTerminalOutput :: "env \<Rightarrow> db \<Rightarrow> failure option \<times> db" where
  "maintainTerminalOutput e d = maintain_each e (output_expired e d) d"

end
