(* ===== verification/Terminal_Supervisor.thy ===== *)
theory Terminal_Supervisor
  imports Terminals
begin

text \<open>
  The supervisor's side of a terminal (\<^verbatim>\<open>apps/supervisor/src/terminals.ts\<close>): it owns the
  process, collects its output in chunks and saves them in batches, hands queued input to the
  process exactly when the sender is still in control, and claims and releases the workspace. The
  runtime process and its transport are outside the program; what they answer is an argument
  (\<open>reply\<close>, \<open>exec_event\<close>). \<open>current\<close> is the answer of \<^verbatim>\<open>this.current()\<close>: the
  supervisor still holds its lease.
\<close>

section \<open>What the supervisor keeps of a running terminal\<close>

datatype repair_state = RpDelivered | RpDenied | RpUncertain

fun repaired :: "repair_state \<Rightarrow> input_state" where
  "repaired RpDelivered = InDelivered"
| "repaired RpDenied = InDenied"
| "repaired RpUncertain = InUncertain"

record repair =
  rp_epoch :: nat
  rp_sequence :: nat
  rp_state :: repair_state
  rp_failure :: "string option"

type_synonym chunk = "nat \<times> string"

record owned =
  ow_id :: uuid
  ow_generation :: nat
  ow_adapter :: bool
  ow_queue :: "chunk list"
  ow_next_output :: nat
  ow_frozen_output :: nat
  ow_queued_bytes :: nat
  ow_rate_start :: time
  ow_rate_bytes :: nat
  ow_lost :: nat
  ow_reason :: "string option"
  ow_exit_code :: "int option"
  ow_repairs :: "repair list"

definition new_owned :: "env \<Rightarrow> terminal_row \<Rightarrow> owned" where
  "new_owned e t = \<lparr> ow_id = te_id t, ow_generation = te_generation t, ow_adapter = False, ow_queue = [],
     ow_next_output = te_output_sequence t, ow_frozen_output = te_output_sequence t, ow_queued_bytes = 0,
     ow_rate_start = now e, ow_rate_bytes = 0, ow_lost = 0, ow_reason = None, ow_exit_code = None,
     ow_repairs = [] \<rparr>"

definition fail :: "string \<Rightarrow> owned \<Rightarrow> owned" where
  "fail reason r = r\<lparr>ow_reason := (case ow_reason r of None \<Rightarrow> Some reason | Some s \<Rightarrow> Some s)\<rparr>"

section \<open>Collecting output\<close>

text \<open>A notification of the runtime; \<open>None\<close> where the field does not have its type.\<close>

record exec_event =
  xe_process :: string
  xe_data :: "string option"
  xe_stream :: string
  xe_cap_reached :: "bool option"

definition appends :: "owned \<Rightarrow> bool" where
  "appends r \<longleftrightarrow> ow_queue r \<noteq> [] \<and> fst (last (ow_queue r)) > ow_frozen_output r \<and>
     length (snd (last (ow_queue r))) < 16384"

definition room :: "owned \<Rightarrow> nat" where
  "room r = (if appends r then 16384 - length (snd (last (ow_queue r))) else 16384)"

definition put_chunk :: "string \<Rightarrow> owned \<Rightarrow> owned" where
  "put_chunk c r = (let r' = (if appends r
       then r\<lparr>ow_queue := butlast (ow_queue r) @ [(fst (last (ow_queue r)), snd (last (ow_queue r)) @ c)]\<rparr>
       else r\<lparr>ow_next_output := ow_next_output r + 1, ow_queue := ow_queue r @ [(ow_next_output r + 1, c)]\<rparr>)
     in r'\<lparr>ow_queued_bytes := ow_queued_bytes r' + length c\<rparr>)"

partial_function (option) put_bytes :: "string \<Rightarrow> nat \<Rightarrow> owned \<Rightarrow> owned option" where
  [code]: "put_bytes bytes offset r =
     (if offset < length bytes
      then put_bytes bytes (offset + length (take (room r) (drop offset bytes)))
             (put_chunk (take (room r) (drop offset bytes)) r)
      else Some r)"

definition lose_output :: "owned \<Rightarrow> owned" where
  "lose_output r = fail ''OUTPUT_LIMIT'' (r\<lparr>ow_next_output := ow_next_output r + 1, ow_lost := ow_next_output r + 1\<rparr>)"

definition event_data :: "owned \<Rightarrow> exec_event \<Rightarrow> string option" where
  "event_data r p =
     (case (xe_data p, xe_cap_reached p) of
        (Some s, Some _) \<Rightarrow>
          if xe_process p \<noteq> ow_id r \<or> length s > 1398104 \<or> xe_stream p \<notin> {''stdout'', ''stderr''} then None
          else if b64_encode (b64_decode s) \<noteq> s then None else Some (b64_decode s)
      | _ \<Rightarrow> None)"

definition rate_tick :: "env \<Rightarrow> nat \<Rightarrow> owned \<Rightarrow> owned" where
  "rate_tick e n r =
     (let r' = (if now e - ow_rate_start r \<ge> 1000 then r\<lparr>ow_rate_start := now e, ow_rate_bytes := 0\<rparr> else r)
      in r'\<lparr>ow_rate_bytes := ow_rate_bytes r' + n\<rparr>)"

definition capture :: "env \<Rightarrow> string \<Rightarrow> exec_event \<Rightarrow> owned \<Rightarrow> owned option" where
  "capture e method p r =
     (if method \<noteq> ''command/exec/outputDelta'' then Some r
      else case event_data r p of
        None \<Rightarrow> Some (fail ''OUTPUT_PROTOCOL'' r)
      | Some bytes \<Rightarrow>
          let r1 = rate_tick e (length bytes) r in
          if xe_cap_reached p = Some True \<or> ow_rate_bytes r1 > 1048576 \<or>
             ow_queued_bytes r1 + length bytes > 1048576
          then Some (lose_output r1)
          else (case put_bytes bytes 0 r1 of None \<Rightarrow> None
            | Some r2 \<Rightarrow> Some (if length (ow_queue r2) > 256 then lose_output r2 else r2)))"

section \<open>Saving output and settled input\<close>

record saving =
  fl_chunks :: "chunk list"
  fl_repairs :: "repair list"
  fl_lost :: nat
  fl_exit_code :: "int option"

text \<open>\<^verbatim>\<open>flush\<close> up to its transaction, the transaction, and what follows it.\<close>

definition flush_begin :: "owned \<Rightarrow> (saving \<times> owned) option" where
  "flush_begin r =
     (if ow_queue r = [] \<and> ow_repairs r = [] \<and> ow_lost r = 0 \<and> ow_exit_code r = None then None
      else Some (\<lparr> fl_chunks = ow_queue r, fl_repairs = ow_repairs r, fl_lost = ow_lost r,
             fl_exit_code = ow_exit_code r \<rparr>,
           r\<lparr>ow_frozen_output := max (ow_frozen_output r) (if ow_queue r = [] then 0 else fst (last (ow_queue r)))\<rparr>))"

definition insert_output :: "env \<Rightarrow> uuid \<Rightarrow> chunk \<Rightarrow> db \<Rightarrow> db res" where
  "insert_output e i c d =
     (if length (snd c) < 1 \<or> length (snd c) > 16384 then Inl (Crash ''check constraint'')
      else if exists_row (\<lambda>r. to_terminal r = i \<and> to_sequence r = fst c) (terminal_output d) then Inr d
      else Inr (d\<lparr>terminal_output := terminal_output d @
        [\<lparr> to_terminal = i, to_sequence = fst c, to_bytes = snd c, to_created_at = now e \<rparr>]\<rparr>))"

fun insert_outputs :: "env \<Rightarrow> uuid \<Rightarrow> nat \<Rightarrow> chunk list \<Rightarrow> db \<Rightarrow> db res" where
  "insert_outputs e i high [] d = Inr d"
| "insert_outputs e i high (c # cs) d =
     andThen (if fst c > high then insert_output e i c d else Inr d) (insert_outputs e i high cs)"

definition settle_input :: "uuid \<Rightarrow> repair \<Rightarrow> db \<Rightarrow> db" where
  "settle_input i p d =
     (let d1 = d\<lparr>terminal_input := update_where
            (\<lambda>r. ti_terminal r = i \<and> ti_epoch r = rp_epoch p \<and> ti_sequence r = rp_sequence p \<and> input_open r)
            (\<lambda>r. r\<lparr>ti_state := repaired (rp_state p), ti_bytes := None, ti_failure_code := rp_failure p\<rparr>) (terminal_input d)\<rparr>
      in if rp_state p = RpUncertain
         then update_terminal i (\<lambda>t. t\<lparr>te_input_uncertain := True, te_controller_until := None\<rparr>) d1 else d1)"

definition save_output :: "uuid \<Rightarrow> saving \<Rightarrow> nat \<Rightarrow> db \<Rightarrow> db" where
  "save_output i f high d =
     (let d1 = update_terminal i (\<lambda>t. t\<lparr> te_output_sequence := high,
            te_output_floor := max (te_output_floor t) (fl_lost f),
            te_output_lost := te_output_lost t \<or> fl_lost f \<noteq> 0 \<rparr>) d
      in if fl_lost f = 0 then d1
         else d1\<lparr>terminal_output := delete_where (\<lambda>r. to_terminal r = i \<and> to_sequence r \<le> fl_lost f) (terminal_output d1)\<rparr>)"

definition save_exit :: "uuid \<Rightarrow> int option \<Rightarrow> db \<Rightarrow> db" where
  "save_exit i x d = (case x of None \<Rightarrow> d | Some c \<Rightarrow>
     d\<lparr>terminals := update_where (\<lambda>t. te_id t = i \<and> te_state t \<in> {TermDispatching, TermRunning})
       (\<lambda>t. t\<lparr>te_state := TermShellExited, te_exit_code := Some c, te_controller_until := None\<rparr>) (terminals d)\<rparr>)"

definition flush_commit :: "env \<Rightarrow> uuid \<Rightarrow> nat \<Rightarrow> saving \<Rightarrow> db \<Rightarrow> db res" where
  "flush_commit e i gen f d =
     andThen (lockTerminalResource d i) (\<lambda>(t, _).
     if te_generation t \<noteq> gen then Inl (Crash ''Terminal generation changed'')
     else andThen (insert_outputs e i (te_output_sequence t) (fl_chunks f) d) (\<lambda>d1.
       let high = max (max (te_output_sequence t) (fl_lost f))
             (if fl_chunks f = [] then 0 else fst (last (fl_chunks f)));
           d2 = save_output i f high d1;
           d3 = fold (settle_input i) (fl_repairs f) d2
       in Inr (pruneOutput e i (pruneInput i (save_exit i (fl_exit_code f) d3)))))"

definition flush_end :: "saving \<Rightarrow> owned \<Rightarrow> owned" where
  "flush_end f r = r\<lparr> ow_queue := drop (length (fl_chunks f)) (ow_queue r),
     ow_queued_bytes := ow_queued_bytes r - sum_list (map (\<lambda>c. length (snd c)) (fl_chunks f)),
     ow_repairs := drop (length (fl_repairs f)) (ow_repairs r),
     ow_lost := (if ow_lost r = fl_lost f then 0 else ow_lost r),
     ow_exit_code := (if ow_exit_code r = fl_exit_code f then None else ow_exit_code r) \<rparr>"

text \<open>
  \<open>flush\<close> when nothing happens meanwhile. An exception leaves the handle as it was, with the
  chunks it tried to save frozen; the operations below return it beside the state they leave.
\<close>

type_synonym handled = "owned \<times> db \<times> failure option"

definition flush :: "env \<Rightarrow> owned \<Rightarrow> db \<Rightarrow> handled" where
  "flush e r d = (case flush_begin r of
       None \<Rightarrow> (r, d, None)
     | Some (f, r1) \<Rightarrow> (case flush_commit e (ow_id r) (ow_generation r) f d of
           Inl x \<Rightarrow> (r1, d, Some x)
         | Inr d' \<Rightarrow> (flush_end f r1, d', None)))"

section \<open>The last check before bytes reach the process\<close>

datatype guard_kind = LaunchGuard | InputGuard | ResizeGuard

record wire_frame = frame +
  wf_sequence :: nat

record guard =
  gd_kind :: guard_kind
  gd_actor :: string
  gd_frame :: wire_frame

definition currentGrant :: "bool \<Rightarrow> db \<Rightarrow> unit res" where
  "currentGrant current d =
     (if \<not> current then Inl (HarborError 409 ''SUPERVISOR_FENCED'')
      else if meta_emergency d then Inl (HarborError 409 ''EMERGENCY_STOPPED'') else Inr ())"

text \<open>\<^verbatim>\<open>Number(t.writer_epoch)\<close> is 0 for \<^verbatim>\<open>null\<close>.\<close>

definition holds_workspace :: "terminal_row \<Rightarrow> workspace_row \<Rightarrow> bool" where
  "holds_workspace t w \<longleftrightarrow> ws_writer_kind w = Some TerminalWriter \<and> ws_writer_owner w = Some (te_id t) \<and>
     ws_writer_epoch w = (case te_writer_epoch t of None \<Rightarrow> 0 | Some n \<Rightarrow> n)"

definition wire_action :: "env \<Rightarrow> terminal_row \<Rightarrow> guard \<Rightarrow> db \<Rightarrow> db res" where
  "wire_action e t g d =
     (if gd_kind g = LaunchGuard then
        (if te_state t \<noteq> TermDispatching then Inl (HarborError 409 ''TERMINAL_STATE'')
         else if \<not> exists_row (\<lambda>x. te_id x = te_id t \<and> te_deadline x > now e) (terminals d)
         then Inl (HarborError 409 ''TERMINAL_EXPIRED'') else Inr d)
      else andThen (requireController e d t (gd_actor g) (gd_frame g)) (\<lambda>_.
        if gd_kind g = InputGuard then
          (let P = (\<lambda>r. input_key r = (te_id t, fr_epoch (gd_frame g), wf_sequence (gd_frame g)) \<and>
                 ti_state r = InAccepted)
           in if exists_row P (terminal_input d)
              then Inr (d\<lparr>terminal_input := update_where P (\<lambda>r. r\<lparr>ti_state := InDispatching\<rparr>) (terminal_input d)\<rparr>)
              else Inl (HarborError 409 ''INPUT_ALREADY_DISPATCHED''))
        else Inr d))"

definition wire :: "env \<Rightarrow> bool \<Rightarrow> owned \<Rightarrow> guard \<Rightarrow> db \<Rightarrow> db res" where
  "wire e current r g d =
     andThen (currentGrant current d) (\<lambda>_.
     andThen (requireAuthority e d (gd_actor g) \<lparr> nd_project = None, nd_scope = Some TerminalControl,
        nd_profile = None, nd_internal = None \<rparr>) (\<lambda>_.
     andThen (deploymentAdmission d False) (\<lambda>_.
     andThen (lockedTerminal e d (ow_id r) (gd_actor g) TerminalControl) (\<lambda>(t, _).
     andThen (currentGrant current d) (\<lambda>_.
     andThen (case permission_ceiling e of None \<Rightarrow> Inr () | Some c \<Rightarrow> authorizePermission (te_profile t) c) (\<lambda>_.
     if te_generation t \<noteq> ow_generation r \<or> te_retired t \<or> ow_reason r \<noteq> None
     then Inl (HarborError 409 ''TERMINAL_STATE'')
     else andThen (selectedWorkspace d (te_workspace t)) (\<lambda>(w, _).
     if \<not> holds_workspace t w then Inl (HarborError 409 ''RESERVATION_CHANGED'')
     else andThen (wire_action e t g d) (\<lambda>d1.
     andThen (requireAuthority e d1 (gd_actor g) (terminal_need t TerminalControl)) (\<lambda>_.
     andThen (if gd_kind g \<noteq> LaunchGuard then requireController e d1 t (gd_actor g) (gd_frame g) else Inr ()) (\<lambda>_.
     if \<not> current then Inl (HarborError 409 ''SUPERVISOR_FENCED'') else Inr d1))))))))))"

section \<open>Delivering input\<close>

text \<open>
  How a write ends: the transport refuses before the check, or the bytes leave and the runtime
  answers, or they leave and no answer comes (with the transaction of the check committed or not).
\<close>

datatype reply = NotSent "string option" | Answered | Unanswered "string option" bool

definition failure_code :: "string option \<Rightarrow> string option" where
  "failure_code c = (case c of None \<Rightarrow> Some ''INPUT_DELIVERY_UNCERTAIN'' | Some s \<Rightarrow> Some s)"

definition input_guard :: "owned \<Rightarrow> terminal_input_row \<Rightarrow> guard" where
  "input_guard r x = \<lparr> gd_kind = InputGuard, gd_actor = ti_actor x,
     gd_frame = \<lparr> fr_generation = ow_generation r, fr_epoch = ti_epoch x, fr_controller = ti_controller_id x,
       wf_sequence = ti_sequence x \<rparr> \<rparr>"

definition write_input :: "env \<Rightarrow> bool \<Rightarrow> reply \<Rightarrow> owned \<Rightarrow> terminal_input_row \<Rightarrow> db \<Rightarrow>
    (repair_state \<times> string option) \<times> db" where
  "write_input e current a r x d =
     (case a of
        NotSent c \<Rightarrow> ((RpDenied, failure_code c), d)
      | Answered \<Rightarrow> (case wire e current r (input_guard r x) d of
            Inl (HarborError _ c) \<Rightarrow> ((RpDenied, Some c), d)
          | Inl (Crash _) \<Rightarrow> ((RpDenied, failure_code None), d)
          | Inr d' \<Rightarrow> ((RpDelivered, None), d'))
      | Unanswered c committed \<Rightarrow> (case wire e current r (input_guard r x) d of
            Inl (HarborError _ c') \<Rightarrow> ((RpDenied, Some c'), d)
          | Inl (Crash _) \<Rightarrow> ((RpDenied, failure_code None), d)
          | Inr d' \<Rightarrow> ((RpUncertain, failure_code c), if committed then d' else d)))"

definition queued_input :: "uuid \<Rightarrow> db \<Rightarrow> terminal_input_row list" where
  "queued_input i d = take 8 (sort_key (\<lambda>r. (ti_epoch r, ti_sequence r))
     (filter (\<lambda>r. ti_terminal r = i \<and> ti_state r = InAccepted) (terminal_input d)))"

fun deliver_inputs :: "env \<Rightarrow> bool \<Rightarrow> (terminal_input_row \<Rightarrow> reply) \<Rightarrow> terminal_input_row list \<Rightarrow>
    owned \<Rightarrow> db \<Rightarrow> handled" where
  "deliver_inputs e current a [] r d = (r, d, None)"
| "deliver_inputs e current a (x # xs) r d =
     (let ((s, c), d1) = write_input e current (a x) r x d;
          r1 = r\<lparr>ow_repairs := ow_repairs r @ [\<lparr> rp_epoch = ti_epoch x, rp_sequence = ti_sequence x,
                 rp_state = s, rp_failure = c \<rparr>]\<rparr>
      in case flush e r1 d1 of
           (r2, d2, Some f) \<Rightarrow> (r2, d2, Some f)
         | (r2, d2, None) \<Rightarrow>
             if s = RpUncertain then (r2, d2, None) else deliver_inputs e current a xs r2 d2)"

definition deliver :: "env \<Rightarrow> bool \<Rightarrow> (terminal_input_row \<Rightarrow> reply) \<Rightarrow> owned \<Rightarrow> db \<Rightarrow> handled" where
  "deliver e current a r d = deliver_inputs e current a (queued_input (ow_id r) d) r d"

section \<open>Claiming a workspace and starting\<close>

definition active_terminal :: "terminal_row \<Rightarrow> bool" where
  "active_terminal t \<longleftrightarrow> \<not> te_retired t \<and> te_state t \<noteq> TermQueued \<and> te_restored_from t = None"

definition claim_workspace :: "terminal_row \<Rightarrow> selected \<Rightarrow> db \<Rightarrow> (bool \<times> db) res" where
  "claim_workspace t sel d = (case sel of (w, p) \<Rightarrow>
     if \<not> exists_row (\<lambda>x. ws_id x = ws_id w \<and> ws_writer_owner x = None) (workspaces d) then Inr (False, d)
     else andThen (update_workspaces (\<lambda>x. ws_id x = ws_id w \<and> ws_writer_owner x = None)
            (\<lambda>x. x\<lparr> ws_writer_kind := Some TerminalWriter, ws_writer_owner := Some (te_id t),
                    ws_writer_generation := None \<rparr>) d) (\<lambda>d1.
       andThen (first_row (Crash ''TypeError'') (find (\<lambda>x. ws_id x = ws_id w) (workspaces d1))) (\<lambda>w1.
         Inr (True, update_terminal (te_id t)
           (\<lambda>x. x\<lparr>te_state := TermDispatching, te_writer_epoch := Some (ws_writer_epoch w1)\<rparr>) d1))))"

definition claim_terminal :: "env \<Rightarrow> bool \<Rightarrow> terminal_row \<Rightarrow> db \<Rightarrow> (bool \<times> db) res" where
  "claim_terminal e current t d =
     andThen (requireAuthority e d (te_actor t) (terminal_need t TerminalControl)) (\<lambda>_.
     andThen (deploymentAdmission d False) (\<lambda>_.
     andThen (case permission_ceiling e of None \<Rightarrow> Inr () | Some c \<Rightarrow> authorizePermission (te_profile t) c) (\<lambda>_.
     andThen (selectedWorkspace d (te_workspace t)) (\<lambda>(w, p).
     andThen (terminalRow d (te_id t)) (\<lambda>(fresh, _).
     if te_state fresh \<noteq> TermQueued then Inr (False, d)
     else andThen (currentGrant current d) (\<lambda>_.
     if ws_state w \<noteq> WsReady \<or> pj_archived_at p \<noteq> None then Inl (HarborError 409 ''WORKSPACE_UNAVAILABLE'')
     else if ws_writer_owner w \<noteq> None \<or> file_effects_open (te_project t) d \<or> storage_pending (te_project t) d \<or>
        count_where active_terminal (terminals d) \<ge> 4
     then Inr (False, d)
     else andThen (verifyWorkspace e (w, p)) (\<lambda>_.
     andThen (requireAuthority e d (te_actor t) (terminal_need t TerminalControl)) (\<lambda>_.
       claim_workspace t (w, p) d))))))))"

text \<open>
  One round of the admission loop: a refusal settles the queued terminal as failed, except during
  maintenance; any other exception ends the tick.
\<close>

definition refuse_terminal :: "terminal_row \<Rightarrow> string \<Rightarrow> db \<Rightarrow> db" where
  "refuse_terminal t c d = d\<lparr>terminals := update_where (\<lambda>x. te_id x = te_id t \<and> te_state x = TermQueued)
     (\<lambda>x. x\<lparr>te_state := TermFailed, te_retired := True, te_failure_code := Some c\<rparr>) (terminals d)\<rparr>"

definition admit_terminal :: "env \<Rightarrow> bool \<Rightarrow> terminal_row \<Rightarrow> db \<Rightarrow> (bool \<times> db) res" where
  "admit_terminal e current t d =
     (case claim_terminal e current t d of
        Inr (accepted, d') \<Rightarrow> Inr (accepted, d')
      | Inl (Crash c) \<Rightarrow> Inl (Crash c)
      | Inl (HarborError _ c) \<Rightarrow>
          if c = ''MAINTENANCE'' then Inr (False, d)
          else Inr (False, refuse_terminal t c d))"

definition launched :: "owned \<Rightarrow> db \<Rightarrow> db" where
  "launched r d = d\<lparr>terminals := update_where
     (\<lambda>t. te_id t = ow_id r \<and> te_generation t = ow_generation r \<and> te_state t = TermDispatching)
     (\<lambda>t. t\<lparr>te_state := TermRunning\<rparr>) (terminals d)\<rparr>"

text \<open>How starting the shell ends, given a runtime: it runs, or it is not ready in time.\<close>

datatype start = NoRuntime | Started | NotReady

definition launch_guard :: "terminal_row \<Rightarrow> guard" where
  "launch_guard t = \<lparr> gd_kind = LaunchGuard, gd_actor = te_actor t,
     gd_frame = \<lparr> fr_generation = te_generation t, fr_epoch = 0, fr_controller = [], wf_sequence = 0 \<rparr> \<rparr>"

definition launch :: "env \<Rightarrow> bool \<Rightarrow> start \<Rightarrow> terminal_row \<Rightarrow> db \<Rightarrow> owned \<times> db" where
  "launch e current st t d =
     (let r = new_owned e t in
      if \<not> succeeds (andThen (selectedWorkspace d (te_workspace t)) (verifyWorkspace e)) \<or> st = NoRuntime
      then (fail ''LAUNCH_UNCERTAIN'' r, d)
      else let r1 = r\<lparr>ow_adapter := True\<rparr> in
        if \<not> succeeds (wire e current r1 (launch_guard t) d) \<or> st = NotReady
        then (fail ''LAUNCH_UNCERTAIN'' r1, d) else (r1, launched r1 d))"

section \<open>Retiring\<close>

definition release_terminal :: "terminal_row \<Rightarrow> workspace_row \<Rightarrow> db \<Rightarrow> db res" where
  "release_terminal fresh w d =
     (case te_writer_epoch fresh of
        None \<Rightarrow> Inr d
      | Some n \<Rightarrow>
          if \<not> holds_workspace fresh w then Inl (Crash ''Terminal retirement reservation changed'')
          else update_workspaces (\<lambda>x. ws_id x = ws_id w \<and> ws_writer_kind x = Some TerminalWriter \<and>
                 ws_writer_owner x = Some (te_id fresh) \<and> ws_writer_epoch x = n)
               (\<lambda>x. x\<lparr>ws_writer_kind := None, ws_writer_owner := None, ws_writer_generation := None\<rparr>) d)"

definition settle_retired :: "bool \<Rightarrow> uuid \<Rightarrow> db \<Rightarrow> db" where
  "settle_retired orphaned i d =
     (let uncertain = exists_row (\<lambda>r. ti_terminal r = i \<and>
            (ti_state r = InDispatching \<or> (orphaned \<and> ti_state r = InAccepted))) (terminal_input d);
          d1 = d\<lparr>terminal_input := update_where (\<lambda>r. ti_terminal r = i \<and> input_open r)
            (\<lambda>r. r\<lparr> ti_state := (if ti_state r = InDispatching \<or> orphaned then InUncertain else InDenied),
                     ti_bytes := None, ti_failure_code := Some ''TERMINAL_RETIRED'' \<rparr>) (terminal_input d)\<rparr>
      in pruneInput i (update_terminal i (\<lambda>t. t\<lparr>
           te_state := (if te_failure_code t = None then TermTerminated else TermInterrupted),
           te_retired := True, te_writer_epoch := None, te_controller_until := None,
           te_input_uncertain := te_input_uncertain t \<or> uncertain \<rparr>) d1))"

definition retire_commit :: "bool \<Rightarrow> terminal_row \<Rightarrow> db \<Rightarrow> db res" where
  "retire_commit present t d =
     andThen (selectedWorkspace d (te_workspace t)) (\<lambda>(w, _).
     andThen (terminalRow d (te_id t)) (\<lambda>(fresh, _).
     if te_generation fresh \<noteq> te_generation t then Inl (Crash ''Terminal generation changed'')
     else andThen (release_terminal fresh w d) (\<lambda>d1.
       Inr (settle_retired (\<not> present \<and> te_failure_code fresh = Some ''SUPERVISOR_RESTARTED'') (te_id t) d1))))"

definition retire_failed :: "uuid \<Rightarrow> db \<Rightarrow> db" where
  "retire_failed i d = d\<lparr>terminals := update_where (\<lambda>t. te_id t = i \<and> \<not> te_retired t)
     (\<lambda>t. t\<lparr> te_state := TermUncertain, te_failure_code := Some ''RETIREMENT_UNCONFIRMED'',
              te_controller_until := None \<rparr>) (terminals d)\<rparr>"

text \<open>
  \<open>closed\<close>: the transport has closed and the runtime identity is retired. A failure of any step
  leaves the terminal uncertain and the supervisor's handle in place; what \<open>flush\<close> has saved
  stays saved.
\<close>

definition retire :: "env \<Rightarrow> bool \<Rightarrow> terminal_row \<Rightarrow> owned option \<Rightarrow> db \<Rightarrow> owned option \<times> db" where
  "retire e closed t r d =
     (if \<not> closed then (r, retire_failed (te_id t) d)
      else case (case r of None \<Rightarrow> (None, d, None)
                 | Some x \<Rightarrow> (case flush e x d of (x', d', f) \<Rightarrow> (Some x', d', f))) of
          (r1, d1, Some _) \<Rightarrow> (r1, retire_failed (te_id t) d1)
        | (r1, d1, None) \<Rightarrow> (case retire_commit (r \<noteq> None) t d1 of
              Inl _ \<Rightarrow> (r1, retire_failed (te_id t) d1)
            | Inr d2 \<Rightarrow> (None, d2)))"

section \<open>The parts of a tick\<close>

definition starting_reset :: "db \<Rightarrow> db" where
  "starting_reset d = d\<lparr>terminals := update_where (\<lambda>t. \<not> te_retired t \<and> te_state t \<noteq> TermQueued \<and> te_restored_from t = None)
     (\<lambda>t. t\<lparr> te_state := TermRetiring, te_failure_code := Some ''SUPERVISOR_RESTARTED'',
              te_controller_until := None, te_output_lost := True \<rparr>) (terminals d)\<rparr>"

definition orphan_dispatch :: "uuid \<Rightarrow> db \<Rightarrow> db" where
  "orphan_dispatch i d = d\<lparr>terminals := update_where (\<lambda>t. te_id t = i \<and> te_state t = TermDispatching)
     (\<lambda>t. t\<lparr> te_state := TermRetiring, te_failure_code := Some ''ADMISSION_UNCONFIRMED'',
              te_controller_until := None \<rparr>) (terminals d)\<rparr>"

definition stop_reason :: "env \<Rightarrow> db \<Rightarrow> terminal_row \<Rightarrow> owned option \<Rightarrow> string option" where
  "stop_reason e d t r =
     (case Option.bind r ow_reason of
        Some s \<Rightarrow> Some s
      | None \<Rightarrow> if meta_emergency d then Some ''EMERGENCY_STOPPED''
          else if te_deadline t \<le> now e then Some ''LIFETIME_EXPIRED'' else None)"

definition stop_terminal :: "uuid \<Rightarrow> string \<Rightarrow> db \<Rightarrow> db" where
  "stop_terminal i reason d = d\<lparr>terminals := update_where (\<lambda>t. te_id t = i \<and> \<not> te_retired t)
     (\<lambda>t. t\<lparr>te_state := TermRetiring, te_failure_code := Some reason, te_controller_until := None\<rparr>) (terminals d)\<rparr>"

definition resize_done :: "terminal_row \<Rightarrow> db \<Rightarrow> db" where
  "resize_done fresh d = d\<lparr>terminals := update_where (\<lambda>t. te_id t = te_id fresh \<and>
       te_controller_epoch t = te_controller_epoch fresh \<and> te_resize_sequence t = te_resize_sequence fresh)
     (\<lambda>t. t\<lparr>te_resize_pending := False\<rparr>) (terminals d)\<rparr>"

text \<open>
  One terminal of the tick's loop; \<open>t\<close> is the row as the loop's query read it, \<open>closed\<close> and
  \<open>a\<close> what the runtime answers.
\<close>

definition serve_running :: "env \<Rightarrow> bool \<Rightarrow> (terminal_input_row \<Rightarrow> reply) \<Rightarrow> owned \<Rightarrow> db \<Rightarrow> handled" where
  "serve_running e current a r d =
     (case deliver e current a r d of
        (r1, d1, Some f) \<Rightarrow> (r1, d1, Some f)
      | (r1, d1, None) \<Rightarrow> (case terminal_find (ow_id r) d1 of
            None \<Rightarrow> (r1, d1, Some (Crash ''TypeError''))
          | Some fresh \<Rightarrow> (r1, if te_resize_pending fresh \<and> te_controller_actor fresh \<noteq> None
               then resize_done fresh d1 else d1, None)))"

definition serve_terminal :: "env \<Rightarrow> bool \<Rightarrow> bool \<Rightarrow> (terminal_input_row \<Rightarrow> reply) \<Rightarrow> terminal_row \<Rightarrow>
    owned option \<Rightarrow> db \<Rightarrow> owned option \<times> db \<times> failure option" where
  "serve_terminal e current closed a t r d =
     (if te_state t = TermQueued \<and> dep_maintenance d then (r, d, None)
      else
        let lonely = (te_state t = TermDispatching \<and> r = None);
            state = (if lonely then TermRetiring else te_state t);
            d1 = (if lonely then orphan_dispatch (te_id t) d else d)
        in case (if state = TermUncertain then None else stop_reason e d1 t r) of
             Some reason \<Rightarrow> (case retire e closed t r (stop_terminal (te_id t) reason d1) of (r', d') \<Rightarrow> (r', d', None))
           | None \<Rightarrow>
               if state = TermRetiring then (case retire e closed t r d1 of (r', d') \<Rightarrow> (r', d', None))
               else (case r of
                   None \<Rightarrow> (None, d1, None)
                 | Some x \<Rightarrow>
                     if state \<noteq> TermRunning \<or> \<not> ow_adapter x \<or> dep_maintenance d1 then (Some x, d1, None)
                     else (case serve_running e current a x d1 of (x', d', f) \<Rightarrow> (Some x', d', f))))"

section \<open>The tick\<close>

record supervisor =
  sp_owned :: "owned list"
  sp_starting :: bool
  sp_last_maintenance :: time

definition owned_find :: "uuid \<Rightarrow> owned list \<Rightarrow> owned option" where
  "owned_find i rs = find (\<lambda>r. ow_id r = i) rs"

definition owned_set :: "uuid \<Rightarrow> owned option \<Rightarrow> owned list \<Rightarrow> owned list" where
  "owned_set i r rs = (case r of
       None \<Rightarrow> delete_where (\<lambda>x. ow_id x = i) rs
     | Some x \<Rightarrow> if owned_find i rs = None then rs @ [x] else update_where (\<lambda>y. ow_id y = i) (\<lambda>_. x) rs)"

text \<open>What the world answers during one tick.\<close>

record answers =
  an_current :: bool
  an_closed :: "uuid \<Rightarrow> bool"
  an_reply :: "terminal_input_row \<Rightarrow> reply"
  an_start :: "uuid \<Rightarrow> start"

fun flush_all :: "env \<Rightarrow> uuid list \<Rightarrow> owned list \<Rightarrow> db \<Rightarrow> owned list \<times> db \<times> failure option" where
  "flush_all e [] rs d = (rs, d, None)"
| "flush_all e (i # is) rs d = (case owned_find i rs of
       None \<Rightarrow> flush_all e is rs d
     | Some r \<Rightarrow> (case flush e r d of
         (r', d', Some f) \<Rightarrow> (owned_set i (Some r') rs, d', Some f)
       | (r', d', None) \<Rightarrow> flush_all e is (owned_set i (Some r') rs) d'))"

fun serve_all :: "env \<Rightarrow> answers \<Rightarrow> terminal_row list \<Rightarrow> owned list \<Rightarrow> db \<Rightarrow> owned list \<times> db \<times> failure option" where
  "serve_all e w [] rs d = (rs, d, None)"
| "serve_all e w (t # ts) rs d =
     (case serve_terminal e (an_current w) (an_closed w (te_id t)) (an_reply w) t (owned_find (te_id t) rs) d of
        (r, d', Some f) \<Rightarrow> (owned_set (te_id t) r rs, d', Some f)
      | (r, d', None) \<Rightarrow> serve_all e w ts (owned_set (te_id t) r rs) d')"

fun admit_all :: "env \<Rightarrow> answers \<Rightarrow> terminal_row list \<Rightarrow> owned list \<Rightarrow> db \<Rightarrow> owned list \<times> db \<times> failure option" where
  "admit_all e w [] rs d = (rs, d, None)"
| "admit_all e w (t # ts) rs d =
     (case admit_terminal e (an_current w) t d of
        Inl f \<Rightarrow> (rs, d, Some f)
      | Inr (False, d') \<Rightarrow> admit_all e w ts rs d'
      | Inr (True, d') \<Rightarrow> (case launch e (an_current w) (an_start w (te_id t)) t d' of
            (r, d'') \<Rightarrow> admit_all e w ts (owned_set (te_id t) (Some r) rs) d''))"

definition tick_work :: "env \<Rightarrow> answers \<Rightarrow> supervisor \<Rightarrow> db \<Rightarrow> supervisor \<times> db \<times> failure option" where
  "tick_work e w s d =
     (let d1 = (if sp_starting s then starting_reset d else d);
          s1 = s\<lparr>sp_starting := False\<rparr>
      in case flush_all e (map ow_id (sp_owned s1)) (sp_owned s1) d1 of
           (rs, d2, Some f) \<Rightarrow> (s1\<lparr>sp_owned := rs\<rparr>, d2, Some f)
         | (rs, d2, None) \<Rightarrow>
            (case serve_all e w (take 256 (sort_key te_created_at (filter (\<lambda>t. \<not> te_retired t) (terminals d2)))) rs d2 of
               (rs', d3, Some f) \<Rightarrow> (s1\<lparr>sp_owned := rs'\<rparr>, d3, Some f)
             | (rs', d3, None) \<Rightarrow>
                 if meta_emergency d2 \<or> dep_maintenance d3 then (s1\<lparr>sp_owned := rs'\<rparr>, d3, None)
                 else (case admit_all e w (take 8 (sort_key te_created_at
                          (filter (\<lambda>t. te_state t = TermQueued) (terminals d3)))) rs' d3 of
                     (rs'', d4, f) \<Rightarrow> (s1\<lparr>sp_owned := rs''\<rparr>, d4, f))))"

definition tick :: "env \<Rightarrow> answers \<Rightarrow> supervisor \<Rightarrow> db \<Rightarrow> supervisor \<times> db \<times> failure option" where
  "tick e w s d =
     (case (if now e - sp_last_maintenance s > 30000 then maintainTerminalOutput e d else (None, d)) of
        (Some f, d1) \<Rightarrow> (s, d1, Some f)
      | (None, d1) \<Rightarrow>
          let s1 = (if now e - sp_last_maintenance s > 30000 then s\<lparr>sp_last_maintenance := now e\<rparr> else s) in
          if dep_activation_required d1 then (s1, d1, None) else tick_work e w s1 d1)"

end
