(* ===== verification/Terminal_Routes.thy ===== *)
theory Terminal_Routes
  imports Terminals
begin

text \<open>
  The terminal routes (\<^verbatim>\<open>apps/api/src/terminals.ts\<close>) with the schemas they parse
  (\<^verbatim>\<open>packages/terminals/src/contracts.ts\<close>). Each definition is the body of one route's
  transaction; \<open>terminal_op\<close> is the choice among the routes that write.
\<close>

section \<open>Schemas\<close>

text \<open>The numbers of a request are natural here, so only the bounds remain of the schemas.\<close>

definition terminalSize :: "nat \<Rightarrow> nat \<Rightarrow> bool" where
  "terminalSize cols rows \<longleftrightarrow> 20 \<le> cols \<and> cols \<le> 240 \<and> 5 \<le> rows \<and> rows \<le> 80"

definition terminalFrameIdentity :: "env \<Rightarrow> 'a frame_scheme \<Rightarrow> bool" where
  "terminalFrameIdentity e b \<longleftrightarrow> 0 < fr_generation b \<and> 0 < fr_epoch b \<and> valid_uuid e (fr_controller b)"

definition terminalInput :: "env \<Rightarrow> input_frame \<Rightarrow> bool" where
  "terminalInput e b \<longleftrightarrow> terminalFrameIdentity e b \<and> 0 < fi_sequence b \<and>
     4 \<le> length (fi_data b) \<and> length (fi_data b) \<le> 5464"

definition terminalResize :: "env \<Rightarrow> resize_frame \<Rightarrow> bool" where
  "terminalResize e b \<longleftrightarrow> terminalFrameIdentity e b \<and> 0 < fz_sequence b \<and> terminalSize (fz_cols b) (fz_rows b)"

definition parsed :: "bool \<Rightarrow> 'a res \<Rightarrow> 'a res" where
  "parsed ok m = (if ok then m else Inl (Crash ''ZodError''))"

lemma parsed_eq_Inr [res_simps]: "parsed ok m = Inr x \<longleftrightarrow> ok \<and> m = Inr x"
  by (simp add: parsed_def)

section \<open>The view of a terminal\<close>

record terminal_view =
  tv_id :: uuid
  tv_project :: uuid
  tv_workspace :: uuid
  tv_name :: "string option"
  tv_profile :: profile
  tv_state :: terminal_state
  tv_generation :: nat
  tv_created_at :: time
  tv_deadline :: time
  tv_retired :: bool
  tv_exit_code :: "int option"
  tv_failure_code :: "string option"
  tv_controller_epoch :: nat
  tv_controller_until :: "time option"
  tv_input_sequence :: nat
  tv_input_uncertain :: bool
  tv_output_sequence :: nat
  tv_output_floor :: nat
  tv_output_lost :: bool

definition terminalView :: "terminal_row \<Rightarrow> string option \<Rightarrow> terminal_view" where
  "terminalView t name = \<lparr> tv_id = te_id t, tv_project = te_project t, tv_workspace = te_workspace t,
     tv_name = name, tv_profile = te_profile t, tv_state = te_state t, tv_generation = te_generation t,
     tv_created_at = te_created_at t, tv_deadline = te_deadline t, tv_retired = te_retired t,
     tv_exit_code = te_exit_code t, tv_failure_code = te_failure_code t,
     tv_controller_epoch = te_controller_epoch t, tv_controller_until = te_controller_until t,
     tv_input_sequence = te_input_sequence t, tv_input_uncertain = te_input_uncertain t,
     tv_output_sequence = te_output_sequence t, tv_output_floor = te_output_floor t,
     tv_output_lost = te_output_lost t \<rparr>"

section \<open>Reading\<close>

definition terminal_list :: "env \<Rightarrow> uuid \<Rightarrow> string \<Rightarrow> db \<Rightarrow> terminal_view list res" where
  "terminal_list e wid actor d =
     andThen (selectedWorkspace d wid) (\<lambda>(w, p).
     andThen (requireAuthority e d actor \<lparr> nd_project = Some (ws_project w), nd_scope = Some TerminalRead,
       nd_profile = None, nd_internal = None \<rparr>) (\<lambda>_.
     Inr (map (\<lambda>t. terminalView t (Some (ws_name w)))
       (take 64 (sort_key (\<lambda>t. - te_created_at t)
         (filter (\<lambda>t. te_workspace t = ws_id w) (terminals d)))))))"

definition terminal_get :: "env \<Rightarrow> uuid \<Rightarrow> string \<Rightarrow> db \<Rightarrow> terminal_view res" where
  "terminal_get e i actor d =
     andThen (terminalRow d i) (\<lambda>(t, name).
     andThen (terminalGrant e d t actor TerminalRead) (\<lambda>_. Inr (terminalView t (Some name))))"

definition terminal_output_get :: "env \<Rightarrow> uuid \<Rightarrow> string \<Rightarrow> nat \<Rightarrow> db \<Rightarrow> (snapshot \<times> db) res" where
  "terminal_output_get e i actor cursor d =
     andThen (lockedTerminal e d i actor TerminalRead) (\<lambda>(t, _). outputSnapshot e t cursor d)"

definition input_outcome_get :: "env \<Rightarrow> uuid \<Rightarrow> string \<Rightarrow> input_frame \<Rightarrow> db \<Rightarrow> input_view res" where
  "input_outcome_get e i actor b d = parsed (terminalInput e b)
     (andThen (lockedTerminal e d i actor TerminalControl) (\<lambda>(t, _). inputOutcome e d t actor b))"

section \<open>Creating a terminal\<close>

record terminal_create =
  tc_profile :: profile
  tc_cols :: nat
  tc_rows :: nat

definition create_need :: "uuid \<Rightarrow> profile \<Rightarrow> need" where
  "create_need proj p = \<lparr> nd_project = Some proj, nd_scope = Some TerminalControl,
     nd_profile = Some p, nd_internal = None \<rparr>"

definition new_terminal :: "env \<Rightarrow> uuid \<Rightarrow> workspace_row \<Rightarrow> string \<Rightarrow> terminal_create \<Rightarrow> nat \<Rightarrow> terminal_row" where
  "new_terminal e i w actor b gen = \<lparr> te_id = i, te_project = ws_project w, te_workspace = ws_id w,
     te_actor = actor, te_profile = tc_profile b, te_generation = gen, te_state = TermQueued,
     te_created_at = now e, te_deadline = now e + 86400000, te_retired = False, te_writer_epoch = None,
     te_failure_code = None, te_exit_code = None, te_controller_actor = None, te_controller_id = None,
     te_controller_epoch = 0, te_controller_until = None, te_input_sequence = 0, te_input_uncertain = False,
     te_input_window = None, te_input_bytes = 0, te_input_frame_window = None, te_input_frames = 0,
     te_resize_sequence = 0, te_resize_cols = tc_cols b, te_resize_rows = tc_rows b, te_resize_pending = False,
     te_resize_window = None, te_resize_count = 0, te_heartbeat_at = None, te_output_sequence = 0,
     te_output_floor = 0, te_output_lost = False, te_control_window = None, te_control_count = 0,
     te_termination_attempts = 0, te_restored_from = None \<rparr>"

definition insert_terminal :: "terminal_row \<Rightarrow> db \<Rightarrow> db res" where
  "insert_terminal t d =
     (if exists_row (\<lambda>x. te_id x = te_id t) (terminals d) then Inl (Crash ''duplicate key'')
      else Inr (d\<lparr>terminals := terminals d @ [t]\<rparr>))"

definition terminal_counts :: "workspace_row \<Rightarrow> db \<Rightarrow> unit res" where
  "terminal_counts w d =
     (if length (terminals d) \<ge> 256 \<or> count_where (\<lambda>t. te_project t = ws_project w) (terminals d) \<ge> 64
      then Inl (HarborError 429 ''TERMINAL_RECORD_LIMIT'')
      else if count_where (\<lambda>t. te_workspace t = ws_id w \<and> te_state t = TermQueued) (terminals d) \<ge> 2
      then Inl (HarborError 429 ''TERMINAL_QUEUE_LIMIT'') else Inr ())"

definition create_terminal ::
  "env \<Rightarrow> uuid \<Rightarrow> string \<Rightarrow> terminal_create \<Rightarrow> uuid \<Rightarrow> db \<Rightarrow> (terminal_view \<times> db) res" where
  "create_terminal e wid actor b i d = parsed (terminalSize (tc_cols b) (tc_rows b))
     (andThen (case permission_ceiling e of None \<Rightarrow> Inr () | Some c \<Rightarrow> authorizePermission (tc_profile b) c) (\<lambda>_.
      andThen (selectedWorkspace d wid) (\<lambda>(before, _).
      andThen (requireAuthority e d actor (create_need (ws_project before) (tc_profile b))) (\<lambda>_.
      andThen (selectedWorkspace d wid) (\<lambda>(w, p).
      if ws_state w \<noteq> WsReady \<or> pj_archived_at p \<noteq> None then Inl (HarborError 409 ''WORKSPACE_UNAVAILABLE'')
      else if meta_emergency d then Inl (HarborError 409 ''EMERGENCY_STOPPED'')
      else andThen (terminal_counts w d) (\<lambda>_.
      andThen (requireAuthority e d actor (create_need (ws_project w) (tc_profile b))) (\<lambda>_.
      let gen = Suc (runtime_generation_seq d); t = new_terminal e i w actor b gen in
      andThen (insert_terminal t (d\<lparr>runtime_generation_seq := gen\<rparr>)) (\<lambda>d1.
        Inr (terminalView t (Some (ws_name w)), d1)))))))))"

section \<open>Ending and removing a terminal\<close>

definition ended :: "terminal_row \<Rightarrow> terminal_row" where
  "ended t = t\<lparr> te_state := (if te_state t = TermQueued then TermTerminated else TermRetiring),
     te_retired := (te_state t = TermQueued), te_controller_until := None,
     te_termination_attempts := te_termination_attempts t + 1 \<rparr>"

definition terminate_terminal ::
  "env \<Rightarrow> uuid \<Rightarrow> string \<Rightarrow> nat \<Rightarrow> db \<Rightarrow> (terminal_view \<times> db) res" where
  "terminate_terminal e i actor gen d = parsed (0 < gen)
     (andThen (lockedTerminal e d i actor TerminalTerminate) (\<lambda>(t, name).
      if te_generation t \<noteq> gen then Inl (HarborError 409 ''GENERATION_STALE'')
      else if te_retired t then Inr (terminalView t (Some name), d)
      else if te_termination_attempts t \<ge> 3 then Inl (HarborError 429 ''TERMINATION_LIMIT'')
      else andThen (controlRate e (te_id t) d) (\<lambda>d1.
        let d2 = update_terminal (te_id t) ended d1
        in andThen (first_row (Crash ''TypeError'') (terminal_find (te_id t) d2)) (\<lambda>r.
             Inr (terminalView r None, d2)))))"

text \<open>Deleting the row also deletes its input and output (\<^verbatim>\<open>ON DELETE CASCADE\<close>).\<close>

definition drop_terminal :: "uuid \<Rightarrow> db \<Rightarrow> db" where
  "drop_terminal i d = d\<lparr> terminals := delete_where (\<lambda>t. te_id t = i) (terminals d),
     terminal_input := delete_where (\<lambda>r. ti_terminal r = i) (terminal_input d),
     terminal_output := delete_where (\<lambda>r. to_terminal r = i) (terminal_output d) \<rparr>"

definition remove_terminal :: "env \<Rightarrow> uuid \<Rightarrow> string \<Rightarrow> db \<Rightarrow> db res" where
  "remove_terminal e i actor d =
     andThen (lockedTerminal e d i actor TerminalTerminate) (\<lambda>(t, _).
     if \<not> te_retired t \<or> te_writer_epoch t \<noteq> None \<or>
        te_state t \<notin> {TermTerminated, TermInterrupted, TermFailed}
     then Inl (HarborError 409 ''TERMINAL_NOT_RETIRED'')
     else andThen (controlRate e (te_id t) d) (\<lambda>d1. Inr (drop_terminal (te_id t) d1)))"

section \<open>The writing routes\<close>

datatype terminal_request =
    CreateTerminal uuid terminal_create uuid   \<comment> \<open>workspace, body, fresh identifier\<close>
  | TakeControl uuid control_request uuid       \<comment> \<open>terminal, body, fresh controller\<close>
  | SendInput uuid input_frame
  | ResizeTerminal uuid resize_frame
  | Heartbeat uuid frame
  | ReadOutput uuid nat
  | TerminateTerminal uuid nat
  | RemoveTerminal uuid

fun terminal_op :: "env \<times> string \<times> terminal_request \<Rightarrow> db \<Rightarrow> db res" where
  "terminal_op (e, actor, CreateTerminal w b i) d = andThen (create_terminal e w actor b i d) (\<lambda>(_, d'). Inr d')"
| "terminal_op (e, actor, TakeControl i b c) d = parsed (0 < ct_generation b)
     (andThen (lockedTerminal e d i actor TerminalControl) (\<lambda>(t, _).
      andThen (acquireControl e t actor b c d) (\<lambda>(_, d'). Inr d')))"
| "terminal_op (e, actor, SendInput i b) d = parsed (terminalInput e b)
     (andThen (lockedTerminal e d i actor TerminalControl) (\<lambda>(t, _).
      andThen (acceptInput e t actor b d) (\<lambda>(_, d'). Inr d')))"
| "terminal_op (e, actor, ResizeTerminal i b) d = parsed (terminalResize e b)
     (andThen (lockedTerminal e d i actor TerminalControl) (\<lambda>(t, _). resize e t actor b d))"
| "terminal_op (e, actor, Heartbeat i b) d = parsed (terminalFrameIdentity e b)
     (andThen (lockedTerminal e d i actor TerminalControl) (\<lambda>(t, _). heartbeat e t actor b d))"
| "terminal_op (e, actor, ReadOutput i cursor) d = andThen (terminal_output_get e i actor cursor d) (\<lambda>(_, d'). Inr d')"
| "terminal_op (e, actor, TerminateTerminal i gen) d = andThen (terminate_terminal e i actor gen d) (\<lambda>(_, d'). Inr d')"
| "terminal_op (e, actor, RemoveTerminal i) d = remove_terminal e i actor d"

end
