(* ===== verification/Terminal_Events.thy ===== *)
theory Terminal_Events
  imports Terminal_Supervisor Terminal_Routes
begin

text \<open>
  Everything that happens to the terminals, as one operation on the data base: the requests of the
  API and the transactions of the supervisor (\<open>terminal_event\<close>). A tick of the supervisor is a
  sequence of these events, by one lemma for each of its parts.
\<close>

section \<open>Events\<close>

datatype terminal_event =
    Request env string terminal_request
  | Wire env bool owned guard
  | Save env uuid nat saving
  | Retire bool terminal_row
  | Claim env bool terminal_row
  | Refuse terminal_row string
  | Launched owned
  | Restart
  | Orphan uuid
  | Stop uuid string
  | ResizeDone terminal_row
  | Unretired uuid
  | Maintain env uuid

fun happen :: "terminal_event \<Rightarrow> db \<Rightarrow> db res" where
  "happen (Request e a x) d = terminal_op (e, a, x) d"
| "happen (Wire e c r g) d = wire e c r g d"
| "happen (Save e i gen f) d = flush_commit e i gen f d"
| "happen (Retire p t) d = retire_commit p t d"
| "happen (Claim e c t) d = andThen (claim_terminal e c t d) (\<lambda>(_, d'). Inr d')"
| "happen (Refuse t c) d = Inr (refuse_terminal t c d)"
| "happen (Launched r) d = Inr (launched r d)"
| "happen Restart d = Inr (starting_reset d)"
| "happen (Orphan i) d = Inr (orphan_dispatch i d)"
| "happen (Stop i c) d = Inr (stop_terminal i c d)"
| "happen (ResizeDone t) d = Inr (resize_done t d)"
| "happen (Unretired i) d = Inr (retire_failed i d)"
| "happen (Maintain e i) d = maintain_output e i d"

section \<open>A tick is a sequence of events\<close>

definition reaches :: "db \<Rightarrow> db \<Rightarrow> bool" where
  "reaches d d' \<longleftrightarrow> (\<exists>xs. d' = serve happen xs d)"

lemma reaches_refl [simp]: "reaches d d"
  unfolding reaches_def by (rule exI [of _ "[]"]) simp

lemma reaches_trans: "reaches d d1 \<Longrightarrow> reaches d1 d2 \<Longrightarrow> reaches d d2"
  unfolding reaches_def by (metis serve_append)

lemma reaches_event: "happen x d = Inr d' \<Longrightarrow> reaches d d'"
  unfolding reaches_def by (rule exI [of _ "[x]"]) simp

lemma reaches_statements:
  "reaches d (refuse_terminal t c d)" "reaches d (launched r d)" "reaches d (starting_reset d)"
  "reaches d (orphan_dispatch i d)" "reaches d (stop_terminal i c d)" "reaches d (resize_done t d)"
  "reaches d (retire_failed i d)"
  by (auto intro: reaches_event [of "Refuse t c"] reaches_event [of "Launched r"] reaches_event [of Restart]
      reaches_event [of "Orphan i"] reaches_event [of "Stop i c"] reaches_event [of "ResizeDone t"]
      reaches_event [of "Unretired i"])

lemma flush_reaches: "flush e r d = (r', d', f) \<Longrightarrow> reaches d d'"
  by (auto simp: flush_def split: option.splits prod.splits sum.splits intro: reaches_event [of "Save e (ow_id r) (ow_generation r) _"])

lemma wire_reaches: "wire e c r g d = Inr d' \<Longrightarrow> reaches d d'"
  by (rule reaches_event [of "Wire e c r g"]) simp

lemma write_input_reaches: "reaches d (snd (write_input e c a r x d))"
  by (auto simp: write_input_def split: reply.split sum.split failure.split intro: wire_reaches)

lemma deliver_inputs_reaches: "deliver_inputs e c a xs r d = (r', d', f) \<Longrightarrow> reaches d d'"
proof (induction xs arbitrary: r d)
  case (Cons x xs)
  obtain s k d1 where w: "write_input e c (a x) r x d = ((s, k), d1)" by (metis surj_pair)
  let ?r1 = "r\<lparr>ow_repairs := ow_repairs r @ [\<lparr> rp_epoch = ti_epoch x, rp_sequence = ti_sequence x, rp_state = s, rp_failure = k \<rparr>]\<rparr>"
  obtain r2 d2 g where fl: "flush e ?r1 d1 = (r2, d2, g)" by (metis surj_pair)
  have "reaches d d1" using write_input_reaches [of d e c "a x" r x] w by simp
  then have d2: "reaches d d2" using flush_reaches [OF fl] reaches_trans by blast
  from Cons.prems have "d' = d2 \<or> deliver_inputs e c a xs r2 d2 = (r', d', f)"
    by (auto simp: w fl Let_def split: option.splits if_splits)
  then show ?case using d2 Cons.IH reaches_trans by blast
qed simp

lemma serve_running_reaches: "serve_running e c a r d = (r', d', f) \<Longrightarrow> reaches d d'"
proof -
  assume s: "serve_running e c a r d = (r', d', f)"
  obtain r1 d1 g where dl: "deliver e c a r d = (r1, d1, g)" by (metis surj_pair)
  have "reaches d d1" using dl deliver_inputs_reaches by (simp add: deliver_def)
  moreover from s have "d' = d1 \<or> (\<exists>t. d' = resize_done t d1)"
    by (auto simp: serve_running_def dl split: option.splits if_splits)
  ultimately show ?thesis using reaches_statements(6) reaches_trans by blast
qed

lemma retire_reaches: "retire e closed t r d = (r', d') \<Longrightarrow> reaches d d'"
proof -
  assume s: "retire e closed t r d = (r', d')"
  have "\<exists>d1. reaches d d1 \<and> (d' = retire_failed (te_id t) d1 \<or> retire_commit (r \<noteq> None) t d1 = Inr d')"
  proof (cases closed)
    case False
    then show ?thesis using s by (intro exI [of _ d]) (simp add: retire_def)
  next
    case True
    obtain r1 d1 f where o': "(case r of None \<Rightarrow> (None, d, None)
        | Some x \<Rightarrow> (case flush e x d of (x', d', f) \<Rightarrow> (Some x', d', f))) = (r1, d1, f)" by (metis surj_pair)
    have "reaches d d1" using o' flush_reaches by (auto split: option.splits prod.splits)
    moreover have "d' = retire_failed (te_id t) d1 \<or> retire_commit (r \<noteq> None) t d1 = Inr d'"
      using s True unfolding retire_def o' by (auto split: option.splits sum.splits)
    ultimately show ?thesis by blast
  qed
  then show ?thesis using reaches_statements(7) reaches_event [of "Retire (r \<noteq> None) t"] reaches_trans by fastforce
qed

lemma serve_terminal_reaches: "serve_terminal e c k a t r d = (r', d', f) \<Longrightarrow> reaches d d'"
proof -
  assume s: "serve_terminal e c k a t r d = (r', d', f)"
  let ?d1 = "if te_state t = TermDispatching \<and> r = None then orphan_dispatch (te_id t) d else d"
  have d1: "reaches d ?d1" using reaches_statements(4) by simp
  consider "d' = d" | "d' = ?d1" | r' where "retire e k t r ?d1 = (r', d')"
    | reason r' where "retire e k t r (stop_terminal (te_id t) reason ?d1) = (r', d')"
    | x x' f' where "serve_running e c a x ?d1 = (x', d', f')"
    using s unfolding serve_terminal_def Let_def
    by (auto split: if_splits option.splits prod.splits)
  then show ?thesis
  proof cases
    case 3 show ?thesis by (rule reaches_trans [OF d1 retire_reaches [OF 3]])
  next
    case 4 show ?thesis by (rule reaches_trans [OF d1 reaches_trans [OF reaches_statements(5) retire_reaches [OF 4]]])
  next
    case 5 show ?thesis by (rule reaches_trans [OF d1 serve_running_reaches [OF 5]])
  qed (use d1 in simp_all)
qed

lemma flush_all_reaches: "flush_all e is rs d = (rs', d', f) \<Longrightarrow> reaches d d'"
proof (induction "is" arbitrary: rs d)
  case (Cons i "is")
  show ?case
  proof (cases "owned_find i rs")
    case None then show ?thesis using Cons by simp
  next
    case (Some r)
    obtain r1 d1 g where fl: "flush e r d = (r1, d1, g)" by (metis surj_pair)
    have "reaches d d1" by (rule flush_reaches [OF fl])
    moreover have "d' = d1 \<or> flush_all e is (owned_set i (Some r1) rs) d1 = (rs', d', f)"
      using Cons.prems Some by (auto simp: fl split: option.splits)
    ultimately show ?thesis using Cons.IH reaches_trans by blast
  qed
qed simp

lemma serve_all_reaches: "serve_all e w ts rs d = (rs', d', f) \<Longrightarrow> reaches d d'"
proof (induction ts arbitrary: rs d)
  case (Cons t ts)
  obtain r1 d1 g where sv: "serve_terminal e (an_current w) (an_closed w (te_id t)) (an_reply w) t (owned_find (te_id t) rs) d
      = (r1, d1, g)" by (metis surj_pair)
  have "reaches d d1" by (rule serve_terminal_reaches [OF sv])
  moreover have "d' = d1 \<or> serve_all e w ts (owned_set (te_id t) r1 rs) d1 = (rs', d', f)"
    using Cons.prems by (auto simp: sv split: option.splits)
  ultimately show ?case using Cons.IH reaches_trans by blast
qed simp

lemma admit_reaches: "admit_terminal e c t d = Inr (b, d') \<Longrightarrow> reaches d d'"
  unfolding admit_terminal_def
  by (auto split: sum.splits failure.splits if_splits prod.splits
      intro: reaches_statements(1) reaches_event [of "Claim e c t"])

lemma launch_reaches: "launch e c st t d = (r, d') \<Longrightarrow> reaches d d'"
  by (auto simp: launch_def Let_def intro: reaches_statements(2) split: if_splits)

lemma admit_all_reaches: "admit_all e w ts rs d = (rs', d', f) \<Longrightarrow> reaches d d'"
proof (induction ts arbitrary: rs d)
  case (Cons t ts)
  show ?case
  proof (cases "admit_terminal e (an_current w) t d")
    case (Inl g) then show ?thesis using Cons.prems by simp
  next
    case (Inr p)
    obtain b d1 where p: "p = (b, d1)" by (metis surj_pair)
    have d1: "reaches d d1" using Inr admit_reaches by (simp add: p)
    obtain r d2 where l: "launch e (an_current w) (an_start w (te_id t)) t d1 = (r, d2)" by (metis surj_pair)
    show ?thesis
    proof (cases b)
      case True
      then have "admit_all e w ts (owned_set (te_id t) (Some r) rs) d2 = (rs', d', f)" using Cons.prems Inr by (simp add: p l)
      then show ?thesis using Cons.IH d1 launch_reaches [OF l] reaches_trans by blast
    next
      case False
      then have "admit_all e w ts rs d1 = (rs', d', f)" using Cons.prems Inr by (simp add: p)
      then show ?thesis using Cons.IH d1 reaches_trans by blast
    qed
  qed
qed simp

lemma maintain_reaches: "maintain_each e is d = (f, d') \<Longrightarrow> reaches d d'"
proof (induction "is" arbitrary: d)
  case (Cons i "is")
  then show ?case
    by (auto split: sum.splits intro: reaches_trans [OF reaches_event [of "Maintain e i"]])
qed simp

lemma tick_work_reaches:
  assumes "tick_work e w s d = (s', d', f)"
  shows "reaches d d'"
proof -
  let ?d1 = "if sp_starting s then starting_reset d else d"
  have r1: "reaches d ?d1" using reaches_statements(3) by simp
  obtain rs d2 g where fl: "flush_all e (map ow_id (sp_owned s)) (sp_owned s) ?d1 = (rs, d2, g)" by (metis surj_pair)
  obtain rs' d3 g' where sv: "serve_all e w (take 256 (sort_key te_created_at (filter (\<lambda>t. \<not> te_retired t) (terminals d2)))) rs d2
      = (rs', d3, g')" by (metis surj_pair)
  obtain rs'' d4 g'' where ad: "admit_all e w (take 8 (sort_key te_created_at (filter (\<lambda>t. te_state t = TermQueued) (terminals d3)))) rs' d3
      = (rs'', d4, g'')" by (metis surj_pair)
  have "reaches d d2" using r1 flush_all_reaches [OF fl] reaches_trans by blast
  moreover have "reaches d2 d3" by (rule serve_all_reaches [OF sv])
  moreover have "reaches d3 d4" by (rule admit_all_reaches [OF ad])
  moreover have "d' = d2 \<or> d' = d3 \<or> d' = d4"
    using assms unfolding tick_work_def Let_def by (auto simp: fl sv ad split: option.splits if_splits)
  ultimately show ?thesis using reaches_trans by blast
qed

lemma maintain_output_reaches: "maintainTerminalOutput e d = (f, d') \<Longrightarrow> reaches d d'"
  by (simp add: maintainTerminalOutput_def maintain_reaches)

text \<open>A tick of the supervisor writes nothing that is not one of the events: whatever it meets
  (exceptions that end it early, unanswered writes, refused claims, a maintenance or emergency
  flag), the database it leaves is that of some sequence of the transactions listed in
  \<open>terminal_event\<close>. Which ones a tick runs, and when, is in the definition of \<open>tick\<close>; the events
  allow more.\<close>

lemma tick_is_events: "\<exists>xs. fst (snd (tick e w s d)) = serve happen xs d"
proof -
  obtain m d1 where m: "(if now e - sp_last_maintenance s > 30000 then maintainTerminalOutput e d else (None, d)) = (m, d1)"
    by (metis surj_pair)
  then have d1: "reaches d d1" using maintain_output_reaches by (auto split: if_splits)
  obtain s' d' f where t: "tick e w s d = (s', d', f)" by (metis surj_pair)
  have "d' = d1 \<or> (\<exists>s1. tick_work e w s1 d1 = (s', d', f))"
    using t unfolding tick_def m by (auto simp: Let_def split: option.splits if_splits)
  then have "reaches d d'" using d1 tick_work_reaches reaches_trans by blast
  then show ?thesis by (simp add: t reaches_def)
qed

end
