(* ===== verification/Terminal_Output.thy ===== *)
theory Terminal_Output
  imports Terminal_Supervisor Terminal_Routes
begin

text \<open>
  The output of a terminal, from the process to the browser. \<open>kept\<close> is what the database and
  the supervisor hold together; the lemmas show that collecting, saving, failing to save, pruning
  and every request of the API keep it a suffix of what the process has written, and that a
  browser that follows the cursor reads it without a hole.
\<close>

section \<open>Splitting bytes into chunks\<close>

lemma room_bounds: "0 < room r \<and> room r \<le> 16384"
  by (auto simp: room_def appends_def)

lemma put_bytes_done [simp]: "length bytes \<le> offset \<Longrightarrow> put_bytes bytes offset r = Some r"
  by (subst put_bytes.simps) simp

lemma put_bytes_next:
  "offset < length bytes \<Longrightarrow> put_bytes bytes offset r =
     put_bytes bytes (offset + length (take (room r) (drop offset bytes)))
       (put_chunk (take (room r) (drop offset bytes)) r)"
  by (subst put_bytes.simps) simp

text \<open>
  What holds of a handle and is kept by every admissible chunk holds after the loop; the loop
  always ends, because every chunk is at least one byte.
\<close>

lemma put_bytes_induct:
  assumes "P r (take offset bytes)"
    and "\<And>r c done. P r done \<Longrightarrow> c \<noteq> [] \<Longrightarrow> length c \<le> room r \<Longrightarrow> P (put_chunk c r) (done @ c)"
  shows "\<exists>r'. put_bytes bytes offset r = Some r' \<and> P r' bytes"
  using assms(1)
proof (induction "length bytes - offset" arbitrary: offset r rule: less_induct)
  case less
  show ?case
  proof (cases "offset < length bytes")
    case False
    then show ?thesis using less.prems by simp
  next
    case True
    let ?c = "take (room r) (drop offset bytes)"
    have c: "?c \<noteq> []" "length ?c \<le> room r" using True room_bounds [of r] by auto
    have "take offset bytes @ ?c = take (offset + room r) bytes" by (simp add: take_add)
    also have "\<dots> = take (offset + length ?c) bytes" by (cases "room r \<le> length bytes - offset") auto
    finally have "P (put_chunk ?c r) (take (offset + length ?c) bytes)" using assms(2) [OF less.prems c] by simp
    moreover have "length bytes - (offset + length ?c) < length bytes - offset" using True c(1) by (auto simp: length_greater_0_conv [symmetric] simp del: length_greater_0_conv)
    ultimately show ?thesis using less.hyps True by (simp add: put_bytes_next)
  qed
qed

section \<open>The queue\<close>

definition queue_ok :: "owned \<Rightarrow> bool" where
  "queue_ok r \<longleftrightarrow> sorted_wrt (<) (map fst (ow_queue r)) \<and>
     (\<forall>c \<in> set (ow_queue r). fst c \<le> ow_next_output r \<and> 1 \<le> length (snd c) \<and> length (snd c) \<le> 16384) \<and>
     ow_queued_bytes r = sum_list (map (\<lambda>c. length (snd c)) (ow_queue r)) \<and>
     ow_frozen_output r \<le> ow_next_output r \<and> ow_lost r \<le> ow_next_output r"

text \<open>The chunk that the next bytes go to.\<close>

definition target :: "owned \<Rightarrow> nat" where
  "target r = (if appends r then fst (last (ow_queue r)) else ow_next_output r + 1)"

lemma put_chunk_fields [simp]:
  "ow_id (put_chunk c r) = ow_id r" "ow_lost (put_chunk c r) = ow_lost r"
  "ow_frozen_output (put_chunk c r) = ow_frozen_output r" "ow_repairs (put_chunk c r) = ow_repairs r"
  "ow_generation (put_chunk c r) = ow_generation r" "ow_exit_code (put_chunk c r) = ow_exit_code r"
  "ow_reason (put_chunk c r) = ow_reason r"
  by (simp_all add: put_chunk_def Let_def)

lemma put_chunk_next: "ow_next_output (put_chunk c r) = (if appends r then ow_next_output r else ow_next_output r + 1)"
  by (simp add: put_chunk_def Let_def)

lemma put_chunk_queue:
  "ow_queue (put_chunk c r) = (if appends r then butlast (ow_queue r) @ [(target r, snd (last (ow_queue r)) @ c)]
     else ow_queue r @ [(target r, c)])"
  by (simp add: put_chunk_def Let_def target_def)

lemma queue_last: "ow_queue r \<noteq> [] \<Longrightarrow> ow_queue r = butlast (ow_queue r) @ [last (ow_queue r)]"
  by simp

lemma put_chunk_ok:
  assumes "queue_ok r" and "c \<noteq> []" and "length c \<le> room r"
  shows "queue_ok (put_chunk c r)"
proof (cases "appends r")
  case True
  then have ne: "ow_queue r \<noteq> []" and len: "length (snd (last (ow_queue r)) @ c) \<le> 16384"
    using assms(3) by (auto simp: room_def appends_def)
  obtain q l where q: "ow_queue r = q @ [l]" using queue_last [OF ne] by metis
  show ?thesis using assms(1,2) True len
    by (auto simp: queue_ok_def put_chunk_queue put_chunk_next target_def q sorted_wrt_append put_chunk_def Let_def)
next
  case False
  then have "length c \<le> 16384" using assms(3) room_bounds [of r] by simp
  moreover have "1 \<le> length c" using assms(2) by (cases c) auto
  ultimately show ?thesis using assms(1) False
    by (fastforce simp: queue_ok_def put_chunk_queue put_chunk_next target_def sorted_wrt_append put_chunk_def Let_def)
qed

lemma queue_distinct: "queue_ok r \<Longrightarrow> distinct (map fst (ow_queue r))"
  by (simp add: queue_ok_def strict_sorted_iff)

lemma put_chunk_map:
  assumes "queue_ok r"
  shows "map_of (ow_queue (put_chunk c r)) =
    (map_of (ow_queue r))(target r \<mapsto> (if appends r then the (map_of (ow_queue r) (target r)) else []) @ c)"
proof (cases "appends r")
  case True
  then have ne: "ow_queue r \<noteq> []" by (simp add: appends_def)
  obtain q s b where q: "ow_queue r = q @ [(s, b)]" using queue_last [OF ne] by (metis surj_pair)
  have "s \<notin> fst ` set q" using queue_distinct [OF assms] by (auto simp: q)
  then show ?thesis using True
    by (auto simp: put_chunk_queue target_def q map_add_def map_of_eq_None_iff [symmetric] fun_eq_iff split: option.splits)
next
  case False
  have "map_of (ow_queue r) (ow_next_output r + 1) = None" using assms
    by (force simp: queue_ok_def map_of_eq_None_iff)
  then show ?thesis using False by (auto simp: put_chunk_queue target_def map_add_def fun_eq_iff split: option.splits)
qed

section \<open>What is kept\<close>

definition row_at :: "uuid \<Rightarrow> nat \<Rightarrow> db \<Rightarrow> terminal_output_row option" where
  "row_at i s d = find (\<lambda>x. to_terminal x = i \<and> to_sequence x = s) (terminal_output d)"

definition chunk_at :: "uuid \<Rightarrow> db \<Rightarrow> owned \<Rightarrow> nat \<Rightarrow> string" where
  "chunk_at i d r s = (case row_at i s d of
       Some x \<Rightarrow> to_bytes x
     | None \<Rightarrow> (case map_of (ow_queue r) s of Some b \<Rightarrow> b | None \<Rightarrow> []))"

text \<open>Sequence number of the last saved chunk, and of the last one given up.\<close>

definition head_of :: "uuid \<Rightarrow> db \<Rightarrow> nat" where
  "head_of i d = (case terminal_find i d of None \<Rightarrow> 0 | Some t \<Rightarrow> te_output_sequence t)"

definition floor_of :: "uuid \<Rightarrow> db \<Rightarrow> nat" where
  "floor_of i d = (case terminal_find i d of None \<Rightarrow> 0 | Some t \<Rightarrow> te_output_floor t)"

definition given_up :: "uuid \<Rightarrow> db \<Rightarrow> owned \<Rightarrow> nat" where
  "given_up i d r = max (floor_of i d) (ow_lost r)"

definition kept :: "uuid \<Rightarrow> db \<Rightarrow> owned \<Rightarrow> string" where
  "kept i d r = concat (map (chunk_at i d r) [Suc (given_up i d r)..<Suc (ow_next_output r)])"

text \<open>The stored window: no row beyond the head, none missing above the floor.\<close>

definition window_ok :: "uuid \<Rightarrow> db \<Rightarrow> bool" where
  "window_ok i d \<longleftrightarrow> floor_of i d \<le> head_of i d \<and>
     (\<forall>s. row_at i s d \<noteq> None \<longrightarrow> s \<le> head_of i d) \<and>
     (\<forall>s \<in> {floor_of i d<..head_of i d}. row_at i s d \<noteq> None) \<and>
     distinct (map (\<lambda>x. (to_terminal x, to_sequence x)) (terminal_output d))"

definition output_ok :: "uuid \<Rightarrow> db \<Rightarrow> owned \<Rightarrow> bool" where
  "output_ok i d r \<longleftrightarrow> queue_ok r \<and> window_ok i d \<and> ow_id r = i \<and>
     head_of i d \<le> ow_next_output r \<and> head_of i d \<le> max (ow_frozen_output r) (floor_of i d) \<and>
     (\<forall>s. max (head_of i d) (ow_lost r) < s \<and> s \<le> ow_next_output r \<longrightarrow> s \<in> fst ` set (ow_queue r))"

lemma output_okD:
  assumes "output_ok i d r"
  shows "queue_ok r" "window_ok i d" "head_of i d \<le> ow_next_output r"
    "head_of i d \<le> max (ow_frozen_output r) (floor_of i d)" "floor_of i d \<le> head_of i d"
    "ow_lost r \<le> ow_next_output r" "given_up i d r \<le> ow_next_output r"
  using assms by (auto simp: output_ok_def window_ok_def queue_ok_def given_up_def)

lemma no_row_above: "output_ok i d r \<Longrightarrow> head_of i d < s \<Longrightarrow> row_at i s d = None"
  by (auto simp: output_ok_def window_ok_def)

section \<open>Collecting keeps the order\<close>

text \<open>
  Appending to the last chunk when that chunk is not the newest number means that everything
  before has been given up.
\<close>

lemma target_newest:
  assumes ok: "output_ok i d r" and "appends r" and "target r \<noteq> ow_next_output r"
  shows "ow_next_output r \<le> given_up i d r"
proof (rule ccontr)
  assume no: "\<not> ow_next_output r \<le> given_up i d r"
  let ?n = "ow_next_output r"
  obtain q l where q: "ow_queue r = q @ [l]" using queue_last [of r] assms(2) by (metis appends_def)
  have le: "c \<in> set (ow_queue r) \<Longrightarrow> fst c \<le> fst l" for c
    using output_okD(1) [OF ok] by (auto simp: q queue_ok_def sorted_wrt_append)
  have l: "fst l = target r" "fst l > ow_frozen_output r" using assms(2) by (auto simp: target_def appends_def q)
  have "fst l < ?n" using output_okD(1) [OF ok] l(1) assms(3) by (auto simp: queue_ok_def q)
  then have "?n \<notin> fst ` set (ow_queue r)" using le by force
  then have "\<not> max (head_of i d) (ow_lost r) < ?n" using ok by (auto simp: output_ok_def)
  then have "?n \<le> head_of i d" using no by (auto simp: given_up_def)
  then have "head_of i d \<le> floor_of i d" using output_okD(4) [OF ok] l(2) \<open>fst l < ?n\<close> by (auto simp: max_def split: if_splits)
  then show False using \<open>?n \<le> head_of i d\<close> no by (auto simp: given_up_def)
qed

lemma given_up_put_chunk [simp]: "given_up i d (put_chunk c r) = given_up i d r"
  by (simp add: given_up_def)

lemma put_chunk_kept:
  assumes ok: "output_ok i d r"
  shows "kept i d (put_chunk c r) = kept i d r @ c \<or>
    (kept i d (put_chunk c r) = [] \<and> kept i d r = [] \<and> 0 < given_up i d r)"
proof (cases "appends r \<and> ow_next_output r \<le> given_up i d r")
  case True
  then have "ow_frozen_output r < ow_next_output r"
    using output_okD(1) [OF ok] by (force simp: appends_def queue_ok_def dest: last_in_set)
  then show ?thesis using True by (auto simp: kept_def put_chunk_next)
next
  case False
  let ?s = "target r" and ?r' = "put_chunk c r" and ?K = "given_up i d r"
  have s: "?s = ow_next_output ?r'" using False target_newest [OF ok] by (auto simp: target_def put_chunk_next)
  have Ks: "?K < ?s" using False s output_okD(7) [OF ok] by (auto simp: put_chunk_next target_def split: if_splits)
  have hs: "head_of i d < ?s"
  proof (rule ccontr)
    assume "\<not> head_of i d < ?s"
    then have h: "?s \<le> head_of i d" by simp
    then have a: "appends r" using output_okD(3) [OF ok] by (auto simp: target_def split: if_splits)
    then have "ow_frozen_output r < ?s" by (simp add: target_def appends_def)
    then have "?s \<le> floor_of i d" using h output_okD(4) [OF ok] by (auto simp: max_def split: if_splits)
    then show False using Ks by (simp add: given_up_def)
  qed
  have row: "row_at i ?s d = None" using no_row_above [OF ok hs] .
  have split: "[Suc ?K..<Suc ?s] = [Suc ?K..<?s] @ [?s]" using Ks by simp
  have before: "map (chunk_at i d ?r') [Suc ?K..<?s] = map (chunk_at i d r) [Suc ?K..<?s]"
    using put_chunk_map [OF output_okD(1) [OF ok]] by (auto simp: chunk_at_def split: option.splits)
  have k': "kept i d ?r' = concat (map (chunk_at i d r) [Suc ?K..<?s]) @ chunk_at i d ?r' ?s"
    unfolding kept_def s [symmetric] given_up_put_chunk split by (simp add: before)
  have at': "chunk_at i d ?r' ?s = (if appends r then the (map_of (ow_queue r) ?s) else []) @ c"
    using put_chunk_map [OF output_okD(1) [OF ok]] row by (simp add: chunk_at_def)
  show ?thesis
  proof (cases "appends r")
    case True
    then have "last (ow_queue r) \<in> set (ow_queue r)" by (simp add: appends_def)
    then have "map_of (ow_queue r) ?s \<noteq> None" using True unfolding map_of_eq_None_iff target_def by auto
    then have "chunk_at i d r ?s = the (map_of (ow_queue r) ?s)" using row by (auto simp: chunk_at_def)
    moreover have "ow_next_output r = ?s" using s True by (simp add: put_chunk_next)
    ultimately have "kept i d r = concat (map (chunk_at i d r) [Suc ?K..<?s]) @ the (map_of (ow_queue r) ?s)"
      unfolding kept_def by (simp only: split) simp
    then show ?thesis using True by (simp add: k' at')
  next
    case False
    then have "?s = Suc (ow_next_output r)" by (simp add: target_def)
    then have "kept i d r = concat (map (chunk_at i d r) [Suc ?K..<?s])" by (simp add: kept_def)
    then show ?thesis using False by (simp add: k' at')
  qed
qed

lemma put_chunk_output_ok:
  assumes "output_ok i d r" and "c \<noteq> []" and "length c \<le> room r"
  shows "output_ok i d (put_chunk c r)"
proof -
  have q: "queue_ok (put_chunk c r)" using put_chunk_ok assms by (simp add: output_ok_def)
  have "fst ` set (ow_queue (put_chunk c r)) = insert (target r) (fst ` set (ow_queue r))"
    using put_chunk_map [OF output_okD(1) [OF assms(1)], of c] by (simp only: dom_map_of_conv_image_fst [symmetric]) simp
  then show ?thesis using assms(1) q
    by (auto simp: output_ok_def put_chunk_next target_def le_Suc_eq)
qed

section \<open>A batch on its way to the database\<close>

definition last_chunk :: "saving \<Rightarrow> nat" where
  "last_chunk f = (if fl_chunks f = [] then 0 else fst (last (fl_chunks f)))"

definition saving_ok :: "uuid \<Rightarrow> db \<Rightarrow> saving \<Rightarrow> owned \<Rightarrow> bool" where
  "saving_ok i d f r \<longleftrightarrow> take (length (fl_chunks f)) (ow_queue r) = fl_chunks f \<and>
     (\<forall>c \<in> set (fl_chunks f). fst c \<le> ow_frozen_output r) \<and> fl_lost f \<le> ow_lost r \<and>
     (\<forall>s. max (head_of i d) (fl_lost f) < s \<and> s \<le> last_chunk f \<longrightarrow> s \<in> fst ` set (fl_chunks f))"

lemma put_chunk_saving:
  assumes "saving_ok i d f r"
  shows "saving_ok i d f (put_chunk c r)"
proof -
  let ?n = "length (fl_chunks f)"
  have "take ?n (ow_queue (put_chunk c r)) = take ?n (ow_queue r)"
  proof (cases "appends r")
    case True
    then have ne: "ow_queue r \<noteq> []" and gt: "fst (last (ow_queue r)) > ow_frozen_output r" by (simp_all add: appends_def)
    have "?n < length (ow_queue r)"
    proof (rule ccontr)
      assume "\<not> ?n < length (ow_queue r)"
      then have "fl_chunks f = ow_queue r" using assms by (auto simp: saving_ok_def)
      then have "fst (last (ow_queue r)) \<le> ow_frozen_output r" using assms last_in_set [OF ne] by (simp add: saving_ok_def)
      then show False using gt by simp
    qed
    then show ?thesis using True by (simp add: put_chunk_queue take_butlast)
  next
    case False
    have "?n \<le> length (ow_queue r)" using assms by (metis linorder_linear nat_less_le saving_ok_def take_all_iff)
    then show ?thesis using False by (simp add: put_chunk_queue)
  qed
  then show ?thesis using assms by (simp add: saving_ok_def)
qed

section \<open>Collecting\<close>

definition same_fields :: "owned \<Rightarrow> owned \<Rightarrow> bool" where
  "same_fields r r' \<longleftrightarrow> ow_id r' = ow_id r \<and> ow_generation r' = ow_generation r \<and>
     ow_repairs r' = ow_repairs r \<and> ow_frozen_output r' = ow_frozen_output r \<and> ow_exit_code r' = ow_exit_code r"

text \<open>\<open>grows\<close>: what is kept grows by \<open>bytes\<close>, except for a prefix that has been given up.\<close>

definition grows :: "uuid \<Rightarrow> db \<Rightarrow> owned \<Rightarrow> string \<Rightarrow> db \<Rightarrow> owned \<Rightarrow> bool" where
  "grows i d r bytes d' r' \<longleftrightarrow> (\<exists>p. kept i d r @ bytes = p @ kept i d' r' \<and> (given_up i d' r' = 0 \<longrightarrow> p = [])) \<and>
     given_up i d r \<le> given_up i d' r'"

lemma stream_refl: "grows i d r [] d r"
  by (simp add: grows_def)

lemma stream_trans:
  assumes "grows i d r xs d1 r1" and "grows i d1 r1 ys d2 r2"
  shows "grows i d r (xs @ ys) d2 r2"
proof -
  from assms(1) obtain p where p: "kept i d r @ xs = p @ kept i d1 r1" "given_up i d1 r1 = 0 \<longrightarrow> p = []"
    and le1: "given_up i d r \<le> given_up i d1 r1" by (auto simp: grows_def)
  from assms(2) obtain q where q: "kept i d1 r1 @ ys = q @ kept i d2 r2" "given_up i d2 r2 = 0 \<longrightarrow> q = []"
    and le2: "given_up i d1 r1 \<le> given_up i d2 r2" by (auto simp: grows_def)
  have "kept i d r @ xs @ ys = (p @ q) @ kept i d2 r2" using p(1) q(1) by (metis append.assoc)
  moreover have "given_up i d2 r2 = 0 \<longrightarrow> p @ q = []" using p(2) q(2) le1 le2 by simp
  moreover have "given_up i d r \<le> given_up i d2 r2" using le1 le2 by (rule order_trans)
  ultimately show ?thesis unfolding grows_def by (intro conjI exI [of _ "p @ q"]) simp_all
qed

lemma put_chunk_grows: "output_ok i d r \<Longrightarrow> grows i d r c d (put_chunk c r)"
  using put_chunk_kept [of i d r c] by (auto simp: grows_def)

lemma put_bytes_grows:
  assumes "output_ok i d r"
  shows "\<exists>r'. put_bytes bytes 0 r = Some r' \<and> output_ok i d r' \<and> grows i d r bytes d r' \<and> same_fields r r' \<and>
    ow_lost r' = ow_lost r \<and> (\<forall>f. saving_ok i d f r \<longrightarrow> saving_ok i d f r')"
proof -
  let ?P = "\<lambda>x (done :: string). output_ok i d x \<and> grows i d r done d x \<and> same_fields r x \<and> ow_lost x = ow_lost r \<and>
    (\<forall>f. saving_ok i d f r \<longrightarrow> saving_ok i d f x)"
  have "\<exists>r'. put_bytes bytes 0 r = Some r' \<and> ?P r' bytes"
  proof (rule put_bytes_induct)
    show "?P r (take 0 bytes)" using assms by (simp add: stream_refl same_fields_def)
    fix x :: owned and c "done" :: string assume P: "?P x done" and c: "c \<noteq> []" "length c \<le> room x"
    have "output_ok i d (put_chunk c x)" using put_chunk_output_ok P c by blast
    moreover have "grows i d r (done @ c) d (put_chunk c x)" using P stream_trans put_chunk_grows by blast
    moreover have "same_fields r (put_chunk c x)" using P by (simp add: same_fields_def)
    moreover have "\<forall>f. saving_ok i d f r \<longrightarrow> saving_ok i d f (put_chunk c x)" using P put_chunk_saving by blast
    ultimately show "?P (put_chunk c x) (done @ c)" using P by simp
  qed
  then show ?thesis by blast
qed

lemma lose_output_fields [simp]:
  "ow_queue (lose_output r) = ow_queue r" "ow_next_output (lose_output r) = ow_next_output r + 1"
  "ow_lost (lose_output r) = ow_next_output r + 1" "ow_frozen_output (lose_output r) = ow_frozen_output r"
  "ow_id (lose_output r) = ow_id r" "ow_generation (lose_output r) = ow_generation r"
  "ow_queued_bytes (lose_output r) = ow_queued_bytes r" "ow_repairs (lose_output r) = ow_repairs r"
  "ow_exit_code (lose_output r) = ow_exit_code r"
  by (simp_all add: lose_output_def fail_def)

lemma lose_output_grows:
  assumes "output_ok i d r"
  shows "output_ok i d (lose_output r) \<and> grows i d r bytes d (lose_output r) \<and>
    (\<forall>f. saving_ok i d f r \<longrightarrow> saving_ok i d f (lose_output r))"
proof -
  have "given_up i d (lose_output r) = ow_next_output r + 1"
    using output_okD(3,5) [OF assms] by (simp add: given_up_def)
  then have "grows i d r bytes d (lose_output r)" using output_okD(7) [OF assms] by (simp add: grows_def kept_def)
  moreover have "output_ok i d (lose_output r)" using assms by (auto simp: output_ok_def queue_ok_def)
  moreover have "saving_ok i d f (lose_output r)" if "saving_ok i d f r" for f
    using that output_okD(6) [OF assms] by (auto simp: saving_ok_def)
  ultimately show ?thesis by blast
qed

text \<open>Fields of the handle that no statement about its output reads.\<close>

lemma output_ok_cong:
  assumes "ow_queue r' = ow_queue r" "ow_next_output r' = ow_next_output r" "ow_lost r' = ow_lost r"
    "ow_frozen_output r' = ow_frozen_output r" "ow_id r' = ow_id r" "ow_queued_bytes r' = ow_queued_bytes r"
  shows "output_ok i d r' = output_ok i d r" "kept i d r' = kept i d r" "given_up i d r' = given_up i d r"
    "saving_ok i d f r' = saving_ok i d f r"
proof -
  have "chunk_at i d r' = chunk_at i d r" using assms by (intro ext) (simp add: chunk_at_def split: option.split)
  then show "output_ok i d r' = output_ok i d r" "kept i d r' = kept i d r" "given_up i d r' = given_up i d r"
    "saving_ok i d f r' = saving_ok i d f r"
    using assms by (simp_all add: output_ok_def queue_ok_def kept_def given_up_def saving_ok_def)
qed

definition heard :: "owned \<Rightarrow> string \<Rightarrow> exec_event \<Rightarrow> string" where
  "heard r method p = (if method = ''command/exec/outputDelta''
     then (case event_data r p of None \<Rightarrow> [] | Some bytes \<Rightarrow> bytes) else [])"

lemma rate_tick_fields [simp]:
  "ow_queue (rate_tick e n r) = ow_queue r" "ow_next_output (rate_tick e n r) = ow_next_output r"
  "ow_lost (rate_tick e n r) = ow_lost r" "ow_frozen_output (rate_tick e n r) = ow_frozen_output r"
  "ow_id (rate_tick e n r) = ow_id r" "ow_generation (rate_tick e n r) = ow_generation r"
  "ow_queued_bytes (rate_tick e n r) = ow_queued_bytes r" "ow_repairs (rate_tick e n r) = ow_repairs r"
  "ow_exit_code (rate_tick e n r) = ow_exit_code r"
  by (simp_all add: rate_tick_def Let_def)

lemma fail_fields [simp]:
  "ow_queue (fail c r) = ow_queue r" "ow_next_output (fail c r) = ow_next_output r"
  "ow_lost (fail c r) = ow_lost r" "ow_frozen_output (fail c r) = ow_frozen_output r"
  "ow_id (fail c r) = ow_id r" "ow_generation (fail c r) = ow_generation r"
  "ow_queued_bytes (fail c r) = ow_queued_bytes r" "ow_repairs (fail c r) = ow_repairs r"
  "ow_exit_code (fail c r) = ow_exit_code r"
  by (simp_all add: fail_def)

lemma capture_grows:
  assumes ok: "output_ok i d r"
  shows "\<exists>r'. capture e method p r = Some r' \<and> output_ok i d r' \<and> grows i d r (heard r method p) d r' \<and>
    same_fields r r' \<and> (\<forall>f. saving_ok i d f r \<longrightarrow> saving_ok i d f r')"
proof (cases "method = ''command/exec/outputDelta''")
  case False
  then show ?thesis using ok by (simp add: capture_def heard_def stream_refl same_fields_def)
next
  case delta: True
  show ?thesis
  proof (cases "event_data r p")
    case None
    have c: "output_ok i d (fail c r) = output_ok i d r" "kept i d (fail c r) = kept i d r"
      "given_up i d (fail c r) = given_up i d r" "saving_ok i d f (fail c r) = saving_ok i d f r" for c f
      by (rule output_ok_cong; simp)+
    have "capture e method p r = Some (fail ''OUTPUT_PROTOCOL'' r)" using None delta by (simp add: capture_def)
    then show ?thesis using ok None delta by (simp add: c heard_def grows_def same_fields_def)
  next
    case (Some bytes)
    let ?r1 = "rate_tick e (length bytes) r"
    have c: "output_ok i d ?r1 = output_ok i d r" "kept i d ?r1 = kept i d r"
      "given_up i d ?r1 = given_up i d r" "saving_ok i d f ?r1 = saving_ok i d f r" for f
      by (rule output_ok_cong; simp)+
    have ok1: "output_ok i d ?r1" using ok c by simp
    have g1: "grows i d r [] d ?r1" by (simp add: grows_def c)
    have h: "heard r method p = bytes" using delta Some by (simp add: heard_def)
    show ?thesis
    proof (cases "xe_cap_reached p = Some True \<or> ow_rate_bytes ?r1 > 1048576 \<or> ow_queued_bytes ?r1 + length bytes > 1048576")
      case True
      have "capture e method p r = Some (lose_output ?r1)" unfolding capture_def Let_def using delta Some True by simp
      moreover have "grows i d r bytes d (lose_output ?r1)"
        using stream_trans [OF g1] lose_output_grows [OF ok1] by force
      ultimately show ?thesis using lose_output_grows [OF ok1] c(4) h by (simp add: same_fields_def)
    next
      case False
      from put_bytes_grows [OF ok1, of bytes] obtain r2 where r2: "put_bytes bytes 0 ?r1 = Some r2" "output_ok i d r2"
        "grows i d ?r1 bytes d r2" "same_fields ?r1 r2" "\<forall>f. saving_ok i d f ?r1 \<longrightarrow> saving_ok i d f r2" by blast
      have cap: "capture e method p r = Some (if length (ow_queue r2) > 256 then lose_output r2 else r2)"
        unfolding capture_def Let_def using delta Some False r2(1) by simp
      have g2: "grows i d r bytes d r2" using stream_trans [OF g1 r2(3)] by simp
      have g3: "grows i d r bytes d (lose_output r2)"
        using stream_trans [OF g2] lose_output_grows [OF r2(2), of "[]"] by force
      show ?thesis using cap r2(2,4,5) g2 g3 lose_output_grows [OF r2(2)] c(4) h by (simp add: same_fields_def)
    qed
  qed
qed

section \<open>Saving and pruning\<close>

lemma grows_raise:
  assumes "given_up i d r \<le> given_up i d' r'" and "ow_next_output r' = ow_next_output r"
    and "\<And>s. given_up i d' r' < s \<Longrightarrow> s \<le> ow_next_output r \<Longrightarrow> chunk_at i d' r' s = chunk_at i d r s"
  shows "grows i d r [] d' r'"
proof -
  let ?F = "given_up i d r" and ?F' = "given_up i d' r'" and ?n = "ow_next_output r"
  have eq: "kept i d' r' = concat (map (chunk_at i d r) [Suc ?F'..<Suc ?n])"
    using assms(2,3) by (auto simp: kept_def intro!: arg_cong [where f = concat])
  show ?thesis
  proof (cases "?F' \<le> ?n")
    case True
    then have "[Suc ?F..<Suc ?n] = [Suc ?F..<Suc ?F'] @ [Suc ?F'..<Suc ?n]"
      using assms(1) upt_add_eq_append [of "Suc ?F" "Suc ?F'" "?n - ?F'"] by simp
    then have "kept i d r = concat (map (chunk_at i d r) [Suc ?F..<Suc ?F']) @ kept i d' r'"
      unfolding kept_def [of i d r] eq by (simp only: map_append concat_append)
    then show ?thesis using assms(1) unfolding grows_def by (intro conjI exI) auto
  next
    case False
    then show ?thesis using assms(1) eq by (auto simp: grows_def)
  qed
qed

definition same_output :: "uuid \<Rightarrow> db \<Rightarrow> db \<Rightarrow> bool" where
  "same_output i d d' \<longleftrightarrow> (\<forall>s. row_at i s d' = row_at i s d) \<and> head_of i d' = head_of i d \<and>
     floor_of i d' = floor_of i d \<and> (terminal_find i d' = None \<longleftrightarrow> terminal_find i d = None) \<and>
     (distinct (map (\<lambda>x. (to_terminal x, to_sequence x)) (terminal_output d)) \<longrightarrow>
      distinct (map (\<lambda>x. (to_terminal x, to_sequence x)) (terminal_output d')))"

lemma same_output_refl [simp]: "same_output i d d"
  by (simp add: same_output_def)

lemma same_output_trans: "same_output i d d1 \<Longrightarrow> same_output i d1 d2 \<Longrightarrow> same_output i d d2"
  by (simp add: same_output_def)

lemma same_outputD:
  assumes "same_output i d d'"
  shows "output_ok i d r \<Longrightarrow> output_ok i d' r" "window_ok i d \<Longrightarrow> window_ok i d'" "kept i d' r = kept i d r"
    "given_up i d' r = given_up i d r" "saving_ok i d f r \<Longrightarrow> saving_ok i d' f r"
    "grows i d r [] d' r"
proof -
  have c: "chunk_at i d' r = chunk_at i d r" using assms by (auto simp: chunk_at_def same_output_def)
  show g: "given_up i d' r = given_up i d r" using assms by (simp add: given_up_def same_output_def)
  show k: "kept i d' r = kept i d r" by (simp add: kept_def c g)
  show "window_ok i d \<Longrightarrow> window_ok i d'" "output_ok i d r \<Longrightarrow> output_ok i d' r"
    using assms by (simp_all add: output_ok_def window_ok_def same_output_def)
  show "saving_ok i d f r \<Longrightarrow> saving_ok i d' f r" using assms by (simp add: saving_ok_def same_output_def)
  show "grows i d r [] d' r" by (simp add: grows_def k g)
qed

text \<open>Statements that change neither the output nor its two counters.\<close>

lemma same_output_update:
  assumes "\<And>t. te_id (f t) = te_id t" and "\<And>t. te_output_sequence (f t) = te_output_sequence t"
    and "\<And>t. te_output_floor (f t) = te_output_floor t"
  shows "same_output i d (d\<lparr>terminals := update_where P f (terminals d)\<rparr>)"
proof -
  have "find (\<lambda>t. te_id t = i) (update_where P f (terminals d)) =
      map_option (\<lambda>t. if P t then f t else t) (find (\<lambda>t. te_id t = i) (terminals d))"
    using assms(1) by (intro find_update_where_key)
  then show ?thesis using assms(2,3)
    by (auto simp: same_output_def row_at_def head_of_def floor_of_def terminal_find_def split: option.split)
qed

lemma same_output_fields:
  "terminals d' = terminals d \<Longrightarrow> terminal_output d' = terminal_output d \<Longrightarrow> same_output i d d'"
  by (simp add: same_output_def row_at_def head_of_def floor_of_def terminal_find_def)

lemma same_output_update_terminal:
  assumes "\<And>t. te_id (f t) = te_id t" and "\<And>t. te_output_sequence (f t) = te_output_sequence t"
    and "\<And>t. te_output_floor (f t) = te_output_floor t"
  shows "same_output i d (update_terminal j f d)"
  unfolding update_terminal_def by (rule same_output_update) (use assms in auto)

lemma same_output_settle: "same_output i d (settle_input j p d)"
proof -
  let ?d1 = "d\<lparr>terminal_input := update_where
    (\<lambda>r. ti_terminal r = j \<and> ti_epoch r = rp_epoch p \<and> ti_sequence r = rp_sequence p \<and> input_open r)
    (\<lambda>r. r\<lparr>ti_state := repaired (rp_state p), ti_bytes := None, ti_failure_code := rp_failure p\<rparr>) (terminal_input d)\<rparr>"
  have "same_output i d ?d1" by (rule same_output_fields) simp_all
  moreover have "same_output i ?d1 (update_terminal j (\<lambda>t. t\<lparr>te_input_uncertain := True, te_controller_until := None\<rparr>) ?d1)"
    by (rule same_output_update_terminal) simp_all
  ultimately show ?thesis unfolding settle_input_def Let_def
    by (cases "rp_state p = RpUncertain") (auto intro: same_output_trans)
qed

lemma same_output_repairs: "same_output i d (fold (settle_input j) ps d)"
  by (induction ps arbitrary: d) (auto intro: same_output_trans same_output_settle)

lemma same_output_exit: "same_output i d (save_exit j x d)"
  by (cases x) (auto simp: save_exit_def intro!: same_output_update)

lemma same_output_prune_input: "same_output i d (pruneInput j d)"
  by (rule same_output_fields) (simp_all add: pruneInput_def)

section \<open>Pruning\<close>

lemma stale_output_sub: "set (stale_output t n k rs) \<subseteq> set rs"
  by (induction rs arbitrary: n k) (auto simp: Let_def)

lemma row_at_delete:
  "row_at i s (d\<lparr>terminal_output := delete_where (\<lambda>r. to_terminal r = i \<and> Q (to_sequence r)) (terminal_output d)\<rparr>) =
     (if Q s then None else row_at i s d)"
proof -
  have d: "find (\<lambda>x. to_terminal x = i \<and> to_sequence x = s) (delete_where (\<lambda>r. to_terminal r = i \<and> Q (to_sequence r)) rs) =
    (if Q s then None else find (\<lambda>x. to_terminal x = i \<and> to_sequence x = s) rs)" for rs
    by (induction rs) auto
  show ?thesis by (simp add: row_at_def d)
qed

lemma prune_sequences:
  assumes "window_ok i d" and "s \<in> to_sequence ` set (stale_output t 0 0 (output_of i d))"
  shows "s \<le> head_of i d"
proof -
  obtain x where x: "x \<in> set (output_of i d)" "to_sequence x = s" using assms(2) stale_output_sub by fastforce
  then have "row_at i s d \<noteq> None" by (auto simp: output_of_def row_at_def find_is_None)
  then show ?thesis using assms(1) by (auto simp: window_ok_def)
qed

lemma update_terminal_find:
  assumes "\<And>t. te_id (f t) = te_id t"
  shows "terminal_find j (update_terminal i f d) =
    map_option (\<lambda>t. if te_id t = i then f t else t) (terminal_find j d)"
  using assms by (simp add: terminal_find_def update_terminal_def find_update_where_key)

lemma terminal_find_id: "terminal_find i d = Some t \<Longrightarrow> te_id t = i"
  by (auto simp: terminal_find_def dest: find_Some_in)

lemma pruneOutput_effect:
  fixes e :: env
  assumes w: "window_ok i d" and t: "terminal_find i d = Some t"
  defines "stale \<equiv> to_sequence ` set (stale_output (now e) 0 0 (output_of i d))"
  shows "row_at i s (pruneOutput e i d) = (if s \<in> stale then None else row_at i s d)"
    "head_of i (pruneOutput e i d) = head_of i d"
    "floor_of i (pruneOutput e i d) = (if stale = {} then floor_of i d else max (floor_of i d) (Max stale))"
    "distinct (map (\<lambda>x. (to_terminal x, to_sequence x)) (terminal_output (pruneOutput e i d)))"
proof -
  let ?l = "map to_sequence (stale_output (now e) 0 0 (output_of i d))"
  let ?d1 = "d\<lparr>terminal_output := delete_where (\<lambda>r. to_terminal r = i \<and> to_sequence r \<in> stale) (terminal_output d)\<rparr>"
  have st: "stale = set ?l" by (simp add: stale_def)
  have p: "pruneOutput e i d = (if stale = {} then ?d1
      else update_terminal i (\<lambda>t. t\<lparr>te_output_floor := max (te_output_floor t) (Max stale)\<rparr>) ?d1)"
    by (simp add: pruneOutput_def Let_def st)
  have r1: "row_at i s ?d1 = (if s \<in> stale then None else row_at i s d)" by (rule row_at_delete)
  have r2: "row_at i s (update_terminal i f ?d1) = row_at i s ?d1" for f by (simp add: row_at_def update_terminal_def)
  show "row_at i s (pruneOutput e i d) = (if s \<in> stale then None else row_at i s d)"
    unfolding p by (simp only: if_distrib [of "row_at i s"] r1 r2 if_cancel)
  have f1: "terminal_find i (d\<lparr>terminal_output := x\<rparr>) = Some t" for x using t by (simp add: terminal_find_def)
  note tid = terminal_find_id [OF t]
  show "head_of i (pruneOutput e i d) = head_of i d"
    by (simp add: p head_of_def update_terminal_find f1 t)
  show "floor_of i (pruneOutput e i d) = (if stale = {} then floor_of i d else max (floor_of i d) (Max stale))"
    by (simp add: p floor_of_def update_terminal_find f1 t tid)
  have "distinct (map (\<lambda>x. (to_terminal x, to_sequence x)) (delete_where Q (terminal_output d)))" for Q
    using w by (simp add: window_ok_def distinct_delete_where)
  then show "distinct (map (\<lambda>x. (to_terminal x, to_sequence x)) (terminal_output (pruneOutput e i d)))"
    by (simp add: p update_terminal_def)
qed

lemma prune_window:
  assumes w: "window_ok i d" and t: "terminal_find i d = Some t"
  shows "window_ok i (pruneOutput e i d)" "floor_of i d \<le> floor_of i (pruneOutput e i d)"
    "floor_of i (pruneOutput e i d) < s \<Longrightarrow> row_at i s (pruneOutput e i d) = row_at i s d"
    "head_of i (pruneOutput e i d) = head_of i d"
proof -
  let ?st = "to_sequence ` set (stale_output (now e) 0 0 (output_of i d))"
  note eff = pruneOutput_effect [where e = e, OF w t]
  have le: "x \<in> ?st \<Longrightarrow> x \<le> head_of i d" for x using prune_sequences [OF w] by blast
  have mx: "x \<in> ?st \<Longrightarrow> x \<le> floor_of i (pruneOutput e i d)" for x
    using Max_ge [of ?st x] by (auto simp: eff(3) le_max_iff_disj)
  show fl: "floor_of i d \<le> floor_of i (pruneOutput e i d)" by (simp add: eff(3))
  show hd: "head_of i (pruneOutput e i d) = head_of i d" by (rule eff(2))
  have fh: "floor_of i (pruneOutput e i d) \<le> head_of i d"
    using w le Max_in [of ?st] by (auto simp: eff(3) window_ok_def)
  show same: "row_at i s (pruneOutput e i d) = row_at i s d" if "floor_of i (pruneOutput e i d) < s" for s
    using mx [of s] that by (auto simp: eff(1))
  have kept: "row_at i s (pruneOutput e i d) \<noteq> None"
    if "floor_of i (pruneOutput e i d) < s" "s \<le> head_of i d" for s
    using w that same [OF that(1)] order_le_less_trans [OF fl that(1)] by (auto simp: window_ok_def)
  show "window_ok i (pruneOutput e i d)" unfolding window_ok_def
  proof (intro conjI allI ballI impI)
    show "floor_of i (pruneOutput e i d) \<le> head_of i (pruneOutput e i d)" using fh hd by simp
    show "s \<le> head_of i (pruneOutput e i d)" if "row_at i s (pruneOutput e i d) \<noteq> None" for s
      using that w hd by (auto simp: eff(1) window_ok_def split: if_splits)
    show "row_at i s (pruneOutput e i d) \<noteq> None"
      if "s \<in> {floor_of i (pruneOutput e i d)<..head_of i (pruneOutput e i d)}" for s
      using that kept hd by simp
    show "distinct (map (\<lambda>x. (to_terminal x, to_sequence x)) (terminal_output (pruneOutput e i d)))" by (rule eff(4))
  qed
qed

text \<open>\<open>advances\<close>: from one database to the next nothing that is kept is lost except by the floor.\<close>

definition advances :: "uuid \<Rightarrow> db \<Rightarrow> db \<Rightarrow> bool" where
  "advances i d d' \<longleftrightarrow> (window_ok i d \<longrightarrow> window_ok i d' \<and> head_of i d' = head_of i d \<and>
     floor_of i d \<le> floor_of i d' \<and> (\<forall>s > floor_of i d'. row_at i s d' = row_at i s d))"

lemma same_output_advances: "same_output i d d' \<Longrightarrow> advances i d d'"
  using same_outputD(2) [of i d d'] by (simp add: advances_def same_output_def)

lemma prune_advances: "terminal_find i d = Some t \<Longrightarrow> advances i d (pruneOutput e i d)"
  using prune_window [of i d t e] by (simp add: advances_def)

lemma prune_find: "terminal_find i (pruneOutput e i d) = None \<longleftrightarrow> terminal_find i d = None"
proof -
  have "terminal_find i (update_terminal i (\<lambda>t. t\<lparr>te_output_floor := x t\<rparr>) d1) = None \<longleftrightarrow> terminal_find i d1 = None" for x d1
    by (simp add: update_terminal_find)
  moreover have "terminal_find i (d\<lparr>terminal_output := x\<rparr>) = terminal_find i d" for x by (simp add: terminal_find_def)
  ultimately show ?thesis by (simp add: pruneOutput_def Let_def)
qed

definition saved_ok :: "uuid \<Rightarrow> db \<Rightarrow> saving \<Rightarrow> bool" where
  "saved_ok i d f \<longleftrightarrow> (\<forall>c \<in> set (fl_chunks f). fst c \<le> head_of i d) \<and> fl_lost f \<le> floor_of i d"

lemma advancesD:
  assumes a: "advances i d d'" and ok: "output_ok i d r"
  shows "output_ok i d' r" "grows i d r [] d' r" "saving_ok i d f r \<Longrightarrow> saving_ok i d' f r"
    "saved_ok i d f \<Longrightarrow> saved_ok i d' f"
proof -
  have d: "window_ok i d'" "head_of i d' = head_of i d" "floor_of i d \<le> floor_of i d'"
    "\<And>s. floor_of i d' < s \<Longrightarrow> row_at i s d' = row_at i s d"
    using a output_okD(2) [OF ok] by (auto simp: advances_def)
  show "output_ok i d' r" using ok d(1-3) by (auto simp: output_ok_def)
  show "grows i d r [] d' r"
  proof (rule grows_raise)
    show "given_up i d r \<le> given_up i d' r" using d(3) by (auto simp: given_up_def)
    show "chunk_at i d' r s = chunk_at i d r s" if "given_up i d' r < s" for s
      using d(4) [of s] that by (simp add: chunk_at_def given_up_def)
  qed simp
  show "saving_ok i d f r \<Longrightarrow> saving_ok i d' f r" using d(2) by (simp add: saving_ok_def)
  show "saved_ok i d f \<Longrightarrow> saved_ok i d' f" using d(2,3) by (auto simp: saved_ok_def)
qed

section \<open>Committing a batch\<close>

lemma insert_outputs_other:
  "insert_outputs e i high cs d = Inr d' \<Longrightarrow> terminals d' = terminals d \<and> workspaces d' = workspaces d"
  by (induction cs arbitrary: d) (auto simp: res_simps insert_output_def split: if_splits)

lemma insert_outputs_row:
  assumes "insert_outputs e i high cs d = Inr d'" and "distinct (map fst cs)"
  shows "map_option to_bytes (row_at i s d') = (case row_at i s d of Some x \<Rightarrow> Some (to_bytes x)
      | None \<Rightarrow> if high < s then map_of cs s else None) \<and>
    (distinct (map (\<lambda>x. (to_terminal x, to_sequence x)) (terminal_output d)) \<longrightarrow>
     distinct (map (\<lambda>x. (to_terminal x, to_sequence x)) (terminal_output d')))"
  using assms
proof (induction cs arbitrary: d)
  case Nil then show ?case by (auto split: option.split)
next
  case (Cons c cs)
  obtain n b where c: "c = (n, b)" by (cases c)
  from Cons.prems(1) obtain d1 where d1: "(if n > high then insert_output e i (n, b) d else Inr d) = Inr d1"
    and rest: "insert_outputs e i high cs d1 = Inr d'" by (auto simp: res_simps c)
  have key: "(\<exists>x \<in> set (terminal_output d). to_terminal x = i \<and> to_sequence x = n) \<longleftrightarrow> row_at i n d \<noteq> None"
    by (simp add: row_at_def find_is_None)
  have row: "map_option to_bytes (row_at i s d1) =
      (if s = n \<and> high < n \<and> row_at i n d = None then Some b else map_option to_bytes (row_at i s d))" for s
    using d1 by (auto simp: c insert_output_def key row_at_def split: if_splits option.split)
  have dist: "distinct (map (\<lambda>x. (to_terminal x, to_sequence x)) (terminal_output d)) \<longrightarrow>
     distinct (map (\<lambda>x. (to_terminal x, to_sequence x)) (terminal_output d1))"
    using d1 by (auto simp: c insert_output_def split: if_splits)
  have "n \<notin> fst ` set cs" using Cons.prems(2) by (simp add: c)
  then have "map_of cs n = None" by (simp add: map_of_eq_None_iff)
  then show ?case using Cons.IH [OF rest] Cons.prems(2) row [of s] dist
    by (auto simp: c split: option.splits if_splits)
qed

lemma insert_outputs_succeeds:
  assumes "\<And>c. c \<in> set cs \<Longrightarrow> 1 \<le> length (snd c) \<and> length (snd c) \<le> 16384"
  shows "\<exists>d'. insert_outputs e i high cs d = Inr d'"
  using assms
proof (induction cs arbitrary: d)
  case (Cons c cs)
  have "\<exists>d1. (if fst c > high then insert_output e i c d else Inr d) = Inr d1"
    using Cons.prems [of c] by (auto simp: insert_output_def)
  then show ?case using Cons by fastforce
qed simp

lemma lockTerminalResource_Inr:
  "lockTerminalResource d i = Inr (t, name) \<Longrightarrow> terminal_find i d = Some t"
  by (auto simp: lockTerminalResource_def terminalRow_def res_simps split: option.splits)

text \<open>The state after the inserts and the update of the counters.\<close>

lemma save_output_effect:
  assumes "terminal_find i d = Some t"
  shows "row_at i s (save_output i f high d) = (if fl_lost f \<noteq> 0 \<and> s \<le> fl_lost f then None else row_at i s d)"
    "head_of i (save_output i f high d) = high"
    "floor_of i (save_output i f high d) = max (floor_of i d) (fl_lost f)"
    "distinct (map (\<lambda>x. (to_terminal x, to_sequence x)) (terminal_output d)) \<Longrightarrow>
     distinct (map (\<lambda>x. (to_terminal x, to_sequence x)) (terminal_output (save_output i f high d)))"
proof -
  let ?d1 = "update_terminal i (\<lambda>t. t\<lparr> te_output_sequence := high,
    te_output_floor := max (te_output_floor t) (fl_lost f), te_output_lost := te_output_lost t \<or> fl_lost f \<noteq> 0 \<rparr>) d"
  note tid = terminal_find_id [OF assms]
  have f: "terminal_find i ?d1 = Some (t\<lparr> te_output_sequence := high,
    te_output_floor := max (te_output_floor t) (fl_lost f), te_output_lost := te_output_lost t \<or> fl_lost f \<noteq> 0 \<rparr>)"
    using assms tid by (simp add: update_terminal_find)
  have g: "terminal_find i (save_output i f high d) = terminal_find i ?d1"
    by (simp add: save_output_def Let_def terminal_find_def)
  show "head_of i (save_output i f high d) = high" unfolding head_of_def g f by simp
  show "floor_of i (save_output i f high d) = max (floor_of i d) (fl_lost f)" unfolding floor_of_def g f assms by simp
  have r: "row_at i s ?d1 = row_at i s d" by (simp add: row_at_def update_terminal_def)
  show "row_at i s (save_output i f high d) = (if fl_lost f \<noteq> 0 \<and> s \<le> fl_lost f then None else row_at i s d)"
    unfolding save_output_def Let_def
    by (simp only: if_distrib [of "row_at i s"] row_at_delete [of i s "\<lambda>n. n \<le> fl_lost f"] r) simp
  show "distinct (map (\<lambda>x. (to_terminal x, to_sequence x)) (terminal_output d)) \<Longrightarrow>
     distinct (map (\<lambda>x. (to_terminal x, to_sequence x)) (terminal_output (save_output i f high d)))"
    by (simp add: save_output_def Let_def update_terminal_def distinct_delete_where)
qed

lemma flush_commit_ok:
  assumes c: "flush_commit e i gen f d = Inr d'" and ok: "output_ok i d r" and sv: "saving_ok i d f r"
  shows "output_ok i d' r" "grows i d r [] d' r" "saving_ok i d' f r" "saved_ok i d' f"
    "terminal_find i d' \<noteq> None"
proof -
  from c obtain t name d1 where lock: "lockTerminalResource d i = Inr (t, name)"
    and ins: "insert_outputs e i (te_output_sequence t) (fl_chunks f) d = Inr d1"
    and d': "d' = pruneOutput e i (pruneInput i (save_exit i (fl_exit_code f) (fold (settle_input i) (fl_repairs f)
        (save_output i f (max (max (te_output_sequence t) (fl_lost f)) (last_chunk f)) d1))))"
    unfolding flush_commit_def Let_def last_chunk_def by (auto simp: res_simps)
  note t = lockTerminalResource_Inr [OF lock]
  have t1: "terminal_find i d1 = Some t" using t insert_outputs_other [OF ins] by (simp add: terminal_find_def)
  let ?H = "te_output_sequence t" and ?hi = "max (max (te_output_sequence t) (fl_lost f)) (last_chunk f)"
  let ?d2 = "save_output i f ?hi d1"
  note q = output_okD(1) [OF ok]
  have H: "head_of i d = ?H" using t by (simp add: head_of_def)
  have fl1: "floor_of i d1 = floor_of i d" using t t1 by (simp add: floor_of_def)
  have pre: "fl_chunks f = take (length (fl_chunks f)) (ow_queue r)" using sv by (simp add: saving_ok_def)
  have sub: "set (fl_chunks f) \<subseteq> set (ow_queue r)" using set_take_subset pre by metis
  have sorted: "sorted_wrt (<) (map fst (fl_chunks f))"
    using q by (subst pre) (simp add: queue_ok_def take_map [symmetric] sorted_wrt_take)
  have last: "c \<in> set (fl_chunks f) \<Longrightarrow> fst c \<le> last_chunk f" for c
  proof -
    assume c: "c \<in> set (fl_chunks f)"
    then obtain cs l where l: "fl_chunks f = cs @ [l]" by (metis append_butlast_last_id empty_iff empty_set)
    then show "fst c \<le> last_chunk f" using c sorted by (auto simp: last_chunk_def sorted_wrt_append)
  qed
  have lastf: "last_chunk f \<le> ow_frozen_output r"
    using sv last_in_set [of "fl_chunks f"] by (auto simp: last_chunk_def saving_ok_def)
  also have "\<dots> \<le> ow_next_output r" using q by (simp add: queue_ok_def)
  finally have lastq: "last_chunk f \<le> ow_next_output r" .
  have lost: "fl_lost f \<le> ow_lost r" using sv by (simp add: saving_ok_def)
  have dist: "distinct (map fst (fl_chunks f))" using sorted by (simp add: strict_sorted_iff)
  note row1 = insert_outputs_row [OF ins dist]
  note eff = save_output_effect [OF t1, where f = f and high = ?hi]
  have mapq: "s \<in> fst ` set (fl_chunks f) \<Longrightarrow> map_of (fl_chunks f) s = map_of (ow_queue r) s" for s
  proof -
    assume "s \<in> fst ` set (fl_chunks f)"
    then obtain b where b: "(s, b) \<in> set (fl_chunks f)" by auto
    then have "map_of (fl_chunks f) s = Some b" using dist by simp
    moreover have "map_of (ow_queue r) s = Some b" using b sub queue_distinct [OF q] by auto
    ultimately show ?thesis by simp
  qed
  have fl2: "floor_of i ?d2 = max (floor_of i d) (fl_lost f)" using eff(3) fl1 by simp
  have hd2: "head_of i ?d2 = ?hi" by (rule eff(2))
  have row2: "row_at i s ?d2 = (if fl_lost f \<noteq> 0 \<and> s \<le> fl_lost f then None else row_at i s d1)" for s by (rule eff(1))
  have old: "row_at i s d \<noteq> None \<Longrightarrow> s \<le> ?H" for s using output_okD(2) [OF ok] H by (auto simp: window_ok_def)
  have new: "row_at i s d1 \<noteq> None \<longleftrightarrow> row_at i s d \<noteq> None \<or> (?H < s \<and> s \<in> fst ` set (fl_chunks f))" for s
  proof -
    have "row_at i s d1 \<noteq> None \<longleftrightarrow> map_option to_bytes (row_at i s d1) \<noteq> None" by simp
    also have "\<dots> \<longleftrightarrow> row_at i s d \<noteq> None \<or> (?H < s \<and> map_of (fl_chunks f) s \<noteq> None)"
      using conjunct1 [OF row1 [of s]] by (cases "row_at i s d") auto
    also have "map_of (fl_chunks f) s \<noteq> None \<longleftrightarrow> s \<in> fst ` set (fl_chunks f)" by (simp add: map_of_eq_None_iff)
    finally show ?thesis .
  qed
  have w2: "window_ok i ?d2" unfolding window_ok_def hd2 fl2
  proof (intro conjI allI ballI impI)
    show "max (floor_of i d) (fl_lost f) \<le> ?hi" using output_okD(5) [OF ok] H by auto
    show "s \<le> ?hi" if "row_at i s ?d2 \<noteq> None" for s
      using that new [of s] old [of s] last by (auto simp: row2 le_max_iff_disj split: if_splits)
    show "row_at i s ?d2 \<noteq> None" if "s \<in> {max (floor_of i d) (fl_lost f)<..?hi}" for s
    proof -
      have "row_at i s d1 \<noteq> None"
      proof (cases "s \<le> ?H")
        case True then show ?thesis using that output_okD(2) [OF ok] H new [of s] by (auto simp: window_ok_def)
      next
        case False
        then have "max (head_of i d) (fl_lost f) < s \<and> s \<le> last_chunk f" using that H by auto
        then have "s \<in> fst ` set (fl_chunks f)" using sv by (auto simp: saving_ok_def)
        then show ?thesis using False new [of s] by auto
      qed
      then show ?thesis using that by (simp add: row2)
    qed
    show "distinct (map (\<lambda>x. (to_terminal x, to_sequence x)) (terminal_output ?d2))"
      using eff(4) row1 output_okD(2) [OF ok] by (simp add: window_ok_def)
  qed
  have ok2: "output_ok i ?d2 r" unfolding output_ok_def hd2 fl2
  proof (intro conjI allI impI)
    show "?hi \<le> ow_next_output r" using output_okD(3,6) [OF ok] H lastq lost by auto
    show "?hi \<le> max (ow_frozen_output r) (max (floor_of i d) (fl_lost f))"
      using output_okD(4) [OF ok] H lastf by auto
    show "s \<in> fst ` set (ow_queue r)" if "max ?hi (ow_lost r) < s \<and> s \<le> ow_next_output r" for s
      using that ok H by (auto simp: output_ok_def)
  qed (use ok w2 in \<open>simp_all add: output_ok_def\<close>)
  have g2: "grows i d r [] ?d2 r"
  proof (rule grows_raise)
    show "given_up i d r \<le> given_up i ?d2 r" by (simp add: given_up_def fl2)
    fix s assume s: "given_up i ?d2 r < s" "s \<le> ow_next_output r"
    have r2: "row_at i s ?d2 = row_at i s d1" using s by (simp add: row2 given_up_def fl2)
    show "chunk_at i ?d2 r s = chunk_at i d r s"
    proof (cases "row_at i s d")
      case (Some x)
      then show ?thesis using row1 [of s] by (auto simp: chunk_at_def r2 split: option.splits)
    next
      case None
      show ?thesis
      proof (cases "?H < s \<and> s \<in> fst ` set (fl_chunks f)")
        case True
        then show ?thesis using row1 [of s] None mapq [of s]
          by (auto simp: chunk_at_def r2 split: option.splits)
      next
        case False
        then have "row_at i s d1 = None" using new [of s] None by auto
        then show ?thesis using None by (simp add: chunk_at_def r2)
      qed
    qed
  qed simp
  have sv2: "saving_ok i ?d2 f r" using sv by (auto simp: saving_ok_def hd2)
  have sd2: "saved_ok i ?d2 f" using last by (auto simp: saved_ok_def hd2 fl2 le_max_iff_disj)
  let ?d5 = "pruneInput i (save_exit i (fl_exit_code f) (fold (settle_input i) (fl_repairs f) ?d2))"
  have s5: "same_output i ?d2 ?d5"
    using same_output_repairs same_output_exit same_output_prune_input same_output_trans by metis
  note a5 = advancesD [OF same_output_advances [OF s5] ok2]
  have "terminal_find i ?d2 \<noteq> None"
    using t1 by (simp add: save_output_def Let_def terminal_find_def update_terminal_def find_update_where_key)
  then have "\<exists>t5. terminal_find i ?d5 = Some t5" using s5 by (auto simp: same_output_def)
  then obtain t5 where t5: "terminal_find i ?d5 = Some t5" by blast
  note a6 = advancesD [OF prune_advances [OF t5, of e] a5(1)]
  show "output_ok i d' r" unfolding d' by (rule a6(1))
  show "grows i d r [] d' r" unfolding d'
    using stream_trans [OF g2 stream_trans [OF a5(2) a6(2)]] by simp
  show "terminal_find i d' \<noteq> None" unfolding d' using t5 by (simp add: prune_find)
  show "saving_ok i d' f r" unfolding d' by (rule a6(3) [OF a5(3) [OF sv2]])
  show "saved_ok i d' f" unfolding d' by (rule a6(4) [OF a5(4) [OF sd2]])
qed

end
