(* ===== verification/Terminal_Stream.thy ===== *)
theory Terminal_Stream
  imports Terminal_Output
begin

text \<open>
  The life of a running terminal's output as a step relation: notifications of the runtime arrive
  at any moment, also while a batch is being saved; saving may fail before or after its commit;
  and requests of the API and the other statements of the supervisor run in between. The
  properties say what of the output survives and what a browser reads of it.
\<close>

section \<open>Begin and end of a batch\<close>

lemma window_row: "window_ok i d \<Longrightarrow> floor_of i d < s \<Longrightarrow> s \<le> head_of i d \<Longrightarrow> \<exists>x. row_at i s d = Some x"
  by (auto simp: window_ok_def)

lemma flush_begin_ok:
  assumes ok: "output_ok i d r" and b: "flush_begin r = Some (f, r')"
  shows "output_ok i d r'" "grows i d r [] d r'" "saving_ok i d f r'" "same_fields (r\<lparr>ow_frozen_output := ow_frozen_output r'\<rparr>) r'"
proof -
  let ?l = "if ow_queue r = [] then 0 else fst (last (ow_queue r))"
  have r': "r' = r\<lparr>ow_frozen_output := max (ow_frozen_output r) ?l\<rparr>" and
    f: "fl_chunks f = ow_queue r" "fl_lost f = ow_lost r"
    using b by (auto simp: flush_begin_def split: if_splits)
  note q = output_okD(1) [OF ok]
  have l: "?l \<le> ow_next_output r" using q last_in_set [of "ow_queue r"] by (auto simp: queue_ok_def)
  show "output_ok i d r'" using ok l by (auto simp: output_ok_def queue_ok_def r')
  have c: "chunk_at i d r' = chunk_at i d r" by (intro ext) (simp add: chunk_at_def r' split: option.split)
  have k: "kept i d r' = kept i d r" "given_up i d r' = given_up i d r"
    using c by (simp_all add: kept_def given_up_def r')
  show "grows i d r [] d r'" by (simp add: grows_def k)
  have le: "fst c \<le> ?l" if "c \<in> set (ow_queue r)" for c
  proof -
    obtain cs x where x: "ow_queue r = cs @ [x]" using \<open>c \<in> set (ow_queue r)\<close> by (metis append_butlast_last_id empty_iff empty_set)
    then show ?thesis using that q by (auto simp: queue_ok_def sorted_wrt_append)
  qed
  have "s \<in> fst ` set (ow_queue r)" if "max (head_of i d) (ow_lost r) < s" "s \<le> ?l" for s
    using that ok l by (auto simp: output_ok_def)
  then show "saving_ok i d f r'" using le by (auto simp: saving_ok_def f r' last_chunk_def le_max_iff_disj)
  show "same_fields (r\<lparr>ow_frozen_output := ow_frozen_output r'\<rparr>) r'" by (simp add: same_fields_def r')
qed

lemma flush_end_ok:
  assumes ok: "output_ok i d r" and sv: "saving_ok i d f r" and sd: "saved_ok i d f"
  shows "output_ok i d (flush_end f r)" "grows i d r [] d (flush_end f r)"
proof -
  let ?n = "length (fl_chunks f)" and ?r = "flush_end f r"
  note q = output_okD(1) [OF ok]
  have split: "ow_queue r = fl_chunks f @ ow_queue ?r"
    using sv append_take_drop_id [of ?n "ow_queue r"] by (simp add: flush_end_def saving_ok_def)
  have fields: "ow_next_output ?r = ow_next_output r" "ow_frozen_output ?r = ow_frozen_output r" "ow_id ?r = ow_id r"
    "ow_lost ?r = (if ow_lost r = fl_lost f then 0 else ow_lost r)"
    "ow_queued_bytes ?r = ow_queued_bytes r - sum_list (map (\<lambda>c. length (snd c)) (fl_chunks f))"
    by (simp_all add: flush_end_def)
  have lost: "ow_lost ?r \<le> ow_lost r" "ow_lost ?r \<noteq> ow_lost r \<Longrightarrow> ow_lost r \<le> floor_of i d"
    using sd by (auto simp: fields saved_ok_def split: if_splits)
  have g: "given_up i d ?r = given_up i d r" using lost by (cases "ow_lost ?r = ow_lost r") (auto simp: given_up_def)
  have hf: "floor_of i d \<le> head_of i d" by (rule output_okD(5) [OF ok])
  have q': "queue_ok ?r" using q lost(1) by (auto simp: queue_ok_def fields split sorted_wrt_append)
  have rest: "s \<in> fst ` set (ow_queue ?r)" if "max (head_of i d) (ow_lost ?r) < s" "s \<le> ow_next_output r" for s
  proof -
    have "max (head_of i d) (ow_lost r) < s" using that lost hf by (cases "ow_lost ?r = ow_lost r") auto
    then have "s \<in> fst ` set (ow_queue r)" using that ok by (auto simp: output_ok_def)
    moreover have "s \<notin> fst ` set (fl_chunks f)" using sd that by (auto simp: saved_ok_def)
    ultimately show ?thesis by (auto simp: split)
  qed
  show "output_ok i d ?r" unfolding output_ok_def fields(1-3) using ok q' rest by (auto simp: output_ok_def)
  show "grows i d r [] d ?r"
  proof (rule grows_raise)
    fix s assume s: "given_up i d ?r < s" "s \<le> ow_next_output r"
    show "chunk_at i d ?r s = chunk_at i d r s"
    proof (cases "row_at i s d")
      case None
      have "floor_of i d < s" using s(1) by (simp add: given_up_def)
      then have "\<not> s \<le> head_of i d" using None window_row [OF output_okD(2) [OF ok]] by force
      then have "s \<notin> fst ` set (fl_chunks f)" using sd by (auto simp: saved_ok_def)
      then have "map_of (fl_chunks f) s = None" by (simp add: map_of_eq_None_iff)
      then have "map_of (ow_queue r) s = map_of (ow_queue ?r) s" by (subst split) (simp add: map_add_def)
      then show ?thesis by (simp add: chunk_at_def split: option.split)
    qed (simp add: chunk_at_def)
  qed (simp_all add: g fields)
qed

section \<open>Requests of the API leave the output alone\<close>

lemma same_output_control: "controlRate e j d = Inr d' \<Longrightarrow> same_output i d d'"
  by (auto simp: controlRate_def split: if_splits intro!: same_output_update)

lemma same_output_prune_other: "i \<noteq> j \<Longrightarrow> same_output i d (pruneOutput e j d)"
proof -
  assume ne: "i \<noteq> j"
  let ?st = "map to_sequence (stale_output (now e) 0 0 (output_of j d))"
  let ?d1 = "d\<lparr>terminal_output := delete_where (\<lambda>r. to_terminal r = j \<and> to_sequence r \<in> set ?st) (terminal_output d)\<rparr>"
  have del: "find (\<lambda>x. to_terminal x = i \<and> to_sequence x = s) (delete_where (\<lambda>r. to_terminal r = j \<and> Q (to_sequence r)) rs) =
    find (\<lambda>x. to_terminal x = i \<and> to_sequence x = s) rs" for s Q rs
    using ne by (induction rs) auto
  have s1: "same_output i d ?d1"
    by (simp add: del [of _ "\<lambda>n. n \<in> set ?st", simplified] same_output_def row_at_def head_of_def floor_of_def terminal_find_def distinct_delete_where)
  have "same_output i ?d1 (update_terminal j f ?d1)"
    if "\<And>t. te_id (f t) = te_id t" for f
  proof -
    have "terminal_find i (update_terminal j f ?d1) = terminal_find i ?d1"
      using that ne by (cases "terminal_find i ?d1") (auto simp: update_terminal_find dest: terminal_find_id)
    then show ?thesis by (simp add: same_output_def row_at_def head_of_def floor_of_def update_terminal_def)
  qed
  then have s2: "same_output i ?d1 (update_terminal j (\<lambda>t. t\<lparr>te_output_floor := max (te_output_floor t) (Max (set ?st))\<rparr>) ?d1)"
    by simp
  have "pruneOutput e j d = (if ?st = [] then ?d1
      else update_terminal j (\<lambda>t. t\<lparr>te_output_floor := max (te_output_floor t) (Max (set ?st))\<rparr>) ?d1)"
    by (simp only: pruneOutput_def Let_def)
  then show ?thesis using s1 same_output_trans [OF s1 s2] by presburger
qed

lemma same_output_insert_input: "insert_input x d = Inr d' \<Longrightarrow> same_output i d d'"
  by (auto simp: insert_input_def split: if_splits intro!: same_output_fields)

lemma same_output_create: "create_terminal e w a b j d = Inr (v, d') \<Longrightarrow> terminal_find i d \<noteq> None \<Longrightarrow> same_output i d d'"
  by (auto simp: create_terminal_def insert_terminal_def res_simps Let_def same_output_def row_at_def head_of_def
      floor_of_def terminal_find_def split: if_splits option.splits prod.splits)

lemma same_output_acquire: "acquireControl e t a b c d = Inr (v, d') \<Longrightarrow> same_output i d d'"
proof -
  assume "acquireControl e t a b c d = Inr (v, d')"
  then obtain d1 where "controlRate e (te_id t) d = Inr d1" "d' = update_terminal (te_id t) (controlled_by e a c) d1"
    by (auto simp: acquireControl_def res_simps Let_def)
  moreover have "same_output i d1 (update_terminal (te_id t) (controlled_by e a c) d1)"
    by (rule same_output_update_terminal) (simp_all add: controlled_by_def)
  ultimately show ?thesis using same_output_control same_output_trans by blast
qed

lemma same_output_admit:
  assumes "admit_input e t a b x d = Inr (v, d')"
  shows "same_output i d d'"
proof -
  let ?f = "\<lambda>x'. x'\<lparr> te_input_sequence := fi_sequence b, te_input_bytes := te_input_bytes x' + length x,
     te_input_frames := te_input_frames x' + 1 \<rparr>"
  let ?d1 = "update_terminal (te_id t) (input_rate e) d"
  from assms have ins: "insert_input (new_input e t a b x) (update_terminal (te_id t) ?f ?d1) = Inr d'"
    unfolding admit_input_def Let_def by (auto simp: res_simps)
  have "same_output i d ?d1" by (rule same_output_update_terminal) (simp_all add: input_rate_def Let_def)
  moreover have "same_output i ?d1 (update_terminal (te_id t) ?f ?d1)" by (rule same_output_update_terminal) simp_all
  ultimately show ?thesis using same_output_insert_input [OF ins] same_output_trans by blast
qed

lemma same_output_accept: "acceptInput e t a b d = Inr (v, d') \<Longrightarrow> same_output i d d'"
  by (auto simp: acceptInput_def res_simps split: if_splits dest: same_output_admit)

lemma same_output_resize:
  assumes "resize e t a b d = Inr d'"
  shows "same_output i d d'"
proof -
  let ?f = "\<lambda>x. x\<lparr> te_resize_sequence := fz_sequence b, te_resize_cols := fz_cols b,
         te_resize_rows := fz_rows b, te_resize_pending := True, te_resize_count := te_resize_count x + 1 \<rparr>"
  let ?d1 = "update_terminal (te_id t) (resize_rate e) d"
  have "d' = d \<or> d' = update_terminal (te_id t) ?f ?d1"
    using assms unfolding resize_def Let_def by (auto simp: res_simps split: if_splits)
  moreover have a: "same_output i d ?d1" by (rule same_output_update_terminal) (simp_all add: resize_rate_def Let_def)
  moreover have b: "same_output i ?d1 (update_terminal (te_id t) ?f ?d1)" by (rule same_output_update_terminal) simp_all
  ultimately show ?thesis using same_output_trans [OF a b] same_output_refl by (elim disjE) simp_all
qed

lemma same_output_heartbeat: "heartbeat e t a b d = Inr d' \<Longrightarrow> same_output i d d'"
  by (auto simp: heartbeat_def res_simps intro!: same_output_update)

lemma same_output_terminate:
  assumes "terminate_terminal e j a g d = Inr (v, d')"
  shows "same_output i d d'"
proof -
  from assms have "d' = d \<or> (\<exists>(t :: terminal_row) d1. controlRate e (te_id t) d = Inr d1 \<and> d' = update_terminal (te_id t) ended d1)"
    unfolding terminate_terminal_def Let_def by (auto simp: res_simps split: if_splits)
  then consider "d' = d"
    | t :: terminal_row and d1 where "controlRate e (te_id t) d = Inr d1" "d' = update_terminal (te_id t) ended d1" by blast
  then show ?thesis
  proof cases
    case (2 t d1)
    have "same_output i d1 (update_terminal (te_id t) ended d1)"
      by (rule same_output_update_terminal) (simp_all add: ended_def)
    then show ?thesis using 2 same_output_control same_output_trans by blast
  qed simp
qed

lemma same_output_drop:
  assumes "i \<noteq> j"
  shows "same_output i d (drop_terminal j d)"
proof -
  have f1: "find (\<lambda>t. te_id t = i) (delete_where (\<lambda>t. te_id t = j) ts) = find (\<lambda>t. te_id t = i) ts" for ts
    using assms by (induction ts) auto
  have f2: "find (\<lambda>x. to_terminal x = i \<and> to_sequence x = s) (delete_where (\<lambda>r. to_terminal r = j) rs) =
    find (\<lambda>x. to_terminal x = i \<and> to_sequence x = s) rs" for s rs
    using assms by (induction rs) auto
  show ?thesis
    by (simp add: f1 f2 same_output_def row_at_def head_of_def floor_of_def terminal_find_def drop_terminal_def
        distinct_delete_where)
qed

lemma same_output_remove:
  assumes "remove_terminal e j a d = Inr d'" and "i \<noteq> j"
  shows "same_output i d d'"
proof -
  from assms(1) obtain t name d1 where l: "lockedTerminal e d j a TerminalTerminate = Inr (t, name)"
    and c: "controlRate e (te_id t) d = Inr d1" and d': "d' = drop_terminal (te_id t) d1"
    unfolding remove_terminal_def by (auto simp: res_simps)
  have "terminal_find j d = Some t"
    using l lockTerminalResource_Inr unfolding lockedTerminal_def by (auto simp: res_simps)
  then have "te_id t = j" by (rule terminal_find_id)
  then show ?thesis using same_output_control [OF c] same_output_drop [OF assms(2)] same_output_trans d' by blast
qed

lemma lockedTerminal_find: "lockedTerminal e d j a s = Inr (t, name) \<Longrightarrow> terminal_find j d = Some t"
  using lockTerminalResource_Inr unfolding lockedTerminal_def by (auto simp: res_simps)

lemma snapshot_db: "outputSnapshot e t cursor d = Inr (v, d') \<Longrightarrow> d' = pruneOutput e (te_id t) d"
  by (auto simp: outputSnapshot_def Let_def res_simps)

lemma terminal_op_output:
  assumes op: "terminal_op (e, a, x) d = Inr d'" and x: "x \<noteq> RemoveTerminal i" and t: "terminal_find i d \<noteq> None"
  shows "same_output i d d' \<or> d' = pruneOutput e i d"
proof (cases x)
  case (ReadOutput j cursor)
  then obtain u v name where l: "lockedTerminal e d j a TerminalRead = Inr (u, name)"
    and s: "outputSnapshot e u cursor d = Inr (v, d')" using op by (auto simp: terminal_output_get_def res_simps)
  note find = lockedTerminal_find [OF l]
  have "d' = pruneOutput e j d" using snapshot_db [OF s] terminal_find_id [OF find] by simp
  then show ?thesis using same_output_prune_other by (cases "i = j") auto
next
  case (CreateTerminal w b j)
  then obtain v where "create_terminal e w a b j d = Inr (v, d')" using op by (auto simp: res_simps)
  then show ?thesis using same_output_create t by blast
next
  case (TakeControl j b c)
  then obtain v u name where "acquireControl e u a b c d = Inr (v, d')" using op by (auto simp: res_simps)
  then show ?thesis using same_output_acquire by blast
next
  case (SendInput j b)
  then obtain v u name where "acceptInput e u a b d = Inr (v, d')" using op by (auto simp: res_simps)
  then show ?thesis using same_output_accept by blast
next
  case (ResizeTerminal j b)
  then obtain u name where "resize e u a b d = Inr d'" using op by (auto simp: res_simps)
  then show ?thesis using same_output_resize by blast
next
  case (Heartbeat j b)
  then obtain u name where "heartbeat e u a b d = Inr d'" using op by (auto simp: res_simps)
  then show ?thesis using same_output_heartbeat by blast
next
  case (TerminateTerminal j g)
  then obtain v where "terminate_terminal e j a g d = Inr (v, d')" using op by (auto simp: res_simps)
  then show ?thesis using same_output_terminate by blast
next
  case (RemoveTerminal j)
  then show ?thesis using op x same_output_remove by auto
qed

lemma terminal_op_advances:
  assumes "terminal_op (e, a, x) d = Inr d'" and "x \<noteq> RemoveTerminal i" and t: "terminal_find i d \<noteq> None"
  shows "advances i d d'" "terminal_find i d' \<noteq> None"
proof -
  have "advances i d d' \<and> terminal_find i d' \<noteq> None" using terminal_op_output [OF assms]
  proof
    assume "same_output i d d'"
    then show ?thesis using same_output_advances t by (auto simp: same_output_def)
  next
    assume "d' = pruneOutput e i d"
    then show ?thesis using t prune_advances [of i d _ e] prune_find [of i e d] by auto
  qed
  then show "advances i d d'" "terminal_find i d' \<noteq> None" by simp_all
qed

section \<open>The other statements of the supervisor\<close>

lemma update_workspaces_output: "update_workspaces P f d = Inr d' \<Longrightarrow> same_output i d d'"
  by (auto simp: update_workspaces_def res_simps intro!: same_output_fields)

lemma wire_output: "wire e current r g d = Inr d' \<Longrightarrow> same_output i d d'"
  unfolding wire_def wire_action_def Let_def
  by (auto simp: res_simps split: if_splits intro!: same_output_fields)

lemma write_input_output: "same_output i d (snd (write_input e current a r x d))"
  by (auto simp: write_input_def split: reply.split sum.split failure.split intro: wire_output)

lemma supervisor_output:
  "same_output i d (starting_reset d)" "same_output i d (orphan_dispatch j d)"
  "same_output i d (stop_terminal j c d)" "same_output i d (launched r d)"
  "same_output i d (resize_done t d)" "same_output i d (retire_failed j d)"
  by (auto simp: starting_reset_def orphan_dispatch_def stop_terminal_def launched_def resize_done_def
      retire_failed_def intro!: same_output_update)

lemma settle_retired_output: "same_output i d (settle_retired o' j d)"
proof -
  have a: "same_output i d (d\<lparr>terminal_input := x\<rparr>)" for x by (rule same_output_fields) simp_all
  have b: "same_output i d1 (update_terminal j (\<lambda>t. t\<lparr> te_state := s t, te_retired := True, te_writer_epoch := None,
      te_controller_until := None, te_input_uncertain := u t \<rparr>) d1)" for d1 s u
    by (rule same_output_update_terminal) simp_all
  show ?thesis unfolding settle_retired_def Let_def
    by (rule same_output_trans [OF same_output_trans [OF a b] same_output_prune_input])
qed

lemma retire_commit_output:
  assumes "retire_commit p t d = Inr d'"
  shows "same_output i d d'"
proof -
  from assms obtain fresh w d1 o' where r: "release_terminal fresh w d = Inr d1" "d' = settle_retired o' (te_id t) d1"
    unfolding retire_commit_def by (auto simp: res_simps)
  have "same_output i d d1" using r(1) update_workspaces_output
    by (auto simp: release_terminal_def split: option.splits if_splits)
  then show ?thesis using r(2) settle_retired_output same_output_trans by blast
qed

section \<open>The step relation\<close>

text \<open>
  The handle, the batch being saved, the database and everything the process has written so far.
  \<open>broke\<close>: the transaction of a batch throws, before or after its commit took effect.
\<close>

datatype progress = Resting | Saving saving | Saved saving

type_synonym output_state = "owned \<times> progress \<times> db \<times> string"

inductive output_step :: "uuid \<Rightarrow> output_state \<Rightarrow> output_state \<Rightarrow> bool" for i where
  captured: "capture e m p r = Some r' \<Longrightarrow> output_step i (r, g, d, h) (r', g, d, h @ heard r m p)"
| begun: "flush_begin r = Some (f, r') \<Longrightarrow> output_step i (r, Resting, d, h) (r', Saving f, d, h)"
| saved: "flush_commit e i (ow_generation r) f d = Inr d' \<Longrightarrow> output_step i (r, Saving f, d, h) (r, Saved f, d', h)"
| broke: "output_step i (r, g, d, h) (r, Resting, d, h)"
| ended: "output_step i (r, Saved f, d, h) (flush_end f r, Resting, d, h)"
| served: "terminal_op (e, a, x) d = Inr d' \<Longrightarrow> x \<noteq> RemoveTerminal i \<Longrightarrow> output_step i (r, g, d, h) (r, g, d', h)"
| other: "same_output i d d' \<Longrightarrow> output_step i (r, g, d, h) (r, g, d', h)"

inductive_cases output_stepE: "output_step i (r, g, d, h) y"

definition progress_ok :: "uuid \<Rightarrow> db \<Rightarrow> progress \<Rightarrow> owned \<Rightarrow> bool" where
  "progress_ok i d g r = (case g of Resting \<Rightarrow> True | Saving f \<Rightarrow> saving_ok i d f r
     | Saved f \<Rightarrow> saving_ok i d f r \<and> saved_ok i d f)"

fun stream_ok :: "uuid \<Rightarrow> output_state \<Rightarrow> bool" where
  "stream_ok i (r, g, d, h) \<longleftrightarrow> output_ok i d r \<and> terminal_find i d \<noteq> None \<and> progress_ok i d g r \<and>
     (\<exists>p. h = p @ kept i d r \<and> (given_up i d r = 0 \<longrightarrow> p = []))"

lemma stream_grows:
  assumes "stream_ok i (r, g, d, h)" and "grows i d r xs d' r'" and "output_ok i d' r'"
    and "terminal_find i d' \<noteq> None" and "progress_ok i d' g' r'"
  shows "stream_ok i (r', g', d', h @ xs)"
proof -
  from assms(1) obtain p where p: "h = p @ kept i d r" "given_up i d r = 0 \<longrightarrow> p = []" by auto
  from assms(2) obtain q where q: "kept i d r @ xs = q @ kept i d' r'" "given_up i d' r' = 0 \<longrightarrow> q = []"
    "given_up i d r \<le> given_up i d' r'" by (auto simp: grows_def)
  have "h @ xs = (p @ q) @ kept i d' r'" using p(1) q(1) by simp
  moreover have "given_up i d' r' = 0 \<longrightarrow> p @ q = []" using p(2) q(2,3) by simp
  ultimately have "\<exists>p. h @ xs = p @ kept i d' r' \<and> (given_up i d' r' = 0 \<longrightarrow> p = [])" by (intro exI conjI)
  then show ?thesis using assms(3-5) by (simp only: stream_ok.simps simp_thms)
qed

lemma output_step_keeps:
  assumes "output_step i x y" and "stream_ok i x"
  shows "stream_ok i y"
  using assms
proof (cases rule: output_step.cases)
  case (captured e m p r r' g d h)
  then have s: "stream_ok i (r, g, d, h)" using assms(2) by simp
  from capture_grows [of i d r e m p] s captured(3) have c: "output_ok i d r'" "grows i d r (heard r m p) d r'"
    "\<And>f. saving_ok i d f r \<Longrightarrow> saving_ok i d f r'" by auto
  have "progress_ok i d g r'" using s c(3) by (auto simp: progress_ok_def split: progress.splits)
  then show ?thesis unfolding captured(2) using s c by (intro stream_grows [OF s]) auto
next
  case (begun r f r' d h)
  then have s: "stream_ok i (r, Resting, d, h)" using assms(2) by simp
  then have ok: "output_ok i d r" by simp
  note b = flush_begin_ok [OF ok begun(3)]
  have "stream_ok i (r', Saving f, d, h @ [])"
    by (rule stream_grows [OF s b(2,1)]) (use s b(3) in \<open>simp_all add: progress_ok_def\<close>)
  then show ?thesis unfolding begun(2) by (simp only: append_Nil2)
next
  case (saved e r f d d' h)
  then have s: "stream_ok i (r, Saving f, d, h)" using assms(2) by simp
  then have ok: "output_ok i d r" "saving_ok i d f r" by (simp_all add: progress_ok_def)
  note c = flush_commit_ok [OF saved(3) ok]
  have "stream_ok i (r, Saved f, d', h @ [])"
    by (rule stream_grows [OF s c(2,1,5)]) (use c(3,4) in \<open>simp add: progress_ok_def\<close>)
  then show ?thesis unfolding saved(2) by (simp only: append_Nil2)
next
  case (broke r g d h)
  then show ?thesis using assms(2) by (auto simp: progress_ok_def)
next
  case (ended r f d h)
  then have s: "stream_ok i (r, Saved f, d, h)" using assms(2) by simp
  then have ok: "output_ok i d r" "saving_ok i d f r" "saved_ok i d f" by (simp_all add: progress_ok_def)
  note e = flush_end_ok [OF ok]
  have "stream_ok i (flush_end f r, Resting, d, h @ [])"
    by (rule stream_grows [OF s e(2,1)]) (use s in \<open>simp_all add: progress_ok_def\<close>)
  then show ?thesis unfolding ended(2) by (simp only: append_Nil2)
next
  case (served e a x d d' r g h)
  then have s: "stream_ok i (r, g, d, h)" using assms(2) by simp
  then have ok: "output_ok i d r" "terminal_find i d \<noteq> None" by simp_all
  note a = terminal_op_advances [OF served(3,4) ok(2)]
  note v = advancesD [OF a(1) ok(1)]
  have "progress_ok i d' g r" using s v(3,4) by (auto simp: progress_ok_def split: progress.splits)
  then have "stream_ok i (r, g, d', h @ [])" by (rule stream_grows [OF s v(2,1) a(2)])
  then show ?thesis unfolding served(2) by (simp only: append_Nil2)
next
  case (other d d' r g h)
  then have s: "stream_ok i (r, g, d, h)" using assms(2) by simp
  then have ok: "output_ok i d r" "terminal_find i d \<noteq> None" by simp_all
  note v = advancesD [OF same_output_advances [OF other(3)] ok(1)]
  have "progress_ok i d' g r" using s v(3,4) by (auto simp: progress_ok_def split: progress.splits)
  moreover have "terminal_find i d' \<noteq> None" using other(3) ok(2) by (simp add: same_output_def)
  ultimately have "stream_ok i (r, g, d', h @ [])" by (intro stream_grows [OF s v(2,1)])
  then show ?thesis unfolding other(2) by (simp only: append_Nil2)
qed

lemma output_run_keeps: "(output_step i)\<^sup>*\<^sup>* x y \<Longrightarrow> stream_ok i x \<Longrightarrow> stream_ok i y"
  by (induction rule: rtranclp_induct) (auto intro: output_step_keeps)

text \<open>A terminal that has just been admitted has no output yet.\<close>

definition silent :: "terminal_row \<Rightarrow> db \<Rightarrow> bool" where
  "silent t d \<longleftrightarrow> terminal_find (te_id t) d = Some t \<and> te_output_sequence t = 0 \<and> te_output_floor t = 0 \<and>
     \<not> exists_row (\<lambda>x. to_terminal x = te_id t) (terminal_output d) \<and>
     distinct (map (\<lambda>x. (to_terminal x, to_sequence x)) (terminal_output d))"

lemma silent_stream_ok:
  assumes "silent t d"
  shows "stream_ok (te_id t) (new_owned e t, Resting, d, [])"
proof -
  have hf: "head_of (te_id t) d = 0" "floor_of (te_id t) d = 0"
    using assms by (simp_all add: silent_def head_of_def floor_of_def)
  have "row_at (te_id t) s d = None" for s using assms by (auto simp: silent_def row_at_def find_is_None)
  then have "window_ok (te_id t) d" using assms hf by (auto simp: window_ok_def silent_def)
  moreover have "queue_ok (new_owned e t)" by (simp add: queue_ok_def new_owned_def)
  ultimately show ?thesis using assms hf
    by (auto simp: output_ok_def new_owned_def silent_def progress_ok_def kept_def given_up_def)
qed

section \<open>Reading a snapshot\<close>

lemma sorted_numbers:
  assumes "distinct (map f xs)" and "f ` set xs = {a<..b}"
  shows "map f (sort_key f xs) = [Suc a..<Suc b]"
proof (rule sorted_distinct_set_unique)
  have "distinct (map f (sort_key f xs)) \<longleftrightarrow> distinct (map f xs)"
    by (metis distinct_map distinct_sort set_sort)
  then show "distinct (map f (sort_key f xs))" using assms(1) by simp
  show "set (map f (sort_key f xs)) = set [Suc a..<Suc b]" using assms(2) by auto
qed (simp_all del: upt_Suc)

lemma output_after_numbers:
  assumes w: "window_ok i d" and c: "floor_of i d \<le> c"
  shows "map to_sequence (output_after i c d) = [Suc c..<Suc (min (head_of i d) (c + 16))]"
    "x \<in> set (output_after i c d) \<Longrightarrow> row_at i (to_sequence x) d = Some x"
proof -
  let ?rows = "filter (\<lambda>r. to_terminal r = i \<and> to_sequence r > c) (terminal_output d)"
  have pk: "distinct (map (\<lambda>x. (to_terminal x, to_sequence x)) (terminal_output d))" using w by (simp add: window_ok_def)
  have found: "row_at i (to_sequence x) d = Some x" if "x \<in> set ?rows" for x
    using find_distinct [OF pk, of x] that by (auto simp: row_at_def)
  have "inj_on to_sequence (set ?rows)"
  proof (rule inj_onI)
    fix x y assume "x \<in> set ?rows" "y \<in> set ?rows" "to_sequence x = to_sequence y"
    then show "x = y" using found by (metis option.inject)
  qed
  moreover have "distinct ?rows" using pk distinct_map distinct_filter by blast
  ultimately have d: "distinct (map to_sequence ?rows)" by (simp add: distinct_map)
  have img: "to_sequence ` set ?rows = {c<..head_of i d}"
  proof (intro set_eqI iffI)
    fix s assume "s \<in> to_sequence ` set ?rows"
    then obtain x where "x \<in> set ?rows" "to_sequence x = s" by auto
    then show "s \<in> {c<..head_of i d}" using found [of x] w by (auto simp: window_ok_def)
  next
    fix s assume s: "s \<in> {c<..head_of i d}"
    then obtain x where "row_at i s d = Some x" using window_row [OF w] c by force
    then have "x \<in> set ?rows \<and> to_sequence x = s" using s by (auto simp: row_at_def dest!: find_Some_in)
    then show "s \<in> to_sequence ` set ?rows" by force
  qed
  have "map to_sequence (output_after i c d) = take 16 [Suc c..<Suc (head_of i d)]"
    using sorted_numbers [OF d img] by (simp add: output_after_def take_map [symmetric] del: upt_Suc)
  also have "\<dots> = [Suc c..<Suc (min (head_of i d) (c + 16))]"
  proof (cases "c + 16 \<le> head_of i d")
    case True then show ?thesis by (simp add: take_upt min_def del: upt_Suc)
  next
    case False then show ?thesis by (simp add: min_def del: upt_Suc)
  qed
  finally show "map to_sequence (output_after i c d) = [Suc c..<Suc (min (head_of i d) (c + 16))]" .
  show "row_at i (to_sequence x) d = Some x" if "x \<in> set (output_after i c d)" for x
    using that found set_take_subset [of 16 "sort_key to_sequence ?rows"] unfolding output_after_def by auto
qed

lemma terminalRow_Inr: "terminalRow d i = Inr (t, name) \<Longrightarrow> terminal_find i d = Some t"
  by (auto simp: terminalRow_def res_simps split: option.splits)

lemma last_upt: "m < n \<Longrightarrow> last [m..<n] = n - 1"
  by (cases n) auto

lemma put_bytes_result:
  "\<exists>r1. put_bytes bytes offset r = Some r1 \<and>
     concat (map snd (ow_queue r1)) = concat (map snd (ow_queue r)) @ drop offset bytes \<and>
     ow_queued_bytes r1 = ow_queued_bytes r + length (drop offset bytes)"
proof -
  let ?P = "\<lambda>x (done :: string). \<exists>k. done = take offset bytes @ k \<and>
    concat (map snd (ow_queue x)) = concat (map snd (ow_queue r)) @ k \<and> ow_queued_bytes x = ow_queued_bytes r + length k"
  have step: "?P (put_chunk c x) (done @ c)" if "?P x done" for x c "done"
  proof -
    have "concat (map snd (ow_queue (put_chunk c x))) = concat (map snd (ow_queue x)) @ c"
    proof (cases "appends x")
      case True
      then obtain q l where "ow_queue x = q @ [l]" using queue_last [of x] by (metis appends_def)
      then show ?thesis using True by (simp add: put_chunk_queue)
    next
      case False then show ?thesis by (simp add: put_chunk_queue)
    qed
    moreover have "ow_queued_bytes (put_chunk c x) = ow_queued_bytes x + length c" by (simp add: put_chunk_def Let_def)
    ultimately show ?thesis using that by auto
  qed
  have "?P r (take offset bytes)" by simp
  from put_bytes_induct [where P = ?P, OF this step] obtain r' k where "put_bytes bytes offset r = Some r'"
    and k: "bytes = take offset bytes @ k" "concat (map snd (ow_queue r')) = concat (map snd (ow_queue r)) @ k"
      "ow_queued_bytes r' = ow_queued_bytes r + length k" by blast
  moreover have "k = drop offset bytes" using k(1) append_take_drop_id [of offset bytes] same_append_eq by metis
  ultimately show ?thesis by auto
qed

section \<open>Properties\<close>

text \<open>C35: Collecting output always returns. The loop that cuts a notification of the runtime
  into chunks of at most 16384 bytes ends for every queue and every offset, since each round takes
  at least one byte; it appends exactly the remaining bytes to the queue; and the handler as a whole
  returns a handle whose queue holds at most a mebibyte (or what it held before).\<close>

theorem capture_terminates:
  "(\<exists>r1. put_bytes bytes offset r = Some r1 \<and>
     concat (map snd (ow_queue r1)) = concat (map snd (ow_queue r)) @ drop offset bytes) \<and>
   (\<exists>r2. capture e method p r = Some r2 \<and> ow_queued_bytes r2 \<le> max 1048576 (ow_queued_bytes r))"
proof (rule conjI)
  show "\<exists>r1. put_bytes bytes offset r = Some r1 \<and>
     concat (map snd (ow_queue r1)) = concat (map snd (ow_queue r)) @ drop offset bytes"
    using put_bytes_result by blast
  show "\<exists>r2. capture e method p r = Some r2 \<and> ow_queued_bytes r2 \<le> max 1048576 (ow_queued_bytes r)"
  proof (cases "method = ''command/exec/outputDelta'' \<and> event_data r p \<noteq> None")
    case True
    then obtain bytes where b: "event_data r p = Some bytes" by auto
    obtain r1 where "put_bytes bytes 0 (rate_tick e (length bytes) r) = Some r1"
      "ow_queued_bytes r1 = ow_queued_bytes r + length bytes" using put_bytes_result [of bytes 0] by fastforce
    then show ?thesis using True b unfolding capture_def Let_def by (auto simp: le_max_iff_disj)
  qed (auto simp: capture_def)
qed

text \<open>C34: What a terminal prints is never reordered, duplicated or corrupted. Whatever happens
  between the start of the shell and now (notifications arriving at any moment, batches that fail
  before or after their commit and are saved again, pruning, any request of the API, any other
  statement of the supervisor), the bytes held in the database and in the supervisor's queue,
  read in the order of their numbers, are the most recent part of what the process has written,
  and all of it as long as nothing has been pruned or given up; and no number in between is
  missing: those up to the saved head are rows, the rest are in the queue.\<close>

theorem output_stream_kept:
  assumes "silent t d0" and "i = te_id t"
    and "(output_step i)\<^sup>*\<^sup>* (new_owned e t, Resting, d0, []) (r, g, d, h)"
  shows "(\<exists>p. h = p @ kept i d r \<and> (given_up i d r = 0 \<longrightarrow> p = [])) \<and>
    (\<forall>s \<in> {given_up i d r<..ow_next_output r}.
       if s \<le> head_of i d then row_at i s d \<noteq> None else s \<in> fst ` set (ow_queue r))"
proof -
  have s: "stream_ok i (r, g, d, h)"
    using output_run_keeps [OF assms(3)] silent_stream_ok [OF assms(1)] assms(2) by simp
  then have ok: "output_ok i d r" by simp
  have "if s \<le> head_of i d then row_at i s d \<noteq> None else s \<in> fst ` set (ow_queue r)"
    if "given_up i d r < s" "s \<le> ow_next_output r" for s
    using that ok window_row [OF output_okD(2) [OF ok], of s] by (auto simp: output_ok_def given_up_def)
  then show ?thesis using s by auto
qed

text \<open>The process prints \<^verbatim>\<open>ls\<close>, and the batch is saved.\<close>

definition demo_output :: exec_event where
  "demo_output = \<lparr> xe_process = ''v'', xe_data = Some ''bHM='', xe_stream = ''stdout'', xe_cap_reached = Some False \<rparr>"

definition demo_saved :: "(owned \<times> saving \<times> owned \<times> db) option" where
  "demo_saved = (case capture demo_env ''command/exec/outputDelta'' demo_output (new_owned demo_env demo_terminal) of
       None \<Rightarrow> None
     | Some r1 \<Rightarrow> (case flush_begin r1 of None \<Rightarrow> None
        | Some (f, r2) \<Rightarrow> (case flush_commit demo_env ''v'' (ow_generation r2) f terminal_db of
            Inl _ \<Rightarrow> None | Inr d \<Rightarrow> Some (r1, f, r2, d))))"

theorem output_stream_kept_witness:
  "\<exists>r d. (output_step ''v'')\<^sup>*\<^sup>* (new_owned demo_env demo_terminal, Resting, terminal_db, []) (r, Resting, d, ''ls'') \<and>
     kept ''v'' d r = ''ls'' \<and> map to_bytes (terminal_output d) = [''ls'']"
proof -
  let ?x0 = "new_owned demo_env demo_terminal"
  have "case demo_saved of None \<Rightarrow> False | Some (r1, f, r2, d) \<Rightarrow>
      given_up ''v'' d (flush_end f r2) = 0 \<and> map to_bytes (terminal_output d) = [''ls'']" by code_simp
  then obtain r1 f r2 d where x: "demo_saved = Some (r1, f, r2, d)" "given_up ''v'' d (flush_end f r2) = 0"
    "map to_bytes (terminal_output d) = [''ls'']" by (auto split: option.splits)
  from x(1) have st: "capture demo_env ''command/exec/outputDelta'' demo_output ?x0 = Some r1"
    "flush_begin r1 = Some (f, r2)" "flush_commit demo_env ''v'' (ow_generation r2) f terminal_db = Inr d"
    by (auto simp: demo_saved_def split: option.splits sum.splits)
  have h: "heard ?x0 ''command/exec/outputDelta'' demo_output = ''ls''" by code_simp
  have s1: "output_step ''v'' (?x0, Resting, terminal_db, []) (r1, Resting, terminal_db, ''ls'')"
    using output_step.captured [OF st(1), of "''v''" Resting terminal_db "[]"] h by (simp only: append_Nil)
  note s2 = output_step.begun [OF st(2), of "''v''" terminal_db "''ls''"]
  note s3 = output_step.saved [OF st(3), of "''ls''"]
  note s4 = output_step.ended [of "''v''" r2 f d "''ls''"]
  have run: "(output_step ''v'')\<^sup>*\<^sup>* (?x0, Resting, terminal_db, []) (flush_end f r2, Resting, d, ''ls'')"
    by (rule converse_rtranclp_into_rtranclp [where r = "output_step ''v''", OF s1], rule converse_rtranclp_into_rtranclp [where r = "output_step ''v''", OF s2],
        rule converse_rtranclp_into_rtranclp [where r = "output_step ''v''", OF s3], rule r_into_rtranclp [where r = "output_step ''v''", OF s4])
  have "silent demo_terminal terminal_db" "''v'' = te_id demo_terminal"
    by (simp_all add: silent_def demo_defs terminal_find_def)
  from output_stream_kept [OF this run] x(2) have "kept ''v'' d (flush_end f r2) = ''ls''" by auto
  then show ?thesis using run x(3) by (intro exI [of _ "flush_end f r2"] exI [of _ d] conjI)
qed

text \<open>A browser that follows the cursor misses nothing silently. A snapshot carries the
  numbers that follow its cursor (or the floor, where older output has been pruned), without a
  hole and at most sixteen of them, each with the bytes of its row; it reports a gap exactly when
  something between the cursor and the floor is gone; the cursor it returns is the last number it
  carries; and a cursor beyond the head is refused.\<close>

theorem snapshot_exact:
  assumes "outputSnapshot e t cursor d = Inr (v, d')" and "window_ok (te_id t) d"
  shows "cursor \<le> sn_latest v \<and> sn_gap v = (cursor < sn_floor v) \<and>
    map fst (sn_chunks v) = [Suc (max cursor (sn_floor v))..<Suc (sn_cursor v)] \<and>
    sn_cursor v = min (sn_latest v) (max cursor (sn_floor v) + 16) \<and>
    (\<forall>(s, b) \<in> set (sn_chunks v). \<exists>x. row_at (te_id t) s d = Some x \<and> b = b64_encode (to_bytes x))"
proof -
  let ?i = "te_id t" and ?d1 = "pruneOutput e (te_id t) d"
  let ?low = "floor_of ?i ?d1" and ?high = "head_of ?i ?d1"
  let ?rows = "output_after ?i (max cursor ?low) ?d1"
  from assms(1) obtain fresh name where fr: "terminalRow ?d1 ?i = Inr (fresh, name)"
    unfolding outputSnapshot_def Let_def by (auto simp: res_simps)
  note find = terminalRow_Inr [OF fr]
  have lh: "te_output_floor fresh = ?low" "te_output_sequence fresh = ?high" by (simp_all add: floor_of_def head_of_def find)
  have v: "cursor \<le> ?high" "sn_floor v = ?low" "sn_latest v = ?high" "sn_gap v = (cursor < ?low)"
    "sn_cursor v = (if ?rows = [] then max cursor ?low else to_sequence (last ?rows))"
    "sn_chunks v = map (\<lambda>r. (to_sequence r, b64_encode (to_bytes r))) ?rows"
    using assms(1) unfolding outputSnapshot_def Let_def fr by (auto simp: res_simps lh)
  have "terminal_find ?i d \<noteq> None" using find prune_find [of ?i e d] by simp
  then obtain u where u: "terminal_find ?i d = Some u" by blast
  have w: "window_ok ?i ?d1" by (rule prune_window(1) [OF assms(2) u])
  note n = output_after_numbers [OF w, of "max cursor ?low"]
  have n1: "map to_sequence ?rows = [Suc (max cursor ?low)..<Suc (min ?high (max cursor ?low + 16))]" using n(1) by simp
  have le: "?low \<le> ?high" using w by (simp add: window_ok_def)
  have cur: "sn_cursor v = min ?high (max cursor ?low + 16)"
  proof (cases "?rows = []")
    case True
    then have "[Suc (max cursor ?low)..<Suc (min ?high (max cursor ?low + 16))] = []" using n1 by simp
    then have "min ?high (max cursor ?low + 16) \<le> max cursor ?low" by (simp del: upt_Suc)
    then show ?thesis using True v(1,5) le by auto
  next
    case False
    then have ne: "[Suc (max cursor ?low)..<Suc (min ?high (max cursor ?low + 16))] \<noteq> []" using n1 by (metis map_is_Nil_conv)
    have "to_sequence (last ?rows) = last (map to_sequence ?rows)" using False by (simp add: last_map)
    also have "\<dots> = min ?high (max cursor ?low + 16)" unfolding n1 using ne by (subst last_upt) (auto simp del: upt_Suc)
    finally show ?thesis using False v(5) by simp
  qed
  have rows: "\<exists>x. row_at ?i s d = Some x \<and> b = b64_encode (to_bytes x)" if st: "(s, b) \<in> set (sn_chunks v)" for s b
  proof -
    obtain x where x: "x \<in> set ?rows" "s = to_sequence x" "b = b64_encode (to_bytes x)" using st v(6) by auto
    have "row_at ?i s ?d1 = Some x" using n(2) [OF _ x(1)] x(2) by simp
    moreover have "?low < s" using x(1,2) by (auto simp: output_after_def dest!: in_set_takeD)
    ultimately have "row_at ?i s d = Some x" using prune_window(3) [OF assms(2) u, of e s] by simp
    then show ?thesis using x(3) by simp
  qed
  have "map fst (sn_chunks v) = map to_sequence ?rows" using v(6) by simp
  then show ?thesis using v(1-4) n1 cur rows by auto
qed

theorem snapshot_exact_witness:
  "\<exists>v d'. outputSnapshot demo_env demo_terminal 0 (terminal_db\<lparr>terminals := [demo_terminal\<lparr>te_output_sequence := 1\<rparr>],
       terminal_output := [\<lparr> to_terminal = ''v'', to_sequence = 1, to_bytes = ''ls'', to_created_at = 1000000 \<rparr>]\<rparr>) = Inr (v, d') \<and>
     map fst (sn_chunks v) = [1] \<and> sn_cursor v = 1"
proof -
  let ?d = "terminal_db\<lparr>terminals := [demo_terminal\<lparr>te_output_sequence := 1\<rparr>],
       terminal_output := [\<lparr> to_terminal = ''v'', to_sequence = 1, to_bytes = ''ls'', to_created_at = 1000000 \<rparr>]\<rparr>"
  have "case outputSnapshot demo_env demo_terminal 0 ?d of Inl _ \<Rightarrow> False
      | Inr (v, d') \<Rightarrow> sn_latest v = 1 \<and> sn_floor v = 0" by code_simp
  then obtain v d' where v: "outputSnapshot demo_env demo_terminal 0 ?d = Inr (v, d')" "sn_latest v = 1" "sn_floor v = 0"
    by (auto split: sum.splits)
  have "window_ok (te_id demo_terminal) ?d"
    by (auto simp: window_ok_def row_at_def head_of_def floor_of_def terminal_find_def demo_defs)
  from snapshot_exact [OF v(1) this] v show ?thesis by auto
qed

end
