(* ===== verification/Terminal_Control.thy ===== *)
theory Terminal_Control
  imports Terminal_Events Terminal_Stream
begin

text \<open>
  Who may write to a terminal, and how often a frame of input reaches the process. \<open>mark\<close> is
  the terminal's generation, controller epoch and last accepted sequence number; no event lowers
  it, a row of input never goes back to an earlier state, and a new row is always above the mark
  (\<open>follows\<close>). The properties are about any two moments of any run of events.
\<close>

section \<open>Rows of input and the mark\<close>

definition row_key :: "terminal_input_row \<Rightarrow> nat \<times> nat" where
  "row_key r = (ti_epoch r, ti_sequence r)"

definition inputs :: "uuid \<Rightarrow> db \<Rightarrow> terminal_input_row list" where
  "inputs i d = filter (\<lambda>r. ti_terminal r = i) (terminal_input d)"

definition control_key :: "terminal_row \<Rightarrow> nat \<times> nat \<times> nat" where
  "control_key t = (te_generation t, te_controller_epoch t, te_input_sequence t)"

text \<open>The key with the controller that holds it.\<close>

definition standing :: "terminal_row \<Rightarrow> (nat \<times> nat \<times> nat) \<times> string option \<times> uuid option" where
  "standing t = (control_key t, te_controller_actor t, te_controller_id t)"

definition same_holder :: "terminal_row \<Rightarrow> terminal_row \<Rightarrow> bool" where
  "same_holder t t' \<longleftrightarrow> (te_generation t', te_controller_epoch t') = (te_generation t, te_controller_epoch t) \<longrightarrow>
     te_controller_actor t' = te_controller_actor t \<and> te_controller_id t' = te_controller_id t"

definition sent_by :: "terminal_row \<Rightarrow> terminal_input_row \<Rightarrow> bool" where
  "sent_by t r \<longleftrightarrow> te_controller_actor t = Some (ti_actor r) \<and> te_controller_id t = Some (ti_controller_id r)"

definition mark :: "uuid \<Rightarrow> db \<Rightarrow> nat \<times> nat \<times> nat" where
  "mark i d = (case terminal_find i d of
     None \<Rightarrow> (Suc (runtime_generation_seq d), 0, 0) | Some t \<Rightarrow> control_key t)"

fun rank :: "input_state \<Rightarrow> nat" where
  "rank InAccepted = 0"
| "rank InDispatching = 1"
| "rank _ = 2"

definition row_follows :: "terminal_input_row \<Rightarrow> terminal_input_row \<Rightarrow> bool" where
  "row_follows r r' \<longleftrightarrow> input_key r' = input_key r \<and> ti_actor r' = ti_actor r \<and>
     ti_controller_id r' = ti_controller_id r \<and> ti_hash r' = ti_hash r \<and> rank (ti_state r) \<le> rank (ti_state r') \<and>
     (ti_bytes r' = ti_bytes r \<and> (rank (ti_state r') = 2 \<longrightarrow> rank (ti_state r) = 2) \<or> ti_bytes r' = None)"

lemma row_follows_refl [simp]: "row_follows r r"
  by (simp add: row_follows_def)

lemma row_kept: "r \<in> set rs \<Longrightarrow> \<exists>x \<in> set rs. row_follows x r"
  by (rule bexI [where x = r]) simp_all

lemma row_follows_trans: "row_follows r s \<Longrightarrow> row_follows s t \<Longrightarrow> row_follows r t"
  by (auto simp: row_follows_def)

lemma row_followsD: "row_follows r r' \<Longrightarrow> row_key r' = row_key r \<and> ti_terminal r' = ti_terminal r"
  by (simp add: row_follows_def row_key_def input_key_def)

definition follows :: "uuid \<Rightarrow> db \<Rightarrow> db \<Rightarrow> bool" where
  "follows i d d' \<longleftrightarrow> mark i d \<le> mark i d' \<and>
     (\<forall>r' \<in> set (inputs i d'). mark i d < (fst (mark i d'), row_key r') \<or>
       (fst (mark i d') = fst (mark i d) \<and> (\<exists>r \<in> set (inputs i d). row_follows r r'))) \<and>
     (\<forall>t. terminal_find i d = Some t \<longrightarrow> (case terminal_find i d' of
        None \<Rightarrow> fst (mark i d) < fst (mark i d') | Some t' \<Rightarrow> same_holder t t'))"

definition inputs_ok :: "uuid \<Rightarrow> db \<Rightarrow> bool" where
  "inputs_ok i d \<longleftrightarrow> distinct (map row_key (inputs i d)) \<and>
     (case terminal_find i d of
        None \<Rightarrow> inputs i d = []
      | Some t \<Rightarrow> te_generation t \<le> runtime_generation_seq d \<and>
          (\<forall>r \<in> set (inputs i d). row_key r \<le> snd (control_key t) \<and>
             (ti_epoch r = te_controller_epoch t \<longrightarrow> sent_by t r)))"

lemma followsD:
  assumes "follows i d d'"
  shows "mark i d \<le> mark i d'"
    and "r' \<in> set (inputs i d') \<Longrightarrow> mark i d < (fst (mark i d'), row_key r') \<or>
       (fst (mark i d') = fst (mark i d) \<and> (\<exists>r \<in> set (inputs i d). row_follows r r'))"
    and "terminal_find i d = Some t \<Longrightarrow> terminal_find i d' = Some t' \<Longrightarrow> same_holder t t'"
    and "terminal_find i d = Some t \<Longrightarrow> terminal_find i d' = None \<Longrightarrow> fst (mark i d) < fst (mark i d')"
  using assms by (auto simp: follows_def)

lemma same_holder_refl [simp]: "same_holder t t"
  by (simp add: same_holder_def)

lemma follows_refl: "follows i d d"
  by (auto simp: follows_def intro: row_kept split: option.split)

lemma fst_mono: "(m :: nat \<times> nat \<times> nat) \<le> n \<Longrightarrow> fst m \<le> fst n"
  by (auto simp: less_eq_prod_def)

lemma follows_trans:
  assumes "follows i d d1" and "follows i d1 d2"
  shows "follows i d d2"
  unfolding follows_def
proof (intro conjI ballI allI impI)
  note A = followsD [OF assms(1)] and B = followsD [OF assms(2)]
  show "mark i d \<le> mark i d2" using A(1) B(1) by (rule order_trans)
  show "mark i d < (fst (mark i d2), row_key r2) \<or>
      (fst (mark i d2) = fst (mark i d) \<and> (\<exists>r \<in> set (inputs i d). row_follows r r2))"
    if r2: "r2 \<in> set (inputs i d2)" for r2
  proof (cases "mark i d1 < (fst (mark i d2), row_key r2)")
    case True
    then show ?thesis using le_less_trans [OF A(1)] by blast
  next
    case False
    then obtain r1 where e: "fst (mark i d2) = fst (mark i d1)" and r1: "r1 \<in> set (inputs i d1)" "row_follows r1 r2"
      using B(2) [OF r2] by blast
    have k: "row_key r2 = row_key r1" using row_followsD [OF r1(2)] by simp
    from A(2) [OF r1(1)] consider "mark i d < (fst (mark i d1), row_key r1)"
      | r where "fst (mark i d1) = fst (mark i d)" "r \<in> set (inputs i d)" "row_follows r r1" by blast
    then show ?thesis using e k r1(2) row_follows_trans by cases auto
  qed
  fix t assume t: "terminal_find i d = Some t"
  show "case terminal_find i d2 of None \<Rightarrow> fst (mark i d) < fst (mark i d2) | Some t' \<Rightarrow> same_holder t t'"
  proof (cases "terminal_find i d1")
    case None
    then have "fst (mark i d) < fst (mark i d2)" using A(4) [OF t] fst_mono [OF B(1)] by simp
    then show ?thesis by (auto simp: mark_def t control_key_def same_holder_def split: option.split)
  next
    case (Some t1)
    have "fst (mark i d) \<le> fst (mark i d1)" by (rule fst_mono [OF A(1)])
    moreover have "same_holder t t2" if t2: "terminal_find i d2 = Some t2" for t2
    proof -
      have m: "mark i d \<le> mark i d1" "mark i d1 \<le> mark i d2" "same_holder t t1" "same_holder t1 t2"
        using A(1,3) B(1,3) t Some t2 by blast+
      show ?thesis using m by (auto simp: same_holder_def mark_def t t2 Some control_key_def less_eq_prod_def less_prod_def split: if_splits)
    qed
    ultimately show ?thesis using B(4) [OF Some] by (auto split: option.split)
  qed
qed

text \<open>What every event is shown to do; a pure preorder, so that statements compose.\<close>

definition goes :: "uuid \<Rightarrow> db \<Rightarrow> db \<Rightarrow> bool" where
  "goes i d d' \<longleftrightarrow> (inputs_ok i d \<longrightarrow> inputs_ok i d' \<and> follows i d d')"

lemma goes_refl [simp]: "goes i d d"
  by (simp add: goes_def follows_refl)

lemma goes_trans: "goes i d d1 \<Longrightarrow> goes i d1 d2 \<Longrightarrow> goes i d d2"
  by (auto simp: goes_def intro: follows_trans)

section \<open>Statements that only settle input\<close>

definition rows_settle :: "terminal_input_row list \<Rightarrow> terminal_input_row list \<Rightarrow> bool" where
  "rows_settle xs ys \<longleftrightarrow> (\<exists>P f. ys = map f (filter P xs) \<and> (\<forall>r. row_follows r (f r)))"

definition settles :: "uuid \<Rightarrow> db \<Rightarrow> db \<Rightarrow> bool" where
  "settles i d d' \<longleftrightarrow> runtime_generation_seq d \<le> runtime_generation_seq d' \<and>
     map_option standing (terminal_find i d') = map_option standing (terminal_find i d) \<and>
     rows_settle (inputs i d) (inputs i d')"

lemma rows_settle_filter: "rows_settle xs (filter P xs)"
  unfolding rows_settle_def by (intro exI [of _ P] exI [of _ "\<lambda>r. r"]) simp

lemma rows_settle_map: "(\<And>r. row_follows r (f r)) \<Longrightarrow> rows_settle xs (map f xs)"
  unfolding rows_settle_def by (intro exI [of _ "\<lambda>r. True"] exI [of _ f]) simp

lemma rows_settle_refl [simp]: "rows_settle xs xs"
  using rows_settle_filter [of xs "\<lambda>r. True"] by simp

lemma rows_settle_trans:
  assumes "rows_settle xs ys" and "rows_settle ys zs"
  shows "rows_settle xs zs"
proof -
  obtain P f where 1: "ys = map f (filter P xs)" "\<And>r. row_follows r (f r)"
    using assms(1) unfolding rows_settle_def by blast
  obtain Q g where 2: "zs = map g (filter Q ys)" "\<And>r. row_follows r (g r)"
    using assms(2) unfolding rows_settle_def by blast
  have "zs = map (g \<circ> f) (filter (\<lambda>r. P r \<and> Q (f r)) xs)"
    by (simp add: 1(1) 2(1) filter_map comp_def conj_commute)
  moreover have "row_follows r ((g \<circ> f) r)" for r using row_follows_trans [OF 1(2) 2(2)] by simp
  ultimately show ?thesis unfolding rows_settle_def by blast
qed

lemma settles_refl [simp]: "settles i d d"
  by (simp add: settles_def)

lemma settles_trans: "settles i d d1 \<Longrightarrow> settles i d1 d2 \<Longrightarrow> settles i d d2"
  by (auto simp: settles_def intro: rows_settle_trans)

lemma standingD:
  "standing t' = standing t \<Longrightarrow> control_key t' = control_key t \<and> te_generation t' = te_generation t \<and>
     te_controller_epoch t' = te_controller_epoch t \<and> same_holder t t' \<and> sent_by t' = sent_by t"
  by (auto simp: standing_def same_holder_def sent_by_def control_key_def fun_eq_iff)

lemma settles_goes:
  assumes "settles i d d'"
  shows "goes i d d'"
  unfolding goes_def
proof (intro impI conjI)
  assume ok: "inputs_ok i d"
  obtain P f where f: "inputs i d' = map f (filter P (inputs i d))" "\<And>r. row_follows r (f r)"
    and s: "runtime_generation_seq d \<le> runtime_generation_seq d'"
      "map_option standing (terminal_find i d') = map_option standing (terminal_find i d)"
    using assms unfolding settles_def rows_settle_def by blast
  have k: "row_key (f r) = row_key r" "ti_epoch (f r) = ti_epoch r" "sent_by t (f r) = sent_by t r" for r t
    using row_followsD [OF f(2) [of r]] f(2) [of r] by (auto simp: row_follows_def sent_by_def row_key_def)
  have dis: "distinct (map row_key (inputs i d'))" using ok
    by (auto simp: f(1) comp_def k inputs_ok_def intro: distinct_map_filter)
  show "follows i d d'"
  proof (cases "terminal_find i d")
    case None
    then have "inputs i d' = []" using ok f(1) by (simp add: inputs_ok_def)
    then show ?thesis using None s by (auto simp: follows_def mark_def less_eq_prod_simp)
  next
    case (Some t)
    then obtain t' where t': "terminal_find i d' = Some t'" "standing t' = standing t" using s(2) by auto
    note h = standingD [OF t'(2)]
    show ?thesis using f h by (auto simp: follows_def mark_def Some t'(1))
  qed
  show "inputs_ok i d'"
  proof (cases "terminal_find i d")
    case None
    then show ?thesis using ok f(1) s(2) by (simp add: inputs_ok_def)
  next
    case (Some t)
    then obtain t' where t': "terminal_find i d' = Some t'" "standing t' = standing t" using s(2) by auto
    note h = standingD [OF t'(2)]
    show ?thesis using ok dis s(1) h by (auto simp: inputs_ok_def Some t'(1) f(1) k)
  qed
qed

lemma settles_update:
  assumes "\<And>t. te_id (f t) = te_id t" and "\<And>t. standing (f t) = standing t"
  shows "settles i d (d\<lparr>terminals := update_where P f (terminals d)\<rparr>)"
proof -
  let ?d = "d\<lparr>terminals := update_where P f (terminals d)\<rparr>"
  have "terminal_find i ?d = map_option (\<lambda>t. if P t then f t else t) (terminal_find i d)"
    using assms(1) by (simp add: terminal_find_def find_update_where_key)
  then have "map_option standing (terminal_find i ?d) = map_option standing (terminal_find i d)"
    using assms(2) by (cases "terminal_find i d") auto
  moreover have "inputs i ?d = inputs i d" by (simp add: inputs_def)
  ultimately show ?thesis by (simp add: settles_def)
qed

lemma settles_update_terminal:
  assumes "\<And>t. te_id (f t) = te_id t" and "\<And>t. standing (f t) = standing t"
  shows "settles i d (update_terminal j f d)"
  unfolding update_terminal_def by (rule settles_update) (use assms in auto)

lemma settles_fields:
  assumes "terminals d' = terminals d" "terminal_input d' = terminal_input d"
    "runtime_generation_seq d' = runtime_generation_seq d"
  shows "settles i d d'"
proof -
  have "inputs i d' = inputs i d" "terminal_find i d' = terminal_find i d"
    using assms by (simp_all add: inputs_def terminal_find_def)
  then show ?thesis using assms(3) by (simp add: settles_def)
qed

lemma settles_input:
  assumes "\<And>r. P r \<Longrightarrow> row_follows r (f r)"
  shows "settles i d (d\<lparr>terminal_input := update_where P f (terminal_input d)\<rparr>)"
proof -
  let ?f = "\<lambda>r. if P r then f r else r"
  have w: "row_follows r (?f r)" for r using assms by simp
  have "ti_terminal (?f r) = ti_terminal r" for r using row_followsD [OF w] by simp
  then have "filter (\<lambda>r. ti_terminal r = i) (map ?f rs) = map ?f (filter (\<lambda>r. ti_terminal r = i) rs)" for rs
    by (induction rs) simp_all
  then have "inputs i (d\<lparr>terminal_input := update_where P f (terminal_input d)\<rparr>) = map ?f (inputs i d)"
    by (simp add: inputs_def update_where_def)
  then show ?thesis using rows_settle_map [OF w] by (simp add: settles_def terminal_find_def)
qed

lemma settles_prune: "settles i d (pruneInput j d)"
proof -
  have c: "filter (\<lambda>r. ti_terminal r = i) (delete_where Q rs) = filter (\<lambda>r. \<not> Q r) (filter (\<lambda>r. ti_terminal r = i) rs)" for Q rs
    by (induction rs) simp_all
  have "rows_settle (inputs i d) (inputs i (d\<lparr>terminal_input := delete_where Q (terminal_input d)\<rparr>))" for Q
    by (simp add: inputs_def c rows_settle_filter del: filter_filter)
  then show ?thesis by (simp add: settles_def pruneInput_def terminal_find_def)
qed

section \<open>The statements of the supervisor\<close>

lemma input_key_update [simp]: "input_key (r\<lparr>ti_state := s\<rparr>) = input_key r"
  "input_key (r\<lparr>ti_state := s, ti_bytes := b, ti_failure_code := c\<rparr>) = input_key r"
  by (simp_all add: input_key_def)

lemma open_follows:
  "input_open r \<Longrightarrow> s \<in> {InDelivered, InDenied, InUncertain} \<Longrightarrow> row_follows r (r\<lparr>ti_state := s, ti_bytes := None, ti_failure_code := c\<rparr>)"
  by (auto simp: row_follows_def input_open_def)

lemma repaired_settled: "repaired s \<in> {InDelivered, InDenied, InUncertain}"
  by (cases s) simp_all

lemma settles_repair: "settles i d (settle_input j p d)"
proof -
  let ?P = "\<lambda>r. ti_terminal r = j \<and> ti_epoch r = rp_epoch p \<and> ti_sequence r = rp_sequence p \<and> input_open r"
  let ?f = "\<lambda>r. r\<lparr>ti_state := repaired (rp_state p), ti_bytes := None, ti_failure_code := rp_failure p\<rparr>"
  let ?d1 = "d\<lparr>terminal_input := update_where ?P ?f (terminal_input d)\<rparr>"
  have a: "settles i d ?d1" by (rule settles_input) (simp add: open_follows repaired_settled del: insert_iff)
  have b: "settles i ?d1 (update_terminal j (\<lambda>t. t\<lparr>te_input_uncertain := True, te_controller_until := None\<rparr>) ?d1)"
    by (rule settles_update_terminal) (simp_all add: standing_def control_key_def)
  show ?thesis unfolding settle_input_def Let_def using a settles_trans [OF a b] by presburger
qed

lemma settles_repairs: "settles i d (fold (settle_input j) ps d)"
  by (induction ps arbitrary: d) (auto intro: settles_trans settles_repair)

lemma settles_exit: "settles i d (save_exit j x d)"
  by (cases x) (auto simp: save_exit_def standing_def control_key_def intro!: settles_update)

lemma settles_prune_output: "settles i d (pruneOutput e j d)"
proof -
  have a: "settles i d (d\<lparr>terminal_output := x\<rparr>)" for x by (rule settles_fields) simp_all
  have b: "settles i d1 (update_terminal j (\<lambda>t. t\<lparr>te_output_floor := n t\<rparr>) d1)" for d1 n
    by (rule settles_update_terminal) (simp_all add: standing_def control_key_def)
  show ?thesis unfolding pruneOutput_def Let_def using a settles_trans [OF a b] by presburger
qed

lemma settles_save: "settles i d (save_output j f high d)"
proof -
  have a: "settles i d (update_terminal j (\<lambda>t. t\<lparr> te_output_sequence := high, te_output_floor := x t, te_output_lost := y t \<rparr>) d)" for x y
    by (rule settles_update_terminal) (simp_all add: standing_def control_key_def)
  have b: "settles i d1 (d1\<lparr>terminal_output := x\<rparr>)" for d1 x by (rule settles_fields) simp_all
  show ?thesis unfolding save_output_def Let_def using a settles_trans [OF a b] by presburger
qed

lemma settles_inserts: "insert_outputs e j high cs d = Inr d' \<Longrightarrow> settles i d d'"
proof (induction cs arbitrary: d)
  case (Cons c cs)
  then obtain d1 where d1: "(if fst c > high then insert_output e j c d else Inr d) = Inr d1"
    and rest: "insert_outputs e j high cs d1 = Inr d'" by (auto simp: res_simps)
  have "settles i d d1" using d1 by (auto simp: insert_output_def split: if_splits intro: settles_fields)
  then show ?case using Cons.IH [OF rest] by (rule settles_trans)
qed simp

lemma flush_commit_settles:
  assumes "flush_commit e j gen f d = Inr d'"
  shows "settles i d d'"
proof -
  from assms obtain t :: terminal_row and d1 high where
    ins: "insert_outputs e j (te_output_sequence t) (fl_chunks f) d = Inr d1"
    and d': "d' = pruneOutput e j (pruneInput j (save_exit j (fl_exit_code f) (fold (settle_input j) (fl_repairs f)
        (save_output j f high d1))))"
    unfolding flush_commit_def Let_def by (auto simp: res_simps)
  show ?thesis unfolding d'
    by (rule settles_trans [OF settles_inserts [OF ins] settles_trans [OF settles_save settles_trans [OF settles_repairs
        settles_trans [OF settles_exit settles_trans [OF settles_prune settles_prune_output]]]]])
qed

lemma update_workspaces_settles: "update_workspaces P f d = Inr d' \<Longrightarrow> settles i d d'"
  using update_workspaces_seq [of P f d d']
  by (auto simp: update_workspaces_def res_simps settles_def inputs_def terminal_find_def)

lemma settle_retired_settles: "settles i d (settle_retired o' j d)"
proof -
  have a: "settles i d (d\<lparr>terminal_input := update_where (\<lambda>r. ti_terminal r = j \<and> input_open r)
      (\<lambda>r. r\<lparr> ti_state := (if ti_state r = InDispatching \<or> o' then InUncertain else InDenied),
               ti_bytes := None, ti_failure_code := c \<rparr>) (terminal_input d)\<rparr>)" for c
    by (rule settles_input) (auto simp: row_follows_def input_open_def)
  have b: "settles i d1 (update_terminal j (\<lambda>t. t\<lparr> te_state := s t, te_retired := True, te_writer_epoch := None,
      te_controller_until := None, te_input_uncertain := u t \<rparr>) d1)" for d1 s u
    by (rule settles_update_terminal) (simp_all add: standing_def control_key_def)
  show ?thesis unfolding settle_retired_def Let_def
    by (rule settles_trans [OF settles_trans [OF a b] settles_prune])
qed

lemma retire_commit_settles:
  assumes "retire_commit p t d = Inr d'"
  shows "settles i d d'"
proof -
  from assms obtain fresh :: terminal_row and w d1 b where r: "release_terminal fresh w d = Inr d1"
    and d': "d' = settle_retired b (te_id t) d1"
    unfolding retire_commit_def by (auto simp: res_simps)
  have "settles i d d1" using r unfolding release_terminal_def
    by (auto simp: res_simps split: option.splits intro: update_workspaces_settles)
  then show ?thesis unfolding d' by (rule settles_trans [OF _ settle_retired_settles])
qed

lemma wire_settles:
  assumes "wire e c r g d = Inr d'"
  shows "settles i d d'"
proof -
  from assms obtain t where "wire_action e t g d = Inr d'" unfolding wire_def by (auto simp: res_simps)
  then show ?thesis unfolding wire_action_def Let_def
    by (auto simp: res_simps split: if_splits intro!: settles_input) (simp add: row_follows_def)
qed

lemma claim_settles:
  assumes "claim_terminal e c t d = Inr (b, d')"
  shows "settles i d d'"
proof -
  from assms have "d' = d \<or> (\<exists>sel. claim_workspace t sel d = Inr (b, d'))"
    unfolding claim_terminal_def by (auto simp: res_simps split: if_splits)
  then consider "d' = d" | w p where "claim_workspace t (w, p) d = Inr (b, d')" by auto
  then show ?thesis
  proof cases
    case 2
    then have "d' = d \<or> (\<exists>P f d1 n. update_workspaces P f d = Inr d1 \<and>
        d' = update_terminal (te_id t) (\<lambda>x. x\<lparr>te_state := TermDispatching, te_writer_epoch := n\<rparr>) d1)"
      unfolding claim_workspace_def by (auto simp: res_simps split: if_splits)
    moreover have "settles i d1 (update_terminal (te_id t) (\<lambda>x. x\<lparr>te_state := TermDispatching, te_writer_epoch := n\<rparr>) d1)" for d1 n
      by (rule settles_update_terminal) (simp_all add: standing_def control_key_def)
    ultimately show ?thesis using update_workspaces_settles settles_trans by fastforce
  qed simp
qed

lemma supervisor_settles:
  "settles i d (starting_reset d)" "settles i d (orphan_dispatch j d)" "settles i d (stop_terminal j c d)"
  "settles i d (launched r d)" "settles i d (resize_done t d)" "settles i d (retire_failed j d)"
  "settles i d (refuse_terminal t c d)"
  by (auto simp: starting_reset_def orphan_dispatch_def stop_terminal_def launched_def resize_done_def
      retire_failed_def refuse_terminal_def standing_def control_key_def intro!: settles_update)

lemma maintain_settles: "maintain_output e j d = Inr d' \<Longrightarrow> settles i d d'"
  by (auto simp: maintain_output_def res_simps intro: settles_prune_output)

section \<open>Requests\<close>

lemma control_settles: "controlRate e j d = Inr d' \<Longrightarrow> settles i d d'"
  by (auto simp: controlRate_def standing_def control_key_def split: if_splits intro!: settles_update)

lemma resize_settles:
  assumes "resize e t a b d = Inr d'"
  shows "settles i d d'"
proof -
  let ?f = "\<lambda>x. x\<lparr> te_resize_sequence := fz_sequence b, te_resize_cols := fz_cols b,
         te_resize_rows := fz_rows b, te_resize_pending := True, te_resize_count := te_resize_count x + 1 \<rparr>"
  let ?d1 = "update_terminal (te_id t) (resize_rate e) d"
  have "d' = d \<or> d' = update_terminal (te_id t) ?f ?d1"
    using assms unfolding resize_def Let_def by (auto simp: res_simps split: if_splits)
  moreover have a: "settles i d ?d1" by (rule settles_update_terminal) (simp_all add: resize_rate_def Let_def standing_def control_key_def)
  moreover have b: "settles i ?d1 (update_terminal (te_id t) ?f ?d1)" by (rule settles_update_terminal) (simp_all add: standing_def control_key_def)
  ultimately show ?thesis using settles_trans [OF a b] settles_refl by (elim disjE) simp_all
qed

lemma heartbeat_settles: "heartbeat e t a b d = Inr d' \<Longrightarrow> settles i d d'"
  by (auto simp: heartbeat_def res_simps standing_def control_key_def intro!: settles_update)

lemma terminate_settles:
  assumes "terminate_terminal e j a g d = Inr (v, d')"
  shows "settles i d d'"
proof -
  from assms have "d' = d \<or> (\<exists>(t :: terminal_row) d1. controlRate e (te_id t) d = Inr d1 \<and> d' = update_terminal (te_id t) ended d1)"
    unfolding terminate_terminal_def Let_def by (auto simp: res_simps split: if_splits)
  then consider "d' = d"
    | t :: terminal_row and d1 where "controlRate e (te_id t) d = Inr d1" "d' = update_terminal (te_id t) ended d1" by blast
  then show ?thesis
  proof cases
    case (2 t d1)
    have "settles i d1 (update_terminal (te_id t) ended d1)"
      by (rule settles_update_terminal) (simp_all add: ended_def standing_def control_key_def)
    then show ?thesis by (simp add: 2 settles_trans [OF control_settles [OF 2(1)]])
  qed simp
qed

text \<open>Raising a terminal's mark, without and with a new row.\<close>

lemma update_terminal_fields:
  "terminal_input (update_terminal j f d) = terminal_input d"
  "runtime_generation_seq (update_terminal j f d) = runtime_generation_seq d"
  by (simp_all add: update_terminal_def)

lemma update_terminal_other: "j \<noteq> i \<Longrightarrow> (\<And>t. te_id (f t) = te_id t) \<Longrightarrow> settles i d (update_terminal j f d)"
  by (cases "terminal_find i d")
    (auto simp: settles_def update_terminal_find inputs_def update_terminal_fields dest: terminal_find_id)

lemma raise_goes:
  assumes "terminal_find i d = Some t" and f: "\<And>t. te_id (f t) = te_id t"
    and g: "te_generation (f t) = te_generation t" and e: "te_controller_epoch t < te_controller_epoch (f t)"
  shows "goes i d (update_terminal i f d)"
  unfolding goes_def
proof (intro impI conjI)
  assume ok: "inputs_ok i d"
  have t: "te_id t = i" by (rule terminal_find_id [OF assms(1)])
  have f': "terminal_find i (update_terminal i f d) = Some (f t)"
    using assms(1) f by (simp add: update_terminal_find t)
  have r: "inputs i (update_terminal i f d) = inputs i d" by (simp add: inputs_def update_terminal_def)
  have h: "same_holder t (f t)" using e by (simp add: same_holder_def)
  show "follows i d (update_terminal i f d)" using g e h
    by (auto simp: follows_def mark_def assms(1) f' r control_key_def less_eq_prod_simp intro: row_kept)
  have "ti_epoch x < te_controller_epoch (f t)" if "x \<in> set (inputs i d)" for x
    using ok that e by (auto simp: inputs_ok_def assms(1) row_key_def control_key_def less_eq_prod_simp)
  then show "inputs_ok i (update_terminal i f d)" using ok g e
    by (force simp: inputs_ok_def assms(1) f' r row_key_def control_key_def less_eq_prod_simp update_terminal_fields)
qed

lemma insert_goes:
  assumes "terminal_find i d = Some t" and f: "\<And>t. te_id (f t) = te_id t"
    and g: "te_generation (f t) = te_generation t" "te_controller_epoch (f t) = te_controller_epoch t" "same_holder t (f t)"
    and k: "te_input_sequence t < te_input_sequence (f t)" "row_key r = (te_controller_epoch t, te_input_sequence (f t))"
    and r: "ti_terminal r = i" "sent_by t r"
    and ins: "insert_input r (update_terminal i f d) = Inr d'"
  shows "goes i d d'"
  unfolding goes_def
proof (intro impI conjI)
  assume ok: "inputs_ok i d"
  have t: "te_id t = i" by (rule terminal_find_id [OF assms(1)])
  have f': "terminal_find i d' = Some (f t)"
    using assms(1) f ins by (auto simp: insert_input_def terminal_find_def update_terminal_def find_update_where_key t split: if_splits)
  have rs: "inputs i d' = inputs i d @ [r]" and s: "runtime_generation_seq d' = runtime_generation_seq d"
    using ins r by (auto simp: insert_input_def inputs_def update_terminal_def split: if_splits)
  have le: "x \<in> set (inputs i d) \<Longrightarrow> row_key x \<le> snd (control_key t)" for x using ok assms(1) by (auto simp: inputs_ok_def)
  have m: "mark i d = (te_generation t, snd (control_key t))" "mark i d' = (te_generation t, snd (control_key (f t)))"
    using assms(1) g by (simp_all add: mark_def f' control_key_def)
  have lt: "snd (control_key t) < snd (control_key (f t))" "snd (control_key t) < row_key r" "row_key r \<le> snd (control_key (f t))"
    using g k by (simp_all add: control_key_def less_prod_simp)
  show "follows i d d'" unfolding follows_def m rs f' assms(1)
    using lt g(3) by (auto simp: less_prod_simp less_eq_prod_simp intro: row_kept)
  have sb: "sent_by (f t) = sent_by t" using g by (simp add: same_holder_def sent_by_def fun_eq_iff)
  have "row_key r \<notin> row_key ` set (inputs i d)" using le lt(2) by force
  then show "inputs_ok i d'" using ok le lt g(1,2) r(2) sb
    by (auto simp: inputs_ok_def assms(1) f' rs s intro: order_trans [OF _ less_imp_le])
qed

lemma acquire_goes:
  assumes "acquireControl e t a b c d = Inr (v, d')"
  shows "goes i d d'"
proof -
  from assms obtain d1 where c: "controlRate e (te_id t) d = Inr d1"
    and d': "d' = update_terminal (te_id t) (controlled_by e a c) d1"
    by (auto simp: acquireControl_def res_simps Let_def)
  have "goes i d1 d'"
  proof (cases "te_id t = i")
    case False
    then show ?thesis unfolding d'
      by (intro settles_goes update_terminal_other) (simp_all add: controlled_by_def)
  next
    case True
    show ?thesis
    proof (cases "terminal_find i d1")
      case None
      then have "\<forall>x \<in> set (terminals d1). te_id x \<noteq> i" by (simp add: terminal_find_def find_is_None)
      then have "d' = d1" unfolding d' update_terminal_def True by (simp add: update_where_none)
      then show ?thesis by simp
    next
      case (Some u)
      show ?thesis unfolding d' True
        by (rule raise_goes [OF Some]) (simp_all add: controlled_by_def control_key_def less_eq_prod_simp)
    qed
  qed
  then show ?thesis by (rule goes_trans [OF settles_goes [OF control_settles [OF c]]])
qed

lemma requireController_names:
  "requireController e d t a b = Inr () \<Longrightarrow> names_controller t a b \<and> te_state t = TermRunning \<and> controller_live e d (te_id t)"
  by (auto simp: requireController_def split: if_splits)

lemma admit_goes:
  assumes a: "admit_input e t a b x d = Inr (v, d')" and t: "terminal_find (te_id t) d = Some t"
    and n: "names_controller t a b" and sq: "te_input_sequence t < fi_sequence b"
  shows "goes i d d'"
proof -
  let ?f = "\<lambda>y. y\<lparr> te_input_sequence := fi_sequence b, te_input_bytes := te_input_bytes y + length x,
     te_input_frames := te_input_frames y + 1 \<rparr>"
  let ?d1 = "update_terminal (te_id t) (input_rate e) d"
  from a have ins: "insert_input (new_input e t a b x) (update_terminal (te_id t) ?f ?d1) = Inr d'"
    unfolding admit_input_def Let_def by (auto simp: res_simps)
  have r: "standing (input_rate e u) = standing u" "te_id (input_rate e u) = te_id u" for u
    by (simp_all add: input_rate_def Let_def standing_def control_key_def)
  have s1: "settles i d ?d1" by (rule settles_update_terminal) (simp_all add: r)
  have "goes i ?d1 d'"
  proof (cases "te_id t = i")
    case True
    have f1: "terminal_find i ?d1 = Some (input_rate e t)" using t by (simp add: update_terminal_find r True)
    have c: "te_controller_epoch (input_rate e t) = te_controller_epoch t"
      "te_input_sequence (input_rate e t) = te_input_sequence t" "sent_by (input_rate e t) = sent_by t"
      by (simp_all add: input_rate_def Let_def sent_by_def fun_eq_iff)
    show ?thesis
      by (rule insert_goes [where f = ?f and r = "new_input e t a b x", OF f1])
        (use ins n sq True in \<open>simp_all add: c row_key_def new_input_def names_controller_def same_holder_def sent_by_def\<close>)
  next
    case False
    have s2: "settles i ?d1 (update_terminal (te_id t) ?f ?d1)" using False by (rule update_terminal_other) simp
    have s3: "settles i (update_terminal (te_id t) ?f ?d1) d'"
      using ins False unfolding insert_input_def
      by (auto simp: settles_def inputs_def terminal_find_def new_input_def split: if_splits)
    show ?thesis by (rule settles_goes [OF settles_trans [OF s2 s3]])
  qed
  then show ?thesis by (rule goes_trans [OF settles_goes [OF s1]])
qed

lemma accept_goes:
  assumes a: "acceptInput e t a b d = Inr (v, d')" and t: "terminal_find (te_id t) d = Some t"
  shows "goes i d d'"
proof -
  from a have "d' = d \<or> (\<exists>x. requireController e d t a b = Inr () \<and> fi_sequence b = te_input_sequence t + 1 \<and>
      admit_input e t a b x d = Inr (v, d'))"
    unfolding acceptInput_def by (auto simp: res_simps split: if_splits)
  then show ?thesis
  proof (elim disjE exE conjE)
    fix x assume "requireController e d t a b = Inr ()" "fi_sequence b = te_input_sequence t + 1"
      "admit_input e t a b x d = Inr (v, d')"
    then show ?thesis using admit_goes [OF _ t] requireController_names [of e d t a b] by simp
  qed simp
qed

lemma create_goes:
  assumes "create_terminal e w a b j d = Inr (v, d')"
  shows "goes i d d'"
proof -
  let ?g = "Suc (runtime_generation_seq d)"
  from assms obtain ws where new: "\<forall>x \<in> set (terminals d). te_id x \<noteq> j"
    and d': "d' = d\<lparr>runtime_generation_seq := ?g, terminals := terminals d @ [new_terminal e j ws a b ?g]\<rparr>"
    unfolding create_terminal_def insert_terminal_def Let_def by (auto simp: res_simps new_terminal_def split: if_splits)
  let ?t = "new_terminal e j ws a b ?g"
  have f: "terminal_find i d' = (case terminal_find i d of None \<Rightarrow> if j = i then Some ?t else None | Some t \<Rightarrow> Some t)"
    unfolding d' by (auto simp: terminal_find_def new_terminal_def split: option.split)
  have r: "inputs i d' = inputs i d" "runtime_generation_seq d' = ?g" unfolding d' by (simp_all add: inputs_def)
  have k: "control_key (new_terminal e x ws a b ?g) = (?g, 0, 0)" for x by (simp add: new_terminal_def control_key_def)
  show ?thesis unfolding goes_def
  proof (intro impI conjI)
    assume ok: "inputs_ok i d"
    show "inputs_ok i d'" using ok new by (auto simp: inputs_ok_def f r k new_terminal_def split: option.splits)
    have "inputs i d = [] \<or> terminal_find i d \<noteq> None" using ok by (auto simp: inputs_ok_def split: option.splits)
    then show "follows i d d'"
      by (auto simp: follows_def mark_def f r k less_eq_prod_simp intro: row_kept split: option.split)
  qed
qed

lemma drop_goes: "goes i d (drop_terminal j d)"
proof (cases "j = i")
  case True
  have e: "inputs i (drop_terminal j d) = []" "terminal_find i (drop_terminal j d) = None"
    by (auto simp: inputs_def drop_terminal_def terminal_find_def True find_is_None filter_empty_conv table_simps)
  have s: "runtime_generation_seq (drop_terminal j d) = runtime_generation_seq d" by (simp add: drop_terminal_def)
  show ?thesis
    by (auto simp: goes_def inputs_ok_def follows_def e s mark_def control_key_def less_eq_prod_simp split: option.splits)
next
  case False
  have f: "find (\<lambda>t. te_id t = i) (delete_where (\<lambda>t. te_id t = j) ts) = find (\<lambda>t. te_id t = i) ts" for ts
    using False by (induction ts) auto
  have r: "filter (\<lambda>r. ti_terminal r = i) (delete_where (\<lambda>r. ti_terminal r = j) rs) = filter (\<lambda>r. ti_terminal r = i) rs" for rs
    using False by (induction rs) auto
  show ?thesis by (rule settles_goes) (simp add: settles_def inputs_def terminal_find_def drop_terminal_def f r)
qed

lemma remove_goes:
  assumes "remove_terminal e j a d = Inr d'"
  shows "goes i d d'"
proof -
  from assms obtain t :: terminal_row and d1 where c: "controlRate e (te_id t) d = Inr d1" and d': "d' = drop_terminal (te_id t) d1"
    unfolding remove_terminal_def by (auto simp: res_simps)
  show ?thesis unfolding d' by (rule goes_trans [OF settles_goes [OF control_settles [OF c]] drop_goes])
qed

section \<open>Every event\<close>

text \<open>
  An event either only settles input, or it is one of four requests.
\<close>

definition control_request_done :: "db \<Rightarrow> db \<Rightarrow> bool" where
  "control_request_done d d' \<longleftrightarrow>
     (\<exists>e t a b c v. acquireControl e t a b c d = Inr (v, d')) \<or>
     (\<exists>e t a b v. terminal_find (te_id t) d = Some t \<and> acceptInput e t a b d = Inr (v, d')) \<or>
     (\<exists>e w a b j v. create_terminal e w a b j d = Inr (v, d')) \<or>
     (\<exists>e j a. remove_terminal e j a d = Inr d')"

lemma terminal_op_kinds:
  assumes op: "terminal_op (e, a, x) d = Inr d'"
  shows "settles i d d' \<or> control_request_done d d'"
proof (cases x)
  case (ReadOutput j cursor)
  then obtain u v where "outputSnapshot e u cursor d = Inr (v, d')" using op by (auto simp: terminal_output_get_def res_simps)
  then have "d' = pruneOutput e (te_id u) d" by (auto dest: snapshot_db)
  then show ?thesis using settles_prune_output by simp
next
  case (CreateTerminal w b j)
  then obtain v where "create_terminal e w a b j d = Inr (v, d')" using op by (auto simp: res_simps)
  then show ?thesis unfolding control_request_done_def by blast
next
  case (TakeControl j b c)
  then obtain v u where "acquireControl e u a b c d = Inr (v, d')" using op by (auto simp: res_simps)
  then show ?thesis unfolding control_request_done_def by blast
next
  case (SendInput j b)
  then obtain v u name where l: "lockedTerminal e d j a TerminalControl = Inr (u, name)"
    and s: "acceptInput e u a b d = Inr (v, d')" using op by (auto simp: res_simps)
  have "terminal_find (te_id u) d = Some u" using lockedTerminal_find [OF l] terminal_find_id by metis
  then show ?thesis using s unfolding control_request_done_def by blast
next
  case (ResizeTerminal j b)
  then obtain u where "resize e u a b d = Inr d'" using op by (auto simp: res_simps)
  then show ?thesis using resize_settles by blast
next
  case (Heartbeat j b)
  then obtain u where "heartbeat e u a b d = Inr d'" using op by (auto simp: res_simps)
  then show ?thesis using heartbeat_settles by blast
next
  case (TerminateTerminal j g)
  then obtain v where "terminate_terminal e j a g d = Inr (v, d')" using op by (auto simp: res_simps)
  then show ?thesis using terminate_settles by blast
next
  case (RemoveTerminal j)
  then have "remove_terminal e j a d = Inr d'" using op by simp
  then show ?thesis unfolding control_request_done_def by blast
qed

lemma happen_kinds:
  assumes "happen x d = Inr d'"
  shows "settles i d d' \<or> control_request_done d d'"
proof (cases x)
  case (Request e a y)
  then show ?thesis using assms terminal_op_kinds by simp
next
  case (Claim e c t)
  then obtain b where "claim_terminal e c t d = Inr (b, d')" using assms by (auto simp: res_simps)
  then show ?thesis using claim_settles by blast
qed (use assms in \<open>auto intro!: supervisor_settles
    dest: wire_settles flush_commit_settles retire_commit_settles maintain_settles\<close>)

lemma happen_goes:
  assumes "happen x d = Inr d'"
  shows "goes i d d'"
  using happen_kinds [OF assms, of i]
proof
  assume "control_request_done d d'"
  then show ?thesis unfolding control_request_done_def
    by (elim disjE exE conjE) (auto intro: acquire_goes accept_goes create_goes remove_goes)
qed (rule settles_goes)

interpretation input_life: evolving_ops happen "inputs_ok i" "follows i"
  by unfold_locales (use happen_goes follows_refl follows_trans in \<open>auto simp: goes_def\<close>)

section \<open>How much input waits\<close>

text \<open>
  \<open>modest\<close>: an event leaves the rows of a terminal or settles some, or adds one row within the
  limits of \<open>admit_input\<close>.
\<close>

definition waiting :: "terminal_input_row list \<Rightarrow> nat" where
  "waiting rs = length (filter input_open rs)"

definition waiting_bytes :: "terminal_input_row list \<Rightarrow> nat" where
  "waiting_bytes rs = sum_list (map (\<lambda>r. case ti_bytes r of None \<Rightarrow> 0 | Some b \<Rightarrow> length b) (filter input_open rs))"

definition erased :: "terminal_input_row \<Rightarrow> bool" where
  "erased r \<longleftrightarrow> input_open r \<or> ti_bytes r = None"

definition modest :: "uuid \<Rightarrow> db \<Rightarrow> db \<Rightarrow> bool" where
  "modest i d d' \<longleftrightarrow> rows_settle (inputs i d) (inputs i d') \<or>
     (\<exists>r. inputs i d' = inputs i d @ [r] \<and> input_open r \<and> waiting (inputs i d @ [r]) \<le> 128 \<and>
        waiting_bytes (inputs i d @ [r]) \<le> 65536)"

lemma pending_input_eq: "pending_input i d = filter input_open (inputs i d)"
  unfolding pending_input_def inputs_def filter_filter by (rule filter_cong) auto

lemma pending_waiting: "length (pending_input i d) = waiting (inputs i d)" "pending_bytes i d = waiting_bytes (inputs i d)"
  by (simp_all add: pending_input_eq pending_bytes_def waiting_def waiting_bytes_def del: filter_filter)

lemma input_open_rank: "input_open r \<longleftrightarrow> rank (ti_state r) < 2"
  by (cases "ti_state r") (simp_all add: input_open_def)

lemma row_follows_open: "row_follows r r' \<Longrightarrow> input_open r' \<Longrightarrow> input_open r"
  by (auto simp: row_follows_def input_open_rank)

lemma rows_settle_waiting:
  assumes "rows_settle rs rs'"
  shows "waiting rs' \<le> waiting rs" "waiting_bytes rs' \<le> waiting_bytes rs"
    "\<forall>r \<in> set rs. erased r \<Longrightarrow> \<forall>r \<in> set rs'. erased r"
proof -
  obtain P f where 1: "rs' = map f (filter P rs)" "\<And>r. row_follows r (f r)"
    using assms unfolding rows_settle_def by blast
  have o': "input_open (f r) \<Longrightarrow> input_open r" for r by (rule row_follows_open [OF 1(2)])
  have b: "ti_bytes (f r) = ti_bytes r \<or> ti_bytes (f r) = None" for r using 1(2) [of r] by (auto simp: row_follows_def)
  have le: "waiting (map f (filter P xs)) \<le> waiting xs \<and> waiting_bytes (map f (filter P xs)) \<le> waiting_bytes xs" for xs
  proof (induction xs)
    case (Cons x xs)
    then show ?case using o' [of x] b [of x] by (auto simp: waiting_def waiting_bytes_def split: option.split)
  qed (simp add: waiting_def waiting_bytes_def)
  show "waiting rs' \<le> waiting rs" "waiting_bytes rs' \<le> waiting_bytes rs" using le by (simp_all add: 1(1))
  have "erased r \<Longrightarrow> erased (f r)" for r using 1(2) [of r]
    by (cases "ti_state r"; cases "ti_state (f r)") (auto simp: erased_def input_open_rank row_follows_def)
  then show "\<forall>r \<in> set rs. erased r \<Longrightarrow> \<forall>r \<in> set rs'. erased r" by (auto simp: 1(1))
qed

lemma acquire_inputs: "acquireControl e t a b c d = Inr (v, d') \<Longrightarrow> inputs i d' = inputs i d"
  by (auto simp: acquireControl_def res_simps Let_def controlRate_def inputs_def update_terminal_fields split: if_splits)

lemma create_inputs: "create_terminal e w a b j d = Inr (v, d') \<Longrightarrow> inputs i d' = inputs i d"
  unfolding create_terminal_def insert_terminal_def Let_def by (auto simp: res_simps inputs_def split: if_splits)

lemma remove_inputs:
  assumes "remove_terminal e j a d = Inr d'"
  shows "rows_settle (inputs i d) (inputs i d')"
proof -
  from assms obtain t :: terminal_row and d1 where c: "controlRate e (te_id t) d = Inr d1" and d': "d' = drop_terminal (te_id t) d1"
    unfolding remove_terminal_def by (auto simp: res_simps)
  have f: "filter (\<lambda>r. ti_terminal r = i) (delete_where Q rs) = filter (\<lambda>r. \<not> Q r) (filter (\<lambda>r. ti_terminal r = i) rs)" for Q rs
    by (induction rs) simp_all
  have "inputs i d1 = inputs i d" using c by (auto simp: controlRate_def inputs_def split: if_splits)
  then show ?thesis using rows_settle_filter by (simp add: d' inputs_def drop_terminal_def f del: filter_filter)
qed

lemma accept_modest:
  assumes "acceptInput e t a b d = Inr (v, d')"
  shows "modest i d d'"
proof -
  from assms have "d' = d \<or> (\<exists>x. admit_input e t a b x d = Inr (v, d'))"
    unfolding acceptInput_def by (auto simp: res_simps split: if_splits)
  then show ?thesis
  proof (elim disjE exE)
    fix x assume ad: "admit_input e t a b x d = Inr (v, d')"
    then have lim: "waiting (inputs (te_id t) d) < 128" "waiting_bytes (inputs (te_id t) d) + length x \<le> 65536"
      by (auto simp: admit_input_def pending_waiting split: if_splits)
    let ?r = "new_input e t a b x"
    from ad have "terminal_input d' = terminal_input d @ [?r]"
      unfolding admit_input_def Let_def by (auto simp: res_simps insert_input_def update_terminal_fields split: if_splits)
    moreover have "ti_terminal ?r = te_id t" "input_open ?r" "ti_bytes ?r = Some x" by (simp_all add: new_input_def input_open_def)
    ultimately show ?thesis using lim
      by (cases "te_id t = i") (auto simp: modest_def inputs_def waiting_def waiting_bytes_def)
  qed (simp add: modest_def)
qed

lemma happen_modest:
  assumes "happen x d = Inr d'"
  shows "modest i d d'"
  using happen_kinds [OF assms, of i]
proof
  assume "control_request_done d d'"
  then show ?thesis unfolding control_request_done_def
  proof (elim disjE exE conjE)
    fix e t a b c v assume "acquireControl e t a b c d = Inr (v, d')"
    then show ?thesis by (simp add: modest_def acquire_inputs)
  next
    fix e w a b j v assume "create_terminal e w a b j d = Inr (v, d')"
    then show ?thesis by (simp add: modest_def create_inputs)
  next
    fix e t a b v assume "acceptInput e t a b d = Inr (v, d')"
    then show ?thesis by (rule accept_modest)
  next
    fix e j a assume "remove_terminal e j a d = Inr d'"
    then show ?thesis by (simp add: modest_def remove_inputs)
  qed
qed (simp add: settles_def modest_def)

interpretation waiting_inputs: bounded_ops happen "\<lambda>d. waiting (inputs i d)" 128
  by unfold_locales (drule happen_modest [of _ _ _ i], auto simp: modest_def le_max_iff_disj dest: rows_settle_waiting(1))

interpretation waiting_input_bytes: bounded_ops happen "\<lambda>d. waiting_bytes (inputs i d)" 65536
  by unfold_locales (drule happen_modest [of _ _ _ i], auto simp: modest_def le_max_iff_disj dest: rows_settle_waiting(2))

interpretation erased_inputs: invariant_ops happen "\<lambda>d. \<forall>r \<in> set (inputs i d). erased r"
proof unfold_locales
  fix x d d' assume "happen x d = Inr d'" and e: "\<forall>r \<in> set (inputs i d). erased r"
  then have "modest i d d'" by (simp add: happen_modest)
  then show "\<forall>r \<in> set (inputs i d'). erased r" unfolding modest_def
  proof
    assume "rows_settle (inputs i d) (inputs i d')"
    then show ?thesis by (rule rows_settle_waiting(3) [OF _ e])
  next
    assume "\<exists>r. inputs i d' = inputs i d @ [r] \<and> input_open r \<and> waiting (inputs i d @ [r]) \<le> 128 \<and>
        waiting_bytes (inputs i d @ [r]) \<le> 65536"
    then show ?thesis using e by (auto simp: erased_def)
  qed
qed

end
