(* ===== verification/Terminal_Safety.thy ===== *)
theory Terminal_Safety
  imports Terminal_Control
begin

text \<open>
  The properties of a terminal's control: what reaches the process is sent once and by the
  controller of the moment, for every run of requests and supervisor transactions from a database
  without terminals; and what such a run keeps within its bounds.
\<close>

section \<open>A run\<close>

text \<open>
  \<open>no_terminals\<close>: the state that a migration leaves. \<open>demo_run\<close> is a run that creates the
  terminal \<open>v\<close>, claims its workspace, starts the shell, takes control and sends a first byte.
\<close>

definition no_terminals :: "db \<Rightarrow> bool" where
  "no_terminals d \<longleftrightarrow> terminals d = [] \<and> terminal_input d = []"

definition demo_shell :: terminal_row where
  "demo_shell = new_terminal demo_env ''v'' demo_workspace ''b'' \<lparr> tc_profile = WorkspaceWrite, tc_cols = 80, tc_rows = 24 \<rparr> 1"

definition demo_owned :: owned where
  "demo_owned = (new_owned demo_env demo_shell)\<lparr>ow_adapter := True\<rparr>"

definition demo_input :: "nat \<Rightarrow> input_frame" where
  "demo_input n = \<lparr> fr_generation = 1, fr_epoch = 1, fr_controller = ''u'', fi_sequence = n, fi_data = ''QQ=='' \<rparr>"

definition demo_take :: "nat \<Rightarrow> uuid \<Rightarrow> terminal_event" where
  "demo_take ep k = Request demo_env ''b'' (TakeControl ''v'' \<lparr> ct_generation = 1, ct_expected_epoch = ep, ct_acknowledge = False \<rparr> k)"

definition demo_send_as :: "nat \<Rightarrow> uuid \<Rightarrow> nat \<Rightarrow> terminal_event" where
  "demo_send_as ep k n = Request demo_env ''b'' (SendInput ''v'' ((demo_input n)\<lparr>fr_epoch := ep, fr_controller := k\<rparr>))"

definition demo_send :: "nat \<Rightarrow> terminal_event" where
  "demo_send n = Request demo_env ''b'' (SendInput ''v'' (demo_input n))"

definition demo_guard :: "nat \<Rightarrow> nat \<Rightarrow> uuid \<Rightarrow> guard" where
  "demo_guard ep n k = \<lparr> gd_kind = InputGuard, gd_actor = ''b'',
     gd_frame = \<lparr> fr_generation = 1, fr_epoch = ep, fr_controller = k, wf_sequence = n \<rparr> \<rparr>"

definition demo_start :: "terminal_event list" where
  "demo_start = [Request demo_env ''b'' (CreateTerminal ''w'' \<lparr> tc_profile = WorkspaceWrite, tc_cols = 80, tc_rows = 24 \<rparr> ''v''),
     Claim demo_env True demo_shell, Launched demo_owned]"

definition demo_run :: "terminal_event list" where
  "demo_run = demo_start @ [demo_take 0 ''u'', demo_send 1]"

lemma no_terminals_ok: "no_terminals d \<Longrightarrow> inputs_ok i d"
  by (simp add: no_terminals_def inputs_ok_def inputs_def terminal_find_def)

lemma run_ok: "no_terminals d \<Longrightarrow> inputs_ok i (serve happen xs d)"
  by (rule input_life.serve_keeps [OF no_terminals_ok])

lemma input_key_row: "input_key x = (i, k) \<longleftrightarrow> ti_terminal x = i \<and> row_key x = k"
  by (cases k) (auto simp: input_key_def row_key_def)

section \<open>What the last check lets through\<close>

lemma wire_current:
  assumes "wire e c r g d = Inr d'"
  obtains t name where "lockedTerminal e d (ow_id r) (gd_actor g) TerminalControl = Inr (t, name)"
    and "terminal_find (ow_id r) d = Some t" and "wire_action e t g d = Inr d'" and "currentGrant c d = Inr ()"
    and "succeeds (requireAuthority e d' (gd_actor g) (terminal_need t TerminalControl))"
proof -
  from assms have "\<exists>t name. lockedTerminal e d (ow_id r) (gd_actor g) TerminalControl = Inr (t, name) \<and>
      wire_action e t g d = Inr d' \<and> currentGrant c d = Inr () \<and>
      succeeds (requireAuthority e d' (gd_actor g) (terminal_need t TerminalControl))"
    unfolding wire_def by (auto simp: res_simps)
  then show ?thesis using that lockedTerminal_find by blast
qed

lemma wire_input:
  assumes "wire e c r g d = Inr d'" and "gd_kind g = InputGuard"
  obtains t x where "terminal_find (ow_id r) d = Some t" and "te_state t = TermRunning"
    and "names_controller t (gd_actor g) (gd_frame g)" and "controller_live e d (te_id t)" and "te_id t = ow_id r"
    and "x \<in> set (inputs (ow_id r) d)" and "row_key x = (fr_epoch (gd_frame g), wf_sequence (gd_frame g))"
    and "ti_state x = InAccepted"
    and "d' = d\<lparr>terminal_input := update_where (\<lambda>r. input_key r = (te_id t, fr_epoch (gd_frame g), wf_sequence (gd_frame g)) \<and>
       ti_state r = InAccepted) (\<lambda>r. r\<lparr>ti_state := InDispatching\<rparr>) (terminal_input d)\<rparr>"
proof -
  obtain t name where t: "terminal_find (ow_id r) d = Some t" and w: "wire_action e t g d = Inr d'"
    using wire_current [OF assms(1)] by blast
  have id: "te_id t = ow_id r" by (rule terminal_find_id [OF t])
  have q: "requireController e d t (gd_actor g) (gd_frame g) = Inr ()"
    using w assms(2) unfolding wire_action_def by (auto simp: res_simps)
  let ?P = "\<lambda>r. input_key r = (te_id t, fr_epoch (gd_frame g), wf_sequence (gd_frame g)) \<and> ti_state r = InAccepted"
  have "exists_row ?P (terminal_input d)" and d': "d' = d\<lparr>terminal_input := update_where ?P (\<lambda>r. r\<lparr>ti_state := InDispatching\<rparr>) (terminal_input d)\<rparr>"
    using w assms(2) unfolding wire_action_def Let_def by (auto simp: res_simps split: if_splits)
  then obtain x where "x \<in> set (terminal_input d)" "input_key x = (te_id t, fr_epoch (gd_frame g), wf_sequence (gd_frame g))"
    "ti_state x = InAccepted" by auto
  then show ?thesis using that [OF t _ _ _ id _ _ _ d'] requireController_names [OF q] id
    by (auto simp: inputs_def input_key_row)
qed

text \<open>After a frame has been let through, none of its rows is waiting, and one row bears its key.\<close>

lemma wire_leaves:
  assumes "wire e c r g d = Inr d'" and "gd_kind g = InputGuard"
  shows "x \<in> set (inputs (ow_id r) d') \<Longrightarrow> row_key x = (fr_epoch (gd_frame g), wf_sequence (gd_frame g)) \<Longrightarrow>
      ti_state x \<noteq> InAccepted"
    and "\<exists>x \<in> set (inputs (ow_id r) d'). row_key x = (fr_epoch (gd_frame g), wf_sequence (gd_frame g))"
    and "fst (mark (ow_id r) d') = fr_generation (gd_frame g)" and "terminal_find (ow_id r) d' \<noteq> None"
proof -
  obtain t y where w: "terminal_find (ow_id r) d = Some t" "names_controller t (gd_actor g) (gd_frame g)"
      "te_id t = ow_id r" "y \<in> set (inputs (ow_id r) d)" "row_key y = (fr_epoch (gd_frame g), wf_sequence (gd_frame g))"
    and d': "d' = d\<lparr>terminal_input := update_where (\<lambda>r. input_key r = (te_id t, fr_epoch (gd_frame g), wf_sequence (gd_frame g)) \<and>
       ti_state r = InAccepted) (\<lambda>r. r\<lparr>ti_state := InDispatching\<rparr>) (terminal_input d)\<rparr>"
    by (rule wire_input [OF assms]) blast
  have f: "terminal_find (ow_id r) d' = Some t" using w(1) by (simp add: d' terminal_find_def)
  then show "fst (mark (ow_id r) d') = fr_generation (gd_frame g)" "terminal_find (ow_id r) d' \<noteq> None"
    using w(2) by (simp_all add: mark_def control_key_def names_controller_def)
  show "ti_state x \<noteq> InAccepted" if "x \<in> set (inputs (ow_id r) d')" "row_key x = (fr_epoch (gd_frame g), wf_sequence (gd_frame g))" for x
    using that by (auto simp: d' inputs_def table_simps input_key_row w(3))
  let ?P = "\<lambda>r. input_key r = (te_id t, fr_epoch (gd_frame g), wf_sequence (gd_frame g)) \<and> ti_state r = InAccepted"
  let ?y = "if ?P y then y\<lparr>ti_state := InDispatching\<rparr> else y"
  have "?y \<in> set (terminal_input d')"
    using w(4) unfolding d' inputs_def update_where_def by simp
  moreover have "row_key ?y = row_key y" "ti_terminal ?y = ti_terminal y" by (simp_all add: row_key_def)
  ultimately show "\<exists>x \<in> set (inputs (ow_id r) d'). row_key x = (fr_epoch (gd_frame g), wf_sequence (gd_frame g))"
    using w(4,5) by (auto simp: inputs_def)
qed

section \<open>What accepting can answer\<close>

definition accept_refusals :: "(nat \<times> string) set" where
  "accept_refusals = {(503, ''MAINTENANCE''), (400, ''INVALID_INPUT''), (413, ''INPUT_LIMIT''), (409, ''INPUT_CONFLICT''),
     (409, ''TERMINAL_STATE''), (409, ''CONTROLLER_STALE''), (409, ''CONTROLLER_EXPIRED''),
     (410, ''INPUT_OUTCOME_EXPIRED''), (409, ''INPUT_SEQUENCE_GAP''), (429, ''INPUT_PENDING_LIMIT''),
     (429, ''INPUT_RATE_LIMIT'')}"

fun refused_with :: "(nat \<times> string) set \<Rightarrow> failure \<Rightarrow> bool" where
  "refused_with S (HarborError n c) = ((n, c) \<in> S)"
| "refused_with S (Crash c) = False"

lemma outcome_refused: "inputOutcome e d t a b = Inl f \<Longrightarrow> refused_with accept_refusals f"
  by (auto simp: inputOutcome_def res_simps decodeInput_def Let_def accept_refusals_def gone_def split: if_splits option.splits)

lemma controller_refused: "requireController e d t a b = Inl f \<Longrightarrow> refused_with accept_refusals f"
  by (auto simp: requireController_def accept_refusals_def gone_def split: if_splits)

lemma admit_refused:
  assumes f: "admit_input e t a b x d = Inl f" and ok: "inputs_ok (te_id t) d" and t: "terminal_find (te_id t) d = Some t"
    and k: "fr_epoch b = te_controller_epoch t" "te_input_sequence t < fi_sequence b"
  shows "refused_with accept_refusals f"
proof -
  have new: "input_key y \<noteq> input_key (new_input e t a b x)" if "y \<in> set (terminal_input d)" for y
  proof
    assume e: "input_key y = input_key (new_input e t a b x)"
    then have y: "y \<in> set (inputs (te_id t) d)" "row_key y = (te_controller_epoch t, fi_sequence b)"
      using that k(1) by (simp_all add: inputs_def input_key_def row_key_def new_input_def)
    have "row_key y \<le> snd (control_key t)" using ok t y(1) by (simp add: inputs_ok_def)
    then show False using k(2) y(2) by (simp add: control_key_def)
  qed
  have find: "\<exists>u. terminal_find (te_id t) (update_terminal (te_id t) (input_rate e) d) = Some u"
    using t by (simp add: update_terminal_find input_rate_def Let_def)
  show ?thesis using f new find unfolding admit_input_def Let_def
    by (auto simp: res_simps insert_input_def update_terminal_fields accept_refusals_def split: if_splits)
qed

lemma accept_refused:
  assumes f: "acceptInput e t a b d = Inl f" and ok: "inputs_ok (te_id t) d" and t: "terminal_find (te_id t) d = Some t"
  shows "refused_with accept_refusals f"
proof -
  have "refused_with accept_refusals f" if "decodeInput (fi_data b) = Inl f"
    using that by (auto simp: decodeInput_def Let_def accept_refusals_def split: if_splits)
  moreover have "refused_with accept_refusals f" if "deploymentAdmission d False = Inl f"
    using that by (auto simp: deploymentAdmission_def accept_refusals_def split: if_splits)
  moreover have "refused_with accept_refusals f" if "requireController e d t a b = Inr ()" "admit_input e t a b x d = Inl f"
    "fi_sequence b = te_input_sequence t + 1" for x
    using admit_refused [OF that(2) ok t] that requireController_names [OF that(1)] by (simp add: names_controller_def)
  moreover have "refused_with accept_refusals (HarborError 410 ''INPUT_OUTCOME_EXPIRED'')"
    "refused_with accept_refusals (HarborError 409 ''INPUT_SEQUENCE_GAP'')" by (simp_all add: accept_refusals_def)
  ultimately show ?thesis using f outcome_refused controller_refused unfolding acceptInput_def
    by (auto simp: res_simps split: if_splits)
qed

section \<open>Properties\<close>

text \<open>C29: A frame of input reaches the process at most once. Once the last check has let the
  frame with some generation, epoch and sequence number through to the process of a terminal, it
  never lets a frame with the same three numbers through again, in any continuation by requests,
  failed or repeated saves, restarts of the supervisor, removal and new creation of terminals;
  not even for a row that was deleted and accepted anew.\<close>

theorem input_never_sent_twice:
  assumes "no_terminals d0"
    and "wire e c r g (serve happen xs d0) = Inr d1" and "gd_kind g = InputGuard"
    and "wire e' c' r' g' (serve happen ys d1) = Inr d2" and "gd_kind g' = InputGuard" and "ow_id r' = ow_id r"
  shows "(fr_generation (gd_frame g'), fr_epoch (gd_frame g'), wf_sequence (gd_frame g')) \<noteq>
    (fr_generation (gd_frame g), fr_epoch (gd_frame g), wf_sequence (gd_frame g))"
proof
  let ?i = "ow_id r" and ?k = "(fr_epoch (gd_frame g), wf_sequence (gd_frame g))" and ?d2 = "serve happen ys d1"
  assume eq: "(fr_generation (gd_frame g'), fr_epoch (gd_frame g'), wf_sequence (gd_frame g')) =
    (fr_generation (gd_frame g), fr_epoch (gd_frame g), wf_sequence (gd_frame g))"
  have ok: "inputs_ok ?i d1"
    using settles_goes [OF wire_settles [OF assms(2)]] run_ok [OF assms(1)] by (simp add: goes_def)
  have fl: "follows ?i d1 ?d2" by (rule input_life.serve_moves [OF ok])
  note one = wire_leaves [OF assms(2,3)]
  obtain t x where t: "terminal_find ?i ?d2 = Some t" "names_controller t (gd_actor g') (gd_frame g')"
    and x: "x \<in> set (inputs ?i ?d2)" "row_key x = ?k" "ti_state x = InAccepted"
    by (rule wire_input [OF assms(4,5)]) (use eq assms(6) in auto)
  have m2: "fst (mark ?i ?d2) = fr_generation (gd_frame g)" using t eq by (simp add: mark_def control_key_def names_controller_def)
  obtain y where y: "y \<in> set (inputs ?i d1)" "row_key y = ?k" using one(2) by blast
  obtain u where u: "terminal_find ?i d1 = Some u" using one(4) by blast
  then have "row_key y \<le> snd (control_key u)" using ok y(1) by (simp add: inputs_ok_def)
  then have "?k \<le> snd (mark ?i d1)" using y(2) u by (simp add: mark_def)
  then have "\<not> mark ?i d1 < (fst (mark ?i ?d2), row_key x)" using m2 one(3) x(2)
    by (auto simp: less_prod_def less_eq_prod_def)
  then obtain z where z: "z \<in> set (inputs ?i d1)" "row_follows z x" using followsD(2) [OF fl x(1)] by blast
  then have "row_key z = ?k" "ti_state z = InAccepted"
    using x(2,3) row_followsD [OF z(2)] by (auto simp: row_follows_def elim: rank.elims)
  then show False using one(1) z(1) by blast
qed

theorem input_never_sent_twice_witness:
  "\<exists>d1 d2. wire demo_env True demo_owned (demo_guard 1 1 ''u'') (serve happen demo_run demo_db) = Inr d1 \<and>
     wire demo_env True demo_owned (demo_guard 1 2 ''u'') (serve happen [demo_send 2] d1) = Inr d2 \<and>
     (1 :: nat, 1 :: nat, 2 :: nat) \<noteq> (1, 1, 1)"
proof -
  have "case wire demo_env True demo_owned (demo_guard 1 1 ''u'') (serve happen demo_run demo_db) of Inl _ \<Rightarrow> False
    | Inr d1 \<Rightarrow> succeeds (wire demo_env True demo_owned (demo_guard 1 2 ''u'') (serve happen [demo_send 2] d1))" by code_simp
  then obtain d1 d2 where d: "wire demo_env True demo_owned (demo_guard 1 1 ''u'') (serve happen demo_run demo_db) = Inr d1"
    "wire demo_env True demo_owned (demo_guard 1 2 ''u'') (serve happen [demo_send 2] d1) = Inr d2"
    by (auto split: sum.splits elim: succeedsE)
  have "no_terminals demo_db" by code_simp
  from input_never_sent_twice [OF this d(1) _ d(2)] d show ?thesis by (auto simp: demo_guard_def)
qed

text \<open>C31: What the supervisor lets through to the process is authorised at that moment. If the
  check of an input frame succeeds, then the frame is an accepted row which the present controller
  sent in the present epoch, the terminal runs, neither its deadline nor the controller's lease has
  passed, the supervisor holds its lease, no emergency stop is in force, and the sender still has
  the terminal scope for the terminal's project and profile.\<close>

theorem wire_authorised:
  assumes "no_terminals d0" and "d = serve happen xs d0"
    and "wire e c r g d = Inr d'" and "gd_kind g = InputGuard"
  shows "\<exists>t x. terminal_find (ow_id r) d = Some t \<and> x \<in> set (terminal_input d) \<and>
    input_key x = (te_id t, fr_epoch (gd_frame g), wf_sequence (gd_frame g)) \<and> ti_state x = InAccepted \<and>
    te_controller_actor t = Some (ti_actor x) \<and> te_controller_id t = Some (ti_controller_id x) \<and>
    te_controller_epoch t = ti_epoch x \<and> te_state t = TermRunning \<and> controller_live e d (te_id t) \<and>
    c \<and> \<not> meta_emergency d \<and> succeeds (requireAuthority e d' (ti_actor x) (terminal_need t TerminalControl))"
proof -
  obtain t x where w: "terminal_find (ow_id r) d = Some t" "te_state t = TermRunning"
    "names_controller t (gd_actor g) (gd_frame g)" "controller_live e d (te_id t)" "te_id t = ow_id r"
    "x \<in> set (inputs (ow_id r) d)" "row_key x = (fr_epoch (gd_frame g), wf_sequence (gd_frame g))" "ti_state x = InAccepted"
    by (rule wire_input [OF assms(3,4)])
  obtain t' where t': "terminal_find (ow_id r) d = Some t'" "currentGrant c d = Inr ()"
    "succeeds (requireAuthority e d' (gd_actor g) (terminal_need t' TerminalControl))"
    using wire_current [OF assms(3)] by blast
  have ep: "ti_epoch x = te_controller_epoch t" using w(3,7) by (simp add: names_controller_def row_key_def)
  have "inputs_ok (ow_id r) d" unfolding assms(2) by (rule run_ok [OF assms(1)])
  then have sb: "sent_by t x" using w(1,6) ep by (simp add: inputs_ok_def)
  have a: "gd_actor g = ti_actor x" using sb w(3) by (simp add: sent_by_def names_controller_def)
  have c: "c" "\<not> meta_emergency d" using t'(2) by (auto simp: currentGrant_def split: if_splits)
  have x: "x \<in> set (terminal_input d)" "input_key x = (te_id t, fr_epoch (gd_frame g), wf_sequence (gd_frame g))"
    using w(5,6,7) by (auto simp: inputs_def input_key_row)
  show ?thesis using w(1,2,4,8) t' sb ep a c x by (intro exI [of _ t] exI [of _ x]) (simp add: sent_by_def)
qed

theorem wire_authorised_witness:
  "\<exists>d' t (x :: terminal_input_row). wire demo_env True demo_owned (demo_guard 1 1 ''u'') (serve happen demo_run demo_db) = Inr d' \<and>
     terminal_find ''v'' (serve happen demo_run demo_db) = Some t \<and>
     te_controller_actor t = Some (ti_actor x) \<and> ti_state x = InAccepted"
proof -
  have "succeeds (wire demo_env True demo_owned (demo_guard 1 1 ''u'') (serve happen demo_run demo_db))" by code_simp
  then obtain d' where d': "wire demo_env True demo_owned (demo_guard 1 1 ''u'') (serve happen demo_run demo_db) = Inr d'"
    by (rule succeedsE)
  have demo: "no_terminals demo_db" "gd_kind (demo_guard 1 1 ''u'') = InputGuard" "ow_id demo_owned = ''v''" by code_simp+
  from wire_authorised [OF demo(1) refl d' demo(2), unfolded demo(3)] show ?thesis
  proof (elim exE conjE)
    fix t and x :: terminal_input_row assume "terminal_find ''v'' (serve happen demo_run demo_db) = Some t"
      "te_controller_actor t = Some (ti_actor x)" "ti_state x = InAccepted"
    with d' show ?thesis by (intro exI conjI)
  qed
qed

text \<open>C30: A controller that has been replaced is locked out for good. After control has been
  taken, no frame of an earlier epoch of the same shell passes the check, whatever happens in
  between; and a frame of the new epoch passes only for the actor and the controller identity that
  took control.\<close>

theorem old_controller_fenced:
  assumes "no_terminals d0" and "d = serve happen xs d0" and "terminal_find (te_id t) d = Some t"
    and "acquireControl e t a b k d = Inr (v, d1)"
    and "wire e' c r g (serve happen ys d1) = Inr d2" and "gd_kind g \<noteq> LaunchGuard" and "ow_id r = te_id t"
    and "fr_generation (gd_frame g) = te_generation t"
  shows "te_controller_epoch t < fr_epoch (gd_frame g) \<and> cw_epoch v \<le> fr_epoch (gd_frame g) \<and>
    (fr_epoch (gd_frame g) = cw_epoch v \<longrightarrow> gd_actor g = a \<and> fr_controller (gd_frame g) = k)"
proof -
  let ?i = "te_id t" and ?d2 = "serve happen ys d1"
  obtain d' where c: "controlRate e ?i d = Inr d'" and d1: "d1 = update_terminal ?i (controlled_by e a k) d'"
    and v: "\<exists>u. terminal_find ?i d1 = Some u \<and> cw_epoch v = te_controller_epoch u"
    using assms(4) by (auto simp: acquireControl_def res_simps Let_def)
  have "settles ?i d d'" by (rule control_settles [OF c])
  then obtain t' where t': "terminal_find ?i d' = Some t'" "standing t' = standing t"
    using assms(3) by (auto simp: settles_def)
  have f1: "terminal_find ?i d1 = Some (controlled_by e a k t')"
    using t'(1) terminal_find_id [OF t'(1)] by (simp add: d1 update_terminal_find controlled_by_def)
  have cw: "cw_epoch v = Suc (te_controller_epoch t)" "te_generation (controlled_by e a k t') = te_generation t"
    "te_controller_epoch (controlled_by e a k t') = Suc (te_controller_epoch t)"
    using v f1 standingD [OF t'(2)] by (auto simp: controlled_by_def)
  have "goes ?i d d1" by (rule acquire_goes [OF assms(4)])
  then have "inputs_ok ?i d1" using run_ok [OF assms(1)] by (simp add: goes_def assms(2))
  then have fl: "follows ?i d1 ?d2" by (rule input_life.serve_moves)
  obtain u name where u: "terminal_find ?i ?d2 = Some u" and w: "wire_action e' u g ?d2 = Inr d2"
    using wire_current [OF assms(5)] assms(7) by metis
  have "requireController e' ?d2 u (gd_actor g) (gd_frame g) = Inr ()"
    using w assms(6) unfolding wire_action_def by (auto simp: res_simps)
  then have n: "names_controller u (gd_actor g) (gd_frame g)" using requireController_names by blast
  have "mark ?i d1 \<le> mark ?i ?d2" by (rule followsD(1) [OF fl])
  then have le: "Suc (te_controller_epoch t) \<le> te_controller_epoch u"
    using n assms(8) cw by (auto simp: mark_def u f1 control_key_def names_controller_def less_eq_prod_def)
  have "same_holder (controlled_by e a k t') u" by (rule followsD(3) [OF fl f1 u])
  then have "te_controller_epoch u = Suc (te_controller_epoch t) \<longrightarrow> te_controller_actor u = Some a \<and> te_controller_id u = Some k"
    using n assms(8) cw by (auto simp: same_holder_def names_controller_def controlled_by_def)
  then show ?thesis using n le cw by (auto simp: names_controller_def)
qed

theorem old_controller_fenced_witness:
  "\<exists>v d1 d2 t. acquireControl demo_env t ''b'' \<lparr> ct_generation = 1, ct_expected_epoch = 1, ct_acknowledge = False \<rparr> ''n''
       (serve happen demo_run demo_db) = Inr (v, d1) \<and>
     wire demo_env True demo_owned (demo_guard 2 1 ''n'') (serve happen [demo_send_as 2 ''n'' 1] d1) = Inr d2 \<and>
     te_controller_epoch t < 2 \<and> cw_epoch v \<le> 2"
proof -
  let ?d = "serve happen demo_run demo_db" and ?b = "\<lparr> ct_generation = 1, ct_expected_epoch = 1, ct_acknowledge = False \<rparr>"
  have "case terminal_find ''v'' ?d of None \<Rightarrow> False | Some t \<Rightarrow> te_generation t = 1 \<and>
      (case acquireControl demo_env t ''b'' ?b ''n'' ?d of Inl _ \<Rightarrow> False
       | Inr (v, d1) \<Rightarrow> succeeds (wire demo_env True demo_owned (demo_guard 2 1 ''n'') (serve happen [demo_send_as 2 ''n'' 1] d1)))"
    by code_simp
  then obtain t v d1 d2 where d: "terminal_find ''v'' ?d = Some t" "te_generation t = 1"
    "acquireControl demo_env t ''b'' ?b ''n'' ?d = Inr (v, d1)"
    "wire demo_env True demo_owned (demo_guard 2 1 ''n'') (serve happen [demo_send_as 2 ''n'' 1] d1) = Inr d2"
    by (auto split: option.splits sum.splits elim: succeedsE simp del: serve.simps)
  have id: "te_id t = ''v''" by (rule terminal_find_id [OF d(1)])
  have "no_terminals demo_db" "ow_id demo_owned = ''v''" by code_simp+
  with old_controller_fenced [OF _ refl _ d(3,4)] d id show ?thesis by (auto simp: demo_guard_def)
qed

text \<open>C32: Accepting a frame of input has no unexpected outcome. In every reachable database it is
  refused with one of eleven documented codes and never fails with a constraint violation or a
  missing row; or it is a repetition, which changes nothing and returns the state of the row that
  the same sender stored under this number; or it is the next number of the present controller,
  and exactly its row is appended.\<close>

theorem accept_outcomes:
  assumes "no_terminals d0" and "d = serve happen xs d0" and "terminal_find (te_id t) d = Some t"
  shows "case acceptInput e t a b d of
      Inl f \<Rightarrow> refused_with accept_refusals f
    | Inr (v, d') \<Rightarrow>
        (d' = d \<and> (\<exists>old \<in> set (terminal_input d). v = inputView old \<and> input_key old = (te_id t, fr_epoch b, fi_sequence b) \<and>
           ti_actor old = a \<and> ti_controller_id old = fr_controller b)) \<or>
        (\<exists>bytes. decodeInput (fi_data b) = Inr bytes \<and> names_controller t a b \<and> te_state t = TermRunning \<and>
           fi_sequence b = te_input_sequence t + 1 \<and> v = inputView (new_input e t a b bytes) \<and>
           terminal_input d' = terminal_input d @ [new_input e t a b bytes])"
proof (cases "acceptInput e t a b d")
  case (Inl f)
  have "inputs_ok (te_id t) d" unfolding assms(2) by (rule run_ok [OF assms(1)])
  then show ?thesis using accept_refused [OF Inl _ assms(3)] Inl by simp
next
  case (Inr p)
  obtain v d' where p: "p = (v, d')" by (cases p)
  obtain o' where o': "inputOutcome e d t a b = Inr o'" using Inr unfolding acceptInput_def by (auto simp: res_simps)
  show ?thesis
  proof (cases "iv_state o' \<noteq> OutcomeMissing \<and> iv_state o' \<noteq> OutcomeExpired")
    case True
    then have "v = o' \<and> d' = d" using Inr o' by (auto simp: acceptInput_def res_simps p)
    moreover from o' True obtain old where "input_find (te_id t) (fr_epoch b) (fi_sequence b) d = Some old"
      "v = inputView old" "ti_actor old = a" "ti_controller_id old = fr_controller b"
      using calculation by (auto simp: inputOutcome_def res_simps split: option.splits if_splits)
    moreover have "old \<in> set (terminal_input d) \<and> input_key old = (te_id t, fr_epoch b, fi_sequence b)"
      using calculation(2) unfolding input_find_def by (rule find_Some_in)
    ultimately show ?thesis by (auto simp: Inr p)
  next
    case False
    then obtain bytes where b: "decodeInput (fi_data b) = Inr bytes" "requireController e d t a b = Inr ()"
      "fi_sequence b = te_input_sequence t + 1" "admit_input e t a b bytes d = Inr (v, d')"
      using Inr o' unfolding acceptInput_def by (auto simp: res_simps p)
    have "v = inputView (new_input e t a b bytes) \<and> terminal_input d' = terminal_input d @ [new_input e t a b bytes]"
      using b(4) unfolding admit_input_def Let_def by (auto simp: res_simps insert_input_def update_terminal_fields split: if_splits)
    then show ?thesis using b requireController_names [OF b(2)] by (auto simp: Inr p)
  qed
qed

theorem accept_outcomes_witness:
  "\<exists>t. terminal_find ''v'' (serve happen demo_run demo_db) = Some t \<and>
     (case acceptInput demo_env t ''b'' (demo_input 2) (serve happen demo_run demo_db) of
        Inl f \<Rightarrow> refused_with accept_refusals f
      | Inr (v, d') \<Rightarrow> length (terminal_input d') = 2)"
proof -
  let ?d = "serve happen demo_run demo_db"
  have "case terminal_find ''v'' ?d of None \<Rightarrow> False | Some t \<Rightarrow>
      (case acceptInput demo_env t ''b'' (demo_input 2) ?d of Inl _ \<Rightarrow> False
       | Inr (v, d') \<Rightarrow> length (terminal_input d') = 2)" by code_simp
  then obtain t v d' where d: "terminal_find ''v'' ?d = Some t" "acceptInput demo_env t ''b'' (demo_input 2) ?d = Inr (v, d')"
    "length (terminal_input d') = 2" by (auto split: option.splits sum.splits)
  have id: "te_id t = ''v''" by (rule terminal_find_id [OF d(1)])
  have "no_terminals demo_db" by code_simp
  from accept_outcomes [OF this refl, where t = t and xs = demo_run and a = "''b''" and b = "demo_input 2" and e = demo_env] d id
  show ?thesis by auto
qed

text \<open>Input that waits is bounded, and none is kept longer than needed: in every reachable
  database each terminal has at most 128 frames and 64 KiB of undelivered input, and the bytes of
  every frame that has been delivered, denied or given up have been erased.\<close>

theorem waiting_input_bounded:
  assumes "no_terminals d0" and "d = serve happen xs d0"
  shows "length (pending_input i d) \<le> 128 \<and> pending_bytes i d \<le> 65536 \<and>
    (\<forall>r \<in> set (terminal_input d). ti_terminal r = i \<longrightarrow> \<not> input_open r \<longrightarrow> ti_bytes r = None)"
proof -
  have z: "inputs i d0 = []" using assms(1) by (simp add: no_terminals_def inputs_def)
  have "waiting (inputs i d) \<le> 128" unfolding assms(2)
    by (rule waiting_inputs.serve_bounded) (simp add: z waiting_def)
  moreover have "waiting_bytes (inputs i d) \<le> 65536" unfolding assms(2)
    by (rule waiting_input_bytes.serve_bounded) (simp add: z waiting_bytes_def)
  moreover have "\<forall>r \<in> set (inputs i d). erased r" unfolding assms(2)
    by (rule erased_inputs.serve_keeps) (simp add: z)
  ultimately show ?thesis by (auto simp: pending_waiting inputs_def erased_def)
qed

theorem waiting_input_bounded_witness:
  "length (pending_input ''v'' (serve happen demo_run demo_db)) = 1 \<and>
   pending_bytes ''v'' (serve happen demo_run demo_db) \<le> 65536"
proof -
  have "no_terminals demo_db" "length (pending_input ''v'' (serve happen demo_run demo_db)) = 1" by code_simp+
  then show ?thesis using waiting_input_bounded [OF _ refl, of demo_db "''v''" demo_run] by simp
qed

end
