(* ===== verification/Terminal_Rows.thy ===== *)
theory Terminal_Rows
  imports Terminal_Safety
begin

text \<open>
  What every row of the table of terminals satisfies (\<open>terminal_ok\<close>), and how many terminals
  hold a workspace, in every run of requests and supervisor transactions. \<open>keeps_rows\<close> says
  that a statement changes rows only in ways that \<open>terminal_ok\<close> allows and gives no terminal a
  workspace; claiming a workspace is the one event that does.
\<close>

section \<open>Well-formed rows\<close>

definition settled_states :: "terminal_state set" where
  "settled_states = {TermTerminated, TermInterrupted, TermFailed}"

definition terminal_ok :: "terminal_row \<Rightarrow> bool" where
  "terminal_ok t \<longleftrightarrow>
     (te_retired t \<longleftrightarrow> te_state t \<in> settled_states) \<and>
     (te_writer_epoch t \<noteq> None \<longrightarrow> active_terminal t) \<and>
     (te_controller_until t \<noteq> None \<longrightarrow> te_state t = TermRunning) \<and>
     (te_controller_actor t = None \<longleftrightarrow> te_controller_epoch t = 0) \<and>
     (te_controller_id t = None \<longleftrightarrow> te_controller_epoch t = 0) \<and>
     terminalSize (te_resize_cols t) (te_resize_rows t) \<and>
     te_control_count t \<le> 4 \<and> te_resize_count t \<le> 4 \<and> te_input_frames t \<le> 20 \<and> te_input_bytes t \<le> 262144 \<and>
     te_termination_attempts t \<le> 3 \<and> te_deadline t = te_created_at t + 86400000 \<and> te_restored_from t = None"

definition holders :: "db \<Rightarrow> nat" where
  "holders d = count_where (\<lambda>t. te_writer_epoch t \<noteq> None) (terminals d)"

definition terminals_ok :: "db \<Rightarrow> bool" where
  "terminals_ok d \<longleftrightarrow> distinct (map te_id (terminals d)) \<and> (\<forall>t \<in> set (terminals d). terminal_ok t)"

definition keeps_rows :: "db \<Rightarrow> db \<Rightarrow> bool" where
  "keeps_rows d d' \<longleftrightarrow> (terminals_ok d \<longrightarrow> terminals_ok d' \<and> holders d' \<le> holders d)"

lemma keeps_rows_refl [simp]: "keeps_rows d d"
  by (simp add: keeps_rows_def)

lemma keeps_rows_trans: "keeps_rows d d1 \<Longrightarrow> keeps_rows d1 d2 \<Longrightarrow> keeps_rows d d2"
  by (auto simp: keeps_rows_def)

lemma keeps_same: "terminals d' = terminals d \<Longrightarrow> keeps_rows d d'"
  by (simp add: keeps_rows_def terminals_ok_def holders_def)

lemma keeps_update:
  assumes "\<And>t. te_id (f t) = te_id t"
    and "\<And>t. t \<in> set (terminals d) \<Longrightarrow> P t \<Longrightarrow> terminal_ok t \<Longrightarrow> terminal_ok (f t) \<and> (te_writer_epoch (f t) \<noteq> None \<longrightarrow> te_writer_epoch t \<noteq> None)"
  shows "keeps_rows d (d\<lparr>terminals := update_where P f (terminals d)\<rparr>)"
  unfolding keeps_rows_def
proof (intro impI conjI)
  assume ok: "terminals_ok d"
  have "distinct (map te_id (update_where P f (terminals d)))"
    using ok assms(1) by (simp add: terminals_ok_def map_update_where_key)
  then show "terminals_ok (d\<lparr>terminals := update_where P f (terminals d)\<rparr>)"
    using ok assms(2) by (auto simp: terminals_ok_def table_simps)
  have "count_where (\<lambda>t. te_writer_epoch t \<noteq> None) (update_where P f (terminals d)) \<le>
      count_where (\<lambda>t. te_writer_epoch t \<noteq> None) (terminals d)"
  proof (rule count_where_update_le)
    fix t assume "t \<in> set (terminals d)" "te_writer_epoch (if P t then f t else t) \<noteq> None"
    then show "te_writer_epoch t \<noteq> None" using ok assms(2) [of t] by (cases "P t") (auto simp: terminals_ok_def)
  qed
  then show "holders (d\<lparr>terminals := update_where P f (terminals d)\<rparr>) \<le> holders d"
    by (simp add: holders_def)
qed

text \<open>An update of one terminal whose row is known.\<close>

lemma keeps_one:
  assumes "\<And>t. te_id (f t) = te_id t" and "terminal_find i d = Some t"
    and "terminal_ok t \<Longrightarrow> terminal_ok (f t) \<and> (te_writer_epoch (f t) \<noteq> None \<longrightarrow> te_writer_epoch t \<noteq> None)"
  shows "keeps_rows d (update_terminal i f d)"
proof -
  have "keeps_rows d (d\<lparr>terminals := update_where (\<lambda>t. te_id t = i) f (terminals d)\<rparr>)" if ok: "terminals_ok d"
  proof (rule keeps_update)
    fix u assume u: "u \<in> set (terminals d)" "te_id u = i" "terminal_ok u"
    have "find (\<lambda>t. te_id t = te_id u) (terminals d) = Some u"
      using ok u(1) by (intro find_distinct) (simp_all add: terminals_ok_def)
    then have "u = t" using assms(2) u(2) by (simp add: terminal_find_def)
    then show "terminal_ok (f u) \<and> (te_writer_epoch (f u) \<noteq> None \<longrightarrow> te_writer_epoch u \<noteq> None)" using assms(3) u(3) by simp
  qed (rule assms(1))
  then show ?thesis by (simp add: keeps_rows_def update_terminal_def)
qed

lemma keeps_any:
  assumes "\<And>t. te_id (f t) = te_id t"
    and "\<And>t. terminal_ok t \<Longrightarrow> terminal_ok (f t) \<and> (te_writer_epoch (f t) \<noteq> None \<longrightarrow> te_writer_epoch t \<noteq> None)"
  shows "keeps_rows d (update_terminal i f d)"
  unfolding update_terminal_def by (rule keeps_update) (use assms in auto)

lemmas ok_defs = terminal_ok_def settled_states_def active_terminal_def

section \<open>Requests\<close>

lemma control_keeps: "controlRate e i d = Inr d' \<Longrightarrow> keeps_rows d d'"
  by (auto simp: controlRate_def ok_defs split: if_splits intro!: keeps_update)

lemma control_find:
  assumes "controlRate e j d = Inr d'" and "terminal_find i d = Some t"
  obtains u where "terminal_find i d' = Some u" "te_state u = te_state t" "te_retired u = te_retired t"
    "te_termination_attempts u = te_termination_attempts t" "te_writer_epoch u = te_writer_epoch t"
  using assms by (auto simp: controlRate_def terminal_find_def find_update_where_key split: if_splits)

lemma acquire_keeps:
  assumes "acquireControl e t a b c d = Inr (v, d')" and t: "terminal_find (te_id t) d = Some t"
  shows "keeps_rows d d'"
proof -
  from assms obtain d1 where c: "controlRate e (te_id t) d = Inr d1" and s: "te_state t = TermRunning"
    and d': "d' = update_terminal (te_id t) (controlled_by e a c) d1"
    by (auto simp: acquireControl_def res_simps Let_def)
  obtain u where u: "terminal_find (te_id t) d1 = Some u" "te_state u = te_state t" by (rule control_find [OF c t])
  have "keeps_rows d1 d'" unfolding d'
    by (rule keeps_one [OF _ u(1)]) (use u(2) s in \<open>auto simp: controlled_by_def ok_defs\<close>)
  then show ?thesis using control_keeps [OF c] keeps_rows_trans by blast
qed

lemma admit_keeps:
  assumes a: "admit_input e t a b x d = Inr (v, d')" and t: "terminal_find (te_id t) d = Some t"
  shows "keeps_rows d d'"
proof -
  let ?f = "\<lambda>y. y\<lparr> te_input_sequence := fi_sequence b, te_input_bytes := te_input_bytes y + length x,
     te_input_frames := te_input_frames y + 1 \<rparr>"
  let ?d1 = "update_terminal (te_id t) (input_rate e) d"
  have f1: "terminal_find (te_id t) ?d1 = Some (input_rate e t)"
    using t by (simp add: update_terminal_find input_rate_def Let_def)
  from a have ins: "insert_input (new_input e t a b x) (update_terminal (te_id t) ?f ?d1) = Inr d'"
    and lim: "te_input_bytes (input_rate e t) + length x \<le> 262144" "te_input_frames (input_rate e t) < 20"
    unfolding admit_input_def Let_def f1 by (auto simp: res_simps split: if_splits)
  have "keeps_rows d ?d1" by (rule keeps_any) (auto simp: input_rate_def Let_def ok_defs)
  moreover have "keeps_rows ?d1 (update_terminal (te_id t) ?f ?d1)"
    by (rule keeps_one [OF _ f1]) (use lim in \<open>auto simp: ok_defs\<close>)
  moreover have "keeps_rows (update_terminal (te_id t) ?f ?d1) d'"
    using ins by (auto simp: insert_input_def split: if_splits intro: keeps_same)
  ultimately show ?thesis using keeps_rows_trans by blast
qed

lemma accept_keeps: "acceptInput e t a b d = Inr (v, d') \<Longrightarrow> terminal_find (te_id t) d = Some t \<Longrightarrow> keeps_rows d d'"
  by (auto simp: acceptInput_def res_simps split: if_splits dest: admit_keeps)

lemma resize_keeps:
  assumes "resize e t a b d = Inr d'" and t: "terminal_find (te_id t) d = Some t" and b: "terminalResize e b"
  shows "keeps_rows d d'"
proof -
  let ?f = "\<lambda>x. x\<lparr> te_resize_sequence := fz_sequence b, te_resize_cols := fz_cols b,
         te_resize_rows := fz_rows b, te_resize_pending := True, te_resize_count := te_resize_count x + 1 \<rparr>"
  let ?d1 = "update_terminal (te_id t) (resize_rate e) d"
  have f1: "terminal_find (te_id t) ?d1 = Some (resize_rate e t)"
    using t by (simp add: update_terminal_find resize_rate_def Let_def)
  have "d' = d \<or> (te_resize_count (resize_rate e t) < 4 \<and> d' = update_terminal (te_id t) ?f ?d1)"
    using assms(1) unfolding resize_def Let_def f1 by (auto simp: res_simps split: if_splits)
  moreover have "keeps_rows d ?d1" by (rule keeps_any) (auto simp: resize_rate_def Let_def ok_defs)
  moreover have "keeps_rows ?d1 (update_terminal (te_id t) ?f ?d1)" if "te_resize_count (resize_rate e t) < 4"
    by (rule keeps_one [OF _ f1]) (use that b in \<open>auto simp: ok_defs terminalResize_def\<close>)
  ultimately show ?thesis using keeps_rows_trans keeps_rows_refl by blast
qed

lemma heartbeat_keeps:
  assumes "heartbeat e t a b d = Inr d'" and t: "terminal_find (te_id t) d = Some t"
  shows "keeps_rows d d'"
proof -
  have "te_state t = TermRunning" using assms(1) by (auto simp: heartbeat_def res_simps dest: requireController_names)
  let ?f = "\<lambda>x. if beats e x then x\<lparr> te_heartbeat_at := Some (now e),
    te_controller_until := Some (min (te_deadline x) (now e + 20000)) \<rparr> else x"
  have "d' = update_terminal (te_id t) ?f d"
    using assms(1) by (auto simp: heartbeat_def res_simps update_terminal_def update_where_def)
  moreover have "keeps_rows d (update_terminal (te_id t) ?f d)"
    by (rule keeps_one [OF _ t]) (use \<open>te_state t = TermRunning\<close> in \<open>auto simp: ok_defs\<close>)
  ultimately show ?thesis by simp
qed

lemma terminate_keeps:
  assumes "terminate_terminal e j a g d = Inr (v, d')"
  shows "keeps_rows d d'"
proof -
  from assms have "d' = d \<or> (\<exists>(t :: terminal_row) name d1. lockedTerminal e d j a TerminalTerminate = Inr (t, name) \<and>
      \<not> te_retired t \<and> te_termination_attempts t < 3 \<and> controlRate e (te_id t) d = Inr d1 \<and>
      d' = update_terminal (te_id t) ended d1)"
    unfolding terminate_terminal_def Let_def by (auto simp: res_simps split: if_splits)
  then show ?thesis
  proof (elim disjE exE conjE)
    fix t :: terminal_row and name d1
    assume l: "lockedTerminal e d j a TerminalTerminate = Inr (t, name)" and r: "\<not> te_retired t"
      and n: "te_termination_attempts t < 3" and c: "controlRate e (te_id t) d = Inr d1" and d': "d' = update_terminal (te_id t) ended d1"
    have "terminal_find (te_id t) d = Some t" using lockedTerminal_find [OF l] terminal_find_id by metis
    then obtain u where u: "terminal_find (te_id t) d1 = Some u" "te_retired u = te_retired t"
      "te_termination_attempts u = te_termination_attempts t" by (rule control_find [OF c])
    have "keeps_rows d1 d'" unfolding d'
      by (rule keeps_one [OF _ u(1)]) (use u r n in \<open>auto simp: ended_def ok_defs\<close>)
    then show ?thesis using control_keeps [OF c] keeps_rows_trans by blast
  qed simp
qed

lemma create_keeps:
  assumes "create_terminal e w a b j d = Inr (v, d')"
  shows "keeps_rows d d'"
proof -
  from assms obtain ws g where sz: "terminalSize (tc_cols b) (tc_rows b)" and new: "\<forall>x \<in> set (terminals d). te_id x \<noteq> j"
    and d': "terminals d' = terminals d @ [new_terminal e j ws a b g]"
    unfolding create_terminal_def insert_terminal_def Let_def by (auto simp: res_simps new_terminal_def split: if_splits)
  have "terminal_ok (new_terminal e j ws a b g)" "te_writer_epoch (new_terminal e j ws a b g) = None" "te_id (new_terminal e j ws a b g) = j"
    using sz by (simp_all add: new_terminal_def ok_defs)
  then show ?thesis using new by (auto simp: keeps_rows_def terminals_ok_def holders_def d')
qed

lemma drop_keeps: "keeps_rows d (drop_terminal j d)"
  by (auto simp: keeps_rows_def terminals_ok_def holders_def drop_terminal_def distinct_delete_where table_simps
      intro: count_where_delete_le)

lemma remove_keeps:
  assumes "remove_terminal e j a d = Inr d'"
  shows "keeps_rows d d'"
proof -
  from assms obtain t :: terminal_row and d1 where c: "controlRate e (te_id t) d = Inr d1" and d': "d' = drop_terminal (te_id t) d1"
    unfolding remove_terminal_def by (auto simp: res_simps)
  show ?thesis unfolding d' by (rule keeps_rows_trans [OF control_keeps [OF c] drop_keeps])
qed

section \<open>The supervisor\<close>

lemma supervisor_keeps:
  "keeps_rows d (starting_reset d)" "keeps_rows d (orphan_dispatch j d)" "keeps_rows d (stop_terminal j c d)"
  "keeps_rows d (launched r d)" "keeps_rows d (resize_done u d)" "keeps_rows d (retire_failed j d)"
  "keeps_rows d (refuse_terminal u c d)" "keeps_rows d (save_exit j x d)"
  unfolding starting_reset_def orphan_dispatch_def stop_terminal_def launched_def resize_done_def
    retire_failed_def refuse_terminal_def
  by (rule keeps_update; auto simp: ok_defs)+
    (cases x; simp add: save_exit_def; rule keeps_update; auto simp: ok_defs)

lemma prune_keeps: "keeps_rows d (pruneOutput e j d)"
proof -
  have a: "keeps_rows d (d\<lparr>terminal_output := x\<rparr>)" for x by (rule keeps_same) simp
  have b: "keeps_rows d1 (update_terminal j (\<lambda>t. t\<lparr>te_output_floor := n t\<rparr>) d1)" for d1 n
    by (rule keeps_any) (auto simp: ok_defs)
  show ?thesis unfolding pruneOutput_def Let_def using a keeps_rows_trans [OF a b] by presburger
qed

lemma save_keeps: "keeps_rows d (save_output j f high d)"
proof -
  have a: "keeps_rows d (update_terminal j (\<lambda>t. t\<lparr> te_output_sequence := high, te_output_floor := x t, te_output_lost := y t \<rparr>) d)" for x y
    by (rule keeps_any) (auto simp: ok_defs)
  have b: "keeps_rows d1 (d1\<lparr>terminal_output := x\<rparr>)" for d1 x by (rule keeps_same) simp
  show ?thesis unfolding save_output_def Let_def using a keeps_rows_trans [OF a b] by presburger
qed

lemma repair_keeps: "keeps_rows d (settle_input j p d)"
proof -
  have a: "keeps_rows d (d\<lparr>terminal_input := x\<rparr>)" for x by (rule keeps_same) simp
  have b: "keeps_rows d1 (update_terminal j (\<lambda>t. t\<lparr>te_input_uncertain := True, te_controller_until := None\<rparr>) d1)" for d1
    by (rule keeps_any) (auto simp: ok_defs)
  show ?thesis unfolding settle_input_def Let_def using a keeps_rows_trans [OF a b] by presburger
qed

lemma repairs_keep: "keeps_rows d (fold (settle_input j) ps d)"
  by (induction ps arbitrary: d) (auto intro: keeps_rows_trans repair_keeps)

lemma prune_input_keeps: "keeps_rows d (pruneInput j d)"
  by (rule keeps_same) (simp add: pruneInput_def)

lemma flush_commit_keeps:
  assumes "flush_commit e j gen f d = Inr d'"
  shows "keeps_rows d d'"
proof -
  from assms obtain t :: terminal_row and d1 high where
    ins: "insert_outputs e j (te_output_sequence t) (fl_chunks f) d = Inr d1"
    and d': "d' = pruneOutput e j (pruneInput j (save_exit j (fl_exit_code f) (fold (settle_input j) (fl_repairs f)
        (save_output j f high d1))))"
    unfolding flush_commit_def Let_def by (auto simp: res_simps)
  have "keeps_rows d d1" using insert_outputs_other [OF ins] by (simp add: keeps_same)
  then show ?thesis unfolding d'
    by (rule keeps_rows_trans [OF _ keeps_rows_trans [OF save_keeps keeps_rows_trans [OF repairs_keep
        keeps_rows_trans [OF supervisor_keeps(8) keeps_rows_trans [OF prune_input_keeps prune_keeps]]]]])
qed

lemma settle_retired_keeps: "keeps_rows d (settle_retired o' j d)"
proof -
  have a: "keeps_rows d (d\<lparr>terminal_input := x\<rparr>)" for x by (rule keeps_same) simp
  have b: "keeps_rows d1 (update_terminal j (\<lambda>t. t\<lparr> te_state := (if te_failure_code t = None then TermTerminated else TermInterrupted),
      te_retired := True, te_writer_epoch := None,
      te_controller_until := None, te_input_uncertain := u t \<rparr>) d1)" for d1 u
    by (rule keeps_any) (auto simp: ok_defs)
  show ?thesis unfolding settle_retired_def Let_def
    by (rule keeps_rows_trans [OF keeps_rows_trans [OF a b] prune_input_keeps])
qed

lemma update_workspaces_keeps: "update_workspaces P f d = Inr d' \<Longrightarrow> keeps_rows d d'"
  by (auto simp: update_workspaces_def res_simps intro!: keeps_same)

lemma retire_commit_keeps:
  assumes "retire_commit p t d = Inr d'"
  shows "keeps_rows d d'"
proof -
  from assms obtain fresh :: terminal_row and w d1 b where r: "release_terminal fresh w d = Inr d1"
    and d': "d' = settle_retired b (te_id t) d1"
    unfolding retire_commit_def by (auto simp: res_simps)
  have "keeps_rows d d1" using r unfolding release_terminal_def
    by (auto simp: res_simps split: option.splits intro: update_workspaces_keeps)
  then show ?thesis unfolding d' by (rule keeps_rows_trans [OF _ settle_retired_keeps])
qed

lemma wire_keeps:
  assumes "wire e c r g d = Inr d'"
  shows "keeps_rows d d'"
proof -
  from assms obtain t where "wire_action e t g d = Inr d'" unfolding wire_def by (auto simp: res_simps)
  then show ?thesis unfolding wire_action_def Let_def
    by (auto simp: res_simps split: if_splits intro!: keeps_same)
qed

lemma maintain_keeps: "maintain_output e j d = Inr d' \<Longrightarrow> keeps_rows d d'"
  by (auto simp: maintain_output_def res_simps intro: prune_keeps)

section \<open>Claiming a workspace\<close>

lemma holders_update_one:
  assumes "distinct (map te_id rows)"
  shows "count_where P (update_where (\<lambda>t. te_id t = i) f rows) \<le> Suc (count_where P rows)"
  using assms
proof (induction rows)
  case (Cons r rows)
  show ?case
  proof (cases "te_id r = i")
    case True
    then have "update_where (\<lambda>t. te_id t = i) f rows = rows" using Cons.prems
      by (intro update_where_none) (auto simp: image_iff)
    then show ?thesis by simp
  qed (use Cons in auto)
qed simp

lemma claim_rows:
  assumes c: "claim_terminal e c t d = Inr (b, d')" and ok: "terminals_ok d"
  shows "terminals_ok d' \<and> holders d' \<le> max 4 (holders d)"
proof -
  from c have "d' = d \<or> (\<exists>fresh name sel. terminalRow d (te_id t) = Inr (fresh, name) \<and> te_state fresh = TermQueued \<and>
      count_where active_terminal (terminals d) < 4 \<and> claim_workspace t sel d = Inr (b, d'))"
    unfolding claim_terminal_def by (auto simp: res_simps split: if_splits)
  then show ?thesis
  proof (elim disjE exE conjE)
    fix fresh name sel
    assume f: "terminalRow d (te_id t) = Inr (fresh, name)" and q: "te_state fresh = TermQueued"
      and n: "count_where active_terminal (terminals d) < 4" and w: "claim_workspace t sel d = Inr (b, d')"
    let ?f = "\<lambda>n x. x\<lparr>te_state := TermDispatching, te_writer_epoch := Some n\<rparr>"
    from w have "d' = d \<or> (\<exists>P g d1 n. update_workspaces P g d = Inr d1 \<and> d' = update_terminal (te_id t) (?f n) d1)"
      unfolding claim_workspace_def by (auto simp: res_simps split: if_splits prod.splits)
    then show ?thesis
    proof (elim disjE exE conjE)
      fix P g d1 n assume u: "update_workspaces P g d = Inr d1" and d': "d' = update_terminal (te_id t) (?f n) d1"
      have ts: "terminals d1 = terminals d" using u by (auto simp: update_workspaces_def res_simps)
      have rows: "terminals d' = update_where (\<lambda>x. te_id x = te_id t) (?f n) (terminals d)"
        by (simp add: d' update_terminal_def ts)
      have ids: "map te_id (terminals d') = map te_id (terminals d)" unfolding rows by (rule map_update_where_key) simp
      have dis: "distinct (map te_id (terminals d))" using ok by (simp add: terminals_ok_def)
      have same: "x = fresh" if "x \<in> set (terminals d)" "te_id x = te_id t" for x
        using find_distinct [OF dis that(1)] terminalRow_Inr [OF f] that(2) by (simp add: terminal_find_def)
      have "terminal_ok x" if x: "x \<in> set (terminals d')" for x
      proof -
        from x obtain y where y: "y \<in> set (terminals d)" "x = (if te_id y = te_id t then ?f n y else y)"
          unfolding rows update_where_def by auto
        then show ?thesis using ok same [of y] q by (auto simp: terminals_ok_def ok_defs)
      qed
      moreover have "holders d \<le> count_where active_terminal (terminals d)" unfolding holders_def
        using ok by (intro count_where_mono) (auto simp: terminals_ok_def terminal_ok_def)
      ultimately show ?thesis using dis ids n holders_update_one [OF dis, of "\<lambda>t. te_writer_epoch t \<noteq> None" "te_id t" "?f n"]
        by (simp add: terminals_ok_def holders_def rows [symmetric])
    qed (use ok in simp)
  qed (use ok in simp)
qed

section \<open>Every event\<close>

lemma locked_found: "lockedTerminal e d j a s = Inr (t, name) \<Longrightarrow> terminal_find (te_id t) d = Some t"
  using lockedTerminal_find terminal_find_id by metis

lemma terminal_op_keeps:
  assumes op: "terminal_op (e, a, x) d = Inr d'"
  shows "keeps_rows d d'"
proof (cases x)
  case (ReadOutput j cursor)
  then obtain u v where "outputSnapshot e u cursor d = Inr (v, d')" using op by (auto simp: terminal_output_get_def res_simps)
  then have "d' = pruneOutput e (te_id u) d" by (auto dest: snapshot_db)
  then show ?thesis using prune_keeps by simp
qed (use op in \<open>auto simp: res_simps intro: create_keeps acquire_keeps accept_keeps resize_keeps heartbeat_keeps
    terminate_keeps remove_keeps dest: locked_found\<close>)

lemma happen_rows:
  assumes "happen x d = Inr d'" and ok: "terminals_ok d"
  shows "terminals_ok d' \<and> holders d' \<le> max 4 (holders d)"
proof (cases x)
  case (Claim e c t)
  then obtain b where "claim_terminal e c t d = Inr (b, d')" using assms by (auto simp: res_simps)
  then show ?thesis using claim_rows ok by blast
next
  case (Request e a y)
  then have "keeps_rows d d'" using assms terminal_op_keeps by simp
  then show ?thesis using ok by (auto simp: keeps_rows_def)
qed (use assms supervisor_keeps in \<open>auto simp: keeps_rows_def le_max_iff_disj
    dest!: wire_keeps flush_commit_keeps retire_commit_keeps maintain_keeps\<close>)

interpretation terminal_rows: invariant_ops happen terminals_ok
  by unfold_locales (simp add: happen_rows)

interpretation workspace_holders: invariant_ops happen "\<lambda>d. terminals_ok d \<and> holders d \<le> 4"
  by unfold_locales (use happen_rows in fastforce)

section \<open>Properties\<close>

text \<open>C33: Every row of the table of terminals is well formed, in every reachable database: it is
  retired exactly in the three final states; only an active terminal holds a workspace and only a
  running one has a controller's lease; actor and identity of the controller are set exactly from
  the first epoch on; the window size is within its limits; and the rate counters stay within four
  control changes and four resizes a second, twenty frames a second, 256 KiB of input a minute and
  three attempts at termination.\<close>

theorem terminals_well_formed:
  assumes "no_terminals d0" and "t \<in> set (terminals (serve happen xs d0))"
  shows "terminal_ok t"
proof -
  have "terminals_ok d0" using assms(1) by (simp add: no_terminals_def terminals_ok_def)
  then have "terminals_ok (serve happen xs d0)" by (rule terminal_rows.serve_keeps)
  then show ?thesis using assms(2) by (simp add: terminals_ok_def)
qed

theorem terminals_well_formed_witness:
  "\<exists>t. terminals (serve happen demo_run demo_db) = [t] \<and> te_state t = TermRunning \<and> terminal_ok t"
proof -
  have d: "no_terminals demo_db" by code_simp
  have "case terminals (serve happen demo_run demo_db) of [t] \<Rightarrow> te_state t = TermRunning | _ \<Rightarrow> False" by code_simp
  then obtain t where t: "terminals (serve happen demo_run demo_db) = [t]" "te_state t = TermRunning"
    by (auto split: list.splits)
  with terminals_well_formed [OF d, of t demo_run] show ?thesis by simp
qed

text \<open>At most four terminals hold a workspace, whatever requests arrive and however the
  supervisor's transactions interleave, also when queued terminals are stopped by an emergency and
  so count as active without ever having been claimed.\<close>

theorem four_terminals_hold:
  assumes "no_terminals d0"
  shows "count_where (\<lambda>t. te_writer_epoch t \<noteq> None) (terminals (serve happen xs d0)) \<le> 4"
proof -
  have "terminals_ok d0 \<and> holders d0 \<le> 4" using assms by (simp add: no_terminals_def terminals_ok_def holders_def)
  then have "terminals_ok (serve happen xs d0) \<and> holders (serve happen xs d0) \<le> 4" by (rule workspace_holders.serve_keeps)
  then show ?thesis by (simp add: holders_def)
qed

theorem four_terminals_hold_witness:
  "count_where (\<lambda>t. te_writer_epoch t \<noteq> None) (terminals (serve happen demo_run demo_db)) = 1 \<and> (1 :: nat) \<le> 4"
proof -
  have d: "no_terminals demo_db"
    "count_where (\<lambda>t. te_writer_epoch t \<noteq> None) (terminals (serve happen demo_run demo_db)) = 1" by code_simp+
  show ?thesis using four_terminals_hold [OF d(1), of demo_run] d(2) by simp
qed

end
