(* ===== verification/Turn_Supervisor.thy ===== *)
theory Turn_Supervisor
  imports Turns Schedule_Authority
begin

text \<open>
  What the supervisor writes about turns (\<^verbatim>\<open>apps/supervisor/src/main.ts\<close>): the
  transaction it starts with, the settlement of a turn, the notifications and the requests of a
  runtime, answers, cancellations and the emergency stop. Each definition is one transaction, or
  one statement where the program runs it on its own. What the runtime answers is an argument.
\<close>

section \<open>Shared statements\<close>

fun op_state_text :: "op_state \<Rightarrow> string" where
  "op_state_text Queued = ''queued''"
| "op_state_text Dispatching = ''dispatching''"
| "op_state_text Running = ''running''"
| "op_state_text WaitingApproval = ''waiting_approval''"
| "op_state_text WaitingInput = ''waiting_input''"
| "op_state_text Succeeded = ''succeeded''"
| "op_state_text Failed = ''failed''"
| "op_state_text Interrupted = ''interrupted''"
| "op_state_text Uncertain = ''uncertain''"

definition emit :: "env \<Rightarrow> uuid \<Rightarrow> string \<Rightarrow> (string \<times> json) list \<Rightarrow> db \<Rightarrow> db res" where
  "emit e i type data d = andThen (event e i type (JObj data) d) (\<lambda>(_, d'). Inr d')"

fun each :: "('a \<Rightarrow> db \<Rightarrow> db res) \<Rightarrow> 'a list \<Rightarrow> db \<Rightarrow> db res" where
  "each f [] d = Inr d"
| "each f (x # xs) d = andThen (f x d) (each f xs)"

definition operation_find :: "uuid \<Rightarrow> db \<Rightarrow> operation_row option" where
  "operation_find i d = find (\<lambda>x. op_id x = i) (operations d)"

definition update_operations :: "(operation_row \<Rightarrow> bool) \<Rightarrow> (operation_row \<Rightarrow> operation_row) \<Rightarrow> db \<Rightarrow> db" where
  "update_operations P f d = d\<lparr>operations := update_where P f (operations d)\<rparr>"

definition to_state :: "env \<Rightarrow> op_state \<Rightarrow> operation_row \<Rightarrow> operation_row" where
  "to_state e st x = x\<lparr>op_state := st, op_updated_at := now e\<rparr>"

definition open_approval :: "approval_row \<Rightarrow> bool" where
  "open_approval a \<longleftrightarrow> ap_state a \<in> {''pending'', ''answering''}"

definition expire_approvals :: "(approval_row \<Rightarrow> bool) \<Rightarrow> db \<Rightarrow> db" where
  "expire_approvals P d = d\<lparr>approvals := update_where (\<lambda>a. P a \<and> open_approval a) (\<lambda>a. a\<lparr>ap_state := ''expired''\<rparr>) (approvals d)\<rparr>"

section \<open>Settling an operation\<close>

definition may_settle :: "op_state \<Rightarrow> op_state \<Rightarrow> bool" where
  "may_settle old new \<longleftrightarrow> (old \<noteq> Uncertain \<or> new = Uncertain) \<and>
     (new \<noteq> Uncertain \<or> active_state old \<or> old = Uncertain)"

definition update_operation :: "env \<Rightarrow> uuid \<Rightarrow> op_state \<Rightarrow> (string \<times> json) list \<Rightarrow> db \<Rightarrow> db res" where
  "update_operation e i st data d =
     (case operation_find i d of
        None \<Rightarrow> Inr d
      | Some x \<Rightarrow> andThen (lockSessionResource d (op_session x)) (\<lambda>_.
          let d1 = update_operations (\<lambda>y. op_id y = i \<and> may_settle (op_state y) st) (to_state e st) d;
              d2 = snd (deriveSessionState (op_session x) d1);
              d3 = (if st = Uncertain then expire_approvals (\<lambda>a. ap_operation a = i) d2 else d2)
          in emit e (op_session x) (''operation.'' @ op_state_text st) ((''operationId'', JStr i) # data) d3))"

section \<open>Starting\<close>

text \<open>
  \<open>absent\<close> is what \<^verbatim>\<open>inspectRecoveredLocalRuntime\<close> finds of a membership of the
  personal profile: the runtime is known to be gone.
\<close>

definition settle_controls :: "env \<Rightarrow> db \<Rightarrow> db" where
  "settle_controls e d = update_operations (\<lambda>x. op_kind x \<noteq> TurnOp \<and>
     (dispatched_state (op_state x) \<or> op_state x = Uncertain) \<and>
     (\<not> personal_mode e \<or> op_state x \<noteq> Uncertain \<or> op_acknowledged_at x \<noteq> None)) (to_state e Failed) d"

definition running_turn :: "operation_row \<Rightarrow> bool" where
  "running_turn x \<longleftrightarrow> op_kind x = TurnOp \<and> dispatched_state (op_state x)"

definition strand_turns :: "env \<Rightarrow> db \<Rightarrow> db" where
  "strand_turns e d = update_operations running_turn (to_state e Uncertain) d"

definition fail_fencing :: "env \<Rightarrow> db \<Rightarrow> db" where
  "fail_fencing e d = d\<lparr>session_recoveries := update_where (\<lambda>r. rc_state r = RecFencing)
     (\<lambda>r. r\<lparr> rc_state := RecFailed, rc_updated_at := now e,
       rc_report := JObj [(''status'', JStr ''unavailable''),
         (''reason'', JStr ''Supervisor restarted during fencing; retry explicitly'')] \<rparr>) (session_recoveries d)\<rparr>"

definition stop_background :: "bool \<Rightarrow> session_row \<Rightarrow> session_row" where
  "stop_background req s = s\<lparr>se_background_until := None, se_background_stop := req\<rparr>"

definition strand_session :: "session_row \<Rightarrow> session_row" where
  "strand_session s = (stop_background True s)\<lparr>se_state := SessionIn Uncertain\<rparr>"

definition drop_member :: "uuid \<Rightarrow> nat \<Rightarrow> db \<Rightarrow> db" where
  "drop_member i gen d = d\<lparr>conversation_runtimes :=
     delete_where (\<lambda>r. cr_session r = i \<and> cr_generation r = gen) (conversation_runtimes d)\<rparr>"

definition restart_member :: "env \<Rightarrow> (runtime_row \<Rightarrow> bool) \<Rightarrow> runtime_row \<Rightarrow> db \<Rightarrow> db res" where
  "restart_member e absent m d =
     (case session_find (cr_session m) d of
        None \<Rightarrow> Inr d
      | Some s \<Rightarrow>
          if se_generation s \<noteq> cr_generation m then Inr d
          else if absent m
          then emit e (cr_session m) ''background.stopped'' [(''generation'', JNum (int (cr_generation m)))]
            (update_session (cr_session m) (stop_background False) (drop_member (cr_session m) (cr_generation m) d))
          else Inr (update_session (cr_session m) strand_session
            (d\<lparr>conversation_runtimes := update_where
               (\<lambda>r. cr_session r = cr_session m \<and> cr_generation r = cr_generation m)
               (\<lambda>r. r\<lparr>cr_state := RtUnknown, cr_idle_until := None\<rparr>) (conversation_runtimes d)\<rparr>)))"

definition abandoned :: "env \<Rightarrow> db \<Rightarrow> session_row \<Rightarrow> bool" where
  "abandoned e d s \<longleftrightarrow> se_background_until s \<noteq> None \<and> (\<not> personal_mode e \<or>
     \<not> exists_row (\<lambda>r. cr_session r = se_id s \<and> cr_generation r \<noteq> se_generation s) (conversation_runtimes d))"

definition restart_turn :: "env \<Rightarrow> nat \<Rightarrow> uuid \<Rightarrow> db \<Rightarrow> db res" where
  "restart_turn e g i d = emit e i ''runtime.uncertain''
     [(''reason'', JStr ''Supervisor restarted; dispatched effects are not replayed'')]
     (update_session i (\<lambda>s. s\<lparr> se_state := SessionIn Uncertain,
        se_generation := (if personal_mode e then se_generation s else g) \<rparr>) d)"

definition restart_repair :: "env \<Rightarrow> uuid \<times> nat \<Rightarrow> db \<Rightarrow> db res" where
  "restart_repair e x d = andThen (repairReleasedPersonalSession (fst x) (snd x) d) (\<lambda>(r, d').
     if r = None then Inr d'
     else emit e (fst x) ''background.stopped'' [(''generation'', JNum (int (snd x)))] d')"

definition uncertain_sessions :: "db \<Rightarrow> (uuid \<times> nat) list" where
  "uncertain_sessions d = map (\<lambda>s. (se_id s, se_generation s))
     (sort_key se_id (filter (\<lambda>s. se_state s = SessionIn Uncertain) (sessions d)))"

definition start_generation :: "env \<Rightarrow> (runtime_row \<Rightarrow> bool) \<Rightarrow> db \<Rightarrow> (nat \<times> db) res" where
  "start_generation e absent d =
     (let g = Suc (meta_generation d);
          d1 = settle_controls e (d\<lparr>meta_generation := g\<rparr>);
          rows = map op_session (filter running_turn (operations d1));
          d2 = expire_approvals (\<lambda>_. True) (fail_fencing e (strand_turns e d1))
      in if personal_mode e \<and> exists_row (\<lambda>w. ws_writer_owner w \<noteq> None) (workspaces d2)
         then Inl (Crash ''Drain legacy personal workspace reservations before upgrading'')
         else andThen (each (restart_member e absent) (if personal_mode e then conversation_runtimes d2 else []) d2) (\<lambda>d3.
           let gone = map se_id (filter (abandoned e d3) (sessions d3));
               d4 = d3\<lparr>sessions := update_where (abandoned e d3) strand_session (sessions d3)\<rparr>
           in andThen (each (\<lambda>i. emit e i ''runtime.uncertain'' [(''reason'',
                JStr ''Supervisor restarted while development processes were retained; workspace ownership requires trusted process retirement before recovery'')])
                gone d4) (\<lambda>d5.
              andThen (each (restart_turn e g) rows d5) (\<lambda>d6.
              andThen (if personal_mode e then each (restart_repair e) (uncertain_sessions d6) d6 else Inr d6) (\<lambda>d7.
              Inr (g, d7))))))"

section \<open>Output of a conversation\<close>

text \<open>
  \<^verbatim>\<open>saveConversationOutput\<close> of \<^verbatim>\<open>conversation-output.ts\<close>. A field that
  is absent, or not a text where one is expected, is \<open>None\<close>.
\<close>

record native_item =
  it_id :: "string option"
  it_type :: string
  it_text :: "string option"
  it_command :: string
  it_cwd :: string
  it_aggregated :: "string option"
  it_status :: string
  it_exit :: "string option"

datatype turn_status = StatusCompleted | StatusInterrupted | StatusOther

record notification =
  nt_method :: string
  nt_thread :: string
  nt_turn :: string
  nt_status :: turn_status
  nt_item :: "native_item option"
  nt_item_id :: "string option"
  nt_delta :: "string option"

definition commandLimit :: nat where "commandLimit = 32768"

definition bounded :: "string \<Rightarrow> nat \<Rightarrow> string" where
  "bounded text limit = (if length text \<le> limit then text
     else take (limit - 100) text @ [CHR 0x0A] @ ''[Command output truncated at 32 KiB]'')"

definition is_agent_item :: "notification \<Rightarrow> bool" where
  "is_agent_item n \<longleftrightarrow> nt_method n = ''item/completed'' \<and> some_holds (\<lambda>i. it_type i = ''agentMessage'') (nt_item n)"

definition is_command_item :: "notification \<Rightarrow> bool" where
  "is_command_item n \<longleftrightarrow> nt_method n \<in> {''item/started'', ''item/completed''} \<and>
     some_holds (\<lambda>i. it_type i = ''commandExecution'') (nt_item n)"

definition is_agent_delta :: "notification \<Rightarrow> bool" where
  "is_agent_delta n \<longleftrightarrow> nt_method n = ''item/agentMessage/delta''"

definition is_command_delta :: "notification \<Rightarrow> bool" where
  "is_command_delta n \<longleftrightarrow> nt_method n = ''item/commandExecution/outputDelta''"

definition output_role :: "notification \<Rightarrow> role" where
  "output_role n = (if is_agent_delta n \<or> is_agent_item n then AssistantRole else ToolRole)"

definition command_text :: "notification \<Rightarrow> native_item \<Rightarrow> string option \<Rightarrow> string" where
  "command_text n i old =
     (let heading = ''$ '' @ it_command i @ [CHR 0x0A] @ ''Directory: '' @ it_cwd i @ [CHR 0x0A];
          text = (case it_aggregated i of Some out \<Rightarrow> heading @ out
                  | None \<Rightarrow> (case old of Some t \<Rightarrow> t | None \<Rightarrow> heading))
      in if nt_method n = ''item/completed''
         then bounded text (commandLimit - 256) @ [CHR 0x0A] @ ''Status: '' @ it_status i @ ''; exit code: '' @
           (case it_exit i of None \<Rightarrow> ''unavailable'' | Some c \<Rightarrow> c)
         else text)"

definition output_text :: "notification \<Rightarrow> string option \<Rightarrow> string res" where
  "output_text n old = andThen
     (if is_agent_delta n \<or> is_command_delta n
      then first_row (Crash ''Invalid native output delta'')
        (map_option (\<lambda>t. (case old of None \<Rightarrow> [] | Some o' \<Rightarrow> o') @ t) (nt_delta n))
      else if is_agent_item n then first_row (Crash ''Invalid native message'') (Option.bind (nt_item n) it_text)
      else (case nt_item n of None \<Rightarrow> Inl (Crash ''TypeError'') | Some i \<Rightarrow> Inr (command_text n i old)))
     (\<lambda>t. Inr (if output_role n = ToolRole then bounded t commandLimit else t))"

definition tool_bytes :: "uuid \<Rightarrow> db \<Rightarrow> nat" where
  "tool_bytes i d = sum_list (map (length \<circ> ms_text) (filter (\<lambda>m. ms_session m = i \<and> ms_role m = ToolRole) (messages d)))"

definition item_find :: "uuid \<Rightarrow> string \<Rightarrow> db \<Rightarrow> message_row option" where
  "item_find s it d = find (\<lambda>m. ms_session m = s \<and> ms_native_item m = Some it) (messages d)"

definition omitted_notice :: string where
  "omitted_notice = ''Further command diagnostics are omitted: the conversation output limit was reached. Assistant responses continue separately.''"

definition insert_message :: "message_row \<Rightarrow> db \<Rightarrow> db res" where
  "insert_message m d = (if exists_row (\<lambda>x. ms_id x = ms_id m) (messages d) then Inl (Crash ''messages_pkey'')
     else Inr (d\<lparr>messages := messages d @ [m]\<rparr>))"

definition omit_output :: "env \<Rightarrow> uuid \<Rightarrow> uuid \<Rightarrow> uuid \<Rightarrow> db \<Rightarrow> db res" where
  "omit_output e fresh sess opid d =
     (if history_bytes sess d + length omitted_notice \<le> 2097152 \<and> history_messages sess d < 2000 \<and>
         item_find sess ''harbor-command-output-limit'' d = None
      then andThen (insert_message \<lparr> ms_id = fresh, ms_session = sess, ms_operation = Some opid,
             ms_native_item = Some ''harbor-command-output-limit'', ms_role = SystemRole, ms_text = omitted_notice,
             ms_status = MsgComplete \<rparr> d) (emit e sess ''message.completed'' [(''role'', JStr ''system'')])
      else Inr d)"

definition put_message :: "uuid \<Rightarrow> uuid \<Rightarrow> uuid \<Rightarrow> string \<Rightarrow> role \<Rightarrow> string \<Rightarrow> msg_status \<Rightarrow> db \<Rightarrow> db res" where
  "put_message fresh sess opid it role text st d =
     (if item_find sess it d = None
      then insert_message \<lparr> ms_id = fresh, ms_session = sess, ms_operation = Some opid, ms_native_item = Some it,
             ms_role = role, ms_text = text, ms_status = st \<rparr> d
      else Inr (d\<lparr>messages := update_where (\<lambda>m. ms_session m = sess \<and> ms_native_item m = Some it)
             (\<lambda>m. m\<lparr>ms_text := text, ms_status := st\<rparr>) (messages d)\<rparr>))"

text \<open>\<open>added\<close> may be negative: a final text replaces longer deltas.\<close>

definition store_output :: "env \<Rightarrow> uuid \<Rightarrow> uuid \<Rightarrow> uuid \<Rightarrow> notification \<Rightarrow> string \<Rightarrow> message_row option \<Rightarrow> string \<Rightarrow> db \<Rightarrow> db res" where
  "store_output e fresh sess opid n it old text d =
     (let added = int (length text) - (case old of None \<Rightarrow> 0 | Some m \<Rightarrow> int (length (ms_text m)));
          total = int (history_bytes sess d)
      in if output_role n = ToolRole \<and> (int (tool_bytes sess d) + added > 262144 \<or> total + added > 2097152 \<or>
            (old = None \<and> history_messages sess d \<ge> 1900))
         then omit_output e fresh sess opid d
         else if length text > 262144 \<or> total + added > 2097152 \<or> (old = None \<and> history_messages sess d \<ge> 2000)
         then Inl (Crash ''Conversation output quota'')
         else let st = (if nt_method n = ''item/completed'' then MsgComplete else MsgStreaming)
           in andThen (put_message fresh sess opid it (output_role n) text st d)
             (emit e sess (if st = MsgComplete then ''message.completed'' else ''message.delta'')
               [(''itemId'', JStr it),
                (if is_agent_delta n then (''delta'', JStr (case nt_delta n of None \<Rightarrow> [] | Some t \<Rightarrow> t))
                 else (''role'', JStr (if output_role n = ToolRole then ''tool'' else ''assistant'')))]))"

definition saveConversationOutput :: "env \<Rightarrow> uuid \<Rightarrow> uuid \<Rightarrow> uuid \<Rightarrow> notification \<Rightarrow> db \<Rightarrow> db res" where
  "saveConversationOutput e fresh sess opid n d =
     (if \<not> is_agent_delta n \<and> \<not> is_agent_item n \<and> \<not> is_command_delta n \<and> \<not> is_command_item n then Inr d
      else case (case Option.bind (nt_item n) it_id of None \<Rightarrow> nt_item_id n | Some i \<Rightarrow> Some i) of
          None \<Rightarrow> Inl (Crash ''Missing native output item id'')
        | Some it \<Rightarrow>
            if it = [] then Inl (Crash ''Missing native output item id'')
            else let old = item_find sess it d in
              if some_holds (\<lambda>m. ms_operation m \<noteq> Some opid \<or> ms_role m \<noteq> output_role n) old
              then Inl (Crash ''Native output item ownership mismatch'')
              else if (is_agent_delta n \<or> is_command_delta n \<or> nt_method n = ''item/started'') \<and>
                some_holds (\<lambda>m. ms_status m = MsgComplete) old
              then Inr d
              else andThen (output_text n (map_option ms_text old)) (\<lambda>text.
                store_output e fresh sess opid n it old text d))"

end
