(* ===== verification/Turn_Runtime.thy ===== *)
theory Turn_Runtime
  imports Turn_Supervisor
begin

text \<open>
  The supervisor's runtimes: what it keeps in memory about each
  (\<^verbatim>\<open>apps/supervisor/src/main.ts\<close>), how a notification, a request, a failure of
  the mailbox and a retirement change that memory and the data base.

  The map \<^verbatim>\<open>runtimes\<close> and the captured objects that the closures keep after they
  have left the map are one list: \<open>rm_current\<close> says that the object is the map's entry of its
  session. A generation is drawn once, so session and generation identify the object.
\<close>

section \<open>Memory of the supervisor\<close>

record runtime =
  rm_session :: uuid
  rm_generation :: nat
  rm_profile :: profile
  rm_selected :: selected
  rm_actor :: "string option"
  rm_scope :: scope
  rm_credential :: string
  rm_operation :: uuid
  rm_thread :: string
  rm_turn :: string
  rm_poisoned :: bool
  rm_retiring :: bool
  rm_current :: bool

record candidate =
  ca_operation :: operation_row
  ca_session :: session_row
  ca_workspace :: workspace_row
  ca_project :: project_row

datatype phase = Considering | Preparing | Replacing | Admitting | Admitted | Launching | Launched | Binding | Bound | Sent

record stage =
  st_candidate :: candidate
  st_phase :: phase
  st_generation :: "nat option"
  st_existing :: bool
  st_created :: bool
  st_credential :: string

text \<open>A step of the tick that waits for the runtime's reply.\<close>

datatype waiting = NoReply | AnswerReply approval_row nat "unit res" | CancelReply operation_row uuid nat "unit res"
  | RecoveryWork recovery_row

record dispatcher =
  dp_generation :: nat
  dp_alive :: bool
  dp_mutating :: bool
  dp_credential :: string
  dp_runtimes :: "runtime list"
  dp_repairs :: "(uuid \<times> string) list"
  dp_cancel_repairs :: "(uuid \<times> op_state) list"
  dp_settlements :: "(uuid \<times> nat) list"
  dp_ticking :: bool
  dp_emergency :: bool
  dp_maintenance :: bool
  dp_candidates :: "candidate list"
  dp_stage :: "stage option"
  dp_waiting :: waiting

text \<open>\<^verbatim>\<open>runtimes.get(session)\<close>, a captured object, and its mutation.\<close>

definition runtime_of :: "dispatcher \<Rightarrow> uuid \<Rightarrow> runtime option" where
  "runtime_of p i = find (\<lambda>r. rm_session r = i \<and> rm_current r) (dp_runtimes p)"

definition runtime_at :: "dispatcher \<Rightarrow> uuid \<Rightarrow> nat \<Rightarrow> runtime option" where
  "runtime_at p i g = find (\<lambda>r. rm_session r = i \<and> rm_generation r = g) (dp_runtimes p)"

definition set_runtime :: "uuid \<Rightarrow> nat \<Rightarrow> (runtime \<Rightarrow> runtime) \<Rightarrow> dispatcher \<Rightarrow> dispatcher" where
  "set_runtime i g f p = p\<lparr>dp_runtimes := update_where (\<lambda>r. rm_session r = i \<and> rm_generation r = g) f (dp_runtimes p)\<rparr>"

definition unmap :: "uuid \<Rightarrow> nat \<Rightarrow> dispatcher \<Rightarrow> dispatcher" where
  "unmap i g = set_runtime i g (\<lambda>r. r\<lparr>rm_current := False\<rparr>)"

text \<open>The transaction's effect, or the state before it when it throws.\<close>

definition commit :: "db res \<Rightarrow> db \<Rightarrow> db" where
  "commit m d = (case m of Inl _ \<Rightarrow> d | Inr d' \<Rightarrow> d')"

section \<open>A failing mailbox\<close>

definition put_repair :: "uuid \<Rightarrow> string \<Rightarrow> (uuid \<times> string) list \<Rightarrow> (uuid \<times> string) list" where
  "put_repair i reason rs = delete_where (\<lambda>x. fst x = i) rs @ [(i, reason)]"

definition poison :: "env \<Rightarrow> string \<Rightarrow> uuid \<Rightarrow> nat \<Rightarrow> dispatcher \<times> db \<Rightarrow> dispatcher \<times> db" where
  "poison e reason i g s = (case s of (p, d) \<Rightarrow>
     (case runtime_at p i g of
        None \<Rightarrow> (p, d)
      | Some r \<Rightarrow>
          if rm_poisoned r then (p, d)
          else let p1 = set_runtime i g (\<lambda>r. r\<lparr>rm_poisoned := True\<rparr>) p in
            if \<not> rm_current r then (p1, d)
            else if rm_operation r = [] then (unmap i g p1, d)
            else (case update_operation e (rm_operation r) Uncertain [(''reason'', JStr reason)] d of
                Inr d' \<Rightarrow> (unmap i g p1, d')
              | Inl _ \<Rightarrow> ((unmap i g p1)\<lparr>dp_repairs := put_repair (rm_operation r) reason (dp_repairs p1)\<rparr>, d))))"

section \<open>Notifications\<close>

definition belongsToTurn :: "notification \<Rightarrow> runtime \<Rightarrow> bool" where
  "belongsToTurn n r \<longleftrightarrow> rm_thread r \<noteq> [] \<and> rm_turn r \<noteq> [] \<and> nt_thread n = rm_thread r \<and> nt_turn n = rm_turn r"

definition turn_valid :: "uuid \<Rightarrow> nat \<Rightarrow> db \<Rightarrow> bool" where
  "turn_valid opid g d \<longleftrightarrow> exists_row (\<lambda>x. op_id x = opid \<and> op_generation x = Some g \<and>
     dispatched_state (op_state x)) (operations d)"

definition completed_state :: "turn_status \<Rightarrow> op_state" where
  "completed_state s = (case s of StatusCompleted \<Rightarrow> Succeeded | StatusInterrupted \<Rightarrow> Interrupted | StatusOther \<Rightarrow> Failed)"

definition retain_background :: "env \<Rightarrow> uuid \<Rightarrow> db \<Rightarrow> db res" where
  "retain_background e i d = emit e i ''background.retained'' [(''expiresIn'', JNum 1800)]
     (update_session i (\<lambda>s. s\<lparr>se_background_until := Some (now e + 1800000), se_background_stop := False\<rparr>) d)"

definition complete_messages :: "uuid \<Rightarrow> db \<Rightarrow> db" where
  "complete_messages opid d = d\<lparr>messages := update_where (\<lambda>m. ms_operation m = Some opid)
     (\<lambda>m. m\<lparr>ms_status := MsgComplete\<rparr>) (messages d)\<rparr>"

definition complete_turn :: "env \<Rightarrow> uuid \<Rightarrow> nat \<Rightarrow> uuid \<Rightarrow> turn_status \<Rightarrow> db \<Rightarrow> db res" where
  "complete_turn e i g opid status d =
     (let st = completed_state status;
          d1 = update_operations (\<lambda>x. op_id x = opid) (to_state e st) d
      in andThen (if personal_mode e \<and> status = StatusCompleted then retain_background e i d1 else Inr d1) (\<lambda>d2.
         andThen (if personal_mode e then runtimeState e i g RtIdle True d2 else Inr d2) (\<lambda>d3.
         emit e i (''operation.'' @ op_state_text st) [(''operationId'', JStr opid)]
           (expire_approvals (\<lambda>a. ap_operation a = opid) (complete_messages opid (snd (deriveSessionState i d3)))))))"

text \<open>The transaction of \<^verbatim>\<open>onEvent\<close>; the truth value is \<^verbatim>\<open>completed\<close>.\<close>

definition event_commit :: "env \<Rightarrow> uuid \<Rightarrow> runtime \<Rightarrow> uuid \<Rightarrow> notification \<Rightarrow> db \<Rightarrow> (bool \<times> db) res" where
  "event_commit e fresh r opid n d =
     andThen (lockSessionResource d (rm_session r)) (\<lambda>_.
     if \<not> turn_valid opid (rm_generation r) d \<or> rm_poisoned r then Inr (False, d)
     else andThen (saveConversationOutput e fresh (rm_session r) opid n d) (\<lambda>d1.
       if nt_method n = ''turn/completed''
       then andThen (complete_turn e (rm_session r) (rm_generation r) opid (nt_status n) d1) (\<lambda>d2. Inr (True, d2))
       else Inr (False, d1)))"

definition listens :: "dispatcher \<Rightarrow> uuid \<Rightarrow> nat \<Rightarrow> runtime option" where
  "listens p i g = (case runtime_at p i g of None \<Rightarrow> None
     | Some r \<Rightarrow> if dp_alive p \<and> \<not> rm_poisoned r \<and> rm_current r then Some r else None)"

definition onEvent :: "env \<Rightarrow> uuid \<Rightarrow> uuid \<Rightarrow> nat \<Rightarrow> uuid \<Rightarrow> notification \<Rightarrow> dispatcher \<times> db \<Rightarrow> dispatcher \<times> db" where
  "onEvent e fresh i g opid n s = (case s of (p, d) \<Rightarrow>
     (case listens p i g of
        None \<Rightarrow> (p, d)
      | Some r \<Rightarrow>
          if \<not> belongsToTurn n r \<or> rm_operation r \<noteq> opid then (p, d)
          else (case event_commit e fresh r opid n d of
              Inl _ \<Rightarrow> poison e ''Runtime persistence failed; history requires reconciliation'' i g (p, d)
            | Inr (completed, d') \<Rightarrow>
                (if completed \<and> personal_mode e \<and> nt_status n = StatusCompleted
                 then set_runtime i g (\<lambda>r. r\<lparr>rm_operation := []\<rparr>) p else p, d'))))"

section \<open>What still runs in a runtime\<close>

datatype inspection_status = InspectionKnown | InspectionGone | InspectionUnavailable

record process_inspection =
  pi_status :: inspection_status
  pi_generation :: nat
  pi_processes :: nat

datatype idle_class = ClassIdle | ClassProtected | ClassUnknown | ClassGone

definition classifyIdle :: "process_inspection \<Rightarrow> nat \<Rightarrow> idle_class" where
  "classifyIdle i g =
     (if pi_generation i \<noteq> g then ClassUnknown
      else if pi_status i = InspectionGone then ClassGone
      else if pi_status i \<noteq> InspectionKnown then ClassUnknown
      else if pi_processes i \<noteq> 0 then ClassProtected else ClassIdle)"

fun class_state :: "idle_class \<Rightarrow> runtime_state" where
  "class_state ClassIdle = RtIdle"
| "class_state ClassProtected = RtProtected"
| "class_state ClassUnknown = RtUnknown"
| "class_state ClassGone = RtUnknown"

definition capacityReason :: "runtime_state list \<Rightarrow> string" where
  "capacityReason states =
     (if list_ex (\<lambda>s. s = RtUnknown \<or> s = RtRetiring) states then ''retirement_unknown''
      else if list_ex (\<lambda>s. s = RtProtected) states then ''protected_capacity'' else ''runtime_capacity'')"

text \<open>
  \<open>None\<close> is an inspection that throws, which \<^verbatim>\<open>classifyRuntime\<close> replaces by an
  unavailable one. A runtime that is gone is retired instead.
\<close>

definition classifyRuntime :: "env \<Rightarrow> uuid \<Rightarrow> nat \<Rightarrow> process_inspection option \<Rightarrow> dispatcher \<times> db \<Rightarrow> dispatcher \<times> db" where
  "classifyRuntime e i g insp s = (case s of (p, d) \<Rightarrow>
     (case runtime_at p i g of
        None \<Rightarrow> (p, d)
      | Some r \<Rightarrow>
          let found = (case insp of None \<Rightarrow> \<lparr> pi_status = InspectionUnavailable, pi_generation = g, pi_processes = 0 \<rparr>
                       | Some x \<Rightarrow> x) in
          if rm_operation r \<noteq> [] \<or> rm_retiring r \<or> \<not> rm_current r \<or> classifyIdle found g = ClassGone then (p, d)
          else (p, commit (runtimeState e i g (class_state (classifyIdle found g)) False d) d)))"

section \<open>Retirement\<close>

text \<open>
  The transaction that begins a retirement. \<open>automatic\<close> is the collection of an idle runtime, which
  inspects it again; \<open>completed\<close> the operation that has just ended. The memory is marked before
  the last statement, so the mark stays when that statement fails.
\<close>

datatype begin_result = Refuse | Reclassify runtime_state | Begin

definition begin_verdict :: "bool \<Rightarrow> uuid option \<Rightarrow> process_inspection \<Rightarrow> runtime \<Rightarrow> db \<Rightarrow> begin_result" where
  "begin_verdict automatic completed insp r d =
     (if \<not> exists_row (\<lambda>s. se_id s = rm_session r \<and> se_generation s = rm_generation r) (sessions d) then Refuse
      else if some_holds (\<lambda>c. rm_operation r \<noteq> c) completed then Refuse
      else if \<not> automatic then Begin
      else if \<not> exists_row (\<lambda>m. cr_session m = rm_session r \<and> cr_generation m = rm_generation r \<and> cr_state m = RtIdle)
          (conversation_runtimes d) \<or> rm_operation r \<noteq> [] \<or> \<not> rm_current r then Refuse
      else if classifyIdle insp (rm_generation r) \<noteq> ClassIdle
      then Reclassify (class_state (classifyIdle insp (rm_generation r)))
      else Begin)"

definition mark_retiring :: "uuid option \<Rightarrow> runtime \<Rightarrow> runtime" where
  "mark_retiring completed r = r\<lparr>rm_retiring := True, rm_operation := (if completed = None then rm_operation r else [])\<rparr>"

definition retire_begin :: "env \<Rightarrow> uuid \<Rightarrow> nat \<Rightarrow> bool \<Rightarrow> uuid option \<Rightarrow> process_inspection \<Rightarrow> dispatcher \<times> db \<Rightarrow> dispatcher \<times> db" where
  "retire_begin e i g automatic completed insp s = (case s of (p, d) \<Rightarrow>
     (case (runtime_at p i g, sessionWorkspace d i) of
        (Some r, Inr _) \<Rightarrow>
          if rm_retiring r then (p, d)
          else (case begin_verdict automatic completed insp r d of
              Refuse \<Rightarrow> (p, d)
            | Reclassify st \<Rightarrow> (p, commit (runtimeState e i g st False d) d)
            | Begin \<Rightarrow> (set_runtime i g (mark_retiring completed) p,
                if personal_mode e then commit (runtimeState e i g RtRetiring False d) d else d))
      | _ \<Rightarrow> (p, d)))"

definition strand_runtime :: "env \<Rightarrow> uuid \<Rightarrow> nat \<Rightarrow> db \<Rightarrow> db res" where
  "strand_runtime e i g d =
     andThen (lockSessionResource d i) (\<lambda>_.
     andThen (if personal_mode e then runtimeState e i g RtUnknown False d else Inr d) (\<lambda>d1.
     if exists_row (\<lambda>s. se_id s = i \<and> se_generation s = g) (sessions d1)
     then emit e i ''runtime.uncertain''
       [(''reason'', JStr ''Runtime retirement could not be confirmed; this conversation remains reserved.'')]
       (update_session i strand_session d1)
     else Inr d1))"

definition stale_member :: "uuid \<Rightarrow> nat \<Rightarrow> db \<Rightarrow> bool" where
  "stale_member i g d \<longleftrightarrow> \<not> exists_row (\<lambda>s. se_id s = i \<and> se_generation s = g) (sessions d) \<or>
     exists_row (\<lambda>m. cr_session m = i \<and> cr_generation m \<noteq> g) (conversation_runtimes d)"

definition release_runtime :: "env \<Rightarrow> bool \<Rightarrow> uuid \<Rightarrow> nat \<Rightarrow> db \<Rightarrow> db res" where
  "release_runtime e present i g d =
     andThen (lockSessionResource d i) (\<lambda>_.
     if personal_mode e \<and> stale_member i g d then Inr d
     else let d1 = drop_member i g d in
       if exists_row (\<lambda>s. se_id s = i \<and> se_generation s = g) (sessions d1)
       then let d2 = update_session i (stop_background False) d1 in
         andThen (if personal_mode e \<and> \<not> present
                  then andThen (repairReleasedPersonalSession i g d2) (\<lambda>(_, d'). Inr d') else Inr d2) (\<lambda>d3.
         emit e i ''background.stopped'' [] d3)
       else Inr d1)"

text \<open>
  \<^verbatim>\<open>settleBackgroundRetirement\<close>: \<open>confirmed\<close> is what the process registry found. In
  the managed profile the workspace is released in a transaction of its own first; when that
  throws, nothing after it happens.
\<close>

definition settle_retirement :: "env \<Rightarrow> uuid \<Rightarrow> nat \<Rightarrow> bool \<Rightarrow> dispatcher \<times> db \<Rightarrow> dispatcher \<times> db" where
  "settle_retirement e i g confirmed s = (case s of (p, d) \<Rightarrow>
     (case runtime_at p i g of
        None \<Rightarrow> (p, d)
      | Some r \<Rightarrow>
          if \<not> rm_retiring r then (p, d)
          else let p1 = unmap i g p in
            if \<not> confirmed then (p1, commit (strand_runtime e i g d) d)
            else (case (if personal_mode e then Inr d else releaseWorkspace i g d) of
                Inl _ \<Rightarrow> (p1, d)
              | Inr d1 \<Rightarrow> (p1, commit (release_runtime e (runtime_of p1 i \<noteq> None) i g d1) d1))))"

section \<open>Requests of the runtime\<close>

record native_request =
  rq_id :: string
  rq_method :: string
  rq_thread :: string
  rq_turn :: string
  rq_params :: json
  rq_size :: nat
  \<comment> \<open>bytes of the serialised parameters\<close>

definition request_state :: "native_request \<Rightarrow> op_state" where
  "request_state q = (if rq_method q = ''item/tool/requestUserInput'' then WaitingInput else WaitingApproval)"

definition request_runtime_state :: "native_request \<Rightarrow> runtime_state" where
  "request_runtime_state q = (if rq_method q = ''item/tool/requestUserInput'' then RtWaitingInput else RtWaitingApproval)"

definition insert_approval :: "approval_row \<Rightarrow> db \<Rightarrow> db res" where
  "insert_approval a d =
     (if exists_row (\<lambda>b. ap_id b = ap_id a \<or> (ap_session b = ap_session a \<and>
           ap_generation b = ap_generation a \<and> ap_request b = ap_request a)) (approvals d)
      then Inl (Crash ''approvals_key'') else Inr (d\<lparr>approvals := approvals d @ [a]\<rparr>))"

definition request_commit :: "env \<Rightarrow> uuid \<Rightarrow> runtime \<Rightarrow> uuid \<Rightarrow> native_request \<Rightarrow> db \<Rightarrow> db res" where
  "request_commit e fresh r opid q d =
     (let i = rm_session r; st = request_state q in
     andThen (lockSessionResource d i) (\<lambda>_.
     if \<not> turn_valid opid (rm_generation r) d \<or> rm_poisoned r \<or> \<not> rm_current r then Inr d
     else if rq_size q > 32768 \<or> count_where (\<lambda>a. ap_session a = i) (approvals d) \<ge> 100
     then Inl (Crash ''Approval quota'')
     else andThen (first_row (Crash ''TypeError'') (session_find i d)) (\<lambda>s.
     andThen (insert_approval \<lparr> ap_id = fresh, ap_session = i, ap_operation = opid, ap_generation = se_generation s,
         ap_request = rq_id q, ap_kind = rq_method q, ap_scope = rq_params q, ap_deadline = now e + 300000,
         ap_state = ''pending'', ap_answer = None, ap_actor = None \<rparr> d) (\<lambda>d1.
     let d2 = update_operations (\<lambda>x. op_id x = opid) (\<lambda>x. x\<lparr>op_state := st\<rparr>) d1;
         d3 = update_session i (\<lambda>s. s\<lparr>se_state := SessionIn st\<rparr>) d2
     in andThen (if personal_mode e then runtimeState e i (rm_generation r) (request_runtime_state q) True d3 else Inr d3) (\<lambda>d4.
     emit e i ''approval.pending'' [(''operationId'', JStr opid)] d4)))))"

text \<open>A request outside the active turn is rejected by the adapter and leaves no trace here.\<close>

definition onRequest :: "env \<Rightarrow> uuid \<Rightarrow> uuid \<Rightarrow> nat \<Rightarrow> uuid \<Rightarrow> native_request \<Rightarrow> dispatcher \<times> db \<Rightarrow> dispatcher \<times> db" where
  "onRequest e fresh i g opid q s = (case s of (p, d) \<Rightarrow>
     (case listens p i g of
        None \<Rightarrow> (p, d)
      | Some r \<Rightarrow>
          if rm_thread r = [] \<or> rm_turn r = [] \<or> rq_thread q \<noteq> rm_thread r \<or> rq_turn q \<noteq> rm_turn r \<or> rm_operation r \<noteq> opid
          then (p, d)
          else (case request_commit e fresh r opid q d of
              Inl _ \<Rightarrow> poison e ''Runtime persistence failed; history requires reconciliation'' i g (p, d)
            | Inr d' \<Rightarrow> (p, d'))))"

end
