(* ===== verification/Turn_Dispatch.thy ===== *)
theory Turn_Dispatch
  imports Turn_Runtime
begin

text \<open>
  How the supervisor dispatches a queued turn (\<^verbatim>\<open>apps/supervisor/src/main.ts\<close>, from
  the query of the candidates on): the reasons to wait, admission, the launch of a runtime, the
  check before anything is written to it, the start of the turn, and what a failure leaves. Each
  phase of a candidate is one function on the supervisor's memory and the data base.
\<close>

section \<open>Candidates\<close>

definition candidate_of :: "db \<Rightarrow> operation_row \<Rightarrow> candidate option" where
  "candidate_of d x =
     (case session_find (op_session x) d of None \<Rightarrow> None
      | Some s \<Rightarrow> (case find (\<lambda>w. ws_id w = se_workspace s) (workspaces d) of
          None \<Rightarrow> None
        | Some w \<Rightarrow> (case find (\<lambda>q. pj_id q = se_project s) (projects d) of
            None \<Rightarrow> None
          | Some q \<Rightarrow> Some \<lparr> ca_operation = x, ca_session = s, ca_workspace = w, ca_project = q \<rparr>)))"

definition waiting_turn :: "operation_row \<Rightarrow> bool" where
  "waiting_turn x \<longleftrightarrow> op_kind x = TurnOp \<and> op_state x = Queued"

definition candidate_rows :: "env \<Rightarrow> db \<Rightarrow> candidate list" where
  "candidate_rows e d = take (max_queued e) (List.map_filter (candidate_of d)
     (sort_key (\<lambda>x. (op_created_at x, op_id x)) (filter waiting_turn (operations d))))"

definition payload_profile :: "operation_row \<Rightarrow> profile option" where
  "payload_profile x = (case json_text ''permissionProfile'' (op_payload x) of
     Some t \<Rightarrow> if t = profile_text WorkspaceWrite then Some WorkspaceWrite
       else if t = profile_text ReadOnly then Some ReadOnly else None
   | None \<Rightarrow> None)"

definition payload_text :: "string \<Rightarrow> operation_row \<Rightarrow> string" where
  "payload_text k x = (case json_text k (op_payload x) of None \<Rightarrow> [] | Some t \<Rightarrow> t)"

definition turn_need :: "uuid \<Rightarrow> uuid \<Rightarrow> scope \<Rightarrow> profile option \<Rightarrow> need" where
  "turn_need project opid sc prof = \<lparr> nd_project = Some project, nd_scope = Some sc, nd_profile = prof,
     nd_internal = Some (TurnWork, opid) \<rparr>"

definition candidate_need :: "candidate \<Rightarrow> need" where
  "candidate_need c = turn_need (se_project (ca_session c)) (op_id (ca_operation c)) Execute (payload_profile (ca_operation c))"

definition active_turns :: "db \<Rightarrow> nat" where
  "active_turns d = count_where running_turn (operations d)"

definition members :: "db \<Rightarrow> runtime_row list" where
  "members d = sort_key (\<lambda>m. (cr_last_activity m, cr_session m)) (conversation_runtimes d)"

section \<open>Reasons to wait\<close>

datatype verdict = Blocked string | Refused | Evict uuid | Ready

definition victim :: "dispatcher \<Rightarrow> runtime_row \<Rightarrow> bool" where
  "victim p m \<longleftrightarrow> cr_state m = RtIdle \<and> some_holds (\<lambda>r. rm_operation r = []) (runtime_of p (cr_session m))"

definition room_verdict :: "env \<Rightarrow> dispatcher \<Rightarrow> uuid \<Rightarrow> db \<Rightarrow> verdict" where
  "room_verdict e p i d =
     (if \<not> personal_mode e \<or> runtime_of p i \<noteq> None then Ready
      else if exists_row (\<lambda>m. cr_session m = i) (conversation_runtimes d) then Blocked ''retirement_unknown''
      else if length (members d) < max_runtimes e then Ready
      else (case find (victim p) (members d) of
          Some m \<Rightarrow> Evict (cr_session m)
        | None \<Rightarrow> Blocked (capacityReason (map cr_state (members d)))))"

definition verdict :: "env \<Rightarrow> dispatcher \<Rightarrow> candidate \<Rightarrow> db \<Rightarrow> verdict" where
  "verdict e p c d = (let i = op_session (ca_operation c) in
     if dp_maintenance p then Blocked ''maintenance''
     else if se_background_stop (ca_session c) \<or> some_holds rm_retiring (runtime_of p i) \<or>
       se_state (ca_session c) = SessionIn Uncertain \<or> unresolved i d
     then Blocked ''retirement_unknown''
     else if some_holds (\<lambda>r. rm_operation r \<noteq> []) (runtime_of p i) \<or>
       exists_row (\<lambda>x. op_session x = i \<and> running_turn x) (operations d)
     then Blocked ''session_busy''
     else if active_turns d \<ge> max_active e then Blocked ''active_capacity''
     else if \<not> succeeds (requireAuthority e d (op_actor (ca_operation c)) (candidate_need c)) then Refused
     else room_verdict e p i d)"

section \<open>One candidate after the other\<close>

text \<open>An exception outside the per-candidate handler ends the tick.\<close>

definition stop_tick :: "dispatcher \<Rightarrow> dispatcher" where
  "stop_tick p = p\<lparr>dp_ticking := False, dp_stage := None, dp_candidates := [], dp_waiting := NoReply\<rparr>"

definition finish :: "dispatcher \<Rightarrow> dispatcher" where
  "finish p = p\<lparr>dp_stage := None\<rparr>"

definition advance :: "phase \<Rightarrow> stage \<Rightarrow> dispatcher \<Rightarrow> dispatcher" where
  "advance ph st p = p\<lparr>dp_stage := Some (st\<lparr>st_phase := ph\<rparr>)\<rparr>"

text \<open>
  A tick begins only while the supervisor is alive and no credential is being changed; its steps
  follow one another, so each waits until the one before has its reply.
\<close>

definition begin_tick :: "dispatcher \<times> db \<Rightarrow> dispatcher \<times> db" where
  "begin_tick s = (case s of (p, d) \<Rightarrow>
     (if dp_alive p \<and> \<not> dp_mutating p \<and> \<not> dep_activation_required d then p\<lparr>dp_ticking := True\<rparr> else p, d))"

definition free_tick :: "dispatcher \<Rightarrow> bool" where
  "free_tick p \<longleftrightarrow> dp_ticking p \<and> dp_stage p = None \<and> dp_candidates p = [] \<and> dp_waiting p = NoReply"

definition fetch :: "env \<Rightarrow> dispatcher \<times> db \<Rightarrow> dispatcher \<times> db" where
  "fetch e s = (case s of (p, d) \<Rightarrow>
     if free_tick p \<and> \<not> dp_emergency p
     then (p\<lparr>dp_maintenance := dep_maintenance d, dp_candidates := candidate_rows e d\<rparr>, d) else (p, d))"

definition next_candidate :: "dispatcher \<Rightarrow> dispatcher" where
  "next_candidate p = (case (dp_stage p, dp_candidates p) of
     (None, c # cs) \<Rightarrow> p\<lparr> dp_candidates := cs, dp_stage := Some \<lparr> st_candidate = c, st_phase = Considering,
        st_generation = op_generation (ca_operation c), st_existing = False, st_created = False, st_credential = [] \<rparr> \<rparr>
   | _ \<Rightarrow> p)"

definition settle_or_stop :: "db res \<Rightarrow> dispatcher \<times> db \<Rightarrow> dispatcher \<times> db" where
  "settle_or_stop m s = (case m of Inl _ \<Rightarrow> (stop_tick (fst s), snd s) | Inr d' \<Rightarrow> (finish (fst s), d'))"

definition consider_turn :: "env \<Rightarrow> process_inspection \<Rightarrow> stage \<Rightarrow> dispatcher \<times> db \<Rightarrow> dispatcher \<times> db" where
  "consider_turn e insp st s = (case s of (p, d) \<Rightarrow>
     let x = ca_operation (st_candidate st) in
     (case verdict e p (st_candidate st) d of
        Blocked reason \<Rightarrow> settle_or_stop (queueReason e (op_id x) (op_session x) reason d) (p, d)
      | Refused \<Rightarrow> settle_or_stop (update_operation e (op_id x) Failed
          [(''reason'', JStr ''Queued execution grant revoked or restricted'')] d) (p, d)
      | Evict i \<Rightarrow> (case runtime_of p i of None \<Rightarrow> (p, d)
          | Some r \<Rightarrow> retire_begin e i (rm_generation r) True None insp (p, d))
      | Ready \<Rightarrow> (advance Preparing st p, d)))"

text \<open>
  A runtime is kept for the next turn of its conversation only under the same profile and
  credential; otherwise it is retired first (\<open>Replacing\<close>) and a new generation is drawn.
\<close>

definition suitable :: "candidate \<Rightarrow> string \<Rightarrow> runtime \<Rightarrow> bool" where
  "suitable c version r \<longleftrightarrow> Some (rm_profile r) = payload_profile (ca_operation c) \<and> rm_credential r = version"

definition ceiling_allows :: "env \<Rightarrow> profile option \<Rightarrow> unit res" where
  "ceiling_allows e prof = (case (prof, permission_ceiling e) of
     (Some q, Some c) \<Rightarrow> authorizePermission q c | _ \<Rightarrow> Inr ())"

definition draw_generation :: "stage \<Rightarrow> dispatcher \<times> db \<Rightarrow> dispatcher \<times> db" where
  "draw_generation st s = (case s of (p, d) \<Rightarrow> let g = Suc (runtime_generation_seq d) in
     (advance Admitting (st\<lparr> st_generation := Some g, st_credential := dp_credential p \<rparr>) p, d\<lparr>runtime_generation_seq := g\<rparr>))"

definition prepare :: "env \<Rightarrow> process_inspection \<Rightarrow> stage \<Rightarrow> dispatcher \<times> db \<Rightarrow> dispatcher \<times> db" where
  "prepare e insp st s = (case s of (p, d) \<Rightarrow>
     let c = st_candidate st; i = op_session (ca_operation c) in
     if \<not> succeeds (ceiling_allows e (payload_profile (ca_operation c))) \<or>
        \<not> succeeds (verifyWorkspace e (ca_workspace c, ca_project c)) then (p, d)
     else (case runtime_of p i of
         None \<Rightarrow> draw_generation st (p, d)
       | Some r \<Rightarrow>
           if suitable c (dp_credential p) r
           then (advance Admitting (st\<lparr> st_generation := Some (rm_generation r), st_existing := True,
                   st_credential := dp_credential p \<rparr>) p, d)
           else retire_begin e i (rm_generation r) False None insp (advance Replacing st p, d)))"

definition replaced :: "env \<Rightarrow> bool \<Rightarrow> stage \<Rightarrow> dispatcher \<times> db \<Rightarrow> dispatcher \<times> db" where
  "replaced e confirmed st s = (let x = ca_operation (st_candidate st) in
     if confirmed then draw_generation st s
     else settle_or_stop (queueReason e (op_id x) (op_session x) ''retirement_unknown'' (snd s)) s)"

section \<open>Admission\<close>

definition reusable :: "dispatcher \<Rightarrow> uuid \<Rightarrow> nat \<Rightarrow> db \<Rightarrow> bool" where
  "reusable p i g d \<longleftrightarrow> some_holds (\<lambda>r. rm_current r \<and> \<not> rm_retiring r \<and> \<not> rm_poisoned r \<and> rm_operation r = [])
       (runtime_at p i g) \<and> some_holds (\<lambda>s. se_generation s = g) (session_find i d)"

definition insert_member :: "runtime_row \<Rightarrow> db \<Rightarrow> db res" where
  "insert_member m d = (if exists_row (\<lambda>x. cr_session x = cr_session m) (conversation_runtimes d)
     then Inl (Crash ''conversation_runtimes_pkey'')
     else Inr (d\<lparr>conversation_runtimes := conversation_runtimes d @ [m]\<rparr>))"

definition join_member :: "env \<Rightarrow> stage \<Rightarrow> nat \<Rightarrow> profile \<Rightarrow> db \<Rightarrow> db res" where
  "join_member e st g prof d = (let i = op_session (ca_operation (st_candidate st)) in
     if \<not> personal_mode e then Inr d
     else if \<not> st_existing st
     then insert_member \<lparr> cr_session = i, cr_workspace = ws_id (ca_workspace (st_candidate st)), cr_generation = g,
       cr_state = RtStarting, cr_last_activity = now e, cr_idle_until = None, cr_profile = prof,
       cr_credential = st_credential st, cr_identity = None \<rparr> d
     else if exists_row (\<lambda>m. cr_session m = i \<and> cr_generation m = g \<and> cr_identity m \<noteq> None \<and>
         cr_state m \<in> {RtIdle, RtProtected}) (conversation_runtimes d)
     then runtimeState e i g RtActive True d
     else Inl (Crash ''WorkspaceAdmissionChanged''))"

definition dispatching :: "nat \<Rightarrow> operation_row \<Rightarrow> operation_row" where
  "dispatching g x = x\<lparr>op_state := Dispatching, op_queue_reason := None, op_generation := Some g\<rparr>"

definition take_session :: "nat \<Rightarrow> profile \<Rightarrow> operation_row \<Rightarrow> session_row \<Rightarrow> session_row" where
  "take_session g prof x s = s\<lparr>se_generation := g, se_profile := prof,
     se_model := payload_text ''model'' x, se_effort := payload_text ''effort'' x\<rparr>"

definition claim_turn :: "env \<Rightarrow> stage \<Rightarrow> nat \<Rightarrow> db \<Rightarrow> db res" where
  "claim_turn e st g d = (let x = ca_operation (st_candidate st); i = op_session x in
     andThen (first_row (Crash ''not_null'') (payload_profile x)) (\<lambda>prof.
     andThen (join_member e st g prof d) (\<lambda>d1.
     emit e i ''operation.dispatching'' [(''operationId'', JStr (op_id x))]
       (update_operations (\<lambda>y. op_id y = op_id x \<and> op_state y = Queued) (dispatching g)
         (update_session i (take_session g prof x) d1)))))"

text \<open>
  The transaction of admission. \<open>False\<close> is a workspace that is busy, or the roll-back on
  \<^verbatim>\<open>WorkspaceAdmissionChanged\<close>.
\<close>

definition admission_body :: "env \<Rightarrow> dispatcher \<Rightarrow> stage \<Rightarrow> nat \<Rightarrow> db \<Rightarrow> (bool \<times> db) res" where
  "admission_body e p st g d = (let c = st_candidate st; x = ca_operation c; i = op_session x in
     andThen (requireAuthority e d (op_actor x) (candidate_need c)) (\<lambda>_.
     andThen (claimWorkspace e (ws_id (ca_workspace c)) i g (personal_mode e \<and> st_existing st) (personal_mode e) d) (\<lambda>(claimed, d1).
     if \<not> claimed then Inr (False, d1)
     else andThen (requireAuthority e d1 (op_actor x) (candidate_need c)) (\<lambda>_.
       andThen (deploymentAdmission d1 False) (\<lambda>_.
       if st_existing st \<and> \<not> reusable p i g d1 then Inl (Crash ''WorkspaceAdmissionChanged'')
       else andThen (claim_turn e st g d1) (\<lambda>d2. Inr (True, d2)))))))"

definition workspaceAdmission :: "(bool \<times> db) res \<Rightarrow> db \<Rightarrow> (bool \<times> db) res" where
  "workspaceAdmission m d = (if m = Inl (Crash ''WorkspaceAdmissionChanged'') then Inr (False, d) else m)"

definition admit :: "env \<Rightarrow> stage \<Rightarrow> dispatcher \<times> db \<Rightarrow> dispatcher \<times> db" where
  "admit e st s = (case s of (p, d) \<Rightarrow>
     let x = ca_operation (st_candidate st) in
     (case st_generation st of
        None \<Rightarrow> (p, d)
      | Some g \<Rightarrow>
          (case workspaceAdmission (admission_body e p st g d) d of
             Inl _ \<Rightarrow> (p, d)
           | Inr (False, d') \<Rightarrow> settle_or_stop (queueReason e (op_id x) (op_session x) ''workspace_busy'' d') (p, d')
           | Inr (True, d') \<Rightarrow> (advance Admitted st (if st_existing st
               then set_runtime (op_session x) g (\<lambda>r. r\<lparr>rm_operation := op_id x\<rparr>) p else p), d'))))"

section \<open>Launching a runtime\<close>

definition launch :: "env \<Rightarrow> stage \<Rightarrow> dispatcher \<times> db \<Rightarrow> dispatcher \<times> db" where
  "launch e st s = (case s of (p, d) \<Rightarrow>
     let c = st_candidate st; i = op_session (ca_operation c) in
     (case st_generation st of
        None \<Rightarrow> (p, d)
      | Some g \<Rightarrow>
          if st_existing st then (advance Binding st p, d)
          else (case (if personal_mode e then Inr d
                else update_workspaces (\<lambda>w. ws_id w = ws_id (ca_workspace c) \<and> ws_writer_session w = Some i)
                  (\<lambda>w. w\<lparr>ws_writer_generation := Some g\<rparr>) d) of
              Inl _ \<Rightarrow> (p, d)
            | Inr d' \<Rightarrow> (advance Launching (st\<lparr>st_created := True\<rparr>) p, d'))))"

definition owned_identity :: "string \<Rightarrow> stage \<Rightarrow> db \<Rightarrow> db" where
  "owned_identity ident st d = (case st_generation st of None \<Rightarrow> d
     | Some g \<Rightarrow> d\<lparr>conversation_runtimes := update_where
         (\<lambda>m. cr_session m = op_session (ca_operation (st_candidate st)) \<and> cr_generation m = g \<and> cr_state m = RtStarting)
         (\<lambda>m. m\<lparr>cr_identity := Some ident\<rparr>) (conversation_runtimes d)\<rparr>)"

text \<open>A runtime that starts after the supervisor has lost its authority is poisoned at once.\<close>

definition new_runtime :: "dispatcher \<Rightarrow> stage \<Rightarrow> nat \<Rightarrow> profile \<Rightarrow> runtime" where
  "new_runtime p st g prof = (let c = st_candidate st; x = ca_operation c in
     \<lparr> rm_session = op_session x, rm_generation = g, rm_profile = prof, rm_selected = (ca_workspace c, ca_project c),
       rm_actor = Some (op_actor x), rm_scope = Execute, rm_credential = st_credential st, rm_operation = op_id x,
       rm_thread = [], rm_turn = [], rm_poisoned = False, rm_retiring = False, rm_current = True \<rparr>)"

definition transport :: "env \<Rightarrow> stage \<Rightarrow> dispatcher \<times> db \<Rightarrow> dispatcher \<times> db" where
  "transport e st s = (case s of (p, d) \<Rightarrow>
     let i = op_session (ca_operation (st_candidate st)) in
     (case (st_generation st, payload_profile (ca_operation (st_candidate st))) of
        (Some g, Some prof) \<Rightarrow>
          let p1 = p\<lparr>dp_runtimes := update_where (\<lambda>r. rm_session r = i) (\<lambda>r. r\<lparr>rm_current := False\<rparr>) (dp_runtimes p) @
                [new_runtime p st g prof]\<rparr>
          in if dp_alive p then (advance Launched st p1, d)
             else poison e ''Supervisor authority lost during initialization'' i g (p1, d)
      | _ \<Rightarrow> (p, d)))"

definition opened :: "env \<Rightarrow> model_capability list \<Rightarrow> string \<Rightarrow> stage \<Rightarrow> dispatcher \<times> db \<Rightarrow> dispatcher \<times> db" where
  "opened e caps thread st s = (case s of (p, d) \<Rightarrow>
     let i = op_session (ca_operation (st_candidate st)) in
     (case st_generation st of
        None \<Rightarrow> (p, d)
      | Some g \<Rightarrow> (advance Binding st (set_runtime i g (\<lambda>r. r\<lparr>rm_thread := thread\<rparr>) p),
          update_session i (\<lambda>x. x\<lparr>se_native_thread := Some thread\<rparr>) (d\<lparr>capabilities := Some (caps, now e)\<rparr>))))"

section \<open>Starting the turn\<close>

definition bind_runtime :: "candidate \<Rightarrow> runtime \<Rightarrow> runtime" where
  "bind_runtime c r = r\<lparr> rm_operation := op_id (ca_operation c), rm_actor := Some (op_actor (ca_operation c)),
     rm_scope := Execute, rm_turn := [] \<rparr>"

definition bind :: "env \<Rightarrow> stage \<Rightarrow> dispatcher \<times> db \<Rightarrow> dispatcher \<times> db" where
  "bind e st s = (case s of (p, d) \<Rightarrow>
     let c = st_candidate st; x = ca_operation c; i = op_session x in
     (case st_generation st of
        None \<Rightarrow> (p, d)
      | Some g \<Rightarrow>
          let d1 = update_session i (\<lambda>s. s\<lparr>se_generation := g\<rparr>)
                (update_operations (\<lambda>y. op_id y = op_id x) (\<lambda>y. y\<lparr>op_generation := Some g\<rparr>) d)
          in (case (if personal_mode e then runtimeState e i g RtActive True d1 else Inr d1) of
              Inl _ \<Rightarrow> (set_runtime i g (\<lambda>r. r\<lparr>rm_operation := op_id x\<rparr>) p, d1)
            | Inr d2 \<Rightarrow> (advance Bound st (set_runtime i g (bind_runtime c) p), d2))))"

text \<open>
  \<^verbatim>\<open>withDispatch\<close>, evaluated immediately before the bytes are written, in a
  transaction that holds the lock of the supervisor's generation.
\<close>

definition usable_runtime :: "dispatcher \<Rightarrow> runtime \<Rightarrow> bool" where
  "usable_runtime p r \<longleftrightarrow> \<not> dp_mutating p \<and> dp_alive p \<and> \<not> rm_poisoned r \<and> \<not> rm_retiring r \<and> rm_current r"

definition wire_need :: "runtime \<Rightarrow> need" where
  "wire_need r = turn_need (pj_id (snd (rm_selected r))) (rm_operation r) (rm_scope r)
     (if rm_scope r = CancelTurns then None else Some (rm_profile r))"

definition wire_authority :: "env \<Rightarrow> runtime \<Rightarrow> db \<Rightarrow> unit res" where
  "wire_authority e r d = (case rm_actor r of None \<Rightarrow> Inr ()
     | Some actor \<Rightarrow> andThen (requireAuthority e d actor (wire_need r)) (\<lambda>_. Inr ()))"

definition dispatch_check :: "env \<Rightarrow> dispatcher \<Rightarrow> runtime \<Rightarrow> db \<Rightarrow> unit res" where
  "dispatch_check e p r d =
     (if \<not> usable_runtime p r then Inl (Crash ''Runtime authority lost'')
      else if meta_generation d \<noteq> dp_generation p \<or> meta_identity_pin d \<noteq> identity_pin e \<or> meta_emergency d
      then Inl (Crash ''Dispatch fenced or stopped'')
      else andThen (wire_authority e r d) (\<lambda>_.
        andThen (deploymentAdmission d (rm_scope r \<noteq> Execute)) (\<lambda>_.
        andThen (first_row (Crash ''TypeError'') (session_find (rm_session r) d)) (\<lambda>s.
        if se_generation s \<noteq> rm_generation r \<or> unresolved (rm_session r) d
        then Inl (Crash ''Runtime generation invalid'')
        else andThen (verifyWorkspace e (rm_selected r)) (\<lambda>_. Inr ())))))"

definition sends :: "env \<Rightarrow> stage \<Rightarrow> dispatcher \<Rightarrow> db \<Rightarrow> bool" where
  "sends e st p d \<longleftrightarrow> st_phase st = Bound \<and>
     some_holds (\<lambda>r. succeeds (dispatch_check e p r d))
       (Option.bind (st_generation st) (runtime_at p (op_session (ca_operation (st_candidate st)))))"

definition running_commit :: "env \<Rightarrow> uuid \<Rightarrow> uuid \<Rightarrow> db \<Rightarrow> db res" where
  "running_commit e i opid d =
     andThen (lockSessionResource d i) (\<lambda>_.
     if exists_row (\<lambda>x. op_id x = opid \<and> op_state x = Dispatching) (operations d)
     then emit e i ''operation.running'' [(''operationId'', JStr opid)]
       (update_session i (\<lambda>s. s\<lparr>se_state := SessionIn Running\<rparr>)
         (update_operations (\<lambda>x. op_id x = opid \<and> op_state x = Dispatching) (to_state e Running) d))
     else Inr d)"

definition turn_started :: "env \<Rightarrow> string \<Rightarrow> stage \<Rightarrow> dispatcher \<times> db \<Rightarrow> dispatcher \<times> db" where
  "turn_started e turn st s = (case s of (p, d) \<Rightarrow>
     let x = ca_operation (st_candidate st); i = op_session x in
     (case st_generation st of
        None \<Rightarrow> (p, d)
      | Some g \<Rightarrow>
          let p1 = set_runtime i g (\<lambda>r. r\<lparr>rm_turn := turn\<rparr>) p;
              d1 = update_operations (\<lambda>y. op_id y = op_id x) (\<lambda>y. y\<lparr>op_native_turn := Some turn\<rparr>) d
          in (case running_commit e i (op_id x) d1 of
              Inl _ \<Rightarrow> (p1, d1)
            | Inr d2 \<Rightarrow> (finish p1, d2))))"

section \<open>Failures\<close>

text \<open>
  The handler around a candidate. \<open>not_started\<close> says that the exception is a
  \<^verbatim>\<open>PersonalRuntimeNotStartedError\<close>. The retirement of a runtime that is in the map
  follows as \<open>retire_begin\<close>.
\<close>

definition proven_unstarted :: "env \<Rightarrow> bool \<Rightarrow> stage \<Rightarrow> dispatcher \<Rightarrow> bool" where
  "proven_unstarted e not_started st p \<longleftrightarrow> personal_mode e \<and>
     runtime_of p (op_session (ca_operation (st_candidate st))) = None \<and> (\<not> st_created st \<or> not_started)"

definition failure_reason :: "bool \<Rightarrow> bool \<Rightarrow> string" where
  "failure_reason proven dispatched =
     (if proven then ''Runtime did not start; no native request was dispatched''
      else if dispatched then ''Dispatch failed or acknowledgement uncertain'' else ''Queued workspace admission failed'')"

definition release_unstarted :: "env \<Rightarrow> uuid \<Rightarrow> nat \<Rightarrow> db \<Rightarrow> db res" where
  "release_unstarted e i g d =
     (let hit = (\<lambda>m. cr_session m = i \<and> cr_generation m = g \<and> cr_state m = RtStarting \<and> cr_identity m = None);
          d1 = d\<lparr>conversation_runtimes := delete_where hit (conversation_runtimes d)\<rparr>
      in andThen (lockSessionResource d i) (\<lambda>_.
         if exists_row hit (conversation_runtimes d)
         then emit e i ''runtime.not-started'' [(''generation'', JNum (int g))] d1 else Inr d1))"

definition failed :: "env \<Rightarrow> bool \<Rightarrow> stage \<Rightarrow> dispatcher \<times> db \<Rightarrow> dispatcher \<times> db" where
  "failed e not_started st s = (case s of (p, d) \<Rightarrow>
     let x = ca_operation (st_candidate st); i = op_session x;
         proven = proven_unstarted e not_started st p;
         dispatched = \<not> exists_row (\<lambda>y. op_id y = op_id x \<and> op_state y = Queued) (operations d)
     in (case update_operation e (op_id x) (if dispatched \<and> \<not> proven then Uncertain else Failed)
            [(''reason'', JStr (failure_reason proven dispatched))] d of
          Inl _ \<Rightarrow> (stop_tick p, d)
        | Inr d1 \<Rightarrow>
            (case (runtime_of p i, st_generation st) of
               (None, Some g) \<Rightarrow>
                 if personal_mode e \<and> g > 0
                 then settle_or_stop (if proven then release_unstarted e i g d1 else runtimeState e i g RtUnknown False d1) (p, d1)
                 else (finish p, d1)
             | _ \<Rightarrow> (finish p, d1))))"

end
