(* ===== verification/Turn_Controls.thy ===== *)
theory Turn_Controls
  imports Turn_Dispatch
begin

text \<open>
  The part of the supervisor's tick (\<^verbatim>\<open>apps/supervisor/src/main.ts\<close>) before it looks
  at candidates: repairs that are still owed, the emergency stop, runtimes that were lost, answers
  to approvals and cancellations. Where the code awaits the runtime, the function is cut in two and
  \<open>dp_waiting\<close> holds what it remembers; \<open>reply\<close> is what the runtime's adapter answers.
\<close>

section \<open>Repairs\<close>

definition repair :: "env \<Rightarrow> uuid \<Rightarrow> dispatcher \<times> db \<Rightarrow> dispatcher \<times> db" where
  "repair e i s = (case s of (p, d) \<Rightarrow>
     (case find (\<lambda>x. fst x = i) (dp_repairs p) of
        None \<Rightarrow> (p, d)
      | Some x \<Rightarrow> (case update_operation e i Uncertain [(''reason'', JStr (snd x))] d of
          Inl _ \<Rightarrow> (p, d)
        | Inr d' \<Rightarrow> (p\<lparr>dp_repairs := delete_where (\<lambda>x. fst x = i) (dp_repairs p)\<rparr>, d'))))"

definition set_cancel :: "env \<Rightarrow> uuid \<Rightarrow> op_state \<Rightarrow> db \<Rightarrow> db" where
  "set_cancel e i st = update_operations (\<lambda>x. op_id x = i \<and> op_kind x = CancelOp) (to_state e st)"

definition repair_cancel :: "env \<Rightarrow> uuid \<Rightarrow> dispatcher \<times> db \<Rightarrow> dispatcher \<times> db" where
  "repair_cancel e i s = (case s of (p, d) \<Rightarrow>
     (case find (\<lambda>x. fst x = i) (dp_cancel_repairs p) of
        None \<Rightarrow> (p, d)
      | Some x \<Rightarrow> (p\<lparr>dp_cancel_repairs := delete_where (\<lambda>x. fst x = i) (dp_cancel_repairs p)\<rparr>,
          set_cancel e i (snd x) d)))"

section \<open>Emergency stop\<close>

definition read_emergency :: "dispatcher \<times> db \<Rightarrow> dispatcher \<times> db" where
  "read_emergency s = (case s of (p, d) \<Rightarrow> (p\<lparr>dp_emergency := meta_emergency d\<rparr>, d))"

definition stop_runtime :: "env \<Rightarrow> uuid \<Rightarrow> dispatcher \<times> db \<Rightarrow> dispatcher \<times> db" where
  "stop_runtime e i s = (case s of (p, d) \<Rightarrow>
     (case runtime_of p i of
        None \<Rightarrow> (p, d)
      | Some r \<Rightarrow> if \<not> dp_emergency p \<or> rm_operation r = [] then (p, d)
          else (p, commit (update_operation e (rm_operation r) Interrupted [(''reason'', JStr ''Emergency stop'')] d) d)))"

definition stop_queue :: "dispatcher \<times> db \<Rightarrow> dispatcher \<times> db" where
  "stop_queue s = (case s of (p, d) \<Rightarrow>
     (p, if dp_emergency p then update_operations (\<lambda>x. op_state x = Queued) (\<lambda>x. x\<lparr>op_state := Interrupted\<rparr>) d else d))"

section \<open>Runtimes that the supervisor has lost\<close>

text \<open>
  \<open>g\<close> is the generation of the membership as it was listed; \<open>absent\<close> is what
  \<^verbatim>\<open>inspectRecoveredLocalRuntime\<close> finds.
\<close>

definition lost_member :: "dispatcher \<Rightarrow> uuid \<Rightarrow> nat \<Rightarrow> bool \<Rightarrow> db \<Rightarrow> bool" where
  "lost_member p i g absent d \<longleftrightarrow> runtime_of p i = None \<and> absent \<and>
     exists_row (\<lambda>m. cr_session m = i \<and> cr_generation m = g) (conversation_runtimes d) \<and>
     exists_row (\<lambda>s. se_id s = i \<and> se_generation s = g) (sessions d)"

definition reconcile_commit :: "env \<Rightarrow> uuid \<Rightarrow> nat \<Rightarrow> db \<Rightarrow> db res" where
  "reconcile_commit e i g d =
     andThen (lockSessionResource d i) (\<lambda>_.
     let d1 = drop_member i g d;
         d2 = d1\<lparr>sessions := update_where (\<lambda>s. se_id s = i \<and> se_generation s = g) (stop_background False) (sessions d1)\<rparr>
     in andThen (repairReleasedPersonalSession i g d2) (\<lambda>(_, d3).
        emit e i ''background.stopped'' [(''generation'', JNum (int g))] d3))"

definition reconcile :: "env \<Rightarrow> uuid \<Rightarrow> nat \<Rightarrow> bool \<Rightarrow> dispatcher \<times> db \<Rightarrow> dispatcher \<times> db" where
  "reconcile e i g absent s = (case s of (p, d) \<Rightarrow>
     (p, if personal_mode e \<and> lost_member p i g absent d then commit (reconcile_commit e i g d) d else d))"

section \<open>Answers to approvals\<close>

definition approval_find :: "uuid \<Rightarrow> db \<Rightarrow> approval_row option" where
  "approval_find i d = find (\<lambda>a. ap_id a = i) (approvals d)"

definition update_approval :: "(approval_row \<Rightarrow> bool) \<Rightarrow> (approval_row \<Rightarrow> approval_row) \<Rightarrow> db \<Rightarrow> db" where
  "update_approval P f d = d\<lparr>approvals := update_where P f (approvals d)\<rparr>"

definition due_approval :: "env \<Rightarrow> approval_row \<Rightarrow> bool" where
  "due_approval e a \<longleftrightarrow> ap_state a = ''answering'' \<or> (ap_state a = ''pending'' \<and> ap_deadline a < now e)"

definition lapsed :: "approval_row \<Rightarrow> bool" where
  "lapsed a \<longleftrightarrow> ap_state a = ''pending''"

definition authorise :: "string option \<Rightarrow> scope \<Rightarrow> runtime \<Rightarrow> runtime" where
  "authorise actor sc r = r\<lparr>rm_actor := actor, rm_scope := sc\<rparr>"

definition wire_reply :: "env \<Rightarrow> dispatcher \<Rightarrow> uuid \<Rightarrow> nat \<Rightarrow> unit res \<Rightarrow> db \<Rightarrow> unit res" where
  "wire_reply e p i g reply d = (case runtime_at p i g of None \<Rightarrow> Inl (Crash ''TypeError'')
     | Some r \<Rightarrow> andThen (dispatch_check e p r d) (\<lambda>_. reply))"

definition answer_begin :: "env \<Rightarrow> uuid \<Rightarrow> unit res \<Rightarrow> dispatcher \<times> db \<Rightarrow> dispatcher \<times> db" where
  "answer_begin e i reply s = (case s of (p, d) \<Rightarrow>
     (case approval_find i d of
        None \<Rightarrow> (p, d)
      | Some a \<Rightarrow>
          if \<not> due_approval e a then (p, d)
          else (case runtime_of p (ap_session a) of
              None \<Rightarrow> (p, update_approval (\<lambda>b. ap_id b = i) (\<lambda>b. b\<lparr>ap_state := ''expired''\<rparr>) d)
            | Some r \<Rightarrow>
                if ap_generation a \<noteq> rm_generation r
                then (p, update_approval (\<lambda>b. ap_id b = i) (\<lambda>b. b\<lparr>ap_state := ''expired''\<rparr>) d)
                else let g = rm_generation r;
                         p1 = set_runtime (ap_session a) g (authorise (if lapsed a then None else ap_actor a) Approve) p
                  in (p1\<lparr>dp_waiting := AnswerReply a g (wire_reply e p1 (ap_session a) g reply d)\<rparr>, d))))"

definition refused_grant :: "failure \<Rightarrow> bool" where
  "refused_grant f = (case f of HarborError n _ \<Rightarrow> n = 401 \<or> n = 403 | Crash _ \<Rightarrow> False)"

definition answer_outcome :: "approval_row \<Rightarrow> string" where
  "answer_outcome a = (if lapsed a then ''expired'' else ''resolved'')"

definition mark_answer :: "approval_row \<Rightarrow> db \<Rightarrow> db" where
  "mark_answer a = update_approval (\<lambda>b. ap_id b = ap_id a) (\<lambda>b. b\<lparr>ap_state := answer_outcome a\<rparr>)"

definition answer_settled :: "env \<Rightarrow> approval_row \<Rightarrow> nat \<Rightarrow> db \<Rightarrow> db res" where
  "answer_settled e a g d =
     andThen (lockSessionResource d (ap_session a)) (\<lambda>_.
     andThen (if personal_mode e then runtimeState e (ap_session a) g RtActive True (mark_answer a d) else Inr (mark_answer a d)) (\<lambda>d1.
     emit e (ap_session a) (''approval.'' @ answer_outcome a) [(''approvalId'', JStr (ap_id a))] d1))"

definition answer_reopened :: "env \<Rightarrow> approval_row \<Rightarrow> db \<Rightarrow> db res" where
  "answer_reopened e a d =
     andThen (lockSessionResource d (ap_session a)) (\<lambda>_.
     emit e (ap_session a) ''approval.rejected'' [(''approvalId'', JStr (ap_id a)),
         (''reason'', JStr ''Answer authorization expired or revoked before send'')]
       (update_approval (\<lambda>b. ap_id b = ap_id a \<and> ap_state b = ''answering'')
         (\<lambda>b. b\<lparr>ap_state := ''pending'', ap_answer := None, ap_actor := None\<rparr>) d))"

text \<open>
  The adapter's \<^verbatim>\<open>close\<close> reports a disconnect, which poisons the mailbox. A
  settlement that throws is handled like a send that did.
\<close>

definition answer_uncertain :: "env \<Rightarrow> approval_row \<Rightarrow> nat \<Rightarrow> dispatcher \<times> db \<Rightarrow> dispatcher \<times> db" where
  "answer_uncertain e a g s = (case s of (p, d) \<Rightarrow>
     (case update_operation e (ap_operation a) Uncertain [] d of
        Inl _ \<Rightarrow> (stop_tick p, d)
      | Inr d1 \<Rightarrow> poison e ''Runtime disconnected; delivery uncertain'' (ap_session a) g (p, d1)))"

definition answer_end :: "env \<Rightarrow> dispatcher \<times> db \<Rightarrow> dispatcher \<times> db" where
  "answer_end e s = (case s of (p, d) \<Rightarrow>
     (case dp_waiting p of
        AnswerReply a g res \<Rightarrow>
          let p1 = p\<lparr>dp_waiting := NoReply\<rparr> in
          (case res of
             Inl f \<Rightarrow> if refused_grant f
               then (case answer_reopened e a d of Inl _ \<Rightarrow> (stop_tick p1, d) | Inr d1 \<Rightarrow> (p1, d1))
               else answer_uncertain e a g (p1, d)
           | Inr _ \<Rightarrow> (case answer_settled e a g d of
               Inl _ \<Rightarrow> answer_uncertain e a g (p1, d)
             | Inr d1 \<Rightarrow> (p1, d1)))
      | _ \<Rightarrow> (p, d)))"

section \<open>Cancellations\<close>

definition set_operation :: "uuid \<Rightarrow> op_state \<Rightarrow> db \<Rightarrow> db" where
  "set_operation i st = update_operations (\<lambda>x. op_id x = i) (\<lambda>x. x\<lparr>op_state := st\<rparr>)"

definition cancel_need :: "session_row \<Rightarrow> need" where
  "cancel_need s = \<lparr> nd_project = Some (se_project s), nd_scope = Some CancelTurns, nd_profile = None, nd_internal = None \<rparr>"

definition cancel_queued :: "env \<Rightarrow> operation_row \<Rightarrow> uuid \<Rightarrow> session_row \<Rightarrow> db \<Rightarrow> db res" where
  "cancel_queued e c t s d =
     andThen (requireAuthority e d (op_actor c) (cancel_need s)) (\<lambda>_.
     andThen (lockSessionResource d (op_session c)) (\<lambda>_.
     let d1 = update_operations (\<lambda>x. op_id x = t \<and> op_state x = Queued) (to_state e Interrupted) d;
         d2 = snd (deriveSessionState (op_session c) (set_operation (op_id c) Succeeded d1))
     in emit e (op_session c) ''operation.interrupted'' [(''operationId'', JStr t)] d2))"

definition cancel_settled :: "env \<Rightarrow> operation_row \<Rightarrow> uuid \<Rightarrow> bool \<Rightarrow> bool \<Rightarrow> db \<Rightarrow> db res" where
  "cancel_settled e c t done denied d =
     andThen (lockSessionResource d (op_session c)) (\<lambda>_.
     let active = some_holds (\<lambda>x. dispatched_state (op_state x)) (operation_find t d) in
     andThen (if \<not> done \<and> \<not> denied \<and> active
       then emit e (op_session c) ''operation.uncertain'' [(''operationId'', JStr t),
             (''reason'', JStr ''Turn interruption could not be confirmed'')]
           (expire_approvals (\<lambda>a. ap_operation a = t) (update_operations (\<lambda>x. op_id x = t) (to_state e Uncertain) d))
       else Inr d) (\<lambda>d1.
     let d2 = update_operations (\<lambda>x. op_id x = op_id c) (to_state e (if done then Succeeded else Failed)) d1;
         d3 = snd (deriveSessionState (op_session c) d2)
     in emit e (op_session c) (if done then ''cancel.noop'' else ''cancel.failed'')
          [(''operationId'', JStr t), (''cancelId'', JStr (op_id c))] d3))"

text \<open>
  \<^verbatim>\<open>TurnAlreadyCompletedError\<close> is the one exception after which the cancellation
  counts as done.
\<close>

definition already_completed :: failure where
  "already_completed = Crash ''TURN_ALREADY_COMPLETED''"

definition waiting_cancel :: "operation_row \<Rightarrow> bool" where
  "waiting_cancel c \<longleftrightarrow> op_kind c = CancelOp \<and> op_state c = Queued"

definition cancel_target :: "operation_row \<Rightarrow> db \<Rightarrow> operation_row option" where
  "cancel_target c d = (case json_text ''operationId'' (op_payload c) of None \<Rightarrow> None | Some t \<Rightarrow> operation_find t d)"

definition cancel_act :: "env \<Rightarrow> unit res \<Rightarrow> operation_row \<Rightarrow> session_row \<Rightarrow> dispatcher \<times> db \<Rightarrow> dispatcher \<times> db" where
  "cancel_act e reply c s ps = (case ps of (p, d) \<Rightarrow>
     let p1 = (case runtime_of p (op_session c) of None \<Rightarrow> p
           | Some r \<Rightarrow> set_runtime (op_session c) (rm_generation r) (authorise (Some (op_actor c)) CancelTurns) p) in
     (case (cancel_target c d, runtime_of p1 (op_session c)) of
        (None, _) \<Rightarrow> (stop_tick p1, d)
      | (Some t, found) \<Rightarrow>
          if op_state t = Queued
          then (case cancel_queued e c (op_id t) s d of
              Inr d' \<Rightarrow> (p1, d')
            | Inl f \<Rightarrow> if refused_grant f then (p1, set_operation (op_id c) Failed d) else (stop_tick p1, d))
          else (case found of
              Some r \<Rightarrow> if rm_operation r = op_id t \<and> rm_turn r \<noteq> []
                then (let d1 = set_operation (op_id c) Dispatching d in
                  (p1\<lparr>dp_waiting := CancelReply c (op_id t) (rm_generation r)
                     (wire_reply e p1 (op_session c) (rm_generation r) reply d1)\<rparr>, d1))
                else (p1, set_operation (op_id c) Failed d)
            | None \<Rightarrow> (p1, set_operation (op_id c) Failed d))))"

definition cancel_begin :: "env \<Rightarrow> uuid \<Rightarrow> unit res \<Rightarrow> dispatcher \<times> db \<Rightarrow> dispatcher \<times> db" where
  "cancel_begin e i reply ps = (case ps of (p, d) \<Rightarrow>
     (case operation_find i d of
        None \<Rightarrow> (p, d)
      | Some c \<Rightarrow>
          if \<not> waiting_cancel c then (p, d)
          else (case session_find (op_session c) d of
              None \<Rightarrow> (stop_tick p, d)
            | Some s \<Rightarrow>
                if succeeds (requireAuthority e d (op_actor c) (cancel_need s)) then cancel_act e reply c s (p, d)
                else (p, set_operation i Failed d))))"

definition cancel_end :: "env \<Rightarrow> dispatcher \<times> db \<Rightarrow> dispatcher \<times> db" where
  "cancel_end e ps = (case ps of (p, d) \<Rightarrow>
     (case dp_waiting p of
        CancelReply c t g res \<Rightarrow>
          let p1 = p\<lparr>dp_waiting := NoReply\<rparr> in
          (case res of
             Inr _ \<Rightarrow> (p1, set_operation (op_id c) Succeeded d)
           | Inl f \<Rightarrow>
               let done = (f = already_completed); denied = refused_grant f;
                   p2 = p1\<lparr>dp_cancel_repairs := delete_where (\<lambda>x. fst x = op_id c) (dp_cancel_repairs p1) @
                          [(op_id c, if done then Succeeded else Failed)]\<rparr>;
                   (p3, d3) = (if done \<or> denied then (p2, d)
                     else poison e ''Turn interruption could not be confirmed'' (op_session c) g (p2, d))
               in (case cancel_settled e c t done denied d3 of
                   Inl _ \<Rightarrow> (stop_tick p3, d3)
                 | Inr d4 \<Rightarrow> (p3\<lparr>dp_cancel_repairs := delete_where (\<lambda>x. fst x = op_id c) (dp_cancel_repairs p3)\<rparr>, d4)))
      | _ \<Rightarrow> (p, d)))"

end
