(* ===== verification/Recovery.thy ===== *)
theory Recovery
  imports Turn_Controls
begin

text \<open>
  Recovery of a conversation with an uncertain outcome: the routes that ask for it and continue
  after it (\<^verbatim>\<open>apps/api/src/recovery.ts\<close>) and the supervisor's part
  (\<^verbatim>\<open>apps/supervisor/src/recovery.ts\<close>), which fences the conversation off, reads what
  the runtime has recorded and never sends a turn. The rows of \<^verbatim>\<open>recovery_audits\<close>
  are not modelled.
\<close>

section \<open>Asking for a recovery\<close>

definition open_recovery :: "recovery_row \<Rightarrow> bool" where
  "open_recovery r \<longleftrightarrow> rc_state r \<in> {RecQueued, RecFencing, RecReady}"

definition unresolved_ids :: "uuid \<Rightarrow> db \<Rightarrow> uuid list" where
  "unresolved_ids i d = sort (map op_id (filter (\<lambda>x. op_session x = i \<and> op_state x = Uncertain \<and>
     op_acknowledged_at x = None) (operations d)))"

definition requeue :: "env \<Rightarrow> string \<Rightarrow> recovery_row \<Rightarrow> recovery_row" where
  "requeue e actor r = r\<lparr>rc_state := RecQueued, rc_attempts := rc_attempts r + 1, rc_actor := actor, rc_updated_at := now e\<rparr>"

definition retryable :: "uuid \<Rightarrow> uuid \<Rightarrow> nat \<Rightarrow> nat \<Rightarrow> recovery_row \<Rightarrow> bool" where
  "retryable i rid attempt g r \<longleftrightarrow> rc_id r = rid \<and> rc_session r = i \<and> rc_state r = RecFailed \<and> rc_attempts r = attempt \<and>
     rc_attempts r < 3 \<and> rc_expected_generation r = g"

text \<open>The unique index \<^verbatim>\<open>session_recovery_active\<close> refuses a second open recovery.\<close>

definition retry_recovery :: "env \<Rightarrow> string \<Rightarrow> uuid \<Rightarrow> nat \<Rightarrow> uuid \<Rightarrow> nat \<Rightarrow> db \<Rightarrow> (uuid \<times> db) res" where
  "retry_recovery e actor i g rid attempt d =
     andThen (first_row (HarborError 409 ''RECOVERY_CONFLICT'') (find (retryable i rid attempt g) (session_recoveries d))) (\<lambda>r.
     if exists_row (\<lambda>x. rc_session x = i \<and> open_recovery x) (session_recoveries d)
     then Inl (Crash ''session_recovery_active'')
     else andThen (emit e i ''recovery.queued'' [(''recoveryId'', JStr rid), (''attempt'', JNum (int (attempt + 1)))]
         (d\<lparr>session_recoveries := update_where (retryable i rid attempt g) (requeue e actor) (session_recoveries d)\<rparr>)) (\<lambda>d'.
       Inr (rid, d')))"

definition new_recovery :: "env \<Rightarrow> string \<Rightarrow> uuid \<Rightarrow> uuid list \<Rightarrow> session_row \<Rightarrow> recovery_row" where
  "new_recovery e actor rid ids s = \<lparr> rc_id = rid, rc_session = se_id s, rc_actor = actor, rc_expected_generation = se_generation s,
     rc_fence_generation = None, rc_state = RecQueued, rc_attempts = 1,
     rc_report = JObj [(''status'', JStr ''unavailable'')], rc_uncertain = ids, rc_continued = None,
     rc_created_at = now e, rc_updated_at = now e \<rparr>"

definition first_recovery :: "env \<Rightarrow> string \<Rightarrow> uuid \<Rightarrow> session_row \<Rightarrow> db \<Rightarrow> (uuid \<times> db) res" where
  "first_recovery e actor fresh s d = (let i = se_id s; ids = unresolved_ids i d in
     if exists_row (\<lambda>r. rc_session r = i \<and> open_recovery r) (session_recoveries d)
     then Inl (HarborError 409 ''RECOVERY_CONFLICT'')
     else if ids = [] then Inl (HarborError 409 ''RECOVERY_NOT_REQUIRED'')
     else if exists_row (\<lambda>r. rc_session r = i \<and> rc_uncertain r = ids \<and> rc_state r = RecFailed) (session_recoveries d)
     then Inl (HarborError 409 ''RECOVERY_CONFLICT'')
     else andThen (capacity i RecoverySlot d) (\<lambda>_.
       if exists_row (\<lambda>r. rc_id r = fresh) (session_recoveries d) then Inl (Crash ''session_recoveries_pkey'')
       else andThen (emit e i ''recovery.queued'' [(''recoveryId'', JStr fresh), (''attempt'', JNum 1)]
           (d\<lparr>session_recoveries := session_recoveries d @ [new_recovery e actor fresh ids s]\<rparr>)) (\<lambda>d'.
         Inr (fresh, d'))))"

text \<open>\<open>retry\<close> is \<^verbatim>\<open>recoveryId\<close> with \<^verbatim>\<open>expectedAttempt\<close>, which the schema takes together.\<close>

definition request_recovery :: "env \<Rightarrow> string \<Rightarrow> uuid \<Rightarrow> nat \<Rightarrow> (uuid \<times> nat) option \<Rightarrow> uuid \<Rightarrow> db \<Rightarrow> (uuid \<times> db) res" where
  "request_recovery e actor i g retry fresh d =
     (if some_holds (\<lambda>(rid, n). \<not> valid_uuid e rid \<or> n < 1 \<or> n > 2) retry then Inl (Crash ''ZodError'')
      else andThen (sessionWorkspace d i) (\<lambda>_.
      andThen (first_row (HarborError 404 ''NOT_FOUND'') (session_find i d)) (\<lambda>s.
      if se_generation s \<noteq> g then Inl (HarborError 409 ''STALE_GENERATION'')
      else (case retry of
          Some (rid, attempt) \<Rightarrow> retry_recovery e actor i g rid attempt d
        | None \<Rightarrow> first_recovery e actor fresh s d))))"

section \<open>Continuing after a recovery\<close>

definition acknowledge :: "env \<Rightarrow> uuid list \<Rightarrow> db \<Rightarrow> db" where
  "acknowledge e ids = update_operations (\<lambda>x. op_id x \<in> set ids \<and> op_state x = Uncertain)
     (\<lambda>x. x\<lparr>op_acknowledged_at := Some (now e)\<rparr>)"

definition consume :: "env \<Rightarrow> uuid \<Rightarrow> uuid \<Rightarrow> db \<Rightarrow> db" where
  "consume e rid opid d = d\<lparr>session_recoveries := update_where (\<lambda>r. rc_id r = rid)
     (\<lambda>r. r\<lparr>rc_state := RecConsumed, rc_continued := Some opid, rc_updated_at := now e\<rparr>) (session_recoveries d)\<rparr>"

definition continue_recovery :: "env \<Rightarrow> uuid \<Rightarrow> uuid \<Rightarrow> nat \<Rightarrow> turn_input \<Rightarrow> string \<Rightarrow> uuid \<Rightarrow> uuid \<Rightarrow> (db \<Rightarrow> unit res) \<Rightarrow>
    db \<Rightarrow> (operation_row \<times> db) res" where
  "continue_recovery e i rid g input actor opid msgid authorize d =
     andThen (parse_turn e input) (\<lambda>_.
     andThen (sessionWorkspace d i) (\<lambda>_.
     andThen (first_row (HarborError 404 ''NOT_FOUND'') (session_find i d)) (\<lambda>s.
     andThen (first_row (HarborError 404 ''NOT_FOUND'') (find (\<lambda>r. rc_id r = rid \<and> rc_session r = i) (session_recoveries d))) (\<lambda>r.
     if rc_state r \<noteq> RecReady \<or> se_generation s \<noteq> g \<or> rc_fence_generation r \<noteq> Some g
     then Inl (HarborError 409 ''RECOVERY_CONFLICT'')
     else if unresolved_ids i d \<noteq> sort (rc_uncertain r) then Inl (HarborError 409 ''RECOVERY_CONFLICT'')
     else andThen (acceptConversationTurn e i input actor opid msgid authorize (acknowledge e (unresolved_ids i d) d)) (\<lambda>(x, d').
       Inr (x, consume e rid (op_id x) d'))))))"

section \<open>The supervisor's admission of a recovery\<close>

definition failed_report :: json where
  "failed_report = JObj [(''status'', JStr ''unavailable''),
     (''reason'', JStr ''Retirement or persistence could not be confirmed; original uncertainty remains'')]"

definition fail_recovery :: "env \<Rightarrow> uuid \<Rightarrow> nat \<Rightarrow> db \<Rightarrow> db" where
  "fail_recovery e rid attempt d = d\<lparr>session_recoveries := update_where
     (\<lambda>r. rc_id r = rid \<and> rc_attempts r = attempt \<and> rc_state r \<in> {RecQueued, RecFencing})
     (\<lambda>r. r\<lparr>rc_state := RecFailed, rc_report := failed_report, rc_updated_at := now e\<rparr>) (session_recoveries d)\<rparr>"

definition repair_settlements :: "env \<Rightarrow> dispatcher \<times> db \<Rightarrow> dispatcher \<times> db" where
  "repair_settlements e s = (case s of (p, d) \<Rightarrow>
     (p\<lparr>dp_settlements := []\<rparr>, fold (\<lambda>(rid, n). fail_recovery e rid n) (dp_settlements p) d))"

definition recovery_authority :: "env \<Rightarrow> dispatcher \<Rightarrow> string \<Rightarrow> db \<Rightarrow> unit res" where
  "recovery_authority e p actor d =
     (if \<not> dp_alive p \<or> meta_generation d \<noteq> dp_generation p \<or> meta_identity_pin d \<noteq> identity_pin e \<or> dp_mutating p
      then Inl (Crash ''Recovery authority lost'')
      else andThen (requireAuthority e d actor no_need) (\<lambda>a.
        if au_kind a \<noteq> BrowserAuthority then Inl (Crash ''Browser authority required'') else Inr ()))"

definition recovery_workspace :: "uuid \<Rightarrow> db \<Rightarrow> workspace_row res" where
  "recovery_workspace i d =
     andThen (sessionWorkspace d i) (\<lambda>sel. let w = fst sel in
       if ws_state w \<noteq> WsReady \<or> (ws_writer_owner w \<noteq> None \<and>
          (ws_writer_kind w \<noteq> Some ConversationWriter \<or> ws_writer_owner w \<noteq> Some i))
       then Inl (Crash ''Workspace owned by another operation or unavailable'')
       else if storage_pending (ws_project w) d then Inl (Crash ''Workspace storage operation pending'')
       else Inr w)"

definition lockedSession :: "env \<Rightarrow> dispatcher \<Rightarrow> recovery_row \<Rightarrow> db \<Rightarrow> (session_row \<times> workspace_row) res" where
  "lockedSession e p r d =
     andThen (recovery_authority e p (rc_actor r) d) (\<lambda>_.
     andThen (recovery_workspace (rc_session r) d) (\<lambda>w.
     (case session_find (rc_session r) d of
        None \<Rightarrow> Inl (Crash ''Recovery generation changed'')
      | Some s \<Rightarrow> if se_generation s \<noteq> rc_expected_generation r then Inl (Crash ''Recovery generation changed'')
          else Inr (s, w))))"

definition next_recovery :: "db \<Rightarrow> recovery_row option" where
  "next_recovery d = (case sort_key (\<lambda>r. (rc_created_at r, rc_id r)) (filter (\<lambda>r. rc_state r = RecQueued) (session_recoveries d)) of
     [] \<Rightarrow> None | r # _ \<Rightarrow> Some r)"

definition fenced :: "recovery_row \<Rightarrow> recovery_row \<Rightarrow> bool" where
  "fenced n r \<longleftrightarrow> rc_id r = rc_id n \<and> rc_state r = RecQueued \<and> rc_attempts r = rc_attempts n"

text \<open>
  The first transaction of \<^verbatim>\<open>processRecovery\<close>. When it throws, the recovery fails;
  were that statement to fail too, \<open>dp_settlements\<close> would keep it for the next pass.
\<close>

definition admit_recovery :: "env \<Rightarrow> dispatcher \<times> db \<Rightarrow> dispatcher \<times> db" where
  "admit_recovery e s = (case s of (p, d) \<Rightarrow>
     (case next_recovery d of
        None \<Rightarrow> (p, d)
      | Some n \<Rightarrow> (case lockedSession e p n d of
            Inl _ \<Rightarrow> (p, fail_recovery e (rc_id n) (rc_attempts n) d)
          | Inr _ \<Rightarrow>
              if exists_row (fenced n) (session_recoveries d)
              then (p\<lparr>dp_waiting := RecoveryWork n\<rparr>, d\<lparr>session_recoveries := update_where (fenced n)
                (\<lambda>r. r\<lparr>rc_state := RecFencing, rc_updated_at := now e\<rparr>) (session_recoveries d)\<rparr>)
              else (p, d))))"

section \<open>What the runtime has recorded\<close>

record native_entry =
  ne_turn :: string
  ne_completed :: bool
  ne_type :: string
  ne_id :: "string option"
  ne_text :: "string option"

record tally =
  ta_items :: nat
  ta_bytes :: int
  ta_messages :: nat
  ta_repaired :: nat
  ta_conflicts :: nat
  ta_truncated :: bool

definition entry_status :: "native_entry \<Rightarrow> msg_status" where
  "entry_status x = (if ne_completed x then MsgComplete else MsgRecovered)"

definition entry_operation :: "uuid \<Rightarrow> native_entry \<Rightarrow> db \<Rightarrow> uuid option" where
  "entry_operation i x d = map_option op_id (find (\<lambda>y. op_session y = i \<and> op_native_turn y = Some (ne_turn x)) (operations d))"

text \<open>Durable text is never replaced: it is extended, or the entry is a conflict.\<close>

definition store_entry :: "(nat \<Rightarrow> uuid) \<Rightarrow> uuid \<Rightarrow> native_entry \<Rightarrow> string \<Rightarrow> string \<Rightarrow> message_row option \<Rightarrow> tally \<times> db \<Rightarrow> (tally \<times> db) res" where
  "store_entry fresh i x it text old td = (case td of (t, d) \<Rightarrow>
     let extra = int (length text) - (case old of None \<Rightarrow> 0 | Some m \<Rightarrow> int (length (ms_text m)));
         t' = t\<lparr>ta_bytes := ta_bytes t + extra, ta_repaired := ta_repaired t + 1\<rparr>
     in if ta_bytes t + extra > 2097152 \<or> (old = None \<and> ta_messages t \<ge> 2000) then Inr (t\<lparr>ta_truncated := True\<rparr>, d)
        else (case old of
            Some m \<Rightarrow> Inr (t', d\<lparr>messages := update_where (\<lambda>y. ms_id y = ms_id m)
              (\<lambda>y. y\<lparr>ms_text := text, ms_status := entry_status x\<rparr>) (messages d)\<rparr>)
          | None \<Rightarrow> andThen (insert_message \<lparr> ms_id = fresh (ta_items t), ms_session = i, ms_operation = entry_operation i x d,
                ms_native_item = Some it, ms_role = AssistantRole, ms_text = text, ms_status = entry_status x \<rparr> d) (\<lambda>d'.
              Inr (t'\<lparr>ta_messages := ta_messages t + 1\<rparr>, d'))))"

definition reconcile_entry :: "(nat \<Rightarrow> uuid) \<Rightarrow> uuid \<Rightarrow> native_entry \<Rightarrow> tally \<times> db \<Rightarrow> (tally \<times> db) res" where
  "reconcile_entry fresh i x td = (case td of (t, d) \<Rightarrow>
     (case (ne_type x = ''agentMessage'', ne_id x, ne_text x) of
        (True, Some it, Some text) \<Rightarrow>
          if length it > 256 then Inr (t, d)
          else (let old = item_find i it d in
            if some_holds (\<lambda>m. ms_status m = MsgComplete) old
            then Inr (if some_holds (\<lambda>m. ms_text m \<noteq> text) old then t\<lparr>ta_conflicts := ta_conflicts t + 1\<rparr> else t, d)
            else if some_holds (\<lambda>m. \<not> starts_with (ms_text m) text) old
            then Inr (t\<lparr>ta_conflicts := ta_conflicts t + 1\<rparr>, d)
            else store_entry fresh i x it text old (t, d))
      | _ \<Rightarrow> Inr (t, d)))"

text \<open>The two loops of \<^verbatim>\<open>reconcileNative\<close> visit the items of all turns in order.\<close>

fun reconcile_entries :: "(nat \<Rightarrow> uuid) \<Rightarrow> uuid \<Rightarrow> native_entry list \<Rightarrow> tally \<times> db \<Rightarrow> (tally \<times> db) res" where
  "reconcile_entries fresh i [] td = Inr td"
| "reconcile_entries fresh i (x # xs) (t, d) =
     (let t' = t\<lparr>ta_items := ta_items t + 1\<rparr> in
      if ta_items t' > 2000 then Inr (t'\<lparr>ta_truncated := True\<rparr>, d)
      else andThen (reconcile_entry fresh i x (t', d)) (reconcile_entries fresh i xs))"

definition reconcileNative :: "(nat \<Rightarrow> uuid) \<Rightarrow> uuid \<Rightarrow> native_entry list \<Rightarrow> db \<Rightarrow> (tally \<times> db) res" where
  "reconcileNative fresh i xs d = reconcile_entries fresh i xs
     (\<lparr> ta_items = 0, ta_bytes = int (history_bytes i d), ta_messages = history_messages i d, ta_repaired = 0,
        ta_conflicts = 0, ta_truncated = False \<rparr>, d)"

section \<open>Fencing\<close>

text \<open>
  What the probe of the runtime answers: nothing usable, too much, or its entries. A conversation
  without a native thread is not probed.
\<close>

datatype native_read = ReadFailed | ReadTruncated | ReadEntries "native_entry list"

definition tally_report :: "tally \<Rightarrow> json" where
  "tally_report t = JObj [(''status'', JStr ''available''), (''repairedItems'', JNum (int (ta_repaired t))),
     (''conflicts'', JNum (int (ta_conflicts t))), (''truncated'', JBool (ta_truncated t))]"

definition read_report :: "string \<Rightarrow> string \<Rightarrow> json" where
  "read_report st reason = JObj [(''status'', JStr st), (''reason'', JStr reason)]"

definition read_native :: "(nat \<Rightarrow> uuid) \<Rightarrow> session_row \<Rightarrow> native_read \<Rightarrow> db \<Rightarrow> (json \<times> db) res" where
  "read_native fresh s answer d =
     (if se_native_thread s = None
      then Inr (read_report ''unavailable'' ''No confirmed native thread reference; durable history retained'', d)
      else (case answer of
          ReadFailed \<Rightarrow> Inr (read_report ''unavailable'' ''Native read failed; durable history retained'', d)
        | ReadTruncated \<Rightarrow> Inr (read_report ''truncated'' ''Native read exceeds 2 MiB; durable history retained'', d)
        | ReadEntries xs \<Rightarrow> andThen (reconcileNative fresh (se_id s) xs d) (\<lambda>(t, d'). Inr (tally_report t, d'))))"

definition release_held :: "env \<Rightarrow> session_row \<Rightarrow> workspace_row \<Rightarrow> db \<Rightarrow> db res" where
  "release_held e s w d =
     andThen (selectedWorkspace d (se_workspace s)) (\<lambda>sel.
     (case ws_writer_generation w of
        None \<Rightarrow> if ws_writer_owner (fst sel) \<noteq> None then Inl (Crash ''Reservation changed'') else Inr d
      | Some g \<Rightarrow> releaseRecoveredWorkspace e (se_workspace s) (se_id s) g d))"

definition drop_queue :: "env \<Rightarrow> uuid \<Rightarrow> db \<Rightarrow> db" where
  "drop_queue e i = update_operations (\<lambda>x. op_session x = i \<and> op_state x = Queued) (to_state e Interrupted)"

definition expire_answers :: "uuid \<Rightarrow> db \<Rightarrow> db" where
  "expire_answers i d = d\<lparr>approvals := update_where (\<lambda>a. ap_session a = i \<and> open_approval a)
     (\<lambda>a. a\<lparr>ap_state := ''expired'', ap_answer := None\<rparr>) (approvals d)\<rparr>"

definition make_ready :: "env \<Rightarrow> uuid \<Rightarrow> nat \<Rightarrow> json \<Rightarrow> db \<Rightarrow> db" where
  "make_ready e rid g report d = d\<lparr>session_recoveries := update_where (\<lambda>r. rc_id r = rid)
     (\<lambda>r. r\<lparr>rc_state := RecReady, rc_fence_generation := Some g, rc_report := report, rc_updated_at := now e\<rparr>)
     (session_recoveries d)\<rparr>"

text \<open>
  The second transaction. \<open>retired\<close> says that each of the three retirements it awaits is confirmed:
  the conversation's runtime before and after the probe, and the probe itself. \<open>fresh\<close> gives the
  identifiers of new messages.
\<close>

definition fence_commit :: "env \<Rightarrow> dispatcher \<Rightarrow> (nat \<Rightarrow> uuid) \<Rightarrow> bool \<Rightarrow> native_read \<Rightarrow> recovery_row \<Rightarrow> db \<Rightarrow> db res" where
  "fence_commit e p fresh retired answer n d =
     andThen (lockedSession e p n d) (\<lambda>(s, w).
     if \<not> exists_row (\<lambda>r. rc_id r = rc_id n \<and> rc_state r = RecFencing \<and> rc_attempts r = rc_attempts n) (session_recoveries d)
     then Inl (Crash ''Recovery attempt changed'')
     else if \<not> retired then Inl (Crash ''Runtime retirement unconfirmed'')
     else let i = se_id s; g = Suc (runtime_generation_seq d); d1 = d\<lparr>runtime_generation_seq := g\<rparr> in
     andThen (release_held e s w d1) (\<lambda>d2.
     andThen (read_native fresh s answer d2) (\<lambda>(report, d3).
     let d4 = make_ready e (rc_id n) g report (update_session i (\<lambda>x. x\<lparr>se_generation := g\<rparr>)
           (drop_queue e i (expire_answers i d3))) in
     andThen (emit e i ''recovery.ready'' [(''recoveryId'', JStr (rc_id n)), (''generation'', JNum (int g)), (''report'', report)] d4) (\<lambda>d5.
     andThen (recovery_authority e p (rc_actor n) d5) (\<lambda>_. Inr d5)))))"

definition fence_recovery :: "env \<Rightarrow> (nat \<Rightarrow> uuid) \<Rightarrow> bool \<Rightarrow> native_read \<Rightarrow> dispatcher \<times> db \<Rightarrow> dispatcher \<times> db" where
  "fence_recovery e fresh retired answer s = (case s of (p, d) \<Rightarrow>
     (case dp_waiting p of
        RecoveryWork n \<Rightarrow>
          let p1 = p\<lparr>dp_waiting := NoReply\<rparr>;
              p2 = (case runtime_of p1 (rc_session n) of None \<Rightarrow> p1
                | Some r \<Rightarrow> if succeeds (lockedSession e p1 n d) then unmap (rc_session n) (rm_generation r) p1 else p1)
          in (case fence_commit e p1 fresh retired answer n d of
              Inr d' \<Rightarrow> (p2, d')
            | Inl _ \<Rightarrow> repair_settlements e (p2\<lparr>dp_settlements := dp_settlements p2 @ [(rc_id n, rc_attempts n)]\<rparr>, d))
      | _ \<Rightarrow> (p, d)))"

end
