(* ===== verification/Conversation_Routes.thy ===== *)
theory Conversation_Routes
  imports Recovery Schedule_Management
begin

text \<open>
  The writing routes of a conversation: creation, metadata, answers to approvals, the background
  stop and the emergency stop (\<^verbatim>\<open>apps/api/src/server.ts\<close>,
  \<^verbatim>\<open>apps/api/src/history.ts\<close>). Each is what the route does inside the command
  that carries it.
\<close>

section \<open>Conversations\<close>

record session_input =
  si_project :: uuid
  si_workspace :: "uuid option"
  si_title :: "string option"
  si_model :: string
  si_effort :: "string option"
  si_profile :: "profile option"

definition parse_session :: "env \<Rightarrow> session_input \<Rightarrow> session_input res" where
  "parse_session e b = (let t = map_option trim (si_title b) in
     if \<not> valid_uuid e (si_project b) \<or> some_holds (\<lambda>w. \<not> valid_uuid e w) (si_workspace b) \<or>
        some_holds (\<lambda>x. x = [] \<or> length x > 100) t \<or> si_model b = [] \<or> length (si_model b) > 100 \<or>
        some_holds (\<lambda>x. x \<notin> set reasoning_efforts) (si_effort b)
     then Inl (Crash ''ZodError'')
     else Inr (b\<lparr> si_title := Some (case t of None \<Rightarrow> ''New conversation'' | Some x \<Rightarrow> x),
       si_effort := Some (case si_effort b of None \<Rightarrow> ''medium'' | Some x \<Rightarrow> x),
       si_profile := Some (case si_profile b of None \<Rightarrow> ReadOnly | Some x \<Rightarrow> x) \<rparr>))"

definition new_session :: "env \<Rightarrow> uuid \<Rightarrow> uuid \<Rightarrow> session_input \<Rightarrow> session_row" where
  "new_session e fresh wid b = \<lparr> se_id = fresh, se_project = si_project b, se_workspace = wid,
     se_title = the (si_title b), se_title_source = TitlePending, se_state = Idle, se_model = si_model b,
     se_effort = the (si_effort b), se_profile = the (si_profile b), se_generation = 0, se_sequence = 0, se_replay_floor = 0,
     se_history_ceiling = 500, se_metadata_revision = 0, se_archived = False, se_native_thread = None,
     se_background_until = None, se_background_stop = False, se_updated_at = now e \<rparr>"

definition chosen_workspace :: "session_input \<Rightarrow> workspace_row \<Rightarrow> bool" where
  "chosen_workspace b w \<longleftrightarrow> ws_project w = si_project b \<and>
     (case si_workspace b of None \<Rightarrow> ws_kind w = LocalWs | Some i \<Rightarrow> ws_id w = i)"

definition create_session :: "env \<Rightarrow> session_input \<Rightarrow> uuid \<Rightarrow> db \<Rightarrow> (session_row \<times> db) res" where
  "create_session e input fresh d =
     andThen (parse_session e input) (\<lambda>b.
     andThen (case permission_ceiling e of None \<Rightarrow> Inr () | Some c \<Rightarrow> authorizePermission (the (si_profile b)) c) (\<lambda>_.
     andThen (effectiveSettings e d (si_model b) (the (si_effort b))) (\<lambda>_.
     if si_model b \<notin> set (allowed_models e) then Inl (HarborError 403 ''MODEL_DENIED'')
     else if length (sessions d) \<ge> max_sessions e then Inl (HarborError 429 ''SESSION_QUOTA'')
     else andThen (first_row (HarborError 404 ''NOT_FOUND'') (find (chosen_workspace b) (workspaces d))) (\<lambda>w0.
     andThen (selectedWorkspace d (ws_id w0)) (\<lambda>sel.
     if pj_archived_at (snd sel) \<noteq> None \<or> ws_state (fst sel) \<noteq> WsReady
     then Inl (HarborError 409 ''WORKSPACE_UNAVAILABLE'')
     else andThen (verifyWorkspace e sel) (\<lambda>_.
     if exists_row (\<lambda>s. se_id s = fresh) (sessions d) then Inl (Crash ''sessions_pkey'')
     else let s = new_session e fresh (ws_id (fst sel)) b in Inr (s, d\<lparr>sessions := sessions d @ [s]\<rparr>)))))))"

definition metadata_event :: "env \<Rightarrow> session_row \<Rightarrow> db \<Rightarrow> db res" where
  "metadata_event e s d = emit e (se_id s) ''session.metadata'' [(''title'', JStr (se_title s)),
     (''archived'', JBool (se_archived s)), (''revision'', JNum (int (se_metadata_revision s)))] d"

definition archive_session :: "env \<Rightarrow> uuid \<Rightarrow> db \<Rightarrow> db res" where
  "archive_session e i d =
     andThen (sessionWorkspace d i) (\<lambda>_.
     andThen (first_row (HarborError 404 ''NOT_FOUND'') (session_find i d)) (\<lambda>s.
     if se_archived s then Inr d
     else let s' = s\<lparr>se_archived := True, se_metadata_revision := se_metadata_revision s + 1\<rparr>
       in metadata_event e s' (update_session i
         (\<lambda>x. x\<lparr>se_archived := True, se_metadata_revision := se_metadata_revision x + 1\<rparr>) d)))"

definition edit_metadata :: "string option \<Rightarrow> bool option \<Rightarrow> session_row \<Rightarrow> session_row" where
  "edit_metadata title arch s = s\<lparr> se_title := (case title of None \<Rightarrow> se_title s | Some t \<Rightarrow> t),
     se_title_source := (if title = None then se_title_source s else TitleManual),
     se_archived := (case arch of None \<Rightarrow> se_archived s | Some b \<Rightarrow> b),
     se_metadata_revision := se_metadata_revision s + 1 \<rparr>"

definition session_metadata :: "env \<Rightarrow> uuid \<Rightarrow> nat \<Rightarrow> string option \<Rightarrow> bool option \<Rightarrow> db \<Rightarrow> db res" where
  "session_metadata e i revision title arch d = (let t = map_option trim title in
     if some_holds (\<lambda>x. x = [] \<or> length x > 200) t \<or> (title = None \<and> arch = None) then Inl (Crash ''ZodError'')
     else andThen (sessionWorkspace d i) (\<lambda>_.
     andThen (first_row (HarborError 404 ''NOT_FOUND'') (session_find i d)) (\<lambda>s.
     if se_metadata_revision s \<noteq> revision then Inl (HarborError 409 ''STALE_REVISION'')
     else metadata_event e (edit_metadata t arch s) (update_session i (edit_metadata t arch) d))))"

definition stop_background_route :: "env \<Rightarrow> uuid \<Rightarrow> nat \<Rightarrow> db \<Rightarrow> db res" where
  "stop_background_route e i g d =
     (if \<not> personal_mode e then Inl (HarborError 409 ''PERSONAL_VPS_FEATURE_UNAVAILABLE'')
      else andThen (sessionWorkspace d i) (\<lambda>_.
      andThen (first_row (HarborError 404 ''NOT_FOUND'') (session_find i d)) (\<lambda>s.
      if se_generation s \<noteq> g then Inl (HarborError 409 ''STALE_GENERATION'')
      else if exists_row (\<lambda>x. op_session x = i \<and> active_state (op_state x)) (operations d)
      then Inl (HarborError 409 ''TURN_ACTIVE'')
      else if exists_row (\<lambda>m. cr_session m = i \<and> cr_generation m = g) (conversation_runtimes d) \<and> \<not> se_background_stop s
      then emit e i ''background.stop-requested'' [(''generation'', JNum (int g))]
        (update_session i (\<lambda>x. x\<lparr>se_background_stop := True\<rparr>) d)
      else Inr d)))"

section \<open>Answers to approvals\<close>

record answer_input =
  an_generation :: int
  an_accept :: bool
  an_answers :: "(string \<times> string list) list option"

definition answer_schema :: "answer_input \<Rightarrow> bool" where
  "answer_schema b \<longleftrightarrow> (case an_answers b of None \<Rightarrow> True
     | Some xs \<Rightarrow> list_all (\<lambda>(_, ys). length ys \<le> 20 \<and> list_all (\<lambda>y. length y \<le> 4096) ys) xs \<and> distinct (map fst xs))"

fun json_items :: "json \<Rightarrow> json list" where
  "json_items (JArr xs) = xs"
| "json_items _ = []"

definition question_ids :: "json \<Rightarrow> string list" where
  "question_ids sc = List.map_filter (json_text ''id'') (json_items (json_field ''questions'' sc))"

definition input_kind :: "approval_row \<Rightarrow> bool" where
  "input_kind a \<longleftrightarrow> ap_kind a = ''item/tool/requestUserInput''"

definition exact_answers :: "string list \<Rightarrow> (string \<times> string list) list \<Rightarrow> bool" where
  "exact_answers ids xs \<longleftrightarrow> length xs = length ids \<and> list_all (\<lambda>i. some_holds (\<lambda>ys. ys \<noteq> []) (map_of xs i)) ids \<and>
     list_all (\<lambda>x. fst x \<in> set ids) xs"

definition answer_refusal :: "env \<Rightarrow> answer_input \<Rightarrow> approval_row \<Rightarrow> session_row \<Rightarrow> unit res" where
  "answer_refusal e b a s =
     andThen (case permission_ceiling e of None \<Rightarrow> Inr () | Some c \<Rightarrow> authorizePermission (se_profile s) c) (\<lambda>_.
     if ap_state a \<noteq> ''pending'' \<or> int (ap_generation a) \<noteq> an_generation b \<or> ap_deadline a \<le> now e \<or>
        int (se_generation s) \<noteq> an_generation b
     then Inl (HarborError 409 ''STALE_APPROVAL'')
     else if \<not> input_kind a \<and> an_answers b \<noteq> None then Inl (HarborError 400 ''INVALID_ANSWER'')
     else if \<not> an_accept b \<and> an_answers b \<noteq> None then Inl (HarborError 400 ''INVALID_ANSWER'')
     else if input_kind a \<and> an_accept b \<and> \<not> some_holds (exact_answers (question_ids (ap_scope a))) (an_answers b)
     then Inl (HarborError 400 ''INVALID_ANSWER'')
     else Inr ())"

definition answer_json :: "answer_input \<Rightarrow> json" where
  "answer_json b = JObj ([(''generation'', JNum (an_generation b)),
     (''decision'', JStr (if an_accept b then ''accept'' else ''decline''))] @
     (case an_answers b of None \<Rightarrow> []
      | Some xs \<Rightarrow> [(''answers'', JObj (map (\<lambda>(i, ys). (i, JObj [(''answers'', JArr (map JStr ys))])) xs))]))"

definition answer_approval :: "env \<Rightarrow> string \<Rightarrow> uuid \<Rightarrow> answer_input \<Rightarrow> db \<Rightarrow> db res" where
  "answer_approval e actor i b d =
     (if \<not> answer_schema b then Inl (Crash ''ZodError'')
      else andThen (first_row (HarborError 404 ''NOT_FOUND'') (approval_find i d)) (\<lambda>a.
      andThen (lockSessionResource d (ap_session a)) (\<lambda>_.
      andThen (first_row (HarborError 404 ''NOT_FOUND'') (session_find (ap_session a) d)) (\<lambda>s.
      andThen (answer_refusal e b a s) (\<lambda>_.
      emit e (ap_session a) ''approval.answering'' [(''approvalId'', JStr i)]
        (update_approval (\<lambda>x. ap_id x = i)
          (\<lambda>x. x\<lparr>ap_state := ''answering'', ap_answer := Some (answer_json b), ap_actor := Some actor\<rparr>) d))))))"

section \<open>Emergency stop\<close>

definition emergency_stop :: "env \<Rightarrow> db \<Rightarrow> db" where
  "emergency_stop e d = (emergencyPauseSchedules e (d\<lparr>meta_emergency := True\<rparr>))\<lparr>audits := audits d @ [now e]\<rparr>"

end
