(* ===== verification/Turn_Events.thy ===== *)
theory Turn_Events
  imports Conversation_Routes
begin

text \<open>
  The turns of all conversations as one system: the data base, every supervisor process that was
  ever started, and the list of turns that were written to a runtime. An event is one transaction
  of a request or one step of a supervisor; several supervisors may interleave, although an
  advisory lock is meant to prevent it, and none has to know that another has been started. A
  step whose transaction throws leaves the data base as it was.
\<close>

section \<open>Requests\<close>

text \<open>
  \<open>Elsewhere\<close> is a transaction of another component (files, terminals, previews, policy,
  schedules): it leaves the tables of this one alone. A schedule's turn is an \<open>AcceptTurn\<close>.
\<close>

datatype client_event =
    AcceptTurn uuid turn_input string uuid uuid "db \<Rightarrow> unit res"
  | CancelTurn uuid string uuid "db \<Rightarrow> unit res"
  | AnswerApproval string uuid answer_input
  | StopBackground uuid nat
  | EmergencyStop
  | RequestRecovery string uuid nat "(uuid \<times> nat) option" uuid
  | ContinueRecovery uuid uuid nat turn_input string uuid uuid "db \<Rightarrow> unit res"
  | CreateSession session_input uuid
  | ArchiveSession uuid
  | EditSession uuid nat "string option" "bool option"
  | ReleaseWorkspace uuid uuid nat
  | Elsewhere db

definition turn_tables :: "db \<Rightarrow> nat \<times> operation_row list \<times> message_row list \<times> approval_row list \<times> recovery_row list" where
  "turn_tables d = (meta_generation d, operations d, messages d, approvals d, session_recoveries d)"

fun client_act :: "env \<Rightarrow> client_event \<Rightarrow> db \<Rightarrow> db res" where
  "client_act e (AcceptTurn i b actor opid msgid auth) d = andThen (acceptConversationTurn e i b actor opid msgid auth d) (\<lambda>(_, d'). Inr d')"
| "client_act e (CancelTurn t actor fresh auth) d = andThen (requestTurnCancellation e t actor fresh auth d) (\<lambda>(_, d'). Inr d')"
| "client_act e (AnswerApproval actor i b) d = answer_approval e actor i b d"
| "client_act e (StopBackground i g) d = stop_background_route e i g d"
| "client_act e EmergencyStop d = Inr (emergency_stop e d)"
| "client_act e (RequestRecovery actor i g retry fresh) d = andThen (request_recovery e actor i g retry fresh d) (\<lambda>(_, d'). Inr d')"
| "client_act e (ContinueRecovery i rid g b actor opid msgid auth) d =
     andThen (continue_recovery e i rid g b actor opid msgid auth d) (\<lambda>(_, d'). Inr d')"
| "client_act e (CreateSession b fresh) d = andThen (create_session e b fresh d) (\<lambda>(_, d'). Inr d')"
| "client_act e (ArchiveSession i) d = archive_session e i d"
| "client_act e (EditSession i n t b) d = session_metadata e i n t b d"
| "client_act e (ReleaseWorkspace w i g) d = releaseRecoveredWorkspace e w i g d"
| "client_act e (Elsewhere d') d = (if turn_tables d' = turn_tables d then Inr d' else Inl (Crash ''not enabled''))"

section \<open>Steps of a supervisor\<close>

datatype process_event =
    LoseAuthority | ChangeCredential bool string
  | BeginTick | StopTick
  | Repair uuid | RepairCancel uuid | RepairSettlements
  | AdmitRecovery | FenceRecovery "nat \<Rightarrow> uuid" bool native_read
  | ReadEmergency | StopRuntime uuid | StopQueue | Reconcile uuid nat bool
  | AnswerBegin uuid "unit res" | AnswerEnd | CancelBegin uuid "unit res" | CancelEnd
  | Fetch | NextCandidate | Consider process_inspection | Prepare process_inspection | Replaced bool | Admit
  | Launch | OwnedIdentity string | Transport | Opened "model_capability list" string | BindRuntime
  | SendTurn | TurnStarted string | Fail bool
  | Notify uuid uuid nat uuid notification | Request uuid uuid nat uuid native_request
  | PoisonMailbox string uuid nat | Classify uuid nat "process_inspection option"
  | RetireBegin uuid nat bool "uuid option" process_inspection | RetireSettle uuid nat bool

definition at_stage :: "(phase \<Rightarrow> bool) \<Rightarrow> (stage \<Rightarrow> dispatcher \<times> db \<Rightarrow> dispatcher \<times> db) \<Rightarrow> dispatcher \<times> db \<Rightarrow> dispatcher \<times> db" where
  "at_stage P f s = (case dp_stage (fst s) of None \<Rightarrow> s | Some st \<Rightarrow> if P (st_phase st) then f st s else s)"

definition in_tick :: "(dispatcher \<times> db \<Rightarrow> dispatcher \<times> db) \<Rightarrow> dispatcher \<times> db \<Rightarrow> dispatcher \<times> db" where
  "in_tick f s = (if free_tick (fst s) then f s else s)"

definition send_turn :: "env \<Rightarrow> stage \<Rightarrow> dispatcher \<times> db \<Rightarrow> dispatcher \<times> db" where
  "send_turn e st s = (case s of (p, d) \<Rightarrow> (if sends e st p d then advance Sent st p else p, d))"

fun process_act :: "env \<Rightarrow> process_event \<Rightarrow> dispatcher \<times> db \<Rightarrow> dispatcher \<times> db" where
  "process_act e LoseAuthority s = ((fst s)\<lparr>dp_alive := False\<rparr>, snd s)"
| "process_act e (ChangeCredential b v) s = ((fst s)\<lparr>dp_mutating := b, dp_credential := v\<rparr>, snd s)"
| "process_act e BeginTick s = begin_tick s"
| "process_act e StopTick s = (stop_tick (fst s), snd s)"
| "process_act e (Repair i) s = repair e i s"
| "process_act e (RepairCancel i) s = repair_cancel e i s"
| "process_act e RepairSettlements s = repair_settlements e s"
| "process_act e AdmitRecovery s = in_tick (admit_recovery e) s"
| "process_act e (FenceRecovery fresh b x) s = fence_recovery e fresh b x s"
| "process_act e ReadEmergency s = in_tick read_emergency s"
| "process_act e (StopRuntime i) s = in_tick (stop_runtime e i) s"
| "process_act e StopQueue s = in_tick stop_queue s"
| "process_act e (Reconcile i g b) s = in_tick (reconcile e i g b) s"
| "process_act e (AnswerBegin i r) s = in_tick (answer_begin e i r) s"
| "process_act e AnswerEnd s = answer_end e s"
| "process_act e (CancelBegin i r) s = in_tick (cancel_begin e i r) s"
| "process_act e CancelEnd s = cancel_end e s"
| "process_act e Fetch s = fetch e s"
| "process_act e NextCandidate s = (next_candidate (fst s), snd s)"
| "process_act e (Consider x) s = at_stage (\<lambda>ph. ph = Considering) (consider_turn e x) s"
| "process_act e (Prepare x) s = at_stage (\<lambda>ph. ph = Preparing) (prepare e x) s"
| "process_act e (Replaced b) s = at_stage (\<lambda>ph. ph = Replacing) (replaced e b) s"
| "process_act e Admit s = at_stage (\<lambda>ph. ph = Admitting) (admit e) s"
| "process_act e Launch s = at_stage (\<lambda>ph. ph = Admitted) (launch e) s"
| "process_act e (OwnedIdentity x) s = at_stage (\<lambda>ph. ph = Launching) (\<lambda>st (p, d). (p, owned_identity x st d)) s"
| "process_act e Transport s = at_stage (\<lambda>ph. ph = Launching) (transport e) s"
| "process_act e (Opened c t) s = at_stage (\<lambda>ph. ph = Launched) (opened e c t) s"
| "process_act e BindRuntime s = at_stage (\<lambda>ph. ph = Binding) (bind e) s"
| "process_act e SendTurn s = at_stage (\<lambda>ph. ph = Bound) (send_turn e) s"
| "process_act e (TurnStarted t) s = at_stage (\<lambda>ph. ph = Sent) (turn_started e t) s"
| "process_act e (Fail b) s = at_stage (\<lambda>ph. ph \<noteq> Considering) (failed e b) s"
| "process_act e (Notify fresh i g opid n) s = onEvent e fresh i g opid n s"
| "process_act e (Request fresh i g opid q) s = onRequest e fresh i g opid q s"
| "process_act e (PoisonMailbox reason i g) s = poison e reason i g s"
| "process_act e (Classify i g x) s = classifyRuntime e i g x s"
| "process_act e (RetireBegin i g b c x) s = retire_begin e i g b c x s"
| "process_act e (RetireSettle i g b) s = settle_retirement e i g b s"

text \<open>The turn that the event writes to its runtime.\<close>

definition process_sends :: "env \<Rightarrow> process_event \<Rightarrow> dispatcher \<times> db \<Rightarrow> uuid list" where
  "process_sends e ev s = (case (ev, dp_stage (fst s)) of
     (SendTurn, Some st) \<Rightarrow> if sends e st (fst s) (snd s) then [op_id (ca_operation (st_candidate st))] else []
   | _ \<Rightarrow> [])"

section \<open>The system\<close>

record world =
  wd_db :: db
  wd_dispatchers :: "dispatcher list"
  wd_starts :: "uuid list"

datatype turn_event = Client client_event | Boot "runtime_row \<Rightarrow> bool" string | Process nat process_event

definition new_dispatcher :: "nat \<Rightarrow> string \<Rightarrow> dispatcher" where
  "new_dispatcher g version = \<lparr> dp_generation = g, dp_alive = True, dp_mutating = False, dp_credential = version,
     dp_runtimes = [], dp_repairs = [], dp_cancel_repairs = [], dp_settlements = [], dp_ticking = False,
     dp_emergency = False, dp_maintenance = False, dp_candidates = [], dp_stage = None, dp_waiting = NoReply \<rparr>"

definition dispatcher_of :: "nat \<Rightarrow> world \<Rightarrow> dispatcher option" where
  "dispatcher_of g w = find (\<lambda>p. dp_generation p = g) (wd_dispatchers w)"

definition put_dispatcher :: "nat \<Rightarrow> dispatcher \<Rightarrow> world \<Rightarrow> world" where
  "put_dispatcher g p w = w\<lparr>wd_dispatchers := update_where (\<lambda>q. dp_generation q = g) (\<lambda>_. p) (wd_dispatchers w)\<rparr>"

definition turn_happen :: "env \<times> turn_event \<Rightarrow> world \<Rightarrow> world res" where
  "turn_happen x w = (case x of
     (e, Client ev) \<Rightarrow> andThen (client_act e ev (wd_db w)) (\<lambda>d. Inr (w\<lparr>wd_db := d\<rparr>))
   | (e, Boot absent version) \<Rightarrow> andThen (start_generation e absent (wd_db w)) (\<lambda>(g, d).
       Inr (w\<lparr>wd_db := d, wd_dispatchers := wd_dispatchers w @ [new_dispatcher g version]\<rparr>))
   | (e, Process g ev) \<Rightarrow> (case dispatcher_of g w of
         None \<Rightarrow> Inl (Crash ''no such process'')
       | Some p \<Rightarrow> (case process_act e ev (p, wd_db w) of (p', d') \<Rightarrow>
           Inr ((put_dispatcher g p' w)\<lparr>wd_db := d', wd_starts := wd_starts w @ process_sends e ev (p, wd_db w)\<rparr>))))"

definition start_world :: "db \<Rightarrow> world" where
  "start_world d = \<lparr> wd_db = d, wd_dispatchers = [], wd_starts = [] \<rparr>"

end
