(* ===== verification/Turn_Progress.thy ===== *)
theory Turn_Progress
  imports Turn_Events
begin

text \<open>
  How the operations of the data base evolve: rows stay, keep their identity and payload, and a turn
  only moves forward (queued, dispatching, running or waiting, settled). Every statement of theories
  \<open>Turn_Supervisor\<close> to \<open>Turn_Events\<close> is shown to respect this; \<open>quiet\<close> is the common case of a
  statement that does not touch the tables of turns at all.
\<close>

section \<open>Progress of a turn\<close>

fun op_rank :: "op_state \<Rightarrow> nat" where
  "op_rank Queued = 0"
| "op_rank Dispatching = 1"
| "op_rank Running = 2"
| "op_rank WaitingApproval = 2"
| "op_rank WaitingInput = 2"
| "op_rank Succeeded = 3"
| "op_rank Failed = 3"
| "op_rank Interrupted = 3"
| "op_rank Uncertain = 3"

definition op_grows :: "operation_row \<Rightarrow> operation_row \<Rightarrow> bool" where
  "op_grows x y \<longleftrightarrow> op_id y = op_id x \<and> op_session y = op_session x \<and> op_kind y = op_kind x \<and>
     op_payload y = op_payload x \<and> op_created_at y = op_created_at x \<and>
     (op_kind x = TurnOp \<longrightarrow> op_actor y = op_actor x \<and> op_rank (op_state x) \<le> op_rank (op_state y))"

lemma op_grows_refl [simp]: "op_grows x x"
  by (simp add: op_grows_def)

lemma op_grows_trans: "op_grows x y \<Longrightarrow> op_grows y z \<Longrightarrow> op_grows x z"
  by (auto simp: op_grows_def)

lemma op_grows_same_state:
  "op_id y = op_id x \<Longrightarrow> op_session y = op_session x \<Longrightarrow> op_kind y = op_kind x \<Longrightarrow> op_payload y = op_payload x \<Longrightarrow>
     op_created_at y = op_created_at x \<Longrightarrow> op_actor y = op_actor x \<Longrightarrow> op_state y = op_state x \<Longrightarrow> op_grows x y"
  by (simp add: op_grows_def)

lemma to_state_simps [simp]:
  "op_id (to_state e st x) = op_id x" "op_session (to_state e st x) = op_session x" "op_kind (to_state e st x) = op_kind x"
  "op_payload (to_state e st x) = op_payload x" "op_state (to_state e st x) = st" "op_created_at (to_state e st x) = op_created_at x"
  "op_actor (to_state e st x) = op_actor x"
  "op_acknowledged_at (to_state e st x) = op_acknowledged_at x"
  by (simp_all add: to_state_def)

definition ops_grow :: "operation_row list \<Rightarrow> operation_row list \<Rightarrow> bool" where
  "ops_grow xs ys \<longleftrightarrow> (\<exists>zs ws. ys = zs @ ws \<and> list_all2 op_grows xs zs) \<and> (distinct (map op_id xs) \<longrightarrow> distinct (map op_id ys))"

lemma ops_grow_refl [simp]: "ops_grow xs xs"
  by (auto simp: ops_grow_def list_all2_same intro: exI [of _ xs])

lemma ops_grow_trans:
  assumes "ops_grow xs ys" and "ops_grow ys zs"
  shows "ops_grow xs zs"
proof -
  obtain as bs where a: "ys = as @ bs" "list_all2 op_grows xs as" using assms(1) by (auto simp: ops_grow_def)
  obtain cs ds where c: "zs = cs @ ds" "list_all2 op_grows (as @ bs) cs" using assms(2) a(1) by (auto simp: ops_grow_def)
  obtain us vs where u: "cs = us @ vs" "list_all2 op_grows as us" "list_all2 op_grows bs vs" "length us = length as"
    using c(2) by (auto simp: list_all2_append1 list_all2_lengthD)
  have "list_all2 op_grows xs us" by (rule list_all2_trans [OF op_grows_trans a(2) u(2)])
  then have "\<exists>zs' ws. zs = zs' @ ws \<and> list_all2 op_grows xs zs'" using c(1) u(1) by auto
  then show ?thesis using assms by (simp add: ops_grow_def)
qed

lemma list_all2_ids: "list_all2 op_grows xs ys \<Longrightarrow> map op_id ys = map op_id xs"
  by (induction rule: list_all2_induct) (auto simp: op_grows_def)

lemma ops_grow_update:
  assumes "\<And>x. x \<in> set xs \<Longrightarrow> P x \<Longrightarrow> op_grows x (f x)"
  shows "ops_grow xs (update_where P f xs)"
proof -
  have "list_all2 op_grows xs (update_where P f xs)"
    using assms by (auto simp: update_where_def list_all2_map2 intro!: list.rel_refl_strong)
  then show ?thesis using list_all2_ids by (auto simp: ops_grow_def)
qed

lemma ops_grow_append: "op_id x \<notin> op_id ` set xs \<Longrightarrow> ops_grow xs (xs @ [x])"
  by (auto simp: ops_grow_def list_all2_same)

lemma ops_grow_row:
  assumes "ops_grow xs ys" and "x \<in> set xs"
  shows "\<exists>y \<in> set ys. op_grows x y"
proof -
  obtain zs ws where z: "ys = zs @ ws" "list_all2 op_grows xs zs" using assms(1) by (auto simp: ops_grow_def)
  obtain n where n: "n < length xs" "xs ! n = x" using assms(2) by (auto simp: in_set_conv_nth)
  then have "op_grows x (zs ! n)" "n < length zs" using z(2) by (auto simp: list_all2_conv_all_nth)
  then show ?thesis using z(1) nth_mem by fastforce
qed

section \<open>Transitions of the data base\<close>

definition grows :: "db \<Rightarrow> db \<Rightarrow> bool" where
  "grows d d' \<longleftrightarrow> meta_generation d' = meta_generation d \<and> ops_grow (operations d) (operations d')"

definition quiet :: "db \<Rightarrow> db \<Rightarrow> bool" where
  "quiet d d' \<longleftrightarrow> meta_generation d' = meta_generation d \<and> operations d' = operations d \<and> messages d' = messages d \<and>
     approvals d' = approvals d \<and> session_recoveries d' = session_recoveries d"

lemma quiet_refl [simp]: "quiet d d"
  by (simp add: quiet_def)

lemma quiet_trans [trans]: "quiet d d' \<Longrightarrow> quiet d' d'' \<Longrightarrow> quiet d d''"
  by (simp add: quiet_def)

lemma quiet_grows: "quiet d d' \<Longrightarrow> grows d d'"
  by (simp add: quiet_def grows_def)

lemma grows_refl [simp]: "grows d d"
  by (simp add: grows_def)

lemma grows_trans [trans]: "grows d d' \<Longrightarrow> grows d' d'' \<Longrightarrow> grows d d''"
  unfolding grows_def using ops_grow_trans by metis

lemma grows_row: "grows d d' \<Longrightarrow> x \<in> set (operations d) \<Longrightarrow> \<exists>y \<in> set (operations d'). op_grows x y"
  using ops_grow_row by (auto simp: grows_def)

lemma grows_distinct: "grows d d' \<Longrightarrow> distinct (map op_id (operations d)) \<Longrightarrow> distinct (map op_id (operations d'))"
  by (simp add: grows_def ops_grow_def)

lemma grows_other_tables [simp]:
  "grows (d\<lparr>approvals := as\<rparr>) d' \<longleftrightarrow> grows d d'" "grows d (d'\<lparr>approvals := as\<rparr>) \<longleftrightarrow> grows d d'"
  "grows (d\<lparr>messages := ms\<rparr>) d' \<longleftrightarrow> grows d d'" "grows d (d'\<lparr>messages := ms\<rparr>) \<longleftrightarrow> grows d d'"
  "grows (d\<lparr>sessions := ss\<rparr>) d' \<longleftrightarrow> grows d d'" "grows d (d'\<lparr>sessions := ss\<rparr>) \<longleftrightarrow> grows d d'"
  "grows (d\<lparr>session_recoveries := rs\<rparr>) d' \<longleftrightarrow> grows d d'" "grows d (d'\<lparr>session_recoveries := rs\<rparr>) \<longleftrightarrow> grows d d'"
  by (simp_all add: grows_def)

lemma update_operations_frame [simp]:
  "meta_generation (update_operations P f d) = meta_generation d" "messages (update_operations P f d) = messages d"
  "approvals (update_operations P f d) = approvals d" "session_recoveries (update_operations P f d) = session_recoveries d"
  "sessions (update_operations P f d) = sessions d"
  by (simp_all add: update_operations_def)

lemma grows_update_operations:
  assumes "\<And>x. x \<in> set (operations d) \<Longrightarrow> P x \<Longrightarrow> op_grows x (f x)"
  shows "grows d (update_operations P f d)"
  using assms by (simp add: grows_def update_operations_def ops_grow_update)

text \<open>Settling an operation is always progress.\<close>

definition settled :: "op_state \<Rightarrow> bool" where
  "settled st \<longleftrightarrow> st \<in> {Succeeded, Failed, Interrupted, Uncertain}"

lemma op_rank_settled [simp]: "settled st \<Longrightarrow> op_rank st = 3"
  by (auto simp: settled_def)

lemma op_rank_le [simp]: "op_rank st \<le> 3"
  by (cases st) simp_all

lemma grows_settle: "settled st \<Longrightarrow> grows d (update_operations P (to_state e st) d)"
  by (rule grows_update_operations) (simp add: op_grows_def)

section \<open>Quiet statements\<close>

lemma quiet_event: "event e i ty data d = Inr (q, d') \<Longrightarrow> quiet d d'"
  by (auto simp: quiet_def dest!: event_frame)

lemma quiet_emit: "emit e i ty data d = Inr d' \<Longrightarrow> quiet d d'"
  by (auto simp: emit_def res_simps intro: quiet_event)

lemma quiet_update_session [simp]: "quiet d (update_session i f d)"
  by (simp add: quiet_def update_session_def)

lemma quiet_derive [simp]: "quiet d (snd (deriveSessionState i d))"
  by (simp add: deriveSessionState_def Let_def)

lemma quiet_drop_member [simp]: "quiet d (drop_member i g d)"
  by (simp add: drop_member_def quiet_def)

lemma quiet_owned_identity [simp]: "quiet d (owned_identity x st d)"
  by (simp add: owned_identity_def quiet_def split: option.splits)

lemma quiet_update_workspaces: "update_workspaces P f d = Inr d' \<Longrightarrow> quiet d d'"
  by (auto simp: quiet_def dest!: update_workspaces_frame)

lemma quiet_releaseWorkspace: "releaseWorkspace i g d = Inr d' \<Longrightarrow> quiet d d'"
  by (auto simp: releaseWorkspace_def res_simps split: option.splits if_splits intro: quiet_update_workspaces)

lemma quiet_claimWorkspace: "claimWorkspace e w i g c p d = Inr (b, d') \<Longrightarrow> quiet d d'"
  by (auto simp: claimWorkspace_def Let_def res_simps split: if_splits intro: quiet_update_workspaces)

lemma quiet_runtimeState:
  assumes "runtimeState e i g st a d = Inr d'"
  shows "quiet d d'"
proof -
  have q: "quiet d (d\<lparr>conversation_runtimes := rs\<rparr>)" for rs by (simp add: quiet_def)
  show ?thesis using assms
    by (auto simp: runtimeState_def Let_def res_simps split: if_splits intro: q quiet_trans [OF q quiet_event])
qed

lemma quiet_repairReleased: "repairReleasedPersonalSession i g d = Inr (r, d') \<Longrightarrow> quiet d d'"
  by (auto simp: repairReleasedPersonalSession_def res_simps split: if_splits prod.splits dest: arg_cong [of _ _ snd]
      intro: quiet_derive) (metis quiet_derive snd_conv)

lemma quiet_each:
  assumes "each f xs d = Inr d'" and "\<And>x d d'. x \<in> set xs \<Longrightarrow> f x d = Inr d' \<Longrightarrow> quiet d d'"
  shows "quiet d d'"
  using assms
proof (induction xs arbitrary: d)
  case (Cons x xs)
  from Cons.prems(1) obtain d1 where d1: "f x d = Inr d1" "each f xs d1 = Inr d'" by (auto simp: res_simps)
  have "quiet d d1" by (rule Cons.prems(2) [OF _ d1(1)]) simp
  moreover have "quiet d1 d'" by (rule Cons.IH [OF d1(2)]) (use Cons.prems(2) in auto)
  ultimately show ?case by (rule quiet_trans)
qed simp

lemma commit_quiet: "(\<And>d'. m = Inr d' \<Longrightarrow> quiet d d') \<Longrightarrow> quiet d (commit m d)"
  by (simp add: commit_def split: sum.splits)

lemma commit_grows: "(\<And>d'. m = Inr d' \<Longrightarrow> grows d d') \<Longrightarrow> grows d (commit m d)"
  by (simp add: commit_def split: sum.splits)

lemmas quiet_intros = quiet_emit quiet_event quiet_runtimeState quiet_repairReleased quiet_releaseWorkspace
  quiet_update_workspaces quiet_claimWorkspace

section \<open>Statements of the supervisor\<close>

lemma grows_quiet_trans: "grows d d' \<Longrightarrow> quiet d' d'' \<Longrightarrow> grows d d''"
  by (rule grows_trans) (auto intro: quiet_grows)

lemma quiet_grows_trans: "quiet d d' \<Longrightarrow> grows d' d'' \<Longrightarrow> grows d d''"
  by (rule grows_trans) (auto intro: quiet_grows)

lemma grows_expire [simp]: "grows d (expire_approvals P d') \<longleftrightarrow> grows d d'"
  by (simp add: expire_approvals_def)

lemma grows_update_approval [simp]: "grows d (update_approval P f d') \<longleftrightarrow> grows d d'"
  by (simp add: update_approval_def)

lemma grows_derive [simp]: "grows d (snd (deriveSessionState i d')) \<longleftrightarrow> grows d d'"
  by (simp add: deriveSessionState_def Let_def update_session_def)

lemma grows_update_session [simp]: "grows d (update_session i f d') \<longleftrightarrow> grows d d'"
  by (simp add: update_session_def)

lemma grows_emit: "emit e i ty data d' = Inr d'' \<Longrightarrow> grows d d' \<Longrightarrow> grows d d''"
  using grows_quiet_trans quiet_emit by blast

lemma grows_update_operation:
  assumes "update_operation e i st data d = Inr d'" and "settled st"
  shows "grows d d'"
proof (cases "operation_find i d")
  case (Some x)
  let ?d1 = "update_operations (\<lambda>y. op_id y = i \<and> may_settle (op_state y) st) (to_state e st) d"
  let ?d2 = "snd (deriveSessionState (op_session x) ?d1)"
  let ?d3 = "if st = Uncertain then expire_approvals (\<lambda>a. ap_operation a = i) ?d2 else ?d2"
  have "emit e (op_session x) (''operation.'' @ op_state_text st) ((''operationId'', JStr i) # data) ?d3 = Inr d'"
    using assms(1) Some by (simp add: update_operation_def Let_def res_simps)
  moreover have "grows d ?d3" by (cases "st = Uncertain") (use grows_settle [OF assms(2)] in auto)
  ultimately show ?thesis by (rule grows_emit)
qed (use assms in \<open>simp add: update_operation_def\<close>)

lemma quiet_restart_member:
  assumes "restart_member e absent m d = Inr d'"
  shows "quiet d d'"
proof (cases "session_find (cr_session m) d")
  case (Some s)
  have *: "quiet d (update_session i f (drop_member j g d))" for i f j g
    by (rule quiet_trans [OF quiet_drop_member quiet_update_session])
  have **: "quiet d (update_session i f (d\<lparr>conversation_runtimes := rs\<rparr>))" for i f rs
    by (simp add: quiet_def update_session_def)
  show ?thesis
    using assms Some * ** by (simp add: restart_member_def split: if_splits) (blast intro: quiet_trans quiet_emit)+
qed (use assms in \<open>simp add: restart_member_def\<close>)

lemma quiet_restart_repair: "restart_repair e x d = Inr d' \<Longrightarrow> quiet d d'"
  by (auto simp: restart_repair_def res_simps split: if_splits intro: quiet_trans [OF quiet_repairReleased quiet_emit] quiet_repairReleased)

lemma quiet_restart_turn: "restart_turn e g i d = Inr d' \<Longrightarrow> quiet d d'"
  unfolding restart_turn_def by (rule quiet_trans [OF quiet_update_session quiet_emit])

text \<open>What a supervisor's start does to the operations, and that everything after it is quiet.\<close>

definition start_operations :: "env \<Rightarrow> db \<Rightarrow> db" where
  "start_operations e d = expire_approvals (\<lambda>_. True) (fail_fencing e (strand_turns e
     (settle_controls e (d\<lparr>meta_generation := Suc (meta_generation d)\<rparr>))))"

lemma start_generation_Inr:
  assumes "start_generation e absent d = Inr (g, d')"
  shows "g = Suc (meta_generation d)" and "quiet (start_operations e d) d'"
proof -
  from assms obtain d3 d4 d5 d6 where g: "g = Suc (meta_generation d)"
    and d3: "each (restart_member e absent) (if personal_mode e then conversation_runtimes (start_operations e d) else [])
       (start_operations e d) = Inr d3"
    and d4: "d4 = d3\<lparr>sessions := update_where (abandoned e d3) strand_session (sessions d3)\<rparr>"
    and d5: "\<exists>gone f. each (\<lambda>i. emit e i ''runtime.uncertain'' f) gone d4 = Inr d5"
    and d6: "\<exists>rows. each (restart_turn e g) rows d5 = Inr d6"
    and d7: "(if personal_mode e then each (restart_repair e) (uncertain_sessions d6) d6 else Inr d6) = Inr d'"
    by (auto simp: start_generation_def start_operations_def Let_def res_simps split: if_splits) blast+
  show "g = Suc (meta_generation d)" by (rule g)
  have "quiet (start_operations e d) d3" using d3 by (rule quiet_each) (rule quiet_restart_member)
  also have "quiet d3 d4" by (simp add: d4 quiet_def)
  also have "quiet d4 d5" using d5 by (auto elim!: quiet_each intro: quiet_emit)
  also have "quiet d5 d6" using d6 by (auto elim!: quiet_each intro: quiet_restart_turn)
  also have "quiet d6 d'" using d7 by (auto elim!: quiet_each intro: quiet_restart_repair split: if_splits)
  finally show "quiet (start_operations e d) d'" .
qed

section \<open>Notifications and requests\<close>

lemma unique_row:
  assumes "distinct (map op_id xs)" and "x \<in> set xs" and "y \<in> set xs" and "op_id x = op_id y"
  shows "x = y"
  using assms by (auto simp: distinct_map inj_on_def)

text \<open>A dispatched turn may be moved to any later state.\<close>

lemma grows_dispatched:
  assumes "distinct (map op_id (operations d))" and "turn_valid i g d"
    and "\<And>x. op_grows x (f x) \<or> (dispatched_state (op_state x) \<longrightarrow> op_grows x (f x))"
  shows "grows d (update_operations (\<lambda>x. op_id x = i) f d)"
proof (rule grows_update_operations)
  fix x assume x: "x \<in> set (operations d)" "op_id x = i"
  obtain y where "y \<in> set (operations d)" "op_id y = i" "dispatched_state (op_state y)"
    using assms(2) by (auto simp: turn_valid_def)
  then have "dispatched_state (op_state x)" using unique_row [OF assms(1), of x y] x by simp
  then show "op_grows x (f x)" using assms(3) by blast
qed

text \<open>A statement that may write messages, but none of the other tables of turns.\<close>

definition talks :: "db \<Rightarrow> db \<Rightarrow> bool" where
  "talks d d' \<longleftrightarrow> quiet (d\<lparr>messages := []\<rparr>) (d'\<lparr>messages := []\<rparr>)"

lemma talks_refl [simp]: "talks d d"
  by (simp add: talks_def)

lemma talks_trans [trans]: "talks d d' \<Longrightarrow> talks d' d'' \<Longrightarrow> talks d d''"
  unfolding talks_def by (rule quiet_trans)

lemma quiet_talks: "quiet d d' \<Longrightarrow> talks d d'"
  by (simp add: quiet_def talks_def)

lemma talks_messages [simp]: "talks d (d'\<lparr>messages := ms\<rparr>) \<longleftrightarrow> talks d d'"
  by (simp add: quiet_def talks_def)

lemma talks_grows: "talks d d' \<Longrightarrow> grows d d'"
  by (simp add: talks_def quiet_def grows_def)

lemma talks_valid: "talks d d' \<Longrightarrow> turn_valid i g d' \<longleftrightarrow> turn_valid i g d"
  by (simp add: talks_def quiet_def turn_valid_def)

lemma talks_emit: "emit e i ty data d' = Inr d'' \<Longrightarrow> talks d d' \<Longrightarrow> talks d d''"
  using talks_trans quiet_talks quiet_emit by blast

lemma talks_insert: "insert_message m d = Inr d' \<Longrightarrow> talks d d'"
  by (auto simp: insert_message_def split: if_splits)

lemma talks_put: "put_message f a b c r t st d = Inr d' \<Longrightarrow> talks d d'"
  by (auto simp: put_message_def split: if_splits dest: talks_insert)

lemma talks_omit: "omit_output e fresh i opid d = Inr d' \<Longrightarrow> talks d d'"
  by (auto simp: omit_output_def res_simps split: if_splits dest: talks_insert intro: talks_emit)

lemma talks_store: "store_output e fresh i opid n it old t d = Inr d' \<Longrightarrow> talks d d'"
  by (auto simp: store_output_def Let_def res_simps split: if_splits dest: talks_put talks_omit intro: talks_emit)

lemma talks_save: "saveConversationOutput e fresh i opid n d = Inr d' \<Longrightarrow> talks d d'"
  by (auto simp: saveConversationOutput_def Let_def res_simps split: if_splits option.splits dest: talks_store)

lemma grows_complete_turn:
  assumes "complete_turn e i g opid status d = Inr d'" and "distinct (map op_id (operations d))" and "turn_valid opid g' d"
  shows "grows d d'"
proof -
  let ?d1 = "update_operations (\<lambda>x. op_id x = opid) (to_state e (completed_state status)) d"
  have "grows d ?d1"
    by (rule grows_settle) (simp add: settled_def completed_state_def split: turn_status.splits)
  moreover obtain d2 d3 where d2: "(if personal_mode e \<and> status = StatusCompleted then retain_background e i ?d1 else Inr ?d1) = Inr d2"
    and d3: "(if personal_mode e then runtimeState e i g RtIdle True d2 else Inr d2) = Inr d3"
    and d': "emit e i (''operation.'' @ op_state_text (completed_state status)) [(''operationId'', JStr opid)]
           (expire_approvals (\<lambda>a. ap_operation a = opid) (complete_messages opid (snd (deriveSessionState i d3)))) = Inr d'"
    using assms(1) by (auto simp: complete_turn_def Let_def res_simps)
  moreover have "quiet ?d1 d2" using d2
    by (auto simp: retain_background_def split: if_splits intro: quiet_trans [OF quiet_update_session quiet_emit])
  moreover have "quiet d2 d3" using d3 by (auto split: if_splits intro: quiet_runtimeState)
  ultimately have "grows d d3" using grows_quiet_trans by blast
  then show ?thesis by (intro grows_emit [OF d']) (simp add: complete_messages_def)
qed

lemma grows_event_commit:
  assumes "event_commit e fresh r opid n d = Inr (b, d')" and "distinct (map op_id (operations d))"
  shows "grows d d'"
proof (cases "\<not> turn_valid opid (rm_generation r) d \<or> rm_poisoned r")
  case False
  then obtain d1 where d1: "saveConversationOutput e fresh (rm_session r) opid n d = Inr d1"
    using assms(1) by (auto simp: event_commit_def res_simps)
  note save = talks_save [OF d1]
  have g1: "grows d d1" using save by (rule talks_grows)
  have "distinct (map op_id (operations d1))" "turn_valid opid (rm_generation r) d1"
    using assms(2) False talks_valid [OF save] grows_distinct [OF g1] by simp_all
  then show ?thesis using assms(1) False d1 g1
    by (auto simp: event_commit_def res_simps split: if_splits dest!: grows_complete_turn intro: grows_trans)
qed (use assms in \<open>auto simp: event_commit_def res_simps\<close>)

lemma grows_request_commit:
  assumes "request_commit e fresh r opid q d = Inr d'" and "distinct (map op_id (operations d))"
  shows "grows d d'"
proof (cases "\<not> turn_valid opid (rm_generation r) d \<or> rm_poisoned r \<or> \<not> rm_current r")
  case False
  let ?i = "rm_session r" and ?st = "request_state q"
  obtain d1 s d4 where d1: "insert_approval s d = Inr d1"
    and d4: "(if personal_mode e then runtimeState e ?i (rm_generation r) (request_runtime_state q) True
        (update_session ?i (\<lambda>s. s\<lparr>se_state := SessionIn ?st\<rparr>) (update_operations (\<lambda>x. op_id x = opid) (\<lambda>x. x\<lparr>op_state := ?st\<rparr>) d1))
      else Inr (update_session ?i (\<lambda>s. s\<lparr>se_state := SessionIn ?st\<rparr>) (update_operations (\<lambda>x. op_id x = opid) (\<lambda>x. x\<lparr>op_state := ?st\<rparr>) d1))) = Inr d4"
    and d': "emit e ?i ''approval.pending'' [(''operationId'', JStr opid)] d4 = Inr d'"
    using assms(1) False by (auto simp: request_commit_def Let_def res_simps)
  have ops: "operations d1 = operations d" "meta_generation d1 = meta_generation d"
    using d1 by (auto simp: insert_approval_def split: if_splits)
  have "turn_valid opid (rm_generation r) d1" using False ops by (auto simp: turn_valid_def)
  then have "grows d1 (update_operations (\<lambda>x. op_id x = opid) (\<lambda>x. x\<lparr>op_state := ?st\<rparr>) d1)"
    using assms(2) ops
    by (intro grows_dispatched) (auto simp: op_grows_def request_state_def dispatched_state_def)
  moreover have "grows d d1" using ops by (simp add: grows_def)
  ultimately have "grows d (update_session ?i (\<lambda>s. s\<lparr>se_state := SessionIn ?st\<rparr>) (update_operations (\<lambda>x. op_id x = opid) (\<lambda>x. x\<lparr>op_state := ?st\<rparr>) d1))"
    using grows_trans by simp
  moreover from d4 have "quiet (update_session ?i (\<lambda>s. s\<lparr>se_state := SessionIn ?st\<rparr>) (update_operations (\<lambda>x. op_id x = opid) (\<lambda>x. x\<lparr>op_state := ?st\<rparr>) d1)) d4"
    by (auto split: if_splits intro: quiet_runtimeState)
  ultimately have "grows d d4" by (rule grows_quiet_trans)
  then show ?thesis by (rule grows_emit [OF d'])
qed (use assms in \<open>auto simp: request_commit_def Let_def res_simps\<close>)

end
