(* ===== verification/Turn_Order.thy ===== *)
theory Turn_Order
  imports Turn_Progress
begin

text \<open>
  What each event does to the operations and to the work that a supervisor has in hand. A step is
  \<open>calm\<close> when it hands out no new work; the other steps are those of a candidate, and each is
  described on its own. The invariant \<open>order_ok\<close> says that the work in hand has not been started
  yet, and the interpretation at the end that every event keeps it.
\<close>

section \<open>Calm steps\<close>

definition calm :: "dispatcher \<Rightarrow> dispatcher \<Rightarrow> bool" where
  "calm p q \<longleftrightarrow> dp_generation q = dp_generation p \<and> (dp_stage q = dp_stage p \<or> dp_stage q = None) \<and>
     (dp_candidates q = dp_candidates p \<or> dp_candidates q = [])"

lemma calm_refl [simp]: "calm p p"
  by (simp add: calm_def)

lemma calm_trans: "calm p q \<Longrightarrow> calm q r \<Longrightarrow> calm p r"
  by (auto simp: calm_def)

lemma calm_simps [simp]:
  "calm p (q\<lparr>dp_alive := a\<rparr>) \<longleftrightarrow> calm p q" "calm p (q\<lparr>dp_mutating := b\<rparr>) \<longleftrightarrow> calm p q"
  "calm p (q\<lparr>dp_credential := c\<rparr>) \<longleftrightarrow> calm p q" "calm p (q\<lparr>dp_runtimes := rs\<rparr>) \<longleftrightarrow> calm p q"
  "calm p (q\<lparr>dp_repairs := xs\<rparr>) \<longleftrightarrow> calm p q" "calm p (q\<lparr>dp_cancel_repairs := ys\<rparr>) \<longleftrightarrow> calm p q"
  "calm p (q\<lparr>dp_settlements := zs\<rparr>) \<longleftrightarrow> calm p q" "calm p (q\<lparr>dp_ticking := t\<rparr>) \<longleftrightarrow> calm p q"
  "calm p (q\<lparr>dp_emergency := t\<rparr>) \<longleftrightarrow> calm p q" "calm p (q\<lparr>dp_waiting := v\<rparr>) \<longleftrightarrow> calm p q" "calm p (set_runtime i g f q) \<longleftrightarrow> calm p q"
  "calm p (unmap i g q) \<longleftrightarrow> calm p q"
  by (simp_all add: calm_def set_runtime_def unmap_def)

lemma calm_stop [simp]: "calm p q \<Longrightarrow> calm p (stop_tick q)"
  by (auto simp: calm_def stop_tick_def)

lemma calm_finish [simp]: "calm p q \<Longrightarrow> calm p (finish q)"
  by (auto simp: calm_def finish_def)

text \<open>A step that is calm and makes only progress.\<close>

definition op_ids_distinct :: "db \<Rightarrow> bool" where
  "op_ids_distinct d \<longleftrightarrow> distinct (map op_id (operations d))"

definition steady :: "dispatcher \<times> db \<Rightarrow> dispatcher \<times> db \<Rightarrow> bool" where
  "steady s t \<longleftrightarrow> calm (fst s) (fst t) \<and> grows (snd s) (snd t)"

lemma steady_refl [simp]: "steady s s"
  by (simp add: steady_def)

lemma steady_pair [simp]: "steady (p, d) (q, d') \<longleftrightarrow> calm p q \<and> grows d d'"
  by (simp add: steady_def)

lemma steady_trans: "steady s t \<Longrightarrow> steady t u \<Longrightarrow> steady s u"
  by (auto simp: steady_def intro: calm_trans grows_trans)

lemma grows_commit_quiet: "(\<And>d'. m = Inr d' \<Longrightarrow> quiet d d') \<Longrightarrow> grows d (commit m d)"
  by (rule quiet_grows) (rule commit_quiet)

lemma settled_consts [simp]: "settled Succeeded" "settled Failed" "settled Interrupted" "settled Uncertain"
  by (simp_all add: settled_def)

lemma steady_poison: "steady (p, d) (poison e reason i g (p, d))"
  by (auto simp: poison_def Let_def split: option.splits sum.splits dest: grows_update_operation)

lemma steady_poison': "steady s (p, d) \<Longrightarrow> steady s (poison e reason i g (p, d))"
  by (rule steady_trans) (assumption, rule steady_poison)

lemma steady_onEvent:
  assumes "op_ids_distinct d"
  shows "steady (p, d) (onEvent e fresh i g opid n (p, d))"
proof (cases "listens p i g")
  case (Some r)
  show ?thesis
  proof (cases "event_commit e fresh r opid n d")
    case (Inl f)
    then show ?thesis using Some steady_poison by (simp add: onEvent_def)
  next
    case (Inr x)
    obtain b d' where x: "x = (b, d')" by (cases x)
    then have "grows d d'" using grows_event_commit [OF Inr [unfolded x]] assms by (simp add: op_ids_distinct_def)
    then show ?thesis using Some Inr x by (simp add: onEvent_def)
  qed
qed (simp add: onEvent_def)

lemma steady_onRequest:
  assumes "op_ids_distinct d"
  shows "steady (p, d) (onRequest e fresh i g opid q (p, d))"
proof (cases "listens p i g")
  case (Some r)
  show ?thesis
  proof (cases "request_commit e fresh r opid q d")
    case (Inl f)
    then show ?thesis using Some steady_poison by (simp add: onRequest_def)
  next
    case (Inr d')
    then have "grows d d'" using grows_request_commit assms by (simp add: op_ids_distinct_def)
    then show ?thesis using Some Inr by (simp add: onRequest_def)
  qed
qed (simp add: onRequest_def)

lemma steady_classify: "steady (p, d) (classifyRuntime e i g x (p, d))"
  by (auto simp: classifyRuntime_def Let_def split: option.splits intro!: grows_commit_quiet quiet_runtimeState)

lemma steady_retire_begin: "steady (p, d) (retire_begin e i g b c x (p, d))"
  by (auto simp: retire_begin_def Let_def split: option.splits sum.splits begin_result.splits
      intro!: grows_commit_quiet quiet_runtimeState)

lemma quiet_strand_runtime: "strand_runtime e i g d = Inr d' \<Longrightarrow> quiet d d'"
  by (auto simp: strand_runtime_def res_simps split: if_splits
      intro: quiet_trans [OF quiet_runtimeState] quiet_trans [OF quiet_update_session quiet_emit] quiet_runtimeState)

lemma quiet_release_runtime:
  assumes "release_runtime e b i g d = Inr d'"
  shows "quiet d d'"
proof -
  let ?d2 = "update_session i (stop_background False) (drop_member i g d)"
  have d2: "quiet d ?d2" by (rule quiet_trans [OF quiet_drop_member quiet_update_session])
  have "d' = d \<or> d' = drop_member i g d \<or> (\<exists>d3. (d3 = ?d2 \<or> (\<exists>r. repairReleasedPersonalSession i g ?d2 = Inr (r, d3))) \<and>
      emit e i ''background.stopped'' [] d3 = Inr d')"
    using assms by (auto simp: release_runtime_def Let_def res_simps split: if_splits)
  then show ?thesis
  proof (elim disjE exE conjE)
    fix d3 assume "d3 = ?d2" "emit e i ''background.stopped'' [] d3 = Inr d'"
    then show ?thesis using d2 by (auto dest!: quiet_emit intro: quiet_trans)
  next
    fix d3 r assume "repairReleasedPersonalSession i g ?d2 = Inr (r, d3)" "emit e i ''background.stopped'' [] d3 = Inr d'"
    then show ?thesis using quiet_trans [OF quiet_trans [OF d2 quiet_repairReleased] quiet_emit] by blast
  qed simp_all
qed

lemma steady_settle_retirement: "steady (p, d) (settle_retirement e i g b (p, d))"
proof -
  have "grows d1 (commit (release_runtime e c i g d1) d1)" for c d1
    by (rule grows_commit_quiet) (rule quiet_release_runtime)
  moreover have "grows d (commit (strand_runtime e i g d) d)"
    by (rule grows_commit_quiet) (rule quiet_strand_runtime)
  ultimately show ?thesis
    by (auto simp: settle_retirement_def Let_def split: option.splits sum.splits if_splits
        intro: quiet_grows_trans dest!: quiet_releaseWorkspace)
qed

lemma steady_repair: "steady (p, d) (repair e i (p, d))"
  by (simp add: repair_def grows_update_operation split: option.splits sum.splits)

lemma steady_repair_cancel: "steady (p, d) (repair_cancel e i (p, d))"
proof -
  have "grows d (set_cancel e i st d)" for st
    unfolding set_cancel_def by (rule grows_update_operations) (simp add: op_grows_def)
  then show ?thesis by (simp add: repair_cancel_def split: option.splits)
qed

lemma grows_fail_recovery [simp]: "grows d (fail_recovery e i n d') \<longleftrightarrow> grows d d'"
  by (simp add: fail_recovery_def)

lemma grows_fail_recoveries: "grows d (fold (\<lambda>(rid, n). fail_recovery e rid n) xs d') \<longleftrightarrow> grows d d'"
proof (induction xs arbitrary: d')
  case (Cons x xs)
  then show ?case by (cases x) simp
qed simp

lemma steady_repair_settlements: "steady (p, d) (repair_settlements e (p, d))"
  by (simp add: repair_settlements_def grows_fail_recoveries)

lemma steady_stop_runtime: "steady (p, d) (stop_runtime e i (p, d))"
proof -
  have "grows d (commit (update_operation e j Interrupted x d) d)" for j x
    by (rule commit_grows) (simp add: grows_update_operation)
  then show ?thesis by (simp add: stop_runtime_def split: option.splits)
qed

lemma steady_stop_queue: "steady (p, d) (stop_queue (p, d))"
proof -
  have "grows d (update_operations (\<lambda>x. op_state x = Queued) (\<lambda>x. x\<lparr>op_state := Interrupted\<rparr>) d)"
    by (rule grows_update_operations) (simp add: op_grows_def)
  then show ?thesis by (simp add: stop_queue_def)
qed

lemma quiet_reconcile_commit:
  assumes "reconcile_commit e i g d = Inr d'"
  shows "quiet d d'"
proof -
  obtain d2 d3 r x where d2: "quiet d d2" and d3: "repairReleasedPersonalSession i g d2 = Inr (r, d3)"
    and d': "emit e i ''background.stopped'' x d3 = Inr d'"
  proof -
    let ?d1 = "drop_member i g d"
    let ?d2 = "?d1\<lparr>sessions := update_where (\<lambda>s. se_id s = i \<and> se_generation s = g) (stop_background False) (sessions ?d1)\<rparr>"
    have "quiet d ?d2" by (simp add: quiet_def drop_member_def)
    then show thesis using assms by (auto simp: reconcile_commit_def Let_def res_simps intro: that)
  qed
  then show ?thesis using quiet_trans [OF quiet_trans [OF d2 quiet_repairReleased [OF d3]] quiet_emit [OF d']] by simp
qed

lemma steady_reconcile: "steady (p, d) (reconcile e i g b (p, d))"
  by (auto simp: reconcile_def intro!: grows_commit_quiet quiet_reconcile_commit)

section \<open>Answers and cancellations\<close>

lemma steady_answer_begin: "steady (p, d) (answer_begin e i reply (p, d))"
  by (auto simp: answer_begin_def Let_def split: option.splits)

lemma quiet_optional: "(if b then runtimeState e i g st act d else Inr d) = Inr d' \<Longrightarrow> quiet d d'"
  by (cases b) (simp_all add: quiet_runtimeState)

lemma grows_answer_settled:
  assumes "answer_settled e a g d = Inr d'"
  shows "grows d d'"
proof -
  obtain d1 ty x where d1: "(if personal_mode e then runtimeState e (ap_session a) g RtActive True (mark_answer a d) else Inr (mark_answer a d)) = Inr d1"
    and d': "emit e (ap_session a) ty x d1 = Inr d'"
    using assms unfolding answer_settled_def andThen_eq_Inr by blast
  have "grows d (mark_answer a d)" by (simp add: mark_answer_def)
  then have "grows d d1" using quiet_optional [OF d1] by (rule grows_quiet_trans)
  then show ?thesis by (rule grows_emit [OF d'])
qed

lemma grows_answer_reopened: "answer_reopened e a d = Inr d' \<Longrightarrow> grows d d'"
  by (auto simp: answer_reopened_def res_simps intro: grows_emit)

lemma steady_answer_uncertain: "steady (p, d) (answer_uncertain e a g (p, d))"
proof (cases "update_operation e (ap_operation a) Uncertain [] d")
  case (Inr d1)
  then have "steady (p, d) (p, d1)" by (simp add: grows_update_operation)
  then show ?thesis using Inr by (simp add: answer_uncertain_def steady_poison')
qed (simp add: answer_uncertain_def)

lemma steady_waiting [simp]: "steady (p, d) (q\<lparr>dp_waiting := v\<rparr>, d') \<longleftrightarrow> steady (p, d) (q, d')"
  by simp

lemma steady_from_waiting: "steady (p\<lparr>dp_waiting := v\<rparr>, d) s \<Longrightarrow> steady (p, d) s"
  by (auto simp: steady_def calm_def)

lemma steady_answer_end: "steady (p, d) (answer_end e (p, d))"
proof (cases "dp_waiting p")
  case (AnswerReply a g res)
  have "steady (p, d) (answer_uncertain e a g (p\<lparr>dp_waiting := NoReply\<rparr>, d))"
    by (rule steady_from_waiting) (rule steady_answer_uncertain)
  then show ?thesis using AnswerReply
    by (auto simp: answer_end_def Let_def split: sum.splits dest: grows_answer_settled grows_answer_reopened)
qed (simp_all add: answer_end_def)

lemma grows_set_settled: "settled st \<Longrightarrow> grows d (set_operation i st d)"
  unfolding set_operation_def by (rule grows_update_operations) (simp add: op_grows_def)

lemma grows_cancel_queued:
  assumes "cancel_queued e c t s d = Inr d'"
  shows "grows d d'"
proof -
  let ?d1 = "update_operations (\<lambda>x. op_id x = t \<and> op_state x = Queued) (to_state e Interrupted) d"
  obtain ty x where "emit e (op_session c) ty x (snd (deriveSessionState (op_session c) (set_operation (op_id c) Succeeded ?d1))) = Inr d'"
    using assms by (auto simp: cancel_queued_def Let_def res_simps)
  moreover have "grows d (set_operation (op_id c) Succeeded ?d1)"
    by (rule grows_trans [OF grows_settle grows_set_settled]) simp_all
  ultimately show ?thesis by (auto intro: grows_emit)
qed

lemma operation_find_Some: "operation_find i d = Some x \<Longrightarrow> x \<in> set (operations d) \<and> op_id x = i"
  by (auto simp: operation_find_def dest: find_Some_in)

lemma grows_cancel_settled:
  assumes "cancel_settled e c t done denied d = Inr d'" and "op_ids_distinct d"
  shows "grows d d'"
proof -
  let ?d0 = "update_operations (\<lambda>x. op_id x = t) (to_state e Uncertain) d"
  let ?st = "if done then Succeeded else Failed"
  obtain d1 where d1: "d1 = d \<or> (\<exists>ty x. emit e (op_session c) ty x (expire_approvals (\<lambda>a. ap_operation a = t) ?d0) = Inr d1)"
    and d': "\<exists>ty x. emit e (op_session c) ty x (snd (deriveSessionState (op_session c)
        (update_operations (\<lambda>x. op_id x = op_id c) (to_state e ?st) d1))) = Inr d'"
    using assms(1) by (auto simp: cancel_settled_def Let_def res_simps split: if_splits)
  have "grows d (expire_approvals (\<lambda>a. ap_operation a = t) ?d0)" by (simp add: grows_settle)
  then have "grows d d1" using d1 grows_emit grows_refl by blast
  then have "grows d (update_operations (\<lambda>x. op_id x = op_id c) (to_state e ?st) d1)"
    by (rule grows_trans) (simp add: grows_settle)
  then show ?thesis using d' by (auto intro: grows_emit)
qed

lemma steady_cancel_act:
  assumes "op_ids_distinct d" and "c \<in> set (operations d)" and "op_kind c = CancelOp"
  shows "steady (p, d) (cancel_act e reply c s (p, d))"
proof -
  have "grows d (set_operation (op_id c) Dispatching d)"
    unfolding set_operation_def
  proof (rule grows_update_operations)
    fix x assume "x \<in> set (operations d)" "op_id x = op_id c"
    then have "x = c" using unique_row assms by (metis op_ids_distinct_def)
    then show "op_grows x (x\<lparr>op_state := Dispatching\<rparr>)" using assms(3) by (simp add: op_grows_def)
  qed
  then show ?thesis
    by (auto simp: cancel_act_def Let_def grows_set_settled split: option.splits sum.splits dest: grows_cancel_queued)
qed

lemma steady_cancel_begin:
  assumes "op_ids_distinct d"
  shows "steady (p, d) (cancel_begin e i reply (p, d))"
proof (cases "operation_find i d")
  case (Some c)
  then have c: "c \<in> set (operations d)" by (blast dest: operation_find_Some)
  show ?thesis
  proof (cases "waiting_cancel c")
    case True
    then show ?thesis using Some steady_cancel_act [OF assms c]
      by (simp add: cancel_begin_def waiting_cancel_def grows_set_settled split: option.splits)
  qed (simp add: cancel_begin_def Some)
qed (simp add: cancel_begin_def)

lemma op_ids_distinct_grows: "grows d d' \<Longrightarrow> op_ids_distinct d \<Longrightarrow> op_ids_distinct d'"
  unfolding op_ids_distinct_def by (rule grows_distinct)

lemma steady_cancel_end:
  assumes "op_ids_distinct d"
  shows "steady (p, d) (cancel_end e (p, d))"
proof (cases "dp_waiting p")
  case (CancelReply c t g res)
  show ?thesis
  proof (cases res)
    case (Inl f)
    let ?done = "f = already_completed" and ?denied = "refused_grant f"
    let ?p2 = "p\<lparr>dp_waiting := NoReply, dp_cancel_repairs := delete_where (\<lambda>x. fst x = op_id c) (dp_cancel_repairs p) @
                          [(op_id c, if ?done then Succeeded else Failed)]\<rparr>"
    obtain p3 d3 where r: "(if ?done \<or> ?denied then (?p2, d)
       else poison e ''Turn interruption could not be confirmed'' (op_session c) g (?p2, d)) = (p3, d3)" by fastforce
    have "steady (p, d) (p3, d3)"
      unfolding r [symmetric] by (auto intro: steady_poison')
    moreover from this have "op_ids_distinct d3" using assms op_ids_distinct_grows by auto
    ultimately show ?thesis using CancelReply Inl r
      by (auto simp: cancel_end_def Let_def split: sum.splits dest: grows_cancel_settled intro: grows_trans)
  qed (simp add: cancel_end_def CancelReply grows_set_settled)
qed (simp_all add: cancel_end_def)

section \<open>Recovery\<close>

lemma steady_admit_recovery: "steady (p, d) (admit_recovery e (p, d))"
  by (simp add: admit_recovery_def split: option.splits sum.splits)

lemma grows_releaseRecovered:
  assumes "releaseRecoveredWorkspace e w i g d = Inr d'"
  shows "grows d d'"
proof -
  let ?d1 = "update_operations (\<lambda>x. op_session x = i \<and> op_state x = Queued) (to_state e Failed) d"
  have "\<exists>P f. update_workspaces P f ?d1 = Inr d'"
    using assms by (auto simp: releaseRecoveredWorkspace_def update_operations_def to_state_def [abs_def] Let_def res_simps split: if_splits)
  then have "quiet ?d1 d'" by (auto intro: quiet_update_workspaces)
  moreover have "grows d ?d1" by (rule grows_settle) simp
  ultimately show ?thesis using grows_quiet_trans by blast
qed

lemma grows_release_held:
  assumes "release_held e s w d = Inr d'"
  shows "grows d d'"
  using assms by (auto simp: release_held_def res_simps split: option.splits if_splits intro: grows_releaseRecovered)

lemma talks_store_entry: "store_entry fresh i x it text old (t, d) = Inr (t', d') \<Longrightarrow> talks d d'"
  by (auto simp: store_entry_def Let_def res_simps split: option.splits if_splits dest: talks_insert)

lemma talks_reconcile_entry: "reconcile_entry fresh i x (t, d) = Inr (t', d') \<Longrightarrow> talks d d'"
  by (auto simp: reconcile_entry_def Let_def split: option.splits bool.splits if_splits dest: talks_store_entry)

lemma talks_reconcile_entries: "reconcile_entries fresh i xs (t, d) = Inr (t', d') \<Longrightarrow> talks d d'"
proof (induction xs arbitrary: t d)
  case (Cons x xs)
  show ?case
  proof (cases "ta_items t + 1 > 2000")
    case False
    then obtain t1 d1 where "reconcile_entry fresh i x (t\<lparr>ta_items := ta_items t + 1\<rparr>, d) = Inr (t1, d1)"
      "reconcile_entries fresh i xs (t1, d1) = Inr (t', d')"
      using Cons.prems by (auto simp: Let_def res_simps)
    then show ?thesis using Cons.IH talks_reconcile_entry talks_trans by blast
  qed (use Cons.prems in \<open>simp add: Let_def\<close>)
qed simp

lemma talks_read_native: "read_native fresh s x d = Inr (r, d') \<Longrightarrow> talks d d'"
  by (auto simp: read_native_def reconcileNative_def res_simps split: if_splits native_read.splits dest: talks_reconcile_entries)

lemma grows_drop_queue: "grows d (drop_queue e i d)"
  unfolding drop_queue_def by (rule grows_settle) simp

lemma grows_fence_commit:
  assumes "fence_commit e p fresh b x n d = Inr d'"
  shows "grows d d'"
proof -
  let ?g = "Suc (runtime_generation_seq d)"
  obtain s w d2 report d3 ty y where d2: "release_held e s w (d\<lparr>runtime_generation_seq := ?g\<rparr>) = Inr d2"
    and d3: "read_native fresh s x d2 = Inr (report, d3)"
    and d': "emit e (se_id s) ty y (make_ready e (rc_id n) ?g report (update_session (se_id s) (\<lambda>x. x\<lparr>se_generation := ?g\<rparr>)
           (drop_queue e (se_id s) (expire_answers (se_id s) d3)))) = Inr d'"
    using assms by (auto simp: fence_commit_def Let_def res_simps split: if_splits prod.splits)
  have "grows d d2" using grows_release_held [OF d2] by (simp add: grows_def)
  also have "grows d2 d3" using talks_read_native [OF d3] by (rule talks_grows)
  finally have "grows d (expire_answers (se_id s) d3)" by (simp add: expire_answers_def)
  then have "grows d (drop_queue e (se_id s) (expire_answers (se_id s) d3))" using grows_drop_queue grows_trans by blast
  then show ?thesis by (intro grows_emit [OF d']) (simp add: make_ready_def)
qed

lemma steady_from_settlements: "steady (p\<lparr>dp_settlements := v\<rparr>, d) s \<Longrightarrow> steady (p, d) s"
  by (auto simp: steady_def calm_def)

lemma steady_fence_recovery: "steady (p, d) (fence_recovery e fresh b x (p, d))"
proof (cases "dp_waiting p")
  case (RecoveryWork n)
  let ?p1 = "p\<lparr>dp_waiting := NoReply\<rparr>"
  obtain p2 where p2: "p2 = (case runtime_of ?p1 (rc_session n) of None \<Rightarrow> ?p1
       | Some r \<Rightarrow> if succeeds (lockedSession e ?p1 n d) then unmap (rc_session n) (rm_generation r) ?p1 else ?p1)" by blast
  then have "calm p p2" by (auto split: option.splits)
  moreover have "steady (p2, d) (repair_settlements e (p2\<lparr>dp_settlements := zs\<rparr>, d))" for zs
    by (rule steady_from_settlements) (rule steady_repair_settlements)
  ultimately have "steady (p, d) (repair_settlements e (p2\<lparr>dp_settlements := zs\<rparr>, d))" for zs
    using steady_trans [of "(p, d)" "(p2, d)"] by simp
  then show ?thesis using \<open>calm p p2\<close> RecoveryWork grows_fence_commit
    unfolding fence_recovery_def by (auto simp: p2 [symmetric] Let_def split: sum.splits)
qed (simp_all add: fence_recovery_def)

section \<open>Requests\<close>

lemma grows_accept:
  assumes "acceptConversationTurn e i b actor opid msgid auth d = Inr (x, d')"
  shows "grows d d'"
proof -
  from assms obtain b' as ds where a: "opid \<notin> op_id ` set (operations d)" "x = new_operation e opid i TurnOp (turn_payload b') actor"
    and f: "session_frame d' = session_frame (d\<lparr>operations := operations d @ [x], attachments := as, conversation_drafts := ds,
       messages := messages d @ [accepted_message msgid i opid b']\<rparr>)"
    by (rule acceptConversationTurn_Inr)
  have "operations d' = operations d @ [x]" "meta_generation d' = meta_generation d"
    using session_frameD(1) [OF f] arg_cong [OF f, of meta_generation] by (simp_all add: session_frame_def)
  then show ?thesis using a by (simp add: grows_def ops_grow_append)
qed

lemma grows_cancel_request:
  assumes "requestTurnCancellation e turn actor fresh auth d = Inr (r, d')" and "op_ids_distinct d"
  shows "grows d d'"
proof -
  obtain t where t: "find (\<lambda>x. op_id x = turn) (operations d) = Some t"
    using assms(1) by (rule requestTurnCancellation_Inr)
  show ?thesis using assms(1) t
  proof (cases rule: requestTurnCancellation_cases)
    case (retry p)
    then have p: "p \<in> set (operations d)" "op_kind p = CancelOp" by (auto simp: cancels_def dest!: find_Some_in)
    have "grows d (update_operations (\<lambda>x. op_id x = op_id p) (retry_cancel e actor) d)"
    proof (rule grows_update_operations)
      fix x assume "x \<in> set (operations d)" "op_id x = op_id p"
      then have "x = p" using unique_row p(1) assms(2) by (metis op_ids_distinct_def)
      then show "op_grows x (retry_cancel e actor x)" using p(2) by (simp add: op_grows_def retry_cancel_def)
    qed
    then show ?thesis using retry by (simp add: update_operations_def)
  next
    case (first q)
    have "grows d (d\<lparr>operations := operations d @ [cancel_row e fresh t actor]\<rparr>)"
      using first(4) by (simp add: grows_def ops_grow_append)
    then show ?thesis using first(5) quiet_event grows_quiet_trans by blast
  qed simp
qed

lemma grows_request_recovery:
  assumes "request_recovery e actor i g retry fresh d = Inr (r, d')"
  shows "grows d d'"
proof -
  have "\<exists>rs ty x. emit e i ty x (d\<lparr>session_recoveries := rs\<rparr>) = Inr d'" if "se_id s = i" "first_recovery e actor fresh s d = Inr (r, d')" for s
    using that by (auto simp: first_recovery_def Let_def res_simps)
  moreover have "\<exists>rs ty x. emit e i ty x (d\<lparr>session_recoveries := rs\<rparr>) = Inr d'" if "retry_recovery e actor i g rid n d = Inr (r, d')" for rid n
    using that by (auto simp: retry_recovery_def res_simps)
  ultimately have "\<exists>rs ty x. emit e i ty x (d\<lparr>session_recoveries := rs\<rparr>) = Inr d'"
    using assms by (auto simp: request_recovery_def res_simps split: option.splits if_splits dest!: session_find_Some)
  then show ?thesis by (auto intro: grows_emit)
qed

lemma grows_continue_recovery:
  assumes "continue_recovery e i rid g b actor opid msgid auth d = Inr (x, d')"
  shows "grows d d'"
proof -
  obtain ids y d1 where d1: "acceptConversationTurn e i b actor opid msgid auth (acknowledge e ids d) = Inr (y, d1)"
    and d': "d' = consume e rid (op_id y) d1"
    using assms by (auto simp: continue_recovery_def res_simps split: prod.splits)
  have "grows d (acknowledge e ids d)"
    unfolding acknowledge_def by (rule grows_update_operations) (simp add: op_grows_def)
  then have "grows d d1" using grows_accept [OF d1] by (rule grows_trans)
  then show ?thesis by (simp add: d' consume_def)
qed

lemma quiet_routes:
  "stop_background_route e i g d = Inr d' \<Longrightarrow> quiet d d'" "archive_session e i d = Inr d' \<Longrightarrow> quiet d d'"
  "session_metadata e i n t b d = Inr d' \<Longrightarrow> quiet d d'" "create_session e s fresh d = Inr (x, d') \<Longrightarrow> quiet d d'"
  by (auto simp: stop_background_route_def archive_session_def session_metadata_def metadata_event_def create_session_def
      Let_def res_simps quiet_def [of d "d\<lparr>sessions := _\<rparr>"] split: if_splits
      intro: quiet_trans [OF quiet_update_session quiet_emit])

lemma quiet_emergency_stop: "quiet d (emergency_stop e d)"
  by (simp add: emergency_stop_def emergencyPauseSchedules_def revoke_grants_def quiet_def)

lemma grows_client:
  assumes "client_act e ev d = Inr d'" and "op_ids_distinct d"
  shows "grows d d'"
proof (cases ev)
  case (AnswerApproval actor i b)
  then show ?thesis using assms by (auto simp: answer_approval_def res_simps split: if_splits intro: grows_emit)
next
  case (Elsewhere d1)
  then show ?thesis using assms by (auto simp: turn_tables_def grows_def split: if_splits)
next
  case (AcceptTurn i b actor opid msgid auth)
  then show ?thesis using assms by (auto simp: res_simps intro: grows_accept)
next
  case (CancelTurn t actor fresh auth)
  then show ?thesis using assms by (auto simp: res_simps intro: grows_cancel_request)
next
  case (RequestRecovery actor i g retry fresh)
  then show ?thesis using assms by (auto simp: res_simps intro: grows_request_recovery)
next
  case (ContinueRecovery i rid g b actor opid msgid auth)
  then show ?thesis using assms by (auto simp: res_simps intro: grows_continue_recovery)
next
  case (ReleaseWorkspace w i g)
  then show ?thesis using assms by (simp add: grows_releaseRecovered)
qed (use assms in \<open>auto simp: res_simps intro: quiet_grows quiet_routes quiet_emergency_stop\<close>)

end
