(* ===== verification/Turn_Once.thy ===== *)
theory Turn_Once
  imports Turn_Order
begin

text \<open>
  The steps of a candidate, and the invariant of the whole system: the turns that a current
  supervisor has in hand have not been written to a runtime, and those that have been written are
  no longer queued. The interpretation of \<open>evolving_ops\<close> on \<open>turn_happen\<close> carries both through any
  sequence of events.
\<close>

section \<open>Work in hand\<close>

definition stage_turn :: "stage \<Rightarrow> uuid" where
  "stage_turn st = op_id (ca_operation (st_candidate st))"

definition work :: "dispatcher \<Rightarrow> uuid list" where
  "work p = (case dp_stage p of None \<Rightarrow> [] | Some st \<Rightarrow> [stage_turn st]) @ map (op_id \<circ> ca_operation) (dp_candidates p)"

definition unsent :: "dispatcher \<Rightarrow> uuid list" where
  "unsent p = (case dp_stage p of None \<Rightarrow> [] | Some st \<Rightarrow> if st_phase st = Sent then [] else [stage_turn st]) @
     map (op_id \<circ> ca_operation) (dp_candidates p)"

definition claimed_phase :: "phase \<Rightarrow> bool" where
  "claimed_phase ph \<longleftrightarrow> ph \<in> {Admitted, Launching, Launched, Binding, Bound, Sent}"

definition turn_exists :: "db \<Rightarrow> uuid \<Rightarrow> bool" where
  "turn_exists d i \<longleftrightarrow> (\<exists>x \<in> set (operations d). op_id x = i \<and> op_kind x = TurnOp)"

definition turn_claimed :: "db \<Rightarrow> uuid \<Rightarrow> bool" where
  "turn_claimed d i \<longleftrightarrow> (\<exists>x \<in> set (operations d). op_id x = i \<and> op_kind x = TurnOp \<and> op_rank (op_state x) \<ge> 1)"

lemma turn_exists_grows: "grows d d' \<Longrightarrow> turn_exists d i \<Longrightarrow> turn_exists d' i"
  by (auto simp: turn_exists_def op_grows_def dest!: grows_row)

lemma turn_claimed_grows:
  assumes "grows d d'" and "turn_claimed d i"
  shows "turn_claimed d' i"
proof -
  obtain x where x: "x \<in> set (operations d)" "op_id x = i" "op_kind x = TurnOp" "op_rank (op_state x) \<ge> 1"
    using assms(2) by (auto simp: turn_claimed_def)
  obtain y where "y \<in> set (operations d')" "op_grows x y" using grows_row [OF assms(1) x(1)] by blast
  then show ?thesis using x by (auto simp: turn_claimed_def op_grows_def intro!: bexI [of _ y])
qed

lemma turn_claimed_exists: "turn_claimed d i \<Longrightarrow> turn_exists d i"
  by (auto simp: turn_claimed_def turn_exists_def)

definition hand_ok :: "db \<Rightarrow> uuid list \<Rightarrow> dispatcher \<Rightarrow> bool" where
  "hand_ok d starts p \<longleftrightarrow> dp_generation p \<le> meta_generation d \<and> distinct (work p) \<and> (\<forall>i \<in> set (work p). turn_exists d i) \<and>
     (\<forall>st. dp_stage p = Some st \<and> claimed_phase (st_phase st) \<longrightarrow> turn_claimed d (stage_turn st)) \<and>
     (dp_generation p = meta_generation d \<longrightarrow> set (unsent p) \<inter> set starts = {})"

text \<open>How a step may change what is in hand: it drops work, or takes its candidate one phase on.\<close>

definition hand_moves :: "db \<Rightarrow> dispatcher \<Rightarrow> dispatcher \<Rightarrow> bool" where
  "hand_moves d' p q \<longleftrightarrow> calm p q \<or> (\<exists>st st'. dp_stage p = Some st \<and> dp_stage q = Some st' \<and> st_candidate st' = st_candidate st \<and>
     dp_generation q = dp_generation p \<and> dp_candidates q = dp_candidates p \<and> st_phase st \<noteq> Sent \<and>
     (claimed_phase (st_phase st') \<longrightarrow> claimed_phase (st_phase st) \<or> turn_claimed d' (stage_turn st)))"

lemma work_parts:
  "work p = (case dp_stage p of None \<Rightarrow> [] | Some st \<Rightarrow> [stage_turn st]) @ map (op_id \<circ> ca_operation) (dp_candidates p)"
  "set (unsent p) = (case dp_stage p of None \<Rightarrow> {} | Some st \<Rightarrow> if st_phase st = Sent then {} else {stage_turn st}) \<union>
     (op_id \<circ> ca_operation) ` set (dp_candidates p)"
  by (cases "dp_stage p"; simp add: work_def unsent_def)+

lemma calm_work:
  assumes "calm p q"
  shows "set (work q) \<subseteq> set (work p)" and "distinct (work p) \<Longrightarrow> distinct (work q)" and "set (unsent q) \<subseteq> set (unsent p)"
proof -
  have stage: "dp_stage q = dp_stage p \<or> dp_stage q = None" and cands: "dp_candidates q = dp_candidates p \<or> dp_candidates q = []"
    using assms by (simp_all add: calm_def)
  show "set (work q) \<subseteq> set (work p)"
    using stage cands unfolding work_parts(1) by (elim disjE) (simp_all split: option.splits)
  show "distinct (work q)" if "distinct (work p)"
    using that stage cands unfolding work_parts(1) by (elim disjE) (simp_all split: option.splits)
  show "set (unsent q) \<subseteq> set (unsent p)"
    using stage cands unfolding work_parts(2) by (elim disjE) (simp_all split: option.splits)
qed

lemma calm_hand_ok:
  assumes "hand_ok d starts p" and "grows d d'" and "calm p q"
  shows "hand_ok d' starts q"
  unfolding hand_ok_def
proof (intro conjI ballI allI impI)
  have g: "meta_generation d' = meta_generation d" "dp_generation q = dp_generation p"
    using assms(2,3) by (simp_all add: grows_def calm_def)
  note h = assms(1) [unfolded hand_ok_def]
  show "dp_generation q \<le> meta_generation d'" using h g by simp
  show "distinct (work q)" using h calm_work(2) [OF assms(3)] by blast
  show "turn_exists d' i" if "i \<in> set (work q)" for i
    using that h calm_work(1) [OF assms(3)] turn_exists_grows [OF assms(2)] by blast
  show "turn_claimed d' (stage_turn st)" if "dp_stage q = Some st \<and> claimed_phase (st_phase st)" for st
  proof -
    have "dp_stage p = Some st" using that assms(3) by (auto simp: calm_def)
    then show ?thesis using that h turn_claimed_grows [OF assms(2)] by blast
  qed
  show "set (unsent q) \<inter> set starts = {}" if "dp_generation q = meta_generation d'"
  proof -
    have "set (unsent p) \<inter> set starts = {}" using that h g by simp
    then show ?thesis using calm_work(3) [OF assms(3)] by blast
  qed
qed

lemma advance_hand_ok:
  assumes "hand_ok d starts p" and "grows d d'" and "dp_stage p = Some st" and "dp_stage q = Some st'"
    and cand: "st_candidate st' = st_candidate st" and "dp_generation q = dp_generation p" and "dp_candidates q = dp_candidates p"
    and "st_phase st \<noteq> Sent" and "claimed_phase (st_phase st') \<longrightarrow> claimed_phase (st_phase st) \<or> turn_claimed d' (stage_turn st)"
  shows "hand_ok d' starts q"
  unfolding hand_ok_def
proof (intro conjI ballI allI impI)
  have g: "meta_generation d' = meta_generation d" using assms(2) by (simp add: grows_def)
  have turn: "stage_turn st' = stage_turn st" using cand by (simp add: stage_turn_def)
  have work: "work q = work p" and unsent: "set (unsent q) \<subseteq> set (unsent p)"
    using assms(3,4,6-8) turn by (auto simp: work_def unsent_def)
  note h = assms(1) [unfolded hand_ok_def]
  show "dp_generation q \<le> meta_generation d'" using h g assms(6) by simp
  show "distinct (work q)" using h work by simp
  show "turn_exists d' i" if "i \<in> set (work q)" for i
    using that h work turn_exists_grows [OF assms(2)] by simp
  show "turn_claimed d' (stage_turn s)" if "dp_stage q = Some s \<and> claimed_phase (st_phase s)" for s
  proof -
    have "claimed_phase (st_phase st) \<or> turn_claimed d' (stage_turn st)" and s: "s = st'"
      using that assms(4,9) by auto
    then have "turn_claimed d' (stage_turn st)" using h assms(3) turn_claimed_grows [OF assms(2)] by blast
    then show ?thesis using s turn by simp
  qed
  show "set (unsent q) \<inter> set starts = {}" if "dp_generation q = meta_generation d'"
  proof -
    have "set (unsent p) \<inter> set starts = {}" using that h g assms(6) by simp
    then show ?thesis using unsent by blast
  qed
qed

lemma hand_moves_ok:
  assumes "hand_ok d starts p" and "grows d d'" and "hand_moves d' p q"
  shows "hand_ok d' starts q"
  using assms(3) unfolding hand_moves_def
  by (elim disjE exE conjE) (auto intro: calm_hand_ok advance_hand_ok assms(1,2))

section \<open>The steps of a candidate\<close>

definition same_hand :: "dispatcher \<Rightarrow> dispatcher \<Rightarrow> bool" where
  "same_hand p q \<longleftrightarrow> dp_generation q = dp_generation p \<and> dp_stage q = dp_stage p \<and> dp_candidates q = dp_candidates p"

lemma same_hand_refl [simp]: "same_hand p p"
  by (simp add: same_hand_def)

lemma same_hand_simps [simp]:
  "same_hand p (set_runtime i g f q) \<longleftrightarrow> same_hand p q" "same_hand p (unmap i g q) \<longleftrightarrow> same_hand p q"
  "same_hand p (q\<lparr>dp_repairs := rs\<rparr>) \<longleftrightarrow> same_hand p q" "same_hand p (q\<lparr>dp_runtimes := xs\<rparr>) \<longleftrightarrow> same_hand p q"
  by (simp_all add: same_hand_def set_runtime_def unmap_def)

lemma same_hand_poison: "same_hand p (fst (poison e reason i g (p, d)))"
  by (auto simp: poison_def Let_def split: option.splits sum.splits)

lemma same_hand_retire: "same_hand p (fst (retire_begin e i g b c x (p, d)))"
  by (auto simp: retire_begin_def Let_def split: option.splits sum.splits begin_result.splits)

lemma hand_moves_same: "hand_moves d' p q \<Longrightarrow> same_hand q r \<Longrightarrow> hand_moves d' p r"
  by (auto simp: hand_moves_def same_hand_def calm_def)

lemma hand_moves_calm: "calm p q \<Longrightarrow> hand_moves d' p q"
  by (simp add: hand_moves_def)

lemma hand_moves_advance:
  assumes "dp_stage p = Some st" and "st_phase st \<noteq> Sent" and "st_candidate st' = st_candidate st"
    and "claimed_phase ph \<longrightarrow> claimed_phase (st_phase st) \<or> turn_claimed d' (stage_turn st)"
  shows "hand_moves d' p (advance ph st' p)"
  using assms by (auto simp: hand_moves_def advance_def stage_turn_def)

lemma hand_moves_advance':
  assumes "dp_stage p = Some st" and "st_phase st \<noteq> Sent" and "st_candidate st' = st_candidate st"
    and "claimed_phase ph \<longrightarrow> claimed_phase (st_phase st) \<or> turn_claimed d' (stage_turn st)" and "same_hand p q"
  shows "hand_moves d' p (advance ph st' q)"
  using assms by (auto simp: hand_moves_def advance_def stage_turn_def same_hand_def)

lemma hand_moves_refl [simp]: "hand_moves d' p p"
  by (simp add: hand_moves_def)

definition proper :: "dispatcher \<times> db \<Rightarrow> dispatcher \<times> db \<Rightarrow> bool" where
  "proper s t \<longleftrightarrow> grows (snd s) (snd t) \<and> hand_moves (snd t) (fst s) (fst t)"

lemma proper_pair [simp]: "proper (p, d) (q, d') \<longleftrightarrow> grows d d' \<and> hand_moves d' p q"
  by (simp add: proper_def)

lemma steady_proper: "steady s t \<Longrightarrow> proper s t"
  by (simp add: steady_def proper_def hand_moves_calm)

lemma proper_refl [simp]: "proper s s"
  by (simp add: proper_def)

lemma grows_queueReason:
  assumes "queueReason e i s reason d = Inr d'"
  shows "grows d d'"
proof -
  let ?hit = "\<lambda>x. op_id x = i \<and> op_state x = Queued \<and> op_queue_reason x \<noteq> Some reason"
  let ?d1 = "update_operations ?hit (\<lambda>x. x\<lparr>op_queue_reason := Some reason\<rparr>) d"
  have "grows d ?d1" by (rule grows_update_operations) (simp add: op_grows_def)
  moreover have "quiet ?d1 d'"
    using assms by (auto simp: queueReason_def update_operations_def Let_def res_simps split: if_splits intro: quiet_event)
  ultimately show ?thesis by (rule grows_quiet_trans)
qed

lemma steady_settle_or_stop:
  assumes "\<And>d'. m = Inr d' \<Longrightarrow> grows d d'"
  shows "steady (p, d) (settle_or_stop m (p, d))"
  using assms by (simp add: settle_or_stop_def split: sum.splits)

lemma proper_consider:
  assumes "dp_stage p = Some st" and "st_phase st = Considering"
  shows "proper (p, d) (consider_turn e x st (p, d))"
proof (cases "verdict e p (st_candidate st) d")
  case (Blocked reason)
  then show ?thesis
    using steady_settle_or_stop grows_queueReason by (simp add: consider_turn_def Let_def steady_proper)
next
  case Refused
  then show ?thesis
    using steady_settle_or_stop grows_update_operation by (simp add: consider_turn_def Let_def steady_proper)
next
  case (Evict i)
  then show ?thesis using steady_retire_begin by (simp add: consider_turn_def Let_def steady_proper split: option.splits)
next
  case Ready
  then show ?thesis using assms by (simp add: consider_turn_def Let_def hand_moves_advance claimed_phase_def)
qed

lemma grows_sequence [simp]: "grows d (d'\<lparr>runtime_generation_seq := n\<rparr>) \<longleftrightarrow> grows d d'"
  by (simp add: grows_def)

lemma proper_draw:
  assumes "dp_stage p = Some st" and "\<not> claimed_phase (st_phase st)"
  shows "proper (p, d) (draw_generation st (p, d))"
  using assms by (auto simp: draw_generation_def Let_def claimed_phase_def intro!: hand_moves_advance)

lemma proper_prepare:
  assumes "dp_stage p = Some st" and "st_phase st = Preparing"
  shows "proper (p, d) (prepare e x st (p, d))"
proof -
  have adv: "hand_moves d' p (advance ph st' p)" if "st_candidate st' = st_candidate st" "\<not> claimed_phase ph" for ph st' d'
    using that assms by (intro hand_moves_advance) auto
  have retire: "proper (p, d) (retire_begin e i g b c x (advance Replacing st p, d))" for i g b c
  proof -
    let ?s = "retire_begin e i g b c x (advance Replacing st p, d)"
    have "hand_moves (snd ?s) p (fst ?s)"
      by (rule hand_moves_same [OF _ same_hand_retire]) (rule adv, simp_all add: claimed_phase_def)
    moreover have "grows d (snd ?s)" using steady_retire_begin [of "advance Replacing st p" d] by (simp add: steady_def)
    ultimately show ?thesis by (simp add: proper_def)
  qed
  show ?thesis
    using assms retire proper_draw adv
    by (auto simp: prepare_def Let_def claimed_phase_def split: option.splits)
qed

lemma proper_replaced:
  assumes "dp_stage p = Some st" and "st_phase st = Replacing"
  shows "proper (p, d) (replaced e b st (p, d))"
  using assms proper_draw [of p st d] steady_settle_or_stop grows_queueReason
  by (simp add: replaced_def Let_def steady_proper claimed_phase_def)

section \<open>Admission claims the turn\<close>

lemma turn_claimed_dispatching:
  assumes "turn_exists d i"
  shows "turn_claimed (update_operations (\<lambda>y. op_id y = i \<and> op_state y = Queued) (dispatching g) d) i"
proof -
  obtain x where x: "x \<in> set (operations d)" "op_id x = i" "op_kind x = TurnOp" using assms by (auto simp: turn_exists_def)
  let ?f = "\<lambda>y. if op_id y = i \<and> op_state y = Queued then dispatching g y else y"
  have "?f x \<in> set (operations (update_operations (\<lambda>y. op_id y = i \<and> op_state y = Queued) (dispatching g) d))"
    using x(1) by (simp add: update_operations_def set_update_where)
  moreover have "op_id (?f x) = i \<and> op_kind (?f x) = TurnOp \<and> op_rank (op_state (?f x)) \<ge> 1"
    using x by (cases "op_state x") (simp_all add: dispatching_def)
  ultimately show ?thesis unfolding turn_claimed_def by blast
qed

lemma turn_exists_quiet: "quiet d d' \<Longrightarrow> turn_exists d' i \<longleftrightarrow> turn_exists d i"
  by (simp add: quiet_def turn_exists_def)

lemma quiet_join_member:
  assumes "join_member e st g prof d = Inr d'"
  shows "quiet d d'"
proof -
  have "quiet d d'" if "insert_member m d = Inr d'" for m
    using that by (auto simp: insert_member_def quiet_def split: if_splits)
  then show ?thesis using assms by (auto simp: join_member_def Let_def split: if_splits intro: quiet_runtimeState)
qed

lemma claim_turn_effect:
  assumes "claim_turn e st g d = Inr d'"
  shows "grows d d'" and "turn_exists d (stage_turn st) \<Longrightarrow> turn_claimed d' (stage_turn st)"
proof -
  let ?i = "stage_turn st"
  obtain prof d1 ty y where d1: "join_member e st g prof d = Inr d1"
    and d': "emit e (op_session (ca_operation (st_candidate st))) ty y
      (update_operations (\<lambda>y. op_id y = ?i \<and> op_state y = Queued) (dispatching g)
         (update_session (op_session (ca_operation (st_candidate st))) (take_session g prof (ca_operation (st_candidate st))) d1)) = Inr d'"
    using assms by (auto simp: claim_turn_def stage_turn_def Let_def res_simps)
  let ?d2 = "update_session (op_session (ca_operation (st_candidate st))) (take_session g prof (ca_operation (st_candidate st))) d1"
  let ?d3 = "update_operations (\<lambda>y. op_id y = ?i \<and> op_state y = Queued) (dispatching g) ?d2"
  have q: "quiet d ?d2" by (rule quiet_trans [OF quiet_join_member [OF d1] quiet_update_session])
  have "grows ?d2 ?d3" by (rule grows_update_operations) (simp add: op_grows_def dispatching_def)
  then have "grows d ?d3" by (rule quiet_grows_trans [OF q])
  then show "grows d d'" by (rule grows_emit [OF d'])
  show "turn_claimed d' ?i" if "turn_exists d ?i"
  proof (rule turn_claimed_grows [OF grows_emit [OF d' grows_refl]])
    show "turn_claimed ?d3 ?i" by (rule turn_claimed_dispatching) (use that turn_exists_quiet [OF q] in simp)
  qed
qed

lemma admission_effect:
  assumes "workspaceAdmission (admission_body e p st g d) d = Inr (b, d')"
  shows "grows d d'" and "b \<Longrightarrow> turn_exists d (stage_turn st) \<Longrightarrow> turn_claimed d' (stage_turn st)"
proof -
  have body: "(\<not> b \<and> grows d d') \<or> (\<exists>d1. quiet d d1 \<and> claim_turn e st g d1 = Inr d')"
    using assms by (auto simp: workspaceAdmission_def admission_body_def Let_def res_simps
        split: if_splits prod.splits dest!: quiet_claimWorkspace intro: quiet_grows)
  then show "grows d d'" using claim_turn_effect(1) quiet_grows_trans by blast
  show "turn_claimed d' (stage_turn st)" if "b" "turn_exists d (stage_turn st)"
    using body that claim_turn_effect(2) turn_exists_quiet by blast
qed

lemma proper_admit:
  assumes "dp_stage p = Some st" and "st_phase st = Admitting" and "turn_exists d (stage_turn st)"
  shows "proper (p, d) (admit e st (p, d))"
proof (cases "st_generation st")
  case (Some g)
  show ?thesis
  proof (cases "workspaceAdmission (admission_body e p st g d) d")
    case (Inr x)
    obtain b d' where x: "x = (b, d')" by (cases x)
    note effect = admission_effect [OF Inr [unfolded x]]
    show ?thesis
    proof (cases b)
      case True
      then show ?thesis using Some Inr x effect assms
        by (auto simp: admit_def Let_def intro!: hand_moves_advance')
    next
      case False
      have "steady (p, d') (settle_or_stop (queueReason e i s r d') (p, d'))" for i s r
        by (rule steady_settle_or_stop) (rule grows_queueReason)
      then have "steady (p, d) (settle_or_stop (queueReason e i s r d') (p, d'))" for i s r
        using effect(1) steady_trans [of "(p, d)" "(p, d')"] by simp
      then show ?thesis using Some Inr x False by (simp add: admit_def Let_def steady_proper)
    qed
  qed (simp add: admit_def Some Let_def)
qed (simp add: admit_def Let_def)

section \<open>Launch, start and failure\<close>

lemma claimed_phase_later [simp]:
  "claimed_phase Admitted" "claimed_phase Launching" "claimed_phase Launched" "claimed_phase Binding" "claimed_phase Bound"
  by (simp_all add: claimed_phase_def)

lemma proper_launch:
  assumes "dp_stage p = Some st" and "st_phase st = Admitted"
  shows "proper (p, d) (launch e st (p, d))"
proof -
  have adv: "hand_moves d' p (advance ph st' p)" if "st_candidate st' = st_candidate st" for ph st' d'
    using that assms by (intro hand_moves_advance) auto
  show ?thesis
    using adv by (auto simp: launch_def Let_def split: option.splits sum.splits if_splits dest!: quiet_update_workspaces intro: quiet_grows)
qed

lemma proper_identity: "proper (p, d) (p, owned_identity x st d)"
  by (simp add: quiet_grows)

lemma proper_transport:
  assumes "dp_stage p = Some st" and "st_phase st = Launching"
  shows "proper (p, d) (transport e st (p, d))"
proof -
  have poisoned: "proper (p, d) (poison e reason i g (q, d))" if "same_hand p q" for reason i g q
  proof -
    let ?s = "poison e reason i g (q, d)"
    have "hand_moves (snd ?s) p (fst ?s)"
      by (rule hand_moves_same [OF _ same_hand_poison]) (use that in \<open>auto intro: hand_moves_same [of _ p p]\<close>)
    moreover have "grows d (snd ?s)" using steady_poison [of q d] by (simp add: steady_def)
    ultimately show ?thesis by (simp add: proper_def)
  qed
  have adv: "hand_moves d' p (advance Launched st q)" if "same_hand p q" for q d'
    using that assms by (intro hand_moves_advance') auto
  show ?thesis using poisoned adv by (auto simp: transport_def Let_def split: option.splits)
qed

lemma proper_opened:
  assumes "dp_stage p = Some st" and "st_phase st = Launched"
  shows "proper (p, d) (opened e c t st (p, d))"
proof -
  have "hand_moves d' p (advance Binding st q)" if "same_hand p q" for q d'
    using that assms by (intro hand_moves_advance') auto
  moreover have "grows d (d\<lparr>capabilities := x\<rparr>)" for x by (simp add: grows_def)
  ultimately show ?thesis by (auto simp: opened_def Let_def split: option.splits)
qed

lemma proper_bind:
  assumes "dp_stage p = Some st" and "st_phase st = Binding"
  shows "proper (p, d) (bind e st (p, d))"
proof (cases "st_generation st")
  case (Some g)
  let ?i = "op_session (ca_operation (st_candidate st))"
  let ?d1 = "update_session ?i (\<lambda>s. s\<lparr>se_generation := g\<rparr>)
                (update_operations (\<lambda>y. op_id y = stage_turn st) (\<lambda>y. y\<lparr>op_generation := Some g\<rparr>) d)"
  have "grows d (update_operations (\<lambda>y. op_id y = stage_turn st) (\<lambda>y. y\<lparr>op_generation := Some g\<rparr>) d)"
    by (rule grows_update_operations) (simp add: op_grows_def)
  then have d1: "grows d ?d1" by simp
  have adv: "hand_moves d' p (advance Bound st q)" if "same_hand p q" for q d'
    using that assms by (intro hand_moves_advance') auto
  have same: "hand_moves d' p q" if "same_hand p q" for q d'
    using that by (auto intro: hand_moves_same [of _ p p])
  show ?thesis
  proof (cases "personal_mode e")
    case True
    have "grows d d2" if "runtimeState e ?i g RtActive True ?d1 = Inr d2" for d2
      using grows_quiet_trans [OF d1 quiet_runtimeState [OF that]] .
    then show ?thesis using Some d1 same adv True
      by (simp add: bind_def Let_def stage_turn_def split: sum.splits)
  next
    case False
    then show ?thesis using Some d1 adv by (simp add: bind_def Let_def stage_turn_def)
  qed
qed (simp add: bind_def Let_def)

lemma proper_send:
  assumes "dp_stage p = Some st" and "st_phase st = Bound"
  shows "proper (p, d) (send_turn e st (p, d))"
  using assms by (auto simp: send_turn_def intro!: hand_moves_advance)

lemma grows_running_commit:
  assumes "running_commit e i opid d = Inr d'"
  shows "grows d d'"
proof -
  let ?d1 = "update_operations (\<lambda>x. op_id x = opid \<and> op_state x = Dispatching) (to_state e Running) d"
  have "grows d ?d1" by (rule grows_update_operations) (auto simp: op_grows_def)
  then show ?thesis using assms by (auto simp: running_commit_def res_simps split: if_splits intro: grows_emit)
qed

lemma steady_turn_started: "steady (p, d) (turn_started e t st (p, d))"
proof -
  have "grows d (update_operations (\<lambda>y. op_id y = i) (\<lambda>y. y\<lparr>op_native_turn := Some t\<rparr>) d)" for i
    by (rule grows_update_operations) (simp add: op_grows_def)
  then show ?thesis
    by (auto simp: turn_started_def Let_def split: option.splits sum.splits dest: grows_running_commit intro: grows_trans)
qed

lemma steady_failed: "steady (p, d) (failed e b st (p, d))"
proof -
  let ?x = "ca_operation (st_candidate st)"
  let ?proven = "proven_unstarted e b st p"
  let ?dispatched = "\<not> exists_row (\<lambda>y. op_id y = op_id ?x \<and> op_state y = Queued) (operations d)"
  let ?u = "update_operation e (op_id ?x) (if ?dispatched \<and> \<not> ?proven then Uncertain else Failed)
            [(''reason'', JStr (failure_reason ?proven ?dispatched))] d"
  show ?thesis
  proof (cases ?u)
    case (Inl f)
    then show ?thesis by (simp add: failed_def Let_def)
  next
    case (Inr d1)
    have g: "grows d d1" by (rule grows_update_operation [OF Inr]) simp
    have rel: "quiet d1 d2" if "release_unstarted e i n d1 = Inr d2" for i n d2
    proof -
      have "quiet d1 (d1\<lparr>conversation_runtimes := rs\<rparr>)" for rs by (simp add: quiet_def)
      then show ?thesis using that
        by (auto simp: release_unstarted_def Let_def res_simps split: if_splits intro: quiet_trans [OF _ quiet_emit])
    qed
    have settle: "steady (p, d) (settle_or_stop (if ?proven then release_unstarted e i n d1 else runtimeState e i n RtUnknown False d1) (p, d1))" for i n
    proof (rule steady_trans [of _ "(p, d1)"])
      show "steady (p, d) (p, d1)" using g by simp
      show "steady (p, d1) (settle_or_stop (if ?proven then release_unstarted e i n d1 else runtimeState e i n RtUnknown False d1) (p, d1))"
        by (rule steady_settle_or_stop) (auto split: if_splits intro: quiet_grows rel quiet_runtimeState)
    qed
    show ?thesis
      using Inr g settle by (auto simp: failed_def Let_def split: option.splits)
  qed
qed

section \<open>One step of a supervisor\<close>

lemma proper_at_stage:
  assumes "\<And>st. dp_stage p = Some st \<Longrightarrow> P (st_phase st) \<Longrightarrow> proper (p, d) (f st (p, d))"
  shows "proper (p, d) (at_stage P f (p, d))"
  using assms by (simp add: at_stage_def split: option.splits)

lemma steady_in_tick: "steady s (f s) \<Longrightarrow> steady s (in_tick f s)"
  by (simp add: in_tick_def)

lemmas steady_steps = steady_repair steady_repair_cancel steady_repair_settlements steady_in_tick steady_admit_recovery
  steady_fence_recovery steady_stop_runtime steady_stop_queue steady_reconcile steady_answer_begin steady_answer_end
  steady_cancel_begin steady_cancel_end steady_onEvent steady_onRequest steady_poison steady_classify
  steady_retire_begin steady_settle_retirement

lemma process_proper:
  assumes "op_ids_distinct d" and "\<And>st. dp_stage p = Some st \<Longrightarrow> turn_exists d (stage_turn st)"
    and "ev \<noteq> Fetch" and "ev \<noteq> NextCandidate"
  shows "proper (p, d) (process_act e ev (p, d))"
proof -
  have stage: "proper (p, d) (at_stage (\<lambda>ph. ph = ph') f (p, d))"
    if "\<And>st. dp_stage p = Some st \<Longrightarrow> st_phase st = ph' \<Longrightarrow> proper (p, d) (f st (p, d))" for ph' f
    using that by (intro proper_at_stage) simp
  show ?thesis
  proof (cases ev)
    case (Consider x) then show ?thesis using proper_consider by (simp add: stage)
  next
    case (Prepare x) then show ?thesis using proper_prepare by (simp add: stage)
  next
    case (Replaced b) then show ?thesis using proper_replaced by (simp add: stage)
  next
    case Admit then show ?thesis using proper_admit assms(2) by (simp add: stage)
  next
    case Launch then show ?thesis using proper_launch by (simp add: stage)
  next
    case (OwnedIdentity x) then show ?thesis by (simp add: stage proper_identity del: proper_pair)
  next
    case Transport then show ?thesis using proper_transport by (simp add: stage)
  next
    case (Opened c t) then show ?thesis using proper_opened by (simp add: stage)
  next
    case BindRuntime then show ?thesis using proper_bind by (simp add: stage)
  next
    case SendTurn then show ?thesis using proper_send by (simp add: stage)
  next
    case (TurnStarted t) then show ?thesis using steady_proper [OF steady_turn_started] by (simp add: stage)
  next
    case (Fail b) then show ?thesis using steady_proper [OF steady_failed] by (simp add: proper_at_stage)
  next
    case BeginTick then show ?thesis by (simp add: begin_tick_def hand_moves_calm)
  next
    case ReadEmergency then show ?thesis
      by (intro steady_proper) (simp add: steady_in_tick read_emergency_def)
  qed (use assms in \<open>auto intro: steady_proper steady_steps hand_moves_calm\<close>)
qed

section \<open>Taking up new work\<close>

lemma candidate_of_operation: "candidate_of d x = Some c \<Longrightarrow> ca_operation c = x"
  by (auto simp: candidate_of_def split: option.splits)

lemma map_filter_candidates:
  "map ca_operation (List.map_filter (candidate_of d) xs) = filter (\<lambda>x. candidate_of d x \<noteq> None) xs"
  by (induction xs) (auto simp: List.map_filter_simps candidate_of_operation split: option.splits)

lemma candidate_rows_ids:
  assumes "op_ids_distinct d"
  shows "distinct (map (op_id \<circ> ca_operation) (candidate_rows e d))"
    and "c \<in> set (candidate_rows e d) \<Longrightarrow> ca_operation c \<in> set (operations d) \<and> waiting_turn (ca_operation c)"
proof -
  let ?rows = "sort_key (\<lambda>x. (op_created_at x, op_id x)) (filter waiting_turn (operations d))"
  have eq: "map ca_operation (candidate_rows e d) = take (max_queued e) (filter (\<lambda>x. candidate_of d x \<noteq> None) ?rows)"
    by (simp add: candidate_rows_def take_map [symmetric] map_filter_candidates)
  have "distinct (map op_id ?rows)"
    using assms by (simp add: op_ids_distinct_def distinct_map inj_on_def)
  then have "distinct (map op_id (take (max_queued e) (filter (\<lambda>x. candidate_of d x \<noteq> None) ?rows)))"
    by (simp add: take_map [symmetric] distinct_map_filter distinct_take)
  then show "distinct (map (op_id \<circ> ca_operation) (candidate_rows e d))"
    using arg_cong [OF eq, of "map op_id"] by (simp add: comp_def)
  show "ca_operation c \<in> set (operations d) \<and> waiting_turn (ca_operation c)" if "c \<in> set (candidate_rows e d)"
  proof -
    have "ca_operation c \<in> set (map ca_operation (candidate_rows e d))" using that by simp
    then show ?thesis unfolding eq by (auto dest!: in_set_takeD)
  qed
qed

lemma fetch_hand_ok:
  assumes "op_ids_distinct d" and "\<forall>i \<in> set starts. turn_claimed d i" and "hand_ok d starts p"
  shows "hand_ok d starts (fst (fetch e (p, d)))"
proof (cases "free_tick p \<and> \<not> dp_emergency p")
  case True
  then have stage: "dp_stage p = None" by (simp add: free_tick_def)
  note rows = candidate_rows_ids [OF assms(1), where e = e]
  have "turn_exists d (op_id (ca_operation c))" if "c \<in> set (candidate_rows e d)" for c
    using rows(2) [OF that] by (auto simp: turn_exists_def waiting_turn_def)
  moreover have "op_id (ca_operation c) \<notin> set starts" if "c \<in> set (candidate_rows e d)" for c
  proof
    assume "op_id (ca_operation c) \<in> set starts"
    then obtain x where x: "x \<in> set (operations d)" "op_id x = op_id (ca_operation c)" "op_rank (op_state x) \<ge> 1"
      using assms(2) by (auto simp: turn_claimed_def)
    then have "x = ca_operation c" using rows(2) [OF that] unique_row assms(1) by (metis op_ids_distinct_def)
    then show False using x(3) rows(2) [OF that] by (simp add: waiting_turn_def)
  qed
  ultimately show ?thesis using True rows(1) stage assms(3)
    by (auto simp: fetch_def hand_ok_def work_def unsent_def)
next
  case False
  then have "fst (fetch e (p, d)) = p" by (auto simp: fetch_def)
  then show ?thesis using assms(3) by simp
qed

lemma fetch_db [simp]: "snd (fetch e (p, d)) = d"
  by (simp add: fetch_def)

lemma next_hand_ok:
  assumes "hand_ok d starts p"
  shows "hand_ok d starts (next_candidate p)"
proof (cases "dp_stage p")
  case None
  show ?thesis
  proof (cases "dp_candidates p")
    case (Cons c cs)
    then show ?thesis using assms None
      by (simp add: next_candidate_def hand_ok_def work_def unsent_def stage_turn_def claimed_phase_def)
  qed (use assms None in \<open>simp add: next_candidate_def\<close>)
qed (use assms in \<open>simp add: next_candidate_def\<close>)

lemma process_step:
  assumes "op_ids_distinct d" and "\<forall>i \<in> set starts. turn_claimed d i" and "hand_ok d starts p"
    and "process_act e ev (p, d) = (p', d')"
  shows "grows d d'" and "hand_ok d' starts p'" and "dp_generation p' = dp_generation p"
proof -
  have exists: "turn_exists d (stage_turn st)" if "dp_stage p = Some st" for st
    using assms(3) that by (simp add: hand_ok_def work_def)
  have "grows d d' \<and> hand_ok d' starts p' \<and> dp_generation p' = dp_generation p"
  proof (cases "ev = Fetch \<or> ev = NextCandidate")
    case True
    then show ?thesis
    proof
      assume "ev = Fetch"
      then have f: "fetch e (p, d) = (p', d')" using assms(4) by simp
      have "d' = d" using fetch_db [of e p d] f by simp
      moreover have "dp_generation p' = dp_generation p" using f by (auto simp: fetch_def split: if_splits)
      ultimately show ?thesis using fetch_hand_ok [OF assms(1-3), of e] f by simp
    next
      assume "ev = NextCandidate"
      then have "p' = next_candidate p" "d' = d" using assms(4) by simp_all
      moreover have "dp_generation (next_candidate p) = dp_generation p"
        by (simp add: next_candidate_def split: option.splits list.splits)
      ultimately show ?thesis using next_hand_ok [OF assms(3)] by simp
    qed
  next
    case False
    then have "proper (p, d) (process_act e ev (p, d))" using process_proper [where p = p and e = e, OF assms(1) exists] by blast
    then have "proper (p, d) (p', d')" using assms(4) by simp
    then have "grows d d'" "hand_moves d' p p'" by simp_all
    then show ?thesis using hand_moves_ok [OF assms(3)] by (auto simp: hand_moves_def calm_def)
  qed
  then show "grows d d'" "hand_ok d' starts p'" "dp_generation p' = dp_generation p" by simp_all
qed

end
