(* ===== verification/Turn_Safety.thy ===== *)
theory Turn_Safety
  imports Turn_Once "HOL-Library.Sublist"
begin

text \<open>
  The system of \<open>Turn_Events\<close> as a whole: an invariant of the data base, of every supervisor
  process and of the list of turns that were started, kept by every event; and how an event may
  move an operation. Both are contracts of \<open>evolving_ops\<close>, interpreted on \<open>turn_happen\<close>.
\<close>

section \<open>The invariant\<close>

definition order_ok :: "world \<Rightarrow> bool" where
  "order_ok w \<longleftrightarrow> op_ids_distinct (wd_db w) \<and> distinct (map dp_generation (wd_dispatchers w)) \<and>
     (\<forall>p \<in> set (wd_dispatchers w). hand_ok (wd_db w) (wd_starts w) p) \<and>
     distinct (wd_starts w) \<and> (\<forall>i \<in> set (wd_starts w). turn_claimed (wd_db w) i)"

definition turn_moves :: "world \<Rightarrow> world \<Rightarrow> bool" where
  "turn_moves w w' \<longleftrightarrow> ops_grow (operations (wd_db w)) (operations (wd_db w')) \<and>
     meta_generation (wd_db w) \<le> meta_generation (wd_db w') \<and> prefix (wd_starts w) (wd_starts w')"

lemma turn_moves_refl: "turn_moves w w"
  by (simp add: turn_moves_def)

lemma turn_moves_trans: "turn_moves w w' \<Longrightarrow> turn_moves w' w'' \<Longrightarrow> turn_moves w w''"
  by (auto simp: turn_moves_def intro: ops_grow_trans prefix_order.trans order_trans)

lemma order_ok_start: "op_ids_distinct d \<Longrightarrow> order_ok (start_world d)"
  by (simp add: order_ok_def start_world_def)

lemma hand_ok_grows: "hand_ok d starts p \<Longrightarrow> grows d d' \<Longrightarrow> hand_ok d' starts p"
  by (rule calm_hand_ok) (auto simp: calm_def)

lemma start_grows:
  assumes "start_generation e absent d = Inr (g, d')"
  shows "grows (d\<lparr>meta_generation := Suc (meta_generation d)\<rparr>) d'"
proof -
  have "grows (d\<lparr>meta_generation := Suc (meta_generation d)\<rparr>) (start_operations e d)"
    unfolding start_operations_def settle_controls_def strand_turns_def fail_fencing_def
    by (simp add: grows_settle grows_trans [OF grows_settle grows_settle])
  then show ?thesis using grows_quiet_trans start_generation_Inr(2) [OF assms] by blast
qed

lemma order_ok_client:
  assumes "grows (wd_db w) d'" and "order_ok w"
  shows "order_ok (w\<lparr>wd_db := d'\<rparr>)" and "turn_moves w (w\<lparr>wd_db := d'\<rparr>)"
proof -
  have "op_ids_distinct d'" using assms op_ids_distinct_grows by (auto simp: order_ok_def)
  moreover have "turn_claimed d' i" if "i \<in> set (wd_starts w)" for i
    using turn_claimed_grows [OF assms(1)] that assms(2) by (auto simp: order_ok_def)
  moreover have "hand_ok d' (wd_starts w) p" if "p \<in> set (wd_dispatchers w)" for p
    using hand_ok_grows [OF _ assms(1)] that assms(2) by (auto simp: order_ok_def)
  ultimately show "order_ok (w\<lparr>wd_db := d'\<rparr>)" using assms(2) by (simp add: order_ok_def)
  show "turn_moves w (w\<lparr>wd_db := d'\<rparr>)" using assms(1) by (simp add: turn_moves_def grows_def)
qed

lemma hand_ok_boot:
  assumes "hand_ok d starts p" and "grows (d\<lparr>meta_generation := Suc (meta_generation d)\<rparr>) d'"
  shows "hand_ok d' starts p"
proof (rule hand_ok_grows [OF _ assms(2)])
  show "hand_ok (d\<lparr>meta_generation := Suc (meta_generation d)\<rparr>) starts p"
    using assms(1) by (simp add: hand_ok_def turn_exists_def turn_claimed_def)
qed

lemma order_ok_boot:
  assumes "start_generation e absent (wd_db w) = Inr (g, d')" and "order_ok w"
  shows "order_ok (w\<lparr>wd_db := d', wd_dispatchers := wd_dispatchers w @ [new_dispatcher g version]\<rparr>) \<and>
    turn_moves w (w\<lparr>wd_db := d', wd_dispatchers := wd_dispatchers w @ [new_dispatcher g version]\<rparr>)"
proof -
  let ?d = "wd_db w"
  have g: "g = Suc (meta_generation ?d)" using start_generation_Inr(1) [OF assms(1)] by simp
  note grow = start_grows [OF assms(1)]
  have meta: "meta_generation d' = g" and ops: "ops_grow (operations ?d) (operations d')"
    using grow g by (simp_all add: grows_def)
  note ok = assms(2) [unfolded order_ok_def]
  have ids: "op_ids_distinct d'" using op_ids_distinct_grows [OF grow] ok by (simp add: op_ids_distinct_def)
  have claimed: "turn_claimed d' i" if "i \<in> set (wd_starts w)" for i
    using turn_claimed_grows [OF grow] that ok by (simp add: turn_claimed_def)
  have hands: "hand_ok d' (wd_starts w) p" if "p \<in> set (wd_dispatchers w)" for p
    using hand_ok_boot [OF _ grow] that ok by blast
  have fresh: "g \<notin> dp_generation ` set (wd_dispatchers w)" using ok g by (auto simp: hand_ok_def)
  have new: "hand_ok d' (wd_starts w) (new_dispatcher g version)" "dp_generation (new_dispatcher g version) = g"
    using meta by (simp_all add: hand_ok_def new_dispatcher_def work_def unsent_def)
  have "order_ok (w\<lparr>wd_db := d', wd_dispatchers := wd_dispatchers w @ [new_dispatcher g version]\<rparr>)"
    using ids claimed hands fresh new ok by (auto simp: order_ok_def)
  moreover have "turn_moves w (w\<lparr>wd_db := d', wd_dispatchers := wd_dispatchers w @ [new_dispatcher g version]\<rparr>)"
    using ops meta g by (simp add: turn_moves_def)
  ultimately show ?thesis by blast
qed

section \<open>A step of a supervisor\<close>

lemma dispatch_check_Inr:
  assumes "dispatch_check e p r d = Inr u"
  shows "meta_generation d = dp_generation p" and "\<not> meta_emergency d" and "usable_runtime p r"
    and "\<not> unresolved (rm_session r) d"
  using assms by (auto simp: dispatch_check_def res_simps split: if_splits)

lemma process_sends_cases:
  obtains "process_sends e ev (p, d) = []"
  | st where "ev = SendTurn" "dp_stage p = Some st" "st_phase st = Bound" "sends e st p d"
    "process_sends e ev (p, d) = [stage_turn st]" "dp_generation p = meta_generation d"
    "process_act e ev (p, d) = (advance Sent st p, d)"
proof (cases "process_sends e ev (p, d) = []")
  case False
  then obtain st where st: "ev = SendTurn" "dp_stage p = Some st" "sends e st p d"
    "process_sends e ev (p, d) = [stage_turn st]"
    by (auto simp: process_sends_def stage_turn_def split: process_event.splits option.splits if_splits)
  then obtain r where "st_phase st = Bound" "succeeds (dispatch_check e p r d)" by (auto simp: sends_def)
  then have "st_phase st = Bound" "dp_generation p = meta_generation d"
    using dispatch_check_Inr(1) [of e p r d] by (cases "dispatch_check e p r d"; simp)+
  then show thesis using that(2) st by (simp add: at_stage_def send_turn_def)
qed (rule that(1))

lemma put_dispatcher_simps [simp]:
  "wd_db (put_dispatcher g p w) = wd_db w" "wd_starts (put_dispatcher g p w) = wd_starts w"
  "wd_dispatchers (put_dispatcher g p w) = update_where (\<lambda>q. dp_generation q = g) (\<lambda>_. p) (wd_dispatchers w)"
  by (simp_all add: put_dispatcher_def)

lemma unsent_sent:
  assumes "dp_stage p = Some st" and "distinct (work p)"
  shows "stage_turn st \<notin> set (unsent (advance Sent st p))" and "set (unsent (advance Sent st p)) \<subseteq> set (unsent p)"
  using assms by (auto simp: advance_def work_def unsent_def)

text \<open>The starts of a step are new, claimed, and in no other current supervisor's hands.\<close>

lemma process_starts:
  assumes "order_ok w" and "p \<in> set (wd_dispatchers w)" and "process_act e ev (p, wd_db w) = (p', d')"
    and "i \<in> set (process_sends e ev (p, wd_db w))"
  shows "i \<notin> set (wd_starts w)" and "turn_claimed (wd_db w) i" and "dp_generation p = meta_generation (wd_db w)"
    and "i \<notin> set (unsent p')" and "process_sends e ev (p, wd_db w) = [i]"
proof -
  obtain st where st: "dp_stage p = Some st" "st_phase st = Bound" "process_sends e ev (p, wd_db w) = [stage_turn st]"
    and gen: "dp_generation p = meta_generation (wd_db w)"
    and act: "process_act e ev (p, wd_db w) = (advance Sent st p, wd_db w)"
    using assms(4) by (cases rule: process_sends_cases [of e ev p "wd_db w"]) auto
  have i: "i = stage_turn st" using assms(4) st(3) by simp
  have hand: "hand_ok (wd_db w) (wd_starts w) p" using assms(1,2) by (simp add: order_ok_def)
  then have "set (unsent p) \<inter> set (wd_starts w) = {}" using gen by (simp add: hand_ok_def)
  moreover have "i \<in> set (unsent p)" using st(1,2) i by (simp add: unsent_def)
  ultimately show "i \<notin> set (wd_starts w)" by blast
  show "turn_claimed (wd_db w) i" using hand st(1,2) i by (simp add: hand_ok_def claimed_phase_def)
  have "p' = advance Sent st p" using act assms(3) by simp
  then show "i \<notin> set (unsent p')" using unsent_sent(1) [OF st(1)] hand i by (simp add: hand_ok_def)
  show "dp_generation p = meta_generation (wd_db w)" by (rule gen)
  show "process_sends e ev (p, wd_db w) = [i]" using st(3) i by simp
qed

lemma order_ok_process:
  assumes "order_ok w" and "dispatcher_of g w = Some p" and "process_act e ev (p, wd_db w) = (p', d')"
    and "w' = (put_dispatcher g p' w)\<lparr>wd_db := d', wd_starts := wd_starts w @ process_sends e ev (p, wd_db w)\<rparr>"
  shows "order_ok w' \<and> turn_moves w w'"
proof -
  let ?new = "process_sends e ev (p, wd_db w)"
  have p: "p \<in> set (wd_dispatchers w)" "dp_generation p = g"
    using assms(2) by (auto simp: dispatcher_of_def find_Some_iff)
  note ok = assms(1) [unfolded order_ok_def]
  have ids: "op_ids_distinct (wd_db w)" and claimed: "\<forall>i \<in> set (wd_starts w). turn_claimed (wd_db w) i"
    and hand: "hand_ok (wd_db w) (wd_starts w) p" using ok p by blast+
  note step = process_step [OF ids claimed hand assms(3)]
  have meta: "meta_generation d' = meta_generation (wd_db w)" using step(1) by (simp add: grows_def)
  note new = process_starts [OF assms(1) p(1) assms(3)]
  have short: "distinct ?new" by (cases rule: process_sends_cases [of e ev p "wd_db w"]) simp_all
  have mine: "hand_ok d' (wd_starts w @ ?new) p'"
  proof -
    have "set (unsent p') \<inter> set ?new = {}" using new(4) by blast
    then show ?thesis using step(2) by (auto simp: hand_ok_def)
  qed
  have other: "hand_ok d' (wd_starts w @ ?new) q" if "q \<in> set (wd_dispatchers w)" "dp_generation q \<noteq> g" for q
  proof (cases "?new = []")
    case True
    then show ?thesis using hand_ok_grows [OF _ step(1)] ok that(1) by auto
  next
    case False
    then have "dp_generation q \<noteq> meta_generation d'" using new(3) p(2) that(2) meta by (metis list.set_intros(1) neq_Nil_conv)
    moreover have "hand_ok d' (wd_starts w) q" using hand_ok_grows [OF _ step(1)] ok that(1) by blast
    ultimately show ?thesis by (simp add: hand_ok_def)
  qed
  have gens: "map dp_generation (update_where (\<lambda>q. dp_generation q = g) (\<lambda>_. p') (wd_dispatchers w)) = map dp_generation (wd_dispatchers w)"
    using step(3) p(2) by (auto simp: update_where_def)
  have hands: "hand_ok d' (wd_starts w @ ?new) q"
    if "q \<in> set (update_where (\<lambda>q. dp_generation q = g) (\<lambda>_. p') (wd_dispatchers w))" for q
    using that mine other by (auto simp: update_where_def split: if_splits)
  have starts: "distinct (wd_starts w @ ?new)" using ok short new(1) by auto
  have all: "turn_claimed d' i" if "i \<in> set (wd_starts w @ ?new)" for i
    using that claimed new(2) turn_claimed_grows [OF step(1)] by auto
  have "order_ok w'"
    using op_ids_distinct_grows [OF step(1) ids] gens hands starts all ok assms(4) by (simp add: order_ok_def)
  moreover have "turn_moves w w'" using step(1) assms(4) by (simp add: turn_moves_def grows_def)
  ultimately show ?thesis ..
qed

lemma turn_happen_order:
  assumes "turn_happen x w = Inr w'" and "order_ok w"
  shows "order_ok w' \<and> turn_moves w w'"
proof (cases x)
  case (Pair e y)
  show ?thesis
  proof (cases y)
    case (Client ev)
    then obtain d' where d': "client_act e ev (wd_db w) = Inr d'" "w' = w\<lparr>wd_db := d'\<rparr>"
      using assms(1) Pair by (auto simp: turn_happen_def res_simps)
    then have "grows (wd_db w) d'" using grows_client assms(2) by (auto simp: order_ok_def)
    then show ?thesis using order_ok_client assms(2) d'(2) by blast
  next
    case (Boot absent version)
    then obtain g d' where d': "start_generation e absent (wd_db w) = Inr (g, d')"
      "w' = w\<lparr>wd_db := d', wd_dispatchers := wd_dispatchers w @ [new_dispatcher g version]\<rparr>"
      using assms(1) Pair by (auto simp: turn_happen_def res_simps)
    then show ?thesis using order_ok_boot [OF d'(1) assms(2)] by blast
  next
    case (Process g ev)
    then obtain p where p: "dispatcher_of g w = Some p"
      using assms(1) Pair by (cases "dispatcher_of g w") (simp_all add: turn_happen_def)
    obtain p' d' where act: "process_act e ev (p, wd_db w) = (p', d')" by force
    have "w' = (put_dispatcher g p' w)\<lparr>wd_db := d', wd_starts := wd_starts w @ process_sends e ev (p, wd_db w)\<rparr>"
      using assms(1) Pair Process p act by (simp add: turn_happen_def)
    then show ?thesis by (rule order_ok_process [OF assms(2) p act])
  qed
qed

interpretation turn_life: evolving_ops turn_happen order_ok turn_moves
  by unfold_locales (blast dest: turn_happen_order intro: turn_moves_refl turn_moves_trans)+

end
