(* ===== verification/Turn_Wire.thy ===== *)
theory Turn_Wire
  imports Turn_Safety
begin

text \<open>
  What ties the runtime that a turn is written to with the turn: between \<open>bind\<close> and the write, the
  runtime in the candidate's hand names the turn and its actor, with the scope of execution, unless
  it is being retired; and the candidate is a snapshot of a row of the data base. Both are kept by
  every event, as \<open>wire_ok\<close>, a contract of \<open>invariant_ops\<close> interpreted on \<open>turn_happen\<close>.
\<close>

section \<open>Runtimes between two steps\<close>

definition bound_to :: "candidate \<Rightarrow> runtime \<Rightarrow> bool" where
  "bound_to c r \<longleftrightarrow> rm_operation r = op_id (ca_operation c) \<and> rm_actor r = Some (op_actor (ca_operation c)) \<and>
     rm_scope r = Execute \<and> rm_turn r = []"

definition bound_ok :: "dispatcher \<Rightarrow> bool" where
  "bound_ok p \<longleftrightarrow> (\<forall>st g r. dp_stage p = Some st \<and> st_phase st = Bound \<and> st_generation st = Some g \<and>
     runtime_at p (op_session (ca_operation (st_candidate st))) g = Some r \<longrightarrow> rm_retiring r \<or> bound_to (st_candidate st) r)"

text \<open>What a step other than \<open>bind\<close> may do to a runtime that has not been told of a turn.\<close>

definition keeps_binding :: "runtime \<Rightarrow> runtime \<Rightarrow> bool" where
  "keeps_binding r q \<longleftrightarrow> (rm_retiring r \<longrightarrow> rm_retiring q) \<and>
     (rm_turn r = [] \<longrightarrow> rm_retiring q \<or> rm_turn q = [] \<and> rm_operation q = rm_operation r \<and>
        rm_actor q = rm_actor r \<and> rm_scope q = rm_scope r)"

definition wire_calm :: "dispatcher \<Rightarrow> dispatcher \<Rightarrow> bool" where
  "wire_calm p q \<longleftrightarrow> (\<forall>i g r. runtime_at q i g = Some r \<longrightarrow> (\<exists>r0. runtime_at p i g = Some r0 \<and> keeps_binding r0 r))"

definition unbound :: "dispatcher \<Rightarrow> bool" where
  "unbound p \<longleftrightarrow> (\<forall>st. dp_stage p = Some st \<longrightarrow> st_phase st \<noteq> Bound)"

definition wire_step :: "dispatcher \<Rightarrow> dispatcher \<Rightarrow> bool" where
  "wire_step p q \<longleftrightarrow> unbound q \<or> (dp_stage q = dp_stage p \<and> wire_calm p q)"

lemma keeps_binding_refl [simp]: "keeps_binding r r"
  by (simp add: keeps_binding_def)

lemma keeps_binding_trans: "keeps_binding r q \<Longrightarrow> keeps_binding q s \<Longrightarrow> keeps_binding r s"
  by (auto simp: keeps_binding_def)

lemma wire_calm_refl [simp]: "wire_calm p p"
  by (simp add: wire_calm_def)

lemma wire_calm_trans: "wire_calm p q \<Longrightarrow> wire_calm q r \<Longrightarrow> wire_calm p r"
  unfolding wire_calm_def by (blast intro: keeps_binding_trans)

lemma runtime_at_set:
  assumes "\<And>r. rm_session (f r) = rm_session r" "\<And>r. rm_generation (f r) = rm_generation r"
  shows "runtime_at (set_runtime i g f p) j h =
    (if j = i \<and> h = g then map_option f (runtime_at p i g) else runtime_at p j h)"
proof -
  have "find (\<lambda>r. rm_session r = j \<and> rm_generation r = h) (update_where (\<lambda>r. rm_session r = i \<and> rm_generation r = g) f rs) =
    (if j = i \<and> h = g then map_option f (find (\<lambda>r. rm_session r = i \<and> rm_generation r = g) rs)
     else find (\<lambda>r. rm_session r = j \<and> rm_generation r = h) rs)" for rs
    by (induction rs) (auto simp: assms)
  then show ?thesis by (simp add: runtime_at_def set_runtime_def)
qed

lemma wire_calm_set:
  assumes "\<And>r. rm_session (f r) = rm_session r" "\<And>r. rm_generation (f r) = rm_generation r"
    and "\<And>r. runtime_at p i g = Some r \<Longrightarrow> keeps_binding r (f r)"
  shows "wire_calm p (set_runtime i g f p)"
  unfolding wire_calm_def by (auto simp: runtime_at_set assms split: if_splits)

lemma wire_calm_unmap: "wire_calm p q \<Longrightarrow> wire_calm p (unmap i g q)"
  unfolding unmap_def by (rule wire_calm_trans [OF _ wire_calm_set]) (simp_all add: keeps_binding_def)

lemma runtime_at_simps [simp]:
  "runtime_at (p\<lparr>dp_repairs := a\<rparr>) i g = runtime_at p i g" "runtime_at (p\<lparr>dp_cancel_repairs := b\<rparr>) i g = runtime_at p i g"
  "runtime_at (p\<lparr>dp_settlements := c\<rparr>) i g = runtime_at p i g" "runtime_at (p\<lparr>dp_waiting := v\<rparr>) i g = runtime_at p i g"
  "runtime_at (p\<lparr>dp_alive := x\<rparr>) i g = runtime_at p i g" "runtime_at (p\<lparr>dp_mutating := x\<rparr>) i g = runtime_at p i g"
  "runtime_at (p\<lparr>dp_credential := y\<rparr>) i g = runtime_at p i g" "runtime_at (p\<lparr>dp_ticking := x\<rparr>) i g = runtime_at p i g"
  by (simp_all add: runtime_at_def)

lemma wire_calm_simps [simp]:
  "wire_calm p (q\<lparr>dp_repairs := a\<rparr>) \<longleftrightarrow> wire_calm p q" "wire_calm p (q\<lparr>dp_cancel_repairs := b\<rparr>) \<longleftrightarrow> wire_calm p q"
  "wire_calm p (q\<lparr>dp_settlements := c\<rparr>) \<longleftrightarrow> wire_calm p q" "wire_calm p (q\<lparr>dp_waiting := v\<rparr>) \<longleftrightarrow> wire_calm p q"
  "wire_calm p (q\<lparr>dp_alive := x\<rparr>) \<longleftrightarrow> wire_calm p q" "wire_calm p (q\<lparr>dp_mutating := x\<rparr>) \<longleftrightarrow> wire_calm p q"
  "wire_calm p (q\<lparr>dp_credential := y\<rparr>) \<longleftrightarrow> wire_calm p q" "wire_calm p (q\<lparr>dp_ticking := x\<rparr>) \<longleftrightarrow> wire_calm p q"
  by (simp_all add: wire_calm_def)

lemma unbound_simps [simp]:
  "unbound (stop_tick p)" "unbound (finish p)" "unbound (advance ph st p) \<longleftrightarrow> ph \<noteq> Bound"
  "unbound (set_runtime i g f p) \<longleftrightarrow> unbound p" "unbound (p\<lparr>dp_runtimes := rs\<rparr>) \<longleftrightarrow> unbound p"
  by (simp_all add: unbound_def stop_tick_def finish_def advance_def set_runtime_def)

lemma wire_step_stage: "calm p q \<Longrightarrow> wire_calm p q \<Longrightarrow> wire_step p q"
  by (auto simp: wire_step_def calm_def unbound_def)

lemma wire_step_unbound: "unbound q \<Longrightarrow> wire_step p q"
  by (simp add: wire_step_def)

section \<open>Steps that reach no binding\<close>

lemma wire_poison: "wire_calm p (fst (poison e reason i g (p, d)))"
proof -
  have p1: "wire_calm p (set_runtime i g (\<lambda>r. r\<lparr>rm_poisoned := True\<rparr>) p)"
    by (rule wire_calm_set) (simp_all add: keeps_binding_def)
  show ?thesis using p1 wire_calm_unmap [OF p1] by (simp add: poison_def Let_def split: option.split sum.split)
qed

lemma wire_retire_begin: "wire_calm p (fst (retire_begin e i g b c x (p, d)))"
proof -
  have "wire_calm p (set_runtime i g (mark_retiring c) p)"
    by (rule wire_calm_set) (simp_all add: keeps_binding_def mark_retiring_def)
  then show ?thesis by (simp add: retire_begin_def split: option.split sum.split begin_result.split)
qed

lemma wire_settle_retirement: "wire_calm p (fst (settle_retirement e i g b (p, d)))"
  using wire_calm_unmap [of p p] by (simp add: settle_retirement_def Let_def split: option.split sum.split)

lemma wire_onEvent: "wire_calm p (fst (onEvent e fresh i g opid n (p, d)))"
proof (cases "listens p i g")
  case (Some r)
  show ?thesis
  proof (cases "belongsToTurn n r \<and> rm_operation r = opid")
    case True
    have r: "runtime_at p i g = Some r" using Some by (auto simp: listens_def split: option.splits if_splits)
    have "wire_calm p (set_runtime i g (\<lambda>r. r\<lparr>rm_operation := []\<rparr>) p)"
      by (rule wire_calm_set) (use True r in \<open>auto simp: keeps_binding_def belongsToTurn_def\<close>)
    then show ?thesis using Some True wire_poison by (simp add: onEvent_def split: sum.split)
  qed (use Some in \<open>simp add: onEvent_def\<close>)
qed (simp add: onEvent_def)

lemma wire_onRequest: "wire_calm p (fst (onRequest e fresh i g opid q (p, d)))"
  using wire_poison by (simp add: onRequest_def split: option.split sum.split)

lemma wire_from_waiting: "wire_calm (p\<lparr>dp_waiting := v\<rparr>) q \<Longrightarrow> wire_calm p q"
  by (simp add: wire_calm_def)

text \<open>Most steps keep the stage or drop it, so it is enough to look at the runtimes.\<close>

definition wire_or :: "dispatcher \<Rightarrow> dispatcher \<Rightarrow> bool" where
  "wire_or p q \<longleftrightarrow> unbound q \<or> wire_calm p q"

lemma wire_or_step: "steady (p, d) (q, d') \<Longrightarrow> wire_or p q \<Longrightarrow> wire_step p q"
  using wire_step_stage by (auto simp: wire_or_def wire_step_def)

lemma wire_or_intros: "wire_calm p q \<Longrightarrow> wire_or p q" "unbound q \<Longrightarrow> wire_or p q"
  by (simp_all add: wire_or_def)

lemma wire_answer_uncertain: "wire_or p (fst (answer_uncertain e a g (p\<lparr>dp_waiting := v\<rparr>, d)))"
  using wire_from_waiting [OF wire_poison]
  by (auto simp: answer_uncertain_def wire_or_def split: sum.split)

lemma wire_answer_end: "wire_or p (fst (answer_end e (p, d)))"
  using wire_answer_uncertain
  by (auto simp: answer_end_def Let_def wire_or_intros split: waiting.split sum.split)

lemma wire_cancel_end: "wire_or p (fst (cancel_end e (p, d)))"
proof (cases "dp_waiting p")
  case (CancelReply c t g res)
  have poisoned: "wire_calm p (fst (poison e reason i g (p\<lparr>dp_waiting := v, dp_cancel_repairs := xs\<rparr>, d)))" for reason i v xs
  proof -
    have "wire_calm (p\<lparr>dp_waiting := v, dp_cancel_repairs := xs\<rparr>) q \<Longrightarrow> wire_calm p q" for q by (simp add: wire_calm_def)
    then show ?thesis using wire_poison by blast
  qed
  show ?thesis
  proof (cases res)
    case (Inl f)
    show ?thesis
    proof (cases "f = already_completed \<or> refused_grant f")
      case True
      then show ?thesis using CancelReply Inl by (auto simp: cancel_end_def Let_def wire_or_def split: sum.split)
    next
      case False
      let ?p2 = "p\<lparr>dp_waiting := NoReply,
        dp_cancel_repairs := delete_where (\<lambda>x. fst x = op_id c) (dp_cancel_repairs p) @ [(op_id c, Failed)]\<rparr>"
      obtain p3 d3 where p3: "poison e ''Turn interruption could not be confirmed'' (op_session c) g (?p2, d) = (p3, d3)" by force
      then have "wire_calm p p3" by (metis fst_conv poisoned)
      then show ?thesis using CancelReply Inl False p3
        by (simp add: cancel_end_def Let_def wire_or_def split: sum.split)
    qed
  qed (simp add: cancel_end_def CancelReply wire_or_def)
qed (simp_all add: cancel_end_def wire_or_def)

lemma wire_fence_recovery: "wire_calm p (fst (fence_recovery e fresh b x (p, d)))"
proof (cases "dp_waiting p")
  case (RecoveryWork n)
  let ?p1 = "p\<lparr>dp_waiting := NoReply\<rparr>"
  have "wire_calm p (unmap i g ?p1)" for i g by (rule wire_calm_unmap) simp
  then show ?thesis using RecoveryWork
    by (simp add: fence_recovery_def repair_settlements_def Let_def split: sum.split option.split)
qed (simp_all add: fence_recovery_def)

lemma wire_quiet_steps:
  "wire_calm p (fst (repair e i (p, d)))" "wire_calm p (fst (repair_cancel e i (p, d)))"
  "wire_calm p (fst (repair_settlements e (p, d)))" "wire_calm p (fst (classifyRuntime e i g x (p, d)))"
  by (simp_all add: repair_def repair_cancel_def repair_settlements_def classifyRuntime_def Let_def
      split: option.split sum.split)

section \<open>The steps of a candidate\<close>

text \<open>Only \<open>bind\<close> takes a candidate to the phase in which its turn is written.\<close>

lemma unbound_poison: "unbound p \<Longrightarrow> unbound (fst (poison e reason i g (p, d)))"
  using same_hand_poison [of p e reason i g d] by (simp add: unbound_def same_hand_def)

lemma unbound_retire: "unbound p \<Longrightarrow> unbound (fst (retire_begin e i g b c x (p, d)))"
  using same_hand_retire [of p e i g b c x d] by (simp add: unbound_def same_hand_def)

lemma unbound_settle: "unbound (fst (settle_or_stop m s))"
  by (simp add: settle_or_stop_def split: sum.split)

lemma unbound_steps:
  assumes "unbound p"
  shows "unbound (fst (consider_turn e x st (p, d)))" "unbound (fst (prepare e x st (p, d)))"
    "unbound (fst (replaced e b st (p, d)))" "unbound (fst (admit e st (p, d)))" "unbound (fst (launch e st (p, d)))"
    "unbound (fst (transport e st (p, d)))" "unbound (fst (opened e c t st (p, d)))"
    "unbound (fst (turn_started e t st (p, d)))" "unbound (fst (failed e b st (p, d)))"
proof -
  have draw: "unbound (fst (draw_generation st s))" for s by (simp add: draw_generation_def Let_def split: prod.split)
  show "unbound (fst (consider_turn e x st (p, d)))"
    using assms unbound_settle unbound_retire by (simp add: consider_turn_def Let_def split: verdict.split option.split)
  show "unbound (fst (prepare e x st (p, d)))"
    using assms draw unbound_retire [of "advance Replacing st p"] by (simp add: prepare_def Let_def split: option.split)
  show "unbound (fst (replaced e b st (p, d)))" using draw unbound_settle by (simp add: replaced_def Let_def)
  show "unbound (fst (admit e st (p, d)))"
    using assms unbound_settle by (simp add: admit_def Let_def split: option.split sum.split prod.split bool.split)
  show "unbound (fst (launch e st (p, d)))" using assms by (simp add: launch_def Let_def split: option.split sum.split)
  show "unbound (fst (transport e st (p, d)))"
    using assms unbound_poison by (simp add: transport_def Let_def split: option.split)
  show "unbound (fst (opened e c t st (p, d)))" using assms by (simp add: opened_def Let_def split: option.split)
  show "unbound (fst (turn_started e t st (p, d)))"
    using assms by (simp add: turn_started_def Let_def split: option.split sum.split)
  show "unbound (fst (failed e b st (p, d)))"
    using assms unbound_settle by (simp add: failed_def Let_def split: option.split sum.split)
qed

text \<open>A failure is handled in every phase, the last one included.\<close>

lemma wire_failed: "wire_step p (fst (failed e b st (p, d)))"
  using unbound_settle by (simp add: failed_def Let_def wire_step_unbound split: option.split sum.split)

lemma wire_stage:
  assumes "\<And>st. unbound p \<Longrightarrow> unbound (fst (f st (p, d)))" and "ph \<noteq> Bound"
  shows "wire_step p (fst (at_stage (\<lambda>x. x = ph) f (p, d)))"
proof (cases "dp_stage p")
  case (Some st)
  show ?thesis
  proof (cases "st_phase st = ph")
    case True
    then have "unbound p" using Some assms(2) by (simp add: unbound_def)
    then show ?thesis using Some True assms(1) by (simp add: at_stage_def wire_step_unbound)
  qed (use Some in \<open>simp add: at_stage_def wire_step_def\<close>)
qed (simp add: at_stage_def wire_step_def)

lemma wire_in_tick:
  assumes "steady (p, d) (f (p, d))"
  shows "wire_step p (fst (in_tick f (p, d)))"
proof (cases "free_tick p")
  case True
  then have "unbound (fst (f (p, d)))" using assms by (auto simp: steady_def calm_def free_tick_def unbound_def)
  then show ?thesis using True by (simp add: in_tick_def wire_step_unbound)
qed (simp add: in_tick_def wire_step_def)

lemma process_wire:
  assumes "ev \<noteq> BindRuntime" "ev \<noteq> Fetch" "ev \<noteq> NextCandidate" "op_ids_distinct d"
  shows "wire_step p (fst (process_act e ev (p, d)))"
proof -
  have calm: "wire_step p (fst s)" if "steady (p, d) s" "wire_or p (fst s)" for s
    using that wire_or_step [of p d "fst s" "snd s"] by simp
  note settled = calm [OF _ wire_or_intros(1)]
  show ?thesis
  proof (cases ev)
    case (Fail b) then show ?thesis
      using wire_failed [of p e b _ d] by (cases "dp_stage p") (auto simp: at_stage_def wire_step_def)
  next
    case (OwnedIdentity x) then show ?thesis
      by (cases "dp_stage p") (simp_all add: at_stage_def wire_step_def)
  next
    case SendTurn then show ?thesis
      by (cases "dp_stage p") (auto simp: at_stage_def send_turn_def wire_step_def)
  next
    case BeginTick then show ?thesis by (simp add: begin_tick_def wire_step_def)
  next
    case ReadEmergency then show ?thesis using wire_in_tick [of p d read_emergency] by (simp add: read_emergency_def)
  next
    case (AnswerEnd) then show ?thesis using calm [OF _ wire_answer_end] steady_answer_end assms(4) by simp
  next
    case (CancelEnd) then show ?thesis using calm [OF _ wire_cancel_end] steady_cancel_end assms(4) by simp
  next
    case (Notify f i g x n) then show ?thesis using settled [OF _ wire_onEvent] steady_onEvent assms(4) by simp
  next
    case (Request f i g x q) then show ?thesis using settled [OF _ wire_onRequest] steady_onRequest assms(4) by simp
  next
    case (PoisonMailbox r i g) then show ?thesis using settled [OF _ wire_poison] steady_poison assms(4) by simp
  next
    case (Classify i g x) then show ?thesis using settled [OF _ wire_quiet_steps(4)] steady_classify assms(4) by simp
  next
    case (RetireBegin i g b c x) then show ?thesis using settled [OF _ wire_retire_begin] steady_retire_begin assms(4) by simp
  next
    case (RetireSettle i g b) then show ?thesis using settled [OF _ wire_settle_retirement] steady_settle_retirement assms(4) by simp
  next
    case (Repair i) then show ?thesis using settled [OF _ wire_quiet_steps(1)] steady_repair assms(4) by simp
  next
    case (RepairCancel i) then show ?thesis using settled [OF _ wire_quiet_steps(2)] steady_repair_cancel assms(4) by simp
  next
    case RepairSettlements then show ?thesis using settled [OF _ wire_quiet_steps(3)] steady_repair_settlements assms(4) by simp
  next
    case (FenceRecovery f b x) then show ?thesis using settled [OF _ wire_fence_recovery] steady_fence_recovery assms(4) by simp
  next
    case StopTick then show ?thesis by (simp add: wire_step_unbound)
  next
    case LoseAuthority then show ?thesis by (simp add: wire_step_def)
  next
    case (ChangeCredential b v) then show ?thesis by (simp add: wire_step_def)
  qed (use assms in \<open>simp_all add: wire_stage unbound_steps wire_in_tick steady_steps\<close>)
qed

section \<open>The binding\<close>

lemma bound_ok_step:
  assumes "bound_ok p" "wire_step p q"
  shows "bound_ok q"
proof (cases "unbound q")
  case False
  then have q: "dp_stage q = dp_stage p" "wire_calm p q" using assms(2) by (simp_all add: wire_step_def)
  show ?thesis unfolding bound_ok_def
  proof (intro allI impI, elim conjE)
    fix st g r
    assume st: "dp_stage q = Some st" "st_phase st = Bound" "st_generation st = Some g"
      "runtime_at q (op_session (ca_operation (st_candidate st))) g = Some r"
    obtain r0 where r0: "runtime_at p (op_session (ca_operation (st_candidate st))) g = Some r0" "keeps_binding r0 r"
      using q(2) [unfolded wire_calm_def, rule_format, OF st(4)] by blast
    have "rm_retiring r0 \<or> bound_to (st_candidate st) r0" using assms(1) st(1-3) q(1) r0(1) by (simp add: bound_ok_def)
    then show "rm_retiring r \<or> bound_to (st_candidate st) r" using r0(2) by (auto simp: keeps_binding_def bound_to_def)
  qed
qed (auto simp: bound_ok_def unbound_def)

lemma bound_ok_unbound: "unbound p \<Longrightarrow> bound_ok p"
  by (auto simp: bound_ok_def unbound_def)

lemma bound_ok_bind:
  assumes "dp_stage p = Some st" "st_phase st = Binding"
  shows "bound_ok (fst (bind e st (p, d)))"
proof (cases "st_generation st")
  case (Some g)
  let ?i = "op_session (ca_operation (st_candidate st))" and ?c = "st_candidate st"
  have stage: "runtime_at (p\<lparr>dp_stage := x\<rparr>) i h = runtime_at p i h" for p x i h by (simp add: runtime_at_def)
  have "bound_to ?c (bind_runtime ?c r)" for r by (simp add: bound_to_def bind_runtime_def)
  moreover have "runtime_at (set_runtime ?i g (bind_runtime ?c) p) ?i g = map_option (bind_runtime ?c) (runtime_at p ?i g)"
    by (simp add: runtime_at_set bind_runtime_def)
  ultimately have "bound_ok (advance Bound st (set_runtime ?i g (bind_runtime ?c) p))"
    using Some by (auto simp: bound_ok_def advance_def stage)
  moreover have "bound_ok (set_runtime ?i g f p)" for f
    using assms by (intro bound_ok_unbound) (simp add: unbound_def set_runtime_def)
  ultimately show ?thesis using Some by (simp add: bind_def Let_def split: sum.split)
qed (use assms in \<open>simp add: bind_def Let_def bound_ok_unbound unbound_def\<close>)

lemma process_bound:
  assumes "bound_ok p" "process_act e ev (p, d) = (q, d')" "op_ids_distinct d"
  shows "bound_ok q"
proof -
  have "bound_ok (fst (process_act e ev (p, d)))"
  proof (cases "ev = BindRuntime \<or> ev = Fetch \<or> ev = NextCandidate")
    case True
    have "bound_ok (fst (at_stage (\<lambda>ph. ph = Binding) (bind e) (p, d)))"
      using assms(1) bound_ok_bind by (simp add: at_stage_def split: option.split)
    moreover have "bound_ok (fst (fetch e (p, d)))"
      using assms(1) by (auto simp: fetch_def free_tick_def intro: bound_ok_unbound simp: unbound_def)
    moreover have "bound_ok (next_candidate p)"
      using assms(1) by (cases "dp_stage p"; cases "dp_candidates p") (simp_all add: next_candidate_def bound_ok_def)
    ultimately show ?thesis using True by auto
  next
    case False
    then show ?thesis using bound_ok_step [OF assms(1)] process_wire assms(3) by blast
  qed
  then show ?thesis using assms(2) by simp
qed

section \<open>Candidates are rows\<close>

definition held :: "dispatcher \<Rightarrow> candidate set" where
  "held p = set (dp_candidates p) \<union> (case dp_stage p of None \<Rightarrow> {} | Some st \<Rightarrow> {st_candidate st})"

definition names_row :: "db \<Rightarrow> candidate \<Rightarrow> bool" where
  "names_row d c \<longleftrightarrow> op_kind (ca_operation c) = TurnOp \<and> (\<exists>x \<in> set (operations d). op_grows (ca_operation c) x)"

lemma names_row_grows: "ops_grow (operations d) (operations d') \<Longrightarrow> names_row d c \<Longrightarrow> names_row d' c"
  unfolding names_row_def using ops_grow_row op_grows_trans by metis

lemma held_moves: "hand_moves d' p q \<Longrightarrow> held q \<subseteq> held p"
  by (auto simp: hand_moves_def calm_def held_def)

lemma held_next: "held (next_candidate p) \<subseteq> held p"
  by (auto simp: next_candidate_def held_def split: option.splits list.splits)

lemma held_fetch:
  assumes "op_ids_distinct d" "c \<in> held (fst (fetch e (p, d)))"
  shows "c \<in> held p \<or> names_row d c"
proof (cases "c \<in> set (candidate_rows e d)")
  case True
  from candidate_rows_ids(2) [OF assms(1) True] have "names_row d c"
    unfolding names_row_def waiting_turn_def by (intro conjI bexI [of _ "ca_operation c"]) simp_all
  then show ?thesis ..
next
  case False
  then show ?thesis using assms(2) by (auto simp: fetch_def held_def split: if_splits)
qed

lemma process_names:
  assumes "op_ids_distinct d" "hand_ok d starts p" "\<forall>c \<in> held p. names_row d c" "process_act e ev (p, d) = (q, d')"
    and "ops_grow (operations d) (operations d')"
  shows "\<forall>c \<in> held q. names_row d' c"
proof -
  have "\<forall>c \<in> held q. names_row d c"
  proof (cases "ev = Fetch \<or> ev = NextCandidate")
    case True
    then show ?thesis using held_fetch [OF assms(1), of _ e p] held_next [of p] assms(3,4) by (elim disjE) (auto simp: prod_eq_iff)
  next
    case False
    have "turn_exists d (stage_turn st)" if "dp_stage p = Some st" for st
      using assms(2) that by (simp add: hand_ok_def work_def)
    then have "proper (p, d) (q, d')" using process_proper [OF assms(1), where p = p and e = e and ev = ev] False assms(4) by simp
    then have "held q \<subseteq> held p" using held_moves [of d' p q] by simp
    then show ?thesis using assms(3) by blast
  qed
  then show ?thesis using names_row_grows [OF assms(5)] by blast
qed

section \<open>The invariant\<close>

definition wire_ok :: "world \<Rightarrow> bool" where
  "wire_ok w \<longleftrightarrow> order_ok w \<and> (\<forall>p \<in> set (wd_dispatchers w). bound_ok p \<and> (\<forall>c \<in> held p. names_row (wd_db w) c))"

lemma turn_happen_wire:
  assumes "turn_happen x w = Inr w'" "wire_ok w"
  shows "wire_ok w'"
proof -
  obtain e y where x: "x = (e, y)" by force
  have ok: "order_ok w" using assms(2) by (simp add: wire_ok_def)
  note after = turn_happen_order [OF assms(1) ok]
  then have grow: "ops_grow (operations (wd_db w)) (operations (wd_db w'))" by (simp add: turn_moves_def)
  have old: "bound_ok p \<and> (\<forall>c \<in> held p. names_row (wd_db w') c)" if "p \<in> set (wd_dispatchers w)" for p
    using that assms(2) names_row_grows [OF grow] by (auto simp: wire_ok_def)
  have "bound_ok p \<and> (\<forall>c \<in> held p. names_row (wd_db w') c)" if "p \<in> set (wd_dispatchers w')" for p
  proof (cases y)
    case (Client ev)
    then show ?thesis using that old assms(1) x by (auto simp: turn_happen_def res_simps)
  next
    case (Boot absent version)
    then obtain g d where "wd_dispatchers w' = wd_dispatchers w @ [new_dispatcher g version]"
      using assms(1) x by (auto simp: turn_happen_def res_simps)
    moreover have "bound_ok (new_dispatcher g version)" "held (new_dispatcher g version) = {}"
      by (simp_all add: new_dispatcher_def bound_ok_def held_def)
    ultimately show ?thesis using that old by auto
  next
    case (Process g ev)
    then obtain p0 where p0: "dispatcher_of g w = Some p0"
      using assms(1) x by (cases "dispatcher_of g w") (simp_all add: turn_happen_def)
    obtain q d' where act: "process_act e ev (p0, wd_db w) = (q, d')" by force
    have w': "wd_db w' = d'" "wd_dispatchers w' = update_where (\<lambda>q. dp_generation q = g) (\<lambda>_. q) (wd_dispatchers w)"
      using assms(1) x Process p0 act by (auto simp: turn_happen_def)
    have mem: "p0 \<in> set (wd_dispatchers w)" using p0 by (auto simp: dispatcher_of_def dest: find_Some_in)
    then have "hand_ok (wd_db w) (wd_starts w) p0" "op_ids_distinct (wd_db w)" using ok by (simp_all add: order_ok_def)
    then have "\<forall>c \<in> held q. names_row (wd_db w') c"
      using process_names [OF _ _ _ act] grow mem assms(2) unfolding w'(1) wire_ok_def by blast
    moreover have "bound_ok q" using process_bound [OF _ act] mem assms(2) ok by (simp add: wire_ok_def order_ok_def)
    ultimately show ?thesis using that old unfolding w'(2) by (auto simp: update_where_def split: if_splits)
  qed
  then show ?thesis using after by (simp add: wire_ok_def)
qed

lemma wire_ok_start: "op_ids_distinct d \<Longrightarrow> wire_ok (start_world d)"
  using order_ok_start by (simp add: wire_ok_def start_world_def)

interpretation wire_life: invariant_ops turn_happen wire_ok
  by unfold_locales (rule turn_happen_wire)

end
