(* ===== verification/Turn_History.thy ===== *)
theory Turn_History
  imports Turn_Wire
begin

text \<open>
  What holds of every history of requests, start-ups and steps of supervisors: no turn is started
  twice, none goes back, a turn is started only under the authority that holds at that moment, and a
  supervisor that another has replaced starts nothing.
\<close>

section \<open>What holds of every history\<close>

text \<open>
  A concrete history: the turn \<open>t\<close> is accepted, a supervisor starts, dispatches it and is told that
  it runs; then a second supervisor starts and finds it running.
\<close>

definition live_db :: db where
  "live_db = demo_db\<lparr>capabilities := demo_caps, operations := []\<rparr>"

definition idle_inspection :: process_inspection where
  "idle_inspection = \<lparr> pi_status = InspectionKnown, pi_generation = 0, pi_processes = 0 \<rparr>"

definition demo_run :: "(env \<times> turn_event) list" where
  "demo_run = map (\<lambda>x. (demo_env, x)) [Client (AcceptTurn ''s'' demo_input ''b'' ''t'' ''m'' (\<lambda>_. Inr ())),
     Boot (\<lambda>_. True) ''c'', Process 1 BeginTick, Process 1 Fetch, Process 1 NextCandidate,
     Process 1 (Consider idle_inspection), Process 1 (Prepare idle_inspection), Process 1 Admit, Process 1 Launch,
     Process 1 Transport, Process 1 (Opened [] ''n''), Process 1 BindRuntime, Process 1 SendTurn,
     Process 1 (TurnStarted ''r''), Boot (\<lambda>_. True) ''c'', Process 1 SendTurn]"

definition demo_world :: "nat \<Rightarrow> world" where
  "demo_world n = serve turn_happen (take n demo_run) (start_world live_db)"

lemma live_db_ids: "distinct (map op_id (operations live_db))"
  by (simp add: live_db_def)

text \<open>C1: From any data base whose operations have distinct ids, whatever requests, start-ups and
  steps of any number of supervisors happen in any order, each turn is started on a runtime at most
  once.\<close>

theorem turn_started_once:
  assumes "distinct (map op_id (operations d))"
  shows "distinct (wd_starts (serve turn_happen evs (start_world d)))"
  using turn_life.serve_keeps [OF order_ok_start, of d evs] assms by (simp add: order_ok_def op_ids_distinct_def)

theorem turn_started_once_witness:
  "wd_starts (serve turn_happen demo_run (start_world live_db)) = [''t''] \<and>
   distinct (wd_starts (serve turn_happen demo_run (start_world live_db)))"
proof
  show "distinct (wd_starts (serve turn_happen demo_run (start_world live_db)))"
    by (rule turn_started_once [OF live_db_ids])
  show "wd_starts (serve turn_happen demo_run (start_world live_db)) = [''t'']" by code_simp
qed

text \<open>C3: In any history an operation that exists stays, with its kind, its conversation and its
  payload, and a turn only moves forward: queued, dispatching, running or waiting, settled. A settled
  turn is never queued or run again.\<close>

theorem turn_never_goes_back:
  assumes "distinct (map op_id (operations d))" and "x \<in> set (operations d)"
  shows "\<exists>y \<in> set (operations (wd_db (serve turn_happen evs (start_world d)))). op_id y = op_id x \<and> op_kind y = op_kind x \<and>
    op_session y = op_session x \<and> op_payload y = op_payload x \<and>
    (op_kind x = TurnOp \<longrightarrow> op_rank (op_state x) \<le> op_rank (op_state y))"
proof -
  have "turn_moves (start_world d) (serve turn_happen evs (start_world d))"
    using turn_life.serve_moves [OF order_ok_start] assms(1) by (simp add: op_ids_distinct_def)
  then have "ops_grow (operations d) (operations (wd_db (serve turn_happen evs (start_world d))))"
    by (simp add: turn_moves_def start_world_def)
  from ops_grow_row [OF this assms(2)] show ?thesis by (auto simp: op_grows_def)
qed

theorem turn_never_goes_back_witness:
  "\<exists>y \<in> set (operations (wd_db (serve turn_happen demo_run (start_world demo_db)))). op_id y = op_id demo_turn"
proof -
  have "distinct (map op_id (operations demo_db))" "demo_turn \<in> set (operations demo_db)" by (simp_all add: demo_defs)
  from turn_never_goes_back [OF this, of demo_run] show ?thesis by blast
qed

text \<open>C2: Whenever a step of any history adds a start, it starts one turn of the data base, never started before and claimed; the step is of the supervisor of the newest generation, which is alive and not changing its credential, while no emergency stop, no maintenance and no outstanding activation holds. The runtime it writes to is one of the supervisor's, in its map, neither poisoned nor being retired, bound to this turn and to its actor, and of the generation that the conversation's row names. The actor is, at that moment, authorised to execute this turn in the project of the runtime under the runtime's profile, the workspace is still the one that was verified, and the conversation has no unresolved uncertainty.\<close>

theorem start_only_under_authority:
  assumes "distinct (map op_id (operations d))" and "w = serve turn_happen evs (start_world d)"
    and "turn_happen (e, Process g ev) w = Inr w'" and "wd_starts w' \<noteq> wd_starts w"
  shows "g = meta_generation (wd_db w) \<and> \<not> meta_emergency (wd_db w) \<and> \<not> dep_activation_required (wd_db w) \<and> \<not> dep_maintenance (wd_db w) \<and>
    (\<exists>x \<in> set (operations (wd_db w)). \<exists>p r s.
      wd_starts w' = wd_starts w @ [op_id x] \<and> op_id x \<notin> set (wd_starts w) \<and>
      op_kind x = TurnOp \<and> 1 \<le> op_rank (op_state x) \<and>
      dispatcher_of g w = Some p \<and> dp_alive p \<and> \<not> dp_mutating p \<and>
      r \<in> set (dp_runtimes p) \<and> rm_current r \<and> \<not> rm_poisoned r \<and> \<not> rm_retiring r \<and>
      rm_session r = op_session x \<and> rm_operation r = op_id x \<and> rm_actor r = Some (op_actor x) \<and> rm_scope r = Execute \<and>
      succeeds (requireAuthority e (wd_db w) (op_actor x)
        (turn_need (pj_id (snd (rm_selected r))) (op_id x) Execute (Some (rm_profile r)))) \<and>
      session_find (op_session x) (wd_db w) = Some s \<and> se_generation s = rm_generation r \<and>
      \<not> unresolved (op_session x) (wd_db w) \<and> succeeds (verifyWorkspace e (rm_selected r)))"
proof -
  have wire: "wire_ok w" using wire_life.serve_keeps [OF wire_ok_start] assms(1,2) by (simp add: op_ids_distinct_def)
  then have ok: "order_ok w" by (simp add: wire_ok_def)
  obtain p where p: "dispatcher_of g w = Some p"
    using assms(3) by (cases "dispatcher_of g w") (simp_all add: turn_happen_def)
  then have mem: "p \<in> set (wd_dispatchers w)" "dp_generation p = g" by (auto simp: dispatcher_of_def find_Some_iff)
  obtain p' d' where act: "process_act e ev (p, wd_db w) = (p', d')" by force
  have starts: "wd_starts w' = wd_starts w @ process_sends e ev (p, wd_db w)"
    using assms(3) p act by (auto simp: turn_happen_def)
  then obtain i where i: "i \<in> set (process_sends e ev (p, wd_db w))"
    using assms(4) by (cases "process_sends e ev (p, wd_db w)") auto
  note new = process_starts [OF ok mem(1) act i]
  obtain st where st: "dp_stage p = Some st" "st_phase st = Bound" "sends e st p (wd_db w)" "i = stage_turn st"
    using i by (cases rule: process_sends_cases [of e ev p "wd_db w"]) auto
  let ?c = "st_candidate st"
  obtain h r where h: "st_generation st = Some h" "runtime_at p (op_session (ca_operation ?c)) h = Some r"
    "succeeds (dispatch_check e p r (wd_db w))"
    using st(3) by (auto simp: sends_def Option.bind_eq_Some_conv)
  then have check: "dispatch_check e p r (wd_db w) = Inr ()" by (cases "dispatch_check e p r (wd_db w)") simp_all
  note use = dispatch_check_Inr [OF check, unfolded usable_runtime_def]
  have r: "r \<in> set (dp_runtimes p)" "rm_session r = op_session (ca_operation ?c)"
    using h(2) by (auto simp: runtime_at_def find_Some_iff)
  have bound: "bound_to ?c r" using wire mem(1) st(1,2) h(1,2) use(3) by (auto simp: wire_ok_def bound_ok_def)
  have "names_row (wd_db w) ?c" using wire mem(1) st(1) by (auto simp: wire_ok_def held_def)
  then obtain x where x: "x \<in> set (operations (wd_db w))" "op_grows (ca_operation ?c) x" "op_kind (ca_operation ?c) = TurnOp"
    by (auto simp: names_row_def)
  then have fields: "op_id x = i" "op_kind x = TurnOp" "op_actor x = op_actor (ca_operation ?c)" "op_session x = op_session (ca_operation ?c)"
    by (simp_all add: op_grows_def st(4) stage_turn_def)
  obtain y where y: "y \<in> set (operations (wd_db w))" "op_id y = i" "1 \<le> op_rank (op_state y)"
    using new(2) by (auto simp: turn_claimed_def)
  have "distinct (map op_id (operations (wd_db w)))" using ok by (simp add: order_ok_def op_ids_distinct_def)
  then have "y = x" using unique_row [OF _ y(1) x(1)] y(2) fields(1) by simp
  then have rank: "1 \<le> op_rank (op_state x)" using y(3) by simp
  have need: "wire_need r = turn_need (pj_id (snd (rm_selected r))) (op_id x) Execute (Some (rm_profile r))"
    using bound fields(1) by (simp add: wire_need_def bound_to_def st(4) stage_turn_def)
  obtain s where s: "session_find (op_session x) (wd_db w) = Some s" "se_generation s = rm_generation r"
    and live: "succeeds (requireAuthority e (wd_db w) (op_actor x)
      (turn_need (pj_id (snd (rm_selected r))) (op_id x) Execute (Some (rm_profile r))))"
      "\<not> dep_activation_required (wd_db w)" "\<not> dep_maintenance (wd_db w)" "succeeds (verifyWorkspace e (rm_selected r))"
    using check bound r(2) fields(3,4) unfolding need [symmetric]
    by (auto simp: dispatch_check_def wire_authority_def bound_to_def res_simps split: if_splits)
  have same: "rm_session r = op_session x" "rm_operation r = op_id x" "rm_actor r = Some (op_actor x)" "rm_scope r = Execute"
    "wd_starts w' = wd_starts w @ [op_id x]"
    using bound r(2) fields starts new(5) by (simp_all add: bound_to_def st(4) stage_turn_def)
  show ?thesis
    apply (intro conjI bexI [of _ x] exI [of _ p] exI [of _ r] exI [of _ s])
    using use new s live same r(1) rank fields p mem(2) x(1) by simp_all
qed

text \<open>The first start of the history above.\<close>

theorem start_only_under_authority_witness:
  "\<exists>w'. turn_happen (demo_env, Process 1 SendTurn) (demo_world 12) = Inr w' \<and> wd_starts w' = [''t''] \<and>
    (\<exists>x \<in> set (operations (wd_db (demo_world 12))). op_id x = ''t'' \<and> \<not> unresolved (op_session x) (wd_db (demo_world 12)))"
proof -
  let ?w = "demo_world 12"
  have w: "?w = serve turn_happen (take 12 demo_run) (start_world live_db)" by (rule demo_world_def)
  have "case turn_happen (demo_env, Process 1 SendTurn) ?w of Inl _ \<Rightarrow> False | Inr u \<Rightarrow> wd_starts u = [''t'']" "wd_starts ?w = []"
    by code_simp+
  then obtain w' where w': "turn_happen (demo_env, Process 1 SendTurn) ?w = Inr w'" "wd_starts w' = [''t'']" "wd_starts ?w = []"
    by (cases "turn_happen (demo_env, Process 1 SendTurn) ?w") simp_all
  then have "wd_starts w' \<noteq> wd_starts ?w" by simp
  from start_only_under_authority [OF live_db_ids w w'(1) this] w' show ?thesis by auto
qed

text \<open>C12: Once a newer supervisor has started, no supervisor of an earlier generation starts a turn
  any more, whatever happens in between.\<close>

theorem superseded_supervisor_never_starts:
  assumes "distinct (map op_id (operations d))" and "w = serve turn_happen evs (start_world d)"
    and "g < meta_generation (wd_db w)" and "turn_happen (e, Process g ev) (serve turn_happen later w) = Inr w'"
  shows "wd_starts w' = wd_starts (serve turn_happen later w)"
proof -
  let ?v = "serve turn_happen later w"
  have "order_ok w" using turn_life.serve_keeps [OF order_ok_start] assms(1,2) by (simp add: op_ids_distinct_def)
  then have v: "order_ok ?v" "g < meta_generation (wd_db ?v)"
    using turn_life.serve_keeps turn_life.serve_moves [of w later] assms(3) by (auto simp: turn_moves_def)
  obtain p where p: "dispatcher_of g ?v = Some p"
    using assms(4) by (cases "dispatcher_of g ?v") (simp_all add: turn_happen_def)
  obtain p' d' where act: "process_act e ev (p, wd_db ?v) = (p', d')" by force
  have starts: "wd_starts w' = wd_starts ?v @ process_sends e ev (p, wd_db ?v)"
    using assms(4) p act by (auto simp: turn_happen_def)
  have "dp_generation p = g" using p by (auto simp: dispatcher_of_def find_Some_iff)
  then have "process_sends e ev (p, wd_db ?v) = []"
    using v(2) by (cases rule: process_sends_cases [of e ev p "wd_db ?v"]) simp_all
  then show ?thesis using starts by simp
qed

text \<open>The first supervisor holds the turn ready to be sent when the second starts.\<close>

theorem superseded_supervisor_never_starts_witness:
  "\<exists>w'. turn_happen (demo_env, Process 1 SendTurn) (serve turn_happen [] (serve turn_happen
      (take 12 demo_run @ [(demo_env, Boot (\<lambda>_. True) ''c'')]) (start_world live_db))) = Inr w' \<and> wd_starts w' = []"
proof -
  let ?evs = "take 12 demo_run @ [(demo_env, Boot (\<lambda>_. True) ''c'')]"
  let ?w = "serve turn_happen ?evs (start_world live_db)"
  have "meta_generation (wd_db ?w) = 2" "wd_starts ?w = []"
    "succeeds (turn_happen (demo_env, Process 1 SendTurn) (serve turn_happen [] ?w))" by code_simp+
  then show ?thesis using superseded_supervisor_never_starts [OF live_db_ids refl, of 1 ?evs demo_env SendTurn "[]"]
    by (auto simp: succeeds_def split: sum.splits)
qed

text \<open>What the start of a supervisor makes of an operation.\<close>

definition restarted :: "env \<Rightarrow> operation_row \<Rightarrow> operation_row" where
  "restarted e x = (if running_turn x then to_state e Uncertain x
     else if op_kind x \<noteq> TurnOp \<and> (dispatched_state (op_state x) \<or> op_state x = Uncertain) \<and>
       (\<not> personal_mode e \<or> op_state x \<noteq> Uncertain \<or> op_acknowledged_at x \<noteq> None)
     then to_state e Failed x else x)"

lemma restarted_rows:
  "running_turn x \<Longrightarrow> restarted e x = to_state e Uncertain x" "waiting_turn x \<Longrightarrow> restarted e x = x"
  "\<not> running_turn (restarted e x)"
  by (simp_all add: restarted_def waiting_turn_def running_turn_def dispatched_state_def)

lemma start_operations_rows: "operations (start_operations e d) = map (restarted e) (operations d)"
  by (auto simp: start_operations_def strand_turns_def settle_controls_def fail_fencing_def update_operations_def
      update_where_def expire_approvals_def restarted_def running_turn_def)

text \<open>A supervisor that starts takes a new generation and leaves nothing running: every turn that
  was being dispatched, running or waiting is uncertain, a queued turn stays queued as it is, no
  approval is open and no recovery is being fenced.\<close>

theorem start_strands_running_turns:
  assumes "start_generation e absent d = Inr (g, d')"
  shows "g = Suc (meta_generation d) \<and> meta_generation d' = g \<and>
    (\<forall>x \<in> set (operations d). running_turn x \<longrightarrow> to_state e Uncertain x \<in> set (operations d')) \<and>
    (\<forall>x \<in> set (operations d). waiting_turn x \<longrightarrow> x \<in> set (operations d')) \<and>
    (\<forall>y \<in> set (operations d'). \<not> running_turn y) \<and> (\<forall>a \<in> set (approvals d'). \<not> open_approval a) \<and>
    (\<forall>r \<in> set (session_recoveries d'). rc_state r \<noteq> RecFencing)"
proof -
  let ?d = "start_operations e d"
  have q: "operations d' = operations ?d" "approvals d' = approvals ?d" "session_recoveries d' = session_recoveries ?d"
    "meta_generation d' = meta_generation ?d" using start_generation_Inr(2) [OF assms] by (simp_all add: quiet_def)
  have mem: "restarted e x \<in> set (operations d')" if "x \<in> set (operations d)" for x
    using that unfolding q(1) start_operations_rows set_map by (rule imageI)
  have "\<forall>y \<in> set (operations d'). \<not> running_turn y" 
    unfolding q(1) start_operations_rows by (auto simp: restarted_rows)
  moreover have "\<forall>a \<in> set (approvals d'). \<not> open_approval a"
    unfolding q(2) start_operations_def expire_approvals_def by (auto simp: update_where_def open_approval_def)
  moreover have "\<forall>r \<in> set (session_recoveries d'). rc_state r \<noteq> RecFencing"
    unfolding q(3) start_operations_def by (auto simp: expire_approvals_def fail_fencing_def update_where_def)
  moreover have "\<forall>x \<in> set (operations d). running_turn x \<longrightarrow> to_state e Uncertain x \<in> set (operations d')"
    using mem restarted_rows(1) by metis
  moreover have "\<forall>x \<in> set (operations d). waiting_turn x \<longrightarrow> x \<in> set (operations d')"
    using mem restarted_rows(2) by metis
  moreover have "g = Suc (meta_generation d)" by (rule start_generation_Inr(1) [OF assms])
  moreover have "meta_generation ?d = Suc (meta_generation d)"
    by (simp add: start_operations_def strand_turns_def settle_controls_def fail_fencing_def update_operations_def expire_approvals_def)
  ultimately show ?thesis using q(4) by simp
qed

text \<open>The turn of the history above runs when the second supervisor starts.\<close>

theorem start_strands_running_turns_witness:
  "\<exists>g d'. start_generation demo_env (\<lambda>_. True) (wd_db (demo_world 14)) = Inr (g, d') \<and> g = 2 \<and>
    map op_state (operations (wd_db (demo_world 14))) = [Running] \<and> map op_state (operations d') = [Uncertain] \<and>
    (\<forall>y \<in> set (operations d'). \<not> running_turn y)"
proof -
  let ?d = "wd_db (demo_world 14)"
  have "case start_generation demo_env (\<lambda>_. True) ?d of Inl _ \<Rightarrow> False
      | Inr (g, d') \<Rightarrow> map op_state (operations d') = [Uncertain] \<and> g = 2" "map op_state (operations ?d) = [Running]"
    by code_simp+
  then obtain g d' where start: "start_generation demo_env (\<lambda>_. True) ?d = Inr (g, d')"
    and run: "g = 2" "map op_state (operations ?d) = [Running]" "map op_state (operations d') = [Uncertain]"
    by (auto split: sum.splits)
  have "\<forall>y \<in> set (operations d'). \<not> running_turn y" using start_strands_running_turns [OF start] by (elim conjE)
  then show ?thesis using start run by (intro exI conjI)
qed

end
