(* ===== verification/Turn_Output.thy ===== *)
theory Turn_Output
  imports Turn_Progress
begin

text \<open>
  The messages of a conversation: every statement that writes them (an accepted turn, the output of
  a running turn, its completion, what a recovery reads back) keeps the limits of a conversation, and
  a recovery never takes text away.
\<close>

section \<open>The size of a conversation\<close>

definition weight :: "(message_row \<Rightarrow> bool) \<Rightarrow> message_row list \<Rightarrow> nat" where
  "weight P ms = sum_list (map (length \<circ> ms_text) (filter P ms))"

lemma weight_simps [simp]:
  "weight P [] = 0" "weight P (m # ms) = (if P m then length (ms_text m) else 0) + weight P ms"
  "weight P (xs @ ys) = weight P xs + weight P ys"
  by (simp_all add: weight_def)

lemma weights:
  "history_bytes i d = weight (\<lambda>m. ms_session m = i) (messages d)"
  "tool_bytes i d = weight (\<lambda>m. ms_session m = i \<and> ms_role m = ToolRole) (messages d)"
  by (simp_all add: history_bytes_def tool_bytes_def weight_def)

lemma weight_update_none: "(\<And>m. m \<in> set ms \<Longrightarrow> P (f m) = P m \<and> (P m \<longrightarrow> ms_text (f m) = ms_text m)) \<Longrightarrow>
    weight P (update_where Q f ms) = weight P ms"
  by (induction ms) auto

text \<open>The text of the one row that a condition selects is replaced.\<close>

lemma weight_update_one:
  assumes "filter Q ms = [m]" and "\<And>x. P (f x) = P x"
  shows "int (weight P (update_where Q f ms)) =
    int (weight P ms) + (if P m then int (length (ms_text (f m))) - int (length (ms_text m)) else 0)"
  using assms(1)
proof (induction ms)
  case (Cons x xs)
  show ?case
  proof (cases "Q x")
    case True
    then have "x = m" "filter Q xs = []" using Cons.prems by simp_all
    then have "update_where Q f xs = xs" by (intro update_where_none) (simp add: filter_empty_conv)
    then show ?thesis using True \<open>x = m\<close> assms(2) by simp
  next
    case False
    then show ?thesis using Cons by simp
  qed
qed simp

definition item_key :: "message_row \<Rightarrow> uuid \<times> string option" where
  "item_key m = (ms_session m, ms_native_item m)"

definition native_rows :: "message_row list \<Rightarrow> message_row list" where
  "native_rows ms = filter (\<lambda>m. ms_native_item m \<noteq> None) ms"

definition items_unique :: "message_row list \<Rightarrow> bool" where
  "items_unique ms \<longleftrightarrow> distinct (map item_key (native_rows ms)) \<and> distinct (map ms_id ms)"

lemma filter_unique:
  assumes "distinct (map key xs)" and "x \<in> set xs"
  shows "filter (\<lambda>y. key y = key x) xs = [x]"
  using assms
proof (induction xs)
  case (Cons z zs)
  then have "\<forall>y \<in> set zs. key y \<noteq> key z" by (auto simp: image_iff)
  then show ?case using Cons by (auto simp: filter_empty_conv)
qed simp

lemma item_find_rows:
  assumes "items_unique (messages d)" and "item_find i it d = Some m"
  shows "filter (\<lambda>x. ms_session x = i \<and> ms_native_item x = Some it) (messages d) = [m]"
    and "filter (\<lambda>x. ms_id x = ms_id m) (messages d) = [m]" and "ms_session m = i" and "m \<in> set (messages d)"
proof -
  have m: "m \<in> set (messages d)" "ms_session m = i" "ms_native_item m = Some it"
    using find_Some_in assms(2) unfolding item_find_def by fastforce+
  have "filter (\<lambda>x. ms_session x = i \<and> ms_native_item x = Some it) (messages d) =
      filter (\<lambda>x. item_key x = item_key m) (native_rows (messages d))"
    unfolding native_rows_def filter_filter using m by (intro filter_cong) (auto simp: item_key_def)
  also have "\<dots> = [m]" using assms(1) m by (intro filter_unique) (auto simp: items_unique_def native_rows_def)
  finally show "filter (\<lambda>x. ms_session x = i \<and> ms_native_item x = Some it) (messages d) = [m]" .
  show "filter (\<lambda>x. ms_id x = ms_id m) (messages d) = [m]"
    using assms(1) m(1) by (intro filter_unique) (auto simp: items_unique_def)
  show "ms_session m = i" "m \<in> set (messages d)" by (fact m)+
qed

lemma items_unique_update:
  assumes "\<And>m. ms_id (f m) = ms_id m \<and> item_key (f m) = item_key m"
  shows "items_unique (update_where Q f ms) = items_unique ms"
proof -
  have "map item_key (native_rows (update_where Q f ms)) = map item_key (native_rows ms)"
    using assms by (induction ms) (auto simp: native_rows_def item_key_def)
  then show ?thesis using assms by (simp add: items_unique_def map_update_where_key)
qed

lemma items_unique_append:
  assumes "items_unique ms" and "ms_id m \<notin> ms_id ` set ms"
    and "ms_native_item m \<noteq> None \<Longrightarrow> \<forall>x \<in> set ms. item_key x \<noteq> item_key m"
  shows "items_unique (ms @ [m])"
  using assms by (auto simp: items_unique_def native_rows_def)

section \<open>The limits\<close>

text \<open>\<open>tools\<close> says whether the limit on the output of commands is part of the claim.\<close>

definition limits :: "bool \<Rightarrow> uuid \<Rightarrow> db \<Rightarrow> bool" where
  "limits tools i d \<longleftrightarrow> history_bytes i d \<le> 2097152 \<and> history_messages i d \<le> 2000 \<and> (tools \<longrightarrow> tool_bytes i d \<le> 262144)"

definition output_ok :: "bool \<Rightarrow> db \<Rightarrow> bool" where
  "output_ok tools d \<longleftrightarrow> items_unique (messages d) \<and> (\<forall>i. limits tools i d)"

lemma output_ok_messages: "messages d' = messages d \<Longrightarrow> output_ok tools d' = output_ok tools d"
  by (simp add: output_ok_def limits_def weights history_messages_def)

lemma output_ok_append:
  assumes "output_ok tools d" and "messages d' = messages d @ [m]" and "ms_id m \<notin> ms_id ` set (messages d)"
    and "ms_native_item m \<noteq> None \<Longrightarrow> \<forall>x \<in> set (messages d). item_key x \<noteq> item_key m"
    and "history_bytes (ms_session m) d + length (ms_text m) \<le> 2097152" and "history_messages (ms_session m) d < 2000"
    and "tools \<Longrightarrow> ms_role m = ToolRole \<Longrightarrow> tool_bytes (ms_session m) d + length (ms_text m) \<le> 262144"
  shows "output_ok tools d'"
  using assms items_unique_append [of "messages d" m]
  by (auto simp: output_ok_def limits_def weights history_messages_def)

lemma output_ok_update:
  assumes "output_ok tools d" and "messages d' = update_where Q f (messages d)" and "filter Q (messages d) = [m]"
    and "\<And>x. ms_id (f x) = ms_id x \<and> item_key (f x) = item_key x \<and> ms_role (f x) = ms_role x"
    and "int (history_bytes (ms_session m) d) + (int (length (ms_text (f m))) - int (length (ms_text m))) \<le> 2097152"
    and "tools \<Longrightarrow> ms_role m = ToolRole \<Longrightarrow>
      int (tool_bytes (ms_session m) d) + (int (length (ms_text (f m))) - int (length (ms_text m))) \<le> 262144"
  shows "output_ok tools d'"
  unfolding output_ok_def
proof (intro conjI allI)
  have key: "ms_session (f x) = ms_session x" for x using assms(4) [of x] by (simp add: item_key_def)
  show "items_unique (messages d')"
    using assms(1,2,4) by (simp add: output_ok_def items_unique_update)
  show "limits tools i d'" for i
  proof -
    have old: "limits tools i d" using assms(1) by (simp add: output_ok_def)
    have "history_messages i d' = history_messages i d"
      unfolding history_messages_def assms(2) by (intro count_where_update_eq) (simp add: key)
    moreover have "int (history_bytes i d') = int (history_bytes i d) +
        (if ms_session m = i then int (length (ms_text (f m))) - int (length (ms_text m)) else 0)"
      unfolding weights assms(2) by (rule weight_update_one [OF assms(3)]) (simp add: key)
    moreover have "int (tool_bytes i d') = int (tool_bytes i d) +
        (if ms_session m = i \<and> ms_role m = ToolRole then int (length (ms_text (f m))) - int (length (ms_text m)) else 0)"
      unfolding weights assms(2) by (rule weight_update_one [OF assms(3)]) (simp add: key assms(4))
    ultimately show ?thesis using old assms(5,6) by (auto simp: limits_def split: if_splits)
  qed
qed

section \<open>Output of a running turn\<close>

lemma quiet_messages: "quiet d d' \<Longrightarrow> messages d' = messages d"
  by (simp add: quiet_def)

lemma emit_messages: "emit e i ty data d = Inr d' \<Longrightarrow> messages d' = messages d"
  by (rule quiet_messages [OF quiet_emit])

lemma insert_message_Inr:
  "insert_message m d = Inr d' \<longleftrightarrow> ms_id m \<notin> ms_id ` set (messages d) \<and> d' = d\<lparr>messages := messages d @ [m]\<rparr>"
  by (auto simp: insert_message_def image_iff) metis+

lemma item_find_None: "item_find i it d = None \<Longrightarrow> x \<in> set (messages d) \<Longrightarrow> item_key x \<noteq> (i, Some it)"
  by (auto simp: item_find_def find_is_None item_key_def)

lemma output_ok_omit:
  assumes "omit_output e fresh i opid d = Inr d'" and "output_ok tools d"
  shows "output_ok tools d'"
proof (cases "history_bytes i d + length omitted_notice \<le> 2097152 \<and> history_messages i d < 2000 \<and>
    item_find i ''harbor-command-output-limit'' d = None")
  case True
  let ?m = "\<lparr> ms_id = fresh, ms_session = i, ms_operation = Some opid,
     ms_native_item = Some ''harbor-command-output-limit'', ms_role = SystemRole, ms_text = omitted_notice, ms_status = MsgComplete \<rparr>"
  obtain d1 where m: "insert_message ?m d = Inr d1" "emit e i ''message.completed'' [(''role'', JStr ''system'')] d1 = Inr d'"
    using assms(1) True by (auto simp: omit_output_def res_simps)
  have "output_ok tools d1"
    using m True item_find_None [of i "''harbor-command-output-limit''" d]
    by (intro output_ok_append [OF assms(2), of d1 ?m]) (simp_all add: insert_message_Inr item_key_def)
  then show ?thesis using output_ok_messages [OF emit_messages [OF m(2)]] by simp
qed (use assms in \<open>auto simp: omit_output_def\<close>)

lemma output_ok_put:
  assumes "put_message fresh i opid it role text st d = Inr d'" and "output_ok tools d"
    and "some_holds (\<lambda>m. ms_role m \<noteq> role) (item_find i it d) = False"
    and "int (history_bytes i d) + (int (length text) - (case item_find i it d of None \<Rightarrow> 0 | Some m \<Rightarrow> int (length (ms_text m)))) \<le> 2097152"
    and "tools \<Longrightarrow> role = ToolRole \<Longrightarrow> int (tool_bytes i d) +
      (int (length text) - (case item_find i it d of None \<Rightarrow> 0 | Some m \<Rightarrow> int (length (ms_text m)))) \<le> 262144"
    and "item_find i it d = None \<Longrightarrow> history_messages i d < 2000"
  shows "output_ok tools d'"
proof (cases "item_find i it d")
  case None
  let ?m = "\<lparr> ms_id = fresh, ms_session = i, ms_operation = Some opid, ms_native_item = Some it, ms_role = role,
     ms_text = text, ms_status = st \<rparr>"
  have "insert_message ?m d = Inr d'" using assms(1) None by (simp add: put_message_def)
  then show ?thesis using assms(4-6) None item_find_None [OF None]
    by (intro output_ok_append [OF assms(2), of d' ?m]) (simp_all add: insert_message_Inr item_key_def)
next
  case (Some m)
  let ?f = "\<lambda>m. m\<lparr>ms_text := text, ms_status := st\<rparr>"
  have rows: "filter (\<lambda>x. ms_session x = i \<and> ms_native_item x = Some it) (messages d) = [m]" "ms_session m = i"
    using item_find_rows [of d i it m] assms(2) Some by (simp_all add: output_ok_def)
  have "messages d' = update_where (\<lambda>x. ms_session x = i \<and> ms_native_item x = Some it) ?f (messages d)"
    using assms(1) Some by (auto simp: put_message_def)
  then show ?thesis using assms(3-5) Some rows
    by (intro output_ok_update [where f = ?f, OF assms(2) _ rows(1)]) (simp_all add: item_key_def)
qed

lemma output_ok_store:
  assumes "store_output e fresh i opid n it (item_find i it d) text d = Inr d'" and "output_ok tools d"
    and "some_holds (\<lambda>m. ms_role m \<noteq> output_role n) (item_find i it d) = False"
  shows "output_ok tools d'"
proof -
  let ?added = "int (length text) - (case item_find i it d of None \<Rightarrow> 0 | Some m \<Rightarrow> int (length (ms_text m)))"
  let ?st = "if nt_method n = ''item/completed'' then MsgComplete else MsgStreaming"
  show ?thesis
  proof (cases "output_role n = ToolRole \<and> (int (tool_bytes i d) + ?added > 262144 \<or>
      int (history_bytes i d) + ?added > 2097152 \<or> (item_find i it d = None \<and> history_messages i d \<ge> 1900))")
    case True
    then show ?thesis using assms(1,2) by (auto simp: store_output_def Let_def intro: output_ok_omit)
  next
    case False
    have fits: "int (history_bytes i d) + ?added \<le> 2097152 \<and> (item_find i it d = None \<longrightarrow> history_messages i d < 2000) \<and>
        (\<exists>d1. put_message fresh i opid it (output_role n) text ?st d = Inr d1 \<and> messages d' = messages d1)"
      using False assms(1) unfolding store_output_def Let_def
      by (auto simp: res_simps simp del: not_None_eq split: if_splits dest!: emit_messages)
    then obtain d1 where put: "put_message fresh i opid it (output_role n) text ?st d = Inr d1" "messages d' = messages d1"
      by blast
    have "output_ok tools d1" using False fits by (intro output_ok_put [OF put(1) assms(2,3)]) auto
    then show ?thesis using output_ok_messages [OF put(2)] by simp
  qed
qed

lemma output_ok_save:
  assumes "saveConversationOutput e fresh i opid n d = Inr d'" and "output_ok tools d"
  shows "output_ok tools d'"
proof (cases "d' = d")
  case False
  then obtain item t where "store_output e fresh i opid n item (item_find i item d) t d = Inr d'"
      "some_holds (\<lambda>m. ms_role m \<noteq> output_role n) (item_find i item d) = False"
    using assms(1) by (auto simp: saveConversationOutput_def Let_def res_simps split: if_splits option.splits)
  then show ?thesis using output_ok_store assms(2) by blast
qed (use assms in simp)

lemma output_ok_complete: "output_ok tools (complete_messages opid d) = output_ok tools d"
proof -
  let ?f = "\<lambda>m. m\<lparr>ms_status := MsgComplete\<rparr>"
  have "items_unique (messages (complete_messages opid d)) = items_unique (messages d)"
    by (simp add: complete_messages_def items_unique_update item_key_def)
  moreover have "limits tools i (complete_messages opid d) = limits tools i d" for i
    by (simp add: limits_def weights history_messages_def complete_messages_def weight_update_none count_where_update_eq)
  ultimately show ?thesis by (simp add: output_ok_def)
qed

section \<open>What a recovery reads back\<close>

text \<open>The tally counts what the conversation holds.\<close>

definition tally_ok :: "uuid \<Rightarrow> tally \<Rightarrow> db \<Rightarrow> bool" where
  "tally_ok i t d \<longleftrightarrow> output_ok False d \<and> ta_bytes t = int (history_bytes i d) \<and> ta_messages t = history_messages i d"

text \<open>How a recovery may change a message.\<close>

definition extends :: "message_row \<Rightarrow> message_row \<Rightarrow> bool" where
  "extends m m' \<longleftrightarrow> ms_id m' = ms_id m \<and> item_key m' = item_key m \<and> ms_operation m' = ms_operation m \<and>
     ms_role m' = ms_role m \<and> starts_with (ms_text m) (ms_text m') \<and> (ms_status m = MsgComplete \<longrightarrow> m' = m)"

lemma extends_refl [simp]: "extends m m"
  by (simp add: extends_def starts_with_def)

lemma extends_trans: "extends l m \<Longrightarrow> extends m n \<Longrightarrow> extends l n"
  by (auto simp: extends_def starts_with_def) (metis min.absorb1 nat_le_linear take_all take_take)

definition keeps_text :: "db \<Rightarrow> db \<Rightarrow> bool" where
  "keeps_text d d' \<longleftrightarrow> quiet (d\<lparr>messages := []\<rparr>) (d'\<lparr>messages := []\<rparr>) \<and>
     (\<forall>m \<in> set (messages d). \<exists>m' \<in> set (messages d'). extends m m')"

lemma keeps_text_refl [simp]: "keeps_text d d"
  by (auto simp: keeps_text_def intro: extends_refl)

lemma keeps_text_trans: "keeps_text d d' \<Longrightarrow> keeps_text d' d'' \<Longrightarrow> keeps_text d d''"
  unfolding keeps_text_def by (blast intro: quiet_trans extends_trans)

lemma extends_update:
  assumes "filter Q ms = [m]" and "extends m (f m)"
  shows "\<forall>x \<in> set ms. \<exists>y \<in> set (update_where Q f ms). extends x y"
proof
  fix x
  assume x: "x \<in> set ms"
  show "\<exists>y \<in> set (update_where Q f ms). extends x y"
  proof (cases "Q x")
    case True
    then have "x \<in> set (filter Q ms)" using x by simp
    then have "x = m" using assms(1) by simp
    then have "f m \<in> set (update_where Q f ms)" using x True by (auto simp: update_where_def)
    then show ?thesis using \<open>x = m\<close> assms(2) by blast
  next
    case False
    then have "x \<in> set (update_where Q f ms)" using x by (force simp: update_where_def)
    then show ?thesis using extends_refl by blast
  qed
qed

lemma recovered_update:
  assumes "tally_ok i t d" and "item_find i it d = Some m" and "ms_status m \<noteq> MsgComplete" and "starts_with (ms_text m) text"
    and "int (history_bytes i d) + (int (length text) - int (length (ms_text m))) \<le> 2097152"
    and "d' = d\<lparr>messages := update_where (\<lambda>y. ms_id y = ms_id m) (\<lambda>y. y\<lparr>ms_text := text, ms_status := st\<rparr>) (messages d)\<rparr>"
  shows "output_ok False d' \<and> keeps_text d d' \<and> history_messages i d' = history_messages i d \<and>
    int (history_bytes i d') = int (history_bytes i d) + (int (length text) - int (length (ms_text m)))"
proof -
  let ?f = "\<lambda>y. y\<lparr>ms_text := text, ms_status := st\<rparr>"
  have ok: "output_ok False d" using assms(1) by (simp add: tally_ok_def)
  have rows: "filter (\<lambda>y. ms_id y = ms_id m) (messages d) = [m]" "ms_session m = i"
    using item_find_rows(2,3) [OF _ assms(2)] ok by (simp_all add: output_ok_def)
  have ms: "messages d' = update_where (\<lambda>y. ms_id y = ms_id m) ?f (messages d)" using assms(6) by simp
  have "output_ok False d'"
    using assms(5) rows(2) by (intro output_ok_update [where f = ?f, OF ok ms rows(1)]) (simp_all add: item_key_def)
  moreover have "extends m (?f m)" using assms(3,4) by (simp add: extends_def item_key_def)
  then have "keeps_text d d'" using extends_update [where f = ?f, OF rows(1)] assms(6) by (simp add: keeps_text_def)
  moreover have "history_messages i d' = history_messages i d"
    unfolding history_messages_def ms by (intro count_where_update_eq) simp
  moreover have "int (history_bytes i d') = int (history_bytes i d) +
      (if ms_session m = i then int (length (ms_text (?f m))) - int (length (ms_text m)) else 0)"
    unfolding weights ms by (rule weight_update_one [OF rows(1)]) simp
  ultimately show ?thesis using rows(2) by simp
qed

lemma recovered_insert:
  assumes "tally_ok i t d" and "item_find i it d = None" and "insert_message m d = Inr d'"
    and "ms_session m = i" and "ms_native_item m = Some it" and "ms_role m \<noteq> ToolRole"
    and "int (history_bytes i d) + int (length (ms_text m)) \<le> 2097152" and "history_messages i d < 2000"
  shows "output_ok False d' \<and> keeps_text d d' \<and> history_messages i d' = Suc (history_messages i d) \<and>
    int (history_bytes i d') = int (history_bytes i d) + int (length (ms_text m))"
proof -
  have ins: "ms_id m \<notin> ms_id ` set (messages d)" "d' = d\<lparr>messages := messages d @ [m]\<rparr>"
    using assms(3) by (simp_all add: insert_message_Inr)
  have "output_ok False d'"
    using assms ins item_find_None [OF assms(2)]
    by (intro output_ok_append [of False d d' m]) (auto simp: tally_ok_def item_key_def)
  moreover have "keeps_text d d'" using ins by (auto simp: keeps_text_def intro: extends_refl)
  ultimately show ?thesis using ins assms(4) by (simp add: weights history_messages_def)
qed

lemma recovered_entry:
  assumes "store_entry fresh i x it text (item_find i it d) (t, d) = Inr (t', d')" and "tally_ok i t d"
    and "\<And>m. item_find i it d = Some m \<Longrightarrow> ms_status m \<noteq> MsgComplete \<and> starts_with (ms_text m) text"
  shows "tally_ok i t' d' \<and> keeps_text d d'"
proof -
  let ?extra = "int (length text) - (case item_find i it d of None \<Rightarrow> 0 | Some m \<Rightarrow> int (length (ms_text m)))"
  have count: "ta_bytes t = int (history_bytes i d)" "ta_messages t = history_messages i d"
    using assms(2) by (simp_all add: tally_ok_def)
  show ?thesis
  proof (cases "ta_bytes t + ?extra > 2097152 \<or> (item_find i it d = None \<and> ta_messages t \<ge> 2000)")
    case True
    then have "t' = t\<lparr>ta_truncated := True\<rparr>" "d' = d" using assms(1) by (simp_all add: store_entry_def Let_def)
    then show ?thesis using assms(2) by (simp add: tally_ok_def)
  next
    case False
    show ?thesis
    proof (cases "item_find i it d")
      case None
      let ?m = "\<lparr> ms_id = fresh (ta_items t), ms_session = i, ms_operation = entry_operation i x d,
         ms_native_item = Some it, ms_role = AssistantRole, ms_text = text, ms_status = entry_status x \<rparr>"
      have t': "insert_message ?m d = Inr d'" "ta_bytes t' = ta_bytes t + int (length text)" "ta_messages t' = ta_messages t + 1"
        using assms(1) False None by (auto simp: store_entry_def Let_def res_simps)
      have "output_ok False d' \<and> keeps_text d d' \<and> history_messages i d' = Suc (history_messages i d) \<and>
          int (history_bytes i d') = int (history_bytes i d) + int (length (ms_text ?m))"
        using False None count by (intro recovered_insert [OF assms(2) None t'(1)]) simp_all
      then show ?thesis using t' count by (simp add: tally_ok_def)
    next
      case (Some m)
      then have t': "ta_bytes t' = ta_bytes t + ?extra" "ta_messages t' = ta_messages t"
        "d' = d\<lparr>messages := update_where (\<lambda>y. ms_id y = ms_id m) (\<lambda>y. y\<lparr>ms_text := text, ms_status := entry_status x\<rparr>) (messages d)\<rparr>"
        using assms(1) False by (auto simp: store_entry_def Let_def)
      have "output_ok False d' \<and> keeps_text d d' \<and> history_messages i d' = history_messages i d \<and>
          int (history_bytes i d') = int (history_bytes i d) + (int (length text) - int (length (ms_text m)))"
        using False Some count assms(3) by (intro recovered_update [OF assms(2) Some _ _ _ t'(3)]) simp_all
      then show ?thesis using t' count Some by (simp add: tally_ok_def)
    qed
  qed
qed

lemma recovered_one:
  assumes "reconcile_entry fresh i x (t, d) = Inr (t', d')" and "tally_ok i t d"
  shows "tally_ok i t' d' \<and> keeps_text d d'"
proof (cases "d' = d \<and> ta_bytes t' = ta_bytes t \<and> ta_messages t' = ta_messages t")
  case True
  then show ?thesis using assms(2) by (simp add: tally_ok_def)
next
  case False
  then obtain it s where "store_entry fresh i x it s (item_find i it d) (t, d) = Inr (t', d')"
      "\<And>m. item_find i it d = Some m \<Longrightarrow> ms_status m \<noteq> MsgComplete \<and> starts_with (ms_text m) s"
    using assms(1) by (auto simp: reconcile_entry_def Let_def split: bool.splits option.splits if_splits)
  then show ?thesis using recovered_entry assms(2) by blast
qed

lemma recovered_all:
  assumes "reconcile_entries fresh i xs (t, d) = Inr (t', d')" and "tally_ok i t d"
  shows "tally_ok i t' d' \<and> keeps_text d d'"
  using assms
proof (induction xs arbitrary: t d)
  case (Cons x xs)
  let ?t = "t\<lparr>ta_items := ta_items t + 1\<rparr>"
  have t: "tally_ok i ?t d" using Cons.prems(2) by (simp add: tally_ok_def)
  show ?case
  proof (cases "ta_items ?t > 2000")
    case True
    then show ?thesis using Cons.prems by (auto simp: tally_ok_def)
  next
    case False
    then obtain t1 d1 where one: "reconcile_entry fresh i x (?t, d) = Inr (t1, d1)"
        "reconcile_entries fresh i xs (t1, d1) = Inr (t', d')"
      using Cons.prems(1) by (auto simp: res_simps)
    have "tally_ok i t1 d1 \<and> keeps_text d d1" by (rule recovered_one [OF one(1) t])
    then show ?thesis using Cons.IH [OF one(2)] keeps_text_trans by blast
  qed
qed simp

lemma reconcileNative_keeps:
  assumes "reconcileNative fresh i xs d = Inr (t, d')" and "output_ok False d"
  shows "output_ok False d' \<and> keeps_text d d'"
proof -
  have "tally_ok i t d' \<and> keeps_text d d'"
    using assms by (intro recovered_all [of fresh i xs]) (auto simp: reconcileNative_def tally_ok_def)
  then show ?thesis by (simp add: tally_ok_def)
qed

section \<open>A conversation over time\<close>

text \<open>The transactions that write messages.\<close>

datatype message_event =
    Said uuid turn_input string uuid uuid "db \<Rightarrow> unit res"
  | Produced uuid uuid uuid notification
  | Completed uuid
  | ReadBack "nat \<Rightarrow> uuid" uuid "native_entry list"

fun message_act :: "env \<Rightarrow> message_event \<Rightarrow> db \<Rightarrow> db res" where
  "message_act e (Said i b actor opid msgid auth) d =
     andThen (acceptConversationTurn e i b actor opid msgid auth d) (\<lambda>(_, d'). Inr d')"
| "message_act e (Produced fresh i opid n) d = saveConversationOutput e fresh i opid n d"
| "message_act e (Completed opid) d = Inr (complete_messages opid d)"
| "message_act e (ReadBack fresh i xs) d = andThen (reconcileNative fresh i xs d) (\<lambda>(_, d'). Inr d')"

lemma output_ok_accept:
  assumes "acceptConversationTurn e i b0 actor opid msgid auth d = Inr (row, d')" and "output_ok tools d"
  shows "output_ok tools d'"
proof -
  from assms(1) obtain b sel s as ds where b: "parse_turn e b0 = Inr b" "session_find i d = Some s"
    "turn_admission e b sel s d = Inr ()" "insert_operation row d = Inr (d\<lparr>operations := operations d @ [row]\<rparr>)"
    "associateAttachments e i opid (tu_attachments b) (tu_model b) (tu_draft_revision b)
       (d\<lparr>operations := operations d @ [row]\<rparr>) = Inr (d\<lparr>operations := operations d @ [row], attachments := as, conversation_drafts := ds\<rparr>)"
    "row = new_operation e opid i TurnOp (turn_payload b) actor"
    "session_frame d' = session_frame (d\<lparr>operations := operations d @ [row], attachments := as, conversation_drafts := ds,
       messages := messages d @ [accepted_message msgid i opid b]\<rparr>)"
    by (rule acceptConversationTurn_Inr) (auto simp: insert_operation_def new_operation_def)
  have "msgid \<notin> ms_id ` set (messages d)"
    using assms(1) b by (auto simp: acceptConversationTurn_def res_simps simp del: image_iff)
  moreover have "messages d' = messages d @ [accepted_message msgid i opid b]" using session_frameD [OF b(7)] by simp
  moreover have "se_id s = i" using b(2) by (auto dest: session_find_Some)
  ultimately show ?thesis using b(3)
    by (intro output_ok_append [OF assms(2)]) (auto simp: accepted_message_def turn_admission_Inr MESSAGE_BYTES_def)
qed

lemma message_act_keeps:
  assumes "message_act e ev d = Inr d'" and "output_ok False d"
  shows "output_ok False d'"
  using assms
  by (cases ev) (auto simp: res_simps output_ok_complete dest: output_ok_accept output_ok_save reconcileNative_keeps)

interpretation conversation: invariant_ops "message_act e" "output_ok False"
  by unfold_locales (rule message_act_keeps)

text \<open>A conversation that streams an answer, and one that runs a command.\<close>

definition demo_delta :: notification where
  "demo_delta = \<lparr> nt_method = ''item/agentMessage/delta'', nt_thread = ''n'', nt_turn = ''r'', nt_status = StatusOther,
     nt_item = None, nt_item_id = Some ''a'', nt_delta = Some ''hel'' \<rparr>"

definition demo_command :: notification where
  "demo_command = \<lparr> nt_method = ''item/completed'', nt_thread = ''n'', nt_turn = ''r'', nt_status = StatusOther,
     nt_item = Some \<lparr> it_id = Some ''c'', it_type = ''commandExecution'', it_text = None, it_command = ''ls'', it_cwd = ''/'',
       it_aggregated = Some ''out'', it_status = ''completed'', it_exit = Some ''0'' \<rparr>, nt_item_id = None, nt_delta = None \<rparr>"

definition demo_entry :: native_entry where
  "demo_entry = \<lparr> ne_turn = ''r'', ne_completed = True, ne_type = ''agentMessage'', ne_id = Some ''a'', ne_text = Some ''hello'' \<rparr>"

lemma demo_messages: "messages demo_db = []"
  by (simp add: demo_defs)

lemma demo_small: "items_unique (messages demo_db)" "history_bytes i demo_db = 0" "history_messages i demo_db = 0" "tool_bytes i demo_db = 0"
  by (simp_all add: demo_messages items_unique_def native_rows_def weights history_messages_def)

text \<open>C13: However accepted turns, output of runtimes, completed turns and what recoveries read back
  follow each other, no conversation holds more than 2 MiB of text or 2000 messages, and no two
  messages of it stand for the same item of its runtime.\<close>

theorem conversations_stay_bounded:
  assumes "items_unique (messages d)" and "\<forall>i. history_bytes i d \<le> 2097152 \<and> history_messages i d \<le> 2000"
  shows "items_unique (messages (serve (message_act e) evs d)) \<and>
    (\<forall>i. history_bytes i (serve (message_act e) evs d) \<le> 2097152 \<and> history_messages i (serve (message_act e) evs d) \<le> 2000)"
  using conversation.serve_keeps [of d e evs] assms by (simp add: output_ok_def limits_def)

theorem conversations_stay_bounded_witness:
  "map ms_text (messages (serve (message_act demo_env) [Produced ''x'' ''s'' ''t'' demo_delta, Produced ''y'' ''s'' ''t'' demo_delta,
      ReadBack (\<lambda>_. ''z'') ''s'' [demo_entry], Completed ''t''] demo_db)) = [''helhel''] \<and>
   items_unique (messages (serve (message_act demo_env) [Produced ''x'' ''s'' ''t'' demo_delta, Produced ''y'' ''s'' ''t'' demo_delta,
      ReadBack (\<lambda>_. ''z'') ''s'' [demo_entry], Completed ''t''] demo_db))"
proof
  show "items_unique (messages (serve (message_act demo_env) [Produced ''x'' ''s'' ''t'' demo_delta, Produced ''y'' ''s'' ''t'' demo_delta,
      ReadBack (\<lambda>_. ''z'') ''s'' [demo_entry], Completed ''t''] demo_db))"
    using conversations_stay_bounded [of demo_db demo_env "[Produced ''x'' ''s'' ''t'' demo_delta, Produced ''y'' ''s'' ''t'' demo_delta,
      ReadBack (\<lambda>_. ''z'') ''s'' [demo_entry], Completed ''t'']"] demo_small by simp
  show "map ms_text (messages (serve (message_act demo_env) [Produced ''x'' ''s'' ''t'' demo_delta, Produced ''y'' ''s'' ''t'' demo_delta,
      ReadBack (\<lambda>_. ''z'') ''s'' [demo_entry], Completed ''t''] demo_db)) = [''helhel'']" by code_simp
qed

text \<open>Output of commands never crowds out the answer: whatever a runtime reports, the output of
  commands kept in a conversation stays within 256 KiB, and what is refused leaves the state alone or
  one notice.\<close>

theorem command_output_bounded:
  assumes "saveConversationOutput e fresh i opid n d = Inr d'" and "items_unique (messages d)"
    and "\<forall>j. history_bytes j d \<le> 2097152 \<and> history_messages j d \<le> 2000 \<and> tool_bytes j d \<le> 262144"
  shows "tool_bytes i d' \<le> 262144 \<and> history_bytes i d' \<le> 2097152 \<and> history_messages i d' \<le> 2000"
  using output_ok_save [OF assms(1), of True] assms(2,3) by (simp add: output_ok_def limits_def)

theorem command_output_bounded_witness:
  "\<exists>d'. saveConversationOutput demo_env ''x'' ''s'' ''t'' demo_command demo_db = Inr d' \<and> tool_bytes ''s'' d' = 53 \<and>
     tool_bytes ''s'' d' \<le> 262144"
proof -
  have "case saveConversationOutput demo_env ''x'' ''s'' ''t'' demo_command demo_db of Inl _ \<Rightarrow> False
      | Inr d' \<Rightarrow> tool_bytes ''s'' d' = 53" by code_simp
  then obtain d' where d': "saveConversationOutput demo_env ''x'' ''s'' ''t'' demo_command demo_db = Inr d'" "tool_bytes ''s'' d' = 53"
    by (auto split: sum.splits)
  have "tool_bytes ''s'' d' \<le> 262144" using command_output_bounded [OF d'(1)] demo_small by simp
  then show ?thesis using d' by blast
qed

text \<open>C15: What a recovery reads back never takes anything away: every message stays, with its role and
  its item, a complete one exactly as it is, any other with its text as a prefix of the new text; no
  turn, approval or recovery changes.\<close>

theorem recovery_keeps_text:
  assumes "reconcileNative fresh i xs d = Inr (t, d')" and "items_unique (messages d)"
    and "\<forall>j. history_bytes j d \<le> 2097152 \<and> history_messages j d \<le> 2000"
  shows "operations d' = operations d \<and> approvals d' = approvals d \<and> session_recoveries d' = session_recoveries d \<and>
    (\<forall>m \<in> set (messages d). \<exists>m' \<in> set (messages d'). ms_id m' = ms_id m \<and> ms_session m' = ms_session m \<and>
      ms_role m' = ms_role m \<and> starts_with (ms_text m) (ms_text m') \<and> (ms_status m = MsgComplete \<longrightarrow> m' = m))"
proof -
  have "keeps_text d d'" using reconcileNative_keeps [OF assms(1)] assms(2,3) by (simp add: output_ok_def limits_def)
  then show ?thesis by (fastforce simp: keeps_text_def quiet_def extends_def item_key_def)
qed

text \<open>The answer was cut off after three letters; the runtime has all of it.\<close>

theorem recovery_keeps_text_witness:
  "\<exists>d t d'. saveConversationOutput demo_env ''x'' ''s'' ''t'' demo_delta demo_db = Inr d \<and> map ms_text (messages d) = [''hel''] \<and>
     reconcileNative (\<lambda>_. ''z'') ''s'' [demo_entry] d = Inr (t, d') \<and> map ms_text (messages d') = [''hello''] \<and>
     operations d' = operations d"
proof -
  have "case saveConversationOutput demo_env ''x'' ''s'' ''t'' demo_delta demo_db of Inl _ \<Rightarrow> False
      | Inr d \<Rightarrow> map ms_text (messages d) = [''hel''] \<and> (case reconcileNative (\<lambda>_. ''z'') ''s'' [demo_entry] d of Inl _ \<Rightarrow> False
        | Inr (t, d') \<Rightarrow> map ms_text (messages d') = [''hello''])" by code_simp
  then obtain d t d' where d: "saveConversationOutput demo_env ''x'' ''s'' ''t'' demo_delta demo_db = Inr d"
      "map ms_text (messages d) = [''hel'']"
    and d': "reconcileNative (\<lambda>_. ''z'') ''s'' [demo_entry] d = Inr (t, d')" "map ms_text (messages d') = [''hello'']"
    by (auto split: sum.splits)
  have "output_ok False d" using output_ok_save [OF d(1), of False] demo_small by (simp add: output_ok_def limits_def)
  then have "operations d' = operations d" using recovery_keeps_text [OF d'(1)] by (simp add: output_ok_def limits_def)
  then show ?thesis using d d' by (intro exI conjI)
qed

end
