(* ===== verification/Recovery_Safety.thy ===== *)
theory Recovery_Safety
  imports Turn_Output Turn_Order
begin

text \<open>
  The life of a recovery. Its row goes through the abstract machine \<open>rc_step\<close>; every transaction that
  touches the table refines it, never opens a second recovery of a conversation, and never leaves
  \<open>RecConsumed\<close>, so a recovery is continued at most once.
\<close>

section \<open>The abstract machine\<close>

inductive rc_step :: "recovery_row \<Rightarrow> recovery_row \<Rightarrow> bool" where
  retry: "rc_state r = RecFailed \<Longrightarrow> rc_attempts r < 3 \<Longrightarrow> rc_step r
    (r\<lparr>rc_state := RecQueued, rc_attempts := Suc (rc_attempts r), rc_actor := a, rc_updated_at := t\<rparr>)"
| fence: "rc_state r = RecQueued \<Longrightarrow> rc_step r (r\<lparr>rc_state := RecFencing, rc_updated_at := t\<rparr>)"
| fail: "rc_state r = RecQueued \<or> rc_state r = RecFencing \<Longrightarrow>
    rc_step r (r\<lparr>rc_state := RecFailed, rc_report := x, rc_updated_at := t\<rparr>)"
| ready: "rc_state r = RecFencing \<Longrightarrow>
    rc_step r (r\<lparr>rc_state := RecReady, rc_fence_generation := Some g, rc_report := x, rc_updated_at := t\<rparr>)"
| continue: "rc_state r = RecReady \<Longrightarrow>
    rc_step r (r\<lparr>rc_state := RecConsumed, rc_continued := Some i, rc_updated_at := t\<rparr>)"

inductive_cases rc_stepE: "rc_step r r'"

lemma rc_step_fixed: "rc_step r r' \<Longrightarrow> rc_id r' = rc_id r \<and> rc_session r' = rc_session r \<and> rc_uncertain r' = rc_uncertain r"
  by (auto elim: rc_stepE)

lemma rc_step_attempts: "rc_step r r' \<Longrightarrow> rc_attempts r \<le> 3 \<Longrightarrow> rc_attempts r \<le> rc_attempts r' \<and> rc_attempts r' \<le> 3"
  by (auto elim!: rc_stepE)

lemma rc_step_consumed: "rc_step r r' \<Longrightarrow> rc_state r \<noteq> RecConsumed"
  by (auto elim: rc_stepE)

lemma rc_step_open: "rc_step r r' \<Longrightarrow> open_recovery r' \<Longrightarrow> open_recovery r \<or> rc_state r = RecFailed"
  by (auto elim!: rc_stepE simp: open_recovery_def)

lemma consumed_final: "rc_step\<^sup>*\<^sup>* r r' \<Longrightarrow> rc_state r = RecConsumed \<Longrightarrow> r' = r"
  by (induction rule: converse_rtranclp_induct) (auto dest: rc_step_consumed)

section \<open>The table\<close>

definition open_of :: "uuid \<Rightarrow> recovery_row list \<Rightarrow> nat" where
  "open_of i rs = count_where (\<lambda>r. rc_session r = i \<and> open_recovery r) rs"

definition recoveries_ok :: "db \<Rightarrow> bool" where
  "recoveries_ok d \<longleftrightarrow> distinct (map rc_id (session_recoveries d)) \<and> (\<forall>i. open_of i (session_recoveries d) \<le> 1) \<and>
     (\<forall>r \<in> set (session_recoveries d). rc_attempts r \<le> 3)"

definition recoveries_step :: "db \<Rightarrow> db \<Rightarrow> bool" where
  "recoveries_step d d' \<longleftrightarrow> (\<forall>r \<in> set (session_recoveries d). \<exists>r' \<in> set (session_recoveries d'). rc_step\<^sup>*\<^sup>* r r')"

lemma recoveries_step_refl: "recoveries_step d d"
  by (auto simp: recoveries_step_def)

lemma recoveries_step_trans: "recoveries_step d d' \<Longrightarrow> recoveries_step d' d'' \<Longrightarrow> recoveries_step d d''"
  unfolding recoveries_step_def by (meson rtranclp_trans)

text \<open>What the transactions do to the table: nothing, an update along the machine that opens nothing,
  the retry of one row of a conversation without an open recovery, or a new row of such.\<close>

definition table_act :: "db \<Rightarrow> db \<Rightarrow> bool" where
  "table_act d d' \<longleftrightarrow> session_recoveries d' = session_recoveries d \<or>
     (\<exists>P f. session_recoveries d' = update_where P f (session_recoveries d) \<and>
        (\<forall>r \<in> set (session_recoveries d). P r \<longrightarrow> rc_step r (f r)) \<and>
        ((\<forall>r \<in> set (session_recoveries d). P r \<longrightarrow> open_recovery r) \<or>
         (\<exists>k i. (\<forall>r \<in> set (session_recoveries d). P r \<longrightarrow> rc_id r = k \<and> rc_session r = i) \<and>
            open_of i (session_recoveries d) = 0))) \<or>
     (\<exists>r. session_recoveries d' = session_recoveries d @ [r] \<and> rc_id r \<notin> rc_id ` set (session_recoveries d) \<and>
        rc_attempts r \<le> 3 \<and> open_of (rc_session r) (session_recoveries d) = 0)"

lemma open_of_update_open:
  assumes "\<forall>r \<in> set rs. P r \<longrightarrow> rc_session (f r) = rc_session r \<and> open_recovery r"
  shows "open_of i (update_where P f rs) \<le> open_of i rs"
  unfolding open_of_def using assms by (intro count_where_update_le) (auto split: if_splits)

lemma open_of_update_one:
  assumes "\<forall>r \<in> set rs. P r \<longrightarrow> rc_session (f r) = rc_session r \<and> rc_id r = k \<and> rc_session r = j"
    and "distinct (map rc_id rs)" and "open_of j rs = 0"
  shows "open_of i (update_where P f rs) \<le> max 1 (open_of i rs)"
proof (cases "i = j")
  case True
  have "count_where (\<lambda>r. rc_session r = j \<and> open_recovery r) (update_where P f rs) \<le> 1"
    using assms
  proof (induction rs)
    case (Cons r rs)
    have IH: "open_of j rs = 0" using Cons.prems(3) by (simp add: open_of_def split: if_splits)
    show ?case
    proof (cases "P r")
      case True
      then have "rc_id r = k" using Cons.prems(1) by simp
      then have "\<forall>x \<in> set rs. \<not> P x" using Cons.prems(1,2) by (auto simp: image_iff)
      then have "update_where P f rs = rs" by (intro update_where_none) simp
      then show ?thesis using IH by (simp add: open_of_def)
    next
      case False
      then show ?thesis using Cons.prems Cons.IH IH by (auto simp: open_of_def split: if_splits)
    qed
  qed simp
  then show ?thesis using True by (simp add: open_of_def)
next
  case False
  have "open_of i (update_where P f rs) \<le> open_of i rs"
    unfolding open_of_def using assms(1) False by (intro count_where_update_le) (auto split: if_splits)
  then show ?thesis by simp
qed

lemma update_keeps:
  assumes "session_recoveries d' = update_where P f (session_recoveries d)"
    and "\<forall>r \<in> set (session_recoveries d). P r \<longrightarrow> rc_step r (f r)"
    and "\<And>i. open_of i (session_recoveries d') \<le> max 1 (open_of i (session_recoveries d))" and "recoveries_ok d"
  shows "recoveries_ok d' \<and> recoveries_step d d'"
proof -
  let ?rs = "session_recoveries d"
  have ok: "distinct (map rc_id ?rs)" "\<And>i. open_of i ?rs \<le> 1" "\<forall>r \<in> set ?rs. rc_attempts r \<le> 3"
    using assms(4) by (simp_all add: recoveries_ok_def)
  have "map rc_id (session_recoveries d') = map rc_id ?rs"
    unfolding assms(1) using assms(2) rc_step_fixed by (intro map_update_where_key) blast
  moreover have "open_of i (session_recoveries d') \<le> 1" for i using assms(3) [of i] ok(2) [of i] by simp
  moreover have "\<forall>r \<in> set (session_recoveries d'). rc_attempts r \<le> 3"
    unfolding assms(1) set_update_where using ok(3) assms(2) rc_step_attempts by auto
  ultimately have "recoveries_ok d'" using ok(1) by (simp add: recoveries_ok_def)
  moreover have "recoveries_step d d'"
    unfolding recoveries_step_def
  proof
    fix r
    assume r: "r \<in> set ?rs"
    have "(if P r then f r else r) \<in> set (session_recoveries d')" unfolding assms(1) set_update_where using r by (rule imageI)
    moreover have "rc_step\<^sup>*\<^sup>* r (if P r then f r else r)" using assms(2) r by auto
    ultimately show "\<exists>r' \<in> set (session_recoveries d'). rc_step\<^sup>*\<^sup>* r r'" by blast
  qed
  ultimately show ?thesis ..
qed

lemma table_act_keeps:
  assumes "table_act d d'" and "recoveries_ok d"
  shows "recoveries_ok d' \<and> recoveries_step d d'"
  using assms(1) unfolding table_act_def
proof (elim disjE exE conjE)
  let ?rs = "session_recoveries d"
  assume "session_recoveries d' = ?rs"
  then show ?thesis using assms(2) by (auto simp: recoveries_ok_def recoveries_step_def)
next
  let ?rs = "session_recoveries d"
  fix r
  assume r: "session_recoveries d' = ?rs @ [r]" "rc_id r \<notin> rc_id ` set ?rs" "rc_attempts r \<le> 3" "open_of (rc_session r) ?rs = 0"
  then have "recoveries_ok d'" using assms(2) by (auto simp: recoveries_ok_def open_of_def)
  then show ?thesis using r(1) by (auto simp: recoveries_step_def)
next
  let ?rs = "session_recoveries d"
  fix P f
  assume upd: "session_recoveries d' = update_where P f ?rs" and step: "\<forall>r \<in> set ?rs. P r \<longrightarrow> rc_step r (f r)"
    and open': "\<forall>r \<in> set ?rs. P r \<longrightarrow> open_recovery r"
  have "open_of i (session_recoveries d') \<le> open_of i ?rs" for i
    unfolding upd using step open' rc_step_fixed by (intro open_of_update_open) blast
  then show ?thesis using update_keeps [OF upd step _ assms(2)] by (simp add: max.coboundedI2)
next
  let ?rs = "session_recoveries d"
  fix P f k j
  assume upd: "session_recoveries d' = update_where P f ?rs" and step: "\<forall>r \<in> set ?rs. P r \<longrightarrow> rc_step r (f r)"
    and one: "\<forall>r \<in> set ?rs. P r \<longrightarrow> rc_id r = k \<and> rc_session r = j" and none: "open_of j ?rs = 0"
  have "open_of i (session_recoveries d') \<le> max 1 (open_of i ?rs)" for i
    unfolding upd using step one rc_step_fixed assms(2) none by (intro open_of_update_one [of _ _ _ k j]) (auto simp: recoveries_ok_def)
  then show ?thesis by (rule update_keeps [OF upd step _ assms(2)])
qed

section \<open>The transactions\<close>

lemma quiet_recoveries: "quiet d d' \<Longrightarrow> session_recoveries d' = session_recoveries d"
  by (simp add: quiet_def)

lemma emit_recoveries: "emit e i ty x d = Inr d' \<Longrightarrow> session_recoveries d' = session_recoveries d"
  by (rule quiet_recoveries [OF quiet_emit])

lemma none_open: "\<not> exists_row (\<lambda>r. rc_session r = i \<and> open_recovery r) (session_recoveries d) \<Longrightarrow> open_of i (session_recoveries d) = 0"
  by (auto simp: open_of_def count_where_0_iff)

lemma act_open_update:
  assumes "session_recoveries d' = update_where P f (session_recoveries d)"
    and "\<And>r. r \<in> set (session_recoveries d) \<Longrightarrow> P r \<Longrightarrow> open_recovery r \<and> rc_step r (f r)"
  shows "table_act d d'"
  using assms unfolding table_act_def by blast

lemma act_retry:
  assumes "retry_recovery e actor i g rid attempt d = Inr (x, d')"
  shows "table_act d d'"
proof -
  obtain y ty where none: "\<not> exists_row (\<lambda>x. rc_session x = i \<and> open_recovery x) (session_recoveries d)"
    and d': "emit e i ty y (d\<lparr>session_recoveries := update_where (retryable i rid attempt g) (requeue e actor) (session_recoveries d)\<rparr>) = Inr d'"
    using assms by (auto simp: retry_recovery_def res_simps split: if_splits)
  have "session_recoveries d' = update_where (retryable i rid attempt g) (requeue e actor) (session_recoveries d)"
    using emit_recoveries [OF d'] by simp
  moreover have "\<forall>r \<in> set (session_recoveries d). retryable i rid attempt g r \<longrightarrow> rc_step r (requeue e actor r)"
    by (auto simp: retryable_def requeue_def intro: rc_step.retry)
  moreover have "\<forall>r \<in> set (session_recoveries d). retryable i rid attempt g r \<longrightarrow> rc_id r = rid \<and> rc_session r = i"
    by (simp add: retryable_def)
  ultimately show ?thesis using none_open [OF none] unfolding table_act_def by blast
qed

lemma act_first:
  assumes "first_recovery e actor fresh s d = Inr (x, d')"
  shows "table_act d d'"
proof -
  let ?r = "new_recovery e actor fresh (unresolved_ids (se_id s) d) s"
  obtain y ty where none: "\<not> exists_row (\<lambda>r. rc_session r = se_id s \<and> open_recovery r) (session_recoveries d)"
    and new: "\<not> exists_row (\<lambda>r. rc_id r = fresh) (session_recoveries d)"
    and d': "emit e (se_id s) ty y (d\<lparr>session_recoveries := session_recoveries d @ [?r]\<rparr>) = Inr d'"
    using assms by (auto simp: first_recovery_def Let_def res_simps split: if_splits)
  have "session_recoveries d' = session_recoveries d @ [?r]" using emit_recoveries [OF d'] by simp
  moreover have "rc_id ?r \<notin> rc_id ` set (session_recoveries d)" "rc_attempts ?r \<le> 3" "rc_session ?r = se_id s"
    using new by (auto simp: new_recovery_def)
  ultimately show ?thesis using none_open [OF none] unfolding table_act_def by metis
qed

lemma act_request: "request_recovery e actor i g retry fresh d = Inr (x, d') \<Longrightarrow> table_act d d'"
  by (auto simp: request_recovery_def res_simps split: if_splits option.splits intro: act_retry act_first)

lemma act_continue:
  assumes "continue_recovery e i rid g b actor opid msgid auth d = Inr (x, d')" and "distinct (map rc_id (session_recoveries d))"
  shows "table_act d d'" and "\<exists>r \<in> set (session_recoveries d). rc_id r = rid \<and> rc_state r = RecReady"
    and "\<exists>r \<in> set (session_recoveries d'). rc_id r = rid \<and> rc_state r = RecConsumed"
proof -
  obtain r where r: "find (\<lambda>r. rc_id r = rid \<and> rc_session r = i) (session_recoveries d) = Some r" "rc_state r = RecReady"
    and rest: "andThen (acceptConversationTurn e i b actor opid msgid auth (acknowledge e (unresolved_ids i d) d))
        (\<lambda>(x, d'). Inr (x, consume e rid (op_id x) d')) = Inr (x, d')"
    using assms(1) unfolding continue_recovery_def by (simp only: res_simps split: if_splits) auto
  obtain d1 where acc: "acceptConversationTurn e i b actor opid msgid auth (acknowledge e (unresolved_ids i d) d) = Inr (x, d1)"
    and d': "d' = consume e rid (op_id x) d1"
    using rest by (auto simp: res_simps)
  have mem: "r \<in> set (session_recoveries d)" "rc_id r = rid" using find_Some_in [OF r(1)] by simp_all
  have "session_recoveries d1 = session_recoveries d"
    using acc by (rule acceptConversationTurn_Inr) (drule session_frameD(3), simp add: acknowledge_def update_operations_def)
  then have upd: "session_recoveries d' = update_where (\<lambda>r. rc_id r = rid)
      (\<lambda>r. r\<lparr>rc_state := RecConsumed, rc_continued := Some (op_id x), rc_updated_at := now e\<rparr>) (session_recoveries d)"
    using d' by (simp add: consume_def)
  have "y = r" if "y \<in> set (session_recoveries d)" "rc_id y = rid" for y
    using distinct_keyD [OF assms(2)] that mem by metis
  then show "table_act d d'"
    using r(2) by (intro act_open_update [OF upd]) (auto simp: open_recovery_def intro: rc_step.continue)
  show "\<exists>r \<in> set (session_recoveries d). rc_id r = rid \<and> rc_state r = RecReady" using mem r(2) by blast
  show "\<exists>r \<in> set (session_recoveries d'). rc_id r = rid \<and> rc_state r = RecConsumed"
    unfolding upd set_update_where using mem by (intro bexI [OF _ imageI [OF mem(1)]]) simp
qed

lemma act_fail: "table_act d (fail_recovery e rid n d)"
  by (rule act_open_update [where P = "\<lambda>r. rc_id r = rid \<and> rc_attempts r = n \<and> rc_state r \<in> {RecQueued, RecFencing}"])
    (auto simp: fail_recovery_def open_recovery_def intro: rc_step.fail)

lemma act_admit: "table_act d (snd (admit_recovery e (p, d)))"
proof (cases "next_recovery d")
  case (Some n)
  show ?thesis
  proof (cases "lockedSession e p n d")
    case (Inl f)
    then show ?thesis using Some act_fail by (simp add: admit_recovery_def)
  next
    case (Inr s)
    show ?thesis
    proof (cases "exists_row (fenced n) (session_recoveries d)")
      case True
      then have "session_recoveries (snd (admit_recovery e (p, d))) = update_where (fenced n)
          (\<lambda>r. r\<lparr>rc_state := RecFencing, rc_updated_at := now e\<rparr>) (session_recoveries d)"
        using Some Inr by (simp add: admit_recovery_def)
      then show ?thesis by (rule act_open_update) (auto simp: fenced_def open_recovery_def intro: rc_step.fence)
    next
      case False
      then show ?thesis using Some Inr by (auto simp: admit_recovery_def table_act_def)
    qed
  qed
qed (simp add: admit_recovery_def table_act_def)

lemma recoveries_release_held: "release_held e s w d = Inr d' \<Longrightarrow> session_recoveries d' = session_recoveries d"
  by (auto simp: release_held_def releaseRecoveredWorkspace_def Let_def res_simps split: if_splits option.splits
      dest!: quiet_recoveries [OF quiet_update_workspaces])

lemma fence_commit_parts:
  assumes "fence_commit e p fresh b x n d = Inr d'"
  obtains s w d2 report d3 ty y where "lockedSession e p n d = Inr (s, w)" "b"
    "release_held e s w (d\<lparr>runtime_generation_seq := Suc (runtime_generation_seq d)\<rparr>) = Inr d2"
    "read_native fresh s x d2 = Inr (report, d3)"
    "emit e (se_id s) ty y (make_ready e (rc_id n) (Suc (runtime_generation_seq d)) report
       (update_session (se_id s) (\<lambda>x. x\<lparr>se_generation := Suc (runtime_generation_seq d)\<rparr>)
         (drop_queue e (se_id s) (expire_answers (se_id s) d3)))) = Inr d'"
  using assms that by (auto simp: fence_commit_def Let_def res_simps split: if_splits prod.splits)

lemma act_fence_commit:
  assumes "fence_commit e p fresh b x n d = Inr d'" and "distinct (map rc_id (session_recoveries d))"
  shows "table_act d d'"
proof -
  let ?g = "Suc (runtime_generation_seq d)"
  from assms(1) obtain s w d2 report d3 ty y where d2: "release_held e s w (d\<lparr>runtime_generation_seq := ?g\<rparr>) = Inr d2"
    and d3: "read_native fresh s x d2 = Inr (report, d3)"
    and d': "emit e (se_id s) ty y (make_ready e (rc_id n) ?g report (update_session (se_id s) (\<lambda>x. x\<lparr>se_generation := ?g\<rparr>)
           (drop_queue e (se_id s) (expire_answers (se_id s) d3)))) = Inr d'"
    by (rule fence_commit_parts)
  have "session_recoveries d2 = session_recoveries d"
    using recoveries_release_held [OF d2] by simp
  moreover have "session_recoveries d3 = session_recoveries d2"
    using talks_read_native [OF d3] by (simp add: talks_def quiet_def)
  ultimately have upd: "session_recoveries d' = update_where (\<lambda>r. rc_id r = rc_id n) (\<lambda>r. r\<lparr>rc_state := RecReady,
      rc_fence_generation := Some ?g, rc_report := report, rc_updated_at := now e\<rparr>) (session_recoveries d)"
    using emit_recoveries [OF d'] by (simp add: make_ready_def drop_queue_def expire_answers_def update_operations_def update_session_def)
  have "\<exists>r \<in> set (session_recoveries d). rc_id r = rc_id n \<and> rc_state r = RecFencing"
    using assms(1) by (auto simp: fence_commit_def res_simps split: if_splits prod.splits)
  then obtain r where r: "r \<in> set (session_recoveries d)" "rc_id r = rc_id n" "rc_state r = RecFencing" by blast
  have "y = r" if "y \<in> set (session_recoveries d)" "rc_id y = rc_id n" for y
    using distinct_keyD [OF assms(2)] that r by metis
  then show ?thesis using r(3) by (intro act_open_update [OF upd]) (auto simp: open_recovery_def intro: rc_step.ready)
qed

lemma emit_session_fixed:
  "emit e i ty x d = Inr d' \<Longrightarrow> map session_fixed (sessions d') = map session_fixed (sessions d)"
  by (auto simp: emit_def res_simps dest: event_session_fixed)

lemma uncertain_release_held:
  assumes "release_held e s w d = Inr d'"
  shows "\<forall>x \<in> set (operations d). op_state x = Uncertain \<longrightarrow> x \<in> set (operations d')"
proof (cases "operations d' = operations d")
  case False
  then obtain P f i where "update_workspaces P f (d\<lparr>operations := update_where (\<lambda>x. op_session x = i \<and> op_state x = Queued)
      (\<lambda>x. x\<lparr>op_state := Failed, op_updated_at := now e\<rparr>) (operations d)\<rparr>) = Inr d'"
    using assms by (auto simp: release_held_def releaseRecoveredWorkspace_def Let_def res_simps split: if_splits option.splits)
  then have "operations d' = update_where (\<lambda>x. op_session x = i \<and> op_state x = Queued)
      (\<lambda>x. x\<lparr>op_state := Failed, op_updated_at := now e\<rparr>) (operations d)"
    by (auto dest: quiet_update_workspaces simp: quiet_def)
  then show ?thesis by (force simp: update_where_def)
qed simp

section \<open>The events of recoveries\<close>

text \<open>
  Every transaction that writes the table, with the supervisor that runs it where there is one;
  \<open>Unrelated\<close> is any transaction that leaves the table alone.
\<close>

datatype recovery_event =
    Asked string uuid nat "(uuid \<times> nat) option" uuid
  | Continued uuid uuid nat turn_input string uuid uuid "db \<Rightarrow> unit res"
  | Admitted dispatcher
  | Fenced dispatcher "nat \<Rightarrow> uuid" bool native_read
  | Repaired dispatcher
  | Restarted "runtime_row \<Rightarrow> bool"
  | Unrelated db

fun recovery_act :: "env \<times> recovery_event \<Rightarrow> db \<Rightarrow> db res" where
  "recovery_act (e, Asked actor i g retry fresh) d = andThen (request_recovery e actor i g retry fresh d) (\<lambda>(_, d'). Inr d')"
| "recovery_act (e, Continued i rid g b actor opid msgid auth) d =
     andThen (continue_recovery e i rid g b actor opid msgid auth d) (\<lambda>(_, d'). Inr d')"
| "recovery_act (e, Admitted p) d = Inr (snd (admit_recovery e (p, d)))"
| "recovery_act (e, Fenced p fresh b x) d = Inr (snd (fence_recovery e fresh b x (p, d)))"
| "recovery_act (e, Repaired p) d = Inr (snd (repair_settlements e (p, d)))"
| "recovery_act (e, Restarted absent) d = andThen (start_generation e absent d) (\<lambda>(_, d'). Inr d')"
| "recovery_act (e, Unrelated d') d = (if session_recoveries d' = session_recoveries d then Inr d' else Inl (Crash ''not enabled''))"

definition recovery_moves :: "db \<Rightarrow> db \<Rightarrow> bool" where
  "recovery_moves d d' \<longleftrightarrow> (recoveries_ok d \<longrightarrow> recoveries_ok d' \<and> recoveries_step d d')"

lemma recovery_moves_refl: "recovery_moves d d"
  by (simp add: recovery_moves_def recoveries_step_refl)

lemma recovery_moves_trans: "recovery_moves d d' \<Longrightarrow> recovery_moves d' d'' \<Longrightarrow> recovery_moves d d''"
  by (auto simp: recovery_moves_def intro: recoveries_step_trans)

lemma act_moves: "(recoveries_ok d \<Longrightarrow> table_act d d') \<Longrightarrow> recovery_moves d d'"
  using table_act_keeps by (auto simp: recovery_moves_def)

lemma moves_repairs: "recovery_moves d (fold (\<lambda>(rid, n). fail_recovery e rid n) xs d)"
proof (induction xs arbitrary: d)
  case (Cons x xs)
  obtain rid n where x: "x = (rid, n)" by force
  show ?case using recovery_moves_trans [OF act_moves [OF act_fail] Cons.IH] by (simp add: x)
qed (simp add: recovery_moves_refl)

lemma moves_fence: "recovery_moves d (snd (fence_recovery e fresh b x (p, d)))"
proof (cases "dp_waiting p")
  case (RecoveryWork n)
  let ?p = "p\<lparr>dp_waiting := NoReply\<rparr>"
  show ?thesis
  proof (cases "fence_commit e ?p fresh b x n d")
    case (Inl f)
    then have "\<exists>q. fence_recovery e fresh b x (p, d) = repair_settlements e (q, d)"
      using RecoveryWork by (simp add: fence_recovery_def Let_def) blast
    then show ?thesis using moves_repairs by (auto simp: repair_settlements_def)
  next
    case (Inr d')
    then have "snd (fence_recovery e fresh b x (p, d)) = d'" using RecoveryWork by (simp add: fence_recovery_def Let_def)
    then show ?thesis using act_fence_commit [OF Inr] by (auto intro: act_moves simp: recoveries_ok_def)
  qed
qed (simp_all add: fence_recovery_def recovery_moves_refl)

lemma rc_step_restart:
  assumes "rc_state r = RecFencing"
  shows "rc_step r (r\<lparr>rc_state := RecFailed, rc_updated_at := t, rc_report := x\<rparr>)"
proof -
  have eq: "r\<lparr>rc_state := RecFailed, rc_updated_at := t, rc_report := x\<rparr> = r\<lparr>rc_state := RecFailed, rc_report := x, rc_updated_at := t\<rparr>"
    by (cases r) simp
  show ?thesis unfolding eq by (rule rc_step.fail) (simp add: assms)
qed

lemma moves_start:
  assumes "start_generation e absent d = Inr (g, d')"
  shows "recovery_moves d d'"
proof (rule act_moves)
  have "session_recoveries d' = update_where (\<lambda>r. rc_state r = RecFencing)
     (\<lambda>r. r\<lparr> rc_state := RecFailed, rc_updated_at := now e, rc_report := JObj [(''status'', JStr ''unavailable''),
         (''reason'', JStr ''Supervisor restarted during fencing; retry explicitly'')] \<rparr>) (session_recoveries d)"
    using quiet_recoveries [OF start_generation_Inr(2) [OF assms]]
    by (simp add: start_operations_def fail_fencing_def strand_turns_def settle_controls_def update_operations_def expire_approvals_def)
  then show "table_act d d'" by (rule act_open_update) (simp add: open_recovery_def rc_step_restart)
qed

lemma recovery_act_moves:
  assumes "recovery_act x d = Inr d'"
  shows "recovery_moves d d'"
proof (cases x)
  case (Pair e ev)
  show ?thesis
  proof (cases ev)
    case (Asked actor i g retry fresh)
    then show ?thesis using assms Pair act_moves [OF act_request] by (auto simp: res_simps)
  next
    case (Continued i rid g b actor opid msgid auth)
    then obtain y where "continue_recovery e i rid g b actor opid msgid auth d = Inr (y, d')"
      using assms Pair by (auto simp: res_simps)
    then show ?thesis using act_continue(1) by (auto intro!: act_moves simp: recoveries_ok_def)
  next
    case (Admitted p)
    then show ?thesis using assms Pair act_moves [OF act_admit] by auto
  next
    case (Fenced p fresh b x)
    then show ?thesis using assms Pair moves_fence by auto
  next
    case (Repaired p)
    then show ?thesis using assms Pair moves_repairs by (auto simp: repair_settlements_def)
  next
    case (Restarted absent)
    then show ?thesis using assms Pair moves_start by (auto simp: res_simps)
  next
    case (Unrelated d'')
    then show ?thesis using assms Pair by (auto intro!: act_moves simp: table_act_def split: if_splits)
  qed
qed

interpretation recovery_life: evolving_ops recovery_act recoveries_ok recoveries_step
  by unfold_locales (use recovery_act_moves recoveries_step_refl recoveries_step_trans in \<open>auto simp: recovery_moves_def\<close>)

section \<open>Properties\<close>

text \<open>
  A conversation whose turn ended uncertain: a recovery is asked for, admitted, fenced and continued
  by a new turn. A second recovery meanwhile and a second continuation are refused.
\<close>

definition lost_db :: db where
  "lost_db = demo_db\<lparr>capabilities := demo_caps, operations := [demo_turn\<lparr>op_state := Uncertain\<rparr>]\<rparr>"

definition demo_dispatcher :: dispatcher where
  "demo_dispatcher = new_dispatcher 0 ''c''"

definition asked_row :: recovery_row where
  "asked_row = new_recovery demo_env ''b'' ''r'' [''t''] demo_session"

definition recovery_run :: "(env \<times> recovery_event) list" where
  "recovery_run = map (\<lambda>x. (demo_env, x)) [Asked ''b'' ''s'' 1 None ''r'', Asked ''b'' ''s'' 1 None ''q'', Admitted demo_dispatcher,
     Fenced (demo_dispatcher\<lparr>dp_waiting := RecoveryWork asked_row\<rparr>) (\<lambda>_. ''z'') True ReadFailed,
     Continued ''s'' ''r'' 1 demo_input ''b'' ''u'' ''v'' (\<lambda>_. Inr ()), Continued ''s'' ''r'' 1 demo_input ''b'' ''w'' ''x'' (\<lambda>_. Inr ())]"

lemma lost_db_ok: "recoveries_ok lost_db" "session_recoveries lost_db = []"
  by (simp_all add: recoveries_ok_def open_of_def lost_db_def demo_defs)

text \<open>C14: However requests, retries, continuations, supervisors' passes and restarts follow each
  other, a conversation has at most one open recovery, and no recovery is attempted more than three
  times.\<close>

theorem one_open_recovery:
  assumes "distinct (map rc_id (session_recoveries d))" and "\<forall>i. open_of i (session_recoveries d) \<le> 1"
    and "\<forall>r \<in> set (session_recoveries d). rc_attempts r \<le> 3"
  shows "open_of i (session_recoveries (serve recovery_act evs d)) \<le> 1 \<and>
    (\<forall>r \<in> set (session_recoveries (serve recovery_act evs d)). rc_attempts r \<le> 3)"
  using recovery_life.serve_keeps [of d evs] assms by (simp add: recoveries_ok_def)

theorem one_open_recovery_witness:
  "open_of ''s'' (session_recoveries (serve recovery_act recovery_run lost_db)) \<le> 1 \<and>
   map rc_state (session_recoveries (serve recovery_act recovery_run lost_db)) = [RecConsumed]"
proof
  show "open_of ''s'' (session_recoveries (serve recovery_act recovery_run lost_db)) \<le> 1"
    using one_open_recovery [of lost_db "''s''" recovery_run] lost_db_ok by (simp add: open_of_def)
  show "map rc_state (session_recoveries (serve recovery_act recovery_run lost_db)) = [RecConsumed]" by code_simp
qed

text \<open>C4: Along any history every recovery moves along the abstract machine: queued, being fenced,
  ready, consumed, with a failure and at most two retries on the way.\<close>

theorem recovery_refines_machine:
  assumes "distinct (map rc_id (session_recoveries d))" and "\<forall>i. open_of i (session_recoveries d) \<le> 1"
    and "\<forall>r \<in> set (session_recoveries d). rc_attempts r \<le> 3" and "r \<in> set (session_recoveries d)"
  shows "\<exists>r' \<in> set (session_recoveries (serve recovery_act evs d)). rc_id r' = rc_id r \<and> rc_step\<^sup>*\<^sup>* r r'"
proof -
  obtain r' where r': "r' \<in> set (session_recoveries (serve recovery_act evs d))" "rc_step\<^sup>*\<^sup>* r r'"
    using recovery_life.serve_moves [of d evs] assms by (auto simp: recoveries_ok_def recoveries_step_def)
  have "rc_id r' = rc_id r" using r'(2) by (induction) (auto dest: rc_step_fixed)
  then show ?thesis using r' by blast
qed

theorem recovery_refines_machine_witness:
  "\<exists>r \<in> set (session_recoveries (serve recovery_act (take 1 recovery_run) lost_db)).
     \<exists>r' \<in> set (session_recoveries (serve recovery_act (drop 1 recovery_run) (serve recovery_act (take 1 recovery_run) lost_db))).
       rc_id r' = rc_id r \<and> rc_step\<^sup>*\<^sup>* r r'"
proof -
  let ?d = "serve recovery_act (take 1 recovery_run) lost_db"
  have ok: "recoveries_ok ?d" by (rule recovery_life.serve_keeps [OF lost_db_ok(1)])
  have "session_recoveries ?d \<noteq> []" by code_simp
  then obtain r where r: "r \<in> set (session_recoveries ?d)" by (cases "session_recoveries ?d") auto
  have "\<exists>r' \<in> set (session_recoveries (serve recovery_act (drop 1 recovery_run) ?d)). rc_id r' = rc_id r \<and> rc_step\<^sup>*\<^sup>* r r'"
    using ok r by (intro recovery_refines_machine) (simp_all add: recoveries_ok_def)
  then show ?thesis using r by blast
qed

text \<open>C5: A recovery is continued at most once: after a successful continuation no later request,
  in any history, continues the same recovery again.\<close>

theorem recovery_continued_once:
  assumes "recoveries_ok d" and "continue_recovery e i rid g b actor opid msgid auth d = Inr (x, d')"
  shows "\<not> succeeds (continue_recovery e2 i2 rid g2 b2 actor2 opid2 msgid2 auth2 (serve recovery_act evs d'))"
proof
  let ?v = "serve recovery_act evs d'"
  assume again: "succeeds (continue_recovery e2 i2 rid g2 b2 actor2 opid2 msgid2 auth2 ?v)"
  have first: "recovery_act (e, Continued i rid g b actor opid msgid auth) d = Inr d'" using assms(2) by (simp add: res_simps)
  have ok: "recoveries_ok d'" using recovery_act_moves [OF first] assms(1) by (simp add: recovery_moves_def)
  obtain r where r: "r \<in> set (session_recoveries d')" "rc_id r = rid" "rc_state r = RecConsumed"
    using act_continue(3) [OF assms(2)] assms(1) by (auto simp: recoveries_ok_def)
  then have mem: "r \<in> set (session_recoveries ?v)"
    using recovery_life.serve_moves [OF ok, of evs] consumed_final by (auto simp: recoveries_step_def)
  have v: "distinct (map rc_id (session_recoveries ?v))"
    using recovery_life.serve_keeps [OF ok, of evs] by (simp add: recoveries_ok_def)
  obtain y where "continue_recovery e2 i2 rid g2 b2 actor2 opid2 msgid2 auth2 ?v = Inr y" using again by (rule succeedsE)
  then obtain y1 y2 where "continue_recovery e2 i2 rid g2 b2 actor2 opid2 msgid2 auth2 ?v = Inr (y1, y2)" by (cases y) simp
  from act_continue(2) [OF this v] obtain q where "q \<in> set (session_recoveries ?v)" "rc_id q = rid" "rc_state q = RecReady" by blast
  then have "q = r" using distinct_keyD [OF v] mem r(2) by metis
  then show False using r(3) \<open>rc_state q = RecReady\<close> by simp
qed

theorem recovery_continued_once_witness:
  "succeeds (continue_recovery demo_env ''s'' ''r'' 1 demo_input ''b'' ''u'' ''v'' (\<lambda>_. Inr ()) (serve recovery_act (take 4 recovery_run) lost_db)) \<and>
   (\<exists>d'. \<not> succeeds (continue_recovery demo_env ''s'' ''r'' 1 demo_input ''b'' ''w'' ''x'' (\<lambda>_. Inr ()) (serve recovery_act [] d')))"
proof -
  let ?d = "serve recovery_act (take 4 recovery_run) lost_db"
  have ok: "recoveries_ok ?d" by (rule recovery_life.serve_keeps [OF lost_db_ok(1)])
  have s: "succeeds (continue_recovery demo_env ''s'' ''r'' 1 demo_input ''b'' ''u'' ''v'' (\<lambda>_. Inr ()) ?d)" by code_simp
  then obtain y where "continue_recovery demo_env ''s'' ''r'' 1 demo_input ''b'' ''u'' ''v'' (\<lambda>_. Inr ()) ?d = Inr y" by (rule succeedsE)
  then obtain x d' where "continue_recovery demo_env ''s'' ''r'' 1 demo_input ''b'' ''u'' ''v'' (\<lambda>_. Inr ()) ?d = Inr (x, d')"
    by (cases y) simp
  from recovery_continued_once [OF ok this] s show ?thesis by blast
qed

text \<open>When a supervisor has fenced a conversation off, its generation is one that no runtime
  before it had, nothing of it is queued, no approval of it is open, its recovery is ready under that
  generation, and every uncertain outcome is still uncertain: a recovery decides nothing by itself.\<close>

theorem fence_leaves_nothing_running:
  assumes "fence_commit e p fresh retired answer n d = Inr d'"
  shows "retired \<and> meta_generation d = dp_generation p \<and>
    (\<forall>s \<in> set (sessions d'). se_id s = rc_session n \<longrightarrow> se_generation s = Suc (runtime_generation_seq d)) \<and>
    (\<forall>x \<in> set (operations d'). op_session x = rc_session n \<longrightarrow> op_state x \<noteq> Queued) \<and>
    (\<forall>a \<in> set (approvals d'). ap_session a = rc_session n \<longrightarrow> \<not> open_approval a) \<and>
    (\<forall>r \<in> set (session_recoveries d'). rc_id r = rc_id n \<longrightarrow> rc_state r = RecReady \<and>
      rc_fence_generation r = Some (Suc (runtime_generation_seq d))) \<and>
    (\<forall>x \<in> set (operations d). op_state x = Uncertain \<longrightarrow> x \<in> set (operations d'))"
proof -
  let ?g = "Suc (runtime_generation_seq d)"
  from assms obtain s w d2 report d3 ty y where s: "lockedSession e p n d = Inr (s, w)" and retired
    and d2: "release_held e s w (d\<lparr>runtime_generation_seq := ?g\<rparr>) = Inr d2"
    and d3: "read_native fresh s answer d2 = Inr (report, d3)"
    and d': "emit e (se_id s) ty y (make_ready e (rc_id n) ?g report (update_session (se_id s) (\<lambda>x. x\<lparr>se_generation := ?g\<rparr>)
           (drop_queue e (se_id s) (expire_answers (se_id s) d3)))) = Inr d'"
    by (rule fence_commit_parts)
  have id: "se_id s = rc_session n" and meta: "meta_generation d = dp_generation p"
    using s by (auto simp: lockedSession_def recovery_authority_def res_simps split: option.splits if_splits dest: session_find_Some)
  have q: "operations d' = operations (drop_queue e (rc_session n) d3)" "approvals d' = approvals (expire_answers (rc_session n) d3)"
    "session_recoveries d' = session_recoveries (make_ready e (rc_id n) ?g report d3)"
    using quiet_emit [OF d'] id by (simp_all add: quiet_def make_ready_def drop_queue_def update_operations_def update_session_def expire_answers_def)
  have "operations d3 = operations d2" using talks_read_native [OF d3] by (simp add: talks_def quiet_def)
  moreover have "\<forall>x \<in> set (operations d). op_state x = Uncertain \<longrightarrow> x \<in> set (operations d2)"
    using uncertain_release_held [OF d2] by simp
  ultimately have "\<forall>x \<in> set (operations d). op_state x = Uncertain \<longrightarrow> x \<in> set (operations d')"
    unfolding q(1) by (force simp: drop_queue_def update_operations_def update_where_def)
  moreover have "\<forall>s \<in> set (sessions d'). se_id s = rc_session n \<longrightarrow> se_generation s = ?g"
  proof (intro ballI impI)
    fix z
    assume z: "z \<in> set (sessions d')" "se_id z = rc_session n"
    have "map session_fixed (sessions d') = map session_fixed (update_where (\<lambda>s. se_id s = rc_session n)
        (\<lambda>x. x\<lparr>se_generation := ?g\<rparr>) (sessions d3))"
      using emit_session_fixed [OF d'] id
      by (simp add: make_ready_def update_session_def drop_queue_def update_operations_def expire_answers_def)
    from arg_cong [OF this, of set] have "session_fixed ` set (sessions d') = session_fixed ` set (update_where
        (\<lambda>s. se_id s = rc_session n) (\<lambda>x. x\<lparr>se_generation := ?g\<rparr>) (sessions d3))" by (simp only: set_map)
    then have "session_fixed z \<in> session_fixed ` set (update_where (\<lambda>s. se_id s = rc_session n)
        (\<lambda>x. x\<lparr>se_generation := ?g\<rparr>) (sessions d3))" using z(1) by blast
    then obtain y where y: "y \<in> set (update_where (\<lambda>s. se_id s = rc_session n) (\<lambda>x. x\<lparr>se_generation := ?g\<rparr>) (sessions d3))"
      "session_fixed z = session_fixed y" by auto
    have "se_id z = se_id y" "se_generation z = se_generation y"
      using arg_cong [OF y(2), of se_id] arg_cong [OF y(2), of se_generation] by (simp_all add: session_fixed_def)
    moreover from y(1) obtain x where x: "y = (if se_id x = rc_session n then x\<lparr>se_generation := ?g\<rparr> else x)"
      unfolding set_update_where by blast
    ultimately show "se_generation z = ?g" using z(2) by (cases "se_id x = rc_session n") simp_all
  qed
  moreover have "\<forall>x \<in> set (operations d'). op_session x = rc_session n \<longrightarrow> op_state x \<noteq> Queued"
    unfolding q(1) by (auto simp: drop_queue_def update_operations_def update_where_def)
  moreover have "\<forall>a \<in> set (approvals d'). ap_session a = rc_session n \<longrightarrow> \<not> open_approval a"
    unfolding q(2) by (auto simp: expire_answers_def update_where_def open_approval_def)
  moreover have "\<forall>r \<in> set (session_recoveries d'). rc_id r = rc_id n \<longrightarrow> rc_state r = RecReady \<and> rc_fence_generation r = Some ?g"
    unfolding q(3) by (auto simp: make_ready_def update_where_def)
  ultimately show ?thesis using \<open>retired\<close> meta by blast
qed

theorem fence_leaves_nothing_running_witness:
  "\<exists>d'. fence_commit demo_env demo_dispatcher (\<lambda>_. ''z'') True ReadFailed asked_row (serve recovery_act (take 3 recovery_run) lost_db) = Inr d' \<and>
     map op_state (operations d') = [Uncertain] \<and> (\<forall>x \<in> set (operations d'). op_session x = rc_session asked_row \<longrightarrow> op_state x \<noteq> Queued)"
proof -
  let ?d = "serve recovery_act (take 3 recovery_run) lost_db"
  have "case fence_commit demo_env demo_dispatcher (\<lambda>_. ''z'') True ReadFailed asked_row ?d of Inl _ \<Rightarrow> False
      | Inr d' \<Rightarrow> map op_state (operations d') = [Uncertain]" by code_simp
  then obtain d' where d': "fence_commit demo_env demo_dispatcher (\<lambda>_. ''z'') True ReadFailed asked_row ?d = Inr d'"
      "map op_state (operations d') = [Uncertain]"
    by (auto split: sum.splits)
  have "\<forall>x \<in> set (operations d'). op_session x = rc_session asked_row \<longrightarrow> op_state x \<noteq> Queued"
    using fence_leaves_nothing_running [OF d'(1)] by (elim conjE)
  then show ?thesis using d' by (intro exI conjI)
qed

end
