(* ===== verification/Api_Requests.thy ===== *)
theory Api_Requests
  imports Conversation_Routes Schedule_Commands
begin

text \<open>
  Who may call which route of the API: the hook that authenticates a request and the allow-list of
  API tokens (\<^verbatim>\<open>apps/api/src/server.ts\<close>,
  \<^verbatim>\<open>apps/api/src/token-access.ts\<close>), and the routes that make and revoke
  tokens and end a browser session (\<^verbatim>\<open>apps/api/src/tokens.ts\<close>).
\<close>

section \<open>Requests\<close>

text \<open>
  A request after routing. \<open>hq_text\<close> is the JSON text of parameters and body, \<open>hq_id\<close> and
  \<open>hq_operation\<close> the parameters \<^verbatim>\<open>id\<close> and \<^verbatim>\<open>operationId\<close>.
  \<open>hq_excused\<close> says that the route adds the request to \<^verbatim>\<open>externalEffectsGranted\<close> or
  \<^verbatim>\<open>selfRevocations\<close> while it runs.
\<close>

record http_request =
  hq_authority :: authority
  hq_method :: string
  hq_route :: string
  hq_key :: "string option"
  hq_id :: uuid
  hq_operation :: uuid
  hq_body :: json
  hq_text :: string
  hq_excused :: bool

definition ends_with :: "string \<Rightarrow> string \<Rightarrow> bool" where
  "ends_with p s \<longleftrightarrow> starts_with (rev p) (rev s)"

definition occurs_in :: "string \<Rightarrow> string \<Rightarrow> bool" where
  "occurs_in p s \<longleftrightarrow> list_ex (\<lambda>n. starts_with p (drop n s)) [0..<Suc (length s)]"

section \<open>Authentication\<close>

text \<open>
  The hook for a request that is not one of the open routes. \<open>bearer\<close> is the header
  \<^verbatim>\<open>authorization\<close>, \<open>cookie\<close> the session cookie; \<open>vps\<close> the personal VPS profile.
\<close>

record headers =
  hd_bearer :: "string option"
  hd_cookie :: "string option"
  hd_origin :: "string option"
  hd_csrf :: "string option"

definition safe_method :: "string \<Rightarrow> bool" where
  "safe_method m \<longleftrightarrow> m \<in> {''GET'', ''HEAD'', ''OPTIONS''}"

definition authenticate :: "env \<Rightarrow> bool \<Rightarrow> string \<Rightarrow> string \<Rightarrow> headers \<Rightarrow> db \<Rightarrow> (authority \<times> db) res" where
  "authenticate e vps origin m h d =
     (case hd_bearer h of
        Some b \<Rightarrow> if vps then Inl (HarborError 403 ''PERSONAL_VPS_FEATURE_UNAVAILABLE'') else authenticateBearer e d b
      | None \<Rightarrow> (case hd_cookie h of
          None \<Rightarrow> Inl (HarborError 401 ''AUTH_REQUIRED'')
        | Some t \<Rightarrow> if t = [] then Inl (HarborError 401 ''AUTH_REQUIRED'')
            else andThen (authenticateBrowser e d (hash e t)) (\<lambda>(a, d1).
              if safe_method m then Inr (a, d1)
              else if hd_origin h \<noteq> Some origin then Inl (HarborError 403 ''ORIGIN_DENIED'')
              else if hd_csrf h \<noteq> Some (au_csrf a) then Inl (HarborError 403 ''CSRF_DENIED'')
              else Inr (a, d1))))"

section \<open>Routes of a token\<close>

text \<open>Routes that other modules have registered with a scope and a resource of their own.\<close>

record token_policy =
  tp_scope :: "db \<Rightarrow> http_request \<Rightarrow> scope res"
  tp_resource :: "db \<Rightarrow> http_request \<Rightarrow> (uuid \<times> profile option) res"

type_synonym policies = "(string \<times> token_policy) list"

definition upper_char :: "char \<Rightarrow> char" where
  "upper_char c = (if CHR ''a'' \<le> c \<and> c \<le> CHR ''z'' then char_of (of_char c - (32 :: nat)) else c)"

definition registerProgrammaticRoute :: "string \<Rightarrow> string \<Rightarrow> token_policy \<Rightarrow> policies \<Rightarrow> policies res" where
  "registerProgrammaticRoute m path policy ps = (let key = map upper_char m @ '' '' @ path in
     if key \<in> fst ` set ps then Inl (Crash ''Duplicate programmatic route policy'') else Inr (ps @ [(key, policy)]))"

text \<open>
  What a body names as project: nothing when the field is absent, null, false, zero or empty. A value
  that is no text is no project of any token, as the empty identifier is.
\<close>

fun named_project :: "json \<Rightarrow> uuid option" where
  "named_project JNull = None"
| "named_project (JBool b) = (if b then Some [] else None)"
| "named_project (JNum n) = (if n = 0 then None else Some [])"
| "named_project (JStr s) = (if s = [] then None else Some s)"
| "named_project _ = Some []"

definition named_profile :: "json \<Rightarrow> profile option" where
  "named_profile body = (case json_text ''permissionProfile'' body of None \<Rightarrow> None
     | Some t \<Rightarrow> if t = profile_text WorkspaceWrite then Some WorkspaceWrite
         else if t = profile_text ReadOnly then Some ReadOnly else None)"

text \<open>The routes every token may read, and those that name a conversation, a turn or an approval.\<close>

definition open_route :: "string \<Rightarrow> string \<Rightarrow> bool" where
  "open_route m r \<longleftrightarrow> m = ''GET'' \<and> r \<in> {''/api/v1/openapi.json'', ''/api/v1/capabilities'', ''/api/v1/projects'', ''/api/v1/sessions''}"

datatype lookup = BySession | ByOperation | ByApproval

definition resource_route :: "string \<Rightarrow> string \<Rightarrow> (scope \<times> lookup) option" where
  "resource_route m r =
     (if m = ''GET'' \<and> r \<in> {''/api/v1/sessions/:id/snapshot'', ''/api/v1/sessions/:id/events''} then Some (Read, BySession)
      else if m = ''POST'' \<and> r = ''/api/v1/sessions/:id/turns'' then Some (Execute, BySession)
      else if m = ''GET'' \<and> r = ''/api/v1/operations/:id'' then Some (Read, ByOperation)
      else if m = ''POST'' \<and> r = ''/api/v1/turns/:id/cancel'' then Some (CancelTurns, ByOperation)
      else if m = ''POST'' \<and> r = ''/api/v1/approvals/:id/answer'' then Some (Approve, ByApproval)
      else None)"

definition lookup_session :: "lookup \<Rightarrow> uuid \<Rightarrow> db \<Rightarrow> session_row option" where
  "lookup_session k i d = (case k of
     BySession \<Rightarrow> session_find i d
   | ByOperation \<Rightarrow> Option.bind (operation_find i d) (\<lambda>x. session_find (op_session x) d)
   | ByApproval \<Rightarrow> Option.bind (approval_find i d) (\<lambda>a. session_find (ap_session a) d))"

definition route_need :: "http_request \<Rightarrow> db \<Rightarrow> need res" where
  "route_need rq d = (let m = hq_method rq; r = hq_route rq in
     if open_route m r then Inr (no_need\<lparr>nd_scope := Some Read\<rparr>)
     else if m = ''POST'' \<and> r = ''/api/v1/sessions''
     then (case named_project (json_field ''projectId'' (hq_body rq)) of
         None \<Rightarrow> Inl (HarborError 400 ''INVALID_RESOURCE'')
       | Some p \<Rightarrow> Inr (no_need\<lparr> nd_project := Some p, nd_scope := Some Execute, nd_profile := named_profile (hq_body rq) \<rparr>))
     else (case resource_route m r of
         None \<Rightarrow> Inl (HarborError 403 ''TOKEN_ROUTE_DENIED'')
       | Some (sc, k) \<Rightarrow> andThen (first_row (HarborError 404 ''NOT_FOUND'') (lookup_session k (hq_id rq) d)) (\<lambda>s.
           Inr (no_need\<lparr> nd_project := Some (se_project s), nd_scope := Some sc,
             nd_profile := (if sc = Approve then Some (se_profile s)
               else if sc = Execute then named_profile (hq_body rq) else None) \<rparr>))))"

definition authorizeTokenRoute :: "env \<Rightarrow> policies \<Rightarrow> http_request \<Rightarrow> db \<Rightarrow> unit res" where
  "authorizeTokenRoute e ps rq d =
     (if au_kind (hq_authority rq) \<noteq> TokenAuthority then Inr ()
      else andThen (case map_of ps (hq_method rq @ '' '' @ hq_route rq) of
          Some policy \<Rightarrow> andThen (tp_resource policy d rq) (\<lambda>(p, prof).
            andThen (tp_scope policy d rq) (\<lambda>sc.
            Inr (no_need\<lparr> nd_project := (if p = [] then None else Some p), nd_scope := Some sc, nd_profile := prof \<rparr>)))
        | None \<Rightarrow> route_need rq d) (\<lambda>n.
      andThen (requireAuthority e d (au_hash (hq_authority rq)) n) (\<lambda>_. Inr ())))"

section \<open>Making and revoking tokens\<close>

record token_input =
  ti_name :: string
  ti_scopes :: "scope list"
  ti_projects :: "uuid list"
  ti_profile :: profile
  ti_days :: nat

fun scope_text :: "scope \<Rightarrow> string" where
  "scope_text Read = ''read''"
| "scope_text Execute = ''execute''"
| "scope_text Approve = ''approve''"
| "scope_text CancelTurns = ''cancel''"
| "scope_text SchedulesRead = ''schedules:read''"
| "scope_text SchedulesManage = ''schedules:manage''"
| "scope_text FilesRead = ''files:read''"
| "scope_text FilesWrite = ''files:write''"
| "scope_text GitRead = ''git:read''"
| "scope_text GitWrite = ''git:write''"
| "scope_text TerminalRead = ''terminal:read''"
| "scope_text TerminalControl = ''terminal:control''"
| "scope_text TerminalTerminate = ''terminal:terminate''"
| "scope_text PreviewsRead = ''previews:read''"
| "scope_text PreviewsManage = ''previews:manage''"

definition token_schema :: "env \<Rightarrow> token_input \<Rightarrow> bool" where
  "token_schema e b \<longleftrightarrow> trim (ti_name b) \<noteq> [] \<and> length (trim (ti_name b)) \<le> 80 \<and>
     1 \<le> length (ti_scopes b) \<and> length (ti_scopes b) \<le> 15 \<and>
     1 \<le> length (ti_projects b) \<and> length (ti_projects b) \<le> 20 \<and> list_all (valid_uuid e) (ti_projects b) \<and>
     1 \<le> ti_days b \<and> ti_days b \<le> 90"

definition new_token :: "env \<Rightarrow> token_input \<Rightarrow> uuid \<Rightarrow> string \<Rightarrow> token_row" where
  "new_token e b fresh secret = \<lparr> tk_id = fresh, tk_verifier = hash e secret, tk_pin = identity_pin e, tk_instance = instance_id e,
     tk_scopes = rev (remdups (rev (ti_scopes b))), tk_projects = rev (remdups (rev (ti_projects b))), tk_profile = ti_profile b,
     tk_expires_at = now e + int (ti_days b) * 86400000, tk_revoked = False, tk_last_used_at = None \<rparr>"

definition create_token :: "env \<Rightarrow> token_input \<Rightarrow> uuid \<Rightarrow> string \<Rightarrow> db \<Rightarrow> (token_row \<times> db) res" where
  "create_token e b fresh random d =
     (if \<not> token_schema e b then Inl (Crash ''ZodError'')
      else andThen (case permission_ceiling e of None \<Rightarrow> Inr () | Some c \<Rightarrow> authorizePermission (ti_profile b) c) (\<lambda>_.
      if length (api_tokens d) \<ge> 100 then Inl (HarborError 429 ''TOKEN_QUOTA'')
      else if \<not> list_all (\<lambda>i. i \<in> pj_id ` set (projects d)) (ti_projects b) then Inl (HarborError 400 ''INVALID_PROJECT'')
      else let t = new_token e b fresh (''hbr_'' @ random) in
        if exists_row (\<lambda>x. tk_id x = fresh \<or> tk_verifier x = tk_verifier t) (api_tokens d) then Inl (Crash ''api_tokens_key'')
        else Inr (t, d\<lparr> api_tokens := api_tokens d @ [t], audits := audits d @ [now e] \<rparr>)))"

definition revoke_token :: "env \<Rightarrow> uuid \<Rightarrow> db \<Rightarrow> (token_row \<times> db) res" where
  "revoke_token e i d =
     andThen (first_row (HarborError 404 ''NOT_FOUND'') (find (\<lambda>t. tk_id t = i) (api_tokens d))) (\<lambda>t.
       Inr (t\<lparr>tk_revoked := True\<rparr>, d\<lparr> api_tokens := update_where (\<lambda>x. tk_id x = i) (\<lambda>x. x\<lparr>tk_revoked := True\<rparr>) (api_tokens d),
         audits := audits d @ [now e] \<rparr>))"

definition logout :: "env \<Rightarrow> string \<Rightarrow> db \<Rightarrow> db res" where
  "logout e actor d = andThen (requireAuthority e d actor no_need) (\<lambda>_.
     Inr (d\<lparr>browser_sessions := update_where (\<lambda>b. br_hash b = actor) (\<lambda>b. b\<lparr>br_revoked := True\<rparr>) (browser_sessions d)\<rparr>))"

end
