(* ===== verification/Api_Command.thy ===== *)
theory Api_Command
  imports Api_Requests
begin

text \<open>
  The command that carries every writing route of the API: \<^verbatim>\<open>command\<close> of
  \<^verbatim>\<open>apps/api/src/server.ts\<close>, with its retained intents, its quotas and its control
  targets; and the routes it is used for, each as the function it runs inside the transaction.
\<close>

section \<open>Classes of routes\<close>

definition PREVIEW_STOP :: string where "PREVIEW_STOP = ''/api/v1/previews/:id/stop''"
definition EMERGENCY_STOP :: string where "EMERGENCY_STOP = ''/api/v1/security/emergency-stop''"
definition LOGOUT :: string where "LOGOUT = ''/api/v1/security/logout''"

text \<open>\<^verbatim>\<open>reservedFileControl\<close>, \<^verbatim>\<open>reserved\<close> and \<^verbatim>\<open>reserve\<close>.\<close>

definition file_control :: "string \<Rightarrow> string \<Rightarrow> bool" where
  "file_control suffix r \<longleftrightarrow> occurs_in ''/file-operations/'' r \<and> ends_with suffix r"

definition reserved_file_control :: "string \<Rightarrow> bool" where
  "reserved_file_control r \<longleftrightarrow> file_control ''/inspect'' r \<or> file_control ''/release'' r"

definition control_route :: "string \<Rightarrow> bool" where
  "control_route r \<longleftrightarrow> r = PREVIEW_STOP \<or> ends_with ''/background-stop'' r \<or> ends_with ''/cancel'' r \<or>
     ends_with ''/answer'' r \<or> ends_with ''/terminate'' r"

definition reserved_route :: "string \<Rightarrow> bool" where
  "reserved_route r \<longleftrightarrow> control_route r \<or> ends_with ''/recovery'' r \<or> ends_with ''/recovery/continue'' r \<or>
     r = EMERGENCY_STOP \<or> r = LOGOUT \<or> reserved_file_control r"

definition maintenance_route :: "string \<Rightarrow> bool" where
  "maintenance_route r \<longleftrightarrow> control_route r \<or> reserved_file_control r \<or> r = EMERGENCY_STOP \<or> r = LOGOUT"

section \<open>Control targets\<close>

text \<open>A number or text of the body in a template; the routes accept no other value in these fields.\<close>

fun json_label :: "json \<Rightarrow> string" where
  "json_label (JNum n) = (if n < 0 then ''-'' @ nat_text (nat (- n)) else nat_text (nat n))"
| "json_label (JStr s) = s"
| "json_label (JBool b) = (if b then ''true'' else ''false'')"
| "json_label _ = ''undefined''"

definition controlTarget :: "http_request \<Rightarrow> json \<Rightarrow> string option res" where
  "controlTarget rq result = (let r = hq_route rq; i = hq_id rq; field = (\<lambda>k. json_label (json_field k (hq_body rq))) in
     if ends_with ''/background-stop'' r then Inr (Some (''background-stop:'' @ i @ '':'' @ field ''generation''))
     else if r = PREVIEW_STOP then Inr (Some (''preview-stop:'' @ i @ '':'' @ field ''expectedGeneration''))
     else if file_control ''/inspect'' r then Inr (Some (''file-inspect:'' @ hq_operation rq))
     else if file_control ''/release'' r then Inr (Some (''file-release:'' @ hq_operation rq))
     else if r = LOGOUT then Inr (Some (''logout:'' @ au_hash (hq_authority rq)))
     else if ends_with ''/terminate'' r then Inr (Some (''terminal:'' @ i))
     else if ends_with ''/cancel'' r then Inr (Some (''cancel:'' @ i))
     else if ends_with ''/answer'' r then Inr (Some (''approval:'' @ i))
     else if ends_with ''/recovery/continue'' r then Inr (Some (''continue:'' @ field ''recoveryId''))
     else if ends_with ''/recovery'' r
     then (case json_text ''id'' (json_field ''recovery'' result) of
         None \<Rightarrow> Inl (Crash ''TypeError'') | Some x \<Rightarrow> Inr (Some (''recovery:'' @ x)))
     else Inr None)"

definition target_limit :: "string \<Rightarrow> nat" where
  "target_limit t = (if starts_with ''continue:'' t \<or> starts_with ''logout:'' t \<or> starts_with ''file-release:'' t then 1 else 3)"

section \<open>Retained intents\<close>

definition intent_find :: "string \<Rightarrow> string \<Rightarrow> string \<Rightarrow> db \<Rightarrow> intent_row option" where
  "intent_find actor r key d = find (\<lambda>i. in_actor i = actor \<and> in_route i = r \<and> in_key i = key) (intents d)"

definition pending_stop :: "string \<Rightarrow> string option \<Rightarrow> string \<Rightarrow> json \<Rightarrow> db \<Rightarrow> intent_row option" where
  "pending_stop actor target r result d =
     (if r = PREVIEW_STOP then (case json_text ''stopId'' result of
        None \<Rightarrow> None
      | Some s \<Rightarrow> if s = [] then None else find (\<lambda>i. in_actor i = actor \<and> in_control_target i = target \<and>
          json_text ''stopId'' (in_result i) = Some s) (intents d))
      else None)"

definition target_room :: "string \<Rightarrow> string option \<Rightarrow> db \<Rightarrow> bool" where
  "target_room actor target d \<longleftrightarrow> (case target of
     None \<Rightarrow> True | Some t \<Rightarrow> count_where (\<lambda>i. in_actor i = actor \<and> in_control_target i = target) (intents d) < target_limit t)"

definition insert_intent :: "intent_row \<Rightarrow> db \<Rightarrow> db res" where
  "insert_intent i d =
     (if intent_find (in_actor i) (in_route i) (in_key i) d \<noteq> None then Inl (Crash ''intents_pkey'')
      else Inr (d\<lparr>intents := intents d @ [i]\<rparr>))"

text \<open>From the result of the route on: the control's quota and the receipt.\<close>

definition record_intent :: "env \<Rightarrow> (json \<Rightarrow> nat) \<Rightarrow> http_request \<Rightarrow> string \<Rightarrow> string \<Rightarrow> json \<Rightarrow> db \<Rightarrow> (json \<times> db) res" where
  "record_intent e bytes rq actor key result d =
     andThen (controlTarget rq result) (\<lambda>target.
     case pending_stop actor target (hq_route rq) result d of
       Some p \<Rightarrow> if in_request_hash p \<noteq> hash e (hq_text rq) then Inl (HarborError 409 ''IDEMPOTENCY_CONFLICT'')
         else Inr (in_result p, d)
     | None \<Rightarrow>
         if \<not> target_room actor target d then Inl (HarborError 429 ''INTENT_QUOTA'')
         else if target \<noteq> None \<and> bytes result > 8192 then Inl (HarborError 500 ''CONTROL_RESULT_LIMIT'')
         else andThen (insert_intent \<lparr> in_actor = actor, in_route = hq_route rq, in_key = key,
             in_request_hash = hash e (hq_text rq), in_result = result, in_control_target = target, in_created_at = now e \<rparr> d) (\<lambda>d'.
           Inr (result, d')))"

definition token_room :: "http_request \<Rightarrow> string \<Rightarrow> db \<Rightarrow> bool" where
  "token_room rq actor d \<longleftrightarrow> au_kind (hq_authority rq) = TokenAuthority \<and> \<not> reserved_file_control (hq_route rq) \<longrightarrow>
     count_where (\<lambda>i. in_actor i = actor) (intents d) < (if control_route (hq_route rq) then 1100 else 1000)"

definition request_actor :: "env \<Rightarrow> http_request \<Rightarrow> string" where
  "request_actor e rq = intent_actor e (hq_authority rq) (au_hash (hq_authority rq))"

text \<open>The quotas a new key has to pass before the route runs.\<close>

definition admit_intent :: "env \<Rightarrow> http_request \<Rightarrow> string \<Rightarrow> db \<Rightarrow> unit res" where
  "admit_intent e rq actor d =
     andThen (if reserved_route (hq_route rq) then Inr () else admitOrdinaryIntent actor d) (\<lambda>_.
     if \<not> token_room rq actor d then Inl (HarborError 429 ''TOKEN_INTENT_QUOTA'')
     else andThen (requireAuthority e d (au_hash (hq_authority rq)) no_need) (\<lambda>_.
       deploymentAdmission d (maintenance_route (hq_route rq))))"

definition run_route ::
  "env \<Rightarrow> (json \<Rightarrow> nat) \<Rightarrow> http_request \<Rightarrow> (db \<Rightarrow> (json \<times> db) res) \<Rightarrow> string \<Rightarrow> string \<Rightarrow> db \<Rightarrow> (json \<times> db) res" where
  "run_route e bytes rq fn actor key d =
     andThen (fn d) (\<lambda>(result, d1).
     andThen (if hq_excused rq then Inr () else andThen (requireAuthority e d1 (au_hash (hq_authority rq)) no_need) (\<lambda>_. Inr ())) (\<lambda>_.
     if hq_route rq = EMERGENCY_STOP then Inr (result, d1) else record_intent e bytes rq actor key result d1))"

definition command :: "env \<Rightarrow> policies \<Rightarrow> (json \<Rightarrow> nat) \<Rightarrow> http_request \<Rightarrow> (db \<Rightarrow> (json \<times> db) res) \<Rightarrow> db \<Rightarrow> (json \<times> db) res" where
  "command e ps bytes rq fn d =
     (let actor = request_actor e rq; who = au_hash (hq_authority rq) in
      case hq_key rq of None \<Rightarrow> Inl (HarborError 400 ''INVALID_IDEMPOTENCY_KEY'')
      | Some key \<Rightarrow>
          andThen (requireAuthority e d who no_need) (\<lambda>_.
          andThen (authorizeTokenRoute e ps rq d) (\<lambda>_.
          case intent_find actor (hq_route rq) key d of
            Some old \<Rightarrow> if in_request_hash old \<noteq> hash e (hq_text rq) then Inl (HarborError 409 ''IDEMPOTENCY_CONFLICT'')
              else andThen (requireAuthority e d who no_need) (\<lambda>_. Inr (in_result old, d))
          | None \<Rightarrow>
              andThen (checkKey (JStr key) (now e)) (\<lambda>_.
              if hq_route rq = EMERGENCY_STOP \<and> meta_emergency d
              then andThen (requireAuthority e d who no_need) (\<lambda>_. Inr (JObj [(''stopped'', JBool True)], d))
              else andThen (admit_intent e rq actor d) (\<lambda>_. run_route e bytes rq fn actor key d)))))"

end
