(* ===== verification/Credentials.thy ===== *)
theory Credentials
  imports Api_Command
begin

text \<open>
  The store of the runtime's API key: \<^verbatim>\<open>CredentialStore\<close> of
  \<^verbatim>\<open>apps/supervisor/src/credentials.ts\<close>. The ciphers of \<^verbatim>\<open>node:crypto\<close>,
  the administrator's key file and the cleanup of the native runtimes
  (\<^verbatim>\<open>beforeChange\<close>) are what their calls answer.
\<close>

section \<open>The store\<close>

text \<open>
  \<open>ci_key\<close> is what \<^verbatim>\<open>key\<close> answers; \<open>ci_seal k aad iv x\<close> the ciphertext and its tag, \<open>ci_open\<close> the
  text they decrypt to when the tag is right; \<open>ci_mac\<close> the keyed digest.
\<close>

record cipher =
  ci_key :: "string res"
  ci_seal :: "string \<Rightarrow> string \<Rightarrow> string \<Rightarrow> string \<Rightarrow> string \<times> string"
  ci_open :: "string \<Rightarrow> string \<Rightarrow> string \<Rightarrow> string \<times> string \<Rightarrow> string option"
  ci_mac :: "string \<Rightarrow> string \<Rightarrow> string"

record sealed =
  sl_text :: string
  sl_iv :: string
  sl_tag :: string
  sl_updated_at :: time

datatype credential_action = SetKey string string | RemoveKey string

record credential_request =
  cq_actor :: string
  cq_action :: credential_action

text \<open>\<open>cs_active\<close> is \<^verbatim>\<open>mutating\<close>, with the request that set it.\<close>

record credential_state =
  cs_db :: db
  cs_sealed :: "sealed option"
  cs_active :: "credential_request option"

fun action_key :: "credential_action \<Rightarrow> string" where
  "action_key (SetKey k _) = k"
| "action_key (RemoveKey k) = k"

fun action_secret :: "credential_action \<Rightarrow> string" where
  "action_secret (SetKey _ x) = x"
| "action_secret (RemoveKey _) = ''remove''"

fun is_removal :: "credential_action \<Rightarrow> bool" where
  "is_removal (SetKey _ _) = False"
| "is_removal (RemoveKey _) = True"

definition action_route :: "credential_action \<Rightarrow> string" where
  "action_route a = ''/security/runtime-credentials/'' @ (case a of SetKey _ _ \<Rightarrow> ''set'' | RemoveKey _ \<Rightarrow> ''remove'')"

definition credential_schema :: "credential_request \<Rightarrow> bool" where
  "credential_schema r \<longleftrightarrow> length (cq_actor r) = 64 \<and> length (action_key (cq_action r)) \<le> 100 \<and>
     (case cq_action r of RemoveKey _ \<Rightarrow> True
      | SetKey _ x \<Rightarrow> 16 \<le> length x \<and> length x \<le> 4096 \<and> CHR 0x0A \<notin> set x \<and> CHR 0x0D \<notin> set x)"

section \<open>Reading\<close>

definition credential_aad :: "env \<Rightarrow> string" where
  "credential_aad e = instance_id e @ [CHR 0x00] @ owner_subject e"

definition read_credential :: "env \<Rightarrow> cipher \<Rightarrow> sealed option \<Rightarrow> string option res" where
  "read_credential e c row = (case row of None \<Rightarrow> Inr None
     | Some r \<Rightarrow> andThen (ci_key c) (\<lambda>k.
         case ci_open c k (credential_aad e) (sl_iv r) (sl_text r, sl_tag r) of
           None \<Rightarrow> Inl (Crash ''Unsupported state or unable to authenticate data'') | Some x \<Rightarrow> Inr (Some x)))"

definition browser_only :: "env \<Rightarrow> db \<Rightarrow> string \<Rightarrow> unit res" where
  "browser_only e d actor = andThen (requireAuthority e d actor no_need) (\<lambda>a.
     if au_kind a \<noteq> BrowserAuthority then Inl (HarborError 403 ''BROWSER_REQUIRED'') else Inr ())"

definition credential_id :: "env \<Rightarrow> sealed option \<Rightarrow> json" where
  "credential_id e row = (case row of None \<Rightarrow> JNull | Some r \<Rightarrow> JStr (take 16 (hash e (sl_text r))))"

definition credential_status :: "env \<Rightarrow> cipher \<Rightarrow> string \<Rightarrow> credential_state \<Rightarrow> json res" where
  "credential_status e c actor s = (if length actor \<noteq> 64 then Inl (Crash ''ZodError'')
     else andThen (browser_only e (cs_db s) actor) (\<lambda>_.
       Inr (JObj [(''configured'', JBool (cs_sealed s \<noteq> None)),
         (''available'', JBool (case ci_key c of Inl _ \<Rightarrow> False | Inr _ \<Rightarrow> True)),
         (''credentialId'', credential_id e (cs_sealed s))])))"

section \<open>Changing\<close>

definition credential_json :: "json \<Rightarrow> bool \<Rightarrow> json" where
  "credential_json i configured = JObj [(''credentialId'', i), (''configured'', JBool configured), (''available'', JBool True)]"

text \<open>The control target of a removal; without a stored key there is none.\<close>

definition removal_target :: "env \<Rightarrow> sealed \<Rightarrow> string" where
  "removal_target e r = ''credential-remove:'' @ hash e (sl_text r)"

definition admit_change :: "env \<Rightarrow> credential_action \<Rightarrow> sealed option \<Rightarrow> db \<Rightarrow> unit res" where
  "admit_change e a row d = (case a of
     SetKey _ _ \<Rightarrow> admitOrdinaryIntent (owner_subject e) d
   | RemoveKey _ \<Rightarrow> (case row of None \<Rightarrow> Inr ()
       | Some r \<Rightarrow> if exists_row (\<lambda>i. in_actor i = owner_subject e \<and> in_control_target i = Some (removal_target e r)) (intents d)
           then Inl (HarborError 409 ''CREDENTIAL_REMOVE_PENDING'') else Inr ()))"

definition new_sealed :: "env \<Rightarrow> cipher \<Rightarrow> string \<Rightarrow> string \<Rightarrow> credential_action \<Rightarrow> sealed option" where
  "new_sealed e c k iv a = (case a of
     SetKey _ x \<Rightarrow> (case ci_seal c k (credential_aad e) iv x of (t, g) \<Rightarrow>
       Some \<lparr> sl_text = t, sl_iv = iv, sl_tag = g, sl_updated_at = now e \<rparr>)
   | RemoveKey _ \<Rightarrow> None)"

definition change_intent :: "env \<Rightarrow> credential_action \<Rightarrow> string \<Rightarrow> sealed option \<Rightarrow> json \<Rightarrow> intent_row" where
  "change_intent e a mac row result = \<lparr> in_actor = owner_subject e, in_route = action_route a, in_key = action_key a,
     in_request_hash = mac, in_result = result,
     in_control_target = (case a of SetKey _ _ \<Rightarrow> None | RemoveKey _ \<Rightarrow> map_option (removal_target e) row),
     in_created_at = now e \<rparr>"

definition apply_change ::
  "env \<Rightarrow> cipher \<Rightarrow> string \<Rightarrow> string \<Rightarrow> credential_action \<Rightarrow> credential_state \<Rightarrow> (json \<times> credential_state) res" where
  "apply_change e c k iv a s =
     (let row = new_sealed e c k iv a; result = credential_json (credential_id e row) (row \<noteq> None)
      in andThen (insert_intent (change_intent e a (ci_mac c k (action_secret a)) (cs_sealed s) result) (cs_db s)) (\<lambda>d.
         Inr (result, s\<lparr>cs_sealed := row, cs_db := d\<lparr>audits := audits d @ [now e], capabilities := None\<rparr>\<rparr>)))"

text \<open>From the checked key on. \<open>cleanup\<close> is the answer of \<^verbatim>\<open>beforeChange\<close>.\<close>

definition fresh_change ::
  "env \<Rightarrow> cipher \<Rightarrow> unit res \<Rightarrow> string \<Rightarrow> string \<Rightarrow> credential_request \<Rightarrow> credential_state \<Rightarrow> (json \<times> credential_state) res" where
  "fresh_change e c cleanup k iv r s = (let d = cs_db s; a = cq_action r in
     andThen (admit_change e a (cs_sealed s) d) (\<lambda>_.
     andThen (requireAuthority e d (cq_actor r) no_need) (\<lambda>_.
     andThen cleanup (\<lambda>_.
     if is_removal a \<and> cs_sealed s = None
     then andThen (requireAuthority e d (cq_actor r) no_need) (\<lambda>_. Inr (credential_json JNull False, s))
     else if \<not> exists_row (\<lambda>b. br_hash b = cq_actor r \<and> browser_live e d b) (browser_sessions d)
     then Inl (HarborError 401 ''AUTH_EXPIRED'')
     else apply_change e c k iv a s))))"

definition change_credential ::
  "env \<Rightarrow> cipher \<Rightarrow> unit res \<Rightarrow> string \<Rightarrow> credential_request \<Rightarrow> credential_state \<Rightarrow> (json \<times> credential_state) res" where
  "change_credential e c cleanup iv r s = (let d = cs_db s; a = cq_action r in
     andThen (browser_only e d (cq_actor r)) (\<lambda>_.
     andThen (deploymentAdmission d False) (\<lambda>_.
     andThen (ci_key c) (\<lambda>k.
     case intent_find (owner_subject e) (action_route a) (action_key a) d of
       Some old \<Rightarrow> if in_request_hash old \<noteq> ci_mac c k (action_secret a) then Inl (HarborError 409 ''IDEMPOTENCY_CONFLICT'')
         else andThen (requireAuthority e d (cq_actor r) no_need) (\<lambda>_. Inr (in_result old, s))
     | None \<Rightarrow> andThen (checkKey (JStr (action_key a)) (now e)) (\<lambda>_. fresh_change e c cleanup k iv r s)))))"

text \<open>
  \<^verbatim>\<open>handle\<close> in two steps: it takes the store, then its transaction runs and gives the store back
  whether it commits or not.
\<close>

definition begin_change :: "credential_request \<Rightarrow> credential_state \<Rightarrow> credential_state res" where
  "begin_change r s = (if \<not> credential_schema r then Inl (Crash ''ZodError'')
     else if cs_active s \<noteq> None then Inl (HarborError 409 ''CREDENTIAL_IN_USE'')
     else Inr (s\<lparr>cs_active := Some r\<rparr>))"

definition finish_change :: "env \<Rightarrow> cipher \<Rightarrow> unit res \<Rightarrow> string \<Rightarrow> credential_state \<Rightarrow> json res \<times> credential_state" where
  "finish_change e c cleanup iv s = (case cs_active s of None \<Rightarrow> (Inl (Crash ''idle''), s)
     | Some r \<Rightarrow> (case change_credential e c cleanup iv r s of
         Inl f \<Rightarrow> (Inl f, s\<lparr>cs_active := None\<rparr>) | Inr (x, s') \<Rightarrow> (Inr x, s'\<lparr>cs_active := None\<rparr>)))"

section \<open>What a change leaves behind\<close>

lemma fresh_change_sealed:
  assumes "fresh_change e c cleanup k iv r s = Inr (j, s')"
  shows "cs_sealed s' = new_sealed e c k iv (cq_action r)"
  using assms
  by (cases "cq_action r") (auto simp: fresh_change_def apply_change_def new_sealed_def Let_def res_simps split: if_splits)

lemma finish_change_Inr:
  assumes "finish_change e c cleanup iv s = (Inr j, s')" "cs_active s = Some r"
    and "intent_find (owner_subject e) (action_route (cq_action r)) (action_key (cq_action r)) (cs_db s) = None"
  obtains k s1 where "ci_key c = Inr k" "fresh_change e c cleanup k iv r s = Inr (j, s1)" "s' = s1\<lparr>cs_active := None\<rparr>"
    "browser_only e (cs_db s) (cq_actor r) = Inr ()"
  using assms by (auto simp: finish_change_def change_credential_def Let_def res_simps split: sum.splits)

text \<open>C36: What the store gives back is what was put in. When a change that is not a replay succeeds, the supervisor reads back exactly the key that a set carried, and no key after a removal; the store is free for the next change, and the caller was a live browser session of the owner.\<close>

theorem credential_roundtrip:
  assumes "finish_change e c cleanup iv s = (Inr j, s')" "cs_active s = Some r"
    and "intent_find (owner_subject e) (action_route (cq_action r)) (action_key (cq_action r)) (cs_db s) = None"
    and "\<And>k aad iv x. ci_open c k aad iv (ci_seal c k aad iv x) = Some x"
  shows "read_credential e c (cs_sealed s') = Inr (case cq_action r of SetKey _ x \<Rightarrow> Some x | RemoveKey _ \<Rightarrow> None) \<and>
     cs_active s' = None \<and> (\<exists>a. requireAuthority e (cs_db s) (cq_actor r) no_need = Inr a \<and> au_kind a = BrowserAuthority)"
proof -
  obtain k s1 where k: "ci_key c = Inr k" "fresh_change e c cleanup k iv r s = Inr (j, s1)" "s' = s1\<lparr>cs_active := None\<rparr>"
    and b: "browser_only e (cs_db s) (cq_actor r) = Inr ()"
    using assms(1-3) by (rule finish_change_Inr)
  have "read_credential e c (new_sealed e c k iv (cq_action r)) = Inr (case cq_action r of SetKey _ x \<Rightarrow> Some x | RemoveKey _ \<Rightarrow> None)"
  proof (cases "cq_action r")
    case (SetKey key x)
    obtain t g where seal: "ci_seal c k (credential_aad e) iv x = (t, g)" by force
    then have "ci_open c k (credential_aad e) iv (t, g) = Some x" using assms(4) [of k "credential_aad e" iv x] by simp
    then show ?thesis using SetKey seal k(1) by (simp add: read_credential_def new_sealed_def)
  qed (simp add: read_credential_def new_sealed_def)
  then show ?thesis using fresh_change_sealed [OF k(2)] k(3) b by (auto simp: browser_only_def res_simps split: if_splits)
qed

text \<open>A cipher that shows its text, with the tag of the key and the text it authenticates.\<close>

definition demo_cipher :: cipher where
  "demo_cipher = \<lparr> ci_key = Inr ''k'', ci_seal = (\<lambda>k aad iv x. (x, k @ aad @ iv)),
     ci_open = (\<lambda>k aad iv (x, g). if g = k @ aad @ iv then Some x else None), ci_mac = (\<lambda>k x. k @ x) \<rparr>"

definition demo_change :: credential_request where
  "demo_change = \<lparr> cq_actor = replicate 64 CHR ''b'', cq_action = SetKey (''0000001000000:'' @ replicate 36 CHR ''a'') (replicate 20 CHR ''s'') \<rparr>"

definition demo_store :: credential_state where
  "demo_store = \<lparr> cs_db = demo_db\<lparr>browser_sessions := [demo_browser\<lparr>br_hash := replicate 64 CHR ''b''\<rparr>]\<rparr>, cs_sealed = None,
     cs_active = Some demo_change \<rparr>"

theorem credential_roundtrip_witness:
  "case finish_change demo_env demo_cipher (Inr ()) ''i'' demo_store of
     (Inl _, _) \<Rightarrow> False | (Inr _, s') \<Rightarrow> read_credential demo_env demo_cipher (cs_sealed s') = Inr (Some (replicate 20 CHR ''s''))"
proof -
  have "succeeds (fst (finish_change demo_env demo_cipher (Inr ()) ''i'' demo_store))" by code_simp
  then obtain j where "fst (finish_change demo_env demo_cipher (Inr ()) ''i'' demo_store) = Inr j" by (rule succeedsE)
  then obtain s' where f: "finish_change demo_env demo_cipher (Inr ()) ''i'' demo_store = (Inr j, s')" by (metis prod.collapse)
  have a: "cs_active demo_store = Some demo_change" by (simp add: demo_store_def)
  have n: "intent_find (owner_subject demo_env) (action_route (cq_action demo_change)) (action_key (cq_action demo_change)) (cs_db demo_store) = None"
    by code_simp
  show ?thesis using credential_roundtrip [OF f a n] f by (simp add: demo_cipher_def demo_change_def)
qed

end
