(* ===== verification/Api_Routes.thy ===== *)
theory Api_Routes
  imports Credentials
begin

text \<open>
  The writing routes that the model carries by a command, each with its path, its body and the
  function that it runs inside the transaction; and the system of API process, credential store
  and maintenance that share the retained intents.
\<close>

section \<open>Calls\<close>

datatype call = NewSession session_input | Archive | Metadata nat "string option" "bool option" | TakeTurn turn_input
  | StopBackground nat | Answer answer_input | CancelTurn | Recover nat "(uuid \<times> nat) option" | Continue uuid nat turn_input
  | NewToken token_input | RevokeToken | EmergencyStop | Logout

fun call_route :: "call \<Rightarrow> string" where
  "call_route (NewSession _) = ''/api/v1/sessions''"
| "call_route Archive = ''/api/v1/sessions/:id/archive''"
| "call_route (Metadata _ _ _) = ''/api/v1/sessions/:id/metadata''"
| "call_route (TakeTurn _) = ''/api/v1/sessions/:id/turns''"
| "call_route (StopBackground _) = ''/api/v1/sessions/:id/background-stop''"
| "call_route (Answer _) = ''/api/v1/approvals/:id/answer''"
| "call_route CancelTurn = ''/api/v1/turns/:id/cancel''"
| "call_route (Recover _ _) = ''/api/v1/sessions/:id/recovery''"
| "call_route (Continue _ _ _) = ''/api/v1/sessions/:id/recovery/continue''"
| "call_route (NewToken _) = ''/api/v1/security/api-tokens''"
| "call_route RevokeToken = ''/api/v1/security/api-tokens/:id/revoke''"
| "call_route EmergencyStop = ''/api/v1/security/emergency-stop''"
| "call_route Logout = ''/api/v1/security/logout''"

fun optional_field :: "string \<Rightarrow> ('a \<Rightarrow> json) \<Rightarrow> 'a option \<Rightarrow> (string \<times> json) list" where
  "optional_field k f None = []"
| "optional_field k f (Some x) = [(k, f x)]"

fun json_fields :: "json \<Rightarrow> (string \<times> json) list" where
  "json_fields (JObj xs) = xs"
| "json_fields _ = []"

text \<open>The body, with the fields that are read before the route parses it.\<close>

fun call_body :: "call \<Rightarrow> json" where
  "call_body (NewSession b) = JObj ([(''projectId'', JStr (si_project b)), (''model'', JStr (si_model b))] @
     optional_field ''workspaceId'' JStr (si_workspace b) @ optional_field ''title'' JStr (si_title b) @
     optional_field ''effort'' JStr (si_effort b) @
     optional_field ''permissionProfile'' (\<lambda>p. JStr (profile_text p)) (si_profile b))"
| "call_body (Metadata n t a) = JObj ([(''expectedRevision'', JNum (int n))] @ optional_field ''title'' JStr t @
     optional_field ''archived'' JBool a)"
| "call_body (TakeTurn b) = turn_payload b"
| "call_body (StopBackground g) = JObj [(''generation'', JNum (int g))]"
| "call_body (Answer b) = answer_json b"
| "call_body (Recover g r) = JObj ((''expectedGeneration'', JNum (int g)) #
     (case r of None \<Rightarrow> [] | Some (i, n) \<Rightarrow> [(''recoveryId'', JStr i), (''expectedAttempt'', JNum (int n))]))"
| "call_body (Continue i g b) = JObj (json_fields (turn_payload b) @ [(''recoveryId'', JStr i),
     (''expectedGeneration'', JNum (int g)), (''acknowledgeUnknownEffects'', JBool True)])"
| "call_body (NewToken b) = JObj [(''name'', JStr (ti_name b)), (''scopes'', JArr (map (\<lambda>x. JStr (scope_text x)) (ti_scopes b))),
     (''projectIds'', JArr (map JStr (ti_projects b))),
     (''permissionProfile'', JStr (profile_text (ti_profile b))), (''expiresInDays'', JNum (int (ti_days b)))]"
| "call_body _ = JObj []"

text \<open>\<open>str\<close> is \<^verbatim>\<open>JSON.stringify\<close>.\<close>

definition post :: "(json \<Rightarrow> string) \<Rightarrow> authority \<Rightarrow> string option \<Rightarrow> uuid \<Rightarrow> call \<Rightarrow> http_request" where
  "post str a key i c = \<lparr> hq_authority = a, hq_method = ''POST'', hq_route = call_route c, hq_key = key, hq_id = i,
     hq_operation = [], hq_body = call_body c,
     hq_text = str (JObj [(''params'', JObj [(''id'', JStr i)]), (''body'', call_body c)]),
     hq_excused = (c = Logout) \<rparr>"

section \<open>What a call runs\<close>

text \<open>The identifiers and the secret that a call draws.\<close>

record draws =
  dw_first :: uuid
  dw_second :: uuid
  dw_secret :: string

text \<open>Of a row that an answer shows, only the identifier is kept.\<close>

definition row_json :: "string \<Rightarrow> uuid \<Rightarrow> json" where
  "row_json k i = JObj [(k, JObj [(''id'', JStr i)])]"

definition reauthorize :: "env \<Rightarrow> policies \<Rightarrow> http_request \<Rightarrow> db \<Rightarrow> unit res" where
  "reauthorize e ps rq d = andThen (requireAuthority e d (au_hash (hq_authority rq)) no_need) (\<lambda>_. authorizeTokenRoute e ps rq d)"

definition answering :: "json \<Rightarrow> db res \<Rightarrow> (json \<times> db) res" where
  "answering j r = andThen r (\<lambda>d. Inr (j, d))"

fun handle :: "env \<Rightarrow> policies \<Rightarrow> http_request \<Rightarrow> draws \<Rightarrow> call \<Rightarrow> db \<Rightarrow> (json \<times> db) res" where
  "handle e ps rq w (NewSession b) d =
     andThen (create_session e b (dw_first w) d) (\<lambda>(s, d'). Inr (row_json ''session'' (se_id s), d'))"
| "handle e ps rq w Archive d = answering (row_json ''session'' (hq_id rq)) (archive_session e (hq_id rq) d)"
| "handle e ps rq w (Metadata n t a) d = answering (row_json ''session'' (hq_id rq)) (session_metadata e (hq_id rq) n t a d)"
| "handle e ps rq w (TakeTurn b) d =
     andThen (acceptConversationTurn e (hq_id rq) b (au_hash (hq_authority rq)) (dw_first w) (dw_second w) (reauthorize e ps rq) d)
       (\<lambda>(x, d'). Inr (row_json ''operation'' (op_id x), d'))"
| "handle e ps rq w (StopBackground g) d = answering (row_json ''session'' (hq_id rq)) (stop_background_route e (hq_id rq) g d)"
| "handle e ps rq w (Answer b) d =
     answering (row_json ''approval'' (hq_id rq)) (answer_approval e (au_hash (hq_authority rq)) (hq_id rq) b d)"
| "handle e ps rq w CancelTurn d =
     andThen (requestTurnCancellation e (hq_id rq) (au_hash (hq_authority rq)) (dw_first w) (reauthorize e ps rq) d)
       (\<lambda>(x, d'). Inr (row_json ''operation'' (fst x), d'))"
| "handle e ps rq w (Recover g r) d =
     andThen (request_recovery e (au_hash (hq_authority rq)) (hq_id rq) g r (dw_first w) d) (\<lambda>(i, d'). Inr (row_json ''recovery'' i, d'))"
| "handle e ps rq w (Continue i g b) d =
     andThen (continue_recovery e (hq_id rq) i g b (au_hash (hq_authority rq)) (dw_first w) (dw_second w) (reauthorize e ps rq) d)
       (\<lambda>(x, d'). Inr (row_json ''operation'' (op_id x), d'))"
| "handle e ps rq w (NewToken b) d =
     andThen (create_token e b (dw_first w) (dw_secret w) d) (\<lambda>(t, d'). Inr (row_json ''token'' (tk_id t), d'))"
| "handle e ps rq w RevokeToken d = andThen (revoke_token e (hq_id rq) d) (\<lambda>(t, d'). Inr (row_json ''token'' (tk_id t), d'))"
| "handle e ps rq w EmergencyStop d = Inr (JObj [(''stopped'', JBool True)], emergency_stop e d)"
| "handle e ps rq w Logout d = answering (JObj [(''loggedOut'', JBool True)]) (logout e (au_hash (hq_authority rq)) d)"

definition serve_call :: "env \<Rightarrow> policies \<Rightarrow> (json \<Rightarrow> nat) \<Rightarrow> http_request \<Rightarrow> draws \<Rightarrow> call \<Rightarrow> db \<Rightarrow> (json \<times> db) res" where
  "serve_call e ps bytes rq w c d = command e ps bytes rq (handle e ps rq w c) d"

section \<open>The system\<close>

text \<open>A committed run of a route's function, or a change of the key that took effect.\<close>

record api_run =
  ar_actor :: string
  ar_route :: string
  ar_key :: string
  ar_hash :: string
  ar_result :: json

text \<open>
  \<open>aw_now\<close> is the time of the last event, \<open>aw_runs\<close> every committed run so far under a retained key,
  \<open>aw_stops\<close> for every committed run of the emergency stop whether it found a stop in force.
\<close>

record api_world =
  aw_store :: credential_state
  aw_now :: time
  aw_runs :: "api_run list"
  aw_stops :: "bool list"

definition aw_db :: "api_world \<Rightarrow> db" where
  "aw_db w = cs_db (aw_store w)"

definition put_db :: "db \<Rightarrow> api_world \<Rightarrow> api_world" where
  "put_db d w = w\<lparr>aw_store := (aw_store w)\<lparr>cs_db := d\<rparr>\<rparr>"

definition api_start :: "db \<Rightarrow> time \<Rightarrow> api_world" where
  "api_start d t = \<lparr> aw_store = \<lparr> cs_db = d\<lparr>intents := []\<rparr>, cs_sealed = None, cs_active = None \<rparr>, aw_now = t, aw_runs = [],
     aw_stops = [] \<rparr>"

text \<open>\<open>Elsewhere\<close> is anything else that the rest of the system does to the data base; it writes no intents.\<close>

datatype api_event = Called policies "json \<Rightarrow> nat" "json \<Rightarrow> string" authority "string option" uuid draws call
  | CredentialBegun credential_request | CredentialFinished cipher "unit res" string
  | Maintained | Elsewhere db

text \<open>
  What a step ran is read off what it did. A call ran its route's function if it would not have
  succeeded with a function that always fails, or if it changed the data base; a change of the key
  took effect if it changed the stored key or the data base.
\<close>

definition route_ran :: "env \<Rightarrow> policies \<Rightarrow> (json \<Rightarrow> nat) \<Rightarrow> http_request \<Rightarrow> db \<Rightarrow> db \<Rightarrow> bool" where
  "route_ran e ps bytes rq d d' \<longleftrightarrow> \<not> succeeds (command e ps bytes rq (\<lambda>_. Inl (Crash ''not run'')) d) \<or> d' \<noteq> d"

definition call_runs :: "env \<Rightarrow> policies \<Rightarrow> (json \<Rightarrow> nat) \<Rightarrow> http_request \<Rightarrow> db \<Rightarrow> json \<Rightarrow> db \<Rightarrow> api_run list" where
  "call_runs e ps bytes rq d result d' = (if hq_route rq \<noteq> EMERGENCY_STOP \<and> route_ran e ps bytes rq d d'
     then [\<lparr> ar_actor = request_actor e rq, ar_route = hq_route rq, ar_key = key_string (hq_key rq),
       ar_hash = hash e (hq_text rq), ar_result = result \<rparr>] else [])"

definition call_stops :: "env \<Rightarrow> policies \<Rightarrow> (json \<Rightarrow> nat) \<Rightarrow> http_request \<Rightarrow> db \<Rightarrow> db \<Rightarrow> bool list" where
  "call_stops e ps bytes rq d d' =
     (if hq_route rq = EMERGENCY_STOP \<and> route_ran e ps bytes rq d d' then [meta_emergency d] else [])"

definition change_runs :: "env \<Rightarrow> cipher \<Rightarrow> credential_state \<Rightarrow> json res \<Rightarrow> credential_state \<Rightarrow> api_run list" where
  "change_runs e c s answer s' = (case (cs_active s, ci_key c, answer) of
     (Some r, Inr k, Inr result) \<Rightarrow> if cs_sealed s' \<noteq> cs_sealed s \<or> cs_db s' \<noteq> cs_db s
       then [\<lparr> ar_actor = owner_subject e, ar_route = action_route (cq_action r), ar_key = action_key (cq_action r),
         ar_hash = ci_mac c k (action_secret (cq_action r)), ar_result = result \<rparr>] else []
   | _ \<Rightarrow> [])"

definition api_act :: "env \<Rightarrow> api_event \<Rightarrow> api_world \<Rightarrow> api_world res" where
  "api_act e x w = (case x of
     Called ps bytes str a key i draw c \<Rightarrow> (let rq = post str a key i c in
       andThen (serve_call e ps bytes rq draw c (aw_db w)) (\<lambda>(result, d).
         Inr ((put_db d w)\<lparr>aw_runs := aw_runs w @ call_runs e ps bytes rq (aw_db w) result d,
           aw_stops := aw_stops w @ call_stops e ps bytes rq (aw_db w) d\<rparr>)))
   | CredentialBegun r \<Rightarrow> andThen (begin_change r (aw_store w)) (\<lambda>s. Inr (w\<lparr>aw_store := s\<rparr>))
   | CredentialFinished c cleanup iv \<Rightarrow> (case finish_change e c cleanup iv (aw_store w) of (answer, s) \<Rightarrow>
       Inr (w\<lparr>aw_store := s, aw_runs := aw_runs w @ change_runs e c (aw_store w) answer s\<rparr>))
   | Maintained \<Rightarrow> Inr (put_db (maintain (now e) (aw_db w)) w)
   | Elsewhere d \<Rightarrow> Inr (put_db (d\<lparr>intents := intents (aw_db w)\<rparr>) w))"

definition api_happen :: "env \<times> api_event \<Rightarrow> api_world \<Rightarrow> api_world res" where
  "api_happen x w = (if now (fst x) < aw_now w then Inl (Crash ''clock'')
     else andThen (api_act (fst x) (snd x) w) (\<lambda>w'. Inr (w'\<lparr>aw_now := now (fst x)\<rparr>)))"

end
