(* ===== verification/Api_History.thy ===== *)
theory Api_History
  imports Api_Routes Schedule_Receipts "HOL-Library.Sublist"
begin

text \<open>
  What holds over every history of the API: a key runs its route at most once and is answered the
  same afterwards, the retained intents stay within their quotas, and the emergency stop is never
  out of reach.
\<close>

section \<open>The routes write no intents\<close>

lemma event_intents: "event e i type data d = Inr (q, d') \<Longrightarrow> intents d' = intents d"
  by (auto dest: event_frame)

lemma emit_intents: "emit e i type data d = Inr d' \<Longrightarrow> intents d' = intents d"
  by (auto simp: emit_def res_simps dest: event_intents)

lemma update_frames [simp]:
  "intents (update_session i f d) = intents d" "intents (update_approval P g d) = intents d"
  "intents (update_operations Q h d) = intents d"
  by (simp_all add: update_session_def update_approval_def update_operations_def)

lemma accept_intents:
  assumes "acceptConversationTurn e sess input actor opid msgid authorize d = Inr (row, d')"
  shows "intents d' = intents d"
proof -
  from assms obtain d0 where "session_frame d' = session_frame d0" "intents d0 = intents d"
    by (rule acceptConversationTurn_Inr) (auto simp: session_frame_def)
  then show ?thesis by (auto simp: session_frame_def dest: arg_cong [of _ _ intents])
qed

lemma cancel_intents:
  assumes "requestTurnCancellation e turn actor fresh authorize d = Inr (r, d')"
  shows "intents d' = intents d"
proof -
  from assms obtain t where t: "find (\<lambda>x. op_id x = turn) (operations d) = Some t" by (rule requestTurnCancellation_Inr)
  from assms t show ?thesis
    by (cases rule: requestTurnCancellation_cases) (auto dest!: event_intents)
qed

lemma recovery_intents:
  assumes "request_recovery e actor i g r fresh d = Inr (x, d')"
  shows "intents d' = intents d"
  using assms
  by (auto simp: request_recovery_def retry_recovery_def first_recovery_def res_simps Let_def split: option.splits if_splits dest!: emit_intents)


lemma continue_intents:
  assumes "continue_recovery e i rid g input actor opid msgid authorize d = Inr (x, d')"
  shows "intents d' = intents d"
  using assms by (auto simp: continue_recovery_def Recovery.consume_def acknowledge_def res_simps split: if_splits dest!: accept_intents)

lemma metadata_intents: "metadata_event e s d = Inr d' \<Longrightarrow> intents d' = intents d"
  by (simp add: metadata_event_def emit_intents)

lemma emergency_frame: "emergency_stop e d = d\<lparr> meta_emergency := True, schedules := schedules (emergency_stop e d),
    schedule_grants := schedule_grants (emergency_stop e d), audits := audits d @ [now e] \<rparr>"
  by (simp add: emergency_stop_def emergencyPauseSchedules_def revoke_grants_def)

lemma emergency_keeps [simp]: "intents (emergency_stop e d) = intents d" "meta_emergency (emergency_stop e d)"
  "browser_sessions (emergency_stop e d) = browser_sessions d" "meta_identity_pin (emergency_stop e d) = meta_identity_pin d"
  by (subst emergency_frame; simp)+

lemma handle_intents:
  assumes "handle e ps rq w c d = Inr (r, d')"
  shows "intents d' = intents d"
proof (cases c)
  case (NewSession b)
  then show ?thesis using assms by (auto simp: create_session_def res_simps Let_def split: if_splits)
next
  case Archive
  then show ?thesis using assms
    by (auto simp: archive_session_def answering_def res_simps Let_def split: if_splits dest!: metadata_intents)
next
  case (Metadata n t a)
  then show ?thesis using assms
    by (auto simp: session_metadata_def answering_def res_simps Let_def split: if_splits dest!: metadata_intents)
next
  case (TakeTurn b)
  then show ?thesis using assms by (auto simp: res_simps dest!: accept_intents)
next
  case (StopBackground g)
  then show ?thesis using assms
    by (auto simp: stop_background_route_def answering_def res_simps split: if_splits dest!: emit_intents)
next
  case (Answer b)
  then show ?thesis using assms
    by (auto simp: answer_approval_def answering_def res_simps split: if_splits dest!: emit_intents)
next
  case CancelTurn
  then show ?thesis using assms by (auto simp: res_simps dest!: cancel_intents)
next
  case (Recover g x)
  then show ?thesis using assms by (auto simp: res_simps dest!: recovery_intents)
next
  case (Continue i g b)
  then show ?thesis using assms by (auto simp: res_simps dest!: continue_intents)
next
  case (NewToken b)
  then show ?thesis using assms by (auto simp: create_token_def res_simps Let_def split: if_splits option.splits)
next
  case RevokeToken
  then show ?thesis using assms by (auto simp: revoke_token_def res_simps)
next
  case EmergencyStop
  then show ?thesis using assms by auto
next
  case Logout
  then show ?thesis using assms by (auto simp: logout_def answering_def res_simps)
qed

lemma maintain_intents: "intents (maintain at d) = delete_where (intent_expired at (prune_all at d)) (intents d)"
  using prune_all_frame [of at d] by (auto simp: maintain_def Let_def)

section \<open>What a command does to the retained intents\<close>

lemma command_cases:
  assumes "command e ps bytes rq fn d = Inr (r, d')"
  obtains
    (old) key old where "hq_key rq = Some key" "intent_find (request_actor e rq) (hq_route rq) key d = Some old"
      "in_request_hash old = hash e (hq_text rq)" "r = in_result old" "d' = d"
  | (stopped) key where "hq_key rq = Some key" "hq_route rq = EMERGENCY_STOP" "d' = d" "meta_emergency d"
  | (run) key where "hq_key rq = Some key" "intent_find (request_actor e rq) (hq_route rq) key d = None"
      "now e - RETRY_WINDOW_MS \<le> key_ms key" "admit_intent e rq (request_actor e rq) d = Inr ()"
      "run_route e bytes rq fn (request_actor e rq) key d = Inr (r, d')" "\<not> (hq_route rq = EMERGENCY_STOP \<and> meta_emergency d)"
proof (cases "hq_key rq")
  case None
  then show ?thesis using assms by (simp add: command_def)
next
  case (Some key)
  show ?thesis
  proof (cases "intent_find (request_actor e rq) (hq_route rq) key d")
    case None
    have cont: "(hq_route rq = EMERGENCY_STOP \<and> meta_emergency d \<and> d' = d) \<or>
        (\<not> (hq_route rq = EMERGENCY_STOP \<and> meta_emergency d) \<and>
         admit_intent e rq (request_actor e rq) d = Inr () \<and> run_route e bytes rq fn (request_actor e rq) key d = Inr (r, d'))"
      "now e - RETRY_WINDOW_MS \<le> key_ms key"
      using assms Some None by (auto simp: command_def Let_def res_simps split: if_splits)
    from cont(1) show ?thesis
    proof (elim disjE conjE)
      assume "hq_route rq = EMERGENCY_STOP" "meta_emergency d" "d' = d"
      then show ?thesis using Some by (intro stopped)
    next
      assume "admit_intent e rq (request_actor e rq) d = Inr ()" "run_route e bytes rq fn (request_actor e rq) key d = Inr (r, d')"
        "\<not> (hq_route rq = EMERGENCY_STOP \<and> meta_emergency d)"
      then show ?thesis using Some None cont(2) by (intro run)
    qed
  next
    case found: (Some x)
    have "in_request_hash x = hash e (hq_text rq)" "r = in_result x" "d' = d"
      using assms Some found by (simp_all add: command_def Let_def res_simps split: if_splits)
    then show ?thesis using Some found by (intro old)
  qed
qed

lemma checkKey_passes: "key_format k \<Longrightarrow> t - RETRY_WINDOW_MS \<le> key_ms k \<Longrightarrow> key_ms k \<le> t + 300000 \<Longrightarrow> checkKey (JStr k) t = Inr k"
  by (simp add: checkKey_eq_Inr)

text \<open>A call that is answered from a retained intent, or by a stop that is in force, runs nothing.\<close>

lemma not_run:
  assumes "command e ps bytes rq fn d = Inr (r, d')"
    and "intent_find (request_actor e rq) (hq_route rq) (key_string (hq_key rq)) d \<noteq> None \<or> hq_route rq = EMERGENCY_STOP \<and> meta_emergency d"
  shows "\<not> route_ran e ps bytes rq d d'"
proof -
  have "d' = d" using assms by (auto elim!: command_cases simp: key_string_def)
  moreover have "succeeds (command e ps bytes rq g d)" for g
    using assms by (auto simp: command_def Let_def key_string_def checkKey_passes res_simps split: option.splits if_splits)
  ultimately show ?thesis by (simp add: route_ran_def)
qed

lemma emergency_found_nothing:
  assumes "command e ps bytes rq fn d = Inr (r, d')"
  shows "True \<notin> set (call_stops e ps bytes rq d d')"
  using not_run [OF assms] by (auto simp: call_stops_def)

section \<open>The ledger of intents\<close>

text \<open>
  The abstract system: a list of retained intents and the runs so far. A run is recorded under a
  key that is new and not older than the retry window, if its quota has room; intents whose key has
  left the retry window may be forgotten.
\<close>

definition run_of :: "intent_row \<Rightarrow> api_run" where
  "run_of i = \<lparr> ar_actor = in_actor i, ar_route = in_route i, ar_key = in_key i, ar_hash = in_request_hash i, ar_result = in_result i \<rparr>"

definition intent_id :: "intent_row \<Rightarrow> string \<times> string \<times> string" where
  "intent_id i = (in_actor i, in_route i, in_key i)"

definition run_id :: "api_run \<Rightarrow> string \<times> string \<times> string" where
  "run_id r = (ar_actor r, ar_route r, ar_key r)"

definition target_count :: "string \<Rightarrow> string option \<Rightarrow> intent_row list \<Rightarrow> nat" where
  "target_count actor t is = count_where (\<lambda>i. in_actor i = actor \<and> in_control_target i = t) is"

definition quota :: "string option \<Rightarrow> nat" where
  "quota t = (case t of None \<Rightarrow> 10000 | Some x \<Rightarrow> target_limit x)"

inductive ledger :: "time \<Rightarrow> intent_row list \<times> api_run list \<Rightarrow> intent_row list \<times> api_run list \<Rightarrow> bool" for t where
  Keep: "ledger t (is, rs) (is, rs)"
| Record: "intent_id i \<notin> intent_id ` set is \<Longrightarrow> t - RETRY_WINDOW_MS \<le> key_ms (in_key i) \<Longrightarrow>
    target_count (in_actor i) (in_control_target i) is < quota (in_control_target i) \<Longrightarrow> in_route i \<noteq> EMERGENCY_STOP \<Longrightarrow>
    ledger t (is, rs) (is @ [i], rs @ [run_of i])"
| Forget: "(\<And>i. P i \<Longrightarrow> key_ms (in_key i) < t - RETRY_WINDOW_MS) \<Longrightarrow> ledger t (is, rs) (delete_where P is, rs)"

inductive_cases ledgerE: "ledger t (is, rs) (is', rs')"

lemma run_id_of [simp]: "run_id (run_of i) = intent_id i"
  by (simp add: run_id_def run_of_def intent_id_def)

lemma run_of_key [simp]: "ar_key (run_of i) = in_key i"
  by (simp add: run_of_def)

definition kept :: "time \<Rightarrow> intent_row list \<Rightarrow> api_run \<Rightarrow> bool" where
  "kept t is r \<longleftrightarrow> (\<exists>i \<in> set is. r = run_of i) \<or> key_ms (ar_key r) < t - RETRY_WINDOW_MS"

definition ledger_ok :: "time \<Rightarrow> intent_row list \<times> api_run list \<Rightarrow> bool" where
  "ledger_ok t l \<longleftrightarrow> distinct (map intent_id (fst l)) \<and> distinct (map run_id (snd l)) \<and>
     (\<forall>r \<in> set (snd l). kept t (fst l) r) \<and> (\<forall>a x. target_count a x (fst l) \<le> quota x) \<and>
     (\<forall>i \<in> set (fst l). in_route i \<noteq> EMERGENCY_STOP)"

lemma kept_later: "kept t is r \<Longrightarrow> t \<le> t' \<Longrightarrow> kept t' is r"
  by (auto simp: kept_def)

lemma ledger_ok_later: "ledger_ok t l \<Longrightarrow> t \<le> t' \<Longrightarrow> ledger_ok t' l"
  by (auto simp: ledger_ok_def intro: kept_later)

lemma ledger_record:
  assumes "ledger_ok t (is, rs)" "intent_id i \<notin> intent_id ` set is" "t - RETRY_WINDOW_MS \<le> key_ms (in_key i)"
    and "target_count (in_actor i) (in_control_target i) is < quota (in_control_target i)" "in_route i \<noteq> EMERGENCY_STOP"
  shows "ledger_ok t (is @ [i], rs @ [run_of i])"
proof -
  have "r \<notin> set rs" if "run_id r = intent_id i" for r
  proof
    assume "r \<in> set rs"
    then have "kept t is r" using assms(1) by (simp add: ledger_ok_def)
    then show False unfolding kept_def
    proof
      assume "\<exists>j \<in> set is. r = run_of j"
      then show False using assms(2) that by (metis imageI run_id_of)
    next
      have "ar_key r = in_key i" using that by (simp add: run_id_def intent_id_def)
      moreover assume "key_ms (ar_key r) < t - RETRY_WINDOW_MS"
      ultimately show False using assms(3) by simp
    qed
  qed
  then have "intent_id i \<notin> run_id ` set rs" by auto
  moreover have "target_count a x (is @ [i]) \<le> quota x" for a x
  proof -
    have "target_count a x is \<le> quota x" using assms(1) by (simp add: ledger_ok_def)
    then show ?thesis using assms(4) by (auto simp: target_count_def)
  qed
  ultimately show ?thesis using assms by (auto simp: ledger_ok_def kept_def)
qed

lemma ledger_forget:
  assumes "ledger_ok t (is, rs)" and "\<And>i. P i \<Longrightarrow> key_ms (in_key i) < t - RETRY_WINDOW_MS"
  shows "ledger_ok t (delete_where P is, rs)"
proof -
  have "kept t (delete_where P is) r" if "kept t is r" for r
    using that assms(2) by (auto simp: kept_def delete_where_def)
  moreover have "target_count a x (delete_where P is) \<le> quota x" for a x
  proof -
    have "target_count a x is \<le> quota x" using assms(1) by (simp add: ledger_ok_def)
    then show ?thesis unfolding target_count_def by (rule order_trans [OF count_where_delete_le])
  qed
  moreover have "distinct (map intent_id (delete_where P is))"
    using assms(1) by (simp add: ledger_ok_def delete_where_def distinct_map inj_on_def)
  ultimately show ?thesis using assms(1) by (auto simp: ledger_ok_def delete_where_def)
qed

lemma ledger_keeps:
  assumes "ledger t (is, rs) (is', rs')" and "ledger_ok t (is, rs)"
  shows "ledger_ok t (is', rs') \<and> prefix rs rs'"
  using assms(1) by (rule ledgerE) (use assms(2) in \<open>simp_all add: ledger_record ledger_forget\<close>)

section \<open>The system runs the ledger\<close>

definition ledger_of :: "api_world \<Rightarrow> intent_row list \<times> api_run list" where
  "ledger_of w = (intents (aw_db w), aw_runs w)"

lemma call_route_not_preview [simp]: "call_route c \<noteq> PREVIEW_STOP"
  by (cases c) (simp_all add: PREVIEW_STOP_def)

lemma pending_stop_call [simp]: "pending_stop actor target (call_route c) result d = None"
  by (simp add: pending_stop_def)

lemma controlTarget_ordinary:
  "controlTarget rq result = Inr None \<Longrightarrow> reserved_route (hq_route rq) \<Longrightarrow> hq_route rq = EMERGENCY_STOP"
  by (auto simp: controlTarget_def reserved_route_def control_route_def reserved_file_control_def Let_def
      split: if_splits option.splits)

lemma admit_room:
  assumes "admit_intent e rq actor d = Inr u" "controlTarget rq result = Inr target" "target_room actor target d'"
    and "hq_route rq \<noteq> EMERGENCY_STOP" "intents d' = intents d"
  shows "target_count actor target (intents d) < quota target"
proof (cases target)
  case None
  then have "\<not> reserved_route (hq_route rq)" using controlTarget_ordinary assms(2,4) by blast
  then show ?thesis using assms(1) None
    by (auto simp: admit_intent_def admitOrdinaryIntent_def target_count_def quota_def res_simps split: if_splits)
next
  case (Some t)
  then show ?thesis using assms(3,5) by (simp add: target_room_def target_count_def quota_def)
qed

lemma intent_find_None: "intent_find a r k d = None \<longleftrightarrow> (a, r, k) \<notin> intent_id ` set (intents d)"
  by (auto simp: intent_find_def find_None_iff intent_id_def image_iff)

lemma run_route_ledger:
  assumes run: "run_route e bytes rq (handle e ps rq w c) (request_actor e rq) key d = Inr (r, d')"
    and rq: "hq_route rq = call_route c" "hq_key rq = Some key" "intent_find (request_actor e rq) (hq_route rq) key d = None"
    and t: "now e - RETRY_WINDOW_MS \<le> key_ms key" and admitted: "admit_intent e rq (request_actor e rq) d = Inr ()"
  shows "ledger (now e) (intents d, rs) (intents d', rs @ call_runs e ps bytes rq d r d')"
proof -
  obtain result d1 where h: "handle e ps rq w c d = Inr (result, d1)"
    and r: "(if hq_route rq = EMERGENCY_STOP then Inr (result, d1) else record_intent e bytes rq (request_actor e rq) key result d1) = Inr (r, d')"
    using run by (auto simp: run_route_def res_simps split: if_splits)
  have same: "intents d1 = intents d" using h by (rule handle_intents)
  show ?thesis
  proof (cases "hq_route rq = EMERGENCY_STOP")
    case True
    then show ?thesis using r same by (simp add: call_runs_def ledger.Keep)
  next
    case False
    then obtain target where target: "controlTarget rq result = Inr target" "target_room (request_actor e rq) target d1"
      and d': "r = result" "d' = d1\<lparr>intents := intents d1 @ [\<lparr> in_actor = request_actor e rq, in_route = hq_route rq, in_key = key,
        in_request_hash = hash e (hq_text rq), in_result = result, in_control_target = target, in_created_at = now e \<rparr>]\<rparr>"
      using r rq(1) by (auto simp: record_intent_def insert_intent_def res_simps split: if_splits)
    let ?i = "\<lparr> in_actor = request_actor e rq, in_route = hq_route rq, in_key = key,
        in_request_hash = hash e (hq_text rq), in_result = result, in_control_target = target, in_created_at = now e \<rparr>"
    have "intents d' \<noteq> intents d" using d'(2) same by simp
    then have "route_ran e ps bytes rq d d'" unfolding route_ran_def by (metis (full_types))
    then have "call_runs e ps bytes rq d r d' = [run_of ?i]"
      using False rq d'(1) by (simp add: call_runs_def run_of_def key_string_def)
    moreover have "ledger (now e) (intents d, rs) (intents d @ [?i], rs @ [run_of ?i])"
      using False rq(3) t admit_room [OF admitted target False same]
      by (intro ledger.Record) (simp_all add: intent_find_None intent_id_def)
    ultimately show ?thesis using d'(2) same by simp
  qed
qed

lemma serve_call_ledger:
  assumes s: "serve_call e ps bytes rq w c d = Inr (r, d')" and "hq_route rq = call_route c"
  shows "ledger (now e) (intents d, rs) (intents d', rs @ call_runs e ps bytes rq d r d')"
  using s unfolding serve_call_def
proof (cases rule: command_cases)
  case (old key old)
  then have "\<not> route_ran e ps bytes rq d d'" using s by (intro not_run) (simp_all add: serve_call_def key_string_def)
  then show ?thesis using old by (simp add: call_runs_def ledger.Keep)
next
  case (stopped key)
  then show ?thesis by (simp add: call_runs_def ledger.Keep)
next
  case (run key)
  then show ?thesis using run_route_ledger [OF run(5) assms(2) run(1-4)] by blast
qed

lemma target_limit_pos: "0 < target_limit t"
  by (simp add: target_limit_def)

lemma action_route_not_emergency [simp]: "action_route a \<noteq> EMERGENCY_STOP"
  by (simp add: action_route_def EMERGENCY_STOP_def)

lemma admit_change_room:
  assumes "admit_change e a row d = Inr u" "i = change_intent e a mac row result" "is_removal a \<longrightarrow> row \<noteq> None"
  shows "target_count (in_actor i) (in_control_target i) (intents d) < quota (in_control_target i)"
proof (cases a)
  case (SetKey k x)
  then show ?thesis using assms(1,2)
    by (auto simp: admit_change_def admitOrdinaryIntent_def change_intent_def target_count_def quota_def split: if_splits)
next
  case (RemoveKey k)
  then obtain r where r: "row = Some r" using assms(3) by auto
  have "target_count (owner_subject e) (Some (removal_target e r)) (intents d) = 0"
    using assms(1) RemoveKey r by (auto simp: admit_change_def target_count_def count_where_0_iff split: if_splits)
  then show ?thesis using assms(2) RemoveKey r target_limit_pos by (simp add: change_intent_def quota_def)
qed

lemma change_runs_same: "cs_sealed s' = cs_sealed s \<Longrightarrow> cs_db s' = cs_db s \<Longrightarrow> change_runs e c s answer s' = []"
  by (simp add: change_runs_def split: option.splits sum.splits)

lemma fresh_change_ledger:
  assumes "fresh_change e c cleanup k iv r s = Inr (result, s')"
    and "intent_find (owner_subject e) (action_route (cq_action r)) (action_key (cq_action r)) (cs_db s) = None"
    and "now e - RETRY_WINDOW_MS \<le> key_ms (action_key (cq_action r))" and "cs_active s = Some r" "ci_key c = Inr k"
  shows "ledger (now e) (intents (cs_db s), rs) (intents (cs_db s'), rs @ change_runs e c s (Inr result) s')"
proof (cases "is_removal (cq_action r) \<and> cs_sealed s = None")
  case True
  then have "s' = s" using assms(1) by (auto simp: fresh_change_def Let_def res_simps split: if_splits)
  then show ?thesis by (simp add: change_runs_same ledger.Keep)
next
  case False
  let ?a = "cq_action r"
  have admit: "admit_change e ?a (cs_sealed s) (cs_db s) = Inr ()" and app: "apply_change e c k iv ?a s = Inr (result, s')"
    using assms(1) False by (auto simp: fresh_change_def Let_def res_simps split: if_splits)
  obtain i where i: "i = change_intent e ?a (ci_mac c k (action_secret ?a)) (cs_sealed s) result"
      "intents (cs_db s') = intents (cs_db s) @ [i]"
    using app by (auto simp: apply_change_def insert_intent_def Let_def res_simps split: if_splits)
  have fields: "in_actor i = owner_subject e" "in_route i = action_route ?a" "in_key i = action_key ?a"
    by (simp_all add: i(1) change_intent_def)
  have "intents (cs_db s') \<noteq> intents (cs_db s)" using i(2) by simp
  then have "cs_db s' \<noteq> cs_db s" by (rule contrapos_nn) simp
  then have "change_runs e c s (Inr result) s' = [run_of i]"
    using assms(4,5) i(1) by (simp add: change_runs_def run_of_def change_intent_def)
  moreover have "ledger (now e) (intents (cs_db s), rs) (intents (cs_db s) @ [i], rs @ [run_of i])"
  proof (rule ledger.Record)
    show "intent_id i \<notin> intent_id ` set (intents (cs_db s))"
      using assms(2) by (simp add: intent_find_None intent_id_def fields)
    show "target_count (in_actor i) (in_control_target i) (intents (cs_db s)) < quota (in_control_target i)"
      using admit i(1) False by (intro admit_change_room) auto
  qed (use assms(3) fields in simp_all)
  ultimately show ?thesis using i(2) by simp
qed

lemma change_runs_freed [simp]: "change_runs e c s answer (s'\<lparr>cs_active := x\<rparr>) = change_runs e c s answer s'"
  by (simp add: change_runs_def split: option.split sum.split)

lemma finish_change_ledger:
  assumes "finish_change e c cleanup iv s = (answer, s')"
  shows "ledger (now e) (intents (cs_db s), rs) (intents (cs_db s'), rs @ change_runs e c s answer s')"
proof (cases "cs_active s")
  case None
  then show ?thesis using assms by (auto simp: finish_change_def change_runs_same ledger.Keep)
next
  case (Some r)
  show ?thesis
  proof (cases "change_credential e c cleanup iv r s")
    case (Inl f)
    then show ?thesis using assms Some by (auto simp: finish_change_def change_runs_same ledger.Keep)
  next
    case (Inr y)
    obtain result s1 where y: "y = (result, s1)" by force
    then have fin: "answer = Inr result" "s' = s1\<lparr>cs_active := None\<rparr>"
      using assms Some Inr by (auto simp: finish_change_def)
    obtain k where k: "ci_key c = Inr k" using Inr by (auto simp: change_credential_def Let_def res_simps)
    show ?thesis
    proof (cases "intent_find (owner_subject e) (action_route (cq_action r)) (action_key (cq_action r)) (cs_db s)")
      case None
      then have "fresh_change e c cleanup k iv r s = Inr (result, s1)"
        "now e - RETRY_WINDOW_MS \<le> key_ms (action_key (cq_action r))"
        using Inr y k by (auto simp: change_credential_def Let_def res_simps)
      then show ?thesis unfolding fin using fresh_change_ledger None Some k by simp
    next
      case old: (Some x)
      then have "s1 = s" using Inr y k by (auto simp: change_credential_def Let_def res_simps split: if_splits)
      then show ?thesis unfolding fin by (simp add: change_runs_same ledger.Keep)
    qed
  qed
qed

lemma api_act_ledger:
  assumes "api_act e x w = Inr w'"
  shows "ledger (now e) (ledger_of w) (ledger_of w')"
proof (cases x)
  case (Called ps bytes str a key i draw c)
  then obtain r d where s: "serve_call e ps bytes (post str a key i c) draw c (aw_db w) = Inr (r, d)"
    and w': "w' = (put_db d w)\<lparr>aw_runs := aw_runs w @ call_runs e ps bytes (post str a key i c) (aw_db w) r d,
      aw_stops := aw_stops w @ call_stops e ps bytes (post str a key i c) (aw_db w) d\<rparr>"
    using assms by (auto simp: api_act_def Let_def res_simps)
  show ?thesis using serve_call_ledger [OF s] unfolding w' by (simp add: ledger_of_def aw_db_def put_db_def post_def)
next
  case (CredentialBegun r)
  then show ?thesis using assms
    by (auto simp: api_act_def begin_change_def ledger_of_def aw_db_def res_simps ledger.Keep split: if_splits)
next
  case (CredentialFinished c cleanup iv)
  obtain answer s where f: "finish_change e c cleanup iv (aw_store w) = (answer, s)" by force
  then have w': "w' = w\<lparr>aw_store := s, aw_runs := aw_runs w @ change_runs e c (aw_store w) answer s\<rparr>"
    using assms CredentialFinished by (simp add: api_act_def)
  show ?thesis using finish_change_ledger [OF f] unfolding w' by (simp add: ledger_of_def aw_db_def)
next
  case Maintained
  then have "ledger_of w' = (delete_where (intent_expired (now e) (prune_all (now e) (aw_db w))) (intents (aw_db w)), aw_runs w)"
    using assms by (auto simp: api_act_def ledger_of_def aw_db_def put_db_def maintain_intents)
  moreover have "ledger (now e) (ledger_of w) (delete_where (intent_expired (now e) (prune_all (now e) (aw_db w))) (intents (aw_db w)), aw_runs w)"
    unfolding ledger_of_def by (rule ledger.Forget) (simp add: intent_expired_def RETRY_WINDOW_MS_def)
  ultimately show ?thesis by simp
next
  case (Elsewhere d)
  then show ?thesis using assms by (auto simp: api_act_def ledger_of_def aw_db_def put_db_def ledger.Keep)
qed

definition api_ok :: "api_world \<Rightarrow> bool" where
  "api_ok w \<longleftrightarrow> ledger_ok (aw_now w) (ledger_of w) \<and> True \<notin> set (aw_stops w)"

definition api_moves :: "api_world \<Rightarrow> api_world \<Rightarrow> bool" where
  "api_moves w w' \<longleftrightarrow> prefix (aw_runs w) (aw_runs w') \<and> aw_now w \<le> aw_now w'"

lemma api_start_ok: "api_ok (api_start d t)"
  by (simp add: api_ok_def api_start_def ledger_of_def ledger_ok_def aw_db_def target_count_def)

lemma api_act_stops:
  assumes "api_act e x w = Inr w'" "True \<notin> set (aw_stops w)"
  shows "True \<notin> set (aw_stops w')"
proof (cases x)
  case (Called ps bytes str a key i draw c)
  then obtain r d where s: "command e ps bytes (post str a key i c) (handle e ps (post str a key i c) draw c) (aw_db w) = Inr (r, d)"
    and "aw_stops w' = aw_stops w @ call_stops e ps bytes (post str a key i c) (aw_db w) d"
    using assms(1) by (auto simp: api_act_def serve_call_def Let_def res_simps)
  then show ?thesis using assms(2) emergency_found_nothing [OF s] by auto
next
  case (CredentialFinished c cleanup iv)
  then show ?thesis using assms by (auto simp: api_act_def split: prod.splits)
qed (use assms in \<open>auto simp: api_act_def put_db_def res_simps\<close>)

lemma aw_db_now [simp]: "aw_db (w\<lparr>aw_now := t\<rparr>) = aw_db w"
  by (simp add: aw_db_def)

lemma api_happen_keeps:
  assumes "api_happen x w = Inr w'" "api_ok w"
  shows "api_ok w' \<and> api_moves w w'"
proof -
  obtain w1 where w1: "api_act (fst x) (snd x) w = Inr w1" "aw_now w \<le> now (fst x)" "w' = w1\<lparr>aw_now := now (fst x)\<rparr>"
    using assms(1) by (auto simp: api_happen_def res_simps split: if_splits)
  have "ledger_ok (now (fst x)) (ledger_of w)" using ledger_ok_later [OF _ w1(2)] assms(2) by (simp add: api_ok_def)
  moreover have "ledger (now (fst x)) (ledger_of w) (ledger_of w1)" using w1(1) by (rule api_act_ledger)
  moreover have "True \<notin> set (aw_stops w1)" using api_act_stops [OF w1(1)] assms(2) by (simp add: api_ok_def)
  ultimately show ?thesis using w1 by (auto simp: api_ok_def api_moves_def ledger_of_def dest!: ledger_keeps)
qed

interpretation api_life: evolving_ops api_happen api_ok api_moves
proof
  show "api_moves w w" for w by (simp add: api_moves_def)
  show "api_moves s t \<Longrightarrow> api_moves t u \<Longrightarrow> api_moves s u" for s t u
    by (auto simp: api_moves_def intro: prefix_order.trans)
qed (use api_happen_keeps in blast)+

section \<open>What every history has\<close>

text \<open>C7: Whatever the order of requests, retries, credential changes, maintenance and other writes, the function of a route is committed at most once for an actor, a route and an idempotency key, and a change of the key takes effect at most once: no second command with the key ever runs, even after its intent was forgotten. The emergency stop keeps no intent; its function is never committed while a stop is in force. That a function ran is observed: the call would not have succeeded with a function that fails, or it changed the data base.\<close>

theorem command_executed_once:
  "distinct (map run_id (aw_runs (serve api_happen xs (api_start d t)))) \<and>
   True \<notin> set (aw_stops (serve api_happen xs (api_start d t)))"
  using api_life.serve_keeps [OF api_start_ok, of xs d t] by (simp add: api_ok_def ledger_ok_def ledger_of_def)

text \<open>C16: Every step of the API process, of the credential store and of maintenance is a step of the ledger of intents, or leaves it alone: it records one run under a new key inside the retry window and inside its quota, or forgets keys that have left the window.\<close>

theorem api_refines_ledger:
  assumes "api_happen (e, x) w = Inr w'"
  shows "ledger (now e) (ledger_of w) (ledger_of w') \<and> aw_now w \<le> aw_now w'"
proof -
  obtain w1 where w1: "api_act e x w = Inr w1" "aw_now w \<le> now e" "w' = w1\<lparr>aw_now := now e\<rparr>"
    using assms by (auto simp: api_happen_def res_simps split: if_splits)
  then show ?thesis using api_act_ledger [OF w1(1)] by (simp add: ledger_of_def)
qed

text \<open>C17: The retained intents stay bounded in every history: 10000 ordinary ones for an actor, three attempts at a control target and one where the target allows a single attempt.\<close>

theorem request_history_bounded:
  "target_count actor None (intents (aw_db (serve api_happen xs (api_start d t)))) \<le> 10000 \<and>
   target_count actor (Some x) (intents (aw_db (serve api_happen xs (api_start d t)))) \<le> target_limit x"
proof -
  have "target_count actor y (intents (aw_db (serve api_happen xs (api_start d t)))) \<le> quota y" for y
    using api_life.serve_keeps [OF api_start_ok, of xs d t] by (simp add: api_ok_def ledger_ok_def ledger_of_def)
  from this [of None] this [of "Some x"] show ?thesis by (simp add: quota_def)
qed

lemma intent_find_kept:
  assumes "distinct (map intent_id (intents d))" "i \<in> set (intents d)"
  shows "intent_find (in_actor i) (in_route i) (in_key i) d = Some i"
proof -
  have "find (\<lambda>j. intent_id j = intent_id i) (intents d) = Some i" using assms by (rule find_distinct)
  then show ?thesis by (simp add: intent_find_def intent_id_def)
qed

text \<open>C10: A command that has run keeps its answer. Within the retry window of its key, a later request with the same actor, route and key gets the recorded result and changes nothing when its text is the same, and is refused with a conflict when it is not; the caller must only still be authorised.\<close>

theorem command_retry_answers:
  assumes "w = serve api_happen xs (api_start d t)" "r \<in> set (aw_runs w)" "aw_now w \<le> now e"
    and "now e - RETRY_WINDOW_MS \<le> key_ms (ar_key r)"
    and "ar_actor r = request_actor e rq" "ar_route r = hq_route rq" "hq_key rq = Some (ar_key r)"
    and "requireAuthority e (aw_db w) (au_hash (hq_authority rq)) no_need = Inr a" "authorizeTokenRoute e ps rq (aw_db w) = Inr u"
  shows "command e ps bytes rq fn (aw_db w) = (if ar_hash r = hash e (hq_text rq) then Inr (ar_result r, aw_db w)
     else Inl (HarborError 409 ''IDEMPOTENCY_CONFLICT''))"
proof -
  have ok: "api_ok w" unfolding assms(1) by (intro api_life.serve_keeps api_start_ok)
  then have "kept (aw_now w) (intents (aw_db w)) r" using assms(2) by (simp add: api_ok_def ledger_ok_def ledger_of_def)
  then obtain i where i: "i \<in> set (intents (aw_db w))" "r = run_of i" using assms(3,4) by (auto simp: kept_def)
  have "intent_find (in_actor i) (in_route i) (in_key i) (aw_db w) = Some i"
    using ok i(1) by (intro intent_find_kept) (auto simp: api_ok_def ledger_ok_def ledger_of_def)
  then show ?thesis using assms(5-9) i(2) by (simp add: command_def Let_def run_of_def)
qed

section \<open>The emergency stop\<close>

lemma browser_authority_keeps:
  assumes "requireAuthority e d h no_need = Inr a" "au_kind a = BrowserAuthority"
    and "browser_sessions d' = browser_sessions d" "meta_identity_pin d' = meta_identity_pin d"
  shows "requireAuthority e d' h no_need = Inr a"
proof -
  have no: "\<not> starts_with ''schedule:'' h"
    using assms(1) by (auto simp: requireAuthority_def requireScheduleAuthority_def schedule_denied_def no_need_def split: if_splits option.splits)
  then have direct: "direct_authority e d h no_need = Inr a" using assms(1) by (simp add: requireAuthority_def)
  then have "\<not> starts_with ''pat:'' h"
    using assms(2) by (auto simp: direct_authority_def dest!: token_authority_Inr)
  then show ?thesis using no direct assms(3,4)
    by (simp add: requireAuthority_def direct_authority_def browser_authority_def browser_live_def)
qed

lemma emergency_route_class [simp]: "reserved_route EMERGENCY_STOP" "maintenance_route EMERGENCY_STOP"
  by (simp_all add: reserved_route_def maintenance_route_def)

text \<open>C9: On an instance that is not waiting for its activation, the emergency stop is never refused by a quota, by the maintenance of a deployment or by an earlier request: in every history, a live browser session with a fresh key sets it, and the first time it revokes every schedule grant. (An instance that waits for its activation refuses every command with \<open>MAINTENANCE\<close>, the controls included.)\<close>

theorem emergency_stop_always_available:
  assumes "w = serve api_happen xs (api_start d0 t)" "requireAuthority e (aw_db w) (au_hash a) no_need = Inr b"
    and "au_kind a = BrowserAuthority" "au_kind b = BrowserAuthority" "\<not> dep_activation_required (aw_db w)"
    and "key_format key" "now e - RETRY_WINDOW_MS \<le> key_ms key" "key_ms key \<le> now e + 300000"
  shows "\<exists>r d'. serve_call e ps bytes (post str a (Some key) i EmergencyStop) draw EmergencyStop (aw_db w) = Inr (r, d') \<and>
     meta_emergency d' \<and> (\<not> meta_emergency (aw_db w) \<longrightarrow> (\<forall>g \<in> set (schedule_grants d'). gr_revoked g))"
proof -
  let ?rq = "post str a (Some key) i EmergencyStop" and ?d = "aw_db w"
  have rq: "hq_route ?rq = EMERGENCY_STOP" "hq_authority ?rq = a" "hq_key ?rq = Some key" "\<not> hq_excused ?rq"
    by (simp_all add: post_def EMERGENCY_STOP_def)
  have "api_ok w" unfolding assms(1) by (intro api_life.serve_keeps api_start_ok)
  then have "\<forall>j \<in> set (intents ?d). in_route j \<noteq> EMERGENCY_STOP" by (simp add: api_ok_def ledger_ok_def ledger_of_def)
  then have new: "intent_find actor EMERGENCY_STOP k ?d = None" for actor k by (auto simp: intent_find_def find_None_iff)
  have token: "authorizeTokenRoute e ps ?rq ?d = Inr ()" using assms(3) by (simp add: authorizeTokenRoute_def rq)
  have admit: "admit_intent e ?rq actor ?d = Inr ()" for actor
    using assms(2,3,5) by (simp add: admit_intent_def token_room_def rq deploymentAdmission_def)
  have check: "checkKey (JStr key) (now e) = Inr key" using assms(6-8) by (rule checkKey_passes)
  have after: "requireAuthority e (emergency_stop e ?d) (au_hash a) no_need = Inr b"
    using assms(2,4) by (rule browser_authority_keeps) simp_all
  have run: "run_route e bytes ?rq (handle e ps ?rq draw EmergencyStop) actor key ?d = Inr (JObj [(''stopped'', JBool True)], emergency_stop e ?d)" for actor
    by (simp add: run_route_def rq after)
  have "serve_call e ps bytes ?rq draw EmergencyStop ?d = Inr (JObj [(''stopped'', JBool True)],
      if meta_emergency ?d then ?d else emergency_stop e ?d)"
    using assms(2) token admit check run by (simp add: serve_call_def command_def rq new)
  moreover have "gr_revoked g" if "g \<in> set (schedule_grants (emergency_stop e ?d))" for g
    using that by (auto simp: emergency_stop_def emergencyPauseSchedules_def revoke_grants_def update_where_def)
  ultimately show ?thesis by auto
qed

section \<open>What a token reaches\<close>

text \<open>The scope a call needs from a token, the project it touches and the profile it asks for.\<close>

fun call_scope :: "call \<Rightarrow> scope option" where
  "call_scope (NewSession _) = Some Execute"
| "call_scope (TakeTurn _) = Some Execute"
| "call_scope CancelTurn = Some CancelTurns"
| "call_scope (Answer _) = Some Approve"
| "call_scope _ = None"

fun call_session :: "uuid \<Rightarrow> call \<Rightarrow> db \<Rightarrow> session_row option" where
  "call_session i (TakeTurn _) d = lookup_session BySession i d"
| "call_session i CancelTurn d = lookup_session ByOperation i d"
| "call_session i (Answer _) d = lookup_session ByApproval i d"
| "call_session i _ d = None"

fun call_project :: "uuid \<Rightarrow> call \<Rightarrow> db \<Rightarrow> uuid option" where
  "call_project i (NewSession b) d = Some (si_project b)"
| "call_project i c d = map_option se_project (call_session i c d)"

fun call_profile :: "uuid \<Rightarrow> call \<Rightarrow> db \<Rightarrow> profile option" where
  "call_profile i (NewSession b) d = si_profile b"
| "call_profile i (TakeTurn b) d = Some (tu_profile b)"
| "call_profile i (Answer b) d = map_option se_profile (call_session i (Answer b) d)"
| "call_profile i _ d = None"

lemma profile_text_neq: "profile_text p = profile_text q \<longleftrightarrow> p = q"
  by (cases p; cases q) (simp_all add: profile_text_def)

lemma named_profile_some: "json_text ''permissionProfile'' body = Some (profile_text p) \<Longrightarrow> named_profile body = Some p"
  by (cases p) (simp_all add: named_profile_def profile_text_neq)

lemma call_need:
  assumes "route_need (post str a key i c) d = Inr n"
  shows "nd_scope n \<noteq> None \<and> nd_scope n = call_scope c \<and> nd_project n = call_project i c d \<and> nd_project n \<noteq> None \<and>
    nd_profile n = call_profile i c d"
proof (cases c)
  case (NewSession b)
  have "named_profile (call_body (NewSession b)) = si_profile b"
  proof (cases "si_profile b")
    case None
    then show ?thesis by (cases "si_workspace b"; cases "si_title b"; cases "si_effort b") (simp_all add: named_profile_def)
  next
    case (Some p)
    then show ?thesis
      by (intro trans [OF named_profile_some]) (cases "si_workspace b"; cases "si_title b"; cases "si_effort b"; simp)+
  qed
  then show ?thesis using assms NewSession
    by (auto simp: route_need_def post_def open_route_def no_need_def Let_def res_simps split: if_splits)
next
  case (TakeTurn b)
  have "named_profile (turn_payload b) = Some (tu_profile b)"
    by (rule named_profile_some) (simp add: turn_payload_def)
  then show ?thesis using assms TakeTurn
    by (auto simp: route_need_def post_def open_route_def resource_route_def no_need_def Let_def res_simps)
next
  case (Answer b)
  then show ?thesis using assms
    by (auto simp: route_need_def post_def open_route_def resource_route_def no_need_def Let_def res_simps)
next
  case CancelTurn
  then show ?thesis using assms
    by (auto simp: route_need_def post_def open_route_def resource_route_def no_need_def Let_def res_simps)
qed (use assms in \<open>simp_all add: route_need_def post_def open_route_def resource_route_def Let_def\<close>)

lemma direct_authority_hash: "direct_authority e d actor n = Inr a \<Longrightarrow> au_hash a = actor"
  by (auto simp: direct_authority_def browser_authority_def token_authority_def res_simps split: if_splits option.splits)

lemma direct_authority_token: "direct_authority e d actor n = Inr a \<Longrightarrow> au_kind a = TokenAuthority \<Longrightarrow> starts_with ''pat:'' actor"
  by (auto simp: direct_authority_def split: if_splits dest!: browser_authority_Inr)

lemma authenticate_token:
  assumes "authenticate e vps origin m h d = Inr (a, d')" "au_kind a = TokenAuthority"
  shows "starts_with ''pat:'' (au_hash a)"
proof -
  from assms(1) obtain actor where "direct_authority e d actor no_need = Inr a"
    by (auto simp: authenticate_def authenticateBearer_def authenticateBrowser_def res_simps split: option.splits if_splits)
  then show ?thesis using assms(2) by (auto dest: direct_authority_hash direct_authority_token)
qed

text \<open>C8: A token reaches no further than its grant. When a command of an authenticated token succeeds, on a route that no module has registered for tokens, the token is live, the call is one of the four that tokens may make, its scope is among the token's scopes, the project it touches among the token's projects, and the profile it asks for is within the token's.\<close>

theorem token_reaches_its_grant_only:
  assumes "authenticate e0 vps origin m h d0 = Inr (a, d1)" "au_kind a = TokenAuthority"
    and "map_of ps (''POST '' @ call_route c) = None"
    and "serve_call e ps bytes (post str a key i c) draw c d = Inr (r, d')"
  shows "\<exists>t \<in> set (api_tokens d). au_hash a = ''pat:'' @ tk_id t \<and> token_live e d t \<and>
     (\<exists>s p. call_scope c = Some s \<and> s \<in> set (tk_scopes t) \<and> call_project i c d = Some p \<and> p \<in> set (tk_projects t)) \<and>
     (\<forall>p. call_profile i c d = Some p \<longrightarrow> p \<le> tk_profile t)"
proof -
  let ?rq = "post str a key i c"
  have pat: "starts_with ''pat:'' (au_hash a)" using assms(1,2) by (rule authenticate_token)
  then obtain x where hash: "au_hash a = ''pat:'' @ x" by (metis append_take_drop_id starts_with_def)
  have rq: "hq_authority ?rq = a" "hq_method ?rq = ''POST''" "hq_route ?rq = call_route c" by (simp_all add: post_def)
  have "authorizeTokenRoute e ps ?rq d = Inr ()"
    using assms(4) by (auto simp: serve_call_def command_def Let_def res_simps split: option.splits)
  then obtain n b where n: "route_need ?rq d = Inr n" "requireAuthority e d (au_hash a) n = Inr b"
    using assms(2,3) by (auto simp: authorizeTokenRoute_def rq res_simps)
  have "token_authority e d (''pat:'' @ x) n = Inr b"
    using n(2) unfolding hash requireAuthority_pat by (simp add: direct_authority_def starts_with_def)
  then obtain t where t: "t \<in> set (api_tokens d)" "tk_id t = x" "token_live e d t"
      "\<forall>s. nd_scope n = Some s \<longrightarrow> s \<in> set (tk_scopes t)" "\<forall>p. nd_project n = Some p \<longrightarrow> p \<in> set (tk_projects t)"
      "\<forall>p. nd_profile n = Some p \<longrightarrow> p \<le> tk_profile t"
    using token_authority_Inr by fastforce
  obtain s p where "call_scope c = Some s" "call_project i c d = Some p" "nd_scope n = Some s" "nd_project n = Some p"
    using call_need [OF n(1)] by (metis option.exhaust)
  then show ?thesis using call_need [OF n(1)] t hash by (intro bexI [of _ t]) auto
qed

section \<open>A concrete history\<close>

definition demo_key :: string where
  "demo_key = ''0000001000000:'' @ replicate 36 CHR ''a''"

definition demo_caller :: authority where
  "demo_caller = \<lparr> au_kind = BrowserAuthority, au_hash = ''b'', au_csrf = ''c'', au_projects = None, au_scopes = None,
     au_profile = None, au_token = None \<rparr>"

definition demo_draws :: draws where
  "demo_draws = \<lparr> dw_first = ''x'', dw_second = ''y'', dw_secret = ''z'' \<rparr>"

fun demo_text :: "json \<Rightarrow> string" where
  "demo_text (JStr s) = s"
| "demo_text (JObj kvs) = concat (map (\<lambda>(k, v). k @ demo_text v) kvs)"
| "demo_text _ = ''.''"

definition demo_cancel :: api_event where
  "demo_cancel = Called [] (\<lambda>_. 1) demo_text demo_caller (Some demo_key) ''t'' demo_draws CancelTurn"

definition demo_calls :: "(env \<times> api_event) list" where
  "demo_calls = [(demo_env, demo_cancel), (demo_env, demo_cancel), (demo_env, Maintained)]"

definition demo_api :: api_world where
  "demo_api = serve api_happen demo_calls (api_start demo_db 0)"

definition demo_post :: http_request where
  "demo_post = post demo_text demo_caller (Some demo_key) ''t'' CancelTurn"

definition demo_receipt :: api_run where
  "demo_receipt = \<lparr> ar_actor = ''o'', ar_route = ''/api/v1/turns/:id/cancel'', ar_key = demo_key,
     ar_hash = ''#paramsidtbody'', ar_result = JObj [(''operation'', JObj [(''id'', JStr ''x'')])] \<rparr>"

definition demo_stops :: "(env \<times> api_event) list" where
  "demo_stops = demo_calls @ map (\<lambda>k. (demo_env, Called [] (\<lambda>_. 1) demo_text demo_caller
     (Some (''0000001000000:'' @ replicate 36 k)) [] demo_draws EmergencyStop)) ''aab''"

theorem command_executed_once_witness:
  "aw_runs (serve api_happen demo_stops (api_start demo_db 0)) = [demo_receipt] \<and>
   aw_stops (serve api_happen demo_stops (api_start demo_db 0)) = [False] \<and>
   distinct (map run_id (aw_runs (serve api_happen demo_stops (api_start demo_db 0))))"
proof -
  have "aw_runs (serve api_happen demo_stops (api_start demo_db 0)) = [demo_receipt]" by code_simp
  moreover have "aw_stops (serve api_happen demo_stops (api_start demo_db 0)) = [False]" by code_simp
  ultimately show ?thesis using command_executed_once [of demo_stops demo_db 0] by blast
qed

theorem api_refines_ledger_witness:
  "case api_happen (demo_env, demo_cancel) (api_start demo_db 0) of
     Inl _ \<Rightarrow> False | Inr w' \<Rightarrow> ledger 1000000 (ledger_of (api_start demo_db 0)) (ledger_of w')"
proof -
  have "succeeds (api_happen (demo_env, demo_cancel) (api_start demo_db 0))" by code_simp
  then obtain w' where w': "api_happen (demo_env, demo_cancel) (api_start demo_db 0) = Inr w'" by (rule succeedsE)
  have "now demo_env = 1000000" by (simp add: demo_env_def)
  then show ?thesis using api_refines_ledger [OF w'] w' by simp
qed

theorem command_retry_answers_witness:
  "demo_receipt \<in> set (aw_runs demo_api) \<and>
   command demo_env [] (\<lambda>_. 1) demo_post (\<lambda>_. Inl (Crash [])) (aw_db demo_api) = Inr (ar_result demo_receipt, aw_db demo_api)"
proof -
  have run: "demo_receipt \<in> set (aw_runs demo_api)" by code_simp
  have t: "aw_now demo_api \<le> now demo_env" "now demo_env - RETRY_WINDOW_MS \<le> key_ms (ar_key demo_receipt)" by code_simp+
  have ids: "ar_actor demo_receipt = request_actor demo_env demo_post" "ar_route demo_receipt = hq_route demo_post"
    "hq_key demo_post = Some (ar_key demo_receipt)" "ar_hash demo_receipt = hash demo_env (hq_text demo_post)" by code_simp+
  have "succeeds (requireAuthority demo_env (aw_db demo_api) (au_hash (hq_authority demo_post)) no_need)" by code_simp
  then obtain a where a: "requireAuthority demo_env (aw_db demo_api) (au_hash (hq_authority demo_post)) no_need = Inr a" by (rule succeedsE)
  have "succeeds (authorizeTokenRoute demo_env [] demo_post (aw_db demo_api))" by code_simp
  then obtain u where u: "authorizeTokenRoute demo_env [] demo_post (aw_db demo_api) = Inr u" by (rule succeedsE)
  show ?thesis using command_retry_answers [OF demo_api_def run t ids(1-3) a u] run ids(4) by simp
qed

theorem emergency_stop_always_available_witness:
  "\<exists>r d'. serve_call demo_env [] (\<lambda>_. 1) (post demo_text demo_caller (Some demo_key) [] EmergencyStop) demo_draws EmergencyStop
       (aw_db demo_api) = Inr (r, d') \<and> meta_emergency d'"
proof -
  have a: "requireAuthority demo_env (aw_db demo_api) (au_hash demo_caller) no_need = Inr demo_caller" by code_simp
  have k: "key_format demo_key" "now demo_env - RETRY_WINDOW_MS \<le> key_ms demo_key" "key_ms demo_key \<le> now demo_env + 300000"
    "\<not> dep_activation_required (aw_db demo_api)" "au_kind demo_caller = BrowserAuthority" by code_simp+
  show ?thesis using emergency_stop_always_available [OF demo_api_def a k(5) k(5) k(4) k(1-3)] by blast
qed

definition token_secret :: string where
  "token_secret = ''hbr_'' @ replicate 43 CHR ''s''"

definition token_db :: db where
  "token_db = demo_db\<lparr>api_tokens := [demo_token\<lparr> tk_scopes := [CancelTurns], tk_verifier := hash demo_env token_secret \<rparr>]\<rparr>"

definition token_headers :: headers where
  "token_headers = \<lparr> hd_bearer = Some (''Bearer '' @ token_secret), hd_cookie = None, hd_origin = None, hd_csrf = None \<rparr>"

definition token_caller :: authority where
  "token_caller = \<lparr> au_kind = TokenAuthority, au_hash = ''pat:k'', au_csrf = [], au_projects = Some [''p''],
     au_scopes = Some [CancelTurns], au_profile = Some ReadOnly, au_token = Some ''k'' \<rparr>"

theorem token_reaches_its_grant_only_witness:
  "succeeds (serve_call demo_env [] (\<lambda>_. 1) (post demo_text token_caller (Some demo_key) ''t'' CancelTurn) demo_draws CancelTurn token_db) \<and>
   (\<exists>t \<in> set (api_tokens token_db). token_live demo_env token_db t \<and> ''p'' \<in> set (tk_projects t))"
proof -
  have s: "succeeds (serve_call demo_env [] (\<lambda>_. 1) (post demo_text token_caller (Some demo_key) ''t'' CancelTurn) demo_draws CancelTurn token_db)"
    by code_simp
  then obtain x where x: "serve_call demo_env [] (\<lambda>_. 1) (post demo_text token_caller (Some demo_key) ''t'' CancelTurn) demo_draws
      CancelTurn token_db = Inr (fst x, snd x)" by (metis prod.collapse succeedsE)
  have "(case authenticate demo_env False ''o'' ''POST'' token_headers token_db of Inl _ \<Rightarrow> False | Inr y \<Rightarrow> fst y = token_caller)" by code_simp
  then obtain d1 where a: "authenticate demo_env False ''o'' ''POST'' token_headers token_db = Inr (token_caller, d1)"
    by (auto split: sum.splits)
  have p: "call_project ''t'' CancelTurn token_db = Some ''p''" by code_simp
  show ?thesis using token_reaches_its_grant_only [OF a _ _ x] s p by (auto simp: token_caller_def)
qed

end
