(* ===== verification/Event_Stream.thy ===== *)
theory Event_Stream
  imports Conversation_Routes "HOL-Library.Sublist"
begin

text \<open>
  The event stream of a conversation: the route \<^verbatim>\<open>/api/v1/sessions/:id/events\<close> of
  \<^verbatim>\<open>apps/api/src/server.ts\<close>, from the request with its cursor to the frames written every
  250 milliseconds, interleaved with everything that appends to the event log and prunes it.
\<close>

section \<open>Streams\<close>

datatype stream_state = Streaming | Resynced | Ended

text \<open>
  \<open>sm_from\<close> is the cursor the client came with, \<open>sm_sent\<close> the events written to it so far;
  \<open>sm_checked\<close> says that the running tick has made its checks and reads its page next,
  \<open>sm_counted\<close> that its end will be counted.
\<close>

record stream =
  sm_session :: uuid
  sm_owner :: string
  sm_from :: nat
  sm_cursor :: nat
  sm_sent :: "event_row list"
  sm_state :: stream_state
  sm_checked :: bool
  sm_counted :: bool

record stream_request =
  sr_session :: uuid
  sr_owner :: string
  sr_cursor :: nat

definition MAX_SAFE_INTEGER :: int where
  "MAX_SAFE_INTEGER = 9007199254740991"

text \<open>\<open>cursor\<close> is \<^verbatim>\<open>Number(...)\<close> of the header or the query, \<open>None\<close> where it is no integer.\<close>

definition request_stream :: "(string \<Rightarrow> nat) \<Rightarrow> string \<Rightarrow> string option \<Rightarrow> string \<Rightarrow> uuid \<Rightarrow> int option \<Rightarrow> db \<Rightarrow> stream_request res" where
  "request_stream counts expected origin owner i cursor d =
     andThen (first_row (HarborError 404 ''NOT_FOUND'') (session_find i d)) (\<lambda>_.
     andThen (requireOrigin (Some (case origin of None \<Rightarrow> expected | Some x \<Rightarrow> x)) expected) (\<lambda>_.
     case cursor of None \<Rightarrow> Inl (HarborError 400 ''INVALID_CURSOR'')
     | Some c \<Rightarrow> if c < 0 \<or> c > MAX_SAFE_INTEGER then Inl (HarborError 400 ''INVALID_CURSOR'')
         else if counts owner \<ge> 4 then Inl (HarborError 429 ''STREAM_QUOTA'')
         else Inr \<lparr> sr_session = i, sr_owner = owner, sr_cursor = nat c \<rparr>))"

definition oldest_event :: "uuid \<Rightarrow> db \<Rightarrow> nat option" where
  "oldest_event i d = (case map ev_sequence (filter (\<lambda>v. ev_session v = i) (events d)) of
     [] \<Rightarrow> None | n # ns \<Rightarrow> Some (foldr min ns n))"

definition needsSnapshot :: "nat \<Rightarrow> nat \<Rightarrow> nat option \<Rightarrow> bool" where
  "needsSnapshot cursor sequence oldest \<longleftrightarrow> cursor > sequence \<or>
     (cursor < sequence \<and> (case oldest of None \<Rightarrow> True | Some n \<Rightarrow> int cursor < int n - 1))"

text \<open>Opening counts the stream; one that has to resynchronise is ended and uncounted at once.\<close>

definition open_stream :: "env \<Rightarrow> stream_request \<Rightarrow> (string \<Rightarrow> nat) \<times> db \<Rightarrow> (stream \<times> (string \<Rightarrow> nat) \<times> db) res" where
  "open_stream e r s = (case s of (counts, d0) \<Rightarrow>
     (case pruneReplay (now e) (sr_session r) d0 of (_, d) \<Rightarrow>
      andThen (first_row (Crash ''TypeError'') (session_find (sr_session r) d)) (\<lambda>x.
        let gone = needsSnapshot (sr_cursor r) (se_sequence x) (oldest_event (sr_session r) d);
            counts1 = counts(sr_owner r := counts (sr_owner r) + 1) in
        Inr (\<lparr> sm_session = sr_session r, sm_owner = sr_owner r, sm_from = sr_cursor r, sm_cursor = sr_cursor r,
               sm_sent = [], sm_state = (if gone then Resynced else Streaming), sm_checked = False, sm_counted = (\<not> gone) \<rparr>,
             if gone then counts1(sr_owner r := counts1 (sr_owner r) - 1) else counts1, d))))"

section \<open>A tick\<close>

definition stream_need :: "uuid \<Rightarrow> need" where
  "stream_need p = no_need\<lparr> nd_scope := Some Read, nd_project := Some p \<rparr>"

definition stream_authority :: "env \<Rightarrow> stream \<Rightarrow> db \<Rightarrow> unit res" where
  "stream_authority e s d =
     andThen (first_row (HarborError 404 ''NOT_FOUND'') (session_find (sm_session s) d)) (\<lambda>x.
     andThen (requireAuthority e d (sm_owner s) (stream_need (se_project x))) (\<lambda>_. Inr ()))"

definition stream_check :: "env \<Rightarrow> stream \<Rightarrow> db \<Rightarrow> stream \<times> db" where
  "stream_check e s d = (if sm_state s \<noteq> Streaming \<or> sm_checked s then (s, d)
     else (case stream_authority e s d of
       Inl _ \<Rightarrow> (s\<lparr>sm_state := Ended\<rparr>, d)
     | Inr _ \<Rightarrow> (case pruneReplay (now e) (sm_session s) d of
         (None, d') \<Rightarrow> (s\<lparr>sm_state := Resynced\<rparr>, d')
       | (Some (sequence, floor), d') \<Rightarrow>
           (if sm_cursor s < floor \<or> sm_cursor s > sequence then s\<lparr>sm_state := Resynced\<rparr> else s\<lparr>sm_checked := True\<rparr>, d'))))"

definition stream_page :: "time \<Rightarrow> uuid \<Rightarrow> nat \<Rightarrow> db \<Rightarrow> event_row list" where
  "stream_page at i cursor d = take 100 (sort_key ev_sequence (filter (\<lambda>v. ev_session v = i \<and> ev_sequence v > cursor \<and>
     ev_created_at v \<ge> at - 7 * 86400000) (events d)))"

text \<open>\<open>room\<close> is the number of writes that are accepted before one reports back pressure.\<close>

fun send_rows :: "nat \<Rightarrow> event_row list \<Rightarrow> stream \<Rightarrow> stream" where
  "send_rows room [] s = s"
| "send_rows room (v # vs) s =
     (if ev_sequence v \<noteq> sm_cursor s + 1 then s\<lparr>sm_state := Resynced\<rparr>
      else let s' = s\<lparr> sm_cursor := ev_sequence v, sm_sent := sm_sent s @ [v] \<rparr> in
        (case room of 0 \<Rightarrow> s'\<lparr>sm_state := Ended\<rparr> | Suc n \<Rightarrow> send_rows n vs s'))"

definition stream_send :: "env \<Rightarrow> nat \<Rightarrow> stream \<Rightarrow> db \<Rightarrow> stream" where
  "stream_send e room s d = (if sm_state s \<noteq> Streaming \<or> \<not> sm_checked s then s
     else (send_rows room (stream_page (now e) (sm_session s) (sm_cursor s) d) s)\<lparr>sm_checked := False\<rparr>)"

definition close_stream :: "stream \<Rightarrow> (string \<Rightarrow> nat) \<Rightarrow> (string \<Rightarrow> nat)" where
  "close_stream s counts = counts(sm_owner s := counts (sm_owner s) - 1)"

section \<open>The system\<close>

text \<open>\<open>sw_log\<close> is every event that was ever appended, in order.\<close>

record stream_world =
  sw_db :: db
  sw_log :: "event_row list"
  sw_counts :: "string \<Rightarrow> nat"
  sw_requests :: "stream_request list"
  sw_streams :: "stream list"

definition log_of :: "uuid \<Rightarrow> stream_world \<Rightarrow> event_row list" where
  "log_of i w = filter (\<lambda>v. ev_session v = i) (sw_log w)"

definition start_streams :: "db \<Rightarrow> stream_world" where
  "start_streams d = \<lparr> sw_db = d\<lparr>sessions := [], events := []\<rparr>, sw_log = [], sw_counts = (\<lambda>_. 0), sw_requests = [], sw_streams = [] \<rparr>"

text \<open>What of the data base the streams depend on, besides authorities.\<close>

definition replay_view :: "db \<Rightarrow> event_row list \<times> (uuid \<times> nat \<times> nat) list" where
  "replay_view d = (events d, map (\<lambda>s. (se_id s, se_sequence s, se_replay_floor s)) (sessions d))"

datatype stream_event = Created session_row | Appended uuid string json | Pruned uuid | Rewritten db
  | Requested string "string option" string uuid "int option" | Opened nat | Checked nat | Sent nat nat | Closed nat

definition new_conversation :: "session_row \<Rightarrow> stream_world \<Rightarrow> stream_world res" where
  "new_conversation s w = (if exists_row (\<lambda>x. se_id x = se_id s) (sessions (sw_db w)) \<or> log_of (se_id s) w \<noteq> []
       \<or> se_sequence s \<noteq> 0 \<or> se_replay_floor s \<noteq> 0 then Inl (Crash ''sessions_pkey'')
     else Inr (w\<lparr>sw_db := (sw_db w)\<lparr>sessions := sessions (sw_db w) @ [s]\<rparr>\<rparr>))"

definition append_log :: "env \<Rightarrow> uuid \<Rightarrow> string \<Rightarrow> json \<Rightarrow> stream_world \<Rightarrow> stream_world res" where
  "append_log e i ty data w = andThen (event e i ty data (sw_db w)) (\<lambda>(q, d).
     Inr (w\<lparr> sw_db := d, sw_log := sw_log w @ [\<lparr> ev_session = i, ev_sequence = q, ev_type = ty, ev_data = data, ev_created_at = now e \<rparr>] \<rparr>))"

definition at_stream :: "nat \<Rightarrow> (stream \<Rightarrow> stream_world res) \<Rightarrow> stream_world \<Rightarrow> stream_world res" where
  "at_stream k f w = (if k < length (sw_streams w) then f (sw_streams w ! k) else Inl (Crash ''stream''))"

definition put_stream :: "nat \<Rightarrow> stream \<Rightarrow> stream_world \<Rightarrow> stream_world" where
  "put_stream k s w = w\<lparr>sw_streams := (sw_streams w)[k := s]\<rparr>"

definition stream_happen :: "env \<times> stream_event \<Rightarrow> stream_world \<Rightarrow> stream_world res" where
  "stream_happen x w = (case x of (e, y) \<Rightarrow> (case y of
     Created s \<Rightarrow> new_conversation s w
   | Appended i ty data \<Rightarrow> append_log e i ty data w
   | Pruned i \<Rightarrow> Inr (w\<lparr>sw_db := snd (pruneReplay (now e) i (sw_db w))\<rparr>)
   | Rewritten d \<Rightarrow> if replay_view d = replay_view (sw_db w) then Inr (w\<lparr>sw_db := d\<rparr>) else Inl (Crash ''log'')
   | Requested expected origin owner i cursor \<Rightarrow>
       andThen (request_stream (sw_counts w) expected origin owner i cursor (sw_db w)) (\<lambda>r.
         Inr (w\<lparr>sw_requests := sw_requests w @ [r]\<rparr>))
   | Opened k \<Rightarrow> if \<not> k < length (sw_requests w) then Inl (Crash ''request'')
       else andThen (open_stream e (sw_requests w ! k) (sw_counts w, sw_db w)) (\<lambda>(s, counts, d).
         Inr (w\<lparr> sw_db := d, sw_counts := counts, sw_requests := take k (sw_requests w) @ drop (Suc k) (sw_requests w),
           sw_streams := sw_streams w @ [s] \<rparr>))
   | Checked k \<Rightarrow> at_stream k (\<lambda>s. case stream_check e s (sw_db w) of (s', d) \<Rightarrow> Inr ((put_stream k s' w)\<lparr>sw_db := d\<rparr>)) w
   | Sent k room \<Rightarrow> at_stream k (\<lambda>s. Inr (put_stream k (stream_send e room s (sw_db w)) w)) w
   | Closed k \<Rightarrow> at_stream k (\<lambda>s. if \<not> sm_counted s then Inl (Crash ''closed'')
       else Inr ((put_stream k (s\<lparr> sm_state := Ended, sm_counted := False \<rparr>) w)\<lparr>sw_counts := close_stream s (sw_counts w)\<rparr>)) w))"

end
