(* ===== verification/Event_Delivery.thy ===== *)
theory Event_Delivery
  imports Event_Stream
begin

text \<open>
  What a client of the event stream receives: a gapless piece of the conversation's log that starts
  right after its cursor, or the order to fetch a snapshot; and a stream that is behind makes progress.
\<close>

section \<open>The log\<close>

definition log_ok :: "stream_world \<Rightarrow> bool" where
  "log_ok w \<longleftrightarrow> replay_ok (sw_db w) \<and> set (events (sw_db w)) \<subseteq> set (sw_log w) \<and>
     (\<forall>i. map ev_sequence (log_of i w) = [1..<Suc (length (log_of i w))]) \<and>
     (\<forall>s \<in> set (sessions (sw_db w)). se_sequence s = length (log_of (se_id s) w))"

definition stream_ok :: "stream_world \<Rightarrow> stream \<Rightarrow> bool" where
  "stream_ok w s \<longleftrightarrow> sm_cursor s = sm_from s + length (sm_sent s) \<and>
     sm_sent s = take (length (sm_sent s)) (drop (sm_from s) (log_of (sm_session s) w))"

definition delivery_ok :: "stream_world \<Rightarrow> bool" where
  "delivery_ok w \<longleftrightarrow> log_ok w \<and> (\<forall>s \<in> set (sw_streams w). stream_ok w s)"

text \<open>The log only grows, so what was delivered stays a piece of it.\<close>

definition log_grows :: "stream_world \<Rightarrow> stream_world \<Rightarrow> bool" where
  "log_grows w w' \<longleftrightarrow> prefix (sw_log w) (sw_log w')"

lemma log_of_prefix: "prefix (sw_log w) (sw_log w') \<Longrightarrow> prefix (log_of i w) (log_of i w')"
  by (auto simp: log_of_def prefix_def)

lemma take_drop_prefix:
  assumes "ys = take (length ys) (drop n xs)" "prefix xs xs'"
  shows "ys = take (length ys) (drop n xs')"
proof -
  obtain zs where zs: "xs' = xs @ zs" using assms(2) by (auto simp: prefix_def)
  have "length ys = length (take (length ys) (drop n xs))" using assms(1) by (rule arg_cong)
  then have "length ys \<le> length (drop n xs)" by simp
  then show ?thesis using assms(1) unfolding zs by simp
qed

lemma stream_ok_grows: "stream_ok w s \<Longrightarrow> log_grows w w' \<Longrightarrow> stream_ok w' s"
  unfolding stream_ok_def log_grows_def by (blast intro: take_drop_prefix log_of_prefix)

lemma log_of_same [simp]: "log_of i (w\<lparr>sw_db := d\<rparr>) = log_of i w" "log_of i (w\<lparr>sw_streams := x\<rparr>) = log_of i w"
  "log_of i (w\<lparr>sw_requests := y\<rparr>) = log_of i w" "log_of i (w\<lparr>sw_counts := z\<rparr>) = log_of i w"
  by (simp_all add: log_of_def)

lemma log_at:
  assumes "log_ok w" "v \<in> set (events (sw_db w))" "ev_session v = i"
  shows "\<exists>n. ev_sequence v = Suc n \<and> n < length (log_of i w) \<and> log_of i w ! n = v"
proof -
  have "v \<in> set (log_of i w)" using assms by (auto simp: log_ok_def log_of_def)
  then obtain n where n: "n < length (log_of i w)" "log_of i w ! n = v" by (auto simp: in_set_conv_nth)
  have m: "map ev_sequence (log_of i w) = [1..<Suc (length (log_of i w))]" using assms(1) by (simp add: log_ok_def)
  have "ev_sequence v = map ev_sequence (log_of i w) ! n" using n by simp
  also have "\<dots> = Suc n" using n(1) by (simp only: m) (simp del: upt_Suc)
  finally show ?thesis using n by blast
qed

lemma prune_fields:
  assumes "pruneReplay at i d = (x, d')"
  shows "set (events d') \<subseteq> set (events d)"
    "map (\<lambda>s. (se_id s, se_sequence s)) (sessions d') = map (\<lambda>s. (se_id s, se_sequence s)) (sessions d)"
  using assms
  by (auto simp: pruneReplay_def Let_def map_update_where_key delete_where_def split: option.splits)

lemma log_ok_frame:
  assumes "log_ok w" "sw_log w' = sw_log w" "replay_ok (sw_db w')" "set (events (sw_db w')) \<subseteq> set (events (sw_db w))"
    and "map (\<lambda>s. (se_id s, se_sequence s)) (sessions (sw_db w')) = map (\<lambda>s. (se_id s, se_sequence s)) (sessions (sw_db w))"
  shows "log_ok w'"
proof -
  have same: "log_of i w' = log_of i w" for i using assms(2) by (simp add: log_of_def)
  have "se_sequence s = length (log_of (se_id s) w)" if "s \<in> set (sessions (sw_db w'))" for s
  proof -
    have "(se_id s, se_sequence s) \<in> set (map (\<lambda>s. (se_id s, se_sequence s)) (sessions (sw_db w)))"
      using that unfolding assms(5) [symmetric] by auto
    then show ?thesis using assms(1) by (auto simp: log_ok_def)
  qed
  then show ?thesis using assms by (auto simp: log_ok_def same)
qed

lemma log_ok_pruned:
  assumes "log_ok w" "pruneReplay at i (sw_db w) = (x, d)" "sw_log w' = sw_log w" "sw_db w' = d"
  shows "log_ok w'"
proof (rule log_ok_frame [OF assms(1,3)])
  show "replay_ok (sw_db w')"
    using pruneReplay_replay_ok [of "sw_db w" at i] assms(1,2,4) by (simp add: log_ok_def)
qed (use prune_fields [OF assms(2)] assms(4) in auto)

lemma replay_ok_view:
  assumes "replay_ok d" "replay_view d' = replay_view d"
  shows "replay_ok d'"
proof -
  have ev: "events d' = events d" and
    ss: "map (\<lambda>s. (se_id s, se_sequence s, se_replay_floor s)) (sessions d') = map (\<lambda>s. (se_id s, se_sequence s, se_replay_floor s)) (sessions d)"
    using assms(2) by (simp_all add: replay_view_def)
  have ids: "map se_id (sessions d') = map se_id (sessions d)" using arg_cong [OF ss, of "map fst"] by (simp add: comp_def)
  have floors: "event_seqs i d' = event_seqs i d" for i by (simp add: event_seqs_def ev)
  have older: "\<exists>t \<in> set (sessions d). se_id t = se_id s \<and> se_sequence t = se_sequence s \<and> se_replay_floor t = se_replay_floor s"
    if "s \<in> set (sessions d')" for s
  proof -
    have "(se_id s, se_sequence s, se_replay_floor s) \<in> set (map (\<lambda>s. (se_id s, se_sequence s, se_replay_floor s)) (sessions d))"
      using that unfolding ss [symmetric] by auto
    then show ?thesis by auto
  qed
  show ?thesis unfolding replay_ok_def ids ev floors
    using assms(1) older unfolding replay_ok_def by metis
qed

lemma log_ok_rewritten:
  assumes "log_ok w" "replay_view d = replay_view (sw_db w)"
  shows "log_ok (w\<lparr>sw_db := d\<rparr>)"
proof (rule log_ok_frame [OF assms(1)])
  show "replay_ok (sw_db (w\<lparr>sw_db := d\<rparr>))" using assms replay_ok_view by (auto simp: log_ok_def)
  show "set (events (sw_db (w\<lparr>sw_db := d\<rparr>))) \<subseteq> set (events (sw_db w))" using assms(2) by (simp add: replay_view_def)
  have "map (\<lambda>s. (se_id s, se_sequence s, se_replay_floor s)) (sessions d) =
      map (\<lambda>s. (se_id s, se_sequence s, se_replay_floor s)) (sessions (sw_db w))"
    using assms(2) by (simp add: replay_view_def)
  from arg_cong [OF this, of "map (\<lambda>(i, n, f). (i, n))"]
  show "map (\<lambda>s. (se_id s, se_sequence s)) (sessions (sw_db (w\<lparr>sw_db := d\<rparr>))) =
      map (\<lambda>s. (se_id s, se_sequence s)) (sessions (sw_db w))" by (simp add: comp_def)
qed simp

lemma log_ok_created:
  assumes "log_ok w" "new_conversation s w = Inr w'"
  shows "log_ok w' \<and> sw_log w' = sw_log w \<and> sw_streams w' = sw_streams w"
proof -
  have w': "w' = w\<lparr>sw_db := (sw_db w)\<lparr>sessions := sessions (sw_db w) @ [s]\<rparr>\<rparr>" and
    fresh: "se_id s \<notin> se_id ` set (sessions (sw_db w))" "log_of (se_id s) w = []" "se_sequence s = 0" "se_replay_floor s = 0"
    using assms(2) by (auto simp: new_conversation_def split: if_splits)
  have none: "event_seqs (se_id s) (sw_db w) = {}"
    using assms(1) log_at [OF assms(1)] fresh(2) by (fastforce simp: event_seqs_def)
  have seqs: "event_seqs i (sw_db w') = event_seqs i (sw_db w)" for i by (simp add: w' event_seqs_def)
  have "replay_ok (sw_db w)" using assms(1) by (simp add: log_ok_def)
  then have "replay_ok (sw_db w')" using fresh none unfolding replay_ok_def seqs by (simp add: w')
  then show ?thesis using assms(1) fresh unfolding log_ok_def by (simp add: w')
qed

lemma numbered_snoc:
  assumes "map f xs = [1..<Suc (length xs)]" "f v = Suc (length xs)"
  shows "map f (xs @ [v]) = [1..<Suc (length (xs @ [v]))]"
proof -
  have "[1..<Suc (Suc (length xs))] = [1..<Suc (length xs)] @ [Suc (length xs)]" by (rule upt_Suc_append) simp
  then show ?thesis using assms by simp
qed

lemma log_ok_appended:
  assumes "log_ok w" "append_log e i ty data w = Inr w'"
  shows "log_ok w' \<and> log_grows w w' \<and> sw_streams w' = sw_streams w"
proof -
  obtain q d where ev: "event e i ty data (sw_db w) = Inr (q, d)"
    and w': "w' = w\<lparr> sw_db := d, sw_log := sw_log w @ [\<lparr> ev_session = i, ev_sequence = q, ev_type = ty, ev_data = data, ev_created_at = now e \<rparr>] \<rparr>"
    using assms(2) by (auto simp: append_log_def res_simps)
  have ok: "replay_ok (sw_db w)" using assms(1) by (simp add: log_ok_def)
  obtain s where s: "session_find i (sw_db w) = Some s" using ev by (auto simp: event_def res_simps)
  then have q: "q = Suc (se_sequence s)" and d: "d = snd (pruneReplay (now e) i (append_event e i ty data s (sw_db w)))"
    using ev event_eq [OF ok s] by auto
  have sm: "s \<in> set (sessions (sw_db w))" "se_id s = i" using s by (auto dest: session_find_Some)
  let ?v = "\<lparr> ev_session = i, ev_sequence = q, ev_type = ty, ev_data = data, ev_created_at = now e \<rparr>"
  let ?w = "w\<lparr> sw_db := append_event e i ty data s (sw_db w), sw_log := sw_log w @ [?v] \<rparr>"
  have len: "se_sequence s = length (log_of i w)" using assms(1) sm by (auto simp: log_ok_def)
  have logs: "log_of j ?w = (if j = i then log_of j w @ [?v] else log_of j w)" for j by (simp add: log_of_def)
  have "log_ok ?w" unfolding log_ok_def
  proof (intro conjI allI ballI)
    show "replay_ok (sw_db ?w)" using append_event_replay_ok [OF ok s] by simp
    show "set (events (sw_db ?w)) \<subseteq> set (sw_log ?w)" using assms(1) q by (auto simp: log_ok_def append_event_def)
    have num: "map ev_sequence (log_of j w) = [1..<Suc (length (log_of j w))]" for j
      using assms(1) unfolding log_ok_def by blast
    have "map ev_sequence (log_of i w @ [?v]) = [1..<Suc (length (log_of i w @ [?v]))]"
      by (rule numbered_snoc [OF num]) (simp add: q len)
    then show "map ev_sequence (log_of j ?w) = [1..<Suc (length (log_of j ?w))]" for j
      by (cases "j = i") (simp_all only: logs if_True if_False num simp_thms)
    fix t assume "t \<in> set (sessions (sw_db ?w))"
    then obtain t0 where "t0 \<in> set (sessions (sw_db w))" "t = (if se_id t0 = i then t0\<lparr>se_sequence := Suc (se_sequence t0), se_updated_at := now e\<rparr> else t0)"
      by (auto simp: append_event_def set_update_where)
    then show "se_sequence t = length (log_of (se_id t) ?w)" using assms(1) by (auto simp: log_ok_def logs)
  qed
  moreover have "pruneReplay (now e) i (sw_db ?w) = (fst (pruneReplay (now e) i (append_event e i ty data s (sw_db w))), d)"
    using d by (simp add: prod_eq_iff)
  ultimately have "log_ok w'" by (rule log_ok_pruned) (simp_all add: w')
  then show ?thesis by (simp add: w' log_grows_def)
qed

section \<open>Streams\<close>

lemma stream_ok_state [simp]: "stream_ok w (s\<lparr>sm_state := x\<rparr>) = stream_ok w s" "stream_ok w (s\<lparr>sm_checked := y\<rparr>) = stream_ok w s"
  "stream_ok w (s\<lparr>sm_counted := y\<rparr>) = stream_ok w s"
  by (simp_all add: stream_ok_def)

lemma stream_ok_new: "sm_sent s = [] \<Longrightarrow> sm_cursor s = sm_from s \<Longrightarrow> stream_ok w s"
  by (simp add: stream_ok_def)

lemma stream_ok_extend:
  assumes "log_ok w" "stream_ok w s" "v \<in> set (events (sw_db w))" "ev_session v = sm_session s" "ev_sequence v = sm_cursor s + 1"
  shows "stream_ok w (s\<lparr> sm_cursor := ev_sequence v, sm_sent := sm_sent s @ [v] \<rparr>)"
proof -
  let ?l = "drop (sm_from s) (log_of (sm_session s) w)" and ?n = "length (sm_sent s)"
  obtain n where "ev_sequence v = Suc n" "n < length (log_of (sm_session s) w)" "log_of (sm_session s) w ! n = v"
    using log_at [OF assms(1,3,4)] by blast
  moreover have c: "sm_cursor s = sm_from s + ?n" using assms(2) by (simp add: stream_ok_def)
  ultimately have "?n < length ?l" "?l ! ?n = v" using assms(5) by simp_all
  then have "take (Suc ?n) ?l = take ?n ?l @ [v]" by (simp add: take_Suc_conv_app_nth)
  also have "take ?n ?l = sm_sent s" using assms(2) by (simp add: stream_ok_def)
  finally show ?thesis using c assms(5) by (simp add: stream_ok_def)
qed

lemma send_rows_ok:
  "log_ok w \<Longrightarrow> stream_ok w s \<Longrightarrow> set vs \<subseteq> {v \<in> set (events (sw_db w)). ev_session v = sm_session s} \<Longrightarrow> stream_ok w (send_rows room vs s)"
proof (induction room vs s rule: send_rows.induct)
  case (2 room v vs s)
  let ?s = "s\<lparr> sm_cursor := ev_sequence v, sm_sent := sm_sent s @ [v] \<rparr>"
  show ?case
  proof (cases "ev_sequence v = sm_cursor s + 1")
    case True
    then have "stream_ok w ?s" using 2(2-4) by (intro stream_ok_extend) auto
    then show ?thesis using 2 True by (simp add: Let_def split: nat.split)
  qed (use 2 in simp)
qed simp

lemma stream_page_in: "set (stream_page at i c d) \<subseteq> {v \<in> set (events d). ev_session v = i}"
  by (auto simp: stream_page_def dest!: in_set_takeD)

lemma stream_send_ok: "log_ok w \<Longrightarrow> stream_ok w s \<Longrightarrow> stream_ok w (stream_send e room s (sw_db w))"
  by (simp add: stream_send_def send_rows_ok stream_page_in)

lemma stream_check_cases:
  assumes "stream_check e s d = (s', d')"
  shows "(\<exists>st c. s' = s\<lparr> sm_state := st, sm_checked := c \<rparr>) \<and> (d' = d \<or> (\<exists>x. pruneReplay (now e) (sm_session s) d = (x, d')))"
proof -
  have same: "s = s\<lparr> sm_state := sm_state s, sm_checked := sm_checked s \<rparr>" by simp
  have st: "s\<lparr>sm_state := x\<rparr> = s\<lparr> sm_state := x, sm_checked := sm_checked s \<rparr>" for x by simp
  have ch: "s\<lparr>sm_checked := True\<rparr> = s\<lparr> sm_state := sm_state s, sm_checked := True \<rparr>" by simp
  show ?thesis using assms
    by (auto simp: stream_check_def split: if_splits sum.splits prod.splits option.splits)
      (metis same st ch)+
qed

lemma open_stream_Inr:
  assumes "open_stream e r (counts, d0) = Inr (s, counts', d)"
  shows "sm_sent s = [] \<and> sm_cursor s = sm_from s \<and> (\<exists>x. pruneReplay (now e) (sr_session r) d0 = (x, d))"
  using assms by (auto simp: open_stream_def Let_def res_simps split: prod.splits)

section \<open>Every event keeps the delivery\<close>

lemma delivery_keepsI:
  assumes "delivery_ok w" "log_ok w'" "log_grows w w'" "\<And>s. s \<in> set (sw_streams w') \<Longrightarrow> s \<in> set (sw_streams w) \<or> stream_ok w s"
  shows "delivery_ok w' \<and> log_grows w w'"
  using assms stream_ok_grows unfolding delivery_ok_def by blast

lemma log_grows_same: "sw_log w' = sw_log w \<Longrightarrow> log_grows w w'"
  by (simp add: log_grows_def)

lemma at_stream_Inr: "at_stream k f w = Inr w' \<longleftrightarrow> k < length (sw_streams w) \<and> f (sw_streams w ! k) = Inr w'"
  by (simp add: at_stream_def)

lemma put_stream_in: "s \<in> set (sw_streams (put_stream k t w)) \<Longrightarrow> s \<in> set (sw_streams w) \<or> s = t"
  using set_update_subset_insert by (fastforce simp: put_stream_def)

lemma delivery_put:
  assumes "delivery_ok w" "stream_ok w t" "log_ok w'" "sw_log w' = sw_log w" "sw_streams w' = sw_streams (put_stream k t w)"
  shows "delivery_ok w' \<and> log_grows w w'"
proof (rule delivery_keepsI [OF assms(1,3) log_grows_same [OF assms(4)]])
  fix s assume "s \<in> set (sw_streams w')"
  then show "s \<in> set (sw_streams w) \<or> stream_ok w s" using assms(2) put_stream_in unfolding assms(5) by blast
qed

lemma put_stream_fields [simp]: "sw_log (put_stream k t w) = sw_log w" "sw_db (put_stream k t w) = sw_db w"
  by (simp_all add: put_stream_def)

lemma log_ok_cong: "log_ok w \<Longrightarrow> sw_log w' = sw_log w \<Longrightarrow> sw_db w' = sw_db w \<Longrightarrow> log_ok w'"
  by (rule log_ok_frame) (auto simp: log_ok_def)

lemma stream_happen_keeps:
  assumes "stream_happen x w = Inr w'" "delivery_ok w"
  shows "delivery_ok w' \<and> log_grows w w'"
proof -
  obtain e y where x: "x = (e, y)" by force
  have ok: "log_ok w" using assms(2) by (simp add: delivery_ok_def)
  show ?thesis
  proof (cases y)
    case (Created s)
    then show ?thesis using assms x log_ok_created [OF ok, of s w']
      by (intro delivery_keepsI) (auto simp: stream_happen_def intro: log_grows_same)
  next
    case (Appended i ty data)
    then show ?thesis using assms x log_ok_appended [OF ok, of e i ty data w']
      by (intro delivery_keepsI) (auto simp: stream_happen_def)
  next
    case (Pruned i)
    obtain z d where p: "pruneReplay (now e) i (sw_db w) = (z, d)" by force
    then have w': "w' = w\<lparr>sw_db := d\<rparr>" using assms(1) x Pruned by (simp add: stream_happen_def)
    have "log_ok w'" using ok p by (rule log_ok_pruned) (simp_all add: w')
    then show ?thesis using assms(2) by (intro delivery_keepsI) (auto simp: w' intro: log_grows_same)
  next
    case (Rewritten d)
    then have w': "w' = w\<lparr>sw_db := d\<rparr>" "replay_view d = replay_view (sw_db w)"
      using assms(1) x by (auto simp: stream_happen_def split: if_splits)
    then show ?thesis using assms(2) log_ok_rewritten [OF ok w'(2)] by (intro delivery_keepsI) (auto intro: log_grows_same)
  next
    case (Requested expected origin owner i cursor)
    then obtain r where w': "w' = w\<lparr>sw_requests := sw_requests w @ [r]\<rparr>"
      using assms(1) x by (auto simp: stream_happen_def res_simps)
    have "log_ok w'" using ok by (rule log_ok_cong) (simp_all add: w')
    then show ?thesis using assms(2) by (intro delivery_keepsI) (auto simp: w' intro: log_grows_same)
  next
    case (Opened k)
    then obtain s counts d where o: "open_stream e (sw_requests w ! k) (sw_counts w, sw_db w) = Inr (s, counts, d)"
      and w': "w' = w\<lparr> sw_db := d, sw_counts := counts, sw_requests := take k (sw_requests w) @ drop (Suc k) (sw_requests w),
        sw_streams := sw_streams w @ [s] \<rparr>"
      using assms(1) x by (auto simp: stream_happen_def res_simps split: if_splits)
    obtain z where p: "sm_sent s = []" "sm_cursor s = sm_from s" "pruneReplay (now e) (sr_session (sw_requests w ! k)) (sw_db w) = (z, d)"
      using open_stream_Inr [OF o] by blast
    have "log_ok w'" using ok p(3) by (rule log_ok_pruned) (simp_all add: w')
    then show ?thesis using assms(2) stream_ok_new [OF p(1,2)] by (intro delivery_keepsI) (auto simp: w' intro: log_grows_same)
  next
    case (Checked k)
    obtain s' d where c: "stream_check e (sw_streams w ! k) (sw_db w) = (s', d)" by force
    then have k: "k < length (sw_streams w)" and w': "w' = (put_stream k s' w)\<lparr>sw_db := d\<rparr>"
      using assms(1) x Checked by (auto simp: stream_happen_def at_stream_Inr)
    have "stream_ok w (sw_streams w ! k)" using assms(2) k by (simp add: delivery_ok_def)
    then have s': "stream_ok w s'" using stream_check_cases [OF c] by auto
    have "log_ok w'" using stream_check_cases [OF c]
    proof (elim conjE disjE exE)
      assume "d = sw_db w"
      then show ?thesis using ok by (intro log_ok_cong [OF ok]) (simp_all add: w')
    next
      fix z assume "pruneReplay (now e) (sm_session (sw_streams w ! k)) (sw_db w) = (z, d)"
      then show ?thesis using ok by (intro log_ok_pruned [OF ok]) (simp_all add: w')
    qed
    then show ?thesis by (rule delivery_put [OF assms(2) s']) (simp_all add: w')
  next
    case (Sent k room)
    then have k: "k < length (sw_streams w)" and w': "w' = put_stream k (stream_send e room (sw_streams w ! k) (sw_db w)) w"
      using assms(1) x by (auto simp: stream_happen_def at_stream_Inr)
    have "stream_ok w (sw_streams w ! k)" using assms(2) k by (simp add: delivery_ok_def)
    then have s': "stream_ok w (stream_send e room (sw_streams w ! k) (sw_db w))" by (rule stream_send_ok [OF ok])
    have "log_ok w'" using ok by (rule log_ok_cong) (simp_all add: w')
    then show ?thesis by (rule delivery_put [OF assms(2) s']) (simp_all add: w')
  next
    case (Closed k)
    let ?s = "(sw_streams w ! k)\<lparr> sm_state := Ended, sm_counted := False \<rparr>"
    have k: "k < length (sw_streams w)" and w': "w' = (put_stream k ?s w)\<lparr>sw_counts := close_stream (sw_streams w ! k) (sw_counts w)\<rparr>"
      using assms(1) x Closed by (auto simp: stream_happen_def at_stream_Inr split: if_splits)
    have s': "stream_ok w ?s" using assms(2) k by (simp add: delivery_ok_def)
    have "log_ok w'" using ok by (rule log_ok_cong) (simp_all add: w')
    then show ?thesis by (rule delivery_put [OF assms(2) s']) (simp_all add: w' put_stream_def)
  qed
qed

interpretation delivery: evolving_ops stream_happen delivery_ok log_grows
proof
  show "log_grows s s" for s by (simp add: log_grows_def)
  show "log_grows s t \<Longrightarrow> log_grows t u \<Longrightarrow> log_grows s u" for s t u
    by (auto simp: log_grows_def intro: prefix_order.trans)
qed (use stream_happen_keeps in blast)+

lemma delivery_start: "delivery_ok (start_streams d)"
  by (simp add: delivery_ok_def log_ok_def start_streams_def log_of_def replay_ok_def)

text \<open>C18: What a client of an event stream has received is a gapless piece of the conversation's log that starts right after the cursor it came with: no event is skipped, repeated, reordered or altered, however appending, pruning, other streams and ticks interleave.\<close>

theorem stream_delivers_log:
  assumes "w = serve stream_happen xs (start_streams d)" "s \<in> set (sw_streams w)"
  shows "sm_sent s = take (length (sm_sent s)) (drop (sm_from s) (log_of (sm_session s) w)) \<and>
     map ev_sequence (sm_sent s) = [Suc (sm_from s)..<Suc (sm_cursor s)]"
proof -
  have ok: "delivery_ok w" unfolding assms(1) by (intro delivery.serve_keeps delivery_start)
  let ?l = "log_of (sm_session s) w" and ?n = "length (sm_sent s)"
  have s: "sm_sent s = take ?n (drop (sm_from s) ?l)" "sm_cursor s = sm_from s + ?n"
    using ok assms(2) by (auto simp: delivery_ok_def stream_ok_def)
  have num: "map ev_sequence ?l = [1..<Suc (length ?l)]" using ok by (auto simp: delivery_ok_def log_ok_def simp del: upt_Suc)
  have len: "?n \<le> length ?l - sm_from s" using arg_cong [OF s(1), of length] by simp
  have "map ev_sequence (sm_sent s) = take ?n (drop (sm_from s) [1..<Suc (length ?l)])"
    by (subst s(1)) (simp only: take_map [symmetric] drop_map [symmetric] num)
  also have "\<dots> = [Suc (sm_from s)..<Suc (sm_cursor s)]"
  proof (cases "?n = 0")
    case False
    then have "0 < ?n" by (rule neq0_conv [THEN iffD1])
    then have "Suc (sm_from s) + ?n \<le> Suc (length ?l)" using len by arith
    then show ?thesis using s(2) by (simp add: drop_upt take_upt del: upt_Suc)
  qed (simp add: s(2))
  finally show ?thesis using s(1) by blast
qed

section \<open>Progress\<close>

lemma send_rows_mono: "sm_cursor s \<le> sm_cursor (send_rows room vs s)"
  by (induction room vs s rule: send_rows.induct) (force simp: Let_def split: nat.split dest: Suc_leD)+

lemma in_set_Cons: "x \<in> set xs \<Longrightarrow> \<exists>y ys. xs = y # ys"
  by (cases xs) auto

lemma stream_page_first:
  assumes "v \<in> set (events d)" "ev_session v = i" "ev_sequence v = Suc c" "at - 7 * 86400000 \<le> ev_created_at v"
  obtains u us where "stream_page at i c d = u # us" "ev_sequence u = Suc c"
proof -
  let ?P = "\<lambda>v. ev_session v = i \<and> ev_sequence v > c \<and> ev_created_at v \<ge> at - 7 * 86400000"
  let ?l = "sort_key ev_sequence (filter ?P (events d))"
  have v: "v \<in> set ?l" using assms by simp
  obtain u us where l: "?l = u # us" using in_set_Cons [OF v] by blast
  have "sorted (map ev_sequence ?l)" by simp
  then have "ev_sequence u \<le> Suc c" using v assms(3) unfolding l by auto
  moreover have "u \<in> set ?l" unfolding l by simp
  then have "c < ev_sequence u" by simp
  ultimately show thesis using l by (intro that [of u "take 99 us"]) (simp_all add: stream_page_def)
qed

lemma pruned_event:
  assumes "replay_ok d" "pruneReplay at i d = (Some (q, f), d')" "f \<le> c" "c < q"
  shows "\<exists>v \<in> set (events d'). ev_session v = i \<and> ev_sequence v = Suc c \<and> at - 7 * 86400000 \<le> ev_created_at v"
proof -
  obtain s where s: "session_find i d = Some s" and q: "q = se_sequence s"
    and d': "d' = update_session i (\<lambda>s. s\<lparr>se_replay_floor := f\<rparr>) (d\<lparr>events := delete_where (replay_expired at s) (events d)\<rparr>)"
    using assms(2) by (auto simp: pruneReplay_def Let_def split: option.splits)
  let ?s = "s\<lparr>se_replay_floor := f\<rparr>"
  have sm: "s \<in> set (sessions d)" "se_id s = i" using s by (auto dest: session_find_Some)
  then have "?s \<in> set (sessions d')" by (auto simp: d' set_update_where)
  moreover have "replay_ok d'" using pruneReplay_replay_ok [OF assms(1), of at i] assms(2) by simp
  ultimately have "{se_replay_floor ?s<..se_sequence ?s} \<subseteq> event_seqs (se_id ?s) d'" unfolding replay_ok_def by blast
  then have "Suc c \<in> event_seqs i d'" using assms(3,4) q sm(2) by auto
  then obtain v where v: "v \<in> set (events d')" "ev_session v = i" "ev_sequence v = Suc c" by (auto simp: event_seqs_def)
  then have "\<not> replay_expired at s v" by (simp add: d' set_delete_where)
  then show ?thesis using v sm(2) by (auto simp: replay_expired_def)
qed

text \<open>An event that has left the table does not come back: only appending adds one, with a new number.\<close>

definition events_fresh :: "stream_world \<Rightarrow> stream_world \<Rightarrow> bool" where
  "events_fresh w w' \<longleftrightarrow> (\<forall>v \<in> set (events (sw_db w')). v \<in> set (events (sw_db w)) \<or>
     length (log_of (ev_session v) w) < ev_sequence v)"

definition stream_moves :: "stream_world \<Rightarrow> stream_world \<Rightarrow> bool" where
  "stream_moves w w' \<longleftrightarrow> log_grows w w' \<and> events_fresh w w'"

lemma events_fresh_subset: "set (events (sw_db w')) \<subseteq> set (events (sw_db w)) \<Longrightarrow> events_fresh w w'"
  by (auto simp: events_fresh_def)

lemma prune_subset: "set (events (snd (pruneReplay at i d))) \<subseteq> set (events d)"
  by (rule prune_fields(1)) (rule prod.collapse [symmetric])

lemma log_of_length: "log_grows w w' \<Longrightarrow> length (log_of i w) \<le> length (log_of i w')"
  unfolding log_grows_def by (intro prefix_length_le log_of_prefix)

lemma append_fresh:
  assumes "log_ok w" "append_log e i ty data w = Inr w'"
  shows "events_fresh w w'"
proof -
  obtain q d where ev: "event e i ty data (sw_db w) = Inr (q, d)" and w': "sw_db w' = d"
    using assms(2) by (auto simp: append_log_def res_simps)
  obtain s where s: "session_find i (sw_db w) = Some s" using ev by (auto simp: event_def res_simps)
  then have d: "d = snd (pruneReplay (now e) i (append_event e i ty data s (sw_db w)))"
    using ev event_eq [OF _ s] assms(1) by (auto simp: log_ok_def)
  have "se_sequence s = length (log_of i w)" using assms(1) s by (auto simp: log_ok_def dest: session_find_Some)
  then have "v \<in> set (events (sw_db w)) \<or> length (log_of (ev_session v) w) < ev_sequence v"
    if "v \<in> set (events (append_event e i ty data s (sw_db w)))" for v
    using that by (auto simp: append_event_def)
  then show ?thesis using prune_subset [of "now e" i "append_event e i ty data s (sw_db w)"] by (auto simp: events_fresh_def w' d)
qed

lemma stream_happen_fresh:
  assumes "stream_happen (e, y) w = Inr w'" "delivery_ok w"
  shows "events_fresh w w'"
proof (cases y)
  case (Appended i ty data)
  then show ?thesis using assms append_fresh by (auto simp: stream_happen_def delivery_ok_def)
next
  case (Opened k)
  then obtain s counts d where o: "open_stream e (sw_requests w ! k) (sw_counts w, sw_db w) = Inr (s, counts, d)" and d: "sw_db w' = d"
    using assms(1) by (auto simp: stream_happen_def res_simps split: if_splits)
  then obtain x where p: "pruneReplay (now e) (sr_session (sw_requests w ! k)) (sw_db w) = (x, d)"
    using open_stream_Inr [OF o] by blast
  show ?thesis using prune_fields(1) [OF p] d by (intro events_fresh_subset) simp
next
  case (Checked k)
  obtain s' d where c: "stream_check e (sw_streams w ! k) (sw_db w) = (s', d)" by force
  then have d: "sw_db w' = d" using assms(1) Checked by (auto simp: stream_happen_def at_stream_Inr)
  have "set (events d) \<subseteq> set (events (sw_db w))" using stream_check_cases [OF c] prune_fields(1) by blast
  then show ?thesis by (intro events_fresh_subset) (simp add: d)
next
  case (Pruned i)
  then have "sw_db w' = snd (pruneReplay (now e) i (sw_db w))" using assms(1) by (auto simp: stream_happen_def)
  then show ?thesis using prune_subset [of "now e" i "sw_db w"] by (intro events_fresh_subset) simp
next
  case (Created s)
  then show ?thesis using assms(1) by (auto simp: stream_happen_def new_conversation_def intro!: events_fresh_subset split: if_splits)
qed (use assms(1) in \<open>auto simp: stream_happen_def replay_view_def at_stream_Inr res_simps intro!: events_fresh_subset split: if_splits\<close>)

interpretation progress: evolving_ops stream_happen delivery_ok stream_moves
proof
  show "stream_moves s s" for s by (simp add: stream_moves_def log_grows_def events_fresh_def)
  show "stream_moves s u" if "stream_moves s t" "stream_moves t u" for s t u
  proof -
    have "log_grows s u" using that by (auto simp: stream_moves_def log_grows_def intro: prefix_order.trans)
    moreover have "events_fresh s u"
      using that log_of_length [of s t] unfolding stream_moves_def events_fresh_def by (meson order.strict_trans1)
    ultimately show ?thesis by (simp add: stream_moves_def)
  qed
  show "stream_moves s s'" if "stream_happen x s = Inr s'" "delivery_ok s" for x s s'
    using stream_happen_fresh [of "fst x" "snd x" s s'] stream_happen_keeps [OF that] that by (simp add: stream_moves_def)
qed

text \<open>Events of other requests and streams leave a stream alone.\<close>

fun names_stream :: "nat \<Rightarrow> stream_event \<Rightarrow> bool" where
  "names_stream k (Checked j) \<longleftrightarrow> j = k"
| "names_stream k (Sent j _) \<longleftrightarrow> j = k"
| "names_stream k (Closed j) \<longleftrightarrow> j = k"
| "names_stream k _ \<longleftrightarrow> False"

lemma other_event:
  assumes "stream_happen (e, y) w = Inr w'" "\<not> names_stream k y" "k < length (sw_streams w)"
  shows "k < length (sw_streams w') \<and> sw_streams w' ! k = sw_streams w ! k"
proof (cases y)
  case (Created s)
  then show ?thesis using assms by (auto simp: stream_happen_def new_conversation_def split: if_splits)
next
  case (Appended i ty data)
  then show ?thesis using assms by (auto simp: stream_happen_def append_log_def res_simps)
next
  case (Opened j)
  then show ?thesis using assms by (auto simp: stream_happen_def res_simps nth_append split: if_splits)
next
  case (Checked j)
  then show ?thesis using assms by (auto simp: stream_happen_def at_stream_Inr put_stream_def split: prod.splits)
qed (use assms in \<open>auto simp: stream_happen_def at_stream_Inr put_stream_def res_simps split: if_splits\<close>)

lemma other_events:
  assumes "\<forall>x \<in> set xs. \<not> names_stream k (snd x)" "k < length (sw_streams w)"
  shows "k < length (sw_streams (serve stream_happen xs w)) \<and> sw_streams (serve stream_happen xs w) ! k = sw_streams w ! k"
  using assms
proof (induction xs arbitrary: w)
  case (Cons x xs)
  show ?case
  proof (cases "stream_happen x w")
    case (Inr w')
    then have "k < length (sw_streams w') \<and> sw_streams w' ! k = sw_streams w ! k"
      using other_event [of "fst x" "snd x" w w' k] Cons.prems by simp
    then show ?thesis using Cons.IH [of w'] Cons.prems Inr by simp
  qed (use Cons in simp)
qed simp

text \<open>What a check and a page of one stream come to.\<close>

lemma checked_stream:
  assumes "log_ok w" "k < length (sw_streams w)" "s = sw_streams w ! k" "sm_state s = Streaming" "\<not> sm_checked s"
    and "stream_authority e s (sw_db w) = Inr u" "sm_cursor s < length (log_of (sm_session s) w)"
  obtains f d where "pruneReplay (now e) (sm_session s) (sw_db w) = (Some (length (log_of (sm_session s) w), f), d)"
    "stream_happen (e, Checked k) w = Inr ((put_stream k (if sm_cursor s < f then s\<lparr>sm_state := Resynced\<rparr> else s\<lparr>sm_checked := True\<rparr>) w)\<lparr>sw_db := d\<rparr>)"
proof -
  obtain x where x: "session_find (sm_session s) (sw_db w) = Some x" using assms(6) by (auto simp: stream_authority_def res_simps)
  then have q: "se_sequence x = length (log_of (sm_session s) w)" using assms(1) by (auto simp: log_ok_def dest: session_find_Some)
  obtain f d where p: "pruneReplay (now e) (sm_session s) (sw_db w) = (Some (se_sequence x, f), d)"
    using x by (simp add: pruneReplay_def Let_def)
  have "stream_happen (e, Checked k) w = Inr ((put_stream k (if sm_cursor s < f then s\<lparr>sm_state := Resynced\<rparr> else s\<lparr>sm_checked := True\<rparr>) w)\<lparr>sw_db := d\<rparr>)"
    using assms p q by (simp add: stream_happen_def at_stream_def stream_check_def)
  then show thesis using p q that by simp
qed

lemma sent_page:
  assumes "sm_state s = Streaming" "sm_checked s" "stream_page (now e) (sm_session s) (sm_cursor s) d \<noteq> []"
  shows "sm_cursor s < sm_cursor (stream_send e room s d) \<or> sm_state (stream_send e room s d) = Resynced"
proof -
  obtain a as where page: "stream_page (now e) (sm_session s) (sm_cursor s) d = a # as" using assms(3) by (auto simp: neq_Nil_conv)
  show ?thesis
  proof (cases "ev_sequence a = Suc (sm_cursor s)")
    case True
    let ?z = "s\<lparr> sm_cursor := Suc (sm_cursor s), sm_sent := sm_sent s @ [a] \<rparr>"
    show ?thesis
    proof (cases room)
      case (Suc n)
      then have "sm_cursor (stream_send e room s d) = sm_cursor (send_rows n as ?z)"
        using True assms page by (simp add: stream_send_def Let_def)
      then show ?thesis using send_rows_mono [of ?z n as] by simp
    qed (use True assms page in \<open>simp add: stream_send_def Let_def\<close>)
  qed (use assms page in \<open>simp add: stream_send_def\<close>)
qed

lemma page_none:
  assumes "stream_page at i c d = []" "v \<in> set (events d)" "ev_session v = i" "c < ev_sequence v"
  shows "ev_created_at v < at - 7 * 86400000"
  using assms by (force simp: stream_page_def filter_empty_conv not_le dest: arg_cong [of _ _ set])

text \<open>C19: A stream never stalls in silence. When its client is behind the conversation's log and its caller is authorised, then in one tick or at the check of the next one, with a clock of its own for each step and any events of other requests and streams in between, the cursor moves forward or the client is told to fetch a snapshot. (A single tick may find nothing: when the next event reaches the age of seven days between the check and the page, the page leaves it out, and the next check answers that a snapshot is needed.)\<close>

theorem stream_makes_progress:
  assumes "w = serve stream_happen xs (start_streams d0)" "k < length (sw_streams w)" "s = sw_streams w ! k"
    and "sm_state s = Streaming" "\<not> sm_checked s" "sm_cursor s < length (log_of (sm_session s) w)"
    and "\<forall>x \<in> set (xs1 @ xs2). \<not> names_stream k (snd x)" "now e2 \<le> now e3"
    and "w1 = serve stream_happen ((e1, Checked k) # xs1 @ [(e2, Sent k room)]) w"
    and "w2 = serve stream_happen (xs2 @ [(e3, Checked k)]) w1"
    and "stream_authority e1 s (sw_db w) = Inr u1" "stream_authority e3 s (sw_db (serve stream_happen xs2 w1)) = Inr u3"
  shows "sm_cursor s < sm_cursor (sw_streams w1 ! k) \<or> sm_state (sw_streams w2 ! k) = Resynced"
proof -
  have ok: "delivery_ok w" unfolding assms(1) by (intro delivery.serve_keeps delivery_start)
  then have log: "log_ok w" by (simp add: delivery_ok_def)
  let ?i = "sm_session s" and ?c = "sm_cursor s"
  obtain f d where p: "stream_happen (e1, Checked k) w =
      Inr ((put_stream k (if ?c < f then s\<lparr>sm_state := Resynced\<rparr> else s\<lparr>sm_checked := True\<rparr>) w)\<lparr>sw_db := d\<rparr>)"
    using checked_stream [OF log assms(2-5,11,6)] by blast
  define t where "t = (if ?c < f then s\<lparr>sm_state := Resynced\<rparr> else s\<lparr>sm_checked := True\<rparr>)"
  define v1 where "v1 = serve stream_happen xs1 ((put_stream k t w)\<lparr>sw_db := d\<rparr>)"
  define v2 where "v2 = serve stream_happen xs2 w1"
  have v1: "v1 = serve stream_happen ((e1, Checked k) # xs1) w" using p by (simp add: v1_def t_def)
  have len1: "k < length (sw_streams ((put_stream k t w)\<lparr>sw_db := d\<rparr>))" using assms(2) by (simp add: put_stream_def)
  have t: "k < length (sw_streams v1)" "sw_streams v1 ! k = t"
    unfolding v1_def using other_events [OF _ len1, of xs1] assms(2,7) by (simp_all add: put_stream_def)
  have w1: "w1 = serve stream_happen [(e2, Sent k room)] v1" using assms(9) unfolding v1 by (simp add: serve_append)
  then have sent: "w1 = put_stream k (stream_send e2 room t (sw_db v1)) v1" using t by (simp add: stream_happen_def at_stream_def)
  have v2: "k < length (sw_streams v2)" "sw_streams v2 ! k = stream_send e2 room t (sw_db v1)"
    unfolding v2_def using other_events [of xs2 k w1] assms(7) t(1) by (simp_all add: sent put_stream_def)
  have w2: "w2 = serve stream_happen [(e3, Checked k)] v2" using assms(10) by (simp add: v2_def serve_append)
  have resynced: ?thesis if "sm_state (stream_send e2 room t (sw_db v1)) = Resynced"
    using v2 that by (simp add: w2 stream_happen_def at_stream_def stream_check_def put_stream_def)
  show ?thesis
  proof (cases "?c < f")
    case True
    then show ?thesis using resynced by (simp add: t_def stream_send_def)
  next
    case False
    then have t': "t = s\<lparr>sm_checked := True\<rparr>" by (simp add: t_def)
    show ?thesis
    proof (cases "stream_page (now e2) ?i ?c (sw_db v1) = []")
      case True
      then have "stream_send e2 room t (sw_db v1) = s" using assms(4,5) by (simp add: t' stream_send_def)
      then have s2: "s = sw_streams v2 ! k" using v2 by simp
      have okv: "delivery_ok v1" unfolding v1 by (rule delivery.serve_keeps [OF ok])
      have later: "v2 = serve stream_happen ((e2, Sent k room) # xs2) v1"
        unfolding v2_def w1 by (simp add: serve_append [symmetric])
      then have move: "stream_moves v1 v2" and okw: "delivery_ok v2"
        using progress.serve_moves [OF okv, of "(e2, Sent k room) # xs2"] delivery.serve_keeps [OF okv, of "(e2, Sent k room) # xs2"]
        by (simp_all only: later [symmetric])
      have "log_grows w v1" unfolding v1 by (rule delivery.serve_moves [OF ok])
      then have len: "?c < length (log_of ?i v1)" using assms(6) log_of_length [of w v1 ?i] by simp
      then have len2: "?c < length (log_of ?i v2)" using move log_of_length [of v1 v2 ?i] by (simp add: stream_moves_def)
      have log2: "log_ok v2" using okw by (simp add: delivery_ok_def)
      obtain f' d' where q: "pruneReplay (now e3) ?i (sw_db v2) = (Some (length (log_of ?i v2), f'), d')"
        "stream_happen (e3, Checked k) v2 = Inr ((put_stream k (if ?c < f' then s\<lparr>sm_state := Resynced\<rparr> else s\<lparr>sm_checked := True\<rparr>) v2)\<lparr>sw_db := d'\<rparr>)"
        using checked_stream [OF log2 v2(1) s2 assms(4,5) assms(12) [folded v2_def] len2] by blast
      have "?c < f'"
      proof (rule ccontr)
        assume "\<not> ?c < f'"
        then obtain v where v: "v \<in> set (events d')" "ev_session v = ?i" "ev_sequence v = Suc ?c" "now e3 - 7 * 86400000 \<le> ev_created_at v"
          using pruned_event [OF _ q(1) _ len2] log2 by (auto simp: log_ok_def)
        then have "v \<in> set (events (sw_db v2))" using prune_fields(1) [OF q(1)] by blast
        then have "v \<in> set (events (sw_db v1))" using move v(2,3) len by (auto simp: stream_moves_def events_fresh_def)
        then show False using page_none [OF True _ v(2)] v(3,4) assms(8) by fastforce
      qed
      then show ?thesis using q(2) v2(1) by (simp add: w2 put_stream_def)
    next
      case False
      then have "?c < sm_cursor (stream_send e2 room t (sw_db v1)) \<or> sm_state (stream_send e2 room t (sw_db v1)) = Resynced"
        using sent_page [of t e2 "sw_db v1" room] assms(4) by (simp add: t')
      then show ?thesis using resynced t(1) by (auto simp: sent put_stream_def)
    qed
  qed
qed

section \<open>A concrete run\<close>

definition demo_request :: stream_event where
  "demo_request = Requested ''o'' None ''b'' ''s'' (Some 0)"

definition demo_log :: "(env \<times> stream_event) list" where
  "demo_log = map (Pair demo_env) [Created demo_session, Appended ''s'' ''one'' JNull, Appended ''s'' ''two'' JNull]"

definition demo_open :: "(env \<times> stream_event) list" where
  "demo_open = demo_log @ map (Pair demo_env) [demo_request, Opened 0]"

definition demo_pass :: "(env \<times> stream_event) list" where
  "demo_pass = demo_open @ map (Pair demo_env) [Checked 0, Sent 0 5]"

theorem stream_delivers_log_witness:
  "map ev_type (sm_sent (hd (sw_streams (serve stream_happen demo_pass (start_streams demo_db))))) = [''one'', ''two''] \<and>
   map ev_sequence (sm_sent (hd (sw_streams (serve stream_happen demo_pass (start_streams demo_db))))) = [1, 2]"
proof -
  let ?w = "serve stream_happen demo_pass (start_streams demo_db)"
  have l: "length (sw_streams ?w) = 1" "map ev_type (sm_sent (hd (sw_streams ?w))) = [''one'', ''two'']"
    "sm_from (hd (sw_streams ?w)) = 0" "sm_cursor (hd (sw_streams ?w)) = 2" by code_simp+
  then have "hd (sw_streams ?w) \<in> set (sw_streams ?w)" by (intro hd_in_set) auto
  from stream_delivers_log [OF refl this] show ?thesis using l(2-4) by (simp add: upt_rec)
qed

text \<open>
  A stream whose next event reaches the age of seven days between the check and the page: the page
  finds nothing, and the check of the next tick asks for a snapshot.
\<close>

definition demo_at :: "int \<Rightarrow> env" where
  "demo_at t = demo_env\<lparr>now := now demo_env + t\<rparr>"

definition demo_old :: "(env \<times> stream_event) list" where
  "demo_old = [(demo_env, Created demo_session), (demo_at (- 7 * 86400000), Appended ''s'' ''one'' JNull), (demo_env, demo_request),
     (demo_env, Opened 0)]"

theorem stream_makes_progress_witness:
  "let w = serve stream_happen demo_old (start_streams demo_db);
       w1 = serve stream_happen [(demo_env, Checked 0), (demo_env, demo_request), (demo_at 1, Sent 0 5)] w;
       w2 = serve stream_happen [(demo_at 1, Checked 0)] w1
   in sm_cursor (sw_streams w1 ! 0) = 0 \<and> sm_state (sw_streams w1 ! 0) = Streaming \<and> sm_state (sw_streams w2 ! 0) = Resynced"
proof -
  let ?w = "serve stream_happen demo_old (start_streams demo_db)"
  let ?xs = "[(demo_env, demo_request)]"
  let ?w1 = "serve stream_happen ((demo_env, Checked 0) # ?xs @ [(demo_at 1, Sent 0 5)]) ?w"
  have k: "0 < length (sw_streams ?w)" "sm_state (sw_streams ?w ! 0) = Streaming" "\<not> sm_checked (sw_streams ?w ! 0)"
    "sm_cursor (sw_streams ?w ! 0) = 0" "0 < length (log_of (sm_session (sw_streams ?w ! 0)) ?w)"
    "stream_authority demo_env (sw_streams ?w ! 0) (sw_db ?w) = Inr ()"
    "stream_authority (demo_at 1) (sw_streams ?w ! 0) (sw_db (serve stream_happen [] ?w1)) = Inr ()"
    "sm_cursor (sw_streams ?w1 ! 0) = 0" "sm_state (sw_streams ?w1 ! 0) = Streaming" by code_simp+
  have other: "\<forall>x \<in> set (?xs @ []). \<not> names_stream 0 (snd x)" by (simp add: demo_request_def)
  have "sm_cursor (sw_streams ?w ! 0) < length (log_of (sm_session (sw_streams ?w ! 0)) ?w)" using k(4,5) by simp
  from stream_makes_progress [OF refl k(1) refl k(2,3) this other order_refl refl refl k(6,7)]
  show ?thesis using k(4,8,9) by (simp add: Let_def)
qed

text \<open>
  The quota of four streams for a caller is checked before two reads and counted after them, so
  requests that are checked together all pass: here five streams of one caller run at once.
\<close>

definition demo_race :: "(env \<times> stream_event) list" where
  "demo_race = demo_log @ map (Pair demo_env) (replicate 5 demo_request @ replicate 5 (Opened 0))"

theorem stream_quota_raced:
  "count_where (\<lambda>s. sm_owner s = ''b'' \<and> sm_state s = Streaming) (sw_streams (serve stream_happen demo_race (start_streams demo_db))) = 5"
  by code_simp

end
