(* ===== verification/Sign_In.thy ===== *)
theory Sign_In
  imports Api_Requests Samples "HOL-Library.Multiset"
begin

text \<open>
  Signing in: \<^verbatim>\<open>/auth/login\<close> and \<^verbatim>\<open>/auth/callback\<close> of
  \<^verbatim>\<open>apps/api/src/server.ts\<close>, and the limit on the rate of requests before them. The identity
  provider's answer to an authorization code is an argument; a callback consumes its login state in one
  statement and makes the browser session in a later transaction.
\<close>

section \<open>Login states\<close>

definition auth_login :: "env \<Rightarrow> string \<Rightarrow> string \<Rightarrow> string \<Rightarrow> db \<Rightarrow> db res" where
  "auth_login e state verifier nonce d =
     (let d1 = d\<lparr>login_states := delete_where (\<lambda>l. lg_expires_at l < now e) (login_states d)\<rparr> in
      if exists_row (\<lambda>l. lg_hash l = hash e state) (login_states d1) then Inl (Crash ''login_states_pkey'')
      else Inr (d1\<lparr>login_states := login_states d1 @
        [\<lparr> lg_hash = hash e state, lg_verifier = verifier, lg_nonce = nonce, lg_expires_at = now e + 600000 \<rparr>]\<rparr>))"

text \<open>\<open>cookie\<close> is the login cookie; the row is deleted and returned at once.\<close>

definition consume_login :: "env \<Rightarrow> string option \<Rightarrow> db \<Rightarrow> (login_row \<times> db) res" where
  "consume_login e cookie d = (case cookie of None \<Rightarrow> Inl (HarborError 401 ''LOGIN_STATE'')
     | Some state \<Rightarrow> if state = [] then Inl (HarborError 401 ''LOGIN_STATE'')
         else (let live = (\<lambda>l. lg_hash l = hash e state \<and> lg_expires_at l > now e) in
           andThen (first_row (HarborError 401 ''LOGIN_STATE'') (find live (login_states d))) (\<lambda>row.
             Inr (row, d\<lparr>login_states := delete_where live (login_states d)\<rparr>))))"

text \<open>What the provider's token says: \<^verbatim>\<open>claims.iss\<close> and \<^verbatim>\<open>claims.sub\<close>.\<close>

type_synonym claims = "string \<times> string"

definition is_owner :: "env \<Rightarrow> claims option \<Rightarrow> bool" where
  "is_owner e c \<longleftrightarrow> c = Some (oidc_issuer e, owner_subject e)"

definition new_browser :: "env \<Rightarrow> int \<Rightarrow> string \<Rightarrow> string \<Rightarrow> browser_row" where
  "new_browser e absolute token csrf = \<lparr> br_hash = hash e token, br_csrf = csrf, br_last_seen = now e,
     br_expires_at = now e + absolute * 1000, br_revoked = False, br_pin = identity_pin e \<rparr>"

definition revoke_browser :: "string \<Rightarrow> db \<Rightarrow> db" where
  "revoke_browser h d = d\<lparr>browser_sessions := update_where (\<lambda>b. br_hash b = h) (\<lambda>b. b\<lparr>br_revoked := True\<rparr>) (browser_sessions d)\<rparr>"

text \<open>
  From the provider's answer on; \<open>absolute\<close> is \<^verbatim>\<open>HARBOR_ABSOLUTE_SECONDS\<close> and \<open>old\<close> the session
  cookie that the browser still had.
\<close>

definition finish_login :: "env \<Rightarrow> int \<Rightarrow> claims option res \<Rightarrow> string option \<Rightarrow> string \<Rightarrow> string \<Rightarrow> db \<Rightarrow> db res" where
  "finish_login e absolute answer old token csrf d =
     andThen answer (\<lambda>c.
     if \<not> is_owner e c then Inl (HarborError 403 ''OWNER_DENIED'')
     else (let d1 = (case old of None \<Rightarrow> d | Some t \<Rightarrow> if t = [] then d else revoke_browser (hash e t) d) in
       if exists_row (\<lambda>b. br_hash b = hash e token) (browser_sessions d1) then Inl (Crash ''browser_sessions_pkey'')
       else Inr (d1\<lparr>browser_sessions := browser_sessions d1 @ [new_browser e absolute token csrf]\<rparr>)))"

section \<open>The system\<close>

text \<open>
  \<open>sg_pending\<close> are callbacks that wait for the provider, with the row they consumed and its time.
  \<open>sg_issued\<close> lists the hash of every state issued and when, \<open>sg_signed\<close> for every browser session made
  the session's hash, the state's hash, the time the state was consumed and the claims. \<open>sg_owner\<close> is
  the owner that the server was configured with.
\<close>

record signed =
  sn_session :: string
  sn_state :: string
  sn_consumed :: time
  sn_claims :: "claims option"

record sign_world =
  sg_owner :: claims
  sg_db :: db
  sg_pending :: "(login_row \<times> time) list"
  sg_issued :: "(string \<times> time) list"
  sg_signed :: "signed list"

datatype sign_event = Login string string string | Callback "string option"
  | Answered nat int "claims option res" "string option" string string
  | SignedOut string | Authenticated string | Bound string | SignMaintained | Otherwise db

definition sign_start :: "claims \<Rightarrow> db \<Rightarrow> sign_world" where
  "sign_start owner d = \<lparr> sg_owner = owner, sg_db = d\<lparr> login_states := [], browser_sessions := [] \<rparr>, sg_pending = [], sg_issued = [], sg_signed = [] \<rparr>"

definition answered :: "env \<Rightarrow> nat \<Rightarrow> int \<Rightarrow> claims option res \<Rightarrow> string option \<Rightarrow> string \<Rightarrow> string \<Rightarrow> sign_world \<Rightarrow> sign_world res" where
  "answered e k absolute answer old token csrf w =
     (if \<not> k < length (sg_pending w) then Inl (Crash ''pending'')
      else let p = sg_pending w ! k; w1 = w\<lparr>sg_pending := take k (sg_pending w) @ drop (Suc k) (sg_pending w)\<rparr> in
        (case finish_login e absolute answer old token csrf (sg_db w) of
           Inl _ \<Rightarrow> Inr w1
         | Inr d \<Rightarrow> Inr (w1\<lparr> sg_db := d, sg_signed := sg_signed w @ [\<lparr> sn_session = hash e token, sn_state = lg_hash (fst p),
             sn_consumed = snd p, sn_claims = (case answer of Inr c \<Rightarrow> c | Inl _ \<Rightarrow> None) \<rparr>] \<rparr>)))"

definition sign_act :: "env \<Rightarrow> sign_event \<Rightarrow> sign_world \<Rightarrow> sign_world res" where
  "sign_act e y w = (case y of
     Login state verifier nonce \<Rightarrow> andThen (auth_login e state verifier nonce (sg_db w)) (\<lambda>d.
       Inr (w\<lparr> sg_db := d, sg_issued := sg_issued w @ [(hash e state, now e)] \<rparr>))
   | Callback cookie \<Rightarrow> andThen (consume_login e cookie (sg_db w)) (\<lambda>(row, d).
       Inr (w\<lparr> sg_db := d, sg_pending := sg_pending w @ [(row, now e)] \<rparr>))
   | Answered k absolute answer old token csrf \<Rightarrow> answered e k absolute answer old token csrf w
   | SignedOut h \<Rightarrow> andThen (logout e h (sg_db w)) (\<lambda>d. Inr (w\<lparr>sg_db := d\<rparr>))
   | Authenticated h \<Rightarrow> andThen (authenticateBrowser e (sg_db w) h) (\<lambda>(_, d). Inr (w\<lparr>sg_db := d\<rparr>))
   | Bound pin \<Rightarrow> Inr (w\<lparr>sg_db := bindIdentity e pin (sg_db w)\<rparr>)
   | SignMaintained \<Rightarrow> Inr (w\<lparr>sg_db := maintain (now e) (sg_db w)\<rparr>)
   | Otherwise d \<Rightarrow> Inr (w\<lparr>sg_db := d\<lparr> login_states := login_states (sg_db w), browser_sessions := browser_sessions (sg_db w) \<rparr>\<rparr>))"

definition sign_happen :: "env \<times> sign_event \<Rightarrow> sign_world \<Rightarrow> sign_world res" where
  "sign_happen x w = (if (oidc_issuer (fst x), owner_subject (fst x)) \<noteq> sg_owner w then Inl (Crash ''configuration'')
     else sign_act (fst x) (snd x) w)"

section \<open>Every session comes from one sign-in\<close>

text \<open>The states that are still stored, wait for the provider or have become a session, and those issued.\<close>

definition states_of :: "sign_world \<Rightarrow> string multiset" where
  "states_of w = mset (map lg_hash (login_states (sg_db w))) + mset (map (\<lambda>p. lg_hash (fst p)) (sg_pending w)) + mset (map sn_state (sg_signed w))"

definition fresh_login :: "sign_world \<Rightarrow> string \<Rightarrow> time \<Rightarrow> bool" where
  "fresh_login w h at \<longleftrightarrow> (\<exists>t. (h, t) \<in> set (sg_issued w) \<and> at < t + 600000)"

definition sign_ok :: "sign_world \<Rightarrow> bool" where
  "sign_ok w \<longleftrightarrow> states_of w \<subseteq># mset (map fst (sg_issued w)) \<and>
     (\<forall>l \<in> set (login_states (sg_db w)). (lg_hash l, lg_expires_at l - 600000) \<in> set (sg_issued w)) \<and>
     (\<forall>p \<in> set (sg_pending w). fresh_login w (lg_hash (fst p)) (snd p)) \<and>
     (\<forall>s \<in> set (sg_signed w). fresh_login w (sn_state s) (sn_consumed s) \<and> sn_claims s = Some (sg_owner w)) \<and>
     br_hash ` set (browser_sessions (sg_db w)) \<subseteq> sn_session ` set (sg_signed w)"

text \<open>What the sign-ins have recorded only grows.\<close>

definition sign_grows :: "sign_world \<Rightarrow> sign_world \<Rightarrow> bool" where
  "sign_grows w w' \<longleftrightarrow> sg_owner w' = sg_owner w \<and> set (sg_issued w) \<subseteq> set (sg_issued w') \<and> set (sg_signed w) \<subseteq> set (sg_signed w')"

lemma mset_delete_where: "mset (map f (delete_where P xs)) \<subseteq># mset (map f xs)"
  by (simp add: delete_where_def mset_filter image_mset_subseteq_mono)

lemma mset_take_one:
  assumes "find P xs = Some x"
  shows "add_mset (f x) (mset (map f (delete_where P xs))) \<subseteq># mset (map f xs)"
  using assms
proof (induction xs)
  case (Cons y ys)
  show ?case
  proof (cases "P y")
    case True
    then show ?thesis using Cons.prems mset_delete_where [of f P ys] by (simp add: delete_where_def)
  next
    case False
    then show ?thesis using Cons by (simp add: delete_where_def)
  qed
qed simp

lemma mset_drop_nth:
  assumes "k < length xs"
  shows "mset (map f xs) = add_mset (f (xs ! k)) (mset (map f (take k xs @ drop (Suc k) xs)))"
proof -
  have "xs = take k xs @ xs ! k # drop (Suc k) xs" using assms by (rule id_take_nth_drop)
  then have "mset (map f xs) = mset (map f (take k xs @ xs ! k # drop (Suc k) xs))" by (rule arg_cong)
  then show ?thesis by simp
qed

lemma fresh_login_grows: "fresh_login w h at \<Longrightarrow> set (sg_issued w) \<subseteq> set (sg_issued w') \<Longrightarrow> fresh_login w' h at"
  by (auto simp: fresh_login_def)

text \<open>A step that issues and signs nothing and only loses login states.\<close>

lemma sign_ok_frame:
  assumes "sign_ok w" "sg_issued w' = sg_issued w" "sg_signed w' = sg_signed w" "sg_pending w' = sg_pending w" "sg_owner w' = sg_owner w"
    and "login_states (sg_db w') = delete_where P (login_states (sg_db w))"
    and "br_hash ` set (browser_sessions (sg_db w')) \<subseteq> br_hash ` set (browser_sessions (sg_db w))"
  shows "sign_ok w' \<and> sign_grows w w'"
proof -
  have "states_of w' \<subseteq># states_of w" unfolding states_of_def assms(3,4,6)
    by (intro subset_mset.add_right_mono mset_delete_where)
  moreover have "br_hash ` set (browser_sessions (sg_db w')) \<subseteq> sn_session ` set (sg_signed w)"
    unfolding assms(3) by (rule order_trans [OF assms(7)]) (use assms(1) in \<open>simp add: sign_ok_def\<close>)
  ultimately show ?thesis using assms(1-6)
    by (simp add: sign_ok_def sign_grows_def fresh_login_def set_delete_where subset_mset.order_trans)
qed

lemma update_hashes: "(\<And>b. br_hash (f b) = br_hash b) \<Longrightarrow> br_hash ` set (update_where P f xs) = br_hash ` set xs"
  using map_update_where_key [where key = br_hash and f = f and P = P and rows = xs] by (metis set_map)

lemma delete_hashes: "br_hash ` set (delete_where P xs) \<subseteq> br_hash ` set xs"
  by (auto simp: set_delete_where)

lemma auth_login_keeps:
  assumes "auth_login e state verifier nonce (sg_db w) = Inr d" "sign_ok w" "w' = w\<lparr> sg_db := d, sg_issued := sg_issued w @ [(hash e state, now e)] \<rparr>"
  shows "sign_ok w' \<and> sign_grows w w'"
proof -
  let ?row = "\<lparr> lg_hash = hash e state, lg_verifier = verifier, lg_nonce = nonce, lg_expires_at = now e + 600000 \<rparr>"
  let ?P = "\<lambda>l. lg_expires_at l < now e"
  have d: "login_states d = delete_where ?P (login_states (sg_db w)) @ [?row]" "browser_sessions d = browser_sessions (sg_db w)"
    using assms(1) by (auto simp: auth_login_def Let_def split: if_splits)
  have "mset (map lg_hash (delete_where ?P (login_states (sg_db w)))) + mset (map (\<lambda>p. lg_hash (fst p)) (sg_pending w)) +
      mset (map sn_state (sg_signed w)) \<subseteq># states_of w"
    unfolding states_of_def by (intro subset_mset.add_right_mono mset_delete_where)
  also have "\<dots> \<subseteq># mset (map fst (sg_issued w))" using assms(2) by (simp add: sign_ok_def)
  finally have "states_of w' \<subseteq># mset (map fst (sg_issued w'))" by (simp add: states_of_def assms(3) d(1) ac_simps)
  then show ?thesis using assms(2) d
    by (auto simp: sign_ok_def sign_grows_def fresh_login_def assms(3) set_delete_where)
qed

lemma consume_login_keeps:
  assumes "consume_login e cookie (sg_db w) = Inr (row, d)" "sign_ok w" "w' = w\<lparr> sg_db := d, sg_pending := sg_pending w @ [(row, now e)] \<rparr>"
  shows "sign_ok w' \<and> sign_grows w w'"
proof -
  obtain P where P: "find P (login_states (sg_db w)) = Some row" "login_states d = delete_where P (login_states (sg_db w))"
      "lg_expires_at row > now e" "browser_sessions d = browser_sessions (sg_db w)"
  proof -
    obtain st where "find (\<lambda>l. lg_hash l = hash e st \<and> lg_expires_at l > now e) (login_states (sg_db w)) = Some row"
        "d = (sg_db w)\<lparr>login_states := delete_where (\<lambda>l. lg_hash l = hash e st \<and> lg_expires_at l > now e) (login_states (sg_db w))\<rparr>"
      using assms(1) by (auto simp: consume_login_def Let_def res_simps split: option.splits if_splits)
    then show thesis using find_Some_in by (intro that [of "\<lambda>l. lg_hash l = hash e st \<and> lg_expires_at l > now e"]) fastforce+
  qed
  have row: "row \<in> set (login_states (sg_db w))" using P(1) by (simp add: find_Some_in)
  have "states_of w' \<subseteq># states_of w"
    using subset_mset.add_right_mono [OF subset_mset.add_right_mono [OF mset_take_one [OF P(1), of lg_hash]]]
    by (simp add: states_of_def assms(3) P(2))
  moreover have "fresh_login w (lg_hash row) (now e)" unfolding fresh_login_def
  proof (intro exI conjI)
    show "(lg_hash row, lg_expires_at row - 600000) \<in> set (sg_issued w)" using assms(2) row by (simp add: sign_ok_def)
    show "now e < lg_expires_at row - 600000 + 600000" using P(3) by simp
  qed
  ultimately show ?thesis using assms(2) P(2,4)
    by (auto simp: sign_ok_def sign_grows_def fresh_login_def assms(3) set_delete_where intro: subset_mset.order_trans)
qed

lemma finish_login_Inr:
  assumes "finish_login e absolute answer old token csrf d = Inr d'"
  shows "\<exists>c. answer = Inr c \<and> is_owner e c" "login_states d' = login_states d"
    "br_hash ` set (browser_sessions d') = insert (hash e token) (br_hash ` set (browser_sessions d))"
proof -
  let ?d = "case old of None \<Rightarrow> d | Some t \<Rightarrow> if t = [] then d else revoke_browser (hash e t) d"
  have d': "d' = ?d\<lparr>browser_sessions := browser_sessions ?d @ [new_browser e absolute token csrf]\<rparr>" and c: "\<exists>c. answer = Inr c \<and> is_owner e c"
    using assms by (auto simp: finish_login_def Let_def res_simps split: if_splits)
  have same: "login_states ?d = login_states d" "br_hash ` set (browser_sessions ?d) = br_hash ` set (browser_sessions d)"
    by (simp_all add: revoke_browser_def update_hashes split: option.split)
  show "\<exists>c. answer = Inr c \<and> is_owner e c" by (rule c)
  show "login_states d' = login_states d" using same by (simp add: d')
  show "br_hash ` set (browser_sessions d') = insert (hash e token) (br_hash ` set (browser_sessions d))"
    using same by (simp add: d' new_browser_def)
qed

lemma answered_keeps:
  assumes "answered e k absolute answer old token csrf w = Inr w'" "sign_ok w" "sg_owner w = (oidc_issuer e, owner_subject e)"
  shows "sign_ok w' \<and> sign_grows w w'"
proof -
  let ?rest = "take k (sg_pending w) @ drop (Suc k) (sg_pending w)"
  have k: "k < length (sg_pending w)" using assms(1) by (auto simp: answered_def split: if_splits)
  have m: "mset (map (\<lambda>p. lg_hash (fst p)) (sg_pending w)) = add_mset (lg_hash (fst (sg_pending w ! k))) (mset (map (\<lambda>p. lg_hash (fst p)) ?rest))"
    by (rule mset_drop_nth [OF k])
  have sub: "set ?rest \<subseteq> set (sg_pending w)" by (auto dest: in_set_takeD in_set_dropD)
  show ?thesis
  proof (cases "finish_login e absolute answer old token csrf (sg_db w)")
    case (Inl f)
    then have w': "w' = w\<lparr>sg_pending := ?rest\<rparr>" using assms(1) k by (simp add: answered_def Let_def)
    have "states_of w' \<subseteq># states_of w" unfolding states_of_def m by (simp add: w')
    then show ?thesis using assms(2) sub
      by (auto simp: sign_ok_def sign_grows_def fresh_login_def w' intro: subset_mset.order_trans)
  next
    case (Inr d)
    let ?s = "\<lparr> sn_session = hash e token, sn_state = lg_hash (fst (sg_pending w ! k)), sn_consumed = snd (sg_pending w ! k),
        sn_claims = (case answer of Inr c \<Rightarrow> c | Inl _ \<Rightarrow> None) \<rparr>"
    have w': "w' = w\<lparr> sg_pending := ?rest, sg_db := d, sg_signed := sg_signed w @ [?s] \<rparr>"
      using assms(1) k Inr by (simp add: answered_def Let_def)
    note f = finish_login_Inr [OF Inr]
    have "states_of w' = states_of w" unfolding states_of_def m by (simp add: w' f(2))
    moreover have "fresh_login w (sn_state ?s) (sn_consumed ?s)"
      using assms(2) nth_mem [OF k] by (simp add: sign_ok_def)
    moreover have "sn_claims ?s = Some (sg_owner w)" using f(1) assms(3) by (auto simp: is_owner_def)
    ultimately show ?thesis using assms(2) sub f(2,3)
      by (auto simp: sign_ok_def sign_grows_def fresh_login_def w')
  qed
qed

lemma browser_frames:
  "logout e h d = Inr d' \<Longrightarrow> login_states d' = login_states d \<and> br_hash ` set (browser_sessions d') = br_hash ` set (browser_sessions d)"
  "authenticateBrowser e d h = Inr (a, d'') \<Longrightarrow> login_states d'' = login_states d \<and> br_hash ` set (browser_sessions d'') = br_hash ` set (browser_sessions d)"
  "login_states (bindIdentity e pin d) = login_states d"
  "br_hash ` set (browser_sessions (bindIdentity e pin d)) = br_hash ` set (browser_sessions d)"
proof -
  assume "logout e h d = Inr d'"
  then have "d' = revoke_browser h d" by (auto simp: logout_def revoke_browser_def res_simps)
  then show "login_states d' = login_states d \<and> br_hash ` set (browser_sessions d') = br_hash ` set (browser_sessions d)"
    by (simp add: revoke_browser_def update_hashes)
next
  assume "authenticateBrowser e d h = Inr (a, d'')"
  then have "d'' = d\<lparr>browser_sessions := update_where (\<lambda>b. br_hash b = h) (\<lambda>b. b\<lparr>br_last_seen := now e\<rparr>) (browser_sessions d)\<rparr>"
    by (auto simp: authenticateBrowser_def res_simps)
  then show "login_states d'' = login_states d \<and> br_hash ` set (browser_sessions d'') = br_hash ` set (browser_sessions d)"
    by (simp add: update_hashes)
qed (simp_all add: bindIdentity_def update_hashes)

lemma prune_all_logins: "login_states (prune_all at d) = login_states d" "browser_sessions (prune_all at d) = browser_sessions d"
  using prune_all_frame [of at d] by auto

lemma maintain_logins:
  "login_states (maintain at d) = delete_where (\<lambda>l. lg_expires_at l < at) (login_states d)"
  "br_hash ` set (browser_sessions (maintain at d)) \<subseteq> br_hash ` set (browser_sessions d)"
  by (simp_all add: maintain_def Let_def prune_all_logins delete_hashes)

lemma delete_none: "delete_where (\<lambda>_. False) xs = xs"
  by (simp add: delete_where_def)

lemma sign_happen_keeps:
  assumes "sign_happen x w = Inr w'" "sign_ok w"
  shows "sign_ok w' \<and> sign_grows w w'"
proof -
  obtain e y where x: "x = (e, y)" by force
  have owner: "sg_owner w = (oidc_issuer e, owner_subject e)" and act: "sign_act e y w = Inr w'"
    using assms(1) x by (auto simp: sign_happen_def split: if_splits)
  have frame: "sign_ok w' \<and> sign_grows w w'"
    if "w' = w\<lparr>sg_db := d\<rparr>" "login_states d = login_states (sg_db w)" "br_hash ` set (browser_sessions d) = br_hash ` set (browser_sessions (sg_db w))" for d
    by (rule sign_ok_frame [OF assms(2), where P = "\<lambda>_. False"]) (use that in \<open>simp_all add: delete_none\<close>)
  show ?thesis
  proof (cases y)
    case (Login state verifier nonce)
    then obtain d where "auth_login e state verifier nonce (sg_db w) = Inr d" "w' = w\<lparr> sg_db := d, sg_issued := sg_issued w @ [(hash e state, now e)] \<rparr>"
      using act by (auto simp: sign_act_def res_simps)
    then show ?thesis using auth_login_keeps assms(2) by blast
  next
    case (Callback cookie)
    then obtain row d where "consume_login e cookie (sg_db w) = Inr (row, d)" "w' = w\<lparr> sg_db := d, sg_pending := sg_pending w @ [(row, now e)] \<rparr>"
      using act by (auto simp: sign_act_def res_simps)
    then show ?thesis using consume_login_keeps assms(2) by blast
  next
    case (Answered k absolute answer old token csrf)
    then have "answered e k absolute answer old token csrf w = Inr w'" using act by (simp add: sign_act_def)
    then show ?thesis using assms(2) owner by (rule answered_keeps)
  next
    case (SignedOut h)
    then obtain d where "logout e h (sg_db w) = Inr d" "w' = w\<lparr>sg_db := d\<rparr>" using act by (auto simp: sign_act_def res_simps)
    then show ?thesis using browser_frames(1) frame by blast
  next
    case (Authenticated h)
    then obtain a d where "authenticateBrowser e (sg_db w) h = Inr (a, d)" "w' = w\<lparr>sg_db := d\<rparr>" using act by (auto simp: sign_act_def res_simps)
    then show ?thesis using browser_frames(2) frame by blast
  next
    case (Bound pin)
    then have "w' = w\<lparr>sg_db := bindIdentity e pin (sg_db w)\<rparr>" using act by (simp add: sign_act_def)
    then show ?thesis using browser_frames(3,4) frame by blast
  next
    case SignMaintained
    then have w': "w' = w\<lparr>sg_db := maintain (now e) (sg_db w)\<rparr>" using act by (simp add: sign_act_def)
    show ?thesis by (rule sign_ok_frame [OF assms(2)]) (simp_all add: w' maintain_logins)
  next
    case (Otherwise d)
    then have "w' = w\<lparr>sg_db := d\<lparr> login_states := login_states (sg_db w), browser_sessions := browser_sessions (sg_db w) \<rparr>\<rparr>"
      using act by (simp add: sign_act_def)
    then show ?thesis by (rule frame) simp_all
  qed
qed

interpretation sign_life: evolving_ops sign_happen sign_ok sign_grows
  by unfold_locales (use sign_happen_keeps in blast, use sign_happen_keeps in blast, auto simp: sign_grows_def)

lemma sign_start_ok: "sign_ok (sign_start owner d)"
  by (simp add: sign_ok_def sign_start_def states_of_def)

text \<open>C6: A browser session exists only because the owner signed in. In every history, each session that the data base holds was made by a callback whose login state was issued by this server less than ten minutes before it was consumed and whose claims name the configured owner, and no login state, issued once, makes two sessions.\<close>

theorem sessions_come_from_sign_ins:
  assumes "w = serve sign_happen xs (sign_start owner d)" "b \<in> set (browser_sessions (sg_db w))"
  shows "(\<exists>s \<in> set (sg_signed w). sn_session s = br_hash b \<and> sn_claims s = Some owner \<and>
      (\<exists>t. (sn_state s, t) \<in> set (sg_issued w) \<and> sn_consumed s < t + 600000)) \<and>
    count (mset (map sn_state (sg_signed w))) h \<le> count (mset (map fst (sg_issued w))) h"
proof -
  have ok: "sign_ok w" unfolding assms(1) by (intro sign_life.serve_keeps sign_start_ok)
  have grows: "sg_owner w = owner" using sign_life.serve_moves [OF sign_start_ok [of owner d], of xs] unfolding assms(1)
    by (simp add: sign_grows_def) (simp add: sign_start_def)
  have "br_hash b \<in> sn_session ` set (sg_signed w)" using ok assms(2) unfolding sign_ok_def by blast
  then obtain s where s: "s \<in> set (sg_signed w)" "sn_session s = br_hash b" by force
  have "mset (map sn_state (sg_signed w)) \<subseteq># states_of w" by (simp add: states_of_def)
  moreover have "states_of w \<subseteq># mset (map fst (sg_issued w))" using ok by (simp add: sign_ok_def)
  ultimately have "mset (map sn_state (sg_signed w)) \<subseteq># mset (map fst (sg_issued w))" by (rule subset_mset.order_trans)
  then have "count (mset (map sn_state (sg_signed w))) h \<le> count (mset (map fst (sg_issued w))) h" by (rule mset_subset_eq_count)
  moreover have "fresh_login w (sn_state s) (sn_consumed s)" "sn_claims s = Some owner" using ok s(1) grows by (simp_all add: sign_ok_def)
  ultimately show ?thesis using s unfolding fresh_login_def by blast
qed

section \<open>A concrete sign-in\<close>

definition demo_signs :: "(env \<times> sign_event) list" where
  "demo_signs = map (Pair demo_env) [Login ''q'' ''v'' ''n'', Callback (Some ''q''), Callback (Some ''q''),
     Answered 0 43200 (Inr (Some (''i'', ''o''))) None ''tok'' ''csrf'']"

theorem sessions_come_from_sign_ins_witness:
  "\<exists>b \<in> set (browser_sessions (sg_db (serve sign_happen demo_signs (sign_start (''i'', ''o'') demo_db)))).
     br_hash b = ''#tok'' \<and> (\<exists>s \<in> set (sg_signed (serve sign_happen demo_signs (sign_start (''i'', ''o'') demo_db))). sn_session s = br_hash b)"
proof -
  let ?w = "serve sign_happen demo_signs (sign_start (''i'', ''o'') demo_db)"
  have "map br_hash (browser_sessions (sg_db ?w)) = [''#tok'']" by code_simp
  then obtain b where b: "b \<in> set (browser_sessions (sg_db ?w))" "br_hash b = ''#tok''" by (cases "browser_sessions (sg_db ?w)") auto
  show ?thesis using sessions_come_from_sign_ins [OF refl b(1)] b by blast
qed

end
