(* ===== verification/Spec2Isabelle.thy ===== *)
theory Spec2Isabelle
  imports Schedule_History Terminal_Rows Turn_History Recovery_Safety Api_History Event_Delivery Sign_In
begin

text \<open>
  Codex Harbor: a server that runs coding agents in managed workspaces on behalf of one owner.

  \<^bold>\<open>The program.\<close> An API process (\<^verbatim>\<open>apps/api\<close>) answers the browser and API
  tokens; a supervisor (\<^verbatim>\<open>apps/supervisor\<close>) owns the processes that do the work.
  They share nothing but a PostgreSQL data base, and each of their steps is one transaction. The
  logic of the steps is in \<^verbatim>\<open>packages\<close>: who may do what
  (\<^verbatim>\<open>policy\<close>), conversations and their turns (\<^verbatim>\<open>storage\<close>), the files
  a turn works on (\<^verbatim>\<open>workspaces\<close>), uploaded pictures
  (\<^verbatim>\<open>attachments\<close>), recurring work (\<^verbatim>\<open>schedules\<close>) and shells
  (\<^verbatim>\<open>terminals\<close>). A workspace has at most one writer at a time, a conversation or a
  terminal; that reservation, with an epoch that no one else can have, is what the components
  compete for. Every request is authorised again inside its transaction.

  \<^bold>\<open>How it is modelled.\<close> The data base is the record \<open>db\<close> of theory \<open>Database\<close>: one field
  per table, a table being the list of its rows and a row a record with one field per column. A
  transaction is a function \<open>db \<Rightarrow> failure + (.. \<times> db)\<close>; a result \<open>Inl\<close> is an exception and the
  state before it stays, as the roll-back has it. \<open>HarborError\<close> keeps status and code of the
  program's own exceptions, \<open>Crash\<close> stands for all others. Where the program commits several
  transactions in a row, the function returns the state it leaves beside the exception. What a
  request reads from outside (clock, SHA-256, configuration, file system, time zone data base) is
  the record \<open>env\<close>, fresh identifiers are arguments, and every definition that uses them holds for
  all their values. One transaction reads one clock. A \<open>string\<close> is a list of bytes; lengths and
  slices that JavaScript counts in UTF-16 units agree on ASCII text. A statement that updates or
  deletes rows is \<open>update_where\<close> or \<open>delete_where\<close> of theory \<open>Prelude\<close>; constraints the program
  relies on (primary keys, checks, the writer trigger of migration 014) are branches that crash.

  \<^bold>\<open>Theories.\<close>

  \<^item> \<open>Prelude\<close>, \<open>Database\<close>, \<open>Samples\<close>: results, tables, JSON; the tables and the environment; a
    small instance on which the witnesses evaluate. The locales of \<open>Prelude\<close> are the interfaces:
    \<open>invariant_ops\<close> (operations that keep an invariant), \<open>evolving_ops\<close> (that also move the state
    along a preorder), \<open>bounded_ops\<close> (that admit below a quota),
    \<open>keyed_ops\<close> (that never add a key twice); each is interpreted on the operations of a
    component, and its lemmas speak of any sequence of requests.
  \<^item> \<open>Policy\<close>: \<^verbatim>\<open>packages/policy/src\<close>, deployment admission. API tokens never exceed
    what is written on them, and rotating the owner's identity kills every credential.
  \<^item> \<open>Storage\<close>: \<^verbatim>\<open>packages/storage/src\<close>: the event log with its replay window, the
    lock order, derived session state, the capacity of a conversation, cancellation, runtimes,
    maintenance. The log above the floor is complete; a cancellation is never refused for lack of
    space.
  \<^item> \<open>Workspaces\<close>: selection, verification, idleness, creation, reservation and release
    (\<^verbatim>\<open>packages/workspaces/src\<close>, \<^verbatim>\<open>apps/supervisor/src/workspace-*.ts\<close>)
    and the writer trigger. A reservation excludes every other writer and is fenced by its epoch.
  \<^item> \<open>Attachments\<close>: media checks, association and cleaning (\<^verbatim>\<open>packages/attachments\<close>).
  \<^item> \<open>Turns\<close>: \<^verbatim>\<open>acceptConversationTurn\<close> and its schema.
  \<^item> \<open>Schedule_Time\<close>, \<open>Schedule_Authority\<close>, \<open>Schedule_Capacity\<close>, \<open>Schedule_Admission\<close>,
    \<open>Schedule_Management\<close>, \<open>Schedule_Planner\<close>, \<open>Schedule_Execution\<close>, \<open>Schedule_Commands\<close>:
    \<^verbatim>\<open>packages/schedules/src\<close> and the writing routes of
    \<^verbatim>\<open>apps/api/src/schedules.ts\<close>, in the order in which they call each other.
    \<open>Schedule_Invariants\<close> states what a schedule is allowed to do (the step relation \<open>life\<close>, the
    abstract specification) and the consistency of its tables. \<open>Schedule_Walk\<close> puts the requests
    together: its locale \<open>schedule_walk\<close> asks of a relation to hold across each kind of
    statement, and gives it for the planner, the worker and the commands. \<open>Schedule_Lifecycle\<close>
    and \<open>Schedule_System\<close> interpret it, so every request refines the life cycle and keeps the
    tables consistent; \<open>Schedule_History\<close> interprets it again, so receipts last as long as their
    retry window, cursors never go back, and neither a command nor a minute runs twice in any
    history. \<open>Schedule_Receipts\<close> and \<open>Schedule_Outcomes\<close> hold what single commands, batches
    and settlements do.
  \<^item> \<open>Base64\<close>, \<open>Terminals\<close>, \<open>Terminal_Routes\<close>: \<^verbatim>\<open>packages/terminals/src\<close> and
    \<^verbatim>\<open>apps/api/src/terminals.ts\<close>; \<open>Terminal_Supervisor\<close>:
    \<^verbatim>\<open>apps/supervisor/src/terminals.ts\<close>, from the notification of the runtime to the
    tick. \<open>Terminal_Output\<close> and \<open>Terminal_Stream\<close> follow the output from the process to the
    browser, with notifications, failing batches, requests and the other statements interleaved.
    \<open>Terminal_Events\<close> makes one operation \<open>happen\<close> of the requests and of the transactions that a
    tick consists of; \<open>Terminal_Control\<close> shows how each event moves controller, epoch and input
    numbers, and interprets the locales on it; \<open>Terminal_Safety\<close> and \<open>Terminal_Rows\<close> conclude what
    holds at any two moments of any run: input is sent once, by the controller of the moment, and
    rows and reservations stay within their limits.
  \<^item> \<open>Turn_Supervisor\<close>, \<open>Turn_Runtime\<close>, \<open>Turn_Dispatch\<close>, \<open>Turn_Controls\<close>:
    \<^verbatim>\<open>apps/supervisor/src/main.ts\<close> with \<^verbatim>\<open>conversation-output.ts\<close>
    and \<^verbatim>\<open>runtime-capacity.ts\<close>. The record \<open>dispatcher\<close> is the memory of one
    supervisor: its runtimes, what it still owes, the candidate it works on and the reply it waits
    for. Each function is one transaction or the memory change between two; a tick is a sequence of
    them, so other events may come in between wherever the code awaits.
  \<^item> \<open>Recovery\<close>: \<^verbatim>\<open>recovery.ts\<close> of both applications; \<open>Conversation_Routes\<close>: the
    writing routes of conversations in \<^verbatim>\<open>server.ts\<close> and
    \<^verbatim>\<open>history.ts\<close>.
  \<^item> \<open>Api_Requests\<close>, \<open>Api_Command\<close>: how \<^verbatim>\<open>server.ts\<close> authenticates a
    request, which routes a token may use (\<^verbatim>\<open>token-access.ts\<close>), and the
    \<^verbatim>\<open>command\<close> around every writing route. \<open>Credentials\<close>:
    \<^verbatim>\<open>apps/supervisor/src/credentials.ts\<close>. \<open>Api_Routes\<close> joins the routes with
    the command, the credential store and maintenance to one system, and records for every request
    whether its function ran, which shows when the data base changed or the call needs the function
    to succeed; \<open>Api_History\<close> shows that the system refines an abstract \<open>ledger\<close> of intents, and
    with it that a key runs its route once and keeps its answer.
  \<^item> \<open>Sign_In\<close>: signing in, from the login state to the browser session. \<open>Event_Stream\<close>: the
    event stream of a conversation, a check and a page per tick, with a clock each; \<open>Event_Delivery\<close>
    shows that its clients receive a gapless piece of the log and that no stream stalls, with other
    requests between the two steps.
  \<^item> \<open>Turn_Events\<close> makes one operation \<open>turn_happen\<close> of requests, starts of supervisors and
    their steps; its state \<open>world\<close> is the data base, every supervisor that was ever started and the
    list of turns written to a runtime. \<open>Turn_Progress\<close>, \<open>Turn_Order\<close> and \<open>Turn_Once\<close> show how each
    event moves operations and work in hand, \<open>Turn_Safety\<close> interprets \<open>evolving_ops\<close> on it,
    \<open>Turn_Wire\<close> ties the turn in hand to the runtime that is bound to it, and
    \<open>Turn_History\<close> concludes: a turn is started at most once, forward only, under the authority of
    the moment, and by the newest supervisor. \<open>Turn_Output\<close> bounds the messages of a conversation;
    \<open>Recovery_Safety\<close> refines the abstract machine \<open>rc_step\<close>.

  \<^bold>\<open>Bounds and fuel.\<close> Quotas, windows and limits are the program's numbers (256 and 8192
  occurrences of history, batches of three minutes, 128 pending inputs, chunks of 16384 bytes and
  windows of 256 chunks, and so on). The loops of \<open>Schedule_Time\<close> are \<open>function\<close>s that end when
  the horizon or the first date is reached (a \<open>measure\<close>), before the program's own limits on dates
  and conversions do; \<open>capacity_rounds\<close> counts the two attempts of the program's loop and has no
  other fuel; the loop of \<open>Terminal_Supervisor\<close> that cuts output into chunks is a
  \<open>partial_function\<close>, whose value is \<open>None\<close> where it does not return, and is shown to
  return. The one recursion of \<^verbatim>\<open>requireAuthority\<close> through a schedule's source token
  is unfolded once, which \<open>requireAuthority_rec\<close> justifies.

  \<^bold>\<open>Not modelled.\<close> The user interface, the start-up and installation code, the OpenAPI
  descriptions, the JSON-RPC adapter of the external process and the process and file system
  effects of the supervisor: they call libraries and processes whose code is not here. What a
  runtime answers, whether a process is confirmed to be gone and what a probe reads are arguments of
  the steps, for all their values. Of the supervisor, the discovery of models,
  the inspection stored after an interrupted turn and the audit rows are left out; in its terminals,
  what a runtime reports between two captures (repairs, the exit code) is no step of
  \<open>output_step\<close>, so the runs it makes save neither. A lease that the API drops when a terminal's
  socket closes (\<^verbatim>\<open>terminal-stream.ts\<close>) and what an administrator's recovery and
  module tools write (\<^verbatim>\<open>infra/deploy\<close>, \<^verbatim>\<open>deployment-modules.ts\<close>) are no
  events of the terminals. The routes of files and previews go through the same \<open>command\<close> as the
  others and are no events of the API of their own. Read-only
  routes are modelled where a property needs them. The lock statements have no effect in this
  model, since a transaction is one step; the order in which locks are taken is a result of
  \<open>lockSessionResources\<close> and stated about it.
\<close>

end
